(* ===== verification/Prelude.thy ===== *)
theory Prelude
  imports Main "HOL-Library.Word"
begin

text \<open>
  Vocabulary shared by every component: Go's byte sequences, its error values, the
  \<open>(T, error)\<close> result convention, and generic facts about lists and maps.

  A Go \<open>string\<close> and a Go \<open>[]byte\<close> are both finite byte sequences and the conversions
  between them copy bytes unchanged, so both are \<open>string\<close> here (a list of 8-bit
  characters); \<open>bytes\<close> names the binary use. A nil slice and an empty slice are the same
  value except where the code tests for nil, which is then modelled by an option.
\<close>

section \<open>Automation collections\<close>

named_theorems result_iff \<open>when a chain of fallible steps succeeds, read as a conjunction\<close>
named_theorems wire_simps \<open>evaluation of the wire codec under the protowire laws\<close>
named_theorems wire_eval \<open>evaluation of encoded bytes on the concrete wire format\<close>
named_theorems go_total \<open>a step never faults: it neither panics nor diverges\<close>
named_theorems go_eval \<open>evaluation of string operations on concrete strings\<close>

section \<open>Bytes\<close>

type_synonym bytes = string

abbreviation byte_val :: "char \<Rightarrow> nat" where
  "byte_val c \<equiv> of_char c"

abbreviation mk_byte :: "nat \<Rightarrow> char" where
  "mk_byte n \<equiv> char_of n"

lemma byte_val_less [simp]: "byte_val c < 256"
  by simp

lemma byte_val_mk_byte: "n < 256 \<Longrightarrow> byte_val (mk_byte n) = n"
  by simp

section \<open>Errors and results\<close>

text \<open>
  Go's error values. \<open>Errorf\<close> is \<open>errors.New\<close> (and \<open>fmt.Errorf\<close> without a wrapped
  error), \<open>Wrapf\<close> is \<open>fmt.Errorf\<close> with \<open>%w\<close>: the text before the wrapped error and
  the error itself. \<open>Wire_ParseError\<close> is \<open>protowire.ParseError\<close> of a negative length.
  \<open>Provider_Error\<close> carries the fields of \<open>provider.Error\<close>; \<open>OS_NotExist\<close>, \<open>Lock_Held\<close> and
  \<open>Process_Done\<close> are \<open>os.ErrNotExist\<close>, \<open>daemon.ErrLockHeld\<close> and \<open>os.ErrProcessDone\<close>, and
  \<open>Joined\<close> is \<open>errors.Join\<close> of two errors. \<open>Panic\<close> and \<open>Diverge\<close> are
  not errors of the program: they stand for a run-time fault and for a loop that makes no
  progress, so that the absence of both can be stated and proved.
\<close>

datatype goerror =
    Errorf string
  | Wrapf string goerror
  | IO_EOF
  | Context_Canceled
  | Context_DeadlineExceeded
  | Wire_ParseError int
  | Provider_Error string int bool
  | OS_NotExist
  | Lock_Held
  | Process_Done
  | Joined goerror goerror
  | Panic
  | Diverge

type_synonym 'a result = "goerror + 'a"

text \<open>\<open>errors.As\<close> and \<open>errors.Is\<close> walk the chain of wrapped errors.\<close>

fun error_root :: "goerror \<Rightarrow> goerror" where
  "error_root (Wrapf s e) = error_root e"
| "error_root e = e"

text \<open>\<open>errors.Is\<close> for one of the named errors, also behind a join.\<close>

fun error_is :: "goerror \<Rightarrow> goerror \<Rightarrow> bool" where
  "error_is target (Wrapf s e) = error_is target e"
| "error_is target (Joined e e') = (error_is target e \<or> error_is target e')"
| "error_is target e = (e = target)"

text \<open>
  Sequencing: the next step runs only if the previous one returned no error, which is
  \<open>if err != nil { return ..., err }\<close>.
\<close>

definition try_then :: "'a result \<Rightarrow> ('a \<Rightarrow> 'b result) \<Rightarrow> 'b result" where
  "try_then r k = (case r of Inl e \<Rightarrow> Inl e | Inr x \<Rightarrow> k x)"

text \<open>The same with the error wrapped on the way out.\<close>

definition try_wrap :: "(goerror \<Rightarrow> goerror) \<Rightarrow> 'a result \<Rightarrow> ('a \<Rightarrow> 'b result) \<Rightarrow> 'b result" where
  "try_wrap w r k = (case r of Inl e \<Rightarrow> Inl (w e) | Inr x \<Rightarrow> k x)"

lemma try_then_simps [simp]:
  "try_then (Inl e) k = Inl e"
  "try_then (Inr x) k = k x"
  by (simp_all add: try_then_def)

lemma try_wrap_simps [simp]:
  "try_wrap w (Inl e) k = Inl (w e)"
  "try_wrap w (Inr x) k = k x"
  by (simp_all add: try_wrap_def)

lemma try_then_Inr_iff [result_iff]:
  "try_then r k = Inr y \<longleftrightarrow> (\<exists>x. r = Inr x \<and> k x = Inr y)"
  by (cases r) auto

lemma try_wrap_Inr_iff [result_iff]:
  "try_wrap w r k = Inr y \<longleftrightarrow> (\<exists>x. r = Inr x \<and> k x = Inr y)"
  by (cases r) auto

lemma if_Inl_Inr_iff [result_iff]:
  "(if b then Inl e else r) = Inr y \<longleftrightarrow> \<not> b \<and> r = Inr y"
  by simp

lemma try_then_Inl_iff:
  "try_then r k = Inl e \<longleftrightarrow> r = Inl e \<or> (\<exists>x. r = Inr x \<and> k x = Inl e)"
  by (cases r) auto

lemma try_then_cong [fundef_cong]:
  "r = r' \<Longrightarrow> (\<And>x. r' = Inr x \<Longrightarrow> k x = k' x) \<Longrightarrow> try_then r k = try_then r' k'"
  by (cases r') auto

lemma try_wrap_cong [fundef_cong]:
  "r = r' \<Longrightarrow> (\<And>x. r' = Inr x \<Longrightarrow> k x = k' x) \<Longrightarrow> try_wrap w r k = try_wrap w r' k'"
  by (cases r') auto

text \<open>A run-time fault anywhere in an error chain.\<close>

definition is_fault :: "goerror \<Rightarrow> bool" where
  "is_fault e \<longleftrightarrow> error_root e = Panic \<or> error_root e = Diverge"

lemma is_fault_simps [simp]:
  "is_fault (Errorf s) = False"
  "is_fault (Wrapf s e) = is_fault e"
  "is_fault IO_EOF = False"
  "is_fault Context_Canceled = False"
  "is_fault (Wire_ParseError n) = False"
  "is_fault Panic" "is_fault Diverge"
  by (simp_all add: is_fault_def)

definition no_fault :: "'a result \<Rightarrow> bool" where
  "no_fault r = (case r of Inl e \<Rightarrow> \<not> is_fault e | Inr x \<Rightarrow> True)"

lemma no_fault_simps [simp]:
  "no_fault (Inl e) \<longleftrightarrow> \<not> is_fault e"
  "no_fault (Inr x)"
  by (simp_all add: no_fault_def)

lemma no_fault_try_then [go_total]:
  "no_fault r \<Longrightarrow> (\<And>x. r = Inr x \<Longrightarrow> no_fault (k x)) \<Longrightarrow> no_fault (try_then r k)"
  by (cases r) auto

lemma no_fault_try_wrap:
  "(\<And>e. r = Inl e \<Longrightarrow> \<not> is_fault (w e)) \<Longrightarrow> (\<And>x. r = Inr x \<Longrightarrow> no_fault (k x)) \<Longrightarrow>
    no_fault (try_wrap w r k)"
  by (cases r) auto

lemma no_fault_wrap [go_total]:
  "no_fault r \<Longrightarrow> (\<And>e. \<not> is_fault e \<Longrightarrow> \<not> is_fault (w e)) \<Longrightarrow>
    (\<And>x. r = Inr x \<Longrightarrow> no_fault (k x)) \<Longrightarrow> no_fault (try_wrap w r k)"
  by (cases r) auto

text \<open>
  \<open>b[n:]\<close>: Go panics when \<open>n\<close> lies outside \<open>0..len(b)\<close>.
\<close>

definition slice_from :: "int \<Rightarrow> 'a list \<Rightarrow> 'a list result" where
  "slice_from n b = (if 0 \<le> n \<and> nat n \<le> length b then Inr (drop (nat n) b) else Inl Panic)"

lemma slice_from_length: "slice_from n b = Inr c \<Longrightarrow> length c = length b - nat n"
  by (auto simp: slice_from_def split: if_splits)

section \<open>Loops over a list that may stop with an error\<close>

fun foldM :: "('b \<Rightarrow> 'a \<Rightarrow> 'b result) \<Rightarrow> 'b \<Rightarrow> 'a list \<Rightarrow> 'b result" where
  "foldM f b [] = Inr b"
| "foldM f b (x # xs) = try_then (f b x) (\<lambda>b'. foldM f b' xs)"

fun mapM :: "('a \<Rightarrow> 'b result) \<Rightarrow> 'a list \<Rightarrow> 'b list result" where
  "mapM f [] = Inr []"
| "mapM f (x # xs) = try_then (f x) (\<lambda>y. try_then (mapM f xs) (\<lambda>ys. Inr (y # ys)))"

lemma foldM_append:
  "foldM f b (xs @ ys) = try_then (foldM f b xs) (\<lambda>b'. foldM f b' ys)"
proof (induction xs arbitrary: b)
  case Nil
  then show ?case by simp
next
  case (Cons x xs)
  then show ?case by (cases "f b x") auto
qed

lemma foldM_invariant:
  assumes "foldM f b xs = Inr c" and "P b"
    and "\<And>b x b'. x \<in> set xs \<Longrightarrow> P b \<Longrightarrow> f b x = Inr b' \<Longrightarrow> P b'"
  shows "P c"
  using assms
proof (induction xs arbitrary: b)
  case Nil
  then show ?case by simp
next
  case (Cons x xs)
  from Cons.prems(1) obtain b' where b': "f b x = Inr b'" "foldM f b' xs = Inr c"
    by (auto simp: result_iff)
  moreover have "P b'" using Cons.prems(2,3) b'(1) by auto
  ultimately show ?case using Cons.IH Cons.prems(3) by (meson list.set_intros(2))
qed

lemma foldM_cong [fundef_cong]:
  "xs = ys \<Longrightarrow> b = c \<Longrightarrow> (\<And>a x. x \<in> set ys \<Longrightarrow> f a x = g a x) \<Longrightarrow> foldM f b xs = foldM g c ys"
proof (induction ys arbitrary: xs b c)
  case Nil
  then show ?case by simp
next
  case (Cons y ys)
  then show ?case by (cases "g c y") auto
qed

lemma mapM_cong [fundef_cong]:
  "xs = ys \<Longrightarrow> (\<And>x. x \<in> set ys \<Longrightarrow> f x = g x) \<Longrightarrow> mapM f xs = mapM g ys"
  by (induction ys arbitrary: xs) auto

lemma mapM_Inr_iff:
  "mapM f xs = Inr ys \<longleftrightarrow> list_all2 (\<lambda>x y. f x = Inr y) xs ys"
  by (induction xs arbitrary: ys) (auto simp: result_iff list_all2_Cons1)

lemma foldM_no_fault [go_total]:
  "(\<And>b x. x \<in> set xs \<Longrightarrow> no_fault (f b x)) \<Longrightarrow> no_fault (foldM f b xs)"
  by (induction xs arbitrary: b) (auto intro!: no_fault_try_then)

lemma mapM_no_fault [go_total]: "(\<And>x. x \<in> set xs \<Longrightarrow> no_fault (f x)) \<Longrightarrow> no_fault (mapM f xs)"
  by (induction xs) (auto intro!: go_total)

section \<open>Maps\<close>

text \<open>Deleting a key; Go's \<open>delete(m, k)\<close>.\<close>

definition map_delete :: "'k \<Rightarrow> ('k \<rightharpoonup> 'v) \<Rightarrow> ('k \<rightharpoonup> 'v)" where
  "map_delete k m = m(k := None)"

lemma map_delete_apply [simp]: "map_delete k m j = (if j = k then None else m j)"
  by (simp add: map_delete_def)

end
