(* ===== verification/Go_Strings.thy ===== *)
theory Go_Strings
  imports Prelude
begin

text \<open>
  What the program uses of Go's \<open>strings\<close>, \<open>unicode\<close> and \<open>unicode/utf8\<close> packages, on
  byte sequences: UTF-8 decoding with Go's replacement rune for invalid bytes, white space
  and control characters, trimming, searching, replacing and cutting. The lemmas give the
  facts the components need: trimming is idempotent, decoding splits a string without
  loss, and cutting a string at a rune boundary keeps the runes before it.
\<close>

section \<open>UTF-8\<close>

text \<open>
  \<open>utf8.DecodeRuneInString\<close>: the number of bytes of the rune at the head of a string.
  An invalid head counts as one byte (its rune is U+FFFD).
\<close>

definition is_cont :: "char \<Rightarrow> bool" where
  "is_cont c \<longleftrightarrow> 128 \<le> byte_val c \<and> byte_val c \<le> 191"

definition second_ok :: "char \<Rightarrow> char \<Rightarrow> bool" where
  "second_ok c d \<longleftrightarrow>
     (if byte_val c = 224 then 160 \<le> byte_val d \<and> byte_val d \<le> 191
      else if byte_val c = 237 then 128 \<le> byte_val d \<and> byte_val d \<le> 159
      else if byte_val c = 240 then 144 \<le> byte_val d \<and> byte_val d \<le> 191
      else if byte_val c = 244 then 128 \<le> byte_val d \<and> byte_val d \<le> 143
      else is_cont d)"

definition lead_len :: "char \<Rightarrow> nat" where
  "lead_len c =
     (let x = byte_val c in
      if 194 \<le> x \<and> x \<le> 223 then 2
      else if 224 \<le> x \<and> x \<le> 239 then 3
      else if 240 \<le> x \<and> x \<le> 244 then 4
      else 1)"

fun rune_size :: "string \<Rightarrow> nat" where
  "rune_size [] = 0"
| "rune_size (c # s) =
     (if lead_len c = 2 then (case s of d # _ \<Rightarrow> if second_ok c d then 2 else 1 | [] \<Rightarrow> 1)
      else if lead_len c = 3 then
        (case s of d # e # _ \<Rightarrow> if second_ok c d \<and> is_cont e then 3 else 1 | _ \<Rightarrow> 1)
      else if lead_len c = 4 then
        (case s of d # e # f # _ \<Rightarrow> if second_ok c d \<and> is_cont e \<and> is_cont f then 4 else 1
         | _ \<Rightarrow> 1)
      else 1)"

text \<open>The code point of the bytes of one rune; a lone byte above 127 is U+FFFD.\<close>

fun rune_of :: "string \<Rightarrow> nat" where
  "rune_of [c] = (if byte_val c < 128 then byte_val c else 65533)"
| "rune_of [c, d] = (byte_val c mod 32) * 64 + byte_val d mod 64"
| "rune_of [c, d, e] = (byte_val c mod 16) * 4096 + (byte_val d mod 64) * 64 + byte_val e mod 64"
| "rune_of [c, d, e, f] =
     (byte_val c mod 8) * 262144 + (byte_val d mod 64) * 4096 + (byte_val e mod 64) * 64
       + byte_val f mod 64"
| "rune_of _ = 65533"

lemma rune_size_pos [simp]: "0 < rune_size (c # s)"
  by (auto split: list.splits)

lemma rune_size_le [simp]: "rune_size s \<le> length s"
  by (cases s) (auto split: list.splits)

text \<open>A \<open>for range\<close> over a string: the bytes of each rune, in order.\<close>

function runes :: "string \<Rightarrow> string list" where
  "runes [] = []"
| "runes (c # s) = take (rune_size (c # s)) (c # s) # runes (drop (rune_size (c # s)) (c # s))"
  by pat_completeness auto
termination
  by (relation "measure length") (auto simp del: rune_size.simps)

declare runes.simps(2) [simp del]

lemma runes_eq:
  "s \<noteq> [] \<Longrightarrow> runes s = take (rune_size s) s # runes (drop (rune_size s) s)"
  by (cases s) (simp_all add: runes.simps(2) del: rune_size.simps)

lemma concat_runes [simp]: "concat (runes s) = s"
proof (induction s rule: runes.induct)
  case 1
  then show ?case by simp
next
  case (2 c s)
  then show ?case by (simp add: runes_eq del: rune_size.simps)
qed

lemma runes_Nil_iff [simp]: "runes s = [] \<longleftrightarrow> s = []"
  by (cases s) (simp_all add: runes_eq del: rune_size.simps)

lemma rune_size_cases: "rune_size s \<in> {0, 1, 2, 3, 4}"
  by (cases s) (auto split: list.splits)

text \<open>The size of a rune depends on its own bytes, and a cut string never gains a rune.\<close>

lemma rune_size_append:
  "1 < rune_size t \<Longrightarrow> rune_size (t @ u) = rune_size t"
  by (cases t rule: rune_size.cases) (auto split: list.splits if_splits)

lemma rune_size_cut:
  assumes "t \<noteq> []" and "rune_size (t @ u) \<le> length t"
  shows "rune_size t = rune_size (t @ u)"
proof (cases "1 < rune_size t")
  case True
  then show ?thesis by (simp add: rune_size_append)
next
  case False
  obtain c s where t: "t = c # s" using assms(1) by (cases t) auto
  consider "s = []" | d where "s = [d]" | d e where "s = [d, e]" | d e f r where "s = d # e # f # r"
    by (metis list.exhaust)
  then show ?thesis
  proof cases
    case 1
    then show ?thesis
      using assms(2) rune_size_pos [of c u] rune_size_pos [of c "[]"] rune_size_le [of "[c]"] t
      by (simp del: rune_size.simps rune_size_pos rune_size_le)
  next
    case 2
    with False assms(2) show ?thesis by (cases u) (auto simp: t split: if_splits list.splits)
  next
    case 3
    with False assms(2) show ?thesis by (cases u) (auto simp: t split: if_splits)
  next
    case 4
    then show ?thesis by (simp add: t)
  qed
qed

lemma runes_suffix:
  "runes s = ps @ qs \<Longrightarrow> runes (concat qs) = qs"
proof (induction ps arbitrary: s)
  case Nil
  have "concat (runes s) = s" by simp
  with Nil show ?case by simp
next
  case (Cons p ps)
  then have "s \<noteq> []" by auto
  with Cons.prems have "runes (drop (rune_size s) s) = ps @ qs"
    by (simp add: runes_eq del: rune_size.simps)
  then show ?case by (rule Cons.IH)
qed

lemma runes_prefix:
  "runes s = qs @ rs \<Longrightarrow> runes (concat qs) = qs"
proof (induction qs arbitrary: s)
  case Nil
  then show ?case by simp
next
  case (Cons q qs)
  then have ne: "s \<noteq> []" by auto
  with Cons.prems have q: "q = take (rune_size s) s"
    and rest: "runes (drop (rune_size s) s) = qs @ rs"
    by (simp_all add: runes_eq del: rune_size.simps)
  have s: "s = (q @ concat qs) @ concat rs"
    using Cons.prems concat_runes [of s] by simp
  have len: "length q = rune_size s"
    by (simp add: q min_absorb2)
  from ne have "0 < rune_size s" by (cases s) (simp_all del: rune_size.simps)
  with len have qne: "q \<noteq> []" by auto
  have "rune_size (q @ concat qs) = rune_size s"
    using rune_size_cut [of "q @ concat qs" "concat rs"] qne len s by simp
  moreover have "runes (concat qs) = qs" using rest by (rule Cons.IH)
  ultimately show ?case
    using qne len by (simp add: runes_eq [of "q @ concat qs"] del: rune_size.simps)
qed

section \<open>Character classes\<close>

text \<open>\<open>unicode.IsControl\<close>: the category Cc. \<open>unicode.IsSpace\<close>: White_Space.\<close>

definition isControl :: "nat \<Rightarrow> bool" where
  "isControl r \<longleftrightarrow> r < 32 \<or> 127 \<le> r \<and> r < 160"

definition isSpace :: "nat \<Rightarrow> bool" where
  "isSpace r \<longleftrightarrow> 9 \<le> r \<and> r \<le> 13 \<or> r = 32 \<or> r = 133 \<or> r = 160 \<or> r = 5760 \<or>
     8192 \<le> r \<and> r \<le> 8202 \<or> r = 8232 \<or> r = 8233 \<or> r = 8239 \<or> r = 8287 \<or> r = 12288"

text \<open>\<open>strings.IndexFunc(value, unicode.IsControl) >= 0\<close>.\<close>

definition hasControl :: "string \<Rightarrow> bool" where
  "hasControl s = list_ex (\<lambda>p. isControl (rune_of p)) (runes s)"

text \<open>\<open>strings.IndexByte(s, b) >= 0\<close>.\<close>

definition hasByte :: "nat \<Rightarrow> string \<Rightarrow> bool" where
  "hasByte b s \<longleftrightarrow> mk_byte b \<in> set s"

section \<open>Trimming\<close>

text \<open>\<open>strings.TrimSpace\<close> drops white-space runes at both ends.\<close>

abbreviation space_piece :: "string \<Rightarrow> bool" where
  "space_piece p \<equiv> isSpace (rune_of p)"

definition trim_pieces :: "string list \<Rightarrow> string list" where
  "trim_pieces ps = rev (dropWhile space_piece (rev (dropWhile space_piece ps)))"

definition trimSpace :: "string \<Rightarrow> string" where
  "trimSpace s = concat (trim_pieces (runes s))"

lemma trim_pieces_infix: "\<exists>as bs. ps = as @ trim_pieces ps @ bs"
proof -
  let ?m = "dropWhile space_piece ps"
  have "ps = takeWhile space_piece ps @ ?m" by simp
  also have "?m = trim_pieces ps @ rev (takeWhile space_piece (rev ?m))"
    unfolding trim_pieces_def by (metis rev_append rev_rev_ident takeWhile_dropWhile_id)
  finally show ?thesis by blast
qed

lemma runes_trimSpace: "runes (trimSpace s) = trim_pieces (runes s)"
proof -
  obtain as bs where "runes s = as @ trim_pieces (runes s) @ bs"
    using trim_pieces_infix by blast
  then have "runes (concat (trim_pieces (runes s) @ bs)) = trim_pieces (runes s) @ bs"
    by (rule runes_suffix)
  then show ?thesis unfolding trimSpace_def by (rule runes_prefix)
qed

lemma dropWhile_idem [simp]: "dropWhile P (dropWhile P xs) = dropWhile P xs"
  by (induction xs) auto

lemma dropWhile_rev_dropWhile:
  "dropWhile P (rev (dropWhile P (rev (dropWhile P xs)))) = rev (dropWhile P (rev (dropWhile P xs)))"
proof -
  let ?m = "dropWhile P xs" and ?t = "rev (dropWhile P (rev (dropWhile P xs)))"
  show ?thesis
  proof (cases ?t)
    case Nil
    show ?thesis unfolding Nil by simp
  next
    case (Cons t ts)
    have "?m = ?t @ rev (takeWhile P (rev ?m))"
      by (metis rev_append rev_rev_ident takeWhile_dropWhile_id)
    then have "?m = t # ts @ rev (takeWhile P (rev ?m))" unfolding Cons by simp
    then have "\<not> P t" by (metis dropWhile_eq_Cons_conv)
    then show ?thesis unfolding Cons by simp
  qed
qed

lemma trim_pieces_idem [simp]: "trim_pieces (trim_pieces ps) = trim_pieces ps"
  unfolding trim_pieces_def by (simp add: dropWhile_rev_dropWhile)

lemma trimSpace_idem [simp]: "trimSpace (trimSpace s) = trimSpace s"
  by (simp add: trimSpace_def [of "trimSpace s"] runes_trimSpace) (simp add: trimSpace_def)

lemma trimSpace_Nil [simp]: "trimSpace [] = []"
  by (simp add: trimSpace_def trim_pieces_def)

lemma hasControl_Nil [simp]: "\<not> hasControl []"
  by (simp add: hasControl_def)

lemmas [go_eval] = runes.simps(2) lead_len_def hasControl_def isControl_def isSpace_def
  trimSpace_def trim_pieces_def is_cont_def second_ok_def hasByte_def

end
