(* ===== verification/Go_Json.thy ===== *)
theory Go_Json
  imports Go_Strings
begin

text \<open>
  What the program uses of \<open>encoding/json\<close>: the grammar of a JSON text with Go's string
  unquoting, the strict decoder (one value, then end of input, unknown fields refused),
  field matching with Go's case folding, and the encoder's string quoting. Values keep
  their order and duplicates; a number keeps its literal text; an object member also keeps
  the raw text of its value, for \<open>json.RawMessage\<close>.
\<close>

section \<open>Values\<close>

datatype json =
    JNull
  | JBool bool
  | JNum string
  | JStr string
  | JArr "json list"
  | JObj "(string \<times> string \<times> json) list"

section \<open>Characters\<close>

abbreviation quote_char :: char where "quote_char \<equiv> CHR 0x22"
abbreviation backslash :: char where "backslash \<equiv> CHR 0x5C"

definition is_ws :: "char \<Rightarrow> bool" where
  "is_ws c \<longleftrightarrow> c = CHR '' '' \<or> c = CHR 0x09 \<or> c = CHR 0x0A \<or> c = CHR 0x0D"

definition skip_ws :: "string \<Rightarrow> string" where
  "skip_ws s = dropWhile is_ws s"

definition is_digit :: "char \<Rightarrow> bool" where
  "is_digit c \<longleftrightarrow> 48 \<le> byte_val c \<and> byte_val c \<le> 57"

definition hex_val :: "char \<Rightarrow> nat option" where
  "hex_val c =
     (let x = byte_val c in
      if 48 \<le> x \<and> x \<le> 57 then Some (x - 48)
      else if 97 \<le> x \<and> x \<le> 102 then Some (x - 87)
      else if 65 \<le> x \<and> x \<le> 70 then Some (x - 55)
      else None)"

definition hex_digit :: "nat \<Rightarrow> char" where
  "hex_digit n = mk_byte (if n < 10 then 48 + n else 87 + n)"

text \<open>\<open>utf8.AppendRune\<close>; a surrogate or an out-of-range value is U+FFFD.\<close>

definition replacement :: string where
  "replacement = [CHR 0xEF, CHR 0xBF, CHR 0xBD]"

definition encode_rune :: "nat \<Rightarrow> string" where
  "encode_rune r =
     (if r < 128 then [mk_byte r]
      else if r < 2048 then [mk_byte (192 + r div 64), mk_byte (128 + r mod 64)]
      else if 55296 \<le> r \<and> r \<le> 57343 then replacement
      else if r < 65536 then
        [mk_byte (224 + r div 4096), mk_byte (128 + r div 64 mod 64), mk_byte (128 + r mod 64)]
      else if r < 1114112 then
        [mk_byte (240 + r div 262144), mk_byte (128 + r div 4096 mod 64),
         mk_byte (128 + r div 64 mod 64), mk_byte (128 + r mod 64)]
      else replacement)"

text \<open>An invalid byte: a one-byte piece above 127.\<close>

definition bad_piece :: "string \<Rightarrow> bool" where
  "bad_piece p \<longleftrightarrow> (case p of [c] \<Rightarrow> 128 \<le> byte_val c | _ \<Rightarrow> False)"

definition validUTF8 :: "string \<Rightarrow> bool" where
  "validUTF8 s = list_all (\<lambda>p. \<not> bad_piece p) (runes s)"

section \<open>Strings\<close>

text \<open>The raw text of a string literal after its opening quote, and what follows it.\<close>

fun scan_string :: "string \<Rightarrow> (string \<times> string) option" where
  "scan_string [] = None"
| "scan_string (c # r) =
     (if c = quote_char then Some ([], r)
      else if byte_val c < 32 then None
      else if c = backslash then
        (case r of
           [] \<Rightarrow> None
         | e # r1 \<Rightarrow>
             if e \<in> set ''bfnrt/'' \<or> e = backslash \<or> e = quote_char
             then map_option (\<lambda>(a, b). (c # e # a, b)) (scan_string r1)
             else if e = CHR ''u'' then
               (case r1 of
                  h1 # h2 # h3 # h4 # r2 \<Rightarrow>
                    if hex_val h1 \<noteq> None \<and> hex_val h2 \<noteq> None \<and> hex_val h3 \<noteq> None \<and> hex_val h4 \<noteq> None
                    then map_option (\<lambda>(a, b). (c # e # h1 # h2 # h3 # h4 # a, b)) (scan_string r2)
                    else None
                | _ \<Rightarrow> None)
             else None)
      else map_option (\<lambda>(a, b). (c # a, b)) (scan_string r))"

definition getu4 :: "string \<Rightarrow> nat option" where
  "getu4 s = (case s of
     a # b # h1 # h2 # h3 # h4 # _ \<Rightarrow>
       if a = backslash \<and> b = CHR ''u'' then
         (case (hex_val h1, hex_val h2, hex_val h3, hex_val h4) of
            (Some w, Some x, Some y, Some z) \<Rightarrow> Some (w * 4096 + x * 256 + y * 16 + z)
          | _ \<Rightarrow> None)
       else None
   | _ \<Rightarrow> None)"

definition is_surrogate :: "nat \<Rightarrow> bool" where
  "is_surrogate r \<longleftrightarrow> 55296 \<le> r \<and> r \<le> 57343"

definition decode_pair :: "nat \<Rightarrow> nat \<Rightarrow> nat option" where
  "decode_pair r1 r2 =
     (if 55296 \<le> r1 \<and> r1 < 56320 \<and> 56320 \<le> r2 \<and> r2 < 57344
      then Some ((r1 - 55296) * 1024 + (r2 - 56320) + 65536) else None)"

definition unescape :: "char \<Rightarrow> char" where
  "unescape e =
     (if e = CHR ''b'' then CHR 0x08 else if e = CHR ''f'' then CHR 0x0C
      else if e = CHR ''n'' then CHR 0x0A else if e = CHR ''r'' then CHR 0x0D
      else if e = CHR ''t'' then CHR 0x09 else e)"

function unquote :: "string \<Rightarrow> string" where
  "unquote [] = []"
| "unquote (c # r) =
     (if c = backslash then
        (case getu4 (c # r) of
           Some rr \<Rightarrow>
             if is_surrogate rr then
               (case getu4 (drop 5 r) of
                  Some rr1 \<Rightarrow> (case decode_pair rr rr1 of
                      Some dec \<Rightarrow> encode_rune dec @ unquote (drop 11 r)
                    | None \<Rightarrow> replacement @ unquote (drop 5 r))
                | None \<Rightarrow> replacement @ unquote (drop 5 r))
             else encode_rune rr @ unquote (drop 5 r)
         | None \<Rightarrow> (case r of [] \<Rightarrow> [] | e # r1 \<Rightarrow> unescape e # unquote r1))
      else if byte_val c < 128 then c # unquote r
      else (let n = rune_size (c # r) in
            (if n = 1 then replacement else take n (c # r)) @ unquote (drop n (c # r))))"
  by pat_completeness auto
termination
  by (relation "measure length") (auto simp del: rune_size.simps)

declare unquote.simps(2) [simp del]

section \<open>Values: the scanner's grammar\<close>

definition scan_digits :: "string \<Rightarrow> (string \<times> string) option" where
  "scan_digits s =
     (case takeWhile is_digit s of [] \<Rightarrow> None | ds \<Rightarrow> Some (ds, dropWhile is_digit s))"

definition scan_fraction :: "string \<Rightarrow> (string \<times> string) option" where
  "scan_fraction s = (case s of
     c # r \<Rightarrow> if c = CHR ''.'' then map_option (\<lambda>(d, t). (c # d, t)) (scan_digits r) else Some ([], s)
   | [] \<Rightarrow> Some ([], s))"

definition scan_exponent :: "string \<Rightarrow> (string \<times> string) option" where
  "scan_exponent s = (case s of
     c # r \<Rightarrow>
       if c = CHR ''e'' \<or> c = CHR ''E'' then
         (case r of
            x # r1 \<Rightarrow>
              if x = CHR ''+'' \<or> x = CHR ''-''
              then map_option (\<lambda>(d, t). (c # x # d, t)) (scan_digits r1)
              else map_option (\<lambda>(d, t). (c # d, t)) (scan_digits r)
          | [] \<Rightarrow> None)
       else Some ([], s)
   | [] \<Rightarrow> Some ([], s))"

definition scan_integer :: "string \<Rightarrow> (string \<times> string) option" where
  "scan_integer s = (case s of
     c # r \<Rightarrow> if c = CHR ''0'' then Some ([c], r) else scan_digits s
   | [] \<Rightarrow> None)"

definition scan_number :: "string \<Rightarrow> (string \<times> string) option" where
  "scan_number s =
     (let (sign, s1) = (case s of c # r \<Rightarrow> if c = CHR ''-'' then ([c], r) else ([], s) | [] \<Rightarrow> ([], s)) in
      case scan_integer s1 of
        None \<Rightarrow> None
      | Some (i, s2) \<Rightarrow> (case scan_fraction s2 of
          None \<Rightarrow> None
        | Some (f, s3) \<Rightarrow> (case scan_exponent s3 of
            None \<Rightarrow> None
          | Some (e, s4) \<Rightarrow> Some (sign @ i @ f @ e, s4))))"

definition strip_prefix :: "string \<Rightarrow> string \<Rightarrow> string option" where
  "strip_prefix p s = (if take (length p) s = p then Some (drop (length p) s) else None)"

definition scan_literal :: "string \<Rightarrow> (json \<times> string) option" where
  "scan_literal s =
     (case strip_prefix ''null'' s of Some r \<Rightarrow> Some (JNull, r) | None \<Rightarrow>
     (case strip_prefix ''true'' s of Some r \<Rightarrow> Some (JBool True, r) | None \<Rightarrow>
     (case strip_prefix ''false'' s of Some r \<Rightarrow> Some (JBool False, r) | None \<Rightarrow>
      map_option (\<lambda>(n, r). (JNum n, r)) (scan_number s))))"

definition max_nesting :: nat where "max_nesting = 10000"

text \<open>
  The first argument bounds the calls left: every call reads at least one character, so
  one more than the length of the text is always enough (\<open>json_value_fuel\<close> below).
\<close>

fun json_value :: "nat \<Rightarrow> nat \<Rightarrow> string \<Rightarrow> (json \<times> string) option"
  and json_elements :: "nat \<Rightarrow> nat \<Rightarrow> string \<Rightarrow> (json list \<times> string) option"
  and json_members :: "nat \<Rightarrow> nat \<Rightarrow> string \<Rightarrow> ((string \<times> string \<times> json) list \<times> string) option"
where
  "json_value 0 d s = None"
| "json_value (Suc n) d s =
     (case skip_ws s of
        [] \<Rightarrow> None
      | c # r \<Rightarrow>
          if c = CHR ''{'' then
            (if max_nesting \<le> d then None
             else case skip_ws r of
               [] \<Rightarrow> None
             | x # r1 \<Rightarrow> if x = CHR ''}'' then Some (JObj [], r1)
                 else map_option (\<lambda>(ms, t). (JObj ms, t)) (json_members n (Suc d) (x # r1)))
          else if c = CHR ''['' then
            (if max_nesting \<le> d then None
             else case skip_ws r of
               [] \<Rightarrow> None
             | x # r1 \<Rightarrow> if x = CHR '']'' then Some (JArr [], r1)
                 else map_option (\<lambda>(vs, t). (JArr vs, t)) (json_elements n (Suc d) (x # r1)))
          else if c = quote_char then map_option (\<lambda>(raw, t). (JStr (unquote raw), t)) (scan_string r)
          else scan_literal (c # r))"
| "json_elements 0 d s = None"
| "json_elements (Suc n) d s =
     (case json_value n d s of
        None \<Rightarrow> None
      | Some (v, r) \<Rightarrow>
          (case skip_ws r of
             [] \<Rightarrow> None
           | c # t \<Rightarrow>
               if c = CHR '','' then map_option (\<lambda>(vs, u). (v # vs, u)) (json_elements n d t)
               else if c = CHR '']'' then Some ([v], t)
               else None))"
| "json_members 0 d s = None"
| "json_members (Suc n) d s =
     (case skip_ws s of
        [] \<Rightarrow> None
      | q # r \<Rightarrow>
          if q \<noteq> quote_char then None
          else (case scan_string r of
              None \<Rightarrow> None
            | Some (key, r1) \<Rightarrow>
                (case skip_ws r1 of
                   [] \<Rightarrow> None
                 | c # r2 \<Rightarrow>
                     if c \<noteq> CHR '':'' then None
                     else (case json_value n d r2 of
                         None \<Rightarrow> None
                       | Some (v, r3) \<Rightarrow>
                           (let m = (unquote key, take (length (skip_ws r2) - length r3) (skip_ws r2), v) in
                            case skip_ws r3 of
                              [] \<Rightarrow> None
                            | x # t \<Rightarrow>
                                if x = CHR '','' then map_option (\<lambda>(ms, u). (m # ms, u)) (json_members n d t)
                                else if x = CHR ''}'' then Some ([m], t)
                                else None)))))"

definition json_parse :: "string \<Rightarrow> (json \<times> string) option" where
  "json_parse s = json_value (Suc (length s)) 0 s"

text \<open>
  \<open>json.Valid\<close> and \<open>json.Unmarshal\<close> take one value with nothing but white space after it;
  so does a decoder whose second \<open>Decode\<close> has to return \<open>io.EOF\<close>.
\<close>

definition json_single :: "string \<Rightarrow> json option" where
  "json_single s = (case json_parse s of
     Some (v, r) \<Rightarrow> if skip_ws r = [] then Some v else None | None \<Rightarrow> None)"

section \<open>The encoder's string quoting\<close>

definition u_escape :: "nat \<Rightarrow> string" where
  "u_escape n = [backslash, CHR ''u'', hex_digit (n div 4096 mod 16), hex_digit (n div 256 mod 16),
     hex_digit (n div 16 mod 16), hex_digit (n mod 16)]"

definition html_unsafe :: "char \<Rightarrow> bool" where
  "html_unsafe c \<longleftrightarrow> c = CHR ''<'' \<or> c = CHR ''>'' \<or> c = CHR ''&''"

definition short_escape :: "char \<Rightarrow> char option" where
  "short_escape c =
     (if c = quote_char \<or> c = backslash then Some c
      else if c = CHR 0x08 then Some CHR ''b''
      else if c = CHR 0x0C then Some CHR ''f''
      else if c = CHR 0x0A then Some CHR ''n''
      else if c = CHR 0x0D then Some CHR ''r''
      else if c = CHR 0x09 then Some CHR ''t''
      else None)"

definition quote_piece :: "string \<Rightarrow> string" where
  "quote_piece p = (case p of
     [c] \<Rightarrow>
       if 128 \<le> byte_val c then u_escape 65533
       else (case short_escape c of
           Some e \<Rightarrow> [backslash, e]
         | None \<Rightarrow> if byte_val c < 32 \<or> html_unsafe c then u_escape (byte_val c) else [c])
   | _ \<Rightarrow>
       if p = [CHR 0xE2, CHR 0x80, CHR 0xA8] then u_escape 8232
       else if p = [CHR 0xE2, CHR 0x80, CHR 0xA9] then u_escape 8233
       else p)"

definition json_quote :: "string \<Rightarrow> string" where
  "json_quote s = quote_char # concat (map quote_piece (runes s)) @ [quote_char]"

text \<open>An object with given member texts, in field order.\<close>

fun join :: "string \<Rightarrow> string list \<Rightarrow> string" where
  "join sep [] = []"
| "join sep [x] = x"
| "join sep (x # xs) = x @ sep @ join sep xs"

definition json_object :: "(string \<times> string) list \<Rightarrow> string" where
  "json_object ms = ''{'' @ join '','' (map (\<lambda>(k, v). json_quote k @ '':'' @ v) ms) @ ''}''"

definition json_array :: "string list \<Rightarrow> string" where
  "json_array vs = ''['' @ join '','' vs @ '']''"

definition json_bool :: "bool \<Rightarrow> string" where
  "json_bool b = (if b then ''true'' else ''false'')"

text \<open>Decimal integers; also \<open>%d\<close> of \<open>fmt\<close>.\<close>

fun show_nat :: "nat \<Rightarrow> string" where
  "show_nat n = (if n < 10 then [mk_byte (48 + n)] else show_nat (n div 10) @ [mk_byte (48 + n mod 10)])"

declare show_nat.simps [simp del]

definition show_int :: "int \<Rightarrow> string" where
  "show_int i = (if i < 0 then CHR ''-'' # show_nat (nat (- i)) else show_nat (nat i))"

section \<open>Decoding into a struct\<close>

text \<open>
  A member belongs to the field of the same name, or else to one that differs only in case;
  Go folds with \<open>unicode.SimpleFold\<close>, under which the Kelvin sign is a k and the long s
  is an s.
\<close>

definition fold_piece :: "string \<Rightarrow> string" where
  "fold_piece p = (case p of
     [c] \<Rightarrow> if 65 \<le> byte_val c \<and> byte_val c \<le> 90 then [mk_byte (byte_val c + 32)] else [c]
   | _ \<Rightarrow> if p = [CHR 0xE2, CHR 0x84, CHR 0xAA] then ''k''
         else if p = [CHR 0xC5, CHR 0xBF] then ''s''
         else p)"

definition fold_name :: "string \<Rightarrow> string" where
  "fold_name s = concat (map fold_piece (runes s))"

definition match_field :: "string list \<Rightarrow> string \<Rightarrow> string option" where
  "match_field names key =
     (if key \<in> set names then Some key else find (\<lambda>n. fold_name n = fold_name key) names)"

text \<open>
  The members of a decoded object, keyed by the struct's field names, in order of
  appearance. \<open>None\<close> is a decoding error: not an object, or (strict) an unknown member.
  The text \<open>null\<close> leaves the struct unset.
\<close>

definition object_fields :: "bool \<Rightarrow> string list \<Rightarrow> json \<Rightarrow> (string \<times> string \<times> json) list option" where
  "object_fields strict names v = (case v of
     JNull \<Rightarrow> Some []
   | JObj ms \<Rightarrow>
       if strict \<and> list_ex (\<lambda>(k, _). match_field names k = None) ms then None
       else Some (List.map_filter (\<lambda>(k, rv). map_option (\<lambda>n. (n, rv)) (match_field names k)) ms)
   | _ \<Rightarrow> None)"

text \<open>\<open>decodeStrictToolArguments\<close> up to the typed fields: one object, nothing after it.\<close>

definition strict_fields :: "string list \<Rightarrow> string \<Rightarrow> (string \<times> string \<times> json) list option" where
  "strict_fields names raw =
     (case json_single raw of None \<Rightarrow> None | Some v \<Rightarrow> object_fields True names v)"

text \<open>
  Typed access. A later member overwrites an earlier one; \<open>null\<close> leaves a value as it is
  (and sets a pointer to nil); another kind of value is a decoding error (outer \<open>None\<close>).
\<close>

fun fold_field :: "('a \<Rightarrow> json \<Rightarrow> 'a option) \<Rightarrow> string \<Rightarrow> 'a \<Rightarrow> (string \<times> string \<times> json) list \<Rightarrow> 'a option" where
  "fold_field f name a [] = Some a"
| "fold_field f name a ((k, _, v) # ms) =
     (if k = name then (case f a v of None \<Rightarrow> None | Some a' \<Rightarrow> fold_field f name a' ms)
      else fold_field f name a ms)"

fun set_string :: "string \<Rightarrow> json \<Rightarrow> string option" where
  "set_string a (JStr s) = Some s"
| "set_string a JNull = Some a"
| "set_string a _ = None"

fun set_bool :: "bool \<Rightarrow> json \<Rightarrow> bool option" where
  "set_bool a (JBool b) = Some b"
| "set_bool a JNull = Some a"
| "set_bool a _ = None"

text \<open>An integer field takes a literal of digits with an optional sign, within its range.\<close>

fun digits_val :: "nat \<Rightarrow> string \<Rightarrow> nat" where
  "digits_val acc [] = acc"
| "digits_val acc (c # r) = digits_val (acc * 10 + (byte_val c - 48)) r"

definition int_literal :: "string \<Rightarrow> int option" where
  "int_literal s = (case s of
     c # r \<Rightarrow>
       if c = CHR ''-'' then (if r \<noteq> [] \<and> list_all is_digit r then Some (- int (digits_val 0 r)) else None)
       else if list_all is_digit s then Some (int (digits_val 0 s)) else None
   | [] \<Rightarrow> None)"

definition parse_int_in :: "int \<Rightarrow> int \<Rightarrow> string \<Rightarrow> int option" where
  "parse_int_in lo hi s = (case int_literal s of
     Some i \<Rightarrow> if lo \<le> i \<and> i \<le> hi then Some i else None | None \<Rightarrow> None)"

fun set_int :: "int \<Rightarrow> int \<Rightarrow> int \<Rightarrow> json \<Rightarrow> int option" where
  "set_int lo hi a (JNum s) = parse_int_in lo hi s"
| "set_int lo hi a JNull = Some a"
| "set_int lo hi a _ = None"

text \<open>An unsigned field also refuses a sign, so \<open>-0\<close> is an error there.\<close>

definition parse_uint_to :: "int \<Rightarrow> string \<Rightarrow> int option" where
  "parse_uint_to hi s =
     (if s \<noteq> [] \<and> list_all is_digit s \<and> int (digits_val 0 s) \<le> hi then Some (int (digits_val 0 s)) else None)"

text \<open>A pointer field: \<open>null\<close> makes it nil, any other value is decoded behind it.\<close>

fun set_ptr :: "(string \<Rightarrow> 'a option) \<Rightarrow> 'a option \<Rightarrow> json \<Rightarrow> 'a option option" where
  "set_ptr p a (JNum s) = map_option Some (p s)"
| "set_ptr p a JNull = Some None"
| "set_ptr p a _ = None"

section \<open>Quoting is undone by unquoting\<close>

lemma piece_of_runes: "p \<in> set (runes s) \<Longrightarrow> p \<noteq> [] \<and> rune_size p = length p"
proof (induction s rule: runes.induct)
  case 1
  then show ?case by simp
next
  case (2 c s)
  let ?s = "c # s"
  let ?p = "take (rune_size ?s) ?s"
  have ne: "?p \<noteq> []" by (simp del: rune_size.simps)
  have len: "length ?p = rune_size ?s"
    by (simp only: length_take min_absorb2 rune_size_le)
  have whole: "?p @ drop (rune_size ?s) ?s = ?s" by (rule append_take_drop_id)
  have "rune_size ?p = rune_size (?p @ drop (rune_size ?s) ?s)"
    by (rule rune_size_cut [OF ne]) (simp only: whole len order.refl)
  then have "?p \<noteq> [] \<and> rune_size ?p = length ?p" using ne by (simp only: whole len simp_thms)
  with 2 show ?case by (auto simp only: runes.simps(2) list.set insert_iff)
qed

lemma lead_len_high: "lead_len c \<noteq> 1 \<Longrightarrow> 128 \<le> byte_val c"
  by (auto simp: lead_len_def Let_def split: if_splits)

lemma second_ok_high: "second_ok c d \<Longrightarrow> 128 \<le> byte_val d"
  by (auto simp: second_ok_def is_cont_def split: if_splits)

text \<open>A longer piece is all high bytes, a short one is a single byte.\<close>

lemma piece_cases:
  assumes "p \<noteq> []" and "rune_size p = length p"
  obtains (short) c where "p = [c]"
    | (long) c d r where "p = c # d # r" and "\<forall>x\<in>set p. 128 \<le> byte_val x"
proof (cases p rule: rune_size.cases)
  case 1
  with assms show ?thesis by simp
next
  case (2 c s)
  show ?thesis
  proof (cases s)
    case Nil
    with 2 show ?thesis by (intro short) simp
  next
    case (Cons d r)
    with 2 assms(2) have "\<forall>x\<in>set p. 128 \<le> byte_val x"
      using lead_len_high [of c] second_ok_high [of c d]
      by (auto simp: is_cont_def split: if_splits list.splits)
    with 2 Cons show ?thesis by (intro long) simp_all
  qed
qed

lemma hex_round: "n < 16 \<Longrightarrow> hex_val (hex_digit n) = Some n"
  by (auto simp: hex_val_def hex_digit_def Let_def)

lemma hex_digit_some [simp]: "\<exists>y. hex_val (hex_digit (n mod 16)) = Some y"
  by (simp add: hex_round)

lemma high_byte_neq:
  "128 \<le> byte_val c \<Longrightarrow> c \<noteq> quote_char \<and> c \<noteq> backslash \<and> \<not> byte_val c < 32"
  by auto

lemma scan_high: "\<forall>x\<in>set p. 128 \<le> byte_val x \<Longrightarrow>
    scan_string (p @ r) = map_option (\<lambda>(a, b). (p @ a, b)) (scan_string r)"
proof (induction p)
  case Nil
  then show ?case by (cases "scan_string r") auto
next
  case (Cons c p)
  then show ?case using high_byte_neq [of c]
    by (cases "scan_string r") auto
qed

lemma scan_u_escape:
  "scan_string (u_escape n @ r) = map_option (\<lambda>(a, b). (u_escape n @ a, b)) (scan_string r)"
  by (cases "scan_string r") (auto simp: u_escape_def hex_round)

lemma short_escape_Some:
  "short_escape c = Some e \<Longrightarrow>
     (e \<in> set ''bfnrt/'' \<or> e = backslash \<or> e = quote_char) \<and> e \<noteq> CHR ''u'' \<and> unescape e = c"
  by (auto simp: short_escape_def unescape_def split: if_splits)

lemma short_escape_None: "short_escape c = None \<Longrightarrow> c \<noteq> quote_char \<and> c \<noteq> backslash"
  by (auto simp: short_escape_def split: if_splits)

lemma scan_short_escape:
  "short_escape c = Some e \<Longrightarrow>
     scan_string (backslash # e # r) = map_option (\<lambda>(a, b). (backslash # e # a, b)) (scan_string r)"
  using short_escape_Some [of c e] by simp

lemma scan_plain:
  "c \<noteq> quote_char \<and> c \<noteq> backslash \<Longrightarrow> \<not> byte_val c < 32 \<Longrightarrow>
     scan_string (c # r) = map_option (\<lambda>(a, b). (c # a, b)) (scan_string r)"
  by simp

lemma scan_quote_piece:
  assumes "p \<noteq> []" and "rune_size p = length p"
  shows "scan_string (quote_piece p @ r) = map_option (\<lambda>(a, b). (quote_piece p @ a, b)) (scan_string r)"
  using assms
proof (cases p rule: piece_cases)
  case (short c)
  show ?thesis
    unfolding short quote_piece_def
    by (simp add: scan_u_escape scan_short_escape scan_plain short_escape_None
        split: option.split del: scan_string.simps(2))
next
  case (long c d t)
  then show ?thesis
    using scan_high [of p r] scan_u_escape [of _ r] by (simp add: quote_piece_def)
qed

lemma scan_quoted:
  assumes "\<forall>p\<in>set ps. p \<noteq> [] \<and> rune_size p = length p"
  shows "scan_string (concat (map quote_piece ps) @ quote_char # t) = Some (concat (map quote_piece ps), t)"
  using assms by (induction ps) (simp_all add: scan_quote_piece)

lemma getu4_u_escape: "getu4 (u_escape n @ r) = Some (n mod 65536)"
proof -
  have "n div 4096 mod 16 * 4096 + n div 256 mod 16 * 256 + n div 16 mod 16 * 16 + n mod 16 = n mod 65536"
    using mod_mult2_eq [of n 4096 16] mod_mult2_eq [of n 256 16] mod_mult2_eq [of n 16 16] by simp
  then show ?thesis by (simp add: getu4_def u_escape_def hex_round)
qed

lemma getu4_none: "e \<noteq> CHR ''u'' \<Longrightarrow> getu4 (c # e # r) = None"
  by (auto simp: getu4_def split: list.splits)

lemma unquote_u_escape:
  assumes "n < 65536" and "\<not> is_surrogate n"
  shows "unquote (u_escape n @ r) = encode_rune n @ unquote r"
proof -
  obtain h where esc: "u_escape n = backslash # CHR ''u'' # h" and len: "length h = 4"
    by (simp add: u_escape_def)
  have "getu4 (backslash # CHR ''u'' # h @ r) = Some n"
    using getu4_u_escape [of n r] assms(1) by (simp add: esc)
  moreover have "drop 4 (h @ r) = r" by (simp add: len)
  ultimately show ?thesis using assms(2) by (simp add: esc unquote.simps(2))
qed

lemma encode_ascii: "byte_val c < 128 \<Longrightarrow> encode_rune (byte_val c) = [c]"
  by (simp add: encode_rune_def)

lemma unquote_quote_piece:
  assumes "p \<noteq> []" and "rune_size p = length p" and "\<not> bad_piece p"
  shows "unquote (quote_piece p @ r) = p @ unquote r"
  using assms(1,2)
proof (cases p rule: piece_cases)
  case (short c)
  with assms(3) have low: "byte_val c < 128" by (simp add: bad_piece_def)
  have u: "unquote (u_escape (byte_val c) @ r) = c # unquote r"
    using low unquote_u_escape [of "byte_val c" r] encode_ascii [OF low]
    by (simp add: is_surrogate_def)
  have esc: "unquote (backslash # e # r) = c # unquote r" if "short_escape c = Some e" for e
    using short_escape_Some [OF that] by (subst unquote.simps(2)) (simp add: getu4_none)
  have plain: "unquote (c # r) = c # unquote r" if "short_escape c = None"
    using short_escape_None [OF that] low by (subst unquote.simps(2)) simp
  show ?thesis
    unfolding short quote_piece_def
    using low u by (simp add: esc plain split: option.split)
next
  case (long c d t)
  have head: "128 \<le> byte_val c" using long by simp
  have "1 < rune_size p" using assms(2) long by simp
  then have size: "rune_size (p @ r) = length p"
    using rune_size_append assms(2) by metis
  have plain: "unquote (p @ r) = p @ unquote r"
    using head size high_byte_neq [OF head] long
    by (simp add: unquote.simps(2) del: rune_size.simps)
  have "unquote (u_escape 8232 @ r) = [CHR 0xE2, CHR 0x80, CHR 0xA8] @ unquote r"
    "unquote (u_escape 8233 @ r) = [CHR 0xE2, CHR 0x80, CHR 0xA9] @ unquote r"
    by (simp_all add: unquote_u_escape is_surrogate_def encode_rune_def char_of_def bit_iff_odd)
  then show ?thesis using plain long by (simp add: quote_piece_def)
qed

lemma unquote_quoted:
  assumes "\<forall>p\<in>set ps. p \<noteq> [] \<and> rune_size p = length p \<and> \<not> bad_piece p"
  shows "unquote (concat (map quote_piece ps)) = concat ps"
  using assms by (induction ps) (simp_all add: unquote_quote_piece)

lemma json_string_round:
  assumes "validUTF8 s"
  obtains raw where "json_quote s = quote_char # raw @ [quote_char]"
    and "\<And>t. scan_string (raw @ quote_char # t) = Some (raw, t)" and "unquote raw = s"
proof
  let ?raw = "concat (map quote_piece (runes s))"
  show "json_quote s = quote_char # ?raw @ [quote_char]" by (simp add: json_quote_def)
  show "scan_string (?raw @ quote_char # t) = Some (?raw, t)" for t
    using piece_of_runes by (intro scan_quoted) auto
  have "unquote ?raw = concat (runes s)"
    using assms piece_of_runes by (intro unquote_quoted) (auto simp: validUTF8_def list_all_iff)
  then show "unquote ?raw = s" by simp
qed

section \<open>Fuel\<close>

lemma skip_ws_length: "length (skip_ws s) \<le> length s"
  by (simp add: skip_ws_def length_dropWhile_le)

lemma scan_string_length: "scan_string s = Some (raw, t) \<Longrightarrow> length t < length s"
proof (induction "length s" arbitrary: s raw t rule: less_induct)
  case less
  have IH: "length t < length y" if "scan_string y = Some (raw, t)" "length y < length s" for y raw t
    using less.hyps that by blast
  show ?case
  proof (cases s)
    case Nil
    with less.prems show ?thesis by simp
  next
    case (Cons c r)
    consider "c = quote_char" | "c \<noteq> quote_char" "c = backslash" | "c \<noteq> quote_char" "c \<noteq> backslash" by blast
    then show ?thesis
    proof cases
      case 1
      with less.prems Cons show ?thesis by simp
    next
      case 2
      then obtain e r1 where r: "r = e # r1" using less.prems Cons by (cases r) simp_all
      show ?thesis
      proof (cases "e \<in> set ''bfnrt/'' \<or> e = backslash \<or> e = quote_char")
        case True
        with less.prems Cons 2 r obtain a b where "scan_string r1 = Some (a, b)" "t = b" by auto
        then show ?thesis using IH [of r1 a b] Cons r by simp
      next
        case False
        then have "(case r1 of h1 # h2 # h3 # h4 # r2 \<Rightarrow>
            if hex_val h1 \<noteq> None \<and> hex_val h2 \<noteq> None \<and> hex_val h3 \<noteq> None \<and> hex_val h4 \<noteq> None
            then map_option (\<lambda>(a, b). (c # e # h1 # h2 # h3 # h4 # a, b)) (scan_string r2)
            else None | _ \<Rightarrow> None) = Some (raw, t)"
          using less.prems Cons 2 r by (simp only: scan_string.simps) (auto split: if_splits)
        then obtain h1 h2 h3 h4 r2 a where "r1 = h1 # h2 # h3 # h4 # r2" "scan_string r2 = Some (a, t)"
          by (simp only: split: list.splits if_splits option.splits) auto
        then show ?thesis using IH [of r2 a t] Cons r by simp
      qed
    next
      case 3
      with less.prems Cons show ?thesis by (auto split: if_splits dest!: IH)
    qed
  qed
qed

lemma scan_digits_length: "scan_digits s = Some (d, t) \<Longrightarrow> length t < length s"
  by (cases s) (auto simp: scan_digits_def length_dropWhile_le less_Suc_eq_le split: list.splits if_splits)

lemma scan_integer_length: "scan_integer s = Some (d, t) \<Longrightarrow> length t < length s"
  by (auto simp: scan_integer_def split: list.splits if_splits dest: scan_digits_length)

lemma scan_fraction_length: "scan_fraction s = Some (d, t) \<Longrightarrow> length t \<le> length s"
  by (auto simp: scan_fraction_def split: list.splits if_splits dest!: scan_digits_length)

lemma scan_exponent_length: "scan_exponent s = Some (d, t) \<Longrightarrow> length t \<le> length s"
  by (auto simp: scan_exponent_def split: list.splits if_splits dest!: scan_digits_length)

lemma scan_number_length: "scan_number s = Some (d, t) \<Longrightarrow> length t < length s"
  by (auto simp: scan_number_def Let_def split: list.splits if_splits option.splits
      dest!: scan_integer_length scan_fraction_length scan_exponent_length)

lemma strip_prefix_length: "strip_prefix p s = Some t \<Longrightarrow> p \<noteq> [] \<Longrightarrow> length t < length s"
  by (cases s) (auto simp: strip_prefix_def split: if_splits)

lemma scan_literal_length: "scan_literal s = Some (v, t) \<Longrightarrow> length t < length s"
  by (auto simp: scan_literal_def split: option.splits dest: strip_prefix_length scan_number_length)

text \<open>A parse reads at least one character, and fuel for the characters it reads is enough.\<close>

definition parses :: "(nat \<Rightarrow> ('a \<times> string) option) \<Rightarrow> string \<Rightarrow> 'a \<Rightarrow> string \<Rightarrow> bool" where
  "parses p s v r \<longleftrightarrow> length r < length s \<and> (\<forall>m. length s \<le> m + length r \<longrightarrow> p m = Some (v, r))"

lemma parsesD: "parses p s v r \<Longrightarrow> length s \<le> m + length r \<Longrightarrow> p m = Some (v, r)"
  by (simp add: parses_def)

lemma parses_length: "parses p s v r \<Longrightarrow> length r < length s"
  by (simp add: parses_def)

lemma parsesI:
  "length r < length s \<Longrightarrow> (\<And>m. length s \<le> Suc m + length r \<Longrightarrow> p (Suc m) = Some (v, r)) \<Longrightarrow> parses p s v r"
  unfolding parses_def by (metis add_0 leD not0_implies_Suc)

lemma skip_ws_Cons: "skip_ws s = c # r \<Longrightarrow> length r < length s"
  using skip_ws_length [of s] by simp

lemma json_fuel:
  "json_value n d s = Some (v, r) \<Longrightarrow> parses (\<lambda>m. json_value m d s) s v r"
  "json_elements n d s = Some (vs, r) \<Longrightarrow> parses (\<lambda>m. json_elements m d s) s vs r"
  "json_members n d s = Some (ms, r) \<Longrightarrow> parses (\<lambda>m. json_members m d s) s ms r"
proof (induction n d s and n d s and n d s arbitrary: v r and vs r and ms r
    rule: json_value_json_elements_json_members.induct)
  case (2 n d s)
  from "2.prems" obtain c t where s: "skip_ws s = c # t" by (auto split: list.splits)
  have len: "length t < length s" using s by (rule skip_ws_Cons)
  consider (obj) "c = CHR ''{''" | (arr) "c = CHR ''[''" | (str) "c = quote_char"
    | (lit) "c \<noteq> CHR ''{''" "c \<noteq> CHR ''[''" "c \<noteq> quote_char" by blast
  then show ?case
  proof cases
    case obj
    with "2.prems" s obtain x r1 where d: "\<not> max_nesting \<le> d" and t: "skip_ws t = x # r1"
      by (auto split: if_splits list.splits)
    have len1: "length (x # r1) \<le> length t" using skip_ws_length [of t] t by simp
    show ?thesis
    proof (cases "x = CHR ''}''")
      case True
      with "2.prems" obj s d t have "v = JObj []" "r = r1" by simp_all
      then show ?thesis using obj s d t True len len1 by (intro parsesI) auto
    next
      case False
      with "2.prems" obj s d t obtain ms where ms: "json_members n (Suc d) (x # r1) = Some (ms, r)" "v = JObj ms"
        by auto
      have sub: "parses (\<lambda>m. json_members m (Suc d) (x # r1)) (x # r1) ms r"
        using "2.IH"(1) [OF s obj d t False ms(1)] .
      show ?thesis
      proof (rule parsesI)
        show "length r < length s" using parses_length [OF sub] len1 len by simp
        fix m assume "length s \<le> Suc m + length r"
        then have "json_members m (Suc d) (x # r1) = Some (ms, r)"
          using len len1 by (intro parsesD [OF sub]) simp
        then show "json_value (Suc m) d s = Some (v, r)" using obj s d t False ms(2) by simp
      qed
    qed
  next
    case arr
    then have nobj: "c \<noteq> CHR ''{''" by simp
    from arr "2.prems" s obtain x r1 where d: "\<not> max_nesting \<le> d" and t: "skip_ws t = x # r1"
      by (auto split: if_splits list.splits)
    have len1: "length (x # r1) \<le> length t" using skip_ws_length [of t] t by simp
    show ?thesis
    proof (cases "x = CHR '']''")
      case True
      with "2.prems" arr s d t have "v = JArr []" "r = r1" by simp_all
      then show ?thesis using arr s d t True len len1 by (intro parsesI) auto
    next
      case False
      with "2.prems" arr s d t obtain vs where vs: "json_elements n (Suc d) (x # r1) = Some (vs, r)" "v = JArr vs"
        by auto
      have sub: "parses (\<lambda>m. json_elements m (Suc d) (x # r1)) (x # r1) vs r"
        using "2.IH"(2) [OF s nobj arr d t False vs(1)] .
      show ?thesis
      proof (rule parsesI)
        show "length r < length s" using parses_length [OF sub] len1 len by simp
        fix m assume "length s \<le> Suc m + length r"
        then have "json_elements m (Suc d) (x # r1) = Some (vs, r)"
          using len len1 by (intro parsesD [OF sub]) simp
        then show "json_value (Suc m) d s = Some (v, r)" using arr s d t False vs(2) by simp
      qed
    qed
  next
    case str
    with "2.prems" s obtain raw where raw: "scan_string t = Some (raw, r)" "v = JStr (unquote raw)" by auto
    show ?thesis
      using str s raw scan_string_length [OF raw(1)] len by (intro parsesI) auto
  next
    case lit
    with "2.prems" s have lit': "scan_literal (c # t) = Some (v, r)" by simp
    show ?thesis
      using lit s lit' scan_literal_length [OF lit'] len by (intro parsesI) auto
  qed
next
  case (4 n d s)
  from "4.prems" obtain v q where v: "json_value n d s = Some (v, q)" by (auto split: option.splits)
  from "4.IH"(1) [OF v] have subv: "parses (\<lambda>m. json_value m d s) s v q" .
  from "4.prems" v obtain c t where q: "skip_ws q = c # t" by (auto split: list.splits)
  have len: "length t < length q" using q by (rule skip_ws_Cons)
  show ?case
  proof (cases "c = CHR '',''")
    case True
    with "4.prems" v q obtain ws where ws: "json_elements n d t = Some (ws, r)" "vs = v # ws" by auto
    have sub: "parses (\<lambda>m. json_elements m d t) t ws r" using "4.IH"(2) [OF v refl q True ws(1)] .
    show ?thesis
    proof (rule parsesI)
      show "length r < length s" using parses_length [OF sub] parses_length [OF subv] len by simp
      fix m assume m: "length s \<le> Suc m + length r"
      have "json_value m d s = Some (v, q)"
        using m len parses_length [OF sub] by (intro parsesD [OF subv]) simp
      moreover have "json_elements m d t = Some (ws, r)"
        using m len parses_length [OF subv] by (intro parsesD [OF sub]) simp
      ultimately show "json_elements (Suc m) d s = Some (vs, r)" using q True ws(2) by simp
    qed
  next
    case False
    with "4.prems" v q have r: "c = CHR '']''" "vs = [v]" "r = t" by (auto split: if_splits)
    show ?thesis
    proof (rule parsesI)
      show "length r < length s" using parses_length [OF subv] len r by simp
      fix m assume m: "length s \<le> Suc m + length r"
      have "json_value m d s = Some (v, q)" using m len r by (intro parsesD [OF subv]) simp
      then show "json_elements (Suc m) d s = Some (vs, r)" using q False r by simp
    qed
  qed
next
  case (6 n d s)
  from "6.prems" obtain q t where s: "skip_ws s = q # t" by (auto split: list.splits)
  from "6.prems" s have q: "\<not> q \<noteq> quote_char" by (auto split: if_splits)
  from "6.prems" s q obtain key r1 where key: "scan_string t = Some (key, r1)" by (auto split: option.splits)
  from "6.prems" s q key obtain c r2 where r1: "skip_ws r1 = c # r2" by (auto split: list.splits)
  from "6.prems" s q key r1 have c: "\<not> c \<noteq> CHR '':''" by (auto split: if_splits)
  from "6.prems" s q key r1 c obtain v r3 where v: "json_value n d r2 = Some (v, r3)" by (auto split: option.splits)
  from "6.prems" s q key r1 c v obtain x t' where r3: "skip_ws r3 = x # t'" by (auto simp: Let_def split: list.splits)
  have subv: "parses (\<lambda>m. json_value m d r2) r2 v r3"
    using "6.IH"(1) [OF s q key refl r1 c v] .
  have len: "length t < length s" "length r1 < length t" "length r2 < length r1" "length t' < length r3"
    using skip_ws_Cons [OF s] scan_string_length [OF key] skip_ws_Cons [OF r1] skip_ws_Cons [OF r3] by simp_all
  define entry where "entry = (unquote key, take (length (skip_ws r2) - length r3) (skip_ws r2), v)"
  show ?case
  proof (cases "x = CHR '',''")
    case True
    with "6.prems" s q key r1 c v r3 obtain ns where ns: "json_members n d t' = Some (ns, r)" "ms = entry # ns"
      by (auto simp: Let_def entry_def)
    have sub: "parses (\<lambda>m. json_members m d t') t' ns r"
      using "6.IH"(2) [OF s q key refl r1 c v refl refl r3 True ns(1)] .
    show ?thesis
    proof (rule parsesI)
      show "length r < length s" using parses_length [OF sub] parses_length [OF subv] len by simp
      fix m assume m: "length s \<le> Suc m + length r"
      have "json_value m d r2 = Some (v, r3)"
        using m len parses_length [OF sub] by (intro parsesD [OF subv]) simp
      moreover have "json_members m d t' = Some (ns, r)"
        using m len parses_length [OF subv] by (intro parsesD [OF sub]) simp
      ultimately show "json_members (Suc m) d s = Some (ms, r)"
        using s q key r1 c r3 True ns(2) by (simp add: Let_def entry_def)
    qed
  next
    case False
    with "6.prems" s q key r1 c v r3 have r: "x = CHR ''}''" "ms = [entry]" "r = t'"
      by (auto simp: Let_def entry_def split: if_splits)
    show ?thesis
    proof (rule parsesI)
      show "length r < length s" using parses_length [OF subv] len r by simp
      fix m assume m: "length s \<le> Suc m + length r"
      have "json_value m d r2 = Some (v, r3)" using m len r by (intro parsesD [OF subv]) simp
      then show "json_members (Suc m) d s = Some (ms, r)"
        using s q key r1 c r3 False r by (simp add: Let_def entry_def)
    qed
  qed
qed simp_all

lemma json_value_fuel:
  assumes "json_value n d s = Some (v, r)" and "length s \<le> m"
  shows "json_value m d s = Some (v, r)"
  using assms(2) by (intro parsesD [OF json_fuel(1) [OF assms(1)]]) simp

lemma json_parse_fuel: "json_value n 0 s = Some (v, r) \<Longrightarrow> json_parse s = Some (v, r)"
  unfolding json_parse_def by (erule json_value_fuel) simp

section \<open>Objects written member by member are read back\<close>

text \<open>The text of a member's value: no white space in front, and read up to what follows it.\<close>

definition value_text :: "nat \<Rightarrow> string \<Rightarrow> json \<Rightarrow> bool" where
  "value_text d tx v \<longleftrightarrow> tx \<noteq> [] \<and> \<not> is_ws (hd tx) \<and>
     (\<forall>x t. x = CHR '','' \<or> x = CHR ''}'' \<longrightarrow> (\<exists>n. json_value n d (tx @ x # t) = Some (v, x # t)))"

lemma skip_ws_text: "tx \<noteq> [] \<Longrightarrow> \<not> is_ws (hd tx) \<Longrightarrow> skip_ws (tx @ r) = tx @ r"
  by (cases tx) (simp_all add: skip_ws_def)

lemma skip_ws_char: "\<not> is_ws c \<Longrightarrow> skip_ws (c # r) = c # r"
  by (simp add: skip_ws_def)

lemma value_text_quoted: "validUTF8 s \<Longrightarrow> value_text d (json_quote s) (JStr s)"
proof -
  assume "validUTF8 s"
  then obtain raw where raw: "json_quote s = quote_char # raw @ [quote_char]"
    "\<And>t. scan_string (raw @ quote_char # t) = Some (raw, t)" "unquote raw = s"
    by (rule json_string_round) blast
  have "json_value 1 d (json_quote s @ t) = Some (JStr s, t)" for t
    using raw by (simp add: skip_ws_def is_ws_def)
  then have "\<exists>n. json_value n d (json_quote s @ x # t) = Some (JStr s, x # t)" for x t by blast
  moreover have "json_quote s \<noteq> [] \<and> \<not> is_ws (hd (json_quote s))" using raw(1) by (simp add: is_ws_def)
  ultimately show ?thesis unfolding value_text_def by blast
qed

lemma json_members_step:
  assumes k: "validUTF8 k" and tx: "tx \<noteq> []" "\<not> is_ws (hd tx)"
    and v: "json_value m d (tx @ x # t) = Some (v, x # t)" and x: "x = CHR '','' \<or> x = CHR ''}''"
  shows "json_members (Suc m) d ((json_quote k @ '':'' @ tx) @ x # t) =
    (if x = CHR '','' then map_option (\<lambda>(ms, u). ((k, tx, v) # ms, u)) (json_members m d t)
     else Some ([(k, tx, v)], t))"
proof -
  from k obtain raw where raw: "json_quote k = quote_char # raw @ [quote_char]"
    "\<And>t. scan_string (raw @ quote_char # t) = Some (raw, t)" "unquote raw = k"
    by (rule json_string_round) blast
  have ws: "\<not> is_ws quote_char" "\<not> is_ws (CHR '':'')" "\<not> is_ws x" using x by (auto simp: is_ws_def)
  show ?thesis
    using x by (auto simp: raw skip_ws_char skip_ws_text ws tx v Let_def)
qed

lemma json_members_join:
  assumes "ms \<noteq> []" and "\<forall>(k, tx, v)\<in>set ms. validUTF8 k \<and> value_text d tx v"
  shows "\<exists>n. json_members n d (join '','' (map (\<lambda>(k, tx, v). json_quote k @ '':'' @ tx) ms) @ CHR ''}'' # t)
    = Some (ms, t)"
  using assms
proof (induction ms)
  case Nil
  then show ?case by simp
next
  case (Cons m ms)
  obtain k tx v where m: "m = (k, tx, v)" by (cases m)
  with Cons.prems have k: "validUTF8 k" and tx: "tx \<noteq> []" "\<not> is_ws (hd tx)" and vt: "value_text d tx v"
    by (auto simp: value_text_def)
  show ?case
  proof (cases ms)
    case Nil
    obtain n where "json_value n d (tx @ CHR ''}'' # t) = Some (v, CHR ''}'' # t)"
      using vt by (auto simp: value_text_def)
    from json_members_step [OF k tx this] Nil m show ?thesis by (intro exI [of _ "Suc n"]) simp
  next
    case (Cons m' ms')
    let ?rest = "join '','' (map (\<lambda>(k, tx, v). json_quote k @ '':'' @ tx) ms) @ CHR ''}'' # t"
    obtain n1 where n1: "json_members n1 d ?rest = Some (ms, t)"
      using Cons.IH Cons.prems Cons by auto
    obtain n2 where n2: "json_value n2 d (tx @ CHR '','' # ?rest) = Some (v, CHR '','' # ?rest)"
      using vt by (auto simp: value_text_def)
    let ?n = "length (tx @ CHR '','' # ?rest)"
    have value': "json_value ?n d (tx @ CHR '','' # ?rest) = Some (v, CHR '','' # ?rest)"
      by (rule json_value_fuel [OF n2]) simp
    have members': "json_members ?n d ?rest = Some (ms, t)"
      by (rule parsesD [OF json_fuel(3) [OF n1]]) simp
    have "join '','' (map (\<lambda>(k, tx, v). json_quote k @ '':'' @ tx) (m # ms)) @ CHR ''}'' # t
        = (json_quote k @ '':'' @ tx) @ CHR '','' # ?rest" using Cons m by simp
    then show ?thesis
      using json_members_step [OF k tx value'] members' m by (intro exI [of _ "Suc ?n"]) simp
  qed
qed

lemma json_object_parse:
  assumes "\<forall>(k, tx, v)\<in>set ms. validUTF8 k \<and> value_text 1 tx v"
  shows "json_parse (json_object (map (\<lambda>(k, tx, v). (k, tx)) ms) @ t) = Some (JObj ms, t)"
proof (cases "ms = []")
  case True
  then show ?thesis
    by (intro json_parse_fuel [of 1]) (simp add: json_object_def skip_ws_def is_ws_def max_nesting_def)
next
  case False
  let ?body = "join '','' (map (\<lambda>(k, tx, v). json_quote k @ '':'' @ tx) ms) @ CHR ''}'' # t"
  obtain n where n: "json_members n 1 ?body = Some (ms, t)"
    using json_members_join [OF False assms] by blast
  have body: "json_object (map (\<lambda>(k, tx, v). (k, tx)) ms) @ t = CHR ''{'' # ?body"
    by (simp add: json_object_def comp_def case_prod_unfold)
  obtain k tx v ms' where ms: "ms = (k, tx, v) # ms'" using False by (cases ms) auto
  have "\<exists>r. ?body = quote_char # r"
    unfolding ms by (cases ms') (simp_all add: json_quote_def)
  then obtain r where r: "?body = quote_char # r" by blast
  have "json_value (Suc n) 0 (CHR ''{'' # ?body) = Some (JObj ms, t)"
    using n unfolding r by (simp add: skip_ws_def is_ws_def max_nesting_def)
  then show ?thesis unfolding body by (rule json_parse_fuel)
qed

lemma json_object_single:
  assumes "\<forall>(k, tx, v)\<in>set ms. validUTF8 k \<and> value_text 1 tx v"
  shows "json_single (json_object (map (\<lambda>(k, tx, v). (k, tx)) ms)) = Some (JObj ms)"
  using json_object_parse [OF assms, of "[]"] by (simp add: json_single_def skip_ws_def)

section \<open>Quoting text that is not valid UTF-8\<close>

text \<open>The encoder writes the replacement character for every invalid byte.\<close>

definition coerceUTF8 :: "string \<Rightarrow> string" where
  "coerceUTF8 s = concat (map (\<lambda>p. if bad_piece p then replacement else p) (runes s))"

lemma coerceUTF8_id: "validUTF8 s \<Longrightarrow> coerceUTF8 s = s"
proof -
  assume "validUTF8 s"
  then have "map (\<lambda>p. if bad_piece p then replacement else p) (runes s) = runes s"
    by (auto simp: validUTF8_def list_all_iff intro: map_idI)
  then show ?thesis by (simp add: coerceUTF8_def)
qed

lemma unquote_bad_piece: "bad_piece p \<Longrightarrow> unquote (quote_piece p @ r) = replacement @ unquote r"
proof -
  assume "bad_piece p"
  then have "quote_piece p = u_escape 65533"
    by (auto simp: bad_piece_def quote_piece_def split: list.splits)
  moreover have "encode_rune 65533 = replacement"
    by (simp add: encode_rune_def replacement_def char_of_def bit_iff_odd)
  ultimately show ?thesis using unquote_u_escape [of 65533 r] by (simp add: is_surrogate_def)
qed

lemma unquote_quoted_any:
  "\<forall>p\<in>set ps. p \<noteq> [] \<and> rune_size p = length p \<Longrightarrow>
    unquote (concat (map quote_piece ps)) = concat (map (\<lambda>p. if bad_piece p then replacement else p) ps)"
  by (induction ps) (simp_all add: unquote_quote_piece unquote_bad_piece)

lemma value_text_any: "value_text d (json_quote s) (JStr (coerceUTF8 s))"
proof -
  let ?raw = "concat (map quote_piece (runes s))"
  have quote: "json_quote s = quote_char # ?raw @ [quote_char]" by (simp add: json_quote_def)
  have "unquote ?raw = coerceUTF8 s"
    unfolding coerceUTF8_def using piece_of_runes by (intro unquote_quoted_any) auto
  moreover have "scan_string (?raw @ quote_char # t) = Some (?raw, t)" for t
    using piece_of_runes by (intro scan_quoted) auto
  ultimately have "json_value 1 d (json_quote s @ t) = Some (JStr (coerceUTF8 s), t)" for t
    by (simp add: quote skip_ws_def is_ws_def)
  then have "\<exists>n. json_value n d (json_quote s @ x # t) = Some (JStr (coerceUTF8 s), x # t)" for x t by blast
  moreover have "json_quote s \<noteq> [] \<and> \<not> is_ws (hd (json_quote s))" using quote by (simp add: is_ws_def)
  ultimately show ?thesis unfolding value_text_def by blast
qed

lemmas [go_eval] = validUTF8_def bad_piece_def

lemma ascii_utf8: "list_all (\<lambda>c. byte_val c < 128) s \<Longrightarrow> validUTF8 s"
proof (induction s)
  case Nil
  then show ?case by (simp add: validUTF8_def)
next
  case (Cons c s)
  then have "runes (c # s) = [c] # runes s"
    by (subst runes.simps(2)) (simp add: lead_len_def)
  with Cons show ?case by (simp add: validUTF8_def bad_piece_def)
qed

end
