(* ===== verification/Connect_Frame.thy ===== *)
theory Connect_Frame
  imports Go_Json
begin

text \<open>
  The Connect envelope of \<open>connect.go\<close>: a flag byte, a big-endian 32-bit length and the
  message. A request body decodes to a message exactly when it is the frame of that
  message, and a reader positioned at a frame gives the message and stops behind it.
\<close>

section \<open>Big-endian lengths\<close>

text \<open>\<open>binary.BigEndian.PutUint32\<close> and \<open>Uint32\<close>.\<close>

definition big_endian :: "nat \<Rightarrow> bytes" where
  "big_endian n =
     [mk_byte (n div 256 div 256 div 256 mod 256), mk_byte (n div 256 div 256 mod 256),
      mk_byte (n div 256 mod 256), mk_byte (n mod 256)]"

definition putUint32 :: "32 word \<Rightarrow> bytes" where
  "putUint32 v = big_endian (unat v)"

fun getUint32 :: "bytes \<Rightarrow> nat" where
  "getUint32 (a # b # c # d # _) =
     ((byte_val a * 256 + byte_val b) * 256 + byte_val c) * 256 + byte_val d"
| "getUint32 _ = 0"

definition connectEnvelopeHeaderBytes :: nat where "connectEnvelopeHeaderBytes = 5"

section \<open>Frames\<close>

definition EncodeConnectMessage :: "bytes \<Rightarrow> bytes" where
  "EncodeConnectMessage payload =
     mk_byte 0 # putUint32 (of_nat (length payload)) @ payload"

definition DecodeConnectRequest :: "bytes \<Rightarrow> int \<Rightarrow> bytes result" where
  "DecodeConnectRequest body maxMessageBytes =
     (if maxMessageBytes \<le> 0 then
        Inl (Errorf ''decode connect request: maximum message size must be positive'')
      else if length body < connectEnvelopeHeaderBytes then
        Inl (Errorf ''decode connect request: incomplete envelope header'')
      else if byte_val (hd body) = 1 then
        Inl (Errorf ''decode connect request: compressed messages are unsupported'')
      else if byte_val (hd body) \<noteq> 0 then
        Inl (Errorf ''decode connect request: invalid message flag'')
      else
        let messageLength = getUint32 (take 4 (tl body));
            wantLength = connectEnvelopeHeaderBytes + messageLength in
        if maxMessageBytes < int messageLength then
          Inl (Errorf ''decode connect request: message is too large'')
        else if length body \<noteq> wantLength then
          (if wantLength < length body then
             Inl (Errorf ''decode connect request: expected exactly one message'')
           else Inl (Errorf (''decode connect request: envelope length is '' @ show_nat messageLength @
                  '', body has '' @ show_nat (length body - connectEnvelopeHeaderBytes) @ '' bytes'')))
        else Inr (drop connectEnvelopeHeaderBytes body))"

text \<open>
  An \<open>io.Reader\<close> is the bytes it still delivers and the error it ends with;
  \<open>io.ReadFull\<close> returns \<open>io.EOF\<close> only if nothing was read.
\<close>

record reader =
  rd_data :: bytes
  rd_err :: goerror

definition read_full :: "nat \<Rightarrow> reader \<Rightarrow> (bytes \<times> reader) result" where
  "read_full n r =
     (if n \<le> length (rd_data r) then Inr (take n (rd_data r), r\<lparr>rd_data := drop n (rd_data r)\<rparr>)
      else if rd_data r = [] then Inl (rd_err r)
      else Inl (if rd_err r = IO_EOF then Errorf ''unexpected EOF'' else rd_err r))"

definition ReadConnectMessage :: "reader option \<Rightarrow> int \<Rightarrow> (nat \<times> bytes \<times> reader) result" where
  "ReadConnectMessage reader maxMessageBytes =
     (case reader of
        None \<Rightarrow> Inl (Errorf ''read connect message: reader is required'')
      | Some rd \<Rightarrow>
          if maxMessageBytes \<le> 0 then
            Inl (Errorf ''read connect message: maximum message size must be positive'')
          else (case read_full connectEnvelopeHeaderBytes rd of
            Inl e \<Rightarrow>
              if error_root e = IO_EOF \<and> rd_data rd = [] then Inl IO_EOF
              else Inl (Errorf ''read connect message: incomplete envelope header'')
          | Inr (header, rd) \<Rightarrow>
              let flag = byte_val (hd header); messageLength = getUint32 (tl header) in
              if flag mod 2 = 1 then
                Inl (Errorf ''read connect message: compressed messages are unsupported'')
              else if flag \<noteq> 0 \<and> flag \<noteq> 2 then
                Inl (Errorf ''read connect message: invalid envelope flag'')
              else if maxMessageBytes < int messageLength then
                Inl (Errorf ''read connect message: message is too large'')
              else (case read_full messageLength rd of
                  Inl e \<Rightarrow> Inl (Errorf ''read connect message: incomplete envelope body'')
                | Inr (payload, rd) \<Rightarrow> Inr (flag, payload, rd))))"

text \<open>The end-of-stream frame: a JSON object under flag 2.\<close>

definition connect_end_payload :: "string \<Rightarrow> string \<Rightarrow> string" where
  "connect_end_payload code message =
     json_object
       ((if code = [] then []
         else [(''error'', json_object [(''code'', json_quote code), (''message'', json_quote message)])])
        @ [(''metadata'', json_object [])])"

definition EncodeConnectEnd :: "string \<Rightarrow> string \<Rightarrow> bytes" where
  "EncodeConnectEnd code message =
     (EncodeConnectMessage (connect_end_payload code message))[0 := mk_byte 2]"

section \<open>Properties\<close>

lemma getUint32_putUint32: "getUint32 (putUint32 v @ r) = unat v"
proof -
  have "unat v < 2 ^ LENGTH(32)" by (rule unsigned_less)
  then have "unat v div 256 div 256 div 256 < 256" by (simp add: div_mult2_eq [symmetric] less_mult_imp_div_less)
  then show ?thesis by (simp add: putUint32_def big_endian_def)
qed

lemma length_putUint32 [simp]: "length (putUint32 v) = 4"
  by (simp add: putUint32_def big_endian_def)

lemma getUint32_less: "length b = 4 \<Longrightarrow> getUint32 b < 4294967296"
proof -
  assume "length b = 4"
  then obtain p q r s where b: "b = [p, q, r, s]"
    by (auto simp: numeral_eq_Suc length_Suc_conv)
  have "byte_val p \<le> 255" "byte_val q \<le> 255" "byte_val r \<le> 255" "byte_val s \<le> 255"
    using byte_val_less [of p] byte_val_less [of q] byte_val_less [of r] byte_val_less [of s]
    by linarith+
  then show ?thesis by (simp add: b)
qed

lemma base256: "s < 256 \<Longrightarrow> (x * 256 + s) div 256 = x" "s < 256 \<Longrightarrow> (x * 256 + s) mod 256 = (s::nat)"
  by simp_all

lemma big_endian_getUint32:
  assumes "length b = 4"
  shows "big_endian (getUint32 b) = b"
proof -
  from assms obtain p q r s where b: "b = [p, q, r, s]"
    by (auto simp: numeral_eq_Suc length_Suc_conv)
  show ?thesis
    unfolding b big_endian_def getUint32.simps
    by (simp only: base256 [OF byte_val_less] char_of_char) simp
qed

lemma unat_u32: "n < 4294967296 \<Longrightarrow> unat (of_nat n :: 32 word) = n"
  by (simp add: unat_of_nat)

lemma putUint32_getUint32: "length b = 4 \<Longrightarrow> putUint32 (of_nat (getUint32 b)) = b"
  unfolding putUint32_def by (simp only: unat_u32 getUint32_less big_endian_getUint32)

lemma unat_length: "length p < 4294967296 \<Longrightarrow> unat (of_nat (length p) :: 32 word) = length p"
  by (simp add: unat_of_nat)

lemma decode_encoded:
  assumes "0 < m" and "int (length p) \<le> m" and "length p < 4294967296"
  shows "DecodeConnectRequest (EncodeConnectMessage p) m = Inr p"
  using assms getUint32_putUint32 [of "of_nat (length p)" "[]"] unat_length [OF assms(3)]
  by (simp add: DecodeConnectRequest_def EncodeConnectMessage_def connectEnvelopeHeaderBytes_def)

lemma decode_exact:
  assumes "DecodeConnectRequest body m = Inr p"
  shows "0 < m \<and> int (length p) \<le> m \<and> length p < 4294967296 \<and> body = EncodeConnectMessage p"
proof -
  let ?n = "getUint32 (take 4 (tl body))"
  have "0 < m \<and> 5 \<le> length body \<and> byte_val (hd body) = 0 \<and> int ?n \<le> m
      \<and> length body = 5 + ?n \<and> p = drop 5 body"
    using assms unfolding DecodeConnectRequest_def connectEnvelopeHeaderBytes_def Let_def
    by (simp only: result_iff split: if_splits) (auto simp only: sum.distinct sum.inject not_le not_less le_add1)
  then have m: "0 < m" and len: "5 \<le> length body" and flag: "byte_val (hd body) = 0"
    and max: "int ?n \<le> m" and want: "length body = 5 + ?n" and p: "p = drop 5 body"
    by blast+
  from len obtain c r where body: "body = c # r" by (cases body) auto
  have "length (take 4 r) = 4" using len by (simp add: body)
  then have head: "putUint32 (of_nat ?n) = take 4 r" and less: "?n < 4294967296"
    using putUint32_getUint32 [of "take 4 r"] getUint32_less [of "take 4 r"] by (simp_all only: body list.sel)
  have "c = mk_byte 0" using flag by (simp add: body) (metis char_of_char)
  moreover have lenp: "length p = ?n" unfolding p length_drop want by simp
  moreover have "r = take 4 r @ p" unfolding p body by simp
  moreover have "EncodeConnectMessage p = mk_byte 0 # take 4 r @ p"
    unfolding EncodeConnectMessage_def lenp head by (rule refl)
  ultimately have "body = EncodeConnectMessage p" unfolding body by metis
  with m max less show ?thesis unfolding lenp by blast
qed

text \<open>A request body decodes to a message exactly when it is the Connect frame of that
  message and the message is within the caller's limit: nothing but a complete, uncompressed,
  single frame is accepted, and every such frame is.\<close>

theorem connect_request_exact:
  "DecodeConnectRequest body m = Inr p \<longleftrightarrow>
     0 < m \<and> int (length p) \<le> m \<and> length p < 4294967296 \<and> body = EncodeConnectMessage p"
  using decode_encoded decode_exact by blast

text \<open>A reader positioned at a frame delivers that message under flag 0 and is left just
  behind it, so consecutive frames of a stream are read one by one.\<close>

theorem read_connect_frame:
  assumes "0 < m" and "int (length p) \<le> m" and "length p < 4294967296"
  shows "ReadConnectMessage (Some \<lparr>rd_data = EncodeConnectMessage p @ rest, rd_err = e\<rparr>) m
    = Inr (0, p, \<lparr>rd_data = rest, rd_err = e\<rparr>)"
proof -
  have "take 5 (EncodeConnectMessage p @ rest) = mk_byte 0 # putUint32 (of_nat (length p))"
    and "drop 5 (EncodeConnectMessage p @ rest) = p @ rest"
    by (simp_all add: EncodeConnectMessage_def)
  with assms unat_length [OF assms(3)] getUint32_putUint32 [of "of_nat (length p)" "[]"]
  show ?thesis
    by (simp add: ReadConnectMessage_def read_full_def connectEnvelopeHeaderBytes_def
        EncodeConnectMessage_def)
qed

theorem read_connect_frame_witness:
  "ReadConnectMessage (Some \<lparr>rd_data = EncodeConnectMessage ''ab'' @ ''rest'', rd_err = IO_EOF\<rparr>) 16
    = Inr (0, ''ab'', \<lparr>rd_data = ''rest'', rd_err = IO_EOF\<rparr>)"
  by (rule read_connect_frame) simp_all

end
