(* ===== verification/Protowire_Interface.thy ===== *)
theory Protowire_Interface
  imports Prelude
begin

text \<open>
  The protobuf wire primitives of \<open>google.golang.org/protobuf/encoding/protowire\<close>, a
  third-party package. The package is a parameter of every definition that uses it: a
  record of the functions the program calls. The locale \<open>protowire_spec\<close> states what the
  package documents of them. \<open>wire_format\<close> is one concrete implementation of the
  documented wire format; it interprets the locale, so the laws are satisfiable, and the
  concrete instances of the properties are evaluated on it.
\<close>

section \<open>The interface\<close>

datatype wireType =
    VarintType | Fixed64Type | BytesType | StartGroupType | EndGroupType | Fixed32Type
  | Reserved6 | Reserved7

type_synonym u64 = "64 word"
type_synonym u32 = "32 word"

text \<open>Consume functions return the value and its length in bytes, negative on an error.\<close>

record protowire =
  AppendTag :: "bytes \<Rightarrow> int \<Rightarrow> wireType \<Rightarrow> bytes"
  AppendVarint :: "bytes \<Rightarrow> u64 \<Rightarrow> bytes"
  AppendBytes :: "bytes \<Rightarrow> bytes \<Rightarrow> bytes"
  AppendString :: "bytes \<Rightarrow> string \<Rightarrow> bytes"
  AppendFixed64 :: "bytes \<Rightarrow> u64 \<Rightarrow> bytes"
  ConsumeTag :: "bytes \<Rightarrow> int \<times> wireType \<times> int"
  ConsumeVarint :: "bytes \<Rightarrow> u64 \<times> int"
  ConsumeBytes :: "bytes \<Rightarrow> bytes \<times> int"
  ConsumeFixed64 :: "bytes \<Rightarrow> u64 \<times> int"
  ConsumeFixed32 :: "bytes \<Rightarrow> u32 \<times> int"
  ConsumeFieldValue :: "int \<Rightarrow> wireType \<Rightarrow> bytes \<Rightarrow> int"

definition valid_number :: "int \<Rightarrow> bool" where
  "valid_number n \<longleftrightarrow> 1 \<le> n \<and> n < 536870912"

section \<open>What the package documents\<close>

locale protowire_spec =
  fixes pw :: protowire
  assumes AppendTag_extends: "AppendTag pw b n t = b @ AppendTag pw [] n t"
    and AppendVarint_extends: "AppendVarint pw b v = b @ AppendVarint pw [] v"
    and AppendBytes_extends: "AppendBytes pw b s = b @ AppendBytes pw [] s"
    and AppendString_is_bytes: "AppendString pw b s = AppendBytes pw b s"
    and AppendFixed64_extends: "AppendFixed64 pw b v = b @ AppendFixed64 pw [] v"
    and AppendBytes_length: "length s \<le> length (AppendBytes pw [] s)"
    and AppendTag_nonempty: "AppendTag pw [] n t \<noteq> []"
    and ConsumeTag_AppendTag: "valid_number n \<Longrightarrow>
      ConsumeTag pw (AppendTag pw [] n t @ r) = (n, t, int (length (AppendTag pw [] n t)))"
    and ConsumeVarint_AppendVarint:
      "ConsumeVarint pw (AppendVarint pw [] v @ r) = (v, int (length (AppendVarint pw [] v)))"
    and ConsumeBytes_AppendBytes: "length s < 2 ^ 63 \<Longrightarrow>
      ConsumeBytes pw (AppendBytes pw [] s @ r) = (s, int (length (AppendBytes pw [] s)))"
    and ConsumeFixed64_AppendFixed64:
      "ConsumeFixed64 pw (AppendFixed64 pw [] v @ r) = (v, int (length (AppendFixed64 pw [] v)))"
    and ConsumeTag_length: "ConsumeTag pw b = (n, t, k) \<Longrightarrow> 0 \<le> k \<Longrightarrow> 0 < k \<and> nat k \<le> length b"
    and ConsumeVarint_length: "ConsumeVarint pw b = (v, k) \<Longrightarrow> 0 \<le> k \<Longrightarrow> nat k \<le> length b"
    and ConsumeBytes_length: "ConsumeBytes pw b = (s, k) \<Longrightarrow> 0 \<le> k \<Longrightarrow> nat k \<le> length b"
    and ConsumeFixed64_length: "ConsumeFixed64 pw b = (v, k) \<Longrightarrow> 0 \<le> k \<Longrightarrow> nat k \<le> length b"
    and ConsumeFixed32_length: "ConsumeFixed32 pw b = (w, k) \<Longrightarrow> 0 \<le> k \<Longrightarrow> nat k \<le> length b"
    and ConsumeFieldValue_length: "0 \<le> ConsumeFieldValue pw n t b \<Longrightarrow>
      nat (ConsumeFieldValue pw n t b) \<le> length b"

section \<open>A concrete implementation of the wire format\<close>

text \<open>
  Base-128 varints, little-endian fixed values, length-delimited bytes, and the package's
  error codes: -1 truncated, -2 field number, -3 overflow, -4 reserved wire type. Groups
  are rejected as reserved.
\<close>

fun enc_varint :: "nat \<Rightarrow> bytes" where
  "enc_varint n = (if n < 128 then [mk_byte n] else mk_byte (128 + n mod 128) # enc_varint (n div 128))"

declare enc_varint.simps [simp del]

fun dec_varint :: "nat \<Rightarrow> nat \<Rightarrow> bytes \<Rightarrow> nat \<times> int" where
  "dec_varint i acc [] = (0, - 1)"
| "dec_varint i acc (c # r) =
     (if i = 9 then
        (if byte_val c < 2 then (acc + byte_val c * 2 ^ (7 * i), int (i + 1)) else (0, - 3))
      else if byte_val c < 128 then (acc + byte_val c * 2 ^ (7 * i), int (i + 1))
      else dec_varint (i + 1) (acc + (byte_val c - 128) * 2 ^ (7 * i)) r)"

fun enc_fixed :: "nat \<Rightarrow> nat \<Rightarrow> bytes" where
  "enc_fixed 0 n = []"
| "enc_fixed (Suc k) n = mk_byte (n mod 256) # enc_fixed k (n div 256)"

fun dec_fixed :: "bytes \<Rightarrow> nat" where
  "dec_fixed [] = 0"
| "dec_fixed (c # r) = byte_val c + 256 * dec_fixed r"

fun type_code :: "wireType \<Rightarrow> nat" where
  "type_code VarintType = 0"
| "type_code Fixed64Type = 1"
| "type_code BytesType = 2"
| "type_code StartGroupType = 3"
| "type_code EndGroupType = 4"
| "type_code Fixed32Type = 5"
| "type_code Reserved6 = 6"
| "type_code Reserved7 = 7"

definition type_of_code :: "nat \<Rightarrow> wireType" where
  "type_of_code k =
     (if k = 0 then VarintType else if k = 1 then Fixed64Type else if k = 2 then BytesType
      else if k = 3 then StartGroupType else if k = 4 then EndGroupType
      else if k = 5 then Fixed32Type else if k = 6 then Reserved6 else Reserved7)"

definition fmt_tag :: "bytes \<Rightarrow> int \<Rightarrow> wireType \<Rightarrow> bytes" where
  "fmt_tag b n t = b @ enc_varint (nat n * 8 + type_code t)"

definition fmt_varint :: "bytes \<Rightarrow> u64 \<Rightarrow> bytes" where
  "fmt_varint b v = b @ enc_varint (unat v)"

definition fmt_bytes :: "bytes \<Rightarrow> bytes \<Rightarrow> bytes" where
  "fmt_bytes b s = b @ enc_varint (length s) @ s"

definition fmt_fixed64 :: "bytes \<Rightarrow> u64 \<Rightarrow> bytes" where
  "fmt_fixed64 b v = b @ enc_fixed 8 (unat v)"

definition get_tag :: "bytes \<Rightarrow> int \<times> wireType \<times> int" where
  "get_tag b = (case dec_varint 0 0 b of (v, k) \<Rightarrow>
     if k < 0 then (0, VarintType, k)
     else if v div 8 = 0 \<or> 2147483647 < v div 8 then (0, VarintType, - 2)
     else (int (v div 8), type_of_code (v mod 8), k))"

definition get_varint :: "bytes \<Rightarrow> u64 \<times> int" where
  "get_varint b = (case dec_varint 0 0 b of (v, k) \<Rightarrow> (of_nat v, k))"

definition get_bytes :: "bytes \<Rightarrow> bytes \<times> int" where
  "get_bytes b = (case dec_varint 0 0 b of (m, k) \<Rightarrow>
     if k < 0 then ([], k)
     else if length (drop (nat k) b) < m then ([], - 1)
     else (take m (drop (nat k) b), k + int m))"

definition get_fixed64 :: "bytes \<Rightarrow> u64 \<times> int" where
  "get_fixed64 b = (if length b < 8 then (0, - 1) else (of_nat (dec_fixed (take 8 b)), 8))"

definition get_fixed32 :: "bytes \<Rightarrow> u32 \<times> int" where
  "get_fixed32 b = (if length b < 4 then (0, - 1) else (of_nat (dec_fixed (take 4 b)), 4))"

definition get_field_value :: "int \<Rightarrow> wireType \<Rightarrow> bytes \<Rightarrow> int" where
  "get_field_value n t b = - 4"

definition wire_format :: protowire where
  "wire_format = \<lparr> AppendTag = fmt_tag, AppendVarint = fmt_varint, AppendBytes = fmt_bytes,
     AppendString = fmt_bytes, AppendFixed64 = fmt_fixed64, ConsumeTag = get_tag,
     ConsumeVarint = get_varint, ConsumeBytes = get_bytes, ConsumeFixed64 = get_fixed64,
     ConsumeFixed32 = get_fixed32, ConsumeFieldValue = get_field_value \<rparr>"

lemma enc_varint_nonempty [simp]: "enc_varint n \<noteq> []"
  by (subst enc_varint.simps) simp

lemma dec_enc_varint:
  "n * 2 ^ (7 * i) < 2 ^ 64 \<Longrightarrow> i \<le> 9 \<Longrightarrow>
    dec_varint i acc (enc_varint n @ r) = (acc + n * 2 ^ (7 * i), int (i + length (enc_varint n)))"
proof (induction n arbitrary: i acc rule: enc_varint.induct)
  case (1 n)
  show ?case
  proof (cases "n < 128")
    case True
    have "i = 9 \<Longrightarrow> n < 2" using "1.prems"(1) by simp
    with True show ?thesis by (simp add: enc_varint.simps [of n])
  next
    case False
    have "i < 9"
    proof (rule ccontr)
      assume "\<not> i < 9"
      with "1.prems"(2) have "i = 9" by simp
      with "1.prems"(1) False show False by simp
    qed
    let ?P = "2 ^ (7 * i) :: nat"
    have pow: "(2::nat) ^ (7 * (i + 1)) = 128 * ?P"
      by (simp only: distrib_left power_add) simp
    have hi: "n div 128 * 2 ^ (7 * (i + 1)) = (n div 128 * 128) * ?P"
      by (simp only: pow mult.assoc)
    also have "\<dots> \<le> n * ?P" by (rule mult_le_mono1) simp
    finally have small: "n div 128 * 2 ^ (7 * (i + 1)) < 2 ^ 64" using "1.prems"(1) by simp
    have "n mod 128 * ?P + n div 128 * 2 ^ (7 * (i + 1)) = (n mod 128 + n div 128 * 128) * ?P"
      by (simp only: hi add_mult_distrib)
    also have "\<dots> = n * ?P" by (simp only: mod_div_mult_eq)
    finally have sum: "n mod 128 * ?P + n div 128 * 2 ^ (7 * (i + 1)) = n * ?P" .
    have "(128 + n mod 128) mod 256 = 128 + n mod 128" by simp
    with False \<open>i < 9\<close> "1.IH" [of "i + 1" "acc + n mod 128 * 2 ^ (7 * i)"] small sum
    show ?thesis by (simp add: enc_varint.simps [of n] add.assoc)
  qed
qed

lemma dec_varint_length:
  "dec_varint i acc b = (v, k) \<Longrightarrow> 0 \<le> k \<Longrightarrow> int i < k \<and> nat k \<le> i + length b"
  by (induction i acc b rule: dec_varint.induct) (fastforce split: if_splits)+

lemma length_enc_fixed [simp]: "length (enc_fixed k n) = k"
  by (induction k arbitrary: n) auto

lemma dec_enc_fixed: "n < 256 ^ k \<Longrightarrow> dec_fixed (enc_fixed k n) = n"
proof (induction k arbitrary: n)
  case 0
  then show ?case by simp
next
  case (Suc k)
  then have "n div 256 < 256 ^ k" by (simp add: less_mult_imp_div_less mult.commute)
  with Suc.IH show ?case by simp
qed

lemma type_of_type_code [simp]: "type_of_code (type_code t) = t"
  by (cases t) (simp_all add: type_of_code_def)

lemma type_code_less [simp]: "type_code t < 8"
  by (cases t) simp_all

lemma get_fmt_tag:
  assumes "valid_number n"
  shows "get_tag (fmt_tag [] n t @ r) = (n, t, int (length (fmt_tag [] n t)))"
proof -
  let ?v = "nat n * 8 + type_code t"
  have "nat n < 536870912" using assms by (simp add: valid_number_def nat_less_iff)
  then have "?v < 536870912 * 8" using type_code_less [of t] by linarith
  then have "?v < 2 ^ 64" by (rule less_trans) simp
  then have dec: "dec_varint 0 0 (enc_varint ?v @ r) = (?v, int (length (enc_varint ?v)))"
    using dec_enc_varint [of ?v 0 0 r] by simp
  have "?v div 8 = nat n" "?v mod 8 = type_code t" by simp_all
  moreover have "\<not> 2147483647 < nat n" using \<open>nat n < 536870912\<close> by simp
  ultimately show ?thesis using dec assms
    by (simp add: get_tag_def fmt_tag_def valid_number_def)
qed

lemma get_fmt_bytes:
  "length s < 2 ^ 63 \<Longrightarrow> get_bytes (fmt_bytes [] s @ r) = (s, int (length (fmt_bytes [] s)))"
  using dec_enc_varint [of "length s" 0 0 "s @ r"] by (simp add: get_bytes_def fmt_bytes_def)

lemma unat_u64: "unat (v :: u64) < 18446744073709551616"
proof -
  have "unat v < 2 ^ LENGTH(64)" by (rule unsigned_less)
  then show ?thesis by simp
qed

lemma get_fmt_varint: "get_varint (fmt_varint [] v @ r) = (v, int (length (fmt_varint [] v)))"
  using dec_enc_varint [of "unat v" 0 0 r] unat_u64 [of v]
  by (simp add: get_varint_def fmt_varint_def)

lemma get_fmt_fixed64: "get_fixed64 (fmt_fixed64 [] v @ r) = (v, int (length (fmt_fixed64 [] v)))"
  using dec_enc_fixed [of "unat v" 8] unat_u64 [of v]
  by (simp add: get_fixed64_def fmt_fixed64_def)

lemma get_tag_length: "get_tag b = (n, t, k) \<Longrightarrow> 0 \<le> k \<Longrightarrow> 0 < k \<and> nat k \<le> length b"
  using dec_varint_length [of 0 0 b] by (fastforce simp: get_tag_def split: prod.splits if_splits)

lemma get_bytes_length: "get_bytes b = (s, k) \<Longrightarrow> 0 \<le> k \<Longrightarrow> nat k \<le> length b"
  using dec_varint_length [of 0 0 b]
  by (fastforce simp: get_bytes_def split: prod.splits if_splits)

lemma get_varint_length: "get_varint b = (v, k) \<Longrightarrow> 0 \<le> k \<Longrightarrow> nat k \<le> length b"
  using dec_varint_length [of 0 0 b] by (fastforce simp: get_varint_def split: prod.splits)

lemmas wire_format_defs = wire_format_def fmt_tag_def fmt_varint_def fmt_bytes_def fmt_fixed64_def

lemma wire_format_sel [wire_eval]:
  "AppendTag wire_format = fmt_tag" "AppendVarint wire_format = fmt_varint"
  "AppendBytes wire_format = fmt_bytes" "AppendString wire_format = fmt_bytes"
  "AppendFixed64 wire_format = fmt_fixed64" "ConsumeTag wire_format = get_tag"
  "ConsumeVarint wire_format = get_varint" "ConsumeBytes wire_format = get_bytes"
  "ConsumeFixed64 wire_format = get_fixed64" "ConsumeFixed32 wire_format = get_fixed32"
  "ConsumeFieldValue wire_format = get_field_value"
  by (simp_all add: wire_format_def)

lemmas [wire_eval] = fmt_tag_def fmt_varint_def fmt_bytes_def fmt_fixed64_def enc_varint.simps

interpretation wire_format: protowire_spec wire_format
proof (unfold_locales, goal_cases)
  case (8 n t r)
  then show ?case by (simp add: wire_format_def get_fmt_tag)
next
  case (9 v r)
  show ?case by (simp add: wire_format_def get_fmt_varint)
next
  case (10 s r)
  then show ?case by (simp add: wire_format_def get_fmt_bytes)
next
  case (11 v r)
  show ?case by (simp add: wire_format_def get_fmt_fixed64)
next
  case (12 b n t k)
  then show ?case using get_tag_length by (simp add: wire_format_def)
next
  case (13 b v k)
  then show ?case using get_varint_length by (simp add: wire_format_def)
next
  case (14 b s k)
  then show ?case using get_bytes_length by (simp add: wire_format_def)
qed (auto simp: wire_format_defs get_fixed64_def get_fixed32_def get_field_value_def split: if_splits)

end
