(* ===== verification/Wire_Codec.thy ===== *)
theory Wire_Codec
  imports Go_Strings Protowire_Interface
begin

unbundle bit_operations_syntax

text \<open>
  The field codec of the protocol package: the append helpers of \<open>wire.go\<close> and the field
  decoder with its accessors of \<open>agent.go\<close>, \<open>tool_files.go\<close> and \<open>mcp.go\<close>. A
  length-delimited field appended to a payload is read back as the last field of its
  number; decoding never panics and always ends.
\<close>

section \<open>Encoding: wire.go\<close>

definition appendString :: "protowire \<Rightarrow> bytes \<Rightarrow> int \<Rightarrow> string \<Rightarrow> bytes" where
  "appendString pw payload number value =
     AppendString pw (AppendTag pw payload number BytesType) value"

definition appendMessage :: "protowire \<Rightarrow> bytes \<Rightarrow> int \<Rightarrow> bytes \<Rightarrow> bytes" where
  "appendMessage pw payload number message =
     AppendBytes pw (AppendTag pw payload number BytesType) message"

definition appendBool :: "protowire \<Rightarrow> bytes \<Rightarrow> int \<Rightarrow> bool \<Rightarrow> bytes" where
  "appendBool pw payload number value =
     (let payload = AppendTag pw payload number VarintType in
      if value then AppendVarint pw payload 1 else AppendVarint pw payload 0)"

definition appendVarint :: "protowire \<Rightarrow> bytes \<Rightarrow> int \<Rightarrow> u64 \<Rightarrow> bytes" where
  "appendVarint pw payload number value =
     AppendVarint pw (AppendTag pw payload number VarintType) value"

section \<open>Decoding: agent.go\<close>

record wireField =
  wf_number :: int
  wf_type :: wireType
  wf_bytes :: bytes
  wf_varint :: u64
  wf_fixed64 :: u64
  wf_fixed32 :: u32

definition new_field :: "int \<Rightarrow> wireType \<Rightarrow> wireField" where
  "new_field n t = \<lparr> wf_number = n, wf_type = t, wf_bytes = [], wf_varint = 0, wf_fixed64 = 0,
     wf_fixed32 = 0 \<rparr>"

text \<open>One arm of the switch: a consumed value of some length, or the parse error.\<close>

definition consumed :: "int \<Rightarrow> bytes \<Rightarrow> wireField \<Rightarrow> (wireField \<times> bytes) result" where
  "consumed valueLength payload field =
     (if valueLength < 0 then Inl (Wire_ParseError valueLength)
      else try_then (slice_from valueLength payload) (\<lambda>rest. Inr (field, rest)))"

definition decodeFieldValue ::
  "protowire \<Rightarrow> int \<Rightarrow> wireType \<Rightarrow> bytes \<Rightarrow> (wireField \<times> bytes) result" where
  "decodeFieldValue pw number wireType payload =
     (let field = new_field number wireType in
      case wireType of
        BytesType \<Rightarrow> (case ConsumeBytes pw payload of (value, valueLength) \<Rightarrow>
          consumed valueLength payload (field\<lparr>wf_bytes := value\<rparr>))
      | VarintType \<Rightarrow> (case ConsumeVarint pw payload of (value, valueLength) \<Rightarrow>
          consumed valueLength payload (field\<lparr>wf_varint := value\<rparr>))
      | Fixed64Type \<Rightarrow> (case ConsumeFixed64 pw payload of (value, valueLength) \<Rightarrow>
          consumed valueLength payload (field\<lparr>wf_fixed64 := value\<rparr>))
      | Fixed32Type \<Rightarrow> (case ConsumeFixed32 pw payload of (value, valueLength) \<Rightarrow>
          consumed valueLength payload (field\<lparr>wf_fixed32 := value\<rparr>))
      | _ \<Rightarrow> consumed (ConsumeFieldValue pw number wireType payload) payload field)"

text \<open>
  The loop runs while payload is left. A round that consumes nothing would repeat for ever
  in the code; it is the value \<open>Diverge\<close> here, and the laws of the package exclude it.
\<close>

function decodeWireFields :: "protowire \<Rightarrow> bytes \<Rightarrow> wireField list result" where
  "decodeWireFields pw payload =
     (if payload = [] then Inr []
      else case ConsumeTag pw payload of (number, wireType, tagLength) \<Rightarrow>
        if tagLength < 0 then Inl (Wire_ParseError tagLength)
        else try_then (slice_from tagLength payload) (\<lambda>rest.
          try_then (decodeFieldValue pw number wireType rest) (\<lambda>(field, rest').
            if length rest' < length payload
            then try_then (decodeWireFields pw rest') (\<lambda>fs. Inr (field # fs))
            else Inl Diverge)))"
  by pat_completeness auto
termination
  by (relation "measure (\<lambda>(pw, payload). length payload)") auto

declare decodeWireFields.simps [simp del]

definition is_field :: "int \<Rightarrow> wireType \<Rightarrow> wireField \<Rightarrow> bool" where
  "is_field n t f \<longleftrightarrow> wf_number f = n \<and> wf_type f = t"

definition lastBytesField :: "wireField list \<Rightarrow> int \<Rightarrow> bytes option" where
  "lastBytesField fs number =
     map_option wf_bytes (find (is_field number BytesType) (rev fs))"

definition lastVarintField :: "wireField list \<Rightarrow> int \<Rightarrow> u64 option" where
  "lastVarintField fs number =
     map_option wf_varint (find (is_field number VarintType) (rev fs))"

definition lastFixed64Field :: "wireField list \<Rightarrow> int \<Rightarrow> u64 option" where
  "lastFixed64Field fs number =
     map_option wf_fixed64 (find (is_field number Fixed64Type) (rev fs))"

definition hasBytesField :: "wireField list \<Rightarrow> int \<Rightarrow> bool" where
  "hasBytesField fs number = (lastBytesField fs number \<noteq> None)"

definition repeatedBytesField :: "wireField list \<Rightarrow> int \<Rightarrow> bytes list" where
  "repeatedBytesField fs number = map wf_bytes (filter (is_field number BytesType) fs)"

text \<open>\<open>value, _ := lastBytesField(...)\<close> reads a missing field as the empty slice.\<close>

definition bytesOr :: "wireField list \<Rightarrow> int \<Rightarrow> bytes" where [wire_simps]:
  "bytesOr fs number = (case lastBytesField fs number of None \<Rightarrow> [] | Some b \<Rightarrow> b)"

definition varintOr :: "wireField list \<Rightarrow> int \<Rightarrow> u64" where [wire_simps]:
  "varintOr fs number = (case lastVarintField fs number of None \<Rightarrow> 0 | Some v \<Rightarrow> v)"

text \<open>\<open>validIdentifier\<close> of \<open>agent.go\<close>.\<close>

definition validIdentifier :: "string \<Rightarrow> bool" where
  "validIdentifier value \<longleftrightarrow> value \<noteq> [] \<and> length value \<le> 1024 \<and> \<not> hasControl value"

section \<open>Accessors\<close>

text \<open>A message is read through the last occurrence of a number.\<close>

definition bytesField :: "int \<Rightarrow> bytes \<Rightarrow> wireField" where
  "bytesField n v = (new_field n BytesType)\<lparr>wf_bytes := v\<rparr>"

definition varintField :: "int \<Rightarrow> u64 \<Rightarrow> wireField" where
  "varintField n v = (new_field n VarintType)\<lparr>wf_varint := v\<rparr>"

definition fixed64Field :: "int \<Rightarrow> u64 \<Rightarrow> wireField" where
  "fixed64Field n v = (new_field n Fixed64Type)\<lparr>wf_fixed64 := v\<rparr>"

lemmas field_defs = bytesField_def varintField_def fixed64Field_def new_field_def is_field_def

lemma find_append: "find P (xs @ ys) = (case find P xs of None \<Rightarrow> find P ys | Some x \<Rightarrow> Some x)"
  by (induction xs) auto

lemma lastBytesField_last:
  "lastBytesField fs n =
     (if repeatedBytesField fs n = [] then None else Some (last (repeatedBytesField fs n)))"
proof (induction fs rule: rev_induct)
  case Nil
  then show ?case by (simp add: lastBytesField_def repeatedBytesField_def)
next
  case (snoc f fs)
  then show ?case
    by (cases "is_field n BytesType f") (simp_all add: lastBytesField_def repeatedBytesField_def)
qed

lemma lastBytesField_Cons [simp, wire_simps]:
  "lastBytesField [] n = None"
  "lastBytesField (f # fs) n = (case lastBytesField fs n of Some b \<Rightarrow> Some b
     | None \<Rightarrow> if is_field n BytesType f then Some (wf_bytes f) else None)"
  by (auto simp: lastBytesField_def find_append split: option.splits)

lemma lastVarintField_Cons [simp, wire_simps]:
  "lastVarintField [] n = None"
  "lastVarintField (f # fs) n = (case lastVarintField fs n of Some b \<Rightarrow> Some b
     | None \<Rightarrow> if is_field n VarintType f then Some (wf_varint f) else None)"
  by (auto simp: lastVarintField_def find_append split: option.splits)

lemma lastFixed64Field_Cons [simp, wire_simps]:
  "lastFixed64Field [] n = None"
  "lastFixed64Field (f # fs) n = (case lastFixed64Field fs n of Some b \<Rightarrow> Some b
     | None \<Rightarrow> if is_field n Fixed64Type f then Some (wf_fixed64 f) else None)"
  by (auto simp: lastFixed64Field_def find_append split: option.splits)

lemma repeatedBytesField_Cons [simp, wire_simps]:
  "repeatedBytesField [] n = []"
  "repeatedBytesField (f # fs) n =
     (if is_field n BytesType f then wf_bytes f # repeatedBytesField fs n
      else repeatedBytesField fs n)"
  by (auto simp: repeatedBytesField_def)

lemma repeatedBytesField_append [simp]:
  "repeatedBytesField (fs @ gs) n = repeatedBytesField fs n @ repeatedBytesField gs n"
  by (simp add: repeatedBytesField_def)

lemma is_field_bytesField [simp, wire_simps]:
  "is_field n t (bytesField m v) \<longleftrightarrow> n = m \<and> t = BytesType"
  "is_field n t (varintField m w) \<longleftrightarrow> n = m \<and> t = VarintType"
  "is_field n t (fixed64Field m w) \<longleftrightarrow> n = m \<and> t = Fixed64Type"
  "wf_bytes (bytesField m v) = v"
  "wf_varint (varintField m w) = w"
  "wf_fixed64 (fixed64Field m w) = w"
  by (auto simp: field_defs)

section \<open>Laws under the wire format\<close>

text \<open>The bytes of one field on its own; every append puts them behind the payload.\<close>

definition bytes_entry :: "protowire \<Rightarrow> int \<Rightarrow> bytes \<Rightarrow> bytes" where
  "bytes_entry pw n v = AppendTag pw [] n BytesType @ AppendBytes pw [] v"

definition varint_entry :: "protowire \<Rightarrow> int \<Rightarrow> u64 \<Rightarrow> bytes" where
  "varint_entry pw n v = AppendTag pw [] n VarintType @ AppendVarint pw [] v"

definition fixed64_entry :: "protowire \<Rightarrow> int \<Rightarrow> u64 \<Rightarrow> bytes" where
  "fixed64_entry pw n v = AppendTag pw [] n Fixed64Type @ AppendFixed64 pw [] v"

context protowire_spec
begin

lemma appends_entry [wire_simps]:
  "appendString pw p n v = p @ bytes_entry pw n v"
  "appendMessage pw p n v = p @ bytes_entry pw n v"
  "appendVarint pw p n w = p @ varint_entry pw n w"
  "appendBool pw p n b = p @ varint_entry pw n (if b then 1 else 0)"
proof -
  have bytes: "AppendBytes pw (AppendTag pw p n BytesType) v = p @ bytes_entry pw n v"
    using AppendTag_extends [of p n BytesType] AppendBytes_extends [of "p @ _" v]
    by (simp add: bytes_entry_def)
  have var: "AppendVarint pw (AppendTag pw p n VarintType) w = p @ varint_entry pw n w" for w
    using AppendTag_extends [of p n VarintType] AppendVarint_extends [of "p @ _" w]
    by (simp add: varint_entry_def)
  show "appendString pw p n v = p @ bytes_entry pw n v"
    by (simp only: appendString_def AppendString_is_bytes bytes)
  show "appendMessage pw p n v = p @ bytes_entry pw n v"
    by (simp only: appendMessage_def bytes)
  show "appendVarint pw p n w = p @ varint_entry pw n w"
    by (simp only: appendVarint_def var)
  show "appendBool pw p n b = p @ varint_entry pw n (if b then 1 else 0)"
    by (simp add: appendBool_def Let_def var)
qed

lemma slice_from_append: "slice_from (int (length xs)) (xs @ ys) = Inr ys"
  by (simp add: slice_from_def)

lemma decode_entry:
  assumes "valid_number n"
    and "decodeFieldValue pw n t (v @ r) = Inr (f, r)"
  shows "decodeWireFields pw ((AppendTag pw [] n t @ v) @ r)
    = try_then (decodeWireFields pw r) (\<lambda>fs. Inr (f # fs))"
proof -
  let ?tag = "AppendTag pw [] n t"
  have pos: "0 < length ?tag" using AppendTag_nonempty [of n t] by simp
  have tag: "ConsumeTag pw (?tag @ v @ r) = (n, t, int (length ?tag))"
    using assms(1) by (rule ConsumeTag_AppendTag)
  have "?tag @ v @ r \<noteq> []" using AppendTag_nonempty [of n t] by simp
  then show ?thesis
    using pos assms(2) tag
    by (subst decodeWireFields.simps) (simp add: slice_from_append)
qed

lemma decode_entries [wire_simps]:
  "decodeWireFields pw [] = Inr []"
  "valid_number n \<Longrightarrow> length v < 2 ^ 63 \<Longrightarrow> decodeWireFields pw (bytes_entry pw n v @ r)
     = try_then (decodeWireFields pw r) (\<lambda>fs. Inr (bytesField n v # fs))"
  "valid_number n \<Longrightarrow> decodeWireFields pw (varint_entry pw n w @ r)
     = try_then (decodeWireFields pw r) (\<lambda>fs. Inr (varintField n w # fs))"
  "valid_number n \<Longrightarrow> decodeWireFields pw (fixed64_entry pw n w @ r)
     = try_then (decodeWireFields pw r) (\<lambda>fs. Inr (fixed64Field n w # fs))"
proof -
  show "decodeWireFields pw [] = Inr []" by (subst decodeWireFields.simps) simp
next
  assume "valid_number n" "length v < 2 ^ 63"
  then show "decodeWireFields pw (bytes_entry pw n v @ r)
     = try_then (decodeWireFields pw r) (\<lambda>fs. Inr (bytesField n v # fs))"
    unfolding bytes_entry_def
    by (intro decode_entry) (simp_all add: decodeFieldValue_def ConsumeBytes_AppendBytes consumed_def
        slice_from_append bytesField_def)
next
  assume "valid_number n"
  then show "decodeWireFields pw (varint_entry pw n w @ r)
     = try_then (decodeWireFields pw r) (\<lambda>fs. Inr (varintField n w # fs))"
    unfolding varint_entry_def
    by (intro decode_entry) (simp_all add: decodeFieldValue_def ConsumeVarint_AppendVarint consumed_def
        slice_from_append varintField_def)
next
  assume "valid_number n"
  then show "decodeWireFields pw (fixed64_entry pw n w @ r)
     = try_then (decodeWireFields pw r) (\<lambda>fs. Inr (fixed64Field n w # fs))"
    unfolding fixed64_entry_def
    by (intro decode_entry) (simp_all add: decodeFieldValue_def ConsumeFixed64_AppendFixed64 consumed_def
        slice_from_append fixed64Field_def)
qed

lemma decode_single [wire_simps]:
  "valid_number n \<Longrightarrow> length v < 2 ^ 63 \<Longrightarrow>
     decodeWireFields pw (bytes_entry pw n v) = Inr [bytesField n v]"
  "valid_number n \<Longrightarrow> decodeWireFields pw (varint_entry pw n w) = Inr [varintField n w]"
  "valid_number n \<Longrightarrow> decodeWireFields pw (fixed64_entry pw n w) = Inr [fixed64Field n w]"
  using decode_entries(2) [of n v "[]"] decode_entries(3) [of n w "[]"]
    decode_entries(4) [of n w "[]"] decode_entries(1) by simp_all

end

section \<open>The decoder always ends without a fault\<close>

definition shrinks :: "bytes \<Rightarrow> (wireField \<times> bytes) result \<Rightarrow> bool" where
  "shrinks p r \<longleftrightarrow> no_fault r \<and> (\<forall>f q. r = Inr (f, q) \<longrightarrow> length q \<le> length p)"

context protowire_spec
begin

lemma consumed_ok: "(0 \<le> k \<Longrightarrow> nat k \<le> length p) \<Longrightarrow> shrinks p (consumed k p f)"
  by (cases "k < 0") (simp_all add: shrinks_def consumed_def slice_from_def)

lemma decodeFieldValue_ok: "shrinks p (decodeFieldValue pw n t p)"
proof -
  obtain bv bk where b: "ConsumeBytes pw p = (bv, bk)" by (cases "ConsumeBytes pw p")
  obtain vv vk where v: "ConsumeVarint pw p = (vv, vk)" by (cases "ConsumeVarint pw p")
  obtain xv xk where x: "ConsumeFixed64 pw p = (xv, xk)" by (cases "ConsumeFixed64 pw p")
  obtain yv yk where y: "ConsumeFixed32 pw p = (yv, yk)" by (cases "ConsumeFixed32 pw p")
  show ?thesis
    by (cases t)
      (auto simp: decodeFieldValue_def b v x y intro!: consumed_ok
        dest: ConsumeBytes_length [OF b] ConsumeVarint_length [OF v]
          ConsumeFixed64_length [OF x] ConsumeFixed32_length [OF y] ConsumeFieldValue_length)
qed

lemma decode_no_fault [go_total]: "no_fault (decodeWireFields pw p)"
proof (induction "length p" arbitrary: p rule: less_induct)
  case less
  obtain n t k where tag: "ConsumeTag pw p = (n, t, k)" by (cases "ConsumeTag pw p")
  show ?case
  proof (cases "p = [] \<or> k < 0")
    case True
    then show ?thesis by (subst decodeWireFields.simps) (auto simp: tag)
  next
    case False
    then have k: "0 < k" "nat k \<le> length p" using ConsumeTag_length [OF tag] by simp_all
    let ?rest = "drop (nat k) p"
    have short: "length ?rest < length p" using k by simp
    have slice: "slice_from k p = Inr ?rest" using k by (simp add: slice_from_def)
    show ?thesis
    proof (cases "decodeFieldValue pw n t ?rest")
      case (Inl e)
      have "no_fault (decodeFieldValue pw n t ?rest)" using decodeFieldValue_ok by (simp add: shrinks_def)
      with Inl False slice show ?thesis by (subst decodeWireFields.simps) (simp add: tag)
    next
      case (Inr fr)
      obtain f r where fr: "fr = (f, r)" by (cases fr)
      have "length r \<le> length ?rest" using decodeFieldValue_ok [of ?rest n t] Inr fr by (simp add: shrinks_def)
      then have less': "length r < length p" using short by linarith
      have "no_fault (decodeWireFields pw r)" using less' by (rule less.hyps)
      then have "no_fault (try_then (decodeWireFields pw r) (\<lambda>fs. Inr (f # fs)))"
        by (auto intro: no_fault_try_then)
      with Inr fr False slice less' show ?thesis by (subst decodeWireFields.simps) (simp add: tag)
    qed
  qed
qed

end

text \<open>Field decoding terminates on every input without a run-time fault: no payload makes
  it slice out of range or loop without progress, whatever bytes arrive from the network.\<close>

theorem decode_wire_fields_total:
  assumes "protowire_spec pw"
  shows "no_fault (decodeWireFields pw payload)"
  using assms by (rule protowire_spec.decode_no_fault)

theorem decode_wire_fields_total_witness: "no_fault (decodeWireFields wire_format [CHR 0x0A, CHR 0xFF])"
  using wire_format.protowire_spec_axioms by (rule decode_wire_fields_total)

section \<open>A message is read back field by field\<close>

text \<open>One field to append, by the helper that appends it.\<close>

datatype wireItem = ItemString int string | ItemMessage int bytes | ItemVarint int u64 | ItemBool int bool

fun append_item :: "protowire \<Rightarrow> bytes \<Rightarrow> wireItem \<Rightarrow> bytes" where
  "append_item pw p (ItemString n s) = appendString pw p n s"
| "append_item pw p (ItemMessage n m) = appendMessage pw p n m"
| "append_item pw p (ItemVarint n v) = appendVarint pw p n v"
| "append_item pw p (ItemBool n b) = appendBool pw p n b"

fun item_field :: "wireItem \<Rightarrow> wireField" where
  "item_field (ItemString n s) = bytesField n s"
| "item_field (ItemMessage n m) = bytesField n m"
| "item_field (ItemVarint n v) = varintField n v"
| "item_field (ItemBool n b) = varintField n (if b then 1 else 0)"

fun item_ok :: "wireItem \<Rightarrow> bool" where
  "item_ok (ItemString n s) \<longleftrightarrow> valid_number n \<and> length s < 2 ^ 63"
| "item_ok (ItemMessage n m) \<longleftrightarrow> valid_number n \<and> length m < 2 ^ 63"
| "item_ok (ItemVarint n v) \<longleftrightarrow> valid_number n"
| "item_ok (ItemBool n b) \<longleftrightarrow> valid_number n"

definition append_items :: "protowire \<Rightarrow> wireItem list \<Rightarrow> bytes" where
  "append_items pw items = foldl (append_item pw) [] items"

context protowire_spec
begin

lemma append_item_extends: "append_item pw p i = p @ append_item pw [] i"
  by (cases i) (simp_all add: wire_simps)

lemma foldl_append_items: "foldl (append_item pw) p items = p @ append_items pw items"
proof (induction items arbitrary: p)
  case Nil
  then show ?case by (simp add: append_items_def)
next
  case (Cons i items)
  from Cons.IH [of "append_item pw p i"] Cons.IH [of "append_item pw [] i"]
  show ?case using append_item_extends [of p i] by (simp add: append_items_def)
qed

lemma decode_append_items:
  "list_all item_ok items \<Longrightarrow> decodeWireFields pw (append_items pw items) = Inr (map item_field items)"
proof (induction items)
  case Nil
  then show ?case by (simp add: append_items_def wire_simps)
next
  case (Cons i items)
  have "append_items pw (i # items) = append_item pw [] i @ append_items pw items"
    using foldl_append_items [of "append_item pw [] i" items] by (simp add: append_items_def)
  with Cons show ?case by (cases i) (simp_all add: wire_simps)
qed

end

text \<open>A message built by any sequence of the append helpers decodes to exactly those fields,
  in order, with their numbers, wire types and values.\<close>

theorem wire_message_roundtrip:
  assumes "protowire_spec pw" and "list_all item_ok items"
  shows "decodeWireFields pw (append_items pw items) = Inr (map item_field items)"
  using assms by (rule protowire_spec.decode_append_items)

theorem wire_message_roundtrip_witness:
  "decodeWireFields wire_format (append_items wire_format [ItemVarint 1 300, ItemString 15 ''id'', ItemBool 2 True])
     = Inr [varintField 1 300, bytesField 15 ''id'', varintField 2 1]"
  using wire_message_roundtrip [OF wire_format.protowire_spec_axioms,
      of "[ItemVarint 1 300, ItemString 15 ''id'', ItemBool 2 True]"]
  by (simp add: valid_number_def)

text \<open>Sizes on the concrete format, computed without writing the bytes out.\<close>

lemma wire_sizes:
  "length (bytes_entry wire_format n v) =
     length (enc_varint (nat n * 8 + 2)) + length (enc_varint (length v)) + length v"
  "length (varint_entry wire_format n w) =
     length (enc_varint (nat n * 8)) + length (enc_varint (unat w))"
  "length (enc_varint k) = (if k < 128 then 1 else Suc (length (enc_varint (k div 128))))"
  by (simp_all add: bytes_entry_def varint_entry_def fmt_tag_def fmt_bytes_def fmt_varint_def wire_format_defs
      enc_varint.simps [of k])

lemmas wire_concrete = wire_format.appends_entry wire_format.decode_entries wire_format.decode_single
  wire_sizes valid_number_def bytesOr_def varintOr_def

lemma validIdentifier_Nil [simp]: "\<not> validIdentifier []"
  by (simp add: validIdentifier_def)

lemmas [wire_eval] = bytes_entry_def varint_entry_def fixed64_entry_def

end
