(* ===== verification/Proto_Value.thy ===== *)
theory Proto_Value
  imports Wire_Codec Go_Json "HOL-Library.Char_ord" "HOL-Library.List_Lexorder"
begin

text \<open>
  The structured values of the MCP messages: \<open>decodeProtoValue\<close>, \<open>decodeProtoStruct\<close> and
  \<open>decodeProtoList\<close> of \<open>mcp.go\<close>, \<open>encodeProtoValue\<close> and \<open>encodeProtoStruct\<close> of
  \<open>tool_mcp.go\<close>. Both directions share a nesting limit and a node budget. What the encoder
  accepts, the decoder reads back with the same budget; what the decoder accepts is within
  the limits. A float is its 64 bits; reading a number literal and printing a float are
  functions of \<open>strconv\<close>, taken as arguments.
\<close>

section \<open>Values and limits\<close>

datatype pval =
    PNull
  | PNum u64
  | PStr string
  | PBool bool
  | PStruct "(string \<times> pval) list"
  | PList "pval list"

definition maxProtoJSONDepth :: nat where "maxProtoJSONDepth = 64"
definition maxProtoJSONNodes :: nat where "maxProtoJSONNodes = 10000"

text \<open>\<open>math.IsNaN\<close> or \<open>math.IsInf\<close>: the exponent bits are all ones.\<close>

definition not_finite :: "u64 \<Rightarrow> bool" where
  "not_finite bits \<longleftrightarrow> unat bits div 4503599627370496 mod 2048 = 2047"

section \<open>Decoding: mcp.go\<close>

text \<open>
  Each kind that is present contributes its value; a value has exactly one kind.
\<close>

definition proto_null :: "wireField list \<Rightarrow> pval list result" where
  "proto_null fs = (case lastVarintField fs 1 of
     None \<Rightarrow> Inr []
   | Some raw \<Rightarrow> if raw \<noteq> 0 then Inl (Errorf ''run request MCP schema null value is invalid'')
       else Inr [PNull])"

definition proto_number :: "wireField list \<Rightarrow> pval list result" where
  "proto_number fs = (case lastFixed64Field fs 2 of
     None \<Rightarrow> Inr []
   | Some raw \<Rightarrow> if not_finite raw then Inl (Errorf ''run request MCP schema number is invalid'')
       else Inr [PNum raw])"

definition proto_string :: "wireField list \<Rightarrow> pval list result" where
  "proto_string fs = (case lastBytesField fs 3 of
     None \<Rightarrow> Inr []
   | Some raw \<Rightarrow> if \<not> validUTF8 raw then Inl (Errorf ''run request MCP schema string is invalid'')
       else Inr [PStr raw])"

definition proto_bool :: "wireField list \<Rightarrow> pval list result" where
  "proto_bool fs = (case lastVarintField fs 4 of
     None \<Rightarrow> Inr []
   | Some raw \<Rightarrow> if 1 < raw then Inl (Errorf ''run request MCP schema boolean is invalid'')
       else Inr [PBool (raw = 1)])"

text \<open>
  \<open>decodeProtoStruct\<close> and \<open>decodeProtoList\<close>, over the decoder of their values: a map
  with distinct keys (kept in order of arrival), a list. The budget is the node count.
\<close>

definition decodeProtoEntry ::
  "protowire \<Rightarrow> (nat \<Rightarrow> bytes \<Rightarrow> (pval \<times> nat) result) \<Rightarrow>
     (string \<times> pval) list \<times> nat \<Rightarrow> bytes \<Rightarrow> ((string \<times> pval) list \<times> nat) result" where
  "decodeProtoEntry pw value st entryPayload =
     (case st of (ms, nodes) \<Rightarrow>
       try_wrap (\<lambda>_. Errorf ''run request MCP schema object entry is malformed'')
         (decodeWireFields pw entryPayload) (\<lambda>entryFields.
       case (lastBytesField entryFields 1, lastBytesField entryFields 2) of
         (Some key, Some valuePayload) \<Rightarrow>
           if \<not> validUTF8 key then Inl (Errorf ''run request MCP schema object entry is invalid'')
           else if key \<in> fst ` set ms then
             Inl (Errorf ''run request MCP schema object has duplicate keys'')
           else try_then (value nodes valuePayload) (\<lambda>(v, nodes). Inr (ms @ [(key, v)], nodes))
       | _ \<Rightarrow> Inl (Errorf ''run request MCP schema object entry is invalid'')))"

definition decodeProtoStruct ::
  "protowire \<Rightarrow> (nat \<Rightarrow> bytes \<Rightarrow> (pval \<times> nat) result) \<Rightarrow> nat \<Rightarrow> bytes \<Rightarrow>
     ((string \<times> pval) list \<times> nat) result" where
  "decodeProtoStruct pw value nodes payload =
     try_wrap (\<lambda>_. Errorf ''run request MCP schema object is malformed'') (decodeWireFields pw payload)
       (\<lambda>fs. foldM (decodeProtoEntry pw value) ([], nodes) (repeatedBytesField fs 1))"

definition decodeProtoList ::
  "protowire \<Rightarrow> (nat \<Rightarrow> bytes \<Rightarrow> (pval \<times> nat) result) \<Rightarrow> nat \<Rightarrow> bytes \<Rightarrow>
     (pval list \<times> nat) result" where
  "decodeProtoList pw value nodes payload =
     try_wrap (\<lambda>_. Errorf ''run request MCP schema list is malformed'') (decodeWireFields pw payload)
       (\<lambda>fs. foldM (\<lambda>(vs, nodes) valuePayload.
          try_then (value nodes valuePayload) (\<lambda>(v, nodes). Inr (vs @ [v], nodes)))
        ([], nodes) (repeatedBytesField fs 1))"

function decodeProtoValue :: "protowire \<Rightarrow> nat \<Rightarrow> nat \<Rightarrow> bytes \<Rightarrow> (pval \<times> nat) result" where
  "decodeProtoValue pw depth nodes payload =
     (if maxProtoJSONDepth < depth then
        Inl (Errorf ''run request MCP schema exceeds nesting limit'')
      else if maxProtoJSONNodes < nodes + 1 then
        Inl (Errorf ''run request MCP schema exceeds node limit'')
      else try_wrap (\<lambda>_. Errorf ''run request MCP schema value is malformed'')
        (decodeWireFields pw payload) (\<lambda>fs.
        try_then (proto_null fs) (\<lambda>a.
        try_then (proto_number fs) (\<lambda>b.
        try_then (proto_string fs) (\<lambda>c.
        try_then (proto_bool fs) (\<lambda>d.
        try_then (case lastBytesField fs 5 of
            None \<Rightarrow> Inr ([], nodes + 1)
          | Some raw \<Rightarrow> try_then
              (decodeProtoStruct pw (\<lambda>n p. decodeProtoValue pw (depth + 1) n p) (nodes + 1) raw)
              (\<lambda>(ms, n). Inr ([PStruct ms], n))) (\<lambda>(e, nodes1).
        try_then (case lastBytesField fs 6 of
            None \<Rightarrow> Inr ([], nodes1)
          | Some raw \<Rightarrow> try_then
              (decodeProtoList pw (\<lambda>n p. decodeProtoValue pw (depth + 1) n p) nodes1 raw)
              (\<lambda>(vs, n). Inr ([PList vs], n))) (\<lambda>(f, nodes2).
        let kinds = a @ b @ c @ d @ e @ f in
        if length kinds \<noteq> 1 then Inl (Errorf ''run request MCP schema value kind is invalid'')
        else Inr (hd kinds, nodes2)))))))))"
  by pat_completeness auto
termination
  by (relation "measure (\<lambda>(pw, depth, nodes, payload). maxProtoJSONDepth + 1 - depth)") auto

declare decodeProtoValue.simps [simp del]

section \<open>Encoding: tool\_mcp.go\<close>

text \<open>
  A decoded JSON object as a Go map: the last member of a key wins. The encoders visit the
  keys in sorted order.
\<close>

fun last_wins :: "('k \<times> 'v) list \<Rightarrow> ('k \<times> 'v) list" where
  "last_wins [] = []"
| "last_wins ((k, v) # ms) = (if k \<in> fst ` set ms then last_wins ms else (k, v) # last_wins ms)"

definition sorted_members :: "(string \<times> string \<times> json) list \<Rightarrow> (string \<times> json) list" where
  "sorted_members ms = sort_key fst (last_wins (map (\<lambda>(k, _, v). (k, v)) ms))"

definition encodeProtoEntries ::
  "protowire \<Rightarrow> int \<Rightarrow> (nat \<Rightarrow> json \<Rightarrow> (bytes \<times> nat) result) \<Rightarrow> bytes \<Rightarrow> nat \<Rightarrow>
     (string \<times> json) list \<Rightarrow> (bytes \<times> nat) result" where
  "encodeProtoEntries pw field value structure nodes ms =
     foldM (\<lambda>(structure, nodes) (key, v).
        try_then (value nodes v) (\<lambda>(encoded, nodes).
          let entry = appendMessage pw (appendString pw [] 1 key) 2 encoded in
          Inr (appendMessage pw structure field entry, nodes)))
      (structure, nodes) ms"

definition encodeProtoStruct ::
  "protowire \<Rightarrow> (nat \<Rightarrow> json \<Rightarrow> (bytes \<times> nat) result) \<Rightarrow> nat \<Rightarrow>
     (string \<times> string \<times> json) list \<Rightarrow> (bytes \<times> nat) result" where
  "encodeProtoStruct pw value nodes ms =
     (if list_ex (\<lambda>(k, _). \<not> validUTF8 k) ms then Inl (Errorf ''encode MCP tool: argument key is invalid'')
      else encodeProtoEntries pw 1 value [] nodes (sorted_members ms))"

text \<open>\<open>pf\<close> is \<open>strconv.ParseFloat\<close>: the bits, or none when the literal is out of range.\<close>

function encodeProtoValue ::
  "protowire \<Rightarrow> (string \<Rightarrow> u64 option) \<Rightarrow> nat \<Rightarrow> nat \<Rightarrow> json \<Rightarrow> (bytes \<times> nat) result" where
  "encodeProtoValue pw pf depth nodes value =
     (if maxProtoJSONDepth < depth then
        Inl (Errorf ''encode MCP tool: arguments exceed nesting limit'')
      else if maxProtoJSONNodes < nodes + 1 then
        Inl (Errorf ''encode MCP tool: arguments exceed node limit'')
      else case value of
        JNull \<Rightarrow> Inr (appendVarint pw [] 1 0, nodes + 1)
      | JBool b \<Rightarrow> Inr (appendVarint pw [] 4 (if b then 1 else 0), nodes + 1)
      | JStr s \<Rightarrow>
          if \<not> validUTF8 s then Inl (Errorf ''encode MCP tool: argument string is invalid'')
          else Inr (appendString pw [] 3 s, nodes + 1)
      | JNum literal \<Rightarrow> (case pf literal of
            None \<Rightarrow> Inl (Errorf ''encode MCP tool: argument number is invalid'')
          | Some number \<Rightarrow>
              if not_finite number then Inl (Errorf ''encode MCP tool: argument number is invalid'')
              else Inr (AppendFixed64 pw (AppendTag pw [] 2 Fixed64Type) number, nodes + 1))
      | JArr vs \<Rightarrow>
          try_then (foldM (\<lambda>(list, n) item.
              try_then (encodeProtoValue pw pf (depth + 1) n item) (\<lambda>(encoded, n).
                Inr (appendMessage pw list 1 encoded, n))) ([], nodes + 1) vs)
            (\<lambda>(list, n). Inr (appendMessage pw [] 6 list, n))
      | JObj ms \<Rightarrow>
          try_then (encodeProtoStruct pw (\<lambda>n v. encodeProtoValue pw pf (depth + 1) n v) (nodes + 1) ms)
            (\<lambda>(structure, n). Inr (appendMessage pw [] 5 structure, n)))"
  by pat_completeness auto
termination
  by (relation "measure (\<lambda>(pw, pf, depth, nodes, value). maxProtoJSONDepth + 1 - depth)") auto

declare encodeProtoValue.simps [simp del]

section \<open>Printing a schema: json.Marshal\<close>

text \<open>\<open>pff\<close> prints a float; a map is printed with its keys sorted.\<close>

fun marshal_pval :: "(u64 \<Rightarrow> string) \<Rightarrow> pval \<Rightarrow> string" where
  "marshal_pval pff PNull = ''null''"
| "marshal_pval pff (PNum b) = pff b"
| "marshal_pval pff (PStr s) = json_quote s"
| "marshal_pval pff (PBool b) = json_bool b"
| "marshal_pval pff (PStruct ms) =
     json_object (sort_key fst (map (\<lambda>(k, v). (k, marshal_pval pff v)) ms))"
| "marshal_pval pff (PList vs) = json_array (map (marshal_pval pff) vs)"

definition decodeMCPInputSchema :: "protowire \<Rightarrow> (u64 \<Rightarrow> string) \<Rightarrow> bytes \<Rightarrow> bytes result" where
  "decodeMCPInputSchema pw pff schemaPayload =
     try_then (decodeProtoValue pw 0 0 schemaPayload) (\<lambda>(value, _).
       case value of
         PStruct ms \<Rightarrow> Inr (marshal_pval pff value)
       | _ \<Rightarrow> Inl (Errorf ''run request MCP tool schema must be an object''))"

section \<open>What is encoded is decoded\<close>

text \<open>The value an encoded JSON value stands for.\<close>

fun to_pval :: "(string \<Rightarrow> u64 option) \<Rightarrow> json \<Rightarrow> pval" where
  "to_pval pf JNull = PNull"
| "to_pval pf (JBool b) = PBool b"
| "to_pval pf (JStr s) = PStr s"
| "to_pval pf (JNum l) = PNum (the (pf l))"
| "to_pval pf (JArr vs) = PList (map (to_pval pf) vs)"
| "to_pval pf (JObj ms) = PStruct (sort_key fst (last_wins (map (\<lambda>(k, _, v). (k, to_pval pf v)) ms)))"

lemma set_last_wins: "set (last_wins ms) \<subseteq> set ms"
  by (induction ms rule: last_wins.induct) auto

lemma fst_last_wins: "fst ` set (last_wins ms) = fst ` set ms"
  by (induction ms rule: last_wins.induct) auto

lemma distinct_last_wins: "distinct (map fst (last_wins ms))"
  by (induction ms rule: last_wins.induct) (auto simp: fst_last_wins)

lemma last_wins_map: "last_wins (map (\<lambda>(k, v). (k, f v)) ms) = map (\<lambda>(k, v). (k, f v)) (last_wins ms)"
  by (induction ms rule: last_wins.induct) (auto simp: image_image case_prod_unfold)

lemma insort_key_map:
  "insort_key fst (case x of (k, v) \<Rightarrow> (k, f v)) (map (\<lambda>(k, v). (k, f v)) xs)
     = map (\<lambda>(k, v). (k, f v)) (insort_key fst x xs)"
  by (induction xs) (auto split: prod.splits)

lemma sort_key_map: "sort_key fst (map (\<lambda>(k, v). (k, f v)) xs) = map (\<lambda>(k, v). (k, f v)) (sort_key fst xs)"
  by (induction xs) (auto simp: insort_key_map)

lemma to_pval_object:
  "to_pval pf (JObj ms) = PStruct (map (\<lambda>(k, v). (k, to_pval pf v)) (sorted_members ms))"
proof -
  have "map (\<lambda>(k, _, v). (k, to_pval pf v)) ms
      = map (\<lambda>(k, v). (k, to_pval pf v)) (map (\<lambda>(k, _, v). (k, v)) ms)"
    by (simp add: case_prod_unfold)
  then show ?thesis by (simp only: to_pval.simps last_wins_map sort_key_map sorted_members_def)
qed

lemma sorted_members_distinct: "distinct (map fst (sorted_members ms))"
  using distinct_last_wins by (simp add: sorted_members_def distinct_map)

lemma sorted_members_in: "(k, v) \<in> set (sorted_members ms) \<Longrightarrow> \<exists>r. (k, r, v) \<in> set ms"
  using set_last_wins by (fastforce simp: sorted_members_def)

context protowire_spec
begin

lemma entry_length: "length v \<le> length (bytes_entry pw n v)"
  using AppendBytes_length [of v] by (simp add: bytes_entry_def)

lemma decode_repeated:
  "valid_number n \<Longrightarrow> \<forall>b\<in>set bs. length b < 2 ^ 63 \<Longrightarrow>
    decodeWireFields pw (concat (map (bytes_entry pw n) bs)) = Inr (map (bytesField n) bs)"
  by (induction bs) (simp_all add: wire_simps)

lemma repeated_map [simp]: "repeatedBytesField (map (bytesField n) bs) n = bs"
  by (induction bs) simp_all

lemma concat_entry_length:
  "b \<in> set bs \<Longrightarrow> length b \<le> length (concat (map (bytes_entry pw n) bs))"
  using entry_length by (induction bs) (auto intro: le_trans trans_le_add1 trans_le_add2)

text \<open>
  One round trip per element gives the round trip of a list and of a struct: \<open>ok v b\<close> says
  that \<open>b\<close> is read back as \<open>v\<close> under any budget that admits it.
\<close>

lemma list_round:
  assumes "foldM (\<lambda>(list, n) item. try_then (enc n item)
      (\<lambda>(encoded, n). Inr (appendMessage pw list 1 encoded, n))) (l0, n0) vs = Inr (l, n)"
    and "\<And>v m b m'. v \<in> set vs \<Longrightarrow> enc m v = Inr (b, m') \<Longrightarrow> length b < 2 ^ 63 \<Longrightarrow> dec m b = Inr (f v, m')"
  shows "\<exists>bs. l = l0 @ concat (map (bytes_entry pw 1) bs) \<and>
    (\<forall>acc. (\<forall>b\<in>set bs. length b < 2 ^ 63) \<longrightarrow>
      foldM (\<lambda>(vs, n) b. try_then (dec n b) (\<lambda>(v, n). Inr (vs @ [v], n))) (acc, n0) bs
        = Inr (acc @ map f vs, n))"
  using assms
proof (induction vs arbitrary: l0 n0)
  case Nil
  then show ?case by (intro exI [of _ "[]"]) simp
next
  case (Cons v vs)
  from Cons.prems(1) obtain b m where enc: "enc n0 v = Inr (b, m)"
    and rest: "foldM (\<lambda>(list, n) item. try_then (enc n item)
      (\<lambda>(encoded, n). Inr (appendMessage pw list 1 encoded, n))) (appendMessage pw l0 1 b, m) vs = Inr (l, n)"
    by (auto simp: result_iff)
  have tail: "dec m b = Inr (f v, m')" if "v \<in> set vs" "enc m v = Inr (b, m')" "length b < 2 ^ 63" for v m b m'
    using Cons.prems(2) that by simp
  obtain bs where bs: "l = appendMessage pw l0 1 b @ concat (map (bytes_entry pw 1) bs)"
    and dec: "\<And>acc. \<forall>b\<in>set bs. length b < 2 ^ 63 \<Longrightarrow>
      foldM (\<lambda>(vs, n) b. try_then (dec n b) (\<lambda>(v, n). Inr (vs @ [v], n))) (acc, m) bs
        = Inr (acc @ map f vs, n)"
    using Cons.IH [OF rest] tail by blast
  have "l = l0 @ concat (map (bytes_entry pw 1) (b # bs))" using bs by (simp add: wire_simps)
  moreover have "dec n0 b = Inr (f v, m)" if "length b < 2 ^ 63"
    using Cons.prems(2) enc that by simp
  ultimately show ?case using dec by (intro exI [of _ "b # bs"]) simp
qed

lemma struct_round:
  assumes "encodeProtoEntries pw field enc l0 n0 ms = Inr (l, n)"
    and "\<And>k v m b m'. (k, v) \<in> set ms \<Longrightarrow> enc m v = Inr (b, m') \<Longrightarrow> length b < 2 ^ 63 \<Longrightarrow> dec m b = Inr (f v, m')"
    and "distinct (map fst ms)" and "\<forall>(k, v)\<in>set ms. validUTF8 k"
  shows "\<exists>bs. l = l0 @ concat (map (bytes_entry pw field) bs) \<and>
    (\<forall>acc. (\<forall>b\<in>set bs. length b < 2 ^ 63) \<and> fst ` set acc \<inter> fst ` set ms = {} \<longrightarrow>
      foldM (decodeProtoEntry pw dec) (acc, n0) bs = Inr (acc @ map (\<lambda>(k, v). (k, f v)) ms, n))"
  using assms
proof (induction ms arbitrary: l0 n0)
  case Nil
  then show ?case by (intro exI [of _ "[]"]) (simp add: encodeProtoEntries_def)
next
  case (Cons kv ms)
  obtain k v where kv: "kv = (k, v)" by (cases kv)
  from Cons.prems(1) obtain b m where enc: "enc n0 v = Inr (b, m)"
    and rest: "encodeProtoEntries pw field enc
      (appendMessage pw l0 field (appendMessage pw (appendString pw [] 1 k) 2 b)) m ms = Inr (l, n)"
    by (auto simp: encodeProtoEntries_def kv result_iff Let_def)
  let ?e = "bytes_entry pw 1 k @ bytes_entry pw 2 b"
  have IH: "\<exists>bs. l = (l0 @ bytes_entry pw field ?e) @ concat (map (bytes_entry pw field) bs) \<and>
    (\<forall>acc. (\<forall>b\<in>set bs. length b < 2 ^ 63) \<and> fst ` set acc \<inter> fst ` set ms = {} \<longrightarrow>
      foldM (decodeProtoEntry pw dec) (acc, m) bs = Inr (acc @ map (\<lambda>(k, v). (k, f v)) ms, n))"
    using Cons.IH [OF rest] Cons.prems(2-4) by (simp add: wire_simps) blast
  then obtain bs where bs: "l = l0 @ concat (map (bytes_entry pw field) (?e # bs))"
    and dec: "\<And>acc. \<forall>b\<in>set bs. length b < 2 ^ 63 \<Longrightarrow> fst ` set acc \<inter> fst ` set ms = {} \<Longrightarrow>
      foldM (decodeProtoEntry pw dec) (acc, m) bs = Inr (acc @ map (\<lambda>(k, v). (k, f v)) ms, n)"
    by (simp only: list.map concat.simps append_assoc) blast
  have head: "decodeProtoEntry pw dec (acc, n0) ?e = Inr (acc @ [(k, f v)], m)"
    if "length ?e < 2 ^ 63" and "k \<notin> fst ` set acc" for acc
  proof -
    have "length b < 2 ^ 63" "length k < 2 ^ 63"
      using that(1) entry_length [of b 2] entry_length [of k 1] by simp_all
    moreover from this have "dec n0 b = Inr (f v, m)"
      using Cons.prems(2) [of k v n0 b m] enc kv by simp
    ultimately show ?thesis
      using that(2) Cons.prems(4) kv by (simp add: decodeProtoEntry_def wire_simps valid_number_def)
  qed
  have "foldM (decodeProtoEntry pw dec) (acc, n0) (?e # bs) = Inr (acc @ map (\<lambda>(k, v). (k, f v)) (kv # ms), n)"
    if "\<forall>b\<in>set (?e # bs). length b < 2 ^ 63" and "fst ` set acc \<inter> fst ` set (kv # ms) = {}" for acc
  proof -
    have "foldM (decodeProtoEntry pw dec) (acc @ [(k, f v)], m) bs
        = Inr ((acc @ [(k, f v)]) @ map (\<lambda>(k, v). (k, f v)) ms, n)"
      using that Cons.prems(3) kv by (intro dec) auto
    then show ?thesis using head [of acc] that kv by simp
  qed
  with bs show ?case by blast
qed

lemma value_round:
  "encodeProtoValue pw pf depth nodes v = Inr (b, n') \<Longrightarrow> length b < 2 ^ 63 \<Longrightarrow>
    decodeProtoValue pw depth nodes b = Inr (to_pval pf v, n')"
proof (induction v arbitrary: depth nodes b n')
  case (JArr vs)
  let ?enc = "\<lambda>n v. encodeProtoValue pw pf (depth + 1) n v"
  let ?dec = "\<lambda>n p. decodeProtoValue pw (depth + 1) n p"
  from JArr.prems(1) obtain l where lim: "\<not> maxProtoJSONDepth < depth" "\<not> maxProtoJSONNodes < nodes + 1"
    and b: "b = bytes_entry pw 6 l"
    and fold: "foldM (\<lambda>(list, n) item. try_then (?enc n item)
      (\<lambda>(encoded, n). Inr (appendMessage pw list 1 encoded, n))) ([], nodes + 1) vs = Inr (l, n')"
    by (subst (asm) encodeProtoValue.simps) (auto simp: result_iff wire_simps)
  have elem: "?dec m c = Inr (to_pval pf v, m')"
    if "v \<in> set vs" "?enc m v = Inr (c, m')" "length c < 2 ^ 63" for v m c m'
    using JArr.IH that by blast
  obtain bs where l: "l = concat (map (bytes_entry pw 1) bs)"
    and dec: "\<forall>b\<in>set bs. length b < 2 ^ 63 \<Longrightarrow>
      foldM (\<lambda>(vs, n) b. try_then (?dec n b) (\<lambda>(v, n). Inr (vs @ [v], n))) ([], nodes + 1) bs
        = Inr (map (to_pval pf) vs, n')"
    using list_round [where dec = ?dec and f = "to_pval pf", OF fold elem] by auto
  have len: "length l < 2 ^ 63" using JArr.prems(2) entry_length [of l 6] b by simp
  then have small: "\<forall>b\<in>set bs. length b < 2 ^ 63"
    using concat_entry_length unfolding l by (meson le_less_trans)
  have "decodeProtoList pw ?dec (nodes + 1) l = Inr (map (to_pval pf) vs, n')"
    using dec [OF small] decode_repeated [of 1 bs] small
    by (simp add: decodeProtoList_def l valid_number_def)
  with lim len show ?case
    by (subst decodeProtoValue.simps)
      (simp add: b wire_simps valid_number_def proto_null_def proto_number_def proto_string_def
        proto_bool_def)
next
  case (JObj ms)
  let ?enc = "\<lambda>n v. encodeProtoValue pw pf (depth + 1) n v"
  let ?dec = "\<lambda>n p. decodeProtoValue pw (depth + 1) n p"
  from JObj.prems(1) obtain l where lim: "\<not> maxProtoJSONDepth < depth" "\<not> maxProtoJSONNodes < nodes + 1"
    and b: "b = bytes_entry pw 5 l" and keys: "\<not> list_ex (\<lambda>(k, _). \<not> validUTF8 k) ms"
    and fold: "encodeProtoEntries pw 1 ?enc [] (nodes + 1) (sorted_members ms) = Inr (l, n')"
    by (subst (asm) encodeProtoValue.simps) (auto simp: result_iff wire_simps encodeProtoStruct_def)
  have elem: "?dec m c = Inr (to_pval pf v, m')"
    if "(k, v) \<in> set (sorted_members ms)" "?enc m v = Inr (c, m')" "length c < 2 ^ 63" for k v m c m'
  proof -
    have "\<exists>r. (k, r, v) \<in> set ms" using that(1) by (rule sorted_members_in)
    then show ?thesis using JObj.IH [of "(k, _, v)" "(_, v)" v] that(2,3) by fastforce
  qed
  have utf8: "\<forall>(k, v)\<in>set (sorted_members ms). validUTF8 k"
    using keys sorted_members_in by (fastforce simp: list_ex_iff)
  have "\<exists>bs. l = [] @ concat (map (bytes_entry pw 1) bs) \<and>
    (\<forall>acc. (\<forall>b\<in>set bs. length b < 2 ^ 63) \<and> fst ` set acc \<inter> fst ` set (sorted_members ms) = {} \<longrightarrow>
      foldM (decodeProtoEntry pw ?dec) (acc, nodes + 1) bs
        = Inr (acc @ map (\<lambda>(k, v). (k, to_pval pf v)) (sorted_members ms), n'))"
    by (rule struct_round [OF fold _ sorted_members_distinct utf8]) (rule elem)
  then obtain bs where l: "l = concat (map (bytes_entry pw 1) bs)"
    and dec: "\<forall>b\<in>set bs. length b < 2 ^ 63 \<Longrightarrow> foldM (decodeProtoEntry pw ?dec) ([], nodes + 1) bs
        = Inr (map (\<lambda>(k, v). (k, to_pval pf v)) (sorted_members ms), n')"
    by auto
  have len: "length l < 2 ^ 63" using JObj.prems(2) entry_length [of l 5] b by simp
  then have small: "\<forall>b\<in>set bs. length b < 2 ^ 63"
    using concat_entry_length unfolding l by (meson le_less_trans)
  have "decodeProtoStruct pw ?dec (nodes + 1) l
      = Inr (map (\<lambda>(k, v). (k, to_pval pf v)) (sorted_members ms), n')"
    using dec [OF small] decode_repeated [of 1 bs] small
    by (simp add: decodeProtoStruct_def l valid_number_def)
  with lim len show ?case
    unfolding to_pval_object
    by (subst decodeProtoValue.simps)
      (simp add: b wire_simps valid_number_def proto_null_def proto_number_def proto_string_def
        proto_bool_def)
next
  case (JNum literal)
  have fixed: "AppendFixed64 pw (AppendTag pw [] 2 Fixed64Type) number = fixed64_entry pw 2 number" for number
    unfolding fixed64_entry_def by (rule AppendFixed64_extends)
  from JNum show ?case
    by (subst (asm) encodeProtoValue.simps, subst decodeProtoValue.simps)
      (auto simp: fixed wire_simps valid_number_def proto_null_def proto_number_def proto_string_def
        proto_bool_def split: option.splits if_splits)
next
  case (JStr s)
  then have "length s < 2 ^ 63"
    using entry_length [of s 3]
    by (subst (asm) encodeProtoValue.simps) (auto simp: wire_simps split: if_splits)
  with JStr show ?case
    by (subst (asm) encodeProtoValue.simps, subst decodeProtoValue.simps)
      (auto simp: wire_simps valid_number_def proto_null_def proto_number_def proto_string_def
        proto_bool_def split: if_splits)
qed (subst (asm) encodeProtoValue.simps, subst decodeProtoValue.simps,
    auto simp: wire_simps valid_number_def proto_null_def proto_number_def proto_string_def
      proto_bool_def split: if_splits)+

end

text \<open>C37: An MCP argument value that the encoder accepts (any JSON value, within the nesting
  limit and the node budget) is read back by the decoder as the same value, object members
  sorted with the last duplicate kept, and both sides spend the same budget.\<close>

theorem proto_value_roundtrip:
  assumes "protowire_spec pw"
    and "encodeProtoValue pw pf depth nodes v = Inr (b, n)" and "length b < 2 ^ 63"
  shows "decodeProtoValue pw depth nodes b = Inr (to_pval pf v, n)"
  using assms by (rule protowire_spec.value_round)

definition sample_args :: json where
  "sample_args = JObj [(''b'', [], JArr [JBool True, JNull]), (''a'', [], JStr ''x'')]"

theorem proto_value_roundtrip_witness:
  "\<exists>b. encodeProtoValue wire_format (\<lambda>_. None) 0 0 sample_args = Inr (b, 5) \<and>
     decodeProtoValue wire_format 0 0 b
       = Inr (PStruct [(''a'', PStr ''x''), (''b'', PList [PBool True, PNull])], 5)"
proof -
  obtain b where enc: "encodeProtoValue wire_format (\<lambda>_. None) 0 0 sample_args = Inr (b, 5)"
    and len: "length b < 2 ^ 63"
    by (simp add: sample_args_def encodeProtoValue.simps encodeProtoStruct_def encodeProtoEntries_def
        sorted_members_def maxProtoJSONDepth_def maxProtoJSONNodes_def wire_simps wire_eval go_eval)
  have "to_pval (\<lambda>_. None) sample_args = PStruct [(''a'', PStr ''x''), (''b'', PList [PBool True, PNull])]"
    by (simp add: sample_args_def)
  with enc proto_value_roundtrip [OF wire_format.protowire_spec_axioms enc len] show ?thesis by auto
qed

end
