(* ===== verification/Client_Message.thy ===== *)
theory Client_Message
  imports Proto_Value
begin

text \<open>
  The client messages of \<open>agent.go\<close> and the MCP tool declarations of \<open>mcp.go\<close>: decoding a
  bidi append request, an agent client message and a run request, and encoding the
  interaction updates sent back. Every identifier of a decoded run request is valid and
  trimmed, and its tool names are distinct and bounded in number.
\<close>

section \<open>Data\<close>

datatype ClientMessageKind =
    ClientMessageUnknown | ClientMessageRun | ClientMessageExec | ClientMessageKV
  | ClientMessageConversationAction | ClientMessageExecControl | ClientMessageInteractionResponse
  | ClientMessageHeartbeat | ClientMessagePrewarm

record MCPToolDefinition =
  mcp_Name :: string
  mcp_Description :: string
  mcp_ProviderIdentifier :: string
  mcp_ToolName :: string
  mcp_InputSchema :: bytes

record RunRequest =
  ConversationID :: string
  ModelID :: string
  UserText :: string
  UserMessageID :: string
  MetadataOnly :: bool
  MCPToolsPresent :: bool
  MCPTools :: "MCPToolDefinition list"

record ClientMessage =
  Kind :: ClientMessageKind
  Run :: "RunRequest option"
  Raw :: bytes

record BidiAppendRequest =
  RequestID :: string
  AppendSequence :: u64
  Message :: ClientMessage

text \<open>Token counts are \<open>int64\<close>: 64-bit words read with their sign.\<close>

record TokenUsage =
  InputTokens :: u64
  OutputTokens :: u64
  CacheReadTokens :: u64
  CacheWriteTokens :: u64

text \<open>\<open>Equal\<close> compares every field, the tools in order; \<open>bytes.Equal\<close> on the schemas.\<close>

definition RunRequest_Equal :: "RunRequest \<Rightarrow> RunRequest \<Rightarrow> bool" where
  "RunRequest_Equal request other =
     (if ConversationID request \<noteq> ConversationID other \<or> ModelID request \<noteq> ModelID other
        \<or> UserText request \<noteq> UserText other \<or> UserMessageID request \<noteq> UserMessageID other
        \<or> MetadataOnly request \<noteq> MetadataOnly other \<or> MCPToolsPresent request \<noteq> MCPToolsPresent other
        \<or> length (MCPTools request) \<noteq> length (MCPTools other) then False
      else list_all (\<lambda>(tool, candidate).
          mcp_Name tool = mcp_Name candidate \<and> mcp_Description tool = mcp_Description candidate
          \<and> mcp_ProviderIdentifier tool = mcp_ProviderIdentifier candidate
          \<and> mcp_ToolName tool = mcp_ToolName candidate
          \<and> mcp_InputSchema tool = mcp_InputSchema candidate)
        (zip (MCPTools request) (MCPTools other)))"

section \<open>MCP tool declarations: mcp.go\<close>

definition maxMCPTools :: nat where "maxMCPTools = 256"

definition decodeMCPToolDefinition ::
  "protowire \<Rightarrow> (u64 \<Rightarrow> string) \<Rightarrow> bytes \<Rightarrow> MCPToolDefinition result" where
  "decodeMCPToolDefinition pw pff payload =
     try_wrap (\<lambda>_. Errorf ''run request MCP tool is malformed'') (decodeWireFields pw payload) (\<lambda>fs.
       let name = trimSpace (bytesOr fs 1); description = bytesOr fs 2;
           providerIdentifier = trimSpace (bytesOr fs 4); toolName = trimSpace (bytesOr fs 5) in
       if \<not> validIdentifier name \<or> \<not> validIdentifier providerIdentifier \<or> \<not> validIdentifier toolName
          \<or> \<not> validUTF8 description then
         Inl (Errorf ''run request MCP tool metadata is invalid'')
       else (case lastBytesField fs 3 of
           None \<Rightarrow> Inl (Errorf ''run request MCP tool schema is required'')
         | Some schemaPayload \<Rightarrow>
             try_then (decodeMCPInputSchema pw pff schemaPayload) (\<lambda>encoded.
               Inr \<lparr> mcp_Name = name, mcp_Description = description,
                 mcp_ProviderIdentifier = providerIdentifier, mcp_ToolName = toolName,
                 mcp_InputSchema = encoded \<rparr>)))"

definition decodeMCPDescriptorTool ::
  "protowire \<Rightarrow> (u64 \<Rightarrow> string) \<Rightarrow> string \<Rightarrow> bytes \<Rightarrow> MCPToolDefinition result" where
  "decodeMCPDescriptorTool pw pff providerIdentifier toolPayload =
     try_wrap (\<lambda>_. Errorf ''run request MCP tool descriptor is malformed'')
       (decodeWireFields pw toolPayload) (\<lambda>toolFields.
       let toolName = trimSpace (bytesOr toolFields 1); description = bytesOr toolFields 3 in
       case lastBytesField toolFields 4 of
         None \<Rightarrow> Inl (Errorf ''run request MCP tool descriptor is invalid'')
       | Some schemaPayload \<Rightarrow>
           if \<not> validIdentifier toolName \<or> \<not> validUTF8 description then
             Inl (Errorf ''run request MCP tool descriptor is invalid'')
           else try_then (decodeMCPInputSchema pw pff schemaPayload) (\<lambda>inputSchema.
             Inr \<lparr> mcp_Name = providerIdentifier @ ''-'' @ toolName, mcp_Description = description,
               mcp_ProviderIdentifier = providerIdentifier, mcp_ToolName = toolName,
               mcp_InputSchema = inputSchema \<rparr>))"

definition decodeMCPDescriptor ::
  "protowire \<Rightarrow> (u64 \<Rightarrow> string) \<Rightarrow> bytes \<Rightarrow> MCPToolDefinition list result" where
  "decodeMCPDescriptor pw pff payload =
     try_wrap (\<lambda>_. Errorf ''run request MCP descriptor is malformed'') (decodeWireFields pw payload) (\<lambda>fs.
       let providerIdentifier = trimSpace (bytesOr fs 2) in
       if \<not> validIdentifier providerIdentifier then
         Inl (Errorf ''run request MCP descriptor identifier is invalid'')
       else mapM (decodeMCPDescriptorTool pw pff providerIdentifier) (repeatedBytesField fs 5))"

text \<open>The closure \<open>appendDefinition\<close>: the names seen are those of the result so far.\<close>

definition appendDefinition ::
  "string \<Rightarrow> string \<Rightarrow> MCPToolDefinition list \<Rightarrow> MCPToolDefinition \<Rightarrow> MCPToolDefinition list result" where
  "appendDefinition tooMany duplicate result definition =
     (if maxMCPTools \<le> length result then Inl (Errorf tooMany)
      else if mcp_Name definition \<in> mcp_Name ` set result then Inl (Errorf duplicate)
      else Inr (result @ [definition]))"

abbreviation appendRunDefinition ::
  "MCPToolDefinition list \<Rightarrow> MCPToolDefinition \<Rightarrow> MCPToolDefinition list result" where
  "appendRunDefinition \<equiv> appendDefinition ''run request has too many MCP tools''
     ''run request has duplicate MCP tool names''"

definition declaredMCPTools ::
  "protowire \<Rightarrow> (u64 \<Rightarrow> string) \<Rightarrow> wireField list \<Rightarrow> MCPToolDefinition list result" where
  "declaredMCPTools pw pff runFields = (case lastBytesField runFields 4 of
     None \<Rightarrow> Inr []
   | Some payload \<Rightarrow>
       try_wrap (\<lambda>_. Errorf ''run request MCP tools are malformed'') (decodeWireFields pw payload) (\<lambda>fs.
         foldM (\<lambda>result definitionPayload.
             try_then (decodeMCPToolDefinition pw pff definitionPayload) (appendRunDefinition result))
           [] (repeatedBytesField fs 1)))"

definition filesystemMCPTools ::
  "protowire \<Rightarrow> (u64 \<Rightarrow> string) \<Rightarrow> wireField list \<Rightarrow> MCPToolDefinition list \<Rightarrow> MCPToolDefinition list result"
where
  "filesystemMCPTools pw pff runFields result = (case lastBytesField runFields 6 of
     None \<Rightarrow> Inr result
   | Some payload \<Rightarrow>
       try_wrap (\<lambda>_. Errorf ''run request MCP filesystem options are malformed'')
         (decodeWireFields pw payload) (\<lambda>fs.
         if varintOr fs 1 \<noteq> 0 then
           foldM (\<lambda>result descriptorPayload.
               try_then (decodeMCPDescriptor pw pff descriptorPayload) (\<lambda>definitions.
                 foldM appendRunDefinition result definitions))
             result (repeatedBytesField fs 3)
         else Inr result))"

definition decodeMCPTools ::
  "protowire \<Rightarrow> (u64 \<Rightarrow> string) \<Rightarrow> wireField list \<Rightarrow> MCPToolDefinition list result" where
  "decodeMCPTools pw pff runFields =
     try_then (declaredMCPTools pw pff runFields) (filesystemMCPTools pw pff runFields)"

section \<open>Run requests: agent.go\<close>

definition validateBackgroundTaskCompletionAction :: "protowire \<Rightarrow> bytes \<Rightarrow> unit result" where
  "validateBackgroundTaskCompletionAction pw payload =
     try_wrap (Wrapf ''run request background completion is malformed: '') (decodeWireFields pw payload) (\<lambda>fs.
       case lastBytesField fs 1 of
         None \<Rightarrow> Inl (Errorf ''run request background completion is required'')
       | Some completion \<Rightarrow>
           try_wrap (Wrapf ''run request background completion is malformed: '')
             (decodeWireFields pw completion) (\<lambda>completionFields.
             case lastBytesField completionFields 1 of
               None \<Rightarrow> Inl (Errorf ''run request background completion task ID is required'')
             | Some taskID \<Rightarrow>
                 if \<not> validIdentifier (trimSpace taskID) then
                   Inl (Errorf ''run request background completion task ID is required'')
                 else Inr ()))"

definition run_conversation :: "wireField list \<Rightarrow> string result" where
  "run_conversation fs = (case lastBytesField fs 5 of
     Some v \<Rightarrow> if validIdentifier (trimSpace v) then Inr (trimSpace v)
       else Inl (Errorf ''run request conversation_id is required'')
   | None \<Rightarrow> Inl (Errorf ''run request conversation_id is required''))"

definition run_model :: "protowire \<Rightarrow> wireField list \<Rightarrow> string result" where
  "run_model pw fs =
     (case (case lastBytesField fs 9 of Some m \<Rightarrow> Some m | None \<Rightarrow> lastBytesField fs 3) of
        None \<Rightarrow> Inl (Errorf ''run request model is required'')
      | Some modelMessage \<Rightarrow>
          try_wrap (Wrapf ''run request model is malformed: '') (decodeWireFields pw modelMessage) (\<lambda>modelFields.
            case lastBytesField modelFields 1 of
              None \<Rightarrow> Inl (Errorf ''run request model is required'')
            | Some modelBytes \<Rightarrow>
                if \<not> validIdentifier (trimSpace modelBytes) then
                  Inl (Errorf ''run request model is required'')
                else Inr (trimSpace modelBytes)))"

text \<open>The user's text and the message ID of a user action.\<close>

definition run_user :: "protowire \<Rightarrow> bytes \<Rightarrow> (string \<times> string) result" where
  "run_user pw userActionMessage =
     try_wrap (Wrapf ''run request user action is malformed: '') (decodeWireFields pw userActionMessage)
       (\<lambda>userActionFields. case lastBytesField userActionFields 1 of
         None \<Rightarrow> Inl (Errorf ''run request user message is required'')
       | Some userMessage \<Rightarrow>
           try_wrap (Wrapf ''run request user message is malformed: '') (decodeWireFields pw userMessage)
             (\<lambda>userFields. case lastBytesField userFields 1 of
               None \<Rightarrow> Inl (Errorf ''run request user message text is required'')
             | Some text \<Rightarrow>
                 if trimSpace text = [] then Inl (Errorf ''run request user message text is required'')
                 else Inr (text, trimSpace (bytesOr userFields 2))))"

definition decodeRunRequest :: "protowire \<Rightarrow> (u64 \<Rightarrow> string) \<Rightarrow> bytes \<Rightarrow> RunRequest result" where
  "decodeRunRequest pw pff payload =
     try_wrap (Wrapf ''run request is malformed: '') (decodeWireFields pw payload) (\<lambda>fs.
     try_then (run_conversation fs) (\<lambda>conversationID.
     try_then (run_model pw fs) (\<lambda>modelID.
     case lastBytesField fs 2 of
       None \<Rightarrow> Inl (Errorf ''run request user message is required'')
     | Some actionMessage \<Rightarrow>
         try_wrap (Wrapf ''run request action is malformed: '') (decodeWireFields pw actionMessage)
           (\<lambda>actionFields.
           case (lastBytesField actionFields 1, lastBytesField actionFields 12) of
             (Some _, Some _) \<Rightarrow> Inl (Errorf ''run request action is ambiguous'')
           | (None, Some backgroundCompletion) \<Rightarrow>
               try_then (validateBackgroundTaskCompletionAction pw backgroundCompletion) (\<lambda>_.
               try_then (decodeMCPTools pw pff fs) (\<lambda>mcpTools.
                 Inr \<lparr> ConversationID = conversationID, ModelID = modelID, UserText = [],
                   UserMessageID = [], MetadataOnly = True, MCPToolsPresent = hasBytesField fs 4,
                   MCPTools = mcpTools \<rparr>))
           | (None, None) \<Rightarrow> Inl (Errorf ''run request user message is required'')
           | (Some userActionMessage, None) \<Rightarrow>
               try_then (run_user pw userActionMessage) (\<lambda>(text, messageID).
               try_then (decodeMCPTools pw pff fs) (\<lambda>mcpTools.
                 Inr \<lparr> ConversationID = conversationID, ModelID = modelID, UserText = text,
                   UserMessageID = messageID, MetadataOnly = False,
                   MCPToolsPresent = hasBytesField fs 4, MCPTools = mcpTools \<rparr>))))))"

section \<open>Client messages: agent.go\<close>

definition client_kinds :: "(int \<times> ClientMessageKind) list" where
  "client_kinds =
     [(1, ClientMessageRun), (2, ClientMessageExec), (3, ClientMessageKV),
      (4, ClientMessageConversationAction), (5, ClientMessageExecControl),
      (6, ClientMessageInteractionResponse), (7, ClientMessageHeartbeat), (8, ClientMessagePrewarm)]"

definition decodeClientMessage :: "protowire \<Rightarrow> (u64 \<Rightarrow> string) \<Rightarrow> bytes \<Rightarrow> ClientMessage result" where
  "decodeClientMessage pw pff payload =
     try_wrap (Wrapf ''client message is malformed: '') (decodeWireFields pw payload) (\<lambda>fs.
       case find (\<lambda>(field, kind). lastBytesField fs field \<noteq> None) client_kinds of
         None \<Rightarrow> Inl (Errorf ''client message type is unsupported'')
       | Some (field, kind) \<Rightarrow>
           if kind = ClientMessageRun then
             try_then (decodeRunRequest pw pff (bytesOr fs field)) (\<lambda>run.
               Inr \<lparr> Kind = kind, Run = Some run, Raw = payload \<rparr>)
           else Inr \<lparr> Kind = kind, Run = None, Raw = payload \<rparr>)"

definition DecodeAgentClientMessage :: "protowire \<Rightarrow> (u64 \<Rightarrow> string) \<Rightarrow> bytes \<Rightarrow> ClientMessage result" where
  "DecodeAgentClientMessage pw pff payload = decodeClientMessage pw pff payload"

definition DecodeBidiRequestID :: "protowire \<Rightarrow> bytes \<Rightarrow> string result" where
  "DecodeBidiRequestID pw payload =
     try_wrap (Wrapf ''request_id is malformed: '') (decodeWireFields pw payload) (\<lambda>fs.
       case lastBytesField fs 1 of
         None \<Rightarrow> Inl (Errorf ''request_id is required'')
       | Some value \<Rightarrow>
           let requestID = trimSpace value in
           if \<not> validIdentifier requestID then Inl (Errorf ''request_id is invalid'')
           else Inr requestID)"

text \<open>\<open>hex.DecodeString\<close>: an even number of digits, either case.\<close>

fun hex_decode :: "string \<Rightarrow> bytes option" where
  "hex_decode [] = Some []"
| "hex_decode [_] = None"
| "hex_decode (a # b # r) = (case (hex_val a, hex_val b, hex_decode r) of
     (Some x, Some y, Some t) \<Rightarrow> Some (mk_byte (x * 16 + y) # t) | _ \<Rightarrow> None)"

definition bidi_client_payload :: "wireField list \<Rightarrow> bytes result" where
  "bidi_client_payload fs =
     try_then (case lastBytesField fs 4 of
         Some clientPayload \<Rightarrow> Inr clientPayload
       | None \<Rightarrow> (case lastBytesField fs 1 of
           None \<Rightarrow> Inl (Errorf ''decode bidi append: client data is required'')
         | Some legacyHex \<Rightarrow>
             if legacyHex = [] then Inl (Errorf ''decode bidi append: client data is required'')
             else (case hex_decode legacyHex of
                 None \<Rightarrow> Inl (Errorf ''decode bidi append: client data is not valid hex'')
               | Some clientPayload \<Rightarrow> Inr clientPayload)))
       (\<lambda>clientPayload.
          if clientPayload = [] then Inl (Errorf ''decode bidi append: client data is required'')
          else Inr clientPayload)"

definition DecodeBidiAppendRequest ::
  "protowire \<Rightarrow> (u64 \<Rightarrow> string) \<Rightarrow> bytes \<Rightarrow> BidiAppendRequest result" where
  "DecodeBidiAppendRequest pw pff payload =
     try_wrap (Wrapf ''decode bidi append: malformed protobuf: '') (decodeWireFields pw payload) (\<lambda>fs.
       case lastBytesField fs 2 of
         None \<Rightarrow> Inl (Errorf ''decode bidi append: request_id is required'')
       | Some requestIDMessage \<Rightarrow>
           try_wrap (Wrapf ''decode bidi append: '') (DecodeBidiRequestID pw requestIDMessage) (\<lambda>requestID.
           try_then (bidi_client_payload fs) (\<lambda>clientPayload.
           try_wrap (Wrapf ''decode bidi append: '') (decodeClientMessage pw pff clientPayload) (\<lambda>message.
             Inr \<lparr> RequestID = requestID, AppendSequence = varintOr fs 3, Message = message \<rparr>))))"

section \<open>Interaction updates: agent.go\<close>

definition EncodeTextDelta :: "protowire \<Rightarrow> string \<Rightarrow> bytes result" where
  "EncodeTextDelta pw text =
     (if text = [] then Inl (Errorf ''encode text delta: text is required'')
      else let update = appendString pw [] 1 text; interaction = appendMessage pw [] 1 update in
        Inr (appendMessage pw [] 1 interaction))"

definition EncodeThinkingDelta :: "protowire \<Rightarrow> string \<Rightarrow> bytes result" where
  "EncodeThinkingDelta pw text =
     (if text = [] then Inl (Errorf ''encode thinking delta: text is required'')
      else let update = appendString pw [] 1 text; interaction = appendMessage pw [] 4 update in
        Inr (appendMessage pw [] 1 interaction))"

definition EncodeHeartbeat :: "protowire \<Rightarrow> bytes result" where
  "EncodeHeartbeat pw = (let interaction = appendMessage pw [] 13 [] in
     Inr (appendMessage pw [] 1 interaction))"

definition negative :: "u64 \<Rightarrow> bool" where
  "negative v \<longleftrightarrow> sint v < 0"

definition EncodeTurnEnded :: "protowire \<Rightarrow> TokenUsage \<Rightarrow> bytes result" where
  "EncodeTurnEnded pw usage =
     (if negative (InputTokens usage) \<or> negative (OutputTokens usage)
        \<or> negative (CacheReadTokens usage) \<or> negative (CacheWriteTokens usage) then
        Inl (Errorf ''encode turn ended: token counts must not be negative'')
      else
        let ended = appendVarint pw [] 1 (InputTokens usage);
            ended = appendVarint pw ended 2 (OutputTokens usage);
            ended = appendVarint pw ended 3 (CacheReadTokens usage);
            ended = appendVarint pw ended 4 (CacheWriteTokens usage);
            interaction = appendMessage pw [] 14 ended in
        Inr (appendMessage pw [] 1 interaction))"

section \<open>What a decoded run request promises\<close>

definition tools_ok :: "MCPToolDefinition list \<Rightarrow> bool" where
  "tools_ok tools \<longleftrightarrow> length tools \<le> maxMCPTools \<and> distinct (map mcp_Name tools)"

text \<open>An identifier the runner and the session accept: valid and without outer whitespace.\<close>

definition trimmed_identifier :: "string \<Rightarrow> bool" where
  "trimmed_identifier s \<longleftrightarrow> validIdentifier s \<and> trimSpace s = s"

definition definition_ok :: "MCPToolDefinition \<Rightarrow> bool" where
  "definition_ok tool \<longleftrightarrow> trimmed_identifier (mcp_ProviderIdentifier tool)
     \<and> trimmed_identifier (mcp_ToolName tool) \<and> mcp_Name tool \<noteq> []
     \<and> validUTF8 (mcp_Description tool)"

lemma trimmed_trimSpace [simp]: "validIdentifier (trimSpace s) \<Longrightarrow> trimmed_identifier (trimSpace s)"
  by (simp add: trimmed_identifier_def)

lemma identifier_not_empty: "validIdentifier s \<Longrightarrow> s \<noteq> []"
  by (simp add: validIdentifier_def)

lemma appendDefinition_ok:
  "appendDefinition e1 e2 result d = Inr result' \<Longrightarrow> tools_ok result \<Longrightarrow> list_all definition_ok result \<Longrightarrow>
    definition_ok d \<Longrightarrow> tools_ok result' \<and> list_all definition_ok result'"
  by (auto simp: appendDefinition_def tools_ok_def split: if_splits)

lemma decodeMCPToolDefinition_ok: "decodeMCPToolDefinition pw pff p = Inr d \<Longrightarrow> definition_ok d"
  by (auto simp: decodeMCPToolDefinition_def Let_def result_iff definition_ok_def
      dest: identifier_not_empty split: if_splits option.splits)

lemma decodeMCPDescriptorTool_ok:
  "trimmed_identifier provider \<Longrightarrow> decodeMCPDescriptorTool pw pff provider p = Inr d \<Longrightarrow> definition_ok d"
  by (auto simp: decodeMCPDescriptorTool_def Let_def result_iff definition_ok_def
      dest: identifier_not_empty split: if_splits option.splits)

lemma decodeMCPDescriptor_ok:
  assumes "decodeMCPDescriptor pw pff p = Inr ds"
  shows "list_all definition_ok ds"
proof -
  from assms obtain provider ps where "trimmed_identifier provider"
    and "mapM (decodeMCPDescriptorTool pw pff provider) ps = Inr ds"
    unfolding decodeMCPDescriptor_def Let_def try_wrap_Inr_iff if_Inl_Inr_iff
    using trimmed_trimSpace by blast
  then have "list_all2 (\<lambda>x y. definition_ok y) ps ds"
    by (auto simp: mapM_Inr_iff intro: list_all2_mono decodeMCPDescriptorTool_ok)
  then show ?thesis by (auto simp: list_all2_conv_all_nth list_all_length)
qed

lemma appendDefinitions_ok:
  assumes "foldM (appendDefinition e1 e2) result ds = Inr result'"
    and "tools_ok result \<and> list_all definition_ok result" and "list_all definition_ok ds"
  shows "tools_ok result' \<and> list_all definition_ok result'"
  using assms(1,2)
  by (rule foldM_invariant [where P = "\<lambda>r. tools_ok r \<and> list_all definition_ok r"])
    (use assms(3) in \<open>auto simp: list_all_iff dest: appendDefinition_ok\<close>)

abbreviation tools_invariant :: "MCPToolDefinition list \<Rightarrow> bool" where
  "tools_invariant tools \<equiv> tools_ok tools \<and> list_all definition_ok tools"

lemma tools_invariant_Nil: "tools_invariant []"
  by (simp add: tools_ok_def)

lemma declaredMCPTools_ok:
  assumes "declaredMCPTools pw pff fs = Inr tools"
  shows "tools_invariant tools"
proof -
  have loop: "tools_invariant r" if "foldM (\<lambda>result definitionPayload.
      try_then (decodeMCPToolDefinition pw pff definitionPayload) (appendRunDefinition result)) [] ps = Inr r"
    for ps r
    using that tools_invariant_Nil by (rule foldM_invariant)
      (auto simp: result_iff dest: decodeMCPToolDefinition_ok appendDefinition_ok)
  show ?thesis
    using assms tools_invariant_Nil loop
    by (auto simp: declaredMCPTools_def try_wrap_Inr_iff split: option.splits)
qed

lemma filesystemMCPTools_ok:
  assumes "filesystemMCPTools pw pff fs r = Inr tools" and r: "tools_invariant r"
  shows "tools_invariant tools"
proof -
  have loop: "tools_invariant r'" if "foldM (\<lambda>result descriptorPayload.
      try_then (decodeMCPDescriptor pw pff descriptorPayload) (\<lambda>definitions.
        foldM appendRunDefinition result definitions)) r ps = Inr r'" for ps r'
    using that r by (rule foldM_invariant)
      (auto simp: result_iff dest: decodeMCPDescriptor_ok appendDefinitions_ok)
  show ?thesis
    using assms loop
    by (auto simp: filesystemMCPTools_def try_wrap_Inr_iff split: option.splits if_splits)
qed

lemma decodeMCPTools_ok: "decodeMCPTools pw pff fs = Inr tools \<Longrightarrow> tools_invariant tools"
  unfolding decodeMCPTools_def try_then_Inr_iff
  using declaredMCPTools_ok filesystemMCPTools_ok by blast

text \<open>The promises of a decoded run request, which the runner and the session rely on.\<close>

definition run_ok :: "RunRequest \<Rightarrow> bool" where
  "run_ok run \<longleftrightarrow> trimmed_identifier (ConversationID run) \<and> trimmed_identifier (ModelID run)
     \<and> (MetadataOnly run \<longrightarrow> UserText run = [] \<and> UserMessageID run = [])
     \<and> (\<not> MetadataOnly run \<longrightarrow> trimSpace (UserText run) \<noteq> [])
     \<and> trimSpace (UserMessageID run) = UserMessageID run
     \<and> tools_ok (MCPTools run) \<and> list_all definition_ok (MCPTools run)"

lemma run_conversation_ok: "run_conversation fs = Inr s \<Longrightarrow> trimmed_identifier s"
  by (auto simp: run_conversation_def split: option.splits if_splits)

lemma run_model_ok: "run_model pw fs = Inr s \<Longrightarrow> trimmed_identifier s"
  by (auto simp: run_model_def result_iff split: option.splits if_splits)

lemma run_user_ok: "run_user pw m = Inr (text, messageID) \<Longrightarrow>
    trimSpace text \<noteq> [] \<and> trimSpace messageID = messageID"
  by (auto simp: run_user_def result_iff split: option.splits if_splits)

lemma decodeRunRequest_ok:
  assumes "decodeRunRequest pw pff payload = Inr run"
  shows "run_ok run"
  using assms
  by (auto simp: decodeRunRequest_def result_iff run_ok_def
      dest!: run_conversation_ok run_model_ok run_user_ok decodeMCPTools_ok
      split: option.splits if_splits)

lemma decodeClientMessage_cases:
  assumes "decodeClientMessage pw pff payload = Inr message"
  obtains run where "Kind message = ClientMessageRun" "Run message = Some run" "run_ok run"
      "Raw message = payload"
  | "Kind message \<noteq> ClientMessageRun" "Run message = None" "Raw message = payload"
proof -
  from assms obtain fs where "(case find (\<lambda>(field, kind). lastBytesField fs field \<noteq> None) client_kinds of
         None \<Rightarrow> Inl (Errorf ''client message type is unsupported'')
       | Some (field, kind) \<Rightarrow>
           if kind = ClientMessageRun then
             try_then (decodeRunRequest pw pff (bytesOr fs field)) (\<lambda>run.
               Inr \<lparr> Kind = kind, Run = Some run, Raw = payload \<rparr>)
           else Inr \<lparr> Kind = kind, Run = None, Raw = payload \<rparr>) = Inr message" (is "?body = _")
    unfolding decodeClientMessage_def try_wrap_Inr_iff by blast
  moreover obtain field kind where
    "find (\<lambda>(field, kind). lastBytesField fs field \<noteq> None) client_kinds = Some (field, kind)"
    using calculation by (fastforce split: option.splits)
  ultimately have "(if kind = ClientMessageRun then
             try_then (decodeRunRequest pw pff (bytesOr fs field)) (\<lambda>run.
               Inr \<lparr> Kind = kind, Run = Some run, Raw = payload \<rparr>)
           else Inr \<lparr> Kind = kind, Run = None, Raw = payload \<rparr>) = Inr message" by simp
  then consider run where "decodeRunRequest pw pff (bytesOr fs field) = Inr run"
      "message = \<lparr> Kind = ClientMessageRun, Run = Some run, Raw = payload \<rparr>"
    | "kind \<noteq> ClientMessageRun" "message = \<lparr> Kind = kind, Run = None, Raw = payload \<rparr>"
    by (auto simp only: try_then_Inr_iff sum.inject split: if_splits)
  then show thesis
    using that by cases (auto dest: decodeRunRequest_ok)
qed

lemma decodeClientMessage_run_ok:
  "decodeClientMessage pw pff payload = Inr message \<Longrightarrow> Run message = Some run \<Longrightarrow> run_ok run"
  by (erule decodeClientMessage_cases) auto

text \<open>Whatever bytes arrive, a run request that decodes has a conversation ID and a model ID
  that are valid and trimmed, a user text that is not blank unless the request is
  metadata-only, and at most 256 MCP tools with distinct names, valid provider and tool
  identifiers and UTF-8 descriptions; and a message of any other kind carries no run.\<close>

theorem decoded_run_request_ok:
  assumes "DecodeAgentClientMessage pw pff payload = Inr message"
  shows "(Kind message = ClientMessageRun) = (Run message \<noteq> None) \<and> Raw message = payload
    \<and> (case Run message of None \<Rightarrow> True | Some run \<Rightarrow> run_ok run)"
  using decodeClientMessage_cases [OF assms [unfolded DecodeAgentClientMessage_def]] by cases auto

text \<open>A run request with one MCP tool, and the frame of it inside a client message.\<close>

definition sample_run :: bytes where
  "sample_run = (let pw = wire_format;
     model = appendString pw [] 1 ''gpt''; message = appendString pw [] 1 ''hi'';
     action = appendMessage pw [] 1 (appendMessage pw [] 1 message);
     run = appendMessage pw [] 2 action; run = appendString pw run 5 '' c1 '' in
     appendMessage pw [] 1 (appendMessage pw run 9 model))"

lemma sample_run_decoded:
  "DecodeAgentClientMessage wire_format pff sample_run = Inr \<lparr> Kind = ClientMessageRun,
     Run = Some \<lparr> ConversationID = ''c1'', ModelID = ''gpt'', UserText = ''hi'', UserMessageID = [],
       MetadataOnly = False, MCPToolsPresent = False, MCPTools = [] \<rparr>, Raw = sample_run \<rparr>"
  by (simp add: sample_run_def Let_def DecodeAgentClientMessage_def decodeClientMessage_def client_kinds_def
      decodeRunRequest_def run_conversation_def run_model_def run_user_def decodeMCPTools_def declaredMCPTools_def
      filesystemMCPTools_def hasBytesField_def validIdentifier_def trimSpace_def trim_pieces_def wire_concrete go_eval)

theorem decoded_run_request_ok_witness:
  "run_ok \<lparr> ConversationID = ''c1'', ModelID = ''gpt'', UserText = ''hi'', UserMessageID = [],
     MetadataOnly = False, MCPToolsPresent = False, MCPTools = [] \<rparr>"
  using decoded_run_request_ok [OF sample_run_decoded [of "\<lambda>_. ''0''"]] by simp

section \<open>Decoding ends without a fault\<close>

context protowire_spec
begin

lemma proto_kinds_no_fault [go_total]:
  "no_fault (proto_null fs)" "no_fault (proto_number fs)" "no_fault (proto_string fs)" "no_fault (proto_bool fs)"
  by (auto simp: proto_null_def proto_number_def proto_string_def proto_bool_def split: option.splits)

lemma decodeProtoStruct_no_fault:
  "(\<And>n p. no_fault (value n p)) \<Longrightarrow> no_fault (decodeProtoStruct pw value nodes payload)"
  by (auto simp: decodeProtoStruct_def decodeProtoEntry_def intro!: go_total split: option.splits prod.splits)

lemma decodeProtoList_no_fault:
  "(\<And>n p. no_fault (value n p)) \<Longrightarrow> no_fault (decodeProtoList pw value nodes payload)"
  by (auto simp: decodeProtoList_def intro!: go_total split: prod.splits)

lemma decodeProtoValue_no_fault [go_total]: "no_fault (decodeProtoValue pw depth nodes payload)"
proof (induction "maxProtoJSONDepth + 1 - depth" arbitrary: depth nodes payload rule: less_induct)
  case less
  show ?case
  proof (cases "maxProtoJSONDepth < depth")
    case True
    then show ?thesis by (simp add: decodeProtoValue.simps)
  next
    case False
    then have deeper: "no_fault (decodeProtoValue pw (Suc depth) n p)" for n p
      by (intro less.hyps) simp
    show ?thesis
      using False
      by (subst decodeProtoValue.simps)
        (auto simp: Let_def intro!: go_total decodeProtoStruct_no_fault decodeProtoList_no_fault deeper
          split: option.splits)
  qed
qed

lemma decodeMCPInputSchema_no_fault [go_total]: "no_fault (decodeMCPInputSchema pw pff payload)"
  by (auto simp: decodeMCPInputSchema_def intro!: go_total split: pval.splits)

lemma mcp_definitions_no_fault [go_total]:
  "no_fault (decodeMCPToolDefinition pw pff payload)"
  "no_fault (decodeMCPDescriptorTool pw pff provider payload)"
  by (auto simp: decodeMCPToolDefinition_def decodeMCPDescriptorTool_def Let_def intro!: go_total
      split: option.splits)

lemma appendDefinition_no_fault [go_total]: "no_fault (appendDefinition e1 e2 result d)"
  by (simp add: appendDefinition_def)

lemma decodeMCPDescriptor_no_fault [go_total]: "no_fault (decodeMCPDescriptor pw pff payload)"
  by (auto simp: decodeMCPDescriptor_def Let_def intro!: go_total)

lemma decodeMCPTools_no_fault [go_total]: "no_fault (decodeMCPTools pw pff fs)"
  by (auto simp: decodeMCPTools_def declaredMCPTools_def filesystemMCPTools_def intro!: go_total
      split: option.splits)

lemma run_parts_no_fault [go_total]:
  "no_fault (run_conversation fs)" "no_fault (run_model pw fs)" "no_fault (run_user pw m)"
  "no_fault (validateBackgroundTaskCompletionAction pw payload)"
  by (auto simp: run_conversation_def run_model_def run_user_def validateBackgroundTaskCompletionAction_def
      Let_def intro!: go_total split: option.splits)

lemma decodeRunRequest_no_fault [go_total]: "no_fault (decodeRunRequest pw pff payload)"
  by (auto simp: decodeRunRequest_def intro!: go_total split: option.splits)

lemma decodeClientMessage_no_fault [go_total]: "no_fault (decodeClientMessage pw pff payload)"
  by (auto simp: decodeClientMessage_def intro!: go_total split: option.splits)

lemma bidi_no_fault [go_total]: "no_fault (DecodeBidiRequestID pw payload)" "no_fault (bidi_client_payload fs)"
  by (auto simp: DecodeBidiRequestID_def bidi_client_payload_def Let_def intro!: go_total split: option.splits)

lemma DecodeBidiAppendRequest_no_fault: "no_fault (DecodeBidiAppendRequest pw pff payload)"
  by (auto simp: DecodeBidiAppendRequest_def intro!: go_total split: option.splits)

end

text \<open>Decoding a bidi append request, down through the client message, the run request, its MCP
  tool descriptors and their nested JSON schemas, returns a value or an error on every
  payload: it never panics and never recurses for ever.\<close>

theorem decode_bidi_append_total:
  assumes "protowire_spec pw"
  shows "no_fault (DecodeBidiAppendRequest pw pff payload)"
  using assms by (rule protowire_spec.DecodeBidiAppendRequest_no_fault)

theorem decode_bidi_append_total_witness:
  "no_fault (DecodeBidiAppendRequest wire_format (\<lambda>_. ''0'') [CHR 0x22, CHR 0x05])"
  using wire_format.protowire_spec_axioms by (rule decode_bidi_append_total)

section \<open>The end of a turn\<close>

definition negative_usage :: "TokenUsage \<Rightarrow> bool" where
  "negative_usage usage \<longleftrightarrow> negative (InputTokens usage) \<or> negative (OutputTokens usage)
     \<or> negative (CacheReadTokens usage) \<or> negative (CacheWriteTokens usage)"

definition carries_usage :: "protowire \<Rightarrow> bytes \<Rightarrow> TokenUsage \<Rightarrow> bool" where
  "carries_usage pw update usage \<longleftrightarrow> (\<exists>interaction ended.
     decodeWireFields pw update = Inr [bytesField 1 interaction]
     \<and> decodeWireFields pw interaction = Inr [bytesField 14 ended]
     \<and> decodeWireFields pw ended = Inr [varintField 1 (InputTokens usage),
         varintField 2 (OutputTokens usage), varintField 3 (CacheReadTokens usage),
         varintField 4 (CacheWriteTokens usage)])"

context protowire_spec
begin

lemma turn_ended_read:
  assumes enc: "EncodeTurnEnded pw usage = Inr update" and len: "length update < 2 ^ 63"
  shows "carries_usage pw update usage"
proof -
  let ?ended = "varint_entry pw 1 (InputTokens usage) @ varint_entry pw 2 (OutputTokens usage)
    @ varint_entry pw 3 (CacheReadTokens usage) @ varint_entry pw 4 (CacheWriteTokens usage)"
  have update: "update = bytes_entry pw 1 (bytes_entry pw 14 ?ended)"
    using enc by (simp add: EncodeTurnEnded_def Let_def wire_simps split: if_splits)
  then have "length (bytes_entry pw 14 ?ended) < 2 ^ 63"
    using len entry_length [of "bytes_entry pw 14 ?ended" 1] by simp
  moreover from this have "length ?ended < 2 ^ 63"
    using entry_length [of ?ended 14] by linarith
  ultimately show ?thesis
    unfolding carries_usage_def update
    by (intro exI [of _ "bytes_entry pw 14 ?ended"] exI [of _ ?ended]) (simp add: wire_simps valid_number_def)
qed

end

text \<open>The turn-ended update exists exactly for token counts that are not negative as \<open>int64\<close>,
  and then its nested message carries the four counts unchanged.\<close>

theorem turn_ended_counts:
  assumes "protowire_spec pw"
  shows "case EncodeTurnEnded pw usage of
      Inl e \<Rightarrow> negative_usage usage
    | Inr update \<Rightarrow> \<not> negative_usage usage \<and> (length update < 2 ^ 63 \<longrightarrow> carries_usage pw update usage)"
proof (cases "EncodeTurnEnded pw usage")
  case (Inl e)
  then show ?thesis by (simp add: EncodeTurnEnded_def negative_usage_def Let_def split: if_splits)
next
  case (Inr update)
  then have "\<not> negative_usage usage"
    by (simp add: EncodeTurnEnded_def negative_usage_def split: if_splits)
  with Inr show ?thesis using protowire_spec.turn_ended_read [OF assms Inr] by simp
qed

theorem turn_ended_counts_witness:
  "\<exists>update. EncodeTurnEnded wire_format \<lparr> InputTokens = 300, OutputTokens = 2, CacheReadTokens = 0,
      CacheWriteTokens = 0 \<rparr> = Inr update
    \<and> carries_usage wire_format update \<lparr> InputTokens = 300, OutputTokens = 2, CacheReadTokens = 0,
      CacheWriteTokens = 0 \<rparr>"
proof -
  let ?usage = "\<lparr> InputTokens = 300, OutputTokens = 2, CacheReadTokens = 0, CacheWriteTokens = 0 \<rparr>"
  have "\<exists>update. EncodeTurnEnded wire_format ?usage = Inr update \<and> length update < 2 ^ 63"
    by (simp add: EncodeTurnEnded_def negative_def Let_def wire_concrete)
  then obtain update where "EncodeTurnEnded wire_format ?usage = Inr update" "length update < 2 ^ 63"
    by blast
  then show ?thesis
    using turn_ended_counts [OF wire_format.protowire_spec_axioms, of ?usage] by simp
qed

end
