(* ===== verification/Tool_Common.thy ===== *)
theory Tool_Common
  imports Client_Message
begin

text \<open>
  What all tools share: the requests and results that cross between the session and the
  tools (\<open>tools.go\<close>, \<open>tool_bridge.go\<close>), the validation of a request, the frames of a
  dispatched and a completed call, the identity of an exec result and the strict decoding
  of a tool's JSON arguments. The identity a dispatch frame carries is the identity read
  back from it, and a request that passes validation has a non-zero message ID and two
  identifiers.
\<close>

section \<open>Requests and results\<close>

record ToolRequest =
  req_MessageID :: u32
  req_ExecID :: string
  req_CallID :: string
  req_Name :: string
  req_Arguments :: string

record ToolDispatch =
  Execute :: bytes
  Started :: bytes

datatype ShellEventKind =
    ShellEventUnknown | ShellEventStdout | ShellEventStderr | ShellEventExit | ShellEventStart
  | ShellEventRejected | ShellEventPermissionDenied | ShellEventBackgrounded

text \<open>
  The exit code is an \<open>int32\<close>: a 32-bit word read with its sign. An empty payload stands
  for nil, which is what \<open>append([]byte(nil), payload...)\<close> makes of it.
\<close>

record ToolResult =
  res_MessageID :: u32
  res_ExecID :: string
  res_Name :: string
  res_Content :: string
  res_IsError :: bool
  res_Complete :: bool
  res_ResultPayload :: bytes
  res_ShellEvent :: ShellEventKind
  res_StdoutDelta :: string
  res_StderrDelta :: string
  res_Stdout :: string
  res_Stderr :: string
  res_ExitCode :: u32
  res_CWD :: string
  res_ShellID :: u32
  res_PID :: u32
  res_Truncated :: bool
  res_EventPayload :: bytes

record ExecResultIdentity =
  id_MessageID :: u32
  id_ExecID :: string

definition new_result :: "u32 \<Rightarrow> string \<Rightarrow> string \<Rightarrow> ToolResult" where
  "new_result messageID execID name = \<lparr> res_MessageID = messageID, res_ExecID = execID, res_Name = name,
     res_Content = [], res_IsError = False, res_Complete = False, res_ResultPayload = [],
     res_ShellEvent = ShellEventUnknown, res_StdoutDelta = [], res_StderrDelta = [], res_Stdout = [],
     res_Stderr = [], res_ExitCode = 0, res_CWD = [], res_ShellID = 0, res_PID = 0,
     res_Truncated = False, res_EventPayload = [] \<rparr>"

section \<open>Validation\<close>

definition validateToolRequest :: "ToolRequest \<Rightarrow> unit result" where
  "validateToolRequest request =
     (if req_MessageID request = 0 then Inl (Errorf ''encode tool dispatch: message ID is required'')
      else if \<not> validIdentifier (trimSpace (req_ExecID request))
          \<or> \<not> validIdentifier (trimSpace (req_CallID request)) then
        Inl (Errorf ''encode tool dispatch: exec ID and call ID are required'')
      else if req_Name request = [] \<or> req_Name request \<noteq> trimSpace (req_Name request) then
        Inl (Errorf ''encode tool dispatch: tool name is required'')
      else if req_Arguments request = [] then
        Inl (Errorf ''encode tool dispatch: arguments are required'')
      else Inr ())"

definition execClientPayload :: "protowire \<Rightarrow> bytes \<Rightarrow> bytes result" where
  "execClientPayload pw raw =
     try_wrap (Wrapf ''decode tool result: malformed protobuf: '') (decodeWireFields pw raw) (\<lambda>topFields.
       case lastBytesField topFields 2 of
         None \<Rightarrow> Inl (Errorf ''decode tool result: exec message is required'')
       | Some payload \<Rightarrow> Inr payload)"

definition DecodeExecResultIdentity :: "protowire \<Rightarrow> ClientMessage \<Rightarrow> ExecResultIdentity result" where
  "DecodeExecResultIdentity pw message =
     (if Kind message \<noteq> ClientMessageExec then
        Inl (Errorf ''decode exec result identity: client message is not an exec result'')
      else try_then (execClientPayload pw (Raw message)) (\<lambda>execPayload.
        try_wrap (\<lambda>_. Errorf ''decode exec result identity: malformed exec message'')
          (decodeWireFields pw execPayload) (\<lambda>fs.
          let messageID = (ucast (varintOr fs 1) :: u32); execID = trimSpace (bytesOr fs 15) in
          if messageID = 0 \<and> execID = [] then
            Inl (Errorf ''decode exec result identity: message ID or exec ID is required'')
          else Inr \<lparr> id_MessageID = messageID, id_ExecID = execID \<rparr>)))"

definition fallbackString :: "string \<Rightarrow> string \<Rightarrow> string" where
  "fallbackString v fallback = (if trimSpace v = [] then fallback else trimSpace v)"

section \<open>Frames\<close>

text \<open>
  The exec server message that runs a tool in the client: message ID, exec ID and the
  arguments under the tool's field; and the interaction update that shows the call as
  started or completed.
\<close>

definition execFrame :: "protowire \<Rightarrow> u32 \<Rightarrow> string \<Rightarrow> int \<Rightarrow> bytes \<Rightarrow> bytes" where
  "execFrame pw messageID execID execField execArgs =
     (let execMessage = appendVarint pw [] 1 (ucast messageID);
          execMessage = appendString pw execMessage 15 execID;
          execMessage = appendMessage pw execMessage execField execArgs in
      appendMessage pw [] 2 execMessage)"

definition callFrame :: "protowire \<Rightarrow> int \<Rightarrow> string \<Rightarrow> bytes \<Rightarrow> bytes" where
  "callFrame pw updateField callID toolCall =
     (let call = appendString pw [] 1 callID;
          call = appendMessage pw call 2 toolCall;
          interaction = appendMessage pw [] updateField call in
      appendMessage pw [] 1 interaction)"

definition toolDispatch :: "protowire \<Rightarrow> ToolRequest \<Rightarrow> int \<Rightarrow> bytes \<Rightarrow> bytes \<Rightarrow> ToolDispatch" where
  "toolDispatch pw request execField execArgs toolCall =
     \<lparr> Execute = execFrame pw (req_MessageID request) (req_ExecID request) execField execArgs,
       Started = callFrame pw 2 (req_CallID request) toolCall \<rparr>"

section \<open>Arguments\<close>

definition hasNul :: "string \<Rightarrow> bool" where
  "hasNul s \<longleftrightarrow> CHR 0x00 \<in> set s"

text \<open>A string member of the arguments, the empty string when it is missing.\<close>

definition stringField :: "string \<Rightarrow> (string \<times> string \<times> json) list \<Rightarrow> string option" where
  "stringField name ms = fold_field set_string name [] ms"

definition try_some :: "goerror \<Rightarrow> 'a option \<Rightarrow> ('a \<Rightarrow> 'b result) \<Rightarrow> 'b result" where
  "try_some e r k = (case r of None \<Rightarrow> Inl e | Some x \<Rightarrow> k x)"

lemma try_some_simps [simp]:
  "try_some e None k = Inl e"
  "try_some e (Some x) k = k x"
  by (simp_all add: try_some_def)

lemma try_some_Inr_iff [result_iff]:
  "try_some e r k = Inr y \<longleftrightarrow> (\<exists>x. r = Some x \<and> k x = Inr y)"
  by (cases r) auto

lemma no_fault_try_some [go_total]:
  "\<not> is_fault e \<Longrightarrow> (\<And>x. r = Some x \<Longrightarrow> no_fault (k x)) \<Longrightarrow> no_fault (try_some e r k)"
  by (cases r) auto

text \<open>Members of an object whose zero values are left out (\<open>omitempty\<close>).\<close>

definition omit_if :: "bool \<Rightarrow> string \<Rightarrow> string \<Rightarrow> (string \<times> string) list" where
  "omit_if absent name v = (if absent then [] else [(name, v)])"

definition toolErrorContent :: "string \<Rightarrow> string \<Rightarrow> string" where
  "toolErrorContent path error =
     json_object (omit_if (path = []) ''path'' (json_quote path) @ [(''error'', json_quote error)])"

definition withJSONContent :: "ToolResult \<Rightarrow> string \<Rightarrow> ToolResult result" where
  "withJSONContent r content = Inr (r\<lparr>res_Content := content\<rparr>)"

text \<open>
  The loops over a literal table of failure variants: the first variant that is present
  decides; \<open>decode\<close> reads it from its decoded fields.
\<close>

fun first_variant ::
  "protowire \<Rightarrow> goerror \<Rightarrow> goerror \<Rightarrow> wireField list \<Rightarrow> (int \<times> 'c) list \<Rightarrow>
     ('c \<Rightarrow> wireField list \<Rightarrow> 'a result) \<Rightarrow> 'a result" where
  "first_variant pw malformed unsupported fs [] decode = Inl unsupported"
| "first_variant pw malformed unsupported fs ((field, c) # cs) decode =
     (case lastBytesField fs field of
        None \<Rightarrow> first_variant pw malformed unsupported fs cs decode
      | Some failurePayload \<Rightarrow>
          try_wrap (\<lambda>_. malformed) (decodeWireFields pw failurePayload) (decode c))"

context protowire_spec
begin

lemma first_variant_no_fault:
  "\<not> is_fault malformed \<Longrightarrow> \<not> is_fault unsupported \<Longrightarrow> (\<And>c fs. no_fault (decode c fs)) \<Longrightarrow>
    no_fault (first_variant pw malformed unsupported fs cs decode)"
  by (induction cs) (auto intro!: go_total split: option.splits)

end

section \<open>The identity in a frame\<close>

context protowire_spec
begin

lemma execFrame_fields:
  assumes "valid_number f" and "length (execFrame pw messageID execID f args) < 2 ^ 63"
  shows "\<exists>payload. decodeWireFields pw (execFrame pw messageID execID f args) = Inr [bytesField 2 payload]
    \<and> decodeWireFields pw payload =
        Inr [varintField 1 (ucast messageID), bytesField 15 execID, bytesField f args]"
proof -
  let ?payload = "varint_entry pw 1 (ucast messageID) @ bytes_entry pw 15 execID @ bytes_entry pw f args"
  have frame: "execFrame pw messageID execID f args = bytes_entry pw 2 ?payload"
    by (simp add: execFrame_def Let_def wire_simps)
  have "length ?payload < 2 ^ 63"
    using assms(2) entry_length [of ?payload 2] unfolding frame by linarith
  moreover have "length execID < 2 ^ 63" "length args < 2 ^ 63"
    using calculation entry_length [of execID 15] entry_length [of args f] by simp_all
  ultimately show ?thesis
    using assms(1) by (intro exI [of _ ?payload]) (simp add: frame wire_simps valid_number_def)
qed

lemma execFrame_identity:
  assumes "valid_number f" and "length (execFrame pw messageID execID f args) < 2 ^ 63"
    and "messageID \<noteq> 0" and "trimSpace execID = execID" and "f \<noteq> 15"
    and "Kind message = ClientMessageExec" and "Raw message = execFrame pw messageID execID f args"
  shows "DecodeExecResultIdentity pw message = Inr \<lparr> id_MessageID = messageID, id_ExecID = execID \<rparr>"
proof -
  have ident: "ucast (ucast messageID :: u64) = messageID" by (rule ucast_up_ucast_id) (simp add: is_up)
  from execFrame_fields [OF assms(1,2)] obtain payload where
    "decodeWireFields pw (Raw message) = Inr [bytesField 2 payload]"
    "decodeWireFields pw payload =
        Inr [varintField 1 (ucast messageID), bytesField 15 execID, bytesField f args]"
    using assms(7) by auto
  then show ?thesis
    using assms(3-6) ident
    by (simp add: DecodeExecResultIdentity_def execClientPayload_def bytesOr_def varintOr_def Let_def)
qed

end

end
