(* ===== verification/Tool_Read.thy ===== *)
theory Tool_Read
  imports Tool_Common
begin

text \<open>
  The Read tool of \<open>tools.go\<close>: the request with its optional offset (\<open>*int32\<close>) and limit
  (\<open>*uint32\<close>), its dispatch and completion frames, and the decoding of its result with
  the five failure variants.
\<close>

record ReadToolRequest =
  rr_MessageID :: u32
  rr_ExecID :: string
  rr_CallID :: string
  rr_Path :: string
  rr_Offset :: "u32 option"
  rr_Limit :: "u32 option"

record ReadToolResult =
  rd_MessageID :: u32
  rd_ExecID :: string
  rd_Path :: string
  rd_Content :: string
  rd_IsError :: bool
  rd_Error :: string

definition validateReadToolRequest :: "ReadToolRequest \<Rightarrow> unit result" where
  "validateReadToolRequest request =
     (if rr_MessageID request = 0 then Inl (Errorf ''encode read tool: message ID is required'')
      else if \<not> validIdentifier (trimSpace (rr_ExecID request))
          \<or> \<not> validIdentifier (trimSpace (rr_CallID request)) then
        Inl (Errorf ''encode read tool: exec ID and call ID are required'')
      else if rr_Path request = [] \<or> hasNul (rr_Path request) then
        Inl (Errorf ''encode read tool: path is required'')
      else if (case rr_Offset request of None \<Rightarrow> False | Some n \<Rightarrow> sint n < 0) then
        Inl (Errorf ''encode read tool: offset must not be negative'')
      else if rr_Limit request = Some 0 then
        Inl (Errorf ''encode read tool: limit must be positive'')
      else Inr ())"

text \<open>\<open>uint64(*int32)\<close> extends the sign, \<open>uint64(*uint32)\<close> does not.\<close>

definition appendOffset :: "protowire \<Rightarrow> bytes \<Rightarrow> int \<Rightarrow> u32 option \<Rightarrow> bytes" where
  "appendOffset pw args number v =
     (case v of None \<Rightarrow> args | Some n \<Rightarrow> appendVarint pw args number (scast n))"

definition appendLimit :: "protowire \<Rightarrow> bytes \<Rightarrow> int \<Rightarrow> u32 option \<Rightarrow> bytes" where
  "appendLimit pw args number v =
     (case v of None \<Rightarrow> args | Some n \<Rightarrow> appendVarint pw args number (ucast n))"

definition encodeReadResult :: "protowire \<Rightarrow> ReadToolRequest \<Rightarrow> ReadToolResult \<Rightarrow> bytes" where
  "encodeReadResult pw request r =
     (if rd_IsError r then appendMessage pw [] 2 (appendString pw [] 1 (rd_Error r))
      else let success = appendString pw [] 1 (rd_Content r);
               path = (if rd_Path r = [] then rr_Path request else rd_Path r);
               success = appendString pw success 7 path in
        appendMessage pw [] 1 success)"

definition encodeReadToolCall :: "protowire \<Rightarrow> ReadToolRequest \<Rightarrow> ReadToolResult option \<Rightarrow> bytes" where
  "encodeReadToolCall pw request r =
     (let readArgs = appendString pw [] 1 (rr_Path request);
          readArgs = appendOffset pw readArgs 2 (rr_Offset request);
          readArgs = appendLimit pw readArgs 3 (rr_Limit request);
          readToolCall = appendMessage pw [] 1 readArgs;
          readToolCall = (case r of None \<Rightarrow> readToolCall
            | Some readResult \<Rightarrow> appendMessage pw readToolCall 2 (encodeReadResult pw request readResult)) in
      appendMessage pw [] 8 readToolCall)"

definition EncodeReadToolDispatch :: "protowire \<Rightarrow> ReadToolRequest \<Rightarrow> ToolDispatch result" where
  "EncodeReadToolDispatch pw request =
     try_then (validateReadToolRequest request) (\<lambda>_.
       let execArgs = appendString pw [] 1 (rr_Path request);
           execArgs = appendString pw execArgs 2 (rr_CallID request);
           execArgs = appendOffset pw execArgs 4 (rr_Offset request);
           execArgs = appendLimit pw execArgs 5 (rr_Limit request) in
       Inr \<lparr> Execute = execFrame pw (rr_MessageID request) (rr_ExecID request) 7 execArgs,
         Started = callFrame pw 2 (rr_CallID request) (encodeReadToolCall pw request None) \<rparr>)"

definition EncodeReadToolCompleted :: "protowire \<Rightarrow> ReadToolRequest \<Rightarrow> ReadToolResult \<Rightarrow> bytes result" where
  "EncodeReadToolCompleted pw request r =
     try_then (validateReadToolRequest request) (\<lambda>_.
       Inr (callFrame pw 3 (rr_CallID request) (encodeReadToolCall pw request (Some r))))"

definition read_failures :: "(int \<times> string) list" where
  "read_failures = [(2, ''read failed''), (3, ''read rejected''), (4, ''file not found''),
     (5, ''permission denied''), (6, ''invalid file'')]"

definition DecodeReadToolResult :: "protowire \<Rightarrow> ClientMessage \<Rightarrow> ReadToolResult result" where
  "DecodeReadToolResult pw message =
     (if Kind message \<noteq> ClientMessageExec then
        Inl (Errorf ''decode read result: client message is not an exec result'')
      else try_wrap (Wrapf ''decode read result: '') (decodeWireFields pw (Raw message)) (\<lambda>topFields.
        try_some (Errorf ''decode read result: exec message is required'') (lastBytesField topFields 2)
          (\<lambda>execPayload.
        try_wrap (Wrapf ''decode read result: malformed exec message: '')
          (decodeWireFields pw execPayload) (\<lambda>execFields.
        try_some (Errorf ''decode read result: read result is required'') (lastBytesField execFields 7)
          (\<lambda>readPayload.
        try_wrap (Wrapf ''decode read result: malformed read result: '')
          (decodeWireFields pw readPayload) (\<lambda>readFields.
        let r = \<lparr> rd_MessageID = ucast (varintOr execFields 1),
          rd_ExecID = trimSpace (bytesOr execFields 15), rd_Path = [], rd_Content = [],
          rd_IsError = False, rd_Error = [] \<rparr> in
        case lastBytesField readFields 1 of
          Some successPayload \<Rightarrow>
            try_wrap (\<lambda>_. Errorf ''decode read result: malformed success payload'')
              (decodeWireFields pw successPayload) (\<lambda>successFields.
              Inr (r\<lparr>rd_Path := bytesOr successFields 1,
                rd_Content := (case lastBytesField successFields 2 of
                  Some content \<Rightarrow> content | None \<Rightarrow> bytesOr successFields 5)\<rparr>))
        | None \<Rightarrow>
            first_variant pw (Errorf ''decode read result: malformed failure payload'')
              (Errorf ''decode read result: result variant is unsupported'') readFields read_failures
              (\<lambda>fallback failureFields.
                 Inr (r\<lparr>rd_Path := bytesOr failureFields 1, rd_IsError := True,
                   rd_Error := fallbackString (bytesOr failureFields 2) fallback\<rparr>))))))))"

context protowire_spec
begin

lemma DecodeReadToolResult_no_fault [go_total]: "no_fault (DecodeReadToolResult pw message)"
  by (auto simp: DecodeReadToolResult_def Let_def intro!: go_total first_variant_no_fault
      split: option.splits)

end

end
