(* ===== verification/Tool_Write.thy ===== *)
theory Tool_Write
  imports Tool_Common
begin

text \<open>
  The Write tool of \<open>tool_bridge.go\<close>: its arguments, the dispatch frame, the decoding of a
  result into JSON content, and the conversion of that result into the display of an edit.
  Arguments written by \<open>json.Marshal\<close> decode to the same path and contents.
\<close>

record writeToolArguments =
  wr_Path :: string
  wr_Contents :: string

definition decodeWriteToolArguments :: "string \<Rightarrow> writeToolArguments result" where
  "decodeWriteToolArguments raw =
     try_some (Errorf ''encode Write tool: arguments are invalid'')
       (strict_fields [''path'', ''contents''] raw) (\<lambda>ms.
     try_some (Errorf ''encode Write tool: arguments are invalid'') (stringField ''path'' ms) (\<lambda>path.
     try_some (Errorf ''encode Write tool: arguments are invalid'') (stringField ''contents'' ms) (\<lambda>contents.
       if trimSpace path = [] \<or> hasNul path then
         Inl (Errorf ''encode Write tool: path is required'')
       else Inr \<lparr> wr_Path = path, wr_Contents = contents \<rparr>)))"

text \<open>\<open>json.Marshal\<close> of the arguments, as the session writes them for the second half of an edit.\<close>

definition writeArgumentsJSON :: "string \<Rightarrow> string \<Rightarrow> string" where
  "writeArgumentsJSON path contents =
     json_object [(''path'', json_quote path), (''contents'', json_quote contents)]"

definition writeSuccessContent :: "string \<Rightarrow> u64 \<Rightarrow> u64 \<Rightarrow> string" where
  "writeSuccessContent path linesCreated fileSize =
     json_object [(''path'', json_quote path), (''lines_created'', show_int (sint linesCreated)),
       (''file_size'', show_int (sint fileSize))]"

definition writeErrorContent :: "string \<Rightarrow> string \<Rightarrow> bool \<Rightarrow> string" where
  "writeErrorContent path error readOnly =
     json_object (omit_if (path = []) ''path'' (json_quote path) @ [(''error'', json_quote error)]
       @ omit_if (\<not> readOnly) ''read_only'' (json_bool readOnly))"

text \<open>The failure table: field, fallback text, and the fields of the detail and the flag.\<close>

definition write_failures :: "(int \<times> string \<times> int option \<times> int option) list" where
  "write_failures = [(3, ''permission denied'', Some 4, Some 5), (4, ''no space left on device'', None, None),
     (5, ''write failed'', Some 2, None), (6, ''write rejected'', Some 2, None)]"

definition decodeWriteToolResult :: "protowire \<Rightarrow> wireField list \<Rightarrow> ToolResult \<Rightarrow> ToolResult result" where
  "decodeWriteToolResult pw execFields r =
     try_some (Errorf ''decode tool result: write result is required'') (lastBytesField execFields 3)
       (\<lambda>payload.
     try_wrap (\<lambda>_. Errorf ''decode tool result: malformed write result'') (decodeWireFields pw payload)
       (\<lambda>fs.
       let r = r\<lparr>res_Complete := True, res_ResultPayload := payload\<rparr> in
       case lastBytesField fs 1 of
         Some successPayload \<Rightarrow>
           try_wrap (\<lambda>_. Errorf ''decode tool result: malformed write success'')
             (decodeWireFields pw successPayload) (\<lambda>successFields.
             Inr (r\<lparr>res_Content := writeSuccessContent (bytesOr successFields 1)
               (varintOr successFields 2) (varintOr successFields 3)\<rparr>))
       | None \<Rightarrow>
           first_variant pw (Errorf ''decode tool result: malformed write failure'')
             (Errorf ''decode tool result: write result variant is unsupported'') fs write_failures
             (\<lambda>(fallback, errorField, readOnlyField) failureFields.
               let detail = (case errorField of None \<Rightarrow> fallback
                     | Some n \<Rightarrow> fallbackString (bytesOr failureFields n) fallback);
                   readOnly = (case readOnlyField of None \<Rightarrow> False | Some n \<Rightarrow> varintOr failureFields n \<noteq> 0) in
               Inr (r\<lparr>res_Content := writeErrorContent (bytesOr failureFields 1) detail readOnly,
                 res_IsError := True\<rparr>))))"

text \<open>The display of a write is that of an edit; its result is converted field by field.\<close>

definition edit_failures :: "(int \<times> int \<times> string \<times> int option) list" where
  "edit_failures = [(4, 7, ''no space left on device'', None), (5, 7, ''write failed'', Some 2),
     (6, 6, ''write rejected'', Some 2)]"

definition pathOr :: "string \<Rightarrow> wireField list \<Rightarrow> string" where
  "pathOr fallbackPath fs = (if bytesOr fs 1 = [] then fallbackPath else bytesOr fs 1)"

definition convertWriteResultToEditResult :: "protowire \<Rightarrow> bytes \<Rightarrow> string \<Rightarrow> bytes result" where
  "convertWriteResultToEditResult pw writeResult fallbackPath =
     try_wrap (\<lambda>_. Errorf ''encode tool completed: malformed write result'')
       (decodeWireFields pw writeResult) (\<lambda>fs.
       case lastBytesField fs 1 of
         Some successPayload \<Rightarrow>
           try_wrap (\<lambda>_. Errorf ''encode tool completed: malformed write success'')
             (decodeWireFields pw successPayload) (\<lambda>successFields.
             let editSuccess = appendString pw [] 1 (pathOr fallbackPath successFields);
                 editSuccess = (case lastVarintField successFields 2 of
                   None \<Rightarrow> editSuccess | Some lines \<Rightarrow> appendVarint pw editSuccess 3 lines);
                 editSuccess = appendString pw editSuccess 7 (bytesOr successFields 4) in
             Inr (appendMessage pw [] 1 editSuccess))
       | None \<Rightarrow> (case lastBytesField fs 3 of
           Some permissionPayload \<Rightarrow>
             try_wrap (\<lambda>_. Errorf ''encode tool completed: malformed write permission failure'')
               (decodeWireFields pw permissionPayload) (\<lambda>permissionFields.
               let failure = appendString pw [] 1 (pathOr fallbackPath permissionFields);
                   failure = appendString pw failure 2
                     (fallbackString (bytesOr permissionFields 4) ''permission denied'');
                   failure = appendVarint pw failure 3 (varintOr permissionFields 5) in
               Inr (appendMessage pw [] 4 failure))
         | None \<Rightarrow>
             first_variant pw (Errorf ''encode tool completed: malformed write failure'')
               (Errorf ''encode tool completed: write result variant is unsupported'') fs edit_failures
               (\<lambda>(editField, fallback, detailField) failureFields.
                 let detail = (case detailField of None \<Rightarrow> fallback
                       | Some n \<Rightarrow> fallbackString (bytesOr failureFields n) fallback);
                     failure = appendString pw [] 1 (pathOr fallbackPath failureFields);
                     failure = appendString pw failure 2 detail in
                 Inr (appendMessage pw [] editField failure))))"

text \<open>The result is nil while the call has only started.\<close>

definition encodeWriteDisplayToolCall :: "protowire \<Rightarrow> ToolRequest \<Rightarrow> bytes \<Rightarrow> bytes result" where
  "encodeWriteDisplayToolCall pw request writeResult =
     try_then (decodeWriteToolArguments (req_Arguments request)) (\<lambda>arguments.
       let editArgs = appendString pw [] 1 (wr_Path arguments);
           editArgs = appendString pw editArgs 6 (wr_Contents arguments);
           editToolCall = appendMessage pw [] 1 editArgs in
       if writeResult = [] then Inr (appendMessage pw [] 12 editToolCall)
       else try_then (convertWriteResultToEditResult pw writeResult (wr_Path arguments)) (\<lambda>editResult.
         Inr (appendMessage pw [] 12 (appendMessage pw editToolCall 2 editResult))))"

definition encodeWriteToolDispatch :: "protowire \<Rightarrow> ToolRequest \<Rightarrow> ToolDispatch result" where
  "encodeWriteToolDispatch pw request =
     try_then (decodeWriteToolArguments (req_Arguments request)) (\<lambda>arguments.
       let execArgs = appendString pw [] 1 (wr_Path arguments);
           execArgs = appendString pw execArgs 2 (wr_Contents arguments);
           execArgs = appendString pw execArgs 3 (req_CallID request);
           execArgs = appendVarint pw execArgs 4 1;
           execArgs = appendString pw execArgs 6 ''utf-8'' in
       try_then (encodeWriteDisplayToolCall pw request []) (\<lambda>toolCall.
         Inr (toolDispatch pw request 3 execArgs toolCall)))"

context protowire_spec
begin

lemma decodeWriteToolArguments_no_fault [go_total]: "no_fault (decodeWriteToolArguments raw)"
  by (auto simp: decodeWriteToolArguments_def intro!: go_total)

lemma decodeWriteToolResult_no_fault [go_total]: "no_fault (decodeWriteToolResult pw fs r)"
  by (auto simp: decodeWriteToolResult_def Let_def intro!: go_total first_variant_no_fault
      split: option.splits)

lemma convertWriteResultToEditResult_no_fault [go_total]:
  "no_fault (convertWriteResultToEditResult pw writeResult path)"
  by (auto simp: convertWriteResultToEditResult_def Let_def intro!: go_total first_variant_no_fault
      split: option.splits)

lemma encodeWriteDisplayToolCall_no_fault [go_total]: "no_fault (encodeWriteDisplayToolCall pw request payload)"
  by (auto simp: encodeWriteDisplayToolCall_def Let_def intro!: go_total)

end

section \<open>Arguments written by the session are read back\<close>

lemma map_filter_id: "(\<forall>x\<in>set xs. f x = Some x) \<Longrightarrow> List.map_filter f xs = xs"
  by (induction xs) (auto simp: List.map_filter_simps)

lemma strict_fields_object:
  assumes "\<forall>(k, tx, v)\<in>set ms. validUTF8 k \<and> value_text 1 tx v" and "fst ` set ms \<subseteq> set names"
  shows "strict_fields names (json_object (map (\<lambda>(k, tx, v). (k, tx)) ms)) = Some ms"
proof -
  have known: "match_field names k = Some k" if "(k, tx, v) \<in> set ms" for k tx v
    using assms(2) that by (auto simp: match_field_def)
  have "List.map_filter (\<lambda>(k, rv). map_option (\<lambda>n. (n, rv)) (match_field names k)) ms = ms"
    using known by (intro map_filter_id) auto
  moreover have "\<not> list_ex (\<lambda>(k, _). match_field names k = None) ms"
    using known by (auto simp: list_ex_iff)
  ultimately show ?thesis
    using json_object_single [OF assms(1)] by (simp add: strict_fields_def object_fields_def)
qed

text \<open>What the Write tool receives: the contents with every invalid byte replaced.\<close>

lemma write_arguments_received:
  assumes "validUTF8 path" "trimSpace path \<noteq> []" "\<not> hasNul path"
  shows "decodeWriteToolArguments (writeArgumentsJSON path contents)
    = Inr \<lparr> wr_Path = path, wr_Contents = coerceUTF8 contents \<rparr>"
proof -
  let ?ms = "[(''path'', json_quote path, JStr path), (''contents'', json_quote contents, JStr (coerceUTF8 contents))]"
  have "strict_fields [''path'', ''contents''] (writeArgumentsJSON path contents) = Some ?ms"
    using strict_fields_object [of ?ms "[''path'', ''contents'']"] assms(1)
    by (simp add: writeArgumentsJSON_def value_text_quoted value_text_any ascii_utf8)
  then show ?thesis
    using assms(2,3) by (simp add: decodeWriteToolArguments_def stringField_def)
qed

text \<open>The arguments the session marshals for the write half of an edit are accepted by the
  Write tool and name the same path and the same contents, for every path and contents
  that are valid UTF-8.\<close>

theorem write_arguments_roundtrip:
  assumes "validUTF8 path" "validUTF8 contents" "trimSpace path \<noteq> []" "\<not> hasNul path"
  shows "decodeWriteToolArguments (writeArgumentsJSON path contents)
    = Inr \<lparr> wr_Path = path, wr_Contents = contents \<rparr>"
  using assms by (simp add: write_arguments_received coerceUTF8_id)

theorem write_arguments_roundtrip_witness:
  "decodeWriteToolArguments (writeArgumentsJSON ''a.txt'' [CHR 0x22, CHR 0x0A, CHR 0xC3, CHR 0xA9])
    = Inr \<lparr> wr_Path = ''a.txt'', wr_Contents = [CHR 0x22, CHR 0x0A, CHR 0xC3, CHR 0xA9] \<rparr>"
  by (rule write_arguments_roundtrip)
    (simp_all add: go_eval trimSpace_def trim_pieces_def hasNul_def hasByte_def is_cont_def second_ok_def)

text \<open>An edit of a file that holds a byte outside UTF-8 does not write that byte back: the write
  half of the edit receives U+FFFD (three bytes) in its place, although the edit was meant
  to change nothing but the matched text.\<close>

theorem edit_rewrites_invalid_bytes:
  "decodeWriteToolArguments (writeArgumentsJSON ''a.txt'' [CHR ''x'', CHR 0xE9, CHR 0x0A])
    = Inr \<lparr> wr_Path = ''a.txt'', wr_Contents = [CHR ''x'', CHR 0xEF, CHR 0xBF, CHR 0xBD, CHR 0x0A] \<rparr>"
proof -
  have path: "validUTF8 ''a.txt''" by (simp add: ascii_utf8)
  have "trimSpace ''a.txt'' = ''a.txt''" "\<not> hasNul ''a.txt''"
    by (simp_all add: trimSpace_def trim_pieces_def hasNul_def go_eval)
  moreover have "coerceUTF8 [CHR ''x'', CHR 0xE9, CHR 0x0A]
      = [CHR ''x'', CHR 0xEF, CHR 0xBF, CHR 0xBD, CHR 0x0A]"
    by (simp add: coerceUTF8_def replacement_def go_eval)
  ultimately show ?thesis using write_arguments_received [OF path] by simp
qed

end
