(* ===== verification/Tool_Edit.thy ===== *)
theory Tool_Edit
  imports Tool_Write
begin

text \<open>
  The Edit tool of \<open>tool_edit.go\<close>: it reads the file, replaces text in what was read and
  writes the result. \<open>strings.Index\<close>, \<open>strings.Count\<close> and \<open>strings.Replace\<close> are written
  out for a non-empty search text, which the arguments guarantee. An edit replaces exactly
  the non-overlapping occurrences, left to right, and nothing else.
\<close>

section \<open>Searching and replacing\<close>

fun index_of :: "string \<Rightarrow> string \<Rightarrow> nat option" where
  "index_of p [] = (if p = [] then Some 0 else None)"
| "index_of p (c # s) =
     (if take (length p) (c # s) = p then Some 0 else map_option Suc (index_of p s))"

lemma index_of_found:
  "index_of p s = Some i \<Longrightarrow> take i s @ p @ drop (i + length p) s = s"
proof (induction p s arbitrary: i rule: index_of.induct)
  case (1 p)
  then show ?case by (simp split: if_splits)
next
  case (2 p c s)
  show ?case
  proof (cases "take (length p) (c # s) = p")
    case True
    with "2.prems" have "i = 0" by simp
    then show ?thesis using append_take_drop_id [of "length p" "c # s"] True by simp
  next
    case False
    with "2.prems" obtain k where "i = Suc k" "index_of p s = Some k" by auto
    with "2.IH" False show ?thesis by auto
  qed
qed

lemma index_of_length: "index_of p s = Some i \<Longrightarrow> i + length p \<le> length s"
proof (induction p s arbitrary: i rule: index_of.induct)
  case (1 p)
  then show ?case by (simp split: if_splits)
next
  case (2 p c s)
  show ?case
  proof (cases "take (length p) (c # s) = p")
    case True
    then have "length p \<le> length (c # s)" by (metis length_take min.cobounded1)
    with True "2.prems" show ?thesis by simp
  next
    case False
    with "2.prems" obtain k where "i = Suc k" "index_of p s = Some k" by auto
    with "2.IH" False show ?thesis by auto
  qed
qed

lemma index_of_prefix: "p \<noteq> [] \<Longrightarrow> \<exists>i \<le> length a. index_of p (a @ p @ b) = Some i"
proof (induction a)
  case Nil
  then obtain c p' where "p = c # p'" by (cases p) auto
  then show ?case by simp
next
  case (Cons c a)
  then obtain i where "i \<le> length a" "index_of p (a @ p @ b) = Some i" by blast
  then show ?case by auto
qed

lemma index_of_None:
  assumes "p \<noteq> []"
  shows "index_of p s = None \<longleftrightarrow> (\<nexists>a b. s = a @ p @ b)"
proof
  assume "index_of p s = None"
  then show "\<nexists>a b. s = a @ p @ b" using index_of_prefix [OF assms] by (metis option.distinct(1))
next
  assume "\<nexists>a b. s = a @ p @ b"
  then show "index_of p s = None" using index_of_found [of p s] by (metis option.exhaust)
qed

text \<open>\<open>strings.Count\<close> of a non-empty text counts the non-overlapping occurrences.\<close>

function strings_count :: "string \<Rightarrow> string \<Rightarrow> nat" where
  "strings_count p s =
     (if p = [] then length (runes s) + 1
      else case index_of p s of None \<Rightarrow> 0
        | Some i \<Rightarrow> Suc (strings_count p (drop (i + length p) s)))"
  by pat_completeness auto
termination
proof (relation "measure (\<lambda>(p, s). length s)", goal_cases)
  case 1
  show ?case by simp
next
  case (2 p s i)
  then show ?case using index_of_length [of p s i] by (cases p) auto
qed

declare strings_count.simps [simp del]

text \<open>The loop of \<open>strings.Replace\<close>: \<open>n\<close> replacements, then the rest of the text.\<close>

fun replace_loop :: "nat \<Rightarrow> string \<Rightarrow> string \<Rightarrow> string \<Rightarrow> string" where
  "replace_loop 0 p q s = s"
| "replace_loop (Suc n) p q s = (case index_of p s of None \<Rightarrow> s
     | Some i \<Rightarrow> take i s @ q @ replace_loop n p q (drop (i + length p) s))"

definition strings_replace :: "string \<Rightarrow> string \<Rightarrow> string \<Rightarrow> int \<Rightarrow> string" where
  "strings_replace s p q n =
     (if p = q \<or> n = 0 then s
      else let m = strings_count p s in
        if m = 0 then s
        else replace_loop (if n < 0 \<or> int m < n then m else nat n) p q s)"

section \<open>The tool\<close>

record EditArguments =
  ed_Path :: string
  ed_OldString :: string
  ed_NewString :: string
  ed_ReplaceAll :: bool

definition DecodeEditArguments :: "string \<Rightarrow> EditArguments result" where
  "DecodeEditArguments raw =
     (let invalid = Errorf ''encode Edit tool: arguments are invalid'' in
      try_some invalid (strict_fields [''path'', ''old_string'', ''new_string'', ''replace_all''] raw) (\<lambda>ms.
      try_some invalid (stringField ''path'' ms) (\<lambda>path.
      try_some invalid (stringField ''old_string'' ms) (\<lambda>old.
      try_some invalid (stringField ''new_string'' ms) (\<lambda>new.
      try_some invalid (fold_field set_bool ''replace_all'' False ms) (\<lambda>replaceAll.
        if trimSpace path = [] \<or> hasNul path \<or> old = [] then Inl invalid
        else Inr \<lparr> ed_Path = path, ed_OldString = old, ed_NewString = new, ed_ReplaceAll = replaceAll \<rparr>))))))"

definition matchesForReplacement :: "nat \<Rightarrow> bool \<Rightarrow> nat" where
  "matchesForReplacement matches replaceAll = (if replaceAll then matches else 1)"

definition ApplyEditArguments :: "string \<Rightarrow> string \<Rightarrow> (string \<times> nat) result" where
  "ApplyEditArguments raw content =
     try_then (DecodeEditArguments raw) (\<lambda>arguments.
       let matches = strings_count (ed_OldString arguments) content in
       if matches = 0 then Inl (Errorf ''apply Edit tool: old_string was not found'')
       else if 1 < matches \<and> \<not> ed_ReplaceAll arguments then
         Inl (Errorf ''apply Edit tool: old_string has multiple matches; set replace_all to true'')
       else let maximum = (if ed_ReplaceAll arguments then - 1 else 1) in
         Inr (strings_replace content (ed_OldString arguments) (ed_NewString arguments) maximum,
           matchesForReplacement matches (ed_ReplaceAll arguments)))"

definition EncodeEditReadDispatch :: "protowire \<Rightarrow> ToolRequest \<Rightarrow> ToolDispatch result" where
  "EncodeEditReadDispatch pw request =
     try_then (validateToolRequest request) (\<lambda>_.
       if req_Name request \<noteq> ''Edit'' then Inl (Errorf ''encode Edit tool: tool name is invalid'')
       else try_then (DecodeEditArguments (req_Arguments request)) (\<lambda>arguments.
         let readArgs = appendString pw [] 1 (ed_Path arguments);
             readArgs = appendString pw readArgs 2 (req_CallID request);
             editArgs = appendString pw [] 1 (ed_Path arguments);
             toolCall = appendMessage pw [] 12 (appendMessage pw [] 1 editArgs) in
         Inr (toolDispatch pw request 7 readArgs toolCall)))"

definition EncodeEditFailureCompleted :: "protowire \<Rightarrow> ToolRequest \<Rightarrow> string \<Rightarrow> bytes result" where
  "EncodeEditFailureCompleted pw request detail =
     try_then (validateToolRequest request) (\<lambda>_.
       if req_Name request \<noteq> ''Edit'' then Inl (Errorf ''encode Edit tool: tool name is invalid'')
       else try_then (DecodeEditArguments (req_Arguments request)) (\<lambda>arguments.
         let detail = trimSpace detail in
         if detail = [] then Inl (Errorf ''encode Edit tool: failure detail is required'')
         else
           let editArgs = appendString pw [] 1 (ed_Path arguments);
               editError = appendString pw [] 1 (ed_Path arguments);
               editError = appendString pw editError 2 detail;
               editError = appendString pw editError 5 detail;
               editResult = appendMessage pw [] 7 editError;
               editToolCall = appendMessage pw [] 1 editArgs;
               editToolCall = appendMessage pw editToolCall 2 editResult;
               toolCall = appendMessage pw [] 12 editToolCall in
           Inr (callFrame pw 3 (req_CallID request) toolCall)))"

section \<open>What an edit does to the text\<close>

text \<open>Cutting the text at the occurrences that are counted.\<close>

function segments :: "string \<Rightarrow> string \<Rightarrow> string list" where
  "segments p s = (if p = [] then [s] else case index_of p s of None \<Rightarrow> [s]
     | Some i \<Rightarrow> take i s # segments p (drop (i + length p) s))"
  by pat_completeness auto
termination
proof (relation "measure (\<lambda>(p, s). length s)", goal_cases)
  case 1
  show ?case by simp
next
  case (2 p s i)
  then show ?case using index_of_length [of p s i] by (cases p) auto
qed

declare segments.simps [simp del]

lemma join_Cons: "xs \<noteq> [] \<Longrightarrow> join sep (x # xs) = x @ sep @ join sep xs"
  by (cases xs) simp_all

lemma segments_nonempty [simp]: "segments p s \<noteq> []"
  by (subst segments.simps) (simp split: option.split)

lemma length_segments: "p \<noteq> [] \<Longrightarrow> length (segments p s) = Suc (strings_count p s)"
proof (induction p s rule: segments.induct)
  case (1 p s)
  then show ?case
    by (subst segments.simps, subst strings_count.simps) (simp split: option.split)
qed

lemma join_segments: "p \<noteq> [] \<Longrightarrow> join p (segments p s) = s"
proof (induction p s rule: segments.induct)
  case (1 p s)
  then show ?case
    by (subst segments.simps) (simp add: join_Cons index_of_found split: option.split)
qed

lemma replace_loop_segments:
  "p \<noteq> [] \<Longrightarrow> replace_loop (strings_count p s) p q s = join q (segments p s)"
proof (induction p s rule: segments.induct)
  case (1 p s)
  then show ?case
    by (subst segments.simps, subst strings_count.simps) (simp add: join_Cons split: option.split)
qed

lemma index_of_take:
  assumes "p \<noteq> []" and "index_of p s = Some i"
  shows "index_of p (take i s) = None"
proof (rule ccontr)
  assume "index_of p (take i s) \<noteq> None"
  with index_of_None [OF assms(1), of "take i s"] obtain a b where ab: "take i s = a @ p @ b" by metis
  have "length (take i s) = length a + length p + length b" by (simp only: ab length_append)
  moreover have "0 < length p" using assms(1) by simp
  ultimately have "length a < i" by (simp only: length_take min_def split: if_splits)
  have "s = take i s @ drop i s" by (simp only: append_take_drop_id)
  also have "\<dots> = a @ p @ (b @ drop i s)" by (simp only: ab append_assoc)
  finally have s: "s = a @ p @ (b @ drop i s)" .
  obtain j where "j \<le> length a" "index_of p (a @ p @ (b @ drop i s)) = Some j"
    using index_of_prefix [OF assms(1), of a "b @ drop i s"] by blast
  with assms(2) \<open>length a < i\<close> show False by (simp only: s [symmetric] option.inject)
qed

lemma segments_free: "p \<noteq> [] \<Longrightarrow> x \<in> set (segments p s) \<Longrightarrow> index_of p x = None"
proof (induction p s rule: segments.induct)
  case (1 p s)
  show ?case
  proof (cases "index_of p s")
    case None
    with "1.prems" show ?thesis by (simp add: segments.simps [of p s])
  next
    case (Some i)
    with "1.prems" consider "x = take i s" | "x \<in> set (segments p (drop (i + length p) s))"
      by (auto simp: segments.simps [of p s])
    then show ?thesis
      using "1.IH" [OF _ Some] index_of_take [OF _ Some] "1.prems"(1) by cases blast+
  qed
qed

text \<open>C36: A successful edit cuts the content at every non-overlapping occurrence of the search
  text and joins the same pieces with the replacement; it reports the number of
  replacements, which is one unless \<open>replace_all\<close> is set. An edit fails exactly when its
  arguments are invalid, the search text does not occur, or it occurs more than once
  without \<open>replace_all\<close>.\<close>

theorem apply_edit_correct:
  "case ApplyEditArguments raw content of
     Inr (updated, n) \<Rightarrow> \<exists>arguments pieces. DecodeEditArguments raw = Inr arguments
       \<and> content = join (ed_OldString arguments) pieces \<and> updated = join (ed_NewString arguments) pieces
       \<and> length pieces = Suc n \<and> 0 < n \<and> (ed_ReplaceAll arguments \<or> n = 1)
       \<and> list_all (\<lambda>piece. index_of (ed_OldString arguments) piece = None) pieces
   | Inl e \<Rightarrow> DecodeEditArguments raw = Inl e
       \<or> (\<exists>arguments. DecodeEditArguments raw = Inr arguments
           \<and> (index_of (ed_OldString arguments) content = None
              \<or> 1 < strings_count (ed_OldString arguments) content \<and> \<not> ed_ReplaceAll arguments))"
proof (cases "DecodeEditArguments raw")
  case (Inl e)
  then show ?thesis by (simp add: ApplyEditArguments_def)
next
  case (Inr arguments)
  let ?p = "ed_OldString arguments" and ?q = "ed_NewString arguments"
  have p: "?p \<noteq> []"
    using Inr by (auto simp: DecodeEditArguments_def Let_def result_iff)
  have zero: "strings_count ?p content = 0 \<longleftrightarrow> index_of ?p content = None"
    using p by (subst strings_count.simps) (simp split: option.split)
  show ?thesis
  proof (cases "strings_count ?p content = 0 \<or> 1 < strings_count ?p content \<and> \<not> ed_ReplaceAll arguments")
    case True
    then show ?thesis using Inr zero by (auto simp: ApplyEditArguments_def Let_def)
  next
    case False
    define n where "n = strings_count ?p content"
    have replaced: "strings_replace content ?p ?q (if ed_ReplaceAll arguments then - 1 else 1)
        = join ?q (segments ?p content)"
    proof (cases "?p = ?q")
      case True
      then show ?thesis using join_segments [OF p, of content] by (simp add: strings_replace_def)
    next
      case neq: False
      have "strings_replace content ?p ?q (if ed_ReplaceAll arguments then - 1 else 1)
          = replace_loop (strings_count ?p content) ?p ?q content"
        using False neq by (cases "strings_count ?p content = 1") (auto simp: strings_replace_def Let_def)
      then show ?thesis using replace_loop_segments [OF p] by simp
    qed
    have "n = matchesForReplacement n (ed_ReplaceAll arguments)"
      using False by (auto simp: matchesForReplacement_def n_def)
    then have "ApplyEditArguments raw content = Inr (join ?q (segments ?p content), n)"
      using False Inr replaced unfolding ApplyEditArguments_def by (auto simp: Let_def n_def)
    moreover have "length (segments ?p content) = Suc n" "0 < n" "ed_ReplaceAll arguments \<or> n = 1"
      using False length_segments [OF p] by (auto simp: n_def)
    moreover have "list_all (\<lambda>piece. index_of ?p piece = None) (segments ?p content)"
      using segments_free [OF p] by (simp add: list_all_iff)
    ultimately show ?thesis
      using Inr join_segments [OF p, of content]
      by (simp only: sum.case prod.case) (intro exI [of _ arguments] exI [of _ "segments ?p content"], simp)
  qed
qed

end
