(* ===== verification/Go_Url.thy ===== *)
theory Go_Url
  imports Go_Json
begin

text \<open>
  What the program uses of \<open>net/url\<close>, \<open>net\<close> and \<open>strconv\<close>: parsing a URL into the parts that
  are looked at, the host without its port, literal IP addresses and whether they are
  loopback.
\<close>

section \<open>Searching\<close>

text \<open>\<open>strings.Cut\<close> and the cut at the last occurrence, for one byte.\<close>

definition cut_at_char :: "char \<Rightarrow> string \<Rightarrow> string \<times> string" where
  "cut_at_char c s = (takeWhile (\<lambda>x. x \<noteq> c) s, tl (dropWhile (\<lambda>x. x \<noteq> c) s))"

definition cut_last :: "char \<Rightarrow> string \<Rightarrow> (string \<times> string) option" where
  "cut_last c s = (if c \<in> set s then
     Some (rev (tl (dropWhile (\<lambda>x. x \<noteq> c) (rev s))), rev (takeWhile (\<lambda>x. x \<noteq> c) (rev s))) else None)"

text \<open>What stands before the first occurrence of a text, and the rest from it on.\<close>

fun sublist_at :: "string \<Rightarrow> string \<Rightarrow> (string \<times> string) option" where
  "sublist_at p [] = (if p = [] then Some ([], []) else None)"
| "sublist_at p (c # s) =
     (if take (length p) (c # s) = p then Some ([], c # s)
      else map_option (\<lambda>(a, b). (c # a, b)) (sublist_at p s))"

definition is_alpha :: "char \<Rightarrow> bool" where
  "is_alpha c \<longleftrightarrow> 97 \<le> byte_val c \<and> byte_val c \<le> 122 \<or> 65 \<le> byte_val c \<and> byte_val c \<le> 90"

definition is_alnum :: "char \<Rightarrow> bool" where
  "is_alnum c \<longleftrightarrow> is_alpha c \<or> is_digit c"

definition is_hex :: "char \<Rightarrow> bool" where
  "is_hex c \<longleftrightarrow> hex_val c \<noteq> None"

definition lower_ascii_char :: "char \<Rightarrow> char" where
  "lower_ascii_char c = (if 65 \<le> byte_val c \<and> byte_val c \<le> 90 then mk_byte (byte_val c + 32) else c)"

section \<open>URLs\<close>

record goURL =
  url_Scheme :: string
  url_Opaque :: string
  url_User :: bool
  url_Host :: string
  url_Path :: string
  url_ForceQuery :: bool
  url_RawQuery :: string
  url_Fragment :: string

text \<open>The modes of \<open>unescape\<close> that occur: a host, an IPv6 zone, and the others, which agree.\<close>

datatype escape_mode = EncodeHost | EncodeZone | EncodeOther

definition host_char :: "char \<Rightarrow> bool" where
  "host_char c \<longleftrightarrow> is_alnum c \<or> c \<in> set ''!$&()*+,;=:[]<>-_.~'' \<or> byte_val c \<in> {39, 34}"

fun unescape_url :: "escape_mode \<Rightarrow> string \<Rightarrow> string option" where
  "unescape_url mode [] = Some []"
| "unescape_url mode (c # s) =
     (if c = CHR ''%'' then
        (case s of
           a # b # r \<Rightarrow> (case (hex_val a, hex_val b) of
             (Some x, Some y) \<Rightarrow>
               if mode = EncodeHost \<and> x < 8 \<and> \<not> (a = CHR ''2'' \<and> b = CHR ''5'') then None
               else if mode = EncodeZone \<and> \<not> (a = CHR ''2'' \<and> b = CHR ''5'') \<and> x * 16 + y \<noteq> 32
                   \<and> \<not> host_char (mk_byte (x * 16 + y)) then None
               else map_option (\<lambda>t. mk_byte (x * 16 + y) # t) (unescape_url mode r)
           | _ \<Rightarrow> None)
         | _ \<Rightarrow> None)
      else if mode \<noteq> EncodeOther \<and> byte_val c < 128 \<and> \<not> host_char c then None
      else map_option (\<lambda>t. c # t) (unescape_url mode s))"

text \<open>The scheme and what follows it: \<open>None\<close> is an error, and an empty scheme none at all.\<close>

definition scheme_char :: "char \<Rightarrow> bool" where
  "scheme_char c \<longleftrightarrow> is_alnum c \<or> c \<in> set ''+-.''"

definition get_scheme :: "string \<Rightarrow> (string \<times> string) option" where
  "get_scheme s =
     (let p = takeWhile scheme_char s in
      if p \<noteq> [] \<and> \<not> is_alpha (hd p) then Some ([], s)
      else case dropWhile scheme_char s of
        [] \<Rightarrow> Some ([], s)
      | c # r \<Rightarrow> if c \<noteq> CHR '':'' then Some ([], s) else if p = [] then None else Some (p, r))"

definition valid_optional_port :: "string \<Rightarrow> bool" where
  "valid_optional_port port \<longleftrightarrow> port = [] \<or> hd port = CHR '':'' \<and> list_all is_digit (tl port)"

definition parse_host :: "string \<Rightarrow> string option" where
  "parse_host host =
     (if host \<noteq> [] \<and> hd host = CHR ''['' then
        (case cut_last (CHR '']'') host of
           None \<Rightarrow> None
         | Some (literal, colonPort) \<Rightarrow>
             if \<not> valid_optional_port colonPort then None
             else let zoned = sublist_at ''%25'' literal in
               (case zoned of
                  None \<Rightarrow> unescape_url EncodeHost host
                | Some (address, zone) \<Rightarrow>
                    (case (unescape_url EncodeHost address, unescape_url EncodeZone zone,
                        unescape_url EncodeHost (CHR '']'' # colonPort)) of
                       (Some h1, Some h2, Some h3) \<Rightarrow> Some (h1 @ h2 @ h3)
                     | _ \<Rightarrow> None)))
      else (case cut_last (CHR '':'') host of
          Some (_, port) \<Rightarrow> if list_all is_digit port then unescape_url EncodeHost host else None
        | None \<Rightarrow> unescape_url EncodeHost host))"

definition userinfo_char :: "char \<Rightarrow> bool" where
  "userinfo_char c \<longleftrightarrow> is_alnum c \<or> c \<in> set ''-._:~!$&()*+,;=%@'' \<or> byte_val c = 39"

text \<open>Whether there is user information, and the host; \<open>None\<close> is an error.\<close>

definition parse_authority :: "string \<Rightarrow> (bool \<times> string) option" where
  "parse_authority authority =
     (case cut_last (CHR ''@'') authority of
        None \<Rightarrow> map_option (\<lambda>h. (False, h)) (parse_host authority)
      | Some (userinfo, host) \<Rightarrow>
          (case parse_host host of
             None \<Rightarrow> None
           | Some h \<Rightarrow>
               if list_all userinfo_char userinfo
                 \<and> unescape_url EncodeOther (fst (cut_at_char (CHR '':'') userinfo)) \<noteq> None
                 \<and> unescape_url EncodeOther (snd (cut_at_char (CHR '':'') userinfo)) \<noteq> None
               then Some (True, h) else None))"

definition new_url :: goURL where
  "new_url = \<lparr> url_Scheme = [], url_Opaque = [], url_User = False, url_Host = [], url_Path = [], url_ForceQuery = False,
     url_RawQuery = [], url_Fragment = [] \<rparr>"

text \<open>The authority and the path of what follows the scheme, without its query.\<close>

definition parse_hierarchy :: "goURL \<Rightarrow> string \<Rightarrow> goURL option" where
  "parse_hierarchy url rest =
     (if take 1 rest \<noteq> ''/'' \<and> url_Scheme url \<noteq> [] then Some (url\<lparr>url_Opaque := rest\<rparr>)
      else if take 1 rest \<noteq> ''/'' \<and> CHR '':'' \<in> set (fst (cut_at_char (CHR ''/'') rest)) then None
      else if (url_Scheme url \<noteq> [] \<or> take 3 rest \<noteq> ''///'') \<and> take 2 rest = ''//'' then
        (let authority = takeWhile (\<lambda>c. c \<noteq> CHR ''/'') (drop 2 rest);
             path = dropWhile (\<lambda>c. c \<noteq> CHR ''/'') (drop 2 rest) in
         case parse_authority authority of
           None \<Rightarrow> None
         | Some (user, host) \<Rightarrow> if unescape_url EncodeOther path = None then None
             else Some (url\<lparr>url_User := user, url_Host := host, url_Path := path\<rparr>))
      else if unescape_url EncodeOther rest = None then None
      else Some (url\<lparr>url_Path := rest\<rparr>))"

definition url_ctl :: "char \<Rightarrow> bool" where
  "url_ctl c \<longleftrightarrow> byte_val c < 32 \<or> byte_val c = 127"

text \<open>
  \<open>url.Parse\<close>. The path is kept as written: \<open>url_Path\<close> is empty exactly when \<open>Path\<close> is, and
  the decoded path is not looked at.
\<close>

definition parse_url :: "string \<Rightarrow> goURL option" where
  "parse_url u =
     (if list_ex url_ctl u then None
      else if u = ''*'' then Some (new_url\<lparr>url_Path := u\<rparr>)
      else case get_scheme u of
        None \<Rightarrow> None
      | Some (scheme, rest) \<Rightarrow>
          let url = new_url\<lparr>url_Scheme := map lower_ascii_char scheme\<rparr> in
          if rest \<noteq> [] \<and> last rest = CHR ''?'' \<and> CHR ''?'' \<notin> set (butlast rest) then
            parse_hierarchy (url\<lparr>url_ForceQuery := True\<rparr>) (butlast rest)
          else parse_hierarchy (url\<lparr>url_RawQuery := snd (cut_at_char (CHR ''?'') rest)\<rparr>)
            (fst (cut_at_char (CHR ''?'') rest)))"

definition url_Parse :: "string \<Rightarrow> goURL option" where
  "url_Parse rawURL =
     (case cut_at_char (CHR ''#'') rawURL of (u, frag) \<Rightarrow>
        (case parse_url u of
           None \<Rightarrow> None
         | Some url \<Rightarrow>
             if frag = [] then Some url
             else map_option (\<lambda>f. url\<lparr>url_Fragment := f\<rparr>) (unescape_url EncodeOther frag)))"

definition url_IsAbs :: "goURL \<Rightarrow> bool" where
  "url_IsAbs url \<longleftrightarrow> url_Scheme url \<noteq> []"

definition url_Hostname :: "goURL \<Rightarrow> string" where
  "url_Hostname url =
     (let host = (case cut_last (CHR '':'') (url_Host url) of
            Some (h, port) \<Rightarrow> if list_all is_digit port then h else url_Host url
          | None \<Rightarrow> url_Host url) in
      if host \<noteq> [] \<and> hd host = CHR ''['' \<and> last host = CHR '']'' then tl (butlast host) else host)"

section \<open>IP addresses\<close>

fun split_on :: "char \<Rightarrow> string \<Rightarrow> string list" where
  "split_on c [] = [[]]"
| "split_on c (x # xs) =
     (if x = c then [] # split_on c xs
      else case split_on c xs of [] \<Rightarrow> [[x]] | p # ps \<Rightarrow> (x # p) # ps)"

definition v4_field :: "string \<Rightarrow> nat option" where
  "v4_field f =
     (if f = [] \<or> \<not> list_all is_digit f \<or> 1 < length f \<and> hd f = CHR ''0'' then None
      else let v = digits_val 0 f in if 255 < v then None else Some v)"

definition v4_fields :: "string \<Rightarrow> nat list option" where
  "v4_fields s = (case map v4_field (split_on (CHR ''.'') s) of
     [Some a, Some b, Some c, Some d] \<Rightarrow> Some [a, b, c, d] | _ \<Rightarrow> None)"

definition hex_number :: "string \<Rightarrow> nat" where
  "hex_number ds = foldl (\<lambda>n c. 16 * n + (case hex_val c of Some d \<Rightarrow> d | None \<Rightarrow> 0)) 0 ds"

text \<open>
  The groups of an IPv6 address: the bytes so far, where the ellipsis was, and the text left.
  Eight groups fill sixteen bytes.
\<close>

fun v6_groups :: "nat \<Rightarrow> nat list \<Rightarrow> nat option \<Rightarrow> string \<Rightarrow> (nat list \<times> nat option \<times> string) option" where
  "v6_groups 0 ip ellipsis s = Some (ip, ellipsis, s)"
| "v6_groups (Suc n) ip ellipsis s =
     (let ds = takeWhile is_hex s; rest = dropWhile is_hex s in
      if 4 < length ds \<or> ds = [] then None
      else if rest \<noteq> [] \<and> hd rest = CHR ''.'' then
        (if ellipsis = None \<and> length ip \<noteq> 12 \<or> 16 < length ip + 4 then None
         else map_option (\<lambda>f. (ip @ f, ellipsis, [])) (v4_fields s))
      else
        let v = hex_number ds; ip = ip @ [v div 256, v mod 256] in
        (case rest of
           [] \<Rightarrow> Some (ip, ellipsis, [])
         | c # s \<Rightarrow>
             if c \<noteq> CHR '':'' \<or> s = [] then None
             else if hd s \<noteq> CHR '':'' then v6_groups n ip ellipsis s
             else if ellipsis \<noteq> None then None
             else if tl s = [] then Some (ip, Some (length ip), [])
             else v6_groups n ip (Some (length ip)) (tl s)))"

lemma v6_groups_step:
  "0 < n \<Longrightarrow> v6_groups n ip ellipsis s =
     (let ds = takeWhile is_hex s; rest = dropWhile is_hex s in
      if 4 < length ds \<or> ds = [] then None
      else if rest \<noteq> [] \<and> hd rest = CHR ''.'' then
        (if ellipsis = None \<and> length ip \<noteq> 12 \<or> 16 < length ip + 4 then None
         else map_option (\<lambda>f. (ip @ f, ellipsis, [])) (v4_fields s))
      else
        let v = hex_number ds; ip = ip @ [v div 256, v mod 256] in
        (case rest of
           [] \<Rightarrow> Some (ip, ellipsis, [])
         | c # s \<Rightarrow>
             if c \<noteq> CHR '':'' \<or> s = [] then None
             else if hd s \<noteq> CHR '':'' then v6_groups (n - 1) ip ellipsis s
             else if ellipsis \<noteq> None then None
             else if tl s = [] then Some (ip, Some (length ip), [])
             else v6_groups (n - 1) ip (Some (length ip)) (tl s)))"
  by (cases n) (simp_all only: v6_groups.simps diff_Suc_1 less_irrefl)

definition v6_bytes :: "string \<Rightarrow> nat list option" where
  "v6_bytes s =
     (let (ellipsis, s') = (if take 2 s = ''::'' then (Some 0, drop 2 s) else (None, s)) in
      if ellipsis = Some 0 \<and> s' = [] then Some (replicate 16 0)
      else (case v6_groups 8 [] ellipsis s' of
        None \<Rightarrow> None
      | Some (ip, ellipsis, rest) \<Rightarrow>
          if rest \<noteq> [] then None
          else if length ip < 16 then
            (case ellipsis of None \<Rightarrow> None
             | Some e \<Rightarrow> Some (take e ip @ replicate (16 - length ip) 0 @ drop e ip))
          else if ellipsis \<noteq> None then None else Some ip))"

definition v4_mapped :: "nat list" where
  "v4_mapped = replicate 10 0 @ [255, 255]"

text \<open>\<open>net.ParseIP\<close>: sixteen bytes; a zone is refused.\<close>

definition parseIP :: "string \<Rightarrow> nat list option" where
  "parseIP s = (case find (\<lambda>c. c \<in> set ''.:%'') s of
     None \<Rightarrow> None
   | Some c \<Rightarrow>
       if c = CHR ''.'' then map_option (\<lambda>f. v4_mapped @ f) (v4_fields s)
       else if c = CHR ''%'' \<or> CHR ''%'' \<in> set s then None
       else v6_bytes s)"

definition ip_IsLoopback :: "nat list \<Rightarrow> bool" where
  "ip_IsLoopback ip \<longleftrightarrow>
     (if take 12 ip = v4_mapped then ip ! 12 = 127 else ip = replicate 15 0 @ [1])"

section \<open>Quoting\<close>

text \<open>
  \<open>%q\<close>: a Go string literal. Valid runes beyond ASCII are taken to be printable.
\<close>

definition hex2 :: "nat \<Rightarrow> string" where
  "hex2 n = [hex_digit (n div 16 mod 16), hex_digit (n mod 16)]"

definition go_quote_piece :: "string \<Rightarrow> string" where
  "go_quote_piece p =
     (if bad_piece p then concat (map (\<lambda>c. CHR 0x5C # CHR ''x'' # hex2 (byte_val c)) p)
      else case p of
        [c] \<Rightarrow>
          if c = CHR 0x22 \<or> c = CHR 0x5C then [CHR 0x5C, c]
          else if 32 \<le> byte_val c \<and> byte_val c < 127 then [c]
          else (case map_of [(7, CHR ''a''), (8, CHR ''b''), (12, CHR ''f''), (10, CHR ''n''), (13, CHR ''r''), (9, CHR ''t''),
              (11, CHR ''v'')] (byte_val c) of
            Some e \<Rightarrow> [CHR 0x5C, e]
          | None \<Rightarrow> CHR 0x5C # CHR ''x'' # hex2 (byte_val c))
      | _ \<Rightarrow> p)"

definition go_quote :: "string \<Rightarrow> string" where
  "go_quote s = quote_char # concat (map go_quote_piece (runes s)) @ [quote_char]"

section \<open>Evaluation\<close>

lemmas url_eval = url_Parse_def parse_url_def parse_hierarchy_def parse_authority_def parse_host_def get_scheme_def
  cut_at_char_def cut_last_def valid_optional_port_def scheme_char_def is_alnum_def is_alpha_def is_digit_def host_char_def
  lower_ascii_char_def userinfo_char_def hex_val_def url_ctl_def new_url_def url_IsAbs_def url_Hostname_def sublist_at.simps

text \<open>Some inputs, with the results the library gives.\<close>

lemmas ip_eval = parseIP_def v4_fields_def v4_field_def v6_bytes_def v6_groups.simps(1) v6_groups_step is_hex_def hex_val_def hex_number_def
  ip_IsLoopback_def v4_mapped_def is_digit_def


lemma parse_urls:
  "url_Parse ''https://api.example.com:8443/v1'' = Some (new_url\<lparr>url_Scheme := ''https'',
     url_Host := ''api.example.com:8443'', url_Path := ''/v1''\<rparr>)"
  "url_Parse ''http://[::1]:8080'' = Some (new_url\<lparr>url_Scheme := ''http'', url_Host := ''[::1]:8080''\<rparr>)"
  "url_Parse ''http://u@h/?#'' = Some (new_url\<lparr>url_Scheme := ''http'', url_User := True, url_Host := ''h'',
     url_Path := ''/'', url_ForceQuery := True\<rparr>)"
  "url_Parse ''https://:443'' = Some (new_url\<lparr>url_Scheme := ''https'', url_Host := '':443''\<rparr>)"
  "url_Parse ''mailto:a'' = Some (new_url\<lparr>url_Scheme := ''mailto'', url_Opaque := ''a''\<rparr>)"
  "url_Parse ''http://h:8x/'' = None" "url_Parse ''://h'' = None" "url_Parse ''http://h/%zz'' = None"
  by (simp_all add: url_eval)

lemma replicate_numeral: "replicate (numeral k) x = x # replicate (pred_numeral k) x"
  by (simp add: numeral_eq_Suc)

lemma parse_ips:
  "parseIP ''127.0.0.1'' = Some (v4_mapped @ [127, 0, 0, 1])"
  "parseIP ''::1'' = Some [0, 0, 0, 0, 0, 0, 0, 0, 0, 0, 0, 0, 0, 0, 0, 1]"
  "parseIP ''::ffff:127.1.2.3'' = Some (v4_mapped @ [127, 1, 2, 3])"
  "parseIP ''2001:db8::8:800:200c:417a'' = Some [32, 1, 13, 184, 0, 0, 0, 0, 0, 8, 8, 0, 32, 12, 65, 122]"
  "parseIP ''127.0.0.01'' = None" "parseIP ''127.1'' = None" "parseIP ''fe80::1%eth0'' = None" "parseIP ''1:2:3:4:5:6:7'' = None"
  "parseIP ''localhost'' = None" "parseIP ''::1::'' = None" "parseIP ''1:2:3:4:5:6:7:8::'' = None"
  by (simp_all add: ip_eval Let_def replicate_numeral)

end
