(* ===== verification/Go_Path.thy ===== *)
theory Go_Path
  imports Go_Url "HOL-Library.List_Lexorder" "HOL-Library.Char_ord"
begin

text \<open>
  What the program uses of \<open>path\<close> and \<open>path/filepath\<close> (on Unix), and of an environment as a
  list of entries: rooted paths, and the keys and values of \<open>KEY=value\<close> entries.
\<close>

section \<open>Paths\<close>

text \<open>\<open>path.Clean\<close> works on the elements between slashes, kept here in reverse.\<close>

fun split_slash :: "string \<Rightarrow> string list" where
  "split_slash [] = [[]]"
| "split_slash (c # s) =
     (if c = CHR ''/'' then [] # split_slash s
      else (case split_slash s of [] \<Rightarrow> [[c]] | e # es \<Rightarrow> (c # e) # es))"

definition clean_step :: "bool \<Rightarrow> string list \<Rightarrow> string \<Rightarrow> string list" where
  "clean_step rooted out e =
     (if e = [] \<or> e = ''.'' then out
      else if e = ''..'' then
        (case out of
           [] \<Rightarrow> if rooted then [] else [e]
         | e' # rest \<Rightarrow> if e' = ''..'' then e # out else rest)
      else e # out)"

definition path_Clean :: "string \<Rightarrow> string" where
  "path_Clean p =
     (if p = [] then ''.''
      else let rooted = hd p = CHR ''/'';
               body = join ''/'' (rev (foldl (clean_step rooted) [] (split_slash p))) in
        if rooted then CHR ''/'' # body else if body = [] then ''.'' else body)"

definition path_Join :: "string \<Rightarrow> string \<Rightarrow> string" where
  "path_Join a b = (let es = filter (\<lambda>e. e \<noteq> []) [a, b] in if es = [] then [] else path_Clean (join ''/'' es))"

definition filepath_IsAbs :: "string \<Rightarrow> bool" where
  "filepath_IsAbs p \<longleftrightarrow> p \<noteq> [] \<and> hd p = CHR ''/''"

text \<open>\<open>Join\<close>, \<open>Dir\<close> and \<open>Base\<close> of rooted paths.\<close>

definition filepath_Join :: "string list \<Rightarrow> string" where
  "filepath_Join ps =
     (let es = filter (\<lambda>e. e \<noteq> []) ps in if es = [] then [] else path_Clean (join ''/'' es))"

definition filepath_Dir :: "string \<Rightarrow> string" where
  "filepath_Dir p = path_Clean (rev (dropWhile (\<lambda>c. c \<noteq> CHR ''/'') (rev p)))"

definition filepath_Base :: "string \<Rightarrow> string" where
  "filepath_Base p =
     (let q = rev (dropWhile (\<lambda>c. c = CHR ''/'') (rev p)) in
      if p = [] then ''.'' else if q = [] then ''/'' else rev (takeWhile (\<lambda>c. c \<noteq> CHR ''/'') (rev q)))"

lemma path_examples:
  "path_Clean ''/a//b/../c/.'' = ''/a/c''" "path_Clean ''/..'' = ''/''" "filepath_Dir ''/a/b'' = ''/a''" "filepath_Dir ''/a'' = ''/''"
  "filepath_Dir ''/a/b/'' = ''/a/b''" "filepath_Base ''/a/b/'' = ''b''" "filepath_Base ''/'' = ''/''" "filepath_Join [''/h'', ''.config''] = ''/h/.config''"
  by (simp_all add: path_Clean_def filepath_Dir_def filepath_Base_def filepath_Join_def clean_step_def)

section \<open>Environments\<close>

text \<open>A map of variables is the list of its entries, with every key once.\<close>

type_synonym environment = "(string \<times> string) list"

definition env_delete :: "string \<Rightarrow> environment \<Rightarrow> environment" where
  "env_delete key env = filter (\<lambda>e. fst e \<noteq> key) env"

definition env_set :: "string \<Rightarrow> string \<Rightarrow> environment \<Rightarrow> environment" where
  "env_set key v env = env_delete key env @ [(key, v)]"

definition env_entry :: "string \<Rightarrow> string \<Rightarrow> string" where
  "env_entry key v = key @ ''='' @ v"

text \<open>\<open>strings.Cut\<close> at the first equals sign; an entry without one or without a key is no entry.\<close>

definition parse_entry :: "string \<Rightarrow> (string \<times> string) option" where
  "parse_entry entry =
     (if CHR ''='' \<notin> set entry \<or> fst (cut_at_char (CHR ''='') entry) = [] then None
      else Some (cut_at_char (CHR ''='') entry))"

text \<open>The entries in the order of their keys.\<close>

definition format_environment :: "environment \<Rightarrow> string list" where
  "format_environment env = map (\<lambda>k. env_entry k (the (map_of env k))) (sort (map fst env))"

definition env_ok :: "environment \<Rightarrow> bool" where
  "env_ok env \<longleftrightarrow> distinct (map fst env) \<and> (\<forall>k\<in>set (map fst env). CHR ''='' \<notin> set k)"

lemma env_set_ok: "env_ok env \<Longrightarrow> CHR ''='' \<notin> set k \<Longrightarrow> env_ok (env_set k v env)"
  by (auto simp: env_ok_def env_set_def env_delete_def distinct_map inj_on_def)

lemma env_delete_ok: "env_ok env \<Longrightarrow> env_ok (env_delete k env)"
  by (auto simp: env_ok_def env_delete_def distinct_map inj_on_def)

lemma map_of_delete: "map_of (env_delete k env) = (map_of env)(k := None)"
  by (induction env) (auto simp: env_delete_def fun_eq_iff)

lemma map_of_set: "map_of (env_set k v env) = (map_of env)(k \<mapsto> v)"
proof -
  have "map_of (env_set k v env) = [k \<mapsto> v] ++ map_of (env_delete k env)" by (simp add: env_set_def)
  then show ?thesis by (auto simp: map_of_delete fun_eq_iff map_add_def split: option.split)
qed

lemma parse_entry_key: "parse_entry entry = Some (k, v) \<Longrightarrow> CHR ''='' \<notin> set k \<and> entry = env_entry k v"
proof -
  assume p: "parse_entry entry = Some (k, v)"
  then have i: "CHR ''='' \<in> set entry" and kv: "k = takeWhile (\<lambda>x. x \<noteq> CHR ''='') entry"
    "v = tl (dropWhile (\<lambda>x. x \<noteq> CHR ''='') entry)"
    by (auto simp: parse_entry_def cut_at_char_def split: if_splits)
  then have "dropWhile (\<lambda>x. x \<noteq> CHR ''='') entry \<noteq> []" by (auto simp: dropWhile_eq_Nil_conv)
  then have "dropWhile (\<lambda>x. x \<noteq> CHR ''='') entry = CHR ''='' # v"
    using kv(2) hd_dropWhile [of "\<lambda>x. x \<noteq> CHR ''=''" entry] by (cases "dropWhile (\<lambda>x. x \<noteq> CHR ''='') entry") auto
  then have "entry = k @ CHR ''='' # v" using kv(1) takeWhile_dropWhile_id [of "\<lambda>x. x \<noteq> CHR ''=''" entry] by simp
  moreover have "CHR ''='' \<notin> set k" using kv(1) by (auto dest: set_takeWhileD)
  ultimately show ?thesis by (simp add: env_entry_def)
qed

lemma entry_eq:
  "CHR ''='' \<notin> set k \<Longrightarrow> CHR ''='' \<notin> set k' \<Longrightarrow> env_entry k v = env_entry k' v' \<longleftrightarrow> k = k' \<and> v = v'"
proof
  assume k: "CHR ''='' \<notin> set k" "CHR ''='' \<notin> set k'" and e: "env_entry k v = env_entry k' v'"
  have cut: "takeWhile (\<lambda>x. x \<noteq> CHR ''='') (env_entry j w) = j" "dropWhile (\<lambda>x. x \<noteq> CHR ''='') (env_entry j w) = CHR ''='' # w"
    if "CHR ''='' \<notin> set j" for j w
    using that by (induction j) (auto simp: env_entry_def)
  show "k = k' \<and> v = v'" using cut [OF k(1), of v] cut [OF k(2), of v'] e by simp
qed simp

text \<open>What the formatted environment says: exactly the entries of the map, every key once.\<close>

lemma format_mem:
  assumes "env_ok env" and "CHR ''='' \<notin> set k"
  shows "env_entry k v \<in> set (format_environment env) \<longleftrightarrow> map_of env k = Some v"
proof
  assume "env_entry k v \<in> set (format_environment env)"
  then obtain k' where k': "k' \<in> set (map fst env)" "env_entry k v = env_entry k' (the (map_of env k'))"
    by (auto simp: format_environment_def)
  moreover have "CHR ''='' \<notin> set k'" using assms(1) k'(1) unfolding env_ok_def by blast
  ultimately have "k = k'" "v = the (map_of env k')" using entry_eq [OF assms(2)] by blast+
  moreover have "map_of env k' \<noteq> None" using k'(1) by (simp add: map_of_eq_None_iff)
  ultimately show "map_of env k = Some v" by auto
next
  assume "map_of env k = Some v"
  then have "k \<in> set (map fst env)" "the (map_of env k) = v" by (auto dest: map_of_SomeD intro: rev_image_eqI)
  then show "env_entry k v \<in> set (format_environment env)" by (auto simp: format_environment_def)
qed

end
