(* ===== verification/Tool_Files.thy ===== *)
theory Tool_Files
  imports Tool_Common Go_Path
begin

text \<open>
  The file tools of \<open>tool_files.go\<close>: Delete, List, Grep and Glob. Their arguments, dispatch
  frames, the decoding of results into JSON content and the display of a completed call. A
  directory tree and a search result are flattened into at most 4096 items of each kind.
\<close>

definition maxStructuredToolItems :: nat where "maxStructuredToolItems = 4096"

section \<open>Arguments\<close>

record listToolArguments =
  ls_Path :: string
  ls_Depth :: int

record grepToolArguments =
  gr_Pattern :: string
  gr_Path :: string
  gr_Glob :: string
  gr_OutputMode :: string

record globToolArguments =
  gl_GlobPattern :: string
  gl_TargetDirectory :: string

definition decodeDeleteToolArguments :: "string \<Rightarrow> string result" where
  "decodeDeleteToolArguments raw =
     (let invalid = Errorf ''encode Delete tool: arguments are invalid'' in
      try_some invalid (strict_fields [''path''] raw) (\<lambda>ms.
      try_some invalid (stringField ''path'' ms) (\<lambda>path.
        if trimSpace path = [] \<or> hasNul path then Inl invalid else Inr path)))"

definition decodeListToolArguments :: "string \<Rightarrow> listToolArguments result" where
  "decodeListToolArguments raw =
     (let invalid = Errorf ''encode List tool: arguments are invalid'' in
      try_some invalid (strict_fields [''path'', ''depth''] raw) (\<lambda>ms.
      try_some invalid (stringField ''path'' ms) (\<lambda>path.
      try_some invalid
        (fold_field (set_int (- 9223372036854775808) 9223372036854775807) ''depth'' 0 ms) (\<lambda>depth.
        if trimSpace path = [] \<or> hasNul path \<or> depth < 0 then Inl invalid
        else Inr \<lparr> ls_Path = path, ls_Depth = (if depth = 0 then 64 else depth) \<rparr>))))"

definition decodeGrepToolArguments :: "string \<Rightarrow> grepToolArguments result" where
  "decodeGrepToolArguments raw =
     (let invalid = Errorf ''encode Grep tool: arguments are invalid'' in
      try_some invalid (strict_fields [''pattern'', ''path'', ''glob'', ''output_mode''] raw) (\<lambda>ms.
      try_some invalid (stringField ''pattern'' ms) (\<lambda>pattern.
      try_some invalid (stringField ''path'' ms) (\<lambda>path.
      try_some invalid (stringField ''glob'' ms) (\<lambda>glob.
      try_some invalid (stringField ''output_mode'' ms) (\<lambda>outputMode.
        if trimSpace pattern = [] then Inl invalid
        else if outputMode \<notin> set [[], ''content'', ''files_with_matches'', ''count''] then
          Inl (Errorf ''encode Grep tool: output mode is invalid'')
        else Inr \<lparr> gr_Pattern = pattern, gr_Path = path, gr_Glob = glob, gr_OutputMode = outputMode \<rparr>))))))"

definition decodeGlobToolArguments :: "string \<Rightarrow> globToolArguments result" where
  "decodeGlobToolArguments raw =
     (let invalid = Errorf ''encode Glob tool: arguments are invalid'' in
      try_some invalid (strict_fields [''glob_pattern'', ''target_directory''] raw) (\<lambda>ms.
      try_some invalid (stringField ''glob_pattern'' ms) (\<lambda>pattern.
      try_some invalid (stringField ''target_directory'' ms) (\<lambda>directory.
        if trimSpace pattern = [] then Inl invalid
        else Inr \<lparr> gl_GlobPattern = pattern, gl_TargetDirectory = directory \<rparr>))))"

section \<open>Dispatch\<close>

definition encodeFileToolDispatch ::
  "protowire \<Rightarrow> ToolRequest \<Rightarrow> int \<Rightarrow> bytes \<Rightarrow> int \<Rightarrow> bytes \<Rightarrow> ToolDispatch" where
  "encodeFileToolDispatch pw request execField execArgs displayField displayArgs =
     (let display = appendMessage pw [] 1 displayArgs; toolCall = appendMessage pw [] displayField display in
      toolDispatch pw request execField execArgs toolCall)"

definition appendNonEmpty :: "protowire \<Rightarrow> bytes \<Rightarrow> int \<Rightarrow> string \<Rightarrow> bytes" where
  "appendNonEmpty pw args number v = (if v \<noteq> [] then appendString pw args number v else args)"

definition encodeGrepExecArgs :: "protowire \<Rightarrow> grepToolArguments \<Rightarrow> string \<Rightarrow> bytes" where
  "encodeGrepExecArgs pw arguments callID =
     (let args = appendNonEmpty pw [] 1 (gr_Pattern arguments);
          args = appendNonEmpty pw args 2 (gr_Path arguments);
          args = appendNonEmpty pw args 3 (gr_Glob arguments);
          args = appendNonEmpty pw args 4 (gr_OutputMode arguments) in
      appendString pw args 14 callID)"

definition pathAndCall :: "protowire \<Rightarrow> string \<Rightarrow> int \<Rightarrow> string \<Rightarrow> bytes" where
  "pathAndCall pw path number callID = appendString pw (appendString pw [] 1 path) number callID"

definition globDisplayArgs :: "protowire \<Rightarrow> globToolArguments \<Rightarrow> bytes" where
  "globDisplayArgs pw arguments =
     appendString pw (appendNonEmpty pw [] 1 (gl_TargetDirectory arguments)) 2 (gl_GlobPattern arguments)"

definition encodeDeleteToolDispatch :: "protowire \<Rightarrow> ToolRequest \<Rightarrow> ToolDispatch result" where
  "encodeDeleteToolDispatch pw request =
     try_then (decodeDeleteToolArguments (req_Arguments request)) (\<lambda>path.
       let args = pathAndCall pw path 2 (req_CallID request) in
       Inr (encodeFileToolDispatch pw request 4 args 3 args))"

definition encodeListToolDispatch :: "protowire \<Rightarrow> ToolRequest \<Rightarrow> ToolDispatch result" where
  "encodeListToolDispatch pw request =
     try_then (decodeListToolArguments (req_Arguments request)) (\<lambda>arguments.
       let args = pathAndCall pw (ls_Path arguments) 3 (req_CallID request) in
       Inr (encodeFileToolDispatch pw request 8 args 13 args))"

definition encodeGrepToolDispatch :: "protowire \<Rightarrow> ToolRequest \<Rightarrow> ToolDispatch result" where
  "encodeGrepToolDispatch pw request =
     try_then (decodeGrepToolArguments (req_Arguments request)) (\<lambda>arguments.
       let args = encodeGrepExecArgs pw arguments (req_CallID request) in
       Inr (encodeFileToolDispatch pw request 5 args 5 args))"

definition encodeGlobToolDispatch :: "protowire \<Rightarrow> ToolRequest \<Rightarrow> ToolDispatch result" where
  "encodeGlobToolDispatch pw request =
     try_then (decodeGlobToolArguments (req_Arguments request)) (\<lambda>arguments.
       let grepArgs = \<lparr> gr_Pattern = [], gr_Path = gl_TargetDirectory arguments,
             gr_Glob = gl_GlobPattern arguments, gr_OutputMode = ''files_with_matches'' \<rparr>;
           execArgs = encodeGrepExecArgs pw grepArgs (req_CallID request) in
       Inr (encodeFileToolDispatch pw request 5 execArgs 4 (globDisplayArgs pw arguments)))"

section \<open>Results: Delete\<close>

text \<open>Field, fallback text and the field of the detail.\<close>

definition delete_failures :: "(int \<times> string \<times> int option) list" where
  "delete_failures = [(2, ''file not found'', None), (3, ''path is not a file'', Some 2),
     (4, ''permission denied'', Some 2), (5, ''file is busy'', None), (6, ''delete rejected'', Some 2),
     (7, ''delete failed'', Some 2)]"

definition failure_content ::
  "ToolResult \<Rightarrow> string \<times> int option \<Rightarrow> wireField list \<Rightarrow> ToolResult result" where
  "failure_content r c failureFields = (case c of (fallback, detailField) \<Rightarrow>
     let detail = (case detailField of None \<Rightarrow> fallback
       | Some n \<Rightarrow> fallbackString (bytesOr failureFields n) fallback) in
     withJSONContent (r\<lparr>res_IsError := True\<rparr>) (toolErrorContent (bytesOr failureFields 1) detail))"

definition decodeDeleteToolResult :: "protowire \<Rightarrow> wireField list \<Rightarrow> ToolResult \<Rightarrow> ToolResult result" where
  "decodeDeleteToolResult pw execFields r =
     try_some (Errorf ''decode tool result: delete result is required'') (lastBytesField execFields 4)
       (\<lambda>payload.
     try_wrap (\<lambda>_. Errorf ''decode tool result: malformed delete result'') (decodeWireFields pw payload)
       (\<lambda>fs.
       let r = r\<lparr>res_Complete := True, res_ResultPayload := payload\<rparr> in
       case lastBytesField fs 1 of
         Some successPayload \<Rightarrow>
           try_wrap (\<lambda>_. Errorf ''decode tool result: malformed delete success'')
             (decodeWireFields pw successPayload) (\<lambda>successFields.
             withJSONContent r (json_object [(''path'', json_quote (bytesOr successFields 1)),
               (''file_size'', show_int (sint (varintOr successFields 3)))]))
       | None \<Rightarrow>
           first_variant pw (Errorf ''decode tool result: malformed delete failure'')
             (Errorf ''decode tool result: delete result variant is unsupported'') fs delete_failures
             (failure_content r)))"

section \<open>Results: List\<close>

text \<open>The loop over the files of a directory; the flag says that it stopped at the limit.\<close>

fun list_files :: "protowire \<Rightarrow> string \<Rightarrow> string list \<Rightarrow> bytes list \<Rightarrow> (bool \<times> string list) result" where
  "list_files pw directory entries [] = Inr (False, entries)"
| "list_files pw directory entries (filePayload # files) =
     (if maxStructuredToolItems \<le> length entries then Inr (True, entries)
      else try_wrap (\<lambda>_. Errorf ''decode tool result: malformed list file'')
        (decodeWireFields pw filePayload) (\<lambda>fileFields.
        let name = bytesOr fileFields 1 in
        list_files pw directory (if name \<noteq> [] then entries @ [path_Join directory name] else entries) files))"

text \<open>The loop over the child directories.\<close>

fun list_children ::
  "(bytes \<Rightarrow> string list \<Rightarrow> (bool \<times> string list) result) \<Rightarrow> bool \<Rightarrow> string list \<Rightarrow> bytes list \<Rightarrow>
     (bool \<times> string list) result" where
  "list_children child truncated entries [] = Inr (truncated, entries)"
| "list_children child truncated entries (c # cs) =
     try_then (child c entries) (\<lambda>(childTruncated, entries).
       if maxStructuredToolItems \<le> length entries then Inr (True, entries)
       else list_children child (truncated \<or> childTruncated) entries cs)"

lemma list_children_cong [fundef_cong]:
  "cs = ds \<Longrightarrow> t = u \<Longrightarrow> e = g \<Longrightarrow> (\<And>c e. c \<in> set ds \<Longrightarrow> f c e = h c e) \<Longrightarrow>
    list_children f t e cs = list_children h u g ds"
proof (induction ds arbitrary: cs t u e g)
  case Nil
  then show ?case by simp
next
  case (Cons d ds)
  then show ?case by (cases "h d g") (auto split: prod.splits)
qed

function flattenListTree ::
  "protowire \<Rightarrow> bytes \<Rightarrow> bool \<Rightarrow> int \<Rightarrow> int \<Rightarrow> string list \<Rightarrow> (bool \<times> string list) result" where
  "flattenListTree pw payload includeDirectory currentDepth maximumDepth entries =
     (if maxStructuredToolItems \<le> length entries \<or> maximumDepth < currentDepth then Inr (True, entries)
      else try_wrap (\<lambda>_. Errorf ''decode tool result: malformed list tree'') (decodeWireFields pw payload)
        (\<lambda>fs.
        let directory = bytesOr fs 1;
            entries = (if includeDirectory \<and> directory \<noteq> [] then entries @ [directory] else entries) in
        try_then (if currentDepth < maximumDepth
            then list_files pw directory entries (repeatedBytesField fs 3) else Inr (False, entries))
          (\<lambda>(stopped, entries).
          if stopped then Inr (True, entries)
          else list_children
            (\<lambda>child entries. flattenListTree pw child True (currentDepth + 1) maximumDepth entries)
            False entries (repeatedBytesField fs 2))))"
  by pat_completeness auto
termination
  by (relation "measure (\<lambda>(pw, payload, include, currentDepth, maximumDepth, entries).
      nat (maximumDepth + 1 - currentDepth))") auto

declare flattenListTree.simps [simp del]

definition list_failures :: "(int \<times> string \<times> int option) list" where
  "list_failures = [(2, ''list failed'', Some 2), (3, ''list rejected'', Some 2), (4, ''list timed out'', None)]"

definition listResultContent :: "string \<Rightarrow> string list \<Rightarrow> bool \<Rightarrow> string" where
  "listResultContent path entries truncated =
     json_object ([(''path'', json_quote path), (''entries'', json_array (map json_quote entries))]
       @ omit_if (\<not> truncated) ''truncated'' (json_bool truncated))"

definition decodeListToolResult ::
  "protowire \<Rightarrow> wireField list \<Rightarrow> ToolRequest \<Rightarrow> ToolResult \<Rightarrow> ToolResult result" where
  "decodeListToolResult pw execFields request r =
     try_some (Errorf ''decode tool result: list result is required'') (lastBytesField execFields 8)
       (\<lambda>payload.
     try_wrap (\<lambda>_. Errorf ''decode tool result: malformed list result'') (decodeWireFields pw payload)
       (\<lambda>fs.
     try_then (decodeListToolArguments (req_Arguments request)) (\<lambda>arguments.
       let r = r\<lparr>res_Complete := True, res_ResultPayload := payload\<rparr> in
       case lastBytesField fs 1 of
         Some successPayload \<Rightarrow>
           try_wrap (\<lambda>_. Errorf ''decode tool result: malformed list success'')
             (decodeWireFields pw successPayload) (\<lambda>successFields.
           try_some (Errorf ''decode tool result: list tree is required'') (lastBytesField successFields 1)
             (\<lambda>tree.
           try_then (flattenListTree pw tree False 0 (ls_Depth arguments) []) (\<lambda>(truncated, entries).
             withJSONContent r (listResultContent (ls_Path arguments) entries truncated))))
       | None \<Rightarrow>
           first_variant pw (Errorf ''decode tool result: malformed list failure'')
             (Errorf ''decode tool result: list result variant is unsupported'') fs list_failures
             (failure_content r))))"

section \<open>Results: Grep and Glob\<close>

record grepMatchContent =
  gm_File :: string
  gm_LineNumber :: u64
  gm_Content :: string
  gm_IsContextLine :: bool

record grepCountContent =
  gc_File :: string
  gc_Count :: u64

record grepResultContent =
  gp_Pattern :: string
  gp_Path :: string
  gp_OutputMode :: string
  gp_Files :: "string list"
  gp_Matches :: "grepMatchContent list"
  gp_Counts :: "grepCountContent list"
  gp_Truncated :: bool

text \<open>Every list grows up to the limit; an item beyond it only sets the flag.\<close>

definition add_count :: "string \<Rightarrow> u64 \<Rightarrow> grepResultContent \<Rightarrow> grepResultContent" where
  "add_count file count content =
     (if length (gp_Counts content) < maxStructuredToolItems
      then content\<lparr>gp_Counts := gp_Counts content @ [\<lparr> gc_File = file, gc_Count = count \<rparr>]\<rparr>
      else content\<lparr>gp_Truncated := True\<rparr>)"

definition add_file :: "string \<Rightarrow> grepResultContent \<Rightarrow> grepResultContent" where
  "add_file file content =
     (if length (gp_Files content) < maxStructuredToolItems
      then content\<lparr>gp_Files := gp_Files content @ [file]\<rparr>
      else content\<lparr>gp_Truncated := True\<rparr>)"

definition add_match :: "grepMatchContent \<Rightarrow> grepResultContent \<Rightarrow> grepResultContent" where
  "add_match m content =
     (if length (gp_Matches content) < maxStructuredToolItems
      then content\<lparr>gp_Matches := gp_Matches content @ [m]\<rparr>
      else content\<lparr>gp_Truncated := True\<rparr>)"

definition grep_count_item :: "protowire \<Rightarrow> grepResultContent \<Rightarrow> bytes \<Rightarrow> grepResultContent result" where
  "grep_count_item pw content item =
     try_wrap (\<lambda>_. Errorf ''decode tool result: malformed grep count'') (decodeWireFields pw item)
       (\<lambda>itemFields. Inr (add_count (bytesOr itemFields 1) (varintOr itemFields 2) content))"

definition grep_match_item ::
  "protowire \<Rightarrow> string \<Rightarrow> grepResultContent \<Rightarrow> bytes \<Rightarrow> grepResultContent result" where
  "grep_match_item pw file content matchPayload =
     try_wrap (\<lambda>_. Errorf ''decode tool result: malformed grep content match'')
       (decodeWireFields pw matchPayload) (\<lambda>matchFields.
       Inr (add_match \<lparr> gm_File = file, gm_LineNumber = varintOr matchFields 1,
         gm_Content = bytesOr matchFields 2, gm_IsContextLine = varintOr matchFields 4 \<noteq> 0 \<rparr> content))"

definition grep_file_matches :: "protowire \<Rightarrow> grepResultContent \<Rightarrow> bytes \<Rightarrow> grepResultContent result" where
  "grep_file_matches pw content filePayload =
     try_wrap (\<lambda>_. Errorf ''decode tool result: malformed grep file match'')
       (decodeWireFields pw filePayload) (\<lambda>fileFields.
       foldM (grep_match_item pw (bytesOr fileFields 1)) content (repeatedBytesField fileFields 2))"

definition appendGrepUnion :: "protowire \<Rightarrow> bytes \<Rightarrow> grepResultContent \<Rightarrow> grepResultContent result" where
  "appendGrepUnion pw payload content =
     try_wrap (\<lambda>_. Errorf ''decode tool result: malformed grep union'') (decodeWireFields pw payload) (\<lambda>fs.
       case lastBytesField fs 1 of
         Some countPayload \<Rightarrow>
           try_wrap (\<lambda>_. Errorf ''decode tool result: malformed grep count result'')
             (decodeWireFields pw countPayload) (\<lambda>countFields.
             foldM (grep_count_item pw) content (repeatedBytesField countFields 1))
       | None \<Rightarrow> (case lastBytesField fs 2 of
           Some filesPayload \<Rightarrow>
             try_wrap (\<lambda>_. Errorf ''decode tool result: malformed grep files result'')
               (decodeWireFields pw filesPayload) (\<lambda>fileFields.
               Inr (foldl (\<lambda>content file. add_file file content) content (repeatedBytesField fileFields 1)))
         | None \<Rightarrow> (case lastBytesField fs 3 of
             Some contentPayload \<Rightarrow>
               try_wrap (\<lambda>_. Errorf ''decode tool result: malformed grep content result'')
                 (decodeWireFields pw contentPayload) (\<lambda>contentFields.
                 foldM (grep_file_matches pw) content (repeatedBytesField contentFields 1))
           | None \<Rightarrow> Inl (Errorf ''decode tool result: grep union variant is unsupported''))))"

definition empty_grep :: grepResultContent where
  "empty_grep = \<lparr> gp_Pattern = [], gp_Path = [], gp_OutputMode = [], gp_Files = [], gp_Matches = [],
     gp_Counts = [], gp_Truncated = False \<rparr>"

definition grep_workspace_entry :: "protowire \<Rightarrow> grepResultContent \<Rightarrow> bytes \<Rightarrow> grepResultContent result" where
  "grep_workspace_entry pw content entryPayload =
     try_wrap (\<lambda>_. Errorf ''decode tool result: malformed grep workspace result'')
       (decodeWireFields pw entryPayload) (\<lambda>entryFields.
       case lastBytesField entryFields 2 of
         None \<Rightarrow> Inr content
       | Some unionPayload \<Rightarrow> appendGrepUnion pw unionPayload content)"

definition parseGrepResult :: "protowire \<Rightarrow> bytes \<Rightarrow> (grepResultContent \<times> bool) result" where
  "parseGrepResult pw payload =
     try_wrap (\<lambda>_. Errorf ''decode tool result: malformed grep result'') (decodeWireFields pw payload) (\<lambda>fs.
       case lastBytesField fs 2 of
         Some errorPayload \<Rightarrow>
           try_wrap (\<lambda>_. Errorf ''decode tool result: malformed grep failure'')
             (decodeWireFields pw errorPayload) (\<lambda>errorFields.
             Inr (empty_grep\<lparr>gp_Matches := [\<lparr> gm_File = [], gm_LineNumber = 0,
               gm_Content = fallbackString (bytesOr errorFields 1) ''grep failed'',
               gm_IsContextLine = False \<rparr>]\<rparr>, True))
       | None \<Rightarrow>
           try_some (Errorf ''decode tool result: grep result variant is unsupported'') (lastBytesField fs 1)
             (\<lambda>successPayload.
           try_wrap (\<lambda>_. Errorf ''decode tool result: malformed grep success'')
             (decodeWireFields pw successPayload) (\<lambda>successFields.
             let content = empty_grep\<lparr>gp_Pattern := bytesOr successFields 1,
               gp_Path := bytesOr successFields 2, gp_OutputMode := bytesOr successFields 3\<rparr> in
             try_then (foldM (grep_workspace_entry pw) content (repeatedBytesField successFields 4))
               (\<lambda>content.
             try_then (case lastBytesField successFields 5 of
                 None \<Rightarrow> Inr content | Some active \<Rightarrow> appendGrepUnion pw active content)
               (\<lambda>content. Inr (content, False))))))"

definition grepMatchJSON :: "grepMatchContent \<Rightarrow> string" where
  "grepMatchJSON m =
     json_object ([(''file'', json_quote (gm_File m)), (''line_number'', show_int (sint (gm_LineNumber m))),
       (''content'', json_quote (gm_Content m))]
       @ omit_if (\<not> gm_IsContextLine m) ''is_context_line'' (json_bool (gm_IsContextLine m)))"

definition grepCountJSON :: "grepCountContent \<Rightarrow> string" where
  "grepCountJSON c =
     json_object [(''file'', json_quote (gc_File c)), (''count'', show_int (sint (gc_Count c)))]"

definition grepResultJSON :: "grepResultContent \<Rightarrow> string" where
  "grepResultJSON content =
     json_object (omit_if (gp_Pattern content = []) ''pattern'' (json_quote (gp_Pattern content))
       @ omit_if (gp_Path content = []) ''path'' (json_quote (gp_Path content))
       @ omit_if (gp_OutputMode content = []) ''output_mode'' (json_quote (gp_OutputMode content))
       @ omit_if (gp_Files content = []) ''files'' (json_array (map json_quote (gp_Files content)))
       @ omit_if (gp_Matches content = []) ''matches'' (json_array (map grepMatchJSON (gp_Matches content)))
       @ omit_if (gp_Counts content = []) ''counts'' (json_array (map grepCountJSON (gp_Counts content)))
       @ omit_if (\<not> gp_Truncated content) ''truncated'' (json_bool (gp_Truncated content)))"

definition decodeGrepToolResult :: "protowire \<Rightarrow> wireField list \<Rightarrow> ToolResult \<Rightarrow> ToolResult result" where
  "decodeGrepToolResult pw execFields r =
     try_some (Errorf ''decode tool result: grep result is required'') (lastBytesField execFields 5)
       (\<lambda>payload.
     try_then (parseGrepResult pw payload) (\<lambda>(content, isError).
       withJSONContent (r\<lparr>res_Complete := True, res_ResultPayload := payload, res_IsError := isError\<rparr>)
         (grepResultJSON content)))"

definition decodeGlobToolResult ::
  "protowire \<Rightarrow> wireField list \<Rightarrow> ToolRequest \<Rightarrow> ToolResult \<Rightarrow> ToolResult result" where
  "decodeGlobToolResult pw execFields request r =
     try_some (Errorf ''decode tool result: glob transport result is required'') (lastBytesField execFields 5)
       (\<lambda>payload.
     try_then (parseGrepResult pw payload) (\<lambda>(content, isError).
     try_then (decodeGlobToolArguments (req_Arguments request)) (\<lambda>arguments.
       let content = content\<lparr>gp_Pattern := gl_GlobPattern arguments, gp_Path := gl_TargetDirectory arguments,
         gp_OutputMode := ''files_with_matches''\<rparr> in
       withJSONContent (r\<lparr>res_Complete := True, res_ResultPayload := payload, res_IsError := isError\<rparr>)
         (grepResultJSON content))))"

section \<open>Display of a completed call\<close>

definition encodeDirectResultDisplay :: "protowire \<Rightarrow> int \<Rightarrow> bytes \<Rightarrow> bytes \<Rightarrow> bytes" where
  "encodeDirectResultDisplay pw toolField args r =
     (let toolCall = appendMessage pw [] 1 args;
          toolCall = (if r \<noteq> [] then appendMessage pw toolCall 2 r else toolCall) in
      appendMessage pw [] toolField toolCall)"

definition encodeDeleteDisplayToolCall :: "protowire \<Rightarrow> ToolRequest \<Rightarrow> bytes \<Rightarrow> bytes result" where
  "encodeDeleteDisplayToolCall pw request r =
     try_then (decodeDeleteToolArguments (req_Arguments request)) (\<lambda>path.
       Inr (encodeDirectResultDisplay pw 3 (pathAndCall pw path 2 (req_CallID request)) r))"

definition encodeListDisplayToolCall :: "protowire \<Rightarrow> ToolRequest \<Rightarrow> bytes \<Rightarrow> bytes result" where
  "encodeListDisplayToolCall pw request r =
     try_then (decodeListToolArguments (req_Arguments request)) (\<lambda>arguments.
       Inr (encodeDirectResultDisplay pw 13 (pathAndCall pw (ls_Path arguments) 3 (req_CallID request)) r))"

definition encodeGrepDisplayToolCall :: "protowire \<Rightarrow> ToolRequest \<Rightarrow> bytes \<Rightarrow> bytes result" where
  "encodeGrepDisplayToolCall pw request r =
     try_then (decodeGrepToolArguments (req_Arguments request)) (\<lambda>arguments.
       Inr (encodeDirectResultDisplay pw 5 (encodeGrepExecArgs pw arguments (req_CallID request)) r))"

definition firstGrepError :: "grepResultContent \<Rightarrow> string" where
  "firstGrepError content =
     (case gp_Matches content of
        m # _ \<Rightarrow> if trimSpace (gm_Content m) \<noteq> [] then gm_Content m else ''glob failed''
      | [] \<Rightarrow> ''glob failed'')"

definition encodeGlobDisplayToolCall :: "protowire \<Rightarrow> ToolRequest \<Rightarrow> bytes \<Rightarrow> bytes result" where
  "encodeGlobDisplayToolCall pw request grepResult =
     try_then (decodeGlobToolArguments (req_Arguments request)) (\<lambda>arguments.
       let toolCall = appendMessage pw [] 1 (globDisplayArgs pw arguments) in
       try_then (if grepResult = [] then Inr toolCall
         else try_then (parseGrepResult pw grepResult) (\<lambda>(content, isError).
           let globResult = (if isError then
                 appendMessage pw [] 2 (appendString pw [] 1 (firstGrepError content))
               else
                 let success = appendString pw [] 1 (gl_GlobPattern arguments);
                     success = appendString pw success 2 (gl_TargetDirectory arguments);
                     success = foldl (\<lambda>success file. appendString pw success 3 file) success (gp_Files content);
                     success = appendVarint pw success 4 (of_nat (length (gp_Files content)));
                     success = (if gp_Truncated content then appendVarint pw success 5 1 else success) in
                 appendMessage pw [] 1 success) in
           Inr (appendMessage pw toolCall 2 globResult)))
         (\<lambda>toolCall. Inr (appendMessage pw [] 4 toolCall)))"

section \<open>Bounds\<close>

text \<open>Entries are only added, and only while there is room.\<close>

definition grows :: "string list \<Rightarrow> string list \<Rightarrow> bool" where
  "grows entries entries' \<longleftrightarrow> (\<exists>more. entries' = entries @ more)
     \<and> (length entries \<le> maxStructuredToolItems \<longrightarrow> length entries' \<le> maxStructuredToolItems)"

lemma grows_refl [simp]: "grows entries entries"
  by (simp add: grows_def)

lemma grows_trans: "grows a b \<Longrightarrow> grows b c \<Longrightarrow> grows a c"
  by (auto simp: grows_def)

lemma grows_snoc: "length entries < maxStructuredToolItems \<Longrightarrow> grows entries (entries @ [e])"
  by (simp add: grows_def)

lemma list_files_grows: "list_files pw directory entries files = Inr (t, entries') \<Longrightarrow> grows entries entries'"
proof (induction files arbitrary: entries)
  case Nil
  then show ?case by simp
next
  case (Cons f files)
  show ?case
  proof (cases "maxStructuredToolItems \<le> length entries")
    case True
    with Cons.prems show ?thesis by simp
  next
    case False
    with Cons.prems obtain name where
      rest: "list_files pw directory (if name \<noteq> [] then entries @ [path_Join directory name] else entries) files
        = Inr (t, entries')"
      by (simp only: list_files.simps if_False try_wrap_Inr_iff Let_def) blast
    have "grows entries (if name \<noteq> [] then entries @ [path_Join directory name] else entries)"
      using False by (simp add: grows_snoc)
    then show ?thesis using Cons.IH [OF rest] by (rule grows_trans)
  qed
qed

lemma list_children_grows:
  assumes "\<And>c e t e'. child c e = Inr (t, e') \<Longrightarrow> grows e e'"
  shows "list_children child u entries cs = Inr (t, entries') \<Longrightarrow> grows entries entries'"
proof (induction cs arbitrary: u entries)
  case Nil
  then show ?case by simp
next
  case (Cons c cs)
  from Cons.prems obtain t1 e1 where c: "child c entries = Inr (t1, e1)"
    and rest: "e1 = entries' \<or> list_children child (u \<or> t1) e1 cs = Inr (t, entries')"
    by (auto simp: result_iff split: if_splits)
  from rest have "grows e1 entries'" using Cons.IH by auto
  with assms [OF c] show ?case by (rule grows_trans)
qed

lemma flattenListTree_grows:
  "flattenListTree pw payload inc depth maximum entries = Inr (t, entries') \<Longrightarrow> grows entries entries'"
proof (induction "nat (maximum + 1 - depth)" arbitrary: payload inc depth entries t entries'
    rule: less_induct)
  case less
  show ?case
  proof (cases "maxStructuredToolItems \<le> length entries \<or> maximum < depth")
    case True
    with less.prems show ?thesis by (simp add: flattenListTree.simps)
  next
    case False
    define child where "child = (\<lambda>c e. flattenListTree pw c True (depth + 1) maximum e)"
    have child: "grows e e'" if "child c e = Inr (u, e')" for c e u e'
      using less.hyps [of "depth + 1"] False that unfolding child_def by simp
    from less.prems False obtain fs where
      body: "try_then (if depth < maximum
            then list_files pw (bytesOr fs 1) (if inc \<and> bytesOr fs 1 \<noteq> [] then entries @ [bytesOr fs 1] else entries)
              (repeatedBytesField fs 3)
            else Inr (False, if inc \<and> bytesOr fs 1 \<noteq> [] then entries @ [bytesOr fs 1] else entries))
          (\<lambda>(stopped, entries). if stopped then Inr (True, entries)
            else list_children child False entries (repeatedBytesField fs 2)) = Inr (t, entries')"
      unfolding child_def flattenListTree.simps [of pw payload inc depth maximum entries]
      by (simp only: if_False try_wrap_Inr_iff Let_def) blast
    define e1 where "e1 = (if inc \<and> bytesOr fs 1 \<noteq> [] then entries @ [bytesOr fs 1] else entries)"
    from body obtain stopped e2 where
      e2: "(if depth < maximum then list_files pw (bytesOr fs 1) e1 (repeatedBytesField fs 3)
         else Inr (False, e1)) = Inr (stopped, e2)"
      and rest': "(if stopped then Inr (True, e2)
            else list_children child False e2 (repeatedBytesField fs 2)) = Inr (t, entries')"
      unfolding e1_def [symmetric] try_then_Inr_iff by (auto simp only: split_paired_Ex prod.case)
    then have rest: "e2 = entries' \<or> list_children child False e2 (repeatedBytesField fs 2) = Inr (t, entries')"
      by (auto split: if_splits)
    have "grows entries e1" using False by (auto simp: e1_def intro: grows_snoc)
    moreover have "grows e1 e2" using e2 by (auto dest: list_files_grows split: if_splits)
    moreover have "grows e2 entries'" using rest list_children_grows [of child, OF child] by auto
    ultimately show ?thesis by (blast intro: grows_trans)
  qed
qed

text \<open>Flattening a directory tree, however deep or wide the client's answer is, ends and yields
  at most 4096 entries.\<close>

theorem listing_bounded:
  assumes "flattenListTree pw tree False 0 maximumDepth [] = Inr (truncated, entries)"
  shows "length entries \<le> 4096"
  using flattenListTree_grows [OF assms] by (simp add: grows_def maxStructuredToolItems_def)

theorem listing_bounded_witness:
  "\<exists>truncated entries. flattenListTree wire_format
      (bytes_entry wire_format 1 ''/r'' @ bytes_entry wire_format 3 (bytes_entry wire_format 1 ''a'')
        @ bytes_entry wire_format 2 (bytes_entry wire_format 1 ''/r/d'')) False 0 1 []
     = Inr (truncated, entries) \<and> entries = [''/r/a'', ''/r/d''] \<and> length entries \<le> 4096"
proof -
  let ?tree = "bytes_entry wire_format 1 ''/r'' @ bytes_entry wire_format 3 (bytes_entry wire_format 1 ''a'')
    @ bytes_entry wire_format 2 (bytes_entry wire_format 1 ''/r/d'')"
  have join: "path_Join ''/r'' ''a'' = ''/r/a''"
    by (simp add: path_Join_def path_Clean_def clean_step_def)
  have "flattenListTree wire_format ?tree False 0 1 [] = Inr (False, [''/r/a'', ''/r/d''])"
    by (simp add: flattenListTree.simps maxStructuredToolItems_def wire_concrete Let_def join)
  then show ?thesis using listing_bounded [of wire_format ?tree 1] by blast
qed

text \<open>The invariant of the lists of a search result.\<close>

definition grep_ok :: "grepResultContent \<Rightarrow> bool" where
  "grep_ok c \<longleftrightarrow> length (gp_Files c) \<le> maxStructuredToolItems \<and> length (gp_Matches c) \<le> maxStructuredToolItems
     \<and> length (gp_Counts c) \<le> maxStructuredToolItems
     \<and> (gp_Truncated c \<longrightarrow> maxStructuredToolItems \<in> {length (gp_Files c), length (gp_Matches c), length (gp_Counts c)})"

lemma add_ok [simp]:
  "grep_ok c \<Longrightarrow> grep_ok (add_count file n c)"
  "grep_ok c \<Longrightarrow> grep_ok (add_file file c)"
  "grep_ok c \<Longrightarrow> grep_ok (add_match m c)"
  by (auto simp: grep_ok_def add_count_def add_file_def add_match_def)

lemma add_files_ok: "grep_ok c \<Longrightarrow> grep_ok (foldl (\<lambda>c f. add_file f c) c fs)"
  by (induction fs arbitrary: c) simp_all

lemma grep_items_ok:
  "grep_count_item pw c item = Inr c' \<Longrightarrow> grep_ok c \<Longrightarrow> grep_ok c'"
  "grep_match_item pw file c m = Inr c' \<Longrightarrow> grep_ok c \<Longrightarrow> grep_ok c'"
  by (auto simp: grep_count_item_def grep_match_item_def result_iff)

lemma grep_fold_ok:
  assumes "foldM f c xs = Inr c'" and "grep_ok c" and "\<And>c x c'. f c x = Inr c' \<Longrightarrow> grep_ok c \<Longrightarrow> grep_ok c'"
  shows "grep_ok c'"
  using assms(1,2) by (rule foldM_invariant) (rule assms(3))

lemma grep_file_matches_ok: "grep_file_matches pw c f = Inr c' \<Longrightarrow> grep_ok c \<Longrightarrow> grep_ok c'"
  unfolding grep_file_matches_def try_wrap_Inr_iff using grep_fold_ok grep_items_ok(2) by blast

lemma appendGrepUnion_ok: "appendGrepUnion pw p c = Inr c' \<Longrightarrow> grep_ok c \<Longrightarrow> grep_ok c'"
  unfolding appendGrepUnion_def try_wrap_Inr_iff
  using grep_fold_ok [of "grep_count_item pw", OF _ _ grep_items_ok(1)]
    grep_fold_ok [of "grep_file_matches pw", OF _ _ grep_file_matches_ok]
  by (auto simp: try_wrap_Inr_iff add_files_ok split: option.splits)

lemma grep_workspace_entry_ok: "grep_workspace_entry pw c p = Inr c' \<Longrightarrow> grep_ok c \<Longrightarrow> grep_ok c'"
  by (auto simp: grep_workspace_entry_def result_iff dest: appendGrepUnion_ok split: option.splits)

lemma empty_grep_ok: "grep_ok (empty_grep\<lparr>gp_Pattern := a, gp_Path := b, gp_OutputMode := m\<rparr>)"
  "grep_ok (empty_grep\<lparr>gp_Matches := [x]\<rparr>)"
  by (simp_all add: grep_ok_def empty_grep_def maxStructuredToolItems_def)

text \<open>A decoded search result holds at most 4096 files, 4096 matches and 4096 counts, and it is
  flagged as truncated only when one of the lists is full.\<close>

theorem grep_result_bounded:
  assumes "parseGrepResult pw payload = Inr (content, isError)"
  shows "grep_ok content"
proof -
  from assms obtain fs where fs: "decodeWireFields pw payload = Inr fs"
    by (auto simp: parseGrepResult_def result_iff)
  show ?thesis
  proof (cases "lastBytesField fs 2")
    case (Some p)
    with assms fs show ?thesis by (auto simp: parseGrepResult_def result_iff empty_grep_ok)
  next
    case None
    with assms fs obtain c0 sfs c1 where "grep_ok c0"
      "foldM (grep_workspace_entry pw) c0 (repeatedBytesField sfs 4) = Inr c1"
      and last: "(case lastBytesField sfs 5 of None \<Rightarrow> Inr c1 | Some active \<Rightarrow> appendGrepUnion pw active c1) = Inr content"
      using empty_grep_ok(1) by (fastforce simp: parseGrepResult_def result_iff Let_def)
    then have "grep_ok c1" using grep_fold_ok grep_workspace_entry_ok by blast
    with last show ?thesis by (auto dest: appendGrepUnion_ok split: option.splits)
  qed
qed

theorem grep_result_bounded_witness:
  "\<exists>content. parseGrepResult wire_format
      (bytes_entry wire_format 1 (bytes_entry wire_format 5
        (bytes_entry wire_format 2 (bytes_entry wire_format 1 ''a.go'')))) = Inr (content, False)
     \<and> gp_Files content = [''a.go''] \<and> grep_ok content"
proof -
  let ?p = "bytes_entry wire_format 1 (bytes_entry wire_format 5
    (bytes_entry wire_format 2 (bytes_entry wire_format 1 ''a.go'')))"
  have "parseGrepResult wire_format ?p = Inr (empty_grep\<lparr>gp_Files := [''a.go'']\<rparr>, False)"
    by (simp add: parseGrepResult_def appendGrepUnion_def add_file_def maxStructuredToolItems_def Let_def
        empty_grep_def wire_concrete)
  with grep_result_bounded [OF this] show ?thesis by simp
qed

end
