(* ===== verification/Go_Float.thy ===== *)
theory Go_Float
  imports Go_Json Protowire_Interface
begin

text \<open>
  \<open>float64\<close> values as their 64 bits, and the two functions of \<open>strconv\<close> that
  \<open>encoding/json\<close> uses on them: parsing a number literal with correct rounding to nearest,
  ties to even, and printing the shortest decimal that parses back. They are what the
  parameters \<open>pf\<close> and \<open>pff\<close> of the protocol definitions stand for.
\<close>

section \<open>The value of a float64\<close>

definition float_sign :: "u64 \<Rightarrow> bool" where
  "float_sign bits \<longleftrightarrow> 9223372036854775808 \<le> unat bits"

definition float_exp :: "u64 \<Rightarrow> nat" where
  "float_exp bits = unat bits div 4503599627370496 mod 2048"

definition float_frac :: "u64 \<Rightarrow> nat" where
  "float_frac bits = unat bits mod 4503599627370496"

text \<open>The magnitude of a finite value is \<open>float_scaled bits / 2 ^ 1074\<close>.\<close>

definition float_scaled :: "u64 \<Rightarrow> nat" where
  "float_scaled bits =
     (if float_exp bits = 0 then float_frac bits
      else (4503599627370496 + float_frac bits) * 2 ^ (float_exp bits - 1))"

definition float_unit :: nat where "float_unit = 2 ^ 1074"

text \<open>\<open>x < 0\<close>, \<open>x > n\<close> and the conversion to an integer, which truncates.\<close>

definition float_negative :: "u64 \<Rightarrow> bool" where
  "float_negative bits \<longleftrightarrow> float_sign bits \<and> float_scaled bits \<noteq> 0"

definition float_exceeds :: "u64 \<Rightarrow> nat \<Rightarrow> bool" where
  "float_exceeds bits n \<longleftrightarrow> \<not> float_sign bits \<and> n * float_unit < float_scaled bits"

definition float_trunc :: "u64 \<Rightarrow> int" where
  "float_trunc bits = (if float_sign bits then - 1 else 1) * int (float_scaled bits div float_unit)"

section \<open>Rounding a fraction\<close>

fun bit_length :: "nat \<Rightarrow> nat" where
  "bit_length n = (if n = 0 then 0 else Suc (bit_length (n div 2)))"

declare bit_length.simps [simp del]

text \<open>The fraction \<open>num * 2 ^ (- e) / den\<close> as numerator and denominator.\<close>

definition scale2 :: "int \<Rightarrow> nat \<Rightarrow> nat \<Rightarrow> nat \<times> nat" where
  "scale2 e num den = (if 0 \<le> e then (num, den * 2 ^ nat e) else (num * 2 ^ nat (- e), den))"

definition floor_log2 :: "nat \<Rightarrow> nat \<Rightarrow> int" where
  "floor_log2 num den =
     (let l = int (bit_length num) - int (bit_length den); (n, d) = scale2 l num den in
      if d \<le> n then l else l - 1)"

definition round_half_even :: "nat \<Rightarrow> nat \<Rightarrow> nat" where
  "round_half_even n d =
     (let q = n div d; r = n mod d in
      if d < 2 * r \<or> d = 2 * r \<and> odd q then q + 1 else q)"

text \<open>The bits of the nearest \<open>float64\<close>; none when the fraction is out of range.\<close>

definition round_double :: "nat \<Rightarrow> nat \<Rightarrow> nat option" where
  "round_double num den =
     (if num = 0 then Some 0
      else let e = max (floor_log2 num den - 52) (- 1074);
               q = (case scale2 e num den of (n, d) \<Rightarrow> round_half_even n d);
               (q, e) = (if q = 9007199254740992 then (4503599627370496, e + 1) else (q, e)) in
        if q < 4503599627370496 then Some q
        else if 2047 \<le> e + 1075 then None
        else Some (nat (e + 1075) * 4503599627370496 + (q - 4503599627370496)))"

section \<open>strconv.ParseFloat on a JSON number\<close>

definition digits_exp :: "int \<Rightarrow> nat \<Rightarrow> nat \<times> nat" where
  "digits_exp e m = (if 0 \<le> e then (m * 10 ^ nat e, 1) else (m, 10 ^ nat (- e)))"

definition exponent_of :: "string \<Rightarrow> int" where
  "exponent_of s = (case s of
     [] \<Rightarrow> 0
   | _ # t \<Rightarrow> (case t of
       [] \<Rightarrow> 0
     | c # r \<Rightarrow> if c = CHR ''-'' then - int (digits_val 0 r)
         else if c = CHR ''+'' then int (digits_val 0 r) else int (digits_val 0 t)))"

definition ParseFloat :: "string \<Rightarrow> u64 option" where
  "ParseFloat s =
     (let neg = (s \<noteq> [] \<and> hd s = CHR ''-''); s = (if neg then tl s else s);
          whole = takeWhile is_digit s; s = dropWhile is_digit s;
          (fraction, s) = (if s \<noteq> [] \<and> hd s = CHR ''.''
            then (takeWhile is_digit (tl s), dropWhile is_digit (tl s)) else ([], s));
          (num, den) = digits_exp (exponent_of s - int (length fraction)) (digits_val 0 (whole @ fraction)) in
      case round_double num den of
        None \<Rightarrow> None
      | Some bits \<Rightarrow> Some (of_nat ((if neg then 9223372036854775808 else 0) + bits)))"

section \<open>Printing: the shortest decimal that parses back\<close>

fun count_digits :: "nat \<Rightarrow> nat" where
  "count_digits n = (if n < 10 then 1 else Suc (count_digits (n div 10)))"

declare count_digits.simps [simp del]

text \<open>The place of the first digit: \<open>10 ^ floor_log10\<close> is at most the value.\<close>

definition floor_log10 :: "nat \<Rightarrow> nat \<Rightarrow> int" where
  "floor_log10 num den =
     (if den \<le> num then int (count_digits (num div den)) - 1
      else (let k = count_digits (den div num) in
        if den \<le> num * 10 ^ (k - 1) then 1 - int k else - int k))"

text \<open>With \<open>n\<close> digits: the nearer of the two neighbours that parses back.\<close>

definition shortest_at :: "nat \<Rightarrow> nat \<Rightarrow> nat \<Rightarrow> int \<Rightarrow> (nat \<times> int) option" where
  "shortest_at bits num den e =
     (let (n, d) = (if 0 \<le> e then (num, den * 10 ^ nat e) else (num * 10 ^ nat (- e), den));
          lo = n div d; r = n mod d;
          ok = (\<lambda>m. case digits_exp e m of (x, y) \<Rightarrow> round_double x y = Some bits) in
      if ok lo \<and> (2 * r < d \<or> \<not> ok (lo + 1) \<or> 2 * r = d \<and> even lo) then Some (lo, e)
      else if ok (lo + 1) then Some (lo + 1, e) else None)"

fun shortest :: "nat \<Rightarrow> nat \<Rightarrow> nat \<Rightarrow> nat \<Rightarrow> int \<Rightarrow> nat \<times> int" where
  "shortest 0 bits num den e = (0, 0)"
| "shortest (Suc k) bits num den e = (case shortest_at bits num den e of
     Some me \<Rightarrow> me | None \<Rightarrow> shortest k bits num den (e - 1))"

definition strip_zeros :: "string \<Rightarrow> string" where
  "strip_zeros s = rev (dropWhile (\<lambda>c. c = CHR ''0'') (rev s))"

text \<open>\<open>%f\<close> and \<open>%e\<close> of digits \<open>ds\<close> with the decimal point before place \<open>dp\<close>.\<close>

definition format_f :: "string \<Rightarrow> int \<Rightarrow> string" where
  "format_f ds dp =
     (if dp \<le> 0 then ''0.'' @ replicate (nat (- dp)) (CHR ''0'') @ ds
      else if int (length ds) \<le> dp then ds @ replicate (nat dp - length ds) (CHR ''0'')
      else take (nat dp) ds @ ''.'' @ drop (nat dp) ds)"

definition format_e :: "string \<Rightarrow> int \<Rightarrow> string" where
  "format_e ds dp =
     take 1 ds @ (if length ds = 1 then [] else ''.'' @ drop 1 ds) @ ''e''
       @ (if dp < 1 then ''-'' @ show_nat (nat (1 - dp)) else ''+'' @ show_nat (nat (dp - 1)))"

text \<open>\<open>encoding/json\<close> on a finite \<open>float64\<close>: exponents only below 1e-6 and from 1e21.\<close>

definition FormatFloat :: "u64 \<Rightarrow> string" where
  "FormatFloat bits =
     (if float_sign bits then ''-'' else []) @
     (if float_scaled bits = 0 then ''0''
      else let num = float_scaled bits;
               (m, e) = shortest 17 (unat bits mod 9223372036854775808) num float_unit
                 (floor_log10 num float_unit);
               text = show_nat m; dp = int (length text) + e; ds = strip_zeros text in
        if dp < - 5 \<or> 21 < dp then format_e ds dp else format_f ds dp)"

end
