(* ===== verification/Tool_Shell.thy ===== *)
theory Tool_Shell
  imports Tool_Common Go_Float
begin

text \<open>
  The Shell tool of \<open>tool_shell.go\<close>: its arguments and their encoding, the events of a
  running command (output, start, exit, rejection, permission failure, backgrounding), the
  final result and its display. A decoded event is one event, and it completes the call
  exactly when it is a terminal one.
\<close>

record shellToolArguments =
  sh_Command :: string
  sh_Description :: string
  sh_WorkingDirectory :: string
  sh_BlockUntilMS :: "u64 option"

section \<open>Arguments\<close>

definition decodeShellToolArguments :: "string \<Rightarrow> shellToolArguments result" where
  "decodeShellToolArguments raw =
     (let invalid = Errorf ''encode Shell tool: arguments are invalid'' in
      try_some invalid
        (strict_fields [''command'', ''description'', ''working_directory'', ''block_until_ms''] raw) (\<lambda>ms.
      try_some invalid (stringField ''command'' ms) (\<lambda>command.
      try_some invalid (stringField ''description'' ms) (\<lambda>description.
      try_some invalid (stringField ''working_directory'' ms) (\<lambda>workingDirectory.
      try_some invalid (fold_field (set_ptr ParseFloat) ''block_until_ms'' None ms) (\<lambda>blockUntilMS.
        let arguments = \<lparr> sh_Command = trimSpace command, sh_Description = trimSpace description,
          sh_WorkingDirectory = trimSpace workingDirectory, sh_BlockUntilMS = blockUntilMS \<rparr> in
        if sh_Command arguments = [] \<or> hasNul (sh_WorkingDirectory arguments)
            \<or> (case blockUntilMS of None \<Rightarrow> False
                | Some ms \<Rightarrow> float_negative ms \<or> float_exceeds ms 2147483647) then Inl invalid
        else Inr arguments))))))"

text \<open>\<open>int32(*float64)\<close> of a value between 0 and the largest \<open>int32\<close>.\<close>

definition shellTimeout :: "shellToolArguments \<Rightarrow> u32" where
  "shellTimeout arguments =
     (case sh_BlockUntilMS arguments of None \<Rightarrow> 30000 | Some ms \<Rightarrow> word_of_int (float_trunc ms))"

text \<open>\<open>strings.Fields\<close>: the maximal runs of characters that are not white space.\<close>

function field_pieces :: "string list \<Rightarrow> string list" where
  "field_pieces ps = (case dropWhile space_piece ps of
     [] \<Rightarrow> []
   | q # qs \<Rightarrow> concat (q # takeWhile (\<lambda>p. \<not> space_piece p) qs)
       # field_pieces (dropWhile (\<lambda>p. \<not> space_piece p) qs))"
  by pat_completeness auto
termination
proof (relation "measure length", goal_cases)
  case 1
  show ?case by simp
next
  case (2 ps q qs)
  then have "length qs < length ps" using length_dropWhile_le [of space_piece ps] by simp
  then show ?case using length_dropWhile_le [of "\<lambda>p. \<not> space_piece p" qs] by simp
qed

declare field_pieces.simps [simp del]

definition strings_Fields :: "string \<Rightarrow> string list" where
  "strings_Fields s = field_pieces (runes s)"

definition encodeShellParsingResult :: "protowire \<Rightarrow> string \<Rightarrow> bytes" where
  "encodeShellParsingResult pw command =
     (case strings_Fields command of
        [] \<Rightarrow> []
      | part # parts \<Rightarrow>
          let executable = appendString pw [] 1 part;
              executable = foldl (\<lambda>executable v.
                let argument = appendString pw (appendString pw [] 1 ''word'') 2 v in
                appendMessage pw executable 2 argument) executable parts;
              executable = appendString pw executable 3 (trimSpace command) in
          appendMessage pw [] 2 executable)"

definition encodeShellArgs :: "protowire \<Rightarrow> shellToolArguments \<Rightarrow> string \<Rightarrow> bool \<Rightarrow> bytes" where
  "encodeShellArgs pw arguments callID includeExecutionMetadata =
     (let args = appendString pw [] 1 (sh_Command arguments);
          args = appendString pw args 2 (sh_WorkingDirectory arguments);
          args = appendVarint pw args 3 (scast (shellTimeout arguments));
          args = appendString pw args 4 callID;
          args = (if includeExecutionMetadata then
              let args = appendString pw args 5 (sh_Command arguments);
                  args = appendMessage pw args 8 (encodeShellParsingResult pw (sh_Command arguments));
                  args = appendVarint pw args 10 40000;
                  args = appendVarint pw args 13 2 in
              appendVarint pw args 14 86400000
            else args) in
      if sh_Description arguments \<noteq> [] then appendString pw args 15 (sh_Description arguments) else args)"

definition encodeShellToolDispatch :: "protowire \<Rightarrow> ToolRequest \<Rightarrow> ToolDispatch result" where
  "encodeShellToolDispatch pw request =
     try_then (decodeShellToolArguments (req_Arguments request)) (\<lambda>arguments.
       let args = encodeShellArgs pw arguments (req_CallID request) True;
           payload = appendMessage pw [] 1 (encodeShellArgs pw arguments (req_CallID request) False);
           payload = (if sh_Description arguments \<noteq> []
             then appendString pw payload 3 (sh_Description arguments) else payload) in
       Inr (toolDispatch pw request 14 args (appendMessage pw [] 1 payload)))"

section \<open>Events\<close>

text \<open>
  Each kind of event is looked for in turn; \<open>matched\<close> counts those present, and each present
  one overwrites what the previous ones set.
\<close>

type_synonym shell_step = "bytes \<Rightarrow> ToolResult \<Rightarrow> ToolResult result"

definition shell_stdout :: "protowire \<Rightarrow> shell_step" where
  "shell_stdout pw eventPayload r =
     try_wrap (\<lambda>_. Errorf ''decode tool result: malformed shell stdout'') (decodeWireFields pw eventPayload)
       (\<lambda>eventFields. Inr (r\<lparr>res_ShellEvent := ShellEventStdout, res_StdoutDelta := bytesOr eventFields 1\<rparr>))"

definition shell_stderr :: "protowire \<Rightarrow> shell_step" where
  "shell_stderr pw eventPayload r =
     try_wrap (\<lambda>_. Errorf ''decode tool result: malformed shell stderr'') (decodeWireFields pw eventPayload)
       (\<lambda>eventFields. Inr (r\<lparr>res_ShellEvent := ShellEventStderr, res_StderrDelta := bytesOr eventFields 1\<rparr>))"

definition shell_exit :: "protowire \<Rightarrow> shell_step" where
  "shell_exit pw eventPayload r =
     try_wrap (\<lambda>_. Errorf ''decode tool result: malformed shell exit'') (decodeWireFields pw eventPayload)
       (\<lambda>eventFields. let code = varintOr eventFields 1 in
         if 2147483647 < code then Inl (Errorf ''decode tool result: shell exit code is invalid'')
         else Inr (r\<lparr>res_ShellEvent := ShellEventExit, res_ExitCode := ucast code,
           res_CWD := bytesOr eventFields 2, res_Complete := True, res_IsError := code \<noteq> 0\<rparr>))"

definition shell_start :: "protowire \<Rightarrow> shell_step" where
  "shell_start pw eventPayload r = Inr (r\<lparr>res_ShellEvent := ShellEventStart\<rparr>)"

definition shell_rejected :: "protowire \<Rightarrow> shell_step" where
  "shell_rejected pw eventPayload r =
     try_wrap (\<lambda>_. Errorf ''decode tool result: malformed shell rejection'') (decodeWireFields pw eventPayload)
       (\<lambda>eventFields. Inr (r\<lparr>res_ShellEvent := ShellEventRejected, res_Complete := True, res_IsError := True,
         res_Content := ''shell rejected: '' @ fallbackString (bytesOr eventFields 3) ''approval required''\<rparr>))"

definition shell_denied :: "protowire \<Rightarrow> shell_step" where
  "shell_denied pw eventPayload r =
     try_wrap (\<lambda>_. Errorf ''decode tool result: malformed shell permission failure'')
       (decodeWireFields pw eventPayload)
       (\<lambda>eventFields. Inr (r\<lparr>res_ShellEvent := ShellEventPermissionDenied, res_Complete := True,
         res_IsError := True, res_Content :=
           ''shell permission denied: '' @ fallbackString (bytesOr eventFields 3) ''permission denied''\<rparr>))"

definition shell_backgrounded :: "protowire \<Rightarrow> shell_step" where
  "shell_backgrounded pw eventPayload r =
     try_wrap (\<lambda>_. Errorf ''decode tool result: malformed shell background result'')
       (decodeWireFields pw eventPayload)
       (\<lambda>eventFields. let shellID = (ucast (varintOr eventFields 1) :: u32);
          pid = (ucast (varintOr eventFields 4) :: u32) in
        Inr (r\<lparr>res_ShellEvent := ShellEventBackgrounded, res_ShellID := shellID, res_PID := pid,
          res_CWD := bytesOr eventFields 3, res_Complete := True,
          res_Content := ''shell backgrounded: shell_id='' @ show_nat (unat shellID)
            @ '' pid='' @ show_nat (unat pid)\<rparr>))"

definition shell_steps :: "protowire \<Rightarrow> (int \<times> shell_step) list" where
  "shell_steps pw = [(1, shell_stdout pw), (2, shell_stderr pw), (3, shell_exit pw), (4, shell_start pw),
     (5, shell_rejected pw), (6, shell_denied pw), (7, shell_backgrounded pw)]"

definition shell_step_at ::
  "wireField list \<Rightarrow> nat \<times> ToolResult \<Rightarrow> int \<times> shell_step \<Rightarrow> (nat \<times> ToolResult) result" where
  "shell_step_at fs st fstep = (case (st, fstep) of ((matched, r), (field, step)) \<Rightarrow>
     case lastBytesField fs field of
       None \<Rightarrow> Inr (matched, r)
     | Some eventPayload \<Rightarrow> try_then (step eventPayload r) (\<lambda>r.
         Inr (matched + 1, r\<lparr>res_EventPayload := eventPayload\<rparr>)))"

definition decodeShellToolResult :: "protowire \<Rightarrow> wireField list \<Rightarrow> ToolResult \<Rightarrow> ToolResult result" where
  "decodeShellToolResult pw execFields r =
     try_some (Errorf ''decode tool result: shell stream result is required'') (lastBytesField execFields 14)
       (\<lambda>payload.
     try_wrap (\<lambda>_. Errorf ''decode tool result: malformed shell stream'') (decodeWireFields pw payload)
       (\<lambda>fs.
     try_then (foldM (shell_step_at fs) (0, r\<lparr>res_ResultPayload := payload\<rparr>) (shell_steps pw))
       (\<lambda>(matched, r).
       if matched \<noteq> 1 then Inl (Errorf ''decode tool result: shell stream event is unsupported'')
       else Inr r)))"

section \<open>The final result\<close>

definition FinalizeShellToolResult :: "ToolResult \<Rightarrow> string \<Rightarrow> string \<Rightarrow> bool \<Rightarrow> ToolResult result" where
  "FinalizeShellToolResult r stdout stderr truncated =
     (if res_Name r \<noteq> ''Shell'' \<or> \<not> res_Complete r then
        Inl (Errorf ''finalize shell tool result: terminal Shell result is required'')
      else
        let r = r\<lparr>res_Stdout := stdout, res_Stderr := stderr, res_Truncated := truncated\<rparr> in
        if res_ShellEvent r \<noteq> ShellEventExit then Inr r
        else
          let trimmedStdout = trimSpace stdout; trimmedStderr = trimSpace stderr;
              sections = (if trimmedStdout \<noteq> [] then [trimmedStdout] else [])
                @ (if trimmedStderr \<noteq> [] then
                     (if trimmedStdout \<noteq> [] then
                        [''<stderr>'' @ [CHR 0x0A] @ trimmedStderr @ [CHR 0x0A] @ ''</stderr>'']
                      else [trimmedStderr])
                   else [])
                @ (if truncated then [''[output truncated by cursor-cli-byok]''] else []) in
          if sections = [] then
            Inr (r\<lparr>res_Content := ''shell exited with code='' @ show_int (sint (res_ExitCode r))
              @ '' cwd='' @ trimSpace (res_CWD r)\<rparr>)
          else Inr (r\<lparr>res_Content := join [CHR 0x0A, CHR 0x0A] sections\<rparr>))"

definition EncodeToolProgress :: "protowire \<Rightarrow> ToolResult \<Rightarrow> bytes result" where
  "EncodeToolProgress pw r =
     (if res_Name r \<noteq> ''Shell'' \<or> (res_Complete r \<and> res_ShellEvent r \<noteq> ShellEventExit) then
        Inl (Errorf ''encode tool progress: Shell progress result is required'')
      else
        try_then (case res_ShellEvent r of
            ShellEventStdout \<Rightarrow> Inr (appendMessage pw [] 1 (appendString pw [] 1 (res_StdoutDelta r)))
          | ShellEventStderr \<Rightarrow> Inr (appendMessage pw [] 2 (appendString pw [] 1 (res_StderrDelta r)))
          | ShellEventStart \<Rightarrow> Inr (appendMessage pw [] 4 (res_EventPayload r))
          | ShellEventExit \<Rightarrow> Inr (appendMessage pw [] 3 (res_EventPayload r))
          | _ \<Rightarrow> Inl (Errorf ''encode tool progress: shell event is unsupported''))
        (\<lambda>progress. Inr (appendMessage pw [] 1 (appendMessage pw [] 12 progress))))"

definition interleaveShellOutput :: "string \<Rightarrow> string \<Rightarrow> string" where
  "interleaveShellOutput stdout stderr =
     (if stdout = [] then stderr
      else if stderr = [] then stdout
      else if last stdout = CHR 0x0A then stdout @ stderr
      else stdout @ [CHR 0x0A] @ stderr)"

definition shell_exit_payload :: "protowire \<Rightarrow> shellToolArguments \<Rightarrow> ToolResult \<Rightarrow> int \<Rightarrow> bytes" where
  "shell_exit_payload pw arguments r interleavedField =
     (let payload = appendString pw [] 1 (sh_Command arguments);
          payload = appendString pw payload 2 (fallbackString (res_CWD r) (sh_WorkingDirectory arguments));
          payload = appendVarint pw payload 3 (scast (res_ExitCode r));
          payload = appendString pw payload 5 (res_Stdout r);
          payload = appendString pw payload 6 (res_Stderr r);
          interleaved = interleaveShellOutput (res_Stdout r) (res_Stderr r) in
      if interleaved \<noteq> [] then appendString pw payload interleavedField interleaved else payload)"

definition encodeShellResult :: "protowire \<Rightarrow> shellToolArguments \<Rightarrow> ToolResult \<Rightarrow> bytes result" where
  "encodeShellResult pw arguments r =
     (case res_ShellEvent r of
        ShellEventExit \<Rightarrow>
          if res_ExitCode r = 0 then Inr (appendMessage pw [] 1 (shell_exit_payload pw arguments r 10))
          else Inr (appendMessage pw [] 2 (shell_exit_payload pw arguments r 9))
      | ShellEventRejected \<Rightarrow> Inr (appendMessage pw [] 4 (res_EventPayload r))
      | ShellEventPermissionDenied \<Rightarrow> Inr (appendMessage pw [] 7 (res_EventPayload r))
      | ShellEventBackgrounded \<Rightarrow>
          let success = appendString pw [] 1 (sh_Command arguments);
              success = appendString pw success 2 (fallbackString (res_CWD r) (sh_WorkingDirectory arguments));
              success = appendVarint pw success 9 (ucast (res_ShellID r));
              success = (if res_PID r \<noteq> 0 then appendVarint pw success 11 (ucast (res_PID r)) else success);
              shellResult = appendMessage pw [] 1 success;
              shellResult = appendVarint pw shellResult 102 1 in
          Inr (if res_PID r \<noteq> 0 then appendVarint pw shellResult 104 (ucast (res_PID r)) else shellResult)
      | _ \<Rightarrow> Inl (Errorf ''encode tool completed: shell terminal event is unsupported''))"

definition encodeShellDisplayToolCall :: "protowire \<Rightarrow> ToolRequest \<Rightarrow> ToolResult \<Rightarrow> bytes result" where
  "encodeShellDisplayToolCall pw request r =
     try_then (decodeShellToolArguments (req_Arguments request)) (\<lambda>arguments.
       let payload = appendMessage pw [] 1 (encodeShellArgs pw arguments (req_CallID request) False) in
       try_then (if res_Complete r
           then try_then (encodeShellResult pw arguments r) (\<lambda>shellResult. Inr (appendMessage pw payload 2 shellResult))
           else Inr payload) (\<lambda>payload.
         Inr (appendMessage pw [] 1 (if sh_Description arguments \<noteq> []
           then appendString pw payload 3 (sh_Description arguments) else payload))))"

section \<open>A decoded event is one event\<close>

definition present :: "wireField list \<Rightarrow> int \<times> shell_step \<Rightarrow> bool" where
  "present fs fstep \<longleftrightarrow> lastBytesField fs (fst fstep) \<noteq> None"

lemma shell_step_at_eq:
  "shell_step_at fs (n, r) (field, step) = (case lastBytesField fs field of
     None \<Rightarrow> Inr (n, r)
   | Some p \<Rightarrow> try_then (step p r) (\<lambda>r. Inr (Suc n, r\<lparr>res_EventPayload := p\<rparr>)))"
  by (simp add: shell_step_at_def split: option.splits)

lemma shell_fold_absent:
  "list_all (\<lambda>s. \<not> present fs s) steps \<Longrightarrow> foldM (shell_step_at fs) st steps = Inr st"
  by (induction steps arbitrary: st) (auto simp: shell_step_at_def present_def split: prod.splits)

lemma shell_fold_count:
  "foldM (shell_step_at fs) (n, r) steps = Inr (n', r') \<Longrightarrow> n' = n + length (filter (present fs) steps)"
proof (induction steps arbitrary: n r)
  case Nil
  then show ?case by simp
next
  case (Cons s steps)
  obtain field step where s: "s = (field, step)" by (cases s)
  show ?case
  proof (cases "lastBytesField fs field")
    case None
    with Cons show ?thesis by (simp add: s shell_step_at_eq present_def)
  next
    case (Some p)
    with Cons.prems obtain r1 where "foldM (shell_step_at fs) (Suc n, r1) steps = Inr (n', r')"
      by (auto simp: s shell_step_at_eq result_iff)
    from Cons.IH [OF this] Some show ?thesis by (simp add: s present_def)
  qed
qed

lemma shell_fold_one:
  "foldM (shell_step_at fs) (n, r) steps = Inr (Suc n, r') \<Longrightarrow>
    \<exists>as field step bs eventPayload r1. steps = as @ (field, step) # bs
      \<and> list_all (\<lambda>s. \<not> present fs s) (as @ bs) \<and> lastBytesField fs field = Some eventPayload
      \<and> step eventPayload r = Inr r1 \<and> r' = r1\<lparr>res_EventPayload := eventPayload\<rparr>"
proof (induction steps arbitrary: r)
  case Nil
  then show ?case by simp
next
  case (Cons s steps)
  obtain field step where s: "s = (field, step)" by (cases s)
  show ?case
  proof (cases "lastBytesField fs field")
    case None
    with Cons.prems s have "foldM (shell_step_at fs) (n, r) steps = Inr (Suc n, r')"
      by (simp add: shell_step_at_eq)
    from Cons.IH [OF this] obtain as field' step' bs p r1 where "steps = as @ (field', step') # bs"
      "list_all (\<lambda>s. \<not> present fs s) (as @ bs)" "lastBytesField fs field' = Some p"
      "step' p r = Inr r1" "r' = r1\<lparr>res_EventPayload := p\<rparr>" by blast
    with None s show ?thesis
      by (intro exI [of _ "s # as"] exI [of _ field'] exI [of _ step'] exI [of _ bs] exI [of _ p] exI [of _ r1])
        (simp add: present_def)
  next
    case (Some p)
    with Cons.prems s obtain r1 where r1: "step p r = Inr r1"
      and rest: "foldM (shell_step_at fs) (Suc n, r1\<lparr>res_EventPayload := p\<rparr>) steps = Inr (Suc n, r')"
      by (auto simp: shell_step_at_eq result_iff)
    from shell_fold_count [OF rest] have none: "list_all (\<lambda>s. \<not> present fs s) steps"
      by (simp add: list_all_iff filter_empty_conv)
    with rest have "r' = r1\<lparr>res_EventPayload := p\<rparr>" by (simp add: shell_fold_absent)
    with Some r1 s none show ?thesis
      by (intro exI [of _ "[]"] exI [of _ field] exI [of _ step] exI [of _ steps] exI [of _ p] exI [of _ r1]) simp
  qed
qed

fun shell_event_field :: "ShellEventKind \<Rightarrow> int" where
  "shell_event_field ShellEventUnknown = 0"
| "shell_event_field ShellEventStdout = 1"
| "shell_event_field ShellEventStderr = 2"
| "shell_event_field ShellEventExit = 3"
| "shell_event_field ShellEventStart = 4"
| "shell_event_field ShellEventRejected = 5"
| "shell_event_field ShellEventPermissionDenied = 6"
| "shell_event_field ShellEventBackgrounded = 7"

definition shell_terminal :: "ShellEventKind \<Rightarrow> bool" where
  "shell_terminal k \<longleftrightarrow> k \<in> {ShellEventExit, ShellEventRejected, ShellEventPermissionDenied, ShellEventBackgrounded}"

text \<open>What one step leaves in a result that was not yet complete.\<close>

definition shell_event_ok :: "int \<Rightarrow> ToolResult \<Rightarrow> ToolResult \<Rightarrow> bool" where
  "shell_event_ok field r r' \<longleftrightarrow> shell_event_field (res_ShellEvent r') = field
     \<and> res_Complete r' = shell_terminal (res_ShellEvent r')
     \<and> (res_IsError r' \<longrightarrow> res_Complete r')
     \<and> (res_ShellEvent r' = ShellEventExit \<longrightarrow> (res_IsError r' \<longleftrightarrow> res_ExitCode r' \<noteq> 0) \<and> 0 \<le> sint (res_ExitCode r'))
     \<and> res_MessageID r' = res_MessageID r \<and> res_ExecID r' = res_ExecID r \<and> res_Name r' = res_Name r
     \<and> res_ResultPayload r' = res_ResultPayload r"

lemma exit_code_small:
  fixes code :: u64
  assumes "\<not> 2147483647 < code"
  shows "(ucast code = (0 :: u32)) = (code = 0)" "0 \<le> sint (ucast code :: u32)"
proof -
  have small: "0 \<le> uint code" "uint code < 2147483648" using assms by (simp_all add: word_less_def)
  have w: "(ucast code :: u32) = word_of_int (uint code)" by simp
  have "uint (ucast code :: u32) = uint code"
    unfolding w uint_word_of_int using small by simp
  then show "(ucast code = (0 :: u32)) = (code = 0)" by (metis uint_0_iff)
  have "sint (ucast code :: u32) = signed_take_bit 31 (uint code)" by (simp add: signed_ucast_eq)
  also have "\<dots> = uint code"
  proof (rule signed_take_bit_int_eq_self)
    show "- (2 ^ 31) \<le> uint code" by (rule order_trans [OF _ small(1)]) simp
    show "uint code < 2 ^ 31" using small(2) by simp
  qed
  finally have "sint (ucast code :: u32) = uint code" .
  then show "0 \<le> sint (ucast code :: u32)" using small by simp
qed

lemma shell_steps_ok:
  assumes "(field, step) \<in> set (shell_steps pw)" and "step p r = Inr r'"
    and "\<not> res_Complete r" "\<not> res_IsError r"
  shows "shell_event_ok field r r'"
  using assms
  by (auto simp: shell_steps_def shell_event_ok_def shell_terminal_def shell_stdout_def shell_stderr_def
      shell_exit_def shell_start_def shell_rejected_def shell_denied_def shell_backgrounded_def
      result_iff Let_def exit_code_small)

text \<open>The update of one shell stream message: exactly one event, the one it is labelled with.\<close>

definition one_shell_event :: "wireField list \<Rightarrow> ToolResult \<Rightarrow> ToolResult \<Rightarrow> bool" where
  "one_shell_event fs r r' \<longleftrightarrow>
     lastBytesField fs (shell_event_field (res_ShellEvent r')) = Some (res_EventPayload r')
     \<and> list_all (\<lambda>f. f \<noteq> shell_event_field (res_ShellEvent r') \<longrightarrow> lastBytesField fs f = None) [1, 2, 3, 4, 5, 6, 7]
     \<and> shell_event_ok (shell_event_field (res_ShellEvent r')) r r'"

lemma shell_event_ok_payload [simp]:
  "shell_event_ok f r (r'\<lparr>res_EventPayload := p\<rparr>) = shell_event_ok f r r'"
  by (simp add: shell_event_ok_def)

lemma shell_event_ok_field: "shell_event_ok f r r' \<Longrightarrow> shell_event_field (res_ShellEvent r') = f"
  by (simp add: shell_event_ok_def)

lemma shell_fields: "map fst (shell_steps pw) = [1, 2, 3, 4, 5, 6, 7]"
  by (simp add: shell_steps_def)

lemma one_shell_eventI:
  assumes fold: "foldM (shell_step_at fs) (0, r) (shell_steps pw) = Inr (1, r')"
    and fresh: "\<not> res_Complete r" "\<not> res_IsError r"
  shows "one_shell_event fs r r'"
proof -
  from shell_fold_one [of fs 0 r "shell_steps pw" r'] fold obtain as field step bs p r1 where
    steps: "shell_steps pw = as @ (field, step) # bs" and absent: "list_all (\<lambda>s. \<not> present fs s) (as @ bs)"
    and p: "lastBytesField fs field = Some p" and r1: "step p r = Inr r1"
    and r': "r' = r1\<lparr>res_EventPayload := p\<rparr>" by auto
  have "shell_event_ok field r r1" using steps r1 fresh by (intro shell_steps_ok [of field step pw p]) auto
  then have ok: "shell_event_ok field r r'" "shell_event_field (res_ShellEvent r') = field"
    using shell_event_ok_field r' by auto
  have "map fst as @ field # map fst bs = [1, 2, 3, 4, 5, 6, 7]"
    using shell_fields [of pw] steps by simp
  then have "set (map fst as @ field # map fst bs) = set [1, 2, 3, 4, 5, 6, 7]" by (simp only:)
  then have "lastBytesField fs f = None" if mem: "f \<in> set [1, 2, 3, 4, 5, 6, 7]" and neq: "f \<noteq> field" for f
  proof -
    have "f \<in> set (map fst as @ field # map fst bs)"
      using mem \<open>set (map fst as @ field # map fst bs) = set [1, 2, 3, 4, 5, 6, 7]\<close> by (simp only:)
    then obtain s where "s \<in> set (as @ bs)" "f = fst s" using neq by auto
    then show ?thesis using absent by (auto simp: list_all_iff present_def)
  qed
  then have "list_all (\<lambda>f. f \<noteq> field \<longrightarrow> lastBytesField fs f = None) [1, 2, 3, 4, 5, 6, 7]"
    unfolding list_all_iff by blast
  then show ?thesis using ok p r' by (simp add: one_shell_event_def)
qed

lemma shell_result_event:
  assumes "decodeShellToolResult pw execFields (new_result messageID execID name) = Inr r"
  shows "\<exists>payload fs. lastBytesField execFields 14 = Some payload \<and> decodeWireFields pw payload = Inr fs
    \<and> one_shell_event fs ((new_result messageID execID name)\<lparr>res_ResultPayload := payload\<rparr>) r"
proof -
  let ?r = "new_result messageID execID name"
  from assms obtain payload fs where p: "lastBytesField execFields 14 = Some payload"
    and fs: "decodeWireFields pw payload = Inr fs"
    and fold: "foldM (shell_step_at fs) (0, ?r\<lparr>res_ResultPayload := payload\<rparr>) (shell_steps pw) = Inr (1, r)"
    by (auto simp: decodeShellToolResult_def result_iff split: if_splits)
  have "one_shell_event fs (?r\<lparr>res_ResultPayload := payload\<rparr>) r"
    by (rule one_shell_eventI [OF fold]) (simp_all add: new_result_def)
  with p fs show ?thesis by blast
qed

lemma shell_result_terminal:
  "decodeShellToolResult pw execFields (new_result messageID execID name) = Inr r \<Longrightarrow>
    res_Complete r = shell_terminal (res_ShellEvent r)"
  by (drule shell_result_event) (auto simp: one_shell_event_def shell_event_ok_def)

text \<open>A shell stream message that decodes carries exactly one event, the result is labelled with
  that event and keeps its payload, the call is complete exactly on a terminal event (exit,
  rejection, permission failure, backgrounding), only a complete call is an error, and an
  exit is an error exactly when its code, which is not negative, is not zero.\<close>

theorem shell_result_one_event:
  assumes "decodeShellToolResult pw execFields (new_result messageID execID name) = Inr r"
  shows "\<exists>payload fs. lastBytesField execFields 14 = Some payload \<and> decodeWireFields pw payload = Inr fs
    \<and> one_shell_event fs ((new_result messageID execID name)\<lparr>res_ResultPayload := payload\<rparr>) r"
  using assms by (rule shell_result_event)

theorem shell_result_one_event_witness:
  "\<exists>r. decodeShellToolResult wire_format
        [bytesField 14 (bytes_entry wire_format 3 (varint_entry wire_format 1 2))]
        (new_result 7 ''exec-shell-1'' ''Shell'') = Inr r
      \<and> res_ShellEvent r = ShellEventExit \<and> res_IsError r
      \<and> one_shell_event [bytesField 3 (varint_entry wire_format 1 2)]
          ((new_result 7 ''exec-shell-1'' ''Shell'')
            \<lparr>res_ResultPayload := bytes_entry wire_format 3 (varint_entry wire_format 1 2)\<rparr>) r"
proof -
  let ?fs = "[bytesField 14 (bytes_entry wire_format 3 (varint_entry wire_format 1 2))]"
  let ?r = "new_result 7 ''exec-shell-1'' ''Shell''"
  obtain r where dec: "decodeShellToolResult wire_format ?fs ?r = Inr r"
    and event: "res_ShellEvent r = ShellEventExit" "res_IsError r"
    by (simp add: decodeShellToolResult_def shell_steps_def shell_step_at_eq shell_exit_def Let_def
        new_result_def wire_concrete)
  have fields: "decodeWireFields wire_format (bytes_entry wire_format 3 (varint_entry wire_format 1 2))
      = Inr [bytesField 3 (varint_entry wire_format 1 2)]"
    by (simp add: wire_concrete)
  from shell_result_one_event [OF dec] fields dec event show ?thesis by auto
qed

end
