(* ===== verification/Bounded_Text.thy ===== *)
theory Bounded_Text
  imports Go_Json
begin

text \<open>
  Text of bounded size: \<open>strings.ToValidUTF8\<close>, and the cut that the session makes of shell
  output (\<open>appendBoundedShellOutput\<close>) and the MCP tool of result sections
  (\<open>boundedMCPSection\<close>). The cut is valid UTF-8, a prefix of the text, within the limit,
  and gives up at most three bytes of it.
\<close>

section \<open>Valid UTF-8\<close>

text \<open>Every run of invalid bytes becomes one replacement character.\<close>

fun mend :: "string list \<Rightarrow> string list" where
  "mend [] = []"
| "mend (p # ps) =
     (if bad_piece p
      then (case ps of
          q # _ \<Rightarrow> if bad_piece q then mend ps else replacement # mend ps
        | [] \<Rightarrow> [replacement])
      else p # mend ps)"

definition toValidUTF8 :: "string \<Rightarrow> string" where
  "toValidUTF8 s = concat (mend (runes s))"

definition good_piece :: "string \<Rightarrow> bool" where
  "good_piece p \<longleftrightarrow> p \<noteq> [] \<and> rune_size p = length p \<and> \<not> bad_piece p"

lemma runes_good: "list_all good_piece ps \<Longrightarrow> runes (concat ps @ r) = ps @ runes r"
proof (induction ps)
  case Nil
  then show ?case by simp
next
  case (Cons p ps)
  then have p: "p \<noteq> []" "rune_size p = length p" "\<not> bad_piece p" by (simp_all add: good_piece_def)
  have "rune_size (p @ concat ps @ r) = length p"
  proof (cases "1 < rune_size p")
    case True
    then show ?thesis using p(2) by (simp add: rune_size_append)
  next
    case False
    then obtain c where c: "p = [c]" using p(1,2) by (cases p) (auto simp del: rune_size.simps)
    then have "byte_val c < 128" using p(3) by (simp add: bad_piece_def)
    then show ?thesis by (cases "concat ps @ r" rule: rune_size.cases) (auto simp: c lead_len_def)
  qed
  then have "runes (p @ concat ps @ r) = p # runes (concat ps @ r)"
    using p(1) by (simp add: runes_eq [of "p @ concat ps @ r"] del: rune_size.simps)
  with Cons show ?case by simp
qed

lemma runes_concat_good: "list_all good_piece ps \<Longrightarrow> runes (concat ps) = ps"
  using runes_good [of ps "[]"] by simp

lemma valid_good: "validUTF8 s \<longleftrightarrow> list_all good_piece (runes s)"
  using piece_of_runes by (auto simp: validUTF8_def list_all_iff good_piece_def)

lemma valid_concat: "list_all good_piece ps \<Longrightarrow> validUTF8 (concat ps)"
  by (simp add: valid_good runes_concat_good)

lemma good_replacement: "good_piece replacement"
  by (simp add: good_piece_def replacement_def bad_piece_def lead_len_def second_ok_def is_cont_def)

lemma mend_good: "(\<forall>p\<in>set ps. p \<noteq> [] \<and> rune_size p = length p) \<Longrightarrow> list_all good_piece (mend ps)"
  using good_replacement
  by (induction ps rule: mend.induct) (auto simp: good_piece_def split: list.splits)

lemma mend_id: "list_all good_piece ps \<Longrightarrow> mend ps = ps"
  by (induction ps rule: mend.induct) (auto simp: good_piece_def)

lemma toValidUTF8_valid [simp]: "validUTF8 (toValidUTF8 s)"
  unfolding toValidUTF8_def using piece_of_runes by (intro valid_concat mend_good) blast

lemma toValidUTF8_id [simp]: "validUTF8 s \<Longrightarrow> toValidUTF8 s = s"
  by (simp add: toValidUTF8_def valid_good mend_id)

lemma toValidUTF8_Nil [simp]: "toValidUTF8 [] = []"
  by (simp add: toValidUTF8_def)

section \<open>Cutting at a limit\<close>

text \<open>The loop that drops the last byte until the text is valid again.\<close>

function cut_valid :: "string \<Rightarrow> string" where
  "cut_valid v = (if \<not> validUTF8 v \<and> v \<noteq> [] then cut_valid (butlast v) else v)"
  by pat_completeness auto
termination
  by (relation "measure length") auto

declare cut_valid.simps [simp del]

lemma proper_prefix_bad:
  assumes p: "good_piece (x @ y)" and x: "x \<noteq> []" "y \<noteq> []"
  shows "\<not> validUTF8 x"
proof -
  from p have size: "rune_size (x @ y) = length x + length y" by (simp add: good_piece_def)
  obtain c r where c: "x = c # r" using x(1) by (cases x) auto
  have "\<not> 1 < rune_size x"
  proof
    assume "1 < rune_size x"
    then have "length x + length y \<le> length x"
      using rune_size_append [of x y] rune_size_le [of x] size by linarith
    with x(2) show False by simp
  qed
  moreover have "0 < rune_size x" unfolding c by (rule rune_size_pos)
  ultimately have one: "rune_size x = 1" by linarith
  have "lead_len c \<noteq> 1"
  proof
    assume "lead_len c = 1"
    then have "rune_size (c # r @ y) = 1" by (cases "r @ y" rule: rune_size.cases) auto
    with size x(2) show False by (simp add: c)
  qed
  then have "128 \<le> byte_val c" by (rule lead_len_high)
  moreover have "runes x = [c] # runes r" using one by (simp add: runes_eq [of "c # r"] c del: rune_size.simps)
  ultimately show ?thesis by (simp add: validUTF8_def bad_piece_def)
qed

lemma cut_valid_tail:
  assumes "list_all good_piece qs" and "y \<noteq> []" and "good_piece (x @ y)"
  shows "cut_valid (concat qs @ x) = concat qs"
  using assms(2,3)
proof (induction x arbitrary: y rule: rev_induct)
  case Nil
  then show ?case using assms(1) by (subst cut_valid.simps) (simp add: valid_concat)
next
  case (snoc c x)
  have "\<not> validUTF8 (x @ [c])" using snoc.prems by (intro proper_prefix_bad [of _ y]) auto
  then have "\<not> validUTF8 (concat qs @ x @ [c])"
    using runes_good [OF assms(1), of "x @ [c]"] by (auto simp: validUTF8_def)
  moreover have "cut_valid (concat qs @ x) = concat qs"
    using snoc.IH [of "[c] @ y"] snoc.prems by simp
  ultimately show ?case
    by (subst cut_valid.simps) (simp add: butlast_append)
qed

text \<open>Where a limit falls: after some whole pieces, within the next one.\<close>

lemma take_pieces:
  assumes "n < length (concat ps)"
  obtains qs x y rs where "ps = qs @ (x @ y) # rs" "take n (concat ps) = concat qs @ x" "y \<noteq> []"
  using assms
proof (induction ps arbitrary: n thesis)
  case Nil
  then show ?case by simp
next
  case (Cons p ps)
  show ?case
  proof (cases "n < length p")
    case True
    then show ?thesis
      using Cons.prems(1) [of "[]" "take n p" "drop n p" ps] by simp
  next
    case False
    then have "n - length p < length (concat ps)" using Cons.prems(2) by simp
    then obtain qs x y rs where
      "ps = qs @ (x @ y) # rs" "take (n - length p) (concat ps) = concat qs @ x" "y \<noteq> []"
      using Cons.IH by blast
    then show ?thesis using Cons.prems(1) [of "p # qs" x y rs] False by simp
  qed
qed

definition cut_at :: "nat \<Rightarrow> string \<Rightarrow> string" where
  "cut_at limit v = (if length v \<le> limit then v else cut_valid (take limit v))"

lemma good_piece_size: "good_piece p \<Longrightarrow> length p \<le> 4"
  using rune_size_cases [of p] by (auto simp: good_piece_def)

lemma cut_at_correct:
  assumes "validUTF8 v"
  shows "validUTF8 (cut_at limit v) \<and> (\<exists>r. v = cut_at limit v @ r) \<and> length (cut_at limit v) \<le> limit
    \<and> (limit < length v \<longrightarrow> limit \<le> length (cut_at limit v) + 3)"
proof (cases "length v \<le> limit")
  case True
  then show ?thesis using assms by (simp add: cut_at_def)
next
  case False
  then have "limit < length (concat (runes v))" by simp
  then obtain qs x y rs where ps: "runes v = qs @ (x @ y) # rs"
    and cut: "take limit (concat (runes v)) = concat qs @ x" and y: "y \<noteq> []"
    by (rule take_pieces)
  from assms ps have good: "list_all good_piece qs" "good_piece (x @ y)" by (simp_all add: valid_good)
  have c: "cut_at limit v = concat qs"
    using False cut cut_valid_tail [OF good(1) y good(2)] by (simp add: cut_at_def)
  have v: "v = concat qs @ (x @ y) @ concat rs" using ps concat_runes [of v] by simp
  have "length x \<le> 3" using good_piece_size [OF good(2)] y by (cases y) auto
  moreover have "limit = length (concat qs) + length x"
    using arg_cong [OF cut, of length] False by simp
  ultimately show ?thesis using c v good(1) by (auto simp: valid_concat)
qed

end
