(* ===== verification/Tool_MCP.thy ===== *)
theory Tool_MCP
  imports Tool_Common Bounded_Text Go_Float
begin

text \<open>
  Calls of MCP tools (\<open>tool_mcp.go\<close>) and the MCP state exchange (\<open>mcp.go\<close>): the arguments
  with their structured values, the dispatch frame, the summary of a result as text of
  bounded size, its display, and the request and result of the discovery of tools.
\<close>

definition maxMCPResultItems :: nat where "maxMCPResultItems = 64"
definition maxMCPResultBytes :: nat where "maxMCPResultBytes = 262144"

section \<open>Arguments\<close>

record mcpToolArguments =
  ma_Name :: string
  ma_Server :: string
  ma_ToolName :: string
  ma_Arguments :: bytes

text \<open>A \<open>json.RawMessage\<close> member: the text of its last occurrence, empty when it is missing.\<close>

fun rawField :: "string \<Rightarrow> string \<Rightarrow> (string \<times> string \<times> json) list \<Rightarrow> string" where
  "rawField name a [] = a"
| "rawField name a ((k, raw, _) # ms) = rawField name (if k = name then raw else a) ms"

text \<open>Of the members of the object, the last one of a key counts.\<close>

definition decodeMCPArgumentObject :: "bytes \<Rightarrow> (string \<times> string \<times> json) list result" where
  "decodeMCPArgumentObject raw =
     (case json_parse raw of
        Some (JObj ms, rest) \<Rightarrow>
          if skip_ws rest \<noteq> [] then Inl (Errorf ''encode MCP tool: arguments have trailing JSON'')
          else Inr ms
      | _ \<Rightarrow> Inl (Errorf ''encode MCP tool: arguments must be a JSON object''))"

definition decodeMCPToolArguments :: "string \<Rightarrow> mcpToolArguments result" where
  "decodeMCPToolArguments raw =
     (let invalid = Errorf ''encode MCP tool: arguments are invalid'' in
      try_some invalid (strict_fields [''name'', ''server'', ''tool_name'', ''arguments''] raw) (\<lambda>ms.
      try_some invalid (stringField ''name'' ms) (\<lambda>name.
      try_some invalid (stringField ''server'' ms) (\<lambda>server.
      try_some invalid (stringField ''tool_name'' ms) (\<lambda>toolName.
        let arguments = \<lparr> ma_Name = trimSpace name, ma_Server = trimSpace server,
          ma_ToolName = trimSpace toolName, ma_Arguments = rawField ''arguments'' [] ms \<rparr> in
        if \<not> validIdentifier (ma_Name arguments) \<or> \<not> validIdentifier (ma_Server arguments)
            \<or> \<not> validIdentifier (ma_ToolName arguments) \<or> ma_Arguments arguments = [] then Inl invalid
        else try_then (decodeMCPArgumentObject (ma_Arguments arguments)) (\<lambda>_. Inr arguments))))))"

definition encodeMCPArgs :: "protowire \<Rightarrow> mcpToolArguments \<Rightarrow> string \<Rightarrow> bytes result" where
  "encodeMCPArgs pw arguments callID =
     try_then (decodeMCPArgumentObject (ma_Arguments arguments)) (\<lambda>values.
       let payload = appendString pw [] 1 (ma_Name arguments) in
       try_then (encodeProtoEntries pw 2 (\<lambda>n v. encodeProtoValue pw ParseFloat 0 n v) payload 0
           (sorted_members values)) (\<lambda>(payload, _).
         let payload = appendString pw payload 3 callID;
             payload = appendString pw payload 4 (ma_Server arguments) in
         Inr (appendString pw payload 5 (ma_ToolName arguments))))"

definition encodeMCPToolDispatch :: "protowire \<Rightarrow> ToolRequest \<Rightarrow> ToolDispatch result" where
  "encodeMCPToolDispatch pw request =
     try_then (decodeMCPToolArguments (req_Arguments request)) (\<lambda>arguments.
     try_then (encodeMCPArgs pw arguments (req_CallID request)) (\<lambda>mcpArgs.
       Inr (toolDispatch pw request 11 mcpArgs
         (appendMessage pw [] 15 (appendMessage pw [] 1 mcpArgs)))))"

section \<open>The summary of a result\<close>

definition boundedMCPSection :: "string \<Rightarrow> int \<Rightarrow> string \<times> bool" where
  "boundedMCPSection v limit =
     (let v = toValidUTF8 v in
      if limit \<le> 0 then ([], v \<noteq> [])
      else if int (length v) \<le> limit then (v, False)
      else (cut_valid (take (nat limit) v), True))"

text \<open>The text of one content item; an item of an unknown kind has none.\<close>

definition mcp_item_text :: "protowire \<Rightarrow> bytes \<Rightarrow> string result" where
  "mcp_item_text pw itemPayload =
     try_wrap (\<lambda>_. Errorf ''decode tool result: malformed MCP content item'')
       (decodeWireFields pw itemPayload) (\<lambda>itemFields.
       case lastBytesField itemFields 1 of
         Some textPayload \<Rightarrow>
           try_wrap (\<lambda>_. Errorf ''decode tool result: malformed MCP text content'')
             (decodeWireFields pw textPayload) (\<lambda>textFields. Inr (bytesOr textFields 1))
       | None \<Rightarrow> (case lastBytesField itemFields 2 of
           Some imagePayload \<Rightarrow>
             try_wrap (\<lambda>_. Errorf ''decode tool result: malformed MCP image content'')
               (decodeWireFields pw imagePayload) (\<lambda>imageFields.
               Inr (''[image: '' @ fallbackString (bytesOr imageFields 2) ''application/octet-stream'' @ '', ''
                 @ show_nat (length (bytesOr imageFields 1)) @ '' bytes]''))
         | None \<Rightarrow> Inr []))"

record mcp_summary =
  ms_sections :: "string list"
  ms_totalBytes :: nat
  ms_truncated :: bool

definition add_section :: "string \<Rightarrow> mcp_summary \<Rightarrow> mcp_summary" where
  "add_section text s =
     (case boundedMCPSection text (int maxMCPResultBytes - int (ms_totalBytes s)) of
        (section', didTruncate) \<Rightarrow>
          (if section' \<noteq> [] then s\<lparr>ms_sections := ms_sections s @ [section'],
             ms_totalBytes := ms_totalBytes s + length section'\<rparr> else s)
          \<lparr>ms_truncated := ms_truncated s \<or> didTruncate\<rparr>)"

fun mcp_items :: "protowire \<Rightarrow> mcp_summary \<Rightarrow> bytes list \<Rightarrow> mcp_summary result" where
  "mcp_items pw s [] = Inr s"
| "mcp_items pw s (item # items) =
     try_then (mcp_item_text pw item) (\<lambda>text.
       let s = add_section text s in
       if maxMCPResultBytes \<le> ms_totalBytes s then Inr (s\<lparr>ms_truncated := True\<rparr>)
       else mcp_items pw s items)"

definition mcp_structured :: "protowire \<Rightarrow> wireField list \<Rightarrow> mcp_summary \<Rightarrow> mcp_summary result" where
  "mcp_structured pw fs s = (case lastBytesField fs 3 of
     None \<Rightarrow> Inr s
   | Some structuredPayload \<Rightarrow>
       if maxMCPResultBytes \<le> ms_totalBytes s then Inr s
       else try_then (decodeProtoStruct pw (\<lambda>n p. decodeProtoValue pw 0 n p) 0 structuredPayload)
         (\<lambda>(ms, _). Inr (add_section (marshal_pval FormatFloat (PStruct ms)) s)))"

definition summarizeMCPSuccess :: "protowire \<Rightarrow> bytes \<Rightarrow> (string \<times> bool) result" where
  "summarizeMCPSuccess pw payload =
     try_wrap (\<lambda>_. Errorf ''decode tool result: malformed MCP success'') (decodeWireFields pw payload) (\<lambda>fs.
       let items = repeatedBytesField fs 1;
           s = \<lparr> ms_sections = [], ms_totalBytes = 0, ms_truncated = maxMCPResultItems < length items \<rparr> in
       try_then (mcp_items pw s (take maxMCPResultItems items)) (\<lambda>s.
       try_then (mcp_structured pw fs s) (\<lambda>s.
         let sections = ms_sections s @ (if ms_truncated s then [''[MCP result truncated by cursor-cli-byok]''] else []);
             sections = (if sections = [] then [''MCP tool completed without content''] else sections) in
         Inr (join [CHR 0x0A, CHR 0x0A] sections, varintOr fs 2 \<noteq> 0))))"

text \<open>The failures: field and prefix; only the last one has no detail to decode.\<close>

definition mcp_failures :: "(int \<times> string \<times> int option) list" where
  "mcp_failures = [(2, ''MCP error'', Some 1), (3, ''MCP rejected'', Some 1),
     (4, ''MCP permission denied'', Some 1), (5, ''MCP tool not found'', Some 1),
     (6, ''MCP server not found'', Some 1), (7, ''MCP tool was approved but not executed'', None)]"

fun mcp_failure :: "protowire \<Rightarrow> wireField list \<Rightarrow> (int \<times> string \<times> int option) list \<Rightarrow> (string \<times> bool) result" where
  "mcp_failure pw fs [] = Inl (Errorf ''decode tool result: MCP result variant is unsupported'')"
| "mcp_failure pw fs ((field, prefix', detailField) # cs) =
     (case lastBytesField fs field of
        None \<Rightarrow> mcp_failure pw fs cs
      | Some failurePayload \<Rightarrow> (case detailField of
          None \<Rightarrow> Inr (prefix', True)
        | Some n \<Rightarrow>
            try_wrap (\<lambda>_. Errorf ''decode tool result: malformed MCP failure'')
              (decodeWireFields pw failurePayload) (\<lambda>failureFields.
              let detail = trimSpace (bytesOr failureFields n) in
              Inr (if detail \<noteq> [] then prefix' @ '': '' @ detail else prefix', True))))"

definition summarizeMCPResult :: "protowire \<Rightarrow> bytes \<Rightarrow> (string \<times> bool) result" where
  "summarizeMCPResult pw payload =
     try_wrap (\<lambda>_. Errorf ''decode tool result: malformed MCP result'') (decodeWireFields pw payload) (\<lambda>fs.
       case lastBytesField fs 1 of
         Some successPayload \<Rightarrow> summarizeMCPSuccess pw successPayload
       | None \<Rightarrow> mcp_failure pw fs mcp_failures)"

definition decodeMCPToolResult :: "protowire \<Rightarrow> wireField list \<Rightarrow> ToolResult \<Rightarrow> ToolResult result" where
  "decodeMCPToolResult pw execFields r =
     try_some (Errorf ''decode tool result: MCP result is required'') (lastBytesField execFields 11) (\<lambda>payload.
     try_then (summarizeMCPResult pw payload) (\<lambda>(content, isError).
       Inr (r\<lparr>res_Complete := True, res_IsError := isError, res_Content := content,
         res_ResultPayload := payload\<rparr>)))"

section \<open>Display\<close>

definition convertMCPResultForDisplay :: "protowire \<Rightarrow> bytes \<Rightarrow> bytes result" where
  "convertMCPResultForDisplay pw payload =
     try_wrap (\<lambda>_. Errorf ''encode tool completed: malformed MCP result'') (decodeWireFields pw payload) (\<lambda>fs.
       case lastBytesField fs 1 of
         Some success \<Rightarrow> Inr (appendMessage pw [] 1 success)
       | None \<Rightarrow> (case lastBytesField fs 2 of
           Some failure \<Rightarrow>
             try_wrap (\<lambda>_. Errorf ''encode tool completed: malformed MCP error'')
               (decodeWireFields pw failure) (\<lambda>failureFields.
               Inr (appendMessage pw [] 2
                 (appendString pw [] 1 (fallbackString (bytesOr failureFields 1) ''MCP error''))))
         | None \<Rightarrow> (case lastBytesField fs 3 of
             Some rejected \<Rightarrow> Inr (appendMessage pw [] 3 rejected)
           | None \<Rightarrow> (case lastBytesField fs 4 of
               Some denied \<Rightarrow> Inr (appendMessage pw [] 4 denied)
             | None \<Rightarrow> try_then (summarizeMCPResult pw payload) (\<lambda>(content, _).
                 Inr (appendMessage pw [] 2 (appendString pw [] 1 content)))))))"

definition encodeMCPDisplayToolCall :: "protowire \<Rightarrow> ToolRequest \<Rightarrow> bytes \<Rightarrow> bytes result" where
  "encodeMCPDisplayToolCall pw request r =
     try_then (decodeMCPToolArguments (req_Arguments request)) (\<lambda>arguments.
     try_then (encodeMCPArgs pw arguments (req_CallID request)) (\<lambda>mcpArgs.
       let mcpToolCall = appendMessage pw [] 1 mcpArgs in
       try_then (if r = [] then Inr mcpToolCall
           else try_then (convertMCPResultForDisplay pw r) (\<lambda>toolResult.
             Inr (appendMessage pw mcpToolCall 2 toolResult)))
         (\<lambda>mcpToolCall. Inr (appendMessage pw [] 15 mcpToolCall))))"

section \<open>The MCP state exchange: mcp.go\<close>

record MCPStateResult =
  st_MessageID :: u32
  st_ExecID :: string
  st_Tools :: "MCPToolDefinition list"
  st_IsError :: bool
  st_Error :: string

definition EncodeMCPStateRequest :: "protowire \<Rightarrow> u32 \<Rightarrow> string \<Rightarrow> bytes result" where
  "EncodeMCPStateRequest pw messageID execID =
     (if messageID = 0 \<or> \<not> validIdentifier (trimSpace execID) then
        Inl (Errorf ''encode MCP state request: message ID and exec ID are required'')
      else Inr (execFrame pw messageID execID 36 []))"

definition decodeMCPStateToolDefinition :: "protowire \<Rightarrow> bytes \<Rightarrow> string \<Rightarrow> MCPToolDefinition result" where
  "decodeMCPStateToolDefinition pw payload fallbackProvider =
     try_wrap (\<lambda>_. Errorf ''decode MCP state result: malformed tool'') (decodeWireFields pw payload) (\<lambda>fs.
       let description = bytesOr fs 2;
           providerIdentifier = trimSpace (bytesOr fs 4);
           providerIdentifier = (if providerIdentifier = [] then fallbackProvider else providerIdentifier);
           toolName = trimSpace (bytesOr fs 5);
           name = trimSpace (bytesOr fs 1);
           name = (if name = [] \<and> providerIdentifier \<noteq> [] \<and> toolName \<noteq> []
             then providerIdentifier @ ''-'' @ toolName else name);
           invalid = Errorf ''decode MCP state result: tool metadata is invalid'' in
       if \<not> validIdentifier name \<or> \<not> validIdentifier providerIdentifier \<or> \<not> validIdentifier toolName
           \<or> \<not> validUTF8 description then Inl invalid
       else try_some invalid (lastBytesField fs 3) (\<lambda>schemaPayload.
         try_then (decodeMCPInputSchema pw FormatFloat schemaPayload) (\<lambda>inputSchema.
           Inr \<lparr> mcp_Name = name, mcp_Description = description,
             mcp_ProviderIdentifier = providerIdentifier, mcp_ToolName = toolName,
             mcp_InputSchema = inputSchema \<rparr>)))"

definition decodeMCPStateServer ::
  "protowire \<Rightarrow> MCPToolDefinition list \<Rightarrow> bytes \<Rightarrow> MCPToolDefinition list result" where
  "decodeMCPStateServer pw result' serverPayload =
     try_wrap (\<lambda>_. Errorf ''decode MCP state result: malformed server'') (decodeWireFields pw serverPayload)
       (\<lambda>serverFields.
       let serverIdentifier = trimSpace (bytesOr serverFields 2) in
       if \<not> validIdentifier serverIdentifier then
         Inl (Errorf ''decode MCP state result: server identifier is invalid'')
       else foldM (\<lambda>result' definitionPayload.
           try_then (decodeMCPStateToolDefinition pw definitionPayload serverIdentifier)
             (appendDefinition ''decode MCP state result: too many tools''
               ''decode MCP state result: duplicate tool names'' result'))
         result' (repeatedBytesField serverFields 5))"

definition decodeMCPStateSuccess :: "protowire \<Rightarrow> bytes \<Rightarrow> MCPToolDefinition list result" where
  "decodeMCPStateSuccess pw payload =
     try_wrap (\<lambda>_. Errorf ''decode MCP state result: malformed success'') (decodeWireFields pw payload)
       (\<lambda>fs. foldM (decodeMCPStateServer pw) [] (repeatedBytesField fs 1))"

definition mcp_state_failures :: "(int \<times> string) list" where
  "mcp_state_failures = [(2, ''MCP state unavailable''), (3, ''MCP state request rejected'')]"

definition DecodeMCPStateResult :: "protowire \<Rightarrow> ClientMessage \<Rightarrow> u32 \<Rightarrow> string \<Rightarrow> MCPStateResult result" where
  "DecodeMCPStateResult pw message expectedMessageID expectedExecID =
     (if Kind message \<noteq> ClientMessageExec then
        Inl (Errorf ''decode MCP state result: client message is not an exec result'')
      else try_then (DecodeExecResultIdentity pw message) (\<lambda>identity.
        if (id_MessageID identity \<noteq> 0 \<and> id_MessageID identity \<noteq> expectedMessageID)
            \<or> (id_ExecID identity \<noteq> [] \<and> id_ExecID identity \<noteq> expectedExecID) then
          Inl (Errorf ''decode MCP state result: identity does not match request'')
        else try_then (execClientPayload pw (Raw message)) (\<lambda>execPayload.
        try_wrap (\<lambda>_. Errorf ''decode MCP state result: malformed exec message'')
          (decodeWireFields pw execPayload) (\<lambda>execFields.
        try_some (Errorf ''decode MCP state result: result is required'') (lastBytesField execFields 36)
          (\<lambda>payload.
        try_wrap (\<lambda>_. Errorf ''decode MCP state result: malformed result'') (decodeWireFields pw payload)
          (\<lambda>fs.
          let r = \<lparr> st_MessageID = expectedMessageID, st_ExecID = expectedExecID, st_Tools = [],
            st_IsError = False, st_Error = [] \<rparr> in
          case lastBytesField fs 1 of
            Some successPayload \<Rightarrow>
              try_then (decodeMCPStateSuccess pw successPayload) (\<lambda>tools. Inr (r\<lparr>st_Tools := tools\<rparr>))
          | None \<Rightarrow>
              first_variant pw (Errorf ''decode MCP state result: malformed failure'')
                (Errorf ''decode MCP state result: variant is unsupported'') fs mcp_state_failures
                (\<lambda>fallback failureFields. Inr (r\<lparr>st_IsError := True,
                  st_Error := fallbackString (bytesOr failureFields 1) fallback\<rparr>))))))))"

section \<open>The summary is bounded, valid text\<close>

lemma validUTF8_append: "validUTF8 a \<Longrightarrow> validUTF8 b \<Longrightarrow> validUTF8 (a @ b)"
  using runes_good [of "runes a" b] by (simp add: valid_good)

lemma valid_empty: "validUTF8 []"
  by (simp add: validUTF8_def)

lemma validUTF8_join: "validUTF8 sep \<Longrightarrow> list_all validUTF8 xs \<Longrightarrow> validUTF8 (join sep xs)"
  by (induction sep xs rule: join.induct) (auto simp: validUTF8_append valid_empty)

lemma length_join:
  "xs \<noteq> [] \<Longrightarrow> length (join sep xs) + length sep = sum_list (map length xs) + length sep * length xs"
  by (induction sep xs rule: join.induct) auto

lemma boundedMCPSection_ok:
  assumes "boundedMCPSection v limit = (section', truncated)"
  shows "validUTF8 section' \<and> int (length section') \<le> max 0 limit"
proof (cases "limit \<le> 0")
  case True
  with assms show ?thesis by (simp add: boundedMCPSection_def Let_def validUTF8_def)
next
  case False
  with assms have "section' = cut_at (nat limit) (toValidUTF8 v)"
    by (auto simp: boundedMCPSection_def Let_def cut_at_def split: if_splits)
  moreover from cut_at_correct [of "toValidUTF8 v" "nat limit"]
  have "validUTF8 (cut_at (nat limit) (toValidUTF8 v))" "length (cut_at (nat limit) (toValidUTF8 v)) \<le> nat limit"
    by simp_all
  ultimately show ?thesis using False by simp
qed

text \<open>The accumulator: valid sections, their total size below the limit, one per item.\<close>

definition summary_ok :: "nat \<Rightarrow> mcp_summary \<Rightarrow> bool" where
  "summary_ok n s \<longleftrightarrow> list_all validUTF8 (ms_sections s) \<and> length (ms_sections s) \<le> n
     \<and> ms_totalBytes s = sum_list (map length (ms_sections s)) \<and> ms_totalBytes s \<le> maxMCPResultBytes"

lemma add_section_ok:
  assumes "summary_ok n s"
  shows "summary_ok (Suc n) (add_section text s)"
proof -
  obtain section' truncated where b:
    "boundedMCPSection text (int maxMCPResultBytes - int (ms_totalBytes s)) = (section', truncated)"
    by (cases "boundedMCPSection text (int maxMCPResultBytes - int (ms_totalBytes s))")
  from boundedMCPSection_ok [OF b] assms have "validUTF8 section'"
    "ms_totalBytes s + length section' \<le> maxMCPResultBytes"
    by (auto simp: summary_ok_def)
  with assms b show ?thesis by (simp add: add_section_def summary_ok_def)
qed

lemma mcp_items_ok:
  "mcp_items pw s items = Inr s' \<Longrightarrow> summary_ok n s \<Longrightarrow> summary_ok (n + length items) s'"
proof (induction items arbitrary: s n)
  case Nil
  then show ?case by simp
next
  case (Cons item items)
  from Cons.prems(1) obtain tx where
    "s' = (add_section tx s)\<lparr>ms_truncated := True\<rparr> \<or> mcp_items pw (add_section tx s) items = Inr s'"
    by (auto simp: result_iff Let_def split: if_splits)
  moreover have step: "summary_ok (Suc n) (add_section tx s)" by (rule add_section_ok [OF Cons.prems(2)])
  ultimately show ?case using Cons.IH [of "add_section tx s" "Suc n"] by (auto simp: summary_ok_def)
qed

lemma mcp_structured_ok: "mcp_structured pw fs s = Inr s' \<Longrightarrow> summary_ok n s \<Longrightarrow> summary_ok (Suc n) s'"
  by (auto simp: mcp_structured_def result_iff add_section_ok split: option.splits if_splits)
    (auto simp: summary_ok_def)

text \<open>C39: The text of a successful MCP result handed to the model is valid UTF-8, whatever bytes the
  server answered with, and is at most 256 KiB of content plus the separators and the
  truncation note: 262144 + 195 bytes.\<close>

theorem mcp_summary_bounded:
  assumes "summarizeMCPSuccess pw payload = Inr (content, isError)"
  shows "validUTF8 content \<and> length content \<le> 262144 + 195"
proof -
  let ?note = "''[MCP result truncated by cursor-cli-byok]''"
  let ?empty = "''MCP tool completed without content''"
  from assms obtain fs s0 s1 s2 where
    "mcp_items pw s0 (take maxMCPResultItems (repeatedBytesField fs 1)) = Inr s1"
    "s0 = \<lparr> ms_sections = [], ms_totalBytes = 0, ms_truncated = maxMCPResultItems < length (repeatedBytesField fs 1) \<rparr>"
    "mcp_structured pw fs s1 = Inr s2"
    and content: "content = join [CHR 0x0A, CHR 0x0A]
      (let sections = ms_sections s2 @ (if ms_truncated s2 then [?note] else []) in
       if sections = [] then [?empty] else sections)"
    by (auto simp: summarizeMCPSuccess_def result_iff Let_def)
  moreover have "summary_ok 0 s0" using calculation(2) by (simp add: summary_ok_def)
  ultimately have "summary_ok (Suc (0 + length (take maxMCPResultItems (repeatedBytesField fs 1)))) s2"
    using mcp_items_ok mcp_structured_ok by blast
  then have s2: "list_all validUTF8 (ms_sections s2)" "length (ms_sections s2) \<le> 65"
    "sum_list (map length (ms_sections s2)) \<le> 262144"
    by (auto simp: summary_ok_def maxMCPResultItems_def maxMCPResultBytes_def)
  define sections where "sections = (let sections = ms_sections s2 @ (if ms_truncated s2 then [?note] else []) in
       if sections = [] then [?empty] else sections)"
  have "validUTF8 ?note" "validUTF8 ?empty" "validUTF8 [CHR 0x0A, CHR 0x0A]"
    by (simp_all add: ascii_utf8)
  then have "list_all validUTF8 sections" "length sections \<le> 66"
    "sum_list (map length sections) \<le> 262144 + 41"
    using s2 by (auto simp: sections_def Let_def)
  moreover have "length (join [CHR 0x0A, CHR 0x0A] sections) + 2 \<le> sum_list (map length sections) + 2 * length sections"
  proof -
    have "sections \<noteq> []" by (simp add: sections_def Let_def)
    from length_join [OF this, of "[CHR 0x0A, CHR 0x0A]"] show ?thesis by simp
  qed
  ultimately show ?thesis
    using content validUTF8_join [of "[CHR 0x0A, CHR 0x0A]" sections] \<open>validUTF8 [CHR 0x0A, CHR 0x0A]\<close>
    unfolding sections_def [symmetric] by simp
qed

theorem mcp_summary_bounded_witness:
  "validUTF8 ''hi'' \<and> length ''hi'' \<le> 262144 + 195"
proof -
  let ?payload = "bytes_entry wire_format 1 (bytes_entry wire_format 1 (bytes_entry wire_format 1 ''hi''))"
  have "summarizeMCPSuccess wire_format ?payload = Inr (''hi'', False)"
    by (simp add: summarizeMCPSuccess_def Let_def repeatedBytesField_def lastBytesField_def mcp_structured_def
        mcp_item_text_def add_section_def boundedMCPSection_def maxMCPResultItems_def maxMCPResultBytes_def
        fallbackString_def ascii_utf8 wire_concrete go_eval)
  from mcp_summary_bounded [OF this] show ?thesis .
qed

end
