(* ===== verification/Tool_Bridge.thy ===== *)
theory Tool_Bridge
  imports Tool_Read Tool_Edit Tool_Files Tool_Shell Tool_MCP
begin

text \<open>
  The bridge of \<open>tool_bridge.go\<close>: the three functions the session calls for any tool,
  dispatching on its name. A dispatched frame carries the identity of its request, a decoded
  result belongs to the request it is decoded for, and a complete result can always be shown
  as completed.
\<close>

definition EncodeToolDispatch :: "protowire \<Rightarrow> ToolRequest \<Rightarrow> ToolDispatch result" where
  "EncodeToolDispatch pw request =
     try_then (validateToolRequest request) (\<lambda>_.
       if req_Name request = ''Write'' then encodeWriteToolDispatch pw request
       else if req_Name request = ''Delete'' then encodeDeleteToolDispatch pw request
       else if req_Name request = ''List'' then encodeListToolDispatch pw request
       else if req_Name request = ''Grep'' then encodeGrepToolDispatch pw request
       else if req_Name request = ''Glob'' then encodeGlobToolDispatch pw request
       else if req_Name request = ''Shell'' then encodeShellToolDispatch pw request
       else if req_Name request = ''CallMcpTool'' then encodeMCPToolDispatch pw request
       else Inl (Errorf ''encode tool dispatch: tool is unsupported''))"

definition decode_by_name ::
  "protowire \<Rightarrow> wireField list \<Rightarrow> ToolRequest \<Rightarrow> ToolResult \<Rightarrow> ToolResult result" where
  "decode_by_name pw execFields request r =
     (if req_Name request = ''Write'' then decodeWriteToolResult pw execFields r
      else if req_Name request = ''Delete'' then decodeDeleteToolResult pw execFields r
      else if req_Name request = ''List'' then decodeListToolResult pw execFields request r
      else if req_Name request = ''Grep'' then decodeGrepToolResult pw execFields r
      else if req_Name request = ''Glob'' then decodeGlobToolResult pw execFields request r
      else if req_Name request = ''Shell'' then decodeShellToolResult pw execFields r
      else if req_Name request = ''CallMcpTool'' then decodeMCPToolResult pw execFields r
      else Inl (Errorf ''decode tool result: tool is unsupported''))"

definition DecodeToolResult :: "protowire \<Rightarrow> ClientMessage \<Rightarrow> ToolRequest \<Rightarrow> ToolResult result" where
  "DecodeToolResult pw message request =
     try_then (validateToolRequest request) (\<lambda>_.
       if Kind message \<noteq> ClientMessageExec then
         Inl (Errorf ''decode tool result: client message is not an exec result'')
       else try_then (execClientPayload pw (Raw message)) (\<lambda>execPayload.
         try_wrap (\<lambda>_. Errorf ''decode tool result: malformed exec message'')
           (decodeWireFields pw execPayload) (\<lambda>execFields.
           let messageID = (ucast (varintOr execFields 1) :: u32);
               execID = trimSpace (bytesOr execFields 15) in
           if (messageID \<noteq> 0 \<and> messageID \<noteq> req_MessageID request)
               \<or> (execID \<noteq> [] \<and> execID \<noteq> req_ExecID request) \<or> (messageID = 0 \<and> execID = []) then
             Inl (Errorf ''decode tool result: result identity does not match request'')
           else decode_by_name pw execFields request
             (new_result (req_MessageID request) (req_ExecID request) (req_Name request)))))"

definition display_by_name :: "protowire \<Rightarrow> ToolRequest \<Rightarrow> ToolResult \<Rightarrow> bytes result" where
  "display_by_name pw request r =
     (if req_Name request = ''Write'' then encodeWriteDisplayToolCall pw request (res_ResultPayload r)
      else if req_Name request = ''Delete'' then encodeDeleteDisplayToolCall pw request (res_ResultPayload r)
      else if req_Name request = ''List'' then encodeListDisplayToolCall pw request (res_ResultPayload r)
      else if req_Name request = ''Grep'' then encodeGrepDisplayToolCall pw request (res_ResultPayload r)
      else if req_Name request = ''Glob'' then encodeGlobDisplayToolCall pw request (res_ResultPayload r)
      else if req_Name request = ''Shell'' then encodeShellDisplayToolCall pw request r
      else if req_Name request = ''CallMcpTool'' then encodeMCPDisplayToolCall pw request (res_ResultPayload r)
      else Inl (Errorf ''encode tool completed: tool is unsupported''))"

definition EncodeToolCompleted :: "protowire \<Rightarrow> ToolRequest \<Rightarrow> ToolResult \<Rightarrow> bytes result" where
  "EncodeToolCompleted pw request r =
     try_then (validateToolRequest request) (\<lambda>_.
       if res_MessageID r \<noteq> req_MessageID request \<or> res_ExecID r \<noteq> req_ExecID request
           \<or> res_Name r \<noteq> req_Name request \<or> \<not> res_Complete r then
         Inl (Errorf ''encode tool completed: result does not match request'')
       else try_then (display_by_name pw request r) (\<lambda>toolCall.
         Inr (callFrame pw 3 (req_CallID request) toolCall)))"

section \<open>What a tool promises\<close>

text \<open>
  The interface of a tool: how its call is dispatched, how the client's answer is decoded, how a finished call
  is displayed, and which result is displayed for a decoded one. The laws are what the session needs of it.
\<close>

definition exec_fields :: "int set" where
  "exec_fields = {3, 4, 5, 7, 8, 11, 14}"

definition same_identity :: "ToolResult \<Rightarrow> ToolResult \<Rightarrow> bool" where
  "same_identity r r' \<longleftrightarrow> res_MessageID r' = res_MessageID r \<and> res_ExecID r' = res_ExecID r
     \<and> res_Name r' = res_Name r"

locale tool_codec =
  fixes dispatch :: "protowire \<Rightarrow> ToolRequest \<Rightarrow> ToolDispatch result"
    and decode :: "protowire \<Rightarrow> wireField list \<Rightarrow> ToolRequest \<Rightarrow> ToolResult \<Rightarrow> ToolResult result"
    and display :: "protowire \<Rightarrow> ToolRequest \<Rightarrow> ToolResult \<Rightarrow> bytes result"
    and final :: "ToolResult \<Rightarrow> ToolResult \<Rightarrow> bool"
  assumes framed: "dispatch pw request = Inr d \<Longrightarrow> \<exists>f\<in>exec_fields. \<exists>args.
      Execute d = execFrame pw (req_MessageID request) (req_ExecID request) f args"
    and identified: "decode pw fs request (new_result m e n) = Inr r \<Longrightarrow> same_identity (new_result m e n) r"
    and finished: "res_Complete r \<Longrightarrow> final r r' \<Longrightarrow> same_identity r r' \<and> res_Complete r'"
    and shown: "dispatch pw request = Inr d \<Longrightarrow> decode pw fs request (new_result m e n) = Inr r \<Longrightarrow> res_Complete r \<Longrightarrow>
      final r r' \<Longrightarrow> \<exists>toolCall. display pw request r' = Inr toolCall"
begin

text \<open>The client's echo of a dispatched frame names the request.\<close>

lemma echoed:
  assumes "protowire_spec pw" and "dispatch pw request = Inr d" and "req_MessageID request \<noteq> 0"
    and "trimSpace (req_ExecID request) = req_ExecID request" and "length (Execute d) < 2 ^ 63"
  shows "DecodeExecResultIdentity pw \<lparr> Kind = ClientMessageExec, Run = None, Raw = Execute d \<rparr>
    = Inr \<lparr> id_MessageID = req_MessageID request, id_ExecID = req_ExecID request \<rparr>"
proof -
  from framed [OF assms(2)] obtain f args where f: "f \<in> exec_fields"
    and frame: "Execute d = execFrame pw (req_MessageID request) (req_ExecID request) f args" by blast
  from f have "valid_number f" "f \<noteq> 15" by (auto simp: exec_fields_def valid_number_def)
  then show ?thesis
    using assms(3-5) frame by (intro protowire_spec.execFrame_identity [OF assms(1)]) simp_all
qed

text \<open>A complete result of a call that was dispatched can be shown, as a result of that call.\<close>

lemma completed:
  assumes "dispatch pw request = Inr d"
    and "decode pw fs request (new_result (req_MessageID request) (req_ExecID request) (req_Name request)) = Inr r"
    and "res_Complete r" and "final r r'"
  shows "res_MessageID r' = req_MessageID request \<and> res_ExecID r' = req_ExecID request \<and> res_Name r' = req_Name request
    \<and> res_Complete r' \<and> (\<exists>toolCall. display pw request r' = Inr toolCall)"
  using identified [OF assms(2)] finished [OF assms(3,4)] shown [OF assms]
  by (simp add: same_identity_def new_result_def)

end

section \<open>The tools\<close>

text \<open>Every tool's dispatch is a frame of its own exec field with the request's identity.\<close>

lemmas dispatch_defs = encodeWriteToolDispatch_def encodeDeleteToolDispatch_def encodeListToolDispatch_def
  encodeGrepToolDispatch_def encodeGlobToolDispatch_def encodeShellToolDispatch_def
  encodeMCPToolDispatch_def encodeFileToolDispatch_def toolDispatch_def

lemma dispatch_frames:
  "encodeWriteToolDispatch pw q = Inr d \<Longrightarrow> \<exists>f\<in>exec_fields. \<exists>args. Execute d = execFrame pw (req_MessageID q) (req_ExecID q) f args"
  "encodeDeleteToolDispatch pw q = Inr d \<Longrightarrow> \<exists>f\<in>exec_fields. \<exists>args. Execute d = execFrame pw (req_MessageID q) (req_ExecID q) f args"
  "encodeListToolDispatch pw q = Inr d \<Longrightarrow> \<exists>f\<in>exec_fields. \<exists>args. Execute d = execFrame pw (req_MessageID q) (req_ExecID q) f args"
  "encodeGrepToolDispatch pw q = Inr d \<Longrightarrow> \<exists>f\<in>exec_fields. \<exists>args. Execute d = execFrame pw (req_MessageID q) (req_ExecID q) f args"
  "encodeGlobToolDispatch pw q = Inr d \<Longrightarrow> \<exists>f\<in>exec_fields. \<exists>args. Execute d = execFrame pw (req_MessageID q) (req_ExecID q) f args"
  "encodeShellToolDispatch pw q = Inr d \<Longrightarrow> \<exists>f\<in>exec_fields. \<exists>args. Execute d = execFrame pw (req_MessageID q) (req_ExecID q) f args"
  "encodeMCPToolDispatch pw q = Inr d \<Longrightarrow> \<exists>f\<in>exec_fields. \<exists>args. Execute d = execFrame pw (req_MessageID q) (req_ExecID q) f args"
  by (auto simp: dispatch_defs exec_fields_def result_iff Let_def split: if_splits)

text \<open>Every decoder keeps the identity of the result it is given; only a shell's result may be incomplete.\<close>

lemma first_variant_Inr:
  "first_variant pw m u fs cs decode = Inr x \<Longrightarrow> \<exists>c vs. decode c vs = Inr x"
proof (induction cs)
  case Nil
  then show ?case by simp
next
  case (Cons fc cs)
  obtain field c where fc: "fc = (field, c)" by (cases fc)
  show ?case
  proof (cases "lastBytesField fs field")
    case None
    with Cons fc show ?thesis by simp
  next
    case (Some p)
    with Cons.prems fc have "\<exists>vs. decode c vs = Inr x" by (auto simp: try_wrap_Inr_iff)
    then show ?thesis by blast
  qed
qed

lemma failure_content_identity:
  "failure_content r c vs = Inr r' \<Longrightarrow> same_identity r r' \<and> res_Complete r' = res_Complete r"
  by (auto simp: failure_content_def withJSONContent_def same_identity_def Let_def split: prod.splits)

lemma decoders_identity:
  "decodeWriteToolResult pw fs r = Inr r' \<Longrightarrow> same_identity r r' \<and> res_Complete r'"
  "decodeDeleteToolResult pw fs r = Inr r' \<Longrightarrow> same_identity r r' \<and> res_Complete r'"
  "decodeListToolResult pw fs request r = Inr r' \<Longrightarrow> same_identity r r' \<and> res_Complete r'"
  "decodeGrepToolResult pw fs r = Inr r' \<Longrightarrow> same_identity r r' \<and> res_Complete r'"
  "decodeGlobToolResult pw fs request r = Inr r' \<Longrightarrow> same_identity r r' \<and> res_Complete r'"
  "decodeMCPToolResult pw fs r = Inr r' \<Longrightarrow> same_identity r r' \<and> res_Complete r'"
       apply (auto simp: decodeWriteToolResult_def same_identity_def Let_def result_iff
      dest!: first_variant_Inr split: option.splits prod.splits)[1]
      apply (auto simp: decodeDeleteToolResult_def same_identity_def withJSONContent_def Let_def result_iff
      dest!: first_variant_Inr failure_content_identity split: option.splits)[1]
     apply (auto simp: decodeListToolResult_def same_identity_def withJSONContent_def Let_def result_iff
      dest!: first_variant_Inr failure_content_identity split: option.splits)[1]
    apply (auto simp: decodeGrepToolResult_def decodeGlobToolResult_def decodeMCPToolResult_def
      same_identity_def withJSONContent_def Let_def result_iff)
  done

definition succeeds :: "'a result \<Rightarrow> bool" where
  "succeeds r \<longleftrightarrow> (\<exists>x. r = Inr x)"

lemma succeeds_Inr [simp]: "succeeds (Inr x)"
  by (simp add: succeeds_def)

lemma succeeds_Inl [simp]: "\<not> succeeds (Inl e)"
  by (simp add: succeeds_def)

lemma succeeds_try_then [simp]: "succeeds (try_then r k) \<longleftrightarrow> (\<exists>x. r = Inr x \<and> succeeds (k x))"
  by (auto simp: succeeds_def result_iff)

lemma succeeds_try_wrap [simp]: "succeeds (try_wrap w r k) \<longleftrightarrow> (\<exists>x. r = Inr x \<and> succeeds (k x))"
  by (auto simp: succeeds_def result_iff)

text \<open>The first variant that is present decodes; both tables look at the same fields.\<close>

fun first_decodes :: "protowire \<Rightarrow> wireField list \<Rightarrow> int list \<Rightarrow> bool" where
  "first_decodes pw ws [] = False"
| "first_decodes pw ws (n # ns) = (case lastBytesField ws n of
     None \<Rightarrow> first_decodes pw ws ns | Some p \<Rightarrow> succeeds (decodeWireFields pw p))"

lemma first_variant_decodes:
  "first_variant pw m u ws cs decode = Inr x \<Longrightarrow> first_decodes pw ws (map fst cs)"
  by (induction cs) (auto simp: result_iff succeeds_def split: option.splits)

lemma first_decodes_variant:
  "first_decodes pw ws (map fst cs) \<Longrightarrow> (\<And>c vs. succeeds (decode c vs)) \<Longrightarrow>
    succeeds (first_variant pw m u ws cs decode)"
  by (induction cs) (auto simp: succeeds_def split: option.splits)

lemma write_payload:
  assumes "decodeWriteToolResult pw fs r0 = Inr r"
  shows "\<exists>ws. decodeWireFields pw (res_ResultPayload r) = Inr ws \<and> first_decodes pw ws [1, 3, 4, 5, 6]"
proof -
  from assms obtain payload ws where p: "lastBytesField fs 3 = Some payload"
    and ws: "decodeWireFields pw payload = Inr ws"
    by (auto simp: decodeWriteToolResult_def result_iff)
  have "res_ResultPayload r = payload \<and> first_decodes pw ws [1, 3, 4, 5, 6]"
  proof (cases "lastBytesField ws 1")
    case (Some s)
    with assms p ws show ?thesis by (auto simp: decodeWriteToolResult_def result_iff Let_def succeeds_def)
  next
    case None
    with assms p ws obtain dec where
      v: "first_variant pw (Errorf ''decode tool result: malformed write failure'')
        (Errorf ''decode tool result: write result variant is unsupported'') ws write_failures dec = Inr r"
      and dec: "\<And>c vs r'. dec c vs = Inr r' \<Longrightarrow> res_ResultPayload r' = payload"
      by (fastforce simp: decodeWriteToolResult_def Let_def split: prod.splits)
    from first_variant_decodes [OF v] first_variant_Inr [OF v] dec None show ?thesis
      by (auto simp: write_failures_def)
  qed
  with ws show ?thesis by blast
qed

lemma convert_succeeds:
  assumes "decodeWireFields pw payload = Inr ws" and "first_decodes pw ws [1, 3, 4, 5, 6]"
  shows "succeeds (convertWriteResultToEditResult pw payload path)"
  using assms
  by (auto simp: convertWriteResultToEditResult_def edit_failures_def Let_def
      succeeds_def [of "decodeWireFields _ _"] split: option.splits)

lemma write_display:
  assumes "decodeWriteToolResult pw fs r0 = Inr r" and "succeeds (encodeWriteToolDispatch pw request)"
  shows "succeeds (encodeWriteDisplayToolCall pw request (res_ResultPayload r))"
proof -
  from assms(2) obtain a where "decodeWriteToolArguments (req_Arguments request) = Inr a"
    by (auto simp: encodeWriteToolDispatch_def)
  moreover obtain ws where "decodeWireFields pw (res_ResultPayload r) = Inr ws" "first_decodes pw ws [1, 3, 4, 5, 6]"
    using write_payload [OF assms(1)] by blast
  moreover from this obtain e where
    "convertWriteResultToEditResult pw (res_ResultPayload r) (wr_Path a) = Inr e"
    using convert_succeeds unfolding succeeds_def by blast
  ultimately show ?thesis by (simp add: encodeWriteDisplayToolCall_def Let_def)
qed

lemma file_display:
  "succeeds (encodeDeleteToolDispatch pw request) \<Longrightarrow> succeeds (encodeDeleteDisplayToolCall pw request p)"
  "succeeds (encodeListToolDispatch pw request) \<Longrightarrow> succeeds (encodeListDisplayToolCall pw request p)"
  "succeeds (encodeGrepToolDispatch pw request) \<Longrightarrow> succeeds (encodeGrepDisplayToolCall pw request p)"
  by (auto simp: encodeDeleteToolDispatch_def encodeDeleteDisplayToolCall_def encodeListToolDispatch_def
      encodeListDisplayToolCall_def encodeGrepToolDispatch_def encodeGrepDisplayToolCall_def)

lemma glob_display:
  assumes "decodeGlobToolResult pw fs request r0 = Inr r"
  shows "succeeds (encodeGlobDisplayToolCall pw request (res_ResultPayload r))"
  using assms
  by (auto simp: decodeGlobToolResult_def encodeGlobDisplayToolCall_def withJSONContent_def result_iff Let_def)

lemma mcp_display:
  assumes "decodeMCPToolResult pw fs r0 = Inr r" and "succeeds (encodeMCPToolDispatch pw request)"
  shows "succeeds (encodeMCPDisplayToolCall pw request (res_ResultPayload r))"
proof -
  from assms(1) obtain content err where sum: "summarizeMCPResult pw (res_ResultPayload r) = Inr (content, err)"
    by (auto simp: decodeMCPToolResult_def result_iff)
  then obtain ws where ws: "decodeWireFields pw (res_ResultPayload r) = Inr ws"
    by (auto simp: summarizeMCPResult_def result_iff)
  have "succeeds (convertMCPResultForDisplay pw (res_ResultPayload r))"
    using ws sum
    by (auto simp: convertMCPResultForDisplay_def summarizeMCPResult_def mcp_failures_def result_iff
        split: option.splits)
  then obtain c where "convertMCPResultForDisplay pw (res_ResultPayload r) = Inr c"
    unfolding succeeds_def by blast
  with assms(2) show ?thesis
    by (auto simp: encodeMCPToolDispatch_def encodeMCPDisplayToolCall_def Let_def)
qed

lemma shell_display:
  assumes "decodeShellToolResult pw fs (new_result m e n) = Inr r" and "res_Complete r"
    and "succeeds (encodeShellToolDispatch pw request)" and "res_ShellEvent r' = res_ShellEvent r"
  shows "succeeds (encodeShellDisplayToolCall pw request r')"
proof -
  from assms(3) obtain a where "decodeShellToolArguments (req_Arguments request) = Inr a"
    by (auto simp: encodeShellToolDispatch_def)
  moreover have "shell_terminal (res_ShellEvent r')"
    using shell_result_terminal [OF assms(1)] assms(2,4) by simp
  then have "succeeds (encodeShellResult pw a r')"
    by (auto simp: shell_terminal_def encodeShellResult_def Let_def split: ShellEventKind.splits)
  then obtain s where "encodeShellResult pw a r' = Inr s" unfolding succeeds_def by blast
  ultimately show ?thesis by (auto simp: encodeShellDisplayToolCall_def Let_def)
qed

lemma FinalizeShell_keeps:
  "FinalizeShellToolResult r so se t = Inr r' \<Longrightarrow> res_ShellEvent r' = res_ShellEvent r \<and> res_Complete r'
    \<and> res_MessageID r' = res_MessageID r \<and> res_ExecID r' = res_ExecID r \<and> res_Name r' = res_Name r"
  by (auto simp: FinalizeShellToolResult_def Let_def split: if_splits)

lemma shell_identity:
  "decodeShellToolResult pw fs (new_result m e n) = Inr r \<Longrightarrow> same_identity (new_result m e n) r"
  by (drule shell_result_event) (auto simp: one_shell_event_def shell_event_ok_def same_identity_def)

interpretation write_tool: tool_codec encodeWriteToolDispatch "\<lambda>pw fs q. decodeWriteToolResult pw fs"
    "\<lambda>pw q r. encodeWriteDisplayToolCall pw q (res_ResultPayload r)" "\<lambda>r r'. r' = r"
  by unfold_locales (auto simp: same_identity_def [of r r for r] dest: dispatch_frames decoders_identity
    intro: write_display [unfolded succeeds_def])

interpretation delete_tool: tool_codec encodeDeleteToolDispatch "\<lambda>pw fs q. decodeDeleteToolResult pw fs"
    "\<lambda>pw q r. encodeDeleteDisplayToolCall pw q (res_ResultPayload r)" "\<lambda>r r'. r' = r"
  by unfold_locales (auto simp: same_identity_def [of r r for r] dest: dispatch_frames decoders_identity
    intro: file_display [unfolded succeeds_def])

interpretation list_tool: tool_codec encodeListToolDispatch decodeListToolResult
    "\<lambda>pw q r. encodeListDisplayToolCall pw q (res_ResultPayload r)" "\<lambda>r r'. r' = r"
  by unfold_locales (auto simp: same_identity_def [of r r for r] dest: dispatch_frames decoders_identity
    intro: file_display [unfolded succeeds_def])

interpretation grep_tool: tool_codec encodeGrepToolDispatch "\<lambda>pw fs q. decodeGrepToolResult pw fs"
    "\<lambda>pw q r. encodeGrepDisplayToolCall pw q (res_ResultPayload r)" "\<lambda>r r'. r' = r"
  by unfold_locales (auto simp: same_identity_def [of r r for r] dest: dispatch_frames decoders_identity
    intro: file_display [unfolded succeeds_def])

interpretation glob_tool: tool_codec encodeGlobToolDispatch decodeGlobToolResult
    "\<lambda>pw q r. encodeGlobDisplayToolCall pw q (res_ResultPayload r)" "\<lambda>r r'. r' = r"
  by unfold_locales (auto simp: same_identity_def [of r r for r] dest: dispatch_frames decoders_identity
    intro: glob_display [unfolded succeeds_def])

interpretation mcp_tool: tool_codec encodeMCPToolDispatch "\<lambda>pw fs q. decodeMCPToolResult pw fs"
    "\<lambda>pw q r. encodeMCPDisplayToolCall pw q (res_ResultPayload r)" "\<lambda>r r'. r' = r"
  by unfold_locales (auto simp: same_identity_def [of r r for r] dest: dispatch_frames decoders_identity
    intro: mcp_display [unfolded succeeds_def])

text \<open>A shell's result is finalized with the output collected so far; other results are final.\<close>

interpretation shell_tool: tool_codec encodeShellToolDispatch "\<lambda>pw fs q. decodeShellToolResult pw fs"
    encodeShellDisplayToolCall "\<lambda>r r'. \<exists>stdout stderr truncated. FinalizeShellToolResult r stdout stderr truncated = Inr r'"
proof
  show "decodeShellToolResult pw fs (new_result m e n) = Inr r \<Longrightarrow> same_identity (new_result m e n) r" for pw fs m e n r
    by (rule shell_identity)
  show "\<exists>so se t. FinalizeShellToolResult r so se t = Inr r' \<Longrightarrow> same_identity r r' \<and> res_Complete r'" for r r'
    by (auto simp: same_identity_def dest: FinalizeShell_keeps)
qed (auto dest: dispatch_frames FinalizeShell_keeps intro: shell_display [unfolded succeeds_def])

definition final_result :: "ToolResult \<Rightarrow> ToolResult \<Rightarrow> bool" where
  "final_result r r' \<longleftrightarrow> (if res_Name r = ''Shell''
     then \<exists>stdout stderr truncated. FinalizeShellToolResult r stdout stderr truncated = Inr r' else r' = r)"

section \<open>The bridge\<close>

text \<open>The three functions choose the same tool for a request.\<close>

lemma bridge_chooses:
  assumes "EncodeToolDispatch pw request = Inr d"
  obtains dispatch decode display final where "tool_codec dispatch decode display final"
    and "dispatch pw request = Inr d" and "decode_by_name pw fs request = decode pw fs request"
    and "display_by_name pw request = display pw request"
    and "\<And>r r'. res_Name r = req_Name request \<Longrightarrow> final_result r r' = final r r'"
proof -
  note codecs = write_tool.tool_codec_axioms delete_tool.tool_codec_axioms list_tool.tool_codec_axioms grep_tool.tool_codec_axioms
    glob_tool.tool_codec_axioms shell_tool.tool_codec_axioms mcp_tool.tool_codec_axioms
  note bridge = EncodeToolDispatch_def decode_by_name_def [abs_def] display_by_name_def [abs_def] final_result_def
  consider "req_Name request = ''Write''" | "req_Name request = ''Delete''" | "req_Name request = ''List''" | "req_Name request = ''Grep''"
    | "req_Name request = ''Glob''" | "req_Name request = ''Shell''" | "req_Name request = ''CallMcpTool''"
    using assms by (auto simp: EncodeToolDispatch_def result_iff split: if_splits)
  then show thesis
    using assms codecs that by cases (auto simp: bridge result_iff fun_eq_iff)
qed

lemma dispatch_valid: "EncodeToolDispatch pw request = Inr d \<Longrightarrow> validateToolRequest request = Inr () \<and> req_MessageID request \<noteq> 0"
  by (auto simp: EncodeToolDispatch_def validateToolRequest_def result_iff split: if_splits)

text \<open>The exec frame of any dispatched tool names its request: read back as the client would echo
  it, it gives the message ID and the exec ID under which the session files the call.\<close>

theorem dispatch_identity:
  assumes "protowire_spec pw" and "EncodeToolDispatch pw request = Inr d"
    and "trimSpace (req_ExecID request) = req_ExecID request" and "length (Execute d) < 2 ^ 63"
  shows "DecodeExecResultIdentity pw \<lparr> Kind = ClientMessageExec, Run = None, Raw = Execute d \<rparr>
    = Inr \<lparr> id_MessageID = req_MessageID request, id_ExecID = req_ExecID request \<rparr>"
proof -
  obtain dispatch decode display final where t: "tool_codec dispatch decode display final" "dispatch pw request = Inr d"
    using bridge_chooses [OF assms(2)] by metis
  show ?thesis using tool_codec.echoed [OF t(1) assms(1) t(2)] dispatch_valid [OF assms(2)] assms(3,4) by simp
qed

definition sample_delete :: ToolRequest where
  "sample_delete = \<lparr> req_MessageID = 7, req_ExecID = ''exec-1'', req_CallID = ''call-1'',
     req_Name = ''Delete'', req_Arguments = json_object [(''path'', json_quote ''a'')] \<rparr>"

lemma sample_delete_arguments: "decodeDeleteToolArguments (req_Arguments sample_delete) = Inr ''a''"
proof -
  have "strict_fields [''path''] (json_object [(''path'', json_quote ''a'')]) = Some [(''path'', json_quote ''a'', JStr ''a'')]"
    using strict_fields_object [of "[(''path'', json_quote ''a'', JStr ''a'')]" "[''path'']"]
    by (simp add: value_text_quoted ascii_utf8)
  then show ?thesis
    by (simp add: sample_delete_def decodeDeleteToolArguments_def stringField_def hasNul_def
        trimSpace_def trim_pieces_def go_eval)
qed

lemma sample_delete_valid: "validateToolRequest sample_delete = Inr ()"
  by (simp add: sample_delete_def validateToolRequest_def validIdentifier_def trimSpace_def trim_pieces_def
      json_object_def go_eval)

lemma sample_delete_dispatch:
  "\<exists>d. EncodeToolDispatch wire_format sample_delete = Inr d \<and> length (Execute d) < 2 ^ 63"
proof -
  have "EncodeToolDispatch wire_format sample_delete = encodeDeleteToolDispatch wire_format sample_delete"
    by (simp add: EncodeToolDispatch_def sample_delete_valid) (simp add: sample_delete_def)
  then obtain d where d: "EncodeToolDispatch wire_format sample_delete = Inr d"
    and ex: "Execute d = execFrame wire_format 7 ''exec-1'' 4 (pathAndCall wire_format ''a'' 2 ''call-1'')"
    using sample_delete_arguments
    by (simp add: encodeDeleteToolDispatch_def encodeFileToolDispatch_def toolDispatch_def Let_def)
      (simp add: sample_delete_def)
  have "length (Execute d) < 2 ^ 63"
    unfolding ex by (simp add: execFrame_def pathAndCall_def Let_def wire_concrete)
  with d show ?thesis by blast
qed

theorem dispatch_identity_witness:
  "\<exists>d. EncodeToolDispatch wire_format sample_delete = Inr d
    \<and> DecodeExecResultIdentity wire_format \<lparr> Kind = ClientMessageExec, Run = None, Raw = Execute d \<rparr>
      = Inr \<lparr> id_MessageID = 7, id_ExecID = ''exec-1'' \<rparr>"
proof -
  obtain d where d: "EncodeToolDispatch wire_format sample_delete = Inr d" "length (Execute d) < 2 ^ 63"
    using sample_delete_dispatch by blast
  have "trimSpace (req_ExecID sample_delete) = req_ExecID sample_delete"
    by (simp add: sample_delete_def trimSpace_def trim_pieces_def go_eval)
  from dispatch_identity [OF wire_format.protowire_spec_axioms d(1) this d(2)] d(1) show ?thesis
    by (simp add: sample_delete_def)
qed

section \<open>The identity of a decoded result\<close>

lemma decode_by_name_identity:
  assumes "decode_by_name pw fs request (new_result m e (req_Name request)) = Inr r"
  shows "same_identity (new_result m e (req_Name request)) r \<and> (req_Name request \<noteq> ''Shell'' \<longrightarrow> res_Complete r)"
  using assms by (auto simp: decode_by_name_def dest: shell_identity decoders_identity split: if_splits)

lemma DecodeToolResult_cases:
  assumes "DecodeToolResult pw message request = Inr r"
  obtains execPayload execFields where "validateToolRequest request = Inr ()"
    and "Kind message = ClientMessageExec" "execClientPayload pw (Raw message) = Inr execPayload"
    and "decodeWireFields pw execPayload = Inr execFields"
    and "ucast (varintOr execFields 1) \<in> {0, req_MessageID request}"
    and "trimSpace (bytesOr execFields 15) \<in> {[], req_ExecID request}"
    and "ucast (varintOr execFields 1) \<noteq> (0 :: u32) \<or> trimSpace (bytesOr execFields 15) \<noteq> []"
    and "decode_by_name pw execFields request
      (new_result (req_MessageID request) (req_ExecID request) (req_Name request)) = Inr r"
  using assms
  by (auto simp: DecodeToolResult_def result_iff Let_def split: if_splits)

lemma tool_result_id:
  assumes "DecodeToolResult pw message request = Inr r"
  shows "(\<exists>identity. DecodeExecResultIdentity pw message = Inr identity
      \<and> id_MessageID identity \<in> {0, req_MessageID request} \<and> id_ExecID identity \<in> {[], req_ExecID request}
      \<and> \<not> (id_MessageID identity = 0 \<and> id_ExecID identity = []))
    \<and> res_MessageID r = req_MessageID request \<and> res_ExecID r = req_ExecID request
    \<and> res_Name r = req_Name request \<and> (req_Name request \<noteq> ''Shell'' \<longrightarrow> res_Complete r)"
proof -
  from assms obtain execPayload execFields where *: "Kind message = ClientMessageExec"
    "execClientPayload pw (Raw message) = Inr execPayload" "decodeWireFields pw execPayload = Inr execFields"
    "ucast (varintOr execFields 1) \<in> {0, req_MessageID request}"
    "trimSpace (bytesOr execFields 15) \<in> {[], req_ExecID request}"
    "ucast (varintOr execFields 1) \<noteq> (0 :: u32) \<or> trimSpace (bytesOr execFields 15) \<noteq> []"
    and dec: "decode_by_name pw execFields request
      (new_result (req_MessageID request) (req_ExecID request) (req_Name request)) = Inr r"
    by (rule DecodeToolResult_cases) blast
  from * have "DecodeExecResultIdentity pw message = Inr \<lparr> id_MessageID = ucast (varintOr execFields 1),
      id_ExecID = trimSpace (bytesOr execFields 15) \<rparr>"
    by (auto simp: DecodeExecResultIdentity_def Let_def)
  with * decode_by_name_identity [OF dec] show ?thesis
    by (auto simp: same_identity_def new_result_def)
qed

text \<open>A client message decodes as the result of a request only if the identity it carries is
  compatible with that request (it names the request's message ID or its exec ID, and
  neither names another one); the result has the request's identity and name, and is
  complete except for the running events of a shell.\<close>

theorem tool_result_identity:
  assumes "DecodeToolResult pw message request = Inr r"
  shows "(\<exists>identity. DecodeExecResultIdentity pw message = Inr identity
      \<and> id_MessageID identity \<in> {0, req_MessageID request} \<and> id_ExecID identity \<in> {[], req_ExecID request}
      \<and> \<not> (id_MessageID identity = 0 \<and> id_ExecID identity = []))
    \<and> res_MessageID r = req_MessageID request \<and> res_ExecID r = req_ExecID request
    \<and> res_Name r = req_Name request \<and> (req_Name request \<noteq> ''Shell'' \<longrightarrow> res_Complete r)"
  using assms by (rule tool_result_id)

text \<open>The client's answer that the file was deleted.\<close>

definition sample_answer :: ClientMessage where
  "sample_answer = \<lparr> Kind = ClientMessageExec, Run = None,
     Raw = bytes_entry wire_format 2 (varint_entry wire_format 1 7
       @ bytes_entry wire_format 4 (bytes_entry wire_format 1 (bytes_entry wire_format 1 ''a''))) \<rparr>"

lemma sample_answer_decodes:
  "\<exists>r. DecodeToolResult wire_format sample_answer sample_delete = Inr r"
proof -
  have req: "req_MessageID sample_delete = 7" "req_Name sample_delete = ''Delete''"
    by (simp_all add: sample_delete_def)
  show ?thesis
    by (simp add: DecodeToolResult_def sample_delete_valid req sample_answer_def execClientPayload_def
        decode_by_name_def decodeDeleteToolResult_def withJSONContent_def Let_def wire_concrete)
qed

theorem tool_result_identity_witness:
  "\<exists>r. DecodeToolResult wire_format sample_answer sample_delete = Inr r
    \<and> res_MessageID r = 7 \<and> res_ExecID r = ''exec-1'' \<and> res_Complete r"
proof -
  obtain r where r: "DecodeToolResult wire_format sample_answer sample_delete = Inr r"
    using sample_answer_decodes by blast
  from tool_result_identity [OF r] r show ?thesis by (auto simp: sample_delete_def)
qed

section \<open>A complete result can always be shown\<close>

lemma completion_ok:
  assumes "EncodeToolDispatch pw request = Inr d" and "DecodeToolResult pw message request = Inr r"
    and "res_Complete r" and "final_result r r'"
  shows "\<exists>completed. EncodeToolCompleted pw request r' = Inr completed"
proof -
  from assms(2) obtain fs where dec: "decode_by_name pw fs request
      (new_result (req_MessageID request) (req_ExecID request) (req_Name request)) = Inr r"
    by (rule DecodeToolResult_cases) blast
  obtain dispatch decode display final where t: "tool_codec dispatch decode display final" "dispatch pw request = Inr d"
    "decode_by_name pw fs request = decode pw fs request" "display_by_name pw request = display pw request"
    "\<And>r r'. res_Name r = req_Name request \<Longrightarrow> final_result r r' = final r r'"
    using bridge_chooses [OF assms(1), of fs] by metis
  have "final r r'" using assms(4) t(5) tool_result_id [OF assms(2)] by simp
  from tool_codec.completed [OF t(1,2) dec [unfolded t(3)] assms(3) this] show ?thesis
    using dispatch_valid [OF assms(1)] t(4) by (auto simp: EncodeToolCompleted_def)
qed

text \<open>C38: When a tool was dispatched and a client message decodes as its complete result, the
  completed call can be shown: encoding the completion cannot fail, whatever variant of
  result the client sent, so the session never has to drop a result it accepted.\<close>

theorem completion_never_fails:
  assumes "EncodeToolDispatch pw request = Inr d" and "DecodeToolResult pw message request = Inr r"
    and "res_Complete r" and "final_result r r'"
  shows "\<exists>completed. EncodeToolCompleted pw request r' = Inr completed"
  using assms by (rule completion_ok)

theorem completion_never_fails_witness:
  "\<exists>r completed. DecodeToolResult wire_format sample_answer sample_delete = Inr r
    \<and> EncodeToolCompleted wire_format sample_delete r = Inr completed"
proof -
  obtain r where r: "DecodeToolResult wire_format sample_answer sample_delete = Inr r"
    using sample_answer_decodes by blast
  obtain d where d: "EncodeToolDispatch wire_format sample_delete = Inr d" using sample_delete_dispatch by blast
  have "res_Name r = ''Delete''" "res_Complete r"
    using tool_result_id [OF r] by (simp_all add: sample_delete_def)
  then have "final_result r r" by (simp add: final_result_def)
  from completion_never_fails [OF d r \<open>res_Complete r\<close> this] r show ?thesis by blast
qed

end
