(* ===== verification/Tool_Catalog.thy ===== *)
theory Tool_Catalog
  imports Provider
begin

text \<open>
  The built-in tools of \<open>tools/catalog.go\<close> with their JSON schemas, and their selection by
  name. Every built-in tool passes the provider's validation, and so does any selection.
\<close>

definition tool :: "string \<Rightarrow> string \<Rightarrow> string \<Rightarrow> Tool" where
  "tool name description parameters =
     \<lparr> t_Name = name, t_Description = description, t_Parameters = parameters \<rparr>"

definition builtinTools :: "Tool list" where
  \<open>builtinTools = [
     tool ''Read'' ''Read a UTF-8 file''
       ''{"type":"object","properties":{"path":{"type":"string"},"offset":{"type":"integer","minimum":0},"limit":{"type":"integer","minimum":1}},"required":["path"],"additionalProperties":false}'',
     tool ''Write'' ''Write a complete file''
       ''{"type":"object","properties":{"path":{"type":"string"},"contents":{"type":"string"}},"required":["path","contents"],"additionalProperties":false}'',
     tool ''Edit'' ''Replace text in a file''
       ''{"type":"object","properties":{"path":{"type":"string"},"old_string":{"type":"string"},"new_string":{"type":"string"},"replace_all":{"type":"boolean"}},"required":["path","old_string","new_string"],"additionalProperties":false}'',
     tool ''Delete'' ''Delete a file''
       ''{"type":"object","properties":{"path":{"type":"string"}},"required":["path"],"additionalProperties":false}'',
     tool ''List'' ''List a directory''
       ''{"type":"object","properties":{"path":{"type":"string"},"depth":{"type":"integer","minimum":1}},"required":["path"],"additionalProperties":false}'',
     tool ''Glob'' ''Find files matching a glob''
       ''{"type":"object","properties":{"glob_pattern":{"type":"string"},"target_directory":{"type":"string"}},"required":["glob_pattern"],"additionalProperties":false}'',
     tool ''Grep'' ''Search file contents''
       ''{"type":"object","properties":{"pattern":{"type":"string"},"path":{"type":"string"},"glob":{"type":"string"},"output_mode":{"type":"string","enum":["content","files_with_matches","count"]}},"required":["pattern"],"additionalProperties":false}'',
     tool ''Shell'' ''Run a shell command''
       ''{"type":"object","properties":{"command":{"type":"string"},"description":{"type":"string"},"working_directory":{"type":"string"},"block_until_ms":{"type":"number","minimum":0}},"required":["command"],"additionalProperties":false}'',
     tool ''CallMcpTool'' ''Call a configured MCP tool''
       ''{"type":"object","properties":{"server":{"type":"string"},"tool_name":{"type":"string"},"arguments":{"type":"object"}},"required":["server","tool_name","arguments"],"additionalProperties":false}'']\<close>

definition cloneTool :: "Tool \<Rightarrow> Tool" where
  "cloneTool item = item"

definition cloneTools :: "Tool list \<Rightarrow> Tool list" where
  "cloneTools items = map cloneTool items"

definition BuiltinCatalog :: "Tool list" where
  "BuiltinCatalog = cloneTools builtinTools"

definition Select :: "string list \<Rightarrow> Tool list result" where
  "Select names =
     (let byName = map_of (map (\<lambda>item. (t_Name item, item)) (rev builtinTools)) in
      try_then (foldM (\<lambda>(selected, seen) name.
        case byName name of
          None \<Rightarrow> Inl (Errorf ''select tools: unsupported tool name'')
        | Some item \<Rightarrow>
            if name \<in> set seen then Inl (Errorf ''select tools: duplicate tool name'')
            else Inr (selected @ [cloneTool item], name # seen)) ([], []) names)
      (\<lambda>(selected, _). Inr selected))"

lemma catalog_eq: "BuiltinCatalog = builtinTools"
  by (simp add: BuiltinCatalog_def cloneTools_def cloneTool_def [abs_def])

lemma builtin_name_list:
  "map t_Name builtinTools =
     [''Read'', ''Write'', ''Edit'', ''Delete'', ''List'', ''Glob'', ''Grep'', ''Shell'', ''CallMcpTool'']"
  by (simp add: builtinTools_def tool_def)

lemma builtin_names: "distinct (map t_Name builtinTools)"
  by (simp add: builtin_name_list)

lemma object_ok:
  "json_value n 0 s = Some (JObj ms, []) \<Longrightarrow> validJSONObject s"
  using json_parse_fuel [of n s "JObj ms" "[]"] by (simp add: validJSONObject_def json_single_def skip_ws_def)

definition object_text :: "string \<Rightarrow> bool" where
  "object_text s \<longleftrightarrow> (case json_value 20 0 s of None \<Rightarrow> False
     | Some (v, r) \<Rightarrow> r = [] \<and> (case v of JObj ms \<Rightarrow> True | _ \<Rightarrow> False))"

lemma object_text_ok: "object_text s \<Longrightarrow> validJSONObject s"
  by (auto simp: object_text_def intro: object_ok split: option.split_asm json.split_asm)

text \<open>Bounds on bytes and on the nesting depth, read off in binary when a text is evaluated.\<close>

definition byte_below_32 :: "char \<Rightarrow> bool" where
  "byte_below_32 c \<longleftrightarrow> byte_val c < 32"

definition byte_below_128 :: "char \<Rightarrow> bool" where
  "byte_below_128 c \<longleftrightarrow> byte_val c < 128"

lemma byte_below_code [code]:
  "byte_below_32 (Char b0 b1 b2 b3 b4 b5 b6 b7) \<longleftrightarrow> \<not> b5 \<and> \<not> b6 \<and> \<not> b7"
  "byte_below_128 (Char b0 b1 b2 b3 b4 b5 b6 b7) \<longleftrightarrow> \<not> b7"
  by (cases b0; cases b1; cases b2; cases b3; cases b4; cases b5; cases b6; cases b7;
      simp add: byte_below_32_def byte_below_128_def)+

lemma byte_below_unfold [code_unfold]:
  "byte_val c < 32 \<longleftrightarrow> byte_below_32 c"
  "byte_val c < 128 \<longleftrightarrow> byte_below_128 c"
  "max_nesting \<le> d \<longleftrightarrow> (10000::int) \<le> int d"
  by (simp_all add: byte_below_32_def byte_below_128_def max_nesting_def)

lemma builtin_text:
  "object_text (t_Parameters (builtinTools ! 0))"
  "object_text (t_Parameters (builtinTools ! 1))"
  "object_text (t_Parameters (builtinTools ! 2))"
  "object_text (t_Parameters (builtinTools ! 3))"
  "object_text (t_Parameters (builtinTools ! 4))"
  "object_text (t_Parameters (builtinTools ! 5))"
  "object_text (t_Parameters (builtinTools ! 6))"
  "object_text (t_Parameters (builtinTools ! 7))"
  "object_text (t_Parameters (builtinTools ! 8))"
  by code_simp+

lemma builtin_ok: "list_all tool_ok builtinTools"
proof -
  have "list_all (\<lambda>t. toolNamePattern (t_Name t)) builtinTools" by code_simp
  moreover have "list_all (\<lambda>t. object_text (t_Parameters t)) builtinTools"
    using builtin_text by (simp add: builtinTools_def)
  ultimately show ?thesis by (auto simp: list_all_iff tool_ok_def object_text_ok)
qed

section \<open>Selecting tools\<close>

lemma select_fold:
  "foldM (\<lambda>(selected, seen) name. case m name of
       None \<Rightarrow> Inl e1
     | Some item \<Rightarrow> if name \<in> set seen then Inl e2 else Inr (selected @ [cloneTool item], name # seen))
     (selected, seen) names = Inr r \<longleftrightarrow>
   distinct names \<and> set names \<inter> set seen = {} \<and> set names \<subseteq> dom m
     \<and> r = (selected @ map (\<lambda>n. the (m n)) names, rev names @ seen)"
proof (induction names arbitrary: selected seen)
  case Nil
  then show ?case by auto
next
  case (Cons n names)
  show ?case
  proof (cases "m n")
    case None
    then show ?thesis by auto
  next
    case (Some item)
    then show ?thesis using Cons.IH by (auto simp: cloneTool_def)
  qed
qed

lemma by_name:
  "map_of (map (\<lambda>item. (t_Name item, item)) (rev builtinTools)) n = Some item
     \<longleftrightarrow> item \<in> set builtinTools \<and> t_Name item = n"
proof -
  have "distinct (map fst (map (\<lambda>item. (t_Name item, item)) (rev builtinTools)))"
    using builtin_names by (simp add: comp_def rev_map [symmetric])
  from map_of_eq_Some_iff [OF this] show ?thesis by auto
qed

lemma map_the_iff:
  assumes "\<And>n y. m n = Some y \<longleftrightarrow> y \<in> A \<and> f y = n"
  shows "set ns \<subseteq> dom m \<and> ys = map (\<lambda>n. the (m n)) ns \<longleftrightarrow> map f ys = ns \<and> set ys \<subseteq> A"
proof (induction ns arbitrary: ys)
  case Nil
  then show ?case by auto
next
  case (Cons n ns)
  show ?case
  proof (cases "m n")
    case None
    then have "\<not> (y \<in> A \<and> f y = n)" for y using assms by (metis option.distinct(1))
    with None show ?thesis by (cases ys) (auto simp: domIff)
  next
    case (Some y)
    then have "y' \<in> A \<and> f y' = n \<longleftrightarrow> y' = y" for y' using assms by (metis option.inject)
    with Some show ?thesis using Cons.IH [of "tl ys"] by (cases ys) (auto simp: domIff)
  qed
qed

text \<open>Selecting built-in tools succeeds exactly for distinct names of built-in tools, and returns the
  tool of each name, in the order asked for, without changing it; the first offending name is an
  error.\<close>

theorem select_correct:
  "Select names = Inr ts \<longleftrightarrow> distinct names \<and> map t_Name ts = names \<and> set ts \<subseteq> set builtinTools"
proof -
  have "Select names = Inr ts \<longleftrightarrow> distinct names \<and> set names \<subseteq>
      dom (map_of (map (\<lambda>item. (t_Name item, item)) (rev builtinTools)))
      \<and> ts = map (\<lambda>n. the (map_of (map (\<lambda>item. (t_Name item, item)) (rev builtinTools)) n)) names"
    by (simp add: Select_def Let_def result_iff select_fold) blast
  then show ?thesis using map_the_iff [OF by_name, of names ts] by blast
qed

text \<open>Tools of the catalogue are no reason to refuse a request.\<close>

lemma catalog_tools_pass:
  assumes "set ts \<subseteq> set builtinTools" and "distinct (map t_Name ts)"
  shows "Request_Validate (request\<lparr>rq_Tools := ts\<rparr>) = Request_Validate (request\<lparr>rq_Tools := []\<rparr>)"
proof -
  have "list_all tool_ok ts" using assms(1) builtin_ok by (auto simp: list_all_iff)
  then have "\<exists>seen. foldM validate_tool [] ts = Inr seen" using assms(2) validate_tools_ok [of "[]" ts] by auto
  then show ?thesis by (auto simp: Request_Validate_def)
qed

lemma select_ok_iff: "(\<exists>tools. Select names = Inr tools) \<longleftrightarrow> distinct names \<and> set names \<subseteq> t_Name ` set builtinTools"
proof
  assume "\<exists>tools. Select names = Inr tools"
  then show "distinct names \<and> set names \<subseteq> t_Name ` set builtinTools" by (fastforce simp: select_correct)
next
  assume n: "distinct names \<and> set names \<subseteq> t_Name ` set builtinTools"
  then have "\<forall>n\<in>set names. \<exists>t. t \<in> set builtinTools \<and> t_Name t = n" by auto
  from bchoice [OF this] obtain pick where "\<forall>n\<in>set names. pick n \<in> set builtinTools \<and> t_Name (pick n) = n" by blast
  then have "Select names = Inr (map pick names)" using n by (auto simp: select_correct map_idI)
  then show "\<exists>tools. Select names = Inr tools" by blast
qed

text \<open>C40: The built-in tools can be offered to any provider. A selection succeeds exactly for names of the nine built-in tools
  without a repetition, and gives the catalogue's tool of each name in the order asked for; and tools so selected, as well as the
  whole catalogue, never make a request invalid: the validation says of the request with them what it says of it without any.\<close>

theorem builtin_catalog_valid:
  "((\<exists>tools. Select names = Inr tools) \<longleftrightarrow> distinct names \<and> set names \<subseteq>
      {''Read'', ''Write'', ''Edit'', ''Delete'', ''List'', ''Glob'', ''Grep'', ''Shell'', ''CallMcpTool''})
   \<and> (\<forall>tools. Select names = Inr tools \<longrightarrow> map t_Name tools = names \<and> set tools \<subseteq> set BuiltinCatalog
        \<and> Request_Validate (request\<lparr>rq_Tools := tools\<rparr>) = Request_Validate (request\<lparr>rq_Tools := []\<rparr>))
   \<and> Request_Validate (request\<lparr>rq_Tools := BuiltinCatalog\<rparr>) = Request_Validate (request\<lparr>rq_Tools := []\<rparr>)"
proof -
  have names: "t_Name ` set builtinTools = {''Read'', ''Write'', ''Edit'', ''Delete'', ''List'', ''Glob'', ''Grep'', ''Shell'', ''CallMcpTool''}"
    using arg_cong [OF builtin_name_list, of set] by (simp only: set_map list.set)
  have "map t_Name tools = names \<and> set tools \<subseteq> set BuiltinCatalog
      \<and> Request_Validate (request\<lparr>rq_Tools := tools\<rparr>) = Request_Validate (request\<lparr>rq_Tools := []\<rparr>)" if "Select names = Inr tools" for tools
    using that catalog_tools_pass [of tools request] by (auto simp: select_correct catalog_eq)
  moreover have "Request_Validate (request\<lparr>rq_Tools := BuiltinCatalog\<rparr>) = Request_Validate (request\<lparr>rq_Tools := []\<rparr>)"
    unfolding catalog_eq by (rule catalog_tools_pass [OF order_refl builtin_names])
  moreover note select_ok_iff [of names, unfolded names]
  ultimately show ?thesis by blast
qed

definition validation_sample :: Request where
  "validation_sample = \<lparr> rq_Model = ''m'', rq_Messages =
     [\<lparr> m_Role = RoleUser, m_Content = ''hi'', m_ToolCalls = [], m_ToolCallID = [] \<rparr>], rq_Tools = [] \<rparr>"

lemma validation_sample_ok: "Request_Validate (validation_sample\<lparr>rq_Tools := []\<rparr>) = Inr ()"
proof -
  have "validBoundedText ''m'' 1024" by code_simp
  then show ?thesis by (simp add: result_iff validation_sample_def)
qed

theorem builtin_catalog_valid_witness:
  "\<exists>tools. Select [''Shell'', ''Read''] = Inr tools \<and> map t_Name tools = [''Shell'', ''Read'']
     \<and> Request_Validate (validation_sample\<lparr>rq_Tools := tools\<rparr>) = Inr ()"
  using builtin_catalog_valid [of "[''Shell'', ''Read'']" validation_sample] by (auto simp: validation_sample_ok)

end
