(* ===== verification/Config_Types.thy ===== *)
theory Config_Types
  imports Client_Message
begin

text \<open>
  The configuration of \<open>config/types.go\<close>: models and the model a run resolves to.
\<close>

section \<open>Data\<close>

record ResolvedModel =
  rm_Name :: string
  rm_Protocol :: string
  rm_BaseURL :: string
  rm_Endpoint :: string
  rm_APIKey :: string
  rm_Headers :: "(string \<times> string) list"
  rm_UpstreamModel :: string

end
