(* ===== verification/Config_Validate.thy ===== *)
theory Config_Validate
  imports Config_Types Go_Url
begin

text \<open>
  \<open>config/types.go\<close>: the configuration, its validation, and the resolution of a model with its
  secret. A map is the list of its entries in the order an iteration takes them.
\<close>

section \<open>Data\<close>

definition CurrentVersion :: int where "CurrentVersion = 1"
definition ProtocolOpenAI :: string where "ProtocolOpenAI = ''openai''"
definition EndpointResponses :: string where "EndpointResponses = ''/v1/responses''"
definition EndpointChatCompletions :: string where "EndpointChatCompletions = ''/v1/chat/completions''"
definition reservedDaemonLockEnv :: string where "reservedDaemonLockEnv = ''CURSOR_CLI_BYOK_LOCK_FD''"

record Model =
  mc_Name :: string
  mc_Protocol :: string
  mc_BaseURL :: string
  mc_Endpoint :: string
  mc_APIKey :: string
  mc_APIKeyEnv :: string
  mc_Headers :: "(string \<times> string) list"
  mc_UpstreamModel :: string

record Config =
  cf_Version :: int
  cf_DefaultModel :: string
  cf_Models :: "Model list"

section \<open>Printing\<close>

definition redacted_headers :: "(string \<times> string) list \<Rightarrow> string" where
  "redacted_headers headers = ''[REDACTED:'' @ show_nat (length headers) @ '']''"

definition Model_String :: "Model \<Rightarrow> string" where
  "Model_String m =
     (let apiKey = (if mc_APIKey m \<noteq> [] then ''[REDACTED]'' else []);
          headers = (if mc_Headers m \<noteq> [] then redacted_headers (mc_Headers m) else ''[]'') in
      ''Model{Name:'' @ go_quote (mc_Name m) @ '' Protocol:'' @ go_quote (mc_Protocol m)
      @ '' BaseURL:'' @ go_quote (mc_BaseURL m) @ '' Endpoint:'' @ go_quote (mc_Endpoint m)
      @ '' APIKey:'' @ go_quote apiKey @ '' APIKeyEnv:'' @ go_quote (mc_APIKeyEnv m)
      @ '' Headers:'' @ headers @ '' UpstreamModel:'' @ go_quote (mc_UpstreamModel m) @ ''}'')"

definition Config_String :: "Config \<Rightarrow> string" where
  "Config_String c = ''Config{Version:'' @ show_int (cf_Version c) @ '' DefaultModel:'' @ go_quote (cf_DefaultModel c)
     @ '' Models:['' @ join '', '' (map Model_String (cf_Models c)) @ '']}''"

definition ResolvedModel_String :: "ResolvedModel \<Rightarrow> string" where
  "ResolvedModel_String m =
     ''ResolvedModel{Name:'' @ go_quote (rm_Name m) @ '' Protocol:'' @ go_quote (rm_Protocol m)
      @ '' BaseURL:'' @ go_quote (rm_BaseURL m) @ '' Endpoint:'' @ go_quote (rm_Endpoint m)
      @ '' APIKey:'' @ go_quote ''[REDACTED]'' @ '' Headers:'' @ redacted_headers (rm_Headers m)
      @ '' UpstreamModel:'' @ go_quote (rm_UpstreamModel m) @ ''}''"

section \<open>Headers\<close>

definition hasPadding :: "string \<Rightarrow> bool" where
  "hasPadding v \<longleftrightarrow> v \<noteq> trimSpace v"

definition hasControlCharacters :: "string \<Rightarrow> bool" where
  "hasControlCharacters v \<longleftrightarrow> hasControl v"

definition header_char :: "char \<Rightarrow> bool" where
  "header_char c \<longleftrightarrow> is_alnum c \<or> c \<in> set ''!#$%&*+-.^_`|~'' \<or> byte_val c = 39"

definition validHTTPHeaderName :: "string \<Rightarrow> bool" where
  "validHTTPHeaderName name \<longleftrightarrow> list_all header_char name"

definition reservedProviderHeaders :: "string list" where
  "reservedProviderHeaders = [''accept'', ''authorization'', ''connection'', ''content-length'', ''content-type'', ''host'',
     ''keep-alive'', ''proxy-authorization'', ''proxy-connection'', ''te'', ''trailer'', ''transfer-encoding'', ''upgrade'']"

text \<open>\<open>strings.ToLower\<close> of a name of header characters, which are ASCII.\<close>

definition lower_name :: "string \<Rightarrow> string" where
  "lower_name name = map lower_ascii_char name"

fun validate_headers :: "string list \<Rightarrow> (string \<times> string) list \<Rightarrow> unit result" where
  "validate_headers seen [] = Inr ()"
| "validate_headers seen ((name, v) # headers) =
     (let lowerName = lower_name name in
      if name = [] \<or> hasPadding name \<or> \<not> validHTTPHeaderName name then Inl (Errorf ''provider header name is invalid'')
      else if lowerName \<in> set reservedProviderHeaders then
        Inl (Errorf (''provider header '' @ go_quote name @ '' is reserved''))
      else if lowerName \<in> set seen then Inl (Errorf (''provider header '' @ go_quote name @ '' is duplicated''))
      else if hasPadding v \<or> hasControlCharacters v then
        Inl (Errorf (''provider header '' @ go_quote name @ '' value is invalid''))
      else validate_headers (lowerName # seen) headers)"

definition ValidateProviderHeaders :: "(string \<times> string) list \<Rightarrow> unit result" where
  "ValidateProviderHeaders headers = validate_headers [] headers"

definition cloneProviderHeaders :: "(string \<times> string) list \<Rightarrow> (string \<times> string) list" where
  "cloneProviderHeaders headers = (if headers = [] then [] else map (\<lambda>(name, v). (name, v)) headers)"

lemma cloneProviderHeaders_id [simp]: "cloneProviderHeaders headers = headers"
  by (simp add: cloneProviderHeaders_def)

section \<open>Validation\<close>

definition isLoopbackProviderHost :: "string \<Rightarrow> bool" where
  "isLoopbackProviderHost host \<longleftrightarrow>
     fold_name host = ''localhost'' \<or> (case parseIP host of None \<Rightarrow> False | Some ip \<Rightarrow> ip_IsLoopback ip)"

text \<open>\<open>^[A-Za-z_][A-Za-z0-9_]*$\<close>\<close>

definition shellEnvironmentName :: "string \<Rightarrow> bool" where
  "shellEnvironmentName name \<longleftrightarrow> name \<noteq> [] \<and> (is_alpha (hd name) \<or> hd name = CHR ''_'')
     \<and> list_all (\<lambda>c. is_alnum c \<or> c = CHR ''_'') (tl name)"

definition invalid :: "string \<Rightarrow> unit result" where
  "invalid problem = Inl (Errorf (''validate config: '' @ problem))"

definition validate_base_url :: "string \<Rightarrow> unit result" where
  "validate_base_url raw =
     (let absolute = invalid ''model base_url must be an absolute HTTP or HTTPS URL with a host'' in
      case url_Parse raw of
        None \<Rightarrow> absolute
      | Some baseURL \<Rightarrow>
          if \<not> url_IsAbs baseURL \<or> url_Host baseURL = []
            \<or> url_Scheme baseURL \<noteq> ''http'' \<and> url_Scheme baseURL \<noteq> ''https'' then absolute
          else if url_User baseURL \<or> url_RawQuery baseURL \<noteq> [] \<or> url_ForceQuery baseURL \<or> url_Fragment baseURL \<noteq> [] then
            invalid ''model base_url must not contain userinfo, query, or fragment components''
          else if url_Scheme baseURL = ''http'' \<and> \<not> isLoopbackProviderHost (url_Hostname baseURL) then
            invalid ''model base_url must use HTTPS unless the host is loopback''
          else Inr ())"

definition validate_keys :: "Model \<Rightarrow> unit result" where
  "validate_keys m =
     (let inlineKeySet = (trimSpace (mc_APIKey m) \<noteq> []); environmentKeySet = (mc_APIKeyEnv m \<noteq> []) in
      if mc_APIKeyEnv m \<noteq> [] \<and> hasPadding (mc_APIKeyEnv m) then
        invalid ''model api_key_env must not contain surrounding whitespace''
      else if inlineKeySet = environmentKeySet then invalid ''exactly one of api_key or api_key_env is required''
      else if mc_APIKeyEnv m \<noteq> [] \<and> \<not> shellEnvironmentName (mc_APIKeyEnv m) then
        invalid ''model api_key_env is not a valid environment variable name''
      else if mc_APIKeyEnv m = reservedDaemonLockEnv then
        invalid ''model api_key_env conflicts with an internal runtime variable''
      else Inr ())"

definition validate_model :: "string list \<Rightarrow> Model \<Rightarrow> unit result" where
  "validate_model names m =
     (if mc_Name m = [] then invalid ''model name is required''
      else if hasPadding (mc_Name m) then invalid ''model name must not contain surrounding whitespace''
      else if hasControlCharacters (mc_Name m) then invalid ''model name must not contain control characters''
      else if mc_Name m \<in> set names then invalid ''duplicate model name''
      else if mc_Protocol m = [] then invalid ''model protocol is required''
      else if hasPadding (mc_Protocol m) then invalid ''model protocol must not contain surrounding whitespace''
      else if mc_Protocol m \<noteq> ProtocolOpenAI then invalid ''model protocol is unsupported''
      else if mc_BaseURL m = [] then invalid ''model base_url is required''
      else if hasPadding (mc_BaseURL m) then invalid ''model base_url must not contain surrounding whitespace''
      else try_then (validate_base_url (mc_BaseURL m)) (\<lambda>_.
        if mc_Endpoint m = [] then invalid ''model endpoint is required''
        else if hasPadding (mc_Endpoint m) then invalid ''model endpoint must not contain surrounding whitespace''
        else if mc_Endpoint m \<noteq> EndpointResponses \<and> mc_Endpoint m \<noteq> EndpointChatCompletions then
          invalid ''model endpoint is unsupported''
        else if mc_UpstreamModel m = [] then invalid ''model upstream_model is required''
        else if hasPadding (mc_UpstreamModel m) then
          invalid ''model upstream_model must not contain surrounding whitespace''
        else if hasControlCharacters (mc_UpstreamModel m) then
          invalid ''model upstream_model must not contain control characters''
        else try_then (validate_keys m) (\<lambda>_.
          try_wrap (Wrapf ''validate config: model headers: '') (ValidateProviderHeaders (mc_Headers m)) Inr)))"

fun validate_models :: "string list \<Rightarrow> Model list \<Rightarrow> string list result" where
  "validate_models names [] = Inr names"
| "validate_models names (m # ms) = try_then (validate_model names m) (\<lambda>_. validate_models (mc_Name m # names) ms)"

definition Config_Validate :: "Config \<Rightarrow> unit result" where
  "Config_Validate c =
     (if cf_Version c \<noteq> CurrentVersion then invalid ''unsupported version''
      else if cf_DefaultModel c = [] then invalid ''default_model is required''
      else if hasPadding (cf_DefaultModel c) then invalid ''default_model must not contain surrounding whitespace''
      else if cf_Models c = [] then invalid ''models is required''
      else try_then (validate_models [] (cf_Models c)) (\<lambda>modelNames.
        if cf_DefaultModel c \<notin> set modelNames then invalid ''default_model does not exist'' else Inr ()))"

section \<open>Resolution\<close>

definition resolved :: "Model \<Rightarrow> string \<Rightarrow> ResolvedModel" where
  "resolved m secret = \<lparr> rm_Name = mc_Name m, rm_Protocol = mc_Protocol m, rm_BaseURL = mc_BaseURL m,
     rm_Endpoint = mc_Endpoint m, rm_APIKey = secret, rm_Headers = cloneProviderHeaders (mc_Headers m),
     rm_UpstreamModel = mc_UpstreamModel m \<rparr>"

definition ResolveModel :: "Config \<Rightarrow> string \<Rightarrow> (string \<Rightarrow> string) option \<Rightarrow> ResolvedModel result" where
  "ResolveModel c name getenv =
     try_then (Config_Validate c) (\<lambda>_.
       let selectedName = (if name = [] then cf_DefaultModel c else name) in
       case find (\<lambda>m. mc_Name m = selectedName) (cf_Models c) of
         None \<Rightarrow> Inl (Errorf (''resolve model: model '' @ go_quote selectedName @ '' does not exist''))
       | Some m \<Rightarrow>
           if mc_APIKeyEnv m = [] then Inr (resolved m (mc_APIKey m))
           else (case getenv of
             None \<Rightarrow> Inl (Errorf ''resolve model: environment lookup is required'')
           | Some lookup \<Rightarrow>
               let secret = lookup (mc_APIKeyEnv m) in
               if secret = [] then
                 Inl (Errorf (''resolve model '' @ go_quote (mc_Name m) @ '': environment variable '' @ mc_APIKeyEnv m
                   @ '' is unset or empty''))
               else Inr (resolved m secret)))"


section \<open>What a valid configuration is\<close>

text \<open>
  The rules a configuration has to meet, one predicate for each group of checks: the place the
  requests go to, the source of the secret, and the headers that go along.
\<close>

definition transport_ok :: "string \<Rightarrow> bool" where
  "transport_ok raw \<longleftrightarrow> (case url_Parse raw of
       None \<Rightarrow> False
     | Some u \<Rightarrow> url_Host u \<noteq> [] \<and> (url_Scheme u = ''https'' \<or> url_Scheme u = ''http'' \<and> isLoopbackProviderHost (url_Hostname u))
         \<and> \<not> url_User u \<and> url_RawQuery u = [] \<and> \<not> url_ForceQuery u \<and> url_Fragment u = [])"

definition key_source_ok :: "Model \<Rightarrow> bool" where
  "key_source_ok m \<longleftrightarrow>
     (if mc_APIKeyEnv m = [] then trimSpace (mc_APIKey m) \<noteq> []
      else trimSpace (mc_APIKey m) = [] \<and> shellEnvironmentName (mc_APIKeyEnv m) \<and> \<not> hasPadding (mc_APIKeyEnv m)
        \<and> mc_APIKeyEnv m \<noteq> reservedDaemonLockEnv)"

definition header_ok :: "string \<times> string \<Rightarrow> bool" where
  "header_ok h \<longleftrightarrow> fst h \<noteq> [] \<and> \<not> hasPadding (fst h) \<and> list_all header_char (fst h)
     \<and> lower_name (fst h) \<notin> set reservedProviderHeaders \<and> \<not> hasPadding (snd h) \<and> \<not> hasControl (snd h)"

definition headers_ok :: "(string \<times> string) list \<Rightarrow> bool" where
  "headers_ok hs \<longleftrightarrow> list_all header_ok hs \<and> distinct (map (lower_name \<circ> fst) hs)"

definition plain_text :: "string \<Rightarrow> bool" where
  "plain_text v \<longleftrightarrow> v \<noteq> [] \<and> \<not> hasPadding v \<and> \<not> hasControl v"

definition model_ok :: "Model \<Rightarrow> bool" where
  "model_ok m \<longleftrightarrow> plain_text (mc_Name m) \<and> mc_Protocol m = ProtocolOpenAI \<and> mc_BaseURL m \<noteq> [] \<and> \<not> hasPadding (mc_BaseURL m)
     \<and> transport_ok (mc_BaseURL m) \<and> mc_Endpoint m \<in> {EndpointResponses, EndpointChatCompletions}
     \<and> plain_text (mc_UpstreamModel m) \<and> key_source_ok m \<and> headers_ok (mc_Headers m)"

definition config_ok :: "Config \<Rightarrow> bool" where
  "config_ok c \<longleftrightarrow> cf_Version c = CurrentVersion \<and> list_all model_ok (cf_Models c)
     \<and> distinct (map mc_Name (cf_Models c)) \<and> cf_DefaultModel c \<in> mc_Name ` set (cf_Models c)"

lemma validate_headers_iff:
  "validate_headers seen hs = Inr () \<longleftrightarrow> list_all header_ok hs \<and> distinct (map (lower_name \<circ> fst) hs)
     \<and> set (map (lower_name \<circ> fst) hs) \<inter> set seen = {}"
  by (induction seen hs rule: validate_headers.induct)
    (auto simp: header_ok_def Let_def validHTTPHeaderName_def hasControlCharacters_def)

lemma ValidateProviderHeaders_iff: "ValidateProviderHeaders hs = Inr () \<longleftrightarrow> headers_ok hs"
  by (simp add: ValidateProviderHeaders_def validate_headers_iff headers_ok_def)

lemma validate_base_url_iff: "validate_base_url raw = Inr () \<longleftrightarrow> transport_ok raw"
  by (auto simp: validate_base_url_def transport_ok_def invalid_def url_IsAbs_def split: option.split)

lemma validate_keys_iff: "validate_keys m = Inr () \<longleftrightarrow> key_source_ok m"
  by (auto simp: validate_keys_def key_source_ok_def invalid_def reservedDaemonLockEnv_def)

lemma constants_unpadded:
  "\<not> hasPadding ProtocolOpenAI" "\<not> hasPadding EndpointResponses" "\<not> hasPadding EndpointChatCompletions"
  "ProtocolOpenAI \<noteq> []" "EndpointResponses \<noteq> []" "EndpointChatCompletions \<noteq> []"
  by (simp_all add: hasPadding_def ProtocolOpenAI_def EndpointResponses_def EndpointChatCompletions_def trimSpace_def
      trim_pieces_def go_eval)

lemma validate_model_iff:
  "validate_model names m = Inr () \<longleftrightarrow> mc_Name m \<notin> set names \<and> model_ok m"
  unfolding validate_model_def model_ok_def plain_text_def hasControlCharacters_def
  using constants_unpadded
  by (auto simp: invalid_def try_then_Inr_iff try_wrap_Inr_iff validate_base_url_iff validate_keys_iff
      ValidateProviderHeaders_iff)

lemma validate_models_iff:
  "validate_models names ms = Inr names' \<longleftrightarrow> list_all model_ok ms \<and> distinct (map mc_Name ms)
     \<and> set (map mc_Name ms) \<inter> set names = {} \<and> names' = rev (map mc_Name ms) @ names"
  by (induction names ms arbitrary: names' rule: validate_models.induct)
    (auto simp: try_then_Inr_iff validate_model_iff)

lemma Config_Validate_iff: "Config_Validate c = Inr () \<longleftrightarrow> config_ok c"
proof
  assume "Config_Validate c = Inr ()"
  then show "config_ok c"
    by (auto simp: Config_Validate_def config_ok_def invalid_def try_then_Inr_iff validate_models_iff split: if_splits)
next
  assume ok: "config_ok c"
  then have "plain_text (cf_DefaultModel c)" by (auto simp: config_ok_def list_all_iff model_ok_def)
  with ok show "Config_Validate c = Inr ()"
    by (auto simp: Config_Validate_def config_ok_def plain_text_def try_then_Inr_iff validate_models_iff)
qed


section \<open>Resolution of a valid configuration\<close>

definition key_of :: "Model \<Rightarrow> (string \<Rightarrow> string) \<Rightarrow> string" where
  "key_of m getenv = (if mc_APIKeyEnv m = [] then mc_APIKey m else getenv (mc_APIKeyEnv m))"

lemma find_by_name:
  "distinct (map mc_Name ms) \<Longrightarrow> find (\<lambda>m. mc_Name m = n) ms = Some m \<longleftrightarrow> m \<in> set ms \<and> mc_Name m = n"
  by (induction ms) (auto simp: image_iff)

lemma find_by_name_None: "find (\<lambda>m. mc_Name m = n) ms = None \<longleftrightarrow> n \<notin> mc_Name ` set ms"
  by (auto simp: find_None_iff)

lemma inline_key_nonempty: "model_ok m \<Longrightarrow> mc_APIKeyEnv m = [] \<Longrightarrow> mc_APIKey m \<noteq> []"
  by (auto simp: model_ok_def key_source_ok_def)

lemma ResolveModel_iff:
  "ResolveModel c name (Some getenv) = Inr r \<longleftrightarrow>
     config_ok c \<and> (\<exists>m\<in>set (cf_Models c). mc_Name m = (if name = [] then cf_DefaultModel c else name)
       \<and> key_of m getenv \<noteq> [] \<and> r = resolved m (key_of m getenv))"
proof (cases "config_ok c")
  case False
  then show ?thesis using Config_Validate_iff [of c] by (auto simp: ResolveModel_def try_then_Inr_iff)
next
  case True
  then have d: "distinct (map mc_Name (cf_Models c))" and ok: "\<forall>m\<in>set (cf_Models c). model_ok m"
    by (auto simp: config_ok_def list_all_iff)
  have v: "Config_Validate c = Inr ()" using True by (simp add: Config_Validate_iff)
  let ?n = "if name = [] then cf_DefaultModel c else name"
  show ?thesis
  proof (cases "find (\<lambda>m. mc_Name m = ?n) (cf_Models c)")
    case None
    then have "?n \<notin> mc_Name ` set (cf_Models c)" by (simp only: find_by_name_None not_False_eq_True)
    moreover from None v have "ResolveModel c name (Some getenv) \<noteq> Inr r" by (simp add: ResolveModel_def Let_def)
    ultimately show ?thesis by (metis image_eqI)
  next
    case (Some m)
    then have m: "m \<in> set (cf_Models c)" "mc_Name m = ?n" by (simp_all only: find_by_name [OF d])
    have uniq: "m' = m" if "m' \<in> set (cf_Models c)" "mc_Name m' = ?n" for m'
      using that m d by (simp add: distinct_map inj_on_def)
    have "ResolveModel c name (Some getenv) = Inr r \<longleftrightarrow> key_of m getenv \<noteq> [] \<and> r = resolved m (key_of m getenv)"
      using Some v ok m inline_key_nonempty [of m]
      by (auto simp: ResolveModel_def Let_def key_of_def simp del: find_by_name)
    with True m uniq show ?thesis by blast
  qed
qed

text \<open>C16: resolving a model gives the entry of that name, the default one for an empty name, with the secret of its
  source; and what is handed to the client is safe to use: the secret is not empty, it travels only over HTTPS or to a
  loopback host, the URL carries no user information, query or fragment, and the extra headers are neither
  duplicated nor those the client sets itself, among them \<open>Authorization\<close>.\<close>

theorem resolved_model_safe:
  assumes "ResolveModel c name (Some getenv) = Inr r"
  shows "(\<exists>m\<in>set (cf_Models c). mc_Name m = (if name = [] then cf_DefaultModel c else name)
      \<and> (\<forall>m'\<in>set (cf_Models c). mc_Name m' = mc_Name m \<longrightarrow> m' = m)
      \<and> r = resolved m (if mc_APIKeyEnv m = [] then mc_APIKey m else getenv (mc_APIKeyEnv m)))
    \<and> rm_APIKey r \<noteq> [] \<and> transport_ok (rm_BaseURL r) \<and> headers_ok (rm_Headers r)
    \<and> rm_Endpoint r \<in> {EndpointResponses, EndpointChatCompletions} \<and> plain_text (rm_UpstreamModel r)"
proof -
  from assms have ok: "config_ok c" and "\<exists>m\<in>set (cf_Models c). mc_Name m = (if name = [] then cf_DefaultModel c else name)
       \<and> key_of m getenv \<noteq> [] \<and> r = resolved m (key_of m getenv)"
    unfolding ResolveModel_iff by blast+
  then obtain m where m: "m \<in> set (cf_Models c)" "mc_Name m = (if name = [] then cf_DefaultModel c else name)"
    and key: "key_of m getenv \<noteq> []" and r: "r = resolved m (key_of m getenv)"
    by blast
  have inj: "inj_on mc_Name (set (cf_Models c))" using ok by (simp add: config_ok_def distinct_map)
  have "model_ok m" using ok m(1) by (simp add: config_ok_def list_all_iff)
  then have "transport_ok (rm_BaseURL r)" "headers_ok (rm_Headers r)" "plain_text (rm_UpstreamModel r)"
    "rm_Endpoint r \<in> {EndpointResponses, EndpointChatCompletions}"
    by (simp_all add: r resolved_def model_ok_def)
  moreover have "rm_APIKey r \<noteq> []" using key by (simp add: r resolved_def)
  moreover have "\<forall>m'\<in>set (cf_Models c). mc_Name m' = mc_Name m \<longrightarrow> m' = m" using inj m(1) by (blast dest: inj_onD)
  moreover have "r = resolved m (if mc_APIKeyEnv m = [] then mc_APIKey m else getenv (mc_APIKeyEnv m))"
    using r by (simp only: key_of_def)
  ultimately show ?thesis using m by blast
qed

definition sample_model :: Model where
  "sample_model = \<lparr> mc_Name = ''m'', mc_Protocol = ProtocolOpenAI, mc_BaseURL = ''http://127.0.0.1:80'',
     mc_Endpoint = EndpointResponses, mc_APIKey = [], mc_APIKeyEnv = ''KEY'', mc_Headers = [(''X-A'', ''b'')],
     mc_UpstreamModel = ''up'' \<rparr>"

definition sample_config :: Config where
  "sample_config = \<lparr> cf_Version = 1, cf_DefaultModel = ''m'', cf_Models = [sample_model] \<rparr>"

lemma sample_url: "url_Parse ''http://127.0.0.1:80'' = Some (new_url\<lparr>url_Scheme := ''http'', url_Host := ''127.0.0.1:80''\<rparr>)"
  by (simp add: url_eval)

lemma sample_loopback: "isLoopbackProviderHost ''127.0.0.1''"
  by (simp add: isLoopbackProviderHost_def ip_eval Let_def replicate_numeral)

lemma sample_config_ok: "config_ok sample_config"
  by (simp add: config_ok_def sample_config_def sample_model_def CurrentVersion_def model_ok_def plain_text_def hasPadding_def
      trimSpace_def trim_pieces_def go_eval transport_ok_def sample_url url_Hostname_def cut_last_def cut_at_char_def is_digit_def
      sample_loopback new_url_def key_source_ok_def shellEnvironmentName_def is_alpha_def is_alnum_def reservedDaemonLockEnv_def
      headers_ok_def header_ok_def header_char_def lower_name_def lower_ascii_char_def reservedProviderHeaders_def)

theorem resolved_model_safe_witness:
  "transport_ok (rm_BaseURL (resolved sample_model ''k'')) \<and> rm_APIKey (resolved sample_model ''k'') \<noteq> []"
  using resolved_model_safe [of sample_config "[]" "\<lambda>_. ''k''" "resolved sample_model ''k''"] sample_config_ok
  by (simp add: ResolveModel_iff key_of_def sample_config_def sample_model_def)

end
