(* ===== verification/Go_Http.thy ===== *)
theory Go_Http
  imports Connect_Frame
begin

text \<open>
  What the handlers use of \<open>net/http\<close>, \<open>mime\<close> and \<open>io\<close>: a request as the handler sees it,
  the response it writes, media types, and reading a body up to a limit.
\<close>

section \<open>Requests and responses\<close>

text \<open>\<open>hq_ContentType\<close> is \<open>Header.Get("Content-Type")\<close>, empty when the header is absent.\<close>

record http_request =
  hq_Method :: string
  hq_Path :: string
  hq_ContentType :: string
  hq_Body :: reader

record http_response =
  hr_Status :: int
  hr_Headers :: "(string \<times> string) list"
  hr_Body :: bytes

definition newline :: char where "newline = CHR 0x0A"

text \<open>\<open>http.Error\<close> and \<open>http.NotFound\<close>.\<close>

definition http_Error :: "(string \<times> string) list \<Rightarrow> string \<Rightarrow> int \<Rightarrow> http_response" where
  "http_Error headers message status = \<lparr> hr_Status = status,
     hr_Headers = headers @ [(''Content-Type'', ''text/plain; charset=utf-8''), (''X-Content-Type-Options'', ''nosniff'')],
     hr_Body = message @ [newline] \<rparr>"

definition http_NotFound :: http_response where
  "http_NotFound = http_Error [] ''404 page not found'' 404"

section \<open>Media types\<close>

definition tspecials :: "nat list" where
  "tspecials = [40, 41, 60, 62, 64, 44, 59, 58, 92, 34, 47, 91, 93, 63, 61]"

definition token_char :: "char \<Rightarrow> bool" where
  "token_char c \<longleftrightarrow> 32 < byte_val c \<and> byte_val c < 127 \<and> byte_val c \<notin> set tspecials"

definition consumeToken :: "string \<Rightarrow> string \<times> string" where
  "consumeToken v = (takeWhile token_char v, dropWhile token_char v)"

text \<open>
  \<open>strings.ToLower\<close>, rune by rune. Beyond ASCII only the two runes whose lower case is ASCII
  matter to a media type, whose tokens are ASCII: U+0130 and U+212A.
\<close>

definition lower_piece :: "string \<Rightarrow> string" where
  "lower_piece p =
     (if p = [CHR 0xC4, CHR 0xB0] then ''i'' else if p = [CHR 0xE2, CHR 0x84, CHR 0xAA] then ''k''
      else map (\<lambda>c. if 65 \<le> byte_val c \<and> byte_val c \<le> 90 then mk_byte (byte_val c + 32) else c) p)"

definition toLower :: "string \<Rightarrow> string" where
  "toLower s = concat (map lower_piece (runes s))"

text \<open>A quoted string: what it stands for and what follows it.\<close>

fun quoted_value :: "string \<Rightarrow> (string \<times> string) option" where
  "quoted_value [] = None"
| "quoted_value (c # r) =
     (if c = CHR 0x22 then Some ([], r)
      else if c = CHR 0x5C \<and> r \<noteq> [] \<and> byte_val (hd r) \<in> set tspecials then
        (case r of [] \<Rightarrow> None | d # r1 \<Rightarrow> map_option (\<lambda>(v, t). (d # v, t)) (quoted_value r1))
      else if c = CHR 0x0D \<or> c = CHR 0x0A then None
      else map_option (\<lambda>(v, t). (c # v, t)) (quoted_value r))"

definition consumeValue :: "string \<Rightarrow> string \<times> string" where
  "consumeValue v = (case v of
     [] \<Rightarrow> ([], [])
   | c # r \<Rightarrow> if c = CHR 0x22 then (case quoted_value r of None \<Rightarrow> ([], v) | Some x \<Rightarrow> x) else consumeToken v)"

definition trimLeft :: "string \<Rightarrow> string" where
  "trimLeft s = concat (dropWhile (\<lambda>p. isSpace (rune_of p)) (runes s))"

text \<open>A parameter \<open>; key = value\<close>, or nothing.\<close>

definition consumeMediaParam :: "string \<Rightarrow> (string \<times> string \<times> string) option" where
  "consumeMediaParam v =
     (case trimLeft v of
        [] \<Rightarrow> None
      | c # rest \<Rightarrow>
          if c \<noteq> CHR '';'' then None
          else (case consumeToken (trimLeft rest) of (param, rest) \<Rightarrow>
            if param = [] then None
            else (case trimLeft rest of
                [] \<Rightarrow> None
              | c # rest \<Rightarrow>
                  if c \<noteq> CHR ''='' then None
                  else let rest = trimLeft rest in
                    (case consumeValue rest of (value', rest2) \<Rightarrow>
                      if value' = [] \<and> rest2 = rest then None else Some (toLower param, value', rest2)))))"

text \<open>
  The parameters may repeat only with the same value; a trailing semicolon is ignored. The
  loop consumes at least the semicolon, so the length of the text is fuel enough.
\<close>

fun media_params :: "nat \<Rightarrow> (string \<rightharpoonup> string) \<Rightarrow> string \<Rightarrow> bool" where
  "media_params 0 seen v = True"
| "media_params (Suc n) seen v =
     (let v = trimLeft v in
      if v = [] then True
      else (case consumeMediaParam v of
          None \<Rightarrow> trimSpace v = '';''
        | Some (key, value', rest) \<Rightarrow>
            (case seen key of Some w \<Rightarrow> w = value' | None \<Rightarrow> True) \<and> media_params n (seen(key \<mapsto> value')) rest))"

definition media_type_ok :: "string \<Rightarrow> bool" where
  "media_type_ok s =
     (case consumeToken s of (typ, rest) \<Rightarrow>
        typ \<noteq> [] \<and> (rest = [] \<or> hd rest = CHR ''/'' \<and>
          (case consumeToken (tl rest) of (subtype, rest) \<Rightarrow> subtype \<noteq> [] \<and> rest = [])))"

text \<open>\<open>mime.ParseMediaType\<close>: the media type when it and its parameters are well formed.\<close>

definition ParseMediaType :: "string \<Rightarrow> string option" where
  "ParseMediaType v =
     (let base = takeWhile (\<lambda>c. c \<noteq> CHR '';'') v; mediaType = trimSpace (toLower base) in
      if media_type_ok mediaType \<and> media_params (Suc (length v)) Map.empty (drop (length base) v)
      then Some mediaType else None)"

lemmas media_eval = ParseMediaType_def media_type_ok_def consumeToken_def token_char_def tspecials_def toLower_def
  lower_piece_def trimSpace_def trim_pieces_def trimLeft_def consumeMediaParam_def consumeValue_def go_eval

lemma parse_media_types:
  "ParseMediaType ''application/proto'' = Some ''application/proto''"
  "ParseMediaType ''application/connect+proto; a=1;'' = Some ''application/connect+proto''"
  "ParseMediaType ''application/json; a=1; a=2'' = None"
  "ParseMediaType ''text'' = Some ''text''"
  by (simp_all add: media_eval Let_def)

section \<open>Bodies\<close>

text \<open>\<open>io.ReadAll(io.LimitReader(body, maximum))\<close>: the limit reads as the end of the input.\<close>

definition read_limited :: "reader \<Rightarrow> int \<Rightarrow> bytes result" where
  "read_limited body maximum =
     (if maximum \<le> int (length (rd_data body)) then Inr (take (nat maximum) (rd_data body))
      else if rd_err body = IO_EOF then Inr (rd_data body)
      else Inl (rd_err body))"

end
