(* ===== verification/OpenAI_Request.thy ===== *)
theory OpenAI_Request
  imports Config_Validate Go_Path Go_Http Provider
begin

text \<open>
  \<open>provider/openai\<close>, the sending half: the client and its endpoint, and the bodies of the two
  kinds of request, as \<open>client.go\<close>, \<open>chat.go\<close> and \<open>responses.go\<close> build them.
\<close>

section \<open>Joining URLs\<close>

text \<open>The characters a path may have as they are; \<open>escape\<close> writes the others, and \<open>%\<close>, in hex.\<close>

definition path_char :: "char \<Rightarrow> bool" where
  "path_char c \<longleftrightarrow> is_alnum c \<or> c \<in> set ''-_.~$&+,/:;=@''"

definition valid_encoded :: "string \<Rightarrow> bool" where
  "valid_encoded p \<longleftrightarrow> list_all (\<lambda>c. path_char c \<or> c \<in> set ''!()*,;[]%'' \<or> byte_val c = 39) p"

definition upper_hex :: "nat \<Rightarrow> char" where
  "upper_hex n = (if n < 10 then mk_byte (48 + n) else mk_byte (55 + n))"

definition escape_with :: "(char \<Rightarrow> bool) \<Rightarrow> string \<Rightarrow> string" where
  "escape_with ok s = concat (map (\<lambda>c. if ok c then [c]
     else [CHR ''%'', upper_hex (byte_val c div 16), upper_hex (byte_val c mod 16)]) s)"

definition escaped_path :: "string \<Rightarrow> string" where
  "escaped_path raw =
     (if valid_encoded raw then raw
      else case unescape_url EncodeOther raw of None \<Rightarrow> raw | Some p \<Rightarrow> escape_with path_char p)"

text \<open>\<open>URL.String\<close> of a URL with a scheme and a host, without query and fragment.\<close>

definition url_String :: "goURL \<Rightarrow> string" where
  "url_String u =
     (let p = escaped_path (url_Path u) in
      url_Scheme u @ ''://'' @ escape_with host_char (url_Host u)
      @ (if p \<noteq> [] \<and> hd p \<noteq> CHR ''/'' then ''/'' else []) @ p)"

definition url_JoinPath :: "string \<Rightarrow> string \<Rightarrow> string option" where
  "url_JoinPath base elem = (case url_Parse base of
     None \<Rightarrow> None
   | Some u \<Rightarrow>
       let first = escaped_path (url_Path u);
           p = (if first = [] \<or> hd first \<noteq> CHR ''/'' then tl (path_Clean (''/'' @ first @ ''/'' @ elem))
                else path_Clean (first @ ''/'' @ elem)) in
       Some (url_String (u\<lparr>url_Path := p\<rparr>)))"

section \<open>The client: client.go\<close>

definition client_error :: "string \<Rightarrow> 'a result" where
  "client_error problem = Inl (Errorf (''create OpenAI client: '' @ problem))"

definition buildEndpointURL :: "string \<Rightarrow> string \<Rightarrow> string result" where
  "buildEndpointURL baseURL endpoint =
     (let absolute = client_error ''base URL must be an absolute HTTP or HTTPS URL'' in
      case url_Parse baseURL of
        None \<Rightarrow> absolute
      | Some parsed \<Rightarrow>
          if \<not> url_IsAbs parsed \<or> url_Host parsed = [] \<or> url_Scheme parsed \<noteq> ''http'' \<and> url_Scheme parsed \<noteq> ''https'' then
            absolute
          else if url_User parsed \<or> url_RawQuery parsed \<noteq> [] \<or> url_ForceQuery parsed \<or> url_Fragment parsed \<noteq> [] then
            client_error ''base URL must not contain userinfo, query, or fragment''
          else if endpoint \<noteq> EndpointResponses \<and> endpoint \<noteq> EndpointChatCompletions then
            client_error ''endpoint is unsupported''
          else (case url_JoinPath (url_String parsed) (tl endpoint) of
              None \<Rightarrow> client_error ''endpoint URL is invalid''
            | Some joined \<Rightarrow> Inr joined))"

text \<open>\<open>http.CanonicalHeaderKey\<close> of a valid name, and \<open>Header.Set\<close>.\<close>

fun canonical_from :: "bool \<Rightarrow> string \<Rightarrow> string" where
  "canonical_from upper [] = []"
| "canonical_from upper (c # s) =
     (if upper \<and> 97 \<le> byte_val c \<and> byte_val c \<le> 122 then mk_byte (byte_val c - 32)
      else if \<not> upper then lower_ascii_char c else c) # canonical_from (c = CHR ''-'') s"

definition canonical_key :: "string \<Rightarrow> string" where
  "canonical_key name = canonical_from True name"

definition header_Set :: "string \<Rightarrow> string \<Rightarrow> (string \<times> string) list \<Rightarrow> (string \<times> string) list" where
  "header_Set name v headers = filter (\<lambda>h. fst h \<noteq> canonical_key name) headers @ [(canonical_key name, v)]"

record openai_Options =
  oo_BaseURL :: string
  oo_Endpoint :: string
  oo_APIKey :: string
  oo_Headers :: "(string \<times> string) list"
  oo_MaxEventBytes :: int

record openai_Client =
  oc_endpointURL :: string
  oc_endpoint :: string
  oc_apiKey :: string
  oc_headers :: "(string \<times> string) list"
  oc_maxEventBytes :: int

definition defaultMaxEventBytes :: int where "defaultMaxEventBytes = 1048576"
definition maximumMaxEventBytes :: int where "maximumMaxEventBytes = 16777216"

definition NewClient :: "openai_Options \<Rightarrow> openai_Client result" where
  "NewClient options =
     try_then (buildEndpointURL (oo_BaseURL options) (oo_Endpoint options)) (\<lambda>endpointURL.
       if oo_APIKey options = [] \<or> oo_APIKey options \<noteq> trimSpace (oo_APIKey options) \<or> hasControl (oo_APIKey options) then
         client_error ''API key is required and must be valid''
       else if ValidateProviderHeaders (oo_Headers options) \<noteq> Inr () then client_error ''provider headers are invalid''
       else let maximum = (if oo_MaxEventBytes options = 0 then defaultMaxEventBytes else oo_MaxEventBytes options) in
         if maximum < 1 \<or> maximumMaxEventBytes < maximum then client_error ''max event bytes is invalid''
         else Inr \<lparr> oc_endpointURL = endpointURL, oc_endpoint = oo_Endpoint options, oc_apiKey = oo_APIKey options,
           oc_headers = foldl (\<lambda>hs (name, v). header_Set name v hs) [] (oo_Headers options),
           oc_maxEventBytes = maximum \<rparr>)"

definition providerErrorForStatus :: "int \<Rightarrow> goerror" where
  "providerErrorForStatus status =
     (case map_of [(400, (''invalid_argument'', False)), (422, (''invalid_argument'', False)), (401, (''unauthenticated'', False)),
         (403, (''permission_denied'', False)), (404, (''not_found'', False)), (409, (''aborted'', False)),
         (408, (''deadline_exceeded'', True)), (429, (''resource_exhausted'', True))] status of
        Some (code, retryable) \<Rightarrow> Provider_Error code status retryable
      | None \<Rightarrow> if 500 \<le> status then Provider_Error ''unavailable'' status True else Provider_Error ''unknown'' status False)"

record outgoing =
  og_URL :: string
  og_Headers :: "(string \<times> string) list"
  og_Body :: bytes

record incoming =
  in_Status :: int
  in_ContentType :: string
  in_Body :: reader

definition openai_headers :: "openai_Client \<Rightarrow> (string \<times> string) list" where
  "openai_headers client = header_Set ''Content-Type'' ''application/json''
     (header_Set ''Authorization'' (''Bearer '' @ oc_apiKey client)
     (header_Set ''Accept'' ''text/event-stream'' (oc_headers client)))"

text \<open>
  The request is sent once; \<open>transport\<close> is what the network answers, and \<open>ctxErr\<close> the error of
  the context when it fails. A body that cannot be encoded is \<open>None\<close>.
\<close>

definition doStreamRequest ::
  "openai_Client \<Rightarrow> (outgoing \<Rightarrow> incoming result) \<Rightarrow> goerror option \<Rightarrow> bytes option \<Rightarrow> incoming result" where
  "doStreamRequest client transport ctxErr body = (case body of
     None \<Rightarrow> Inl (Errorf ''encode provider request'')
   | Some payload \<Rightarrow>
       (case transport \<lparr> og_URL = oc_endpointURL client, og_Headers = openai_headers client, og_Body = payload \<rparr> of
          Inl e \<Rightarrow> (case ctxErr of Some c \<Rightarrow> Inl c | None \<Rightarrow> Inl (Provider_Error ''unavailable'' 0 True))
        | Inr response \<Rightarrow>
            if in_Status response < 200 \<or> 300 \<le> in_Status response then Inl (providerErrorForStatus (in_Status response))
            else if ParseMediaType (in_ContentType response) \<noteq> Some ''text/event-stream'' then
              Inl (Provider_Error ''invalid_response'' (in_Status response) False)
            else Inr response))"

section \<open>Bodies\<close>

text \<open>
  \<open>json.Marshal\<close> of raw JSON compacts it: white space outside of strings goes, and the
  characters HTML gives a meaning are escaped.
\<close>

fun json_compact :: "bool \<Rightarrow> string \<Rightarrow> string" where
  "json_compact inside [] = []"
| "json_compact inside (c # s) =
     (if \<not> inside then
        (if is_ws c then json_compact False s else c # json_compact (c = quote_char) s)
      else if c = CHR 0x5C then (case s of [] \<Rightarrow> [c] | d # r \<Rightarrow> c # d # json_compact True r)
      else if c = quote_char then c # json_compact False s
      else if html_unsafe c then u_escape (byte_val c) @ json_compact True s
      else if c = CHR 0xE2 then (case s of
          d # e # r \<Rightarrow>
            if d = CHR 0x80 \<and> (e = CHR 0xA8 \<or> e = CHR 0xA9) then
              u_escape (if e = CHR 0xA8 then 8232 else 8233) @ json_compact True r
            else c # json_compact True s
        | _ \<Rightarrow> c # json_compact True s)
      else c # json_compact True s)"

text \<open>A nil raw message is \<open>null\<close>; one that is not JSON is an error.\<close>

definition marshal_raw :: "bytes \<Rightarrow> string option" where
  "marshal_raw raw =
     (if raw = [] then Some ''null'' else if json_single raw = None then None else Some (json_compact False raw))"

definition omit_empty :: "string \<Rightarrow> 'a list \<Rightarrow> string \<Rightarrow> (string \<times> string) list" where
  "omit_empty name xs text' = (if xs = [] then [] else [(name, text')])"

definition json_slice :: "string list \<Rightarrow> string" where
  "json_slice vs = (if vs = [] then ''null'' else json_array vs)"

definition json_string :: "string \<Rightarrow> string \<Rightarrow> string \<times> string" where
  "json_string name s = (name, json_quote s)"

definition chatToolCall :: "ToolCall \<Rightarrow> string" where
  "chatToolCall call = json_object [json_string ''id'' (tc_ID call), json_string ''type'' ''function'',
     (''function'', json_object [json_string ''name'' (tc_Name call), json_string ''arguments'' (tc_Arguments call)])]"

definition chatMessage :: "Message \<Rightarrow> string" where
  "chatMessage m = json_object ([json_string ''role'' (m_Role m)]
     @ omit_empty ''content'' (m_Content m) (json_quote (m_Content m))
     @ omit_empty ''tool_calls'' (m_ToolCalls m) (json_array (map chatToolCall (m_ToolCalls m)))
     @ omit_empty ''tool_call_id'' (m_ToolCallID m) (json_quote (m_ToolCallID m)))"

definition tool_fields :: "Tool \<Rightarrow> string \<Rightarrow> (string \<times> string) list" where
  "tool_fields tool parameters = [json_string ''name'' (t_Name tool)]
     @ omit_empty ''description'' (t_Description tool) (json_quote (t_Description tool)) @ [(''parameters'', parameters)]"

definition chatTool :: "Tool \<Rightarrow> string option" where
  "chatTool tool = map_option (\<lambda>parameters.
     json_object [json_string ''type'' ''function'', (''function'', json_object (tool_fields tool parameters))])
     (marshal_raw (t_Parameters tool))"

fun all_some :: "'a option list \<Rightarrow> 'a list option" where
  "all_some [] = Some []"
| "all_some (None # xs) = None"
| "all_some (Some x # xs) = map_option ((#) x) (all_some xs)"

definition buildChatRequest :: "Request \<Rightarrow> bytes option" where
  "buildChatRequest request = map_option (\<lambda>tools.
     json_object ([json_string ''model'' (rq_Model request), (''messages'', json_slice (map chatMessage (rq_Messages request)))]
       @ omit_empty ''tools'' tools (json_array tools)
       @ [(''stream'', json_bool True), (''stream_options'', json_object [(''include_usage'', json_bool True)])]))
     (all_some (map chatTool (rq_Tools request)))"

definition responsesMessage :: "Message \<Rightarrow> string" where
  "responsesMessage m = json_object [json_string ''role'' (m_Role m), json_string ''content'' (m_Content m)]"

definition responsesFunctionCall :: "ToolCall \<Rightarrow> string" where
  "responsesFunctionCall call = json_object [json_string ''type'' ''function_call'', json_string ''call_id'' (tc_ID call),
     json_string ''name'' (tc_Name call), json_string ''arguments'' (tc_Arguments call)]"

definition responsesFunctionOutput :: "Message \<Rightarrow> string" where
  "responsesFunctionOutput m = json_object [json_string ''type'' ''function_call_output'',
     json_string ''call_id'' (m_ToolCallID m), json_string ''output'' (m_Content m)]"

definition responses_input :: "Message \<Rightarrow> string list" where
  "responses_input m =
     (if m_Role m = RoleSystem \<or> m_Role m = RoleUser then [responsesMessage m]
      else if m_Role m = RoleAssistant then
        (if m_Content m \<noteq> [] then [responsesMessage m] else []) @ map responsesFunctionCall (m_ToolCalls m)
      else if m_Role m = RoleTool then [responsesFunctionOutput m]
      else [])"

definition responsesTool :: "Tool \<Rightarrow> string option" where
  "responsesTool tool = map_option (\<lambda>parameters.
     json_object (json_string ''type'' ''function'' # tool_fields tool parameters)) (marshal_raw (t_Parameters tool))"

definition buildResponsesRequest :: "Request \<Rightarrow> bytes option" where
  "buildResponsesRequest request = map_option (\<lambda>tools.
     json_object ([json_string ''model'' (rq_Model request),
         (''input'', json_slice (concat (map responses_input (rq_Messages request))))]
       @ omit_empty ''tools'' tools (json_array tools) @ [(''stream'', json_bool True)]))
     (all_some (map responsesTool (rq_Tools request)))"

section \<open>What is sent\<close>

lemma endpoint_urls:
  "buildEndpointURL ''https://api.example.com'' EndpointResponses = Inr ''https://api.example.com/v1/responses''"
  "buildEndpointURL ''http://[::1]:80/a//b/../'' EndpointChatCompletions = Inr ''http://[::1]:80/a/v1/chat/completions''"
  by (simp_all add: buildEndpointURL_def url_eval url_JoinPath_def url_String_def escaped_path_def valid_encoded_def
      path_char_def escape_with_def path_Clean_def clean_step_def EndpointResponses_def EndpointChatCompletions_def upper_hex_def)

end
