(* ===== verification/Sse.thy ===== *)
theory Sse
  imports Go_Http
begin

text \<open>
  \<open>provider/openai/sse.go\<close>: reading a stream of server-sent events with a bound on the size of
  an event. What the code reads is a sequence of lines, however the connection cuts it into
  pieces; the events handed to the callback are a function of those lines.
\<close>

section \<open>Lines\<close>

record sseEvent =
  se_Name :: string
  se_Data :: string

text \<open>What ends the reading early: an error, or the callback asking to stop with its sentinel.\<close>

datatype sse_error = SSE_Stop | SSE_Error goerror

definition strip_cr :: "string \<Rightarrow> string" where
  "strip_cr line = (if line \<noteq> [] \<and> last line = CHR 0x0D then butlast line else line)"

text \<open>
  \<open>bufio.Reader.ReadLine\<close>, the pieces of a line put together: a line ends at a newline, which
  is dropped with a carriage return before it; the last line may lack it; then comes the error.
\<close>

definition next_line :: "reader \<Rightarrow> string \<times> goerror option \<times> reader" where
  "next_line rd =
     (if newline \<in> set (rd_data rd) then
        (strip_cr (takeWhile (\<lambda>c. c \<noteq> newline) (rd_data rd)), None,
          rd\<lparr>rd_data := tl (dropWhile (\<lambda>c. c \<noteq> newline) (rd_data rd))\<rparr>)
      else if rd_data rd \<noteq> [] then (rd_data rd, None, rd\<lparr>rd_data := []\<rparr>)
      else ([], Some (rd_err rd), rd))"

definition event_too_large :: goerror where
  "event_too_large = Errorf ''read SSE: event is too large''"

definition readSSELine :: "reader \<Rightarrow> int \<Rightarrow> (string \<times> goerror option \<times> reader) result" where
  "readSSELine rd remaining =
     (if remaining < 0 then Inl event_too_large
      else case next_line rd of (line, err, rd) \<Rightarrow>
        if remaining < int (length line) then Inl event_too_large else Inr (line, err, rd))"

lemma next_line_shorter: "next_line rd = (line, None, rd') \<Longrightarrow> length (rd_data rd') < length (rd_data rd)"
proof (cases "newline \<in> set (rd_data rd)")
  case True
  assume n: "next_line rd = (line, None, rd')"
  from True have "dropWhile (\<lambda>c. c \<noteq> newline) (rd_data rd) \<noteq> []" by (simp add: dropWhile_eq_Nil_conv)
  then have "length (tl (dropWhile (\<lambda>c. c \<noteq> newline) (rd_data rd))) < length (dropWhile (\<lambda>c. c \<noteq> newline) (rd_data rd))"
    by simp
  also have "\<dots> \<le> length (rd_data rd)" by (rule length_dropWhile_le)
  finally show ?thesis using n True by (auto simp: next_line_def)
qed (auto simp: next_line_def split: if_splits)

lemma readSSELine_shorter:
  "readSSELine rd remaining = Inr (line, None, rd') \<Longrightarrow> length (rd_data rd') < length (rd_data rd)"
  using next_line_shorter [of rd line rd'] by (auto simp: readSSELine_def split: if_splits prod.splits)

section \<open>Events\<close>

record sse_state =
  ss_name :: string
  ss_data :: "string list"
  ss_bytes :: int

definition sse_start :: sse_state where
  "sse_start = \<lparr> ss_name = [], ss_data = [], ss_bytes = 0 \<rparr>"

type_synonym 's sse_handler = "sseEvent \<Rightarrow> 's \<Rightarrow> (sse_error + unit) \<times> 's"

definition sse_dispatch :: "'s sse_handler \<Rightarrow> sse_state \<Rightarrow> 's \<Rightarrow> (sse_error + unit) \<times> 's" where
  "sse_dispatch handle st s =
     (if ss_data st = [] then (Inr (), s)
      else handle \<lparr> se_Name = ss_name st, se_Data = join [newline] (ss_data st) \<rparr> s)"

definition cut_field :: "string \<Rightarrow> string \<times> string" where
  "cut_field line =
     (let field = takeWhile (\<lambda>c. c \<noteq> CHR '':'') line; v = tl (dropWhile (\<lambda>c. c \<noteq> CHR '':'') line) in
      (field, if v \<noteq> [] \<and> hd v = CHR '' '' then tl v else v))"

definition take_line :: "string \<Rightarrow> sse_state \<Rightarrow> sse_state" where
  "take_line line st =
     (if hd line = CHR '':'' then st
      else case cut_field line of (field, v) \<Rightarrow>
        if field = ''event'' then st\<lparr>ss_name := v\<rparr>
        else if field = ''data'' then st\<lparr>ss_data := ss_data st @ [v]\<rparr>
        else st)"

text \<open>
  The loop; \<open>ctxErr k\<close> is the error of the context in the \<open>k\<close>-th pass. A pass without an error
  consumes a line, so the loop ends with the data.
\<close>

function sse_loop ::
  "(nat \<Rightarrow> goerror option) \<Rightarrow> int \<Rightarrow> 's sse_handler \<Rightarrow> nat \<Rightarrow> reader \<Rightarrow> sse_state \<Rightarrow> 's \<Rightarrow> (sse_error + unit) \<times> 's" where
  "sse_loop ctxErr maxEventBytes handle k rd st s = (case ctxErr k of
     Some e \<Rightarrow> (Inl (SSE_Error e), s)
   | None \<Rightarrow> (case readSSELine rd (maxEventBytes - ss_bytes st) of
       Inl e \<Rightarrow> (Inl (SSE_Error e), s)
     | Inr (line, err, rd') \<Rightarrow> (case err of
         Some e \<Rightarrow>
           if e \<noteq> IO_EOF then (Inl (SSE_Error e), s)
           else sse_dispatch handle st s
       | None \<Rightarrow>
           let st = st\<lparr>ss_bytes := ss_bytes st + int (length line)\<rparr> in
           if maxEventBytes < ss_bytes st then (Inl (SSE_Error event_too_large), s)
           else if line = [] then (case sse_dispatch handle st s of
               (Inl e, s) \<Rightarrow> (Inl e, s)
             | (Inr _, s) \<Rightarrow> sse_loop ctxErr maxEventBytes handle (Suc k) rd' sse_start s)
           else sse_loop ctxErr maxEventBytes handle (Suc k) rd' (take_line line st) s)))"
  by pat_completeness auto
termination
  by (relation "measure (\<lambda>(ctxErr, m, handle, k, rd, st, s). length (rd_data rd))")
    (auto dest!: readSSELine_shorter)

declare sse_loop.simps [simp del]

definition readSSE ::
  "(nat \<Rightarrow> goerror option) \<Rightarrow> reader \<Rightarrow> int \<Rightarrow> 's sse_handler \<Rightarrow> 's \<Rightarrow> (sse_error + unit) \<times> 's" where
  "readSSE ctxErr source maxEventBytes handle s =
     (if maxEventBytes \<le> 0 then (Inl (SSE_Error (Errorf ''read SSE: maximum event size must be positive'')), s)
      else sse_loop ctxErr maxEventBytes handle 0 source sse_start s)"

section \<open>Events written out are read back\<close>

fun handle_all :: "'s sse_handler \<Rightarrow> sseEvent list \<Rightarrow> 's \<Rightarrow> (sse_error + unit) \<times> 's" where
  "handle_all handle [] s = (Inr (), s)"
| "handle_all handle (e # es) s = (case handle e s of
     (Inl x, s) \<Rightarrow> (Inl x, s) | (Inr _, s) \<Rightarrow> handle_all handle es s)"

text \<open>An event as a sender writes it: its name, when it has one, then its data, line by line.\<close>

definition render_lines :: "string \<times> string list \<Rightarrow> string list" where
  "render_lines e = (if fst e = [] then [] else [''event: '' @ fst e]) @ map (\<lambda>d. ''data: '' @ d) (snd e)"

definition render_event :: "string \<times> string list \<Rightarrow> bytes" where
  "render_event e = concat (map (\<lambda>l. l @ [newline]) (render_lines e)) @ [newline]"

definition event_of :: "string \<times> string list \<Rightarrow> sseEvent" where
  "event_of e = \<lparr> se_Name = fst e, se_Data = join [newline] (snd e) \<rparr>"

definition plain_line :: "string \<Rightarrow> bool" where
  "plain_line l \<longleftrightarrow> newline \<notin> set l \<and> (l \<noteq> [] \<longrightarrow> last l \<noteq> CHR 0x0D)"

definition event_fits :: "int \<Rightarrow> string \<times> string list \<Rightarrow> bool" where
  "event_fits maxEventBytes e \<longleftrightarrow> snd e \<noteq> [] \<and> plain_line (fst e) \<and> list_all plain_line (snd e)
     \<and> int (length (concat (render_lines e))) \<le> maxEventBytes"

lemma next_line_plain:
  assumes "plain_line l"
  shows "next_line \<lparr> rd_data = l @ newline # rest, rd_err = e \<rparr> = (l, None, \<lparr> rd_data = rest, rd_err = e \<rparr>)"
proof -
  have n: "newline \<notin> set l" using assms by (simp add: plain_line_def)
  then have "takeWhile (\<lambda>c. c \<noteq> newline) (l @ newline # rest) = l" "dropWhile (\<lambda>c. c \<noteq> newline) (l @ newline # rest) = newline # rest"
    by (induction l) auto
  moreover have "strip_cr l = l" using assms by (auto simp: strip_cr_def plain_line_def)
  ultimately show ?thesis by (simp add: next_line_def)
qed

lemma sse_loop_line:
  assumes "plain_line l" and "l \<noteq> []" and "ss_bytes st + int (length l) \<le> m"
  shows "sse_loop (\<lambda>_. None) m handle k \<lparr> rd_data = l @ newline # rest, rd_err = e \<rparr> st s =
    sse_loop (\<lambda>_. None) m handle (Suc k) \<lparr> rd_data = rest, rd_err = e \<rparr>
      (take_line l (st\<lparr>ss_bytes := ss_bytes st + int (length l)\<rparr>)) s"
  using assms by (subst sse_loop.simps) (simp add: readSSELine_def next_line_plain)

lemma sse_loop_lines:
  assumes "list_all (\<lambda>l. plain_line l \<and> l \<noteq> []) ls" and "ss_bytes st + int (length (concat ls)) \<le> m"
  shows "sse_loop (\<lambda>_. None) m handle k \<lparr> rd_data = concat (map (\<lambda>l. l @ [newline]) ls) @ rest, rd_err = e \<rparr> st s =
    sse_loop (\<lambda>_. None) m handle (k + length ls) \<lparr> rd_data = rest, rd_err = e \<rparr>
      (foldl (\<lambda>st l. take_line l (st\<lparr>ss_bytes := ss_bytes st + int (length l)\<rparr>)) st ls) s"
  using assms
proof (induction ls arbitrary: st k)
  case (Cons l ls)
  have "ss_bytes (take_line l (st\<lparr>ss_bytes := b\<rparr>)) = b" for b
    by (simp add: take_line_def split: prod.split)
  with Cons show ?case by (simp add: sse_loop_line)
qed simp

lemma take_data:
  "foldl (\<lambda>st l. take_line l (st\<lparr>ss_bytes := ss_bytes st + int (length l)\<rparr>)) st (map (\<lambda>d. ''data: '' @ d) ds) =
    st\<lparr>ss_data := ss_data st @ ds, ss_bytes := ss_bytes st + int (length (concat (map (\<lambda>d. ''data: '' @ d) ds)))\<rparr>"
  by (induction ds arbitrary: st) (simp_all add: take_line_def cut_field_def)

lemma sse_loop_event:
  assumes "event_fits m ev"
  shows "\<exists>k'. sse_loop (\<lambda>_. None) m handle k \<lparr> rd_data = render_event ev @ rest, rd_err = e \<rparr> sse_start s =
    (case handle (event_of ev) s of
       (Inl x, s) \<Rightarrow> (Inl x, s)
     | (Inr _, s) \<Rightarrow> sse_loop (\<lambda>_. None) m handle k' \<lparr> rd_data = rest, rd_err = e \<rparr> sse_start s)"
proof -
  let ?ls = "render_lines ev" and ?upd = "\<lambda>st l. take_line l (st\<lparr>ss_bytes := ss_bytes st + int (length l)\<rparr>)"
  have fits: "snd ev \<noteq> []" "plain_line (fst ev)" "list_all plain_line (snd ev)" "int (length (concat ?ls)) \<le> m"
    using assms by (simp_all add: event_fits_def)
  have plain: "list_all (\<lambda>l. plain_line l \<and> l \<noteq> []) ?ls"
    using fits by (auto simp: render_lines_def plain_line_def list_all_iff newline_def)
  let ?st = "foldl ?upd sse_start ?ls"
  have st: "?st = \<lparr> ss_name = fst ev, ss_data = snd ev, ss_bytes = int (length (concat ?ls)) \<rparr>"
    unfolding render_lines_def foldl_append take_data by (simp add: sse_start_def take_line_def cut_field_def)
  have "sse_loop (\<lambda>_. None) m handle k \<lparr> rd_data = render_event ev @ rest, rd_err = e \<rparr> sse_start s =
      sse_loop (\<lambda>_. None) m handle (k + length ?ls) \<lparr> rd_data = [] @ newline # rest, rd_err = e \<rparr> ?st s"
    using sse_loop_lines [OF plain, of sse_start m handle k "newline # rest" e s] fits(4)
    by (simp add: render_event_def sse_start_def)
  also have "\<dots> = (case handle (event_of ev) s of
       (Inl x, s) \<Rightarrow> (Inl x, s)
     | (Inr _, s) \<Rightarrow> sse_loop (\<lambda>_. None) m handle (Suc (k + length ?ls)) \<lparr> rd_data = rest, rd_err = e \<rparr> sse_start s)"
    using fits next_line_plain [of "[]" rest e] unfolding st
    by (subst sse_loop.simps) (simp add: readSSELine_def plain_line_def sse_dispatch_def event_of_def)
  finally show ?thesis by blast
qed

lemma readSSE_rendered:
  assumes "list_all (event_fits m) evs" and "0 < m"
  shows "readSSE (\<lambda>_. None) \<lparr> rd_data = concat (map render_event evs), rd_err = IO_EOF \<rparr> m handle s
    = handle_all handle (map event_of evs) s"
proof -
  have "sse_loop (\<lambda>_. None) m handle k \<lparr> rd_data = concat (map render_event evs), rd_err = IO_EOF \<rparr> sse_start s
      = handle_all handle (map event_of evs) s" for k
    using assms(1)
  proof (induction evs arbitrary: k s)
    case Nil
    show ?case using assms(2)
      by (subst sse_loop.simps) (simp add: readSSELine_def next_line_def sse_start_def sse_dispatch_def)
  next
    case (Cons ev evs)
    then have fits: "event_fits m ev" and rest: "list_all (event_fits m) evs" by simp_all
    from sse_loop_event [OF fits, of handle k "concat (map render_event evs)" IO_EOF s] obtain k' where
      "sse_loop (\<lambda>_. None) m handle k \<lparr> rd_data = concat (map render_event (ev # evs)), rd_err = IO_EOF \<rparr> sse_start s =
        (case handle (event_of ev) s of
           (Inl x, s) \<Rightarrow> (Inl x, s)
         | (Inr _, s) \<Rightarrow> sse_loop (\<lambda>_. None) m handle k' \<lparr> rd_data = concat (map render_event evs), rd_err = IO_EOF \<rparr> sse_start s)"
      by auto
    then show ?case using Cons.IH [OF rest] by (simp split: prod.split sum.split)
  qed
  then show ?thesis using assms(2) by (simp add: readSSE_def)
qed



section \<open>The events of a stream\<close>

text \<open>
  Reading with a callback is reading the events, as far as they come, and calling the callback on
  each until it refuses one.
\<close>

definition keep_event :: "sseEvent list sse_handler" where
  "keep_event ev evs = (Inr (), evs @ [ev])"

definition sse_events :: "(nat \<Rightarrow> goerror option) \<Rightarrow> reader \<Rightarrow> int \<Rightarrow> (sse_error + unit) \<times> sseEvent list" where
  "sse_events ctxErr rd m = readSSE ctxErr rd m keep_event []"

definition and_then :: "('e + unit) \<times> 's \<Rightarrow> ('s \<Rightarrow> ('e + unit) \<times> 's) \<Rightarrow> ('e + unit) \<times> 's" where
  "and_then r k = (case r of (Inl e, s) \<Rightarrow> (Inl e, s) | (Inr _, s) \<Rightarrow> k s)"

lemma and_then_simps [simp]:
  "and_then (Inl e, s) k = (Inl e, s)" "and_then (Inr u, s) k = k s"
  by (simp_all add: and_then_def)

lemma and_then_assoc: "and_then (and_then r k) l = and_then r (\<lambda>s. and_then (k s) l)"
  by (cases r; cases "fst r") auto

lemma handle_all_Cons: "handle_all handle (e # es) s = and_then (handle e s) (handle_all handle es)"
  by (simp add: and_then_def split: prod.split sum.split)

lemma sse_loop_factors:
  "\<exists>new res. sse_loop ctxErr m keep_event k rd st evs = (res, evs @ new) \<and>
     (\<forall>(handle :: 's sse_handler) s. sse_loop ctxErr m handle k rd st s = and_then (handle_all handle new s) (\<lambda>s. (res, s)))"
proof (induction "length (rd_data rd)" arbitrary: k rd st evs rule: less_induct)
  case less
  show ?case
  proof (cases "ctxErr k")
    case (Some e)
    then show ?thesis by (simp add: sse_loop.simps [of _ _ _ k])
  next
    case None
    note ctx = None
    show ?thesis
    proof (cases "readSSELine rd (m - ss_bytes st)")
      case (Inl e)
      with ctx show ?thesis by (simp add: sse_loop.simps [of _ _ _ k])
    next
      case (Inr x)
      obtain line err rd' where x: "x = (line, err, rd')" by (cases x)
      have unit: "(u :: unit) = ()" for u by simp
      show ?thesis
      proof (cases err)
        case (Some e)
        show ?thesis
        proof (cases "e = IO_EOF \<and> ss_data st \<noteq> []")
          case True
          then show ?thesis using Inr ctx Some
            by (intro exI [of _ "[\<lparr> se_Name = ss_name st, se_Data = join [newline] (ss_data st) \<rparr>]"] exI [of _ "Inr ()"])
              (simp add: sse_loop.simps [of _ _ _ k] x sse_dispatch_def keep_event_def handle_all_Cons and_then_def
                split: prod.split sum.split)
        next
          case False
          then show ?thesis using Inr ctx Some
            by (intro exI [of _ "[]"]) (auto simp: sse_loop.simps [of _ _ _ k] x sse_dispatch_def)
        qed
      next
        case None
        let ?st = "st\<lparr>ss_bytes := ss_bytes st + int (length line)\<rparr>"
        have shorter: "length (rd_data rd') < length (rd_data rd)"
          using Inr x None by (auto dest: readSSELine_shorter)
        consider (large) "m < ss_bytes ?st" | (data) "\<not> m < ss_bytes ?st" "line \<noteq> []"
          | (empty) "\<not> m < ss_bytes ?st" "line = []" "ss_data st = []"
          | (ev) "\<not> m < ss_bytes ?st" "line = []" "ss_data st \<noteq> []" by blast
        then show ?thesis
        proof cases
          case large
          then show ?thesis using Inr ctx None by (simp add: sse_loop.simps [of _ _ _ k] x)
        next
          case data
          then show ?thesis using less [OF shorter, of "Suc k" "take_line line ?st" evs] Inr ctx None
            by (simp add: sse_loop.simps [of _ _ _ k] x)
        next
          case empty
          then show ?thesis using less [OF shorter, of "Suc k" sse_start evs] Inr ctx None
            by (simp add: sse_loop.simps [of _ _ _ k] x sse_dispatch_def)
        next
          case ev
          let ?ev = "\<lparr> se_Name = ss_name st, se_Data = join [newline] (ss_data st) \<rparr>"
          obtain new res where ih: "sse_loop ctxErr m keep_event (Suc k) rd' sse_start (evs @ [?ev]) = (res, (evs @ [?ev]) @ new)"
            "\<And>(handle :: 's sse_handler) s. sse_loop ctxErr m handle (Suc k) rd' sse_start s = and_then (handle_all handle new s) (\<lambda>s. (res, s))"
            using less [OF shorter, of "Suc k" sse_start "evs @ [?ev]"] by blast
          have step: "sse_loop ctxErr m handle k rd st s
              = and_then (handle ?ev s) (sse_loop ctxErr m handle (Suc k) rd' sse_start)" for handle :: "'s sse_handler" and s
            using ev Inr ctx None
            by (simp add: sse_loop.simps [of _ _ _ k] x sse_dispatch_def and_then_def)
          have "sse_loop ctxErr m keep_event k rd st evs = (res, evs @ ?ev # new)"
            using ih(1) ev Inr ctx None by (simp add: sse_loop.simps [of _ _ _ k] x sse_dispatch_def keep_event_def)
          moreover have "sse_loop ctxErr m handle k rd st s = and_then (handle_all handle (?ev # new) s) (\<lambda>s. (res, s))"
            for handle :: "'s sse_handler" and s
          proof -
            have "sse_loop ctxErr m handle (Suc k) rd' sse_start = (\<lambda>s. and_then (handle_all handle new s) (\<lambda>s. (res, s)))"
              by (rule ext) (rule ih(2))
            then show ?thesis by (simp only: step handle_all_Cons and_then_assoc)
          qed
          ultimately show ?thesis by blast
        qed
      qed
    qed
  qed
qed

lemma readSSE_factors:
  fixes handle :: "'s sse_handler"
  assumes "sse_events ctxErr rd m = (res, evs)"
  shows "readSSE ctxErr rd m handle s = and_then (handle_all handle evs s) (\<lambda>s. (res, s))"
proof (cases "m \<le> 0")
  case True
  then show ?thesis using assms by (auto simp: sse_events_def readSSE_def)
next
  case False
  obtain new res' where f: "sse_loop ctxErr m keep_event 0 rd sse_start [] = (res', [] @ new)"
    "\<And>(handle :: 's sse_handler) s. sse_loop ctxErr m handle 0 rd sse_start s = and_then (handle_all handle new s) (\<lambda>s. (res', s))"
    using sse_loop_factors [of ctxErr m 0 rd sse_start "[]"] by blast
  then have "res' = res" "new = evs" using assms False by (auto simp: sse_events_def readSSE_def)
  then show ?thesis using f(2) False by (simp add: readSSE_def)
qed

end
