(* ===== verification/Bounded_Registry.thy ===== *)
theory Bounded_Registry
  imports Prelude
begin

text \<open>
  Registries of bounded size. The conversations and the sessions are kept in maps from IDs to shared objects;
  when there are too many, the ones that may go are dropped, those of least age first. Both registries look for
  the next one with the same scan and repeat that until there is room. The interface states what the scan and
  the loop do, and what is left is proved once for both.
\<close>

section \<open>The contract\<close>

text \<open>
  What is left of the entries \<open>es\<close>, where an entry without an age has to stay: the others stay in their order
  or go; none that goes is younger than one that stays; as many go as are needed and possible, and no more.
\<close>

definition shrunk :: "('e \<Rightarrow> 'a::linorder option) \<Rightarrow> nat \<Rightarrow> 'e list \<Rightarrow> 'e list \<Rightarrow> bool" where
  "shrunk age bound es left \<longleftrightarrow>
     left = filter (\<lambda>e. e \<in> set left) es
     \<and> (\<forall>e\<in>set es - set left. \<exists>t. age e = Some t \<and> (\<forall>e'\<in>set left. \<forall>t'. age e' = Some t' \<longrightarrow> t \<le> t'))
     \<and> (length left \<le> bound \<or> (\<forall>e\<in>set left. age e = None))
     \<and> (left = es \<or> bound \<le> length left)"

lemma shrunk_subset: "shrunk age bound es left \<Longrightarrow> set left \<subseteq> set es"
  unfolding shrunk_def by (metis filter_is_subset)

lemma shrunk_stays: "shrunk age bound es left \<Longrightarrow> e \<in> set es \<Longrightarrow> age e = None \<Longrightarrow> e \<in> set left"
  unfolding shrunk_def by force

text \<open>So the number that is left is known.\<close>

lemma shrunk_length:
  assumes "shrunk age bound es left"
  shows "length left = min (length es) (max bound (length (filter (\<lambda>e. age e = None) es)))"
proof -
  let ?fixed = "filter (\<lambda>e. age e = None)"
  have left: "left = filter (\<lambda>e. e \<in> set left) es" using assms by (simp add: shrunk_def)
  have "?fixed left = filter (\<lambda>e. age e = None) (filter (\<lambda>e. e \<in> set left) es)" using left by simp
  also have "\<dots> = ?fixed es" using shrunk_stays [OF assms] by (auto simp: filter_filter intro: filter_cong)
  finally have fixed: "?fixed left = ?fixed es" .
  then have le: "length (?fixed es) \<le> length left" by (metis length_filter_le)
  have len: "length left \<le> length es" using left by (metis length_filter_le)
  have strict: "left \<noteq> es \<Longrightarrow> length left < length es"
    using left len by (metis filter_True length_filter_less le_neq_implies_less)
  show ?thesis
  proof (cases "length left \<le> bound")
    case True
    then show ?thesis using assms le len strict unfolding shrunk_def by fastforce
  next
    case False
    then have "\<forall>e\<in>set left. age e = None" using assms by (simp add: shrunk_def)
    then have "?fixed left = left" by simp
    then show ?thesis using fixed False len by simp
  qed
qed

section \<open>The scan\<close>

locale oldest_scan =
  fixes age :: "'s \<Rightarrow> 'a::linorder option"
    and step :: "(nat \<Rightarrow> 's) \<Rightarrow> string \<times> 'a \<Rightarrow> string \<times> nat \<Rightarrow> string \<times> 'a"
    and oldest :: "(nat \<Rightarrow> 's) \<Rightarrow> (string \<times> nat) list \<Rightarrow> string"
  assumes scan_step: "step store (i, t) e = (case age (store (snd e)) of
      None \<Rightarrow> (i, t) | Some u \<Rightarrow> if i = [] \<or> u < t then (fst e, u) else (i, t))"
    and scan_all: "\<exists>t. oldest store es = fst (foldl (step store) ([], t) es)"
begin

lemma scan_from: "fst (foldl (step store) acc es) \<in> insert (fst acc) (fst ` set es)"
proof (induction es arbitrary: acc)
  case (Cons e es)
  obtain i t where acc: "acc = (i, t)" by (cases acc)
  have "fst (step store acc e) \<in> {fst acc, fst e}" by (simp add: acc scan_step split: option.split)
  with Cons.IH [of "step store acc e"] show ?case by auto
qed simp

lemma scan_member: "oldest store es \<noteq> [] \<Longrightarrow> oldest store es \<in> fst ` set es"
  using scan_all [of store es] scan_from by fastforce

lemma scan_drops: "oldest store es \<noteq> [] \<Longrightarrow> length (filter (\<lambda>e. fst e \<noteq> oldest store es) es) < length es"
  using scan_member by (force intro: length_filter_less)

text \<open>The result so far: the least age among the entries that have one.\<close>

definition scanned :: "(nat \<Rightarrow> 's) \<Rightarrow> (string \<times> nat) list \<Rightarrow> string \<times> 'a \<Rightarrow> bool" where
  "scanned store es acc \<longleftrightarrow>
     (if fst acc = [] then \<forall>e\<in>set es. age (store (snd e)) = None
      else (\<exists>e\<in>set es. fst e = fst acc \<and> age (store (snd e)) = Some (snd acc))
        \<and> (\<forall>e\<in>set es. \<forall>t. age (store (snd e)) = Some t \<longrightarrow> snd acc \<le> t))"

lemma scanned_snoc:
  assumes "scanned store es acc" and "fst e \<noteq> []"
  shows "scanned store (es @ [e]) (step store acc e)"
proof -
  obtain i t where acc: "acc = (i, t)" by (cases acc)
  show ?thesis
  proof (cases "age (store (snd e))")
    case None
    then show ?thesis using assms by (auto simp: acc scan_step scanned_def)
  next
    case (Some u)
    have "i \<noteq> [] \<Longrightarrow> u < t \<Longrightarrow> x \<in> set es \<Longrightarrow> age (store (snd x)) = Some v \<Longrightarrow> u \<le> v" for x v
      using assms(1) by (fastforce simp: acc scanned_def)
    then show ?thesis using assms Some by (auto simp: acc scan_step scanned_def split: if_splits)
  qed
qed

lemma scanned_all: "\<forall>e\<in>set es. fst e \<noteq> [] \<Longrightarrow> scanned store es (foldl (step store) ([], t) es)"
proof (induction es rule: rev_induct)
  case (snoc e es)
  then show ?case using scanned_snoc [of store es "foldl (step store) ([], t) es" e] by simp
qed (simp add: scanned_def)

lemma scan_none: "\<forall>e\<in>set es. fst e \<noteq> [] \<Longrightarrow> oldest store es = [] \<Longrightarrow> \<forall>e\<in>set es. age (store (snd e)) = None"
  using scan_all [of store es] scanned_all [of es store] by (metis scanned_def)

lemma scan_least:
  assumes "\<forall>e\<in>set es. fst e \<noteq> []" and "oldest store es \<noteq> []"
  shows "\<exists>e t. e \<in> set es \<and> fst e = oldest store es \<and> age (store (snd e)) = Some t
    \<and> (\<forall>e'\<in>set es. \<forall>t'. age (store (snd e')) = Some t' \<longrightarrow> t \<le> t')"
  using scan_all [of store es] scanned_all [OF assms(1), of store] assms(2) unfolding scanned_def by metis

end

section \<open>The loop\<close>

text \<open>\<open>limit\<close> is how many entries need not be reduced, for a setting of the registry.\<close>

locale bounded_registry = oldest_scan age step oldest
  for age :: "'s \<Rightarrow> 'a::linorder option"
    and step :: "(nat \<Rightarrow> 's) \<Rightarrow> string \<times> 'a \<Rightarrow> string \<times> nat \<Rightarrow> string \<times> 'a"
    and oldest :: "(nat \<Rightarrow> 's) \<Rightarrow> (string \<times> nat) list \<Rightarrow> string" +
  fixes shrink :: "'m \<Rightarrow> (nat \<Rightarrow> 's) \<Rightarrow> (string \<times> nat) list \<Rightarrow> (string \<times> nat) list"
    and limit :: "'m \<Rightarrow> nat"
  assumes shrink_once: "shrink m store es =
    (if length es \<le> limit m \<or> oldest store es = [] then es
     else shrink m store (filter (\<lambda>e. fst e \<noteq> oldest store es) es))"
begin

lemma shrink_shrunk:
  assumes "distinct (map fst es)" and "\<forall>e\<in>set es. fst e \<noteq> []"
  shows "shrunk (\<lambda>e. age (store (snd e))) (limit m) es (shrink m store es)"
  using assms
proof (induction "length es" arbitrary: es rule: less_induct)
  case less
  let ?age = "\<lambda>e. age (store (snd e))" and ?o = "oldest store es"
  show ?case
  proof (cases "length es \<le> limit m \<or> ?o = []")
    case True
    then have "shrink m store es = es" by (simp add: shrink_once [of m store es])
    with True scan_none [OF less.prems(2), of store] show ?thesis by (auto simp: shrunk_def)
  next
    case False
    let ?rest = "filter (\<lambda>e. fst e \<noteq> ?o) es"
    let ?left = "shrink m store ?rest"
    obtain e t where e: "e \<in> set es" "fst e = ?o" "?age e = Some t"
      and least: "\<forall>e'\<in>set es. \<forall>t'. ?age e' = Some t' \<longrightarrow> t \<le> t'"
      using scan_least [OF less.prems(2)] False by blast
    have only: "x \<in> set es \<Longrightarrow> fst x = ?o \<longleftrightarrow> x = e" for x
      using less.prems(1) e by (auto simp: distinct_map inj_on_def)
    have "?rest = filter ((\<noteq>) e) es" using only by (intro filter_cong) auto
    then have "?rest = remove1 e es"
      using less.prems(1) by (simp add: distinct_remove1_removeAll removeAll_filter_not_eq distinct_map)
    then have len: "length es = Suc (length ?rest)" using length_pos_if_in_set [OF e(1)] e(1) by (simp add: length_remove1)
    have IH: "shrunk ?age (limit m) ?rest ?left"
      using less.hyps [of ?rest] less.prems len by (simp add: distinct_map_filter)
    have eq: "shrink m store es = ?left" using False by (simp add: shrink_once [of m store es])
    have sub: "set ?left \<subseteq> set ?rest" using shrunk_subset [OF IH] .
    then have "filter (\<lambda>x. x \<in> set ?left) ?rest = filter (\<lambda>x. x \<in> set ?left) es"
      unfolding filter_filter by (intro filter_cong) auto
    then have "?left = filter (\<lambda>x. x \<in> set ?left) es" using IH by (simp add: shrunk_def)
    moreover have "\<exists>t. ?age x = Some t \<and> (\<forall>e'\<in>set ?left. \<forall>t'. ?age e' = Some t' \<longrightarrow> t \<le> t')"
      if "x \<in> set es - set ?left" for x
    proof (cases "x = e")
      case True
      then show ?thesis using e(3) least sub by auto
    next
      case False
      then have "x \<in> set ?rest - set ?left" using that only by auto
      then show ?thesis using IH unfolding shrunk_def by blast
    qed
    moreover have "limit m \<le> length ?left" using IH len False by (auto simp: shrunk_def)
    ultimately show ?thesis using IH unfolding eq shrunk_def by blast
  qed
qed

end

end
