(* ===== verification/Conversation.thy ===== *)
theory Conversation
  imports Provider Bounded_Registry
begin

text \<open>
  The conversation registry of \<open>agent/conversation.go\<close>. The registry maps conversation IDs to
  addresses of conversation states, and the states live in a store, because a run keeps the
  pointer it was given while other runs create and evict conversations. The list of entries
  stands for the Go map in some iteration order. \<open>registry_step\<close> interleaves the critical
  sections of any number of threads.
\<close>

section \<open>Data\<close>

definition defaultConversationTurns :: int where "defaultConversationTurns = 50"
definition defaultMaxConversations :: nat where "defaultMaxConversations = 256"

record conversationTurn =
  ct_messages :: "Message list"

record conversationState =
  cs_turns :: "conversationTurn list"
  cs_active :: int
  cs_lastUsed :: u64

record ConversationRegistry =
  rg_maxTurns :: int
  rg_maxConversations :: nat
  rg_sequence :: u64
  rg_conversations :: "(string \<times> nat) list"
  rg_store :: "nat \<Rightarrow> conversationState"
  rg_next :: nat

definition NewConversationRegistry :: "int \<Rightarrow> ConversationRegistry result" where
  "NewConversationRegistry maxTurns =
     (if maxTurns \<le> 0 then Inl (Errorf ''create conversation registry: max turns must be positive'')
      else Inr \<lparr> rg_maxTurns = maxTurns, rg_maxConversations = defaultMaxConversations, rg_sequence = 0,
        rg_conversations = [],
        rg_store = (\<lambda>_. \<lparr> cs_turns = [], cs_active = 0, cs_lastUsed = 0 \<rparr>), rg_next = 0 \<rparr>)"

definition newDefaultConversationRegistry :: "ConversationRegistry result" where
  "newDefaultConversationRegistry = NewConversationRegistry defaultConversationTurns"

abbreviation conversation :: "ConversationRegistry \<Rightarrow> nat \<Rightarrow> conversationState" where
  "conversation r a \<equiv> rg_store r a"

definition update_conversation ::
  "nat \<Rightarrow> (conversationState \<Rightarrow> conversationState) \<Rightarrow> ConversationRegistry \<Rightarrow> ConversationRegistry" where
  "update_conversation a f r = r\<lparr>rg_store := (rg_store r)(a := f (rg_store r a))\<rparr>"

section \<open>Eviction\<close>

definition touchLocked :: "nat \<Rightarrow> ConversationRegistry \<Rightarrow> ConversationRegistry" where
  "touchLocked a r =
     (let r = r\<lparr>rg_sequence := rg_sequence r + 1\<rparr> in
      update_conversation a (\<lambda>c. c\<lparr>cs_lastUsed := rg_sequence r\<rparr>) r)"

text \<open>One pass over the entries; the empty ID stands for "none found yet".\<close>

definition older :: "(nat \<Rightarrow> conversationState) \<Rightarrow> string \<times> u64 \<Rightarrow> string \<times> nat \<Rightarrow> string \<times> u64" where
  "older store oldest entry =
     (case (oldest, entry) of ((oldestID, oldestSequence), (cid, a)) \<Rightarrow>
        if cs_active (store a) \<noteq> 0 then (oldestID, oldestSequence)
        else if oldestID = [] \<or> cs_lastUsed (store a) < oldestSequence then (cid, cs_lastUsed (store a))
        else (oldestID, oldestSequence))"

definition oldestInactive :: "(nat \<Rightarrow> conversationState) \<Rightarrow> (string \<times> nat) list \<Rightarrow> string" where
  "oldestInactive store entries = fst (foldl (older store) ([], 0) entries)"

definition delete_entry :: "string \<Rightarrow> (string \<times> nat) list \<Rightarrow> (string \<times> nat) list" where
  "delete_entry cid entries = filter (\<lambda>e. fst e \<noteq> cid) entries"

text \<open>A conversation may go when no run holds it; its age is its last use.\<close>

definition conversation_age :: "conversationState \<Rightarrow> u64 option" where
  "conversation_age c = (if cs_active c = 0 then Some (cs_lastUsed c) else None)"

interpretation inactive_scan: oldest_scan conversation_age older oldestInactive
proof
  show "older store (i, t) e = (case conversation_age (store (snd e)) of
      None \<Rightarrow> (i, t) | Some u \<Rightarrow> if i = [] \<or> u < t then (fst e, u) else (i, t))" for store i t e
    by (simp add: older_def conversation_age_def split: prod.split)
qed (auto simp: oldestInactive_def)

function evict :: "(nat \<Rightarrow> conversationState) \<Rightarrow> nat \<Rightarrow> (string \<times> nat) list \<Rightarrow> (string \<times> nat) list" where
  "evict store maxConversations entries =
     (if length entries \<le> maxConversations then entries
      else let oldestID = oldestInactive store entries in
        if oldestID = [] then entries
        else evict store maxConversations (delete_entry oldestID entries))"
  by pat_completeness auto
termination
  by (relation "measure (\<lambda>(_, _, entries). length entries)")
    (auto simp: delete_entry_def inactive_scan.scan_drops)

declare evict.simps [simp del]

interpretation conversation_room: bounded_registry conversation_age older oldestInactive "\<lambda>m store. evict store m" "\<lambda>m. m"
  by unfold_locales (simp add: evict.simps delete_entry_def Let_def)

definition evictInactiveLocked :: "ConversationRegistry \<Rightarrow> ConversationRegistry" where
  "evictInactiveLocked r =
     r\<lparr>rg_conversations := evict (rg_store r) (rg_maxConversations r) (rg_conversations r)\<rparr>"

section \<open>Acquiring and releasing\<close>

text \<open>The critical section under the registry's mutex; locking the conversation is a step of its own.\<close>

definition acquireConversationState ::
  "string \<Rightarrow> bool \<Rightarrow> ConversationRegistry \<Rightarrow> nat option \<times> ConversationRegistry" where
  "acquireConversationState cid create r =
     (let (found, r) = (case map_of (rg_conversations r) cid of
          Some a \<Rightarrow> (Some a, r)
        | None \<Rightarrow>
            if create then
              (Some (rg_next r), (update_conversation (rg_next r)
                 (\<lambda>_. \<lparr> cs_turns = [], cs_active = 0, cs_lastUsed = 0 \<rparr>) r)
                 \<lparr>rg_conversations := rg_conversations r @ [(cid, rg_next r)], rg_next := Suc (rg_next r)\<rparr>)
            else (None, r)) in
      case found of
        None \<Rightarrow> (None, r)
      | Some a \<Rightarrow>
          (Some a, evictInactiveLocked (touchLocked a
             (update_conversation a (\<lambda>c. c\<lparr>cs_active := cs_active c + 1\<rparr>) r))))"

definition acquireConversation :: "string \<Rightarrow> ConversationRegistry \<Rightarrow> nat option \<times> ConversationRegistry" where
  "acquireConversation cid r = acquireConversationState cid True r"

definition releaseConversation :: "nat \<Rightarrow> ConversationRegistry \<Rightarrow> ConversationRegistry" where
  "releaseConversation a r =
     evictInactiveLocked (touchLocked a
       (update_conversation a (\<lambda>c. c\<lparr>cs_active := cs_active c - 1\<rparr>) r))"

section \<open>History\<close>

definition cloneProviderMessage :: "Message \<Rightarrow> Message" where
  "cloneProviderMessage message = message"

definition messagesLocked :: "conversationState \<Rightarrow> Message list" where
  "messagesLocked c = concat (map (\<lambda>turn. map cloneProviderMessage (ct_messages turn)) (cs_turns c))"

definition append_turn :: "int \<Rightarrow> Message list \<Rightarrow> conversationTurn list \<Rightarrow> conversationTurn list" where
  "append_turn maxTurns messages turns =
     (let turns = turns @ [\<lparr> ct_messages = map cloneProviderMessage messages \<rparr>];
          extra = int (length turns) - maxTurns in
      if 0 < extra then take (nat maxTurns) (drop (nat extra) turns @ drop (length turns - nat extra) turns)
      else turns)"

definition appendTurnLocked :: "nat \<Rightarrow> Message list \<Rightarrow> ConversationRegistry \<Rightarrow> ConversationRegistry" where
  "appendTurnLocked a messages r =
     update_conversation a (\<lambda>c. c\<lparr>cs_turns := append_turn (rg_maxTurns r) messages (cs_turns c)\<rparr>) r"

definition Snapshot :: "string \<Rightarrow> ConversationRegistry \<Rightarrow> Message list \<times> ConversationRegistry" where
  "Snapshot cid r =
     (case acquireConversationState cid False r of
        (None, r) \<Rightarrow> ([], r)
      | (Some a, r) \<Rightarrow> (messagesLocked (conversation r a), releaseConversation a r))"

section \<open>Eviction is least recently used\<close>

abbreviation inactive :: "(nat \<Rightarrow> conversationState) \<Rightarrow> string \<times> nat \<Rightarrow> bool" where
  "inactive store e \<equiv> cs_active (store (snd e)) = 0"

abbreviation used :: "(nat \<Rightarrow> conversationState) \<Rightarrow> string \<times> nat \<Rightarrow> u64" where
  "used store e \<equiv> cs_lastUsed (store (snd e))"

definition entry_ids_ok :: "(string \<times> nat) list \<Rightarrow> bool" where
  "entry_ids_ok es \<longleftrightarrow> distinct (map fst es) \<and> [] \<notin> set (map fst es)"

definition lru_kept :: "(nat \<Rightarrow> conversationState) \<Rightarrow> nat \<Rightarrow> (string \<times> nat) list \<Rightarrow> (string \<times> nat) list \<Rightarrow> bool" where
  "lru_kept store m es kept \<longleftrightarrow>
     kept = filter (\<lambda>e. e \<in> set kept) es
     \<and> (\<forall>e\<in>set es. \<not> inactive store e \<longrightarrow> e \<in> set kept)
     \<and> (\<forall>e\<in>set es - set kept. \<forall>e'\<in>set kept. inactive store e' \<longrightarrow> used store e \<le> used store e')
     \<and> length kept = min (length es) (max m (length (filter (\<lambda>e. \<not> inactive store e) es)))"

lemma evict_lru_kept:
  assumes "entry_ids_ok es"
  shows "lru_kept store m es (evict store m es)"
proof -
  have "distinct (map fst es)" "\<forall>e\<in>set es. fst e \<noteq> []" using assms by (force simp: entry_ids_ok_def)+
  then have shrunk: "shrunk (\<lambda>e. conversation_age (store (snd e))) m es (evict store m es)"
    by (rule conversation_room.shrink_shrunk)
  have age: "conversation_age c = None \<longleftrightarrow> cs_active c \<noteq> 0" "conversation_age c = Some t \<longleftrightarrow> cs_active c = 0 \<and> cs_lastUsed c = t" for c t
    by (simp_all add: conversation_age_def)
  show ?thesis using shrunk shrunk_length [OF shrunk] shrunk_stays [OF shrunk]
    unfolding lru_kept_def shrunk_def age by force
qed

text \<open>Eviction is least recently used whatever order the Go map is iterated in: every active
  conversation stays, the others stay in their order or go, none that goes was used later than
  an inactive one that stays, and just as many go as are needed and possible.\<close>

theorem eviction_is_lru:
  assumes "distinct (map fst (rg_conversations r))" and "[] \<notin> set (map fst (rg_conversations r))"
  shows "lru_kept (rg_store r) (rg_maxConversations r) (rg_conversations r)
    (rg_conversations (evictInactiveLocked r))"
  using evict_lru_kept [of "rg_conversations r"] assms by (simp add: evictInactiveLocked_def entry_ids_ok_def)

section \<open>History keeps the last turns\<close>

lemma append_turn_eq:
  assumes "0 < maxTurns"
  shows "append_turn maxTurns messages turns =
    (let turns = turns @ [\<lparr> ct_messages = messages \<rparr>] in drop (length turns - nat maxTurns) turns)"
proof -
  obtain m where m: "maxTurns = int m" using assms by (metis zero_less_imp_eq_int)
  define L where "L = turns @ [\<lparr> ct_messages = messages \<rparr>]"
  have "append_turn maxTurns messages turns =
      (if m < length L then take m (drop (length L - m) L @ drop m L) else L)"
    unfolding append_turn_def m L_def [symmetric] cloneProviderMessage_def [abs_def] list.map_ident Let_def
    by (simp add: L_def [symmetric] nat_diff_distrib)
  then show ?thesis by (simp add: L_def [symmetric] m)
qed

lemma drop_snoc_drop:
  "0 < m \<Longrightarrow> drop (length (drop (length xs - m) xs @ [x]) - m) (drop (length xs - m) xs @ [x])
     = drop (length (xs @ [x]) - m) (xs @ [x])"
  by (cases "length xs < m") (auto simp: Suc_diff_le)

text \<open>After any sequence of turns the conversation holds exactly the last \<open>maxTurns\<close> of them, in
  order: nothing else is lost, duplicated or reordered.\<close>

theorem history_keeps_last_turns:
  assumes "NewConversationRegistry maxTurns = Inr r"
  shows "foldl (\<lambda>turns messages. append_turn (rg_maxTurns r) messages turns) [] ts =
    drop (length ts - nat maxTurns) (map (\<lambda>messages. \<lparr> ct_messages = messages \<rparr>) ts)"
proof -
  have m: "0 < maxTurns" "rg_maxTurns r = maxTurns"
    using assms by (auto simp: NewConversationRegistry_def split: if_splits)
  show ?thesis
  proof (induction ts rule: rev_induct)
    case Nil
    then show ?case by simp
  next
    case (snoc t ts)
    then show ?case
      using drop_snoc_drop [of "nat maxTurns" "map (\<lambda>messages. \<lparr> ct_messages = messages \<rparr>) ts" "\<lparr> ct_messages = t \<rparr>"] m
      by (simp add: append_turn_eq Let_def)
  qed
qed

section \<open>Threads\<close>

text \<open>
  A thread that runs or snapshots a conversation passes four atomic steps: it acquires the state
  under the registry's mutex, locks the state, unlocks it and releases it under the registry's
  mutex. While it holds the lock it may append a turn. \<open>sy_owner\<close> is the mutex of each state.
\<close>

datatype phase = Waiting | Holding | Unlocked

record thread =
  th_addr :: nat
  th_cid :: string
  th_phase :: phase

record system =
  sy_registry :: ConversationRegistry
  sy_threads :: "nat \<rightharpoonup> thread"
  sy_owner :: "nat \<rightharpoonup> nat"

inductive registry_step :: "system \<Rightarrow> system \<Rightarrow> bool" where
  step_acquire:
    "sy_threads s t = None \<Longrightarrow> cid \<noteq> [] \<Longrightarrow>
     acquireConversationState cid create (sy_registry s) = (Some a, r) \<Longrightarrow>
     registry_step s (s\<lparr>sy_registry := r,
       sy_threads := (sy_threads s)(t \<mapsto> \<lparr> th_addr = a, th_cid = cid, th_phase = Waiting \<rparr>)\<rparr>)"
| step_lock:
    "sy_threads s t = Some th \<Longrightarrow> th_phase th = Waiting \<Longrightarrow> sy_owner s (th_addr th) = None \<Longrightarrow>
     registry_step s (s\<lparr>sy_threads := (sy_threads s)(t \<mapsto> th\<lparr>th_phase := Holding\<rparr>),
       sy_owner := (sy_owner s)(th_addr th \<mapsto> t)\<rparr>)"
| step_append:
    "sy_threads s t = Some th \<Longrightarrow> th_phase th = Holding \<Longrightarrow>
     registry_step s (s\<lparr>sy_registry := appendTurnLocked (th_addr th) messages (sy_registry s)\<rparr>)"
| step_unlock:
    "sy_threads s t = Some th \<Longrightarrow> th_phase th = Holding \<Longrightarrow>
     registry_step s (s\<lparr>sy_threads := (sy_threads s)(t \<mapsto> th\<lparr>th_phase := Unlocked\<rparr>),
       sy_owner := (sy_owner s)(th_addr th := None)\<rparr>)"
| step_release:
    "sy_threads s t = Some th \<Longrightarrow> th_phase th = Unlocked \<Longrightarrow>
     registry_step s (s\<lparr>sy_registry := releaseConversation (th_addr th) (sy_registry s),
       sy_threads := (sy_threads s)(t := None)\<rparr>)"

inductive registry_reachable :: "int \<Rightarrow> system \<Rightarrow> bool" for maxTurns where
  reach_init:
    "NewConversationRegistry maxTurns = Inr r \<Longrightarrow>
     registry_reachable maxTurns \<lparr> sy_registry = r, sy_threads = Map.empty, sy_owner = Map.empty \<rparr>"
| reach_step:
    "registry_reachable maxTurns s \<Longrightarrow> registry_step s s' \<Longrightarrow> registry_reachable maxTurns s'"

inductive_cases registry_stepE: "registry_step s s'"

text \<open>The threads that were given a state, whatever phase they are in.\<close>

definition users :: "(nat \<rightharpoonup> thread) \<Rightarrow> nat \<Rightarrow> nat set" where
  "users threads a = {t. \<exists>th. threads t = Some th \<and> th_addr th = a}"

definition entries_ok :: "ConversationRegistry \<Rightarrow> bool" where
  "entries_ok r \<longleftrightarrow> entry_ids_ok (rg_conversations r) \<and> distinct (map snd (rg_conversations r))
     \<and> (\<forall>e\<in>set (rg_conversations r). snd e < rg_next r)"

definition users_ok :: "ConversationRegistry \<Rightarrow> (nat \<rightharpoonup> thread) \<Rightarrow> bool" where
  "users_ok r threads \<longleftrightarrow> finite (dom threads)
     \<and> (\<forall>t th. threads t = Some th \<longrightarrow> (th_cid th, th_addr th) \<in> set (rg_conversations r))
     \<and> (\<forall>a < rg_next r. cs_active (conversation r a) = int (card (users threads a)))"

definition owner_ok :: "(nat \<rightharpoonup> thread) \<Rightarrow> (nat \<rightharpoonup> nat) \<Rightarrow> bool" where
  "owner_ok threads owner \<longleftrightarrow>
     (\<forall>a t. owner a = Some t \<longleftrightarrow> (\<exists>th. threads t = Some th \<and> th_addr th = a \<and> th_phase th = Holding))"

definition size_ok :: "ConversationRegistry \<Rightarrow> bool" where
  "size_ok r \<longleftrightarrow> length (rg_conversations r) \<le> rg_maxConversations r
     \<or> (\<forall>e\<in>set (rg_conversations r). \<not> inactive (rg_store r) e)"

definition turns_ok :: "int \<Rightarrow> ConversationRegistry \<Rightarrow> bool" where
  "turns_ok maxTurns r \<longleftrightarrow> 0 < maxTurns \<and> rg_maxTurns r = maxTurns \<and> rg_maxConversations r = defaultMaxConversations
     \<and> (\<forall>a < rg_next r. int (length (cs_turns (conversation r a))) \<le> maxTurns)"

section \<open>Every operation keeps the invariant\<close>

lemma touchLocked_fields [simp]:
  "rg_conversations (touchLocked a r) = rg_conversations r" "rg_next (touchLocked a r) = rg_next r"
  "rg_maxTurns (touchLocked a r) = rg_maxTurns r" "rg_maxConversations (touchLocked a r) = rg_maxConversations r"
  "cs_active (conversation (touchLocked a r) b) = cs_active (conversation r b)"
  "cs_turns (conversation (touchLocked a r) b) = cs_turns (conversation r b)"
  by (simp_all add: touchLocked_def Let_def update_conversation_def)

lemma update_conversation_fields [simp]:
  "rg_conversations (update_conversation a f r) = rg_conversations r"
  "rg_next (update_conversation a f r) = rg_next r"
  "rg_maxTurns (update_conversation a f r) = rg_maxTurns r"
  "rg_maxConversations (update_conversation a f r) = rg_maxConversations r"
  "conversation (update_conversation a f r) b = (if b = a then f (conversation r a) else conversation r b)"
  by (simp_all add: update_conversation_def)

lemma evictInactiveLocked_fields [simp]:
  "rg_next (evictInactiveLocked r) = rg_next r" "rg_maxTurns (evictInactiveLocked r) = rg_maxTurns r"
  "rg_maxConversations (evictInactiveLocked r) = rg_maxConversations r"
  "rg_store (evictInactiveLocked r) = rg_store r"
  by (simp_all add: evictInactiveLocked_def)

lemma entries_ok_same:
  "rg_conversations r' = rg_conversations r \<Longrightarrow> rg_next r' = rg_next r \<Longrightarrow> entries_ok r \<Longrightarrow> entries_ok r'"
  by (simp add: entries_ok_def)

lemma evict_kept:
  assumes "entries_ok r"
  defines "r' \<equiv> evictInactiveLocked r"
  shows "entries_ok r'" and "size_ok r'" and "set (rg_conversations r') \<subseteq> set (rg_conversations r)"
    and "\<And>e. e \<in> set (rg_conversations r) \<Longrightarrow> \<not> inactive (rg_store r) e \<Longrightarrow> e \<in> set (rg_conversations r')"
proof -
  let ?es = "rg_conversations r" let ?kept = "rg_conversations r'"
  let ?active = "filter (\<lambda>e. \<not> inactive (rg_store r) e) ?es"
  have ids: "entry_ids_ok ?es" using assms(1) by (simp add: entries_ok_def)
  have lru: "lru_kept (rg_store r) (rg_maxConversations r) ?es ?kept"
    unfolding r'_def evictInactiveLocked_def using evict_lru_kept [OF ids] by simp
  from lru obtain P where P: "?kept = filter P ?es" unfolding lru_kept_def by blast
  show sub: "set ?kept \<subseteq> set ?es" unfolding P by auto
  show act: "e \<in> set ?kept" if "e \<in> set ?es" "\<not> inactive (rg_store r) e" for e
    using lru that unfolding lru_kept_def by blast
  show "entries_ok r'"
    using assms(1) sub by (auto simp: entries_ok_def entry_ids_ok_def r'_def P [unfolded r'_def] distinct_map_filter)
  show "size_ok r'"
  proof (cases "length ?kept \<le> rg_maxConversations r")
    case True
    then show ?thesis by (simp add: size_ok_def r'_def)
  next
    case False
    have "length ?kept = min (length ?es) (max (rg_maxConversations r) (length ?active))"
      using lru unfolding lru_kept_def by blast
    with False have "length ?kept = length ?active"
      using length_filter_le [of "\<lambda>e. \<not> inactive (rg_store r) e" ?es] by auto
    moreover have "distinct ?es" using ids by (simp add: entry_ids_ok_def distinct_map)
    ultimately have "card (set ?kept) = card (set ?active)"
      unfolding P using distinct_card [OF distinct_filter] by metis
    moreover have "set ?active \<subseteq> set ?kept" using act by auto
    ultimately have "set ?active = set ?kept" by (intro card_subset_eq) auto
    then show ?thesis by (auto simp: size_ok_def r'_def)
  qed
qed

lemma users_ok_evict:
  assumes "entries_ok r" and "users_ok r threads"
  shows "users_ok (evictInactiveLocked r) threads"
proof -
  have "(th_cid th, th_addr th) \<in> set (rg_conversations (evictInactiveLocked r))" if t: "threads t = Some th" for t th
  proof (rule evict_kept(4) [OF assms(1)])
    show e: "(th_cid th, th_addr th) \<in> set (rg_conversations r)" using assms(2) t by (simp add: users_ok_def)
    have "finite (users threads (th_addr th))"
      using assms(2) by (auto simp: users_ok_def users_def dom_def elim: rev_finite_subset)
    moreover have "t \<in> users threads (th_addr th)" using t by (simp add: users_def)
    ultimately have "0 < card (users threads (th_addr th))" by (auto simp: card_gt_0_iff)
    moreover have "th_addr th < rg_next r" using assms(1) e by (force simp: entries_ok_def)
    ultimately show "\<not> inactive (rg_store r) (th_cid th, th_addr th)"
      using assms(2) by (simp add: users_ok_def)
  qed
  with assms(2) show ?thesis by (auto simp: users_ok_def)
qed

lemma users_insert:
  "threads t = None \<Longrightarrow> users (threads(t \<mapsto> th)) a = (if a = th_addr th then insert t (users threads a) else users threads a)"
  by (auto simp: users_def)

lemma users_remove:
  "threads t = Some th \<Longrightarrow> users (threads(t := None)) a = (if a = th_addr th then users threads a - {t} else users threads a)"
  by (auto simp: users_def)

lemma users_phase: "threads t = Some th \<Longrightarrow> users (threads(t \<mapsto> th\<lparr>th_phase := p\<rparr>)) a = users threads a"
  by (auto simp: users_def)

lemma users_finite: "finite (dom threads) \<Longrightarrow> finite (users threads a)"
  by (rule finite_subset [of _ "dom threads"]) (auto simp: users_def)

lemma found_or_created:
  assumes "entries_ok r" and "users_ok r threads" and "turns_ok maxTurns r" and "cid \<noteq> []"
    and "(case map_of (rg_conversations r) cid of
          Some a \<Rightarrow> (Some a, r)
        | None \<Rightarrow>
            if create then
              (Some (rg_next r), (update_conversation (rg_next r)
                 (\<lambda>_. \<lparr> cs_turns = [], cs_active = 0, cs_lastUsed = 0 \<rparr>) r)
                 \<lparr>rg_conversations := rg_conversations r @ [(cid, rg_next r)], rg_next := Suc (rg_next r)\<rparr>)
            else (None, r)) = (Some a, r1)"
  shows "entries_ok r1 \<and> users_ok r1 threads \<and> turns_ok maxTurns r1 \<and> (cid, a) \<in> set (rg_conversations r1)"
proof (cases "map_of (rg_conversations r) cid")
  case (Some a')
  with assms show ?thesis
    by (auto dest: map_of_SomeD)
next
  case None
  have none: "users threads (rg_next r) = {}"
    using assms(1,2) by (fastforce simp: users_def users_ok_def entries_ok_def)
  have "cid \<notin> fst ` set (rg_conversations r)" using None by (simp add: map_of_eq_None_iff)
  moreover have "rg_next r \<notin> snd ` set (rg_conversations r)" using assms(1) by (auto simp: entries_ok_def)
  moreover have "(c, b) \<in> set (rg_conversations r) \<Longrightarrow> b < rg_next r" for c b
    using assms(1) by (force simp: entries_ok_def)
  ultimately show ?thesis
    using assms none None
    by (auto simp: entries_ok_def entry_ids_ok_def users_ok_def turns_ok_def less_Suc_eq update_conversation_def
        split: if_splits)
qed

lemma acquire_ok:
  assumes "entries_ok r" and "users_ok r threads" and "turns_ok maxTurns r" and "cid \<noteq> []"
    and "threads t = None" and "acquireConversationState cid create r = (Some a, r')"
  defines "threads' \<equiv> threads(t \<mapsto> \<lparr> th_addr = a, th_cid = cid, th_phase = Waiting \<rparr>)"
  shows "entries_ok r'" and "users_ok r' threads'" and "turns_ok maxTurns r'" and "size_ok r'"
proof -
  from assms(6) obtain r1 where f: "(case map_of (rg_conversations r) cid of
          Some a \<Rightarrow> (Some a, r)
        | None \<Rightarrow>
            if create then
              (Some (rg_next r), (update_conversation (rg_next r)
                 (\<lambda>_. \<lparr> cs_turns = [], cs_active = 0, cs_lastUsed = 0 \<rparr>) r)
                 \<lparr>rg_conversations := rg_conversations r @ [(cid, rg_next r)], rg_next := Suc (rg_next r)\<rparr>)
            else (None, r)) = (Some a, r1)"
    and r': "r' = evictInactiveLocked (touchLocked a (update_conversation a (\<lambda>c. c\<lparr>cs_active := cs_active c + 1\<rparr>) r1))"
    by (auto simp: acquireConversationState_def Let_def split: prod.splits option.splits)
  from found_or_created [OF assms(1-4) f] have ok: "entries_ok r1" "users_ok r1 threads"
    "turns_ok maxTurns r1" "(cid, a) \<in> set (rg_conversations r1)" by simp_all
  let ?r2 = "touchLocked a (update_conversation a (\<lambda>c. c\<lparr>cs_active := cs_active c + 1\<rparr>) r1)"
  have e: "entries_ok ?r2" using ok(1) by (rule entries_ok_same [rotated 2]) simp_all
  have "finite (users threads b)" for b using ok(2) by (simp add: users_finite users_ok_def)
  moreover have "t \<notin> users threads b" for b using assms(5) by (simp add: users_def)
  ultimately have "users_ok ?r2 threads'"
    using ok(2,4) assms(5) by (auto simp: users_ok_def threads'_def users_insert)
  then show "entries_ok r'" "users_ok r' threads'" "size_ok r'"
    unfolding r' using evict_kept [OF e] users_ok_evict [OF e] by simp_all
  show "turns_ok maxTurns r'" using ok(3) by (simp add: r' turns_ok_def)
qed

lemma release_ok:
  assumes "entries_ok r" and "users_ok r threads" and "turns_ok maxTurns r" and "threads t = Some th"
  defines "r' \<equiv> releaseConversation (th_addr th) r"
  shows "entries_ok r'" and "users_ok r' (threads(t := None))" and "turns_ok maxTurns r'" and "size_ok r'"
proof -
  let ?r2 = "touchLocked (th_addr th) (update_conversation (th_addr th) (\<lambda>c. c\<lparr>cs_active := cs_active c - 1\<rparr>) r)"
  have e: "entries_ok ?r2" using assms(1) by (rule entries_ok_same [rotated 2]) simp_all
  have "finite (users threads b)" for b using assms(2) by (simp add: users_finite users_ok_def)
  moreover have t: "t \<in> users threads (th_addr th)" using assms(4) by (simp add: users_def)
  ultimately have "int (card (users threads (th_addr th) - {t})) = int (card (users threads (th_addr th))) - 1"
    by (metis card.remove add_diff_cancel_left' of_nat_Suc plus_1_eq_Suc)
  with assms(2,4) have "users_ok ?r2 (threads(t := None))"
    by (auto simp: users_ok_def users_remove split: if_splits)
  then show "entries_ok r'" "users_ok r' (threads(t := None))" "size_ok r'"
    unfolding r'_def releaseConversation_def using evict_kept [OF e] users_ok_evict [OF e] by simp_all
  show "turns_ok maxTurns r'" using assms(3) by (simp add: r'_def releaseConversation_def turns_ok_def)
qed

lemma append_turn_length: "0 < m \<Longrightarrow> int (length ts) \<le> m \<Longrightarrow> int (length (append_turn m messages ts)) \<le> m"
  by (auto simp: append_turn_eq Let_def)

lemma append_ok:
  assumes "entries_ok r" and "users_ok r threads" and "turns_ok maxTurns r" and "size_ok r"
  shows "entries_ok (appendTurnLocked a messages r)" and "users_ok (appendTurnLocked a messages r) threads"
    and "turns_ok maxTurns (appendTurnLocked a messages r)" and "size_ok (appendTurnLocked a messages r)"
proof -
  have same: "rg_conversations (appendTurnLocked a messages r) = rg_conversations r"
    "rg_next (appendTurnLocked a messages r) = rg_next r"
    "rg_maxConversations (appendTurnLocked a messages r) = rg_maxConversations r"
    "cs_active (conversation (appendTurnLocked a messages r) b) = cs_active (conversation r b)" for b
    by (simp_all add: appendTurnLocked_def)
  show "entries_ok (appendTurnLocked a messages r)" using assms(1) by (simp add: entries_ok_def same)
  show "users_ok (appendTurnLocked a messages r) threads" using assms(2) by (simp add: users_ok_def same)
  show "size_ok (appendTurnLocked a messages r)" using assms(4) by (simp add: size_ok_def same)
  show "turns_ok maxTurns (appendTurnLocked a messages r)"
    using assms(3) append_turn_length by (auto simp: turns_ok_def appendTurnLocked_def)
qed

definition registry_inv :: "int \<Rightarrow> system \<Rightarrow> bool" where
  "registry_inv maxTurns s \<longleftrightarrow>
     entries_ok (sy_registry s) \<and> users_ok (sy_registry s) (sy_threads s) \<and> turns_ok maxTurns (sy_registry s)
     \<and> size_ok (sy_registry s) \<and> owner_ok (sy_threads s) (sy_owner s)"

lemma users_ok_phase:
  "threads t = Some th \<Longrightarrow> users_ok r threads \<Longrightarrow> users_ok r (threads(t \<mapsto> th\<lparr>th_phase := p\<rparr>))"
  by (auto simp: users_ok_def users_phase)

lemma owner_ok_free:
  "owner_ok threads owner \<Longrightarrow> owner (th_addr th) = None \<Longrightarrow> threads t = Some th \<Longrightarrow> th_phase th \<noteq> Holding"
  unfolding owner_ok_def by (metis option.distinct(1))

lemma owner_ok_lock:
  assumes "owner_ok threads owner" and "threads t = Some th" and "owner (th_addr th) = None"
  shows "owner_ok (threads(t \<mapsto> th\<lparr>th_phase := Holding\<rparr>)) (owner(th_addr th \<mapsto> t))"
  using assms owner_ok_free [OF assms(1)] unfolding owner_ok_def by (auto split: if_splits)

lemma owner_ok_unique:
  "owner_ok threads owner \<Longrightarrow> threads t = Some th \<Longrightarrow> threads u = Some th' \<Longrightarrow> th_phase th = Holding \<Longrightarrow>
    th_phase th' = Holding \<Longrightarrow> th_addr th' = th_addr th \<Longrightarrow> u = t"
  unfolding owner_ok_def by (metis option.inject)

lemma owner_ok_unlock:
  assumes "owner_ok threads owner" and "threads t = Some th" and "th_phase th = Holding"
  shows "owner_ok (threads(t \<mapsto> th\<lparr>th_phase := Unlocked\<rparr>)) (owner(th_addr th := None))"
  unfolding owner_ok_def
proof (intro allI)
  fix a u
  have o: "owner b = Some v \<longleftrightarrow> (\<exists>th. threads v = Some th \<and> th_addr th = b \<and> th_phase th = Holding)" for b v
    using assms(1) by (simp add: owner_ok_def)
  show "(owner(th_addr th := None)) a = Some u \<longleftrightarrow>
    (\<exists>th'. (threads(t \<mapsto> th\<lparr>th_phase := Unlocked\<rparr>)) u = Some th' \<and> th_addr th' = a \<and> th_phase th' = Holding)"
  proof (cases "u = t")
    case True
    then show ?thesis using o [of a t] assms(2) by auto
  next
    case False
    have "\<not> (threads u = Some th' \<and> th_addr th' = th_addr th \<and> th_phase th' = Holding)" for th'
      using owner_ok_unique [OF assms(1,2) _ assms(3), of u th'] False by blast
    with False o [of a u] show ?thesis by auto
  qed
qed

lemma registry_inv_step: "registry_step s s' \<Longrightarrow> registry_inv maxTurns s \<Longrightarrow> registry_inv maxTurns s'"
proof (induction rule: registry_step.induct)
  case (step_acquire s t cid create a r)
  then show ?case
    using acquire_ok [of "sy_registry s" "sy_threads s" maxTurns cid t create a r]
    by (auto simp: registry_inv_def owner_ok_def)
next
  case (step_lock s t th)
  then show ?case by (auto simp: registry_inv_def users_ok_phase owner_ok_lock)
next
  case (step_append s t th messages)
  then show ?case using append_ok [of "sy_registry s"] by (auto simp: registry_inv_def)
next
  case (step_unlock s t th)
  then show ?case by (auto simp: registry_inv_def users_ok_phase owner_ok_unlock)
next
  case (step_release s t th)
  then show ?case using release_ok [of "sy_registry s" "sy_threads s" maxTurns t th]
    by (auto simp: registry_inv_def owner_ok_def)
qed

lemma reachable_inv: "registry_reachable maxTurns s \<Longrightarrow> registry_inv maxTurns s"
proof (induction rule: registry_reachable.induct)
  case (reach_init r)
  then show ?case
    by (auto simp: registry_inv_def NewConversationRegistry_def entries_ok_def entry_ids_ok_def users_ok_def
        turns_ok_def size_ok_def owner_ok_def users_def split: if_splits)
next
  case (reach_step s s')
  then show ?case by (blast intro: registry_inv_step)
qed

text \<open>C9: However the critical sections of concurrent runs interleave, a conversation in use is never
  evicted: every thread that was given a conversation's state finds that very state under its ID,
  so runs of one conversation always share one state, and at most one of them holds its lock.\<close>

theorem conversation_never_evicted_in_use:
  assumes "registry_reachable maxTurns s"
    and "sy_threads s t = Some th" and "sy_threads s u = Some th'"
  shows "map_of (rg_conversations (sy_registry s)) (th_cid th) = Some (th_addr th)
    \<and> (th_cid th = th_cid th' \<longleftrightarrow> th_addr th = th_addr th')
    \<and> (th_addr th = th_addr th' \<and> th_phase th = Holding \<and> th_phase th' = Holding \<longrightarrow> t = u)"
proof -
  from reachable_inv [OF assms(1)] have inv: "entries_ok (sy_registry s)"
    "users_ok (sy_registry s) (sy_threads s)" "owner_ok (sy_threads s) (sy_owner s)"
    by (simp_all add: registry_inv_def)
  let ?es = "rg_conversations (sy_registry s)"
  have e: "(th_cid th, th_addr th) \<in> set ?es" "(th_cid th', th_addr th') \<in> set ?es"
    using inv(2) assms(2,3) by (auto simp: users_ok_def)
  have d: "distinct (map fst ?es)" "distinct (map snd ?es)" using inv(1) by (auto simp: entries_ok_def entry_ids_ok_def)
  have m: "map_of ?es (th_cid th) = Some (th_addr th)" "map_of ?es (th_cid th') = Some (th_addr th')"
    using d(1) e by simp_all
  have "th_cid th = th_cid th' \<longleftrightarrow> th_addr th = th_addr th'"
    using d e by (force simp: distinct_map inj_on_def)
  with m owner_ok_unique [OF inv(3) assms(2,3)] show ?thesis by auto
qed

text \<open>In every reachable state the registry holds at most 256 conversations, unless all of them
  are in use, and no conversation keeps more than the configured number of turns.\<close>

theorem registry_bounded:
  assumes "registry_reachable maxTurns s"
  shows "(length (rg_conversations (sy_registry s)) \<le> 256
      \<or> (\<forall>e\<in>set (rg_conversations (sy_registry s)). cs_active (conversation (sy_registry s) (snd e)) \<noteq> 0))
    \<and> (\<forall>e\<in>set (rg_conversations (sy_registry s)).
        int (length (cs_turns (conversation (sy_registry s) (snd e)))) \<le> maxTurns)"
  using reachable_inv [OF assms]
  by (auto simp: registry_inv_def size_ok_def turns_ok_def entries_ok_def defaultMaxConversations_def)

section \<open>Examples\<close>

text \<open>Two runs of one conversation, the second waiting for the lock the first one holds.\<close>

definition sample_registry :: ConversationRegistry where
  "sample_registry = projr (NewConversationRegistry 2)"

definition sample_system :: system where
  "sample_system =
     (let r1 = snd (acquireConversation ''c'' sample_registry); r2 = snd (acquireConversation ''c'' r1) in
      \<lparr> sy_registry = r2,
        sy_threads = [1 \<mapsto> \<lparr> th_addr = 0, th_cid = ''c'', th_phase = Waiting \<rparr>,
          2 \<mapsto> \<lparr> th_addr = 0, th_cid = ''c'', th_phase = Waiting \<rparr>, 1 \<mapsto> \<lparr> th_addr = 0, th_cid = ''c'', th_phase = Holding \<rparr>],
        sy_owner = [0 \<mapsto> 1] \<rparr>)"

lemma sample_new: "NewConversationRegistry 2 = Inr sample_registry"
  by (simp add: sample_registry_def NewConversationRegistry_def)

lemma sample_acquire:
  "acquireConversationState ''c'' True sample_registry = (Some 0, snd (acquireConversation ''c'' sample_registry))"
  "acquireConversationState ''c'' True (snd (acquireConversation ''c'' sample_registry))
     = (Some 0, snd (acquireConversation ''c'' (snd (acquireConversation ''c'' sample_registry))))"
  by (simp_all add: acquireConversation_def acquireConversationState_def sample_registry_def
      NewConversationRegistry_def Let_def evictInactiveLocked_def evict.simps defaultMaxConversations_def)

lemma sample_reachable: "registry_reachable 2 sample_system"
proof -
  note s0 = reach_init [OF sample_new]
  note s1 = reach_step [OF s0 step_acquire [of _ 1 "''c''" True 0 "snd (acquireConversation ''c'' sample_registry)"]]
  note s2 = reach_step [OF s1 step_acquire [of _ 2 "''c''" True 0
    "snd (acquireConversation ''c'' (snd (acquireConversation ''c'' sample_registry)))"]]
  note s3 = reach_step [OF s2 step_lock [of _ 1 "\<lparr> th_addr = 0, th_cid = ''c'', th_phase = Waiting \<rparr>"]]
  from s3 show ?thesis by (simp add: sample_system_def sample_acquire Let_def)
qed

theorem conversation_never_evicted_in_use_witness:
  "map_of (rg_conversations (sy_registry sample_system)) ''c'' = Some 0"
  using conversation_never_evicted_in_use [OF sample_reachable,
    of 1 "\<lparr> th_addr = 0, th_cid = ''c'', th_phase = Holding \<rparr>"
       2 "\<lparr> th_addr = 0, th_cid = ''c'', th_phase = Waiting \<rparr>"]
  by (simp add: sample_system_def Let_def)

theorem registry_bounded_witness:
  "length (rg_conversations (sy_registry sample_system)) \<le> 256
    \<or> (\<forall>e\<in>set (rg_conversations (sy_registry sample_system)).
        cs_active (conversation (sy_registry sample_system) (snd e)) \<noteq> 0)"
  using registry_bounded [OF sample_reachable] by blast

theorem history_keeps_last_turns_witness:
  "\<forall>m. foldl (\<lambda>turns messages. append_turn (rg_maxTurns sample_registry) messages turns) [] [[], [m], [m, m]]
    = [\<lparr> ct_messages = [m] \<rparr>, \<lparr> ct_messages = [m, m] \<rparr>]"
proof
  fix m
  show "foldl (\<lambda>turns messages. append_turn (rg_maxTurns sample_registry) messages turns) [] [[], [m], [m, m]]
    = [\<lparr> ct_messages = [m] \<rparr>, \<lparr> ct_messages = [m, m] \<rparr>]"
    using history_keeps_last_turns [OF sample_new, of "[[], [m], [m, m]]"] by simp
qed

text \<open>Three conversations where two may stay: the one in use and the one used last.\<close>

definition crowded_registry :: ConversationRegistry where
  "crowded_registry = \<lparr> rg_maxTurns = 2, rg_maxConversations = 2, rg_sequence = 9,
     rg_conversations = [(''a'', 0), (''b'', 1), (''c'', 2)],
     rg_store = (\<lambda>a. \<lparr> cs_turns = [], cs_active = (if a = 0 then 1 else 0), cs_lastUsed = of_nat a + 3 \<rparr>),
     rg_next = 3 \<rparr>"

theorem eviction_is_lru_witness:
  "lru_kept (rg_store crowded_registry) 2 (rg_conversations crowded_registry) [(''a'', 0), (''c'', 2)]"
proof -
  have "rg_conversations (evictInactiveLocked crowded_registry) = [(''a'', 0), (''c'', 2)]"
    by (simp add: crowded_registry_def evictInactiveLocked_def evict.simps oldestInactive_def older_def
        delete_entry_def)
  with eviction_is_lru [of crowded_registry] show ?thesis by (simp add: crowded_registry_def)
qed

end
