(* ===== verification/Runner.thy ===== *)
theory Runner
  imports Conversation Tool_Common Config_Types "HOL-Library.AList"
begin

text \<open>
  The agent runner of \<open>agent/runner.go\<close> and the data of \<open>agent/types.go\<close>. What the runner is
  given from outside is a parameter over a world \<open>'w\<close>: the model resolver, the streamer, which
  delivers events and may end in an error, the event callback, the wait for a tool's result,
  and the state of the context. The registry is passed along: the run holds its conversation's
  lock from the first step to the last.
\<close>

section \<open>Data: agent/types.go\<close>

datatype AgentEventKind =
    AgentEventUnknown | AgentEventTextDelta | AgentEventReasoningDelta | AgentEventToolCall | AgentEventUsage

text \<open>The result channel of a tool call event is read by \<open>cx_await\<close> below.\<close>

record AgentEvent =
  ae_Kind :: AgentEventKind
  ae_Text :: string
  ae_Usage :: TokenUsage
  ae_Tool :: ToolCall

record AgentToolResult =
  at_CallID :: string
  at_Content :: string
  at_IsError :: bool

definition no_usage :: TokenUsage where
  "no_usage = \<lparr> InputTokens = 0, OutputTokens = 0, CacheReadTokens = 0, CacheWriteTokens = 0 \<rparr>"

definition no_call :: ToolCall where
  "no_call = \<lparr> tc_ID = [], tc_Name = [], tc_Arguments = [] \<rparr>"

definition agent_event :: "AgentEventKind \<Rightarrow> AgentEvent" where
  "agent_event kind = \<lparr> ae_Kind = kind, ae_Text = [], ae_Usage = no_usage, ae_Tool = no_call \<rparr>"

section \<open>The runner and what it is given\<close>

type_synonym 'w Streamer = "Request \<Rightarrow> 'w \<Rightarrow> (Event list \<times> goerror option) \<times> 'w"
type_synonym 'w emitter = "AgentEvent \<Rightarrow> 'w \<Rightarrow> unit result \<times> 'w"

record 'w Runner =
  rn_resolveModel :: "string \<Rightarrow> ResolvedModel result"
  rn_newStreamer :: "ResolvedModel \<Rightarrow> 'w Streamer option result"
  rn_tools :: "Tool list"

text \<open>
  The context and the channel of one run: \<open>cx_Err\<close> is \<open>ctx.Err()\<close>, and \<open>cx_await\<close> the
  \<open>select\<close> between \<open>ctx.Done()\<close> and the result channel made for a call.
\<close>

record 'w run_context =
  cx_Err :: "'w \<Rightarrow> goerror option"
  cx_await :: "string \<Rightarrow> 'w \<Rightarrow> AgentToolResult result \<times> 'w"

definition cloneProviderMessages :: "Message list \<Rightarrow> Message list" where
  "cloneProviderMessages messages = map cloneProviderMessage messages"

definition cloneProviderTools :: "Tool list \<Rightarrow> Tool list" where
  "cloneProviderTools tools = tools"

definition validation_request :: "Tool list \<Rightarrow> Request" where
  "validation_request tools = \<lparr> rq_Model = ''validation'', rq_Messages =
     [\<lparr> m_Role = RoleUser, m_Content = ''validation'', m_ToolCalls = [], m_ToolCallID = [] \<rparr>],
     rq_Tools = tools \<rparr>"

definition NewRunner ::
  "(string \<Rightarrow> ResolvedModel result) option \<Rightarrow> (ResolvedModel \<Rightarrow> 'w Streamer option result) option \<Rightarrow>
   Tool list \<Rightarrow> 'w Runner result" where
  "NewRunner resolveModel newStreamer tools =
     (case resolveModel of
        None \<Rightarrow> Inl (Errorf ''create agent runner: model resolver is required'')
      | Some resolve \<Rightarrow> (case newStreamer of
          None \<Rightarrow> Inl (Errorf ''create agent runner: streamer factory is required'')
        | Some streamer \<Rightarrow>
            try_wrap (Wrapf ''create agent runner: '')
              (if cloneProviderTools tools \<noteq> [] then Request_Validate (validation_request (cloneProviderTools tools))
               else Inr ()) (\<lambda>_.
            Inr \<lparr> rn_resolveModel = resolve, rn_newStreamer = streamer, rn_tools = cloneProviderTools tools \<rparr>)))"

section \<open>Validation and tools of a run\<close>

definition validRunIdentifier :: "string \<Rightarrow> bool" where
  "validRunIdentifier v \<longleftrightarrow> v \<noteq> [] \<and> length v \<le> 1024 \<and> v = trimSpace v \<and> \<not> hasControl v"

definition validateRunRequest :: "RunRequest \<Rightarrow> unit result" where
  "validateRunRequest run =
     (if \<not> validRunIdentifier (ConversationID run) then
        Inl (Errorf ''execute agent turn: conversation ID is invalid'')
      else if \<not> validRunIdentifier (ModelID run) then
        Inl (Errorf ''execute agent turn: model ID is invalid'')
      else if trimSpace (UserText run) = [] then
        Inl (Errorf ''execute agent turn: user message is required'')
      else Inr ())"

definition merge_tool :: "Tool list \<times> string list \<Rightarrow> MCPToolDefinition \<Rightarrow> (Tool list \<times> string list) result" where
  "merge_tool = (\<lambda>(result', seen) definition'.
     if mcp_Name definition' \<in> set seen then
       Inl (Errorf ''duplicate tool name between built-in and MCP tools'')
     else Inr (result' @ [\<lparr> t_Name = mcp_Name definition', t_Description = mcp_Description definition',
         t_Parameters = mcp_InputSchema definition' \<rparr>], mcp_Name definition' # seen))"

definition mergeRunTools :: "Tool list \<Rightarrow> MCPToolDefinition list \<Rightarrow> Tool list result" where
  "mergeRunTools static dynamic =
     try_then (foldM merge_tool (cloneProviderTools static, map t_Name static) dynamic) (\<lambda>(result', _).
       if result' = [] then Inr result'
       else try_then (Request_Validate (validation_request result')) (\<lambda>_. Inr result'))"

section \<open>One pass over the provider's stream\<close>

record providerPassResult =
  pr_text :: string
  pr_toolCalls :: "ToolCall list"
  pr_usage :: Usage

record providerToolAccumulator =
  ac_id :: string
  ac_name :: string
  ac_arguments :: string
  ac_done :: bool

record pass_state =
  ps_text :: string
  ps_toolCalls :: "(int \<times> providerToolAccumulator) list"
  ps_usage :: Usage

definition zero_usage :: Usage where
  "zero_usage = \<lparr> u_InputTokens = 0, u_OutputTokens = 0, u_CacheReadTokens = 0, u_CacheWriteTokens = 0 \<rparr>"

definition empty_pass :: pass_state where
  "empty_pass = \<lparr> ps_text = [], ps_toolCalls = [], ps_usage = zero_usage \<rparr>"

definition new_accumulator :: providerToolAccumulator where
  "new_accumulator = \<lparr> ac_id = [], ac_name = [], ac_arguments = [], ac_done = False \<rparr>"

definition accumulate :: "ToolCallDelta \<Rightarrow> providerToolAccumulator \<Rightarrow> providerToolAccumulator" where
  "accumulate d acc = \<lparr>
     ac_id = (if d_ID d \<noteq> [] then d_ID d else ac_id acc),
     ac_name = (if d_Name d \<noteq> [] then d_Name d else ac_name acc),
     ac_arguments = ac_arguments acc @ d_ArgumentsDelta d,
     ac_done = (ac_done acc \<or> d_Done d) \<rparr>"

definition accumulator :: "int \<Rightarrow> (int \<times> providerToolAccumulator) list \<Rightarrow> providerToolAccumulator" where
  "accumulator i calls = (case map_of calls i of Some acc \<Rightarrow> acc | None \<Rightarrow> new_accumulator)"

text \<open>The callback of the stream: a new pass state or the error that ends the pass.\<close>

definition on_event :: "'w emitter \<Rightarrow> Event \<Rightarrow> pass_state \<Rightarrow> 'w \<Rightarrow> pass_state result \<times> 'w" where
  "on_event emit event ps w =
     (case Event_Validate event of
        Inl e \<Rightarrow> (Inl (Wrapf ''execute agent turn: '' e), w)
      | Inr _ \<Rightarrow> (case ev_Kind event of
          EventTextDelta \<Rightarrow>
            (case emit ((agent_event AgentEventTextDelta)\<lparr>ae_Text := ev_Text event\<rparr>) w of
               (Inl e, w) \<Rightarrow> (Inl e, w)
             | (Inr _, w) \<Rightarrow> (Inr (ps\<lparr>ps_text := ps_text ps @ ev_Text event\<rparr>), w))
        | EventReasoningDelta \<Rightarrow>
            (case emit ((agent_event AgentEventReasoningDelta)\<lparr>ae_Text := ev_Text event\<rparr>) w of
               (Inl e, w) \<Rightarrow> (Inl e, w)
             | (Inr _, w) \<Rightarrow> (Inr ps, w))
        | EventUsage \<Rightarrow> (Inr (ps\<lparr>ps_usage := ev_Usage event\<rparr>), w)
        | EventToolCallDelta \<Rightarrow>
            (let d = ev_ToolCall event in
             (Inr (ps\<lparr>ps_toolCalls := AList.update (d_Index d)
                (accumulate d (accumulator (d_Index d) (ps_toolCalls ps))) (ps_toolCalls ps)\<rparr>), w))
        | EventUnknown \<Rightarrow> (Inl (Errorf ''execute agent turn: provider event is unsupported''), w)))"

text \<open>After the first error the callback only repeats it.\<close>

fun on_events :: "'w emitter \<Rightarrow> Event list \<Rightarrow> pass_state \<Rightarrow> 'w \<Rightarrow> pass_state result \<times> 'w" where
  "on_events emit [] ps w = (Inr ps, w)"
| "on_events emit (event # events) ps w =
     (case on_event emit event ps w of
        (Inl e, w) \<Rightarrow> (Inl e, w)
      | (Inr ps, w) \<Rightarrow> on_events emit events ps w)"

definition candidate_call :: "string \<Rightarrow> providerToolAccumulator \<Rightarrow> ToolCall result" where
  "candidate_call model call =
     (let candidate = \<lparr> tc_ID = trimSpace (ac_id call), tc_Name = trimSpace (ac_name call),
        tc_Arguments = ac_arguments call \<rparr> in
      if \<not> ac_done call \<or> tc_ID candidate = [] \<or> tc_Name candidate = [] then
        Inl (Errorf ''execute agent turn: provider tool call is incomplete'')
      else try_wrap (Wrapf ''execute agent turn: '')
        (Request_Validate \<lparr> rq_Model = model, rq_Messages =
           [\<lparr> m_Role = RoleAssistant, m_Content = [], m_ToolCalls = [candidate], m_ToolCallID = [] \<rparr>],
           rq_Tools = [] \<rparr>) (\<lambda>_. Inr candidate))"

definition runProviderPass ::
  "'w run_context \<Rightarrow> 'w Streamer \<Rightarrow> Request \<Rightarrow> 'w emitter \<Rightarrow> 'w \<Rightarrow> providerPassResult result \<times> 'w" where
  "runProviderPass ctx streamer request emit w =
     (case streamer request w of ((events, err), w) \<Rightarrow>
      case on_events emit events empty_pass w of
        (Inl e, w) \<Rightarrow> (Inl e, w)
      | (Inr ps, w) \<Rightarrow>
          (case err of
             Some e \<Rightarrow> (case cx_Err ctx w of
                 Some ce \<Rightarrow> (Inl ce, w)
               | None \<Rightarrow> (Inl (Wrapf ''execute agent turn: provider stream: '' e), w))
           | None \<Rightarrow>
               (try_then (mapM (\<lambda>(i, call). candidate_call (rq_Model request) call)
                    (sort_key fst (ps_toolCalls ps))) (\<lambda>calls.
                  Inr \<lparr> pr_text = ps_text ps, pr_toolCalls = calls, pr_usage = ps_usage ps \<rparr>), w)))"

section \<open>A turn\<close>

definition user_message :: "string \<Rightarrow> Message" where
  "user_message text = \<lparr> m_Role = RoleUser, m_Content = text, m_ToolCalls = [], m_ToolCallID = [] \<rparr>"

definition assistant_message :: "string \<Rightarrow> ToolCall list \<Rightarrow> Message" where
  "assistant_message text calls = \<lparr> m_Role = RoleAssistant, m_Content = text, m_ToolCalls = calls, m_ToolCallID = [] \<rparr>"

definition tool_message :: "string \<Rightarrow> string \<Rightarrow> Message" where
  "tool_message callID content = \<lparr> m_Role = RoleTool, m_Content = content, m_ToolCalls = [], m_ToolCallID = callID \<rparr>"

definition add_usage :: "TokenUsage \<Rightarrow> Usage \<Rightarrow> TokenUsage" where
  "add_usage totalUsage u = \<lparr>
     InputTokens = InputTokens totalUsage + u_InputTokens u,
     OutputTokens = OutputTokens totalUsage + u_OutputTokens u,
     CacheReadTokens = CacheReadTokens totalUsage + u_CacheReadTokens u,
     CacheWriteTokens = CacheWriteTokens totalUsage + u_CacheWriteTokens u \<rparr>"

text \<open>The calls of one pass: each is offered, new, delivered and answered under its own ID.\<close>

fun deliver_calls ::
  "'w run_context \<Rightarrow> 'w emitter \<Rightarrow> string list \<Rightarrow> ToolCall list \<Rightarrow> Message list \<Rightarrow> string list \<Rightarrow> 'w \<Rightarrow>
   (Message list \<times> string list) result \<times> 'w" where
  "deliver_calls ctx emit allowed [] turn delivered w = (Inr (turn, delivered), w)"
| "deliver_calls ctx emit allowed (call # calls) turn delivered w =
     (if tc_Name call \<notin> set allowed then
        (Inl (Errorf ''execute agent turn: provider requested a tool that was not offered''), w)
      else if tc_ID call \<in> set delivered then
        (Inl (Errorf ''execute agent turn: provider repeated a tool call ID''), w)
      else case emit ((agent_event AgentEventToolCall)\<lparr>ae_Tool := call\<rparr>) w of
        (Inl e, w) \<Rightarrow> (Inl e, w)
      | (Inr _, w) \<Rightarrow> (case cx_await ctx (tc_ID call) w of
          (Inl e, w) \<Rightarrow> (Inl e, w)
        | (Inr result', w) \<Rightarrow>
            if at_CallID result' \<noteq> tc_ID call then
              (Inl (Errorf ''execute agent turn: tool result call ID does not match''), w)
            else deliver_calls ctx emit allowed calls
              (turn @ [tool_message (tc_ID call) (at_Content result')]) (tc_ID call # delivered) w))"

text \<open>The loop over provider passes; the number counts the passes left of the 16.\<close>

fun run_passes ::
  "nat \<Rightarrow> 'w run_context \<Rightarrow> 'w Streamer \<Rightarrow> 'w emitter \<Rightarrow> string \<Rightarrow> Tool list \<Rightarrow> Message list \<Rightarrow>
   Message list \<Rightarrow> string list \<Rightarrow> TokenUsage \<Rightarrow> 'w \<Rightarrow> (Message list \<times> TokenUsage) result \<times> 'w" where
  "run_passes 0 ctx streamer emit model tools base turn delivered totalUsage w =
     (Inl (Errorf ''execute agent turn: provider exceeded the tool continuation limit''), w)"
| "run_passes (Suc n) ctx streamer emit model tools base turn delivered totalUsage w =
     (let messages = cloneProviderMessages base @ cloneProviderMessages turn;
          request = \<lparr> rq_Model = model, rq_Messages = messages, rq_Tools = cloneProviderTools tools \<rparr> in
      case Request_Validate request of
        Inl e \<Rightarrow> (Inl (Wrapf ''execute agent turn: '' e), w)
      | Inr _ \<Rightarrow> (case runProviderPass ctx streamer request emit w of
          (Inl e, w) \<Rightarrow> (Inl e, w)
        | (Inr pass, w) \<Rightarrow>
            (let totalUsage = add_usage totalUsage (pr_usage pass) in
             if pr_toolCalls pass = [] then
               (if pr_text pass = [] then (Inl (Errorf ''execute agent turn: provider returned no assistant text''), w)
                else (Inr (turn @ [assistant_message (pr_text pass) []], totalUsage), w))
             else case deliver_calls ctx emit (map t_Name tools) (pr_toolCalls pass)
                 (turn @ [assistant_message (pr_text pass) (pr_toolCalls pass)]) delivered w of
               (Inl e, w) \<Rightarrow> (Inl e, w)
             | (Inr (turn, delivered), w) \<Rightarrow>
                 run_passes n ctx streamer emit model tools base turn delivered totalUsage w)))"

definition maxProviderPasses :: nat where "maxProviderPasses = 16"

text \<open>What a run does with its conversation, between acquiring and releasing it.\<close>

definition run_turn ::
  "'w Runner \<Rightarrow> 'w run_context \<Rightarrow> RunRequest \<Rightarrow> 'w emitter \<Rightarrow> nat \<Rightarrow> ConversationRegistry \<Rightarrow> 'w \<Rightarrow>
   unit result \<times> ConversationRegistry \<times> 'w" where
  "run_turn runner ctx run emit a r w =
     (case cx_Err ctx w of Some e \<Rightarrow> (Inl e, r, w) | None \<Rightarrow>
      case mergeRunTools (rn_tools runner) (MCPTools run) of
        Inl e \<Rightarrow> (Inl (Wrapf ''execute agent turn: '' e), r, w)
      | Inr turnTools \<Rightarrow> (case rn_resolveModel runner (ModelID run) of
          Inl e \<Rightarrow> (Inl (Wrapf ''execute agent turn: resolve model: '' e), r, w)
        | Inr resolved \<Rightarrow>
            if \<not> validRunIdentifier (rm_UpstreamModel resolved) then
              (Inl (Errorf ''execute agent turn: resolved upstream model is invalid''), r, w)
            else case rn_newStreamer runner resolved of
              Inl e \<Rightarrow> (Inl (Wrapf ''execute agent turn: create provider client: '' e), r, w)
            | Inr None \<Rightarrow> (Inl (Errorf ''execute agent turn: provider client is unavailable''), r, w)
            | Inr (Some streamer) \<Rightarrow>
                (case run_passes maxProviderPasses ctx streamer emit (rm_UpstreamModel resolved) turnTools
                    (messagesLocked (conversation r a)) [user_message (UserText run)] [] no_usage w of
                   (Inl e, w) \<Rightarrow> (Inl e, r, w)
                 | (Inr (turn, totalUsage), w) \<Rightarrow>
                     (let r = appendTurnLocked a turn r in
                      case emit ((agent_event AgentEventUsage)\<lparr>ae_Usage := totalUsage\<rparr>) w of
                        (res, w) \<Rightarrow> (res, r, w)))))"

definition runner_Execute ::
  "'w Runner option \<Rightarrow> 'w run_context option \<Rightarrow> RunRequest \<Rightarrow> 'w emitter option \<Rightarrow> ConversationRegistry \<Rightarrow> 'w \<Rightarrow>
   unit result \<times> ConversationRegistry \<times> 'w" where
  "runner_Execute runner ctx run emit r w =
     (case runner of None \<Rightarrow> (Inl (Errorf ''execute agent turn: runner is required''), r, w) | Some runner \<Rightarrow>
      case ctx of None \<Rightarrow> (Inl (Errorf ''execute agent turn: context is required''), r, w) | Some ctx \<Rightarrow>
      case emit of None \<Rightarrow> (Inl (Errorf ''execute agent turn: event callback is required''), r, w) | Some emit \<Rightarrow>
      case validateRunRequest run of Inl e \<Rightarrow> (Inl e, r, w) | Inr _ \<Rightarrow>
      case cx_Err ctx w of Some e \<Rightarrow> (Inl e, r, w) | None \<Rightarrow>
      case acquireConversation (ConversationID run) r of
        (None, r) \<Rightarrow> (Inl Panic, r, w)
      | (Some a, r) \<Rightarrow>
          (case run_turn runner ctx run emit a r w of
             (res, r, w) \<Rightarrow> (res, releaseConversation a r, w)))"

section \<open>The tools of a run\<close>

definition mcp_tool :: "MCPToolDefinition \<Rightarrow> Tool" where
  "mcp_tool d = \<lparr> t_Name = mcp_Name d, t_Description = mcp_Description d, t_Parameters = mcp_InputSchema d \<rparr>"

lemma mcp_tool_name [simp]: "t_Name (mcp_tool d) = mcp_Name d"
  by (simp add: mcp_tool_def)

lemma merge_fold:
  "foldM merge_tool (res, seen) ds = Inr r \<longleftrightarrow>
     distinct (map mcp_Name ds) \<and> mcp_Name ` set ds \<inter> set seen = {}
     \<and> r = (res @ map mcp_tool ds, rev (map mcp_Name ds) @ seen)"
proof (induction ds arbitrary: res seen)
  case Nil
  then show ?case by auto
next
  case (Cons d ds)
  have "merge_tool (res, seen) d =
      (if mcp_Name d \<in> set seen then Inl (Errorf ''duplicate tool name between built-in and MCP tools'')
       else Inr (res @ [mcp_tool d], mcp_Name d # seen))"
    by (simp add: merge_tool_def mcp_tool_def)
  then show ?case using Cons [of "res @ [mcp_tool d]" "mcp_Name d # seen"] by auto
qed

lemma validation_request_ok: "Request_Validate (validation_request ts) = Inr () \<longleftrightarrow> list_all tool_ok ts \<and> distinct (map t_Name ts)"
proof -
  have "validBoundedText ''validation'' 1024" by code_simp
  then show ?thesis by (simp add: validation_request_def result_iff)
qed

lemma mergeRunTools_iff:
  "mergeRunTools static dynamic = Inr ts \<longleftrightarrow>
     ts = static @ map mcp_tool dynamic \<and> list_all tool_ok ts \<and> distinct (map t_Name ts)"
proof -
  let ?all = "static @ map mcp_tool dynamic"
  have d: "distinct (map t_Name ?all) \<longleftrightarrow> distinct (map t_Name static) \<and> distinct (map mcp_Name dynamic)
      \<and> mcp_Name ` set dynamic \<inter> t_Name ` set static = {}"
    by (simp add: comp_def image_image Int_commute [of "t_Name ` set static"])
  have "mergeRunTools static dynamic = Inr ts \<longleftrightarrow>
      distinct (map mcp_Name dynamic) \<and> mcp_Name ` set dynamic \<inter> t_Name ` set static = {}
      \<and> ts = ?all \<and> (ts \<noteq> [] \<longrightarrow> Request_Validate (validation_request ts) = Inr ())"
    unfolding mergeRunTools_def try_then_Inr_iff merge_fold cloneProviderTools_def by (auto simp: try_then_Inr_iff)
  also have "\<dots> \<longleftrightarrow> ts = ?all \<and> list_all tool_ok ts \<and> distinct (map t_Name ts)"
  proof (cases "ts = ?all \<and> ?all \<noteq> []")
    case True
    then have ts: "ts = ?all" and nonempty: "?all \<noteq> []" by blast+
    show ?thesis unfolding validation_request_ok ts d using nonempty by blast
  next
    case False
    then show ?thesis by (auto simp: validation_request_ok)
  qed
  finally show ?thesis .
qed

text \<open>The tools of a run are the built-in ones followed by the MCP tools of the request, in order;
  the merge succeeds exactly when every tool is valid and all names are distinct.\<close>

theorem merge_run_tools_correct:
  "mergeRunTools static dynamic = Inr ts \<longleftrightarrow>
     ts = static @ map mcp_tool dynamic \<and> list_all tool_ok ts \<and> distinct (map t_Name ts)"
  by (rule mergeRunTools_iff)

section \<open>Assembling streamed tool calls\<close>

definition deltas :: "Event list \<Rightarrow> ToolCallDelta list" where
  "deltas es = map ev_ToolCall (filter (\<lambda>e. ev_Kind e = EventToolCallDelta) es)"

definition deltas_of :: "int \<Rightarrow> Event list \<Rightarrow> ToolCallDelta list" where
  "deltas_of i es = filter (\<lambda>d. d_Index d = i) (deltas es)"

definition text_of :: "Event list \<Rightarrow> string" where
  "text_of es = concat (map ev_Text (filter (\<lambda>e. ev_Kind e = EventTextDelta) es))"

definition last_nonempty :: "string list \<Rightarrow> string" where
  "last_nonempty xs = (case rev (filter (\<lambda>x. x \<noteq> []) xs) of [] \<Rightarrow> [] | y # _ \<Rightarrow> y)"

definition accumulated :: "ToolCallDelta list \<Rightarrow> providerToolAccumulator" where
  "accumulated ds = \<lparr> ac_id = last_nonempty (map d_ID ds), ac_name = last_nonempty (map d_Name ds),
     ac_arguments = concat (map d_ArgumentsDelta ds), ac_done = list_ex d_Done ds \<rparr>"

text \<open>The call of one index, read off the whole stream.\<close>

definition assembled :: "Event list \<Rightarrow> int \<Rightarrow> ToolCall" where
  "assembled es i = \<lparr> tc_ID = trimSpace (last_nonempty (map d_ID (deltas_of i es))),
     tc_Name = trimSpace (last_nonempty (map d_Name (deltas_of i es))),
     tc_Arguments = concat (map d_ArgumentsDelta (deltas_of i es)) \<rparr>"

lemma last_nonempty_simps:
  "last_nonempty [] = []"
  "last_nonempty (xs @ [x]) = (if x \<noteq> [] then x else last_nonempty xs)"
  by (simp_all add: last_nonempty_def)

lemma foldl_accumulate: "foldl (\<lambda>acc d. accumulate d acc) new_accumulator ds = accumulated ds"
proof (induction ds rule: rev_induct)
  case Nil
  then show ?case by (simp add: new_accumulator_def accumulated_def last_nonempty_simps)
next
  case (snoc d ds)
  then show ?case by (auto simp: accumulate_def accumulated_def last_nonempty_simps)
qed

lemma deltas_of_Cons:
  "deltas_of i (e # es) =
     (if ev_Kind e = EventToolCallDelta \<and> d_Index (ev_ToolCall e) = i then ev_ToolCall e # deltas_of i es
      else deltas_of i es)"
  by (simp add: deltas_of_def deltas_def)

lemma on_event_cases:
  assumes "on_event emit e ps w = (Inr ps', w')"
  obtains (delta) "ev_Kind e = EventTextDelta" "ps' = ps\<lparr>ps_text := ps_text ps @ ev_Text e\<rparr>"
  | (reasoning) "ev_Kind e = EventReasoningDelta" "ps' = ps"
  | (usage) "ev_Kind e = EventUsage" "ps' = ps\<lparr>ps_usage := ev_Usage e\<rparr>"
  | (call) d where "ev_Kind e = EventToolCallDelta" "d = ev_ToolCall e"
      "ps' = ps\<lparr>ps_toolCalls := AList.update (d_Index d)
        (accumulate d (accumulator (d_Index d) (ps_toolCalls ps))) (ps_toolCalls ps)\<rparr>"
  using assms
  by (auto simp: on_event_def Let_def split: sum.splits EventKind.splits prod.splits)

definition pass_ok :: "Event list \<Rightarrow> pass_state \<Rightarrow> pass_state \<Rightarrow> bool" where
  "pass_ok es ps ps' \<longleftrightarrow> ps_text ps' = ps_text ps @ text_of es
     \<and> (distinct (map fst (ps_toolCalls ps)) \<longrightarrow> distinct (map fst (ps_toolCalls ps')))
     \<and> (\<forall>i. map_of (ps_toolCalls ps') i =
          (if deltas_of i es = [] then map_of (ps_toolCalls ps) i
           else Some (foldl (\<lambda>acc d. accumulate d acc) (accumulator i (ps_toolCalls ps)) (deltas_of i es))))"

lemma on_events_ok: "on_events emit es ps w = (Inr ps', w') \<Longrightarrow> pass_ok es ps ps'"
proof (induction es arbitrary: ps w)
  case Nil
  then show ?case by (simp add: pass_ok_def text_of_def deltas_of_def deltas_def)
next
  case (Cons e es)
  from Cons.prems obtain ps1 w1 where ev: "on_event emit e ps w = (Inr ps1, w1)"
    and rest: "on_events emit es ps1 w1 = (Inr ps', w')"
    by (auto split: prod.splits sum.splits)
  note IH = Cons.IH [OF rest]
  from ev show ?case
  proof (cases rule: on_event_cases)
    case (call d)
    then show ?thesis using IH
      by (auto simp: pass_ok_def deltas_of_Cons text_of_def distinct_update update_conv accumulator_def)
  qed (use IH in \<open>auto simp: pass_ok_def deltas_of_Cons text_of_def accumulator_def\<close>)
qed

lemma sort_key_fst_keys:
  assumes "distinct (map fst xs)"
  shows "map fst (sort_key fst xs) = sorted_list_of_set (fst ` set xs)"
proof (rule sorted_distinct_set_unique)
  show "distinct (map fst (sort_key fst xs))" using assms by (simp add: distinct_map)
qed simp_all

lemma candidate_call_ok:
  "candidate_call model acc = Inr call \<Longrightarrow>
    call = \<lparr> tc_ID = trimSpace (ac_id acc), tc_Name = trimSpace (ac_name acc), tc_Arguments = ac_arguments acc \<rparr>
    \<and> ac_done acc \<and> call_ok call"
  by (auto simp: candidate_call_def Let_def result_iff split: if_splits)

lemma runProviderPass_cases:
  assumes "runProviderPass ctx streamer request emit w = (Inr pass, w')" and "streamer request w = ((es, err), w1)"
  obtains ps where "err = None" "pass_ok es empty_pass ps" "pr_text pass = ps_text ps"
    "list_all2 (\<lambda>(i, acc) call. candidate_call (rq_Model request) acc = Inr call)
       (sort_key fst (ps_toolCalls ps)) (pr_toolCalls pass)"
proof -
  from assms obtain ps where ps: "on_events emit es empty_pass w1 = (Inr ps, w')" and err: "err = None"
    and m: "try_then (mapM (\<lambda>(i, call). candidate_call (rq_Model request) call) (sort_key fst (ps_toolCalls ps)))
      (\<lambda>calls. Inr \<lparr> pr_text = ps_text ps, pr_toolCalls = calls, pr_usage = ps_usage ps \<rparr>) = Inr pass"
    by (auto simp: runProviderPass_def split: prod.splits sum.splits option.splits)
  from m have "pr_text pass = ps_text ps" "list_all2 (\<lambda>(i, acc) call. candidate_call (rq_Model request) acc = Inr call)
       (sort_key fst (ps_toolCalls ps)) (pr_toolCalls pass)"
    by (auto simp: result_iff mapM_Inr_iff case_prod_unfold)
  with that [OF err on_events_ok [OF ps]] show ?thesis by blast
qed

lemma pass_calls_ok:
  assumes "runProviderPass ctx streamer request emit w = (Inr pass, w')"
  shows "list_all call_ok (pr_toolCalls pass)"
proof -
  obtain es err w1 where "streamer request w = ((es, err), w1)" by (cases "streamer request w") auto
  with assms show ?thesis
  proof (rule runProviderPass_cases)
    fix ps
    assume "list_all2 (\<lambda>(i, acc) call. candidate_call (rq_Model request) acc = Inr call)
       (sort_key fst (ps_toolCalls ps)) (pr_toolCalls pass)"
    then show ?thesis by (induction rule: list_all2_induct) (auto dest: candidate_call_ok)
  qed
qed

text \<open>C12: However the deltas of several tool calls are interleaved in the stream, a pass that succeeds
  returns one call per index, in the order of the indexes: its arguments are the concatenation
  of the fragments of that index, its ID and name the last ones given, trimmed; and the text is
  the concatenation of the text deltas.\<close>

theorem pass_assembles_calls:
  assumes "runProviderPass ctx streamer request emit w = (Inr pass, w')"
    and "streamer request w = ((es, err), w1)"
  shows "err = None \<and> pr_text pass = text_of es
    \<and> pr_toolCalls pass = map (assembled es) (sorted_list_of_set (d_Index ` set (deltas es)))"
proof -
  from runProviderPass_cases [OF assms] obtain ps where err: "err = None" and ok: "pass_ok es empty_pass ps"
    and txt': "pr_text pass = ps_text ps"
    and calls: "list_all2 (\<lambda>(i, acc) call. candidate_call (rq_Model request) acc = Inr call)
       (sort_key fst (ps_toolCalls ps)) (pr_toolCalls pass)" by metis
  let ?xs = "ps_toolCalls ps"
  have dist: "distinct (map fst ?xs)" using ok by (simp add: pass_ok_def empty_pass_def)
  have acc: "map_of ?xs i = (if deltas_of i es = [] then None else Some (accumulated (deltas_of i es)))" for i
    using ok by (simp add: pass_ok_def empty_pass_def accumulator_def foldl_accumulate)
  have "fst ` set ?xs = {i. map_of ?xs i \<noteq> None}" by (auto simp: map_of_eq_None_iff)
  also have "\<dots> = d_Index ` set (deltas es)" by (auto simp: acc deltas_of_def filter_empty_conv)
  finally have keys: "fst ` set ?xs = d_Index ` set (deltas es)" .
  have "pr_toolCalls pass = map (assembled es) (map fst (sort_key fst ?xs))"
  proof (rule nth_equalityI)
    show len: "length (pr_toolCalls pass) = length (map (assembled es) (map fst (sort_key fst ?xs)))"
      using list_all2_lengthD [OF calls] by simp
    fix k assume k: "k < length (pr_toolCalls pass)"
    let ?e = "sort_key fst ?xs ! k"
    have "?e \<in> set ?xs" using k len by (metis length_map nth_mem set_sort)
    then have "map_of ?xs (fst ?e) = Some (snd ?e)" using dist by simp
    then have "snd ?e = accumulated (deltas_of (fst ?e) es)" by (simp add: acc split: if_splits)
    moreover have "candidate_call (rq_Model request) (snd ?e) = Inr (pr_toolCalls pass ! k)"
      using calls k by (simp add: list_all2_conv_all_nth case_prod_unfold)
    ultimately have "pr_toolCalls pass ! k = assembled es (fst ?e)"
      by (auto dest!: candidate_call_ok simp: accumulated_def assembled_def)
    then show "pr_toolCalls pass ! k = map (assembled es) (map fst (sort_key fst ?xs)) ! k" using k len by simp
  qed
  with err txt' ok show ?thesis
    by (simp add: sort_key_fst_keys [OF dist] keys) (simp add: pass_ok_def empty_pass_def)
qed

section \<open>The shape of a turn\<close>

text \<open>
  A round is the assistant's text with its calls, each call with the content that answered it;
  the messages of the round are the assistant's message and one answer per call, in order.
\<close>

type_synonym round = "string \<times> (ToolCall \<times> string) list"

definition round_messages :: "round \<Rightarrow> Message list" where
  "round_messages r = assistant_message (fst r) (map fst (snd r))
     # map (\<lambda>(call, content). tool_message (tc_ID call) content) (snd r)"

definition turn_messages :: "string \<Rightarrow> round list \<Rightarrow> string \<Rightarrow> Message list" where
  "turn_messages text rounds final =
     user_message text # concat (map round_messages rounds) @ [assistant_message final []]"

definition round_calls :: "round list \<Rightarrow> ToolCall list" where
  "round_calls rounds = concat (map (\<lambda>r. map fst (snd r)) rounds)"

definition rounds_ok :: "string list \<Rightarrow> round list \<Rightarrow> bool" where
  "rounds_ok allowed rounds \<longleftrightarrow> list_all (\<lambda>r. snd r \<noteq> []) rounds
     \<and> distinct (map tc_ID (round_calls rounds))
     \<and> list_all (\<lambda>call. call_ok call \<and> tc_Name call \<in> set allowed) (round_calls rounds)"

lemma deliver_calls_ok:
  "deliver_calls ctx emit allowed calls turn delivered w = (Inr (turn', delivered'), w') \<Longrightarrow>
   \<exists>contents. length contents = length calls
     \<and> turn' = turn @ map (\<lambda>(call, content). tool_message (tc_ID call) content) (zip calls contents)
     \<and> set delivered' = tc_ID ` set calls \<union> set delivered
     \<and> distinct (map tc_ID calls) \<and> tc_ID ` set calls \<inter> set delivered = {}
     \<and> tc_Name ` set calls \<subseteq> set allowed"
proof (induction calls arbitrary: turn delivered w)
  case Nil
  then show ?case by auto
next
  case (Cons call calls)
  from Cons.prems obtain content w1 where new: "tc_Name call \<in> set allowed" "tc_ID call \<notin> set delivered"
    and rest: "deliver_calls ctx emit allowed calls (turn @ [tool_message (tc_ID call) content])
      (tc_ID call # delivered) w1 = (Inr (turn', delivered'), w')"
    by (auto split: if_splits prod.splits sum.splits)
  from Cons.IH [OF rest] obtain contents where
    "length contents = length calls"
    "turn' = (turn @ [tool_message (tc_ID call) content])
       @ map (\<lambda>(call, content). tool_message (tc_ID call) content) (zip calls contents)"
    "set delivered' = tc_ID ` set calls \<union> set (tc_ID call # delivered)"
    "distinct (map tc_ID calls)" "tc_ID ` set calls \<inter> set (tc_ID call # delivered) = {}"
    "tc_Name ` set calls \<subseteq> set allowed" by blast
  with new show ?case by (intro exI [of _ "content # contents"]) auto
qed

lemma run_passes_ok:
  "run_passes n ctx streamer emit model tools base turn delivered u w = (Inr (turn', u'), w') \<Longrightarrow>
   \<exists>rounds final. turn' = turn @ concat (map round_messages rounds) @ [assistant_message final []]
     \<and> final \<noteq> [] \<and> length rounds < n \<and> rounds_ok (map t_Name tools) rounds
     \<and> tc_ID ` set (round_calls rounds) \<inter> set delivered = {}"
proof (induction n arbitrary: turn delivered u w)
  case 0
  then show ?case by simp
next
  case (Suc n)
  from Suc.prems obtain req pass w1 where pass: "runProviderPass ctx streamer req emit w = (Inr pass, w1)"
    and next': "if pr_toolCalls pass = [] then pr_text pass \<noteq> []
        \<and> turn' = turn @ [assistant_message (pr_text pass) []]
      else \<exists>turn1 delivered1 w2. deliver_calls ctx emit (map t_Name tools) (pr_toolCalls pass)
          (turn @ [assistant_message (pr_text pass) (pr_toolCalls pass)]) delivered w1 = (Inr (turn1, delivered1), w2)
        \<and> run_passes n ctx streamer emit model tools base turn1 delivered1 (add_usage u (pr_usage pass)) w2
            = (Inr (turn', u'), w')"
    by (auto simp: Let_def split: if_splits prod.splits sum.splits)
  show ?case
  proof (cases "pr_toolCalls pass = []")
    case True
    with next' show ?thesis
      by (intro exI [of _ "[]"] exI [of _ "pr_text pass"]) (simp add: rounds_ok_def round_calls_def)
  next
    case False
    with next' obtain turn1 delivered1 w2 where
      d: "deliver_calls ctx emit (map t_Name tools) (pr_toolCalls pass)
          (turn @ [assistant_message (pr_text pass) (pr_toolCalls pass)]) delivered w1 = (Inr (turn1, delivered1), w2)"
      and r: "run_passes n ctx streamer emit model tools base turn1 delivered1 (add_usage u (pr_usage pass)) w2
            = (Inr (turn', u'), w')" by auto
    from deliver_calls_ok [OF d] obtain contents where c: "length contents = length (pr_toolCalls pass)"
      "turn1 = turn @ round_messages (pr_text pass, zip (pr_toolCalls pass) contents)"
      "set delivered1 = tc_ID ` set (pr_toolCalls pass) \<union> set delivered"
      "distinct (map tc_ID (pr_toolCalls pass))" "tc_ID ` set (pr_toolCalls pass) \<inter> set delivered = {}"
      "tc_Name ` set (pr_toolCalls pass) \<subseteq> set (map t_Name tools)"
      by (auto simp: round_messages_def)
    from Suc.IH [OF r] obtain rounds final where
      i: "turn' = turn1 @ concat (map round_messages rounds) @ [assistant_message final []]"
      "final \<noteq> []" "length rounds < n" "rounds_ok (map t_Name tools) rounds"
      "tc_ID ` set (round_calls rounds) \<inter> set delivered1 = {}" by blast
    let ?round = "(pr_text pass, zip (pr_toolCalls pass) contents)"
    have calls: "round_calls (?round # rounds) = pr_toolCalls pass @ round_calls rounds"
      using c(1) by (simp add: round_calls_def)
    have "zip (pr_toolCalls pass) contents \<noteq> []" using False c(1) by (cases "pr_toolCalls pass"; cases contents) auto
    moreover have "list_all (\<lambda>call. call_ok call \<and> tc_Name call \<in> set (map t_Name tools)) (pr_toolCalls pass)"
      using pass_calls_ok [OF pass] c(6) by (auto simp: list_all_iff)
    ultimately have "rounds_ok (map t_Name tools) (?round # rounds)"
      using i(4,5) c(3,4) unfolding rounds_ok_def calls by auto
    moreover have "tc_ID ` set (round_calls (?round # rounds)) \<inter> set delivered = {}"
      using c(3,5) i(5) unfolding calls by auto
    ultimately show ?thesis using i c(2) by (intro exI [of _ "?round # rounds"] exI [of _ final]) simp
  qed
qed

section \<open>What a run leaves behind\<close>

lemma acquire_turns:
  "acquireConversation cid r = (Some a, r1) \<Longrightarrow> rg_maxTurns r1 = rg_maxTurns r
     \<and> (\<forall>b. cs_turns (conversation r1 b) = cs_turns (conversation r b)
          \<or> (b = a \<and> cs_turns (conversation r1 b) = []))"
  by (auto simp: acquireConversation_def acquireConversationState_def Let_def update_conversation_def
      split: option.splits if_splits)

lemma release_turns [simp]:
  "cs_turns (conversation (releaseConversation a r) b) = cs_turns (conversation r b)"
  by (simp add: releaseConversation_def)

lemma append_turns:
  "cs_turns (conversation (appendTurnLocked a turn r) b) =
     (if b = a then append_turn (rg_maxTurns r) turn (cs_turns (conversation r a)) else cs_turns (conversation r b))"
  by (simp add: appendTurnLocked_def)

text \<open>The turn a run may append: complete, answered and within the tools offered.\<close>

definition turn_of_run :: "'w Runner \<Rightarrow> RunRequest \<Rightarrow> Message list \<Rightarrow> bool" where
  "turn_of_run runner run turn \<longleftrightarrow>
     (\<exists>tools rounds final. mergeRunTools (rn_tools runner) (MCPTools run) = Inr tools
        \<and> turn = turn_messages (UserText run) rounds final \<and> final \<noteq> []
        \<and> length rounds \<le> 15 \<and> rounds_ok (map t_Name tools) rounds)"

lemma run_turn_cases:
  assumes "run_turn runner ctx run emit a r w = (res, r', w')"
  obtains (failed) e where "res = Inl e" "r' = r"
  | (appended) turn where "r' = appendTurnLocked a turn r" "turn_of_run runner run turn"
proof (cases "cx_Err ctx w")
  case (Some e)
  with assms show ?thesis by (intro failed) (auto simp: run_turn_def)
next
  case ctx_ok: None
  show ?thesis
  proof (cases "mergeRunTools (rn_tools runner) (MCPTools run)")
    case (Inl e)
    with assms ctx_ok show ?thesis by (intro failed) (auto simp: run_turn_def)
  next
    case tools: (Inr tools)
    show ?thesis
    proof (cases "\<exists>resolved streamer. rn_resolveModel runner (ModelID run) = Inr resolved
        \<and> validRunIdentifier (rm_UpstreamModel resolved) \<and> rn_newStreamer runner resolved = Inr (Some streamer)")
      case False
      then have "\<exists>e. run_turn runner ctx run emit a r w = (Inl e, r, w)"
        using ctx_ok tools by (simp add: run_turn_def split: sum.split option.split) blast
      with assms failed show ?thesis by auto
    next
      case True
      then obtain resolved streamer where m: "rn_resolveModel runner (ModelID run) = Inr resolved"
        "validRunIdentifier (rm_UpstreamModel resolved)" "rn_newStreamer runner resolved = Inr (Some streamer)" by blast
      obtain out w1 where p: "run_passes maxProviderPasses ctx streamer emit (rm_UpstreamModel resolved) tools
        (messagesLocked (conversation r a)) [user_message (UserText run)] [] no_usage w = (out, w1)" by fastforce
      show ?thesis
      proof (cases out)
        case (Inl e)
        with assms ctx_ok tools m p show ?thesis by (intro failed) (auto simp: run_turn_def)
      next
        case (Inr tu)
        obtain turn u where tu: "tu = (turn, u)" by (cases tu)
        have "turn_of_run runner run turn"
          using run_passes_ok [OF p [unfolded Inr tu]] tools
          by (fastforce simp: turn_of_run_def turn_messages_def maxProviderPasses_def)
        moreover have "r' = appendTurnLocked a turn r"
          using assms ctx_ok tools m p Inr tu by (auto simp: run_turn_def Let_def split: prod.splits)
        ultimately show ?thesis by (intro appended)
      qed
    qed
  qed
qed

lemma runner_Execute_cases:
  assumes "runner_Execute runner' ctx run emit r w = (res, r', w')"
  obtains (refused) e where "res = Inl e" "r' = r"
  | (failed) a r1 e where "acquireConversation (ConversationID run) r = (Some a, r1)"
      "res = Inl e" "r' = releaseConversation a r1"
  | (appended) runner a r1 turn where "runner' = Some runner"
      "acquireConversation (ConversationID run) r = (Some a, r1)" "validateRunRequest run = Inr ()"
      "r' = releaseConversation a (appendTurnLocked a turn r1)" "turn_of_run runner run turn"
proof (cases "\<exists>runner ctx0 emit0. runner' = Some runner \<and> ctx = Some ctx0 \<and> emit = Some emit0
    \<and> validateRunRequest run = Inr () \<and> cx_Err ctx0 w = None")
  case False
  then have "\<exists>e. runner_Execute runner' ctx run emit r w = (Inl e, r, w)"
    by (cases runner'; cases ctx; cases emit; cases "validateRunRequest run")
      (auto simp: runner_Execute_def split: option.split)
  with assms refused show ?thesis by auto
next
  case True
  then obtain runner ctx0 emit0 where eqs: "runner' = Some runner" "ctx = Some ctx0" "emit = Some emit0"
    and ok: "validateRunRequest run = Inr ()" "cx_Err ctx0 w = None" by blast
  obtain a r1 where acq: "acquireConversation (ConversationID run) r = (Some a, r1)"
    by (cases "map_of (rg_conversations r) (ConversationID run)")
      (auto simp: acquireConversation_def acquireConversationState_def Let_def)
  obtain res2 r2 w2 where t: "run_turn runner ctx0 run emit0 a r1 w = (res2, r2, w2)"
    by (cases "run_turn runner ctx0 run emit0 a r1 w")
  have "res2 = res" "r' = releaseConversation a r2" using assms eqs ok acq t by (auto simp: runner_Execute_def)
  with t show ?thesis
    by (cases rule: run_turn_cases) (use failed [OF acq] appended [OF eqs(1) acq ok(1)] in auto)
qed


section \<open>Histories stay valid\<close>

definition history_valid :: "ConversationRegistry \<Rightarrow> bool" where
  "history_valid r \<longleftrightarrow>
     (\<forall>a. \<forall>turn\<in>set (cs_turns (conversation r a)). \<forall>m\<in>set (ct_messages turn). Message_validate m = Inr ())"

lemma set_append_turn: "set (append_turn m msgs ts) \<subseteq> insert \<lparr> ct_messages = msgs \<rparr> (set ts)"
  by (auto simp: append_turn_def Let_def cloneProviderMessage_def [abs_def] dest!: in_set_takeD in_set_dropD split: if_splits)

lemma message_kinds_ok:
  "Message_validate (user_message c) = Inr () \<longleftrightarrow> c \<noteq> []"
  "Message_validate (assistant_message c calls) = Inr () \<longleftrightarrow> (c \<noteq> [] \<or> calls \<noteq> []) \<and> list_all call_ok calls"
  "Message_validate (tool_message i c) = Inr () \<longleftrightarrow> validBoundedText i 1024"
  by (simp_all add: user_message_def assistant_message_def tool_message_def Message_validate_ok)

lemma turn_messages_valid:
  assumes "text \<noteq> []" and "final \<noteq> []" and "rounds_ok allowed rounds"
  shows "\<forall>m\<in>set (turn_messages text rounds final). Message_validate m = Inr ()"
proof -
  have "Message_validate m = Inr ()" if r: "r \<in> set rounds" and m: "m \<in> set (round_messages r)" for r m
  proof -
    have "list_all call_ok (map fst (snd r))" "snd r \<noteq> []"
      using assms(3) r by (auto simp: rounds_ok_def round_calls_def list_all_iff)
    with m show ?thesis by (auto simp: round_messages_def message_kinds_ok call_ok_def list_all_iff)
  qed
  with assms(1,2) show ?thesis by (auto simp: turn_messages_def message_kinds_ok)
qed

lemma validateRunRequest_ok:
  "validateRunRequest run = Inr () \<longleftrightarrow>
     validRunIdentifier (ConversationID run) \<and> validRunIdentifier (ModelID run) \<and> trimSpace (UserText run) \<noteq> []"
  by (simp add: validateRunRequest_def)

text \<open>C11: Runs keep every history valid: whatever the provider streams and the tools answer, all
  messages ever stored pass the provider's validation, so the request of the next run on any
  conversation is valid too and no conversation can become unusable.\<close>

theorem history_stays_valid:
  assumes "history_valid r" and "runner_Execute runner ctx run emit r w = (res, r', w')"
  shows "history_valid r' \<and>
    (\<forall>runner' run' tools model a.
      validateRunRequest run' = Inr () \<and> mergeRunTools (rn_tools (runner' :: 'v Runner)) (MCPTools run') = Inr tools
        \<and> validRunIdentifier model \<longrightarrow>
      Request_Validate \<lparr> rq_Model = model,
        rq_Messages = messagesLocked (conversation r' a) @ [user_message (UserText run')], rq_Tools = tools \<rparr> = Inr ())"
proof -
  have acquired: "history_valid r1" if "acquireConversation (ConversationID run) r = (Some b, r1)" for b r1
    using assms(1) acquire_turns [OF that] unfolding history_valid_def by (metis empty_iff list.set(1))
  from assms(2) have valid: "history_valid r'"
  proof (cases rule: runner_Execute_cases)
    case (refused e)
    with assms(1) show ?thesis by simp
  next
    case (failed b r1 e)
    with acquired show ?thesis by (simp add: history_valid_def)
  next
    case (appended runner0 b r1 turn)
    have "UserText run \<noteq> []" using appended(3) by (auto simp: validateRunRequest_ok)
    then have "\<forall>m\<in>set turn. Message_validate m = Inr ()"
      using turn_messages_valid appended(5) unfolding turn_of_run_def by blast
    moreover have "set (cs_turns (conversation r' c)) \<subseteq>
        insert \<lparr> ct_messages = turn \<rparr> (set (cs_turns (conversation r1 c)))" for c
      using set_append_turn [of "rg_maxTurns r1" turn "cs_turns (conversation r1 c)"]
      by (auto simp: appended(4) append_turns)
    ultimately show ?thesis
      using acquired [OF appended(2)] unfolding history_valid_def by (metis insertE subsetD conversationTurn.select_convs(1))
  qed
  moreover have "Request_Validate \<lparr> rq_Model = model,
      rq_Messages = messagesLocked (conversation r' a) @ [user_message (UserText run')], rq_Tools = tools \<rparr> = Inr ()"
    if "validateRunRequest run' = Inr ()" "mergeRunTools (rn_tools runner') (MCPTools run') = Inr tools"
      "validRunIdentifier model" for runner' :: "'v Runner" and run' tools model a
  proof -
    have tools: "list_all tool_ok tools" "distinct (map t_Name tools)"
      using that(2) unfolding mergeRunTools_iff by blast+
    have "validBoundedText model 1024" using that(3) by (simp add: validRunIdentifier_def validBoundedText_def)
    moreover have "Message_validate (user_message (UserText run')) = Inr ()"
      using that(1) by (auto simp: message_kinds_ok validateRunRequest_ok)
    moreover have "\<forall>m\<in>set (messagesLocked (conversation r' a)). Message_validate m = Inr ()"
      using valid by (auto simp: messagesLocked_def history_valid_def cloneProviderMessage_def)
    ultimately show ?thesis using tools by (auto simp: Request_Validate_ok)
  qed
  ultimately show ?thesis by blast
qed

text \<open>The decoder and the runner agree: a run request that decodes and is not metadata-only passes
  the runner's own validation, so a client never gets an error for a request that was accepted.\<close>

theorem decoded_run_validates:
  assumes "DecodeAgentClientMessage pw pff payload = Inr message" and "Run message = Some run"
    and "\<not> MetadataOnly run"
  shows "validateRunRequest run = Inr ()"
  using decodeClientMessage_run_ok [OF assms(1) [unfolded DecodeAgentClientMessage_def] assms(2)] assms(3)
  by (auto simp: run_ok_def validateRunRequest_ok validRunIdentifier_def trimmed_identifier_def validIdentifier_def)

section \<open>Examples\<close>

text \<open>A world that records the emitted events; every tool call is answered with \<open>ok\<close>.\<close>

definition record_event :: "AgentEvent list emitter" where
  "record_event event w = (Inr (), w @ [event])"

definition sample_context :: "AgentEvent list run_context" where
  "sample_context = \<lparr> cx_Err = (\<lambda>w. None),
     cx_await = (\<lambda>callID w. (Inr \<lparr> at_CallID = callID, at_Content = ''ok'', at_IsError = False \<rparr>, w)) \<rparr>"

definition sample_delta :: "int \<Rightarrow> string \<Rightarrow> string \<Rightarrow> string \<Rightarrow> bool \<Rightarrow> Event" where
  "sample_delta i callID name args done' = \<lparr> ev_Kind = EventToolCallDelta, ev_Text = [],
     ev_ToolCall = \<lparr> d_Index = i, d_ID = callID, d_Name = name, d_ArgumentsDelta = args, d_Done = done' \<rparr>,
     ev_Usage = zero_usage \<rparr>"

definition sample_text :: "string \<Rightarrow> Event" where
  "sample_text text = (sample_delta 0 [] [] [] False)\<lparr>ev_Kind := EventTextDelta, ev_Text := text\<rparr>"

text \<open>Two calls whose fragments are interleaved, then, once there is an answer, a text.\<close>

definition sample_calls :: "Event list" where
  "sample_calls = [sample_delta 1 ''b'' ''Read'' ''{'' False, sample_delta 0 ''a'' ''List'' ''{}'' True,
     sample_delta 1 [] [] ''}'' True]"

definition sample_streamer :: "AgentEvent list Streamer" where
  "sample_streamer request w =
     ((if length (rq_Messages request) = 1 then sample_calls else [sample_text ''done''], None), w)"

definition sample_resolved :: ResolvedModel where
  "sample_resolved = \<lparr> rm_Name = ''m'', rm_Protocol = ''openai'', rm_BaseURL = ''https://h'', rm_Endpoint = ''/v1/responses'',
     rm_APIKey = ''k'', rm_Headers = [], rm_UpstreamModel = ''gpt'' \<rparr>"

definition sample_tool :: "string \<Rightarrow> Tool" where
  "sample_tool name = \<lparr> t_Name = name, t_Description = [], t_Parameters = ''{}'' \<rparr>"

definition sample_runner :: "AgentEvent list Runner" where
  "sample_runner = \<lparr> rn_resolveModel = (\<lambda>_. Inr sample_resolved), rn_newStreamer = (\<lambda>_. Inr (Some sample_streamer)),
     rn_tools = [sample_tool ''Read'', sample_tool ''List''] \<rparr>"

definition sample_request :: RunRequest where
  "sample_request = \<lparr> ConversationID = ''c'', ModelID = ''m'', UserText = ''hi'', UserMessageID = [],
     MetadataOnly = False, MCPToolsPresent = False, MCPTools = [] \<rparr>"

lemma sample_json: "validJSONObject ''{}''"
  by (simp add: validJSONObject_def json_single_def json_parse_def skip_ws_def is_ws_def max_nesting_def)

lemma sample_names: "toolNamePattern ''Read''" "toolNamePattern ''List''"
  by code_simp+

lemma sample_texts: "validBoundedText ''a'' 1024" "validBoundedText ''b'' 1024" "validBoundedText ''gpt'' 1024"
  "trimSpace ''a'' = ''a''" "trimSpace ''b'' = ''b''" "trimSpace ''Read'' = ''Read''" "trimSpace ''List'' = ''List''"
  "trimSpace ''hi'' = ''hi''" "validRunIdentifier ''c''" "validRunIdentifier ''m''" "validRunIdentifier ''gpt''"
  by (simp_all add: validBoundedText_def validRunIdentifier_def trimSpace_def trim_pieces_def go_eval)

definition call_a :: ToolCall where
  "call_a = \<lparr> tc_ID = ''a'', tc_Name = ''List'', tc_Arguments = ''{}'' \<rparr>"

definition call_b :: ToolCall where
  "call_b = \<lparr> tc_ID = ''b'', tc_Name = ''Read'', tc_Arguments = ''{}'' \<rparr>"

lemma candidate_call_Inr:
  assumes "ac_done acc" and "call_ok \<lparr> tc_ID = trimSpace (ac_id acc), tc_Name = trimSpace (ac_name acc),
      tc_Arguments = ac_arguments acc \<rparr>" and "validBoundedText model 1024"
  shows "candidate_call model acc = Inr \<lparr> tc_ID = trimSpace (ac_id acc), tc_Name = trimSpace (ac_name acc),
      tc_Arguments = ac_arguments acc \<rparr>"
proof -
  let ?call = "\<lparr> tc_ID = trimSpace (ac_id acc), tc_Name = trimSpace (ac_name acc), tc_Arguments = ac_arguments acc \<rparr>"
  have "Request_Validate \<lparr> rq_Model = model, rq_Messages =
      [\<lparr> m_Role = RoleAssistant, m_Content = [], m_ToolCalls = [?call], m_ToolCallID = [] \<rparr>], rq_Tools = [] \<rparr> = Inr ()"
    using assms by (simp add: Request_Validate_ok Message_validate_ok)
  moreover have "tc_ID ?call \<noteq> []" "tc_Name ?call \<noteq> []"
    using assms(2) by (auto simp: call_ok_def validBoundedText_def toolNamePattern_def)
  ultimately show ?thesis using assms(1) by (simp add: candidate_call_def)
qed

lemma sample_pass:
  "length (rq_Messages request) = 1 \<Longrightarrow> validBoundedText (rq_Model request) 1024 \<Longrightarrow>
    runProviderPass sample_context sample_streamer request record_event w =
    (Inr \<lparr> pr_text = [], pr_toolCalls = [call_a, call_b], pr_usage = zero_usage \<rparr>, w)"
  "length (rq_Messages request) \<noteq> 1 \<Longrightarrow>
    runProviderPass sample_context sample_streamer request record_event w =
    (Inr \<lparr> pr_text = ''done'', pr_toolCalls = [], pr_usage = zero_usage \<rparr>,
     w @ [(agent_event AgentEventTextDelta)\<lparr>ae_Text := ''done''\<rparr>])"
  by (simp_all add: runProviderPass_def sample_streamer_def sample_calls_def sample_delta_def sample_text_def
      on_event_def Event_Validate_def empty_pass_def accumulator_def new_accumulator_def accumulate_def
      candidate_call_Inr Let_def sample_texts sample_names sample_json call_ok_def call_a_def call_b_def record_event_def)

theorem pass_assembles_calls_witness:
  "text_of sample_calls = [] \<and>
    map (assembled sample_calls) (sorted_list_of_set (d_Index ` set (deltas sample_calls))) = [call_a, call_b]"
proof -
  let ?request = "\<lparr> rq_Model = ''gpt'', rq_Messages = [user_message ''hi''], rq_Tools = [] \<rparr>"
  have "runProviderPass sample_context sample_streamer ?request record_event [] =
      (Inr \<lparr> pr_text = [], pr_toolCalls = [call_a, call_b], pr_usage = zero_usage \<rparr>, [])"
    by (rule sample_pass(1)) (simp_all add: sample_texts)
  from pass_assembles_calls [OF this, of sample_calls None "[]"] show ?thesis
    by (simp add: sample_streamer_def)
qed

text \<open>The whole run: a round with both calls, then the text.\<close>

definition sample_registry1 :: ConversationRegistry where
  "sample_registry1 = snd (acquireConversation ''c'' sample_registry)"

lemma sample_acquired: "acquireConversation ''c'' sample_registry = (Some 0, sample_registry1)"
  by (simp add: sample_registry1_def acquireConversation_def acquireConversationState_def sample_registry_def
      NewConversationRegistry_def Let_def)

lemma sample_turns: "cs_turns (conversation sample_registry1 b) = []" "rg_maxTurns sample_registry1 = 2"
  using acquire_turns [OF sample_acquired] by (auto simp: sample_registry_def NewConversationRegistry_def)

lemma sample_tools: "mergeRunTools (rn_tools sample_runner) [] = Inr [sample_tool ''Read'', sample_tool ''List'']"
  by (simp add: mergeRunTools_iff sample_runner_def sample_tool_def tool_ok_def sample_names sample_json)

definition sample_turn :: "Message list" where
  "sample_turn = turn_messages ''hi'' [([], [(call_a, ''ok''), (call_b, ''ok'')])] ''done''"

lemma sample_deliver:
  "deliver_calls sample_context record_event [''Read'', ''List''] [call_a, call_b] turn [] w =
    (Inr (turn @ [tool_message ''a'' ''ok'', tool_message ''b'' ''ok''], [''b'', ''a'']),
     w @ [(agent_event AgentEventToolCall)\<lparr>ae_Tool := call_a\<rparr>, (agent_event AgentEventToolCall)\<lparr>ae_Tool := call_b\<rparr>])"
  by (simp add: sample_context_def record_event_def call_a_def call_b_def)

lemma sample_valid:
  "ms \<noteq> [] \<Longrightarrow> \<forall>m\<in>set ms. Message_validate m = Inr () \<Longrightarrow>
    Request_Validate \<lparr> rq_Model = ''gpt'', rq_Messages = ms, rq_Tools = [sample_tool ''Read'', sample_tool ''List''] \<rparr> = Inr ()"
  by (simp add: Request_Validate_ok sample_texts sample_tool_def tool_ok_def sample_names sample_json)

lemma sample_calls_ok: "call_ok call_a" "call_ok call_b"
  by (simp_all add: call_a_def call_b_def call_ok_def sample_texts sample_names sample_json)

lemma sample_passes:
  "\<exists>u w'. run_passes (Suc (Suc n)) sample_context sample_streamer record_event ''gpt''
      [sample_tool ''Read'', sample_tool ''List''] [] [user_message ''hi''] [] no_usage w = (Inr (sample_turn, u), w')"
proof -
  have names: "t_Name (sample_tool name) = name" for name by (simp add: sample_tool_def)
  have ids: "tc_ID call_a = ''a''" "tc_ID call_b = ''b''" by (simp_all add: call_a_def call_b_def)
  show ?thesis
    by (simp add: Let_def cloneProviderMessages_def cloneProviderTools_def cloneProviderMessage_def [abs_def]
        sample_valid message_kinds_ok sample_pass sample_texts sample_deliver names sample_calls_ok
        sample_turn_def turn_messages_def round_messages_def ids del: deliver_calls.simps)
qed

lemma sample_execute:
  "\<exists>w. runner_Execute (Some sample_runner) (Some sample_context) sample_request (Some record_event) sample_registry []
    = (Inr (), releaseConversation 0 (appendTurnLocked 0 sample_turn sample_registry1), w)"
proof -
  obtain u w' where p: "run_passes maxProviderPasses sample_context sample_streamer record_event ''gpt''
      [sample_tool ''Read'', sample_tool ''List''] [] [user_message ''hi''] [] no_usage [] = (Inr (sample_turn, u), w')"
    using sample_passes [of 14 "[]"] by (auto simp: maxProviderPasses_def numeral_eq_Suc)
  have validate: "validateRunRequest sample_request = Inr ()"
    by (simp add: sample_request_def validateRunRequest_ok sample_texts)
  have resolve: "rn_resolveModel sample_runner m = Inr sample_resolved"
    "rn_newStreamer sample_runner sample_resolved = Inr (Some sample_streamer)"
    "rm_UpstreamModel sample_resolved = ''gpt''" "MCPTools sample_request = []"
    "UserText sample_request = ''hi''" "ConversationID sample_request = ''c''" "cx_Err sample_context w = None" for m w
    by (simp_all add: sample_runner_def sample_resolved_def sample_request_def sample_context_def)
  have m: "messagesLocked (conversation sample_registry1 0) = []" by (simp add: messagesLocked_def sample_turns)
  show ?thesis
    by (simp add: runner_Execute_def validate resolve sample_acquired run_turn_def sample_tools sample_texts m p
        record_event_def Let_def)
qed


theorem history_stays_valid_witness:
  "history_valid (releaseConversation 0 (appendTurnLocked 0 sample_turn sample_registry1))"
proof -
  have "history_valid sample_registry"
    by (simp add: history_valid_def sample_registry_def NewConversationRegistry_def)
  moreover obtain w where "runner_Execute (Some sample_runner) (Some sample_context) sample_request (Some record_event) sample_registry []
    = (Inr (), releaseConversation 0 (appendTurnLocked 0 sample_turn sample_registry1), w)" using sample_execute by blast
  ultimately show ?thesis by (rule history_stays_valid [THEN conjunct1])
qed

theorem decoded_run_validates_witness:
  "validateRunRequest \<lparr> ConversationID = ''c1'', ModelID = ''gpt'', UserText = ''hi'', UserMessageID = [],
     MetadataOnly = False, MCPToolsPresent = False, MCPTools = [] \<rparr> = Inr ()"
  by (rule decoded_run_validates [OF sample_run_decoded [of "\<lambda>_. ''0''"]]) simp_all

end
