(* ===== verification/OpenAI_Stream.thy ===== *)
theory OpenAI_Stream
  imports OpenAI_Request Sse Runner
begin

text \<open>
  \<open>provider/openai\<close>, the receiving half: the events of the Chat Completions and the Responses
  stream, decoded from JSON and handed on as provider events.
\<close>

section \<open>Decoding into structs, lists and pointers\<close>

text \<open>
  A struct is given by the setters of its fields. A member without a field is skipped, one that
  occurs again is decoded over the value it left.
\<close>

type_synonym 'a setter = "'a \<Rightarrow> json \<Rightarrow> 'a option"

definition set_field :: "('a \<Rightarrow> 'b) \<Rightarrow> ('b \<Rightarrow> 'a \<Rightarrow> 'a) \<Rightarrow> 'b setter \<Rightarrow> 'a setter" where
  "set_field get put set' a v = map_option (\<lambda>b. put b a) (set' (get a) v)"

fun set_members :: "(string \<times> 'a setter) list \<Rightarrow> 'a \<Rightarrow> (string \<times> string \<times> json) list \<Rightarrow> 'a option" where
  "set_members setters a [] = Some a"
| "set_members setters a ((key, raw, v) # ms) =
     (case Option.bind (match_field (map fst setters) key) (map_of setters) of
        None \<Rightarrow> set_members setters a ms
      | Some set' \<Rightarrow> (case set' a v of None \<Rightarrow> None | Some a \<Rightarrow> set_members setters a ms))"

definition set_struct :: "(string \<times> 'a setter) list \<Rightarrow> 'a setter" where
  "set_struct setters a v = (case v of JNull \<Rightarrow> Some a | JObj ms \<Rightarrow> set_members setters a ms | _ \<Rightarrow> None)"

text \<open>
  A slice has its length and the elements of its backing array, which an array that is decoded
  over it reuses. An empty array and \<open>null\<close> give it up.
\<close>

type_synonym 'a slice = "nat \<times> 'a list"

definition slice_list :: "'a slice \<Rightarrow> 'a list" where
  "slice_list s = take (fst s) (snd s)"

fun set_elements :: "'a setter \<Rightarrow> 'a \<Rightarrow> 'a list \<Rightarrow> json list \<Rightarrow> 'a list option" where
  "set_elements set' new xs [] = Some xs"
| "set_elements set' new xs (v # vs) =
     (case set' (case xs of [] \<Rightarrow> new | x # _ \<Rightarrow> x) v of
        None \<Rightarrow> None
      | Some y \<Rightarrow> map_option ((#) y) (set_elements set' new (tl xs) vs))"

definition set_slice :: "'a setter \<Rightarrow> 'a \<Rightarrow> 'a slice setter" where
  "set_slice set' new s v = (case v of
     JNull \<Rightarrow> Some (0, [])
   | JArr vs \<Rightarrow> if vs = [] then Some (0, []) else map_option (\<lambda>xs. (length vs, xs)) (set_elements set' new (snd s) vs)
   | _ \<Rightarrow> None)"

definition set_pointer :: "'a setter \<Rightarrow> 'a \<Rightarrow> 'a option setter" where
  "set_pointer set' new p v =
     (if v = JNull then Some None else map_option Some (set' (case p of None \<Rightarrow> new | Some a \<Rightarrow> a) v))"

definition set_int64 :: "int setter" where
  "set_int64 = set_int (- 9223372036854775808) 9223372036854775807"

text \<open>\<open>json.Unmarshal\<close> into a fresh value.\<close>

definition unmarshal :: "'a setter \<Rightarrow> 'a \<Rightarrow> bytes \<Rightarrow> 'a option" where
  "unmarshal set' new text' = Option.bind (json_single text') (set' new)"

section \<open>Handing events on\<close>

type_synonym 's emit = "Event \<Rightarrow> 's \<Rightarrow> unit result \<times> 's"

definition emitValidated :: "'s emit \<Rightarrow> Event \<Rightarrow> 's \<Rightarrow> unit result \<times> 's" where
  "emitValidated emit event s = (case Event_Validate event of
     Inl e \<Rightarrow> (Inl (Wrapf ''decode provider stream: '' e), s)
   | Inr _ \<Rightarrow> emit event s)"

fun emit_each :: "'s emit \<Rightarrow> Event list \<Rightarrow> 's \<Rightarrow> unit result \<times> 's" where
  "emit_each emit [] s = (Inr (), s)"
| "emit_each emit (e # es) s = (case emitValidated emit e s of
     (Inl x, s) \<Rightarrow> (Inl x, s) | (Inr _, s) \<Rightarrow> emit_each emit es s)"

text \<open>
  A callback is a step: from what it keeps and a server-sent event, the provider events it emits
  one after the other, and what it returns when all are taken. When one is refused it returns at
  once.
\<close>

type_synonym 't sse_step = "sseEvent \<Rightarrow> 't \<Rightarrow> Event list \<times> (sse_error + unit) \<times> 't"

definition step_handler :: "'t sse_step \<Rightarrow> 's emit \<Rightarrow> ('t \<times> 's) sse_handler" where
  "step_handler step emit ev ts = (case step ev (fst ts) of (events, res, t) \<Rightarrow>
     (case emit_each emit events (snd ts) of
        (Inl e, s) \<Rightarrow> (Inl (SSE_Error e), (t, s))
      | (Inr _, s) \<Rightarrow> (res, (t, s))))"

definition text_event :: "EventKind \<Rightarrow> string \<Rightarrow> Event" where
  "text_event kind text' = \<lparr> ev_Kind = kind, ev_Text = text',
     ev_ToolCall = \<lparr> d_Index = 0, d_ID = [], d_Name = [], d_ArgumentsDelta = [], d_Done = False \<rparr>,
     ev_Usage = \<lparr> u_InputTokens = 0, u_OutputTokens = 0, u_CacheReadTokens = 0, u_CacheWriteTokens = 0 \<rparr> \<rparr>"

definition call_event :: "ToolCallDelta \<Rightarrow> Event" where
  "call_event d = (text_event EventToolCallDelta [])\<lparr>ev_ToolCall := d\<rparr>"

definition done_event :: "int \<Rightarrow> Event" where
  "done_event i = call_event \<lparr> d_Index = i, d_ID = [], d_Name = [], d_ArgumentsDelta = [], d_Done = True \<rparr>"

definition usage_event :: "int \<Rightarrow> int \<Rightarrow> int \<Rightarrow> Event" where
  "usage_event input output cached = (text_event EventUsage [])\<lparr>ev_Usage := \<lparr> u_InputTokens = of_int input,
     u_OutputTokens = of_int output, u_CacheReadTokens = of_int cached, u_CacheWriteTokens = 0 \<rparr>\<rparr>"

definition is_done_marker :: "sseEvent \<Rightarrow> bool" where
  "is_done_marker ev \<longleftrightarrow> trimSpace (se_Data ev) = ''[DONE]''"

section \<open>Chat Completions: chat.go\<close>

record chatCall =
  cc_Index :: int
  cc_ID :: string
  cc_Name :: string
  cc_Arguments :: string

record chatChoice =
  ch_Content :: string
  ch_ReasoningContent :: string
  ch_Reasoning :: string
  ch_ToolCalls :: "chatCall slice"
  ch_FinishReason :: string

record chatUsage =
  cu_PromptTokens :: int
  cu_CompletionTokens :: int
  cu_CachedTokens :: int

record chatChunk =
  ck_Choices :: "chatChoice slice"
  ck_Usage :: "chatUsage option"
  ck_Error :: bool

definition set_chatCall :: "chatCall setter" where
  "set_chatCall = set_struct [
     (''index'', set_field cc_Index (\<lambda>v. cc_Index_update (\<lambda>_. v)) set_int64),
     (''id'', set_field cc_ID (\<lambda>v. cc_ID_update (\<lambda>_. v)) set_string),
     (''function'', set_struct [
        (''name'', set_field cc_Name (\<lambda>v. cc_Name_update (\<lambda>_. v)) set_string),
        (''arguments'', set_field cc_Arguments (\<lambda>v. cc_Arguments_update (\<lambda>_. v)) set_string)])]"

definition new_chatCall :: chatCall where
  "new_chatCall = \<lparr> cc_Index = 0, cc_ID = [], cc_Name = [], cc_Arguments = [] \<rparr>"

definition set_chatChoice :: "chatChoice setter" where
  "set_chatChoice = set_struct [
     (''delta'', set_struct [
        (''content'', set_field ch_Content (\<lambda>v. ch_Content_update (\<lambda>_. v)) set_string),
        (''reasoning_content'', set_field ch_ReasoningContent (\<lambda>v. ch_ReasoningContent_update (\<lambda>_. v)) set_string),
        (''reasoning'', set_field ch_Reasoning (\<lambda>v. ch_Reasoning_update (\<lambda>_. v)) set_string),
        (''tool_calls'', set_field ch_ToolCalls (\<lambda>v. ch_ToolCalls_update (\<lambda>_. v)) (set_slice set_chatCall new_chatCall))]),
     (''finish_reason'', set_field ch_FinishReason (\<lambda>v. ch_FinishReason_update (\<lambda>_. v)) set_string)]"

definition new_chatChoice :: chatChoice where
  "new_chatChoice = \<lparr> ch_Content = [], ch_ReasoningContent = [], ch_Reasoning = [], ch_ToolCalls = (0, []), ch_FinishReason = [] \<rparr>"

definition set_chatUsage :: "chatUsage setter" where
  "set_chatUsage = set_struct [
     (''prompt_tokens'', set_field cu_PromptTokens (\<lambda>v. cu_PromptTokens_update (\<lambda>_. v)) set_int64),
     (''completion_tokens'', set_field cu_CompletionTokens (\<lambda>v. cu_CompletionTokens_update (\<lambda>_. v)) set_int64),
     (''prompt_tokens_details'', set_struct [
        (''cached_tokens'', set_field cu_CachedTokens (\<lambda>v. cu_CachedTokens_update (\<lambda>_. v)) set_int64)])]"

definition new_chatUsage :: chatUsage where
  "new_chatUsage = \<lparr> cu_PromptTokens = 0, cu_CompletionTokens = 0, cu_CachedTokens = 0 \<rparr>"

text \<open>The raw error is only looked at for being there; \<open>null\<close> is no error.\<close>

definition set_chatChunk :: "chatChunk setter" where
  "set_chatChunk = set_struct [
     (''choices'', set_field ck_Choices (\<lambda>v. ck_Choices_update (\<lambda>_. v)) (set_slice set_chatChoice new_chatChoice)),
     (''usage'', set_field ck_Usage (\<lambda>v. ck_Usage_update (\<lambda>_. v)) (set_pointer set_chatUsage new_chatUsage)),
     (''error'', set_field ck_Error (\<lambda>v. ck_Error_update (\<lambda>_. v)) (\<lambda>_ v. Some (v \<noteq> JNull)))]"

definition new_chatChunk :: chatChunk where
  "new_chatChunk = \<lparr> ck_Choices = (0, []), ck_Usage = None, ck_Error = False \<rparr>"

text \<open>The indexes of the tool calls seen and marked as done, and whether the stream has ended.\<close>

record chat_state =
  cs_terminal :: bool
  cs_seen :: "int list"
  cs_done :: "int list"

text \<open>The deltas of the calls of a choice, up to the first whose index is negative.\<close>

fun chat_calls :: "chatCall list \<Rightarrow> Event list \<times> int list \<times> bool" where
  "chat_calls [] = ([], [], True)"
| "chat_calls (call # calls) =
     (if cc_Index call < 0 then ([], [], False)
      else case chat_calls calls of (events, indexes, ok) \<Rightarrow>
        (call_event \<lparr> d_Index = cc_Index call, d_ID = cc_ID call, d_Name = cc_Name call,
           d_ArgumentsDelta = cc_Arguments call, d_Done = False \<rparr> # events, cc_Index call # indexes, ok))"

definition chat_choice :: "chatChoice \<Rightarrow> chat_state \<Rightarrow> Event list \<times> (sse_error + unit) \<times> chat_state" where
  "chat_choice choice t =
     (let content = (if ch_Content choice = [] then [] else [text_event EventTextDelta (ch_Content choice)]);
          reasoning = (if ch_ReasoningContent choice = [] then ch_Reasoning choice else ch_ReasoningContent choice);
          reason = (if reasoning = [] then [] else [text_event EventReasoningDelta reasoning]) in
      case chat_calls (slice_list (ch_ToolCalls choice)) of (calls, indexes, ok) \<Rightarrow>
        if \<not> ok then (content @ reason @ calls,
          Inl (SSE_Error (Errorf ''decode Chat Completions stream: tool call index is invalid'')), t)
        else
          let t = t\<lparr>cs_seen := cs_seen t @ indexes\<rparr> in
          if ch_FinishReason choice = ''tool_calls'' then
            (let open' = filter (\<lambda>i. i \<notin> set (cs_done t)) (sorted_list_of_set (set (cs_seen t))) in
             (content @ reason @ calls @ map done_event open', Inr (), t\<lparr>cs_done := cs_done t @ open'\<rparr>))
          else (content @ reason @ calls, Inr (), t))"

fun chat_choices :: "chatChoice list \<Rightarrow> chat_state \<Rightarrow> Event list \<times> (sse_error + unit) \<times> chat_state" where
  "chat_choices [] t = ([], Inr (), t)"
| "chat_choices (choice # choices) t = (case chat_choice choice t of
     (events, Inl e, t) \<Rightarrow> (events, Inl e, t)
   | (events, Inr _, t) \<Rightarrow> (case chat_choices choices t of (events', res, t) \<Rightarrow> (events @ events', res, t)))"

definition chat_chunk :: "chatChunk \<Rightarrow> chat_state \<Rightarrow> Event list \<times> (sse_error + unit) \<times> chat_state" where
  "chat_chunk chunk t = (case chat_choices (slice_list (ck_Choices chunk)) t of
     (events, Inl e, t) \<Rightarrow> (events, Inl e, t)
   | (events, Inr _, t) \<Rightarrow> (events @ (case ck_Usage chunk of
         None \<Rightarrow> []
       | Some u \<Rightarrow> [usage_event (cu_PromptTokens u) (cu_CompletionTokens u) (cu_CachedTokens u)]), Inr (), t))"

definition chat_step :: "int \<Rightarrow> chat_state sse_step" where
  "chat_step status event t =
     (if is_done_marker event then ([], Inl SSE_Stop, t\<lparr>cs_terminal := True\<rparr>)
      else case unmarshal set_chatChunk new_chatChunk (se_Data event) of
        None \<Rightarrow> ([], Inl (SSE_Error (Errorf ''decode Chat Completions SSE event'')), t)
      | Some chunk \<Rightarrow>
          if ck_Error chunk then ([], Inl (SSE_Error (Provider_Error ''provider_failed'' status False)), t)
          else chat_chunk chunk t)"

section \<open>Responses: responses.go\<close>

record responsesEvent =
  re_Type :: string
  re_Delta :: string
  re_OutputIndex :: int
  re_ItemID :: string
  re_ItemType :: string
  re_ItemCallID :: string
  re_ItemName :: string
  re_InputTokens :: int
  re_OutputTokens :: int
  re_CachedTokens :: int

definition set_responsesEvent :: "responsesEvent setter" where
  "set_responsesEvent = set_struct [
     (''type'', set_field re_Type (\<lambda>v. re_Type_update (\<lambda>_. v)) set_string),
     (''delta'', set_field re_Delta (\<lambda>v. re_Delta_update (\<lambda>_. v)) set_string),
     (''output_index'', set_field re_OutputIndex (\<lambda>v. re_OutputIndex_update (\<lambda>_. v)) set_int64),
     (''item'', set_struct [
        (''id'', set_field re_ItemID (\<lambda>v. re_ItemID_update (\<lambda>_. v)) set_string),
        (''type'', set_field re_ItemType (\<lambda>v. re_ItemType_update (\<lambda>_. v)) set_string),
        (''call_id'', set_field re_ItemCallID (\<lambda>v. re_ItemCallID_update (\<lambda>_. v)) set_string),
        (''name'', set_field re_ItemName (\<lambda>v. re_ItemName_update (\<lambda>_. v)) set_string)]),
     (''response'', set_struct [
        (''usage'', set_struct [
           (''input_tokens'', set_field re_InputTokens (\<lambda>v. re_InputTokens_update (\<lambda>_. v)) set_int64),
           (''output_tokens'', set_field re_OutputTokens (\<lambda>v. re_OutputTokens_update (\<lambda>_. v)) set_int64),
           (''input_tokens_details'', set_struct [
              (''cached_tokens'', set_field re_CachedTokens (\<lambda>v. re_CachedTokens_update (\<lambda>_. v)) set_int64)])])])]"

definition new_responsesEvent :: responsesEvent where
  "new_responsesEvent = \<lparr> re_Type = [], re_Delta = [], re_OutputIndex = 0, re_ItemID = [], re_ItemType = [], re_ItemCallID = [],
     re_ItemName = [], re_InputTokens = 0, re_OutputTokens = 0, re_CachedTokens = 0 \<rparr>"

definition responses_event :: "int \<Rightarrow> string \<Rightarrow> responsesEvent \<Rightarrow> bool \<Rightarrow> Event list \<times> (sse_error + unit) \<times> bool" where
  "responses_event status eventType e t =
     (if eventType = ''response.output_text.delta'' then ([text_event EventTextDelta (re_Delta e)], Inr (), t)
      else if eventType = ''response.reasoning_summary_text.delta'' \<or> eventType = ''response.reasoning_text.delta'' then
        ([text_event EventReasoningDelta (re_Delta e)], Inr (), t)
      else if eventType = ''response.output_item.added'' then
        (if re_ItemType e \<noteq> ''function_call'' then ([], Inr (), t)
         else ([call_event \<lparr> d_Index = re_OutputIndex e, d_ID = (if re_ItemCallID e = [] then re_ItemID e else re_ItemCallID e),
             d_Name = re_ItemName e, d_ArgumentsDelta = [], d_Done = False \<rparr>], Inr (), t))
      else if eventType = ''response.function_call_arguments.delta'' then
        ([call_event \<lparr> d_Index = re_OutputIndex e, d_ID = [], d_Name = [], d_ArgumentsDelta = re_Delta e, d_Done = False \<rparr>],
          Inr (), t)
      else if eventType = ''response.function_call_arguments.done'' \<or> eventType = ''response.output_item.done'' then
        (if eventType = ''response.output_item.done'' \<and> re_ItemType e \<noteq> ''function_call'' then ([], Inr (), t)
         else ([done_event (re_OutputIndex e)], Inr (), t))
      else if eventType = ''response.completed'' then
        ([usage_event (re_InputTokens e) (re_OutputTokens e) (re_CachedTokens e)], Inr (), True)
      else if eventType \<in> {''error'', ''response.failed'', ''response.incomplete''} then
        ([], Inl (SSE_Error (Provider_Error ''provider_failed'' status False)), t)
      else ([], Inr (), t))"

definition responses_step :: "int \<Rightarrow> bool sse_step" where
  "responses_step status event t =
     (if is_done_marker event then ([], Inl SSE_Stop, t)
      else case unmarshal set_responsesEvent new_responsesEvent (se_Data event) of
        None \<Rightarrow> ([], Inl (SSE_Error (Errorf ''decode Responses SSE event'')), t)
      | Some envelope \<Rightarrow>
          responses_event status (if re_Type envelope = [] then se_Name event else re_Type envelope) envelope t)"

section \<open>Streaming: client.go\<close>

text \<open>What is around a call: the context, before the request and in each pass of the reading, and the network.\<close>

record openai_env =
  oe_transport :: "outgoing \<Rightarrow> incoming result"
  oe_sendErr :: "goerror option"
  oe_ctxErr :: "nat \<Rightarrow> goerror option"

definition stream_with ::
  "(int \<Rightarrow> 't sse_step) \<Rightarrow> ('t \<Rightarrow> bool) \<Rightarrow> 't \<Rightarrow> string \<Rightarrow> openai_Client \<Rightarrow> openai_env \<Rightarrow> bytes option \<Rightarrow> 's emit \<Rightarrow> 's \<Rightarrow>
   unit result \<times> 's" where
  "stream_with step terminal t missing client env body emit s =
     (case doStreamRequest client (oe_transport env) (oe_sendErr env) body of
        Inl e \<Rightarrow> (Inl e, s)
      | Inr response \<Rightarrow>
          (case readSSE (oe_ctxErr env) (in_Body response) (oc_maxEventBytes client)
              (step_handler (step (in_Status response)) emit) (t, s) of
             (Inl (SSE_Error e), (t, s)) \<Rightarrow> (Inl e, s)
           | (_, (t, s)) \<Rightarrow> if terminal t then (Inr (), s) else (Inl (Errorf missing), s)))"

definition streamChat :: "openai_Client \<Rightarrow> openai_env \<Rightarrow> Request \<Rightarrow> 's emit \<Rightarrow> 's \<Rightarrow> unit result \<times> 's" where
  "streamChat client env request =
     stream_with chat_step cs_terminal \<lparr> cs_terminal = False, cs_seen = [], cs_done = [] \<rparr>
       ''decode Chat Completions stream: terminal event is missing'' client env (buildChatRequest request)"

definition streamResponses :: "openai_Client \<Rightarrow> openai_env \<Rightarrow> Request \<Rightarrow> 's emit \<Rightarrow> 's \<Rightarrow> unit result \<times> 's" where
  "streamResponses client env request =
     stream_with responses_step (\<lambda>t. t) False ''decode Responses stream: terminal event is missing'' client env
       (buildResponsesRequest request)"

definition client_Stream :: "openai_Client \<Rightarrow> openai_env \<Rightarrow> Request \<Rightarrow> 's emit \<Rightarrow> 's \<Rightarrow> unit result \<times> 's" where
  "client_Stream client env request emit s = (case Request_Validate request of
     Inl e \<Rightarrow> (Inl e, s)
   | Inr _ \<Rightarrow>
       if oc_endpoint client = EndpointResponses then streamResponses client env request emit s
       else if oc_endpoint client = EndpointChatCompletions then streamChat client env request emit s
       else (Inl (Errorf ''stream OpenAI response: endpoint is unsupported''), s))"

section \<open>A stream as the list of its events\<close>

fun run_steps :: "'t sse_step \<Rightarrow> sseEvent list \<Rightarrow> 't \<Rightarrow> Event list \<times> (sse_error + unit) \<times> 't" where
  "run_steps step [] t = ([], Inr (), t)"
| "run_steps step (ev # evs) t = (case step ev t of
     (es, Inl e, t) \<Rightarrow> (es, Inl e, t)
   | (es, Inr _, t) \<Rightarrow> (case run_steps step evs t of (es', r, t) \<Rightarrow> (es @ es', r, t)))"

lemma emit_each_Cons: "emit_each emit (e # es) s = and_then (emitValidated emit e s) (emit_each emit es)"
  by (simp add: and_then_def split: prod.split sum.split)

lemma emit_each_append: "emit_each emit (a @ b) s = and_then (emit_each emit a s) (emit_each emit b)"
proof (induction a arbitrary: s)
  case (Cons e a)
  then have "emit_each emit (a @ b) = (\<lambda>s. and_then (emit_each emit a s) (emit_each emit b))" by (intro ext)
  then show ?case by (simp only: append.simps emit_each_Cons and_then_assoc)
qed simp

lemma handle_all_steps:
  fixes emit :: "'s emit"
  assumes "run_steps step evs t = (events, res, t')"
  shows "case emit_each emit events s of
      (Inl e, s') \<Rightarrow> (\<exists>t2. handle_all (step_handler step emit) evs (t, s) = (Inl (SSE_Error e), (t2, s')))
    | (Inr _, s') \<Rightarrow> handle_all (step_handler step emit) evs (t, s) = (res, (t', s'))"
  using assms
proof (induction evs arbitrary: t s events res t')
  case (Cons ev evs)
  obtain es r t1 where step: "step ev t = (es, r, t1)" by (cases "step ev t")
  obtain x s1 where es: "emit_each emit es s = (x, s1)" by (cases "emit_each emit es s")
  show ?case
  proof (cases x)
    case (Inl e)
    have "\<exists>b. events = es @ b" using Cons.prems step by (auto split: sum.splits prod.splits)
    then show ?thesis using step es Inl by (auto simp: emit_each_append step_handler_def)
  next
    case x: (Inr u)
    show ?thesis
    proof (cases r)
      case (Inl e)
      then show ?thesis using Cons.prems step es x by (auto simp: step_handler_def)
    next
      case (Inr u')
      obtain es' r' t2 where rest: "run_steps step evs t1 = (es', r', t2)" by (cases "run_steps step evs t1")
      from Cons.prems step Inr rest have parts: "events = es @ es'" "res = r'" "t' = t2" by auto
      have h: "handle_all (step_handler step emit) (ev # evs) (t, s) = handle_all (step_handler step emit) evs (t1, s1)"
        using step es x Inr by (simp add: step_handler_def)
      have "emit_each emit (es @ es') s = emit_each emit es' s1" using es x by (simp add: emit_each_append)
      then show ?thesis using Cons.IH [OF rest, of s1] by (simp only: parts h)
    qed
  qed
qed simp

text \<open>The events of a stream with what it returns when all of them are taken.\<close>

definition stream_events ::
  "(int \<Rightarrow> 't sse_step) \<Rightarrow> ('t \<Rightarrow> bool) \<Rightarrow> 't \<Rightarrow> string \<Rightarrow> openai_Client \<Rightarrow> openai_env \<Rightarrow> bytes option \<Rightarrow>
   Event list \<times> unit result" where
  "stream_events step terminal t missing client env body =
     (case doStreamRequest client (oe_transport env) (oe_sendErr env) body of
        Inl e \<Rightarrow> ([], Inl e)
      | Inr response \<Rightarrow>
          (case sse_events (oe_ctxErr env) (in_Body response) (oc_maxEventBytes client) of (res, evs) \<Rightarrow>
           (case run_steps (step (in_Status response)) evs t of (events, r, t) \<Rightarrow>
             (events, (case (case r of Inl e \<Rightarrow> Inl e | Inr _ \<Rightarrow> res) of
                Inl (SSE_Error e) \<Rightarrow> Inl e
              | _ \<Rightarrow> if terminal t then Inr () else Inl (Errorf missing))))))"

lemma stream_with_events:
  "stream_with step terminal t missing client env body emit s =
     (case stream_events step terminal t missing client env body of (events, res) \<Rightarrow>
        and_then (emit_each emit events s) (\<lambda>s. (res, s)))"
proof (cases "doStreamRequest client (oe_transport env) (oe_sendErr env) body")
  case (Inl e)
  then show ?thesis by (simp add: stream_with_def stream_events_def)
next
  case (Inr response)
  obtain res evs where trace: "sse_events (oe_ctxErr env) (in_Body response) (oc_maxEventBytes client) = (res, evs)"
    by (cases "sse_events (oe_ctxErr env) (in_Body response) (oc_maxEventBytes client)")
  obtain events r t' where run: "run_steps (step (in_Status response)) evs t = (events, r, t')"
    by (cases "run_steps (step (in_Status response)) evs t")
  obtain x s' where x: "emit_each emit events s = (x, s')" by (cases "emit_each emit events s")
  from handle_all_steps [OF run, of emit s] x
  have "case x of Inl e \<Rightarrow> (\<exists>t2. handle_all (step_handler (step (in_Status response)) emit) evs (t, s) = (Inl (SSE_Error e), (t2, s')))
    | Inr _ \<Rightarrow> handle_all (step_handler (step (in_Status response)) emit) evs (t, s) = (r, (t', s'))"
    by simp
  then show ?thesis
    using Inr trace run x readSSE_factors [OF trace, of "step_handler (step (in_Status response)) emit" "(t, s)"]
    by (auto simp: stream_with_def stream_events_def split: sum.splits sse_error.splits)
qed

definition client_events :: "openai_Client \<Rightarrow> openai_env \<Rightarrow> Request \<Rightarrow> Event list \<times> unit result" where
  "client_events client env request = (case Request_Validate request of
     Inl e \<Rightarrow> ([], Inl e)
   | Inr _ \<Rightarrow>
       if oc_endpoint client = EndpointResponses then
         stream_events responses_step (\<lambda>t. t) False ''decode Responses stream: terminal event is missing'' client env
           (buildResponsesRequest request)
       else if oc_endpoint client = EndpointChatCompletions then
         stream_events chat_step cs_terminal \<lparr> cs_terminal = False, cs_seen = [], cs_done = [] \<rparr>
           ''decode Chat Completions stream: terminal event is missing'' client env (buildChatRequest request)
       else ([], Inl (Errorf ''stream OpenAI response: endpoint is unsupported'')))"

lemma client_Stream_events:
  "client_Stream client env request emit s =
     and_then (emit_each emit (fst (client_events client env request)) s) (\<lambda>s. (snd (client_events client env request), s))"
  by (simp add: client_Stream_def client_events_def streamResponses_def streamChat_def stream_with_events
      split: sum.split prod.split)

section \<open>The client as the streamer of a runner\<close>

definition record_provider_event :: "Event list emit" where
  "record_provider_event e es = (Inr (), es @ [e])"

fun replay :: "'s emit \<Rightarrow> Event list \<Rightarrow> 's \<Rightarrow> unit result \<times> 's" where
  "replay emit [] s = (Inr (), s)"
| "replay emit (e # es) s = and_then (emit e s) (replay emit es)"

definition event_ok :: "Event \<Rightarrow> bool" where
  "event_ok e \<longleftrightarrow> Event_Validate e = Inr ()"

text \<open>What a call with the recorder gives: the valid events before the first invalid one.\<close>

lemma record_emits:
  "emit_each record_provider_event events es0 =
     ((if list_all event_ok events then Inr ()
       else case Event_Validate (hd (dropWhile event_ok events)) of Inl e \<Rightarrow> Inl (Wrapf ''decode provider stream: '' e) | Inr u \<Rightarrow> Inr u),
      es0 @ takeWhile event_ok events)"
  by (induction events arbitrary: es0)
    (auto simp: emitValidated_def record_provider_event_def event_ok_def split: sum.splits)

lemma record_success:
  "emit_each record_provider_event events es0 = (Inr u, es) \<longleftrightarrow> list_all event_ok events \<and> es = es0 @ events"
proof (cases "list_all event_ok events")
  case True
  then have "takeWhile event_ok events = events" by (simp add: takeWhile_eq_all_conv list_all_iff)
  with True show ?thesis by (auto simp: record_emits)
next
  case False
  then have "dropWhile event_ok events \<noteq> []" by (simp add: dropWhile_eq_Nil_conv list_all_iff)
  then have "\<not> event_ok (hd (dropWhile event_ok events))" by (rule hd_dropWhile)
  with False show ?thesis by (auto simp: record_emits event_ok_def split: sum.split)
qed

lemma replay_emits:
  "emit_each emit events s = and_then (replay emit (takeWhile event_ok events) s)
     (\<lambda>s. (fst (emit_each record_provider_event events []), s))"
proof (induction events arbitrary: s)
  case (Cons e events)
  show ?case
  proof (cases "event_ok e")
    case True
    then have "emitValidated emit e s = emit e s" for s by (simp add: emitValidated_def event_ok_def)
    moreover have "fst (emit_each record_provider_event (e # events) []) = fst (emit_each record_provider_event events [])"
      unfolding record_emits using True by simp
    moreover have "emit_each emit events = (\<lambda>s. and_then (replay emit (takeWhile event_ok events) s)
        (\<lambda>s. (fst (emit_each record_provider_event events []), s)))"
      using Cons.IH by (intro ext)
    ultimately show ?thesis using True by (simp only: emit_each_Cons and_then_assoc takeWhile.simps if_True replay.simps)
  next
    case False
    then obtain x where "Event_Validate e = Inl x" by (cases "Event_Validate e") (auto simp: event_ok_def)
    then have v: "emitValidated emit e s = (Inl (Wrapf ''decode provider stream: '' x), s)"
      "emitValidated record_provider_event e [] = (Inl (Wrapf ''decode provider stream: '' x), [])"
      by (simp_all add: emitValidated_def)
    show ?thesis using False by (simp add: emit_each_Cons v del: emit_each.simps)
  qed
qed simp

text \<open>The client as the runner sees a streamer: the events it hands over, and the error it ends with.\<close>

definition openai_streamer :: "openai_Client \<Rightarrow> ('w \<Rightarrow> openai_env \<times> 'w) \<Rightarrow> 'w Streamer" where
  "openai_streamer client world request w = (case world w of (env, w) \<Rightarrow>
     (case client_Stream client env request record_provider_event [] of
        (Inl e, events) \<Rightarrow> ((events, Some e), w)
      | (Inr _, events) \<Rightarrow> ((events, None), w)))"

text \<open>C14: streaming to any callback is handing it, one after the other, the events the same call hands to a recorder,
  until the callback refuses one, whose error is then the result; when it takes them all the result is that of the
  recorded call. Every event handed over is a valid one. So the list of events is all a runner needs to know of a stream.\<close>

theorem stream_replays:
  assumes "client_Stream client env request record_provider_event [] = (res, events)"
  shows "client_Stream client env request emit s = and_then (replay emit events s) (\<lambda>s. (res, s))
    \<and> (\<forall>e\<in>set events. Event_Validate e = Inr ())"
proof
  obtain evs r where c: "client_events client env request = (evs, r)" by (cases "client_events client env request")
  have events: "events = takeWhile event_ok evs"
    and res: "res = (case fst (emit_each record_provider_event evs []) of Inl e \<Rightarrow> Inl e | Inr _ \<Rightarrow> r)"
    using assms unfolding client_Stream_events c
    by (auto simp: and_then_def record_emits split: sum.splits if_splits)
  have "client_Stream client env request emit s
      = and_then (replay emit events s) (\<lambda>s. and_then (fst (emit_each record_provider_event evs []), s) (\<lambda>s. (r, s)))"
    by (simp only: client_Stream_events c fst_conv snd_conv replay_emits [of emit evs s] and_then_assoc events)
  then show "client_Stream client env request emit s = and_then (replay emit events s) (\<lambda>s. (res, s))"
    by (cases "fst (emit_each record_provider_event evs [])") (simp_all add: res)
  show "\<forall>e\<in>set events. Event_Validate e = Inr ()"
    unfolding events by (auto simp: event_ok_def dest: set_takeWhileD)
qed

section \<open>A success has its terminal event\<close>

definition completed_event :: "sseEvent \<Rightarrow> responsesEvent \<Rightarrow> bool" where
  "completed_event ev e \<longleftrightarrow> unmarshal set_responsesEvent new_responsesEvent (se_Data ev) = Some e
     \<and> (if re_Type e = [] then se_Name ev else re_Type e) = ''response.completed''"

lemma chat_choice_terminal: "chat_choice c t = (es, r, t') \<Longrightarrow> cs_terminal t' = cs_terminal t"
  by (auto simp: chat_choice_def Let_def split: prod.splits if_splits)

lemma chat_choices_terminal: "chat_choices cs t = (es, r, t') \<Longrightarrow> cs_terminal t' = cs_terminal t"
proof (induction cs arbitrary: t es r t')
  case (Cons c cs)
  obtain es1 r1 t1 where c: "chat_choice c t = (es1, r1, t1)" by (cases "chat_choice c t")
  obtain es2 r2 t2 where cs: "chat_choices cs t1 = (es2, r2, t2)" by (cases "chat_choices cs t1")
  from Cons.IH [OF cs] chat_choice_terminal [OF c] Cons.prems c cs show ?case by (auto split: sum.splits)
qed simp

lemma chat_step_terminal: "chat_step status ev t = (es, r, t') \<Longrightarrow> cs_terminal t' \<Longrightarrow> cs_terminal t \<or> is_done_marker ev"
  by (auto simp: chat_step_def chat_chunk_def split: if_splits option.splits prod.splits sum.splits dest: chat_choices_terminal)

lemma responses_step_terminal:
  "responses_step status ev t = (es, r, t') \<Longrightarrow> t' \<Longrightarrow>
     t \<or> (\<exists>e. completed_event ev e \<and> es = [usage_event (re_InputTokens e) (re_OutputTokens e) (re_CachedTokens e)])"
  by (auto simp: responses_step_def responses_event_def completed_event_def split: if_splits option.splits)

lemma run_steps_terminal:
  assumes "run_steps step evs t = (events, r, t')" and "terminal t'" and "\<not> terminal t"
    and "\<And>ev t es r t'. step ev t = (es, r, t') \<Longrightarrow> terminal t' \<Longrightarrow> terminal t \<or> Q ev es"
  shows "\<exists>ev\<in>set evs. \<exists>es. Q ev es \<and> set es \<subseteq> set events"
  using assms(1,3)
proof (induction evs arbitrary: t events)
  case Nil
  then show ?case using assms(2) by simp
next
  case (Cons ev evs)
  obtain es r1 t1 where step: "step ev t = (es, r1, t1)" by (cases "step ev t")
  show ?case
  proof (cases "terminal t1")
    case True
    then have "Q ev es" using assms(4) [OF step] Cons.prems(2) by blast
    moreover have "set es \<subseteq> set events" using Cons.prems(1) step by (auto split: sum.splits prod.splits)
    ultimately show ?thesis by auto
  next
    case False
    then obtain u where "r1 = Inr u" using Cons.prems(1) step assms(2) by (cases r1) auto
    then obtain es' where "run_steps step evs t1 = (es', r, t')" "events = es @ es'"
      using Cons.prems(1) step by (auto split: prod.splits)
    then show ?thesis using Cons.IH False by fastforce
  qed
qed

lemma stream_events_success:
  assumes "stream_events step terminal t missing client env body = (events, Inr ())" and "\<not> terminal t"
    and "\<And>status ev t es r t'. step status ev t = (es, r, t') \<Longrightarrow> terminal t' \<Longrightarrow> terminal t \<or> Q ev es"
  shows "\<exists>response. doStreamRequest client (oe_transport env) (oe_sendErr env) body = Inr response
    \<and> (\<exists>ev\<in>set (snd (sse_events (oe_ctxErr env) (in_Body response) (oc_maxEventBytes client))). \<exists>es. Q ev es \<and> set es \<subseteq> set events)"
proof -
  obtain response where r: "doStreamRequest client (oe_transport env) (oe_sendErr env) body = Inr response"
    using assms(1) by (auto simp: stream_events_def split: sum.splits)
  obtain res evs where e: "sse_events (oe_ctxErr env) (in_Body response) (oc_maxEventBytes client) = (res, evs)"
    by (cases "sse_events (oe_ctxErr env) (in_Body response) (oc_maxEventBytes client)")
  obtain events' x t' where run: "run_steps (step (in_Status response)) evs t = (events', x, t')"
    by (cases "run_steps (step (in_Status response)) evs t")
  have "terminal t'" "events' = events"
    using assms(1) r e run by (auto simp: stream_events_def split: sum.splits sse_error.splits if_splits)
  then have "\<exists>ev\<in>set evs. \<exists>es. Q ev es \<and> set es \<subseteq> set events"
    using run_steps_terminal [OF run, of terminal Q] assms(2,3) by blast
  then show ?thesis using r e by simp
qed

lemma doStreamRequest_response:
  "doStreamRequest client transport ctxErr body = Inr response \<Longrightarrow>
     200 \<le> in_Status response \<and> in_Status response < 300 \<and> ParseMediaType (in_ContentType response) = Some ''text/event-stream''
     \<and> (\<exists>payload. body = Some payload \<and> transport \<lparr> og_URL = oc_endpointURL client, og_Headers = openai_headers client,
          og_Body = payload \<rparr> = Inr response)"
  by (auto simp: doStreamRequest_def split: option.splits sum.splits if_splits)

text \<open>C13: a stream that was cut off is never taken for a whole answer: when a call succeeds, the service answered with a
  2xx status and an event stream, and the stream had its terminal event, \<open>[DONE]\<close> for Chat Completions and
  \<open>response.completed\<close> for Responses, whose token usage was handed over.\<close>

theorem success_needs_terminal:
  assumes "client_Stream client env request record_provider_event [] = (Inr (), events)"
  shows "\<exists>response payload evs. oe_transport env \<lparr> og_URL = oc_endpointURL client, og_Headers = openai_headers client,
        og_Body = payload \<rparr> = Inr response
    \<and> 200 \<le> in_Status response \<and> in_Status response < 300 \<and> ParseMediaType (in_ContentType response) = Some ''text/event-stream''
    \<and> snd (sse_events (oe_ctxErr env) (in_Body response) (oc_maxEventBytes client)) = evs
    \<and> (if oc_endpoint client = EndpointResponses then
         \<exists>ev\<in>set evs. \<exists>e. completed_event ev e
           \<and> usage_event (re_InputTokens e) (re_OutputTokens e) (re_CachedTokens e) \<in> set events
       else \<exists>ev\<in>set evs. is_done_marker ev)"
proof -
  obtain evs r where c: "client_events client env request = (evs, r)" by (cases "client_events client env request")
  have s: "r = Inr ()" "list_all event_ok evs" "events = evs"
    using assms unfolding client_Stream_events c
    by (auto simp: and_then_def record_success split: sum.splits prod.splits)
  then have c: "client_events client env request = (events, Inr ())" using c by simp
  show ?thesis
  proof (cases "oc_endpoint client = EndpointResponses")
    case True
    then have "stream_events responses_step (\<lambda>t. t) False ''decode Responses stream: terminal event is missing'' client env
        (buildResponsesRequest request) = (events, Inr ())"
      using c by (auto simp: client_events_def split: sum.splits)
    from stream_events_success [OF this, where Q = "\<lambda>ev es. \<exists>e. completed_event ev e
        \<and> es = [usage_event (re_InputTokens e) (re_OutputTokens e) (re_CachedTokens e)]"]
    obtain response where r: "doStreamRequest client (oe_transport env) (oe_sendErr env) (buildResponsesRequest request) = Inr response"
      "\<exists>ev\<in>set (snd (sse_events (oe_ctxErr env) (in_Body response) (oc_maxEventBytes client))). \<exists>e. completed_event ev e
        \<and> usage_event (re_InputTokens e) (re_OutputTokens e) (re_CachedTokens e) \<in> set events"
      using responses_step_terminal by fastforce
    from doStreamRequest_response [OF r(1)] r(2) True show ?thesis by auto
  next
    case False
    then have "stream_events chat_step cs_terminal \<lparr> cs_terminal = False, cs_seen = [], cs_done = [] \<rparr>
        ''decode Chat Completions stream: terminal event is missing'' client env (buildChatRequest request) = (events, Inr ())"
      using c by (auto simp: client_events_def split: sum.splits if_splits)
    from stream_events_success [OF this, where Q = "\<lambda>ev es. is_done_marker ev"]
    obtain response where r: "doStreamRequest client (oe_transport env) (oe_sendErr env) (buildChatRequest request) = Inr response"
      "\<exists>ev\<in>set (snd (sse_events (oe_ctxErr env) (in_Body response) (oc_maxEventBytes client))). is_done_marker ev"
      using chat_step_terminal by fastforce
    from doStreamRequest_response [OF r(1)] r(2) False show ?thesis by auto
  qed
qed

section \<open>The calls of a Chat Completions stream\<close>

fun calls_in_order :: "int set \<Rightarrow> int set \<Rightarrow> Event list \<Rightarrow> bool" where
  "calls_in_order seen finished [] = True"
| "calls_in_order seen finished (e # es) =
     (if ev_Kind e \<noteq> EventToolCallDelta then calls_in_order seen finished es
      else if d_Done (ev_ToolCall e) then d_Index (ev_ToolCall e) \<in> seen \<and> d_Index (ev_ToolCall e) \<notin> finished
        \<and> calls_in_order seen (insert (d_Index (ev_ToolCall e)) finished) es
      else calls_in_order (insert (d_Index (ev_ToolCall e)) seen) finished es)"

definition call_indexes :: "bool \<Rightarrow> Event list \<Rightarrow> int set" where
  "call_indexes d es = {d_Index (ev_ToolCall e) | e. e \<in> set es \<and> ev_Kind e = EventToolCallDelta \<and> d_Done (ev_ToolCall e) = d}"

lemma call_indexes_simps [simp]:
  "call_indexes d [] = {}" "call_indexes d (a @ b) = call_indexes d a \<union> call_indexes d b"
  "call_indexes d (e # es) = (if ev_Kind e = EventToolCallDelta \<and> d_Done (ev_ToolCall e) = d then {d_Index (ev_ToolCall e)} else {})
     \<union> call_indexes d es"
  by (auto simp: call_indexes_def)

lemma calls_in_order_append:
  "calls_in_order seen finished (a @ b) \<longleftrightarrow> calls_in_order seen finished a
     \<and> calls_in_order (seen \<union> call_indexes False a) (finished \<union> call_indexes True a) b"
  by (induction a arbitrary: seen finished) simp_all

lemma event_kinds [simp]:
  "ev_Kind (text_event k x) = k" "ev_Kind (call_event d) = EventToolCallDelta" "ev_ToolCall (call_event d) = d"
  "ev_Kind (usage_event i out c) = EventUsage" "ev_Kind (done_event i) = EventToolCallDelta"
  "ev_ToolCall (done_event i) = \<lparr> d_Index = i, d_ID = [], d_Name = [], d_ArgumentsDelta = [], d_Done = True \<rparr>"
  by (simp_all add: text_event_def call_event_def usage_event_def done_event_def)

lemma chat_calls_order:
  "chat_calls calls = (es, is, ok) \<Longrightarrow> calls_in_order seen finished es \<and> call_indexes True es = {} \<and> call_indexes False es = set is"
  by (induction calls arbitrary: es "is" seen) (auto split: if_splits prod.splits)

lemma done_events_order:
  "distinct is \<Longrightarrow> set is \<subseteq> seen \<Longrightarrow> set is \<inter> finished = {} \<Longrightarrow> calls_in_order seen finished (map done_event is)
     \<and> call_indexes True (map done_event is) = set is \<and> call_indexes False (map done_event is) = {}"
  by (induction "is" arbitrary: finished) auto

definition steps_in_order :: "chat_state \<Rightarrow> Event list \<Rightarrow> sse_error + unit \<Rightarrow> chat_state \<Rightarrow> bool" where
  "steps_in_order t es r t' \<longleftrightarrow> calls_in_order (set (cs_seen t)) (set (cs_done t)) es
     \<and> (r = Inr () \<longrightarrow> set (cs_seen t') = set (cs_seen t) \<union> call_indexes False es
        \<and> set (cs_done t') = set (cs_done t) \<union> call_indexes True es)"

lemma steps_in_order_append:
  "steps_in_order t es (Inr ()) t1 \<Longrightarrow> steps_in_order t1 es' r t' \<Longrightarrow> steps_in_order t (es @ es') r t'"
  by (auto simp: steps_in_order_def calls_in_order_append Un_assoc)

lemma chat_choice_order:
  assumes "chat_choice c t = (es, r, t')"
  shows "steps_in_order t es r t'"
proof -
  let ?text = "(if ch_Content c = [] then [] else [text_event EventTextDelta (ch_Content c)])"
  let ?reasoning = "(if ch_ReasoningContent c = [] then ch_Reasoning c else ch_ReasoningContent c)"
  let ?reason = "(if ?reasoning = [] then [] else [text_event EventReasoningDelta ?reasoning])"
  obtain calls ix ok where cc: "chat_calls (slice_list (ch_ToolCalls c)) = (calls, ix, ok)"
    by (cases "chat_calls (slice_list (ch_ToolCalls c))")
  note calls = chat_calls_order [OF cc]
  have pre: "calls_in_order seen finished (?text @ ?reason @ calls)" "call_indexes True (?text @ ?reason @ calls) = {}"
    "call_indexes False (?text @ ?reason @ calls) = set ix" for seen finished
    using calls by (simp_all add: calls_in_order_append)
  show ?thesis
  proof (cases ok)
    case False
    then show ?thesis using assms pre cc by (auto simp: chat_choice_def steps_in_order_def Let_def)
  next
    case True
    let ?t = "t\<lparr>cs_seen := cs_seen t @ ix\<rparr>"
    let ?open = "filter (\<lambda>i. i \<notin> set (cs_done t)) (sorted_list_of_set (set (cs_seen ?t)))"
    have "distinct ?open" "set ?open \<subseteq> set (cs_seen t) \<union> set ix" "set ?open \<inter> set (cs_done t) = {}" by auto
    note closing = done_events_order [OF this]
    define body where "body = ?text @ ?reason @ calls"
    show ?thesis
    proof (cases "ch_FinishReason c = ''tool_calls''")
      case True
      then have "es = body @ map done_event ?open" "r = Inr ()" "t' = ?t\<lparr>cs_done := cs_done t @ ?open\<rparr>"
        using assms cc \<open>ok\<close> by (simp_all add: chat_choice_def Let_def body_def)
      then show ?thesis using closing pre [folded body_def]
        by (simp add: steps_in_order_def calls_in_order_append)
    next
      case False
      then have "es = body" "r = Inr ()" "t' = ?t"
        using assms cc \<open>ok\<close> by (simp_all add: chat_choice_def Let_def body_def)
      then show ?thesis using pre [folded body_def] by (simp add: steps_in_order_def)
    qed
  qed
qed

lemma chat_choices_order: "chat_choices cs t = (es, r, t') \<Longrightarrow> steps_in_order t es r t'"
proof (induction cs arbitrary: t es)
  case Nil
  then show ?case by (simp add: steps_in_order_def)
next
  case (Cons c cs)
  obtain es1 r1 t1 where c: "chat_choice c t = (es1, r1, t1)" by (cases "chat_choice c t")
  obtain es2 r2 t2 where cs: "chat_choices cs t1 = (es2, r2, t2)" by (cases "chat_choices cs t1")
  show ?case
  proof (cases r1)
    case (Inl e)
    then show ?thesis using Cons.prems c chat_choice_order [OF c] by simp
  next
    case (Inr u)
    then have "es = es1 @ es2" "r = r2" "t' = t2" using Cons.prems c cs by simp_all
    then show ?thesis using steps_in_order_append [of t es1 t1 es2 r2 t2] chat_choice_order [OF c] Cons.IH cs Inr by simp
  qed
qed

lemma chat_step_order: "chat_step status ev t = (es, r, t') \<Longrightarrow> steps_in_order t es r t'"
proof -
  assume s: "chat_step status ev t = (es, r, t')"
  have nil: "steps_in_order t [] (Inl e) t2" for e t2 by (simp add: steps_in_order_def)
  show ?thesis
  proof (cases "\<exists>chunk. unmarshal set_chatChunk new_chatChunk (se_Data ev) = Some chunk \<and> chat_chunk chunk t = (es, r, t')")
    case True
    then obtain chunk where c: "chat_chunk chunk t = (es, r, t')" by blast
    obtain es1 r1 t1 where cs: "chat_choices (slice_list (ck_Choices chunk)) t = (es1, r1, t1)"
      by (cases "chat_choices (slice_list (ck_Choices chunk)) t")
    show ?thesis using c cs chat_choices_order [OF cs]
      by (cases r1; cases "ck_Usage chunk") (auto simp: chat_chunk_def steps_in_order_def calls_in_order_append)
  next
    case False
    then show ?thesis using s nil by (auto simp: chat_step_def split: if_splits option.splits)
  qed
qed

lemma run_steps_order: "run_steps (chat_step status) evs t = (es, r, t') \<Longrightarrow> steps_in_order t es r t'"
proof (induction evs arbitrary: t es)
  case Nil
  then show ?case by (simp add: steps_in_order_def)
next
  case (Cons ev evs)
  obtain es1 r1 t1 where c: "chat_step status ev t = (es1, r1, t1)" by (cases "chat_step status ev t")
  obtain es2 r2 t2 where cs: "run_steps (chat_step status) evs t1 = (es2, r2, t2)" by (cases "run_steps (chat_step status) evs t1")
  show ?case
  proof (cases r1)
    case (Inl e)
    then show ?thesis using Cons.prems c chat_step_order [OF c] by simp
  next
    case (Inr u)
    then have "es = es1 @ es2" "r = r2" "t' = t2" using Cons.prems c cs by simp_all
    then show ?thesis using steps_in_order_append [of t es1 t1 es2 r2 t2] chat_step_order [OF c] Cons.IH cs Inr by simp
  qed
qed

text \<open>the tool calls of a Chat Completions stream come in a form a reader can follow, whatever the service sends: a call
  is marked as done only after a delta of it was handed over, and never twice.\<close>

theorem chat_calls_well_formed:
  assumes "oc_endpoint client = EndpointChatCompletions"
  shows "calls_in_order {} {} (snd (client_Stream client env request record_provider_event []))"
proof -
  obtain evs r where c: "client_events client env request = (evs, r)" by (cases "client_events client env request")
  have "calls_in_order {} {} evs"
  proof -
    have "EndpointChatCompletions \<noteq> EndpointResponses" by (simp add: EndpointChatCompletions_def EndpointResponses_def)
    then have "evs = [] \<or> (\<exists>status t' res. run_steps (chat_step status) t' \<lparr> cs_terminal = False, cs_seen = [], cs_done = [] \<rparr> = (evs, res))"
      using c assms by (auto simp: client_events_def stream_events_def split: sum.splits prod.splits)
    then show ?thesis
    proof
      assume "\<exists>status t' res. run_steps (chat_step status) t' \<lparr> cs_terminal = False, cs_seen = [], cs_done = [] \<rparr> = (evs, res)"
      then obtain status t' r1 t2 where "run_steps (chat_step status) t' \<lparr> cs_terminal = False, cs_seen = [], cs_done = [] \<rparr> = (evs, r1, t2)"
        by auto
      from run_steps_order [OF this] show ?thesis by (simp add: steps_in_order_def)
    qed simp
  qed
  moreover have "snd (client_Stream client env request record_provider_event []) = takeWhile event_ok evs"
    unfolding client_Stream_events c by (auto simp: and_then_def record_emits split: sum.split)
  moreover have "calls_in_order {} {} (takeWhile event_ok evs)"
    using calls_in_order_append [of "{}" "{}" "takeWhile event_ok evs" "dropWhile event_ok evs"] \<open>calls_in_order {} {} evs\<close> by simp
  ultimately show ?thesis by simp
qed

section \<open>Two streams\<close>

text \<open>A Responses stream of one piece of text, and a Chat Completions stream with one call.\<close>

definition sample_body :: "bytes list \<Rightarrow> reader" where
  "sample_body datas = \<lparr> rd_data = concat (map render_event (map (\<lambda>d. ([], [d])) datas)), rd_err = IO_EOF \<rparr>"

definition sample_stream :: "bytes list \<Rightarrow> openai_env" where
  "sample_stream datas = \<lparr> oe_transport = (\<lambda>_. Inr \<lparr> in_Status = 200, in_ContentType = ''text/event-stream'',
       in_Body = sample_body datas \<rparr>),
     oe_sendErr = None, oe_ctxErr = (\<lambda>_. None) \<rparr>"

definition sample_client :: "string \<Rightarrow> openai_Client" where
  "sample_client endpoint = \<lparr> oc_endpointURL = ''https://h'' @ endpoint, oc_endpoint = endpoint, oc_apiKey = ''k'', oc_headers = [],
     oc_maxEventBytes = 1024 \<rparr>"

definition sample_hello :: Request where
  "sample_hello = \<lparr> rq_Model = ''m'', rq_Messages = [\<lparr> m_Role = RoleUser, m_Content = ''hi'', m_ToolCalls = [], m_ToolCallID = [] \<rparr>],
     rq_Tools = [] \<rparr>"

definition sample_delta_json :: bytes where
  "sample_delta_json = json_object [json_string ''type'' ''response.output_text.delta'', json_string ''delta'' ''ok'']"

definition sample_completed_json :: bytes where
  "sample_completed_json = json_object [json_string ''type'' ''response.completed'']"

definition sample_call_json :: bytes where
  "sample_call_json = ''{'' @ json_quote ''choices'' @ '':[{'' @ json_quote ''delta'' @ '':{'' @ json_quote ''tool_calls'' @ '':[{''
     @ json_quote ''id'' @ '':'' @ json_quote ''a'' @ ''}]},'' @ json_quote ''finish_reason'' @ '':'' @ json_quote ''tool_calls'' @ ''}]}''"

lemma sample_hello_valid: "Request_Validate sample_hello = Inr ()"
  by (simp add: Request_Validate_ok sample_hello_def Message_validate_ok validBoundedText_def trimSpace_def trim_pieces_def go_eval)

lemma sample_stream_response:
  "doStreamRequest client (oe_transport (sample_stream datas)) (oe_sendErr (sample_stream datas)) (Some body) =
     Inr \<lparr> in_Status = 200, in_ContentType = ''text/event-stream'',
       in_Body = sample_body datas \<rparr>"
  by (simp add: doStreamRequest_def sample_stream_def media_eval Let_def)

lemma keep_all: "handle_all keep_event evs es = (Inr (), es @ evs)"
  by (induction evs arbitrary: es) (simp_all add: keep_event_def)

lemma sample_stream_events:
  assumes "list_all (\<lambda>d. plain_line d \<and> length d < 1000) datas"
  shows "sse_events (oe_ctxErr (sample_stream datas)) (sample_body datas)
      (oc_maxEventBytes (sample_client endpoint)) = (Inr (), map (\<lambda>d. \<lparr> se_Name = [], se_Data = d \<rparr>) datas)"
proof -
  have "list_all (event_fits 1024) (map (\<lambda>d. ([], [d])) datas)"
    using assms by (auto simp: list_all_iff event_fits_def render_lines_def plain_line_def)
  from readSSE_rendered [OF this, of keep_event "[]"] show ?thesis
    by (simp add: sse_events_def sample_stream_def sample_client_def sample_body_def keep_all comp_def event_of_def)
qed

lemmas json_text_eval = json_object_def json_string_def json_quote_def quote_piece_def short_escape_def html_unsafe_def bad_piece_def go_eval

lemma sample_lines:
  "plain_line sample_delta_json \<and> length sample_delta_json < 1000" "plain_line sample_completed_json \<and> length sample_completed_json < 1000"
  "plain_line ''[DONE]'' \<and> length ''[DONE]'' < 1000" "plain_line sample_call_json \<and> length sample_call_json < 1000"
  by (simp_all add: plain_line_def sample_delta_json_def sample_completed_json_def sample_call_json_def newline_def json_text_eval)

lemma text_fields_parse:
  assumes "list_all (\<lambda>(k, v). validUTF8 k \<and> validUTF8 v) kvs"
  shows "json_single (json_object (map (\<lambda>(k, v). json_string k v) kvs)) = Some (JObj (map (\<lambda>(k, v). (k, json_quote v, JStr v)) kvs))"
proof -
  have "\<forall>(k, tx, v)\<in>set (map (\<lambda>(k, v). (k, json_quote v, JStr v)) kvs). validUTF8 k \<and> value_text 1 tx v"
    using assms by (auto simp: list_all_iff intro: value_text_quoted)
  from json_object_single [OF this] show ?thesis by (simp add: comp_def json_string_def split_def)
qed

lemma sample_responses:
  "unmarshal set_responsesEvent new_responsesEvent sample_delta_json =
     Some (new_responsesEvent\<lparr>re_Type := ''response.output_text.delta'', re_Delta := ''ok''\<rparr>)"
  "unmarshal set_responsesEvent new_responsesEvent sample_completed_json = Some (new_responsesEvent\<lparr>re_Type := ''response.completed''\<rparr>)"
  using text_fields_parse [of "[(''type'', ''response.output_text.delta''), (''delta'', ''ok'')]"]
    text_fields_parse [of "[(''type'', ''response.completed'')]"]
  by (simp_all add: sample_delta_json_def sample_completed_json_def unmarshal_def set_responsesEvent_def set_struct_def match_field_def
      set_field_def new_responsesEvent_def go_eval)

lemma sample_steps:
  "responses_step 200 \<lparr> se_Name = [], se_Data = sample_delta_json \<rparr> False = ([text_event EventTextDelta ''ok''], Inr (), False)"
  "responses_step 200 \<lparr> se_Name = [], se_Data = sample_completed_json \<rparr> False = ([usage_event 0 0 0], Inr (), True)"
proof -
  have "\<not> is_done_marker \<lparr> se_Name = [], se_Data = sample_delta_json \<rparr>" "\<not> is_done_marker \<lparr> se_Name = [], se_Data = sample_completed_json \<rparr>"
    by (simp_all add: is_done_marker_def sample_delta_json_def sample_completed_json_def json_text_eval trimSpace_def trim_pieces_def)
  then show "responses_step 200 \<lparr> se_Name = [], se_Data = sample_delta_json \<rparr> False = ([text_event EventTextDelta ''ok''], Inr (), False)"
    "responses_step 200 \<lparr> se_Name = [], se_Data = sample_completed_json \<rparr> False = ([usage_event 0 0 0], Inr (), True)"
    by (simp_all add: responses_step_def sample_responses responses_event_def) (simp add: new_responsesEvent_def)
qed

lemma sample_responses_stream:
  "client_Stream (sample_client EndpointResponses) (sample_stream [sample_delta_json, sample_completed_json]) sample_hello
     record_provider_event [] = (Inr (), [text_event EventTextDelta ''ok'', usage_event 0 0 0])"
proof -
  obtain body where body: "buildResponsesRequest sample_hello = Some body"
    by (simp add: buildResponsesRequest_def sample_hello_def)
  have "client_events (sample_client EndpointResponses) (sample_stream [sample_delta_json, sample_completed_json]) sample_hello
      = ([text_event EventTextDelta ''ok'', usage_event 0 0 0], Inr ())"
    using sample_stream_response [of "sample_client EndpointResponses" "[sample_delta_json, sample_completed_json]" body]
      sample_stream_events [of "[sample_delta_json, sample_completed_json]" EndpointResponses] sample_lines sample_steps
    by (simp add: client_events_def sample_hello_valid stream_events_def body sample_client_def)
  then show ?thesis
    by (simp add: client_Stream_events emitValidated_def record_provider_event_def Event_Validate_def text_event_def usage_event_def negative_def)
qed

theorem stream_replays_witness:
  "client_Stream (sample_client EndpointResponses) (sample_stream [sample_delta_json, sample_completed_json]) sample_hello
     (\<lambda>e n. if ev_Kind e = EventUsage then (Inl (Errorf ''full''), n) else (Inr (), Suc n)) 0 = (Inl (Errorf ''full''), 1)"
  using stream_replays [OF sample_responses_stream, of "\<lambda>e n. if ev_Kind e = EventUsage then (Inl (Errorf ''full''), n) else (Inr (), Suc n)" 0]
  by simp

theorem success_needs_terminal_witness:
  "\<exists>ev\<in>set (snd (sse_events (\<lambda>_. None) (sample_body [sample_delta_json, sample_completed_json]) 1024)). \<exists>e. completed_event ev e"
  using success_needs_terminal [OF sample_responses_stream]
  by (fastforce simp: sample_stream_def sample_client_def)

lemma shallow: "0 < max_nesting" "\<not> max_nesting \<le> 0" "\<not> max_nesting \<le> Suc 0" "\<not> max_nesting \<le> Suc (Suc 0)" "\<not> max_nesting \<le> Suc (Suc (Suc 0))"
  "\<not> max_nesting \<le> Suc (Suc (Suc (Suc 0)))" "\<not> max_nesting \<le> Suc (Suc (Suc (Suc (Suc 0))))"
  by (simp_all add: max_nesting_def)

lemma json_single_fuel: "json_value n 0 s = Some (v, []) \<Longrightarrow> json_single s = Some v"
  by (simp add: json_single_def json_parse_fuel skip_ws_def)

lemma sample_chat_chunk:
  "unmarshal set_chatChunk new_chatChunk sample_call_json = Some (new_chatChunk\<lparr>ck_Choices := (1, [new_chatChoice\<lparr>
     ch_ToolCalls := (1, [new_chatCall\<lparr>cc_ID := ''a''\<rparr>]), ch_FinishReason := ''tool_calls''\<rparr>])\<rparr>)"
proof -
  have "\<exists>t1 t2 t3 t4 t5. json_value (Suc (Suc (Suc (Suc (Suc (Suc (Suc (Suc (Suc (Suc (Suc (Suc (Suc (Suc (Suc (Suc 0)))))))))))))))) 0 sample_call_json = Some (JObj [(''choices'', t1, JArr [JObj [(''delta'', t2,
      JObj [(''tool_calls'', t3, JArr [JObj [(''id'', t4, JStr ''a'')]])]), (''finish_reason'', t5, JStr ''tool_calls'')]])], [])"
    by (simp add: sample_call_json_def shallow skip_ws_def is_ws_def json_text_eval unquote.simps)
  then obtain t1 t2 t3 t4 t5 where "json_single sample_call_json = Some (JObj [(''choices'', t1, JArr [JObj [(''delta'', t2,
      JObj [(''tool_calls'', t3, JArr [JObj [(''id'', t4, JStr ''a'')]])]), (''finish_reason'', t5, JStr ''tool_calls'')]])])"
    using json_single_fuel by blast
  then show ?thesis
    by (auto simp: unmarshal_def set_chatChunk_def set_chatChoice_def set_chatCall_def set_struct_def match_field_def set_field_def
        set_slice_def new_chatChunk_def new_chatChoice_def new_chatCall_def)
qed

lemma sample_chat_stream:
  "client_Stream (sample_client EndpointChatCompletions) (sample_stream [sample_call_json, ''[DONE]'']) sample_hello
     record_provider_event []
   = (Inr (), [call_event \<lparr> d_Index = 0, d_ID = ''a'', d_Name = [], d_ArgumentsDelta = [], d_Done = False \<rparr>, done_event 0])"
proof -
  obtain body where body: "buildChatRequest sample_hello = Some body"
    by (simp add: buildChatRequest_def sample_hello_def)
  have "\<not> is_done_marker \<lparr> se_Name = [], se_Data = sample_call_json \<rparr>" "is_done_marker \<lparr> se_Name = [], se_Data = ''[DONE]'' \<rparr>"
    by (simp_all add: is_done_marker_def sample_call_json_def json_text_eval trimSpace_def trim_pieces_def)
  then have step: "chat_step 200 \<lparr> se_Name = [], se_Data = sample_call_json \<rparr> \<lparr> cs_terminal = False, cs_seen = [], cs_done = [] \<rparr> =
      ([call_event \<lparr> d_Index = 0, d_ID = ''a'', d_Name = [], d_ArgumentsDelta = [], d_Done = False \<rparr>, done_event 0], Inr (),
        \<lparr> cs_terminal = False, cs_seen = [0], cs_done = [0] \<rparr>)"
    "chat_step 200 \<lparr> se_Name = [], se_Data = ''[DONE]'' \<rparr> \<lparr> cs_terminal = False, cs_seen = [0], cs_done = [0] \<rparr> =
      ([], Inl SSE_Stop, \<lparr> cs_terminal = True, cs_seen = [0], cs_done = [0] \<rparr>)"
    by (simp_all add: chat_step_def sample_chat_chunk)
      (simp add: chat_chunk_def new_chatChunk_def chat_choice_def new_chatChoice_def new_chatCall_def slice_list_def Let_def)
  have "EndpointChatCompletions \<noteq> EndpointResponses" by (simp add: EndpointChatCompletions_def EndpointResponses_def)
  then have "client_events (sample_client EndpointChatCompletions) (sample_stream [sample_call_json, ''[DONE]'']) sample_hello
      = ([call_event \<lparr> d_Index = 0, d_ID = ''a'', d_Name = [], d_ArgumentsDelta = [], d_Done = False \<rparr>, done_event 0], Inr ())"
    using sample_stream_response [of "sample_client EndpointChatCompletions" "[sample_call_json, ''[DONE]'']" body]
      sample_stream_events [of "[sample_call_json, ''[DONE]'']" EndpointChatCompletions] sample_lines step
    by (simp add: client_events_def sample_hello_valid stream_events_def body sample_client_def)
  then show ?thesis
    by (simp add: client_Stream_events emitValidated_def record_provider_event_def Event_Validate_def call_event_def done_event_def
        text_event_def)
qed

theorem chat_calls_well_formed_witness:
  "calls_in_order {} {} [call_event \<lparr> d_Index = 0, d_ID = ''a'', d_Name = [], d_ArgumentsDelta = [], d_Done = False \<rparr>, done_event 0]"
  using chat_calls_well_formed [of "sample_client EndpointChatCompletions" "sample_stream [sample_call_json, ''[DONE]'']" sample_hello]
  by (simp add: sample_chat_stream sample_client_def)

end
