(* ===== verification/Model_Catalog.thy ===== *)
theory Model_Catalog
  imports Wire_Codec Go_Strings
begin

text \<open>
  \<open>protocol/wire.go\<close>: the answers about models and the account that the service encodes
  itself, with the checks on model names.
\<close>

section \<open>Checks\<close>

definition validateModelName :: "string \<Rightarrow> unit result" where
  "validateModelName name =
     (if name = [] \<or> 256 < length name \<or> name \<noteq> trimSpace name \<or> hasControl name then
        Inl (Errorf ''encode models: model name is invalid'')
      else Inr ())"

fun validate_names :: "string list \<Rightarrow> string list \<Rightarrow> unit result" where
  "validate_names seen [] = Inr ()"
| "validate_names seen (name # names) =
     try_then (validateModelName name) (\<lambda>_.
       if name \<in> set seen then Inl (Errorf ''encode models: model names must be unique'')
       else validate_names (name # seen) names)"

definition validateModels :: "string list \<Rightarrow> string \<Rightarrow> unit result" where
  "validateModels modelNames defaultModel =
     (if modelNames = [] then Inl (Errorf ''encode models: at least one model is required'')
      else try_then (validate_names [] modelNames) (\<lambda>_.
        if defaultModel \<notin> set modelNames then Inl (Errorf ''encode models: default model does not exist'')
        else Inr ()))"

section \<open>Encoders\<close>

definition available_model :: "protowire \<Rightarrow> string \<Rightarrow> string \<Rightarrow> bytes" where
  "available_model pw defaultModel name =
     (let model = appendString pw [] 1 name;
          model = (if name = defaultModel then appendBool pw model 2 True else model);
          model = appendBool pw model 5 True;
          model = appendString pw model 17 name;
          model = appendString pw model 18 name;
          model = appendBool pw model 19 True;
          model = appendBool pw model 22 True;
          model = appendBool pw model 23 True;
          model = appendString pw model 24 name in
      appendBool pw model 25 True)"

definition model_config :: "protowire \<Rightarrow> string list \<Rightarrow> string \<Rightarrow> int \<Rightarrow> bytes" where
  "model_config pw modelNames defaultModel field =
     foldl (\<lambda>config name.
         let config = appendString pw config 2 name in
         if field = 4 \<or> field = 6 then appendString pw config 3 name else config)
       (appendString pw [] 1 defaultModel) modelNames"

definition EncodeAvailableModels :: "protowire \<Rightarrow> string list \<Rightarrow> string \<Rightarrow> bytes result" where
  "EncodeAvailableModels pw modelNames defaultModel =
     try_then (validateModels modelNames defaultModel) (\<lambda>_.
       let payload = foldl (\<lambda>payload name.
             appendMessage pw (appendString pw payload 1 name) 2 (available_model pw defaultModel name)) [] modelNames in
       Inr (foldl (\<lambda>payload field. appendMessage pw payload field (model_config pw modelNames defaultModel field))
         payload [4, 5, 6, 7, 8, 9, 10]))"

definition encodeAgentModelDetails :: "protowire \<Rightarrow> string \<Rightarrow> bytes" where
  "encodeAgentModelDetails pw name = foldl (\<lambda>details field. appendString pw details field name) [] [1, 3, 4, 5, 6]"

definition EncodeUsableModels :: "protowire \<Rightarrow> string list \<Rightarrow> bytes result" where
  "EncodeUsableModels pw modelNames =
     (if modelNames = [] then Inl (Errorf ''encode models: at least one model is required'')
      else try_then (validateModels modelNames (hd modelNames)) (\<lambda>_.
        Inr (foldl (\<lambda>payload name. appendMessage pw payload 1 (encodeAgentModelDetails pw name)) [] modelNames)))"

definition EncodeDefaultModel :: "protowire \<Rightarrow> string \<Rightarrow> bytes result" where
  "EncodeDefaultModel pw modelName =
     try_then (validateModelName modelName) (\<lambda>_. Inr (appendMessage pw [] 1 (encodeAgentModelDetails pw modelName)))"

definition EncodeLocalAccount :: "protowire \<Rightarrow> bytes" where
  "EncodeLocalAccount pw =
     (let payload = appendString pw [] 1 ''cursor-cli-byok'';
          payload = appendVarint pw payload 2 1;
          payload = appendString pw payload 3 ''byok@localhost'';
          payload = appendString pw payload 4 ''Cursor'';
          payload = appendString pw payload 5 ''BYOK'';
          payload = appendString pw payload 8 ''2026-01-01T00:00:00Z'';
          payload = appendString pw payload 11 ''personal'' in
      appendString pw payload 12 ''local'')"

definition EncodeNoStoragePrivacyMode :: "protowire \<Rightarrow> bytes" where
  "EncodeNoStoragePrivacyMode pw = appendBool pw (appendVarint pw [] 1 1) 6 True"

definition EncodeServerConfig :: "protowire \<Rightarrow> bytes" where
  "EncodeServerConfig pw = appendBool pw (appendString pw [] 6 ''cursor_cli_byok_v1'') 28 True"

section \<open>What the client decodes\<close>

definition name_ok :: "string \<Rightarrow> bool" where
  "name_ok name \<longleftrightarrow> name \<noteq> [] \<and> length name \<le> 256 \<and> trimSpace name = name \<and> \<not> hasControl name"

lemma validateModelName_iff: "validateModelName name = Inr () \<longleftrightarrow> name_ok name"
  by (auto simp: validateModelName_def name_ok_def)

lemma validate_names_iff:
  "validate_names seen names = Inr () \<longleftrightarrow> list_all name_ok names \<and> distinct names \<and> set names \<inter> set seen = {}"
  by (induction seen names rule: validate_names.induct)
    (auto simp: try_then_Inr_iff validateModelName_iff [unfolded])

lemma validateModels_iff:
  "validateModels names d = Inr () \<longleftrightarrow> list_all name_ok names \<and> distinct names \<and> d \<in> set names"
  by (auto simp: validateModels_def try_then_Inr_iff validate_names_iff)


text \<open>The fields each answer is built of.\<close>

definition entry_items :: "string \<Rightarrow> string \<Rightarrow> wireItem list" where
  "entry_items d name = ItemString 1 name # (if name = d then [ItemBool 2 True] else [])
     @ [ItemBool 5 True, ItemString 17 name, ItemString 18 name, ItemBool 19 True, ItemBool 22 True, ItemBool 23 True,
        ItemString 24 name, ItemBool 25 True]"

definition catalogue_items :: "protowire \<Rightarrow> string list \<Rightarrow> string \<Rightarrow> wireItem list" where
  "catalogue_items pw names d =
     concat (map (\<lambda>name. [ItemString 1 name, ItemMessage 2 (available_model pw d name)]) names)
     @ map (\<lambda>field. ItemMessage field (model_config pw names d field)) [4, 5, 6, 7, 8, 9, 10]"

lemma available_model_items: "available_model pw d name = append_items pw (entry_items d name)"
  by (simp add: available_model_def append_items_def entry_items_def)

lemma catalogue_payload:
  "EncodeAvailableModels pw names d = Inr payload \<longleftrightarrow>
     validateModels names d = Inr () \<and> payload = append_items pw (catalogue_items pw names d)"
proof -
  have "foldl (\<lambda>payload name. appendMessage pw (appendString pw payload 1 name) 2 (available_model pw d name)) p ns
      = foldl (append_item pw) p (concat (map (\<lambda>name. [ItemString 1 name, ItemMessage 2 (available_model pw d name)]) ns))"
    for p ns
    by (induction ns arbitrary: p) simp_all
  then show ?thesis
    by (auto simp: EncodeAvailableModels_def append_items_def catalogue_items_def try_then_Inr_iff Let_def)
qed

fun item_size :: "wireItem \<Rightarrow> nat" where
  "item_size (ItemString n s) = length s"
| "item_size (ItemMessage n m) = length m"
| "item_size (ItemVarint n v) = 0"
| "item_size (ItemBool n b) = 0"

fun item_number :: "wireItem \<Rightarrow> int" where
  "item_number (ItemString n s) = n"
| "item_number (ItemMessage n m) = n"
| "item_number (ItemVarint n v) = n"
| "item_number (ItemBool n b) = n"

lemma item_ok_size: "valid_number (item_number i) \<Longrightarrow> item_size i < 2 ^ 63 \<Longrightarrow> item_ok i"
  by (cases i) simp_all

context protowire_spec
begin

lemma item_size_le: "item_size i \<le> length (append_item pw [] i)"
proof -
  have "length s \<le> length (AppendBytes pw b s)" for b s
    using AppendBytes_length [of s] AppendBytes_extends [of b s] by simp
  then show ?thesis by (cases i) (simp_all add: appendString_def appendMessage_def AppendString_is_bytes)
qed

lemma item_sizes_le: "i \<in> set items \<Longrightarrow> item_size i \<le> length (append_items pw items)"
proof (induction items)
  case (Cons j items)
  have "append_items pw (j # items) = append_item pw [] j @ append_items pw items"
    using foldl_append_items [of "append_item pw [] j" items] by (simp add: append_items_def)
  with Cons item_size_le [of j] show ?case by auto
qed simp

lemma decode_sized_items:
  assumes "\<forall>i\<in>set items. valid_number (item_number i)" and "length (append_items pw items) < 2 ^ 63"
  shows "decodeWireFields pw (append_items pw items) = Inr (map item_field items)"
proof -
  have "item_ok i" if "i \<in> set items" for i
    using that assms item_sizes_le [of i items] by (intro item_ok_size) auto
  then show ?thesis by (simp add: decode_append_items list_all_iff)
qed

lemma entry_decodes:
  assumes "length name < 2 ^ 63"
  shows "\<exists>es. decodeWireFields pw (available_model pw d name) = Inr es \<and> lastBytesField es 1 = Some name
    \<and> lastBytesField es 18 = Some name \<and> lastVarintField es 5 = Some 1
    \<and> lastVarintField es 2 = (if name = d then Some 1 else None)"
proof -
  have "list_all item_ok (entry_items d name)" using assms by (simp add: entry_items_def valid_number_def)
  then have "decodeWireFields pw (available_model pw d name) = Inr (map item_field (entry_items d name))"
    by (simp add: available_model_items decode_append_items)
  then show ?thesis by (simp add: entry_items_def wire_simps)
qed

lemma catalogue_decodes:
  assumes "EncodeAvailableModels pw names d = Inr payload" and "length payload < 2 ^ 63"
  shows "\<exists>fs. decodeWireFields pw payload = Inr fs \<and> repeatedBytesField fs 1 = names
    \<and> repeatedBytesField fs 2 = map (available_model pw d) names"
proof -
  have payload: "payload = append_items pw (catalogue_items pw names d)" using assms(1) by (simp add: catalogue_payload)
  have "\<forall>i\<in>set (catalogue_items pw names d). valid_number (item_number i)"
    by (auto simp: catalogue_items_def valid_number_def)
  with assms(2) have "decodeWireFields pw payload = Inr (map item_field (catalogue_items pw names d))"
    unfolding payload using decode_sized_items by blast
  moreover have "repeatedBytesField (map item_field (concat (map (\<lambda>name. [ItemString 1 name, ItemMessage 2 (available_model pw d name)]) ns)
      @ map (\<lambda>field. ItemMessage field (model_config pw names d field)) [4, 5, 6, 7, 8, 9, 10])) 1 = ns"
    "repeatedBytesField (map item_field (concat (map (\<lambda>name. [ItemString 1 name, ItemMessage 2 (available_model pw d name)]) ns)
      @ map (\<lambda>field. ItemMessage field (model_config pw names d field)) [4, 5, 6, 7, 8, 9, 10])) 2 = map (available_model pw d) ns" for ns
    by (induction ns) (simp_all add: wire_simps)
  ultimately show ?thesis by (simp only: catalogue_items_def)  blast
qed

end

text \<open>The catalogue the client reads back lists exactly the given names, in order, each with an entry of its
  own that names it, offers it for the agent, and is marked as the default exactly for the default model. The
  payload is taken to be shorter than \<open>2 ^ 63\<close> bytes, as every Go slice is.\<close>

lemma catalogue_lists_models:
  assumes "protowire_spec pw" and "EncodeAvailableModels pw names d = Inr payload" and "length payload < 2 ^ 63"
  shows "\<exists>fs. decodeWireFields pw payload = Inr fs \<and> repeatedBytesField fs 1 = names
    \<and> list_all2 (\<lambda>name entry. \<exists>es. decodeWireFields pw entry = Inr es \<and> lastBytesField es 1 = Some name
        \<and> lastBytesField es 18 = Some name \<and> lastVarintField es 5 = Some 1
        \<and> lastVarintField es 2 = (if name = d then Some 1 else None)) names (repeatedBytesField fs 2)"
proof -
  obtain fs where fs: "decodeWireFields pw payload = Inr fs" "repeatedBytesField fs 1 = names"
    "repeatedBytesField fs 2 = map (available_model pw d) names"
    using protowire_spec.catalogue_decodes [OF assms] by blast
  have "length name < 2 ^ 63" if "name \<in> set names" for name
  proof -
    have "list_all name_ok names" using assms(2) by (simp add: catalogue_payload validateModels_iff)
    with that have "length name \<le> 256" by (simp add: list_all_iff name_ok_def)
    then show ?thesis by simp
  qed
  then show ?thesis
    using fs protowire_spec.entry_decodes [OF assms(1)] by (auto simp: list_all2_map2 list.rel_map intro!: list_all2_all_nthI)
qed

end
