(* ===== verification/Session.thy ===== *)
theory Session
  imports Runner Tool_Bridge
begin

text \<open>
  The agent session of \<open>server/agent.go\<close>: the operations under the session's mutex, each as a
  function on the session's state. Pending tools live in a list and are shared by their
  position, as the code shares the pointer between the two maps; result channels, of capacity
  one, are buffers named by a number. The message ID counter is the handler's and is passed
  along. Random identifiers, the time and the choice of a \<open>select\<close> with several ready cases
  are arguments.
\<close>

definition maxAgentRequestBytes :: int where "maxAgentRequestBytes = 4 * 1024 * 1024"
definition maxShellStreamBytes :: nat where "maxShellStreamBytes = 256 * 1024"
definition defaultMaxSessions :: nat where "defaultMaxSessions = 1024"

section \<open>State\<close>

datatype editPhase = editPhaseNone | editPhaseRead | editPhaseWrite

record pendingMCPState =
  pm_messageID :: u32
  pm_execID :: string
  pm_result :: nat

record pendingTool =
  pt_request :: ToolRequest
  pt_transport :: ToolRequest
  pt_readRequest :: "ReadToolRequest option"
  pt_result :: nat
  pt_stdout :: string
  pt_stderr :: string
  pt_truncated :: bool
  pt_editPhase :: editPhase

text \<open>
  The context is absent before the session starts; then it is \<open>ctx.Err()\<close>. The zero time of
  \<open>terminalAt\<close> is \<open>None\<close>. Of the notification channel, of capacity one, only whether it
  holds a token matters. \<open>se_toolResults\<close> and \<open>se_mcpResults\<close> are what the result channels hold,
  and \<open>se_sent\<close> is a history variable: all results ever sent.
\<close>

record agentSession =
  se_run :: RunRequest
  se_started :: bool
  se_done :: bool
  se_events :: "bytes list"
  se_errorCode :: string
  se_errorMessage :: string
  se_terminalAt :: "int option"
  se_notify :: bool
  se_ctx :: "goerror option option"
  se_subscribers :: int
  se_allocates :: bool
  se_tools :: "pendingTool list"
  se_pendingByMessage :: "u32 \<rightharpoonup> nat"
  se_pendingByExec :: "string \<rightharpoonup> nat"
  se_mcpDiscovery :: "pendingMCPState option"
  se_discoveredMCPTools :: "MCPToolDefinition list"
  se_toolResults :: "nat \<rightharpoonup> AgentToolResult"
  se_mcpResults :: "nat \<rightharpoonup> MCPStateResult"
  se_sent :: "(nat \<times> AgentToolResult) list"

definition empty_run :: RunRequest where
  "empty_run = \<lparr> ConversationID = [], ModelID = [], UserText = [], UserMessageID = [], MetadataOnly = False,
     MCPToolsPresent = False, MCPTools = [] \<rparr>"

definition new_session :: "bool \<Rightarrow> agentSession" where
  "new_session allocates = \<lparr> se_run = empty_run, se_started = False, se_done = False, se_events = [],
     se_errorCode = [], se_errorMessage = [], se_terminalAt = None, se_notify = False, se_ctx = None,
     se_subscribers = 0, se_allocates = allocates, se_tools = [], se_pendingByMessage = Map.empty,
     se_pendingByExec = Map.empty, se_mcpDiscovery = None, se_discoveredMCPTools = [],
     se_toolResults = Map.empty, se_mcpResults = Map.empty, se_sent = [] \<rparr>"

text \<open>\<open>nextMessageID.Add(1)\<close> wraps at \<open>2^32\<close>, and zero is skipped.\<close>

definition allocateMessageID :: "u32 \<Rightarrow> u32 \<times> u32" where
  "allocateMessageID nextID =
     (let v = nextID + 1 in
      if v = 0 then (v + 1, v + 1) else (v, v))"

definition signalLocked :: "agentSession \<Rightarrow> agentSession" where
  "signalLocked s = s\<lparr>se_notify := True\<rparr>"

definition append_events :: "bytes list \<Rightarrow> agentSession \<Rightarrow> agentSession" where
  "append_events es s = s\<lparr>se_events := se_events s @ es\<rparr>"

definition update_tool :: "nat \<Rightarrow> (pendingTool \<Rightarrow> pendingTool) \<Rightarrow> agentSession \<Rightarrow> agentSession" where
  "update_tool p f s = s\<lparr>se_tools := (se_tools s)[p := f (se_tools s ! p)]\<rparr>"

section \<open>Start, publish, finish, subscribe\<close>

definition session_start :: "goerror option \<Rightarrow> RunRequest \<Rightarrow> agentSession \<Rightarrow> bool result \<times> agentSession" where
  "session_start parentErr request s =
     (if se_started s then
        (if \<not> RunRequest_Equal (se_run s) request then
           (Inl (Errorf ''request ID already started with a different run''), s)
         else (Inr False, s))
      else if se_done s then (Inl (Errorf ''request ID is already terminal''), s)
      else (Inr True, signalLocked (s\<lparr>se_started := True, se_run := request, se_ctx := Some parentErr\<rparr>)))"

definition session_publish :: "bytes \<Rightarrow> agentSession \<Rightarrow> unit result \<times> agentSession" where
  "session_publish payload s =
     (if se_done s then (Inl (Errorf ''agent session is already terminal''), s)
      else case se_ctx s of
        Some (Some e) \<Rightarrow> (Inl e, s)
      | _ \<Rightarrow> (Inr (), signalLocked (append_events [payload] s)))"

definition cancel_context :: "agentSession \<Rightarrow> agentSession" where
  "cancel_context s = (case se_ctx s of
     Some None \<Rightarrow> s\<lparr>se_ctx := Some (Some Context_Canceled)\<rparr>
   | _ \<Rightarrow> s)"

definition session_finish :: "int \<Rightarrow> bytes \<Rightarrow> string \<Rightarrow> string \<Rightarrow> agentSession \<Rightarrow> agentSession" where
  "session_finish now payload code message s =
     (if se_done s then s
      else
        let s = (if payload \<noteq> [] then append_events [payload] s else s);
            s = s\<lparr>se_done := True, se_errorCode := code, se_errorMessage := message,
              se_pendingByMessage := Map.empty, se_pendingByExec := Map.empty, se_mcpDiscovery := None,
              se_terminalAt := Some now\<rparr> in
        cancel_context (signalLocked s))"

definition session_terminalState :: "agentSession \<Rightarrow> bool \<times> int option" where
  "session_terminalState s = (se_done s, se_terminalAt s)"

definition session_snapshot :: "int \<Rightarrow> agentSession \<Rightarrow> bytes list \<times> bool \<times> string \<times> string \<times> bool" where
  "session_snapshot cursor s =
     (let cursor = (if cursor < 0 then 0 else cursor) in
      (if cursor < int (length (se_events s)) then drop (nat cursor) (se_events s) else [],
       se_done s, se_errorCode s, se_errorMessage s, se_started s))"

definition session_subscribe :: "agentSession \<Rightarrow> agentSession" where
  "session_subscribe s = s\<lparr>se_subscribers := se_subscribers s + 1\<rparr>"

definition session_unsubscribe :: "agentSession \<Rightarrow> agentSession" where
  "session_unsubscribe s =
     (let s = (if 0 < se_subscribers s then s\<lparr>se_subscribers := se_subscribers s - 1\<rparr> else s) in
      if se_subscribers s = 0 \<and> se_started s \<and> \<not> se_done s then cancel_context s else s)"

text \<open>
  A send on a result channel in a \<open>select\<close> with \<open>ctx.Done()\<close>: when both are ready either may
  be taken. A full channel blocks until the context ends; a missing context is a nil pointer.
\<close>

definition send_or_done :: "bool \<Rightarrow> bool \<Rightarrow> goerror option option \<Rightarrow> unit result" where
  "send_or_done preferDone full ctx = (case ctx of
     None \<Rightarrow> Inl Panic
   | Some None \<Rightarrow> if full then Inl Diverge else Inr ()
   | Some (Some e) \<Rightarrow> if full \<or> preferDone then Inl e else Inr ())"

section \<open>MCP discovery\<close>

definition cloneMCPToolDefinitions :: "MCPToolDefinition list \<Rightarrow> MCPToolDefinition list" where
  "cloneMCPToolDefinitions definitions = definitions"

datatype discovery_start = NoDiscovery RunRequest | Discovering pendingMCPState

text \<open>The part of \<open>enrichRunWithMCP\<close> up to the wait; \<open>chan\<close> is the channel it makes.\<close>

definition begin_discovery ::
  "protowire \<Rightarrow> string option \<Rightarrow> nat \<Rightarrow> RunRequest \<Rightarrow> u32 \<Rightarrow> agentSession \<Rightarrow>
   discovery_start result \<times> u32 \<times> agentSession" where
  "begin_discovery pw execSuffix chan request nextID s =
     (if \<not> MCPToolsPresent request \<or> MCPTools request \<noteq> [] then (Inr (NoDiscovery request), nextID, s)
      else case execSuffix of
        None \<Rightarrow> (Inl (Errorf ''create MCP discovery exec ID''), nextID, s)
      | Some suffix \<Rightarrow>
          if se_done s then (Inl (Errorf ''agent session is already terminal''), nextID, s)
          else if \<not> se_allocates s then (Inl (Errorf ''message ID allocator is unavailable''), nextID, s)
          else if se_mcpDiscovery s \<noteq> None then (Inl (Errorf ''MCP discovery is already pending''), nextID, s)
          else (case allocateMessageID nextID of (messageID, nextID) \<Rightarrow>
            let pending = \<lparr> pm_messageID = messageID, pm_execID = ''exec-mcp-state-'' @ suffix, pm_result = chan \<rparr> in
            case EncodeMCPStateRequest pw (pm_messageID pending) (pm_execID pending) of
              Inl e \<Rightarrow> (Inl e, nextID, s)
            | Inr payload \<Rightarrow>
                (Inr (Discovering pending), nextID,
                 signalLocked (append_events [payload] (s\<lparr>se_mcpDiscovery := Some pending\<rparr>)))))"

definition clearMCPDiscovery :: "pendingMCPState \<Rightarrow> agentSession \<Rightarrow> bool \<times> agentSession" where
  "clearMCPDiscovery pending s =
     (if se_mcpDiscovery s \<noteq> Some pending then (False, s) else (True, s\<lparr>se_mcpDiscovery := None\<rparr>))"

definition completeMCPDiscovery :: "RunRequest \<Rightarrow> MCPStateResult \<Rightarrow> agentSession \<Rightarrow> RunRequest result \<times> agentSession" where
  "completeMCPDiscovery request r s =
     (if st_IsError r then (Inl (Errorf ''MCP state is unavailable''), s)
      else (Inr (request\<lparr>MCPTools := cloneMCPToolDefinitions (st_Tools r)\<rparr>),
            s\<lparr>se_discoveredMCPTools := cloneMCPToolDefinitions (st_Tools r)\<rparr>))"

text \<open>What ends the wait: the context, the result, or the timer.\<close>

datatype discovery_wake = WakeDone | WakeResult | WakeTimer

definition receive_discovery :: "RunRequest \<Rightarrow> pendingMCPState \<Rightarrow> agentSession \<Rightarrow> RunRequest result \<times> agentSession" where
  "receive_discovery request pending s = (case se_mcpResults s (pm_result pending) of
     None \<Rightarrow> (Inl Diverge, s)
   | Some r \<Rightarrow> completeMCPDiscovery request r (s\<lparr>se_mcpResults := (se_mcpResults s)(pm_result pending := None)\<rparr>))"

definition context_error :: "agentSession \<Rightarrow> goerror" where
  "context_error s = (case se_ctx s of Some (Some e) \<Rightarrow> e | _ \<Rightarrow> Diverge)"

text \<open>After the timer finds the discovery already answered, the code waits once more.\<close>

definition end_discovery ::
  "RunRequest \<Rightarrow> pendingMCPState \<Rightarrow> discovery_wake \<Rightarrow> discovery_wake \<Rightarrow> agentSession \<Rightarrow> RunRequest result \<times> agentSession" where
  "end_discovery request pending wake again s = (case wake of
     WakeDone \<Rightarrow> (Inl (context_error s), snd (clearMCPDiscovery pending s))
   | WakeResult \<Rightarrow> receive_discovery request pending s
   | WakeTimer \<Rightarrow>
       (case clearMCPDiscovery pending s of
          (True, s) \<Rightarrow> (Inl (Errorf ''MCP state request timed out''), s)
        | (False, s) \<Rightarrow> (case again of
            WakeResult \<Rightarrow> receive_discovery request pending s
          | _ \<Rightarrow> (Inl (context_error s), s))))"

definition runMCPTool :: "MCPToolDefinition list \<Rightarrow> string \<Rightarrow> MCPToolDefinition option" where
  "runMCPTool definitions name = find (\<lambda>d. mcp_Name d = name) definitions"

definition effectiveMCPToolsLocked :: "agentSession \<Rightarrow> MCPToolDefinition list" where
  "effectiveMCPToolsLocked s =
     (if se_discoveredMCPTools s = [] then MCPTools (se_run s)
      else MCPTools (se_run s) @ se_discoveredMCPTools s)"

section \<open>Arguments of a tool call\<close>

text \<open>\<open>strings.ToLower\<close> on a tool name; the names a run delivers are ASCII (\<open>toolNamePattern\<close>).\<close>

definition lower_char :: "char \<Rightarrow> char" where
  "lower_char c = (if 65 \<le> byte_val c \<and> byte_val c \<le> 90 then mk_byte (byte_val c + 32) else c)"

definition lower_ascii :: "string \<Rightarrow> string" where
  "lower_ascii s = map lower_char s"

record readArguments =
  ra_Path :: string
  ra_Offset :: "u32 option"
  ra_Limit :: "u32 option"

text \<open>A decoder's first value, unknown fields refused; what follows the value is not read.\<close>

definition decodeReadArguments :: "string \<Rightarrow> readArguments result" where
  "decodeReadArguments raw =
     (let invalid = Errorf ''Read tool arguments are invalid'' in
      try_some invalid (Option.bind (json_parse raw)
          (\<lambda>(v, rest). object_fields True [''path'', ''offset'', ''limit''] v)) (\<lambda>ms.
      try_some invalid (stringField ''path'' ms) (\<lambda>path.
      try_some invalid (fold_field (set_ptr (\<lambda>n. map_option word_of_int (parse_int_in (- 2147483648) 2147483647 n)))
          ''offset'' None ms) (\<lambda>offset.
      try_some invalid (fold_field (set_ptr (\<lambda>n. map_option word_of_int (parse_uint_to 4294967295 n)))
          ''limit'' None ms) (\<lambda>limit.
        if trimSpace path = [] then Inl invalid
        else Inr \<lparr> ra_Path = path, ra_Offset = offset, ra_Limit = limit \<rparr>)))))"

text \<open>
  \<open>json.Marshal\<close> of a \<open>json.RawMessage\<close>: white space between tokens goes, and \<open><\<close>, \<open>>\<close>, \<open>&\<close>,
  U+2028 and U+2029 are written as escapes. The flag says whether the text is inside a string.
\<close>

fun json_compact :: "bool \<Rightarrow> string \<Rightarrow> string" where
  "json_compact inString [] = []"
| "json_compact inString (c # r) =
     (if \<not> inString \<and> is_ws c then json_compact inString r
      else if c = quote_char then c # json_compact (\<not> inString) r
      else if inString \<and> c = backslash then
        (case r of [] \<Rightarrow> [c] | e # r1 \<Rightarrow> c # e # json_compact inString r1)
      else if html_unsafe c then u_escape (byte_val c) @ json_compact inString r
      else if c = CHR 0xE2 \<and> take 2 r = [CHR 0x80, CHR 0xA8] then u_escape 8232 @ json_compact inString (drop 2 r)
      else if c = CHR 0xE2 \<and> take 2 r = [CHR 0x80, CHR 0xA9] then u_escape 8233 @ json_compact inString (drop 2 r)
      else c # json_compact inString r)"

definition wrapMCPArguments :: "MCPToolDefinition \<Rightarrow> string \<Rightarrow> string" where
  "wrapMCPArguments d arguments =
     json_object [(''name'', json_quote (mcp_Name d)), (''server'', json_quote (mcp_ProviderIdentifier d)),
       (''tool_name'', json_quote (mcp_ToolName d)), (''arguments'', json_compact False arguments)]"

section \<open>Opening a tool\<close>

record opened_tool =
  op_dispatch :: ToolDispatch
  op_transport :: ToolRequest
  op_readRequest :: "ReadToolRequest option"
  op_phase :: editPhase

definition session_file_tools :: "string list" where
  "session_file_tools = [''Write'', ''Delete'', ''List'', ''Grep'', ''Glob'', ''Shell'']"

definition read_request :: "ToolRequest \<Rightarrow> string \<Rightarrow> u32 option \<Rightarrow> u32 option \<Rightarrow> ReadToolRequest" where
  "read_request request path offset limit = \<lparr> rr_MessageID = req_MessageID request, rr_ExecID = req_ExecID request,
     rr_CallID = req_CallID request, rr_Path = path, rr_Offset = offset, rr_Limit = limit \<rparr>"

definition dispatch_call :: "protowire \<Rightarrow> MCPToolDefinition list \<Rightarrow> ToolRequest \<Rightarrow> opened_tool result" where
  "dispatch_call pw definitions request =
     (if req_Name request = ''Read'' then
        try_then (decodeReadArguments (req_Arguments request)) (\<lambda>arguments.
          let readRequest = read_request request (ra_Path arguments) (ra_Offset arguments) (ra_Limit arguments) in
          try_then (EncodeReadToolDispatch pw readRequest) (\<lambda>dispatch.
            Inr \<lparr> op_dispatch = dispatch, op_transport = request, op_readRequest = Some readRequest,
              op_phase = editPhaseNone \<rparr>))
      else if req_Name request \<in> set session_file_tools then
        try_then (EncodeToolDispatch pw request) (\<lambda>dispatch.
          Inr \<lparr> op_dispatch = dispatch, op_transport = request, op_readRequest = None, op_phase = editPhaseNone \<rparr>)
      else if req_Name request = ''Edit'' then
        try_then (DecodeEditArguments (req_Arguments request)) (\<lambda>arguments.
          try_then (EncodeEditReadDispatch pw request) (\<lambda>dispatch.
            Inr \<lparr> op_dispatch = dispatch, op_transport = request,
              op_readRequest = Some (read_request request (ed_Path arguments) None None), op_phase = editPhaseRead \<rparr>))
      else (case runMCPTool definitions (req_Name request) of
          None \<Rightarrow> Inl (Errorf ''agent tool is unsupported'')
        | Some d \<Rightarrow>
            if \<not> validJSONObject (req_Arguments request) then Inl (Errorf ''MCP tool arguments are invalid'')
            else
              let transport = request\<lparr>req_Name := ''CallMcpTool'',
                req_Arguments := wrapMCPArguments d (req_Arguments request)\<rparr> in
              try_then (EncodeToolDispatch pw transport) (\<lambda>dispatch.
                Inr \<lparr> op_dispatch = dispatch, op_transport = transport, op_readRequest = None,
                  op_phase = editPhaseNone \<rparr>)))"

definition tool_request :: "u32 \<Rightarrow> string \<Rightarrow> ToolCall \<Rightarrow> ToolRequest" where
  "tool_request messageID suffix call = \<lparr> req_MessageID = messageID,
     req_ExecID = ''exec-'' @ lower_ascii (tc_Name call) @ ''-'' @ suffix, req_CallID = tc_ID call,
     req_Name = tc_Name call, req_Arguments = tc_Arguments call \<rparr>"

definition file_pending :: "nat \<Rightarrow> u32 \<Rightarrow> string \<Rightarrow> agentSession \<Rightarrow> agentSession" where
  "file_pending p messageID execID s = s\<lparr>se_pendingByMessage := (se_pendingByMessage s)(messageID \<mapsto> p),
     se_pendingByExec := (se_pendingByExec s)(execID \<mapsto> p)\<rparr>"

definition session_openTool ::
  "protowire \<Rightarrow> string option \<Rightarrow> ToolCall \<Rightarrow> nat option \<Rightarrow> u32 \<Rightarrow> agentSession \<Rightarrow> unit result \<times> u32 \<times> agentSession" where
  "session_openTool pw execSuffix call result' nextID s =
     (case result' of
        None \<Rightarrow> (Inl (Errorf ''agent tool is unsupported''), nextID, s)
      | Some chan \<Rightarrow> (case execSuffix of
          None \<Rightarrow> (Inl (Errorf ''create tool exec ID''), nextID, s)
        | Some suffix \<Rightarrow>
            if se_done s then (Inl (Errorf ''agent session is already terminal''), nextID, s)
            else if \<not> se_allocates s then (Inl (Errorf ''message ID allocator is unavailable''), nextID, s)
            else (case allocateMessageID nextID of (messageID, nextID) \<Rightarrow>
              let request = tool_request messageID suffix call in
              case dispatch_call pw (effectiveMCPToolsLocked s) request of
                Inl e \<Rightarrow> (Inl e, nextID, s)
              | Inr opened \<Rightarrow>
                  let pending = \<lparr> pt_request = request, pt_transport = op_transport opened,
                        pt_readRequest = op_readRequest opened, pt_result = chan, pt_stdout = [], pt_stderr = [],
                        pt_truncated = False, pt_editPhase = op_phase opened \<rparr>;
                      p = length (se_tools s);
                      s = s\<lparr>se_tools := se_tools s @ [pending]\<rparr>;
                      s = file_pending p (req_MessageID request) (req_ExecID request) s;
                      s = append_events [Execute (op_dispatch opened), Started (op_dispatch opened)] s in
                  (Inr (), nextID, signalLocked s))))"

section \<open>Applying a result\<close>

definition identityMatches :: "ExecResultIdentity \<Rightarrow> u32 \<Rightarrow> string \<Rightarrow> bool" where
  "identityMatches identity messageID execID =
     (if id_ExecID identity \<noteq> [] then
        id_ExecID identity = execID \<and> (id_MessageID identity = 0 \<or> id_MessageID identity = messageID)
      else id_MessageID identity \<noteq> 0 \<and> id_MessageID identity = messageID)"

definition matches_discovery :: "ExecResultIdentity \<Rightarrow> agentSession \<Rightarrow> pendingMCPState option" where
  "matches_discovery identity s = (case se_mcpDiscovery s of
     None \<Rightarrow> None
   | Some pending \<Rightarrow>
       if identityMatches identity (pm_messageID pending) (pm_execID pending) then Some pending else None)"

definition session_matchesToolResult :: "ExecResultIdentity \<Rightarrow> agentSession \<Rightarrow> bool" where
  "session_matchesToolResult identity s =
     (if se_done s then False
      else if matches_discovery identity s \<noteq> None then True
      else if id_ExecID identity \<noteq> [] then
        (case se_pendingByExec s (id_ExecID identity) of
           None \<Rightarrow> False
         | Some p \<Rightarrow> id_MessageID identity = 0
             \<or> req_MessageID (pt_transport (se_tools s ! p)) = id_MessageID identity)
      else id_MessageID identity \<noteq> 0 \<and> se_pendingByMessage s (id_MessageID identity) \<noteq> None)"

definition fallbackToolFailure :: "string \<Rightarrow> string \<Rightarrow> string" where
  "fallbackToolFailure v fallback = (let v = trimSpace v in if v = [] then fallback else v)"

text \<open>What is accepted of a delta, the buffer after it, and whether something was cut.\<close>

definition appendBoundedShellOutput :: "string \<Rightarrow> string \<Rightarrow> string \<times> string \<times> bool" where
  "appendBoundedShellOutput builder delta =
     (let delta = toValidUTF8 delta in
      if delta = [] then ([], builder, False)
      else let remaining = int maxShellStreamBytes - int (length builder) in
        if remaining \<le> 0 then ([], builder, True)
        else if remaining < int (length delta) then
          (let accepted = cut_valid (take (nat remaining) delta) in (accepted, builder @ accepted, True))
        else (delta, builder @ delta, False))"

text \<open>
  What handling a pending tool's result comes to: an error, a result that is not the last one,
  or the completed frame with what goes to the run.
\<close>

datatype handled =
    Refused goerror
  | Partial
  | Completed bytes string bool

text \<open>The text of the errors \<open>ApplyEditArguments\<close> returns; they wrap nothing.\<close>

fun error_text :: "goerror \<Rightarrow> string" where
  "error_text (Errorf m) = m"
| "error_text (Wrapf m e) = m @ error_text e"
| "error_text _ = []"

definition completed_or :: "bytes result \<Rightarrow> string \<Rightarrow> bool \<Rightarrow> handled" where
  "completed_or r content isError = (case r of Inl e \<Rightarrow> Refused e | Inr completed \<Rightarrow> Completed completed content isError)"

definition handle_read :: "protowire \<Rightarrow> ClientMessage \<Rightarrow> pendingTool \<Rightarrow> handled" where
  "handle_read pw message pending = (case pt_readRequest pending of
     None \<Rightarrow> Refused (Errorf ''Read request metadata is unavailable'')
   | Some readRequest \<Rightarrow> (case DecodeReadToolResult pw message of
       Inl e \<Rightarrow> Refused e
     | Inr r \<Rightarrow> completed_or (EncodeReadToolCompleted pw readRequest r)
         (if rd_IsError r then ''Read failed: '' @ rd_Error r else rd_Content r) (rd_IsError r)))"

definition handle_result :: "protowire \<Rightarrow> ClientMessage \<Rightarrow> pendingTool \<Rightarrow> handled" where
  "handle_result pw message pending = (case DecodeToolResult pw message (pt_transport pending) of
     Inl e \<Rightarrow> Refused e
   | Inr r \<Rightarrow> if \<not> res_Complete r then Partial
       else completed_or (EncodeToolCompleted pw (pt_transport pending) r) (res_Content r) (res_IsError r))"

text \<open>The edit's write phase and an MCP call take any result for complete.\<close>

definition handle_final :: "protowire \<Rightarrow> ClientMessage \<Rightarrow> pendingTool \<Rightarrow> handled" where
  "handle_final pw message pending = (case DecodeToolResult pw message (pt_transport pending) of
     Inl e \<Rightarrow> Refused e
   | Inr r \<Rightarrow> completed_or (EncodeToolCompleted pw (pt_transport pending) r) (res_Content r) (res_IsError r))"

text \<open>
  Shell output is accumulated in the pending tool, published as it arrives and, on the last
  event, folded into the result.
\<close>

definition accumulate_output :: "ToolResult \<Rightarrow> pendingTool \<Rightarrow> ToolResult \<times> pendingTool \<times> bool" where
  "accumulate_output r pending = (case res_ShellEvent r of
     ShellEventStdout \<Rightarrow>
       (case appendBoundedShellOutput (pt_stdout pending) (res_StdoutDelta r) of (accepted, builder, truncated) \<Rightarrow>
         (r\<lparr>res_StdoutDelta := accepted\<rparr>,
          pending\<lparr>pt_stdout := builder, pt_truncated := pt_truncated pending \<or> truncated\<rparr>, accepted \<noteq> []))
   | ShellEventStderr \<Rightarrow>
       (case appendBoundedShellOutput (pt_stderr pending) (res_StderrDelta r) of (accepted, builder, truncated) \<Rightarrow>
         (r\<lparr>res_StderrDelta := accepted\<rparr>,
          pending\<lparr>pt_stderr := builder, pt_truncated := pt_truncated pending \<or> truncated\<rparr>, accepted \<noteq> []))
   | ShellEventStart \<Rightarrow> (r, pending, True)
   | _ \<Rightarrow> (r, pending, False))"

definition publish_progress :: "protowire \<Rightarrow> ToolResult \<Rightarrow> agentSession \<Rightarrow> unit result \<times> agentSession" where
  "publish_progress pw r s = (case EncodeToolProgress pw r of
     Inl e \<Rightarrow> (Inl e, s)
   | Inr progress \<Rightarrow> (Inr (), signalLocked (append_events [progress] s)))"

definition handle_shell :: "protowire \<Rightarrow> ClientMessage \<Rightarrow> nat \<Rightarrow> agentSession \<Rightarrow> handled \<times> agentSession" where
  "handle_shell pw message p s = (case DecodeToolResult pw message (pt_transport (se_tools s ! p)) of
     Inl e \<Rightarrow> (Refused e, s)
   | Inr r \<Rightarrow> (case accumulate_output r (se_tools s ! p) of (r, pending, publishProgress) \<Rightarrow>
       let s = update_tool p (\<lambda>_. pending) s in
       if \<not> res_Complete r then
         (if publishProgress then
            (case publish_progress pw r s of (Inl e, s) \<Rightarrow> (Refused e, s) | (Inr _, s) \<Rightarrow> (Partial, s))
          else (Partial, s))
       else case (if res_ShellEvent r = ShellEventExit then publish_progress pw r s else (Inr (), s)) of
         (Inl e, s) \<Rightarrow> (Refused e, s)
       | (Inr _, s) \<Rightarrow>
           (case FinalizeShellToolResult r (pt_stdout pending) (pt_stderr pending) (pt_truncated pending) of
              Inl e \<Rightarrow> (Refused e, s)
            | Inr r \<Rightarrow> (completed_or (EncodeToolCompleted pw (pt_transport pending) r) (res_Content r) (res_IsError r), s))))"

definition edit_failed :: "protowire \<Rightarrow> pendingTool \<Rightarrow> string \<Rightarrow> handled" where
  "edit_failed pw pending detail =
     completed_or (EncodeEditFailureCompleted pw (pt_request pending) detail) (''Edit failed: '' @ detail) True"

definition unfile_pending :: "pendingTool \<Rightarrow> agentSession \<Rightarrow> agentSession" where
  "unfile_pending pending s = s\<lparr>
     se_pendingByMessage := map_delete (req_MessageID (pt_transport pending)) (se_pendingByMessage s),
     se_pendingByExec := map_delete (req_ExecID (pt_transport pending)) (se_pendingByExec s)\<rparr>"

text \<open>The read of an edit succeeded: the edit is applied and its write is dispatched.\<close>

definition edit_write_request :: "u32 \<Rightarrow> string \<Rightarrow> pendingTool \<Rightarrow> string \<Rightarrow> string \<Rightarrow> ToolRequest" where
  "edit_write_request messageID suffix pending path contents = \<lparr> req_MessageID = messageID,
     req_ExecID = ''exec-edit-write-'' @ suffix, req_CallID = req_CallID (pt_request pending),
     req_Name = ''Write'', req_Arguments = writeArgumentsJSON path contents \<rparr>"

definition handle_edit_read ::
  "protowire \<Rightarrow> string option \<Rightarrow> ClientMessage \<Rightarrow> nat \<Rightarrow> u32 \<Rightarrow> agentSession \<Rightarrow> handled \<times> u32 \<times> agentSession" where
  "handle_edit_read pw execSuffix message p nextID s =
     (let pending = se_tools s ! p in
      case DecodeReadToolResult pw message of
        Inl e \<Rightarrow> (Refused e, nextID, s)
      | Inr readResult \<Rightarrow>
          if rd_IsError readResult then
            (edit_failed pw pending (fallbackToolFailure (rd_Error readResult) ''could not read the target file''), nextID, s)
          else (case ApplyEditArguments (req_Arguments (pt_request pending)) (rd_Content readResult) of
            Inl e \<Rightarrow> (edit_failed pw pending (error_text e), nextID, s)
          | Inr (updated, _) \<Rightarrow> (case DecodeEditArguments (req_Arguments (pt_request pending)) of
              Inl e \<Rightarrow> (Refused e, nextID, s)
            | Inr arguments \<Rightarrow> (case execSuffix of
                None \<Rightarrow> (Refused (Errorf ''create Edit write exec ID''), nextID, s)
              | Some suffix \<Rightarrow> (case allocateMessageID nextID of (messageID, nextID) \<Rightarrow>
                  let writeRequest = edit_write_request messageID suffix pending (ed_Path arguments) updated in
                  case EncodeToolDispatch pw writeRequest of
                    Inl e \<Rightarrow> (Refused e, nextID, s)
                  | Inr dispatch \<Rightarrow>
                      let s = unfile_pending pending s;
                          s = update_tool p (\<lambda>t. t\<lparr>pt_transport := writeRequest, pt_readRequest := None,
                            pt_editPhase := editPhaseWrite\<rparr>) s;
                          s = file_pending p (req_MessageID writeRequest) (req_ExecID writeRequest) s;
                          s = append_events [Execute dispatch] s in
                      (Partial, nextID, signalLocked s))))))"

definition handle_pending ::
  "protowire \<Rightarrow> string option \<Rightarrow> ClientMessage \<Rightarrow> nat \<Rightarrow> u32 \<Rightarrow> agentSession \<Rightarrow> handled \<times> u32 \<times> agentSession" where
  "handle_pending pw execSuffix message p nextID s =
     (let pending = se_tools s ! p; name = req_Name (pt_request pending) in
      if name = ''Read'' then (handle_read pw message pending, nextID, s)
      else if name = ''Edit'' then
        (case pt_editPhase pending of
           editPhaseRead \<Rightarrow> handle_edit_read pw execSuffix message p nextID s
         | editPhaseWrite \<Rightarrow> (handle_final pw message pending, nextID, s)
         | editPhaseNone \<Rightarrow> (Refused (Errorf ''Edit phase is invalid''), nextID, s))
      else if name = ''Shell'' then
        (case handle_shell pw message p s of (h, s) \<Rightarrow> (h, nextID, s))
      else if name \<in> set session_file_tools then (handle_result pw message pending, nextID, s)
      else if req_Name (pt_transport pending) \<noteq> ''CallMcpTool'' then
        (Refused (Errorf ''pending tool is unsupported''), nextID, s)
      else (handle_final pw message pending, nextID, s))"

definition find_pending :: "ExecResultIdentity \<Rightarrow> agentSession \<Rightarrow> nat option" where
  "find_pending identity s =
     (case (if id_ExecID identity \<noteq> [] then se_pendingByExec s (id_ExecID identity) else None) of
        Some p \<Rightarrow> Some p
      | None \<Rightarrow> if id_MessageID identity \<noteq> 0 then se_pendingByMessage s (id_MessageID identity) else None)"

definition send_tool_result :: "bool \<Rightarrow> nat \<Rightarrow> AgentToolResult \<Rightarrow> agentSession \<Rightarrow> unit result \<times> agentSession" where
  "send_tool_result preferDone chan toolResult s =
     (case send_or_done preferDone (se_toolResults s chan \<noteq> None) (se_ctx s) of
        Inl e \<Rightarrow> (Inl e, s)
      | Inr _ \<Rightarrow> (Inr (), s\<lparr>se_toolResults := (se_toolResults s)(chan \<mapsto> toolResult),
          se_sent := se_sent s @ [(chan, toolResult)]\<rparr>))"

definition send_mcp_result :: "bool \<Rightarrow> nat \<Rightarrow> MCPStateResult \<Rightarrow> agentSession \<Rightarrow> unit result \<times> agentSession" where
  "send_mcp_result preferDone chan r s =
     (case send_or_done preferDone (se_mcpResults s chan \<noteq> None) (se_ctx s) of
        Inl e \<Rightarrow> (Inl e, s)
      | Inr _ \<Rightarrow> (Inr (), s\<lparr>se_mcpResults := (se_mcpResults s)(chan \<mapsto> r)\<rparr>))"

definition session_applyToolResult ::
  "protowire \<Rightarrow> string option \<Rightarrow> bool \<Rightarrow> ClientMessage \<Rightarrow> u32 \<Rightarrow> agentSession \<Rightarrow> unit result \<times> u32 \<times> agentSession" where
  "session_applyToolResult pw execSuffix preferDone message nextID s =
     (case DecodeExecResultIdentity pw message of
        Inl e \<Rightarrow> (Inl e, nextID, s)
      | Inr identity \<Rightarrow>
          if se_done s then (Inl (Errorf ''agent session is already terminal''), nextID, s)
          else (case matches_discovery identity s of
            Some pending \<Rightarrow>
              (case DecodeMCPStateResult pw message (pm_messageID pending) (pm_execID pending) of
                 Inl e \<Rightarrow> (Inl e, nextID, s)
               | Inr r \<Rightarrow>
                   (case send_mcp_result preferDone (pm_result pending) r (s\<lparr>se_mcpDiscovery := None\<rparr>) of
                      (res, s) \<Rightarrow> (res, nextID, s)))
          | None \<Rightarrow> (case find_pending identity s of
              None \<Rightarrow> (Inl (Errorf ''result does not match a pending tool''), nextID, s)
            | Some p \<Rightarrow> (case handle_pending pw execSuffix message p nextID s of
                (Refused e, nextID, s) \<Rightarrow> (Inl e, nextID, s)
              | (Partial, nextID, s) \<Rightarrow> (Inr (), nextID, s)
              | (Completed completed content isError, nextID, s) \<Rightarrow>
                  let pending = se_tools s ! p;
                      s = signalLocked (append_events [completed] (unfile_pending pending s)) in
                  (case send_tool_result preferDone (pt_result pending)
                      \<lparr> at_CallID = req_CallID (pt_request pending), at_Content = content, at_IsError = isError \<rparr> s of
                     (res, s) \<Rightarrow> (res, nextID, s))))))"

end
