(* ===== verification/Session_Steps.thy ===== *)
theory Session_Steps
  imports Session "HOL-Library.Sublist"
begin

text \<open>
  A session under concurrency: one step relation over its operations, which hold the mutex, in
  any order, with the invariants of every reachable state. The pending maps stay consistent,
  every call is answered at most once, and a session that has ended does not change any more.
\<close>

section \<open>Steps\<close>

text \<open>
  The counter and the session. The identifiers made for a call are fresh among the pending
  ones, and the channels are new: the counter wraps only after \<open>2^32\<close> calls, the sfx is 128
  random bits and \<open>make(chan)\<close> makes a new channel. Runs open tools and publish after
  \<open>start\<close>, because the goroutine that does is started by it. The send of a result, which the
  code makes right after it releases the mutex, is part of the step that removes the call.
\<close>

record session_system =
  ss_next :: u32
  ss_session :: agentSession

definition fresh_ids :: "u32 \<Rightarrow> string \<Rightarrow> agentSession \<Rightarrow> bool" where
  "fresh_ids messageID execID s \<longleftrightarrow> se_pendingByMessage s messageID = None \<and> se_pendingByExec s execID = None"

definition fresh_write :: "string option \<Rightarrow> u32 \<Rightarrow> agentSession \<Rightarrow> bool" where
  "fresh_write execSuffix nextID s \<longleftrightarrow> (case execSuffix of None \<Rightarrow> True
     | Some sfx \<Rightarrow> fresh_ids (fst (allocateMessageID nextID)) (''exec-edit-write-'' @ sfx) s)"

definition fresh_open :: "string option \<Rightarrow> ToolCall \<Rightarrow> nat option \<Rightarrow> u32 \<Rightarrow> agentSession \<Rightarrow> bool" where
  "fresh_open execSuffix call result' nextID s \<longleftrightarrow>
     (case execSuffix of None \<Rightarrow> True
        | Some sfx \<Rightarrow> fresh_ids (fst (allocateMessageID nextID)) (''exec-'' @ lower_ascii (tc_Name call) @ ''-'' @ sfx) s)
     \<and> (case result' of None \<Rightarrow> True | Some chan \<Rightarrow> chan \<notin> pt_result ` set (se_tools s))"

inductive session_step :: "protowire \<Rightarrow> session_system \<Rightarrow> session_system \<Rightarrow> bool" for pw where
  step_start:
    "session_start parentErr request s = (r, s') \<Longrightarrow> session_step pw \<lparr> ss_next = n, ss_session = s \<rparr> \<lparr> ss_next = n, ss_session = s' \<rparr>"
| step_publish:
    "se_started s \<Longrightarrow> session_publish payload s = (r, s') \<Longrightarrow>
     session_step pw \<lparr> ss_next = n, ss_session = s \<rparr> \<lparr> ss_next = n, ss_session = s' \<rparr>"
| step_open:
    "se_started s \<Longrightarrow> fresh_open execSuffix call result' n s \<Longrightarrow>
     session_openTool pw execSuffix call result' n s = (r, n', s') \<Longrightarrow>
     session_step pw \<lparr> ss_next = n, ss_session = s \<rparr> \<lparr> ss_next = n', ss_session = s' \<rparr>"
| step_apply:
    "fresh_write execSuffix n s \<Longrightarrow> session_applyToolResult pw execSuffix preferDone message n s = (r, n', s') \<Longrightarrow>
     session_step pw \<lparr> ss_next = n, ss_session = s \<rparr> \<lparr> ss_next = n', ss_session = s' \<rparr>"
| step_receive:
    "session_step pw \<lparr> ss_next = n, ss_session = s \<rparr>
       \<lparr> ss_next = n, ss_session = s\<lparr>se_toolResults := (se_toolResults s)(chan := None)\<rparr> \<rparr>"
| step_begin_discovery:
    "se_started s \<Longrightarrow> se_mcpResults s chan = None \<Longrightarrow>
     begin_discovery pw execSuffix chan request n s = (r, n', s') \<Longrightarrow>
     session_step pw \<lparr> ss_next = n, ss_session = s \<rparr> \<lparr> ss_next = n', ss_session = s' \<rparr>"
| step_end_discovery:
    "end_discovery request pending wake again s = (r, s') \<Longrightarrow>
     session_step pw \<lparr> ss_next = n, ss_session = s \<rparr> \<lparr> ss_next = n, ss_session = s' \<rparr>"
| step_finish:
    "session_step pw \<lparr> ss_next = n, ss_session = s \<rparr> \<lparr> ss_next = n, ss_session = session_finish now payload code message s \<rparr>"
| step_subscribe:
    "session_step pw \<lparr> ss_next = n, ss_session = s \<rparr> \<lparr> ss_next = n, ss_session = session_subscribe s \<rparr>"
| step_unsubscribe:
    "session_step pw \<lparr> ss_next = n, ss_session = s \<rparr> \<lparr> ss_next = n, ss_session = session_unsubscribe s \<rparr>"
| step_notified:
    "session_step pw \<lparr> ss_next = n, ss_session = s \<rparr> \<lparr> ss_next = n, ss_session = s\<lparr>se_notify := False\<rparr> \<rparr>"
| step_parent_done:
    "se_ctx s = Some None \<Longrightarrow>
     session_step pw \<lparr> ss_next = n, ss_session = s \<rparr> \<lparr> ss_next = n, ss_session = s\<lparr>se_ctx := Some (Some e)\<rparr> \<rparr>"
| step_other_session:
    "session_step pw \<lparr> ss_next = n, ss_session = s \<rparr> \<lparr> ss_next = n', ss_session = s \<rparr>"

inductive session_reachable :: "protowire \<Rightarrow> session_system \<Rightarrow> bool" for pw where
  session_init: "session_reachable pw \<lparr> ss_next = n, ss_session = new_session True \<rparr>"
| session_next: "session_reachable pw x \<Longrightarrow> session_step pw x y \<Longrightarrow> session_reachable pw y"

section \<open>The parts of the state each operation leaves alone\<close>

lemma signalLocked_fields [simp]:
  "se_run (signalLocked s) = se_run s" "se_started (signalLocked s) = se_started s" "se_done (signalLocked s) = se_done s"
  "se_events (signalLocked s) = se_events s" "se_errorCode (signalLocked s) = se_errorCode s"
  "se_errorMessage (signalLocked s) = se_errorMessage s" "se_terminalAt (signalLocked s) = se_terminalAt s"
  "se_ctx (signalLocked s) = se_ctx s" "se_tools (signalLocked s) = se_tools s"
  "se_pendingByMessage (signalLocked s) = se_pendingByMessage s" "se_pendingByExec (signalLocked s) = se_pendingByExec s"
  "se_mcpDiscovery (signalLocked s) = se_mcpDiscovery s" "se_toolResults (signalLocked s) = se_toolResults s"
  "se_mcpResults (signalLocked s) = se_mcpResults s" "se_sent (signalLocked s) = se_sent s"
  by (simp_all add: signalLocked_def)

lemma append_events_fields [simp]:
  "se_started (append_events es s) = se_started s" "se_done (append_events es s) = se_done s"
  "se_events (append_events es s) = se_events s @ es" "se_errorCode (append_events es s) = se_errorCode s"
  "se_errorMessage (append_events es s) = se_errorMessage s" "se_terminalAt (append_events es s) = se_terminalAt s"
  "se_ctx (append_events es s) = se_ctx s" "se_tools (append_events es s) = se_tools s"
  "se_pendingByMessage (append_events es s) = se_pendingByMessage s"
  "se_pendingByExec (append_events es s) = se_pendingByExec s"
  "se_mcpDiscovery (append_events es s) = se_mcpDiscovery s" "se_toolResults (append_events es s) = se_toolResults s"
  "se_mcpResults (append_events es s) = se_mcpResults s" "se_sent (append_events es s) = se_sent s"
  by (simp_all add: append_events_def)

lemma cancel_context_fields [simp]:
  "se_started (cancel_context s) = se_started s" "se_done (cancel_context s) = se_done s"
  "se_events (cancel_context s) = se_events s" "se_errorCode (cancel_context s) = se_errorCode s"
  "se_errorMessage (cancel_context s) = se_errorMessage s" "se_terminalAt (cancel_context s) = se_terminalAt s"
  "se_tools (cancel_context s) = se_tools s" "se_pendingByMessage (cancel_context s) = se_pendingByMessage s"
  "se_pendingByExec (cancel_context s) = se_pendingByExec s" "se_mcpDiscovery (cancel_context s) = se_mcpDiscovery s"
  "se_toolResults (cancel_context s) = se_toolResults s" "se_mcpResults (cancel_context s) = se_mcpResults s"
  "se_sent (cancel_context s) = se_sent s" "se_ctx (cancel_context s) = None \<longleftrightarrow> se_ctx s = None"
  by (simp_all add: cancel_context_def split: option.split)

lemma update_tool_fields [simp]:
  "se_started (update_tool p f s) = se_started s" "se_done (update_tool p f s) = se_done s"
  "se_events (update_tool p f s) = se_events s" "se_errorCode (update_tool p f s) = se_errorCode s"
  "se_errorMessage (update_tool p f s) = se_errorMessage s" "se_terminalAt (update_tool p f s) = se_terminalAt s"
  "se_ctx (update_tool p f s) = se_ctx s" "se_tools (update_tool p f s) = (se_tools s)[p := f (se_tools s ! p)]"
  "se_pendingByMessage (update_tool p f s) = se_pendingByMessage s"
  "se_pendingByExec (update_tool p f s) = se_pendingByExec s"
  "se_mcpDiscovery (update_tool p f s) = se_mcpDiscovery s" "se_toolResults (update_tool p f s) = se_toolResults s"
  "se_mcpResults (update_tool p f s) = se_mcpResults s" "se_sent (update_tool p f s) = se_sent s"
  by (simp_all add: update_tool_def)

lemma file_pending_fields [simp]:
  "se_started (file_pending p m x s) = se_started s" "se_done (file_pending p m x s) = se_done s"
  "se_events (file_pending p m x s) = se_events s" "se_errorCode (file_pending p m x s) = se_errorCode s"
  "se_errorMessage (file_pending p m x s) = se_errorMessage s" "se_terminalAt (file_pending p m x s) = se_terminalAt s"
  "se_ctx (file_pending p m x s) = se_ctx s" "se_tools (file_pending p m x s) = se_tools s"
  "se_pendingByMessage (file_pending p m x s) = (se_pendingByMessage s)(m \<mapsto> p)"
  "se_pendingByExec (file_pending p m x s) = (se_pendingByExec s)(x \<mapsto> p)"
  "se_mcpDiscovery (file_pending p m x s) = se_mcpDiscovery s" "se_toolResults (file_pending p m x s) = se_toolResults s"
  "se_mcpResults (file_pending p m x s) = se_mcpResults s" "se_sent (file_pending p m x s) = se_sent s"
  by (simp_all add: file_pending_def)

lemma unfile_pending_fields [simp]:
  "se_started (unfile_pending t s) = se_started s" "se_done (unfile_pending t s) = se_done s"
  "se_events (unfile_pending t s) = se_events s" "se_errorCode (unfile_pending t s) = se_errorCode s"
  "se_errorMessage (unfile_pending t s) = se_errorMessage s" "se_terminalAt (unfile_pending t s) = se_terminalAt s"
  "se_ctx (unfile_pending t s) = se_ctx s" "se_tools (unfile_pending t s) = se_tools s"
  "se_pendingByMessage (unfile_pending t s) = (se_pendingByMessage s)(req_MessageID (pt_transport t) := None)"
  "se_pendingByExec (unfile_pending t s) = (se_pendingByExec s)(req_ExecID (pt_transport t) := None)"
  "se_mcpDiscovery (unfile_pending t s) = se_mcpDiscovery s" "se_toolResults (unfile_pending t s) = se_toolResults s"
  "se_mcpResults (unfile_pending t s) = se_mcpResults s" "se_sent (unfile_pending t s) = se_sent s"
  by (simp_all add: unfile_pending_def map_delete_def)

section \<open>Shell output stays bounded\<close>

definition output_ok :: "string \<Rightarrow> bool" where
  "output_ok b \<longleftrightarrow> length b \<le> maxShellStreamBytes \<and> validUTF8 b"

definition tool_output_ok :: "pendingTool \<Rightarrow> bool" where
  "tool_output_ok t \<longleftrightarrow> output_ok (pt_stdout t) \<and> output_ok (pt_stderr t)"

lemma bounded_output:
  assumes "appendBoundedShellOutput b delta = (accepted, b', truncated)" and "output_ok b"
  shows "output_ok b' \<and> b' = b @ accepted \<and> validUTF8 accepted"
proof -
  let ?d = "toValidUTF8 delta" and ?room = "nat (int maxShellStreamBytes - int (length b))"
  have e: "validUTF8 []" by (simp add: validUTF8_def)
  show ?thesis
  proof (cases "?d = [] \<or> maxShellStreamBytes \<le> length b")
    case True
    then have "accepted = [] \<and> b' = b"
      using assms(1) by (cases "?d = []") (simp_all add: appendBoundedShellOutput_def)
    with assms(2) e show ?thesis by simp
  next
    case False
    have "accepted = cut_at ?room ?d \<and> b' = b @ accepted"
    proof (cases "length ?d \<le> ?room")
      case True
      then have "\<not> int maxShellStreamBytes - int (length b) < int (length ?d)" using False by arith
      with True False assms(1) show ?thesis by (auto simp: appendBoundedShellOutput_def cut_at_def Let_def)
    next
      case long: False
      then have "int maxShellStreamBytes - int (length b) < int (length ?d)" by arith
      with long False assms(1) show ?thesis by (auto simp: appendBoundedShellOutput_def cut_at_def Let_def)
    qed
    moreover from cut_at_correct [OF toValidUTF8_valid [of delta], of ?room]
    have "length (cut_at ?room ?d) \<le> maxShellStreamBytes - length b" "validUTF8 (cut_at ?room ?d)"
      by (simp_all add: nat_minus_as_int)
    moreover from this(1) False have "length b + length (cut_at ?room ?d) \<le> maxShellStreamBytes" by linarith
    ultimately show ?thesis using assms(2) by (simp add: output_ok_def validUTF8_append)
  qed
qed

section \<open>Steps that leave the calls alone\<close>

definition same_call :: "pendingTool \<Rightarrow> pendingTool \<Rightarrow> bool" where
  "same_call t t' \<longleftrightarrow> pt_request t' = pt_request t \<and> pt_transport t' = pt_transport t \<and> pt_result t' = pt_result t
     \<and> (tool_output_ok t \<longrightarrow> tool_output_ok t')"

definition quiet :: "agentSession \<Rightarrow> agentSession \<Rightarrow> bool" where
  "quiet s s' \<longleftrightarrow> se_started s' = se_started s \<and> se_done s' = se_done s \<and> se_errorCode s' = se_errorCode s
     \<and> se_errorMessage s' = se_errorMessage s \<and> se_terminalAt s' = se_terminalAt s
     \<and> (se_ctx s' = None) = (se_ctx s = None) \<and> se_pendingByMessage s' = se_pendingByMessage s
     \<and> se_pendingByExec s' = se_pendingByExec s \<and> se_mcpDiscovery s' = se_mcpDiscovery s
     \<and> se_toolResults s' = se_toolResults s \<and> se_mcpResults s' = se_mcpResults s \<and> se_sent s' = se_sent s
     \<and> prefix (se_events s) (se_events s') \<and> (se_done s \<longrightarrow> se_events s' = se_events s)
     \<and> list_all2 same_call (se_tools s) (se_tools s')"

lemma same_call_refl [simp]: "same_call t t"
  by (simp add: same_call_def)

lemma same_calls_refl [simp]: "list_all2 same_call ts ts"
  by (simp add: list_all2_refl)

lemma same_calls_update: "p < length ts \<Longrightarrow> same_call (ts ! p) t \<Longrightarrow> list_all2 same_call ts (ts[p := t])"
  by (auto simp: list_all2_conv_all_nth nth_list_update)

lemma quiet_refl [simp]: "quiet s s"
  by (simp add: quiet_def)

lemma accumulate_same_call:
  assumes "accumulate_output r t = (r', t', progress)"
  shows "same_call t t'"
proof -
  obtain a1 b1 c1 where o: "appendBoundedShellOutput (pt_stdout t) (res_StdoutDelta r) = (a1, b1, c1)"
    by (cases "appendBoundedShellOutput (pt_stdout t) (res_StdoutDelta r)")
  obtain a2 b2 c2 where e: "appendBoundedShellOutput (pt_stderr t) (res_StderrDelta r) = (a2, b2, c2)"
    by (cases "appendBoundedShellOutput (pt_stderr t) (res_StderrDelta r)")
  show ?thesis
    using assms bounded_output [OF o] bounded_output [OF e] o e
    by (cases "res_ShellEvent r") (auto simp: accumulate_output_def same_call_def tool_output_ok_def)
qed

lemma publish_progress_quiet:
  "publish_progress pw r s = (res, s') \<Longrightarrow> \<not> se_done s \<Longrightarrow> quiet s s' \<and> se_tools s' = se_tools s"
  by (auto simp: publish_progress_def quiet_def split: sum.splits)

lemma quiet_trans:
  assumes "quiet s t" and "quiet t u"
  shows "quiet s u"
proof -
  have "list_all2 same_call (se_tools s) (se_tools u)"
    using assms by (auto simp: quiet_def list_all2_conv_all_nth same_call_def)
  with assms show ?thesis by (auto simp: quiet_def)
qed

lemma handle_shell_quiet:
  assumes "handle_shell pw message p s = (h, s')" and "p < length (se_tools s)" and "\<not> se_done s"
  shows "quiet s s'"
proof (cases "DecodeToolResult pw message (pt_transport (se_tools s ! p))")
  case (Inl e)
  with assms(1) show ?thesis by (simp add: handle_shell_def)
next
  case (Inr r)
  obtain r' t b where a: "accumulate_output r (se_tools s ! p) = (r', t, b)" by (cases "accumulate_output r (se_tools s ! p)")
  let ?s = "update_tool p (\<lambda>_. t) s"
  have q: "quiet s ?s" using same_calls_update [OF assms(2) accumulate_same_call [OF a]] by (simp add: quiet_def)
  have done': "\<not> se_done ?s" using assms(3) by simp
  obtain res s1 where p: "publish_progress pw r' ?s = (res, s1)" by (cases "publish_progress pw r' ?s")
  from publish_progress_quiet [OF p done'] have q1: "quiet s s1" using quiet_trans [OF q] by blast
  have "s' = ?s \<or> s' = s1"
    using assms(1) Inr a p by (auto simp: handle_shell_def Let_def split: if_splits sum.splits)
  with q q1 show ?thesis by blast
qed

section \<open>The invariant\<close>

text \<open>The calls in flight, and the two ways to find them.\<close>

definition filed :: "agentSession \<Rightarrow> nat \<Rightarrow> bool" where
  "filed s p \<longleftrightarrow> (\<exists>m. se_pendingByMessage s m = Some p)"

definition filing_ok :: "pendingTool list \<Rightarrow> (u32 \<rightharpoonup> nat) \<Rightarrow> (string \<rightharpoonup> nat) \<Rightarrow> bool" where
  "filing_ok ts byMessage byExec \<longleftrightarrow>
     (\<forall>m p. byMessage m = Some p \<longrightarrow> p < length ts \<and> req_MessageID (pt_transport (ts ! p)) = m
        \<and> byExec (req_ExecID (pt_transport (ts ! p))) = Some p)
     \<and> (\<forall>x p. byExec x = Some p \<longrightarrow> p < length ts \<and> req_ExecID (pt_transport (ts ! p)) = x
        \<and> byMessage (req_MessageID (pt_transport (ts ! p))) = Some p)"

definition channels_ok :: "agentSession \<Rightarrow> bool" where
  "channels_ok s \<longleftrightarrow> distinct (map pt_result (se_tools s)) \<and> distinct (map fst (se_sent s))
     \<and> (\<forall>c. se_toolResults s c \<noteq> None \<longrightarrow> c \<in> fst ` set (se_sent s))
     \<and> (\<forall>p. filed s p \<longrightarrow> pt_result (se_tools s ! p) \<notin> fst ` set (se_sent s))
     \<and> (\<forall>(c, r)\<in>set (se_sent s). \<exists>t\<in>set (se_tools s). pt_result t = c \<and> req_CallID (pt_request t) = at_CallID r)"

definition lifecycle_ok :: "agentSession \<Rightarrow> bool" where
  "lifecycle_ok s \<longleftrightarrow> (se_started s \<longleftrightarrow> se_ctx s \<noteq> None) \<and> (se_done s \<longleftrightarrow> se_terminalAt s \<noteq> None)
     \<and> (se_done s \<longrightarrow> se_pendingByMessage s = Map.empty \<and> se_pendingByExec s = Map.empty \<and> se_mcpDiscovery s = None)
     \<and> (\<forall>p. filed s p \<longrightarrow> se_started s)
     \<and> (\<forall>d. se_mcpDiscovery s = Some d \<longrightarrow> se_started s \<and> se_mcpResults s (pm_result d) = None)"

definition session_inv :: "agentSession \<Rightarrow> bool" where
  "session_inv s \<longleftrightarrow> filing_ok (se_tools s) (se_pendingByMessage s) (se_pendingByExec s) \<and> channels_ok s
     \<and> lifecycle_ok s \<and> list_all tool_output_ok (se_tools s)"

lemma filingD:
  assumes "filing_ok ts byMessage byExec"
  shows "byMessage m = Some p \<Longrightarrow> p < length ts \<and> req_MessageID (pt_transport (ts ! p)) = m
      \<and> byExec (req_ExecID (pt_transport (ts ! p))) = Some p"
    and "byExec x = Some p \<Longrightarrow> p < length ts \<and> req_ExecID (pt_transport (ts ! p)) = x
      \<and> byMessage (req_MessageID (pt_transport (ts ! p))) = Some p"
  using assms by (auto simp: filing_ok_def)

lemma filingI:
  assumes "\<And>m p. byMessage m = Some p \<Longrightarrow> p < length ts \<and> req_MessageID (pt_transport (ts ! p)) = m
      \<and> byExec (req_ExecID (pt_transport (ts ! p))) = Some p"
    and "\<And>x p. byExec x = Some p \<Longrightarrow> p < length ts \<and> req_ExecID (pt_transport (ts ! p)) = x
      \<and> byMessage (req_MessageID (pt_transport (ts ! p))) = Some p"
  shows "filing_ok ts byMessage byExec"
  using assms by (auto simp: filing_ok_def)

lemma filed_bound: "filing_ok (se_tools s) (se_pendingByMessage s) (se_pendingByExec s) \<Longrightarrow> filed s p \<Longrightarrow> p < length (se_tools s)"
  by (auto simp: filing_ok_def filed_def)

lemma same_calls_nth:
  "list_all2 same_call ts ts' \<Longrightarrow> p < length ts \<Longrightarrow> pt_transport (ts' ! p) = pt_transport (ts ! p)
     \<and> pt_request (ts' ! p) = pt_request (ts ! p) \<and> pt_result (ts' ! p) = pt_result (ts ! p)"
  by (auto simp: list_all2_conv_all_nth same_call_def)

definition same_channel :: "pendingTool \<Rightarrow> pendingTool \<Rightarrow> bool" where
  "same_channel t t' \<longleftrightarrow> pt_request t' = pt_request t \<and> pt_result t' = pt_result t"

lemma same_call_channels: "list_all2 same_call ts ts' \<Longrightarrow> list_all2 same_channel ts ts'"
  by (erule list_all2_mono) (simp add: same_call_def same_channel_def)

lemma same_channels_nth:
  "list_all2 same_channel ts ts' \<Longrightarrow> p < length ts \<Longrightarrow> pt_result (ts' ! p) = pt_result (ts ! p)"
  by (auto simp: list_all2_conv_all_nth same_channel_def)

lemma same_channels_results: "list_all2 same_channel ts ts' \<Longrightarrow> map pt_result ts' = map pt_result ts"
  by (induction rule: list_all2_induct) (auto simp: same_channel_def)

lemma same_channels_member:
  "list_all2 same_channel ts ts' \<Longrightarrow> t \<in> set ts \<Longrightarrow> \<exists>t'\<in>set ts'. pt_result t' = pt_result t \<and> pt_request t' = pt_request t"
  by (induction rule: list_all2_induct) (auto simp: same_channel_def)

lemma same_calls_output: "list_all2 same_call ts ts' \<Longrightarrow> list_all tool_output_ok ts \<Longrightarrow> list_all tool_output_ok ts'"
  by (induction rule: list_all2_induct) (auto simp: same_call_def)

lemma filing_same_calls:
  assumes "list_all2 same_call ts ts'" and "filing_ok ts byMessage byExec"
  shows "filing_ok ts' byMessage byExec"
proof (rule filingI)
  note len = list_all2_lengthD [OF assms(1)]
  fix m p assume "byMessage m = Some p"
  from filingD(1) [OF assms(2) this] same_calls_nth [OF assms(1)] len
  show "p < length ts' \<and> req_MessageID (pt_transport (ts' ! p)) = m
      \<and> byExec (req_ExecID (pt_transport (ts' ! p))) = Some p" by simp
next
  note len = list_all2_lengthD [OF assms(1)]
  fix x p assume "byExec x = Some p"
  from filingD(2) [OF assms(2) this] same_calls_nth [OF assms(1)] len
  show "p < length ts' \<and> req_ExecID (pt_transport (ts' ! p)) = x
      \<and> byMessage (req_MessageID (pt_transport (ts' ! p))) = Some p" by simp
qed

lemma channels_same:
  assumes "channels_ok s" and "list_all2 same_channel (se_tools s) (se_tools s')"
    and "filing_ok (se_tools s) (se_pendingByMessage s) (se_pendingByExec s)"
    and "se_sent s' = se_sent s" and "se_toolResults s' = se_toolResults s" and "\<And>p. filed s' p \<Longrightarrow> filed s p"
  shows "channels_ok s'"
proof -
  have "pt_result (se_tools s' ! p) = pt_result (se_tools s ! p)" if "filed s' p" for p
    using same_channels_nth [OF assms(2) filed_bound [OF assms(3) assms(6) [OF that]]] by simp
  moreover have "\<exists>t\<in>set (se_tools s'). pt_result t = c \<and> req_CallID (pt_request t) = at_CallID r"
    if "(c, r) \<in> set (se_sent s)" for c r
  proof -
    obtain t where "t \<in> set (se_tools s)" "pt_result t = c" "req_CallID (pt_request t) = at_CallID r"
      using assms(1) \<open>(c, r) \<in> set (se_sent s)\<close> by (auto simp: channels_ok_def)
    with same_channels_member [OF assms(2)] show ?thesis by metis
  qed
  ultimately show ?thesis
    using assms(1,4,5,6) same_channels_results [OF assms(2)] by (auto simp: channels_ok_def)
qed

lemma quiet_inv:
  assumes "quiet s s'" and "session_inv s"
  shows "session_inv s'"
proof -
  have q: "list_all2 same_call (se_tools s) (se_tools s')" "se_pendingByMessage s' = se_pendingByMessage s"
    "se_pendingByExec s' = se_pendingByExec s" using assms(1) by (auto simp: quiet_def)
  have "filed s' p = filed s p" for p by (simp add: filed_def q)
  moreover from this have "channels_ok s'"
    using assms by (intro channels_same [OF _ same_call_channels [OF q(1)]]) (auto simp: session_inv_def quiet_def)
  moreover have "lifecycle_ok s'"
    using assms calculation(1) by (auto simp: session_inv_def lifecycle_ok_def quiet_def)
  ultimately show ?thesis
    using assms filing_same_calls [OF q(1)] same_calls_output [OF q(1)] by (simp add: session_inv_def q)
qed

text \<open>Taking a call out of the maps.\<close>

lemma filing_unfile:
  assumes "filing_ok ts byMessage byExec" and "byMessage m = Some p"
  shows "filing_ok ts (byMessage(req_MessageID (pt_transport (ts ! p)) := None)) (byExec(req_ExecID (pt_transport (ts ! p)) := None))"
proof (rule filingI)
  note p = filingD(1) [OF assms]
  fix m' q assume "(byMessage(req_MessageID (pt_transport (ts ! p)) := None)) m' = Some q"
  then have m': "byMessage m' = Some q" "m' \<noteq> m" using p by (auto split: if_splits)
  note q = filingD(1) [OF assms(1) m'(1)]
  have "req_ExecID (pt_transport (ts ! q)) \<noteq> req_ExecID (pt_transport (ts ! p))" using p q m'(2) by (metis option.inject)
  with q show "q < length ts \<and> req_MessageID (pt_transport (ts ! q)) = m'
      \<and> (byExec(req_ExecID (pt_transport (ts ! p)) := None)) (req_ExecID (pt_transport (ts ! q))) = Some q" by simp
next
  note p = filingD(1) [OF assms]
  fix x q assume "(byExec(req_ExecID (pt_transport (ts ! p)) := None)) x = Some q"
  then have x: "byExec x = Some q" "x \<noteq> req_ExecID (pt_transport (ts ! p))" by (auto split: if_splits)
  note q = filingD(2) [OF assms(1) x(1)]
  have "req_MessageID (pt_transport (ts ! q)) \<noteq> req_MessageID (pt_transport (ts ! p))"
    using p q x(2) assms(2) by (metis option.inject)
  with q show "q < length ts \<and> req_ExecID (pt_transport (ts ! q)) = x
      \<and> (byMessage(req_MessageID (pt_transport (ts ! p)) := None)) (req_MessageID (pt_transport (ts ! q))) = Some q" by simp
qed

lemma filing_unfiled:
  assumes "filing_ok ts byMessage byExec" and "byMessage m = Some p"
  shows "(byMessage(req_MessageID (pt_transport (ts ! p)) := None)) m' \<noteq> Some p"
  using filingD(1) [OF assms(1)] assms(2) by (metis fun_upd_other fun_upd_same option.distinct(1))

text \<open>Filing a call under fresh identifiers.\<close>

lemma filing_file:
  assumes "filing_ok ts byMessage byExec" and "p < length ts" and "\<And>m. byMessage m \<noteq> Some p"
    and "byMessage (req_MessageID (pt_transport t)) = None" and "byExec (req_ExecID (pt_transport t)) = None"
  shows "filing_ok (ts[p := t]) (byMessage(req_MessageID (pt_transport t) \<mapsto> p)) (byExec(req_ExecID (pt_transport t) \<mapsto> p))"
proof (rule filingI)
  fix m q assume "(byMessage(req_MessageID (pt_transport t) \<mapsto> p)) m = Some q"
  then consider "m = req_MessageID (pt_transport t)" "q = p" | "byMessage m = Some q" "q \<noteq> p"
    by (metis assms(3) fun_upd_apply option.inject)
  then show "q < length (ts[p := t]) \<and> req_MessageID (pt_transport (ts[p := t] ! q)) = m
      \<and> (byExec(req_ExecID (pt_transport t) \<mapsto> p)) (req_ExecID (pt_transport (ts[p := t] ! q))) = Some q"
  proof cases
    case 2
    from filingD(1) [OF assms(1) 2(1)] assms(5) 2(2) show ?thesis by auto
  qed (use assms(2) in simp)
next
  fix x q assume x: "(byExec(req_ExecID (pt_transport t) \<mapsto> p)) x = Some q"
  have "byExec x \<noteq> Some p" using filingD(2) [OF assms(1)] assms(3) by blast
  with x consider "x = req_ExecID (pt_transport t)" "q = p" | "byExec x = Some q" "q \<noteq> p"
    by (metis fun_upd_apply option.inject)
  then show "q < length (ts[p := t]) \<and> req_ExecID (pt_transport (ts[p := t] ! q)) = x
      \<and> (byMessage(req_MessageID (pt_transport t) \<mapsto> p)) (req_MessageID (pt_transport (ts[p := t] ! q))) = Some q"
  proof cases
    case 2
    from filingD(2) [OF assms(1) 2(1)] assms(4) 2(2) show ?thesis by auto
  qed (use assms(2) in simp)
qed

lemma filing_append:
  assumes "filing_ok ts byMessage byExec"
  shows "filing_ok (ts @ [t]) byMessage byExec"
proof (rule filingI)
  fix m p assume "byMessage m = Some p"
  from filingD(1) [OF assms this] show "p < length (ts @ [t]) \<and> req_MessageID (pt_transport ((ts @ [t]) ! p)) = m
      \<and> byExec (req_ExecID (pt_transport ((ts @ [t]) ! p))) = Some p" by (simp add: nth_append)
next
  fix x p assume "byExec x = Some p"
  from filingD(2) [OF assms this] show "p < length (ts @ [t]) \<and> req_ExecID (pt_transport ((ts @ [t]) ! p)) = x
      \<and> byMessage (req_MessageID (pt_transport ((ts @ [t]) ! p))) = Some p" by (simp add: nth_append)
qed

section \<open>Every operation keeps the invariant\<close>

text \<open>What no operation undoes: the frames sent, and how the session ended.\<close>

definition advances :: "agentSession \<Rightarrow> agentSession \<Rightarrow> bool" where
  "advances s s' \<longleftrightarrow> prefix (se_events s) (se_events s')
     \<and> (se_done s \<longrightarrow> se_done s' \<and> se_events s' = se_events s \<and> se_errorCode s' = se_errorCode s
          \<and> se_errorMessage s' = se_errorMessage s \<and> se_terminalAt s' = se_terminalAt s)"

lemma advances_refl [simp]: "advances s s"
  by (simp add: advances_def)

lemma quiet_advances: "quiet s s' \<Longrightarrow> advances s s'"
  by (simp add: quiet_def advances_def)

definition kept :: "agentSession \<Rightarrow> agentSession \<Rightarrow> bool" where
  "kept s s' \<longleftrightarrow> (session_inv s \<longrightarrow> session_inv s') \<and> advances s s'"

lemma quiet_kept: "quiet s s' \<Longrightarrow> kept s s'"
  by (simp add: kept_def quiet_inv quiet_advances)

lemma kept_refl [simp]: "kept s s"
  by (simp add: kept_def)

lemma kept_trans: "kept s t \<Longrightarrow> kept t u \<Longrightarrow> kept s u"
  unfolding kept_def advances_def by (metis prefix_order.order_trans)

lemma start_kept: "session_start parentErr request s = (r, s') \<Longrightarrow> kept s s'"
  by (auto simp: session_start_def kept_def session_inv_def channels_ok_def lifecycle_ok_def filed_def advances_def
      split: if_splits)

lemma publish_kept: "session_publish payload s = (r, s') \<Longrightarrow> kept s s'"
  by (rule quiet_kept) (auto simp: session_publish_def quiet_def split: if_splits option.splits)

lemma cancel_quiet: "quiet s (cancel_context s)"
  by (simp add: quiet_def)

lemma unfiled_ok:
  assumes "session_inv s"
  shows "session_inv (s\<lparr>se_pendingByMessage := Map.empty, se_pendingByExec := Map.empty, se_mcpDiscovery := None\<rparr>)"
  using assms by (auto simp: session_inv_def filing_ok_def channels_ok_def lifecycle_ok_def filed_def)

lemma finish_kept: "kept s (session_finish now payload code message s)"
proof (cases "se_done s")
  case True
  then show ?thesis by (simp add: session_finish_def)
next
  case False
  let ?s1 = "if payload \<noteq> [] then append_events [payload] s else s"
  let ?s2 = "?s1\<lparr>se_done := True, se_errorCode := code, se_errorMessage := message,
              se_pendingByMessage := Map.empty, se_pendingByExec := Map.empty, se_mcpDiscovery := None,
              se_terminalAt := Some now\<rparr>"
  have eq: "session_finish now payload code message s = cancel_context (signalLocked ?s2)"
    using False by (simp add: session_finish_def Let_def)
  have "filing_ok ts Map.empty Map.empty" for ts by (simp add: filing_ok_def)
  then have "session_inv s \<Longrightarrow> session_inv ?s2"
    by (auto simp: session_inv_def channels_ok_def lifecycle_ok_def filed_def)
  moreover have "advances s ?s2" using False by (simp add: advances_def)
  ultimately have k: "kept s ?s2" by (simp add: kept_def)
  have q: "quiet ?s2 (cancel_context (signalLocked ?s2))" by (simp add: quiet_def)
  show ?thesis unfolding eq by (rule kept_trans [OF k quiet_kept [OF q]])
qed

lemma subscribe_kept: "kept s (session_subscribe s)" "kept s (session_unsubscribe s)"
proof -
  show "kept s (session_subscribe s)" by (rule quiet_kept) (simp add: quiet_def session_subscribe_def)
  show "kept s (session_unsubscribe s)"
    by (rule quiet_kept) (auto simp: session_unsubscribe_def Let_def quiet_def)
qed

lemma dispatch_call_ids:
  "dispatch_call pw ds request = Inr opened \<Longrightarrow>
    req_MessageID (op_transport opened) = req_MessageID request \<and> req_ExecID (op_transport opened) = req_ExecID request"
  by (auto simp: dispatch_call_def result_iff Let_def split: if_splits option.splits)

lemma new_tool_output: "tool_output_ok (t\<lparr>pt_stdout := [], pt_stderr := []\<rparr>)"
  by (simp add: tool_output_ok_def output_ok_def validUTF8_def)

lemma open_kept:
  assumes "session_openTool pw execSuffix call result' n s = (r, n', s')" and "se_started s"
    and "fresh_open execSuffix call result' n s"
  shows "kept s s'"
proof (cases "s' = s")
  case True
  then show ?thesis by simp
next
  case False
  then obtain chan sfx opened messageID where c: "result' = Some chan" "execSuffix = Some sfx" "\<not> se_done s"
    and m: "allocateMessageID n = (messageID, n')"
    and o: "dispatch_call pw (effectiveMCPToolsLocked s) (tool_request messageID sfx call) = Inr opened"
    and s': "s' = (let request = tool_request messageID sfx call;
        pending = \<lparr> pt_request = request, pt_transport = op_transport opened, pt_readRequest = op_readRequest opened,
          pt_result = chan, pt_stdout = [], pt_stderr = [], pt_truncated = False, pt_editPhase = op_phase opened \<rparr> in
      signalLocked (append_events [Execute (op_dispatch opened), Started (op_dispatch opened)]
        (file_pending (length (se_tools s)) (req_MessageID request) (req_ExecID request)
          (s\<lparr>se_tools := se_tools s @ [pending]\<rparr>))))"
    using assms(1) by (auto simp: session_openTool_def Let_def split: option.splits if_splits prod.splits sum.splits)
  let ?request = "tool_request messageID sfx call"
  let ?t = "\<lparr> pt_request = ?request, pt_transport = op_transport opened, pt_readRequest = op_readRequest opened,
          pt_result = chan, pt_stdout = [], pt_stderr = [], pt_truncated = False, pt_editPhase = op_phase opened \<rparr>"
  let ?p = "length (se_tools s)"
  have f: "se_tools s' = se_tools s @ [?t]" "se_pendingByMessage s' = (se_pendingByMessage s)(req_MessageID ?request \<mapsto> ?p)"
    "se_pendingByExec s' = (se_pendingByExec s)(req_ExecID ?request \<mapsto> ?p)" "se_started s' = se_started s"
    "se_done s' = se_done s" "se_terminalAt s' = se_terminalAt s" "se_ctx s' = se_ctx s" "se_mcpDiscovery s' = se_mcpDiscovery s"
    "se_toolResults s' = se_toolResults s" "se_mcpResults s' = se_mcpResults s" "se_sent s' = se_sent s"
    "prefix (se_events s) (se_events s')"
    by (simp_all add: s' Let_def)
  have ids: "req_MessageID (pt_transport ?t) = req_MessageID ?request" "req_ExecID (pt_transport ?t) = req_ExecID ?request"
    using dispatch_call_ids [OF o] by simp_all
  have fresh: "se_pendingByMessage s (req_MessageID ?request) = None" "se_pendingByExec s (req_ExecID ?request) = None"
    "chan \<notin> pt_result ` set (se_tools s)"
    using assms(3) m by (simp_all add: c fresh_open_def fresh_ids_def tool_request_def)
  have "session_inv s'" if inv: "session_inv s"
  proof -
    have filing: "filing_ok (se_tools s) (se_pendingByMessage s) (se_pendingByExec s)" using inv by (simp add: session_inv_def)
    have none: "se_pendingByMessage s m \<noteq> Some ?p" for m using filingD(1) [OF filing] by blast
    have "filing_ok ((se_tools s @ [?t])[?p := ?t]) (se_pendingByMessage s') (se_pendingByExec s')"
      unfolding f ids [symmetric]
      by (rule filing_file [OF filing_append [OF filing]]) (use none fresh ids in simp_all)
    then have "filing_ok (se_tools s') (se_pendingByMessage s') (se_pendingByExec s')" by (simp add: f)
    moreover have "channels_ok s'"
    proof -
      have "filed s' q \<Longrightarrow> q = ?p \<or> (q < ?p \<and> filed s q)" for q
        using filed_bound [OF filing] by (auto simp: filed_def f split: if_splits)
      moreover have "chan \<notin> fst ` set (se_sent s)" using inv fresh(3) by (fastforce simp: session_inv_def channels_ok_def)
      moreover have ch: "channels_ok s" using inv by (simp add: session_inv_def)
      ultimately have "pt_result (se_tools s' ! q) \<notin> fst ` set (se_sent s)" if "filed s' q" for q
        using that unfolding channels_ok_def f by (metis nth_append nth_append_length pendingTool.select_convs(4))
      with ch fresh(3) show ?thesis unfolding channels_ok_def by (auto simp: f)
    qed
    moreover have "lifecycle_ok s'" using inv assms(2) c(3) by (auto simp: session_inv_def lifecycle_ok_def f)
    moreover have "list_all tool_output_ok (se_tools s')"
      using inv by (simp add: session_inv_def f) (simp add: tool_output_ok_def output_ok_def validUTF8_def)
    ultimately show ?thesis by (simp add: session_inv_def)
  qed
  then show ?thesis using c(3) f(12) by (simp add: kept_def advances_def)
qed

lemma edit_read_cases:
  assumes "handle_edit_read pw execSuffix message p n s = (h, n', s')"
  obtains "s' = s" "h \<noteq> Partial"
  | sfx m path contents d where "execSuffix = Some sfx" "allocateMessageID n = (m, n')" "h = Partial"
    "s' = (let w = edit_write_request m sfx (se_tools s ! p) path contents in
      signalLocked (append_events [d] (file_pending p (req_MessageID w) (req_ExecID w)
        (update_tool p (\<lambda>t. t\<lparr>pt_transport := w, pt_readRequest := None, pt_editPhase := editPhaseWrite\<rparr>)
          (unfile_pending (se_tools s ! p) s)))))"
  using assms
  by (auto simp: handle_edit_read_def Let_def edit_failed_def completed_or_def
      split: sum.splits if_splits prod.splits option.splits)

lemma filing_edit:
  assumes "filing_ok ts byMessage byExec" and "byMessage m = Some p"
    and "byMessage (req_MessageID (pt_transport t)) = None" and "byExec (req_ExecID (pt_transport t)) = None"
  shows "filing_ok (ts[p := t])
    ((byMessage(req_MessageID (pt_transport (ts ! p)) := None))(req_MessageID (pt_transport t) \<mapsto> p))
    ((byExec(req_ExecID (pt_transport (ts ! p)) := None))(req_ExecID (pt_transport t) \<mapsto> p))"
proof (rule filing_file [OF filing_unfile [OF assms(1,2)]])
  show "p < length ts" using filingD(1) [OF assms(1,2)] by blast
  show "(byMessage(req_MessageID (pt_transport (ts ! p)) := None)) m' \<noteq> Some p" for m'
    by (rule filing_unfiled [OF assms(1,2)])
qed (use assms(3,4) in auto)

lemma edit_read_kept:
  assumes "handle_edit_read pw execSuffix message p n s = (h, n', s')" and "filed s p" and "\<not> se_done s"
    and "fresh_write execSuffix n s"
  shows "kept s s'"
  using assms(1)
proof (cases rule: edit_read_cases)
  case 1
  then show ?thesis by simp
next
  case (2 sfx m path contents d)
  let ?w = "edit_write_request m sfx (se_tools s ! p) path contents"
  let ?t = "(se_tools s ! p)\<lparr>pt_transport := ?w, pt_readRequest := None, pt_editPhase := editPhaseWrite\<rparr>"
  have f: "se_tools s' = (se_tools s)[p := ?t]"
    "se_pendingByMessage s' = (se_pendingByMessage s)(req_MessageID (pt_transport (se_tools s ! p)) := None, req_MessageID ?w \<mapsto> p)"
    "se_pendingByExec s' = (se_pendingByExec s)(req_ExecID (pt_transport (se_tools s ! p)) := None, req_ExecID ?w \<mapsto> p)"
    "se_started s' = se_started s" "se_done s' = se_done s" "se_terminalAt s' = se_terminalAt s" "se_ctx s' = se_ctx s"
    "se_mcpDiscovery s' = se_mcpDiscovery s" "se_toolResults s' = se_toolResults s" "se_mcpResults s' = se_mcpResults s"
    "se_sent s' = se_sent s" "prefix (se_events s) (se_events s')"
    by (simp_all add: 2(4) Let_def)
  have "session_inv s'" if inv: "session_inv s"
  proof -
    have filing: "filing_ok (se_tools s) (se_pendingByMessage s) (se_pendingByExec s)" using inv by (simp add: session_inv_def)
    from assms(2) obtain m0 where m0: "se_pendingByMessage s m0 = Some p" by (auto simp: filed_def)
    note p = filingD(1) [OF filing m0]
    have fresh: "se_pendingByMessage s (req_MessageID (pt_transport ?t)) = None"
      "se_pendingByExec s (req_ExecID (pt_transport ?t)) = None"
      using assms(4) 2(1,2) by (simp_all add: fresh_write_def fresh_ids_def edit_write_request_def)
    have "filing_ok (se_tools s') (se_pendingByMessage s') (se_pendingByExec s')"
      using filing_edit [OF filing m0 fresh] by (simp add: f)
    moreover have fq: "filed s' q \<Longrightarrow> filed s q" for q
      using m0 by (auto simp: filed_def f split: if_splits)
    moreover have ch: "list_all2 same_channel (se_tools s) (se_tools s')"
      unfolding f using p by (auto simp: list_all2_conv_all_nth nth_list_update same_channel_def)
    have "channels_ok s'"
      by (rule channels_same [OF _ ch filing _ _ fq]) (use inv in \<open>simp_all add: session_inv_def f\<close>)
    moreover have "lifecycle_ok s'"
      using inv fq assms(3) by (auto simp: session_inv_def lifecycle_ok_def f)
    moreover have "list_all tool_output_ok (se_tools s')"
    proof -
      have "tool_output_ok ?t" using inv p by (auto simp: session_inv_def tool_output_ok_def list_all_length)
      moreover have "list_all tool_output_ok (se_tools s)" using inv by (simp add: session_inv_def)
      ultimately show ?thesis unfolding f list_all_length
        by (metis length_list_update nth_list_update_eq nth_list_update_neq)
    qed
    ultimately show ?thesis by (simp add: session_inv_def)
  qed
  then show ?thesis using assms(3) f(12) by (simp add: kept_def advances_def)
qed

lemma handle_pending_kept:
  assumes "handle_pending pw execSuffix message p n s = (h, n', s')" and "filed s p" and "\<not> se_done s"
    and "fresh_write execSuffix n s" and "p < length (se_tools s)"
  shows "kept s s' \<and> (quiet s s' \<or> h = Partial)"
proof -
  from assms(1) consider "s' = s" | "handle_shell pw message p s = (h, s')"
    | "handle_edit_read pw execSuffix message p n s = (h, n', s')"
    by (auto simp: handle_pending_def Let_def split: if_splits editPhase.splits prod.splits)
  then show ?thesis
  proof cases
    case 2
    from handle_shell_quiet [OF this assms(5,3)] show ?thesis by (simp add: quiet_kept)
  next
    case 3
    from 3 have "quiet s s' \<or> h = Partial" by (cases rule: edit_read_cases) auto
    with edit_read_kept [OF 3 assms(2-4)] show ?thesis by simp
  qed simp
qed

text \<open>The last result of a call: it leaves the maps before its result is sent.\<close>

lemma unfile_kept:
  assumes "filed s p" and "\<not> se_done s"
    and s2_def: "s2 = signalLocked (append_events [completed] (unfile_pending (se_tools s ! p) s))"
  shows "kept s s2" and "session_inv s \<Longrightarrow> \<not> filed s2 p"
proof -
  have f: "se_pendingByMessage s2 = (se_pendingByMessage s)(req_MessageID (pt_transport (se_tools s ! p)) := None)"
    "se_pendingByExec s2 = (se_pendingByExec s)(req_ExecID (pt_transport (se_tools s ! p)) := None)"
    "se_tools s2 = se_tools s" "se_started s2 = se_started s" "se_done s2 = se_done s" "se_terminalAt s2 = se_terminalAt s"
    "se_ctx s2 = se_ctx s" "se_mcpDiscovery s2 = se_mcpDiscovery s" "se_toolResults s2 = se_toolResults s"
    "se_mcpResults s2 = se_mcpResults s" "se_sent s2 = se_sent s" "prefix (se_events s) (se_events s2)"
    by (simp_all add: s2_def)
  from assms(1) obtain m0 where m0: "se_pendingByMessage s m0 = Some p" by (auto simp: filed_def)
  show "\<not> filed s2 p" if "session_inv s"
  proof -
    from that have "filing_ok (se_tools s) (se_pendingByMessage s) (se_pendingByExec s)" by (simp add: session_inv_def)
    from filing_unfiled [OF this m0] show ?thesis by (auto simp: filed_def f)
  qed
  have fq: "filed s2 q \<Longrightarrow> filed s q" for q by (auto simp: filed_def f split: if_splits)
  have "session_inv s2" if inv: "session_inv s"
  proof -
    have filing: "filing_ok (se_tools s) (se_pendingByMessage s) (se_pendingByExec s)" using inv by (simp add: session_inv_def)
    have ch: "list_all2 same_channel (se_tools s) (se_tools s2)" by (simp add: f list_all2_refl same_channel_def)
    have "channels_ok s2"
      by (rule channels_same [OF _ ch filing _ _ fq]) (use inv in \<open>simp_all add: session_inv_def f\<close>)
    moreover have "lifecycle_ok s2" using inv fq assms(2) by (auto simp: session_inv_def lifecycle_ok_def f)
    ultimately show ?thesis using filing_unfile [OF filing m0] inv by (simp add: session_inv_def f)
  qed
  then show "kept s s2" using assms(2) f(12) by (simp add: kept_def advances_def f)
qed

lemma send_kept:
  assumes "send_tool_result preferDone chan r s = (res, s')" and "session_inv s" and "\<not> se_done s"
    and "chan \<notin> fst ` set (se_sent s)" and "t \<in> set (se_tools s)" and "pt_result t = chan"
    and "req_CallID (pt_request t) = at_CallID r" and "\<And>q. filed s q \<Longrightarrow> pt_result (se_tools s ! q) \<noteq> chan"
  shows "session_inv s'" and "advances s s'"
proof -
  have "session_inv (s\<lparr>se_toolResults := (se_toolResults s)(chan \<mapsto> r), se_sent := se_sent s @ [(chan, r)]\<rparr>)"
    using assms(2,4-8) by (auto simp: session_inv_def channels_ok_def lifecycle_ok_def filed_def)
  with assms(1,2) show "session_inv s'" by (auto simp: send_tool_result_def split: sum.splits)
  show "advances s s'" using assms(1,3) by (auto simp: send_tool_result_def advances_def split: sum.splits)
qed

lemma complete_kept:
  assumes "filed s p" and "\<not> se_done s" and "session_inv s"
    and "send_tool_result preferDone (pt_result (se_tools s ! p))
      \<lparr> at_CallID = req_CallID (pt_request (se_tools s ! p)), at_Content = content, at_IsError = isError \<rparr>
      (signalLocked (append_events [completed] (unfile_pending (se_tools s ! p) s))) = (res, s')"
  shows "session_inv s'" and "advances s s'"
proof -
  let ?s2 = "signalLocked (append_events [completed] (unfile_pending (se_tools s ! p) s))"
  have k: "kept s ?s2" "\<not> filed ?s2 p" using unfile_kept [OF assms(1,2) refl] assms(3) by blast+
  have inv2: "session_inv ?s2" using k(1) assms(3) by (simp add: kept_def)
  have p: "p < length (se_tools s)"
    using assms(1,3) by (intro filed_bound) (auto simp: session_inv_def)
  have new: "pt_result (se_tools s ! p) \<notin> fst ` set (se_sent s)"
    using assms(1,3) by (simp add: session_inv_def channels_ok_def)
  have other: "pt_result (se_tools ?s2 ! q) \<noteq> pt_result (se_tools s ! p)" if "filed ?s2 q" for q
  proof -
    have "q \<noteq> p" using that k(2) by blast
    moreover have "q < length (se_tools ?s2)" using that inv2 by (intro filed_bound) (auto simp: session_inv_def)
    moreover have "distinct (map pt_result (se_tools s))" using assms(3) by (simp add: session_inv_def channels_ok_def)
    ultimately show ?thesis using p by (simp add: distinct_conv_nth)
  qed
  note send = send_kept [OF assms(4) inv2]
  show "session_inv s'" by (rule send(1)) (use assms(2) new p other in auto)
  have "advances ?s2 s'" by (rule send(2)) (use assms(2) new p other in auto)
  with k(1) show "advances s s'" unfolding kept_def advances_def by (metis prefix_order.order_trans)
qed

lemma discovery_result_kept:
  assumes "send_mcp_result preferDone chan r (s\<lparr>se_mcpDiscovery := None\<rparr>) = (res, s')" and "\<not> se_done s"
  shows "kept s s'"
proof -
  have "session_inv (s\<lparr>se_mcpDiscovery := None, se_mcpResults := m\<rparr>)" if "session_inv s" for m
    using that by (auto simp: session_inv_def channels_ok_def lifecycle_ok_def filed_def)
  moreover have "session_inv (s\<lparr>se_mcpDiscovery := None\<rparr>)" if "session_inv s"
    using that by (auto simp: session_inv_def channels_ok_def lifecycle_ok_def filed_def)
  ultimately show ?thesis
    using assms by (auto simp: send_mcp_result_def kept_def advances_def split: sum.splits)
qed

lemma find_pending_filed:
  assumes "session_inv s" and "find_pending identity s = Some p"
  shows "filed s p"
proof -
  have "filing_ok (se_tools s) (se_pendingByMessage s) (se_pendingByExec s)" using assms(1) by (simp add: session_inv_def)
  from filingD(2) [OF this] assms(2) show ?thesis
    by (auto simp: find_pending_def filed_def split: option.splits if_splits)
qed

lemma apply_kept:
  assumes "session_applyToolResult pw execSuffix preferDone message n s = (r, n', s')" and "fresh_write execSuffix n s"
    and "session_inv s"
  shows "session_inv s' \<and> advances s s'"
proof (cases "s' = s")
  case True
  with assms(3) show ?thesis by simp
next
  case False
  with assms(1) obtain identity where i: "DecodeExecResultIdentity pw message = Inr identity" and d: "\<not> se_done s"
    by (auto simp: session_applyToolResult_def split: sum.splits if_splits)
  show ?thesis
  proof (cases "matches_discovery identity s")
    case (Some pending)
    with assms(1) i d False obtain r0 where
      "send_mcp_result preferDone (pm_result pending) r0 (s\<lparr>se_mcpDiscovery := None\<rparr>) = (r, s')"
      by (auto simp: session_applyToolResult_def split: sum.splits prod.splits)
    from discovery_result_kept [OF this d] assms(3) show ?thesis by (simp add: kept_def)
  next
    case None
    with assms(1) i d False obtain p where p: "find_pending identity s = Some p"
      by (auto simp: session_applyToolResult_def split: option.splits)
    note filed = find_pending_filed [OF assms(3) p]
    have bound: "p < length (se_tools s)" using assms(3) filed by (intro filed_bound) (auto simp: session_inv_def)
    obtain h n1 s1 where h: "handle_pending pw execSuffix message p n s = (h, n1, s1)"
      by (cases "handle_pending pw execSuffix message p n s")
    from handle_pending_kept [OF h filed d assms(2) bound] have k: "kept s s1" "quiet s s1 \<or> h = Partial" by simp_all
    have inv1: "session_inv s1" using k(1) assms(3) by (simp add: kept_def)
    show ?thesis
    proof (cases h)
      case (Completed completed content isError)
      with assms(1) i d None p h have send: "send_tool_result preferDone (pt_result (se_tools s1 ! p))
          \<lparr> at_CallID = req_CallID (pt_request (se_tools s1 ! p)), at_Content = content, at_IsError = isError \<rparr>
          (signalLocked (append_events [completed] (unfile_pending (se_tools s1 ! p) s1))) = (r, s')"
        by (auto simp: session_applyToolResult_def Let_def split: prod.splits)
      have "filed s1 p" "\<not> se_done s1" using k(2) filed d Completed by (auto simp: quiet_def filed_def)
      from complete_kept [OF this inv1 send] k(1) show ?thesis
        unfolding kept_def advances_def by (metis prefix_order.order_trans)
    next
      case (Refused e)
      with assms(1) i d None p h k(1) inv1 show ?thesis by (auto simp: session_applyToolResult_def kept_def)
    next
      case Partial
      with assms(1) i d None p h k(1) inv1 show ?thesis by (auto simp: session_applyToolResult_def kept_def)
    qed
  qed
qed

lemma receive_kept: "kept s (s\<lparr>se_toolResults := (se_toolResults s)(chan := None)\<rparr>)"
  by (auto simp: kept_def session_inv_def channels_ok_def lifecycle_ok_def filed_def advances_def)

lemma begin_discovery_cases:
  assumes "begin_discovery pw execSuffix chan request n s = (r, n', s')"
  obtains "s' = s"
  | pending payload where "\<not> se_done s" "pm_result pending = chan" "r = Inr (Discovering pending)"
    "s' = signalLocked (append_events [payload] (s\<lparr>se_mcpDiscovery := Some pending\<rparr>))"
proof (cases "s' = s")
  case False
  with assms obtain sfx where e: "execSuffix = Some sfx" and d: "\<not> se_done s"
    by (auto simp: begin_discovery_def split: if_splits option.splits)
  obtain m n1 where a: "allocateMessageID n = (m, n1)" by (cases "allocateMessageID n")
  let ?pending = "\<lparr> pm_messageID = m, pm_execID = ''exec-mcp-state-'' @ sfx, pm_result = chan \<rparr>"
  from False assms e a obtain payload where
    "s' = signalLocked (append_events [payload] (s\<lparr>se_mcpDiscovery := Some ?pending\<rparr>))" "r = Inr (Discovering ?pending)"
    by (auto simp: begin_discovery_def Let_def simp del: fun_upd_apply split: if_splits sum.splits)
  with that(2) [of ?pending payload] d show thesis by simp
qed (use that in blast)

lemma begin_discovery_kept:
  assumes "begin_discovery pw execSuffix chan request n s = (r, n', s')" and "se_started s" and "se_mcpResults s chan = None"
  shows "kept s s'"
  using assms(1)
proof (cases rule: begin_discovery_cases)
  case (2 pending payload)
  have "session_inv s'" if "session_inv s"
    using that assms(2,3) 2(1,2) by (simp add: 2(4) session_inv_def channels_ok_def lifecycle_ok_def filed_def)
  with 2(1) show ?thesis by (simp add: 2(4) kept_def advances_def)
qed simp

lemma clear_discovery_kept: "kept s (snd (clearMCPDiscovery pending s))"
  by (auto simp: clearMCPDiscovery_def kept_def session_inv_def channels_ok_def lifecycle_ok_def filed_def advances_def)

lemma drop_mcp_result_kept: "kept s (s\<lparr>se_mcpResults := (se_mcpResults s)(c := None)\<rparr>)"
  by (auto simp: kept_def session_inv_def channels_ok_def lifecycle_ok_def filed_def advances_def)

lemma discovered_tools_kept: "kept s (s\<lparr>se_discoveredMCPTools := tools\<rparr>)"
proof -
  have "session_inv (s\<lparr>se_discoveredMCPTools := tools\<rparr>) = session_inv s"
    unfolding session_inv_def channels_ok_def lifecycle_ok_def filed_def by simp
  then show ?thesis by (simp add: kept_def advances_def)
qed

lemma receive_discovery_kept:
  assumes "receive_discovery request pending s = (r, s')"
  shows "kept s s'"
proof (cases "se_mcpResults s (pm_result pending)")
  case None
  with assms show ?thesis by (simp add: receive_discovery_def)
next
  case (Some result)
  let ?s = "s\<lparr>se_mcpResults := (se_mcpResults s)(pm_result pending := None)\<rparr>"
  have "kept ?s s'"
    using assms Some discovered_tools_kept [of ?s]
    by (cases "st_IsError result") (auto simp: receive_discovery_def completeMCPDiscovery_def)
  with drop_mcp_result_kept show ?thesis using kept_trans by blast
qed

lemma end_discovery_kept:
  assumes "end_discovery request pending wake again s = (r, s')"
  shows "kept s s'"
proof -
  obtain b s1 where c: "clearMCPDiscovery pending s = (b, s1)" by (cases "clearMCPDiscovery pending s")
  have k: "kept s s1" using clear_discovery_kept [of s pending] c by simp
  from assms c consider "s' = s1" | "receive_discovery request pending s = (r, s')" | "receive_discovery request pending s1 = (r, s')"
    by (auto simp: end_discovery_def split: discovery_wake.splits bool.splits)
  then show ?thesis
  proof cases
    case 3
    then show ?thesis using receive_discovery_kept k kept_trans by blast
  qed (use k receive_discovery_kept in auto)
qed

lemma step_kept: "session_step pw x y \<Longrightarrow> session_inv (ss_session x) \<Longrightarrow>
    session_inv (ss_session y) \<and> advances (ss_session x) (ss_session y)"
proof (induction rule: session_step.induct)
  case (step_start parentErr request s r s' n)
  then show ?case using start_kept by (auto simp: kept_def)
next
  case (step_publish s payload r s' n)
  then show ?case using publish_kept by (auto simp: kept_def)
next
  case (step_open s execSuffix call result' n r n' s')
  then show ?case using open_kept by (auto simp: kept_def)
next
  case (step_apply execSuffix n s preferDone message r n' s')
  then show ?case using apply_kept by auto
next
  case (step_receive n s chan)
  then show ?case using receive_kept by (auto simp: kept_def)
next
  case (step_begin_discovery s chan execSuffix request n r n' s')
  then show ?case using begin_discovery_kept by (auto simp: kept_def)
next
  case (step_end_discovery request pending wake again s r s' n)
  then show ?case using end_discovery_kept by (auto simp: kept_def)
next
  case (step_finish n s now payload code message)
  then show ?case using finish_kept by (auto simp: kept_def)
next
  case (step_subscribe n s)
  then show ?case using subscribe_kept by (auto simp: kept_def)
next
  case (step_unsubscribe n s)
  then show ?case using subscribe_kept by (auto simp: kept_def)
next
  case (step_notified n s)
  have "quiet s (s\<lparr>se_notify := False\<rparr>)" by (simp add: quiet_def)
  with step_notified show ?case using quiet_kept by (auto simp: kept_def)
next
  case (step_parent_done s n e)
  then have "quiet s (s\<lparr>se_ctx := Some (Some e)\<rparr>)" by (simp add: quiet_def)
  with step_parent_done show ?case using quiet_kept by (auto simp: kept_def)
next
  case (step_other_session n s n')
  then show ?case by simp
qed

lemma reachable_session_inv: "session_reachable pw x \<Longrightarrow> session_inv (ss_session x)"
proof (induction rule: session_reachable.induct)
  case (session_init n)
  then show ?case
    by (simp add: session_inv_def filing_ok_def channels_ok_def lifecycle_ok_def filed_def new_session_def)
next
  case (session_next x y)
  then show ?case using step_kept by blast
qed

section \<open>Message identifiers\<close>

fun message_ids :: "nat \<Rightarrow> u32 \<Rightarrow> u32 list" where
  "message_ids 0 nextID = []"
| "message_ids (Suc k) nextID = (case allocateMessageID nextID of (m, n) \<Rightarrow> m # message_ids k n)"

lemma snd_allocate: "snd (allocateMessageID n) = fst (allocateMessageID n)"
  by (simp add: allocateMessageID_def Let_def)

lemma unat_allocate: "unat (fst (allocateMessageID n)) = unat n mod 4294967295 + 1"
proof -
  have "unat n < 4294967296" using unsigned_less [of n, where ?'a = nat] by simp
  moreover have "unat (n + 1) = (unat n + 1) mod 4294967296" by (simp add: unat_word_ariths)
  moreover have "n + 1 = 0 \<longleftrightarrow> unat (n + 1) = 0" by (simp add: unat_eq_0)
  ultimately show ?thesis
    by (cases "unat n = 4294967295") (auto simp: allocateMessageID_def Let_def mod_less)
qed

lemma message_ids_nth:
  "i < k \<Longrightarrow> unat (message_ids k n ! i) = (unat n + i) mod 4294967295 + 1"
proof (induction k arbitrary: n i)
  case (Suc k)
  obtain m n' where a: "allocateMessageID n = (m, n')" by (cases "allocateMessageID n")
  have m: "unat m = unat n mod 4294967295 + 1" "n' = m" using unat_allocate [of n] snd_allocate [of n] unfolding a by simp_all
  show ?case
  proof (cases i)
    case (Suc j)
    with Suc.prems Suc.IH [of j n'] m
    show ?thesis by (simp add: a) (metis add_Suc mod_Suc_eq mod_add_left_eq)
  qed (simp add: a m)
qed simp

lemma length_message_ids [simp]: "length (message_ids k n) = k"
  by (induction k arbitrary: n) (auto split: prod.split)

text \<open>
  The message identifiers the handler allocates are never 0 and repeat only after
  \<open>2^32 - 1\<close> allocations: any run of that many is without repetition.
\<close>

theorem message_ids_fresh:
  assumes "k \<le> 4294967295"
  shows "distinct (message_ids k n) \<and> 0 \<notin> set (message_ids k n)"
proof -
  have neq: "message_ids k n ! i \<noteq> message_ids k n ! j" if "i < j" "j < k" for i j
  proof
    assume "message_ids k n ! i = message_ids k n ! j"
    then have "(unat n + i) mod 4294967295 = (unat n + j) mod 4294967295"
      using message_ids_nth [of i k n] message_ids_nth [of j k n] that by simp
    then have "(4294967295::nat) dvd (unat n + j) - (unat n + i)" using that by (subst (asm) eq_commute) (simp add: mod_eq_dvd_iff_nat)
    with that assms show False by (simp add: nat_dvd_not_less)
  qed
  then have "distinct (message_ids k n)" unfolding distinct_conv_nth by (metis length_message_ids linorder_neqE_nat)
  moreover have "x \<noteq> 0" if "x \<in> set (message_ids k n)" for x
    using that message_ids_nth [of _ k n] by (auto simp: in_set_conv_nth unat_eq_0 [symmetric] simp del: unat_eq_0)
  ultimately show ?thesis by blast
qed

theorem message_ids_fresh_witness: "distinct (message_ids 3 (- 2)) \<and> message_ids 3 (- 2) = [- 1, 1, 2]"
  using message_ids_fresh [of 3 "- 2"] by (simp add: numeral_3_eq_3 allocateMessageID_def Let_def)

section \<open>A session at work\<close>

definition sample_call :: ToolCall where
  "sample_call = \<lparr> tc_ID = ''call-1'', tc_Name = ''Delete'', tc_Arguments = json_object [(''path'', json_quote ''a'')] \<rparr>"

definition sample_request :: ToolRequest where
  "sample_request = sample_delete\<lparr>req_ExecID := ''exec-delete-1''\<rparr>"

lemma sample_tool_request: "tool_request 7 ''1'' sample_call = sample_request"
proof -
  have "lower_ascii ''Delete'' = ''delete''" by code_simp
  then show ?thesis by (simp add: tool_request_def sample_call_def sample_request_def sample_delete_def)
qed

lemma sample_request_dispatch: "\<exists>d. EncodeToolDispatch wire_format sample_request = Inr d"
proof -
  have v: "validateToolRequest sample_request = Inr ()"
    by (simp add: sample_request_def sample_delete_def validateToolRequest_def validIdentifier_def trimSpace_def
        trim_pieces_def json_object_def go_eval)
  have "req_Arguments sample_request = req_Arguments sample_delete" by (simp add: sample_request_def)
  then show ?thesis
    using sample_delete_arguments
    by (simp add: EncodeToolDispatch_def v encodeDeleteToolDispatch_def encodeFileToolDispatch_def Let_def)
      (simp add: sample_request_def sample_delete_def)
qed

lemma sample_request_answered:
  "\<exists>r c. DecodeToolResult wire_format sample_answer sample_request = Inr r \<and> res_Complete r
     \<and> EncodeToolCompleted wire_format sample_request r = Inr c"
proof -
  have v: "validateToolRequest sample_request = Inr ()"
    by (simp add: sample_request_def sample_delete_def validateToolRequest_def validIdentifier_def trimSpace_def
        trim_pieces_def json_object_def go_eval)
  have req: "req_MessageID sample_request = 7" "req_Name sample_request = ''Delete''"
    by (simp_all add: sample_request_def sample_delete_def)
  obtain r where r: "DecodeToolResult wire_format sample_answer sample_request = Inr r"
    by (simp add: DecodeToolResult_def v req sample_answer_def execClientPayload_def
        decode_by_name_def decodeDeleteToolResult_def withJSONContent_def Let_def wire_concrete)
  obtain d where d: "EncodeToolDispatch wire_format sample_request = Inr d" using sample_request_dispatch by blast
  have "res_Name r = ''Delete''" "res_Complete r" using tool_result_id [OF r] req by simp_all
  then have "final_result r r" by (simp add: final_result_def)
  from completion_ok [OF d r \<open>res_Complete r\<close> this] r \<open>res_Complete r\<close> show ?thesis by blast
qed

definition sample_opened :: "ToolDispatch \<Rightarrow> agentSession" where
  "sample_opened d = signalLocked (append_events [Execute d, Started d] (file_pending 0 7 ''exec-delete-1''
     ((snd (session_start None empty_run (new_session True)))\<lparr>se_tools :=
       [\<lparr> pt_request = sample_request, pt_transport = sample_request, pt_readRequest = None, pt_result = 0, pt_stdout = [],
          pt_stderr = [], pt_truncated = False, pt_editPhase = editPhaseNone \<rparr>]\<rparr>)))"

lemma session_start_new: "session_start None request (new_session True)
    = (Inr True, signalLocked ((new_session True)\<lparr>se_started := True, se_run := request, se_ctx := Some None\<rparr>))"
  by (simp add: session_start_def new_session_def)

lemma new_session_fields [simp]:
  "se_started (new_session b) = False" "se_done (new_session b) = False" "se_events (new_session b) = []"
  "se_ctx (new_session b) = None" "se_tools (new_session b) = []" "se_pendingByMessage (new_session b) = Map.empty"
  "se_pendingByExec (new_session b) = Map.empty" "se_mcpDiscovery (new_session b) = None"
  "se_toolResults (new_session b) = Map.empty" "se_sent (new_session b) = []" "se_allocates (new_session b) = b"
  by (simp_all add: new_session_def)

lemma sample_open:
  assumes "EncodeToolDispatch wire_format sample_request = Inr d"
  shows "session_openTool wire_format (Some ''1'') sample_call (Some 0) 6 (snd (session_start None empty_run (new_session True)))
    = (Inr (), 7, sample_opened d)"
proof -
  have "dispatch_call wire_format defs sample_request
      = Inr \<lparr> op_dispatch = d, op_transport = sample_request, op_readRequest = None, op_phase = editPhaseNone \<rparr>" for defs
    using assms by (simp add: dispatch_call_def sample_request_def sample_delete_def session_file_tools_def)
  moreover have "req_MessageID sample_request = 7" "req_ExecID sample_request = ''exec-delete-1''"
    by (simp_all add: sample_request_def sample_delete_def)
  moreover have "allocateMessageID 6 = (7, 7)" by (simp add: allocateMessageID_def Let_def)
  ultimately show ?thesis
    by (simp add: session_openTool_def session_start_new sample_tool_request sample_opened_def Let_def)
      (simp add: signalLocked_def)
qed

lemma sample_session_reachable:
  assumes "EncodeToolDispatch wire_format sample_request = Inr d"
  shows "session_reachable wire_format \<lparr> ss_next = 7, ss_session = sample_opened d \<rparr>"
proof -
  let ?s = "snd (session_start None empty_run (new_session True))"
  have "session_reachable wire_format \<lparr> ss_next = 6, ss_session = ?s \<rparr>"
    by (rule session_next [OF session_init [where n = 6]], rule step_start [of None empty_run _ "Inr True"])
      (simp add: session_start_new)
  moreover have "se_started ?s" "fresh_open (Some ''1'') sample_call (Some 0) 6 ?s"
    by (simp_all add: session_start_new fresh_open_def fresh_ids_def)
  ultimately show ?thesis using step_open [OF _ _ sample_open [OF assms]] session_next by blast
qed

lemma sample_opened_fields:
  "se_pendingByMessage (sample_opened d) = [7 \<mapsto> 0]" "se_pendingByExec (sample_opened d) = [''exec-delete-1'' \<mapsto> 0]"
  "se_toolResults (sample_opened d) = Map.empty" "se_ctx (sample_opened d) = Some None"
  "map pt_result (se_tools (sample_opened d)) = [0]" "se_done (sample_opened d) = False" "se_sent (sample_opened d) = []"
  "se_mcpDiscovery (sample_opened d) = None" "se_events (sample_opened d) = [Execute d, Started d]"
  by (simp_all add: sample_opened_def session_start_new)

section \<open>An opened call is answered\<close>

lemma opened_call_answer:
  assumes op: "session_openTool pw (Some sfx) call (Some chan) n s = (Inr (), n1, s1)"
    and name: "tc_Name call \<in> {''Write'', ''Delete'', ''List'', ''Grep'', ''Glob''}"
    and decode: "DecodeToolResult pw message (tool_request n1 sfx call) = Inr r"
    and run: "se_ctx s = Some None" "se_mcpDiscovery s = None" "se_toolResults s chan = None"
  shows "\<exists>completed s2. session_applyToolResult pw execSuffix preferDone message n1 s1 = (Inr (), n1, s2)
    \<and> se_events s2 = se_events s1 @ [completed]
    \<and> se_toolResults s2 = (se_toolResults s)(chan \<mapsto>
          \<lparr> at_CallID = tc_ID call, at_Content = res_Content r, at_IsError = res_IsError r \<rparr>)
    \<and> se_pendingByMessage s2 n1 = None"
proof -
  let ?q = "tool_request n1 sfx call" and ?p = "length (se_tools s)"
  have a: "allocateMessageID n = (n1, n1)" and nd: "\<not> se_done s"
    using op snd_allocate [of n] by (cases "allocateMessageID n",
      auto simp: session_openTool_def Let_def split: if_splits sum.splits)+
  have nm: "req_Name ?q = tc_Name call" "req_CallID ?q = tc_ID call" "req_MessageID ?q = n1" by (simp_all add: tool_request_def)
  obtain opened where o: "dispatch_call pw (effectiveMCPToolsLocked s) ?q = Inr opened"
    and s1: "s1 = (let pending = \<lparr> pt_request = ?q, pt_transport = op_transport opened,
                        pt_readRequest = op_readRequest opened, pt_result = chan, pt_stdout = [], pt_stderr = [],
                        pt_truncated = False, pt_editPhase = op_phase opened \<rparr> in
      signalLocked (append_events [Execute (op_dispatch opened), Started (op_dispatch opened)]
        (file_pending ?p (req_MessageID ?q) (req_ExecID ?q) (s\<lparr>se_tools := se_tools s @ [pending]\<rparr>))))"
    using op a nd by (auto simp: session_openTool_def Let_def split: if_splits sum.splits)
  have "op_transport opened = ?q" and "EncodeToolDispatch pw ?q = Inr (op_dispatch opened)"
    using o name by (auto simp: dispatch_call_def nm session_file_tools_def result_iff)
  note tr = this
  from tool_result_id [OF decode] obtain identity where i: "DecodeExecResultIdentity pw message = Inr identity"
    "id_MessageID identity \<in> {0, n1}" "id_ExecID identity \<in> {[], req_ExecID ?q}"
    "\<not> (id_MessageID identity = 0 \<and> id_ExecID identity = [])" and rn: "res_Name r = tc_Name call" "res_Complete r"
    using name nm by auto
  have f: "se_pendingByMessage s1 = (se_pendingByMessage s)(n1 \<mapsto> ?p)"
    "se_pendingByExec s1 = (se_pendingByExec s)(req_ExecID ?q \<mapsto> ?p)" "se_done s1 = False" "se_mcpDiscovery s1 = None"
    "se_ctx s1 = Some None" "se_toolResults s1 = se_toolResults s"
    "pt_transport (se_tools s1 ! ?p) = ?q" "pt_request (se_tools s1 ! ?p) = ?q" "pt_result (se_tools s1 ! ?p) = chan"
    using nd run by (simp_all add: s1 Let_def nm tr(1))
  have find: "find_pending identity s1 = Some ?p"
    using i(2-4) by (auto simp: find_pending_def f)
  have "final_result r r" using rn name by (auto simp: final_result_def)
  from completion_ok [OF tr(2) decode rn(2) this] obtain c where c: "EncodeToolCompleted pw ?q r = Inr c" by blast
  have "handle_pending pw execSuffix message ?p n1 s1 = (Completed c (res_Content r) (res_IsError r), n1, s1)"
    using name decode c rn by (auto simp: handle_pending_def handle_result_def completed_or_def f nm session_file_tools_def Let_def)
  then show ?thesis
    using i(1) find run
    by (simp add: session_applyToolResult_def matches_discovery_def f Let_def send_tool_result_def send_or_done_def nm)
qed

lemma sample_answered:
  assumes "EncodeToolDispatch wire_format sample_request = Inr d"
  obtains completed s2 where "session_applyToolResult wire_format None False sample_answer 7 (sample_opened d) = (Inr (), 7, s2)"
    "se_events s2 = [Execute d, Started d, completed]" "se_toolResults s2 0 \<noteq> None"
proof -
  obtain r where r: "DecodeToolResult wire_format sample_answer (tool_request 7 ''1'' sample_call) = Inr r"
    using sample_request_answered by (auto simp: sample_tool_request)
  have "tc_Name sample_call = ''Delete''" by (simp add: sample_call_def)
  with opened_call_answer [OF sample_open [OF assms] _ r, of None False] that show thesis
    by (fastforce simp: sample_opened_fields session_start_new)
qed

section \<open>The requests of the file tools\<close>

text \<open>
  The client was sent the request of a file tool as it was made for the call, and its encoding
  succeeded; only an edit replaces what it sent.
\<close>

definition file_call :: "pendingTool \<Rightarrow> bool" where
  "file_call t \<longleftrightarrow> req_Name (pt_request t) \<in> {''Write'', ''Delete'', ''List'', ''Grep'', ''Glob''}"

definition sent_as_made :: "protowire \<Rightarrow> pendingTool \<Rightarrow> bool" where
  "sent_as_made pw t \<longleftrightarrow> (file_call t \<longrightarrow> pt_transport t = pt_request t \<and> (\<exists>d. EncodeToolDispatch pw (pt_transport t) = Inr d))"

lemma same_calls_sent: "list_all2 same_call ts ts' \<Longrightarrow> list_all (sent_as_made pw) ts \<Longrightarrow> list_all (sent_as_made pw) ts'"
  by (induction rule: list_all2_induct) (auto simp: same_call_def sent_as_made_def file_call_def)

lemma open_sent:
  assumes "session_openTool pw execSuffix call result' n s = (r, n', s')" and "list_all (sent_as_made pw) (se_tools s)"
  shows "list_all (sent_as_made pw) (se_tools s')"
proof (cases "s' = s")
  case False
  then obtain chan sfx opened messageID where o: "dispatch_call pw (effectiveMCPToolsLocked s) (tool_request messageID sfx call) = Inr opened"
    and s': "se_tools s' = se_tools s @ [\<lparr> pt_request = tool_request messageID sfx call, pt_transport = op_transport opened,
          pt_readRequest = op_readRequest opened, pt_result = chan, pt_stdout = [], pt_stderr = [], pt_truncated = False,
          pt_editPhase = op_phase opened \<rparr>]"
    using assms(1) by (auto simp: session_openTool_def Let_def split: option.splits if_splits prod.splits sum.splits)
  have "sent_as_made pw (last (se_tools s'))"
    using o by (auto simp: s' sent_as_made_def file_call_def dispatch_call_def session_file_tools_def result_iff)
  then show ?thesis using assms(2) by (simp add: s')
qed (use assms in simp)

lemma handle_pending_sent:
  assumes "handle_pending pw execSuffix message p n s = (h, n', s')" and "p < length (se_tools s)" and "\<not> se_done s"
    and "list_all (sent_as_made pw) (se_tools s)"
  shows "list_all (sent_as_made pw) (se_tools s')"
proof -
  from assms(1) consider "s' = s" | "handle_shell pw message p s = (h, s')"
    | "handle_edit_read pw execSuffix message p n s = (h, n', s')" "req_Name (pt_request (se_tools s ! p)) = ''Edit''"
    by (auto simp: handle_pending_def Let_def split: if_splits editPhase.splits prod.splits)
  then show ?thesis
  proof cases
    case 2
    from handle_shell_quiet [OF this assms(2,3)] show ?thesis using same_calls_sent assms(4) unfolding quiet_def by blast
  next
    case 3
    from 3(1) show ?thesis
    proof (cases rule: edit_read_cases)
      case (2 sfx m path contents d)
      define t where "t = (se_tools s ! p)\<lparr>pt_transport := edit_write_request m sfx (se_tools s ! p) path contents,
        pt_readRequest := None, pt_editPhase := editPhaseWrite\<rparr>"
      have "se_tools s' = (se_tools s)[p := t]" by (simp add: 2(4) Let_def t_def)
      moreover have "sent_as_made pw t" using 3(2) by (simp add: t_def sent_as_made_def file_call_def)
      ultimately show ?thesis using assms(4) by (auto simp: list_all_iff dest!: set_update_subset_insert [THEN subsetD])
    qed (use assms(4) in simp)
  qed (use assms(4) in simp)
qed

lemma send_tools [simp]:
  "se_tools (snd (send_tool_result preferDone chan r s)) = se_tools s" "se_tools (snd (send_mcp_result preferDone chan r' s)) = se_tools s"
  by (simp_all add: send_tool_result_def send_mcp_result_def split: sum.split)

lemma apply_sent:
  assumes "session_applyToolResult pw execSuffix preferDone message n s = (r, n', s')" and "session_inv s"
    and sent: "list_all (sent_as_made pw) (se_tools s)"
  shows "list_all (sent_as_made pw) (se_tools s')"
proof (cases "s' = s")
  case False
  with assms(1) obtain identity where i: "DecodeExecResultIdentity pw message = Inr identity" and d: "\<not> se_done s"
    by (auto simp: session_applyToolResult_def split: sum.splits if_splits)
  show ?thesis
  proof (cases "matches_discovery identity s")
    case (Some pending)
    with assms(1) i d False obtain r0 where
      "send_mcp_result preferDone (pm_result pending) r0 (s\<lparr>se_mcpDiscovery := None\<rparr>) = (r, s')"
      by (auto simp: session_applyToolResult_def split: sum.splits prod.splits)
    with send_tools(2) [of preferDone "pm_result pending" r0 "s\<lparr>se_mcpDiscovery := None\<rparr>"] sent show ?thesis by simp
  next
    case None
    with assms(1) i d False obtain p where p: "find_pending identity s = Some p"
      by (auto simp: session_applyToolResult_def split: option.splits)
    have bound: "p < length (se_tools s)"
      using assms(2) find_pending_filed [OF assms(2) p] by (intro filed_bound) (auto simp: session_inv_def)
    obtain h n1 s1 where h: "handle_pending pw execSuffix message p n s = (h, n1, s1)"
      by (cases "handle_pending pw execSuffix message p n s")
    have "se_tools s' = se_tools s1"
    proof (cases h)
      case (Completed completed content isError)
      define u where "u = signalLocked (append_events [completed] (unfile_pending (se_tools s1 ! p) s1))"
      define ar where "ar = \<lparr> at_CallID = req_CallID (pt_request (se_tools s1 ! p)), at_Content = content, at_IsError = isError \<rparr>"
      have "send_tool_result preferDone (pt_result (se_tools s1 ! p)) ar u = (r, s')"
        using assms(1) i d None p h Completed by (auto simp: session_applyToolResult_def Let_def u_def ar_def split: prod.splits)
      then have "se_tools s' = se_tools u" using send_tools(1) [of preferDone "pt_result (se_tools s1 ! p)" ar u] by simp
      then show ?thesis by (simp add: u_def)
    qed (use assms(1) i d None p h in \<open>auto simp: session_applyToolResult_def\<close>)
    then show ?thesis using handle_pending_sent [OF h bound d sent] by simp
  qed
qed (use sent in simp)

lemma discovery_tools:
  "begin_discovery pw execSuffix chan request n s = (r, n', s') \<Longrightarrow> se_tools s' = se_tools s"
  "end_discovery request' pending wake again s = (r', s') \<Longrightarrow> se_tools s' = se_tools s"
proof -
  show "begin_discovery pw execSuffix chan request n s = (r, n', s') \<Longrightarrow> se_tools s' = se_tools s"
    by (erule begin_discovery_cases) simp_all
  have "se_tools (snd (clearMCPDiscovery pending s)) = se_tools s" for s by (simp add: clearMCPDiscovery_def)
  moreover have "se_tools (snd (receive_discovery request' pending s)) = se_tools s" for s
    by (simp add: receive_discovery_def completeMCPDiscovery_def split: option.split)
  ultimately show "end_discovery request' pending wake again s = (r', s') \<Longrightarrow> se_tools s' = se_tools s"
    by (auto simp: end_discovery_def split: discovery_wake.splits prod.splits bool.splits) (metis snd_conv)+
qed

lemma step_sent:
  assumes "session_step pw x y" and "session_inv (ss_session x)" and "list_all (sent_as_made pw) (se_tools (ss_session x))"
  shows "list_all (sent_as_made pw) (se_tools (ss_session y))"
  using assms
proof (induction rule: session_step.induct)
  case (step_start parentErr request s r s' n)
  then have "se_tools s' = se_tools s" by (auto simp: session_start_def split: if_splits)
  then show ?case using step_start by simp
next
  case (step_publish s payload r s' n)
  then have "se_tools s' = se_tools s" by (auto simp: session_publish_def split: if_splits option.splits)
  then show ?case using step_publish by simp
next
  case (step_open s execSuffix call result' n r n' s')
  then show ?case using open_sent by simp
next
  case (step_apply execSuffix n s preferDone message r n' s')
  then show ?case using apply_sent by simp
next
  case (step_begin_discovery s chan execSuffix request n r n' s')
  then show ?case by (simp add: discovery_tools(1))
next
  case (step_end_discovery request pending wake again s r s' n)
  then show ?case by (simp add: discovery_tools(2))
qed (simp_all add: session_finish_def Let_def session_subscribe_def session_unsubscribe_def)

lemma reachable_sent: "session_reachable pw x \<Longrightarrow> list_all (sent_as_made pw) (se_tools (ss_session x))"
proof (induction rule: session_reachable.induct)
  case (session_init n)
  then show ?case by (simp add: new_session_def)
next
  case (session_next x y)
  then show ?case using step_sent reachable_session_inv by blast
qed

text \<open>A message that decodes as the result of a call in flight is taken for it.\<close>

lemma result_finds_call:
  assumes inv: "session_inv s" and pending: "se_pendingByMessage s m = Some p"
    and decode: "DecodeToolResult pw message (pt_transport (se_tools s ! p)) = Inr r"
    and other: "\<And>d. se_mcpDiscovery s = Some d \<Longrightarrow> pm_messageID d \<noteq> m \<and> pm_execID d \<noteq> req_ExecID (pt_transport (se_tools s ! p))"
  obtains identity where "DecodeExecResultIdentity pw message = Inr identity" "matches_discovery identity s = None"
    "find_pending identity s = Some p"
proof -
  from inv have "filing_ok (se_tools s) (se_pendingByMessage s) (se_pendingByExec s)" by (simp add: session_inv_def)
  from filingD(1) [OF this pending] have m: "req_MessageID (pt_transport (se_tools s ! p)) = m"
    and e: "se_pendingByExec s (req_ExecID (pt_transport (se_tools s ! p))) = Some p" by simp_all
  from tool_result_id [OF decode] obtain identity where i: "DecodeExecResultIdentity pw message = Inr identity"
    "id_MessageID identity \<in> {0, m}" "id_ExecID identity \<in> {[], req_ExecID (pt_transport (se_tools s ! p))}"
    "\<not> (id_MessageID identity = 0 \<and> id_ExecID identity = [])" unfolding m by blast
  have "matches_discovery identity s = None"
  proof (cases "se_mcpDiscovery s")
    case (Some d)
    then show ?thesis using other [OF Some] i(2-4) by (auto simp: matches_discovery_def identityMatches_def)
  qed (simp add: matches_discovery_def)
  moreover have "find_pending identity s = Some p" using i(2-4) pending e by (auto simp: find_pending_def)
  ultimately show thesis using that i(1) by blast
qed

section \<open>What holds in every reachable state\<close>

lemma steps_kept:
  assumes "(session_step pw)\<^sup>*\<^sup>* x y" and "session_inv (ss_session x)"
  shows "session_inv (ss_session y) \<and> advances (ss_session x) (ss_session y)"
  using assms
proof (induction rule: rtranclp_induct)
  case (step y z)
  then have k: "session_inv (ss_session y)" "advances (ss_session x) (ss_session y)" by simp_all
  from step_kept [OF step.hyps(2) k(1)] k(2) show ?case
    unfolding advances_def by (metis prefix_order.order_trans)
qed simp

text \<open>C34: 
  What a stream can read of a session only grows, and a session that has ended is frozen:
  whatever operations follow, in whatever order, its events, its error and the time it ended
  stay as they are, and it has no call in flight.
\<close>

theorem session_events_only_grow:
  assumes "session_reachable pw x" and "(session_step pw)\<^sup>*\<^sup>* x y"
  shows "prefix (se_events (ss_session x)) (se_events (ss_session y))
    \<and> (se_done (ss_session x) \<longrightarrow> se_done (ss_session y) \<and> se_events (ss_session y) = se_events (ss_session x)
        \<and> se_errorCode (ss_session y) = se_errorCode (ss_session x)
        \<and> se_errorMessage (ss_session y) = se_errorMessage (ss_session x)
        \<and> se_terminalAt (ss_session y) = se_terminalAt (ss_session x)
        \<and> se_pendingByMessage (ss_session y) = Map.empty \<and> se_pendingByExec (ss_session y) = Map.empty)"
  using steps_kept [OF assms(2) reachable_session_inv [OF assms(1)]]
  unfolding advances_def session_inv_def lifecycle_ok_def by blast

theorem session_events_only_grow_witness:
  "\<exists>d. EncodeToolDispatch wire_format sample_request = Inr d
    \<and> prefix [Execute d, Started d] (se_events (session_finish 5 ''x'' [] [] (sample_opened d)))"
proof -
  obtain d where d: "EncodeToolDispatch wire_format sample_request = Inr d" using sample_request_dispatch by blast
  have "(session_step wire_format)\<^sup>*\<^sup>* \<lparr> ss_next = 7, ss_session = sample_opened d \<rparr>
      \<lparr> ss_next = 7, ss_session = session_finish 5 ''x'' [] [] (sample_opened d) \<rparr>"
    by (rule r_into_rtranclp) (rule step_finish)
  from session_events_only_grow [OF sample_session_reachable [OF d] this] d show ?thesis
    by (auto simp: sample_opened_fields)
qed

text \<open>
  C7: A call is answered at most once: over the whole life of a session no result channel is
  sent two results; each result carries the identifier of the call whose channel it is sent on;
  and a call that was answered is no longer in flight, so a second result for it is refused.
\<close>

theorem call_answered_at_most_once:
  assumes "session_reachable pw x"
  shows "distinct (map fst (se_sent (ss_session x)))
    \<and> (\<forall>(c, r)\<in>set (se_sent (ss_session x)). \<exists>t\<in>set (se_tools (ss_session x)).
          pt_result t = c \<and> req_CallID (pt_request t) = at_CallID r)
    \<and> (\<forall>m p. se_pendingByMessage (ss_session x) m = Some p
          \<longrightarrow> pt_result (se_tools (ss_session x) ! p) \<notin> fst ` set (se_sent (ss_session x)))"
  using reachable_session_inv [OF assms] by (auto simp: session_inv_def channels_ok_def filed_def)

theorem call_answered_at_most_once_witness:
  "\<exists>d completed s2. session_applyToolResult wire_format None False sample_answer 7 (sample_opened d) = (Inr (), 7, s2)
    \<and> se_events s2 = [Execute d, Started d, completed] \<and> 0 \<in> fst ` set (se_sent s2) \<and> distinct (map fst (se_sent s2))"
proof -
  obtain d where d: "EncodeToolDispatch wire_format sample_request = Inr d" using sample_request_dispatch by blast
  obtain completed s2 where s2: "session_applyToolResult wire_format None False sample_answer 7 (sample_opened d) = (Inr (), 7, s2)"
    "se_events s2 = [Execute d, Started d, completed]" "se_toolResults s2 0 \<noteq> None" by (rule sample_answered [OF d])
  have "session_reachable wire_format \<lparr> ss_next = 7, ss_session = s2 \<rparr>"
    by (rule session_next [OF sample_session_reachable [OF d]], rule step_apply [OF _ s2(1)]) (simp add: fresh_write_def)
  from reachable_session_inv [OF this] s2(3) have "0 \<in> fst ` set (se_sent s2)" by (auto simp: session_inv_def channels_ok_def)
  with call_answered_at_most_once [OF \<open>session_reachable wire_format \<lparr> ss_next = 7, ss_session = s2 \<rparr>\<close>] s2(1,2)
  show ?thesis by auto
qed

definition delivered :: "goerror option option \<Rightarrow> bool \<Rightarrow> unit result \<Rightarrow> bool" where
  "delivered ctx preferDone r \<longleftrightarrow> (\<exists>err. ctx = Some err
     \<and> r = (case err of Some e \<Rightarrow> if preferDone then Inl e else Inr () | None \<Rightarrow> Inr ()))"

lemma empty_channel_delivers: "ctx \<noteq> None \<Longrightarrow> delivered ctx preferDone (send_or_done preferDone False ctx)"
  by (auto simp: delivered_def send_or_done_def split: option.splits)

text \<open>
  Delivering a result never blocks and never panics: for a call in flight the channel is
  empty and the context exists, so the send goes through, or returns the context's error once
  that has ended. The same holds for an MCP discovery that is pending.
\<close>

theorem delivery_never_blocks:
  assumes "session_reachable pw x"
  shows "(\<forall>m p r. se_pendingByMessage (ss_session x) m = Some p \<longrightarrow> delivered (se_ctx (ss_session x)) preferDone
        (fst (send_tool_result preferDone (pt_result (se_tools (ss_session x) ! p)) r (ss_session x))))
    \<and> (\<forall>d r. se_mcpDiscovery (ss_session x) = Some d \<longrightarrow> delivered (se_ctx (ss_session x)) preferDone
        (fst (send_mcp_result preferDone (pm_result d) r (ss_session x))))"
proof -
  have send: "fst (send_tool_result preferDone c r s) = send_or_done preferDone (se_toolResults s c \<noteq> None) (se_ctx s)"
    "fst (send_mcp_result preferDone c r' s) = send_or_done preferDone (se_mcpResults s c \<noteq> None) (se_ctx s)" for c r r' s
    by (simp_all add: send_tool_result_def send_mcp_result_def split: sum.split)
  from reachable_session_inv [OF assms] have inv: "channels_ok (ss_session x)" "lifecycle_ok (ss_session x)"
    by (simp_all add: session_inv_def)
  have "se_toolResults (ss_session x) (pt_result (se_tools (ss_session x) ! p)) = None \<and> se_ctx (ss_session x) \<noteq> None"
    if "se_pendingByMessage (ss_session x) m = Some p" for m p
    using inv that by (fastforce simp: channels_ok_def lifecycle_ok_def filed_def)
  moreover have "se_mcpResults (ss_session x) (pm_result d) = None \<and> se_ctx (ss_session x) \<noteq> None"
    if "se_mcpDiscovery (ss_session x) = Some d" for d
    using inv(2) that unfolding lifecycle_ok_def by blast
  ultimately show ?thesis unfolding send using empty_channel_delivers by auto
qed

text \<open>
  The two maps of calls in flight agree: they hold the same calls, each under the message
  ID and the exec ID of the request the client was sent, so a result finds the same call by
  either identifier.
\<close>

theorem pending_maps_agree:
  assumes "session_reachable pw x"
  shows "ran (se_pendingByMessage (ss_session x)) = ran (se_pendingByExec (ss_session x))
    \<and> (\<forall>m p. se_pendingByMessage (ss_session x) m = Some p \<longrightarrow> p < length (se_tools (ss_session x))
          \<and> req_MessageID (pt_transport (se_tools (ss_session x) ! p)) = m)
    \<and> (\<forall>e p. se_pendingByExec (ss_session x) e = Some p \<longrightarrow> p < length (se_tools (ss_session x))
          \<and> req_ExecID (pt_transport (se_tools (ss_session x) ! p)) = e)"
proof -
  from reachable_session_inv [OF assms] have
    "filing_ok (se_tools (ss_session x)) (se_pendingByMessage (ss_session x)) (se_pendingByExec (ss_session x))"
    by (simp add: session_inv_def)
  note f = filingD [OF this]
  have "ran (se_pendingByMessage (ss_session x)) = ran (se_pendingByExec (ss_session x))"
    unfolding ran_def using f by blast
  with f show ?thesis by blast
qed

text \<open>
  The output kept of a shell command is at most 256 KiB per stream and valid UTF-8,
  whatever the client sends and in however many pieces.
\<close>

theorem shell_output_bounded:
  assumes "session_reachable pw x" and "t \<in> set (se_tools (ss_session x))"
  shows "length (pt_stdout t) \<le> 262144 \<and> validUTF8 (pt_stdout t)
    \<and> length (pt_stderr t) \<le> 262144 \<and> validUTF8 (pt_stderr t)"
  using reachable_session_inv [OF assms(1)] assms(2)
  by (auto simp: session_inv_def list_all_iff tool_output_ok_def output_ok_def maxShellStreamBytes_def)


theorem shell_output_bounded_witness:
  "\<exists>d. EncodeToolDispatch wire_format sample_request = Inr d
    \<and> length (pt_stdout (se_tools (sample_opened d) ! 0)) \<le> 262144"
proof -
  obtain d where d: "EncodeToolDispatch wire_format sample_request = Inr d" using sample_request_dispatch by blast
  have "se_tools (sample_opened d) ! 0 \<in> set (se_tools (sample_opened d))" by (simp add: sample_opened_def)
  with shell_output_bounded [OF sample_session_reachable [OF d]] d show ?thesis by auto
qed

theorem delivery_never_blocks_witness:
  "\<exists>d. EncodeToolDispatch wire_format sample_request = Inr d \<and> se_pendingByMessage (sample_opened d) 7 = Some 0
    \<and> delivered (Some None) True (fst (send_tool_result True 0
        \<lparr> at_CallID = ''call-1'', at_Content = ''done'', at_IsError = False \<rparr> (sample_opened d)))"
proof -
  obtain d where d: "EncodeToolDispatch wire_format sample_request = Inr d" using sample_request_dispatch by blast
  from delivery_never_blocks [OF sample_session_reachable [OF d], of True]
  have "delivered (Some None) True (fst (send_tool_result True (pt_result (se_tools (sample_opened d) ! 0)) r (sample_opened d)))" for r
    by (simp add: sample_opened_fields)
  moreover have "pt_result (se_tools (sample_opened d) ! 0) = 0" by (simp add: sample_opened_def)
  ultimately show ?thesis using d by (auto simp: sample_opened_fields)
qed

theorem pending_maps_agree_witness:
  "\<exists>d. EncodeToolDispatch wire_format sample_request = Inr d
    \<and> ran (se_pendingByMessage (sample_opened d)) = {0} \<and> ran (se_pendingByExec (sample_opened d)) = {0}"
proof -
  obtain d where d: "EncodeToolDispatch wire_format sample_request = Inr d" using sample_request_dispatch by blast
  from pending_maps_agree [OF sample_session_reachable [OF d]] d show ?thesis by (auto simp: sample_opened_fields)
qed

text \<open>
  C8: A result reaches the call it answers. In whatever state a session can reach, for every call of the five file tools that is
  in flight, a client message that decodes as the result of the request sent for it is taken for that call's, whatever else is in
  flight, provided only that no MCP discovery in flight has the call's own message or exec ID: the display frame the bridge encodes for
  it, which always succeeds, is published behind all others; the call, and no other, leaves both maps of calls in flight; and its
  own channel gets the result under its own identifier, at once. Only when the session's context has ended may its error be returned in
  place of the delivery.
\<close>

theorem opened_call_is_answered:
  assumes reach: "session_reachable pw \<lparr> ss_next = n, ss_session = s \<rparr>"
    and pending: "se_pendingByMessage s m = Some p" and t: "t = se_tools s ! p"
    and name: "req_Name (pt_request t) \<in> {''Write'', ''Delete'', ''List'', ''Grep'', ''Glob''}"
    and decode: "DecodeToolResult pw message (pt_transport t) = Inr r"
    and other: "\<And>d. se_mcpDiscovery s = Some d \<Longrightarrow> pm_messageID d \<noteq> m \<and> pm_execID d \<noteq> req_ExecID (pt_transport t)"
  shows "\<exists>completed res s2. session_applyToolResult pw execSuffix preferDone message n s = (res, n, s2)
    \<and> EncodeToolCompleted pw (pt_transport t) r = Inr completed \<and> se_events s2 = se_events s @ [completed]
    \<and> se_pendingByMessage s2 = (se_pendingByMessage s)(m := None)
    \<and> se_pendingByExec s2 = (se_pendingByExec s)(req_ExecID (pt_transport t) := None)
    \<and> (if preferDone \<and> se_ctx s \<noteq> Some None then res = Inl (the (the (se_ctx s))) \<and> se_toolResults s2 = se_toolResults s
       else res = Inr () \<and> se_toolResults s2 = (se_toolResults s)(pt_result t \<mapsto>
          \<lparr> at_CallID = req_CallID (pt_request t), at_Content = res_Content r, at_IsError = res_IsError r \<rparr>))"
proof -
  from reachable_session_inv [OF reach] have inv: "session_inv s" by simp
  then have f: "filing_ok (se_tools s) (se_pendingByMessage s) (se_pendingByExec s)" by (simp add: session_inv_def)
  note p = filingD(1) [OF f pending]
  have filed: "filed s p" using pending by (auto simp: filed_def)
  have live: "\<not> se_done s" "se_ctx s \<noteq> None" "se_toolResults s (pt_result t) = None"
    using inv pending filed by (fastforce simp: session_inv_def lifecycle_ok_def channels_ok_def t)+
  have "sent_as_made pw t" using reachable_sent [OF reach] p by (simp add: list_all_length t)
  then have tr: "pt_transport t = pt_request t" and d: "\<exists>d. EncodeToolDispatch pw (pt_transport t) = Inr d"
    using name unfolding sent_as_made_def file_call_def by blast+
  obtain identity where i: "DecodeExecResultIdentity pw message = Inr identity" "matches_discovery identity s = None"
    "find_pending identity s = Some p"
    using result_finds_call [OF inv pending decode [unfolded t] other [unfolded t]] by blast
  from tool_result_id [OF decode] have rn: "res_Name r = req_Name (pt_request t)" "res_Complete r" using name by (auto simp: tr)
  have "final_result r r" using rn name by (auto simp: final_result_def)
  with d completion_ok [OF _ decode rn(2)] obtain c where c: "EncodeToolCompleted pw (pt_transport t) r = Inr c" by blast
  have h: "handle_pending pw execSuffix message p n s = (Completed c (res_Content r) (res_IsError r), n, s)"
    using name decode c rn by (auto simp: handle_pending_def handle_result_def completed_or_def session_file_tools_def Let_def t)
  define u where "u = signalLocked (append_events [c] (unfile_pending t s))"
  have u: "se_toolResults u = se_toolResults s" "se_ctx u = se_ctx s" "se_events u = se_events s @ [c]"
    "se_pendingByMessage u = (se_pendingByMessage s)(m := None)" "se_pendingByExec u = (se_pendingByExec s)(req_ExecID (pt_transport t) := None)"
    using p by (simp_all add: u_def t)
  have "session_applyToolResult pw execSuffix preferDone message n s
      = (case send_tool_result preferDone (pt_result t) \<lparr> at_CallID = req_CallID (pt_request t), at_Content = res_Content r, at_IsError = res_IsError r \<rparr> u of
          (res, s) \<Rightarrow> (res, n, s))"
    using i live(1) h by (simp add: session_applyToolResult_def Let_def u_def t)
  moreover obtain err where "se_ctx s = Some err" using live(2) by blast
  ultimately show ?thesis
    using c u live(3) by (cases err; cases preferDone) (simp_all add: send_tool_result_def send_or_done_def)
qed

theorem opened_call_is_answered_witness:
  "\<exists>d completed s2. EncodeToolDispatch wire_format sample_request = Inr d
    \<and> session_applyToolResult wire_format None False sample_answer 7 (sample_opened d) = (Inr (), 7, s2)
    \<and> se_events s2 = [Execute d, Started d, completed] \<and> se_toolResults s2 0 \<noteq> None
    \<and> se_pendingByMessage s2 = Map.empty \<and> se_pendingByExec s2 = Map.empty"
proof -
  obtain d where d: "EncodeToolDispatch wire_format sample_request = Inr d" using sample_request_dispatch by blast
  obtain r where r: "DecodeToolResult wire_format sample_answer sample_request = Inr r" using sample_request_answered by blast
  have t: "pt_transport (se_tools (sample_opened d) ! 0) = sample_request" "pt_request (se_tools (sample_opened d) ! 0) = sample_request"
    "pt_result (se_tools (sample_opened d) ! 0) = 0"
    by (simp_all add: sample_opened_def session_start_new)
  have n: "req_Name sample_request = ''Delete''" "req_ExecID sample_request = ''exec-delete-1''" by (simp_all add: sample_request_def sample_delete_def)
  from opened_call_is_answered [OF sample_session_reachable [OF d] _ refl, of 7 0 sample_answer r None False] r d show ?thesis
    by (auto simp: t n sample_opened_fields)
qed

end
