(* ===== verification/Session_Stream.thy ===== *)
theory Session_Stream
  imports Session_Steps Connect_Frame
begin

text \<open>
  \<open>streamSession\<close> of \<open>server/agent.go\<close>: the loop that sends a session's events to the
  client, as a step relation beside the session's other operations. A pass takes a snapshot
  behind the cursor and writes it; then the loop waits until the session signals, a timer
  fires or a context ends. What was written is kept with the kind of frame, as history.
\<close>

section \<open>The loop\<close>

datatype frame_kind = EventFrame | HeartbeatFrame | EndFrame

datatype stream_phase = Reading | Waiting | Returned

record stream =
  sm_cursor :: nat
  sm_startTimer :: bool
  sm_phase :: stream_phase
  sm_written :: "(frame_kind \<times> bytes) list"

definition new_stream :: stream where
  "new_stream = \<lparr> sm_cursor = 0, sm_startTimer = True, sm_phase = Reading, sm_written = [] \<rparr>"

definition write_frame :: "frame_kind \<Rightarrow> bytes \<Rightarrow> stream \<Rightarrow> stream" where
  "write_frame k b st = st\<lparr>sm_written := sm_written st @ [(k, b)]\<rparr>"

text \<open>The events of a snapshot, to a connection that takes \<open>n\<close> more writes before it fails.\<close>

fun write_events :: "nat \<Rightarrow> bytes list \<Rightarrow> stream \<Rightarrow> stream \<times> bool" where
  "write_events n [] st = (st, True)"
| "write_events 0 (e # es) st = (st, False)"
| "write_events (Suc n) (e # es) st =
     write_events n es (write_frame EventFrame (EncodeConnectMessage e) (st\<lparr>sm_cursor := sm_cursor st + 1\<rparr>))"

definition stream_pass :: "nat \<Rightarrow> agentSession \<Rightarrow> stream \<Rightarrow> stream" where
  "stream_pass n s st =
     (case session_snapshot (int (sm_cursor st)) s of (events, done', errorCode, errorMessage, started) \<Rightarrow>
        let st = (if started then st\<lparr>sm_startTimer := False\<rparr> else st) in
        case write_events n events st of
          (st, False) \<Rightarrow> st\<lparr>sm_phase := Returned\<rparr>
        | (st, True) \<Rightarrow>
            if done' then
              (if length events < n then write_frame EndFrame (EncodeConnectEnd errorCode errorMessage) st
               else st)\<lparr>sm_phase := Returned\<rparr>
            else st\<lparr>sm_phase := Waiting\<rparr>)"

text \<open>What the \<open>select\<close> may take: a case is ready only under \<open>can_wake\<close>.\<close>

datatype stream_wake = RequestDone | RootDone | Notified | StartExpired | HeartbeatDue bool

definition can_wake :: "stream_wake \<Rightarrow> agentSession \<Rightarrow> stream \<Rightarrow> bool" where
  "can_wake w s st = (case w of Notified \<Rightarrow> se_notify s | StartExpired \<Rightarrow> sm_startTimer st | _ \<Rightarrow> True)"

definition stream_wait ::
  "protowire \<Rightarrow> int \<Rightarrow> stream_wake \<Rightarrow> agentSession \<Rightarrow> stream \<Rightarrow> agentSession \<times> stream" where
  "stream_wait pw now w s st = (case w of
     RequestDone \<Rightarrow> (s, st\<lparr>sm_phase := Returned\<rparr>)
   | RootDone \<Rightarrow> (s, st\<lparr>sm_phase := Returned\<rparr>)
   | Notified \<Rightarrow> (s\<lparr>se_notify := False\<rparr>, st\<lparr>sm_phase := Reading\<rparr>)
   | StartExpired \<Rightarrow> (session_finish now [] ''invalid_argument'' ''run request was not appended'' s,
       st\<lparr>sm_startTimer := False, sm_phase := Reading\<rparr>)
   | HeartbeatDue ok \<Rightarrow> (case EncodeHeartbeat pw of
       Inl e \<Rightarrow> (s, st\<lparr>sm_phase := Returned\<rparr>)
     | Inr payload \<Rightarrow>
         if ok then (s, (write_frame HeartbeatFrame (EncodeConnectMessage payload) st)\<lparr>sm_phase := Reading\<rparr>)
         else (s, st\<lparr>sm_phase := Returned\<rparr>)))"

text \<open>The deferred \<open>unsubscribe\<close> when the loop returns.\<close>

definition on_return :: "stream \<Rightarrow> agentSession \<Rightarrow> agentSession" where
  "on_return st s = (if sm_phase st = Returned then session_unsubscribe s else s)"

section \<open>Steps\<close>

record stream_system =
  ts_system :: session_system
  ts_stream :: stream

text \<open>
  Any other operation may come between two steps of the loop. With \<open>alone\<close> no other stream
  takes this session's notifications.
\<close>

inductive stream_step :: "protowire \<Rightarrow> bool \<Rightarrow> stream_system \<Rightarrow> stream_system \<Rightarrow> bool" for pw alone where
  stream_other:
    "session_step pw x y \<Longrightarrow> (alone \<Longrightarrow> se_notify (ss_session x) \<Longrightarrow> se_notify (ss_session y)) \<Longrightarrow>
     stream_step pw alone \<lparr> ts_system = x, ts_stream = st \<rparr> \<lparr> ts_system = y, ts_stream = st \<rparr>"
| stream_reads:
    "sm_phase st = Reading \<Longrightarrow> st' = stream_pass k s st \<Longrightarrow>
     stream_step pw alone \<lparr> ts_system = \<lparr> ss_next = n, ss_session = s \<rparr>, ts_stream = st \<rparr>
       \<lparr> ts_system = \<lparr> ss_next = n, ss_session = on_return st' s \<rparr>, ts_stream = st' \<rparr>"
| stream_wakes:
    "sm_phase st = Waiting \<Longrightarrow> can_wake w s st \<Longrightarrow> stream_wait pw now w s st = (s', st') \<Longrightarrow>
     stream_step pw alone \<lparr> ts_system = \<lparr> ss_next = n, ss_session = s \<rparr>, ts_stream = st \<rparr>
       \<lparr> ts_system = \<lparr> ss_next = n, ss_session = on_return st' s' \<rparr>, ts_stream = st' \<rparr>"

inductive stream_reachable :: "protowire \<Rightarrow> bool \<Rightarrow> stream_system \<Rightarrow> bool" for pw alone where
  stream_init:
    "session_reachable pw \<lparr> ss_next = n, ss_session = s \<rparr> \<Longrightarrow>
     stream_reachable pw alone \<lparr> ts_system = \<lparr> ss_next = n, ss_session = session_subscribe s \<rparr>, ts_stream = new_stream \<rparr>"
| stream_next: "stream_reachable pw alone x \<Longrightarrow> stream_step pw alone x y \<Longrightarrow> stream_reachable pw alone y"

abbreviation stream_session :: "stream_system \<Rightarrow> agentSession" where
  "stream_session x \<equiv> ss_session (ts_system x)"

text \<open>The loop acts on the session only by the session's own operations.\<close>

lemma session_steps_return:
  assumes "session_reachable pw \<lparr> ss_next = n, ss_session = s \<rparr>"
  shows "session_reachable pw \<lparr> ss_next = n, ss_session = on_return st s \<rparr>"
  using assms session_next [OF assms step_unsubscribe] by (simp add: on_return_def)

lemma stream_wait_session:
  assumes "stream_wait pw now w s st = (s', st')" and "session_reachable pw \<lparr> ss_next = n, ss_session = s \<rparr>"
  shows "session_reachable pw \<lparr> ss_next = n, ss_session = s' \<rparr>"
proof -
  from assms(1) have "s' = s \<or> s' = s\<lparr>se_notify := False\<rparr>
      \<or> s' = session_finish now [] ''invalid_argument'' ''run request was not appended'' s"
    by (auto simp: stream_wait_def split: stream_wake.splits sum.splits if_splits)
  then show ?thesis
    using assms(2) session_next [OF assms(2) step_notified] session_next [OF assms(2) step_finish] by metis
qed

lemma stream_session_reachable: "stream_reachable pw alone x \<Longrightarrow> session_reachable pw (ts_system x)"
proof (induction rule: stream_reachable.induct)
  case (stream_init n s)
  then show ?case using session_next [OF _ step_subscribe] by simp
next
  case (stream_next x y)
  from stream_next(2,3) show ?case
  proof (induction rule: stream_step.induct)
    case (stream_other x y st)
    then show ?case using session_next by auto
  next
    case (stream_reads st st' k s n)
    then show ?case using session_steps_return by simp
  next
    case (stream_wakes st w s now s' st' n)
    then show ?case using session_steps_return stream_wait_session by simp
  qed
qed

section \<open>Every event once, in order\<close>

definition frames :: "frame_kind \<Rightarrow> stream \<Rightarrow> bytes list" where
  "frames k st = map snd (filter (\<lambda>f. fst f = k) (sm_written st))"

lemma frames_write [simp]: "frames k (write_frame k' b st) = (if k' = k then frames k st @ [b] else frames k st)"
  by (simp add: frames_def write_frame_def)

lemma frames_fields [simp]:
  "frames k (st\<lparr>sm_cursor := c\<rparr>) = frames k st" "frames k (st\<lparr>sm_phase := ph\<rparr>) = frames k st"
  "frames k (st\<lparr>sm_startTimer := b\<rparr>) = frames k st"
  by (simp_all add: frames_def)

lemma write_frame_fields [simp]:
  "sm_cursor (write_frame k b st) = sm_cursor st" "sm_phase (write_frame k b st) = sm_phase st"
  "sm_startTimer (write_frame k b st) = sm_startTimer st"
  "sm_written (write_frame k b st) = sm_written st @ [(k, b)]"
  by (simp_all add: write_frame_def)

lemma write_events_ok:
  assumes "write_events n es st = (st', all)"
  shows "sm_cursor st' = sm_cursor st + min n (length es)"
    and "frames EventFrame st' = frames EventFrame st @ map EncodeConnectMessage (take n es)"
    and "frames EndFrame st' = frames EndFrame st" and "all \<longleftrightarrow> length es \<le> n"
    and "sm_startTimer st' = sm_startTimer st"
  using assms by (induction n es st rule: write_events.induct) (auto simp: frames_def)

lemma snapshot_events [simp]:
  "session_snapshot (int c) s = (drop c (se_events s), se_done s, se_errorCode s, se_errorMessage s, se_started s)"
  by (simp add: session_snapshot_def)

text \<open>The stream's own invariant: what it wrote is what the session published, up to the cursor.\<close>

definition stream_ok :: "agentSession \<Rightarrow> stream \<Rightarrow> bool" where
  "stream_ok s st \<longleftrightarrow> sm_cursor st \<le> length (se_events s)
     \<and> frames EventFrame st = map EncodeConnectMessage (take (sm_cursor st) (se_events s))
     \<and> (sm_phase st \<noteq> Returned \<longrightarrow> frames EndFrame st = [])
     \<and> (frames EndFrame st \<noteq> [] \<longrightarrow> se_done s \<and> sm_cursor st = length (se_events s)
          \<and> frames EndFrame st = [EncodeConnectEnd (se_errorCode s) (se_errorMessage s)]
          \<and> fst (last (sm_written st)) = EndFrame)"

lemma stream_ok_advances:
  assumes "stream_ok s st" and "advances s s'"
  shows "stream_ok s' st"
  using assms unfolding stream_ok_def advances_def
  by (auto simp: prefix_def)

lemma stream_pass_ok:
  assumes "stream_ok s st" and "sm_phase st = Reading"
  shows "stream_ok s (stream_pass n s st)"
proof -
  let ?es = "drop (sm_cursor st) (se_events s)" and ?st = "if se_started s then st\<lparr>sm_startTimer := False\<rparr> else st"
  obtain st1 all where w: "write_events n ?es ?st = (st1, all)" by (cases "write_events n ?es ?st")
  note w1 = write_events_ok [OF w]
  have c: "sm_cursor ?st = sm_cursor st" "frames k ?st = frames k st" for k by simp_all
  have f: "frames EventFrame st1 = map EncodeConnectMessage (take (sm_cursor st1) (se_events s))"
    "sm_cursor st1 \<le> length (se_events s)" "frames EndFrame st1 = []"
    using assms w1(1-3) unfolding c stream_ok_def
    by (auto simp: take_add min_def simp flip: map_append)
  have "all \<Longrightarrow> sm_cursor st1 = length (se_events s)" using w1(1,4) assms(1) unfolding c stream_ok_def by auto
  then show ?thesis using f w by (cases all) (auto simp: stream_pass_def stream_ok_def Let_def)
qed

lemma stream_wait_ok:
  assumes "stream_ok s st" and "sm_phase st = Waiting" and "stream_wait pw now w s st = (s', st')"
  shows "stream_ok s' st'"
proof -
  have fin: "advances s (session_finish now [] code msg s)" for code msg
    using finish_kept [of s now "[]" code msg] by (simp add: kept_def)
  show ?thesis
  proof (cases w)
    case StartExpired
    then have "s' = session_finish now [] ''invalid_argument'' ''run request was not appended'' s"
      and st': "st' = st\<lparr>sm_startTimer := False, sm_phase := Reading\<rparr>" using assms(3) by (auto simp: stream_wait_def)
    with stream_ok_advances [OF assms(1) fin] have "stream_ok s' st" by simp
    with assms(2) show ?thesis by (simp add: st' stream_ok_def)
  next
    case (HeartbeatDue ok)
    then show ?thesis using assms
      by (auto simp: stream_wait_def stream_ok_def split: sum.splits if_splits)
  qed (use assms in \<open>auto simp: stream_wait_def stream_ok_def\<close>)
qed

lemma stream_ok_return: "stream_ok s st \<Longrightarrow> stream_ok (on_return st' s) st"
  using stream_ok_advances subscribe_kept by (auto simp: on_return_def kept_def)

lemma reachable_stream_ok: "stream_reachable pw alone x \<Longrightarrow> stream_ok (stream_session x) (ts_stream x)"
proof (induction rule: stream_reachable.induct)
  case (stream_init n s)
  show ?case by (simp add: stream_ok_def new_stream_def frames_def)
next
  case (stream_next x y)
  from stream_next(2,3) stream_session_reachable [OF stream_next(1)] show ?case
  proof (induction rule: stream_step.induct)
    case (stream_other x y st)
    from step_kept [OF stream_other(1)] reachable_session_inv stream_other show ?case
      using stream_ok_advances by auto
  next
    case (stream_reads st st' k s n)
    then show ?case using stream_pass_ok stream_ok_return by simp
  next
    case (stream_wakes st w s now s' st' n)
    then show ?case using stream_wait_ok stream_ok_return by fastforce
  qed
qed

text \<open>
  C1: A stream hands the client every event the session published, each once and in the
  order of publication, whatever happens in between: after any number of steps the event
  frames it wrote are the frames of the first \<open>cursor\<close> events. The end frame is written at
  most once, as the last frame, only for a session that has ended and after all its events,
  and it carries the session's error.
\<close>

theorem stream_delivers_in_order:
  assumes "stream_reachable pw alone x"
  shows "frames EventFrame (ts_stream x)
      = map EncodeConnectMessage (take (sm_cursor (ts_stream x)) (se_events (stream_session x)))
    \<and> (frames EndFrame (ts_stream x) \<noteq> [] \<longrightarrow> se_done (stream_session x)
        \<and> frames EventFrame (ts_stream x) = map EncodeConnectMessage (se_events (stream_session x))
        \<and> frames EndFrame (ts_stream x)
            = [EncodeConnectEnd (se_errorCode (stream_session x)) (se_errorMessage (stream_session x))]
        \<and> fst (last (sm_written (ts_stream x))) = EndFrame)"
  using reachable_stream_ok [OF assms] by (simp add: stream_ok_def)

section \<open>No wake-up is lost\<close>

text \<open>An operation that changes what a stream looks at leaves a token in the channel.\<close>

definition signals :: "agentSession \<Rightarrow> agentSession \<Rightarrow> bool" where
  "signals s s' \<longleftrightarrow> (se_notify s \<longrightarrow> se_notify s')
     \<and> (se_notify s' \<or> se_events s' = se_events s \<and> se_done s' = se_done s \<and> se_started s' = se_started s)"

lemma signals_refl [simp]: "signals s s"
  by (simp add: signals_def)

lemma signals_trans: "signals s t \<Longrightarrow> signals t u \<Longrightarrow> signals s u"
  by (auto simp: signals_def)

lemma signalled [simp]: "se_notify (signalLocked s)" "signals s (signalLocked t)"
  by (simp_all add: signals_def signalLocked_def)

lemma notify_fields [simp]:
  "se_notify (append_events es s) = se_notify s" "se_notify (update_tool p f s) = se_notify s"
  "se_notify (file_pending p m x s) = se_notify s" "se_notify (unfile_pending t s) = se_notify s"
  "se_notify (cancel_context s) = se_notify s"
  by (simp_all add: append_events_def update_tool_def file_pending_def unfile_pending_def cancel_context_def
      split: option.split)

lemma finish_signals: "signals s (session_finish now payload code message s)"
  by (simp add: session_finish_def Let_def signals_def)

lemma subscribe_signals: "signals s (session_subscribe s)" "signals s (session_unsubscribe s)"
  by (simp_all add: session_subscribe_def session_unsubscribe_def Let_def signals_def)

lemma publish_signals: "session_publish payload s = (r, s') \<Longrightarrow> signals s s'"
  by (auto simp: session_publish_def split: if_splits option.splits)

lemma start_signals: "session_start parentErr request s = (r, s') \<Longrightarrow> signals s s'"
  by (auto simp: session_start_def split: if_splits)

lemma open_signals: "session_openTool pw execSuffix call chan n s = (r, n', s') \<Longrightarrow> signals s s'"
  by (auto simp: session_openTool_def Let_def split: option.splits if_splits prod.splits sum.splits)

lemma send_signals:
  "send_tool_result preferDone chan t s = (r, s') \<Longrightarrow> signals s s'"
  "send_mcp_result preferDone chan m s = (r, s') \<Longrightarrow> signals s s'"
  by (auto simp: send_tool_result_def send_mcp_result_def signals_def split: sum.splits)

lemma shell_signals:
  assumes "handle_shell pw message p s = (h, s')"
  shows "signals s s'"
proof -
  have pub: "publish_progress pw r t = (res, t') \<Longrightarrow> signals t t'" for r t res t'
    by (auto simp: publish_progress_def split: sum.splits)
  have upd: "signals s (update_tool p f s)" for f by (simp add: signals_def)
  show ?thesis
  proof (cases "DecodeToolResult pw message (pt_transport (se_tools s ! p))")
    case (Inl e)
    with assms show ?thesis by (simp add: handle_shell_def)
  next
    case (Inr r)
    obtain r' t b where a: "accumulate_output r (se_tools s ! p) = (r', t, b)"
      by (cases "accumulate_output r (se_tools s ! p)")
    let ?s = "update_tool p (\<lambda>_. t) s"
    obtain res s1 where p: "publish_progress pw r' ?s = (res, s1)" by (cases "publish_progress pw r' ?s")
    have "s' = ?s \<or> s' = s1"
      using assms Inr a p by (auto simp: handle_shell_def Let_def split: if_splits sum.splits)
    with upd pub [OF p] signals_trans show ?thesis by blast
  qed
qed

lemma pending_signals:
  assumes "handle_pending pw execSuffix message p n s = (h, n', s')"
  shows "signals s s'"
proof -
  from assms consider "s' = s" | "handle_shell pw message p s = (h, s')"
    | "handle_edit_read pw execSuffix message p n s = (h, n', s')"
    by (auto simp: handle_pending_def Let_def split: if_splits editPhase.splits prod.splits)
  then show ?thesis
  proof cases
    case 3
    then show ?thesis by (cases rule: edit_read_cases) (simp_all add: Let_def)
  qed (simp_all add: shell_signals)
qed

lemma apply_signals:
  assumes "session_applyToolResult pw execSuffix preferDone message n s = (r, n', s')"
  shows "signals s s'"
proof (cases "s' = s")
  case False
  with assms obtain identity where i: "DecodeExecResultIdentity pw message = Inr identity" and d: "\<not> se_done s"
    by (auto simp: session_applyToolResult_def split: sum.splits if_splits)
  have drop: "signals s (s\<lparr>se_mcpDiscovery := None\<rparr>)" by (simp add: signals_def)
  show ?thesis
  proof (cases "matches_discovery identity s")
    case (Some pending)
    with assms i d False obtain r0 where
      "send_mcp_result preferDone (pm_result pending) r0 (s\<lparr>se_mcpDiscovery := None\<rparr>) = (r, s')"
      by (auto simp: session_applyToolResult_def split: sum.splits prod.splits)
    with drop send_signals(2) signals_trans show ?thesis by blast
  next
    case None
    with assms i d False obtain p where p: "find_pending identity s = Some p"
      by (auto simp: session_applyToolResult_def split: option.splits)
    obtain h n1 s1 where h: "handle_pending pw execSuffix message p n s = (h, n1, s1)"
      by (cases "handle_pending pw execSuffix message p n s")
    note k = pending_signals [OF h]
    show ?thesis
    proof (cases h)
      case (Completed completed content isError)
      let ?s2 = "signalLocked (append_events [completed] (unfile_pending (se_tools s1 ! p) s1))"
      from assms i d None p h Completed obtain t where "send_tool_result preferDone (pt_result (se_tools s1 ! p)) t ?s2 = (r, s')"
        by (auto simp: session_applyToolResult_def Let_def split: prod.splits)
      with send_signals(1) have "signals ?s2 s'" by blast
      with signals_trans [OF signalled(2)] show ?thesis by blast
    qed (use assms i d None p h k in \<open>auto simp: session_applyToolResult_def\<close>)
  qed
qed simp

lemma begin_discovery_signals: "begin_discovery pw execSuffix chan request n s = (r, n', s') \<Longrightarrow> signals s s'"
  by (erule begin_discovery_cases) simp_all

lemma end_discovery_signals:
  assumes "end_discovery request pending wake again s = (r, s')"
  shows "signals s s'"
proof -
  have clear: "clearMCPDiscovery pending t = (b, t') \<Longrightarrow> signals t t'" for t b t'
    by (auto simp: clearMCPDiscovery_def signals_def split: if_splits)
  have receive: "receive_discovery request pending t = (r, t') \<Longrightarrow> signals t t'" for t t'
    by (auto simp: receive_discovery_def completeMCPDiscovery_def signals_def split: option.splits if_splits)
  obtain b s1 where c: "clearMCPDiscovery pending s = (b, s1)" by (cases "clearMCPDiscovery pending s")
  from assms c consider "s' = s1" | "receive_discovery request pending s = (r, s')" | "receive_discovery request pending s1 = (r, s')"
    by (auto simp: end_discovery_def split: discovery_wake.splits bool.splits)
  then show ?thesis using clear [OF c] receive signals_trans by cases blast+
qed

lemma step_signals:
  "session_step pw x y \<Longrightarrow> (se_notify (ss_session x) \<longrightarrow> se_notify (ss_session y)) \<Longrightarrow> signals (ss_session x) (ss_session y)"
proof (induction rule: session_step.induct)
  case (step_notified n s)
  then show ?case by (simp add: signals_def)
next
  case (step_receive n s chan)
  then show ?case by (simp add: signals_def)
next
  case (step_parent_done s n e)
  then show ?case by (simp add: signals_def)
qed (auto intro: start_signals publish_signals open_signals apply_signals begin_discovery_signals
    end_discovery_signals finish_signals subscribe_signals)

text \<open>A waiting stream has seen all there is, or a token waits for it.\<close>

definition awake :: "agentSession \<Rightarrow> stream \<Rightarrow> bool" where
  "awake s st \<longleftrightarrow> sm_phase st = Waiting \<longrightarrow> se_notify s
     \<or> sm_cursor st = length (se_events s) \<and> \<not> se_done s \<and> (sm_startTimer st \<longrightarrow> \<not> se_started s)"

lemma awake_signals: "awake s st \<Longrightarrow> signals s s' \<Longrightarrow> awake s' st"
  by (auto simp: awake_def signals_def)

lemma stream_pass_awake:
  assumes "sm_cursor st \<le> length (se_events s)"
  shows "awake s (stream_pass n s st)"
proof -
  let ?es = "drop (sm_cursor st) (se_events s)" and ?st = "if se_started s then st\<lparr>sm_startTimer := False\<rparr> else st"
  obtain st1 all where w: "write_events n ?es ?st = (st1, all)" by (cases "write_events n ?es ?st")
  note w1 = write_events_ok [OF w]
  have "all \<Longrightarrow> sm_cursor st1 = length (se_events s)" using w1(1,4) assms by (auto split: if_splits)
  moreover have "sm_startTimer st1 \<Longrightarrow> \<not> se_started s" using w1(5) by auto
  ultimately show ?thesis using w by (cases all) (auto simp: stream_pass_def awake_def Let_def)
qed

lemma reachable_awake: "stream_reachable pw True x \<Longrightarrow> awake (stream_session x) (ts_stream x)"
proof (induction rule: stream_reachable.induct)
  case (stream_init n s)
  show ?case by (simp add: awake_def new_stream_def)
next
  case (stream_next x y)
  from stream_next(2,3) reachable_stream_ok [OF stream_next(1)] show ?case
  proof (induction rule: stream_step.induct)
    case (stream_other x y st)
    then show ?case using step_signals awake_signals by fastforce
  next
    case (stream_reads st st' k s n)
    then have "awake s st'" using stream_pass_awake by (simp add: stream_ok_def)
    then show ?case using subscribe_signals(2) awake_signals by (auto simp: on_return_def)
  next
    case (stream_wakes st w s now s' st' n)
    then have "sm_phase st' \<noteq> Waiting"
      by (auto simp: stream_wait_def split: stream_wake.splits sum.splits if_splits)
    then show ?case by (simp add: awake_def)
  qed
qed

text \<open>
  C2: No wake-up is lost: when a stream that is the session's only one waits in its
  \<open>select\<close>, either a notification is ready for it, or it has written every event, the session
  has not ended, and a start timer that is still armed belongs to a session not yet started.
\<close>

theorem no_lost_wakeup:
  assumes "stream_reachable pw True x" and "sm_phase (ts_stream x) = Waiting"
  shows "se_notify (stream_session x)
    \<or> sm_cursor (ts_stream x) = length (se_events (stream_session x)) \<and> \<not> se_done (stream_session x)
       \<and> (sm_startTimer (ts_stream x) \<longrightarrow> \<not> se_started (stream_session x))"
  using reachable_awake [OF assms(1)] assms(2) by (simp add: awake_def)

section \<open>A stream at work\<close>

definition sample_stream :: "ToolDispatch \<Rightarrow> stream" where
  "sample_stream d = stream_pass 2 (session_subscribe (sample_opened d)) new_stream"

lemma sample_stream_eq:
  "sample_stream d = \<lparr> sm_cursor = 2, sm_startTimer = False, sm_phase = Waiting,
     sm_written = [(EventFrame, EncodeConnectMessage (Execute d)), (EventFrame, EncodeConnectMessage (Started d))] \<rparr>"
proof -
  have "session_snapshot 0 (session_subscribe (sample_opened d)) = ([Execute d, Started d], False, [], [], True)"
    by (simp add: session_snapshot_def session_subscribe_def sample_opened_def session_start_new)
      (simp add: new_session_def)
  then show ?thesis
    by (simp add: sample_stream_def stream_pass_def new_stream_def write_frame_def numeral_2_eq_2)
qed

lemma sample_stream_reachable:
  assumes "EncodeToolDispatch wire_format sample_request = Inr d"
  shows "stream_reachable wire_format True \<lparr> ts_system = \<lparr> ss_next = 7, ss_session = session_subscribe (sample_opened d) \<rparr>,
    ts_stream = sample_stream d \<rparr>"
proof -
  have "on_return (sample_stream d) s = s" for s by (simp add: on_return_def sample_stream_eq)
  moreover have "sm_phase new_stream = Reading" by (simp add: new_stream_def)
  note stream_reads [OF this sample_stream_def]
  ultimately show ?thesis
    using stream_next [OF stream_init [OF sample_session_reachable [OF assms]]] by metis
qed

theorem stream_delivers_in_order_witness:
  "\<exists>d. EncodeToolDispatch wire_format sample_request = Inr d
    \<and> frames EventFrame (sample_stream d) = [EncodeConnectMessage (Execute d), EncodeConnectMessage (Started d)]"
proof -
  obtain d where d: "EncodeToolDispatch wire_format sample_request = Inr d" using sample_request_dispatch by blast
  have "se_events (session_subscribe (sample_opened d)) = [Execute d, Started d]"
    by (simp add: session_subscribe_def sample_opened_fields)
  with stream_delivers_in_order [OF sample_stream_reachable [OF d]] d show ?thesis by (simp add: sample_stream_eq)
qed

theorem no_lost_wakeup_witness:
  "\<exists>d. EncodeToolDispatch wire_format sample_request = Inr d \<and> sm_phase (sample_stream d) = Waiting
    \<and> (se_notify (sample_opened d) \<or> sm_cursor (sample_stream d) = length (se_events (sample_opened d)))"
proof -
  obtain d where d: "EncodeToolDispatch wire_format sample_request = Inr d" using sample_request_dispatch by blast
  have w: "sm_phase (sample_stream d) = Waiting" by (simp add: sample_stream_eq)
  from no_lost_wakeup [OF sample_stream_reachable [OF d]] w d show ?thesis by (auto simp: session_subscribe_def)
qed

text \<open>
  The start timer and the start of the run can race: a session that has started, whose start
  the stream has not looked at yet, can be ended because its run request was not appended.
\<close>

lemma start_timer_race:
  "\<exists>x y. stream_reachable pw True x \<and> se_started (stream_session x) \<and> \<not> se_done (stream_session x)
     \<and> stream_step pw True x y \<and> se_done (stream_session y)
     \<and> se_errorMessage (stream_session y) = ''run request was not appended''"
proof -
  let ?s0 = "session_subscribe (new_session True)" and ?st = "stream_pass 0 (session_subscribe (new_session True)) new_stream"
  let ?s1 = "snd (session_start None empty_run ?s0)"
  let ?sys = "\<lambda>s. \<lparr> ss_next = 0, ss_session = s \<rparr>"
  have st: "sm_phase ?st = Waiting" "sm_startTimer ?st"
    by (simp_all add: stream_pass_def session_snapshot_def session_subscribe_def new_stream_def)
  have r0: "stream_reachable pw True \<lparr> ts_system = ?sys ?s0, ts_stream = new_stream \<rparr>"
    by (rule stream_init [OF session_init])
  have "stream_step pw True \<lparr> ts_system = ?sys ?s0, ts_stream = new_stream \<rparr>
      \<lparr> ts_system = ?sys (on_return ?st ?s0), ts_stream = ?st \<rparr>"
    by (rule stream_reads) (simp_all add: new_stream_def)
  from stream_next [OF r0 this] have r1: "stream_reachable pw True \<lparr> ts_system = ?sys ?s0, ts_stream = ?st \<rparr>"
    by (simp add: on_return_def st)
  have s1: "session_start None empty_run ?s0 = (Inr True, ?s1)"
    by (simp add: session_start_def session_subscribe_def)
  have "session_step pw (?sys ?s0) (?sys ?s1)" by (rule step_start [OF s1])
  then have "stream_step pw True \<lparr> ts_system = ?sys ?s0, ts_stream = ?st \<rparr> \<lparr> ts_system = ?sys ?s1, ts_stream = ?st \<rparr>"
    by (rule stream_other) (simp add: session_subscribe_def new_session_def)
  from stream_next [OF r1 this] have r2: "stream_reachable pw True \<lparr> ts_system = ?sys ?s1, ts_stream = ?st \<rparr>" .
  let ?s2 = "session_finish 0 [] ''invalid_argument'' ''run request was not appended'' ?s1"
  let ?st2 = "?st\<lparr>sm_startTimer := False, sm_phase := Reading\<rparr>"
  have "stream_step pw True \<lparr> ts_system = ?sys ?s1, ts_stream = ?st \<rparr>
      \<lparr> ts_system = ?sys (on_return ?st2 ?s2), ts_stream = ?st2 \<rparr>"
    by (rule stream_wakes [where w = StartExpired and now = 0]) (simp_all add: st can_wake_def stream_wait_def)
  moreover have "se_done (on_return ?st2 ?s2) \<and> se_errorMessage (on_return ?st2 ?s2) = ''run request was not appended''
      \<and> se_started ?s1 \<and> \<not> se_done ?s1"
    by (simp add: on_return_def session_finish_def Let_def session_start_def session_subscribe_def)
  ultimately show ?thesis using r2 by fastforce
qed

end
