(* ===== verification/Agent_Registry.thy ===== *)
theory Agent_Registry
  imports Session_Stream Bounded_Registry
begin

text \<open>
  The session registry of \<open>server/agent.go\<close>: the handler's map from request IDs to sessions,
  with the retention of terminal sessions, the bound on how many are kept, and the search for
  the one session a detached result belongs to. Sessions live in a store and are shared by
  address, as the code shares the pointers: one that left the map may still be streamed.
\<close>

section \<open>State\<close>

record AgentHandlerOptions =
  ao_HeartbeatInterval :: int
  ao_StartTimeout :: int
  ao_SessionRetention :: int
  ao_MaxRetainedSessions :: int
  ao_MCPDiscoveryTimeout :: int

text \<open>
  The map is a list of its entries, in the order an iteration takes them; Go fixes none, so
  \<open>step_reorder\<close> below permutes it at will. Addresses from \<open>ha_fresh\<close> on are unused.
\<close>

record agentHandler =
  ha_hasExecutor :: bool
  ha_heartbeatInterval :: int
  ha_startTimeout :: int
  ha_sessionRetention :: int
  ha_maxRetainedSessions :: int
  ha_mcpDiscoveryTimeout :: int
  ha_sessions :: "(string \<times> nat) list"
  ha_store :: "nat \<Rightarrow> agentSession"
  ha_fresh :: nat
  ha_nextMessageID :: u32

definition second :: int where "second = 1000000000"

definition positive_or :: "int \<Rightarrow> int \<Rightarrow> int" where
  "positive_or v fallback = (if v \<le> 0 then fallback else v)"

definition NewAgentHandler :: "bool \<Rightarrow> AgentHandlerOptions \<Rightarrow> agentHandler" where
  "NewAgentHandler hasExecutor options = \<lparr> ha_hasExecutor = hasExecutor,
     ha_heartbeatInterval = positive_or (ao_HeartbeatInterval options) (5 * second),
     ha_startTimeout = positive_or (ao_StartTimeout options) (10 * second),
     ha_sessionRetention = positive_or (ao_SessionRetention options) (300 * second),
     ha_maxRetainedSessions = positive_or (ao_MaxRetainedSessions options) (int defaultMaxSessions),
     ha_mcpDiscoveryTimeout = positive_or (ao_MCPDiscoveryTimeout options) (10 * second),
     ha_sessions = [], ha_store = (\<lambda>_. new_session True), ha_fresh = 0, ha_nextMessageID = 0 \<rparr>"

section \<open>Operations\<close>

definition expired :: "int \<Rightarrow> int \<Rightarrow> agentSession \<Rightarrow> bool" where
  "expired retention now s = (case session_terminalState s of
     (done', Some terminalAt) \<Rightarrow> done' \<and> \<not> now < terminalAt + retention
   | _ \<Rightarrow> False)"

definition pruneExpiredSessionsLocked :: "int \<Rightarrow> agentHandler \<Rightarrow> agentHandler" where
  "pruneExpiredSessionsLocked now h = h\<lparr>ha_sessions :=
     filter (\<lambda>(_, a). \<not> expired (ha_sessionRetention h) now (ha_store h a)) (ha_sessions h)\<rparr>"

text \<open>The terminal session that ended first; the empty ID means that there is none.\<close>

definition oldest_step :: "(nat \<Rightarrow> agentSession) \<Rightarrow> string \<times> int \<Rightarrow> string \<times> nat \<Rightarrow> string \<times> int" where
  "oldest_step store acc entry = (case session_terminalState (store (snd entry)) of
     (True, Some terminalAt) \<Rightarrow> if fst acc = [] \<or> terminalAt < snd acc then (fst entry, terminalAt) else acc
   | _ \<Rightarrow> acc)"

definition oldestTerminal :: "(nat \<Rightarrow> agentSession) \<Rightarrow> (string \<times> nat) list \<Rightarrow> string" where
  "oldestTerminal store sessions = fst (foldl (oldest_step store) ([], 0) sessions)"

definition terminal_at :: "agentSession \<Rightarrow> int option" where
  "terminal_at s = (case session_terminalState s of (True, t) \<Rightarrow> t | _ \<Rightarrow> None)"

lemma oldest_step_eq:
  "oldest_step store acc entry = (case terminal_at (store (snd entry)) of
     None \<Rightarrow> acc | Some t \<Rightarrow> if fst acc = [] \<or> t < snd acc then (fst entry, t) else acc)"
  by (auto simp: oldest_step_def terminal_at_def split: prod.split bool.split option.split)

text \<open>A session may go when it has ended; its age is when that was.\<close>

interpretation terminal_scan: oldest_scan terminal_at oldest_step oldestTerminal
  by unfold_locales (auto simp: oldest_step_eq oldestTerminal_def split: option.split)

function make_room :: "int \<Rightarrow> (nat \<Rightarrow> agentSession) \<Rightarrow> (string \<times> nat) list \<Rightarrow> (string \<times> nat) list" where
  "make_room maxSessions store sessions =
     (if maxSessions \<le> int (length sessions) then
        (let oldestRequestID = oldestTerminal store sessions in
         if oldestRequestID = [] then sessions
         else make_room maxSessions store (delete_entry oldestRequestID sessions))
      else sessions)"
  by pat_completeness auto
termination
  by (relation "measure (\<lambda>(_, _, sessions). length sessions)")
    (auto simp: delete_entry_def terminal_scan.scan_drops)

declare make_room.simps [simp del]

lemma room_limit: "xs \<noteq> [] \<Longrightarrow> length xs \<le> nat (m - 1) \<longleftrightarrow> int (length xs) < m"
  by (cases xs) auto

interpretation session_room: bounded_registry terminal_at oldest_step oldestTerminal make_room "\<lambda>maxSessions. nat (maxSessions - 1)"
proof
  show "make_room m store es = (if length es \<le> nat (m - 1) \<or> oldestTerminal store es = [] then es
      else make_room m store (filter (\<lambda>e. fst e \<noteq> oldestTerminal store es) es))" for m store es
  proof (cases "es = []")
    case False
    then show ?thesis using room_limit [of es m] by (subst make_room.simps) (auto simp: delete_entry_def Let_def)
  qed (simp add: make_room.simps oldestTerminal_def Let_def)
qed

definition makeRoomForSessionLocked :: "agentHandler \<Rightarrow> agentHandler" where
  "makeRoomForSessionLocked h =
     h\<lparr>ha_sessions := make_room (ha_maxRetainedSessions h) (ha_store h) (ha_sessions h)\<rparr>"

definition handler_session :: "int \<Rightarrow> string \<Rightarrow> agentHandler \<Rightarrow> nat \<times> agentHandler" where
  "handler_session now requestID h =
     (let h = pruneExpiredSessionsLocked now h in
      case map_of (ha_sessions h) requestID of
        Some existing \<Rightarrow> (existing, h)
      | None \<Rightarrow>
          let h = makeRoomForSessionLocked h; a = ha_fresh h in
          (a, h\<lparr>ha_store := (ha_store h)(a := new_session True), ha_fresh := a + 1,
                ha_sessions := ha_sessions h @ [(requestID, a)]\<rparr>))"

definition with_session :: "nat \<Rightarrow> (u32 \<Rightarrow> agentSession \<Rightarrow> 'a \<times> u32 \<times> agentSession) \<Rightarrow> agentHandler \<Rightarrow> 'a \<times> agentHandler" where
  "with_session a f h = (case f (ha_nextMessageID h) (ha_store h a) of
     (r, nextID, s) \<Rightarrow> (r, h\<lparr>ha_nextMessageID := nextID, ha_store := (ha_store h)(a := s)\<rparr>))"

fun match_sessions :: "ExecResultIdentity \<Rightarrow> (nat \<Rightarrow> agentSession) \<Rightarrow> nat option \<Rightarrow> nat list \<Rightarrow> nat option result" where
  "match_sessions identity store matched [] = Inr matched"
| "match_sessions identity store matched (a # as) =
     (if \<not> session_matchesToolResult identity (store a) then match_sessions identity store matched as
      else if matched \<noteq> None then Inl (Errorf ''tool result matches multiple sessions'')
      else match_sessions identity store (Some a) as)"

definition applyDetachedToolResult ::
  "protowire \<Rightarrow> string option \<Rightarrow> bool \<Rightarrow> int \<Rightarrow> ClientMessage \<Rightarrow> agentHandler \<Rightarrow> unit result \<times> agentHandler" where
  "applyDetachedToolResult pw execSuffix preferDone now message h =
     (case DecodeExecResultIdentity pw message of
        Inl e \<Rightarrow> (Inl e, h)
      | Inr identity \<Rightarrow>
          let h = pruneExpiredSessionsLocked now h; sessions = map snd (ha_sessions h) in
          (case match_sessions identity (ha_store h) None sessions of
             Inl e \<Rightarrow> (Inl e, h)
           | Inr None \<Rightarrow> (Inl (Errorf ''tool result does not match a pending session''), h)
           | Inr (Some a) \<Rightarrow>
               with_session a (session_applyToolResult pw execSuffix preferDone message) h))"

section \<open>Retention\<close>

text \<open>
  The abstract specification of making room: terminal sessions leave, those that ended first
  before the others, one that has not ended never, and no more leave than must.
\<close>

definition room_made :: "int \<Rightarrow> (nat \<Rightarrow> agentSession) \<Rightarrow> (string \<times> nat) list \<Rightarrow> (string \<times> nat) list \<Rightarrow> bool" where
  "room_made maxSessions store sessions kept' \<longleftrightarrow>
     set kept' \<subseteq> set sessions
     \<and> (\<forall>e\<in>set sessions - set kept'. \<exists>t. terminal_at (store (snd e)) = Some t
          \<and> (\<forall>e'\<in>set kept'. \<forall>t'. terminal_at (store (snd e')) = Some t' \<longrightarrow> t \<le> t'))
     \<and> (int (length kept') < maxSessions \<or> (\<forall>e\<in>set kept'. terminal_at (store (snd e)) = None))
     \<and> (kept' = sessions \<or> maxSessions \<le> int (length kept') + 1)"

lemma make_room_made:
  assumes "distinct (map fst sessions)" and "\<forall>e\<in>set sessions. fst e \<noteq> []"
  shows "room_made maxSessions store sessions (make_room maxSessions store sessions)"
proof -
  let ?left = "make_room maxSessions store sessions"
  have shrunk: "shrunk (\<lambda>e. terminal_at (store (snd e))) (nat (maxSessions - 1)) sessions ?left"
    using assms by (rule session_room.shrink_shrunk)
  have "int (length ?left) < maxSessions \<or> (\<forall>e\<in>set ?left. terminal_at (store (snd e)) = None)"
    using shrunk room_limit [of ?left maxSessions] unfolding shrunk_def by (cases "?left = []") simp_all
  moreover have "?left = sessions \<or> maxSessions \<le> int (length ?left) + 1" using shrunk unfolding shrunk_def by linarith
  ultimately show ?thesis using shrunk shrunk_subset [OF shrunk] unfolding shrunk_def room_made_def by blast
qed

section \<open>One session for a detached result\<close>

lemma match_sessions_filter:
  "match_sessions identity store matched as =
     (case (matched, filter (\<lambda>a. session_matchesToolResult identity (store a)) as) of
        (m, []) \<Rightarrow> Inr m
      | (None, [a]) \<Rightarrow> Inr (Some a)
      | _ \<Rightarrow> Inl (Errorf ''tool result matches multiple sessions''))"
  by (induction as arbitrary: matched) (auto split: option.splits list.splits)

section \<open>What a lookup does to the registry\<close>

definition registry_ok :: "agentHandler \<Rightarrow> bool" where
  "registry_ok h \<longleftrightarrow> distinct (map fst (ha_sessions h)) \<and> (\<forall>e\<in>set (ha_sessions h). fst e \<noteq> [] \<and> snd e < ha_fresh h)"

lemma registry_ok_filter:
  "registry_ok h \<Longrightarrow> registry_ok (h\<lparr>ha_sessions := filter P (ha_sessions h)\<rparr>)"
  by (auto simp: registry_ok_def distinct_map_filter)

lemma prune_ok: "registry_ok h \<Longrightarrow> registry_ok (pruneExpiredSessionsLocked now h)"
  by (simp add: pruneExpiredSessionsLocked_def registry_ok_filter)

lemma prune_fields [simp]:
  "ha_store (pruneExpiredSessionsLocked now h) = ha_store h" "ha_fresh (pruneExpiredSessionsLocked now h) = ha_fresh h"
  "ha_maxRetainedSessions (pruneExpiredSessionsLocked now h) = ha_maxRetainedSessions h"
  "ha_nextMessageID (pruneExpiredSessionsLocked now h) = ha_nextMessageID h"
  by (simp_all add: pruneExpiredSessionsLocked_def)

lemma make_room_fields [simp]:
  "ha_store (makeRoomForSessionLocked h) = ha_store h" "ha_fresh (makeRoomForSessionLocked h) = ha_fresh h"
  "ha_maxRetainedSessions (makeRoomForSessionLocked h) = ha_maxRetainedSessions h"
  by (simp_all add: makeRoomForSessionLocked_def)

lemma make_room_filter: "\<exists>P. make_room maxSessions store sessions = filter P sessions"
proof (induction maxSessions store sessions rule: make_room.induct)
  case (1 maxSessions store sessions)
  let ?i = "oldestTerminal store sessions"
  show ?case
  proof (cases "maxSessions \<le> int (length sessions) \<and> ?i \<noteq> []")
    case True
    with 1 obtain P where "make_room maxSessions store (delete_entry ?i sessions) = filter P (delete_entry ?i sessions)" by auto
    with True show ?thesis
      by (simp add: make_room.simps [of maxSessions store sessions] delete_entry_def) blast
  next
    case False
    then have "make_room maxSessions store sessions = filter (\<lambda>_. True) sessions"
      by (auto simp: make_room.simps [of maxSessions store sessions])
    then show ?thesis by blast
  qed
qed

lemma make_room_ok: "registry_ok h \<Longrightarrow> registry_ok (makeRoomForSessionLocked h)"
  using make_room_filter [of "ha_maxRetainedSessions h" "ha_store h" "ha_sessions h"]
  by (auto simp: makeRoomForSessionLocked_def registry_ok_filter)

lemma session_ok:
  assumes "registry_ok h" and "requestID \<noteq> []" and "handler_session now requestID h = (a, h')"
  shows "registry_ok h'" and "map_of (ha_sessions h') requestID = Some a"
proof -
  let ?p = "pruneExpiredSessionsLocked now h"
  have p: "registry_ok ?p" using assms(1) by (rule prune_ok)
  have "registry_ok h' \<and> map_of (ha_sessions h') requestID = Some a"
  proof (cases "map_of (ha_sessions ?p) requestID")
    case None
    let ?m = "makeRoomForSessionLocked ?p"
    have h': "ha_sessions h' = ha_sessions ?m @ [(requestID, a)]" "a = ha_fresh h" "ha_fresh h' = ha_fresh h + 1"
      using assms(3) None by (auto simp: handler_session_def Let_def)
    from make_room_filter obtain P where "ha_sessions ?m = filter P (ha_sessions ?p)"
      by (metis (no_types, lifting) makeRoomForSessionLocked_def agentHandler.select_convs(7) agentHandler.update_convs(7) agentHandler.surjective)
    with None have "requestID \<notin> fst ` set (ha_sessions ?m)" by (auto simp: map_of_eq_None_iff)
    moreover have "registry_ok ?m" using make_room_ok [OF p] .
    moreover from this have "\<forall>e\<in>set (ha_sessions ?m). snd e < ha_fresh h" by (auto simp: registry_ok_def)
    ultimately have "registry_ok h'" using h' assms(2) by (auto simp: registry_ok_def less_SucI)
    moreover have "map_of (ha_sessions ?m) requestID = None"
      using \<open>requestID \<notin> fst ` set (ha_sessions ?m)\<close> by (simp add: map_of_eq_None_iff)
    ultimately show ?thesis using h'(1) by (simp add: map_add_def)
  qed (use assms(3) p in \<open>auto simp: handler_session_def Let_def\<close>)
  then show "registry_ok h'" "map_of (ha_sessions h') requestID = Some a" by simp_all
qed

lemma terminal_at_done: "terminal_at s = Some t \<Longrightarrow> se_done s"
  by (auto simp: terminal_at_def session_terminalState_def split: bool.splits)

lemma expired_terminal: "expired retention now s \<longleftrightarrow> (\<exists>t. terminal_at s = Some t \<and> t + retention \<le> now)"
  by (auto simp: expired_def terminal_at_def session_terminalState_def split: option.splits bool.splits)

text \<open>
  C4: A session that has not ended is never lost: looking up any request ID, which drops
  expired sessions and makes room for a new one, leaves it in the registry under its own ID
  and unchanged; and the session returned is the one now registered for the ID asked for.
\<close>

theorem live_session_never_dropped:
  assumes "registry_ok h" and "requestID \<noteq> []" and "handler_session now requestID h = (a, h')"
    and "map_of (ha_sessions h) r = Some b" and "\<not> se_done (ha_store h b)"
  shows "map_of (ha_sessions h') r = Some b \<and> ha_store h' b = ha_store h b
    \<and> map_of (ha_sessions h') requestID = Some a"
proof -
  let ?p = "pruneExpiredSessionsLocked now h"
  have live: "terminal_at (ha_store h b) = None" using assms(5) terminal_at_done by (cases "terminal_at (ha_store h b)") auto
  have rb: "(r, b) \<in> set (ha_sessions h)" using assms(4) by (rule map_of_SomeD)
  then have inp: "(r, b) \<in> set (ha_sessions ?p)" and b: "b < ha_fresh h"
    using live assms(1) by (auto simp: pruneExpiredSessionsLocked_def expired_terminal registry_ok_def)
  have okp: "registry_ok ?p" using assms(1) by (rule prune_ok)
  have "(r, b) \<in> set (ha_sessions h') \<and> ha_store h' b = ha_store h b"
  proof (cases "map_of (ha_sessions ?p) requestID")
    case None
    have "room_made (ha_maxRetainedSessions h) (ha_store h) (ha_sessions ?p) (ha_sessions (makeRoomForSessionLocked ?p))"
      using make_room_made okp by (simp add: makeRoomForSessionLocked_def registry_ok_def)
    then have "\<exists>t. terminal_at (ha_store h b) = Some t" if "(r, b) \<notin> set (ha_sessions (makeRoomForSessionLocked ?p))"
      using that inp unfolding room_made_def by (metis DiffI snd_conv)
    with live have "(r, b) \<in> set (ha_sessions (makeRoomForSessionLocked ?p))" by auto
    with assms(3) None b show ?thesis by (auto simp: handler_session_def Let_def)
  qed (use assms(3) inp in \<open>auto simp: handler_session_def Let_def\<close>)
  with session_ok [OF assms(1-3)] show ?thesis by (simp add: registry_ok_def)
qed

text \<open>
  When a new session needs room, the registry keeps what its specification keeps: only
  sessions that have ended leave, those that ended first before the others, never more than
  needed, and afterwards either the bound holds with the new session or no kept session has
  ended.
\<close>

theorem registry_makes_room:
  assumes "registry_ok h"
  shows "room_made (ha_maxRetainedSessions h) (ha_store h) (ha_sessions h) (ha_sessions (makeRoomForSessionLocked h))"
  using make_room_made assms by (simp add: makeRoomForSessionLocked_def registry_ok_def)

text \<open>
  C5: A detached result goes to exactly one session: it is applied when exactly one registered
  session matches its identifiers, and then only that session changes; with none, or with more
  than one, it is refused and no session changes.
\<close>

theorem detached_result_unique:
  assumes "DecodeExecResultIdentity pw message = Inr identity"
    and "sessions = map snd (ha_sessions (pruneExpiredSessionsLocked now h))"
  shows "applyDetachedToolResult pw execSuffix preferDone now message h =
    (case filter (\<lambda>a. session_matchesToolResult identity (ha_store h a)) sessions of
       [] \<Rightarrow> (Inl (Errorf ''tool result does not match a pending session''), pruneExpiredSessionsLocked now h)
     | [a] \<Rightarrow> (case session_applyToolResult pw execSuffix preferDone message (ha_nextMessageID h) (ha_store h a) of
         (r, nextID, s) \<Rightarrow> (r, (pruneExpiredSessionsLocked now h)
           \<lparr>ha_nextMessageID := nextID, ha_store := (ha_store h)(a := s)\<rparr>))
     | _ \<Rightarrow> (Inl (Errorf ''tool result matches multiple sessions''), pruneExpiredSessionsLocked now h))"
  using assms
  by (auto simp: applyDetachedToolResult_def Let_def match_sessions_filter with_session_def split: list.split)

section \<open>A registry at work\<close>

definition sample_options :: AgentHandlerOptions where
  "sample_options = \<lparr> ao_HeartbeatInterval = 0, ao_StartTimeout = 0, ao_SessionRetention = 0,
     ao_MaxRetainedSessions = 1, ao_MCPDiscoveryTimeout = 0 \<rparr>"

definition sample_handler :: agentHandler where
  "sample_handler = snd (handler_session 0 ''r1'' (NewAgentHandler True sample_options))"

lemma sample_handler_eq:
  "ha_sessions sample_handler = [(''r1'', 0)]" "ha_store sample_handler 0 = new_session True" "registry_ok sample_handler"
proof -
  have "\<not> 1 \<le> int (length ([] :: (string \<times> nat) list))" by simp
  then have "make_room 1 st [] = []" for st by (simp add: make_room.simps)
  then have "handler_session 0 ''r1'' (NewAgentHandler True sample_options) =
      (0, (NewAgentHandler True sample_options)\<lparr>ha_store := (\<lambda>_. new_session True), ha_fresh := 1, ha_sessions := [(''r1'', 0)]\<rparr>)"
    by (simp add: handler_session_def Let_def pruneExpiredSessionsLocked_def makeRoomForSessionLocked_def
        NewAgentHandler_def sample_options_def positive_or_def fun_upd_idem)
  then show "ha_sessions sample_handler = [(''r1'', 0)]" "ha_store sample_handler 0 = new_session True"
    "registry_ok sample_handler"
    by (simp_all add: sample_handler_def registry_ok_def)
qed

theorem live_session_never_dropped_witness:
  "map_of (ha_sessions (snd (handler_session 9 ''r2'' sample_handler))) ''r1'' = Some 0"
proof -
  obtain a h' where s: "handler_session 9 ''r2'' sample_handler = (a, h')" by fastforce
  from live_session_never_dropped [OF sample_handler_eq(3) _ s, of "''r1''" 0] s show ?thesis
    by (simp add: sample_handler_eq)
qed

theorem registry_makes_room_witness:
  "room_made (ha_maxRetainedSessions sample_handler) (ha_store sample_handler) [(''r1'', 0)]
     (ha_sessions (makeRoomForSessionLocked sample_handler))"
  using registry_makes_room [OF sample_handler_eq(3)] by (simp add: sample_handler_eq)

theorem detached_result_unique_witness:
  "\<exists>d h'. EncodeToolDispatch wire_format sample_request = Inr d
    \<and> applyDetachedToolResult wire_format None False 9 sample_answer
        (sample_handler\<lparr>ha_store := (\<lambda>_. sample_opened d), ha_nextMessageID := 7\<rparr>) = (Inr (), h')
    \<and> se_toolResults (ha_store h' 0) 0 \<noteq> None"
proof -
  obtain d where d: "EncodeToolDispatch wire_format sample_request = Inr d" using sample_request_dispatch by blast
  obtain completed s2 where s2: "session_applyToolResult wire_format None False sample_answer 7 (sample_opened d) = (Inr (), 7, s2)"
    "se_events s2 = [Execute d, Started d, completed]" "se_toolResults s2 0 \<noteq> None" by (rule sample_answered [OF d])
  let ?h = "sample_handler\<lparr>ha_store := (\<lambda>_. sample_opened d), ha_nextMessageID := 7\<rparr>"
  have i: "DecodeExecResultIdentity wire_format sample_answer = Inr \<lparr> id_MessageID = 7, id_ExecID = [] \<rparr>"
    by (simp add: DecodeExecResultIdentity_def sample_answer_def execClientPayload_def Let_def wire_concrete)
  have "ha_sessions (pruneExpiredSessionsLocked 9 ?h) = [(''r1'', 0)]"
    by (simp add: pruneExpiredSessionsLocked_def sample_handler_eq expired_def session_terminalState_def
        sample_opened_fields split: option.split)
  then have m: "map snd (ha_sessions (pruneExpiredSessionsLocked 9 ?h)) = [0]" by simp
  have "session_matchesToolResult \<lparr> id_MessageID = 7, id_ExecID = [] \<rparr> (sample_opened d)"
    by (simp add: session_matchesToolResult_def sample_opened_fields)
  with detached_result_unique [OF i refl, where now = 9 and h = ?h and execSuffix = None and preferDone = False] m s2(1,3) d show ?thesis by auto
qed

end
