(* ===== verification/Agent_Handler.thy ===== *)
theory Agent_Handler
  imports Agent_Registry Go_Http Go_Sha256 "HOL-Library.Sublist"
begin

text \<open>
  The HTTP side of \<open>server/agent.go\<close>: the three procedures of the agent service, the loop that
  reads a direct run's further inputs, and the execution of a run between its session and the
  executor. A procedure answers with a response, or hands a session to \<open>streamSession\<close>; a
  goroutine it starts is part of what it returns. Random identifiers, the time and the choice
  of a \<open>select\<close> are arguments.
\<close>

section \<open>Procedures and responses\<close>

definition bidiAppendProcedure :: string where "bidiAppendProcedure = ''/aiserver.v1.BidiService/BidiAppend''"
definition directRunProcedure :: string where "directRunProcedure = ''/agent.v1.AgentService/Run''"
definition runSSEProcedure :: string where "runSSEProcedure = ''/agent.v1.AgentService/RunSSE''"

definition writeAgentHTTPError :: "(string \<times> string) list \<Rightarrow> int \<Rightarrow> string \<Rightarrow> string \<Rightarrow> http_response" where
  "writeAgentHTTPError headers status code message = \<lparr> hr_Status = status,
     hr_Headers = headers @ [(''Cache-Control'', ''no-store''), (''Content-Type'', ''application/json'')],
     hr_Body = json_object [(''code'', json_quote code), (''message'', json_quote message)] @ [newline] \<rparr>"

definition hasMediaType :: "http_request \<Rightarrow> string \<Rightarrow> bool" where
  "hasMediaType request expected \<longleftrightarrow> ParseMediaType (hq_ContentType request) = Some expected"

definition readAgentBody :: "reader \<Rightarrow> int \<Rightarrow> bytes result" where
  "readAgentBody body maximum = (case read_limited body (maximum + 1) of
     Inl e \<Rightarrow> Inl (Errorf ''read request body'')
   | Inr data \<Rightarrow> if maximum < int (length data) then Inl (Errorf ''request body is too large'') else Inr data)"

definition statusForAgentReadError :: "goerror \<Rightarrow> int" where
  "statusForAgentReadError e = (if sublist ''too large'' (error_text e) then 413 else 400)"

definition stream_headers :: "(string \<times> string) list" where
  "stream_headers = [(''Cache-Control'', ''no-cache, no-store''), (''Connect-Protocol-Version'', ''1''),
     (''Content-Type'', ''application/connect+proto'')]"

definition writeDirectRunAcknowledgement :: http_response where
  "writeDirectRunAcknowledgement = \<lparr> hr_Status = 200, hr_Headers = stream_headers, hr_Body = EncodeConnectEnd [] [] \<rparr>"

definition writeDirectMetadataCompletion :: "protowire \<Rightarrow> http_response" where
  "writeDirectMetadataCompletion pw =
     (let turnEnded = (case EncodeTurnEnded pw no_usage of Inl e \<Rightarrow> [] | Inr payload \<Rightarrow> payload) in
      \<lparr> hr_Status = 200, hr_Headers = stream_headers,
        hr_Body = EncodeConnectMessage turnEnded @ EncodeConnectEnd [] [] \<rparr>)"

definition direct_preimage :: "RunRequest \<Rightarrow> bytes" where
  "direct_preimage request = ConversationID request @ [mk_byte 0] @ UserMessageID request"

text \<open>\<open>newDirectRequestID\<close> is sixteen random bytes in hex, or the failure to read them.\<close>

definition newDirectRequestID :: "bytes option \<Rightarrow> string result" where
  "newDirectRequestID random = (case random of None \<Rightarrow> Inl (Errorf ''read random'') | Some value' \<Rightarrow> Inr (hex_encode value'))"

definition directSessionID :: "bytes option \<Rightarrow> RunRequest \<Rightarrow> string result" where
  "directSessionID random request =
     (if UserMessageID request = [] then newDirectRequestID random
      else Inr (''direct-'' @ hex_encode (sha256_sum (direct_preimage request))))"

text \<open>What a procedure did: its response, or the session it streams, and what it started.\<close>

record served =
  sv_response :: "http_response option"
  sv_stream :: "nat option"
  sv_execute :: "(nat \<times> RunRequest) option"
  sv_inputs :: "reader option"

definition respond :: "http_response \<Rightarrow> served" where
  "respond r = \<lparr> sv_response = Some r, sv_stream = None, sv_execute = None, sv_inputs = None \<rparr>"

definition fail_with :: "int \<Rightarrow> string \<Rightarrow> string \<Rightarrow> served" where
  "fail_with status code message = respond (writeAgentHTTPError [] status code message)"

definition method_not_allowed :: served where
  "method_not_allowed = respond (writeAgentHTTPError [(''Allow'', ''POST'')] 405 ''invalid_argument'' ''method not allowed'')"

definition start_session ::
  "goerror option \<Rightarrow> RunRequest \<Rightarrow> nat \<Rightarrow> agentHandler \<Rightarrow> bool result \<times> agentHandler" where
  "start_session rootErr run a h =
     with_session a (\<lambda>n s. case session_start rootErr run s of (r, s) \<Rightarrow> (r, n, s)) h"

definition serveBidiAppend ::
  "protowire \<Rightarrow> (u64 \<Rightarrow> string) \<Rightarrow> goerror option \<Rightarrow> int \<Rightarrow> http_request \<Rightarrow> agentHandler \<Rightarrow> served \<times> agentHandler" where
  "serveBidiAppend pw pff rootErr now request h =
     (if hq_Method request \<noteq> ''POST'' then (method_not_allowed, h)
      else if \<not> hasMediaType request ''application/proto'' then
        (fail_with 415 ''invalid_argument'' ''unsupported content type'', h)
      else case readAgentBody (hq_Body request) maxAgentRequestBytes of
        Inl e \<Rightarrow> (fail_with (statusForAgentReadError e) ''invalid_argument'' (error_text e), h)
      | Inr body \<Rightarrow> (case DecodeBidiAppendRequest pw pff body of
          Inl e \<Rightarrow> (fail_with 400 ''invalid_argument'' ''invalid bidi append request'', h)
        | Inr appendRequest \<Rightarrow> (case Run (Message appendRequest) of
            None \<Rightarrow> (fail_with 400 ''invalid_argument'' ''unsupported agent client message'', h)
          | Some run \<Rightarrow>
              if Kind (Message appendRequest) \<noteq> ClientMessageRun then
                (fail_with 400 ''invalid_argument'' ''unsupported agent client message'', h)
              else if \<not> ha_hasExecutor h then (fail_with 503 ''unavailable'' ''agent executor unavailable'', h)
              else (case handler_session now (RequestID appendRequest) h of (a, h) \<Rightarrow>
                (case start_session rootErr run a h of
                   (Inl e, h) \<Rightarrow> (fail_with 409 ''already_exists'' ''request ID already has a different run'', h)
                 | (Inr started, h) \<Rightarrow>
                     (\<lparr> sv_response = Some \<lparr> hr_Status = 200, hr_Headers = [(''Cache-Control'', ''no-store''),
                          (''Connect-Protocol-Version'', ''1''), (''Content-Type'', ''application/proto'')], hr_Body = [] \<rparr>,
                        sv_stream = None, sv_execute = (if started then Some (a, run) else None), sv_inputs = None \<rparr>, h))))))"

definition serveRunSSE :: "protowire \<Rightarrow> int \<Rightarrow> http_request \<Rightarrow> agentHandler \<Rightarrow> served \<times> agentHandler" where
  "serveRunSSE pw now request h =
     (if hq_Method request \<noteq> ''POST'' then (method_not_allowed, h)
      else if \<not> hasMediaType request ''application/connect+proto'' then
        (fail_with 415 ''invalid_argument'' ''unsupported content type'', h)
      else case readAgentBody (hq_Body request) (maxAgentRequestBytes + 5) of
        Inl e \<Rightarrow> (fail_with (statusForAgentReadError e) ''invalid_argument'' (error_text e), h)
      | Inr body \<Rightarrow> (case DecodeConnectRequest body maxAgentRequestBytes of
          Inl e \<Rightarrow> (fail_with 400 ''invalid_argument'' ''invalid Connect request'', h)
        | Inr requestMessage \<Rightarrow> (case DecodeBidiRequestID pw requestMessage of
            Inl e \<Rightarrow> (fail_with 400 ''invalid_argument'' ''invalid request ID'', h)
          | Inr requestID \<Rightarrow> (case handler_session now requestID h of (a, h) \<Rightarrow>
              (\<lparr> sv_response = None, sv_stream = Some a, sv_execute = None, sv_inputs = None \<rparr>, h)))))"

text \<open>A direct run after its first message was decoded.\<close>

definition serve_direct_run ::
  "goerror option \<Rightarrow> bytes option \<Rightarrow> int \<Rightarrow> reader \<Rightarrow> RunRequest \<Rightarrow> agentHandler \<Rightarrow> served \<times> agentHandler" where
  "serve_direct_run rootErr random now body run h =
     (if \<not> ha_hasExecutor h then (fail_with 503 ''unavailable'' ''agent executor unavailable'', h)
      else case directSessionID random run of
        Inl e \<Rightarrow> (fail_with 500 ''internal'' ''create local request ID'', h)
      | Inr requestID \<Rightarrow> (case handler_session now requestID h of (a, h) \<Rightarrow>
          (case start_session rootErr run a h of
             (Inl e, h) \<Rightarrow> (fail_with 409 ''already_exists'' ''run request already exists'', h)
           | (Inr started, h) \<Rightarrow>
               (\<lparr> sv_response = None, sv_stream = Some a, sv_execute = (if started then Some (a, run) else None),
                  sv_inputs = Some body \<rparr>, h))))"

definition serveDirectRun ::
  "protowire \<Rightarrow> (u64 \<Rightarrow> string) \<Rightarrow> goerror option \<Rightarrow> bytes option \<Rightarrow> string option \<Rightarrow> bool \<Rightarrow> int \<Rightarrow> http_request \<Rightarrow>
   agentHandler \<Rightarrow> served \<times> agentHandler" where
  "serveDirectRun pw pff rootErr random execSuffix preferDone now request h =
     (if hq_Method request \<noteq> ''POST'' then (method_not_allowed, h)
      else if \<not> hasMediaType request ''application/connect+proto'' then
        (fail_with 415 ''invalid_argument'' ''unsupported content type'', h)
      else case ReadConnectMessage (Some (hq_Body request)) maxAgentRequestBytes of
        Inl e \<Rightarrow> (fail_with 400 ''invalid_argument'' ''invalid Connect request'', h)
      | Inr (flag, payload, body) \<Rightarrow>
          if flag \<noteq> 0 then (fail_with 400 ''invalid_argument'' ''invalid Connect request'', h)
          else (case DecodeAgentClientMessage pw pff payload of
            Inl e \<Rightarrow> (fail_with 400 ''invalid_argument'' ''initial run message is invalid'', h)
          | Inr message \<Rightarrow> (case Kind message of
              ClientMessageExec \<Rightarrow>
                (case applyDetachedToolResult pw execSuffix preferDone now message h of
                   (Inl e, h) \<Rightarrow> (fail_with 400 ''invalid_argument'' ''tool result does not match an active run'', h)
                 | (Inr _, h) \<Rightarrow> (respond writeDirectRunAcknowledgement, h))
            | ClientMessageExecControl \<Rightarrow> (respond writeDirectRunAcknowledgement, h)
            | ClientMessageHeartbeat \<Rightarrow> (respond writeDirectRunAcknowledgement, h)
            | ClientMessageRun \<Rightarrow> (case Run message of
                None \<Rightarrow> (fail_with 400 ''invalid_argument'' ''initial run message is invalid'', h)
              | Some run \<Rightarrow>
                  if MetadataOnly run then (respond (writeDirectMetadataCompletion pw), h)
                  else serve_direct_run rootErr random now body run h)
            | _ \<Rightarrow> (fail_with 400 ''invalid_argument'' ''initial agent message is unsupported'', h))))"

definition agent_ServeHTTP ::
  "protowire \<Rightarrow> (u64 \<Rightarrow> string) \<Rightarrow> goerror option \<Rightarrow> bytes option \<Rightarrow> string option \<Rightarrow> bool \<Rightarrow> int \<Rightarrow> http_request \<Rightarrow>
   agentHandler \<Rightarrow> served \<times> agentHandler" where
  "agent_ServeHTTP pw pff rootErr random execSuffix preferDone now request h =
     (if hq_Path request = bidiAppendProcedure then serveBidiAppend pw pff rootErr now request h
      else if hq_Path request = directRunProcedure then
        serveDirectRun pw pff rootErr random execSuffix preferDone now request h
      else if hq_Path request = runSSEProcedure then serveRunSSE pw now request h
      else (respond http_NotFound, h))"

section \<open>The further inputs of a direct run\<close>

lemma read_full_length: "read_full n rd = Inr (b, rd') \<Longrightarrow> length (rd_data rd') + n = length (rd_data rd)"
  by (auto simp: read_full_def split: if_splits)

lemma read_message_shorter:
  assumes "ReadConnectMessage (Some rd) maximum = Inr (flag, payload, rd')"
  shows "length (rd_data rd') < length (rd_data rd)"
proof -
  from assms obtain header rd1 where h: "read_full connectEnvelopeHeaderBytes rd = Inr (header, rd1)"
    and b: "read_full (getUint32 (tl header)) rd1 = Inr (payload, rd')"
    by (auto simp: ReadConnectMessage_def Let_def split: if_splits sum.splits)
  from read_full_length [OF h] read_full_length [OF b] show ?thesis by (simp add: connectEnvelopeHeaderBytes_def)
qed

text \<open>
  What the loop depends on in its \<open>k\<close>-th pass: what the other goroutines did to the counter and
  the session before it, whether the request's context has ended, and the random choices.
\<close>

record input_env =
  ie_others :: "nat \<Rightarrow> u32 \<times> agentSession \<Rightarrow> u32 \<times> agentSession"
  ie_cancelled :: "nat \<Rightarrow> bool"
  ie_suffix :: "nat \<Rightarrow> string option"
  ie_preferDone :: "nat \<Rightarrow> bool"
  ie_now :: "nat \<Rightarrow> int"

definition input_failed :: "input_env \<Rightarrow> nat \<Rightarrow> string \<Rightarrow> string \<Rightarrow> u32 \<times> agentSession \<Rightarrow> u32 \<times> agentSession" where
  "input_failed env k code message x = (fst x, session_finish (ie_now env k) [] code message (snd x))"

text \<open>One message: whether the loop goes on, and what it did.\<close>

definition handle_input ::
  "protowire \<Rightarrow> input_env \<Rightarrow> nat \<Rightarrow> ClientMessage \<Rightarrow> u32 \<times> agentSession \<Rightarrow> bool \<times> u32 \<times> agentSession" where
  "handle_input pw env k message x =
     (if Kind message = ClientMessageHeartbeat \<or> Kind message = ClientMessageExecControl then (True, x)
      else if Kind message = ClientMessageExec then
        (case session_applyToolResult pw (ie_suffix env k) (ie_preferDone env k) message (fst x) (snd x) of
           (Inl e, y) \<Rightarrow> (False, input_failed env k ''invalid_argument'' ''invalid tool result'' y)
         | (Inr _, y) \<Rightarrow> (True, y))
      else (False, input_failed env k ''unimplemented'' ''additional agent messages are not implemented'' x))"

function consumeDirectInputs ::
  "protowire \<Rightarrow> (u64 \<Rightarrow> string) \<Rightarrow> input_env \<Rightarrow> nat \<Rightarrow> reader \<Rightarrow> u32 \<times> agentSession \<Rightarrow> u32 \<times> agentSession" where
  "consumeDirectInputs pw pff env k body x =
     (let x = ie_others env k x in
      case ReadConnectMessage (Some body) maxAgentRequestBytes of
        Inl e \<Rightarrow>
          if error_root e = IO_EOF \<or> ie_cancelled env k then x
          else input_failed env k ''invalid_argument'' ''invalid client stream frame'' x
      | Inr (flag, payload, body) \<Rightarrow>
          if ie_cancelled env k then x
          else if flag = 2 then x
          else (case DecodeAgentClientMessage pw pff payload of
            Inl e \<Rightarrow> input_failed env k ''invalid_argument'' ''invalid agent client message'' x
          | Inr message \<Rightarrow> (case handle_input pw env k message x of
              (False, x) \<Rightarrow> x
            | (True, x) \<Rightarrow> consumeDirectInputs pw pff env (k + 1) body x)))"
  by pat_completeness auto
termination
  by (relation "measure (\<lambda>(pw, pff, env, k, body, x). length (rd_data body))") (auto dest: read_message_shorter)

declare consumeDirectInputs.simps [simp del]

text \<open>The same on the messages themselves: each is handled, in order, until one ends the loop.\<close>

fun handle_inputs ::
  "protowire \<Rightarrow> input_env \<Rightarrow> nat \<Rightarrow> ClientMessage list \<Rightarrow> u32 \<times> agentSession \<Rightarrow> u32 \<times> agentSession" where
  "handle_inputs pw env k [] x = ie_others env k x"
| "handle_inputs pw env k (m # ms) x =
     (case handle_input pw env k m (ie_others env k x) of
        (False, x) \<Rightarrow> x
      | (True, x) \<Rightarrow> handle_inputs pw env (k + 1) ms x)"

section \<open>Executing a run\<close>

text \<open>
  What a run's goroutine works on: its session, the counter, the usage reported so far, the
  number of the next result channel and the random suffixes still to be drawn.
\<close>

record run_world =
  rw_session :: agentSession
  rw_next :: u32
  rw_usage :: TokenUsage
  rw_chan :: nat
  rw_random :: "string option list"

definition draw :: "run_world \<Rightarrow> string option" where
  "draw w = (case rw_random w of [] \<Rightarrow> None | r # _ \<Rightarrow> r)"

definition drawn :: "u32 \<Rightarrow> agentSession \<Rightarrow> run_world \<Rightarrow> run_world" where
  "drawn n s w = w\<lparr>rw_next := n, rw_session := s, rw_chan := rw_chan w + 1, rw_random := tl (rw_random w)\<rparr>"

definition publish_event :: "bytes result \<Rightarrow> run_world \<Rightarrow> unit result \<times> run_world" where
  "publish_event r w = (case r of
     Inl e \<Rightarrow> (Inl e, w)
   | Inr payload \<Rightarrow> (case session_publish payload (rw_session w) of (res, s) \<Rightarrow> (res, w\<lparr>rw_session := s\<rparr>)))"

definition on_agent_event :: "protowire \<Rightarrow> run_world emitter" where
  "on_agent_event pw event w = (case ae_Kind event of
     AgentEventTextDelta \<Rightarrow> publish_event (EncodeTextDelta pw (ae_Text event)) w
   | AgentEventReasoningDelta \<Rightarrow> publish_event (EncodeThinkingDelta pw (ae_Text event)) w
   | AgentEventToolCall \<Rightarrow>
       (case session_openTool pw (draw w) (ae_Tool event) (Some (rw_chan w)) (rw_next w) (rw_session w) of
          (r, n, s) \<Rightarrow> (r, drawn n s w))
   | AgentEventUsage \<Rightarrow> (Inr (), w\<lparr>rw_usage := ae_Usage event\<rparr>)
   | AgentEventUnknown \<Rightarrow> (Inl (Errorf ''unsupported agent event''), w))"

text \<open>The whole of \<open>enrichRunWithMCP\<close>; \<open>others\<close> is what happens during the wait.\<close>

definition enrichRunWithMCP ::
  "protowire \<Rightarrow> (run_world \<Rightarrow> run_world) \<Rightarrow> discovery_wake \<Rightarrow> discovery_wake \<Rightarrow> RunRequest \<Rightarrow> run_world \<Rightarrow>
   RunRequest result \<times> run_world" where
  "enrichRunWithMCP pw others wake again request w =
     (case begin_discovery pw (draw w) (rw_chan w) request (rw_next w) (rw_session w) of
        (Inl e, n, s) \<Rightarrow> (Inl e, drawn n s w)
      | (Inr (NoDiscovery run), n, s) \<Rightarrow> (Inr run, w)
      | (Inr (Discovering pending), n, s) \<Rightarrow>
          let w = others (drawn n s w) in
          (case end_discovery request pending wake again (rw_session w) of
             (r, s) \<Rightarrow> (r, w\<lparr>rw_session := s\<rparr>)))"

definition connect_codes :: "string list" where
  "connect_codes = [''canceled'', ''unknown'', ''invalid_argument'', ''deadline_exceeded'', ''not_found'',
     ''already_exists'', ''permission_denied'', ''resource_exhausted'', ''failed_precondition'', ''aborted'',
     ''out_of_range'', ''unimplemented'', ''internal'', ''unavailable'', ''data_loss'', ''unauthenticated'']"

definition providerConnectErrorCode :: "goerror \<Rightarrow> string" where
  "providerConnectErrorCode e = (case error_root e of
     Provider_Error code status retryable \<Rightarrow> if code \<in> set connect_codes then code else ''internal''
   | _ \<Rightarrow> ''internal'')"

definition context_ended :: "agentSession \<Rightarrow> bool" where
  "context_ended s = (case se_ctx s of Some (Some e) \<Rightarrow> True | _ \<Rightarrow> False)"

definition run_failed :: "int \<Rightarrow> goerror \<Rightarrow> string \<Rightarrow> string \<Rightarrow> run_world \<Rightarrow> run_world" where
  "run_failed now e code message w =
     (let s = rw_session w in
      w\<lparr>rw_session :=
        if error_root e = Context_Canceled \<and> context_ended s then session_finish now [] ''canceled'' ''request canceled'' s
        else session_finish now [] code message s\<rparr>)"

type_synonym executor = "RunRequest \<Rightarrow> run_world emitter \<Rightarrow> run_world \<Rightarrow> unit result \<times> run_world"

definition handler_execute ::
  "protowire \<Rightarrow> executor \<Rightarrow> (run_world \<Rightarrow> run_world) \<Rightarrow> discovery_wake \<Rightarrow> discovery_wake \<Rightarrow> int \<Rightarrow> RunRequest \<Rightarrow>
   run_world \<Rightarrow> run_world" where
  "handler_execute pw executor others wake again now request w =
     (case enrichRunWithMCP pw others wake again request w of
        (Inl e, w) \<Rightarrow> run_failed now e ''internal'' ''MCP discovery failed'' w
      | (Inr enriched, w) \<Rightarrow>
          (case executor enriched (on_agent_event pw) (w\<lparr>rw_usage := no_usage\<rparr>) of
             (Inl e, w) \<Rightarrow> run_failed now e (providerConnectErrorCode e) ''provider request failed'' w
           | (Inr _, w) \<Rightarrow> (case EncodeTurnEnded pw (rw_usage w) of
               Inl e \<Rightarrow> w\<lparr>rw_session := session_finish now [] ''internal'' ''provider response invalid'' (rw_session w)\<rparr>
             | Inr turnEnded \<Rightarrow> w\<lparr>rw_session := session_finish now turnEnded [] [] (rw_session w)\<rparr>)))"

section \<open>Inputs are handled in order\<close>

definition input_stream :: "bytes list \<Rightarrow> reader" where
  "input_stream payloads = \<lparr> rd_data = concat (map EncodeConnectMessage payloads), rd_err = IO_EOF \<rparr>"

lemma read_input:
  assumes "length p \<le> 4194304"
  shows "ReadConnectMessage (Some (input_stream (p # ps))) maxAgentRequestBytes = Inr (0, p, input_stream ps)"
  using read_connect_frame [of maxAgentRequestBytes p "concat (map EncodeConnectMessage ps)" IO_EOF] assms
  by (simp add: input_stream_def maxAgentRequestBytes_def)

lemma read_no_input: "ReadConnectMessage (Some (input_stream [])) maxAgentRequestBytes = Inl IO_EOF"
  by (simp add: input_stream_def ReadConnectMessage_def read_full_def maxAgentRequestBytes_def connectEnvelopeHeaderBytes_def)

text \<open>
  The further messages of a direct run are handled one by one: reading the frames of any
  list of messages has exactly the effect of handling those messages in order, each once, up
  to the first that is refused, whatever other goroutines do to the session in between.
\<close>

theorem direct_inputs_in_order:
  assumes "list_all2 (\<lambda>p m. length p \<le> 4194304 \<and> DecodeAgentClientMessage pw pff p = Inr m) payloads messages"
    and "\<forall>i. \<not> ie_cancelled env i"
  shows "consumeDirectInputs pw pff env k (input_stream payloads) x = handle_inputs pw env k messages x"
  using assms(1)
proof (induction payloads messages arbitrary: k x rule: list_all2_induct)
  case Nil
  show ?case by (simp add: consumeDirectInputs.simps [of _ _ _ _ "input_stream []"] read_no_input)
next
  case (Cons p ps m ms)
  obtain b y where h: "handle_input pw env k m (ie_others env k x) = (b, y)"
    by (cases "handle_input pw env k m (ie_others env k x)")
  with Cons assms(2) show ?case
    by (cases b) (simp_all add: consumeDirectInputs.simps [of _ _ _ _ "input_stream (p # ps)"] read_input)
qed

definition quiet_env :: input_env where
  "quiet_env = \<lparr> ie_others = (\<lambda>_ x. x), ie_cancelled = (\<lambda>_. False), ie_suffix = (\<lambda>_. None),
     ie_preferDone = (\<lambda>_. False), ie_now = (\<lambda>_. 0) \<rparr>"

theorem direct_inputs_in_order_witness:
  "\<exists>d x. EncodeToolDispatch wire_format sample_request = Inr d
    \<and> consumeDirectInputs wire_format (\<lambda>_. ''0'') quiet_env 0 (input_stream [Raw sample_answer]) (7, sample_opened d) = x
    \<and> se_toolResults (snd x) 0 \<noteq> None"
proof -
  obtain d where d: "EncodeToolDispatch wire_format sample_request = Inr d" using sample_request_dispatch by blast
  obtain completed s2 where s2: "session_applyToolResult wire_format None False sample_answer 7 (sample_opened d) = (Inr (), 7, s2)"
    "se_events s2 = [Execute d, Started d, completed]" "se_toolResults s2 0 \<noteq> None" by (rule sample_answered [OF d])
  have "length (Raw sample_answer) \<le> 4194304" by (simp add: sample_answer_def wire_concrete)
  moreover have "DecodeAgentClientMessage wire_format (\<lambda>_. ''0'') (Raw sample_answer) = Inr sample_answer"
    by (simp add: sample_answer_def DecodeAgentClientMessage_def decodeClientMessage_def client_kinds_def wire_concrete)
  moreover have "Kind sample_answer = ClientMessageExec" by (simp add: sample_answer_def)
  ultimately have "consumeDirectInputs wire_format (\<lambda>_. ''0'') quiet_env 0 (input_stream [Raw sample_answer]) (7, sample_opened d)
      = (7, s2)"
    using direct_inputs_in_order [of wire_format "\<lambda>_. ''0''" "[Raw sample_answer]" "[sample_answer]" quiet_env 0 "(7, sample_opened d)"] s2(1)
    by (simp add: quiet_env_def handle_input_def)
  with d s2(3) show ?thesis by auto
qed

section \<open>A run ends its session\<close>

lemma connect_code: "providerConnectErrorCode e \<in> set connect_codes"
  by (cases "error_root e") (simp_all add: providerConnectErrorCode_def connect_codes_def)

definition code_ok :: "agentSession \<Rightarrow> bool" where
  "code_ok s \<longleftrightarrow> se_done s \<longrightarrow> se_errorCode s \<in> insert [] (set connect_codes)"

text \<open>Executors reach the session only through the callback, or by what runs beside them.\<close>

definition executor_ok :: "executor \<Rightarrow> bool" where
  "executor_ok executor \<longleftrightarrow> (\<forall>run emit w.
     (\<forall>event v. code_ok (rw_session v) \<longrightarrow> code_ok (rw_session (snd (emit event v)))) \<longrightarrow>
     code_ok (rw_session w) \<longrightarrow> code_ok (rw_session (snd (executor run emit w))))"

definition same_end :: "agentSession \<Rightarrow> agentSession \<Rightarrow> bool" where
  "same_end s s' \<longleftrightarrow> se_done s' = se_done s \<and> se_errorCode s' = se_errorCode s"

lemma same_end_ok: "same_end s s' \<Longrightarrow> code_ok s \<Longrightarrow> code_ok s'"
  by (simp add: same_end_def code_ok_def)

lemma publish_end: "session_publish payload s = (r, s') \<Longrightarrow> same_end s s'"
  by (auto simp: session_publish_def same_end_def split: if_splits option.splits)

lemma open_end: "session_openTool pw execSuffix call chan n s = (r, n', s') \<Longrightarrow> same_end s s'"
  by (auto simp: session_openTool_def Let_def same_end_def split: option.splits if_splits prod.splits sum.splits)

lemma begin_end: "begin_discovery pw execSuffix chan request n s = (r, n', s') \<Longrightarrow> same_end s s'"
  by (erule begin_discovery_cases) (simp_all add: same_end_def)

lemma end_end: "end_discovery request pending wake again s = (r, s') \<Longrightarrow> same_end s s'"
  by (auto simp: end_discovery_def clearMCPDiscovery_def receive_discovery_def completeMCPDiscovery_def same_end_def
      split: discovery_wake.splits if_splits option.splits)

lemma publish_event_end: "publish_event r w = (res, w') \<Longrightarrow> same_end (rw_session w) (rw_session w')"
  using publish_end by (auto simp: publish_event_def same_end_def split: sum.splits prod.splits)

lemma event_end: "on_agent_event pw event w = (r, w') \<Longrightarrow> same_end (rw_session w) (rw_session w')"
  using publish_event_end open_end
  by (auto simp: on_agent_event_def drawn_def split: AgentEventKind.splits prod.splits)
    (simp_all add: same_end_def)

lemma finish_code: "code_ok s \<Longrightarrow> code \<in> insert [] (set connect_codes) \<Longrightarrow>
    se_done (session_finish now payload code message s)
    \<and> se_errorCode (session_finish now payload code message s) \<in> insert [] (set connect_codes)"
  by (simp add: session_finish_def code_ok_def Let_def)

lemma run_failed_ends:
  assumes "code_ok (rw_session v)" and "code \<in> set connect_codes"
  shows "se_done (rw_session (run_failed now e code msg v))
    \<and> se_errorCode (rw_session (run_failed now e code msg v)) \<in> insert [] (set connect_codes)"
proof -
  have "''canceled'' \<in> set connect_codes" by (simp add: connect_codes_def)
  with assms finish_code show ?thesis by (simp add: run_failed_def Let_def)
qed

lemma enrich_ok:
  assumes "enrichRunWithMCP pw others wake again request w = (r, w')" and "code_ok (rw_session w)"
    and "\<And>v. code_ok (rw_session v) \<Longrightarrow> code_ok (rw_session (others v))"
  shows "code_ok (rw_session w')"
proof -
  obtain r0 n s where b: "begin_discovery pw (draw w) (rw_chan w) request (rw_next w) (rw_session w) = (r0, n, s)"
    by (cases "begin_discovery pw (draw w) (rw_chan w) request (rw_next w) (rw_session w)")
  have d: "code_ok (rw_session (drawn n s w))" using same_end_ok [OF begin_end [OF b] assms(2)] by (simp add: drawn_def)
  show ?thesis
  proof (cases r0)
    case (Inl e)
    with assms(1) b d show ?thesis by (simp add: enrichRunWithMCP_def)
  next
    case (Inr start)
    show ?thesis
    proof (cases start)
      case (NoDiscovery run)
      with assms(1,2) b Inr show ?thesis by (simp add: enrichRunWithMCP_def)
    next
      case (Discovering pending)
      let ?v = "others (drawn n s w)"
      obtain r1 s1 where e: "end_discovery request pending wake again (rw_session ?v) = (r1, s1)"
        by (cases "end_discovery request pending wake again (rw_session ?v)")
      have "code_ok s1" using same_end_ok [OF end_end [OF e]] assms(3) d by blast
      with assms(1) b Inr Discovering e show ?thesis by (auto simp: enrichRunWithMCP_def Let_def)
    qed
  qed
qed

text \<open>
  C3: A run always ends its session, whatever the executor returns and however the discovery
  of MCP tools goes, and the code it ends with is empty or one of the codes of the Connect
  protocol, whatever code the provider reported.
\<close>

theorem execute_ends_session:
  assumes "executor_ok executor" and "\<And>v. code_ok (rw_session v) \<Longrightarrow> code_ok (rw_session (others v))"
    and "code_ok (rw_session w)"
  shows "se_done (rw_session (handler_execute pw executor others wake again now request w))
    \<and> se_errorCode (rw_session (handler_execute pw executor others wake again now request w)) \<in> insert [] (set connect_codes)"
proof -
  have internal: "''internal'' \<in> set connect_codes" by (simp add: connect_codes_def)
  obtain r w1 where e: "enrichRunWithMCP pw others wake again request w = (r, w1)"
    by (cases "enrichRunWithMCP pw others wake again request w")
  have ok1: "code_ok (rw_session w1)" using enrich_ok [OF e assms(3,2)] by simp
  show ?thesis
  proof (cases r)
    case (Inl e1)
    with run_failed_ends [OF ok1 internal] show ?thesis by (simp add: handler_execute_def e)
  next
    case (Inr enriched)
    obtain r2 w2 where x: "executor enriched (on_agent_event pw) (w1\<lparr>rw_usage := no_usage\<rparr>) = (r2, w2)"
      by (cases "executor enriched (on_agent_event pw) (w1\<lparr>rw_usage := no_usage\<rparr>)")
    have "code_ok (rw_session (snd (on_agent_event pw event v)))" if "code_ok (rw_session v)" for event v
      using that event_end [of pw event v] same_end_ok by (cases "on_agent_event pw event v") auto
    with assms(1) ok1 have "code_ok (rw_session (snd (executor enriched (on_agent_event pw) (w1\<lparr>rw_usage := no_usage\<rparr>))))"
      by (simp add: executor_ok_def)
    then have ok2: "code_ok (rw_session w2)" by (simp add: x)
    show ?thesis
    proof (cases r2)
      case (Inl e2)
      with run_failed_ends [OF ok2 connect_code] Inr x show ?thesis by (simp add: handler_execute_def e)
    next
      case ok: (Inr _)
      with finish_code [OF ok2] internal Inr x show ?thesis
        by (cases "EncodeTurnEnded pw (rw_usage w2)") (simp_all add: handler_execute_def e)
    qed
  qed
qed

definition sample_world :: run_world where
  "sample_world = \<lparr> rw_session = snd (session_start None empty_run (new_session True)), rw_next = 0, rw_usage = no_usage,
     rw_chan = 0, rw_random = [] \<rparr>"

theorem execute_ends_session_witness:
  "se_done (rw_session (handler_execute wire_format
     (\<lambda>run emit w. (Inl (Provider_Error ''odd_code'' 500 False), snd (emit \<lparr> ae_Kind = AgentEventTextDelta, ae_Text = ''hi'',
        ae_Usage = no_usage, ae_Tool = sample_call \<rparr> w))) (\<lambda>v. v) WakeResult WakeResult 5 empty_run sample_world))"
proof -
  let ?x = "\<lambda>run emit w. (Inl (Provider_Error ''odd_code'' 500 False), snd (emit \<lparr> ae_Kind = AgentEventTextDelta,
      ae_Text = ''hi'', ae_Usage = no_usage, ae_Tool = sample_call \<rparr> w)) :: unit result \<times> run_world"
  have "executor_ok ?x" by (simp add: executor_ok_def)
  moreover have "code_ok (rw_session sample_world)"
    by (simp add: sample_world_def code_ok_def session_start_new)
  ultimately show ?thesis using execute_ends_session [of ?x "\<lambda>v. v" sample_world] by simp
qed

section \<open>A request starts at most one run\<close>

lemma with_session_fields [simp]:
  "with_session a f h = (r, h') \<Longrightarrow> ha_sessions h' = ha_sessions h \<and> ha_fresh h' = ha_fresh h"
  by (auto simp: with_session_def split: prod.splits)

lemma start_session_true:
  assumes "start_session rootErr run a h = (Inr True, h')"
  shows "\<not> se_started (ha_store h a)" and "se_started (ha_store h' a)" and "se_run (ha_store h' a) = run"
    and "\<not> se_done (ha_store h' a)"
  using assms by (auto simp: start_session_def with_session_def session_start_def signalLocked_def
      split: prod.splits if_splits)

lemma handler_session_store:
  assumes "handler_session now requestID h = (a, h')"
  shows "a = ha_fresh h \<or> ha_store h' a = ha_store h a"
  using assms by (auto simp: handler_session_def Let_def split: option.splits)

lemma start_once:
  assumes "handler_session now requestID h = (a, h1)" and "start_session rootErr run a h1 = (Inr started, h2)" and started
  shows "(a = ha_fresh h \<or> \<not> se_started (ha_store h a)) \<and> se_started (ha_store h2 a) \<and> se_run (ha_store h2 a) = run
    \<and> \<not> se_done (ha_store h2 a)"
  using handler_session_store [OF assms(1)] start_session_true [of rootErr run a h1 h2] assms(2,3) by auto

definition started_once :: "agentHandler \<Rightarrow> served \<Rightarrow> agentHandler \<Rightarrow> bool" where
  "started_once h sv h' \<longleftrightarrow>
     (\<forall>a run. sv_execute sv = Some (a, run) \<longrightarrow> (a = ha_fresh h \<or> \<not> se_started (ha_store h a))
        \<and> se_started (ha_store h' a) \<and> se_run (ha_store h' a) = run \<and> \<not> se_done (ha_store h' a))
     \<and> (\<forall>r. sv_response sv = Some r \<and> hr_Status r \<noteq> 200 \<longrightarrow> sv_execute sv = None \<and> sv_stream sv = None)"

lemma responds_only [simp]: "started_once h (respond r) h'" "started_once h (fail_with status code message) h'"
  "started_once h method_not_allowed h'"
  by (simp_all add: started_once_def respond_def fail_with_def method_not_allowed_def)

lemma served_once:
  assumes "handler_session now requestID h = (a, h1)" and "start_session rootErr run a h1 = (Inr started, h')"
    and "\<forall>r. resp = Some r \<longrightarrow> hr_Status r = 200"
  shows "started_once h \<lparr> sv_response = resp, sv_stream = st, sv_execute = (if started then Some (a, run) else None),
    sv_inputs = i \<rparr> h'"
  using start_once [OF assms(1,2)] assms(3) by (auto simp: started_once_def)

lemmas served_starts = served_once [where started = True, simplified] served_once [where started = False, simplified]

lemma bidi_append_once:
  assumes "serveBidiAppend pw pff rootErr now request h = (sv, h')"
  shows "started_once h sv h'"
  using assms
  by (auto simp: serveBidiAppend_def intro: served_starts split: if_splits sum.splits option.splits prod.splits)

lemma direct_run_once:
  assumes "serve_direct_run rootErr random now body run h = (sv, h')"
  shows "started_once h sv h'"
  using assms
  by (auto simp: serve_direct_run_def intro: served_starts split: if_splits sum.splits prod.splits)

lemma serve_direct_once:
  assumes "serveDirectRun pw pff rootErr random execSuffix preferDone now request h = (sv, h')"
  shows "started_once h sv h'"
  using assms direct_run_once
  by (auto simp: serveDirectRun_def split: if_splits sum.splits prod.splits ClientMessageKind.splits option.splits)

lemma run_sse_once:
  assumes "serveRunSSE pw now request h = (sv, h')"
  shows "started_once h sv h'"
  using assms
  by (auto simp: serveRunSSE_def started_once_def respond_def fail_with_def method_not_allowed_def
      split: if_splits sum.splits prod.splits)

text \<open>
  C6: A run is started at most once: a request that starts a run finds the session new or not
  started, and leaves it started with that very run; and a request that is answered with an
  error starts no run and opens no stream.
\<close>

theorem run_started_at_most_once:
  assumes "agent_ServeHTTP pw pff rootErr random execSuffix preferDone now request h = (sv, h')"
  shows "(\<forall>a run. sv_execute sv = Some (a, run) \<longrightarrow> (a = ha_fresh h \<or> \<not> se_started (ha_store h a))
      \<and> se_started (ha_store h' a) \<and> se_run (ha_store h' a) = run \<and> \<not> se_done (ha_store h' a))
    \<and> (\<forall>r. sv_response sv = Some r \<and> hr_Status r \<noteq> 200 \<longrightarrow> sv_execute sv = None \<and> sv_stream sv = None)"
proof -
  have "started_once h sv h'"
    using assms bidi_append_once serve_direct_once run_sse_once
    by (auto simp: agent_ServeHTTP_def split: if_splits)
  then show ?thesis by (simp add: started_once_def)
qed

text \<open>A direct run posted to a handler that has no session yet.\<close>

definition sample_post :: http_request where
  "sample_post = \<lparr> hq_Method = ''POST'', hq_Path = directRunProcedure,
     hq_ContentType = ''application/connect+proto; a=1;'', hq_Body = input_stream [sample_run] \<rparr>"

lemma sample_post_served:
  "\<exists>sv h' run. agent_ServeHTTP wire_format pff None (Some [CHR ''x'']) None False 0 sample_post sample_handler = (sv, h')
     \<and> sv_execute sv = Some (1, run) \<and> sv_stream sv = Some 1"
proof -
  obtain run where run: "DecodeAgentClientMessage wire_format pff sample_run = Inr \<lparr> Kind = ClientMessageRun, Run = Some run,
      Raw = sample_run \<rparr>" and r: "MetadataOnly run = False" "UserMessageID run = []"
    using sample_run_decoded by fastforce
  have len: "length sample_run \<le> 4194304" by (simp add: sample_run_def Let_def wire_concrete)
  have paths: "directRunProcedure \<noteq> bidiAppendProcedure" by (simp add: directRunProcedure_def bidiAppendProcedure_def)
  have media: "hasMediaType sample_post ''application/connect+proto''"
    by (simp add: hasMediaType_def sample_post_def parse_media_types)
  obtain h1 where h1: "handler_session 0 (hex_encode ''x'') sample_handler = (1, h1)" "ha_store h1 1 = new_session True"
  proof -
    have "hex_encode ''x'' = ''78''" by code_simp
    moreover have "ha_sessions (pruneExpiredSessionsLocked 0 sample_handler) = [(''r1'', 0)]"
      by (simp add: pruneExpiredSessionsLocked_def sample_handler_eq expired_def session_terminalState_def new_session_def)
    moreover have "ha_fresh sample_handler = 1"
      by (simp add: sample_handler_def handler_session_def Let_def pruneExpiredSessionsLocked_def makeRoomForSessionLocked_def
          NewAgentHandler_def)
    ultimately show thesis using that by (auto simp: handler_session_def Let_def)
  qed
  have "\<exists>h2. start_session None run 1 h1 = (Inr True, h2)"
    by (simp add: start_session_def with_session_def h1(2) session_start_new del: One_nat_def)
  moreover have "ha_hasExecutor sample_handler"
    by (simp add: sample_handler_def handler_session_def Let_def pruneExpiredSessionsLocked_def makeRoomForSessionLocked_def
        NewAgentHandler_def)
  moreover have "directSessionID (Some ''x'') run = Inr (hex_encode ''x'')" by (simp add: directSessionID_def newDirectRequestID_def r)
  ultimately obtain h2 where d: "serve_direct_run None (Some ''x'') 0 (input_stream []) run sample_handler =
      (\<lparr> sv_response = None, sv_stream = Some 1, sv_execute = Some (1, run), sv_inputs = Some (input_stream []) \<rparr>, h2)"
    using h1(1) by (auto simp: serve_direct_run_def)
  have "agent_ServeHTTP wire_format pff None (Some ''x'') None False 0 sample_post sample_handler
      = serve_direct_run None (Some ''x'') 0 (input_stream []) run sample_handler"
    using media paths read_input [OF len, of "[]"] run r(1)
    by (simp add: agent_ServeHTTP_def serveDirectRun_def) (simp add: sample_post_def)
  with d show ?thesis by auto
qed

theorem run_started_at_most_once_witness:
  "\<exists>sv h' run. agent_ServeHTTP wire_format (\<lambda>_. ''0'') None (Some ''x'') None False 0 sample_post sample_handler = (sv, h')
     \<and> sv_execute sv = Some (1, run) \<and> se_started (ha_store h' 1) \<and> se_run (ha_store h' 1) = run"
proof -
  obtain sv h' run where s: "agent_ServeHTTP wire_format (\<lambda>_. ''0'') None (Some ''x'') None False 0 sample_post sample_handler
      = (sv, h')" "sv_execute sv = Some (1, run)" using sample_post_served by blast
  from run_started_at_most_once [OF s(1)] s show ?thesis by auto
qed

section \<open>Direct sessions\<close>

text \<open>
  The name of a direct session tells runs apart: as the conversation's identifier holds no
  NUL byte, the digest is taken of different texts for different pairs of conversation and
  user message, so a shared name of two such runs is a collision of SHA-256.
\<close>

lemma direct_session_names:
  assumes "directSessionID random r1 = directSessionID random' r2"
    and "UserMessageID r1 \<noteq> []" and "UserMessageID r2 \<noteq> []"
    and "mk_byte 0 \<notin> set (ConversationID r1)" and "mk_byte 0 \<notin> set (ConversationID r2)"
  shows "(ConversationID r1 = ConversationID r2 \<and> UserMessageID r1 = UserMessageID r2)
    \<or> (direct_preimage r1 \<noteq> direct_preimage r2
        \<and> hex_encode (sha256_sum (direct_preimage r1)) = hex_encode (sha256_sum (direct_preimage r2)))"
proof (cases "direct_preimage r1 = direct_preimage r2")
  case True
  then have "takeWhile (\<lambda>c. c \<noteq> mk_byte 0) (direct_preimage r1) = takeWhile (\<lambda>c. c \<noteq> mk_byte 0) (direct_preimage r2)"
    by simp
  moreover have "takeWhile (\<lambda>c. c \<noteq> mk_byte 0) (direct_preimage r) = ConversationID r"
    if "mk_byte 0 \<notin> set (ConversationID r)" for r
    unfolding direct_preimage_def using that by (induction "ConversationID r") (auto simp: takeWhile_append)
  ultimately have "ConversationID r1 = ConversationID r2" using assms(4,5) by simp
  with True show ?thesis by (simp add: direct_preimage_def)
next
  case False
  with assms(1-3) show ?thesis by (simp add: directSessionID_def)
qed

end
