(* ===== verification/Compat.thy ===== *)
theory Compat
  imports Model_Catalog Config_Validate Agent_Handler
begin

text \<open>
  \<open>server/compat.go\<close>, \<open>server/health.go\<close> and the handlers of \<open>server/server.go\<close> and
  \<open>server/agent.go\<close> in front of them: the unary endpoints the client calls besides the agent,
  the health check, the token check, and what the server insists on before it listens.
\<close>

section \<open>Procedures\<close>

datatype compatibilityProcedure =
    procedureEmpty | procedureAvailableModels | procedureUsableModels | procedureDefaultModel
  | procedureGetMe | procedurePrivacy | procedureServerConfig

definition compatibilityProcedures :: "(string \<times> compatibilityProcedure) list" where
  "compatibilityProcedures = [
     (''/aiserver.v1.AiService/AvailableModels'', procedureAvailableModels),
     (''/aiserver.v1.AiService/GetUsableModels'', procedureUsableModels),
     (''/aiserver.v1.AiService/GetDefaultModelForCli'', procedureDefaultModel),
     (''/aiserver.v1.DashboardService/GetMe'', procedureGetMe),
     (''/aiserver.v1.DashboardService/GetUserPrivacyMode'', procedurePrivacy),
     (''/aiserver.v1.AiService/GetServerConfig'', procedureServerConfig),
     (''/aiserver.v1.ServerConfigService/GetServerConfig'', procedureServerConfig),
     (''/aiserver.v1.DashboardService/GetTeamAdminSettingsOrEmptyIfNotInTeam'', procedureEmpty),
     (''/aiserver.v1.DashboardService/ListMarketplaces'', procedureEmpty),
     (''/aiserver.v1.AnalyticsService/TrackEvents'', procedureEmpty),
     (''/aiserver.v1.AnalyticsService/BootstrapStatsig'', procedureEmpty),
     (''/aiserver.v1.AnalyticsService/GetFirstWindowStatsigDecision'', procedureEmpty),
     (''/aiserver.v1.DashboardService/GetCurrentPeriodUsage'', procedureEmpty),
     (''/aiserver.v1.DashboardService/GetUsageLimitStatusAndActiveGrants'', procedureEmpty),
     (''/aiserver.v1.DashboardService/IsOnNewPricing'', procedureEmpty),
     (''/aiserver.v1.DashboardService/GetManagedSkills'', procedureEmpty),
     (''/aiserver.v1.DashboardService/GetEffectiveUserPlugins'', procedureEmpty),
     (''/aiserver.v1.AnalyticsService/SubmitLogs'', procedureEmpty),
     (''/aiserver.v1.DashboardService/RegisterMarketplaceAndPlugins'', procedureEmpty),
     (''/aiserver.v1.DashboardService/GetCliDownloadUrl'', procedureEmpty),
     (''/aiserver.v1.DashboardService/GetGlobalCommands'', procedureEmpty),
     (''/v1/traces'', procedureEmpty)]"

section \<open>Responses\<close>

definition modelNames :: "Config \<Rightarrow> string list" where
  "modelNames cfg = map mc_Name (cf_Models cfg)"

text \<open>The loader, what it returns when it is called now, or nil.\<close>

type_synonym ConfigLoader = "Config result option"

definition loadConfig :: "ConfigLoader \<Rightarrow> Config result" where
  "loadConfig load = (case load of None \<Rightarrow> Inl (Errorf ''config loader is required'') | Some r \<Rightarrow> r)"

text \<open>\<open>json.Marshal\<close> writes the keys of a map in order.\<close>

definition model_details :: "string \<Rightarrow> string" where
  "model_details name = json_object [(''aliases'', json_array [json_quote name]), (''displayModelId'', json_quote name),
     (''displayName'', json_quote name), (''displayNameShort'', json_quote name), (''modelId'', json_quote name)]"

definition model_available :: "Config \<Rightarrow> string \<Rightarrow> string" where
  "model_available cfg name = json_object [(''clientDisplayName'', json_quote name),
     (''defaultOn'', json_bool (name = cf_DefaultModel cfg)), (''isUserAdded'', json_bool True), (''name'', json_quote name),
     (''serverModelName'', json_quote name), (''supportsAgent'', json_bool True), (''supportsPlanMode'', json_bool True)]"

definition models_json :: "compatibilityProcedure \<Rightarrow> Config \<Rightarrow> bytes" where
  "models_json procedure cfg =
     (let names = modelNames cfg in case procedure of
        procedureAvailableModels \<Rightarrow> json_object [(''modelNames'', json_array (map json_quote names)),
          (''models'', json_array (map (model_available cfg) names))]
      | procedureUsableModels \<Rightarrow> json_object [(''models'', json_array (map model_details names))]
      | _ \<Rightarrow> (case find (\<lambda>name. name = cf_DefaultModel cfg) names of
          None \<Rightarrow> ''null''
        | Some name \<Rightarrow> json_object [(''model'', model_details name)]))"

definition jsonResponse :: "ConfigLoader \<Rightarrow> compatibilityProcedure \<Rightarrow> bytes result" where
  "jsonResponse load procedure = (case procedure of
     procedureGetMe \<Rightarrow> Inr (json_object [(''authId'', json_quote ''cursor-cli-byok''), (''country'', json_quote ''local''),
       (''createdAt'', json_quote ''2026-01-01T00:00:00Z''), (''email'', json_quote ''byok@localhost''),
       (''emailDomainType'', json_quote ''personal''), (''firstName'', json_quote ''Cursor''),
       (''lastName'', json_quote ''BYOK''), (''userId'', show_int 1)])
   | procedurePrivacy \<Rightarrow> Inr (json_object [(''hasAcknowledgedGracePeriodDisclaimer'', json_bool True),
       (''hoursRemainingInGracePeriod'', show_int 0), (''isEnforcedByTeam'', json_bool False),
       (''isNotMigratedToServerSourceOfTruth'', json_bool False), (''partnerDataShare'', json_bool False),
       (''privacyMode'', json_quote ''PRIVACY_MODE_NO_STORAGE'')])
   | procedureServerConfig \<Rightarrow> Inr (json_object [(''cliSandboxDefaultEnabled'', json_bool True),
       (''configVersion'', json_quote ''cursor_cli_byok_v1'')])
   | procedureEmpty \<Rightarrow> Inr ''{}''
   | _ \<Rightarrow> try_then (loadConfig load) (\<lambda>cfg. Inr (models_json procedure cfg)))"

definition compat_response :: "protowire \<Rightarrow> ConfigLoader \<Rightarrow> compatibilityProcedure \<Rightarrow> string \<Rightarrow> bytes result" where
  "compat_response pw load procedure mediaType =
     (if mediaType = ''application/json'' then jsonResponse load procedure
      else case procedure of
        procedureGetMe \<Rightarrow> Inr (EncodeLocalAccount pw)
      | procedurePrivacy \<Rightarrow> Inr (EncodeNoStoragePrivacyMode pw)
      | procedureServerConfig \<Rightarrow> Inr (EncodeServerConfig pw)
      | procedureEmpty \<Rightarrow> Inr []
      | procedureAvailableModels \<Rightarrow> try_then (loadConfig load) (\<lambda>cfg.
          EncodeAvailableModels pw (modelNames cfg) (cf_DefaultModel cfg))
      | procedureUsableModels \<Rightarrow> try_then (loadConfig load) (\<lambda>cfg. EncodeUsableModels pw (modelNames cfg))
      | procedureDefaultModel \<Rightarrow> try_then (loadConfig load) (\<lambda>cfg. EncodeDefaultModel pw (cf_DefaultModel cfg)))"

section \<open>The handlers\<close>

definition maxCompatibilityRequestBytes :: int where
  "maxCompatibilityRequestBytes = 4194304"

definition compat_media_type :: "string \<Rightarrow> string option" where
  "compat_media_type contentType =
     (case (if contentType = [] then Some ''application/proto'' else ParseMediaType contentType) of
        None \<Rightarrow> None
      | Some mediaType \<Rightarrow>
          if mediaType \<noteq> ''application/proto'' \<and> mediaType \<noteq> ''application/json'' then None else Some mediaType)"

definition compat_ServeHTTP :: "protowire \<Rightarrow> ConfigLoader \<Rightarrow> http_request \<Rightarrow> http_response" where
  "compat_ServeHTTP pw load request = (case map_of compatibilityProcedures (hq_Path request) of
     None \<Rightarrow> http_NotFound
   | Some procedure \<Rightarrow>
       if hq_Method request \<noteq> ''POST'' then http_Error [(''Allow'', ''POST'')] ''method not allowed'' 405
       else (case read_limited (hq_Body request) (maxCompatibilityRequestBytes + 1) of
         Inl e \<Rightarrow> http_Error [] ''read request'' 400
       | Inr body \<Rightarrow>
           if maxCompatibilityRequestBytes < int (length body) then http_Error [] ''request too large'' 413
           else (case compat_media_type (hq_ContentType request) of
             None \<Rightarrow> http_Error [] ''unsupported content type'' 415
           | Some mediaType \<Rightarrow> (case compat_response pw load procedure mediaType of
               Inl e \<Rightarrow> http_Error [] ''compatibility response unavailable'' 500
             | Inr response \<Rightarrow> \<lparr> hr_Status = 200, hr_Headers = [(''Cache-Control'', ''no-store''),
                 (''Connect-Protocol-Version'', ''1''), (''Content-Type'', mediaType)], hr_Body = response \<rparr>))))"

text \<open>\<open>NewApplicationHandler\<close>: the agent's procedures, and everything else.\<close>

definition application_ServeHTTP ::
  "protowire \<Rightarrow> ConfigLoader \<Rightarrow> (http_request \<Rightarrow> agentHandler \<Rightarrow> served \<times> agentHandler) \<Rightarrow> http_request \<Rightarrow>
   agentHandler \<Rightarrow> served \<times> agentHandler" where
  "application_ServeHTTP pw load agent request h =
     (if hq_Path request \<in> {bidiAppendProcedure, directRunProcedure, runSSEProcedure} then agent request h
      else (respond (compat_ServeHTTP pw load request), h))"

definition healthHandler :: "string \<Rightarrow> string \<Rightarrow> http_request \<Rightarrow> http_response" where
  "healthHandler instanceID daemonVersion request =
     (if hq_Method request \<noteq> ''GET'' then http_Error [(''Allow'', ''GET'')] ''method not allowed'' 405
      else \<lparr> hr_Status = 200, hr_Headers = [(''Cache-Control'', ''no-store''),
          (''Content-Type'', ''application/json; charset=utf-8''), (''X-Content-Type-Options'', ''nosniff'')],
        hr_Body = json_object [(''status'', json_quote ''ok''), (''instance_id'', json_quote instanceID),
          (''daemon_version'', json_quote daemonVersion)] @ [newline] \<rparr>)"

text \<open>The root handler; the comparison in constant time is one of all the bytes.\<close>

definition rootHandler ::
  "string \<Rightarrow> string \<Rightarrow> string \<Rightarrow> (http_request \<Rightarrow> 's \<Rightarrow> served \<times> 's) \<Rightarrow> string \<Rightarrow> http_request \<Rightarrow> 's \<Rightarrow> served \<times> 's" where
  "rootHandler instanceID daemonVersion authToken application authorization request st =
     (if hq_Path request = ''/healthz'' then (respond (healthHandler instanceID daemonVersion request), st)
      else let expectedAuthorization = ''Bearer '' @ authToken in
        if length authorization \<noteq> length expectedAuthorization
          \<or> \<not> list_all2 (=) authorization expectedAuthorization then
          (respond (http_Error [(''Cache-Control'', ''no-store''), (''WWW-Authenticate'', ''Bearer'')] ''unauthorized'' 401), st)
        else application request st)"

section \<open>Starting the server\<close>

text \<open>\<open>net.SplitHostPort\<close> and \<open>net.JoinHostPort\<close>.\<close>

definition SplitHostPort :: "string \<Rightarrow> (string \<times> string) option" where
  "SplitHostPort hostport =
     (case cut_last (CHR '':'') hostport of
        None \<Rightarrow> None
      | Some (before, port) \<Rightarrow>
          if hd hostport = CHR ''['' then
            (if CHR '']'' \<notin> set hostport then None
             else let host = takeWhile (\<lambda>c. c \<noteq> CHR '']'') (tl hostport);
                      rest = tl (dropWhile (\<lambda>c. c \<noteq> CHR '']'') hostport) in
               if rest = [] \<or> length (tl rest) \<noteq> length port \<or> hd rest \<noteq> CHR '':'' then None
               else if CHR ''['' \<in> set (tl hostport) \<or> CHR '']'' \<in> set rest then None
               else Some (host, port))
          else if CHR '':'' \<in> set before then None
          else if CHR ''['' \<in> set hostport \<or> CHR '']'' \<in> set hostport then None
          else Some (before, port))"

definition JoinHostPort :: "string \<Rightarrow> string \<Rightarrow> string" where
  "JoinHostPort host port =
     (if CHR '':'' \<in> set host \<or> CHR ''%'' \<in> set host then ''['' @ host @ '']:'' @ port else host @ '':'' @ port)"

text \<open>\<open>strconv.Atoi\<close>: decimal digits with an optional sign, within 64 bits.\<close>

definition Atoi :: "string \<Rightarrow> int option" where
  "Atoi s =
     (let digits = (if s \<noteq> [] \<and> (hd s = CHR ''-'' \<or> hd s = CHR ''+'') then tl s else s);
          n = int (digits_val 0 digits); v = (if s \<noteq> [] \<and> hd s = CHR ''-'' then - n else n) in
      if digits = [] \<or> \<not> list_all is_digit digits then None
      else if v < - (2 ^ 63) \<or> 2 ^ 63 \<le> v then None else Some v)"

definition validateListenAddress :: "string \<Rightarrow> unit result" where
  "validateListenAddress address =
     (case SplitHostPort address of
        None \<Rightarrow> Inl (Errorf ''start server: listen address must be a loopback host and port'')
      | Some (host, portText) \<Rightarrow>
          (case parseIP host of
             None \<Rightarrow> Inl (Errorf ''start server: listen address must use a literal loopback IP'')
           | Some ip \<Rightarrow>
               if \<not> ip_IsLoopback ip then Inl (Errorf ''start server: listen address must use a literal loopback IP'')
               else (case Atoi portText of
                   None \<Rightarrow> Inl (Errorf ''start server: listen address must contain a valid loopback port'')
                 | Some port \<Rightarrow>
                     if port < 0 \<or> 65535 < port then
                       Inl (Errorf ''start server: listen address must contain a valid loopback port'')
                     else Inr ())))"

text \<open>\<open>^[0-9a-f]{32,64}$\<close>\<close>

definition instanceIDPattern :: "string \<Rightarrow> bool" where
  "instanceIDPattern i \<longleftrightarrow> 32 \<le> length i \<and> length i \<le> 64 \<and> list_all (\<lambda>c. is_digit c \<or> c \<in> set ''abcdef'') i"

text \<open>
  The options, with whether the certificate and its key are there. A missing context is
  \<open>None\<close>, an ended one has its error.
\<close>

record server_Options =
  so_ListenAddress :: string
  so_HasCertificate :: bool
  so_InstanceID :: string
  so_AuthToken :: string
  so_DaemonVersion :: string

definition start_address :: "server_Options \<Rightarrow> string" where
  "start_address options = (if so_ListenAddress options = [] then ''127.0.0.1:0'' else so_ListenAddress options)"

text \<open>\<open>Start\<close> up to the address it serves; \<open>listen\<close> is the operating system's answer.\<close>

definition server_Start ::
  "goerror option option \<Rightarrow> server_Options \<Rightarrow> (string \<Rightarrow> (string \<times> int) result) \<Rightarrow> string result" where
  "server_Start ctx options listen = (case ctx of
     None \<Rightarrow> Inl (Errorf ''start server: context is required'')
   | Some (Some e) \<Rightarrow> Inl (Wrapf ''start server: '' e)
   | Some None \<Rightarrow>
       if \<not> so_HasCertificate options then Inl (Errorf ''start server: TLS certificate is required'')
       else if \<not> instanceIDPattern (so_InstanceID options) then Inl (Errorf ''start server: instance ID is invalid'')
       else if so_AuthToken options = [] \<or> hasControl (so_AuthToken options) then
         Inl (Errorf ''start server: auth token is invalid'')
       else if so_DaemonVersion options = [] \<or> so_DaemonVersion options \<noteq> trimSpace (so_DaemonVersion options)
         \<or> hasControl (so_DaemonVersion options) then Inl (Errorf ''start server: daemon version is invalid'')
       else let address = start_address options in
         try_then (validateListenAddress address) (\<lambda>_.
         try_wrap (Wrapf ''start server: listen: '') (listen address) (\<lambda>(ip, port).
           Inr (''https://'' @ JoinHostPort ip (show_int port)))))"

lemmas listen_eval = SplitHostPort_def cut_last_def JoinHostPort_def Atoi_def is_digit_def

lemma split_addresses:
  "SplitHostPort ''127.0.0.1:0'' = Some (''127.0.0.1'', ''0'')" "SplitHostPort ''[::1]:8080'' = Some (''::1'', ''8080'')"
  "SplitHostPort ''::1:80'' = None" "SplitHostPort ''[::1]'' = None" "SplitHostPort '':80'' = Some ([], ''80'')"
  "SplitHostPort ''localhost'' = None" "Atoi ''+80'' = Some 80" "Atoi [] = None"
  by (simp_all add: listen_eval)

section \<open>What the client is told\<close>

text \<open>the server listens only on a literal loopback address, with a port in range, and a request to any path
  but the health check that does not carry the exact token is refused before it reaches the application: the
  answer is 401 and the state of the handler is left as it was.\<close>

theorem server_guards:
  assumes "server_Start ctx options listen = Inr url"
  shows "(\<exists>host portText ip port. SplitHostPort (start_address options) = Some (host, portText)
      \<and> parseIP host = Some ip \<and> ip_IsLoopback ip \<and> Atoi portText = Some port \<and> 0 \<le> port \<and> port \<le> 65535)
    \<and> so_AuthToken options \<noteq> []
    \<and> (hq_Path request \<noteq> ''/healthz'' \<and> authorization \<noteq> ''Bearer '' @ so_AuthToken options \<longrightarrow>
        rootHandler (so_InstanceID options) (so_DaemonVersion options) (so_AuthToken options) application authorization request st
          = (respond (http_Error [(''Cache-Control'', ''no-store''), (''WWW-Authenticate'', ''Bearer'')] ''unauthorized'' 401), st))"
proof (intro conjI impI)
  from assms have v: "validateListenAddress (start_address options) = Inr ()"
    by (auto simp: server_Start_def Let_def try_then_Inr_iff split: option.splits if_splits)
  then obtain host portText ip where 1: "SplitHostPort (start_address options) = Some (host, portText)"
    "parseIP host = Some ip" "ip_IsLoopback ip"
    by (auto simp: validateListenAddress_def split: option.splits if_splits)
  moreover from v 1 obtain port where "Atoi portText = Some port" "0 \<le> port" "port \<le> 65535"
    by (auto simp: validateListenAddress_def split: option.splits if_splits)
  ultimately show "\<exists>host portText ip port. SplitHostPort (start_address options) = Some (host, portText)
      \<and> parseIP host = Some ip \<and> ip_IsLoopback ip \<and> Atoi portText = Some port \<and> 0 \<le> port \<and> port \<le> 65535"
    by blast
  show "so_AuthToken options \<noteq> []"
    using assms by (auto simp: server_Start_def split: option.splits if_splits)
next
  assume "hq_Path request \<noteq> ''/healthz'' \<and> authorization \<noteq> ''Bearer '' @ so_AuthToken options"
  moreover from this have "\<not> list_all2 (=) authorization (''Bearer '' @ so_AuthToken options)" by (simp add: list.rel_eq)
  ultimately show "rootHandler (so_InstanceID options) (so_DaemonVersion options) (so_AuthToken options) application
      authorization request st
    = (respond (http_Error [(''Cache-Control'', ''no-store''), (''WWW-Authenticate'', ''Bearer'')] ''unauthorized'' 401), st)"
    unfolding rootHandler_def Let_def by presburger
qed

definition sample_options :: server_Options where
  "sample_options = \<lparr> so_ListenAddress = [], so_HasCertificate = True, so_InstanceID = ''0123456789abcdef0123456789abcdef'',
     so_AuthToken = ''t'', so_DaemonVersion = ''1'' \<rparr>"

definition sample_catalogue_request :: http_request where
  "sample_catalogue_request = \<lparr> hq_Method = ''POST'', hq_Path = ''/aiserver.v1.AiService/AvailableModels'',
     hq_ContentType = [], hq_Body = \<lparr> rd_data = [], rd_err = IO_EOF \<rparr> \<rparr>"

lemma sample_start: "server_Start (Some None) sample_options (\<lambda>_. Inr (''127.0.0.1'', 4000)) = Inr ''https://127.0.0.1:4000''"
  by (simp add: server_Start_def sample_options_def instanceIDPattern_def start_address_def validateListenAddress_def
      split_addresses ip_eval Let_def Atoi_def JoinHostPort_def show_int_def show_nat.simps trimSpace_def trim_pieces_def go_eval
      replicate_numeral char_of_def bit_Suc_0_iff)

theorem server_guards_witness:
  "rootHandler (so_InstanceID sample_options) (so_DaemonVersion sample_options) (so_AuthToken sample_options)
      (\<lambda>_ n. (respond http_NotFound, Suc n)) ''Bearer x'' sample_catalogue_request (0::nat)
    = (respond (http_Error [(''Cache-Control'', ''no-store''), (''WWW-Authenticate'', ''Bearer'')] ''unauthorized'' 401), 0)"
  using server_guards [OF sample_start, of sample_catalogue_request "''Bearer x''" "\<lambda>_ n. (respond http_NotFound, Suc n)" 0]
  by (simp add: sample_options_def sample_catalogue_request_def)

text \<open>C17: for every valid configuration whose model names have at most 256 bytes, asking for the available models is
  answered with status 200, and what the client decodes from the answer lists exactly the configured names, in order,
  each with its own entry, the default one marked.\<close>

theorem configured_models_listed:
  assumes "protowire_spec pw" and "config_ok cfg" and "\<forall>m\<in>set (cf_Models cfg). length (mc_Name m) \<le> 256"
    and "hq_Path request = ''/aiserver.v1.AiService/AvailableModels''" and "hq_Method request = ''POST''"
    and "compat_media_type (hq_ContentType request) = Some ''application/proto''"
    and "rd_err (hq_Body request) = IO_EOF" and "int (length (rd_data (hq_Body request))) \<le> maxCompatibilityRequestBytes"
    and "length (hr_Body (compat_ServeHTTP pw (Some (Inr cfg)) request)) < 2 ^ 63"
  shows "hr_Status (compat_ServeHTTP pw (Some (Inr cfg)) request) = 200
    \<and> (\<exists>fs. decodeWireFields pw (hr_Body (compat_ServeHTTP pw (Some (Inr cfg)) request)) = Inr fs
        \<and> repeatedBytesField fs 1 = map mc_Name (cf_Models cfg)
        \<and> list_all2 (\<lambda>name entry. \<exists>es. decodeWireFields pw entry = Inr es \<and> lastBytesField es 1 = Some name
            \<and> lastBytesField es 18 = Some name \<and> lastVarintField es 5 = Some 1
            \<and> lastVarintField es 2 = (if name = cf_DefaultModel cfg then Some 1 else None))
          (map mc_Name (cf_Models cfg)) (repeatedBytesField fs 2))"
proof -
  have names: "validateModels (modelNames cfg) (cf_DefaultModel cfg) = Inr ()"
    using assms(2,3) by (auto simp: validateModels_iff modelNames_def config_ok_def list_all_iff model_ok_def plain_text_def
        name_ok_def hasPadding_def)
  then obtain payload where enc: "EncodeAvailableModels pw (modelNames cfg) (cf_DefaultModel cfg) = Inr payload"
    using catalogue_payload [of pw "modelNames cfg" "cf_DefaultModel cfg"] by blast
  have proc: "map_of compatibilityProcedures ''/aiserver.v1.AiService/AvailableModels'' = Some procedureAvailableModels"
    by (simp add: compatibilityProcedures_def)
  have body: "read_limited (hq_Body request) (maxCompatibilityRequestBytes + 1) = Inr (rd_data (hq_Body request))"
    using assms(7,8) by (simp add: read_limited_def)
  have res: "compat_ServeHTTP pw (Some (Inr cfg)) request = \<lparr> hr_Status = 200, hr_Headers = [(''Cache-Control'', ''no-store''),
                 (''Connect-Protocol-Version'', ''1''), (''Content-Type'', ''application/proto'')], hr_Body = payload \<rparr>"
    using assms(4-6,8) body proc enc by (simp add: compat_ServeHTTP_def compat_response_def loadConfig_def)
  have "length payload < 2 ^ 63" using assms(9) res by simp
  from catalogue_lists_models [OF assms(1) enc this] show ?thesis by (simp add: res modelNames_def)
qed

theorem configured_models_listed_witness:
  "\<exists>fs. decodeWireFields wire_format (hr_Body (compat_ServeHTTP wire_format (Some (Inr sample_config)) sample_catalogue_request))
     = Inr fs \<and> repeatedBytesField fs 1 = [''m'']"
proof -
  have "length (hr_Body (compat_ServeHTTP wire_format (Some (Inr sample_config)) sample_catalogue_request)) < 2 ^ 63"
    by (simp add: compat_ServeHTTP_def sample_catalogue_request_def compatibilityProcedures_def read_limited_def
        maxCompatibilityRequestBytes_def compat_media_type_def compat_response_def loadConfig_def sample_config_def
        sample_model_def modelNames_def EncodeAvailableModels_def validateModels_def validateModelName_def
        trimSpace_def trim_pieces_def go_eval model_config_def available_model_def appendString_def appendMessage_def
        appendBool_def wire_eval)
  then show ?thesis
    using configured_models_listed [OF wire_format.protowire_spec_axioms sample_config_ok, of sample_catalogue_request]
    by (simp add: sample_catalogue_request_def compat_media_type_def maxCompatibilityRequestBytes_def sample_config_def
        sample_model_def) blast
qed

text \<open>A valid configuration may have a longer model name; then the endpoint fails although the configuration was accepted.\<close>

lemma long_name_unlisted:
  "\<exists>m\<in>set (cf_Models cfg). 256 < length (mc_Name m) \<Longrightarrow>
    EncodeAvailableModels pw (modelNames cfg) (cf_DefaultModel cfg) \<noteq> Inr payload"
  by (auto simp: catalogue_payload validateModels_iff list_all_iff modelNames_def name_ok_def) (meson leD)

end
