(* ===== verification/Server_Life.thy ===== *)
theory Server_Life
  imports Compat
begin

text \<open>
  \<open>server/server.go\<close> from the listener on: the goroutine that serves, the one that stops the server when
  the context ends, and \<open>Shutdown\<close> and \<open>Wait\<close> beside them. Of \<open>net/http\<close> it is used that after
  \<open>Shutdown\<close> or \<open>Close\<close> no connection is accepted and \<open>Serve\<close> returns \<open>ErrServerClosed\<close>,
  that \<open>Shutdown\<close> succeeds once no connection is open, and that \<open>Close\<close> drops all of them.
\<close>

section \<open>The HTTP server\<close>

definition ErrServerClosed :: goerror where
  "ErrServerClosed = Errorf ''http: Server closed''"

record http_server =
  hs_closed :: bool
  hs_conns :: nat

definition http_begin_shutdown :: "http_server \<Rightarrow> http_server" where
  "http_begin_shutdown h = h\<lparr>hs_closed := True\<rparr>"

text \<open>When \<open>Shutdown\<close> returns; \<open>e\<close> is what its context has ended with if connections are still open.\<close>

definition http_Shutdown :: "goerror \<Rightarrow> http_server \<Rightarrow> unit result \<times> http_server" where
  "http_Shutdown e h = (if hs_conns h = 0 then Inr () else Inl e, http_begin_shutdown h)"

definition http_Close :: "http_server \<Rightarrow> http_server" where
  "http_Close h = h\<lparr>hs_closed := True, hs_conns := 0\<rparr>"

section \<open>The server\<close>

record Server =
  sr_http :: http_server
  sr_endpointURL :: string
  sr_finished :: bool
  sr_serveErr :: "goerror option"

definition server_EndpointURL :: "Server option \<Rightarrow> string" where
  "server_EndpointURL s = (case s of None \<Rightarrow> [] | Some s \<Rightarrow> sr_endpointURL s)"

definition server_Shutdown :: "goerror option \<Rightarrow> Server option \<Rightarrow> unit result \<times> Server option" where
  "server_Shutdown ctx s = (case s of
     None \<Rightarrow> (Inr (), s)
   | Some server \<Rightarrow> (case ctx of
       None \<Rightarrow> (Inl (Errorf ''shutdown server: context is required''), s)
     | Some e \<Rightarrow> (case http_Shutdown e (sr_http server) of
         (Inl e, h) \<Rightarrow> (Inl (Wrapf ''shutdown server: '' e), Some (server\<lparr>sr_http := h\<rparr>))
       | (Inr _, h) \<Rightarrow> (Inr (), Some (server\<lparr>sr_http := h\<rparr>)))))"

text \<open>\<open>None\<close> while it waits.\<close>

definition server_Wait :: "Server option \<Rightarrow> unit result option" where
  "server_Wait s = (case s of
     None \<Rightarrow> Some (Inl (Errorf ''wait for server: server is required''))
   | Some server \<Rightarrow> if \<not> sr_finished server then None
       else Some (case sr_serveErr server of None \<Rightarrow> Inr () | Some e \<Rightarrow> Inl e))"

definition serve_result :: "goerror \<Rightarrow> goerror option" where
  "serve_result e = (if error_is ErrServerClosed e then None else Some e)"

text \<open>Stopping the server by itself: what is not over in time is dropped.\<close>

definition automatic_shutdown :: "goerror \<Rightarrow> Server \<Rightarrow> Server" where
  "automatic_shutdown e server = (case server_Shutdown (Some e) (Some server) of
     (Inl _, Some s) \<Rightarrow> s\<lparr>sr_http := http_Close (sr_http s)\<rparr>
   | (Inr _, Some s) \<Rightarrow> s
   | (_, None) \<Rightarrow> server)"

section \<open>The goroutines\<close>

datatype serving_at = Serving_On | Serve_Returned goerror | Result_Stored | Serving_Over
datatype watching_at = Watching | Stopping | Watching_Over

record server_world =
  sw_server :: Server
  sw_serving :: serving_at
  sw_watching :: watching_at
  sw_ended :: bool

definition new_server :: "string \<Rightarrow> Server" where
  "new_server url = \<lparr> sr_http = \<lparr> hs_closed = False, hs_conns = 0 \<rparr>, sr_endpointURL = url, sr_finished = False, sr_serveErr = None \<rparr>"

definition server_world :: "string \<Rightarrow> server_world" where
  "server_world url = \<lparr> sw_server = new_server url, sw_serving = Serving_On, sw_watching = Watching, sw_ended = False \<rparr>"

text \<open>What \<open>Start\<close> leaves behind.\<close>

definition start_server ::
  "goerror option option \<Rightarrow> server_Options \<Rightarrow> (string \<Rightarrow> (string \<times> int) result) \<Rightarrow> server_world result" where
  "start_server ctx options listen = try_then (server_Start ctx options listen) (\<lambda>url. Inr (server_world url))"

abbreviation with_http :: "(http_server \<Rightarrow> http_server) \<Rightarrow> server_world \<Rightarrow> server_world" where
  "with_http f w \<equiv> w\<lparr>sw_server := (sw_server w)\<lparr>sr_http := f (sr_http (sw_server w))\<rparr>\<rparr>"

text \<open>The steps of the two goroutines; then those of the connections, the callers and the context.\<close>

inductive own_step :: "server_world \<Rightarrow> server_world \<Rightarrow> bool" where
  own_closed: "sw_serving w = Serving_On \<Longrightarrow> hs_closed (sr_http (sw_server w)) \<Longrightarrow> own_step w (w\<lparr>sw_serving := Serve_Returned ErrServerClosed\<rparr>)"
| own_failed: "sw_serving w = Serving_On \<Longrightarrow> \<not> hs_closed (sr_http (sw_server w)) \<Longrightarrow> \<not> error_is ErrServerClosed e \<Longrightarrow>
    own_step w (w\<lparr>sw_serving := Serve_Returned e\<rparr>)"
| own_stored: "sw_serving w = Serve_Returned e \<Longrightarrow>
    own_step w (w\<lparr>sw_serving := Result_Stored, sw_server := (sw_server w)\<lparr>sr_serveErr := serve_result e\<rparr>\<rparr>)"
| own_finished: "sw_serving w = Result_Stored \<Longrightarrow>
    own_step w (w\<lparr>sw_serving := Serving_Over, sw_server := (sw_server w)\<lparr>sr_finished := True\<rparr>\<rparr>)"
| own_ended: "sw_watching w = Watching \<Longrightarrow> sw_ended w \<Longrightarrow> own_step w (with_http http_begin_shutdown (w\<lparr>sw_watching := Stopping\<rparr>))"
| own_over: "sw_watching w = Watching \<Longrightarrow> sr_finished (sw_server w) \<Longrightarrow> own_step w (w\<lparr>sw_watching := Watching_Over\<rparr>)"
| own_stopped: "sw_watching w = Stopping \<Longrightarrow>
    own_step w (w\<lparr>sw_watching := Watching_Over, sw_server := automatic_shutdown e (sw_server w)\<rparr>)"

inductive server_step :: "server_world \<Rightarrow> server_world \<Rightarrow> bool" where
  server_own: "own_step w w' \<Longrightarrow> server_step w w'"
| server_accept: "sw_serving w = Serving_On \<Longrightarrow> \<not> hs_closed (sr_http (sw_server w)) \<Longrightarrow>
    server_step w (with_http (\<lambda>h. h\<lparr>hs_conns := Suc (hs_conns h)\<rparr>) w)"
| server_conn_over: "server_step w (with_http (\<lambda>h. h\<lparr>hs_conns := hs_conns h - 1\<rparr>) w)"
| server_asked: "server_step w (with_http http_begin_shutdown w)"
| server_context: "server_step w (w\<lparr>sw_ended := True\<rparr>)"

inductive_cases own_stepE: "own_step w w'"
inductive_cases server_stepE: "server_step w w'"

section \<open>The server stops\<close>

lemma automatic_shutdown_simps [simp]:
  "sr_http (automatic_shutdown e s) = (sr_http s)\<lparr>hs_closed := True, hs_conns := 0\<rparr>"
  "sr_finished (automatic_shutdown e s) = sr_finished s" "sr_serveErr (automatic_shutdown e s) = sr_serveErr s"
  "sr_endpointURL (automatic_shutdown e s) = sr_endpointURL s"
  by (cases "sr_http s"; simp add: automatic_shutdown_def server_Shutdown_def http_Shutdown_def http_begin_shutdown_def http_Close_def)+

text \<open>The invariant: what has been stored is final, and a result without an error means that the server was asked to stop.\<close>

definition life_ok :: "server_world \<Rightarrow> bool" where
  "life_ok w \<longleftrightarrow> (let s = sw_server w; h = sr_http s in
     (sr_finished s \<longleftrightarrow> sw_serving w = Serving_Over)
     \<and> (\<forall>e. sw_serving w = Serve_Returned e \<and> error_is ErrServerClosed e \<longrightarrow> hs_closed h)
     \<and> (sw_serving w \<in> {Result_Stored, Serving_Over} \<and> sr_serveErr s = None \<longrightarrow> hs_closed h)
     \<and> (sw_watching w = Stopping \<longrightarrow> hs_closed h)
     \<and> (sw_watching w = Watching_Over \<longrightarrow> sr_finished s \<or> hs_closed h \<and> hs_conns h = 0))"

lemma life_ok_start: "life_ok (server_world url)"
  by (simp add: life_ok_def server_world_def new_server_def)

lemma life_ok_own: "own_step w w' \<Longrightarrow> life_ok w \<Longrightarrow> life_ok w'"
proof (induction rule: own_step.induct)
  case (own_closed w)
  then show ?case by (auto simp: life_ok_def Let_def)
next
  case (own_failed w e)
  then show ?case by (auto simp: life_ok_def Let_def)
next
  case (own_stored w e)
  then show ?case by (auto simp: life_ok_def Let_def serve_result_def)
next
  case (own_finished w)
  then show ?case by (auto simp: life_ok_def Let_def)
next
  case (own_ended w)
  then show ?case by (auto simp: life_ok_def Let_def http_begin_shutdown_def)
next
  case (own_over w)
  then show ?case by (auto simp: life_ok_def Let_def)
next
  case (own_stopped w e)
  then show ?case by (auto simp: life_ok_def Let_def)
qed

lemma life_ok_step: "server_step w w' \<Longrightarrow> life_ok w \<Longrightarrow> life_ok w'"
proof (induction rule: server_step.induct)
  case (server_own w w')
  then show ?case by (rule life_ok_own)
next
  case (server_accept w)
  then show ?case by (auto simp: life_ok_def Let_def)
next
  case (server_conn_over w)
  then show ?case by (auto simp: life_ok_def Let_def)
next
  case (server_asked w)
  then show ?case by (auto simp: life_ok_def Let_def http_begin_shutdown_def)
next
  case (server_context w)
  then show ?case by (auto simp: life_ok_def Let_def)
qed

lemma life_ok_reachable: "server_step\<^sup>*\<^sup>* (server_world url) w \<Longrightarrow> life_ok w"
  by (induction rule: rtranclp_induct) (simp_all add: life_ok_start life_ok_step)

lemma wait_step: "server_step w w' \<Longrightarrow> life_ok w \<Longrightarrow> sr_finished (sw_server w) \<Longrightarrow>
    server_Wait (Some (sw_server w')) = server_Wait (Some (sw_server w)) \<and> sr_finished (sw_server w')"
  by (erule server_stepE, erule own_stepE) (auto simp: life_ok_def Let_def server_Wait_def)

lemma wait_stays:
  "server_step\<^sup>*\<^sup>* w w' \<Longrightarrow> life_ok w \<Longrightarrow> sr_finished (sw_server w) \<Longrightarrow>
    server_Wait (Some (sw_server w')) = server_Wait (Some (sw_server w)) \<and> sr_finished (sw_server w') \<and> life_ok w'"
  by (induction rule: rtranclp_induct) (auto dest: wait_step life_ok_step)

text \<open>The watching goroutine ends once the context has, and the serving one once the server is closed.\<close>

lemma watching_ends:
  assumes "sw_ended w" and "life_ok w"
  shows "\<exists>w'. own_step\<^sup>*\<^sup>* w w' \<and> sw_watching w' = Watching_Over \<and> life_ok w'"
proof -
  have stopping: "\<exists>w'. own_step\<^sup>*\<^sup>* w w' \<and> sw_watching w' = Watching_Over \<and> life_ok w'" if "sw_watching w = Stopping" "life_ok w" for w
  proof -
    let ?w' = "w\<lparr>sw_watching := Watching_Over, sw_server := automatic_shutdown Context_Canceled (sw_server w)\<rparr>"
    have step: "own_step w ?w'" using that(1) by (rule own_stopped)
    then have "own_step\<^sup>*\<^sup>* w ?w'" by (rule r_into_rtranclp [of own_step])
    moreover have "life_ok ?w'" using step that(2) by (rule life_ok_own)
    ultimately show ?thesis by (intro exI [of _ ?w']) simp
  qed
  show ?thesis
  proof (cases "sw_watching w")
    case Watching
    note step = own_ended [OF Watching assms(1)]
    obtain w' where "own_step\<^sup>*\<^sup>* (with_http http_begin_shutdown (w\<lparr>sw_watching := Stopping\<rparr>)) w'" "sw_watching w' = Watching_Over" "life_ok w'"
      using stopping [OF _ life_ok_own [OF step assms(2)]] by auto
    then show ?thesis using converse_rtranclp_into_rtranclp [of own_step, OF step] by blast
  qed (use stopping assms in \<open>auto intro: exI [of _ w]\<close>)
qed

lemma serving_ends:
  assumes "sw_serving w = Serving_On \<longrightarrow> hs_closed (sr_http (sw_server w))"
  shows "\<exists>w'. own_step\<^sup>*\<^sup>* w w' \<and> sw_serving w' = Serving_Over \<and> sw_watching w' = sw_watching w"
proof -
  have stored: "\<exists>w'. own_step\<^sup>*\<^sup>* w w' \<and> sw_serving w' = Serving_Over \<and> sw_watching w' = sw_watching w" if "sw_serving w = Result_Stored" for w
  proof -
    let ?w' = "w\<lparr>sw_serving := Serving_Over, sw_server := (sw_server w)\<lparr>sr_finished := True\<rparr>\<rparr>"
    have "own_step\<^sup>*\<^sup>* w ?w'" using own_finished [OF that] by (rule r_into_rtranclp [of own_step])
    then show ?thesis by (intro exI [of _ ?w']) simp
  qed
  have returned: "\<exists>w'. own_step\<^sup>*\<^sup>* w w' \<and> sw_serving w' = Serving_Over \<and> sw_watching w' = sw_watching w" if "sw_serving w = Serve_Returned e" for w e
  proof -
    let ?v = "w\<lparr>sw_serving := Result_Stored, sw_server := (sw_server w)\<lparr>sr_serveErr := serve_result e\<rparr>\<rparr>"
    obtain w' where "own_step\<^sup>*\<^sup>* ?v w'" "sw_serving w' = Serving_Over" "sw_watching w' = sw_watching w" using stored [of ?v] by auto
    then show ?thesis using converse_rtranclp_into_rtranclp [of own_step, OF own_stored [OF that]] by blast
  qed
  show ?thesis
  proof (cases "sw_serving w")
    case Serving_On
    let ?v = "w\<lparr>sw_serving := Serve_Returned ErrServerClosed\<rparr>"
    have step: "own_step w ?v" using Serving_On assms by (blast intro: own_closed)
    obtain w' where "own_step\<^sup>*\<^sup>* ?v w'" "sw_serving w' = Serving_Over" "sw_watching w' = sw_watching w" using returned [of ?v] by auto
    then show ?thesis using converse_rtranclp_into_rtranclp [of own_step, OF step] by blast
  qed (auto intro: stored returned)
qed

text \<open>C24: A server ends with its context, and says how. At every moment of its life, however connections, callers of \<open>Shutdown\<close>
  and the two goroutines take turns: \<open>Wait\<close> returns no error only if the server was asked to stop, and what it returned once
  it returns ever after; when the watching goroutine is through, serving has ended or no connection is open and none will be;
  and once the context has ended, the goroutines can finish by themselves, so that \<open>Wait\<close> returns and nothing leaks.\<close>

theorem server_stops:
  assumes "start_server ctx options listen = Inr w0" and "server_step\<^sup>*\<^sup>* w0 w"
  shows "(server_Wait (Some (sw_server w)) = Some (Inr ()) \<longrightarrow> hs_closed (sr_http (sw_server w)))
    \<and> (\<forall>r w'. server_Wait (Some (sw_server w)) = Some r \<and> server_step\<^sup>*\<^sup>* w w' \<longrightarrow> server_Wait (Some (sw_server w')) = Some r)
    \<and> (sw_watching w = Watching_Over \<longrightarrow> sr_finished (sw_server w)
        \<or> hs_closed (sr_http (sw_server w)) \<and> hs_conns (sr_http (sw_server w)) = 0)
    \<and> (sw_ended w \<longrightarrow> (\<exists>w'. own_step\<^sup>*\<^sup>* w w' \<and> sw_watching w' = Watching_Over \<and> server_Wait (Some (sw_server w')) \<noteq> None))"
proof (intro conjI allI impI)
  from assms obtain url where "server_step\<^sup>*\<^sup>* (server_world url) w" by (auto simp: start_server_def try_then_Inr_iff)
  then have ok: "life_ok w" by (rule life_ok_reachable)
  show "server_Wait (Some (sw_server w)) = Some (Inr ()) \<Longrightarrow> hs_closed (sr_http (sw_server w))"
    using ok by (auto simp: server_Wait_def life_ok_def Let_def split: if_splits option.splits)
  show "server_Wait (Some (sw_server w')) = Some r"
    if "server_Wait (Some (sw_server w)) = Some r \<and> server_step\<^sup>*\<^sup>* w w'" for r w'
    using that wait_stays [of w w'] ok by (auto simp: server_Wait_def split: if_splits)
  show "sw_watching w = Watching_Over \<Longrightarrow> sr_finished (sw_server w)
      \<or> hs_closed (sr_http (sw_server w)) \<and> hs_conns (sr_http (sw_server w)) = 0"
    using ok unfolding life_ok_def Let_def by blast
  assume "sw_ended w"
  then obtain w1 where w1: "own_step\<^sup>*\<^sup>* w w1" "sw_watching w1 = Watching_Over" "life_ok w1" using watching_ends ok by blast
  then have "sw_serving w1 = Serving_On \<longrightarrow> hs_closed (sr_http (sw_server w1))" by (auto simp: life_ok_def Let_def)
  then obtain w2 where w2: "own_step\<^sup>*\<^sup>* w1 w2" "sw_serving w2 = Serving_Over" "sw_watching w2 = Watching_Over"
    using serving_ends [of w1] w1(2) by auto
  have "life_ok w2" using w2(1) w1(3) by (induction rule: rtranclp_induct) (auto dest: life_ok_own)
  then have "server_Wait (Some (sw_server w2)) \<noteq> None" using w2(2) by (simp add: life_ok_def Let_def server_Wait_def)
  then show "\<exists>w'. own_step\<^sup>*\<^sup>* w w' \<and> sw_watching w' = Watching_Over \<and> server_Wait (Some (sw_server w')) \<noteq> None"
    using w1(1) w2 by (meson rtranclp_trans)
qed

text \<open>A server whose context ended while a connection was open.\<close>

theorem server_stops_witness:
  "\<exists>w w'. start_server (Some None) sample_options (\<lambda>_. Inr (''127.0.0.1'', 4000)) = Inr (server_world ''https://127.0.0.1:4000'')
     \<and> server_step\<^sup>*\<^sup>* (server_world ''https://127.0.0.1:4000'') w \<and> hs_conns (sr_http (sw_server w)) = 1 \<and> sw_ended w
     \<and> own_step\<^sup>*\<^sup>* w w' \<and> server_Wait (Some (sw_server w')) \<noteq> None"
proof -
  let ?w0 = "server_world ''https://127.0.0.1:4000''"
  let ?w1 = "with_http (\<lambda>h. h\<lparr>hs_conns := Suc (hs_conns h)\<rparr>) ?w0"
  let ?w2 = "?w1\<lparr>sw_ended := True\<rparr>"
  have start: "start_server (Some None) sample_options (\<lambda>_. Inr (''127.0.0.1'', 4000)) = Inr ?w0"
    by (simp add: start_server_def sample_start)
  have "server_step ?w0 ?w1" by (rule server_accept) (simp_all add: server_world_def new_server_def)
  moreover have "server_step ?w1 ?w2" by (rule server_context)
  ultimately have reach: "server_step\<^sup>*\<^sup>* ?w0 ?w2" by (meson converse_rtranclp_into_rtranclp r_into_rtranclp)
  have "hs_conns (sr_http (sw_server ?w2)) = 1" "sw_ended ?w2" by (simp_all add: server_world_def new_server_def)
  then show ?thesis using start reach server_stops [OF start reach] by blast
qed

end
