(* ===== verification/Go_Os.thy ===== *)
theory Go_Os
  imports Go_Json Go_Path "HOL-Library.AList"
begin

text \<open>
  What the program uses of \<open>os\<close>: a file system whose calls may fail one by one, programs over it
  that stop at the first error, and a logic for them. A file knows whether its data has reached
  the disk, and every state that could be seen between two calls is kept, so that what a crash or
  another process may find is part of what is proved.
\<close>

section \<open>Files\<close>

text \<open>
  Files are known by the names the program uses for them, which are clean. A file has its
  permissions, its data, and whether they were synced.
\<close>

datatype node =
    Directory nat
  | File nat bytes bool
  | Symlink string
  | Special

type_synonym files = "(string \<times> node) list"

definition node_at :: "files \<Rightarrow> string \<Rightarrow> node option" where
  "node_at fs p = map_of fs p"

definition put_node :: "string \<Rightarrow> node \<Rightarrow> files \<Rightarrow> files" where
  "put_node p n fs = AList.update p n fs"

definition drop_node :: "string \<Rightarrow> files \<Rightarrow> files" where
  "drop_node p fs = AList.delete p fs"

lemma node_at_put [simp]: "node_at (put_node p n fs) q = (if q = p then Some n else node_at fs q)"
  by (simp add: node_at_def put_node_def update_conv')

lemma node_at_drop [simp]: "node_at (drop_node p fs) q = (if q = p then None else node_at fs q)"
  by (simp add: node_at_def drop_node_def delete_conv')

text \<open>What a reader that refuses links finds: the data and whether it is on the disk.\<close>

fun node_content :: "node option \<Rightarrow> (bytes \<times> bool) option" where
  "node_content (Some (File _ d s)) = Some (d, s)"
| "node_content _ = None"

definition content :: "string \<Rightarrow> files \<Rightarrow> (bytes \<times> bool) option" where
  "content p fs = node_content (node_at fs p)"

lemma content_put [simp]: "content q (put_node p n fs) = (if q = p then node_content (Some n) else content q fs)"
  by (simp add: content_def)

lemma content_drop [simp]: "content q (drop_node p fs) = (if q = p then None else content q fs)"
  by (simp add: content_def)

text \<open>Links are followed up to a depth; a relative target is seen from the link's directory.\<close>

fun follow :: "nat \<Rightarrow> files \<Rightarrow> string \<Rightarrow> string option" where
  "follow 0 fs p = None"
| "follow (Suc n) fs p = (case node_at fs p of
     Some (Symlink target) \<Rightarrow>
       follow n fs (if filepath_IsAbs target then target else filepath_Join [filepath_Dir p, target])
   | _ \<Rightarrow> Some p)"

definition max_links :: nat where "max_links = 40"

section \<open>Calls\<close>

text \<open>
  The system decides which calls fail and how, how much a failing write has written, and which
  names a temporary file is offered.
\<close>

record os_env =
  oe_fails :: "nat \<Rightarrow> goerror option"
  oe_written :: "nat \<Rightarrow> nat"
  oe_name :: "nat \<Rightarrow> nat"

record os =
  os_files :: files
  os_calls :: nat
  os_failed :: nat
  os_seen :: "files list"

type_synonym 'a io = "os \<Rightarrow> 'a result \<times> os"

definition os_step :: "'a result \<Rightarrow> files \<Rightarrow> os \<Rightarrow> os" where
  "os_step r fs w = w\<lparr>os_files := fs, os_calls := Suc (os_calls w),
     os_failed := os_failed w + (case r of Inl _ \<Rightarrow> 1 | Inr _ \<Rightarrow> 0), os_seen := fs # os_seen w\<rparr>"

definition os_call :: "os_env \<Rightarrow> (files \<Rightarrow> 'a result \<times> files) \<Rightarrow> 'a io" where
  "os_call env f w =
     (case (case oe_fails env (os_calls w) of Some e \<Rightarrow> (Inl e, os_files w) | None \<Rightarrow> f (os_files w)) of
        (r, fs) \<Rightarrow> (r, os_step r fs w))"

definition io_return :: "'a \<Rightarrow> 'a io" where
  "io_return x w = (Inr x, w)"

definition io_fail :: "goerror \<Rightarrow> 'a io" where
  "io_fail e w = (Inl e, w)"

text \<open>\<open>if err != nil { return fmt.Errorf(...) }\<close>\<close>

definition io_then :: "(goerror \<Rightarrow> goerror) \<Rightarrow> 'a io \<Rightarrow> ('a \<Rightarrow> 'b io) \<Rightarrow> 'b io" where
  "io_then wrap m k w = (case m w of (Inl e, w) \<Rightarrow> (Inl (wrap e), w) | (Inr x, w) \<Rightarrow> k x w)"

text \<open>A call whose error is ignored.\<close>

definition io_also :: "'a io \<Rightarrow> os \<Rightarrow> os" where
  "io_also m w = snd (m w)"

definition on_path :: "(string \<Rightarrow> node \<Rightarrow> files \<Rightarrow> 'a result \<times> files) \<Rightarrow> string \<Rightarrow> files \<Rightarrow> 'a result \<times> files" where
  "on_path f p fs = (case follow max_links fs p of
     None \<Rightarrow> (Inl (Errorf ''too many levels of symbolic links''), fs)
   | Some q \<Rightarrow> (case node_at fs q of None \<Rightarrow> (Inl OS_NotExist, fs) | Some n \<Rightarrow> f q n fs))"

fun set_mode :: "nat \<Rightarrow> node \<Rightarrow> node" where
  "set_mode m (Directory _) = Directory m"
| "set_mode m (File _ d s) = File m d s"
| "set_mode m n = n"

definition os_Chmod :: "os_env \<Rightarrow> string \<Rightarrow> nat \<Rightarrow> unit io" where
  "os_Chmod env p m = os_call env (on_path (\<lambda>q n fs. (Inr (), put_node q (set_mode m n) fs)) p)"

definition os_Lstat :: "os_env \<Rightarrow> string \<Rightarrow> node io" where
  "os_Lstat env p = os_call env (\<lambda>fs. (case node_at fs p of None \<Rightarrow> Inl OS_NotExist | Some n \<Rightarrow> Inr n, fs))"

definition os_Stat :: "os_env \<Rightarrow> string \<Rightarrow> node io" where
  "os_Stat env p = os_call env (on_path (\<lambda>q n fs. (Inr n, fs)) p)"

definition os_ReadFile :: "os_env \<Rightarrow> string \<Rightarrow> bytes io" where
  "os_ReadFile env p = os_call env (on_path (\<lambda>q n fs.
     (case n of File _ d _ \<Rightarrow> Inr d | _ \<Rightarrow> Inl (Errorf ''not a regular file''), fs)) p)"

definition os_Mkdir :: "os_env \<Rightarrow> string \<Rightarrow> nat \<Rightarrow> unit io" where
  "os_Mkdir env p m = os_call env (\<lambda>fs.
     if node_at fs p = None then (Inr (), put_node p (Directory m) fs) else (Inl (Errorf ''file exists''), fs))"

text \<open>\<open>os.MkdirAll\<close> makes what is missing of a path, from the top.\<close>

definition is_directory :: "files \<Rightarrow> string \<Rightarrow> bool" where
  "is_directory fs p = (case follow max_links fs p of
     None \<Rightarrow> False | Some q \<Rightarrow> (case node_at fs q of Some (Directory _) \<Rightarrow> True | _ \<Rightarrow> False))"

fun parents :: "string \<Rightarrow> string \<Rightarrow> string list" where
  "parents done' [] = (if done' = [] then [] else [done'])"
| "parents done' (c # p) = (if c = CHR ''/'' \<and> done' \<noteq> [] then done' # parents (done' @ [c]) p else parents (done' @ [c]) p)"

fun mkdir_each :: "os_env \<Rightarrow> nat \<Rightarrow> string list \<Rightarrow> unit io" where
  "mkdir_each env m [] = io_return ()"
| "mkdir_each env m (p # ps) = (\<lambda>w.
     if is_directory (os_files w) p then mkdir_each env m ps w
     else if node_at (os_files w) p \<noteq> None then io_fail (Errorf ''not a directory'') w
     else io_then id (os_Mkdir env p m) (\<lambda>_. mkdir_each env m ps) w)"

definition os_MkdirAll :: "os_env \<Rightarrow> string \<Rightarrow> nat \<Rightarrow> unit io" where
  "os_MkdirAll env p m w =
     (if is_directory (os_files w) p then (Inr (), w) else mkdir_each env m (parents [] (path_Clean p)) w)"

text \<open>\<open>os.CreateTemp\<close> offers ten thousand names; the pattern ends in its only star.\<close>

definition temp_name :: "string \<Rightarrow> string \<Rightarrow> nat \<Rightarrow> string" where
  "temp_name dir prefix n =
     (if dir \<noteq> [] \<and> last dir = CHR ''/'' then dir else dir @ ''/'') @ prefix @ show_nat n"

definition os_CreateTemp :: "os_env \<Rightarrow> string \<Rightarrow> string \<Rightarrow> string io" where
  "os_CreateTemp env dir prefix = os_call env (\<lambda>fs.
     if CHR ''/'' \<in> set prefix then (Inl (Errorf ''pattern contains path separator''), fs)
     else if \<not> is_directory fs dir then (Inl OS_NotExist, fs)
     else case find (\<lambda>p. node_at fs p = None) (map (\<lambda>i. temp_name dir prefix (oe_name env i)) [0..<10000]) of
         None \<Rightarrow> (Inl (Errorf ''file exists''), fs)
       | Some p \<Rightarrow> (Inr p, put_node p (File 384 [] False) fs))"

text \<open>The calls on the open temporary file, which keeps its name until it is renamed.\<close>

definition file_Chmod :: "os_env \<Rightarrow> string \<Rightarrow> nat \<Rightarrow> unit io" where
  "file_Chmod env p m = os_call env (\<lambda>fs. case node_at fs p of
     Some n \<Rightarrow> (Inr (), put_node p (set_mode m n) fs) | None \<Rightarrow> (Inr (), fs))"

definition file_Write :: "os_env \<Rightarrow> string \<Rightarrow> bytes \<Rightarrow> unit io" where
  "file_Write env p d w = (case node_at (os_files w) p of
     Some (File m old _) \<Rightarrow>
       (case oe_fails env (os_calls w) of
          Some e \<Rightarrow> (Inl e, os_step (Inl e :: unit result) (put_node p (File m (old @ take (oe_written env (os_calls w)) d) False) (os_files w)) w)
        | None \<Rightarrow> (Inr (), os_step (Inr ()) (put_node p (File m (old @ d) False) (os_files w)) w))
   | _ \<Rightarrow> (Inl (Errorf ''bad file''), os_step (Inl (Errorf []) :: unit result) (os_files w) w))"

definition file_Sync :: "os_env \<Rightarrow> string \<Rightarrow> unit io" where
  "file_Sync env p = os_call env (\<lambda>fs. case node_at fs p of
     Some (File m d _) \<Rightarrow> (Inr (), put_node p (File m d True) fs) | _ \<Rightarrow> (Inr (), fs))"

definition file_Close :: "os_env \<Rightarrow> string \<Rightarrow> unit io" where
  "file_Close env p = os_call env (\<lambda>fs. (Inr (), fs))"

definition os_Rename :: "os_env \<Rightarrow> string \<Rightarrow> string \<Rightarrow> unit io" where
  "os_Rename env p q = os_call env (\<lambda>fs. case node_at fs p of
     None \<Rightarrow> (Inl OS_NotExist, fs)
   | Some n \<Rightarrow> (case node_at fs q of
       Some (Directory _) \<Rightarrow> (Inl (Errorf ''file exists''), fs)
     | _ \<Rightarrow> (Inr (), put_node q n (drop_node p fs))))"

definition os_Remove :: "os_env \<Rightarrow> string \<Rightarrow> unit io" where
  "os_Remove env p = os_call env (\<lambda>fs. case node_at fs p of
     None \<Rightarrow> (Inl OS_NotExist, fs)
   | Some (Directory _) \<Rightarrow>
       if list_ex (\<lambda>e. filepath_Dir (fst e) = p \<and> fst e \<noteq> p) fs then (Inl (Errorf ''directory not empty''), fs)
       else (Inr (), drop_node p fs)
   | Some _ \<Rightarrow> (Inr (), drop_node p fs))"

text \<open>Opening a directory, syncing it and closing it leave the files as they are.\<close>

definition os_Open :: "os_env \<Rightarrow> string \<Rightarrow> unit io" where
  "os_Open env p = os_call env (on_path (\<lambda>q n fs. (Inr (), fs)) p)"

definition os_SyncDir :: "os_env \<Rightarrow> string \<Rightarrow> unit io" where
  "os_SyncDir env p = os_call env (\<lambda>fs. (Inr (), fs))"

definition io_lift :: "'a result \<Rightarrow> 'a io" where
  "io_lift r = (case r of Inl e \<Rightarrow> io_fail e | Inr x \<Rightarrow> io_return x)"

section \<open>A logic for programs\<close>

text \<open>From \<open>P\<close> a program either succeeds with a result that satisfies \<open>Q\<close> or fails in \<open>E\<close>.\<close>

definition triple :: "(os \<Rightarrow> bool) \<Rightarrow> 'a io \<Rightarrow> ('a \<Rightarrow> os \<Rightarrow> bool) \<Rightarrow> (os \<Rightarrow> bool) \<Rightarrow> bool" where
  "triple P m Q E \<longleftrightarrow> (\<forall>w. P w \<longrightarrow> (case m w of (Inr x, w') \<Rightarrow> Q x w' | (Inl _, w') \<Rightarrow> E w'))"

lemma tripleI: "(\<And>w. P w \<Longrightarrow> case m w of (Inr x, w') \<Rightarrow> Q x w' | (Inl _, w') \<Rightarrow> E w') \<Longrightarrow> triple P m Q E"
  by (simp add: triple_def)

lemma triple_success: "triple P m Q E \<Longrightarrow> P w \<Longrightarrow> m w = (Inr x, w') \<Longrightarrow> Q x w'"
  by (auto simp: triple_def dest!: spec [of _ w])

lemma triple_failure: "triple P m Q E \<Longrightarrow> P w \<Longrightarrow> m w = (Inl e, w') \<Longrightarrow> E w'"
  by (auto simp: triple_def dest!: spec [of _ w])

lemma triple_then:
  "triple P m Q E \<Longrightarrow> (\<And>x. triple (Q x) (k x) R E) \<Longrightarrow> triple P (io_then wrap m k) R E"
  by (fastforce simp: triple_def io_then_def split: prod.splits sum.splits)

lemma triple_return: "(\<And>w. P w \<Longrightarrow> Q x w) \<Longrightarrow> triple P (io_return x) Q E"
  by (simp add: triple_def io_return_def)

lemma triple_fail: "(\<And>w. P w \<Longrightarrow> E w) \<Longrightarrow> triple P (io_fail e) Q E"
  by (simp add: triple_def io_fail_def)

lemma triple_weaken:
  "triple P m Q E \<Longrightarrow> (\<And>w. P' w \<Longrightarrow> P w) \<Longrightarrow> (\<And>x w. Q x w \<Longrightarrow> Q' x w) \<Longrightarrow> (\<And>w. E w \<Longrightarrow> E' w) \<Longrightarrow> triple P' m Q' E'"
  by (fastforce simp: triple_def split: prod.splits sum.splits)

lemma triple_if: "(b \<Longrightarrow> triple P m Q E) \<Longrightarrow> (\<not> b \<Longrightarrow> triple P m' Q E) \<Longrightarrow> triple P (if b then m else m') Q E"
  by simp

text \<open>A call: its effect when the system lets it pass, and no effect when it does not.\<close>

lemma triple_call:
  assumes "\<And>w r fs. P w \<Longrightarrow> f (os_files w) = (r, fs) \<Longrightarrow> (case r of Inr x \<Rightarrow> Q x (os_step r fs w) | Inl _ \<Rightarrow> E (os_step r fs w))"
    and "\<And>w e. P w \<Longrightarrow> E (os_step (Inl e :: 'a result) (os_files w) w)"
  shows "triple P (os_call env (f :: files \<Rightarrow> 'a result \<times> files)) Q E"
proof (rule tripleI)
  fix w
  assume "P w"
  then show "case os_call env f w of (Inr x, w') \<Rightarrow> Q x w' | (Inl _, w') \<Rightarrow> E w'"
    using assms(1) [of w "fst (f (os_files w))" "snd (f (os_files w))"] assms(2)
    by (auto simp: os_call_def split: option.splits prod.splits sum.splits)
qed

lemma os_step_fields [simp]:
  "os_files (os_step r fs w) = fs" "os_seen (os_step r fs w) = fs # os_seen w"
  "os_failed (os_step (Inl e :: 'a result) fs w) = Suc (os_failed w)" "os_failed (os_step (Inr x :: 'b result) fs w) = os_failed w"
  by (simp_all add: os_step_def)

section \<open>Programs that change no content\<close>

lemma content_mode: "node_at fs q = Some n \<Longrightarrow> node_content (Some (set_mode m n)) = content q fs"
  by (cases n) (simp_all add: content_def)

lemma content_absent: "node_at fs q = None \<Longrightarrow> content q fs = None"
  by (simp add: content_def)

lemma on_path_cases:
  "on_path f p fs = (r, fs') \<Longrightarrow> (\<exists>e. r = Inl e \<and> fs' = fs) \<or> (\<exists>q n. node_at fs q = Some n \<and> f q n fs = (r, fs'))"
  by (auto simp: on_path_def split: option.splits)

text \<open>
  Such a program leaves the contents as they are, at the end and at every call, counts no failure
  when it succeeds, and does not forget what it has seen.
\<close>

definition same_content :: "files \<Rightarrow> files \<Rightarrow> bool" where
  "same_content fs fs' \<longleftrightarrow> (\<forall>q. content q fs' = content q fs)"

definition quiet_from :: "os \<Rightarrow> 'a result \<times> os \<Rightarrow> bool" where
  "quiet_from w rw \<longleftrightarrow> same_content (os_files w) (os_files (snd rw)) \<and> os_failed w \<le> os_failed (snd rw)
     \<and> ((\<exists>x. fst rw = Inr x) \<longrightarrow> os_failed (snd rw) = os_failed w)
     \<and> (\<exists>new. os_seen (snd rw) = new @ os_seen w \<and> list_all (same_content (os_files w)) new)"

definition quiet_io :: "'a io \<Rightarrow> bool" where
  "quiet_io m \<longleftrightarrow> (\<forall>w. quiet_from w (m w))"

lemma same_content_refl [simp]: "same_content fs fs"
  by (simp add: same_content_def)

lemma same_content_trans: "same_content a b \<Longrightarrow> same_content b c \<Longrightarrow> same_content a c"
  by (simp add: same_content_def)

lemma quiet_return [intro]: "quiet_io (io_return x)" "quiet_io (io_fail e)"
  by (simp_all add: quiet_io_def quiet_from_def io_return_def io_fail_def)

lemma quiet_from_trans:
  assumes "quiet_from w (Inr x, v)" and "quiet_from v (r, u)"
  shows "quiet_from w (r, u)"
proof -
  from assms obtain new new' where n: "os_seen v = new @ os_seen w" "list_all (same_content (os_files w)) new"
    "os_seen u = new' @ os_seen v" "list_all (same_content (os_files v)) new'"
    unfolding quiet_from_def by auto
  from assms have "same_content (os_files w) (os_files v)" by (simp add: quiet_from_def)
  with n have "os_seen u = (new' @ new) @ os_seen w \<and> list_all (same_content (os_files w)) (new' @ new)"
    by (auto simp: list_all_iff intro: same_content_trans)
  then show ?thesis
    using assms by (auto simp: quiet_from_def intro: same_content_trans)
qed

lemma quiet_then [intro]: "quiet_io m \<Longrightarrow> (\<And>x. quiet_io (k x)) \<Longrightarrow> quiet_io (io_then wrap m k)"
  unfolding quiet_io_def
proof
  fix w
  assume m: "\<forall>w. quiet_from w (m w)" and k: "\<And>x. \<forall>w. quiet_from w (k x w)"
  show "quiet_from w (io_then wrap m k w)"
  proof (cases "m w")
    case (Pair r v)
    show ?thesis
    proof (cases r)
      case (Inl e)
      then show ?thesis using m [rule_format, of w] Pair by (simp add: io_then_def quiet_from_def)
    next
      case (Inr x)
      then show ?thesis
        using m [rule_format, of w] k [rule_format, of v x] Pair
        by (cases "k x v") (auto simp: io_then_def intro: quiet_from_trans)
    qed
  qed
qed

lemma quiet_call:
  assumes "\<And>fs r fs'. f fs = (r, fs') \<Longrightarrow> same_content fs fs'"
  shows "quiet_io (os_call env f)"
  unfolding quiet_io_def quiet_from_def os_call_def
  using assms by (auto simp: os_step_def list_all_iff split: option.splits prod.splits sum.splits)

lemma quiet_chmod [intro]: "quiet_io (os_Chmod env p m)"
  unfolding os_Chmod_def
  by (rule quiet_call) (auto dest!: on_path_cases simp: same_content_def content_mode)

lemma quiet_reads [intro]:
  "quiet_io (os_Lstat env p)" "quiet_io (os_Stat env p)" "quiet_io (os_ReadFile env p)" "quiet_io (os_Open env p)"
  "quiet_io (file_Close env p)"
  unfolding os_Lstat_def os_Stat_def os_ReadFile_def os_Open_def file_Close_def
  by (rule quiet_call; auto dest!: on_path_cases)+

lemma quiet_mkdir: "quiet_io (os_Mkdir env p m)"
  unfolding os_Mkdir_def
  by (rule quiet_call) (auto simp: same_content_def content_absent split: if_splits)

lemma quiet_mkdir_each: "quiet_io (mkdir_each env m ps)"
proof (induction ps)
  case Nil
  show ?case by (simp add: quiet_return)
next
  case (Cons p ps)
  have "quiet_io (io_then id (os_Mkdir env p m) (\<lambda>_. mkdir_each env m ps))"
    by (intro quiet_then quiet_mkdir Cons)
  moreover have "quiet_io (io_fail (Errorf ''not a directory'') :: unit io)" by (rule quiet_return)
  ultimately show ?case using Cons by (simp add: quiet_io_def)
qed

lemma quiet_mkdirAll [intro]: "quiet_io (os_MkdirAll env p m)"
proof -
  have "quiet_io (io_return () :: unit io)" by (rule quiet_return)
  then show ?thesis using quiet_mkdir_each [of env m] by (simp add: quiet_io_def os_MkdirAll_def io_return_def)
qed

end
