(* ===== verification/Atomic_Write.thy ===== *)
theory Atomic_Write
  imports Go_Os
begin

text \<open>
  How the program replaces a file: \<open>Store.Save\<close> of the configuration, \<open>StateStore.Save\<close> of the
  daemon and \<open>writeAtomic\<close> of the certificates write a temporary file beside it, sync it and rename
  it. Whatever call fails and whenever the machine stops, the file has its old content or all of
  the new one, on the disk.
\<close>

section \<open>The steps\<close>

text \<open>The part of the three functions that is the same, with their own error texts.\<close>

definition fill_temporary :: "os_env \<Rightarrow> (string \<Rightarrow> goerror \<Rightarrow> goerror) \<Rightarrow> string \<Rightarrow> string \<Rightarrow> string \<Rightarrow> bytes \<Rightarrow> nat \<Rightarrow> unit io" where
  "fill_temporary env problem secure temporary path d mode =
     io_then (problem secure) (file_Chmod env temporary mode) (\<lambda>_.
     io_then (problem ''write temporary file: '') (file_Write env temporary d) (\<lambda>_.
     io_then (problem ''sync temporary file: '') (file_Sync env temporary) (\<lambda>_.
     io_then (problem ''close temporary file: '') (file_Close env temporary) (\<lambda>_.
     io_then (problem ''replace file: '') (os_Rename env temporary path) io_return))))"

text \<open>
  The deferred function closes the file again and removes it unless it was renamed; what follows
  the renaming runs before it.
\<close>

definition replace_file ::
  "os_env \<Rightarrow> (string \<Rightarrow> goerror \<Rightarrow> goerror) \<Rightarrow> string \<Rightarrow> string \<Rightarrow> bytes \<Rightarrow> nat \<Rightarrow> unit io \<Rightarrow> unit io" where
  "replace_file env problem secure path d mode afterwards =
     io_then (problem ''create temporary file: '')
       (os_CreateTemp env (filepath_Dir path) (''.'' @ filepath_Base path @ ''.tmp-'')) (\<lambda>temporary w.
       case fill_temporary env problem secure temporary path d mode w of
         (Inl e, w) \<Rightarrow> (Inl e, io_also (os_Remove env temporary) (io_also (file_Close env temporary) w))
       | (Inr _, w) \<Rightarrow> (case afterwards w of (r, w) \<Rightarrow> (r, io_also (file_Close env temporary) w)))"

section \<open>The names of temporary files\<close>

lemma base_of_name:
  assumes "n \<noteq> []" and "CHR ''/'' \<notin> set n"
  shows "filepath_Base (d @ ''/'' @ n) = n"
proof -
  have nl: "last n \<noteq> CHR ''/''" using assms last_in_set by metis
  have "dropWhile (\<lambda>c. c = CHR ''/'') (rev (d @ ''/'' @ n)) = rev (d @ ''/'' @ n)"
    using assms(1) nl by (cases n rule: rev_cases) auto
  moreover have "takeWhile (\<lambda>c. c \<noteq> CHR ''/'') (rev n @ CHR ''/'' # rev d) = rev n"
    using assms(2) by (subst takeWhile_append2) auto
  ultimately show ?thesis by (simp add: filepath_Base_def)
qed

lemma show_nat_digits: "c \<in> set (show_nat n) \<Longrightarrow> is_digit c"
proof (induction n rule: show_nat.induct)
  case (1 n)
  then show ?case using show_nat.simps [of n] by (auto simp: is_digit_def split: if_splits)
qed

lemma temp_name_base:
  assumes "CHR ''/'' \<notin> set prefix" and "prefix \<noteq> []"
  shows "filepath_Base (temp_name dir prefix n) = prefix @ show_nat n"
proof -
  have "CHR ''/'' \<notin> set (show_nat n)" using show_nat_digits [of "CHR ''/''" n] by (auto simp: is_digit_def)
  with assms have n: "CHR ''/'' \<notin> set (prefix @ show_nat n)" "prefix @ show_nat n \<noteq> []" by auto
  show ?thesis
  proof (cases "dir \<noteq> [] \<and> last dir = CHR ''/''")
    case True
    then obtain d where d: "dir = d @ ''/''" by (metis append_butlast_last_id)
    then have "temp_name dir prefix n = d @ ''/'' @ (prefix @ show_nat n)"
      by (simp add: temp_name_def)
    then show ?thesis using base_of_name [OF n(2,1)] by simp
  next
    case False
    then have "temp_name dir prefix n = dir @ ''/'' @ (prefix @ show_nat n)" by (auto simp: temp_name_def)
    then show ?thesis using base_of_name [OF n(2,1)] by simp
  qed
qed

lemma temp_is_other: "CHR ''/'' \<notin> set (filepath_Base path) \<Longrightarrow> temp_name dir (''.'' @ filepath_Base path @ ''.tmp-'') n \<noteq> path"
proof
  assume "CHR ''/'' \<notin> set (filepath_Base path)" and "temp_name dir (''.'' @ filepath_Base path @ ''.tmp-'') n = path"
  then have "length (filepath_Base path) = length ((''.'' @ filepath_Base path @ ''.tmp-'') @ show_nat n)"
    using temp_name_base [of "''.'' @ filepath_Base path @ ''.tmp-''" dir n] by auto
  then show False by simp
qed


section \<open>What each step does\<close>

text \<open>
  While the temporary file \<open>t\<close> is there as \<open>n\<close>: everything else has the contents \<open>c\<close>, and
  whenever the program could have been stopped, the file \<open>path\<close> had one of the contents \<open>V\<close>.
\<close>

fun is_file :: "node \<Rightarrow> bool" where
  "is_file (File _ _ _) = True"
| "is_file _ = False"

definition temp_there ::
  "(string \<Rightarrow> (bytes \<times> bool) option) \<Rightarrow> string \<Rightarrow> (bytes \<times> bool) option set \<Rightarrow> string \<Rightarrow> nat \<Rightarrow> node \<Rightarrow> os \<Rightarrow> bool" where
  "temp_there c path V t f n w \<longleftrightarrow> (\<forall>q. q \<noteq> t \<longrightarrow> content q (os_files w) = c q) \<and> node_at (os_files w) t = Some n \<and> is_file n
     \<and> list_all (\<lambda>fs. content path fs \<in> V) (os_seen w) \<and> os_failed w = f"

definition temp_left where
  "temp_left c path V t f w \<longleftrightarrow> (\<exists>n. temp_there c path V t (Suc f) n w)"

definition replaced ::
  "(string \<Rightarrow> (bytes \<times> bool) option) \<Rightarrow> string \<Rightarrow> (bytes \<times> bool) option set \<Rightarrow> nat \<Rightarrow> node \<Rightarrow> os \<Rightarrow> bool" where
  "replaced c path V f n w \<longleftrightarrow> (\<forall>q. q \<noteq> path \<longrightarrow> content q (os_files w) = c q) \<and> node_at (os_files w) path = Some n
     \<and> list_all (\<lambda>fs. content path fs \<in> V) (os_seen w) \<and> os_failed w = f"

lemma temp_update:
  "temp_there c path V t f n w \<Longrightarrow> t \<noteq> path \<Longrightarrow> c path \<in> V \<Longrightarrow> is_file m \<Longrightarrow>
    temp_there c path V t f m (os_step (Inr x :: 'a result) (put_node t m (os_files w)) w)"
  by (auto simp: temp_there_def)

lemma temp_fail_update:
  "temp_there c path V t f n w \<Longrightarrow> t \<noteq> path \<Longrightarrow> c path \<in> V \<Longrightarrow> is_file m \<Longrightarrow>
    temp_left c path V t f (os_step (Inl e :: 'a result) (put_node t m (os_files w)) w)"
  by (auto simp: temp_there_def temp_left_def)

lemma temp_fail:
  "temp_there c path V t f n w \<Longrightarrow> t \<noteq> path \<Longrightarrow> c path \<in> V \<Longrightarrow>
    temp_left c path V t f (os_step (Inl e :: 'a result) (os_files w) w)"
  by (auto simp: temp_there_def temp_left_def)

text \<open>A call that only changes the temporary file.\<close>

lemma temp_call:
  assumes "t \<noteq> path" and "c path \<in> V" and "\<And>fs. node_at fs t = Some n \<Longrightarrow> g fs = (Inr (), put_node t m fs)" and "is_file m"
  shows "triple (temp_there c path V t f n) (os_call env g) (\<lambda>_. temp_there c path V t f m) (temp_left c path V t f)"
proof (rule triple_call)
  fix w and r :: "unit result" and fs
  assume w: "temp_there c path V t f n w" and g: "g (os_files w) = (r, fs)"
  from w have "node_at (os_files w) t = Some n" by (simp add: temp_there_def)
  with g assms(3) have "r = Inr () \<and> fs = put_node t m (os_files w)" by simp
  then show "case r of Inl _ \<Rightarrow> temp_left c path V t f (os_step r fs w) | Inr x \<Rightarrow> temp_there c path V t f m (os_step r fs w)"
    using temp_update [OF w assms(1,2,4)] by simp
next
  fix w e
  assume w: "temp_there c path V t f n w"
  show "temp_left c path V t f (os_step (Inl e :: unit result) (os_files w) w)" by (rule temp_fail [OF w assms(1,2)])
qed

lemma chmod_temp:
  "t \<noteq> path \<Longrightarrow> c path \<in> V \<Longrightarrow>
    triple (temp_there c path V t f (File m0 d s)) (file_Chmod env t m) (\<lambda>_. temp_there c path V t f (File m d s)) (temp_left c path V t f)"
  unfolding file_Chmod_def by (rule temp_call) simp_all

lemma sync_temp:
  "t \<noteq> path \<Longrightarrow> c path \<in> V \<Longrightarrow>
    triple (temp_there c path V t f (File m d s)) (file_Sync env t) (\<lambda>_. temp_there c path V t f (File m d True)) (temp_left c path V t f)"
  unfolding file_Sync_def by (rule temp_call) simp_all

lemma close_temp:
  assumes "t \<noteq> path" and "c path \<in> V"
  shows "triple (temp_there c path V t f n) (file_Close env t) (\<lambda>_. temp_there c path V t f n) (temp_left c path V t f)"
  unfolding file_Close_def
proof (rule triple_call)
  fix w and r :: "unit result" and fs
  assume "temp_there c path V t f n w" and "(Inr (), os_files w) = (r, fs)"
  then show "case r of Inl _ \<Rightarrow> temp_left c path V t f (os_step r fs w) | Inr x \<Rightarrow> temp_there c path V t f n (os_step r fs w)"
    using assms by (auto simp: temp_there_def)
next
  fix w e
  assume w: "temp_there c path V t f n w"
  show "temp_left c path V t f (os_step (Inl e :: unit result) (os_files w) w)" by (rule temp_fail [OF w assms])
qed

lemma write_temp:
  assumes "t \<noteq> path" and "c path \<in> V"
  shows "triple (temp_there c path V t f (File m [] s)) (file_Write env t d) (\<lambda>_. temp_there c path V t f (File m d False)) (temp_left c path V t f)"
  unfolding triple_def
proof (intro allI impI)
  fix w
  assume w: "temp_there c path V t f (File m [] s) w"
  then have "node_at (os_files w) t = Some (File m [] s)" by (simp add: temp_there_def)
  then show "case file_Write env t d w of (Inr x, w') \<Rightarrow> temp_there c path V t f (File m d False) w' | (Inl _, w') \<Rightarrow> temp_left c path V t f w'"
    by (simp add: file_Write_def temp_update [OF w assms] temp_fail_update [OF w assms] split: option.split)
qed

lemma rename_temp:
  assumes "t \<noteq> path" and "c path \<in> V" and "Some (d, True) \<in> V" and "c t = None"
  shows "triple (temp_there c path V t f (File m d True)) (os_Rename env t path) (\<lambda>_. replaced c path V f (File m d True)) (temp_left c path V t f)"
  unfolding os_Rename_def
proof (rule triple_call)
  fix w and r :: "unit result" and fs
  assume w: "temp_there c path V t f (File m d True) w"
    and step: "(case node_at (os_files w) t of None \<Rightarrow> (Inl OS_NotExist, os_files w)
     | Some n \<Rightarrow> (case node_at (os_files w) path of Some (Directory _) \<Rightarrow> (Inl (Errorf ''file exists''), os_files w)
        | _ \<Rightarrow> (Inr (), put_node path n (drop_node t (os_files w))))) = (r, fs)"
  from w have t: "node_at (os_files w) t = Some (File m d True)" by (simp add: temp_there_def)
  from step t consider (failed) e where "r = Inl e" "fs = os_files w"
    | (renamed) "r = Inr ()" "fs = put_node path (File m d True) (drop_node t (os_files w))"
    by (auto split: option.splits node.splits)
  then show "case r of Inl _ \<Rightarrow> temp_left c path V t f (os_step r fs w) | Inr x \<Rightarrow> replaced c path V f (File m d True) (os_step r fs w)"
  proof cases
    case failed
    then show ?thesis using temp_fail [OF w assms(1,2)] by simp
  next
    case renamed
    then show ?thesis using w assms by (auto simp: replaced_def temp_there_def)
  qed
next
  fix w e
  assume w: "temp_there c path V t f (File m d True) w"
  show "temp_left c path V t f (os_step (Inl e :: unit result) (os_files w) w)" by (rule temp_fail [OF w assms(1,2)])
qed

section \<open>The whole replacement\<close>

definition untouched ::
  "(string \<Rightarrow> (bytes \<times> bool) option) \<Rightarrow> string \<Rightarrow> (bytes \<times> bool) option set \<Rightarrow> nat \<Rightarrow> os \<Rightarrow> bool" where
  "untouched c path V f w \<longleftrightarrow> (\<forall>q. content q (os_files w) = c q) \<and> list_all (\<lambda>fs. content path fs \<in> V) (os_seen w) \<and> os_failed w = f"

definition given_up ::
  "(string \<Rightarrow> (bytes \<times> bool) option) \<Rightarrow> string \<Rightarrow> (bytes \<times> bool) option set \<Rightarrow> nat \<Rightarrow> os \<Rightarrow> bool" where
  "given_up c path V f w \<longleftrightarrow> content path (os_files w) \<in> V \<and> list_all (\<lambda>fs. content path fs \<in> V) (os_seen w)
     \<and> f \<le> os_failed w \<and> (os_failed w \<le> Suc f \<longrightarrow> (\<forall>q. q \<noteq> path \<longrightarrow> content q (os_files w) = c q))"

definition settled ::
  "(string \<Rightarrow> (bytes \<times> bool) option) \<Rightarrow> string \<Rightarrow> (bytes \<times> bool) option set \<Rightarrow> node \<Rightarrow> os \<Rightarrow> bool" where
  "settled c path V n w \<longleftrightarrow> (\<forall>q. q \<noteq> path \<longrightarrow> content q (os_files w) = c q) \<and> node_at (os_files w) path = Some n
     \<and> list_all (\<lambda>fs. content path fs \<in> V) (os_seen w)"

lemma fill_temporary_ok:
  assumes "t \<noteq> path" and "c path \<in> V" and "Some (d, True) \<in> V" and "c t = None"
  shows "triple (temp_there c path V t f (File m0 [] s)) (fill_temporary env problem secure t path d mode)
    (\<lambda>_. replaced c path V f (File mode d True)) (temp_left c path V t f)"
  unfolding fill_temporary_def
  by (rule triple_then, rule chmod_temp [where c = c and path = path and V = V, OF assms(1,2)],
      rule triple_then, rule write_temp [where c = c and path = path and V = V, OF assms(1,2)],
      rule triple_then, rule sync_temp [where c = c and path = path and V = V, OF assms(1,2)],
      rule triple_then, rule close_temp [where c = c and path = path and V = V, OF assms(1,2)],
      rule triple_then, rule rename_temp [where c = c and path = path and V = V, OF assms], rule triple_return)

lemma create_temp:
  assumes "c path \<in> V" and "prefix = ''.'' @ filepath_Base path @ ''.tmp-''"
  shows "triple (untouched c path V f) (os_CreateTemp env dir prefix)
    (\<lambda>t. \<lambda>w. t \<noteq> path \<and> c t = None \<and> temp_there c path V t f (File 384 [] False) w) (given_up c path V f)"
  unfolding os_CreateTemp_def
proof (rule triple_call)
  fix w and r :: "string result" and fs
  assume w: "untouched c path V f w"
    and g: "(if CHR ''/'' \<in> set prefix then (Inl (Errorf ''pattern contains path separator''), os_files w)
     else if \<not> is_directory (os_files w) dir then (Inl OS_NotExist, os_files w)
     else case find (\<lambda>p. node_at (os_files w) p = None) (map (\<lambda>i. temp_name dir prefix (oe_name env i)) [0..<10000]) of
         None \<Rightarrow> (Inl (Errorf ''file exists''), os_files w)
       | Some p \<Rightarrow> (Inr p, put_node p (File 384 [] False) (os_files w))) = (r, fs)"
  consider (failed) e where "r = Inl e" "fs = os_files w"
    | (made) p where "r = Inr p" "fs = put_node p (File 384 [] False) (os_files w)" "CHR ''/'' \<notin> set prefix"
        "find (\<lambda>p. node_at (os_files w) p = None) (map (\<lambda>i. temp_name dir prefix (oe_name env i)) [0..<10000]) = Some p"
    using g by (auto split: if_splits option.splits)
  then show "case r of Inl _ \<Rightarrow> given_up c path V f (os_step r fs w)
    | Inr t \<Rightarrow> t \<noteq> path \<and> c t = None \<and> temp_there c path V t f (File 384 [] False) (os_step r fs w)"
  proof cases
    case failed
    then show ?thesis using w assms(1) by (auto simp: untouched_def given_up_def)
  next
    case made
    then obtain i where i: "node_at (os_files w) p = None" "p = temp_name dir prefix (oe_name env i)"
      by (auto simp: find_Some_iff)
    have "c p = None" using w i(1) by (metis content_absent untouched_def)
    moreover have "p \<noteq> path" using made(3) temp_is_other [of path] i(2) assms(2) by auto
    ultimately show ?thesis using made(1,2) w assms(1) by (auto simp: untouched_def temp_there_def)
  qed
next
  fix w e
  assume "untouched c path V f w"
  then show "given_up c path V f (os_step (Inl e :: string result) (os_files w) w)"
    using assms(1) by (auto simp: untouched_def given_up_def)
qed

text \<open>The deferred function after a failure: a file that is left over means a second failed call.\<close>

lemma remove_temp:
  assumes "t \<noteq> path" and "c t = None" and "\<forall>q. q \<noteq> t \<longrightarrow> content q (os_files v) = c q" and "c path \<in> V"
    and n: "node_at (os_files v) t = Some n" "is_file n"
    and "list_all (\<lambda>fs. content path fs \<in> V) (os_seen v)" and "Suc f \<le> os_failed v"
  shows "given_up c path V f (io_also (os_Remove env t) v)"
proof (cases "oe_fails env (os_calls v)")
  case None
  then have "io_also (os_Remove env t) v = os_step (Inr ()) (drop_node t (os_files v)) v"
    using n by (cases n) (simp_all add: io_also_def os_Remove_def os_call_def)
  then show ?thesis using assms by (auto simp: given_up_def)
next
  case (Some e)
  then have "io_also (os_Remove env t) v = os_step (Inl e :: unit result) (os_files v) v"
    by (simp add: io_also_def os_Remove_def os_call_def)
  then show ?thesis using assms by (auto simp: given_up_def)
qed

lemma clean_up:
  assumes "t \<noteq> path" and "c path \<in> V" and "c t = None" and "temp_left c path V t f w"
  shows "given_up c path V f (io_also (os_Remove env t) (io_also (file_Close env t) w))"
proof -
  from assms(4) obtain n where n: "temp_there c path V t (Suc f) n w" by (auto simp: temp_left_def)
  have "os_files (io_also (file_Close env t) w) = os_files w"
    "list_all (\<lambda>fs. content path fs \<in> V) (os_seen (io_also (file_Close env t) w))"
    "Suc f \<le> os_failed (io_also (file_Close env t) w)"
    using n assms(1,2) by (auto simp: io_also_def file_Close_def os_call_def temp_there_def split: option.split)
  then show ?thesis using n assms by (intro remove_temp) (auto simp: temp_there_def)
qed

lemma close_settled:
  "replaced c path V f n w \<Longrightarrow> c path \<in> V \<Longrightarrow> content path (os_files w) \<in> V \<Longrightarrow> settled c path V n (io_also (file_Close env t) w)"
  by (auto simp: io_also_def file_Close_def os_call_def replaced_def settled_def split: option.split)

lemma close_replaced_left:
  "replaced c path V g n w \<Longrightarrow> f < g \<Longrightarrow> content path (os_files w) \<in> V \<Longrightarrow> given_up c path V f (io_also (file_Close env t) w)"
  by (auto simp: io_also_def file_Close_def os_call_def replaced_def given_up_def split: option.split)

lemma replace_file_ok:
  assumes V: "c path \<in> V" "Some (d, True) \<in> V"
    and after: "triple (replaced c path V f (File mode d True)) afterwards
      (\<lambda>_ w. \<exists>g. replaced c path V g (File mode d True) w) (\<lambda>w. \<exists>g>f. replaced c path V g (File mode d True) w)"
  shows "triple (untouched c path V f) (replace_file env problem secure path d mode afterwards)
    (\<lambda>_. settled c path V (File mode d True)) (given_up c path V f)"
  unfolding replace_file_def
proof (rule triple_then [OF create_temp [where c = c and path = path and V = V, OF V(1) refl]], rule tripleI)
  fix t w
  assume "t \<noteq> path \<and> c t = None \<and> temp_there c path V t f (File 384 [] False) w"
  then have t: "t \<noteq> path" "c t = None" and w: "temp_there c path V t f (File 384 [] False) w" by simp_all
  note body = fill_temporary_ok [where c = c and path = path and V = V, OF t(1) V t(2), of f 384 False env problem secure mode]
  have content: "content path (os_files v) \<in> V" if "replaced c path V g (File mode d True) v" for v g
    using that V(2) by (simp add: replaced_def content_def)
  show "case (case fill_temporary env problem secure t path d mode w of
         (Inl e, w) \<Rightarrow> (Inl e, io_also (os_Remove env t) (io_also (file_Close env t) w))
       | (Inr _, w) \<Rightarrow> (case afterwards w of (r, w) \<Rightarrow> (r, io_also (file_Close env t) w))) of
      (Inl _, w') \<Rightarrow> given_up c path V f w' | (Inr x, w') \<Rightarrow> settled c path V (File mode d True) w'"
  proof (cases "fill_temporary env problem secure t path d mode w")
    case (Pair r v)
    show ?thesis
    proof (cases r)
      case (Inl e)
      then have "temp_left c path V t f v" using triple_failure [OF body w] Pair by simp
      then show ?thesis using Inl Pair clean_up [where c = c and path = path and V = V, OF t(1) V(1) t(2)] by simp
    next
      case (Inr u)
      then have v: "replaced c path V f (File mode d True) v" using triple_success [OF body w] Pair by simp
      obtain r' u where u: "afterwards v = (r', u)" by (cases "afterwards v")
      show ?thesis
      proof (cases r')
        case (Inl e)
        then obtain g where "f < g" "replaced c path V g (File mode d True) u" using triple_failure [OF after v] u by blast
        then show ?thesis using Inl \<open>r = Inr _\<close> Pair u close_replaced_left content by simp
      next
        case (Inr x)
        then obtain g where "replaced c path V g (File mode d True) u" using triple_success [OF after v] u by blast
        then show ?thesis using Inr \<open>r = Inr _\<close> Pair u close_settled V(1) content by simp
      qed
    qed
  qed
qed

section \<open>Before and after the replacement\<close>

lemma quiet_untouched:
  assumes "quiet_io m" and "c path \<in> V"
  shows "triple (untouched c path V f) m (\<lambda>_. untouched c path V f) (given_up c path V f)"
proof (rule tripleI)
  fix w
  assume w: "untouched c path V f w"
  obtain r v where v: "m w = (r, v)" by (cases "m w")
  with assms(1) have q: "quiet_from w (r, v)" unfolding quiet_io_def by metis
  then have "\<forall>q. content q (os_files v) = c q"
    using w by (simp add: quiet_from_def same_content_def untouched_def)
  moreover have "list_all (\<lambda>fs. content path fs \<in> V) (os_seen v)"
    using q w assms(2) by (auto simp: quiet_from_def same_content_def untouched_def list_all_iff)
  ultimately show "case m w of (Inr x, w') \<Rightarrow> untouched c path V f w' | (Inl _, w') \<Rightarrow> given_up c path V f w'"
    using q w v assms(2) by (cases r) (auto simp: quiet_from_def untouched_def given_up_def)
qed

lemma follow_file: "node_at fs p = Some n \<Longrightarrow> is_file n \<Longrightarrow> follow max_links fs p = Some p"
  by (cases n) (simp_all add: max_links_def numeral_eq_Suc)

lemma chmod_replaced:
  assumes "Some (d, s) \<in> V"
  shows "triple (replaced c path V f (File m d s)) (os_Chmod env path m) (\<lambda>_. replaced c path V f (File m d s))
    (replaced c path V (Suc f) (File m d s))"
  unfolding os_Chmod_def
proof (rule triple_call)
  fix w and r :: "unit result" and fs
  assume w: "replaced c path V f (File m d s) w"
    and g: "on_path (\<lambda>q n fs. (Inr (), put_node q (set_mode m n) fs)) path (os_files w) = (r, fs)"
  from w have "node_at (os_files w) path = Some (File m d s)" by (simp add: replaced_def)
  with g have "r = Inr () \<and> fs = put_node path (File m d s) (os_files w)"
    by (auto simp: on_path_def follow_file)
  then show "case r of Inl _ \<Rightarrow> replaced c path V (Suc f) (File m d s) (os_step r fs w)
    | Inr x \<Rightarrow> replaced c path V f (File m d s) (os_step r fs w)"
    using w assms by (auto simp: replaced_def)
qed (use assms in \<open>auto simp: replaced_def content_def\<close>)

lemma same_replaced:
  assumes "Some (d, s) \<in> V" and "\<And>fs r fs'. g fs = (r, fs') \<Longrightarrow> fs' = fs"
  shows "triple (replaced c path V f (File m d s)) (os_call env g) (\<lambda>_. replaced c path V f (File m d s))
    (replaced c path V (Suc f) (File m d s))"
proof (rule triple_call)
  fix w and r :: "'a result" and fs
  assume w: "replaced c path V f (File m d s) w" and g: "g (os_files w) = (r, fs)"
  then have "fs = os_files w" using assms(2) by blast
  then show "case r of Inl _ \<Rightarrow> replaced c path V (Suc f) (File m d s) (os_step r fs w)
    | Inr x \<Rightarrow> replaced c path V f (File m d s) (os_step r fs w)"
    using w assms(1) by (cases r) (auto simp: replaced_def content_def)
qed (use assms(1) in \<open>auto simp: replaced_def content_def\<close>)

text \<open>The two ways the program ends a replacement: with the file secured, and with the directory synced as well.\<close>

definition secure_file :: "os_env \<Rightarrow> string \<Rightarrow> string \<Rightarrow> nat \<Rightarrow> unit io" where
  "secure_file env label path mode = io_then (Wrapf (label @ ''secure file permissions: '')) (os_Chmod env path mode) io_return"

definition sync_directory :: "os_env \<Rightarrow> string \<Rightarrow> string \<Rightarrow> unit io" where
  "sync_directory env label directory =
     io_then (Wrapf (label @ ''open directory for sync: '')) (os_Open env directory) (\<lambda>_ w.
       case io_then (Wrapf (label @ ''sync directory: '')) (os_SyncDir env directory) io_return w of
         (r, w) \<Rightarrow> (r, io_also (file_Close env directory) w))"

definition save_file :: "os_env \<Rightarrow> string \<Rightarrow> string \<Rightarrow> bytes \<Rightarrow> unit io \<Rightarrow> unit io" where
  "save_file env label path d afterwards =
     io_then (Wrapf (label @ ''create directory: '')) (os_MkdirAll env (filepath_Dir path) 448) (\<lambda>_.
     io_then (Wrapf (label @ ''secure directory permissions: '')) (os_Chmod env (filepath_Dir path) 448) (\<lambda>_.
     replace_file env (\<lambda>step. Wrapf (label @ step)) ''secure temporary file permissions: '' path d 384 afterwards))"

lemma secure_replaced:
  "Some (d, s) \<in> V \<Longrightarrow> triple (replaced c path V f (File m d s)) (secure_file env label path m)
    (\<lambda>_. replaced c path V f (File m d s)) (replaced c path V (Suc f) (File m d s))"
  unfolding secure_file_def by (rule triple_then [OF chmod_replaced triple_return])

lemma secure_after:
  "Some (d, s) \<in> V \<Longrightarrow> triple (replaced c path V f (File m d s)) (secure_file env label path m)
    (\<lambda>_ w. \<exists>g. replaced c path V g (File m d s) w) (\<lambda>w. \<exists>g>f. replaced c path V g (File m d s) w)"
  by (rule triple_weaken [OF secure_replaced]) auto

lemma sync_after:
  assumes "Some (d, s) \<in> V"
  shows "triple (replaced c path V f (File m d s)) (sync_directory env label directory)
    (\<lambda>_ w. \<exists>g. replaced c path V g (File m d s) w) (\<lambda>w. \<exists>g>f. replaced c path V g (File m d s) w)"
  unfolding sync_directory_def
proof (rule triple_then)
  show "triple (replaced c path V f (File m d s)) (os_Open env directory) (\<lambda>_. replaced c path V f (File m d s))
     (\<lambda>w. \<exists>g>f. replaced c path V g (File m d s) w)"
    unfolding os_Open_def by (rule triple_weaken [OF same_replaced [OF assms]]) (auto dest: on_path_cases)
  show "triple (replaced c path V f (File m d s)) (\<lambda>w. case io_then (Wrapf (label @ ''sync directory: '')) (os_SyncDir env directory) io_return w of
         (r, w) \<Rightarrow> (r, io_also (file_Close env directory) w))
    (\<lambda>_ w. \<exists>g. replaced c path V g (File m d s) w) (\<lambda>w. \<exists>g>f. replaced c path V g (File m d s) w)"
  proof (rule tripleI)
    fix w
    assume w: "replaced c path V f (File m d s) w"
    have sync: "triple (replaced c path V f (File m d s)) (io_then (Wrapf (label @ ''sync directory: '')) (os_SyncDir env directory) io_return)
      (\<lambda>_. replaced c path V f (File m d s)) (replaced c path V (Suc f) (File m d s))"
      unfolding os_SyncDir_def by (rule triple_then [OF same_replaced [OF assms] triple_return]) simp_all
    have close: "\<exists>g'\<ge>g. replaced c path V g' (File m d s) (io_also (file_Close env directory) v)"
      if "replaced c path V g (File m d s) v" for g v
      using that assms by (auto simp: io_also_def file_Close_def os_call_def replaced_def content_def split: option.split)
    show "case (case io_then (Wrapf (label @ ''sync directory: '')) (os_SyncDir env directory) io_return w of
         (r, w) \<Rightarrow> (r, io_also (file_Close env directory) w)) of
        (Inl _, w') \<Rightarrow> \<exists>g>f. replaced c path V g (File m d s) w' | (Inr x, w') \<Rightarrow> \<exists>g. replaced c path V g (File m d s) w'"
    proof (cases "io_then (Wrapf (label @ ''sync directory: '')) (os_SyncDir env directory) io_return w")
      case (Pair r v)
      show ?thesis
      proof (cases r)
        case (Inl e)
        then have "replaced c path V (Suc f) (File m d s) v" using triple_failure [OF sync w] Pair by simp
        from close [OF this] show ?thesis using Inl Pair by (auto dest: Suc_le_lessD)
      next
        case (Inr x)
        then have "replaced c path V f (File m d s) v" using triple_success [OF sync w] Pair by simp
        from close [OF this] show ?thesis using Inr Pair by auto
      qed
    qed
  qed
qed

lemma save_file_ok:
  assumes V: "c path \<in> V" "Some (d, True) \<in> V"
    and after: "triple (replaced c path V f (File 384 d True)) afterwards
      (\<lambda>_ w. \<exists>g. replaced c path V g (File 384 d True) w) (\<lambda>w. \<exists>g>f. replaced c path V g (File 384 d True) w)"
  shows "triple (untouched c path V f) (save_file env label path d afterwards)
    (\<lambda>_. settled c path V (File 384 d True)) (given_up c path V f)"
  unfolding save_file_def
  by (rule triple_then [OF quiet_untouched [where c = c and path = path and V = V, OF quiet_mkdirAll V(1)]],
      rule triple_then [OF quiet_untouched [where c = c and path = path and V = V, OF quiet_chmod V(1)]],
      rule replace_file_ok [where c = c and path = path and V = V, OF V after])

section \<open>What a store promises\<close>

text \<open>
  A store saves a value as one file and loads it back. Saving is a replacement of the encoding,
  and what loading returns is the decoding of what it finds in a regular file.
\<close>

definition allowed :: "files \<Rightarrow> string \<Rightarrow> bytes option \<Rightarrow> (bytes \<times> bool) option set" where
  "allowed fs path d = insert (content path fs) (case d of None \<Rightarrow> {} | Some d \<Rightarrow> {Some (d, True)})"

locale atomic_store =
  fixes path :: string
    and save :: "os_env \<Rightarrow> 'a \<Rightarrow> unit io"
    and load :: "os_env \<Rightarrow> 'a io"
    and enc :: "'a \<Rightarrow> bytes option"
    and dec :: "bytes \<Rightarrow> 'a option"
  assumes save_replaces: "triple (untouched c path (insert (c path) (case enc x of None \<Rightarrow> {} | Some d \<Rightarrow> {Some (d, True)})) f) (save env x)
      (\<lambda>_ w. \<exists>d. enc x = Some d \<and> settled c path (insert (c path) {Some (d, True)}) (File 384 d True) w)
      (given_up c path (insert (c path) (case enc x of None \<Rightarrow> {} | Some d \<Rightarrow> {Some (d, True)})) f)"
    and load_reads: "load env w = (Inr y, w') \<Longrightarrow> \<exists>d s. content path (os_files w) = Some (d, s) \<and> dec d = Some y"
begin

lemma save_from:
  assumes "save env x w = (r, w')" and "c path = content path (os_files w)" and "\<And>q. content q (os_files w) = c q"
    and "\<forall>fs\<in>set (os_seen w). content path fs = c path"
  shows "\<forall>fs\<in>set (os_seen w'). content path fs \<in> allowed (os_files w) path (enc x)"
    and "r = Inr () \<Longrightarrow> \<exists>d. enc x = Some d \<and> node_at (os_files w') path = Some (File 384 d True)
      \<and> (\<forall>q. q \<noteq> path \<longrightarrow> content q (os_files w') = c q)"
    and "r = Inl e \<Longrightarrow> content path (os_files w') \<in> allowed (os_files w) path (enc x)
      \<and> (os_failed w' \<le> Suc (os_failed w) \<longrightarrow> (\<forall>q. q \<noteq> path \<longrightarrow> content q (os_files w') = c q))"
proof -
  let ?V = "insert (c path) (case enc x of None \<Rightarrow> {} | Some d \<Rightarrow> {Some (d, True)})"
  have w: "untouched c path ?V (os_failed w) w" using assms(2-4) by (simp add: untouched_def list_all_iff)
  note S = save_replaces [where c = c and x = x and f = "os_failed w" and env = env]
  have ok: "r = Inr () \<Longrightarrow> \<exists>d. enc x = Some d \<and> settled c path (insert (c path) {Some (d, True)}) (File 384 d True) w'"
    using triple_success [OF S w] assms(1) by simp
  have bad: "r = Inl e \<Longrightarrow> given_up c path ?V (os_failed w) w'" for e
    using triple_failure [OF S w] assms(1) by simp
  have V: "allowed (os_files w) path (enc x) = ?V" using assms(2) by (simp add: allowed_def)
  show "\<forall>fs\<in>set (os_seen w'). content path fs \<in> allowed (os_files w) path (enc x)"
  proof (cases r)
    case (Inl e)
    then show ?thesis using bad unfolding V by (simp add: given_up_def list_all_iff)
  next
    case (Inr u)
    then show ?thesis using ok unfolding V by (auto simp: settled_def list_all_iff)
  qed
  show "r = Inr () \<Longrightarrow> \<exists>d. enc x = Some d \<and> node_at (os_files w') path = Some (File 384 d True)
      \<and> (\<forall>q. q \<noteq> path \<longrightarrow> content q (os_files w') = c q)"
    using ok by (auto simp: settled_def)
  show "r = Inl e \<Longrightarrow> content path (os_files w') \<in> allowed (os_files w) path (enc x)
      \<and> (os_failed w' \<le> Suc (os_failed w) \<longrightarrow> (\<forall>q. q \<noteq> path \<longrightarrow> content q (os_files w') = c q))"
    using bad unfolding V by (simp add: given_up_def)
qed

lemma save_cases:
  assumes "save env x w = (r, w')" and "os_seen w = []"
  shows "\<forall>fs\<in>set (os_seen w'). content path fs \<in> allowed (os_files w) path (enc x)"
    and "r = Inr () \<Longrightarrow> \<exists>d. enc x = Some d \<and> node_at (os_files w') path = Some (File 384 d True)
      \<and> (\<forall>q. q \<noteq> path \<longrightarrow> content q (os_files w') = content q (os_files w))"
    and "r = Inl e \<Longrightarrow> os_failed w' \<le> Suc (os_failed w) \<Longrightarrow> \<forall>q. q \<noteq> path \<longrightarrow> content q (os_files w') = content q (os_files w)"
  using save_from [where c = "\<lambda>q. content q (os_files w)", OF assms(1)] assms(2) by simp_all

text \<open>Whatever state a reader sees between two calls, it loads the old value or the new one.\<close>

lemma never_torn:
  assumes "save env x w = (r, w')" and "os_seen w = []" and "os_files v \<in> set (os_seen w')" and "load env' v = (Inr y, u)"
  shows "(\<exists>d s. content path (os_files w) = Some (d, s) \<and> dec d = Some y) \<or> (\<exists>d. enc x = Some d \<and> dec d = Some y)"
proof -
  obtain d s where d: "content path (os_files v) = Some (d, s)" "dec d = Some y" using load_reads [OF assms(4)] by auto
  have "content path (os_files v) \<in> allowed (os_files w) path (enc x)"
    using save_cases(1) [OF assms(1,2)] assms(3) by blast
  then have "content path (os_files w) = Some (d, s) \<or> enc x = Some d"
    unfolding allowed_def d(1) by (cases "enc x") auto
  then show ?thesis using d(2) by blast
qed

lemma saved_is_loaded:
  assumes "save env x w = (Inr (), w')" and "os_seen w = []" and "os_files v = os_files w'" and "load env' v = (Inr y, u)"
  shows "\<exists>d. enc x = Some d \<and> dec d = Some y"
  using load_reads [OF assms(4)] save_cases(2) [OF assms(1,2)] assms(3) by (auto simp: content_def)

end

text \<open>A store whose encoding is read back unchanged.\<close>

locale faithful_store = atomic_store path save load enc dec
  for path :: string and save :: "os_env \<Rightarrow> 'a \<Rightarrow> unit io" and load :: "os_env \<Rightarrow> 'a io"
    and enc :: "'a \<Rightarrow> bytes option" and dec :: "bytes \<Rightarrow> 'a option" +
  fixes plain :: "'a \<Rightarrow> bool"
  assumes enc_dec: "plain x \<Longrightarrow> enc x = Some d \<Longrightarrow> dec d = Some x"
begin

lemma old_or_new:
  assumes "save env x w = (r, w')" and "os_seen w = []" and "plain x"
    and "os_files v \<in> set (os_seen w')" and "load env' v = (Inr y, u)"
  shows "y = x \<or> (\<exists>d s. content path (os_files w) = Some (d, s) \<and> dec d = Some y)"
  using never_torn [OF assms(1,2,4,5)] enc_dec [OF assms(3)] by auto

lemma saved_value:
  assumes "save env x w = (Inr (), w')" and "os_seen w = []" and "plain x" and "os_files v = os_files w'"
    and "load env' v = (Inr y, u)"
  shows "y = x"
  using saved_is_loaded [OF assms(1,2,4,5)] enc_dec [OF assms(3)] by auto

end

section \<open>Loading\<close>

text \<open>
  What \<open>Load\<close> of both stores does before it decodes: the directory and the file are secured and
  the file has to be a regular one.
\<close>

definition read_secured :: "os_env \<Rightarrow> string \<Rightarrow> string \<Rightarrow> string \<Rightarrow> bytes io" where
  "read_secured env label what path =
     io_then (Wrapf (label @ ''secure directory permissions: '')) (os_Chmod env (filepath_Dir path) 448) (\<lambda>_.
     io_then (Wrapf (label @ ''inspect file: '')) (os_Lstat env path) (\<lambda>info.
       case info of
         Symlink _ \<Rightarrow> io_fail (Errorf (label @ what @ '' file must not be a symlink''))
       | File _ _ _ \<Rightarrow>
           io_then (Wrapf (label @ ''secure file permissions: '')) (os_Chmod env path 384) (\<lambda>_.
           io_then (Wrapf label) (os_ReadFile env path) io_return)
       | _ \<Rightarrow> io_fail (Errorf (label @ what @ '' file must be regular''))))"

lemma quiet_triple: "quiet_io m \<Longrightarrow> triple (\<lambda>w. content p (os_files w) = x) m (\<lambda>_ w. content p (os_files w) = x) (\<lambda>_. True)"
proof (rule tripleI)
  fix w :: os
  assume m: "quiet_io m" and w: "content p (os_files w) = x"
  obtain r v where v: "m w = (r, v)" by (cases "m w")
  with m have "quiet_from w (r, v)" unfolding quiet_io_def by metis
  then show "case m w of (Inr y, v) \<Rightarrow> content p (os_files v) = x | (Inl _, v) \<Rightarrow> True"
    using v w by (simp add: quiet_from_def same_content_def split: sum.split)
qed

lemma lstat_triple:
  "triple (\<lambda>w. content p (os_files w) = x) (os_Lstat env p) (\<lambda>n w. content p (os_files w) = x \<and> (is_file n \<longrightarrow> x \<noteq> None)) (\<lambda>_. True)"
  unfolding os_Lstat_def
  by (rule triple_call) (auto simp: content_def split: option.splits elim!: is_file.elims)

lemma read_triple:
  "triple (\<lambda>w. content p (os_files w) = Some (d, s)) (os_ReadFile env p) (\<lambda>r _. r = d) (\<lambda>_. True)"
  unfolding os_ReadFile_def
proof (rule triple_call)
  fix w and r :: "bytes result" and fs
  assume "content p (os_files w) = Some (d, s)"
    and g: "on_path (\<lambda>q n fs. (case n of File _ d _ \<Rightarrow> Inr d | _ \<Rightarrow> Inl (Errorf ''not a regular file''), fs)) p (os_files w) = (r, fs)"
  then obtain m where "node_at (os_files w) p = Some (File m d s)"
    by (auto simp: content_def elim!: node_content.elims)
  with g show "case r of Inl _ \<Rightarrow> True | Inr x \<Rightarrow> x = d" by (auto simp: on_path_def follow_file)
qed simp

lemma read_secured_content:
  assumes "read_secured env label what path w = (Inr d, w')"
  shows "\<exists>s. content path (os_files w) = Some (d, s)"
proof -
  let ?x = "content path (os_files w)"
  have "triple (\<lambda>w. content path (os_files w) = ?x) (read_secured env label what path) (\<lambda>d _. \<exists>s. ?x = Some (d, s)) (\<lambda>_. True)"
    unfolding read_secured_def
  proof (rule triple_then [OF quiet_triple [OF quiet_chmod]], rule triple_then [OF lstat_triple])
    fix info
    show "triple (\<lambda>w. content path (os_files w) = ?x \<and> (is_file info \<longrightarrow> ?x \<noteq> None))
      (case info of
         Symlink _ \<Rightarrow> io_fail (Errorf (label @ what @ '' file must not be a symlink''))
       | File _ _ _ \<Rightarrow>
           io_then (Wrapf (label @ ''secure file permissions: '')) (os_Chmod env path 384) (\<lambda>_.
           io_then (Wrapf label) (os_ReadFile env path) io_return)
       | _ \<Rightarrow> io_fail (Errorf (label @ what @ '' file must be regular'')))
      (\<lambda>d _. \<exists>s. ?x = Some (d, s)) (\<lambda>_. True)"
    proof (cases "is_file info \<and> ?x \<noteq> None")
      case True
      then obtain d s where x: "?x = Some (d, s)" by auto
      have "triple (\<lambda>w. content path (os_files w) = ?x)
         (io_then (Wrapf (label @ ''secure file permissions: '')) (os_Chmod env path 384) (\<lambda>_.
           io_then (Wrapf label) (os_ReadFile env path) io_return)) (\<lambda>d _. \<exists>s. ?x = Some (d, s)) (\<lambda>_. True)"
        by (rule triple_then [OF quiet_triple [OF quiet_chmod]], rule triple_then [OF read_triple [of path d s env, folded x]],
            rule triple_return) (simp add: x)
      then show ?thesis using True by (cases info) (auto intro: triple_weaken)
    next
      case False
      then show ?thesis by (cases info) (auto simp: triple_def io_fail_def)
    qed
  qed
  then show ?thesis using triple_success assms by fastforce
qed

section \<open>A run without failures\<close>

definition calm :: os_env where
  "calm = \<lparr> oe_fails = \<lambda>_. None, oe_written = \<lambda>_. 0, oe_name = \<lambda>_. 7 \<rparr>"

lemma calm_fails [simp]: "oe_fails calm n = None"
  by (simp add: calm_def)

definition sample_os :: os where
  "sample_os = \<lparr> os_files = [(''/s'', Directory 448)], os_calls = 0, os_failed = 0, os_seen = [] \<rparr>"

lemmas os_eval = save_file_def replace_file_def fill_temporary_def secure_file_def sync_directory_def io_then_def io_also_def io_return_def
  io_lift_def os_MkdirAll_def os_Chmod_def file_Chmod_def file_Write_def file_Sync_def file_Close_def os_Rename_def
  os_Open_def os_SyncDir_def os_call_def os_step_def is_directory_def on_path_def max_links_def

lemma create_calm:
  assumes "CHR ''/'' \<notin> set px" and "is_directory (os_files w) dir" and "node_at (os_files w) (temp_name dir px 7) = None"
  shows "os_CreateTemp calm dir px w =
    (Inr (temp_name dir px 7), os_step (Inr [] :: string result) (put_node (temp_name dir px 7) (File 384 [] False) (os_files w)) w)"
proof -
  have "find P (map f [0..<10000]) = Some (f 0)" if "P (f 0)" for P and f :: "nat \<Rightarrow> string"
    using that by (simp add: upt_rec [of 0])
  from this [of "\<lambda>p. node_at (os_files w) p = None" "\<lambda>i. temp_name dir px (oe_name calm i)"] assms show ?thesis
    by (simp add: os_CreateTemp_def os_call_def calm_def os_step_def)
qed

end
