(* ===== verification/Config_Store.thy ===== *)
theory Config_Store
  imports Atomic_Write Config_Validate
begin

text \<open>
  \<open>config/store.go\<close>: the configuration file, read with its directory and itself secured, and
  replaced as a whole. YAML is \<open>gopkg.in/yaml.v3\<close>, a parameter: its encoder, the strict decoding
  of the first document, and whether nothing follows it.
\<close>

record yaml =
  ya_Marshal :: "Config \<Rightarrow> bytes result"
  ya_Decode :: "bytes \<Rightarrow> Config option"
  ya_AtEnd :: "bytes \<Rightarrow> bool"

text \<open>\<open>validatePath\<close> of both stores: \<open>action\<close> is what the error says the store was doing.\<close>

definition validate_path :: "string \<Rightarrow> string \<Rightarrow> unit result" where
  "validate_path action path =
     (if path = [] \<or> \<not> filepath_IsAbs path then Inl (Errorf (action @ '': path must be absolute''))
      else let cleanPath = path_Clean path in
        if filepath_Dir cleanPath = cleanPath then Inl (Errorf (action @ '': path must name a file'')) else Inr ())"

definition decode_config :: "yaml \<Rightarrow> bytes \<Rightarrow> Config result" where
  "decode_config ya d = (case ya_Decode ya d of
     None \<Rightarrow> Inl (Errorf ''load config: decode YAML'')
   | Some cfg \<Rightarrow>
       if \<not> ya_AtEnd ya d then Inl (Errorf ''load config: decode YAML'')
       else try_wrap (Wrapf ''load config: '') (Config_Validate cfg) (\<lambda>_. Inr cfg))"

definition config_Load :: "os_env \<Rightarrow> yaml \<Rightarrow> string \<Rightarrow> Config io" where
  "config_Load env ya path =
     io_then id (io_lift (validate_path ''load config'' path)) (\<lambda>_.
     io_then id (read_secured env ''load config: '' ''config'' path) (\<lambda>d. io_lift (decode_config ya d)))"

definition encode_config :: "yaml \<Rightarrow> string \<Rightarrow> Config \<Rightarrow> bytes result" where
  "encode_config ya path cfg =
     try_then (validate_path ''save config'' path) (\<lambda>_.
     try_wrap (Wrapf ''save config: '') (Config_Validate cfg) (\<lambda>_.
     try_wrap (Wrapf ''save config: encode YAML: '') (ya_Marshal ya cfg) Inr))"

definition config_Save :: "os_env \<Rightarrow> yaml \<Rightarrow> string \<Rightarrow> Config \<Rightarrow> unit io" where
  "config_Save env ya path cfg =
     io_then id (io_lift (encode_config ya path cfg)) (\<lambda>d.
     save_file env ''save config: '' path d (secure_file env ''save config: '' path 384))"

section \<open>What the store keeps\<close>

definition result_option :: "'a result \<Rightarrow> 'a option" where
  "result_option r = (case r of Inl _ \<Rightarrow> None | Inr x \<Rightarrow> Some x)"

lemma result_option_Some [simp]: "result_option r = Some x \<longleftrightarrow> r = Inr x"
  by (cases r) (simp_all add: result_option_def)

lemma lift_triple: "triple P (io_lift r) (\<lambda>x w. P w \<and> r = Inr x) P"
  by (cases r) (simp_all add: triple_def io_lift_def io_fail_def io_return_def)

text \<open>A save that encodes first and then replaces the file is what a store promises.\<close>

lemma save_promise:
  assumes after: "\<And>d V f. Some (d, True) \<in> V \<Longrightarrow> triple (replaced c path V f (File 384 d True)) after
      (\<lambda>_ w. \<exists>g. replaced c path V g (File 384 d True) w) (\<lambda>w. \<exists>g>f. replaced c path V g (File 384 d True) w)"
  shows "triple (untouched c path (insert (c path) (case result_option r of None \<Rightarrow> {} | Some d \<Rightarrow> {Some (d, True)})) f)
     (io_then id (io_lift r) (\<lambda>d. save_file env label path d after))
     (\<lambda>_ w. \<exists>d. result_option r = Some d \<and> settled c path (insert (c path) {Some (d, True)}) (File 384 d True) w)
     (given_up c path (insert (c path) (case result_option r of None \<Rightarrow> {} | Some d \<Rightarrow> {Some (d, True)})) f)"
proof (cases r)
  case (Inl e)
  then show ?thesis
    by (auto simp: triple_def io_then_def io_lift_def io_fail_def untouched_def given_up_def)
next
  case (Inr d)
  let ?V = "insert (c path) {Some (d, True)}"
  have "triple (untouched c path ?V f) (save_file env label path d after) (\<lambda>_. settled c path ?V (File 384 d True)) (given_up c path ?V f)"
    by (rule save_file_ok [where c = c and path = path and V = ?V, OF _ _ after]) simp_all
  then show ?thesis
    using Inr by (simp add: triple_def io_then_def io_lift_def io_return_def result_option_def)
qed

lemma load_content:
  assumes "io_then id (io_lift v) (\<lambda>_. io_then id (read_secured env label what path) (\<lambda>d. io_lift (g d))) w = (Inr y, w')"
  shows "\<exists>d s. content path (os_files w) = Some (d, s) \<and> g d = Inr y"
proof -
  from assms obtain u d w1 where v: "v = Inr u" and d: "read_secured env label what path w = (Inr d, w1)"
      and g: "io_lift (g d) w1 = (Inr y, w')"
    by (auto simp: io_then_def io_lift_def io_fail_def io_return_def split: sum.splits prod.splits)
  from g have "g d = Inr y" by (cases "g d") (simp_all add: io_lift_def io_fail_def io_return_def)
  then show ?thesis using read_secured_content [OF d] by blast
qed

interpretation config_store: atomic_store path "\<lambda>env. config_Save env ya path" "\<lambda>env. config_Load env ya path"
    "\<lambda>cfg. result_option (encode_config ya path cfg)" "\<lambda>d. result_option (decode_config ya d)"
  for ya path
proof unfold_locales
  fix c x f env
  show "triple (untouched c path (insert (c path) (case result_option (encode_config ya path x) of None \<Rightarrow> {} | Some d \<Rightarrow> {Some (d, True)})) f)
     (config_Save env ya path x)
     (\<lambda>_ w. \<exists>d. result_option (encode_config ya path x) = Some d \<and> settled c path (insert (c path) {Some (d, True)}) (File 384 d True) w)
     (given_up c path (insert (c path) (case result_option (encode_config ya path x) of None \<Rightarrow> {} | Some d \<Rightarrow> {Some (d, True)})) f)"
    unfolding config_Save_def by (rule save_promise [where c = c and path = path]) (rule secure_after)
next
  fix env w y w'
  assume "config_Load env ya path w = (Inr y, w')"
  then show "\<exists>d s. content path (os_files w) = Some (d, s) \<and> result_option (decode_config ya d) = Some y"
    unfolding config_Load_def by (auto dest: load_content)
qed

text \<open>whatever system call fails and whenever the machine stops, the configuration file is never torn: given that the YAML
  package reads back what it wrote of the new configuration, a reader that looks at any moment while it is saved loads
  the old configuration or the new one; after a save that succeeded the file has the new one, on the disk and under
  the permissions 0600, and no other file was left behind.\<close>

theorem config_never_torn:
  assumes "config_Save env ya path cfg w = (r, w')" and "os_seen w = []"
    and yaml: "\<And>d. ya_Marshal ya cfg = Inr d \<Longrightarrow> ya_Decode ya d = Some cfg"
  shows "(\<forall>v env' c u. os_files v \<in> set (os_seen w') \<longrightarrow> config_Load env' ya path v = (Inr c, u) \<longrightarrow>
        c = cfg \<or> (\<exists>d t. content path (os_files w) = Some (d, t) \<and> decode_config ya d = Inr c))
    \<and> (r = Inr () \<longrightarrow> (\<exists>d. ya_Marshal ya cfg = Inr d \<and> node_at (os_files w') path = Some (File 384 d True)))
    \<and> (r = Inr () \<or> os_failed w' \<le> Suc (os_failed w) \<longrightarrow> (\<forall>q. q \<noteq> path \<longrightarrow> content q (os_files w') = content q (os_files w)))"
proof (intro conjI impI allI)
  have enc: "encode_config ya path cfg = Inr d \<Longrightarrow> ya_Marshal ya cfg = Inr d" for d
    by (simp add: encode_config_def try_then_Inr_iff try_wrap_Inr_iff)
  {
    fix v env' c u
    assume v: "os_files v \<in> set (os_seen w')" "config_Load env' ya path v = (Inr c, u)"
    from config_store.never_torn [OF assms(1,2) v] enc yaml
    show "c = cfg \<or> (\<exists>d t. content path (os_files w) = Some (d, t) \<and> decode_config ya d = Inr c)"
      by (auto simp: decode_config_def try_wrap_Inr_iff split: if_splits)
  next
    assume "r = Inr ()"
    from config_store.save_cases(2) [OF assms(1,2) this] enc
    show "\<exists>d. ya_Marshal ya cfg = Inr d \<and> node_at (os_files w') path = Some (File 384 d True)" by auto
  next
    fix q
    assume "r = Inr () \<or> os_failed w' \<le> Suc (os_failed w)" and "q \<noteq> path"
    then show "content q (os_files w') = content q (os_files w)"
      using config_store.save_cases(2,3) [OF assms(1,2)] by (cases r) auto
  }
qed

definition sample_yaml :: yaml where
  "sample_yaml = \<lparr> ya_Marshal = \<lambda>_. Inr ''models'', ya_Decode = \<lambda>_. Some sample_config, ya_AtEnd = \<lambda>_. True \<rparr>"

lemma sample_config_saved: "fst (config_Save calm sample_yaml ''/s/d'' sample_config sample_os) = Inr ()"
proof -
  have paths: "filepath_Dir ''/s/d'' = ''/s''" "filepath_Base ''/s/d'' = ''d''" "validate_path a ''/s/d'' = Inr ()" for a
    by (simp_all add: validate_path_def filepath_IsAbs_def Let_def path_Clean_def filepath_Dir_def filepath_Base_def clean_step_def)
  moreover have "Config_Validate sample_config = Inr ()" using sample_config_ok by (simp add: Config_Validate_iff)
  ultimately have "encode_config sample_yaml ''/s/d'' sample_config = Inr ''models''" by (simp add: encode_config_def sample_yaml_def)
  moreover have "follow 40 fs ''/s'' = Some ''/s''" if "node_at fs ''/s'' = Some (Directory m)" for fs m
    using that by (simp add: numeral_eq_Suc)
  moreover have "follow 40 fs ''/s/d'' = Some ''/s/d''" if "node_at fs ''/s/d'' = Some (File m d s)" for fs m d s
    using that by (simp add: numeral_eq_Suc)
  moreover have "node_at [(''/s'', n)] q = (if q = ''/s'' then Some n else None)" for n q by (simp add: node_at_def)
  ultimately show ?thesis
    by (simp add: config_Save_def create_calm os_eval sample_os_def paths temp_name_def show_nat.simps)
qed

theorem config_never_torn_witness:
  "\<exists>w'. config_Save calm sample_yaml ''/s/d'' sample_config sample_os = (Inr (), w')
     \<and> node_at (os_files w') ''/s/d'' = Some (File 384 ''models'' True) \<and> list_all (\<lambda>fs. content ''/s'' fs = None) [os_files w']"
proof -
  obtain w' where w': "config_Save calm sample_yaml ''/s/d'' sample_config sample_os = (Inr (), w')"
    using sample_config_saved by (metis prod.collapse)
  have "content ''/s'' (os_files sample_os) = None" by (simp add: sample_os_def content_def node_at_def)
  with config_never_torn [OF w'] w' show ?thesis by (simp add: sample_os_def sample_yaml_def)
qed

end
