(* ===== verification/Json_Text.thy ===== *)
theory Json_Text
  imports Bounded_Text Tool_Write
begin

text \<open>
  Texts of members that are read back: numbers, plain strings and objects of strings; and strict
  decoding into the fields of a struct, as \<open>json.Decoder\<close> does it with unknown members refused.
\<close>

section \<open>Plain text\<close>

definition plain_char :: "char \<Rightarrow> bool" where
  "plain_char c \<longleftrightarrow> 32 \<le> byte_val c \<and> byte_val c < 127 \<and> c \<noteq> CHR 0x22 \<and> c \<noteq> CHR 0x5C \<and> \<not> html_unsafe c"

lemma plain_bounds: "plain_char c \<Longrightarrow> 32 \<le> byte_val c \<and> byte_val c < 127"
  by (simp only: plain_char_def)

lemma ascii_piece: "byte_val c < 128 \<Longrightarrow> good_piece [c]"
  by (simp add: good_piece_def bad_piece_def)

lemma runes_ascii:
  assumes "list_all (\<lambda>c. byte_val c < 128) s"
  shows "runes s = map (\<lambda>c. [c]) s"
proof -
  have "list_all good_piece (map (\<lambda>c. [c]) s)"
    using assms by (simp only: list.pred_map) (rule list.pred_mono_strong, assumption, simp only: o_apply ascii_piece)
  from runes_concat_good [OF this] show ?thesis by (simp only: concat_map_singleton map_ident)
qed

lemma plain_ascii: "list_all plain_char s \<Longrightarrow> list_all (\<lambda>c. byte_val c < 128) s"
  by (erule list.pred_mono_strong) (drule plain_bounds, linarith)

lemma plain_quote: "list_all plain_char s \<Longrightarrow> json_quote s = [CHR 0x22] @ s @ [CHR 0x22]"
proof -
  assume s: "list_all plain_char s"
  have "quote_piece [c] = [c]" if c: "plain_char c" for c
  proof -
    have b: "32 \<le> byte_val c" "byte_val c < 127" using plain_bounds [OF c] by simp_all
    have "c \<noteq> CHR 0x08" "c \<noteq> CHR 0x0C" "c \<noteq> CHR 0x0A" "c \<noteq> CHR 0x0D" "c \<noteq> CHR 0x09"
      using b(1) by (rule_tac notI; hypsubst; simp)+
    then have "short_escape c = None" using c by (simp only: short_escape_def plain_char_def if_False simp_thms)
    then show ?thesis using b c by (simp add: quote_piece_def plain_char_def)
  qed
  then have "concat (map quote_piece (map (\<lambda>c. [c]) s)) = s" using s by (induction s) simp_all
  then show ?thesis using runes_ascii [OF plain_ascii [OF s]] by (simp add: json_quote_def)
qed

lemma plain_valid: "list_all plain_char s \<Longrightarrow> validUTF8 s"
  by (intro ascii_utf8 plain_ascii)

lemma plain_no_control: "list_all plain_char s \<Longrightarrow> \<not> hasControl s"
proof -
  assume s: "list_all plain_char s"
  then have r: "runes s = map (\<lambda>c. [c]) s" by (intro runes_ascii plain_ascii)
  have "\<not> isControl (rune_of [c])" if "plain_char c" for c
    using plain_bounds [OF that] by (simp add: isControl_def)
  then show ?thesis using s unfolding hasControl_def r list_ex_iff list_all_iff by auto
qed

section \<open>Numbers\<close>

lemma show_nat_all: "list_all is_digit (show_nat n)"
proof (induction n rule: show_nat.induct)
  case (1 n)
  then show ?case using show_nat.simps [of n] by (auto simp: is_digit_def)
qed

lemma show_nat_nonempty [simp]: "show_nat n \<noteq> []"
  using show_nat.simps [of n] by simp

lemma show_nat_val: "digits_val 0 (show_nat n) = n"
proof (induction n rule: show_nat.induct)
  case (1 n)
  have app: "digits_val a (s @ r) = digits_val (digits_val a s) r" for a s r by (induction s arbitrary: a) simp_all
  show ?case using 1 show_nat.simps [of n] by (auto simp: app)
qed

lemma show_nat_zero: "hd (show_nat n) = CHR ''0'' \<Longrightarrow> n = 0"
proof (induction n rule: show_nat.induct)
  case (1 n)
  show ?case
  proof (cases "n < 10")
    case True
    then have "show_nat n = [mk_byte (48 + n)]" by (simp add: show_nat.simps)
    then have "byte_val (mk_byte (48 + n) :: char) = byte_val (CHR ''0'')" using 1(2) by simp
    then show ?thesis using True by (simp add: byte_val_mk_byte)
  next
    case False
    then have "hd (show_nat n) = hd (show_nat (n div 10))" by (simp add: show_nat.simps [of n])
    then show ?thesis using 1 False by simp
  qed
qed

lemma show_int_literal: "parse_int_in lo hi (show_int i) = (if lo \<le> i \<and> i \<le> hi then Some i else None)"
proof -
  have "CHR ''-'' \<notin> set (show_nat n)" for n using show_nat_all [of n] by (auto simp: list_all_iff is_digit_def)
  have "int_literal (show_nat n) = Some (int n)" for n
  proof -
    obtain c r where c: "show_nat n = c # r" by (cases "show_nat n") auto
    moreover have "c \<noteq> CHR ''-''" using \<open>\<And>n. CHR ''-'' \<notin> set (show_nat n)\<close> [of n] c by auto
    ultimately show ?thesis using show_nat_all [of n] show_nat_val [of n] by (simp add: int_literal_def del: digits_val.simps)
  qed
  moreover have "int_literal (CHR ''-'' # show_nat n) = Some (- int n)" for n
    using show_nat_all [of n] show_nat_val [of n] by (simp add: int_literal_def)
  ultimately show ?thesis by (auto simp: parse_int_in_def show_int_def)
qed

lemma scan_show_nat:
  assumes "x = CHR '','' \<or> x = CHR ''}''"
  shows "scan_integer (show_nat n @ x # t) = Some (show_nat n, x # t)"
proof -
  have x: "\<not> is_digit x" using assms by (auto simp: is_digit_def)
  obtain c r where c: "show_nat n = c # r" by (cases "show_nat n") auto
  show ?thesis
  proof (cases "c = CHR ''0''")
    case True
    then have "n = 0" using show_nat_zero [of n] c by simp
    moreover have "mk_byte 48 = CHR ''0''" by code_simp
    ultimately show ?thesis by (simp add: scan_integer_def show_nat.simps [of 0])
  next
    case False
    have "takeWhile is_digit (show_nat n @ x # t) = show_nat n" "dropWhile is_digit (show_nat n @ x # t) = x # t"
      using show_nat_all [of n] x by (auto simp: list_all_iff takeWhile_append dropWhile_append)
    then show ?thesis using c False by (simp add: scan_integer_def scan_digits_def)
  qed
qed

lemma value_text_int: "value_text d (show_int i) (JNum (show_int i))"
  unfolding value_text_def
proof (intro conjI allI impI)
  have hd: "is_digit (hd (show_nat n))" for n using show_nat_all [of n] by (cases "show_nat n") auto
  then have h: "hd (show_int i) = CHR ''-'' \<or> is_digit (hd (show_int i))" by (simp add: show_int_def)
  show ne: "show_int i \<noteq> []" by (simp add: show_int_def)
  show nws: "\<not> is_ws (hd (show_int i))" using h by (auto simp: is_ws_def is_digit_def)
  fix x t
  assume x: "x = CHR '','' \<or> x = CHR ''}''"
  have rest: "scan_fraction (x # t) = Some ([], x # t)" "scan_exponent (x # t) = Some ([], x # t)"
    using x by (auto simp: scan_fraction_def scan_exponent_def)
  have num: "scan_number (show_int i @ x # t) = Some (show_int i, x # t)"
  proof (cases "i < 0")
    case True
    then show ?thesis using scan_show_nat [OF x] rest by (simp add: scan_number_def show_int_def)
  next
    case False
    obtain c r where c: "show_nat (nat i) = c # r" by (cases "show_nat (nat i)") auto
    then have "c \<noteq> CHR ''-''" using hd [of "nat i"] by (auto simp: is_digit_def)
    then show ?thesis using False scan_show_nat [OF x, of "nat i" t] rest c by (simp add: scan_number_def show_int_def)
  qed
  obtain c r where c: "show_int i = c # r" using ne by (cases "show_int i") auto
  have "strip_prefix p (show_int i @ x # t) = None" if "p \<in> {''null'', ''true'', ''false''}" for p
    using h that unfolding c by (auto simp: strip_prefix_def is_digit_def)
  then have lit: "scan_literal (show_int i @ x # t) = Some (JNum (show_int i), x # t)" by (simp add: scan_literal_def num)
  have "c \<noteq> CHR ''{'' \<and> c \<noteq> CHR ''['' \<and> c \<noteq> quote_char" using h unfolding c by (auto simp: is_digit_def)
  then have "json_value 1 d (show_int i @ x # t) = Some (JNum (show_int i), x # t)"
    using lit nws skip_ws_text [OF ne nws, of "x # t"] unfolding c by (simp add: skip_ws_char)
  then show "\<exists>n. json_value n d (show_int i @ x # t) = Some (JNum (show_int i), x # t)" by blast
qed

section \<open>Fields\<close>

text \<open>A member whose type decodes the raw text itself.\<close>

fun fold_raw :: "('a \<Rightarrow> string \<Rightarrow> 'a option) \<Rightarrow> string \<Rightarrow> 'a \<Rightarrow> (string \<times> string \<times> json) list \<Rightarrow> 'a option" where
  "fold_raw f name a [] = Some a"
| "fold_raw f name a ((k, raw, _) # ms) =
     (if k = name then (case f a raw of None \<Rightarrow> None | Some a' \<Rightarrow> fold_raw f name a' ms) else fold_raw f name a ms)"

definition intField :: "string \<Rightarrow> (string \<times> string \<times> json) list \<Rightarrow> int option" where
  "intField name ms = fold_field (set_int (- 9223372036854775808) 9223372036854775807) name 0 ms"

end
