(* ===== verification/Go_Time.thy ===== *)
theory Go_Time
  imports Go_Json
begin

text \<open>
  What the program uses of \<open>time.Time\<close> in JSON: a calendar time with its offset from UTC in minutes,
  its text under the layout \<open>RFC3339Nano\<close>, and the parser of such texts.
\<close>

record gotime =
  tm_Year :: nat
  tm_Month :: nat
  tm_Day :: nat
  tm_Hour :: nat
  tm_Minute :: nat
  tm_Second :: nat
  tm_Nano :: nat
  tm_Offset :: int

definition leap_year :: "nat \<Rightarrow> bool" where
  "leap_year y \<longleftrightarrow> y mod 4 = 0 \<and> (y mod 100 \<noteq> 0 \<or> y mod 400 = 0)"

definition days_in_month :: "nat \<Rightarrow> nat \<Rightarrow> nat" where
  "days_in_month y m = (if m = 2 then if leap_year y then 29 else 28 else if m \<in> {4, 6, 9, 11} then 30 else 31)"

definition calendar_date :: "nat \<Rightarrow> nat \<Rightarrow> nat \<Rightarrow> bool" where
  "calendar_date y m d \<longleftrightarrow> 1 \<le> m \<and> m \<le> 12 \<and> 1 \<le> d \<and> d \<le> days_in_month y m"

definition time_ok :: "gotime \<Rightarrow> bool" where
  "time_ok t \<longleftrightarrow> tm_Year t < 10000 \<and> calendar_date (tm_Year t) (tm_Month t) (tm_Day t) \<and> tm_Hour t < 24 \<and> tm_Minute t < 60
     \<and> tm_Second t < 60 \<and> tm_Nano t < 1000000000 \<and> - 1440 < tm_Offset t \<and> tm_Offset t < 1440"

text \<open>\<open>IsZero\<close>: the first instant of the year 1 in UTC, in seconds of a time's own calendar.\<close>

definition days_before :: "nat \<Rightarrow> nat \<Rightarrow> nat \<Rightarrow> int" where
  "days_before y m d = (let p = int y - 1 in
     365 * p + p div 4 - p div 100 + p div 400 + int (\<Sum>k\<leftarrow>[1..<m]. days_in_month y k) + int d - 1)"

definition time_seconds :: "gotime \<Rightarrow> int" where
  "time_seconds t = 86400 * days_before (tm_Year t) (tm_Month t) (tm_Day t)
     + 3600 * int (tm_Hour t) + 60 * int (tm_Minute t) + int (tm_Second t) - 60 * tm_Offset t"

definition time_IsZero :: "gotime \<Rightarrow> bool" where
  "time_IsZero t \<longleftrightarrow> time_seconds t = 0 \<and> tm_Nano t = 0"

section \<open>Text\<close>

text \<open>A number in so many digits.\<close>

definition digit :: "nat \<Rightarrow> char" where
  "digit n = mk_byte (48 + n mod 10)"

fun pad :: "nat \<Rightarrow> nat \<Rightarrow> string" where
  "pad 0 n = []"
| "pad (Suc w) n = pad w (n div 10) @ [digit n]"

definition trim_zeros :: "string \<Rightarrow> string" where
  "trim_zeros s = rev (dropWhile (\<lambda>c. c = CHR ''0'') (rev s))"

definition zone_text :: "int \<Rightarrow> string" where
  "zone_text z = (if z = 0 then ''Z'' else (if z < 0 then ''-'' else ''+'')
     @ pad 2 (nat \<bar>z\<bar> div 60) @ '':'' @ pad 2 (nat \<bar>z\<bar> mod 60))"

definition format_time :: "gotime \<Rightarrow> string" where
  "format_time t = pad 4 (tm_Year t) @ ''-'' @ pad 2 (tm_Month t) @ ''-'' @ pad 2 (tm_Day t) @ ''T''
     @ pad 2 (tm_Hour t) @ '':'' @ pad 2 (tm_Minute t) @ '':'' @ pad 2 (tm_Second t)
     @ (let f = trim_zeros (pad 9 (tm_Nano t)) in if f = [] then [] else ''.'' @ f) @ zone_text (tm_Offset t)"

text \<open>\<open>MarshalJSON\<close> refuses years of more than four digits and offsets of a day or more.\<close>

definition time_json :: "gotime \<Rightarrow> string result" where
  "time_json t = (if 10000 \<le> tm_Year t \<or> 1440 \<le> \<bar>tm_Offset t\<bar> then Inl (Errorf ''time not representable'')
     else Inr ([CHR 0x22] @ format_time t @ [CHR 0x22]))"

section \<open>Parsing\<close>

text \<open>
  \<open>time.Parse\<close> with the layout of RFC 3339. An hour may have one digit, a comma may stand for the
  point, and of a fraction nine digits count.
\<close>

definition get_digits :: "nat \<Rightarrow> string \<Rightarrow> (nat \<times> string) option" where
  "get_digits n s = (if n \<le> length s \<and> list_all is_digit (take n s) then Some (digits_val 0 (take n s), drop n s) else None)"

definition get_hour :: "string \<Rightarrow> (nat \<times> string) option" where
  "get_hour s = (case get_digits 2 s of None \<Rightarrow> get_digits 1 s | Some r \<Rightarrow> Some r)"

definition get_char :: "char \<Rightarrow> string \<Rightarrow> string option" where
  "get_char c s = (if s \<noteq> [] \<and> hd s = c then Some (tl s) else None)"

definition get_fraction :: "string \<Rightarrow> nat \<times> string" where
  "get_fraction s =
     (if 2 \<le> length s \<and> (hd s = CHR ''.'' \<or> hd s = CHR '','') \<and> is_digit (s ! 1) then
        let ds = takeWhile is_digit (tl s); v = take 9 ds in (digits_val 0 v * 10 ^ (9 - length v), drop (length ds) (tl s))
      else (0, s))"

definition get_zone :: "string \<Rightarrow> int option" where
  "get_zone s =
     (if s = ''Z'' then Some 0
      else case s of
        [sign, h1, h2, colon, m1, m2] \<Rightarrow>
          if (sign = CHR ''+'' \<or> sign = CHR ''-'') \<and> colon = CHR '':'' \<and> list_all is_digit [h1, h2, m1, m2]
            \<and> digits_val 0 [h1, h2] \<le> 24 \<and> digits_val 0 [m1, m2] \<le> 60 then
            let z = 60 * int (digits_val 0 [h1, h2]) + int (digits_val 0 [m1, m2]) in Some (if sign = CHR ''-'' then - z else z)
          else None
      | _ \<Rightarrow> None)"

definition parse_time :: "string \<Rightarrow> gotime option" where
  "parse_time s =
     Option.bind (get_digits 4 s) (\<lambda>(year, s). Option.bind (get_char (CHR ''-'') s) (\<lambda>s.
     Option.bind (get_digits 2 s) (\<lambda>(month, s). Option.bind (get_char (CHR ''-'') s) (\<lambda>s.
     Option.bind (get_digits 2 s) (\<lambda>(day, s). Option.bind (get_char (CHR ''T'') s) (\<lambda>s.
     Option.bind (get_hour s) (\<lambda>(hour, s). Option.bind (get_char (CHR '':'') s) (\<lambda>s.
     Option.bind (get_digits 2 s) (\<lambda>(minute, s). Option.bind (get_char (CHR '':'') s) (\<lambda>s.
     Option.bind (get_digits 2 s) (\<lambda>(second, s).
     case get_fraction s of (nano, s) \<Rightarrow>
       Option.bind (get_zone s) (\<lambda>z.
         if calendar_date year month day \<and> hour < 24 \<and> minute < 60 \<and> second < 60 then
           Some \<lparr> tm_Year = year, tm_Month = month, tm_Day = day, tm_Hour = hour, tm_Minute = minute, tm_Second = second,
             tm_Nano = nano, tm_Offset = z \<rparr>
         else None))))))))))))"

text \<open>\<open>UnmarshalJSON\<close> of the text of a member; \<open>null\<close> leaves the time as it is.\<close>

definition time_unmarshal :: "gotime \<Rightarrow> string \<Rightarrow> gotime option" where
  "time_unmarshal t raw =
     (if raw = ''null'' then Some t
      else if length raw < 2 \<or> hd raw \<noteq> CHR 0x22 \<or> last raw \<noteq> CHR 0x22 then None
      else parse_time (butlast (tl raw)))"

section \<open>Reading what was written\<close>

lemma length_pad [simp]: "length (pad w n) = w"
  by (induction w arbitrary: n) simp_all

lemma pad_digits: "list_all is_digit (pad w n)"
  by (induction w arbitrary: n) (auto simp: digit_def is_digit_def)

lemma digits_val_append: "digits_val a (s @ r) = digits_val (digits_val a s) r"
  by (induction s arbitrary: a) simp_all

lemma digits_val_pad: "n < 10 ^ w \<Longrightarrow> digits_val 0 (pad w n) = n"
proof (induction w arbitrary: n)
  case (Suc w)
  then have "digits_val 0 (pad w (n div 10)) = n div 10" by (simp add: less_mult_imp_div_less mult.commute)
  then show ?case by (simp add: digits_val_append digit_def)
qed simp

lemma get_pad: "n < 10 ^ w \<Longrightarrow> get_digits w (pad w n @ r) = Some (n, r)"
  using pad_digits [of w n] by (simp add: get_digits_def digits_val_pad)

lemma get_char_same: "get_char c (c # r) = Some r"
  by (simp add: get_char_def)

lemma digits_val_zeros: "digits_val a (replicate k (CHR ''0'')) = a * 10 ^ k"
  by (induction k arbitrary: a) simp_all

lemma trim_zeros_split: "\<exists>k. s = trim_zeros s @ replicate k (CHR ''0'')"
proof -
  have "takeWhile (\<lambda>c. c = CHR ''0'') (rev s) = replicate (length (takeWhile (\<lambda>c. c = CHR ''0'') (rev s))) (CHR ''0'')"
    by (rule replicate_eqI [symmetric, THEN sym]) (auto dest: set_takeWhileD)
  moreover have "s = rev (dropWhile (\<lambda>c. c = CHR ''0'') (rev s)) @ rev (takeWhile (\<lambda>c. c = CHR ''0'') (rev s))"
    by (simp flip: rev_append)
  ultimately show ?thesis unfolding trim_zeros_def by (metis rev_replicate)
qed

lemma zone_head: "zone_text z \<noteq> []" "\<not> is_digit (hd (zone_text z))" "hd (zone_text z) \<noteq> CHR ''.''" "hd (zone_text z) \<noteq> CHR '',''"
  by (simp_all add: zone_text_def is_digit_def)

lemma fraction_back:
  assumes "n < 1000000000"
  shows "get_fraction ((let f = trim_zeros (pad 9 n) in if f = [] then [] else ''.'' @ f) @ zone_text z) = (n, zone_text z)"
proof -
  let ?f = "trim_zeros (pad 9 n)"
  obtain k where k: "pad 9 n = ?f @ replicate k (CHR ''0'')" using trim_zeros_split by blast
  have len: "length ?f + k = 9" using arg_cong [OF k, of length] by simp
  have val: "digits_val 0 ?f * 10 ^ k = n"
  proof -
    have "digits_val 0 (pad 9 n) = n" using assms by (simp add: digits_val_pad)
    then have "digits_val 0 (?f @ replicate k (CHR ''0'')) = n" using k by simp
    then show ?thesis by (simp add: digits_val_append digits_val_zeros)
  qed
  have dig: "list_all is_digit ?f" using pad_digits [of 9 n] k by (metis list_all_append)
  show ?thesis
  proof (cases "?f = []")
    case True
    then have "n = 0" using val by simp
    moreover have "get_fraction (zone_text z) = (0, zone_text z)" using zone_head [of z] by (simp add: get_fraction_def)
    ultimately show ?thesis using True by simp
  next
    case False
    have "takeWhile is_digit (?f @ zone_text z) = ?f"
      using dig zone_head [of z] by (cases "zone_text z") (simp_all add: list_all_iff takeWhile_append)
    moreover have "take 9 ?f = ?f" "9 - length ?f = k" using len by simp_all
    ultimately show ?thesis using False val dig by (cases ?f) (simp_all add: get_fraction_def Let_def)
  qed
qed

lemma two_digits:
  assumes "n < 100"
  obtains a b where "pad 2 n = [a, b]" "digits_val 0 [a, b] = n" "is_digit a" "is_digit b"
proof -
  have "pad 2 n = [digit (n div 10), digit n]" by (simp add: numeral_2_eq_2)
  moreover have "digits_val 0 (pad 2 n) = n" by (rule digits_val_pad) (simp add: assms)
  moreover have "list_all is_digit (pad 2 n)" by (rule pad_digits)
  ultimately show thesis using that [of "digit (n div 10)" "digit n"] by simp
qed

lemma zone_shape:
  assumes "h < 24" and "m < 60" and "sign = CHR ''+'' \<or> sign = CHR ''-''"
  shows "get_zone (sign # pad 2 h @ '':'' @ pad 2 m) = Some (if sign = CHR ''-'' then - (60 * int h + int m) else 60 * int h + int m)"
proof -
  obtain h1 h2 where h: "pad 2 h = [h1, h2]" "digits_val 0 [h1, h2] = h" "is_digit h1" "is_digit h2"
    by (rule two_digits [of h]) (use assms in auto)
  obtain m1 m2 where m: "pad 2 m = [m1, m2]" "digits_val 0 [m1, m2] = m" "is_digit m1" "is_digit m2"
    by (rule two_digits [of m]) (use assms in auto)
  show ?thesis
    using assms unfolding h(1) m(1) get_zone_def by (simp add: h(2-4) m(2-4) Let_def del: digits_val.simps)
qed

lemma zone_back:
  assumes "- 1440 < z" and "z < 1440"
  shows "get_zone (zone_text z) = Some z"
proof (cases "z = 0")
  case False
  define n where "n = nat \<bar>z\<bar>"
  have n: "n div 60 < 24" "n mod 60 < 60" "\<bar>z\<bar> = int n" using assms by (auto simp: n_def)
  have sum: "60 * int (n div 60) + int (n mod 60) = \<bar>z\<bar>" unfolding n(3) by (simp only: zdiv_int zmod_int) simp
  show ?thesis
    using False zone_shape [OF n(1,2), of "CHR ''-''"] zone_shape [OF n(1,2), of "CHR ''+''"] sum
    by (simp add: zone_text_def n_def [symmetric])
qed (simp add: zone_text_def get_zone_def)

lemma parse_format: "time_ok t \<Longrightarrow> parse_time (format_time t) = Some t"
proof -
  assume t: "time_ok t"
  then have b: "tm_Year t < 10 ^ 4" "tm_Month t < 10 ^ 2" "tm_Day t < 10 ^ 2" "tm_Hour t < 10 ^ 2" "tm_Minute t < 10 ^ 2" "tm_Second t < 10 ^ 2"
    by (auto simp: time_ok_def calendar_date_def days_in_month_def split: if_splits)
  have hour: "get_hour (pad 2 (tm_Hour t) @ r) = Some (tm_Hour t, r)" for r
    using get_pad [OF b(4)] by (simp add: get_hour_def)
  have z: "get_zone (zone_text (tm_Offset t)) = Some (tm_Offset t)" using t zone_back by (simp add: time_ok_def)
  have n: "tm_Nano t < 1000000000" using t by (simp add: time_ok_def)
  show ?thesis
    using t unfolding parse_time_def format_time_def
    by (simp add: get_pad [OF b(1)] get_pad [OF b(2)] get_pad [OF b(3)] get_pad [OF b(5)] get_pad [OF b(6)] hour get_char_same
        fraction_back [OF n] z) (simp add: time_ok_def)
qed

lemma unmarshal_json: "time_ok t \<Longrightarrow> \<exists>raw. time_json t = Inr raw \<and> time_unmarshal t' raw = Some t"
proof -
  assume t: "time_ok t"
  then have "time_json t = Inr ([CHR 0x22] @ format_time t @ [CHR 0x22])" by (auto simp: time_json_def time_ok_def)
  moreover have "[CHR 0x22] @ format_time t @ [CHR 0x22] \<noteq> ''null''" by simp
  ultimately show ?thesis using parse_format [OF t] by (simp add: time_unmarshal_def)
qed

lemma format_plain: "c \<in> set (format_time t) \<Longrightarrow> byte_val c < 128 \<and> 32 \<le> byte_val c \<and> c \<noteq> CHR 0x22 \<and> c \<noteq> CHR 0x5C"
proof -
  have d: "is_digit c \<Longrightarrow> byte_val c < 128 \<and> 32 \<le> byte_val c \<and> c \<noteq> CHR 0x22 \<and> c \<noteq> CHR 0x5C" for c
    by (auto simp: is_digit_def)
  have p: "c \<in> set (pad w n) \<Longrightarrow> is_digit c" for c w n using pad_digits [of w n] by (auto simp: list_all_iff)
  have z: "c \<in> set (trim_zeros (pad w n)) \<Longrightarrow> is_digit c" for c w n
    using p [of c w n] by (auto simp: trim_zeros_def dest: set_dropWhileD)
  show "c \<in> set (format_time t) \<Longrightarrow> byte_val c < 128 \<and> 32 \<le> byte_val c \<and> c \<noteq> CHR 0x22 \<and> c \<noteq> CHR 0x5C"
    by (auto simp: format_time_def zone_text_def Let_def split: if_splits dest!: p z d)
qed

end
