(* ===== verification/Cursor_Launch.thy ===== *)
theory Cursor_Launch
  imports Go_Path Go_Strings Go_Time Compat
begin

text \<open>
  \<open>cursorcli\<close>: how the official client is started, from the arguments of the user and the
  environment of the caller, and how its version is read (\<open>launch.go\<close>, \<open>discovery.go\<close>).
\<close>

section \<open>The model argument\<close>

definition split_error :: "string \<Rightarrow> 'a result" where
  "split_error problem = Inl (Errorf (''split Cursor arguments: '' @ problem))"

definition strip_prefix_of :: "string \<Rightarrow> string \<Rightarrow> string option" where
  "strip_prefix_of p s = (if take (length p) s = p then Some (drop (length p) s) else None)"

text \<open>
  The loop over the arguments before the separator: what was selected, whether a selection was
  found, and the arguments passed on. A value that is empty or has control characters is refused.
\<close>

definition select_model :: "bool \<Rightarrow> string \<Rightarrow> string result" where
  "select_model found model =
     (if found then split_error ''--model may be specified only once''
      else if model = [] \<or> hasControl model then split_error ''--model value is invalid''
      else Inr model)"

fun split_arguments :: "string \<Rightarrow> bool \<Rightarrow> string list \<Rightarrow> (string \<times> string list) result" where
  "split_arguments selected found [] = Inr (selected, [])"
| "split_arguments selected found (argument # args) =
     (if argument = ''--'' then Inr (selected, argument # args)
      else if argument = ''--model'' then
        (case args of
           [] \<Rightarrow> split_error ''--model requires a value''
         | model # rest \<Rightarrow> try_then (select_model found model) (\<lambda>selected. split_arguments selected True rest))
      else case strip_prefix_of ''--model='' argument of
        Some model \<Rightarrow> try_then (select_model found model) (\<lambda>selected. split_arguments selected True args)
      | None \<Rightarrow> try_then (split_arguments selected found args) (\<lambda>(selected, forwarded). Inr (selected, argument # forwarded)))"

definition SplitModelArgument :: "string \<Rightarrow> string list \<Rightarrow> (string \<times> string list) result" where
  "SplitModelArgument defaultModel args =
     try_then (split_arguments defaultModel False args) (\<lambda>(selected, forwarded).
       if selected = [] \<or> hasControl selected then split_error ''default model is required'' else Inr (selected, forwarded))"

section \<open>The launch\<close>

record LaunchOptions =
  lo_CursorPath :: string
  lo_EndpointURL :: string
  lo_Model :: string
  lo_CACertPath :: string
  lo_AuthToken :: string
  lo_ParentEnv :: "string list"
  lo_ProviderSecretEnvKeys :: "string list"
  lo_UserArgs :: "string list"

record LaunchSpec =
  lp_Path :: string
  lp_Args :: "string list"
  lp_Env :: "string list"

definition launch_error :: "string \<Rightarrow> 'a result" where
  "launch_error problem = Inl (Errorf (''build Cursor launch: '' @ problem))"

definition validEnvironmentKey :: "string \<Rightarrow> bool" where
  "validEnvironmentKey v \<longleftrightarrow> v \<noteq> [] \<and> (hd v = CHR ''_'' \<or> is_alpha (hd v))
     \<and> list_all (\<lambda>c. c = CHR ''_'' \<or> is_alpha c \<or> is_digit c) (tl v)"

definition url_Port :: "goURL \<Rightarrow> string" where
  "url_Port u = (case cut_last (CHR '':'') (url_Host u) of
     Some (h, port) \<Rightarrow> if list_all is_digit port then port else [] | None \<Rightarrow> [])"

definition validateLocalEndpoint :: "string \<Rightarrow> unit result" where
  "validateLocalEndpoint rawURL = (case url_Parse rawURL of
     None \<Rightarrow> launch_error ''endpoint must be an absolute HTTPS URL''
   | Some parsed \<Rightarrow>
       if url_Scheme parsed \<noteq> ''https'' \<or> url_Host parsed = [] then launch_error ''endpoint must be an absolute HTTPS URL''
       else if url_User parsed \<or> url_Path parsed \<noteq> [] \<and> url_Path parsed \<noteq> ''/'' \<or> url_RawQuery parsed \<noteq> []
         \<or> url_ForceQuery parsed \<or> url_Fragment parsed \<noteq> [] then launch_error ''endpoint must be a bare loopback HTTPS origin''
       else if url_Hostname parsed \<noteq> ''localhost''
         \<and> (case parseIP (url_Hostname parsed) of None \<Rightarrow> True | Some ip \<Rightarrow> \<not> ip_IsLoopback ip) then
         launch_error ''endpoint host must be loopback''
       else (case Atoi (url_Port parsed) of
           None \<Rightarrow> launch_error ''endpoint must include a valid port''
         | Some port \<Rightarrow> if port < 1 \<or> 65535 < port then launch_error ''endpoint must include a valid port'' else Inr ()))"

definition has_prefix :: "string \<Rightarrow> string \<Rightarrow> bool" where
  "has_prefix p s \<longleftrightarrow> take (length p) s = p"

definition isReservedArgument :: "string \<Rightarrow> bool" where
  "isReservedArgument argument \<longleftrightarrow>
     list_ex (\<lambda>name. argument = name \<or> has_prefix (name @ ''='') argument) [''-e'', ''--endpoint'', ''--api-key'', ''--model'']
     \<or> has_prefix ''-e'' argument \<and> \<not> has_prefix ''--'' argument"

definition rejectReservedArguments :: "string list \<Rightarrow> unit result" where
  "rejectReservedArguments args =
     (if list_ex isReservedArgument (takeWhile (\<lambda>a. a \<noteq> ''--'') args) then
        launch_error ''endpoint, model, and Cursor API key arguments are reserved''
      else Inr ())"

definition parseEnvironment :: "string list \<Rightarrow> environment" where
  "parseEnvironment entries = foldl (\<lambda>env entry. case parse_entry entry of
     None \<Rightarrow> env | Some (key, v) \<Rightarrow> env_set key v env) [] entries"

definition strippedKeys :: "string list" where
  "strippedKeys = [''CURSOR_API_KEY'', ''CURSOR_AGENT_CLI_AUTHLESS_MODE'', ''CURSOR_AGENT_CLI_LOCAL_MODE'', ''CURSOR_ENABLE_AUTHLESS'',
     ''CURSOR_ENABLE_BEDROCK'', ''CURSOR_ENABLE_LOCAL_BEDROCK'', ''CURSOR_LOCAL_AGENT_ALLOW_CURSOR_HOST'',
     ''CURSOR_LOCAL_AGENT_API_KEY'', ''CURSOR_LOCAL_AGENT_API_KEY_HELPER'', ''CURSOR_LOCAL_AGENT_BASE_URL'']"

definition launch_values :: "LaunchOptions \<Rightarrow> (string \<times> string) list" where
  "launch_values options = [(''CURSOR_AUTH_TOKEN'', lo_AuthToken options), (''CURSOR_API_ENDPOINT'', lo_EndpointURL options),
     (''CURSOR_API_BASE_URL'', lo_EndpointURL options), (''AGENT_CLI_CREDENTIAL_STORE'', ''file''),
     (''NODE_EXTRA_CA_CERTS'', lo_CACertPath options), (''NO_OPEN_BROWSER'', ''1'')]"

definition launch_environment :: "LaunchOptions \<Rightarrow> environment" where
  "launch_environment options =
     foldl (\<lambda>env (key, v). env_set key v env)
       (foldl (\<lambda>env key. env_delete key env) (parseEnvironment (lo_ParentEnv options))
         (lo_ProviderSecretEnvKeys options @ strippedKeys))
       (launch_values options)"

definition BuildLaunchSpec :: "LaunchOptions \<Rightarrow> LaunchSpec result" where
  "BuildLaunchSpec options =
     (if \<not> filepath_IsAbs (lo_CursorPath options) then launch_error ''cursor-agent path must be absolute''
      else try_then (validateLocalEndpoint (lo_EndpointURL options)) (\<lambda>_.
        if lo_Model options = [] \<or> hasPadding (lo_Model options) \<or> hasControl (lo_Model options) then
          launch_error ''model must be a nonempty safe alias''
        else if \<not> filepath_IsAbs (lo_CACertPath options) then launch_error ''CA certificate path must be absolute''
        else if lo_AuthToken options = [] \<or> hasControl (lo_AuthToken options) then launch_error ''local auth token is required''
        else try_then (rejectReservedArguments (lo_UserArgs options)) (\<lambda>_.
          if list_ex (\<lambda>key. \<not> validEnvironmentKey key) (lo_ProviderSecretEnvKeys options) then
            launch_error ''provider secret environment name is invalid''
          else Inr \<lparr> lp_Path = lo_CursorPath options,
            lp_Args = [''-e'', lo_EndpointURL options, ''--model'', lo_Model options] @ lo_UserArgs options,
            lp_Env = format_environment (launch_environment options) \<rparr>)))"

section \<open>Finding the client and its version\<close>

definition installCommand :: string where
  "installCommand = ''curl https://cursor.com/install -fsS | bash''"

definition isExecutableFile :: "(string \<Rightarrow> (bool \<times> nat) option) \<Rightarrow> string \<Rightarrow> bool" where
  "isExecutableFile stat path = (case stat path of
     None \<Rightarrow> False | Some (regular, perm) \<Rightarrow> regular \<and> (odd perm \<or> odd (perm div 8) \<or> odd (perm div 64)))"

definition cli_Find :: "(string \<Rightarrow> (bool \<times> nat) option) \<Rightarrow> (string \<Rightarrow> string) option \<Rightarrow> string result" where
  "cli_Find stat getenv = (case getenv of
     None \<Rightarrow> Inl (Errorf ''find cursor-agent: environment lookup is required'')
   | Some getenv \<Rightarrow>
       let directories = (if getenv ''PATH'' = [] then [] else split_on (CHR '':'') (getenv ''PATH'')) in
       case find (isExecutableFile stat) (map (\<lambda>d. filepath_Join [d, ''cursor-agent'']) (filter filepath_IsAbs directories)) of
         Some candidate \<Rightarrow> Inr candidate
       | None \<Rightarrow>
           let home = getenv ''HOME''; candidate = filepath_Join [home, ''.local'', ''bin'', ''cursor-agent''] in
           if home \<noteq> [] \<and> \<not> filepath_IsAbs home then Inl (Errorf ''find cursor-agent: HOME must be absolute'')
           else if home \<noteq> [] \<and> isExecutableFile stat candidate then Inr candidate
           else Inl (Errorf (''find cursor-agent: executable not found; install the official Cursor CLI with: '' @ installCommand)))"

record Version =
  vn_Raw :: string
  vn_Year :: nat
  vn_Month :: nat
  vn_Day :: nat
  vn_Revision :: string

definition verifiedVersions :: "string list" where
  "verifiedVersions = [''2026.07.08-0c04a8a'', ''2026.07.09-a3815c0'']"

definition IsVerifiedVersion :: "Version \<Rightarrow> bool" where
  "IsVerifiedVersion v \<longleftrightarrow> vn_Raw v \<in> set verifiedVersions"

definition digits_of :: "nat \<Rightarrow> string \<Rightarrow> bool" where
  "digits_of n s \<longleftrightarrow> length s = n \<and> list_all is_digit s"

text \<open>
  \<open>^(\d{4})\.(\d{2})\.(\d{2})-([0-9A-Za-z][0-9A-Za-z.-]*)$\<close>: the parts are at fixed places.
\<close>

definition officialVersionPattern :: "string \<Rightarrow> (string \<times> string \<times> string \<times> string) option" where
  "officialVersionPattern raw =
     (let y = take 4 raw; m = take 2 (drop 5 raw); d = take 2 (drop 8 raw); r = drop 11 raw in
      if digits_of 4 y \<and> take 1 (drop 4 raw) = ''.'' \<and> digits_of 2 m \<and> take 1 (drop 7 raw) = ''.'' \<and> digits_of 2 d
        \<and> take 1 (drop 10 raw) = ''-'' \<and> r \<noteq> [] \<and> is_alnum (hd r) \<and> list_all (\<lambda>c. is_alnum c \<or> c = CHR ''.'' \<or> c = CHR ''-'') (tl r)
      then Some (y, m, d, r) else None)"

definition ParseVersion :: "string \<Rightarrow> Version result" where
  "ParseVersion raw = (case officialVersionPattern raw of
     None \<Rightarrow> Inl (Errorf ''parse cursor-agent version: unsupported version format'')
   | Some (y, m, d, r) \<Rightarrow>
       let year = digits_val 0 y; month = digits_val 0 m; day = digits_val 0 d in
       if \<not> calendar_date year month day then Inl (Errorf ''parse cursor-agent version: invalid release date'')
       else Inr \<lparr> vn_Raw = raw, vn_Year = year, vn_Month = month, vn_Day = day, vn_Revision = r \<rparr>)"

text \<open>\<open>run\<close> is what running the client with \<open>--version\<close> prints, or its failure.\<close>

definition ReadVersion :: "(string \<Rightarrow> (bool \<times> nat) option) \<Rightarrow> (string \<Rightarrow> bytes result) \<Rightarrow> string \<Rightarrow> Version result" where
  "ReadVersion stat run path =
     (if \<not> filepath_IsAbs path \<or> \<not> isExecutableFile stat path then
        Inl (Errorf ''read cursor-agent version: path must be an absolute executable file'')
      else try_wrap (Wrapf (''read cursor-agent version: execute '' @ go_quote path @ '': '')) (run path) (\<lambda>output.
        ParseVersion (trimSpace output)))"

section \<open>What the client gets\<close>

lemma parseEnvironment_ok: "env_ok (parseEnvironment entries)"
proof -
  have "env_ok env \<Longrightarrow> env_ok (foldl (\<lambda>env entry. case parse_entry entry of None \<Rightarrow> env | Some (k, v) \<Rightarrow> env_set k v env) env entries)" for env
    by (induction entries arbitrary: env) (auto split: option.split intro: env_set_ok dest: parse_entry_key)
  from this [of "[]"] show ?thesis by (simp add: parseEnvironment_def) (simp add: env_ok_def)
qed

lemma delete_all_ok: "env_ok env \<Longrightarrow> env_ok (foldl (\<lambda>env key. env_delete key env) env keys)"
  by (induction keys arbitrary: env) (auto intro: env_delete_ok)

lemma map_of_delete_all:
  "map_of (foldl (\<lambda>env key. env_delete key env) env keys) k = (if k \<in> set keys then None else map_of env k)"
  by (induction keys arbitrary: env) (auto simp: map_of_delete)

lemma set_all_ok:
  "env_ok env \<Longrightarrow> \<forall>(k, v)\<in>set kvs. CHR ''='' \<notin> set k \<Longrightarrow> env_ok (foldl (\<lambda>env (k, v). env_set k v env) env kvs)"
  by (induction kvs arbitrary: env) (auto intro: env_set_ok)

lemma map_of_set_all:
  "distinct (map fst kvs) \<Longrightarrow> map_of (foldl (\<lambda>env (k, v). env_set k v env) env kvs) k
     = (case map_of kvs k of Some v \<Rightarrow> Some v | None \<Rightarrow> map_of env k)"
proof (induction kvs arbitrary: env)
  case (Cons e kvs)
  obtain k' v' where e: "e = (k', v')" by (cases e)
  from Cons.prems e have "map_of kvs k' = None" by (simp add: map_of_eq_None_iff)
  with Cons e show ?case by (cases "k = k'") (simp_all add: map_of_set split: option.split)
qed simp

lemma launch_values_keys:
  "distinct (map fst (launch_values options))" "\<forall>(k, v)\<in>set (launch_values options). CHR ''='' \<notin> set k"
  by (simp_all add: launch_values_def)

lemma launch_environment_ok: "env_ok (launch_environment options)"
  unfolding launch_environment_def
  by (intro set_all_ok delete_all_ok parseEnvironment_ok launch_values_keys)

lemma map_of_launch:
  "map_of (launch_environment options) k = (case map_of (launch_values options) k of
     Some v \<Rightarrow> Some v
   | None \<Rightarrow> if k \<in> set (lo_ProviderSecretEnvKeys options @ strippedKeys) then None
       else map_of (parseEnvironment (lo_ParentEnv options)) k)"
  unfolding launch_environment_def by (simp only: map_of_set_all [OF launch_values_keys(1)] map_of_delete_all)

lemma validEnvironmentKey_eq: "validEnvironmentKey k \<Longrightarrow> CHR ''='' \<notin> set k"
proof -
  have "\<not> is_alpha (CHR ''='')" "\<not> is_digit (CHR ''='')" by (simp_all add: is_alpha_def is_digit_def)
  moreover assume "validEnvironmentKey k"
  ultimately show ?thesis by (cases k) (fastforce simp: validEnvironmentKey_def list_all_iff)+
qed

lemma validateLocalEndpoint_loopback:
  "validateLocalEndpoint raw = Inr () \<Longrightarrow> \<exists>u. url_Parse raw = Some u \<and> url_Scheme u = ''https''
     \<and> (url_Hostname u = ''localhost'' \<or> (\<exists>ip. parseIP (url_Hostname u) = Some ip \<and> ip_IsLoopback ip))"
  by (auto simp: validateLocalEndpoint_def launch_error_def split: option.splits if_splits)

lemma launch_parts:
  assumes "BuildLaunchSpec options = Inr spec"
  shows "validateLocalEndpoint (lo_EndpointURL options) = Inr ()" and "rejectReservedArguments (lo_UserArgs options) = Inr ()"
    and "\<And>k v. k \<in> set (lo_ProviderSecretEnvKeys options @ strippedKeys) \<Longrightarrow> env_entry k v \<in> set (lp_Env spec) \<Longrightarrow> (k, v) \<in> set (launch_values options)"
    and "\<And>k v. (k, v) \<in> set (launch_values options) \<Longrightarrow> {w. env_entry k w \<in> set (lp_Env spec)} = {v}"
    and "lp_Path spec = lo_CursorPath options"
    and "lp_Args spec = [''-e'', lo_EndpointURL options, ''--model'', lo_Model options] @ lo_UserArgs options"
proof -
  let ?spec = "\<lparr> lp_Path = lo_CursorPath options,
            lp_Args = [''-e'', lo_EndpointURL options, ''--model'', lo_Model options] @ lo_UserArgs options,
            lp_Env = format_environment (launch_environment options) \<rparr>"
  from assms have parts: "validateLocalEndpoint (lo_EndpointURL options) = Inr () \<and> rejectReservedArguments (lo_UserArgs options) = Inr ()
      \<and> \<not> list_ex (\<lambda>key. \<not> validEnvironmentKey key) (lo_ProviderSecretEnvKeys options) \<and> spec = ?spec"
    unfolding BuildLaunchSpec_def launch_error_def try_then_Inr_iff by (simp only: if_Inl_Inr_iff try_then_Inr_iff) (elim conjE exE, simp)
  then have ep: "validateLocalEndpoint (lo_EndpointURL options) = Inr ()"
    and reserved: "rejectReservedArguments (lo_UserArgs options) = Inr ()"
    and keys: "list_all validEnvironmentKey (lo_ProviderSecretEnvKeys options)" and spec: "spec = ?spec"
    by (simp_all add: list_all_iff list_ex_iff)
  note mem = format_mem [OF launch_environment_ok [of options]]
  have secret: "(k, v) \<in> set (launch_values options)"
    if "k \<in> set (lo_ProviderSecretEnvKeys options @ strippedKeys)" "env_entry k v \<in> set (lp_Env spec)" for k v
  proof -
    have "CHR ''='' \<notin> set k"
    proof (cases "k \<in> set strippedKeys")
      case True
      then show ?thesis by (auto simp: strippedKeys_def)
    next
      case False
      then show ?thesis using that(1) keys validEnvironmentKey_eq by (auto simp: list_all_iff)
    qed
    then have "map_of (launch_environment options) k = Some v" using that(2) mem by (simp add: spec)
    then show ?thesis using that(1) by (auto simp: map_of_launch split: option.splits dest: map_of_SomeD)
  qed
  have own: "{w. env_entry k w \<in> set (lp_Env spec)} = {v}" if "(k, v) \<in> set (launch_values options)" for k v
  proof -
    have "CHR ''='' \<notin> set k" using launch_values_keys(2) that by auto
    moreover have "map_of (launch_environment options) k = Some v"
      using that launch_values_keys(1) by (simp add: map_of_launch)
    ultimately show ?thesis using mem by (auto simp: spec)
  qed
  show "validateLocalEndpoint (lo_EndpointURL options) = Inr ()" "rejectReservedArguments (lo_UserArgs options) = Inr ()"
    by (rule ep, rule reserved)
  show "\<And>k v. k \<in> set (lo_ProviderSecretEnvKeys options @ strippedKeys) \<Longrightarrow> env_entry k v \<in> set (lp_Env spec) \<Longrightarrow> (k, v) \<in> set (launch_values options)"
    by (rule secret)
  show "\<And>k v. (k, v) \<in> set (launch_values options) \<Longrightarrow> {w. env_entry k w \<in> set (lp_Env spec)} = {v}" by (rule own)
  show "lp_Path spec = lo_CursorPath options" "lp_Args spec = [''-e'', lo_EndpointURL options, ''--model'', lo_Model options] @ lo_UserArgs options"
    by (simp_all add: spec)
qed

lemma reserved_literally:
  "isReservedArgument a \<longleftrightarrow> take 2 a = ''-e'' \<or> a \<in> {''--endpoint'', ''--api-key'', ''--model''}
     \<or> take 11 a = ''--endpoint='' \<or> take 10 a = ''--api-key='' \<or> take 8 a = ''--model=''"
proof -
  have "take 2 a = take 2 (take 3 a)" by simp
  then have three: "take 3 a = ''-e='' \<Longrightarrow> take 2 a = ''-e''" by (simp del: take_take)
  have one: "a = ''-e'' \<Longrightarrow> take 2 a = ''-e''" by simp
  have prefixes: "has_prefix ''-e'' a \<longleftrightarrow> take 2 a = ''-e''" "has_prefix ''--'' a \<longleftrightarrow> take 2 a = ''--''"
    "has_prefix ''-e='' a \<longleftrightarrow> take 3 a = ''-e=''" "has_prefix ''--endpoint='' a \<longleftrightarrow> take 11 a = ''--endpoint=''"
    "has_prefix ''--api-key='' a \<longleftrightarrow> take 10 a = ''--api-key=''" "has_prefix ''--model='' a \<longleftrightarrow> take 8 a = ''--model=''"
    by (simp_all add: has_prefix_def eval_nat_numeral)
  have reserved: "isReservedArgument a \<longleftrightarrow> (a = ''-e'' \<or> take 3 a = ''-e='') \<or> (a = ''--endpoint'' \<or> take 11 a = ''--endpoint='')
      \<or> (a = ''--api-key'' \<or> take 10 a = ''--api-key='') \<or> (a = ''--model'' \<or> take 8 a = ''--model='')
      \<or> take 2 a = ''-e'' \<and> take 2 a \<noteq> ''--''"
    by (simp only: isReservedArgument_def list_ex_Cons_iff list_ex_Nil_iff append.simps disj_assoc simp_thms prefixes)
  show ?thesis
  proof (cases "take 2 a = ''-e''")
    case True
    moreover from this have "take 2 a \<noteq> ''--''" by (rule ssubst) simp
    ultimately show ?thesis by (simp only: reserved simp_thms)
  next
    case False
    then have "a \<noteq> ''-e''" "take 3 a \<noteq> ''-e=''" using one three by argo+
    then show ?thesis using False by (simp only: reserved simp_thms insert_iff empty_iff) argo
  qed
qed

lemma stripped_literally: "set strippedKeys = {''CURSOR_API_KEY'', ''CURSOR_AGENT_CLI_AUTHLESS_MODE'',
    ''CURSOR_AGENT_CLI_LOCAL_MODE'', ''CURSOR_ENABLE_AUTHLESS'', ''CURSOR_ENABLE_BEDROCK'', ''CURSOR_ENABLE_LOCAL_BEDROCK'',
    ''CURSOR_LOCAL_AGENT_ALLOW_CURSOR_HOST'', ''CURSOR_LOCAL_AGENT_API_KEY'', ''CURSOR_LOCAL_AGENT_API_KEY_HELPER'',
    ''CURSOR_LOCAL_AGENT_BASE_URL''}"
  by (simp only: strippedKeys_def list.set)

lemma launch_keys_literally: "fst ` set (launch_values options) = {''CURSOR_AUTH_TOKEN'', ''CURSOR_API_ENDPOINT'', ''CURSOR_API_BASE_URL'',
    ''AGENT_CLI_CREDENTIAL_STORE'', ''NODE_EXTRA_CA_CERTS'', ''NO_OPEN_BROWSER''}"
  by (simp only: launch_values_def list.set image_insert image_empty fst_conv)

text \<open>C35: The client is started against the local service only and without the secrets of the providers. Its arguments are the
  service's endpoint and the model, then the user's; the endpoint is an HTTPS URL of a loopback host; of the user's arguments
  before the separator none is an \<open>--endpoint\<close>, \<open>--api-key\<close> or \<open>--model\<close>, alone or with \<open>=\<close>, or begins with
  \<open>-e\<close>. Whatever the caller's environment had, the client's has exactly one value for each of the six variables that the launch sets, among them
  the token, both endpoints and the certificate, and no entry for any other variable that is a provider's secret or one of the ten that
  are stripped; nothing is claimed of the variables that are inherited, such as a proxy.\<close>

theorem launch_isolated:
  assumes "BuildLaunchSpec options = Inr spec"
  shows "lp_Path spec = lo_CursorPath options
    \<and> lp_Args spec = [''-e'', lo_EndpointURL options, ''--model'', lo_Model options] @ lo_UserArgs options
    \<and> (\<exists>u. url_Parse (lo_EndpointURL options) = Some u \<and> url_Scheme u = ''https''
        \<and> (url_Hostname u = ''localhost'' \<or> (\<exists>ip. parseIP (url_Hostname u) = Some ip \<and> ip_IsLoopback ip)))
    \<and> (\<forall>a\<in>set (takeWhile (\<lambda>a. a \<noteq> ''--'') (lo_UserArgs options)).
        take 2 a \<noteq> ''-e'' \<and> a \<notin> {''--endpoint'', ''--api-key'', ''--model''}
        \<and> take 11 a \<noteq> ''--endpoint='' \<and> take 10 a \<noteq> ''--api-key='' \<and> take 8 a \<noteq> ''--model='')
    \<and> (\<forall>k v. k \<in> set (lo_ProviderSecretEnvKeys options) \<union> {''CURSOR_API_KEY'', ''CURSOR_AGENT_CLI_AUTHLESS_MODE'',
          ''CURSOR_AGENT_CLI_LOCAL_MODE'', ''CURSOR_ENABLE_AUTHLESS'', ''CURSOR_ENABLE_BEDROCK'', ''CURSOR_ENABLE_LOCAL_BEDROCK'',
          ''CURSOR_LOCAL_AGENT_ALLOW_CURSOR_HOST'', ''CURSOR_LOCAL_AGENT_API_KEY'', ''CURSOR_LOCAL_AGENT_API_KEY_HELPER'',
          ''CURSOR_LOCAL_AGENT_BASE_URL''}
        \<longrightarrow> k \<notin> {''CURSOR_AUTH_TOKEN'', ''CURSOR_API_ENDPOINT'', ''CURSOR_API_BASE_URL'', ''AGENT_CLI_CREDENTIAL_STORE'',
          ''NODE_EXTRA_CA_CERTS'', ''NO_OPEN_BROWSER''} \<longrightarrow> k @ ''='' @ v \<notin> set (lp_Env spec))
    \<and> {v. ''CURSOR_AUTH_TOKEN='' @ v \<in> set (lp_Env spec)} = {lo_AuthToken options}
    \<and> {v. ''CURSOR_API_ENDPOINT='' @ v \<in> set (lp_Env spec)} = {lo_EndpointURL options}
    \<and> {v. ''CURSOR_API_BASE_URL='' @ v \<in> set (lp_Env spec)} = {lo_EndpointURL options}
    \<and> {v. ''AGENT_CLI_CREDENTIAL_STORE='' @ v \<in> set (lp_Env spec)} = {''file''}
    \<and> {v. ''NODE_EXTRA_CA_CERTS='' @ v \<in> set (lp_Env spec)} = {lo_CACertPath options}
    \<and> {v. ''NO_OPEN_BROWSER='' @ v \<in> set (lp_Env spec)} = {''1''}"
proof -
  note parts = launch_parts [OF assms]
  have own: "{w. k @ ''='' @ w \<in> set (lp_Env spec)} = {v}" if "(k, v) \<in> set (launch_values options)" for k v
    using parts(4) [OF that] by (simp only: env_entry_def)
  have members: "(''CURSOR_AUTH_TOKEN'', lo_AuthToken options) \<in> set (launch_values options)"
    "(''CURSOR_API_ENDPOINT'', lo_EndpointURL options) \<in> set (launch_values options)"
    "(''CURSOR_API_BASE_URL'', lo_EndpointURL options) \<in> set (launch_values options)"
    "(''AGENT_CLI_CREDENTIAL_STORE'', ''file'') \<in> set (launch_values options)"
    "(''NODE_EXTRA_CA_CERTS'', lo_CACertPath options) \<in> set (launch_values options)"
    "(''NO_OPEN_BROWSER'', ''1'') \<in> set (launch_values options)"
    unfolding launch_values_def list.set by (rule insertI1 insertI2)+
  have six: "{v. ''CURSOR_AUTH_TOKEN='' @ v \<in> set (lp_Env spec)} = {lo_AuthToken options}"
    "{v. ''CURSOR_API_ENDPOINT='' @ v \<in> set (lp_Env spec)} = {lo_EndpointURL options}"
    "{v. ''CURSOR_API_BASE_URL='' @ v \<in> set (lp_Env spec)} = {lo_EndpointURL options}"
    "{v. ''AGENT_CLI_CREDENTIAL_STORE='' @ v \<in> set (lp_Env spec)} = {''file''}"
    "{v. ''NODE_EXTRA_CA_CERTS='' @ v \<in> set (lp_Env spec)} = {lo_CACertPath options}"
    "{v. ''NO_OPEN_BROWSER='' @ v \<in> set (lp_Env spec)} = {''1''}"
    by (simp_all only: own [OF members(1), unfolded append_Cons append_Nil] own [OF members(2), unfolded append_Cons append_Nil]
        own [OF members(3), unfolded append_Cons append_Nil] own [OF members(4), unfolded append_Cons append_Nil]
        own [OF members(5), unfolded append_Cons append_Nil] own [OF members(6), unfolded append_Cons append_Nil] append_Cons append_Nil)
  have stripped: "\<forall>k v. k \<in> set (lo_ProviderSecretEnvKeys options) \<union> set strippedKeys \<longrightarrow> k \<notin> fst ` set (launch_values options)
      \<longrightarrow> k @ ''='' @ v \<notin> set (lp_Env spec)"
    using parts(3) unfolding env_entry_def set_append by force
  have "\<forall>a\<in>set (takeWhile (\<lambda>a. a \<noteq> ''--'') (lo_UserArgs options)). \<not> isReservedArgument a"
    using parts(2) by (simp add: rejectReservedArguments_def launch_error_def list_ex_iff split: if_splits)
  then have args: "\<forall>a\<in>set (takeWhile (\<lambda>a. a \<noteq> ''--'') (lo_UserArgs options)).
        take 2 a \<noteq> ''-e'' \<and> a \<notin> {''--endpoint'', ''--api-key'', ''--model''}
        \<and> take 11 a \<noteq> ''--endpoint='' \<and> take 10 a \<noteq> ''--api-key='' \<and> take 8 a \<noteq> ''--model=''"
    unfolding reserved_literally by blast
  show ?thesis
    by (intro conjI parts(5,6) validateLocalEndpoint_loopback [OF parts(1)] args six
        stripped [unfolded stripped_literally launch_keys_literally])
qed

definition sample_launch :: LaunchOptions where
  "sample_launch = \<lparr> lo_CursorPath = ''/c'', lo_EndpointURL = ''https://127.0.0.1:4000'', lo_Model = ''m'', lo_CACertPath = ''/ca'',
     lo_AuthToken = ''t'', lo_ParentEnv = [''KEY=secret'', ''CURSOR_AUTH_TOKEN=mine'', ''A=b''], lo_ProviderSecretEnvKeys = [''KEY''],
     lo_UserArgs = [''-p'', ''--'', ''-e''] \<rparr>"

lemma sample_local_endpoint: "validateLocalEndpoint ''https://127.0.0.1:4000'' = Inr ()"
proof -
  have "url_Parse ''https://127.0.0.1:4000'' = Some (new_url\<lparr>url_Scheme := ''https'', url_Host := ''127.0.0.1:4000''\<rparr>)"
    by (simp add: url_eval)
  moreover have "\<exists>ip. parseIP ''127.0.0.1'' = Some ip \<and> ip_IsLoopback ip"
    by (simp add: ip_eval Let_def replicate_numeral)
  ultimately show ?thesis
    by (auto simp: validateLocalEndpoint_def url_Hostname_def url_Port_def cut_last_def is_digit_def new_url_def Atoi_def)
qed

theorem launch_isolated_witness:
  "\<exists>spec. BuildLaunchSpec sample_launch = Inr spec \<and> \<not> (\<exists>v. ''KEY='' @ v \<in> set (lp_Env spec))
     \<and> {w. ''CURSOR_AUTH_TOKEN='' @ w \<in> set (lp_Env spec)} = {''t''}"
proof -
  obtain spec where s: "BuildLaunchSpec sample_launch = Inr spec"
    by (simp add: BuildLaunchSpec_def sample_launch_def sample_local_endpoint hasPadding_def trimSpace_def trim_pieces_def go_eval
        filepath_IsAbs_def rejectReservedArguments_def isReservedArgument_def has_prefix_def validEnvironmentKey_def is_alpha_def is_digit_def)
  note all = launch_isolated [OF s]
  have "''KEY'' @ ''='' @ v \<notin> set (lp_Env spec)" for v
    by (rule conjunct1 [OF conjunct2 [OF conjunct2 [OF conjunct2 [OF conjunct2 [OF all]]]], THEN spec, THEN spec, THEN mp, THEN mp])
      (simp_all add: sample_launch_def)
  moreover have "{w. ''CURSOR_AUTH_TOKEN='' @ w \<in> set (lp_Env spec)} = {lo_AuthToken sample_launch}" using all by (elim conjE)
  ultimately show ?thesis using s by (auto simp: sample_launch_def)
qed

end
