(* ===== verification/Daemon_State.thy ===== *)
theory Daemon_State
  imports Config_Store Json_Text Go_Sha256 Cursor_Launch
begin

text \<open>
  \<open>daemon/state.go\<close>, \<open>paths/paths.go\<close> and the credentials of \<open>daemon/service.go\<close>: where the daemon
  keeps its files, the state it publishes, how that state is stored and read back, and the
  identifiers it makes up when it starts.
\<close>

section \<open>Paths\<close>

record Paths =
  pa_ConfigDir :: string
  pa_ConfigFile :: string
  pa_DataDir :: string
  pa_StateDir :: string

definition appName :: string where "appName = ''cursor-cli-byok''"

definition xdgRoot :: "(string \<Rightarrow> string) \<Rightarrow> string \<Rightarrow> string \<Rightarrow> string result" where
  "xdgRoot getenv name fallback =
     (if getenv name = [] then Inr fallback
      else if \<not> filepath_IsAbs (getenv name) then Inl (Errorf (''resolve paths: '' @ name @ '' must be absolute''))
      else Inr (getenv name))"

definition paths_Resolve :: "(string \<Rightarrow> string) option \<Rightarrow> Paths result" where
  "paths_Resolve getenv = (case getenv of
     None \<Rightarrow> Inl (Errorf ''resolve paths: environment lookup is required'')
   | Some getenv \<Rightarrow>
       let home = getenv ''HOME'' in
       if home = [] then Inl (Errorf ''resolve paths: HOME is required'')
       else if \<not> filepath_IsAbs home then Inl (Errorf ''resolve paths: HOME must be absolute'')
       else try_then (xdgRoot getenv ''XDG_CONFIG_HOME'' (filepath_Join [home, ''.config''])) (\<lambda>configHome.
            try_then (xdgRoot getenv ''XDG_DATA_HOME'' (filepath_Join [home, ''.local'', ''share''])) (\<lambda>dataHome.
            try_then (xdgRoot getenv ''XDG_STATE_HOME'' (filepath_Join [home, ''.local'', ''state''])) (\<lambda>stateHome.
              let configDir = filepath_Join [configHome, appName] in
              Inr \<lparr> pa_ConfigDir = configDir, pa_ConfigFile = filepath_Join [configDir, ''config.yaml''],
                pa_DataDir = filepath_Join [dataHome, appName], pa_StateDir = filepath_Join [stateHome, appName] \<rparr>))))"

definition StatePath :: "Paths \<Rightarrow> string" where
  "StatePath p = filepath_Join [pa_StateDir p, ''daemon.json'']"

definition LockPath :: "Paths \<Rightarrow> string" where
  "LockPath p = filepath_Join [pa_StateDir p, ''daemon.lock'']"

section \<open>Credentials\<close>

text \<open>The alphabet of \<open>base64.RawURLEncoding\<close>, its encoder, and when its decoder takes a text.\<close>

definition b64_alphabet :: string where
  "b64_alphabet = ''ABCDEFGHIJKLMNOPQRSTUVWXYZabcdefghijklmnopqrstuvwxyz0123456789-_''"

definition b64_char :: "nat \<Rightarrow> char" where
  "b64_char n = b64_alphabet ! (n mod 64)"

fun b64_encode :: "bytes \<Rightarrow> string" where
  "b64_encode [] = []"
| "b64_encode [a] = [b64_char (byte_val a div 4), b64_char (byte_val a * 16)]"
| "b64_encode [a, b] = [b64_char (byte_val a div 4), b64_char (byte_val a * 16 + byte_val b div 16), b64_char (byte_val b * 4)]"
| "b64_encode (a # b # c # r) = [b64_char (byte_val a div 4), b64_char (byte_val a * 16 + byte_val b div 16),
     b64_char (byte_val b * 4 + byte_val c div 64), b64_char (byte_val c)] @ b64_encode r"

definition b64_decodes :: "string \<Rightarrow> bool" where
  "b64_decodes s \<longleftrightarrow> (let t = filter (\<lambda>c. c \<noteq> CHR 0x0A \<and> c \<noteq> CHR 0x0D) s in
     list_all (\<lambda>c. c \<in> set b64_alphabet) t \<and> length t mod 4 \<noteq> 1)"

definition newInstanceID :: "bytes option \<Rightarrow> string result" where
  "newInstanceID random = (case random of None \<Rightarrow> Inl (Errorf ''read random'') | Some b \<Rightarrow> Inr (hex_encode b))"

definition token_header :: string where
  "token_header = json_object [(''alg'', json_quote ''HS256''), (''typ'', json_quote ''JWT'')]"

definition token_payload :: string where
  "token_payload = json_object [(''sub'', json_quote ''cursor-cli-byok''), (''email'', json_quote ''byok@localhost''),
     (''type'', json_quote ''session''), (''iss'', json_quote ''cursor-cli-byok''), (''exp'', show_int 4102444800)]"

definition newAuthToken :: "bytes option \<Rightarrow> string result" where
  "newAuthToken random = (case random of
     None \<Rightarrow> Inl (Errorf ''read random'')
   | Some signature \<Rightarrow> Inr (b64_encode token_header @ ''.'' @ b64_encode token_payload @ ''.'' @ b64_encode signature))"

definition validJWTShape :: "string \<Rightarrow> bool" where
  "validJWTShape token \<longleftrightarrow> token \<noteq> [] \<and> length token \<le> 4096 \<and> \<not> hasControl token
     \<and> length (split_on (CHR ''.'') token) = 3 \<and> list_all (\<lambda>part. part \<noteq> [] \<and> b64_decodes part) (split_on (CHR ''.'') token)"

text \<open>The port of the address the server says it serves.\<close>

definition endpointPort :: "string \<Rightarrow> int result" where
  "endpointPort endpoint = (case url_Parse endpoint of
     None \<Rightarrow> Inl (Errorf ''server returned an invalid endpoint'')
   | Some parsed \<Rightarrow> (case Atoi (url_Port parsed) of
       None \<Rightarrow> Inl (Errorf ''server returned an invalid endpoint port'')
     | Some port \<Rightarrow>
         if port < 1 \<or> 65535 < port then Inl (Errorf ''server returned an invalid endpoint port'') else Inr port))"

section \<open>The state\<close>

record State =
  ds_Version :: int
  ds_PID :: int
  ds_Port :: int
  ds_CACertPath :: string
  ds_DaemonVersion :: string
  ds_InstanceID :: string
  ds_AuthToken :: string
  ds_StartedAt :: gotime

definition CurrentStateVersion :: int where "CurrentStateVersion = 1"

definition zero_time :: gotime where
  "zero_time = \<lparr> tm_Year = 1, tm_Month = 1, tm_Day = 1, tm_Hour = 0, tm_Minute = 0, tm_Second = 0, tm_Nano = 0, tm_Offset = 0 \<rparr>"

definition State_Validate :: "State \<Rightarrow> unit result" where
  "State_Validate s =
     (let problem = (\<lambda>p. Inl (Errorf (''validate daemon state: '' @ p))) in
      if ds_Version s \<noteq> CurrentStateVersion then problem ''unsupported version''
      else if ds_PID s < 1 then problem ''PID must be positive''
      else if ds_Port s < 1 \<or> 65535 < ds_Port s then problem ''port is invalid''
      else if \<not> filepath_IsAbs (ds_CACertPath s) then problem ''CA certificate path must be absolute''
      else if ds_DaemonVersion s = [] \<or> ds_DaemonVersion s \<noteq> trimSpace (ds_DaemonVersion s) \<or> hasControl (ds_DaemonVersion s) then
        problem ''daemon version is invalid''
      else if \<not> instanceIDPattern (ds_InstanceID s) then problem ''instance ID is invalid''
      else if \<not> validJWTShape (ds_AuthToken s) then problem ''auth token is invalid''
      else if time_IsZero (ds_StartedAt s) then problem ''start time is required''
      else Inr ())"

definition EndpointURL :: "State \<Rightarrow> string" where
  "EndpointURL s = ''https://127.0.0.1:'' @ show_int (ds_Port s)"

definition State_String :: "State \<Rightarrow> string" where
  "State_String s = ''State{Version:'' @ show_int (ds_Version s) @ '' PID:'' @ show_int (ds_PID s) @ '' Port:'' @ show_int (ds_Port s)
     @ '' CACertPath:'' @ go_quote (ds_CACertPath s) @ '' DaemonVersion:'' @ go_quote (ds_DaemonVersion s)
     @ '' InstanceID:'' @ go_quote (ds_InstanceID s) @ '' AuthToken:'' @ go_quote ''[REDACTED]''
     @ '' StartedAt:'' @ go_quote (format_time (ds_StartedAt s)) @ ''}''"

section \<open>The state file\<close>

definition state_json :: "State \<Rightarrow> bytes result" where
  "state_json s = try_then (time_json (ds_StartedAt s)) (\<lambda>startedAt.
     Inr (json_object [(''version'', show_int (ds_Version s)), (''pid'', show_int (ds_PID s)), (''port'', show_int (ds_Port s)),
       (''ca_cert_path'', json_quote (ds_CACertPath s)), (''daemon_version'', json_quote (ds_DaemonVersion s)),
       (''instance_id'', json_quote (ds_InstanceID s)), (''auth_token'', json_quote (ds_AuthToken s)), (''started_at'', startedAt)]))"

definition state_fields :: "string list" where
  "state_fields = [''version'', ''pid'', ''port'', ''ca_cert_path'', ''daemon_version'', ''instance_id'', ''auth_token'', ''started_at'']"

definition state_unmarshal :: "bytes \<Rightarrow> State option" where
  "state_unmarshal d =
     Option.bind (strict_fields state_fields d) (\<lambda>ms.
     Option.bind (intField ''version'' ms) (\<lambda>version. Option.bind (intField ''pid'' ms) (\<lambda>pid.
     Option.bind (intField ''port'' ms) (\<lambda>port. Option.bind (stringField ''ca_cert_path'' ms) (\<lambda>caCertPath.
     Option.bind (stringField ''daemon_version'' ms) (\<lambda>daemonVersion. Option.bind (stringField ''instance_id'' ms) (\<lambda>instanceID.
     Option.bind (stringField ''auth_token'' ms) (\<lambda>authToken. Option.bind (fold_raw time_unmarshal ''started_at'' zero_time ms) (\<lambda>startedAt.
       Some \<lparr> ds_Version = version, ds_PID = pid, ds_Port = port, ds_CACertPath = caCertPath, ds_DaemonVersion = daemonVersion,
         ds_InstanceID = instanceID, ds_AuthToken = authToken, ds_StartedAt = startedAt \<rparr>)))))))))"

definition decode_state :: "bytes \<Rightarrow> State result" where
  "decode_state d = (case state_unmarshal d of
     None \<Rightarrow> Inl (Errorf ''load daemon state: decode JSON'')
   | Some s \<Rightarrow> try_wrap (Wrapf ''load daemon state: '') (State_Validate s) (\<lambda>_. Inr s))"

definition encode_state :: "string \<Rightarrow> State \<Rightarrow> bytes result" where
  "encode_state path s =
     try_then (validate_path ''save daemon state'' path) (\<lambda>_.
     try_wrap (Wrapf ''save daemon state: '') (State_Validate s) (\<lambda>_.
     try_wrap (Wrapf ''save daemon state: encode JSON: '') (state_json s) Inr))"

definition state_Load :: "os_env \<Rightarrow> string \<Rightarrow> State io" where
  "state_Load env path =
     io_then id (io_lift (validate_path ''load daemon state'' path)) (\<lambda>_.
     io_then id (read_secured env ''load daemon state: '' ''state'' path) (\<lambda>d. io_lift (decode_state d)))"

definition state_Save :: "os_env \<Rightarrow> string \<Rightarrow> State \<Rightarrow> unit io" where
  "state_Save env path s =
     io_then id (io_lift (encode_state path s)) (\<lambda>d.
     save_file env ''save daemon state: '' path d
       (io_then id (secure_file env ''save daemon state: '' path 384) (\<lambda>_.
        sync_directory env ''save daemon state: '' (filepath_Dir path))))"

definition state_Remove :: "os_env \<Rightarrow> string \<Rightarrow> unit io" where
  "state_Remove env path =
     io_then id (io_lift (validate_path ''remove daemon state'' path)) (\<lambda>_ w.
       case os_Remove env path w of
         (Inl e, w) \<Rightarrow> if error_is OS_NotExist e then (Inr (), w) else (Inl (Wrapf ''remove daemon state: '' e), w)
       | (Inr _, w) \<Rightarrow> (Inr (), w))"

section \<open>What is stored is read back\<close>

text \<open>A state whose texts are UTF-8 and whose numbers and time have their ranges.\<close>

definition state_plain :: "State \<Rightarrow> bool" where
  "state_plain s \<longleftrightarrow> list_all validUTF8 [ds_CACertPath s, ds_DaemonVersion s, ds_InstanceID s, ds_AuthToken s]
     \<and> list_all (\<lambda>i. - 9223372036854775808 \<le> i \<and> i \<le> 9223372036854775807) [ds_Version s, ds_PID s, ds_Port s] \<and> time_ok (ds_StartedAt s)"

lemma format_chars: "list_all plain_char (format_time t)"
proof -
  have "plain_char c" if "c \<in> set (format_time t)" for c
  proof -
    have d: "is_digit c \<Longrightarrow> plain_char c" for c by (auto simp: is_digit_def plain_char_def html_unsafe_def)
    have p: "c \<in> set (pad w n) \<Longrightarrow> plain_char c" for c w n using pad_digits [of w n] d by (auto simp: list_all_iff)
    have z: "c \<in> set (trim_zeros (pad w n)) \<Longrightarrow> plain_char c" for c w n
      using p [of c w n] by (auto simp: trim_zeros_def dest: set_dropWhileD)
    have s: "plain_char (CHR ''-'')" "plain_char (CHR '':'')" "plain_char (CHR ''T'')" "plain_char (CHR ''Z'')" "plain_char (CHR ''+'')" "plain_char (CHR ''.'')"
      by (simp_all add: plain_char_def html_unsafe_def)
    from that show ?thesis
      unfolding format_time_def zone_text_def Let_def by (auto split: if_splits intro: p z s)
  qed
  then show ?thesis by (simp add: list_all_iff)
qed

lemma time_text: "value_text d ([CHR 0x22] @ format_time t @ [CHR 0x22]) (JStr (format_time t))"
  using value_text_quoted [OF plain_valid [OF format_chars], of d t] by (simp only: plain_quote [OF format_chars])

lemma state_roundtrip:
  assumes "state_json s = Inr d" and "state_plain s"
  shows "state_unmarshal d = Some s"
proof -
  let ?raw = "[CHR 0x22] @ format_time (ds_StartedAt s) @ [CHR 0x22]"
  have t: "time_ok (ds_StartedAt s)" using assms(2) by (simp add: state_plain_def)
  then have raw: "time_json (ds_StartedAt s) = Inr ?raw" by (auto simp: time_json_def time_ok_def)
  let ?int = "\<lambda>k i. (k, show_int i, JNum (show_int i))"
  let ?str = "\<lambda>k v. (k, json_quote v, JStr v)"
  let ?ms = "[?int ''version'' (ds_Version s), ?int ''pid'' (ds_PID s), ?int ''port'' (ds_Port s), ?str ''ca_cert_path'' (ds_CACertPath s),
     ?str ''daemon_version'' (ds_DaemonVersion s), ?str ''instance_id'' (ds_InstanceID s), ?str ''auth_token'' (ds_AuthToken s),
     (''started_at'', ?raw, JStr (format_time (ds_StartedAt s)))]"
  have d: "d = json_object (map (\<lambda>(k, tx, v). (k, tx)) ?ms)" using assms(1) raw by (simp add: state_json_def)
  have ok: "\<forall>(k, tx, v)\<in>set ?ms. validUTF8 k \<and> value_text 1 tx v"
    using assms(2) time_text [of 1 "ds_StartedAt s"] by (simp add: state_plain_def value_text_int value_text_quoted ascii_utf8)
  have sub: "fst ` set ?ms \<subseteq> set state_fields" by (simp add: state_fields_def)
  have ms: "strict_fields state_fields d = Some ?ms"
    unfolding d by (rule strict_fields_object [OF ok sub])
  have "time_unmarshal zero_time ?raw = Some (ds_StartedAt s)"
    using parse_format [OF t] by (simp add: time_unmarshal_def)
  then show ?thesis
    using assms(2) unfolding state_unmarshal_def ms
    by (simp add: intField_def stringField_def show_int_literal state_plain_def)
qed

lemma state_decodes: "encode_state path s = Inr d \<Longrightarrow> state_plain s \<Longrightarrow> decode_state d = Inr s"
  by (auto simp: encode_state_def decode_state_def try_then_Inr_iff try_wrap_Inr_iff state_roundtrip)

lemma sync_state_after:
  assumes "Some (d, True) \<in> V"
  shows "triple (replaced c path V f (File 384 d True))
    (io_then id (secure_file env label path 384) (\<lambda>_. sync_directory env label directory))
    (\<lambda>_ w. \<exists>g. replaced c path V g (File 384 d True) w) (\<lambda>w. \<exists>g>f. replaced c path V g (File 384 d True) w)"
  by (rule triple_then [OF _ sync_after [OF assms]], rule triple_weaken [OF secure_replaced [OF assms]]) auto

interpretation state_store: faithful_store path "\<lambda>env. state_Save env path" "\<lambda>env. state_Load env path"
    "\<lambda>s. result_option (encode_state path s)" "\<lambda>d. result_option (decode_state d)" state_plain
  for path
proof unfold_locales
  fix c x f env
  show "triple (untouched c path (insert (c path) (case result_option (encode_state path x) of None \<Rightarrow> {} | Some d \<Rightarrow> {Some (d, True)})) f)
     (state_Save env path x)
     (\<lambda>_ w. \<exists>d. result_option (encode_state path x) = Some d \<and> settled c path (insert (c path) {Some (d, True)}) (File 384 d True) w)
     (given_up c path (insert (c path) (case result_option (encode_state path x) of None \<Rightarrow> {} | Some d \<Rightarrow> {Some (d, True)})) f)"
    unfolding state_Save_def by (rule save_promise [where c = c and path = path]) (rule sync_state_after)
next
  fix env w y w'
  assume "state_Load env path w = (Inr y, w')"
  then show "\<exists>d s. content path (os_files w) = Some (d, s) \<and> result_option (decode_state d) = Some y"
    unfolding state_Load_def by (auto dest: load_content)
next
  fix x d
  assume "state_plain x" "result_option (encode_state path x) = Some d"
  then show "result_option (decode_state d) = Some x" by (simp add: state_decodes)
qed


section \<open>Credentials are accepted\<close>

lemma alphabet_plain: "c \<in> set b64_alphabet \<Longrightarrow> plain_char c \<and> c \<noteq> CHR ''.'' \<and> c \<noteq> CHR 0x0A \<and> c \<noteq> CHR 0x0D"
proof -
  have "list_all (\<lambda>c. plain_char c \<and> c \<noteq> CHR ''.'' \<and> c \<noteq> CHR 0x0A \<and> c \<noteq> CHR 0x0D) b64_alphabet"
    by (simp add: b64_alphabet_def plain_char_def html_unsafe_def)
  then show "c \<in> set b64_alphabet \<Longrightarrow> plain_char c \<and> c \<noteq> CHR ''.'' \<and> c \<noteq> CHR 0x0A \<and> c \<noteq> CHR 0x0D"
    unfolding list_all_iff by blast
qed

lemma b64_char_alphabet: "b64_char n \<in> set b64_alphabet"
proof -
  have "length b64_alphabet = 64" by (simp add: b64_alphabet_def)
  then show ?thesis unfolding b64_char_def by (metis mod_less_divisor nth_mem zero_less_numeral)
qed

lemma b64_encode_chars: "list_all (\<lambda>c. c \<in> set b64_alphabet) (b64_encode b)"
  by (induction b rule: b64_encode.induct) (simp_all add: b64_char_alphabet)

lemma b64_encode_length: "length (b64_encode b) mod 4 \<noteq> 1 \<and> length (b64_encode b) \<le> 4 * length b \<and> (b \<noteq> [] \<longrightarrow> b64_encode b \<noteq> [])"
  by (induction b rule: b64_encode.induct) auto

lemma b64_decodes_encode: "b64_decodes (b64_encode b)"
proof -
  have "filter (\<lambda>c. c \<noteq> CHR 0x0A \<and> c \<noteq> CHR 0x0D) (b64_encode b) = b64_encode b"
    using b64_encode_chars [of b] alphabet_plain by (auto simp: list_all_iff filter_id_conv)
  then show ?thesis using b64_encode_chars b64_encode_length by (simp add: b64_decodes_def Let_def)
qed

lemma split_on_plain: "c \<notin> set s \<Longrightarrow> split_on c (s @ c # r) = s # split_on c r" "c \<notin> set s \<Longrightarrow> split_on c s = [s]"
  by (induction s) auto

lemma token_parts:
  "length token_header \<le> 40" "length token_payload \<le> 200" "token_header \<noteq> []" "token_payload \<noteq> []"
proof -
  have q: "json_quote s = [CHR 0x22] @ s @ [CHR 0x22]" if "s \<in> {''alg'', ''HS256'', ''typ'', ''JWT'', ''sub'', ''cursor-cli-byok'', ''email'',
      ''byok@localhost'', ''type'', ''session'', ''iss'', ''exp''}" for s
    by (rule plain_quote) (use that in \<open>auto simp: plain_char_def html_unsafe_def\<close>)
  have n: "length (show_int 4102444800) = 10" by (simp add: show_int_def show_nat.simps)
  show "length token_header \<le> 40" "length token_payload \<le> 200"
    by (simp_all add: token_header_def token_payload_def json_object_def q n)
  show "token_header \<noteq> []" "token_payload \<noteq> []" by (simp_all add: token_header_def token_payload_def json_object_def)
qed

lemma auth_token_ok:
  assumes "newAuthToken (Some signature) = Inr token" and "length signature = 32"
  shows "validJWTShape token" and "token \<noteq> [] \<and> \<not> hasControl token"
proof -
  let ?h = "b64_encode token_header" and ?p = "b64_encode token_payload" and ?s = "b64_encode signature"
  have t: "token = ?h @ CHR ''.'' # ?p @ CHR ''.'' # ?s" using assms(1) by (simp add: newAuthToken_def)
  have dot: "CHR ''.'' \<notin> set (b64_encode b)" for b using b64_encode_chars [of b] alphabet_plain by (auto simp: list_all_iff)
  have parts: "split_on (CHR ''.'') token = [?h, ?p, ?s]" unfolding t by (simp add: split_on_plain dot)
  have ne: "?h \<noteq> []" "?p \<noteq> []" "?s \<noteq> []" using b64_encode_length token_parts(3,4) assms(2) by (metis list.size(3) zero_neq_numeral)+
  have len: "length token \<le> 4096"
    using b64_encode_length [of token_header] b64_encode_length [of token_payload] b64_encode_length [of signature] token_parts(1,2) assms(2)
    unfolding t by simp
  have "list_all plain_char (b64_encode b)" for b using b64_encode_chars [of b] alphabet_plain by (auto simp: list_all_iff)
  moreover have "plain_char (CHR ''.'')" by (simp add: plain_char_def html_unsafe_def)
  ultimately have "list_all plain_char token" unfolding t by simp
  then have c: "\<not> hasControl token" by (rule plain_no_control)
  show "token \<noteq> [] \<and> \<not> hasControl token" using c ne(1) t by simp
  then show "validJWTShape token" using len c parts ne by (simp add: validJWTShape_def b64_decodes_encode)
qed

lemma instance_id_ok: "newInstanceID (Some random) = Inr i \<Longrightarrow> length random = 16 \<Longrightarrow> instanceIDPattern i"
proof -
  have hex: "is_digit (hex_digit n) \<or> hex_digit n \<in> set ''abcdef''" if "n < 16" for n
  proof -
    from that have "n \<in> set [0..<16]" by simp
    then have "list_ex (\<lambda>m. n = m) [0,1,2,3,4,5,6,7,8,9,10,11,12,13,14,15]" by (auto simp: upt_rec numeral_eq_Suc)
    moreover have "mk_byte 97 = CHR ''a''" "mk_byte 98 = CHR ''b''" "mk_byte 99 = CHR ''c''" "mk_byte 100 = CHR ''d''"
      "mk_byte 101 = CHR ''e''" "mk_byte 102 = CHR ''f''"
      by code_simp+
    ultimately show ?thesis by (auto simp: hex_digit_def is_digit_def)
  qed
  have "list_all (\<lambda>c. is_digit c \<or> c \<in> set ''abcdef'') (hex_encode b)" for b
    using hex by (induction b) (simp_all add: hex_encode_def less_mult_imp_div_less del: list.set)
  then show "newInstanceID (Some random) = Inr i \<Longrightarrow> length random = 16 \<Longrightarrow> instanceIDPattern i"
    by (auto simp: newInstanceID_def instanceIDPattern_def)
qed

section \<open>A concrete run\<close>

definition sample_token :: string where
  "sample_token = the (result_option (newAuthToken (Some (replicate 32 (CHR ''x'')))))"

definition sample_state :: State where
  "sample_state = \<lparr> ds_Version = 1, ds_PID = 77, ds_Port = 4000, ds_CACertPath = ''/ca'', ds_DaemonVersion = ''v1'',
     ds_InstanceID = hex_encode (replicate 16 (CHR ''i'')), ds_AuthToken = sample_token,
     ds_StartedAt = \<lparr> tm_Year = 2026, tm_Month = 7, tm_Day = 9, tm_Hour = 12, tm_Minute = 30, tm_Second = 1, tm_Nano = 500, tm_Offset = 0 \<rparr> \<rparr>"

lemma sample_token: "newAuthToken (Some (replicate 32 (CHR ''x''))) = Inr sample_token"
  by (simp add: sample_token_def newAuthToken_def result_option_def)

lemma sample_state_valid: "State_Validate sample_state = Inr ()"
proof -
  have "instanceIDPattern (hex_encode (replicate 16 (CHR ''i'')))"
    by (rule instance_id_ok [of "replicate 16 (CHR ''i'')"]) (simp_all add: newInstanceID_def)
  moreover have "validJWTShape sample_token" by (rule auth_token_ok(1) [OF sample_token]) simp
  moreover have "\<not> time_IsZero (ds_StartedAt sample_state)"
    by (simp add: sample_state_def time_IsZero_def time_seconds_def days_before_def days_in_month_def Let_def upt_rec)
  ultimately show ?thesis
    by (simp add: State_Validate_def sample_state_def CurrentStateVersion_def filepath_IsAbs_def trimSpace_def trim_pieces_def go_eval Let_def)
qed

lemma token_plain: "newAuthToken (Some signature) = Inr token \<Longrightarrow> list_all plain_char token"
proof -
  have "list_all plain_char (b64_encode b)" for b using b64_encode_chars [of b] alphabet_plain by (auto simp: list_all_iff)
  moreover have "plain_char (CHR ''.'')" by (simp add: plain_char_def html_unsafe_def)
  ultimately show "newAuthToken (Some signature) = Inr token \<Longrightarrow> list_all plain_char token" by (auto simp: newAuthToken_def)
qed

lemma sample_state_plain: "state_plain sample_state"
proof -
  have "validUTF8 sample_token" using token_plain [OF sample_token] by (rule plain_valid)
  moreover have "validUTF8 (hex_encode (replicate 16 (CHR ''i'')))"
    by (rule ascii_utf8) (simp add: hex_encode_def hex_digit_def replicate_numeral)
  ultimately show ?thesis
    by (simp add: state_plain_def sample_state_def ascii_utf8 time_ok_def calendar_date_def days_in_month_def)
qed

lemma sample_state_saved: "fst (state_Save calm ''/s/d'' sample_state sample_os) = Inr ()"
proof -
  obtain raw where "time_json (ds_StartedAt sample_state) = Inr raw"
    using unmarshal_json sample_state_plain unfolding state_plain_def by blast
  then obtain d where "state_json sample_state = Inr d" by (simp add: state_json_def)
  moreover have paths: "filepath_Dir ''/s/d'' = ''/s''" "filepath_Base ''/s/d'' = ''d''" "validate_path a ''/s/d'' = Inr ()" for a
    by (simp_all add: validate_path_def filepath_IsAbs_def Let_def path_Clean_def filepath_Dir_def filepath_Base_def clean_step_def)
  ultimately have "encode_state ''/s/d'' sample_state = Inr d" by (simp add: encode_state_def sample_state_valid)
  moreover have "follow 40 fs ''/s'' = Some ''/s''" if "node_at fs ''/s'' = Some (Directory m)" for fs m
    using that by (simp add: numeral_eq_Suc)
  moreover have "follow 40 fs ''/s/d'' = Some ''/s/d''" if "node_at fs ''/s/d'' = Some (File m d s)" for fs m d s
    using that by (simp add: numeral_eq_Suc)
  moreover have "node_at [(''/s'', n)] q = (if q = ''/s'' then Some n else None)" for n q by (simp add: node_at_def)
  ultimately show ?thesis
    by (simp add: state_Save_def create_calm os_eval sample_os_def paths temp_name_def show_nat.simps)
qed


end
