(* ===== verification/Go_Flag.thy ===== *)
theory Go_Flag
  imports Go_Url
begin

text \<open>
  What the commands use of \<open>flag\<close>: \<open>FlagSet.Parse\<close> with \<open>ContinueOnError\<close>, for flags that take a text
  and for boolean ones. A flag set maps the name of a flag to what setting it does; the first component
  is whether the flag is boolean.
\<close>

type_synonym 'o flag_set = "string \<Rightarrow> (bool \<times> (string \<Rightarrow> 'o \<Rightarrow> 'o result)) option"

text \<open>\<open>strconv.ParseBool\<close>\<close>

definition ParseBool :: "string \<Rightarrow> bool option" where
  "ParseBool s =
     (if s \<in> {''1'', ''t'', ''T'', ''TRUE'', ''true'', ''True''} then Some True
      else if s \<in> {''0'', ''f'', ''F'', ''FALSE'', ''false'', ''False''} then Some False else None)"

definition string_flag :: "(string \<Rightarrow> 'o \<Rightarrow> 'o) \<Rightarrow> bool \<times> (string \<Rightarrow> 'o \<Rightarrow> 'o result)" where
  "string_flag put = (False, \<lambda>v o'. Inr (put v o'))"

definition bool_flag :: "(bool \<Rightarrow> 'o \<Rightarrow> 'o) \<Rightarrow> bool \<times> (string \<Rightarrow> 'o \<Rightarrow> 'o result)" where
  "bool_flag put = (True, \<lambda>v o'. case ParseBool v of None \<Rightarrow> Inl (Errorf ''parse error'') | Some b \<Rightarrow> Inr (put b o'))"

text \<open>One argument that is a flag, without its dashes: its name and the value after an equals sign.\<close>

definition flag_parts :: "string \<Rightarrow> string \<times> string option" where
  "flag_parts name = (if CHR ''='' \<in> set name then (fst (cut_at_char (CHR ''='') name), Some (snd (cut_at_char (CHR ''='') name))) else (name, None))"

definition flag_name :: "string \<Rightarrow> string option" where
  "flag_name s =
     (if length s < 2 \<or> hd s \<noteq> CHR ''-'' then None
      else if s ! 1 = CHR ''-'' then Some (drop 2 s) else Some (drop 1 s))"

definition set_bool_flag :: "(string \<Rightarrow> 'o \<Rightarrow> 'o result) \<Rightarrow> string \<Rightarrow> string option \<Rightarrow> 'o \<Rightarrow> 'o result" where
  "set_bool_flag put name v o' = (case put (case v of Some x \<Rightarrow> x | None \<Rightarrow> ''true'') o' of
     Inr o' \<Rightarrow> Inr o'
   | Inl e \<Rightarrow> (case v of
       Some x \<Rightarrow> Inl (Wrapf (''invalid boolean value '' @ go_quote x @ '' for -'' @ name @ '': '') e)
     | None \<Rightarrow> Inl (Wrapf (''invalid boolean flag '' @ name @ '': '') e)))"

definition set_value_flag :: "(string \<Rightarrow> 'o \<Rightarrow> 'o result) \<Rightarrow> string \<Rightarrow> string \<Rightarrow> 'o \<Rightarrow> 'o result" where
  "set_value_flag put name v o' =
     try_wrap (Wrapf (''invalid value '' @ go_quote v @ '' for flag -'' @ name @ '': '')) (put v o') Inr"

text \<open>The parsed options and the arguments that are left.\<close>

fun flag_Parse :: "'o flag_set \<Rightarrow> 'o \<Rightarrow> string list \<Rightarrow> ('o \<times> string list) result" where
  "flag_Parse fs o' [] = Inr (o', [])"
| "flag_Parse fs o' (s # args) =
     (case flag_name s of
        None \<Rightarrow> Inr (o', s # args)
      | Some body \<Rightarrow>
          if s = ''--'' then Inr (o', args)
          else if body = [] \<or> hd body = CHR ''-'' \<or> hd body = CHR ''='' then Inl (Errorf (''bad flag syntax: '' @ s))
          else (case flag_parts body of (name, v) \<Rightarrow>
            (case fs name of
               None \<Rightarrow> if name = ''help'' \<or> name = ''h'' then Inl (Errorf ''flag: help requested'')
                 else Inl (Errorf (''flag provided but not defined: -'' @ name))
             | Some (True, put) \<Rightarrow> try_then (set_bool_flag put name v o') (\<lambda>o'. flag_Parse fs o' args)
             | Some (False, put) \<Rightarrow>
                 (case v of
                    Some x \<Rightarrow> try_then (set_value_flag put name x o') (\<lambda>o'. flag_Parse fs o' args)
                  | None \<Rightarrow> (case args of
                      [] \<Rightarrow> Inl (Errorf (''flag needs an argument: -'' @ name))
                    | x # args' \<Rightarrow> try_then (set_value_flag put name x o') (\<lambda>o'. flag_Parse fs o' args'))))))"

text \<open>A flag with its value, and a boolean flag, whatever the value looks like.\<close>

lemma parse_string_flag:
  assumes "fs name = Some (string_flag put)" "name \<noteq> []" "hd name \<noteq> CHR ''-''" "CHR ''='' \<notin> set name"
  shows "flag_Parse fs o' ((''--'' @ name) # v # args) = flag_Parse fs (put v o') args"
proof -
  have "hd name \<noteq> CHR ''=''" using assms(2,4) by (cases name) auto
  then show ?thesis using assms by (simp add: flag_name_def flag_parts_def string_flag_def set_value_flag_def)
qed

lemma parse_bool_flag:
  assumes "fs name = Some (bool_flag put)" "name \<noteq> []" "hd name \<noteq> CHR ''-''" "CHR ''='' \<notin> set name"
  shows "flag_Parse fs o' ((''--'' @ name) # args) = flag_Parse fs (put True o') args"
proof -
  have "hd name \<noteq> CHR ''=''" using assms(2,4) by (cases name) auto
  then show ?thesis using assms by (simp add: flag_name_def flag_parts_def bool_flag_def set_bool_flag_def ParseBool_def)
qed

end
