(* ===== verification/Command_Config.thy ===== *)
theory Command_Config
  imports Daemon_State OpenAI_Request Go_Flag
begin

text \<open>
  \<open>command/config.go\<close>: the commands that make and change the configuration, with their flags and
  their prompts. A command gives its exit code and changes the console and the files.
\<close>

section \<open>The console\<close>

text \<open>
  Standard output is what was written to it, piece by piece, by the writes that succeeded; \<open>fail\<close>
  prints an error to standard error, which is kept as the error itself.
\<close>

record app =
  ap_Getenv :: "string \<Rightarrow> string"
  ap_Os :: os_env
  ap_Yaml :: yaml
  ap_Writes :: "nat \<Rightarrow> bool"

record console =
  cs_os :: os
  cs_Stdin :: reader
  cs_Stdout :: "string list"
  cs_Stderr :: "goerror list"
  cs_writes :: nat

definition errorExitCode :: int where "errorExitCode = 1"
definition usageExitCode :: int where "usageExitCode = 2"

definition write_out :: "app \<Rightarrow> string \<Rightarrow> console \<Rightarrow> bool \<times> console" where
  "write_out a s c =
     (if ap_Writes a (cs_writes c) then (True, c\<lparr>cs_Stdout := cs_Stdout c @ [s], cs_writes := Suc (cs_writes c)\<rparr>)
      else (False, c\<lparr>cs_writes := Suc (cs_writes c)\<rparr>))"

definition app_fail :: "goerror \<Rightarrow> console \<Rightarrow> int \<times> console" where
  "app_fail e c = (errorExitCode, c\<lparr>cs_Stderr := cs_Stderr c @ [e]\<rparr>)"

definition on_files :: "'a io \<Rightarrow> console \<Rightarrow> 'a result \<times> console" where
  "on_files m c = (case m (cs_os c) of (r, w) \<Rightarrow> (r, c\<lparr>cs_os := w\<rparr>))"

text \<open>The last step of a command: a line, and success.\<close>

definition finish :: "app \<Rightarrow> string \<Rightarrow> console \<Rightarrow> int \<times> console" where
  "finish a line c = (case write_out a (line @ [CHR 0x0A]) c of (ok, c) \<Rightarrow> (if ok then 0 else errorExitCode, c))"

section \<open>Changing a configuration\<close>

text \<open>Load, change and save, with the name of the command in front of the errors of the store.\<close>

definition update_config ::
  "app \<Rightarrow> string \<Rightarrow> (Config \<Rightarrow> Config result) \<Rightarrow> string \<Rightarrow> console \<Rightarrow> int \<times> console" where
  "update_config a label change line c =
     (case paths_Resolve (Some (ap_Getenv a)) of
        Inl e \<Rightarrow> app_fail e c
      | Inr resolvedPaths \<Rightarrow>
          (case on_files (config_Load (ap_Os a) (ap_Yaml a) (pa_ConfigFile resolvedPaths)) c of
             (Inl e, c) \<Rightarrow> app_fail (Wrapf label e) c
           | (Inr cfg, c) \<Rightarrow> (case change cfg of
               Inl e \<Rightarrow> app_fail e c
             | Inr cfg \<Rightarrow> (case on_files (config_Save (ap_Os a) (ap_Yaml a) (pa_ConfigFile resolvedPaths) cfg) c of
                 (Inl e, c) \<Rightarrow> app_fail (Wrapf label e) c
               | (Inr _, c) \<Rightarrow> finish a line c))))"

definition has_model :: "string \<Rightarrow> Config \<Rightarrow> bool" where
  "has_model name cfg \<longleftrightarrow> list_ex (\<lambda>m. mc_Name m = name) (cf_Models cfg)"

definition remove_model :: "string \<Rightarrow> Config \<Rightarrow> Config result" where
  "remove_model name cfg =
     (if cf_DefaultModel cfg = name then
        Inl (Errorf (''config remove: '' @ go_quote name @ '' is the default model; run config use <other> first''))
      else if \<not> has_model name cfg then Inl (Errorf (''config remove: model '' @ go_quote name @ '' does not exist''))
      else Inr (cfg\<lparr>cf_Models := filter (\<lambda>m. mc_Name m \<noteq> name) (cf_Models cfg)\<rparr>))"

definition runConfigRemove :: "app \<Rightarrow> string list \<Rightarrow> console \<Rightarrow> int \<times> console" where
  "runConfigRemove a args c = (case args of
     [name] \<Rightarrow> update_config a ''config remove: '' (remove_model name) (''Removed model '' @ name) c
   | _ \<Rightarrow> (usageExitCode, c))"

definition use_model :: "string \<Rightarrow> Config \<Rightarrow> Config result" where
  "use_model name cfg =
     (if \<not> has_model name cfg then Inl (Errorf (''config use: model '' @ go_quote name @ '' does not exist''))
      else Inr (cfg\<lparr>cf_DefaultModel := name\<rparr>))"

definition runConfigUse :: "app \<Rightarrow> string list \<Rightarrow> console \<Rightarrow> int \<times> console" where
  "runConfigUse a args c = (case args of
     [name] \<Rightarrow> update_config a ''config use: '' (use_model name) (''Default model: '' @ name) c
   | _ \<Rightarrow> (usageExitCode, c))"

section \<open>Listing\<close>

text \<open>
  \<open>text/tabwriter\<close> with cells of at least no width, two spaces of padding and no tabs: every column but the last is
  as wide as its widest cell, in runes, and two more. The table counts as one write.
\<close>

definition column_width :: "string list list \<Rightarrow> nat \<Rightarrow> nat" where
  "column_width rows i = fold max (map (\<lambda>row. length (runes (row ! i)) + 2) rows) 0"

definition table_row :: "(nat \<Rightarrow> nat) \<Rightarrow> string list \<Rightarrow> string" where
  "table_row widths row = concat (map (\<lambda>i. row ! i @ replicate (widths i - length (runes (row ! i))) (CHR '' '')) [0..<length row - 1])
     @ last row @ [CHR 0x0A]"

definition table_text :: "string list list \<Rightarrow> string" where
  "table_text rows = concat (map (table_row (column_width rows)) rows)"

definition key_status :: "(string \<Rightarrow> string) \<Rightarrow> Model \<Rightarrow> string" where
  "key_status getenv m =
     (if mc_APIKeyEnv m \<noteq> [] then
        ''env:'' @ mc_APIKeyEnv m @ '' ('' @ (if getenv (mc_APIKeyEnv m) \<noteq> [] then ''set'' else ''unset'') @ '')''
      else ''inline:[REDACTED]'')"

definition model_row :: "(string \<Rightarrow> string) \<Rightarrow> string \<Rightarrow> Model \<Rightarrow> string list" where
  "model_row getenv defaultModel m =
     [(if mc_Name m = defaultModel then ''* '' else ''  '') @ mc_Name m, mc_Protocol m, mc_Endpoint m, mc_UpstreamModel m,
      key_status getenv m, mc_BaseURL m]"

definition list_table :: "(string \<Rightarrow> string) \<Rightarrow> Config \<Rightarrow> string" where
  "list_table getenv cfg = table_text ([''MODEL'', ''PROTOCOL'', ''ENDPOINT'', ''UPSTREAM'', ''KEY'', ''BASE URL'']
     # map (model_row getenv (cf_DefaultModel cfg)) (cf_Models cfg))"

definition runConfigList :: "app \<Rightarrow> string list \<Rightarrow> console \<Rightarrow> int \<times> console" where
  "runConfigList a args c =
     (if args \<noteq> [] then (usageExitCode, c)
      else (case paths_Resolve (Some (ap_Getenv a)) of
        Inl e \<Rightarrow> app_fail e c
      | Inr resolvedPaths \<Rightarrow>
          (case on_files (config_Load (ap_Os a) (ap_Yaml a) (pa_ConfigFile resolvedPaths)) c of
             (Inl e, c) \<Rightarrow> app_fail (Wrapf ''config list: '' e) c
           | (Inr cfg, c) \<Rightarrow> (case write_out a (list_table (ap_Getenv a) cfg) c of (ok, c) \<Rightarrow> (if ok then 0 else errorExitCode, c)))))"

section \<open>The options of a model\<close>

record modelOptions =
  mo_name :: string
  mo_baseURL :: string
  mo_endpoint :: string
  mo_apiKey :: string
  mo_apiKeyEnv :: string
  mo_headers :: "string list"
  mo_upstreamModel :: string
  mo_nonInteractive :: bool

definition no_options :: modelOptions where
  "no_options = \<lparr> mo_name = [], mo_baseURL = [], mo_endpoint = [], mo_apiKey = [], mo_apiKeyEnv = [], mo_headers = [],
     mo_upstreamModel = [], mo_nonInteractive = False \<rparr>"

text \<open>The flags set the options and, when the command allows it, \<open>force\<close>.\<close>

definition model_flags :: "bool \<Rightarrow> (modelOptions \<times> bool) flag_set" where
  "model_flags allowForce = map_of ([
     (''name'', string_flag (\<lambda>v (o', f). (o'\<lparr>mo_name := v\<rparr>, f))),
     (''base-url'', string_flag (\<lambda>v (o', f). (o'\<lparr>mo_baseURL := v\<rparr>, f))),
     (''endpoint'', string_flag (\<lambda>v (o', f). (o'\<lparr>mo_endpoint := v\<rparr>, f))),
     (''upstream-model'', string_flag (\<lambda>v (o', f). (o'\<lparr>mo_upstreamModel := v\<rparr>, f))),
     (''api-key'', string_flag (\<lambda>v (o', f). (o'\<lparr>mo_apiKey := v\<rparr>, f))),
     (''api-key-env'', string_flag (\<lambda>v (o', f). (o'\<lparr>mo_apiKeyEnv := v\<rparr>, f))),
     (''header'', string_flag (\<lambda>v (o', f). (o'\<lparr>mo_headers := mo_headers o' @ [v]\<rparr>, f))),
     (''non-interactive'', bool_flag (\<lambda>b (o', f). (o'\<lparr>mo_nonInteractive := b\<rparr>, f)))]
     @ (if allowForce then [(''force'', bool_flag (\<lambda>b (o', f). (o', b)))] else []))"

definition parseModelOptions :: "string \<Rightarrow> string list \<Rightarrow> bool \<Rightarrow> (modelOptions \<times> bool) result" where
  "parseModelOptions name args allowForce =
     try_wrap (Wrapf (name @ '': '')) (flag_Parse (model_flags allowForce) (no_options, False) args) (\<lambda>(options, rest).
       if rest \<noteq> [] then Inl (Errorf (name @ '': unexpected arguments'')) else Inr options)"

definition applyModelOptionDefaults :: "(string \<Rightarrow> string) \<Rightarrow> modelOptions \<Rightarrow> modelOptions" where
  "applyModelOptionDefaults getenv options =
     (let options = (if mo_endpoint options = [] then options\<lparr>mo_endpoint := EndpointResponses\<rparr> else options);
          options = (if mo_name options = [] \<and> mo_upstreamModel options \<noteq> [] then options\<lparr>mo_name := mo_upstreamModel options\<rparr> else options) in
      if mo_apiKey options = [] \<and> mo_apiKeyEnv options = [] \<and> getenv ''OPENAI_API_KEY'' \<noteq> [] then
        options\<lparr>mo_apiKeyEnv := ''OPENAI_API_KEY''\<rparr> else options)"

text \<open>\<open>textproto.CanonicalMIMEHeaderKey\<close> leaves a name with other bytes as it is.\<close>

definition canonical_header :: "string \<Rightarrow> string" where
  "canonical_header name = (if list_all header_char name then canonical_key name else name)"

definition parse_header :: "(string \<times> string) list \<Rightarrow> string \<Rightarrow> (string \<times> string) list result" where
  "parse_header headers raw =
     (case cut_at_char (CHR '':'') raw of (name, v) \<Rightarrow>
       let name = trimSpace name; v = trimSpace v; canonicalName = canonical_header name in
       if CHR '':'' \<notin> set raw \<or> name = [] then Inl (Errorf ''provider header must use name:value syntax'')
       else if toLower canonicalName \<in> toLower ` set (map fst headers) then
         Inl (Errorf (''provider header '' @ go_quote canonicalName @ '' is duplicated''))
       else Inr (headers @ [(canonicalName, v)]))"

definition parseProviderHeaders :: "string list \<Rightarrow> (string \<times> string) list result" where
  "parseProviderHeaders values =
     (if values = [] then Inr []
      else try_then (foldM parse_header [] values) (\<lambda>headers. try_then (ValidateProviderHeaders headers) (\<lambda>_. Inr headers)))"

definition single_config :: "Model \<Rightarrow> Config" where
  "single_config m = \<lparr> cf_Version = CurrentVersion, cf_DefaultModel = mc_Name m, cf_Models = [m] \<rparr>"

definition options_model :: "modelOptions \<Rightarrow> Model result" where
  "options_model options =
     try_then (parseProviderHeaders (mo_headers options)) (\<lambda>headers.
       let m = \<lparr> mc_Name = mo_name options, mc_Protocol = ProtocolOpenAI, mc_BaseURL = mo_baseURL options, mc_Endpoint = mo_endpoint options,
           mc_APIKey = mo_apiKey options, mc_APIKeyEnv = mo_apiKeyEnv options, mc_Headers = headers, mc_UpstreamModel = mo_upstreamModel options \<rparr> in
       try_then (Config_Validate (single_config m)) (\<lambda>_. Inr m))"

section \<open>Prompts\<close>

text \<open>\<open>bufio.Reader.ReadString\<close> up to a newline: the line with it, or what is left and the reader's error.\<close>

definition read_line :: "reader \<Rightarrow> (string \<times> goerror option) \<times> reader" where
  "read_line rd =
     (let line = takeWhile (\<lambda>x. x \<noteq> CHR 0x0A) (rd_data rd) in
      if CHR 0x0A \<in> set (rd_data rd) then ((line @ [CHR 0x0A], None), rd\<lparr>rd_data := drop (Suc (length line)) (rd_data rd)\<rparr>)
      else ((rd_data rd, Some (rd_err rd)), rd\<lparr>rd_data := []\<rparr>))"

definition trim_suffix :: "char \<Rightarrow> string \<Rightarrow> string" where
  "trim_suffix x s = (if s \<noteq> [] \<and> last s = x then butlast s else s)"

definition promptLine :: "app \<Rightarrow> string \<Rightarrow> string \<Rightarrow> console \<Rightarrow> string result \<times> console" where
  "promptLine a prompt defaultValue c =
     (case write_out a prompt c of
        (False, c) \<Rightarrow> (Inl (Errorf ''write prompt''), c)
      | (True, c) \<Rightarrow> (case read_line (cs_Stdin c) of ((line, err), rd) \<Rightarrow>
          let c = c\<lparr>cs_Stdin := rd\<rparr>; text' = trim_suffix (CHR 0x0D) (trim_suffix (CHR 0x0A) line) in
          if err \<noteq> None \<and> err \<noteq> Some IO_EOF then (Inl (Errorf ''read input''), c)
          else if err = Some IO_EOF \<and> line = [] then (Inl (Errorf ''input ended before all fields were provided''), c)
          else (Inr (if text' = [] then defaultValue else text'), c)))"

text \<open>A field that is asked for when it is not there yet.\<close>

definition ask ::
  "app \<Rightarrow> string \<Rightarrow> bool \<Rightarrow> string \<Rightarrow> string \<Rightarrow> (string \<Rightarrow> modelOptions \<Rightarrow> modelOptions) \<Rightarrow> modelOptions \<times> console
   \<Rightarrow> (modelOptions \<times> console \<Rightarrow> modelOptions result \<times> console) \<Rightarrow> modelOptions result \<times> console" where
  "ask a command missing prompt defaultValue put st k =
     (if \<not> missing then k st
      else (case promptLine a prompt defaultValue (snd st) of
          (Inl e, c) \<Rightarrow> (Inl (Wrapf (command @ '': '') e), c)
        | (Inr v, c) \<Rightarrow> k (put v (fst st), c)))"

definition ask_source :: "app \<Rightarrow> string \<Rightarrow> modelOptions \<times> console \<Rightarrow> modelOptions result \<times> console" where
  "ask_source a command st =
     (case promptLine a ''API key source (env/inline): '' [] (snd st) of
        (Inl e, c) \<Rightarrow> (Inl (Wrapf (command @ '': '') e), c)
      | (Inr source, c) \<Rightarrow>
          if source = ''env'' then
            ask a command True ''API key environment variable: '' [] (\<lambda>v o'. o'\<lparr>mo_apiKeyEnv := v\<rparr>) (fst st, c) (\<lambda>(o', c). (Inr o', c))
          else if source = ''inline'' then
            ask a command True ''Inline API key: '' [] (\<lambda>v o'. o'\<lparr>mo_apiKey := v\<rparr>) (fst st, c) (\<lambda>(o', c). (Inr o', c))
          else (Inl (Errorf (command @ '': API key source must be env or inline'')), c))"

definition completeModelOptions :: "app \<Rightarrow> string \<Rightarrow> modelOptions \<Rightarrow> console \<Rightarrow> modelOptions result \<times> console" where
  "completeModelOptions a command options c =
     ask a command (mo_baseURL options = []) ''Base URL: '' [] (\<lambda>v o'. o'\<lparr>mo_baseURL := v\<rparr>) (options, c) (\<lambda>(options, c).
     ask a command (mo_endpoint options = []) ''Endpoint [/v1/responses]: '' EndpointResponses (\<lambda>v o'. o'\<lparr>mo_endpoint := v\<rparr>) (options, c) (\<lambda>(options, c).
     ask a command (mo_upstreamModel options = []) ''Upstream model: '' [] (\<lambda>v o'. o'\<lparr>mo_upstreamModel := v\<rparr>) (options, c) (\<lambda>(options, c).
     ask a command (mo_name options = [])
       (if mo_upstreamModel options \<noteq> [] then ''Model name ['' @ mo_upstreamModel options @ '']: '' else ''Model name: '')
       (mo_upstreamModel options) (\<lambda>v o'. o'\<lparr>mo_name := v\<rparr>) (options, c) (\<lambda>(options, c).
     if mo_apiKey options = [] \<and> mo_apiKeyEnv options = [] then ask_source a command (options, c) else (Inr options, c)))))"

text \<open>The options of a command, from its flags, its defaults and its prompts.\<close>

definition gather_options :: "app \<Rightarrow> string \<Rightarrow> modelOptions \<Rightarrow> console \<Rightarrow> modelOptions result \<times> console" where
  "gather_options a command options c =
     (let options = applyModelOptionDefaults (ap_Getenv a) options in
      if mo_nonInteractive options then (Inr options, c)
      else (case completeModelOptions a command options c of
          (Inl e, c) \<Rightarrow> (Inl e, c)
        | (Inr options, c) \<Rightarrow> (Inr (applyModelOptionDefaults (ap_Getenv a) options), c)))"

section \<open>Adding a model\<close>

definition runConfigAdd :: "app \<Rightarrow> string list \<Rightarrow> console \<Rightarrow> int \<times> console" where
  "runConfigAdd a args c =
     (case parseModelOptions ''config add'' args False of
        Inl e \<Rightarrow> app_fail e c
      | Inr (options, force) \<Rightarrow>
     (case paths_Resolve (Some (ap_Getenv a)) of
        Inl e \<Rightarrow> app_fail e c
      | Inr resolvedPaths \<Rightarrow>
     (case on_files (config_Load (ap_Os a) (ap_Yaml a) (pa_ConfigFile resolvedPaths)) c of
        (Inl e, c) \<Rightarrow> app_fail (Wrapf ''config add: '' e) c
      | (Inr cfg, c) \<Rightarrow>
     (case gather_options a ''config add'' options c of
        (Inl e, c) \<Rightarrow> app_fail e c
      | (Inr options, c) \<Rightarrow>
     (case options_model options of
        Inl e \<Rightarrow> app_fail (Wrapf ''config add: '' e) c
      | Inr m \<Rightarrow>
     (case on_files (config_Save (ap_Os a) (ap_Yaml a) (pa_ConfigFile resolvedPaths) (cfg\<lparr>cf_Models := cf_Models cfg @ [m]\<rparr>)) c of
        (Inl e, c) \<Rightarrow> app_fail (Wrapf ''config add: '' e) c
      | (Inr _, c) \<Rightarrow> finish a (''Added model '' @ mc_Name m) c))))))"

definition runConfigInit :: "app \<Rightarrow> string list \<Rightarrow> console \<Rightarrow> int \<times> console" where
  "runConfigInit a args c =
     (case parseModelOptions ''config init'' args True of
        Inl e \<Rightarrow> app_fail e c
      | Inr (options, force) \<Rightarrow>
     (case paths_Resolve (Some (ap_Getenv a)) of
        Inl e \<Rightarrow> app_fail e c
      | Inr resolvedPaths \<Rightarrow>
     (case (if force then (Inl OS_NotExist, c) else on_files (os_Stat (ap_Os a) (pa_ConfigFile resolvedPaths)) c) of
        (Inr _, c) \<Rightarrow> app_fail (Errorf ''config init: configuration already exists; use --force to replace it'') c
      | (Inl e, c) \<Rightarrow>
     if \<not> error_is OS_NotExist e then app_fail (Wrapf ''config init: inspect existing configuration: '' e) c
     else
     (case gather_options a ''config init'' options c of
        (Inl e, c) \<Rightarrow> app_fail e c
      | (Inr options, c) \<Rightarrow>
     (case options_model options of
        Inl e \<Rightarrow> app_fail (Wrapf ''config init: '' e) c
      | Inr m \<Rightarrow>
     (case on_files (config_Save (ap_Os a) (ap_Yaml a) (pa_ConfigFile resolvedPaths) (single_config m)) c of
        (Inl e, c) \<Rightarrow> app_fail (Wrapf ''config init: '' e) c
      | (Inr _, c) \<Rightarrow> finish a (''Initialized '' @ pa_ConfigFile resolvedPaths @ '' with model '' @ mc_Name m) c))))))"

definition configHelp :: string where
  "configHelp = concat (map (\<lambda>line. line @ [CHR 0x0A]) [
     ''Usage:'',
     ''  cursor-cli-byok config init [model flags] [--force]'',
     ''  cursor-cli-byok config add [model flags]'',
     ''  cursor-cli-byok config list'',
     ''  cursor-cli-byok config use <name>'',
     ''  cursor-cli-byok config remove <name>'',
     [],
     ''Model flags:'',
     ''  --name <alias>'',
     ''  --base-url <url>'',
     ''  --endpoint </v1/responses|/v1/chat/completions>'',
     ''  --upstream-model <model>'',
     ''  --api-key-env <environment-variable>  (preferred)'',
     ''  --api-key <key>                       (stored inline)'',
     ''  --header <name:value>                 (repeatable)'',
     ''  --non-interactive''])"

definition runConfig :: "app \<Rightarrow> string list \<Rightarrow> console \<Rightarrow> int \<times> console" where
  "runConfig a args c = (case args of
     [] \<Rightarrow> (usageExitCode, c)
   | verb # rest \<Rightarrow>
       if verb \<in> {''--help'', ''-h'', ''help''} then (case write_out a configHelp c of (ok, c) \<Rightarrow> (if ok then 0 else errorExitCode, c))
       else if verb = ''init'' then runConfigInit a rest c
       else if verb = ''add'' then runConfigAdd a rest c
       else if verb = ''list'' then runConfigList a rest c
       else if verb = ''use'' then runConfigUse a rest c
       else if verb = ''remove'' then runConfigRemove a rest c
       else (usageExitCode, c))"

section \<open>What the commands do to the file\<close>

text \<open>
  A map has no order: configurations are the same when their models agree one by one up to the order in
  which the entries of the header maps are listed.
\<close>

definition same_model :: "Model \<Rightarrow> Model \<Rightarrow> bool" where
  "same_model m m' \<longleftrightarrow> m'\<lparr>mc_Headers := []\<rparr> = m\<lparr>mc_Headers := []\<rparr> \<and> set (mc_Headers m') = set (mc_Headers m) \<and> distinct (mc_Headers m')"

definition same_config :: "Config \<Rightarrow> Config \<Rightarrow> bool" where
  "same_config cfg cfg' \<longleftrightarrow> cf_Version cfg' = cf_Version cfg \<and> cf_DefaultModel cfg' = cf_DefaultModel cfg
     \<and> list_all2 same_model (cf_Models cfg) (cf_Models cfg')"

lemma same_model_fields:
  assumes "same_model m m'"
  shows "mc_Name m' = mc_Name m" "model_ok m \<Longrightarrow> model_ok m'"
proof -
  have f: "mc_Name m' = mc_Name m" "mc_Protocol m' = mc_Protocol m" "mc_BaseURL m' = mc_BaseURL m" "mc_Endpoint m' = mc_Endpoint m"
    "mc_APIKey m' = mc_APIKey m" "mc_APIKeyEnv m' = mc_APIKeyEnv m" "mc_UpstreamModel m' = mc_UpstreamModel m"
    using assms by (cases m; cases m'; simp add: same_model_def)+
  show "mc_Name m' = mc_Name m" by (rule f)
  have "headers_ok (mc_Headers m')" if "headers_ok (mc_Headers m)"
    using that assms by (auto simp: headers_ok_def list_all_iff same_model_def distinct_map)
  then show "model_ok m \<Longrightarrow> model_ok m'" by (simp add: model_ok_def key_source_ok_def f)
qed

lemma same_config_ok:
  assumes "same_config cfg cfg'" and "config_ok cfg"
  shows "config_ok cfg'"
proof -
  from assms(1) have ms: "list_all2 same_model (cf_Models cfg) (cf_Models cfg')" by (simp add: same_config_def)
  then have names: "map mc_Name (cf_Models cfg') = map mc_Name (cf_Models cfg)"
    by (induction rule: list_all2_induct) (simp_all add: same_model_fields(1))
  have "list_all model_ok (cf_Models cfg) \<Longrightarrow> list_all model_ok (cf_Models cfg')"
    using ms by (induction rule: list_all2_induct) (simp_all add: same_model_fields(2))
  then show ?thesis using assms names by (simp add: config_ok_def same_config_def flip: set_map)
qed

text \<open>The fields of a model that the command line gives are the ones of the model; the others come from a default or a prompt.\<close>

definition as_given :: "modelOptions \<Rightarrow> Model \<Rightarrow> bool" where
  "as_given options m \<longleftrightarrow> (mo_name options \<noteq> [] \<longrightarrow> mc_Name m = mo_name options)
     \<and> (mo_baseURL options \<noteq> [] \<longrightarrow> mc_BaseURL m = mo_baseURL options)
     \<and> (mo_endpoint options \<noteq> [] \<longrightarrow> mc_Endpoint m = mo_endpoint options)
     \<and> (mo_apiKey options \<noteq> [] \<longrightarrow> mc_APIKey m = mo_apiKey options)
     \<and> (mo_apiKeyEnv options \<noteq> [] \<longrightarrow> mc_APIKeyEnv m = mo_apiKeyEnv options)
     \<and> (mo_upstreamModel options \<noteq> [] \<longrightarrow> mc_UpstreamModel m = mo_upstreamModel options)
     \<and> parseProviderHeaders (mo_headers options) = Inr (mc_Headers m)"

text \<open>
  The abstract commands, in terms of the configuration only: \<open>new\<close> is a valid one, and what it has
  of the configuration \<open>old\<close> that was loaded is stated for each of them.
\<close>

definition config_effect :: "string \<Rightarrow> string list \<Rightarrow> Config option \<Rightarrow> Config \<Rightarrow> bool" where
  "config_effect verb args old new \<longleftrightarrow> config_ok new \<and>
     (verb = ''use'' \<and> (\<exists>name cfg. args = [name] \<and> old = Some cfg \<and> cf_DefaultModel new = name
        \<and> list_all2 same_model (cf_Models cfg) (cf_Models new))
     \<or> verb = ''remove'' \<and> (\<exists>name cfg before m after. args = [name] \<and> old = Some cfg \<and> name \<noteq> cf_DefaultModel cfg
        \<and> cf_DefaultModel new = cf_DefaultModel cfg \<and> cf_Models cfg = before @ m # after \<and> mc_Name m = name
        \<and> list_all2 same_model (before @ after) (cf_Models new))
     \<or> verb = ''add'' \<and> (\<exists>cfg options force m. old = Some cfg \<and> parseModelOptions ''config add'' args False = Inr (options, force)
        \<and> as_given options m \<and> cf_DefaultModel new = cf_DefaultModel cfg \<and> list_all2 same_model (cf_Models cfg @ [m]) (cf_Models new))
     \<or> verb = ''init'' \<and> (\<exists>options force m. parseModelOptions ''config init'' args True = Inr (options, force)
        \<and> as_given options m \<and> cf_DefaultModel new = mc_Name m \<and> list_all2 same_model [m] (cf_Models new)))"

definition stored :: "yaml \<Rightarrow> (bytes \<times> bool) option \<Rightarrow> Config option" where
  "stored ya x = (case x of None \<Rightarrow> None | Some (d, _) \<Rightarrow> result_option (decode_config ya d))"

text \<open>Until the program saves, every state that could be seen has the contents of the first.\<close>

definition kept :: "string \<Rightarrow> files \<Rightarrow> os \<Rightarrow> bool" where
  "kept path fs w \<longleftrightarrow> (\<forall>q. content q (os_files w) = content q fs) \<and> (\<forall>seen\<in>set (os_seen w). content path seen = content path fs)"

lemma quiet_io_kept:
  assumes "quiet_io m" and "kept path fs w" and "m w = (r, w')"
  shows "kept path fs w'"
proof -
  have "quiet_from w (r, w')" using assms(1,3) unfolding quiet_io_def by metis
  then obtain new where "os_seen w' = new @ os_seen w" "list_all (same_content (os_files w)) new" "same_content (os_files w) (os_files w')"
    by (auto simp: quiet_from_def)
  then show ?thesis using assms(2) by (auto simp: kept_def same_content_def list_all_iff)
qed

lemma quiet_lift [intro]: "quiet_io (io_lift r)"
  by (cases r) (auto simp: io_lift_def)

lemma quiet_load: "quiet_io (config_Load env ya path)"
  unfolding config_Load_def read_secured_def
proof (intro quiet_then quiet_lift quiet_chmod quiet_reads)
  fix info
  show "quiet_io (case info of
         Symlink _ \<Rightarrow> io_fail (Errorf (''load config: '' @ ''config'' @ '' file must not be a symlink''))
       | File _ _ _ \<Rightarrow>
           io_then (Wrapf (''load config: '' @ ''secure file permissions: '')) (os_Chmod env path 384) (\<lambda>_.
           io_then (Wrapf ''load config: '') (os_ReadFile env path) io_return)
       | _ \<Rightarrow> io_fail (Errorf (''load config: '' @ ''config'' @ '' file must be regular'')))"
    by (cases info) auto
qed

text \<open>
  The YAML package reads a valid configuration back as it was, up to the order of the header maps. A save
  writes the encoding of the new configuration, and nothing else.
\<close>

definition yaml_ok :: "yaml \<Rightarrow> bool" where
  "yaml_ok ya \<longleftrightarrow> (\<forall>cfg d. Config_Validate cfg = Inr () \<longrightarrow> ya_Marshal ya cfg = Inr d \<longrightarrow>
     (\<exists>cfg'. ya_Decode ya d = Some cfg' \<and> same_config cfg cfg') \<and> ya_AtEnd ya d)"

definition saved_as :: "yaml \<Rightarrow> Config \<Rightarrow> bytes \<Rightarrow> bool" where
  "saved_as ya cfg d \<longleftrightarrow> (\<exists>cfg'. decode_config ya d = Inr cfg' \<and> same_config cfg cfg' \<and> config_ok cfg')"

lemma encoded_decodes:
  assumes "yaml_ok ya" and "encode_config ya path cfg = Inr d"
  shows "saved_as ya cfg d"
proof -
  from assms(2) have v: "Config_Validate cfg = Inr ()" and d: "ya_Marshal ya cfg = Inr d"
    by (auto simp: encode_config_def try_then_Inr_iff try_wrap_Inr_iff)
  from v d assms(1) obtain cfg' where cfg': "ya_Decode ya d = Some cfg'" "same_config cfg cfg'" and e: "ya_AtEnd ya d"
    unfolding yaml_ok_def by blast
  have ok: "config_ok cfg'" using same_config_ok [OF cfg'(2)] v by (simp add: Config_Validate_iff)
  then have "decode_config ya d = Inr cfg'"
    using cfg'(1) e Config_Validate_iff [of cfg'] by (simp add: decode_config_def)
  then show ?thesis using cfg'(2) ok by (auto simp: saved_as_def)
qed

lemma save_kept:
  assumes ya: "yaml_ok ya" and w: "kept path fs w" and save: "config_Save env ya path cfg w = (r, w')"
  shows "\<forall>seen\<in>set (os_seen w'). content path seen = content path fs \<or> (\<exists>d. content path seen = Some (d, True) \<and> saved_as ya cfg d)"
    and "r = Inr () \<Longrightarrow> \<exists>d. content path (os_files w') = Some (d, True) \<and> saved_as ya cfg d"
proof -
  have c: "content path fs = content path (os_files w)" "\<And>q. content q (os_files w) = content q fs"
    "\<forall>seen\<in>set (os_seen w). content path seen = content path fs" using w by (simp_all add: kept_def)
  note S = config_store.save_from [where c = "\<lambda>q. content q fs", OF save c]
  have V: "x \<in> allowed (os_files w) path (result_option (encode_config ya path cfg)) \<Longrightarrow>
      x = content path fs \<or> (\<exists>d. x = Some (d, True) \<and> saved_as ya cfg d)" for x
    using c(1) encoded_decodes [OF ya, of path cfg]
    by (cases "encode_config ya path cfg") (auto simp: allowed_def result_option_def)
  show "\<forall>seen\<in>set (os_seen w'). content path seen = content path fs \<or> (\<exists>d. content path seen = Some (d, True) \<and> saved_as ya cfg d)"
    using S(1) V by blast
  show "r = Inr () \<Longrightarrow> \<exists>d. content path (os_files w') = Some (d, True) \<and> saved_as ya cfg d"
    using S(2) encoded_decodes [OF ya] by (auto simp: content_def)
qed

text \<open>A command may only leave what it found or a configuration \<open>E\<close> allows, and succeeds only with the latter.\<close>

definition refines :: "yaml \<Rightarrow> string \<Rightarrow> files \<Rightarrow> (Config \<Rightarrow> bool) \<Rightarrow> int \<times> console \<Rightarrow> bool" where
  "refines ya path fs E result' \<longleftrightarrow>
     (\<forall>seen\<in>set (os_seen (cs_os (snd result'))). content path seen = content path fs
        \<or> (\<exists>new d. content path seen = Some (d, True) \<and> decode_config ya d = Inr new \<and> E new))
     \<and> (fst result' = 0 \<longrightarrow> (\<exists>new d. content path (os_files (cs_os (snd result'))) = Some (d, True) \<and> decode_config ya d = Inr new \<and> E new))"

lemma refines_fail: "kept path fs (cs_os c) \<Longrightarrow> refines ya path fs E (app_fail e c)"
  by (simp add: refines_def app_fail_def errorExitCode_def kept_def)

lemma refines_usage: "kept path fs (cs_os c) \<Longrightarrow> refines ya path fs E (usageExitCode, c)"
  by (simp add: refines_def usageExitCode_def kept_def)

lemma finish_files: "cs_os (snd (finish a line c)) = cs_os c"
  by (simp add: finish_def write_out_def)

lemma on_files_kept: "quiet_io m \<Longrightarrow> kept path fs (cs_os c) \<Longrightarrow> on_files m c = (r, c') \<Longrightarrow> kept path fs (cs_os c')"
  by (auto simp: on_files_def split: prod.splits dest: quiet_io_kept)

lemma refines_save:
  assumes ya: "yaml_ok ya" and c: "kept path fs (cs_os c)" and E: "\<And>cfg'. same_config cfg cfg' \<Longrightarrow> config_ok cfg' \<Longrightarrow> E cfg'"
  shows "refines ya path fs E (case on_files (config_Save env ya path cfg) c of (Inl e, c) \<Rightarrow> app_fail (Wrapf label e) c | (Inr _, c) \<Rightarrow> finish a line c)"
proof -
  obtain r w where s: "config_Save env ya path cfg (cs_os c) = (r, w)" by (cases "config_Save env ya path cfg (cs_os c)")
  note k = save_kept [OF ya c s]
  show ?thesis
  proof (cases r)
    case (Inl e)
    then show ?thesis using s k(1) E by (fastforce simp: refines_def on_files_def app_fail_def errorExitCode_def saved_as_def)
  next
    case (Inr u)
    then have "r = Inr ()" by simp
    then show ?thesis using s k(1) k(2) E by (fastforce simp: refines_def on_files_def finish_files saved_as_def)
  qed
qed

lemma load_stored:
  assumes "kept path fs (cs_os c)" and "on_files (config_Load env ya path) c = (Inr cfg, c')"
  shows "stored ya (content path fs) = Some cfg"
proof -
  obtain w where "config_Load env ya path (cs_os c) = (Inr cfg, w)" using assms(2) by (auto simp: on_files_def split: prod.splits)
  from config_store.load_reads [OF this] show ?thesis using assms(1) by (auto simp: kept_def stored_def)
qed

lemma stored_ok: "stored ya x = Some cfg \<Longrightarrow> config_ok cfg"
  by (auto simp: stored_def decode_config_def try_wrap_Inr_iff Config_Validate_iff split: option.splits if_splits)

lemma update_refines:
  assumes p: "paths_Resolve (Some (ap_Getenv a)) = Inr p" and ya: "yaml_ok (ap_Yaml a)" and c: "kept (pa_ConfigFile p) fs (cs_os c)"
    and E: "\<And>cfg new new'. stored (ap_Yaml a) (content (pa_ConfigFile p) fs) = Some cfg \<Longrightarrow> config_ok cfg \<Longrightarrow> change cfg = Inr new
      \<Longrightarrow> same_config new new' \<Longrightarrow> config_ok new' \<Longrightarrow> E new'"
  shows "refines (ap_Yaml a) (pa_ConfigFile p) fs E (update_config a label change line c)"
proof -
  let ?load = "config_Load (ap_Os a) (ap_Yaml a) (pa_ConfigFile p)"
  obtain r c1 where l: "on_files ?load c = (r, c1)" by (cases "on_files ?load c")
  have c1: "kept (pa_ConfigFile p) fs (cs_os c1)" by (rule on_files_kept [OF quiet_load c l])
  show ?thesis
  proof (cases r)
    case (Inl e)
    then show ?thesis using p l c1 by (simp add: update_config_def refines_fail)
  next
    case (Inr cfg)
    have st: "stored (ap_Yaml a) (content (pa_ConfigFile p) fs) = Some cfg" using load_stored [OF c] l Inr by simp
    have loaded_ok: "config_ok cfg" using stored_ok [OF st] .
    show ?thesis
    proof (cases "change cfg")
      case (Inl e)
      then show ?thesis using p l c1 Inr by (simp add: update_config_def refines_fail)
    next
      case new: (Inr new)
      from refines_save [where E = E and cfg = new and env = "ap_Os a" and label = label and a = a and line = line, OF ya c1 E [OF st loaded_ok new]]
      show ?thesis using p l Inr new by (simp add: update_config_def)
    qed
  qed
qed

text \<open>The prompts do not touch the files.\<close>

lemma write_out_files: "write_out a s c = (ok, c') \<Longrightarrow> cs_os c' = cs_os c"
  by (auto simp: write_out_def split: if_splits)

lemma prompt_files: "promptLine a prompt d c = (r, c') \<Longrightarrow> cs_os c' = cs_os c"
  by (auto simp: promptLine_def Let_def dest!: write_out_files split: prod.splits bool.splits if_splits)

lemma ask_files:
  assumes "\<And>st r c'. k st = (r, c') \<Longrightarrow> cs_os c' = cs_os (snd st)" and "ask a command missing prompt d put st k = (r, c')"
  shows "cs_os c' = cs_os (snd st)"
proof (cases missing)
  case True
  obtain r1 c1 where p: "promptLine a prompt d (snd st) = (r1, c1)" by (cases "promptLine a prompt d (snd st)")
  show ?thesis
  proof (cases r1)
    case (Inl e)
    then show ?thesis using assms(2) True p prompt_files [OF p] by (simp add: ask_def)
  next
    case (Inr v)
    then have "k (put v (fst st), c1) = (r, c')" using assms(2) True p by (simp add: ask_def)
    from assms(1) [OF this] show ?thesis using prompt_files [OF p] by simp
  qed
next
  case False
  then show ?thesis using assms by (simp add: ask_def)
qed

lemma source_files: "ask_source a command st = (r, c') \<Longrightarrow> cs_os c' = cs_os (snd st)"
proof -
  assume run: "ask_source a command st = (r, c')"
  obtain r1 c1 where p: "promptLine a ''API key source (env/inline): '' [] (snd st) = (r1, c1)"
    by (cases "promptLine a ''API key source (env/inline): '' [] (snd st)")
  have kept: "ask a command True prompt d put st' (\<lambda>(o', c). (Inr o', c)) = (r, c') \<Longrightarrow> cs_os c' = cs_os (snd st')" for prompt d put st'
    by (erule ask_files [rotated]) auto
  show ?thesis
  proof (cases r1)
    case (Inl e)
    then show ?thesis using run p prompt_files [OF p] by (simp add: ask_source_def)
  next
    case (Inr source)
    then show ?thesis using run p prompt_files [OF p] by (auto simp: ask_source_def dest!: kept split: if_splits)
  qed
qed

lemma complete_files: "completeModelOptions a command options c = (r, c') \<Longrightarrow> cs_os c' = cs_os c"
  unfolding completeModelOptions_def
  by (drule ask_files [rotated], clarsimp, drule ask_files [rotated], clarsimp, drule ask_files [rotated], clarsimp,
      drule ask_files [rotated]) (auto dest!: source_files split: if_splits)

lemma gather_files: "gather_options a command options c = (r, c') \<Longrightarrow> cs_os c' = cs_os c"
proof -
  assume run: "gather_options a command options c = (r, c')"
  let ?o = "applyModelOptionDefaults (ap_Getenv a) options"
  obtain r1 c1 where p: "completeModelOptions a command ?o c = (r1, c1)" by (cases "completeModelOptions a command ?o c")
  show ?thesis
    using run p complete_files [OF p] by (cases r1) (auto simp: gather_options_def Let_def split: if_splits)
qed

text \<open>Defaults and prompts only fill in what the command line does not give.\<close>

definition keeps :: "modelOptions \<Rightarrow> modelOptions \<Rightarrow> bool" where
  "keeps options options' \<longleftrightarrow> (mo_name options \<noteq> [] \<longrightarrow> mo_name options' = mo_name options)
     \<and> (mo_baseURL options \<noteq> [] \<longrightarrow> mo_baseURL options' = mo_baseURL options)
     \<and> (mo_endpoint options \<noteq> [] \<longrightarrow> mo_endpoint options' = mo_endpoint options)
     \<and> (mo_apiKey options \<noteq> [] \<longrightarrow> mo_apiKey options' = mo_apiKey options)
     \<and> (mo_apiKeyEnv options \<noteq> [] \<longrightarrow> mo_apiKeyEnv options' = mo_apiKeyEnv options)
     \<and> (mo_upstreamModel options \<noteq> [] \<longrightarrow> mo_upstreamModel options' = mo_upstreamModel options)
     \<and> mo_headers options' = mo_headers options"

lemma keeps_refl [simp]: "keeps options options"
  by (simp add: keeps_def)

lemma keeps_trans: "keeps a b \<Longrightarrow> keeps b c \<Longrightarrow> keeps a c"
  by (simp add: keeps_def)

lemma defaults_keep: "keeps options (applyModelOptionDefaults getenv options)"
  by (simp add: keeps_def applyModelOptionDefaults_def Let_def)

lemma ask_keeps:
  assumes "ask a command missing prompt d put st k = (Inr o', c')"
    and "\<And>st o' c'. k st = (Inr o', c') \<Longrightarrow> keeps (fst st) o'" and "\<And>v. missing \<Longrightarrow> keeps (fst st) (put v (fst st))"
  shows "keeps (fst st) o'"
proof (cases missing)
  case False
  then show ?thesis using assms(1,2) by (simp add: ask_def)
next
  case True
  obtain r c1 where p: "promptLine a prompt d (snd st) = (r, c1)" by (cases "promptLine a prompt d (snd st)")
  with True assms(1) obtain v where "r = Inr v" and k: "k (put v (fst st), c1) = (Inr o', c')" by (cases r) (auto simp: ask_def)
  from assms(2) [OF k] assms(3) [OF True, of v] show ?thesis by (auto intro: keeps_trans)
qed

lemma source_keeps:
  assumes "ask_source a command st = (Inr o', c')" and "mo_apiKey (fst st) = []" and "mo_apiKeyEnv (fst st) = []"
  shows "keeps (fst st) o'"
proof -
  obtain r c1 where p: "promptLine a ''API key source (env/inline): '' [] (snd st) = (r, c1)"
    by (cases "promptLine a ''API key source (env/inline): '' [] (snd st)")
  with assms(1) obtain source where r: "r = Inr source" by (cases r) (auto simp: ask_source_def)
  consider "ask a command True ''API key environment variable: '' [] (\<lambda>v o'. o'\<lparr>mo_apiKeyEnv := v\<rparr>) (fst st, c1) (\<lambda>(o', c). (Inr o', c)) = (Inr o', c')"
    | "ask a command True ''Inline API key: '' [] (\<lambda>v o'. o'\<lparr>mo_apiKey := v\<rparr>) (fst st, c1) (\<lambda>(o', c). (Inr o', c)) = (Inr o', c')"
    using assms(1) p r by (auto simp: ask_source_def split: if_splits)
  then show ?thesis
    by cases (drule ask_keeps, use assms(2,3) in \<open>auto simp: keeps_def\<close>)+
qed

lemma asked_source_keeps:
  "(if mo_apiKey options = [] \<and> mo_apiKeyEnv options = [] then ask_source a command (options, c) else (Inr options, c)) = (Inr o', c')
    \<Longrightarrow> keeps options o'"
  by (auto dest: source_keeps split: if_splits)

lemma complete_keeps: "completeModelOptions a command options c = (Inr o', c') \<Longrightarrow> keeps options o'"
  unfolding completeModelOptions_def
  by (drule ask_keeps, clarsimp, drule ask_keeps, clarsimp, drule ask_keeps, clarsimp, drule ask_keeps)
    (auto dest!: asked_source_keeps simp: keeps_def simp del: if_split)

lemma gather_keeps:
  assumes "gather_options a command options c = (Inr o', c')"
  shows "keeps options o'"
proof -
  let ?o = "applyModelOptionDefaults (ap_Getenv a) options"
  obtain r c1 where p: "completeModelOptions a command ?o c = (r, c1)" by (cases "completeModelOptions a command ?o c")
  consider (given) "o' = ?o" | (asked) o1 where "r = Inr o1" "o' = applyModelOptionDefaults (ap_Getenv a) o1"
    using assms p by (cases r) (auto simp: gather_options_def Let_def split: if_splits)
  then show ?thesis
  proof cases
    case given
    then show ?thesis using defaults_keep by simp
  next
    case asked
    with p have "keeps ?o o1" by (simp add: complete_keeps)
    then have "keeps options o1" by (rule keeps_trans [OF defaults_keep])
    then show ?thesis using asked(2) by (auto intro: keeps_trans [OF _ defaults_keep])
  qed
qed

lemma gathered_as_given:
  assumes "gather_options a command options c = (Inr o', c')" and "options_model o' = Inr m"
  shows "as_given options m"
  using gather_keeps [OF assms(1)] assms(2)
  by (auto simp: keeps_def as_given_def options_model_def Let_def try_then_Inr_iff)

text \<open>The last steps of \<open>add\<close> and \<open>init\<close>.\<close>

lemma refines_options:
  assumes ya: "yaml_ok ya" and c: "kept path fs (cs_os c)" 
    and E: "\<And>m new'. as_given options m \<Longrightarrow> same_config (new m) new' \<Longrightarrow> config_ok new' \<Longrightarrow> E new'"
  shows "refines ya path fs E (case gather_options a command options c of
        (Inl e, c) \<Rightarrow> app_fail e c
      | (Inr options, c) \<Rightarrow>
     (case options_model options of
        Inl e \<Rightarrow> app_fail (Wrapf label e) c
      | Inr m \<Rightarrow>
     (case on_files (config_Save env ya path (new m)) c of
        (Inl e, c) \<Rightarrow> app_fail (Wrapf label e) c
      | (Inr _, c) \<Rightarrow> finish a (line m) c)))"
proof -
  obtain r c1 where g: "gather_options a command options c = (r, c1)" by (cases "gather_options a command options c")
  have c1: "kept path fs (cs_os c1)" using gather_files [OF g] c by simp
  show ?thesis
  proof (cases r)
    case (Inl e)
    then show ?thesis using g refines_fail [OF c1] by simp
  next
    case (Inr o')
    show ?thesis
    proof (cases "options_model o'")
      case (Inl e)
      then show ?thesis using g Inr refines_fail [OF c1] by simp
    next
      case m: (Inr m)
      from refines_save [where E = E and cfg = "new m" and env = env and label = label and a = a and line = "line m", OF ya c1 E [OF gathered_as_given [OF g [unfolded Inr] m]]]
      show ?thesis using g Inr m by simp
    qed
  qed
qed

lemma add_refines:
  assumes p: "paths_Resolve (Some (ap_Getenv a)) = Inr p" and ya: "yaml_ok (ap_Yaml a)" and c: "kept (pa_ConfigFile p) fs (cs_os c)"
  shows "refines (ap_Yaml a) (pa_ConfigFile p) fs (config_effect ''add'' args (stored (ap_Yaml a) (content (pa_ConfigFile p) fs))) (runConfigAdd a args c)"
proof (cases "parseModelOptions ''config add'' args False")
  case (Inl e)
  then show ?thesis using refines_fail [OF c] by (simp add: runConfigAdd_def)
next
  case (Inr of')
  obtain options force where of': "of' = (options, force)" by (cases of')
  let ?load = "config_Load (ap_Os a) (ap_Yaml a) (pa_ConfigFile p)"
  obtain r c1 where l: "on_files ?load c = (r, c1)" by (cases "on_files ?load c")
  have c1: "kept (pa_ConfigFile p) fs (cs_os c1)" by (rule on_files_kept [OF quiet_load c l])
  show ?thesis
  proof (cases r)
    case (Inl e)
    then show ?thesis using refines_fail [OF c1] \<open>parseModelOptions _ _ _ = _\<close> of' p l by (simp add: runConfigAdd_def)
  next
    case r: (Inr cfg)
    have st: "stored (ap_Yaml a) (content (pa_ConfigFile p) fs) = Some cfg" using load_stored [OF c] l r by simp
    have E: "config_effect ''add'' args (stored (ap_Yaml a) (content (pa_ConfigFile p) fs)) new'"
      if "as_given options m" "same_config (cfg\<lparr>cf_Models := cf_Models cfg @ [m]\<rparr>) new'" "config_ok new'" for m new'
      using that st Inr of' by (auto simp: config_effect_def same_config_def)
    note go = refines_options [where new = "\<lambda>m. cfg\<lparr>cf_Models := cf_Models cfg @ [m]\<rparr>" and command = "''config add''" and options = options
        and label = "''config add: ''" and line = "\<lambda>m. ''Added model '' @ mc_Name m" and env = "ap_Os a" and a = a
        and E = "config_effect ''add'' args (stored (ap_Yaml a) (content (pa_ConfigFile p) fs))", OF ya c1 E]
    show ?thesis using go Inr of' p l r by (simp add: runConfigAdd_def)
  qed
qed

lemma init_refines:
  assumes p: "paths_Resolve (Some (ap_Getenv a)) = Inr p" and ya: "yaml_ok (ap_Yaml a)" and c: "kept (pa_ConfigFile p) fs (cs_os c)"
  shows "refines (ap_Yaml a) (pa_ConfigFile p) fs (config_effect ''init'' args (stored (ap_Yaml a) (content (pa_ConfigFile p) fs))) (runConfigInit a args c)"
proof (cases "parseModelOptions ''config init'' args True")
  case (Inl e)
  then show ?thesis using refines_fail [OF c] by (simp add: runConfigInit_def)
next
  case (Inr of')
  obtain options force where of': "of' = (options, force)" by (cases of')
  define look where "look = (if force then (Inl OS_NotExist, c) else on_files (os_Stat (ap_Os a) (pa_ConfigFile p)) c)"
  obtain r c1 where l: "look = (r, c1)" by (cases look)
  have "kept (pa_ConfigFile p) fs (cs_os c1)"
    using l c on_files_kept [OF quiet_reads(2) c] by (auto simp: look_def split: if_splits)
  then have c1: "kept (pa_ConfigFile p) fs (cs_os c1)" .
  have E: "config_effect ''init'' args old new'" if "as_given options m" "same_config (single_config m) new'" "config_ok new'" for m new' old
    using that Inr of' by (auto simp: config_effect_def same_config_def single_config_def)
  have go: "refines (ap_Yaml a) (pa_ConfigFile p) fs (config_effect ''init'' args (stored (ap_Yaml a) (content (pa_ConfigFile p) fs)))
     (case gather_options a ''config init'' options c1 of
        (Inl e, c) \<Rightarrow> app_fail e c
      | (Inr options, c) \<Rightarrow>
     (case options_model options of
        Inl e \<Rightarrow> app_fail (Wrapf ''config init: '' e) c
      | Inr m \<Rightarrow>
     (case on_files (config_Save (ap_Os a) (ap_Yaml a) (pa_ConfigFile p) (single_config m)) c of
        (Inl e, c) \<Rightarrow> app_fail (Wrapf ''config init: '' e) c
      | (Inr _, c) \<Rightarrow> finish a (''Initialized '' @ pa_ConfigFile p @ '' with model '' @ mc_Name m) c)))"
    by (rule refines_options [where new = single_config and E = "config_effect ''init'' args (stored (ap_Yaml a) (content (pa_ConfigFile p) fs))",
      OF ya c1 E])
  show ?thesis
  proof (cases r)
    case x: (Inl e)
    show ?thesis
      using go refines_fail [OF c1] Inr of' p l [unfolded look_def] x
      by (cases "error_is OS_NotExist e") (simp_all add: runConfigInit_def)
  next
    case x: (Inr n)
    then show ?thesis using refines_fail [OF c1] Inr of' p l [unfolded look_def] by (simp add: runConfigInit_def)
  qed
qed

lemma use_effect:
  "use_model name cfg = Inr new \<Longrightarrow> same_config new new' \<Longrightarrow> config_ok new' \<Longrightarrow> config_effect ''use'' [name] (Some cfg) new'"
  by (auto simp: use_model_def config_effect_def same_config_def split: if_splits)

lemma filter_other_names:
  "distinct (map mc_Name ms) \<Longrightarrow> name \<in> mc_Name ` set ms \<Longrightarrow>
    \<exists>before m after. ms = before @ m # after \<and> mc_Name m = name \<and> filter (\<lambda>m. mc_Name m \<noteq> name) ms = before @ after"
proof -
  assume d: "distinct (map mc_Name ms)" and n: "name \<in> mc_Name ` set ms"
  from n obtain before m after where ms: "ms = before @ m # after" and m: "mc_Name m = name" by (auto dest: split_list)
  have "filter (\<lambda>m. mc_Name m \<noteq> name) before = before" "filter (\<lambda>m. mc_Name m \<noteq> name) after = after"
    using d ms m by (auto simp: filter_id_conv image_iff)
  then show ?thesis using ms m by auto
qed

lemma remove_effect:
  assumes "remove_model name cfg = Inr new" and "config_ok cfg" and "same_config new new'" and "config_ok new'"
  shows "config_effect ''remove'' [name] (Some cfg) new'"
proof -
  have new: "name \<noteq> cf_DefaultModel cfg" "name \<in> mc_Name ` set (cf_Models cfg)"
    "new = cfg\<lparr>cf_Models := filter (\<lambda>m. mc_Name m \<noteq> name) (cf_Models cfg)\<rparr>"
    using assms(1) by (auto simp: remove_model_def has_model_def list_ex_iff split: if_splits)
  have "distinct (map mc_Name (cf_Models cfg))" using assms(2) by (simp add: config_ok_def)
  from filter_other_names [OF this new(2)] obtain before m after where ms: "cf_Models cfg = before @ m # after" "mc_Name m = name"
    and rest: "filter (\<lambda>m. mc_Name m \<noteq> name) (cf_Models cfg) = before @ after" by blast
  have "list_all2 same_model (before @ after) (cf_Models new')" "cf_DefaultModel new' = cf_DefaultModel cfg"
    using new(3) rest assms(3) by (simp_all add: same_config_def)
  with ms new(1) assms(4) show ?thesis unfolding config_effect_def by blast
qed

text \<open>C31: The configuration commands refine the abstract ones, through every failure. For a \<open>yaml\<close> package that reads
  back a valid configuration as it wrote it, up to the order of the header maps: whatever command is run and whatever fails, at every
  moment the configuration file holds what it held before the command or, synced, a whole and valid configuration \<open>new\<close> that is in the
  relation \<open>config_effect\<close> with the one that was loaded: \<open>use\<close> makes the given name the default, which a valid configuration must
  have a model of, and keeps the models; \<open>remove\<close> takes out the one model of the given name, never the default, and keeps the
  others in their order; \<open>add\<close> keeps default and models and appends one with the fields the flags give; \<open>init\<close> leaves one such
  model, the default. A changing command that exits with 0 has left \<open>new\<close> on the disk.\<close>

theorem config_commands_refine:
  assumes run: "runConfig a args c = (code, c')" and paths: "paths_Resolve (Some (ap_Getenv a)) = Inr p"
    and yaml: "yaml_ok (ap_Yaml a)" and start: "os_seen (cs_os c) = []"
  shows "(\<forall>seen\<in>set (os_seen (cs_os c')). content (pa_ConfigFile p) seen = content (pa_ConfigFile p) (os_files (cs_os c))
        \<or> (\<exists>d new. content (pa_ConfigFile p) seen = Some (d, True) \<and> decode_config (ap_Yaml a) d = Inr new
             \<and> config_effect (hd args) (tl args) (stored (ap_Yaml a) (content (pa_ConfigFile p) (os_files (cs_os c)))) new))
    \<and> (code = 0 \<and> args \<noteq> [] \<and> hd args \<in> {''use'', ''remove'', ''add'', ''init''} \<longrightarrow>
        (\<exists>d new. content (pa_ConfigFile p) (os_files (cs_os c')) = Some (d, True) \<and> decode_config (ap_Yaml a) d = Inr new
             \<and> config_effect (hd args) (tl args) (stored (ap_Yaml a) (content (pa_ConfigFile p) (os_files (cs_os c)))) new))"
proof -
  let ?file = "pa_ConfigFile p" and ?fs = "os_files (cs_os c)"
  let ?E = "config_effect (hd args) (tl args) (stored (ap_Yaml a) (content ?file ?fs))"
  have c: "kept ?file ?fs (cs_os c)" using start by (simp add: kept_def)
  show ?thesis
  proof (cases "args \<noteq> [] \<and> hd args \<in> {''use'', ''remove'', ''add'', ''init''}")
    case True
    then obtain verb rest where args: "args = verb # rest" "verb \<in> {''use'', ''remove'', ''add'', ''init''}" by (cases args) auto
    have use: "refines (ap_Yaml a) ?file ?fs (config_effect ''use'' rest (stored (ap_Yaml a) (content ?file ?fs))) (runConfigUse a rest c)"
      unfolding runConfigUse_def
      by (cases rest rule: remdups_adj.cases)
        (auto intro!: refines_usage [OF c] update_refines [OF paths yaml c] intro: use_effect)
    have remove: "refines (ap_Yaml a) ?file ?fs (config_effect ''remove'' rest (stored (ap_Yaml a) (content ?file ?fs))) (runConfigRemove a rest c)"
      unfolding runConfigRemove_def
      by (cases rest rule: remdups_adj.cases)
        (auto intro!: refines_usage [OF c] update_refines [OF paths yaml c] intro: remove_effect)
    have "refines (ap_Yaml a) ?file ?fs ?E (code, c')"
      using args run use remove add_refines [OF paths yaml c, of rest] init_refines [OF paths yaml c, of rest]
      by (auto simp: runConfig_def)
    then show ?thesis using True by (auto simp: refines_def)
  next
    case False
    have "kept ?file ?fs (cs_os c')"
    proof (cases "\<exists>rest. args = ''list'' # rest")
      case True
      then obtain rest where r: "runConfigList a rest c = (code, c')" using run by (auto simp: runConfig_def)
      let ?load = "config_Load (ap_Os a) (ap_Yaml a) ?file"
      obtain r1 c1 where l: "on_files ?load c = (r1, c1)" by (cases "on_files ?load c")
      have "kept ?file ?fs (cs_os c1)" by (rule on_files_kept [OF quiet_load c l])
      then show ?thesis
        using r l paths c by (cases r1) (auto simp: runConfigList_def app_fail_def dest!: write_out_files split: if_splits prod.splits)
    next
      case other: False
      then have "cs_os c' = cs_os c"
        using False run by (cases args) (auto simp: runConfig_def dest!: write_out_files split: if_splits prod.splits)
      then show ?thesis using c by simp
    qed
    then show ?thesis using False by (auto simp: kept_def)
  qed
qed

text \<open>Models that differ only in the key that is written inline.\<close>

definition same_but_keys :: "Model \<Rightarrow> Model \<Rightarrow> bool" where
  "same_but_keys m m' \<longleftrightarrow> m'\<lparr>mc_APIKey := []\<rparr> = m\<lparr>mc_APIKey := []\<rparr>"

text \<open>C32: The list of the models never shows a secret: two configurations that differ only in the keys their models hold inline
  are listed alike, and a key that is in the environment only counts as there or not.\<close>

theorem list_redacts:
  assumes "cf_DefaultModel cfg' = cf_DefaultModel cfg" and "list_all2 same_but_keys (cf_Models cfg) (cf_Models cfg')"
    and "\<And>m. m \<in> set (cf_Models cfg) \<Longrightarrow> mc_APIKeyEnv m \<noteq> [] \<Longrightarrow> getenv' (mc_APIKeyEnv m) = [] \<longleftrightarrow> getenv (mc_APIKeyEnv m) = []"
  shows "list_table getenv' cfg' = list_table getenv cfg"
proof -
  have row: "model_row getenv' d m' = model_row getenv d m"
    if "same_but_keys m m'" "mc_APIKeyEnv m \<noteq> [] \<Longrightarrow> getenv' (mc_APIKeyEnv m) = [] \<longleftrightarrow> getenv (mc_APIKeyEnv m) = []" for d m m'
    using that by (cases m; cases m') (simp add: same_but_keys_def model_row_def key_status_def)
  from assms(2,3) have "map (model_row getenv' d) (cf_Models cfg') = map (model_row getenv d) (cf_Models cfg)" for d
    by (induction rule: list_all2_induct) (auto simp: row)
  then show ?thesis using assms(1) by (simp add: list_table_def)
qed

section \<open>A run\<close>

definition one_yaml :: yaml where
  "one_yaml = \<lparr> ya_Marshal = \<lambda>cfg. if cfg = sample_config then Inr ''models'' else Inl (Errorf ''yaml''),
     ya_Decode = \<lambda>_. Some sample_config, ya_AtEnd = \<lambda>_. True \<rparr>"

definition sample_getenv :: "string \<Rightarrow> string" where
  "sample_getenv name = (if name = ''HOME'' then ''/h'' else if name = ''XDG_CONFIG_HOME'' then ''/s'' else [])"

definition sample_app :: app where
  "sample_app = \<lparr> ap_Getenv = sample_getenv, ap_Os = calm, ap_Yaml = one_yaml, ap_Writes = \<lambda>_. True \<rparr>"

definition sample_file :: string where
  "sample_file = ''/s/cursor-cli-byok/config.yaml''"

definition sample_console :: console where
  "sample_console = \<lparr> cs_os = \<lparr> os_files = [(''/s/cursor-cli-byok'', Directory 448), (sample_file, File 384 ''old'' True)],
       os_calls = 0, os_failed = 0, os_seen = [] \<rparr>,
     cs_Stdin = \<lparr> rd_data = [], rd_err = IO_EOF \<rparr>, cs_Stdout = [], cs_Stderr = [], cs_writes = 0 \<rparr>"

lemma sample_paths: "\<exists>p. paths_Resolve (Some sample_getenv) = Inr p \<and> pa_ConfigFile p = sample_file"
  by (simp add: paths_Resolve_def xdgRoot_def sample_getenv_def sample_file_def Let_def filepath_IsAbs_def filepath_Join_def path_Clean_def clean_step_def appName_def)

lemma sample_file_paths:
  "filepath_Dir sample_file = ''/s/cursor-cli-byok''" "filepath_Base sample_file = ''config.yaml''" "validate_path a sample_file = Inr ()"
  by (simp_all add: sample_file_def validate_path_def filepath_IsAbs_def Let_def path_Clean_def filepath_Dir_def filepath_Base_def clean_step_def)

lemma sample_follow:
  "node_at fs ''/s/cursor-cli-byok'' = Some (Directory m) \<Longrightarrow> follow 40 fs ''/s/cursor-cli-byok'' = Some ''/s/cursor-cli-byok''"
  "node_at fs sample_file = Some (File m d s) \<Longrightarrow> follow 40 fs sample_file = Some sample_file"
  by (simp_all add: numeral_eq_Suc)

lemma sample_distinct: "sample_file \<noteq> ''/s/cursor-cli-byok''" "''/s/cursor-cli-byok'' \<noteq> sample_file"
  by (simp_all add: sample_file_def)

definition sample_there :: "os \<Rightarrow> bool" where
  "sample_there w \<longleftrightarrow> node_at (os_files w) ''/s/cursor-cli-byok'' = Some (Directory 448)
     \<and> (\<exists>d s. node_at (os_files w) sample_file = Some (File 384 d s))
     \<and> node_at (os_files w) (temp_name ''/s/cursor-cli-byok'' ''.config.yaml.tmp-'' 7) = None"

lemma sample_config_valid: "Config_Validate sample_config = Inr ()"
  using sample_config_ok by (simp add: Config_Validate_iff)

lemma sample_decodes: "decode_config one_yaml d = Inr sample_config"
  by (simp add: decode_config_def one_yaml_def sample_config_valid)

lemma sample_encodes: "encode_config one_yaml sample_file sample_config = Inr ''models''"
  by (simp add: encode_config_def one_yaml_def sample_config_valid sample_file_paths)

lemma sample_temp: "temp_name ''/s/cursor-cli-byok'' ''.config.yaml.tmp-'' 7 = ''/s/cursor-cli-byok/.config.yaml.tmp-7''"
  by code_simp

lemma sample_loads:
  assumes "sample_there w"
  shows "\<exists>w'. config_Load calm one_yaml sample_file w = (Inr sample_config, w') \<and> sample_there w'"
proof -
  obtain d s where w: "node_at (os_files w) ''/s/cursor-cli-byok'' = Some (Directory 448)" "node_at (os_files w) sample_file = Some (File 384 d s)"
    "node_at (os_files w) ''/s/cursor-cli-byok/.config.yaml.tmp-7'' = None" using assms by (auto simp: sample_there_def sample_temp)
  have other: "sample_file \<noteq> ''/s/cursor-cli-byok/.config.yaml.tmp-7''" "''/s/cursor-cli-byok/.config.yaml.tmp-7'' \<noteq> sample_file"
    by (simp_all add: sample_file_def)
  show ?thesis
    using w by (simp add: config_Load_def read_secured_def sample_file_paths os_eval os_Lstat_def os_ReadFile_def sample_follow sample_distinct
      sample_there_def sample_temp sample_decodes other)
qed

lemma sample_saves:
  assumes "sample_there w"
  shows "fst (config_Save calm one_yaml sample_file sample_config w) = Inr ()"
proof -
  obtain d s where w: "node_at (os_files w) ''/s/cursor-cli-byok'' = Some (Directory 448)" "node_at (os_files w) sample_file = Some (File 384 d s)"
    "node_at (os_files w) ''/s/cursor-cli-byok/.config.yaml.tmp-7'' = None" using assms by (auto simp: sample_there_def sample_temp)
  have other: "sample_file \<noteq> ''/s/cursor-cli-byok/.config.yaml.tmp-7''" "''/s/cursor-cli-byok/.config.yaml.tmp-7'' \<noteq> sample_file"
    by (simp_all add: sample_file_def)
  show ?thesis
    using w by (simp add: config_Save_def sample_encodes sample_file_paths create_calm os_eval sample_follow sample_distinct sample_temp other)
qed

theorem config_commands_refine_witness:
  "\<exists>c'. runConfig sample_app [''use'', ''m''] sample_console = (0, c')
     \<and> (\<exists>d. content sample_file (os_files (cs_os c')) = Some (d, True) \<and> decode_config one_yaml d = Inr sample_config)"
proof -
  obtain p where p: "paths_Resolve (Some sample_getenv) = Inr p" "pa_ConfigFile p = sample_file" using sample_paths by auto
  have a: "ap_Getenv sample_app = sample_getenv" "ap_Os sample_app = calm" "ap_Yaml sample_app = one_yaml" "ap_Writes sample_app n" for n
    by (simp_all add: sample_app_def)
  have "sample_there (cs_os sample_console)"
    by (auto simp: sample_there_def sample_console_def node_at_def sample_temp sample_file_def)
  then obtain w where w: "config_Load calm one_yaml sample_file (cs_os sample_console) = (Inr sample_config, w)" "sample_there w"
    using sample_loads by blast
  obtain w' where w': "config_Save calm one_yaml sample_file sample_config w = (Inr (), w')" using sample_saves [OF w(2)] by (metis prod.collapse)
  have use: "use_model ''m'' sample_config = Inr sample_config"
    by (simp add: use_model_def has_model_def sample_config_def sample_model_def)
  obtain c' where c': "runConfig sample_app [''use'', ''m''] sample_console = (0, c')"
    using p w(1) w' a by (simp add: runConfig_def runConfigUse_def update_config_def on_files_def use finish_def write_out_def)
  have "yaml_ok one_yaml"
    by (simp add: yaml_ok_def one_yaml_def same_config_def sample_config_def same_model_def sample_model_def)
  moreover have "os_seen (cs_os sample_console) = []" by (simp add: sample_console_def)
  ultimately have "\<exists>d new. content sample_file (os_files (cs_os c')) = Some (d, True) \<and> decode_config one_yaml d = Inr new"
    using config_commands_refine [OF c', of p] a p by auto
  then show ?thesis using c' sample_decodes by auto
qed

theorem list_redacts_witness:
  "list_table (\<lambda>_. ''x'') (sample_config\<lparr>cf_Models := [sample_model\<lparr>mc_APIKey := ''other''\<rparr>]\<rparr>) = list_table (\<lambda>_. ''x'') sample_config"
  by (rule list_redacts) (simp_all add: sample_config_def same_but_keys_def)

end
