(* ===== verification/Go_Duration.thy ===== *)
theory Go_Duration
  imports Go_Time
begin

text \<open>\<open>Duration.String\<close>, of a duration in nanoseconds.\<close>

definition fraction_text :: "nat \<Rightarrow> nat \<Rightarrow> string" where
  "fraction_text w n = (let f = trim_zeros (pad w n) in if f = [] then [] else ''.'' @ f)"

definition duration_text :: "int \<Rightarrow> string" where
  "duration_text d =
     (let u = nat \<bar>d\<bar>; s = u div 1000000000; sign = (if d < 0 then ''-'' else []) in
      if u = 0 then ''0s''
      else if u < 1000 then sign @ show_nat u @ ''ns''
      else if u < 1000000 then sign @ show_nat (u div 1000) @ fraction_text 3 (u mod 1000) @ [CHR 0xC2, CHR 0xB5] @ ''s''
      else if u < 1000000000 then sign @ show_nat (u div 1000000) @ fraction_text 6 (u mod 1000000) @ ''ms''
      else sign @ (if 3600 \<le> s then show_nat (s div 3600) @ ''h'' else []) @ (if 60 \<le> s then show_nat (s div 60 mod 60) @ ''m'' else [])
        @ show_nat (s mod 60) @ fraction_text 9 (u mod 1000000000) @ ''s'')"

lemma pad_numeral: "pad (numeral k) n = pad (pred_numeral k) (n div 10) @ [digit n]"
  by (simp only: numeral_eq_Suc pad.simps)

lemma digit_chars: "mk_byte 48 = CHR ''0''" "mk_byte 49 = CHR ''1''" "mk_byte 50 = CHR ''2''" "mk_byte 51 = CHR ''3''" "mk_byte 53 = CHR ''5''"
  by code_simp+

lemma durations: "duration_text 10000000000 = ''10s''" "duration_text 1500000000 = ''1.5s''" "duration_text 50000000 = ''50ms''"
  "duration_text 3723000000000 = ''1h2m3s''"
  by (simp_all add: duration_text_def fraction_text_def trim_zeros_def digit_def show_nat.simps pad_numeral digit_chars)

end
