(* ===== verification/Daemon_Control.thy ===== *)
theory Daemon_Control
  imports Daemon_State Go_Duration
begin

text \<open>
  How another process talks to the daemon: \<open>daemon/http_client.go\<close>, the health probe of
  \<open>daemon/health.go\<close>, the two control requests of \<open>daemon/provider_environment.go\<close> and
  \<open>daemon/shutdown.go\<close> with the handlers that serve them, and the environment of provider secrets
  that one of them updates. A map is the list of its entries, with every key once.
\<close>

section \<open>The client\<close>

text \<open>TLS and HTTP are parameters: whether a pool takes the certificates, and the answer to a request.\<close>

record http_client =
  hc_Roots :: bytes
  hc_Timeout :: int

record control_request =
  ct_Method :: string
  ct_URL :: string
  ct_Headers :: "(string \<times> string) list"
  ct_Body :: bytes

record control_answer =
  ca_Status :: int
  ca_Body :: reader

record network =
  net_Certificates :: "bytes \<Rightarrow> bool"
  net_Do :: "http_client \<Rightarrow> control_request \<Rightarrow> control_answer result"

definition maxDaemonCACertificateBytes :: nat where "maxDaemonCACertificateBytes = 1048576"

definition newDaemonHTTPClient :: "os_env \<Rightarrow> network \<Rightarrow> State \<Rightarrow> int \<Rightarrow> http_client io" where
  "newDaemonHTTPClient env net s timeout =
     io_then (Wrapf ''validate daemon state: '') (io_lift (State_Validate s)) (\<lambda>_.
     io_then (Wrapf ''inspect CA certificate: '') (os_Lstat env (ds_CACertPath s)) (\<lambda>info.
       if (case info of File _ d _ \<Rightarrow> maxDaemonCACertificateBytes < length d | _ \<Rightarrow> True) then
         io_fail (Errorf ''CA certificate file is invalid'')
       else io_then (Wrapf ''read CA certificate: '') (os_ReadFile env (ds_CACertPath s)) (\<lambda>caPEM.
         if \<not> net_Certificates net caPEM then io_fail (Errorf ''parse CA certificate'')
         else io_return \<lparr> hc_Roots = caPEM, hc_Timeout = (if timeout \<le> 0 then 1000000000 else timeout) \<rparr>)))"

text \<open>
  A request over a new client, with the error texts of the caller. The second function bounds what
  is read of the answer.
\<close>

definition daemon_Do :: "os_env \<Rightarrow> network \<Rightarrow> string \<Rightarrow> State \<Rightarrow> int \<Rightarrow> control_request \<Rightarrow> control_answer io" where
  "daemon_Do env net label s timeout request =
     io_then (Wrapf label) (newDaemonHTTPClient env net s timeout) (\<lambda>client.
       if url_Parse (ct_URL request) = None then io_fail (Wrapf (label @ ''create request: '') (Errorf ''invalid URL''))
       else io_then (Wrapf (label @ ''request failed: '')) (io_lift (net_Do net client request)) io_return)"

definition bounded_body :: "(goerror \<Rightarrow> goerror) \<Rightarrow> string \<Rightarrow> nat \<Rightarrow> control_answer \<Rightarrow> bytes result" where
  "bounded_body problem label maximum response = (case read_limited (ca_Body response) (int maximum + 1) of
     Inl e \<Rightarrow> Inl (problem e)
   | Inr body \<Rightarrow> if maximum < length body then Inl (Errorf (label @ ''response is too large'')) else Inr body)"

section \<open>The health probe\<close>

definition maxHealthResponseBytes :: nat where "maxHealthResponseBytes = 8192"

definition check_health :: "State \<Rightarrow> bytes \<Rightarrow> unit result" where
  "check_health s body =
     (let problem = (\<lambda>p. Inl (Errorf (''probe daemon health: '' @ p)));
          fields = strict_fields [''status'', ''instance_id'', ''daemon_version''] body;
          get = (\<lambda>name. Option.bind fields (stringField name)) in
      case (get ''status'', get ''instance_id'', get ''daemon_version'') of
        (Some status, Some instanceID, Some daemonVersion) \<Rightarrow>
          if status \<noteq> ''ok'' then problem ''daemon is not healthy''
          else if instanceID \<noteq> ds_InstanceID s then problem ''instance ID mismatch''
          else if daemonVersion \<noteq> ds_DaemonVersion s then problem ''daemon version mismatch''
          else Inr ()
      | _ \<Rightarrow> problem ''decode response'')"

definition HTTPProbe_Check :: "os_env \<Rightarrow> network \<Rightarrow> int \<Rightarrow> bool \<Rightarrow> State \<Rightarrow> unit io" where
  "HTTPProbe_Check env net timeout has_context s =
     (if \<not> has_context then io_fail (Errorf ''probe daemon health: context is required'')
      else io_then id (daemon_Do env net ''probe daemon health: '' s timeout
          \<lparr> ct_Method = ''GET'', ct_URL = EndpointURL s @ ''/healthz'', ct_Headers = [], ct_Body = [] \<rparr>) (\<lambda>response.
        if ca_Status response \<noteq> 200 then
          io_fail (Errorf (''probe daemon health: unexpected status '' @ show_int (ca_Status response)))
        else io_lift (try_then (bounded_body (Wrapf ''probe daemon health: read response: '') ''probe daemon health: '' maxHealthResponseBytes response)
          (check_health s))))"

section \<open>The secrets of the providers\<close>

definition ProviderEnvironmentPath :: string where
  "ProviderEnvironmentPath = ''/cursor-cli-byok.v1.Control/ProviderEnvironment''"

definition maxProviderEnvironmentBodyBytes :: nat where "maxProviderEnvironmentBodyBytes = 65536"
definition maxProviderSecretBytes :: nat where "maxProviderSecretBytes = 16384"
definition maxProviderEnvironmentResponse :: nat where "maxProviderEnvironmentResponse = 8192"

record ProviderEnvironment =
  pe_fallback :: "string \<Rightarrow> string"
  pe_overrides :: environment

definition NewProviderEnvironment :: "(string \<Rightarrow> string) option \<Rightarrow> ProviderEnvironment" where
  "NewProviderEnvironment fallback = \<lparr> pe_fallback = (case fallback of None \<Rightarrow> \<lambda>_. [] | Some f \<Rightarrow> f), pe_overrides = [] \<rparr>"

definition ProviderEnvironment_Getenv :: "ProviderEnvironment option \<Rightarrow> string \<Rightarrow> string" where
  "ProviderEnvironment_Getenv environment name = (case environment of
     None \<Rightarrow> []
   | Some e \<Rightarrow> (case map_of (pe_overrides e) name of Some v \<Rightarrow> v | None \<Rightarrow> pe_fallback e name))"

definition ProviderEnvironment_Update :: "environment \<Rightarrow> ProviderEnvironment option \<Rightarrow> ProviderEnvironment option" where
  "ProviderEnvironment_Update values = map_option (\<lambda>e.
     e\<lparr>pe_overrides := foldl (\<lambda>o' (name, v). env_set name v o') (pe_overrides e) values\<rparr>)"

definition ProviderEnvironment_String :: "ProviderEnvironment option \<Rightarrow> string" where
  "ProviderEnvironment_String environment = ''ProviderEnvironment{overrides:''
     @ show_nat (case environment of None \<Rightarrow> 0 | Some e \<Rightarrow> length (pe_overrides e)) @ ''}''"

definition validProviderSecret :: "string \<Rightarrow> bool" where
  "validProviderSecret v \<longleftrightarrow> v \<noteq> [] \<and> length v \<le> maxProviderSecretBytes \<and> v = trimSpace v \<and> \<not> hasControl v"

text \<open>Decoding into a map of strings: \<open>null\<close> makes the map nil, and a member that is \<open>null\<close> has the value \<open>""\<close>.\<close>

fun set_entries :: "environment \<Rightarrow> json \<Rightarrow> environment option" where
  "set_entries a (JObj ms) = foldl (\<lambda>acc (k, _, v). Option.bind acc (\<lambda>a.
     map_option (\<lambda>s. env_set k s a) (set_string [] v))) (Some a) ms"
| "set_entries a JNull = Some []"
| "set_entries a _ = None"

definition provider_values :: "reader \<Rightarrow> environment option" where
  "provider_values body =
     (if rd_err body \<noteq> IO_EOF \<or> maxProviderEnvironmentBodyBytes < length (rd_data body) then None
      else Option.bind (strict_fields [''values''] (rd_data body)) (fold_field set_entries ''values'' []))"

definition allowed_names :: "Config \<Rightarrow> string list" where
  "allowed_names cfg = filter (\<lambda>n. n \<noteq> []) (map mc_APIKeyEnv (cf_Models cfg))"

text \<open>The handler: its answer, and the values it updates the environment with. \<open>has_update\<close> is whether the function is there.\<close>

definition providerEnvironment_ServeHTTP :: "ConfigLoader \<Rightarrow> bool \<Rightarrow> http_request \<Rightarrow> http_response \<times> environment option" where
  "providerEnvironment_ServeHTTP load has_update request =
     (let invalid = (http_Error [] ''invalid provider environment request'' 400, None);
          unavailable = (http_Error [] ''provider environment unavailable'' 503, None) in
      if hq_Method request \<noteq> ''POST'' then (http_Error [(''Allow'', ''POST'')] ''method not allowed'' 405, None)
      else if ParseMediaType (hq_ContentType request) \<noteq> Some ''application/json'' then invalid
      else (case load of None \<Rightarrow> unavailable | Some loaded \<Rightarrow>
        if \<not> has_update then unavailable
        else (case provider_values (hq_Body request) of None \<Rightarrow> invalid | Some values \<Rightarrow>
          (case loaded of Inl e \<Rightarrow> unavailable | Inr cfg \<Rightarrow>
            if Config_Validate cfg \<noteq> Inr () then unavailable
            else if values = [] then invalid
            else if list_ex (\<lambda>(name, v). name \<notin> set (allowed_names cfg) \<or> \<not> validProviderSecret v) values then invalid
            else (\<lparr> hr_Status = 204, hr_Headers = [(''Cache-Control'', ''no-store'')], hr_Body = [] \<rparr>, Some values)))))"

definition encodeProviderEnvironment :: "environment \<Rightarrow> bytes result" where
  "encodeProviderEnvironment values =
     (let d = json_object [(''values'', json_object (sort_key fst (map (\<lambda>(k, v). (k, json_quote v)) values)))] in
      if maxProviderEnvironmentBodyBytes < length d then Inl (Errorf ''encode provider environment: request is too large'') else Inr d)"

definition control_headers :: "State \<Rightarrow> (string \<times> string) list" where
  "control_headers s = [(''Authorization'', ''Bearer '' @ ds_AuthToken s), (''Cache-Control'', ''no-store'')]"

definition expect_no_content :: "string \<Rightarrow> nat \<Rightarrow> control_answer \<Rightarrow> unit result" where
  "expect_no_content label maximum response =
     try_then (bounded_body (\<lambda>_. Errorf (label @ ''read response'')) label maximum response) (\<lambda>_.
       if ca_Status response \<noteq> 204 then Inl (Errorf (label @ ''unexpected status '' @ show_int (ca_Status response))) else Inr ())"

definition sync_request :: "State \<Rightarrow> bytes \<Rightarrow> control_request" where
  "sync_request s d = \<lparr> ct_Method = ''POST'', ct_URL = EndpointURL s @ ProviderEnvironmentPath,
     ct_Headers = (''Content-Type'', ''application/json'') # control_headers s, ct_Body = d \<rparr>"

definition SyncProviderEnvironment :: "os_env \<Rightarrow> network \<Rightarrow> bool \<Rightarrow> State \<Rightarrow> environment \<Rightarrow> int \<Rightarrow> unit io" where
  "SyncProviderEnvironment env net has_context s values timeout =
     (let label = ''sync provider environment: '' in
      if \<not> has_context then io_fail (Errorf (label @ ''context is required''))
      else if values = [] then io_return ()
      else io_then (Wrapf label) (io_lift (encodeProviderEnvironment values)) (\<lambda>d.
        io_then id (daemon_Do env net label s timeout (sync_request s d)) (\<lambda>response.
        io_lift (expect_no_content label maxProviderEnvironmentResponse response))))"

section \<open>Shutdown\<close>

definition ShutdownPath :: string where "ShutdownPath = ''/cursor-cli-byok.v1.Control/Shutdown''"
definition maxShutdownResponseBytes :: nat where "maxShutdownResponseBytes = 8192"

text \<open>The answer, and whether the function is called.\<close>

definition shutdown_ServeHTTP :: "bool \<Rightarrow> http_request \<Rightarrow> http_response \<times> bool" where
  "shutdown_ServeHTTP has_shutdown request =
     (if hq_Method request \<noteq> ''POST'' then (http_Error [(''Allow'', ''POST'')] ''method not allowed'' 405, False)
      else if \<not> has_shutdown then (http_Error [] ''shutdown unavailable'' 503, False)
      else if rd_err (hq_Body request) \<noteq> IO_EOF \<or> rd_data (hq_Body request) \<noteq> [] then (http_Error [] ''invalid shutdown request'' 400, False)
      else (\<lparr> hr_Status = 204, hr_Headers = [(''Cache-Control'', ''no-store'')], hr_Body = [] \<rparr>, True))"

definition ShutdownService :: "os_env \<Rightarrow> network \<Rightarrow> bool \<Rightarrow> State \<Rightarrow> int \<Rightarrow> unit io" where
  "ShutdownService env net has_context s timeout =
     (let label = ''shutdown daemon service: '' in
      if \<not> has_context then io_fail (Errorf (label @ ''context is required''))
      else io_then id (daemon_Do env net label s timeout
          \<lparr> ct_Method = ''POST'', ct_URL = EndpointURL s @ ShutdownPath, ct_Headers = control_headers s, ct_Body = [] \<rparr>) (\<lambda>response.
        io_lift (expect_no_content label maxShutdownResponseBytes response)))"

section \<open>Texts that are read back\<close>

lemma object_text:
  assumes "\<forall>(k, tx, v)\<in>set ms. validUTF8 k \<and> value_text (Suc d) tx v" and "d < max_nesting"
  shows "value_text d (json_object (map (\<lambda>(k, tx, v). (k, tx)) ms)) (JObj ms)"
  unfolding value_text_def
proof (intro conjI allI impI)
  show "json_object (map (\<lambda>(k, tx, v). (k, tx)) ms) \<noteq> []" "\<not> is_ws (hd (json_object (map (\<lambda>(k, tx, v). (k, tx)) ms)))"
    by (simp_all add: json_object_def is_ws_def)
  fix x t
  show "\<exists>n. json_value n d (json_object (map (\<lambda>(k, tx, v). (k, tx)) ms) @ x # t) = Some (JObj ms, x # t)"
  proof (cases "ms = []")
    case True
    then show ?thesis using assms(2) by (intro exI [of _ 1]) (simp add: json_object_def skip_ws_def is_ws_def)
  next
    case False
    let ?body = "join '','' (map (\<lambda>(k, tx, v). json_quote k @ '':'' @ tx) ms) @ CHR ''}'' # x # t"
    obtain n where n: "json_members n (Suc d) ?body = Some (ms, x # t)"
      using json_members_join [OF False assms(1)] by blast
    obtain k tx v ms' where ms: "ms = (k, tx, v) # ms'" using False by (cases ms) auto
    have "\<exists>r. ?body = quote_char # r"
      unfolding ms by (cases ms') (simp_all add: json_quote_def)
    then obtain r where r: "?body = quote_char # r" by blast
    have "json_value (Suc n) d (CHR ''{'' # ?body) = Some (JObj ms, x # t)"
      using n assms(2) unfolding r by (simp add: skip_ws_def is_ws_def not_le)
    then show ?thesis by (intro exI [of _ "Suc n"]) (simp add: json_object_def comp_def case_prod_unfold)
  qed
qed

lemma strict_fields_line:
  assumes "\<forall>(k, tx, v)\<in>set ms. validUTF8 k \<and> value_text 1 tx v" and "fst ` set ms \<subseteq> set names"
  shows "strict_fields names (json_object (map (\<lambda>(k, tx, v). (k, tx)) ms) @ [newline]) = Some ms"
proof -
  have "json_single (json_object (map (\<lambda>(k, tx, v). (k, tx)) ms) @ [newline]) = Some (JObj ms)"
    using json_object_parse [OF assms(1), of "[newline]"] by (simp add: json_single_def skip_ws_def is_ws_def newline_def)
  moreover have "json_single (json_object (map (\<lambda>(k, tx, v). (k, tx)) ms)) = Some (JObj ms)" by (rule json_object_single [OF assms(1)])
  ultimately show ?thesis using strict_fields_object [OF assms] by (simp add: strict_fields_def)
qed

lemma health_body:
  assumes "validUTF8 i" "validUTF8 v" "hq_Method request = ''GET''"
  shows "check_health s (hr_Body (healthHandler i v request)) = Inr () \<longleftrightarrow> i = ds_InstanceID s \<and> v = ds_DaemonVersion s"
proof -
  let ?ms = "[(''status'', json_quote ''ok'', JStr ''ok''), (''instance_id'', json_quote i, JStr i), (''daemon_version'', json_quote v, JStr v)]"
  have "strict_fields [''status'', ''instance_id'', ''daemon_version''] (hr_Body (healthHandler i v request)) = Some ?ms"
    using strict_fields_line [of ?ms "[''status'', ''instance_id'', ''daemon_version'']"] assms
    by (simp add: healthHandler_def value_text_quoted ascii_utf8)
  then show ?thesis by (simp add: check_health_def stringField_def Let_def)
qed

lemma set_all_fresh:
  "distinct (map fst kvs) \<Longrightarrow> fst ` set a \<inter> fst ` set kvs = {} \<Longrightarrow> foldl (\<lambda>a (k, v). env_set k v a) a kvs = a @ kvs"
proof (induction kvs arbitrary: a)
  case (Cons e kvs)
  obtain k v where e: "e = (k, v)" by (cases e)
  have "env_set k v a = a @ [(k, v)]" using Cons.prems e by (auto simp: env_set_def env_delete_def filter_id_conv)
  moreover have "fst ` set (a @ [(k, v)]) \<inter> fst ` set kvs = {}" using Cons.prems e by auto
  ultimately show ?case using Cons.IH [of "a @ [(k, v)]"] Cons.prems(1) e by simp
qed simp

lemma set_entries_strings:
  "foldl (\<lambda>acc (k, _, v). Option.bind acc (\<lambda>a. map_option (\<lambda>s. env_set k s a) (set_string [] v))) (Some a)
     (map (\<lambda>(k, v). (k, json_quote v, JStr v)) kvs) = Some (foldl (\<lambda>a (k, v). env_set k v a) a kvs)"
  by (induction kvs arbitrary: a) auto

lemma encoded_values:
  assumes enc: "encodeProviderEnvironment values = Inr d" and dist: "distinct (map fst values)"
    and utf8: "list_all (\<lambda>(k, v). validUTF8 k \<and> validUTF8 v) values"
  shows "provider_values \<lparr> rd_data = d, rd_err = IO_EOF \<rparr> = Some (sort_key fst values)"
proof -
  let ?kvs = "sort_key fst values"
  let ?ms = "map (\<lambda>(k, v). (k, json_quote v, JStr v)) ?kvs"
  have inner: "\<forall>(k, tx, v)\<in>set ?ms. validUTF8 k \<and> value_text 2 tx v"
    using utf8 by (auto simp: list_all_iff value_text_quoted)
  have "value_text 1 (json_object (map (\<lambda>(k, tx, v). (k, tx)) ?ms)) (JObj ?ms)"
    by (rule object_text) (use inner in \<open>simp_all add: max_nesting_def numeral_2_eq_2\<close>)
  moreover have raw: "map (\<lambda>(k, tx, v). (k, tx)) ?ms = sort_key fst (map (\<lambda>(k, v). (k, json_quote v)) values)"
    unfolding sort_key_map by (simp add: comp_def case_prod_unfold)
  ultimately have outer: "value_text 1 (json_object (sort_key fst (map (\<lambda>(k, v). (k, json_quote v)) values))) (JObj ?ms)" by simp
  have d: "d = json_object (map (\<lambda>(k, tx, v). (k, tx)) [(''values'', json_object (sort_key fst (map (\<lambda>(k, v). (k, json_quote v)) values)), JObj ?ms)])"
    and len: "length d \<le> maxProviderEnvironmentBodyBytes"
    using enc by (auto simp: encodeProviderEnvironment_def Let_def split: if_splits)
  have fields: "strict_fields [''values''] d = Some [(''values'', json_object (sort_key fst (map (\<lambda>(k, v). (k, json_quote v)) values)), JObj ?ms)]"
    unfolding d by (rule strict_fields_object) (use outer in \<open>simp_all add: ascii_utf8\<close>)
  have "distinct (map fst ?kvs)" using dist by (simp add: distinct_map)
  then have "set_entries [] (JObj ?ms) = Some ?kvs" by (simp add: set_entries_strings set_all_fresh)
  then show ?thesis using fields len by (simp add: provider_values_def)
qed

section \<open>What the daemon accepts, and what it then knows\<close>

text \<open>A request as it reaches the daemon of the state \<open>s\<close>, and a network on which a handler answers.\<close>

definition deliver :: "State \<Rightarrow> control_request \<Rightarrow> http_request" where
  "deliver s r = \<lparr> hq_Method = ct_Method r, hq_Path = drop (length (EndpointURL s)) (ct_URL r),
     hq_ContentType = (case map_of (ct_Headers r) ''Content-Type'' of Some v \<Rightarrow> v | None \<Rightarrow> []),
     hq_Body = \<lparr> rd_data = ct_Body r, rd_err = IO_EOF \<rparr> \<rparr>"

definition answered :: "http_response \<Rightarrow> control_answer" where
  "answered h = \<lparr> ca_Status = hr_Status h, ca_Body = \<lparr> rd_data = hr_Body h, rd_err = IO_EOF \<rparr> \<rparr>"

definition serves :: "network \<Rightarrow> State \<Rightarrow> (http_request \<Rightarrow> http_response) \<Rightarrow> bool" where
  "serves net s handler \<longleftrightarrow> (\<forall>c r. net_Do net c r = Inr (answered (handler (deliver s r))))"

lemma daemon_Do_served:
  assumes "newDaemonHTTPClient env net s timeout w = (Inr c, w')" "serves net s handler" "url_Parse (ct_URL r) \<noteq> None"
  shows "daemon_Do env net label s timeout r w = (Inr (answered (handler (deliver s r))), w')"
  using assms by (auto simp: daemon_Do_def io_then_def io_lift_def io_return_def serves_def)

lemma read_answer: "bounded_body problem label n (answered h) =
    (if n < length (hr_Body h) then Inl (Errorf (label @ ''response is too large'')) else Inr (hr_Body h))"
  by (auto simp: bounded_body_def answered_def read_limited_def)

text \<open>the secrets of the providers reach only a daemon that asked for them by name. Whatever request the handler gets, it
  hands values on only when the request is a POST of JSON, the configuration is valid, and every value is
  nonempty, printable, of at most 16 KiB and named by \<open>api_key_env\<close> of a configured model; otherwise it
  answers with an error and changes nothing.\<close>

theorem provider_secrets_guarded:
  assumes "providerEnvironment_ServeHTTP load has_update request = (response, updated)"
  shows "(case updated of
      None \<Rightarrow> 400 \<le> hr_Status response
    | Some values \<Rightarrow> hr_Status response = 204 \<and> hq_Method request = ''POST'' \<and> values \<noteq> []
        \<and> (\<exists>cfg. load = Some (Inr cfg) \<and> Config_Validate cfg = Inr () \<and> (\<forall>(name, v) \<in> set values.
            (\<exists>m \<in> set (cf_Models cfg). mc_APIKeyEnv m = name) \<and> name \<noteq> [] \<and> v \<noteq> [] \<and> length v \<le> 16384 \<and> v = trimSpace v \<and> \<not> hasControl v)))"
proof -
  have name: "n \<in> set (allowed_names cfg) \<longleftrightarrow> (\<exists>m \<in> set (cf_Models cfg). mc_APIKeyEnv m = n) \<and> n \<noteq> []" for cfg :: Config and n
    by (auto simp: allowed_names_def)
  have all: "list_ex (\<lambda>(name, v). name \<notin> set (allowed_names cfg) \<or> \<not> validProviderSecret v) values \<longleftrightarrow>
      \<not> (\<forall>(name, v) \<in> set values. (\<exists>m \<in> set (cf_Models cfg). mc_APIKeyEnv m = name) \<and> name \<noteq> [] \<and> v \<noteq> [] \<and> length v \<le> 16384
        \<and> v = trimSpace v \<and> \<not> hasControl v)" for cfg :: Config and "values" :: environment
    by (simp add: list_ex_iff name validProviderSecret_def maxProviderSecretBytes_def case_prod_unfold Bex_def imp_conjL)
  show ?thesis
    using assms unfolding providerEnvironment_ServeHTTP_def Let_def all
    by (auto simp: http_Error_def split: if_splits option.splits sum.splits)
qed

text \<open>C28: What becomes of the secrets that are sent to a daemon. The request reaches the daemon of the state, whose configuration
  is valid and whose network answers it with its own handler; it carries at least one value, its texts are valid UTF-8 and its encoding fits
  into 64 KiB. If every value is nonempty, of at most 16 KiB, without surrounding white space and control characters, and named by
  \<open>api_key_env\<close> of a configured model, the sync succeeds, the handler updates the environment, and from then on a lookup gives
  the new value of every variable sent and the old one of every other. If one value is not, a key with a space at its end among
  them, the sync fails and nothing is updated.\<close>

theorem provider_secrets_synced:
  assumes client: "newDaemonHTTPClient env net s timeout w = (Inr c, w')" and url: "url_Parse (ct_URL (sync_request s d)) \<noteq> None"
    and serves: "serves net s (\<lambda>request. fst (providerEnvironment_ServeHTTP (Some (Inr cfg)) True request))"
    and enc: "encodeProviderEnvironment values = Inr d" and ne: "values \<noteq> []" and dist: "distinct (map fst values)"
    and cfg: "Config_Validate cfg = Inr ()"
    and utf8: "list_all (\<lambda>(name, v). validUTF8 name \<and> validUTF8 v) values"
  shows "if \<forall>(name, v) \<in> set values. (\<exists>m \<in> set (cf_Models cfg). mc_APIKeyEnv m = name) \<and> name \<noteq> []
        \<and> v \<noteq> [] \<and> length v \<le> 16384 \<and> trimSpace v = v \<and> \<not> hasControl v
    then SyncProviderEnvironment env net True s values timeout w = (Inr (), w')
      \<and> (\<exists>updated. snd (providerEnvironment_ServeHTTP (Some (Inr cfg)) True (deliver s (sync_request s d))) = Some updated
        \<and> (\<forall>e name. ProviderEnvironment_Getenv (ProviderEnvironment_Update updated (Some e)) name
            = (case map_of values name of Some v \<Rightarrow> v | None \<Rightarrow> ProviderEnvironment_Getenv (Some e) name)))
    else (\<exists>e. SyncProviderEnvironment env net True s values timeout w = (Inl e, w'))
      \<and> snd (providerEnvironment_ServeHTTP (Some (Inr cfg)) True (deliver s (sync_request s d))) = None"
proof -
  let ?kvs = "sort_key fst values" and ?ok = "\<lparr> hr_Status = 204, hr_Headers = [(''Cache-Control'', ''no-store'')], hr_Body = [] \<rparr>"
    and ?bad = "http_Error [] ''invalid provider environment request'' 400"
    and ?fine = "\<forall>(name, v) \<in> set values. (\<exists>m \<in> set (cf_Models cfg). mc_APIKeyEnv m = name) \<and> name \<noteq> []
        \<and> v \<noteq> [] \<and> length v \<le> 16384 \<and> trimSpace v = v \<and> \<not> hasControl v"
  have one: "name \<in> set (allowed_names cfg) \<and> validProviderSecret v \<longleftrightarrow> (\<exists>m \<in> set (cf_Models cfg). mc_APIKeyEnv m = name) \<and> name \<noteq> []
      \<and> v \<noteq> [] \<and> length v \<le> 16384 \<and> trimSpace v = v \<and> \<not> hasControl v" for name v
    by (auto simp: allowed_names_def validProviderSecret_def maxProviderSecretBytes_def)
  have "provider_values (hq_Body (deliver s (sync_request s d))) = Some ?kvs"
    using encoded_values [OF enc dist] utf8 by (simp add: deliver_def sync_request_def list_all_iff case_prod_unfold)
  moreover have "?kvs \<noteq> []" using ne by (metis set_empty set_sort)
  moreover have "?fine \<longleftrightarrow> (\<forall>(name, v)\<in>set values. name \<in> set (allowed_names cfg) \<and> validProviderSecret v)"
    by (simp only: one)
  then have "list_ex (\<lambda>(name, v). name \<notin> set (allowed_names cfg) \<or> \<not> validProviderSecret v) ?kvs \<longleftrightarrow> \<not> ?fine"
    by (simp only: list_ex_iff set_sort) (simp add: case_prod_unfold)
  moreover have "ParseMediaType ''application/json'' = Some ''application/json''" by (simp add: media_eval Let_def)
  ultimately have handled: "providerEnvironment_ServeHTTP (Some (Inr cfg)) True (deliver s (sync_request s d))
      = (if ?fine then (?ok, Some ?kvs) else (?bad, None))"
    using cfg unfolding providerEnvironment_ServeHTTP_def by (simp add: deliver_def sync_request_def Let_def)
  have "daemon_Do env net l s timeout (sync_request s d) w = (Inr (answered (if ?fine then ?ok else ?bad)), w')" for l
    using daemon_Do_served [OF client serves url] by (simp add: handled if_distrib cong: if_cong)
  moreover have "expect_no_content l n (answered ?ok) = Inr ()" for l n
    by (simp add: expect_no_content_def read_answer) (simp add: answered_def)
  moreover obtain e where "expect_no_content ''sync provider environment: '' maxProviderEnvironmentResponse (answered ?bad) = Inl e"
    by (cases "expect_no_content ''sync provider environment: '' maxProviderEnvironmentResponse (answered ?bad)")
      (simp_all add: expect_no_content_def read_answer maxProviderEnvironmentResponse_def try_then_Inr_iff, simp_all add: answered_def http_Error_def)
  ultimately have "if ?fine then SyncProviderEnvironment env net True s values timeout w = (Inr (), w')
      else SyncProviderEnvironment env net True s values timeout w = (Inl e, w')"
    using ne enc by (simp add: SyncProviderEnvironment_def io_then_def io_lift_def io_return_def io_fail_def Let_def)
  moreover have "map_of ?kvs = map_of values" "distinct (map fst ?kvs)"
    using dist by (auto simp: distinct_map intro!: map_of_eqI)
  ultimately show ?thesis using handled map_of_set_all [of ?kvs]
    by (simp add: ProviderEnvironment_Getenv_def ProviderEnvironment_Update_def split: option.split)
qed

text \<open>the probe identifies the daemon. Asked for the health of the daemon of the state, whatever daemon answers
  at its address, the probe succeeds exactly when that daemon has the instance ID and the version the state
  was published with.\<close>

theorem probe_identifies_daemon:
  assumes client: "newDaemonHTTPClient env net s timeout w = (Inr c, w')" and url: "url_Parse (EndpointURL s @ ''/healthz'') \<noteq> None"
    and serves: "serves net s (healthHandler instanceID daemonVersion)"
    and utf8: "validUTF8 instanceID" "validUTF8 daemonVersion"
    and small: "length (hr_Body (healthHandler instanceID daemonVersion request)) \<le> 8192" "hq_Method request = ''GET''"
  shows "fst (HTTPProbe_Check env net timeout True s w) = Inr ()
    \<longleftrightarrow> instanceID = ds_InstanceID s \<and> daemonVersion = ds_DaemonVersion s"
proof -
  let ?r = "\<lparr> ct_Method = ''GET'', ct_URL = EndpointURL s @ ''/healthz'', ct_Headers = [], ct_Body = [] \<rparr>"
  let ?a = "healthHandler instanceID daemonVersion (deliver s ?r)"
  have get: "hq_Method (deliver s ?r) = ''GET''" by (simp add: deliver_def)
  then have same: "?a = healthHandler instanceID daemonVersion request" using small(2) by (simp add: healthHandler_def)
  have ok: "hr_Status ?a = 200" using get by (simp add: healthHandler_def)
  have "daemon_Do env net l s timeout ?r w = (Inr (answered ?a), w')" for l
    using daemon_Do_served [OF client serves, of ?r] url by simp
  moreover have "bounded_body p l maxHealthResponseBytes (answered ?a) = Inr (hr_Body ?a)" for p l
    using small(1) by (simp add: read_answer same maxHealthResponseBytes_def)
  ultimately have "HTTPProbe_Check env net timeout True s w = io_lift (check_health s (hr_Body ?a)) w'"
    using ok by (simp add: HTTPProbe_Check_def io_then_def answered_def)
  then have "fst (HTTPProbe_Check env net timeout True s w) = check_health s (hr_Body ?a)"
    by (simp add: io_lift_def io_fail_def io_return_def split: sum.split)
  then show ?thesis using health_body [OF utf8 get] by simp
qed

section \<open>Concrete requests\<close>

lemma instance_id_plain: "instanceIDPattern i \<Longrightarrow> list_all plain_char i"
proof -
  have "is_digit c \<Longrightarrow> plain_char c" for c by (auto simp: is_digit_def plain_char_def html_unsafe_def)
  moreover have "c \<in> set ''abcdef'' \<Longrightarrow> plain_char c" for c by (auto simp: plain_char_def html_unsafe_def)
  ultimately show "instanceIDPattern i \<Longrightarrow> list_all plain_char i"
    unfolding instanceIDPattern_def by (auto simp only: list_all_iff)
qed

definition sample_network :: "(http_request \<Rightarrow> http_response) \<Rightarrow> network" where
  "sample_network handler = \<lparr> net_Certificates = \<lambda>_. True, net_Do = \<lambda>_ r. Inr (answered (handler (deliver sample_state r))) \<rparr>"

definition sample_ca :: os where
  "sample_ca = \<lparr> os_files = [(''/ca'', File 384 ''pem'' True)], os_calls = 0, os_failed = 0, os_seen = [] \<rparr>"

lemma sample_serves: "serves (sample_network handler) sample_state handler"
  by (simp add: serves_def sample_network_def)

lemma sample_client: "\<exists>c w'. newDaemonHTTPClient calm (sample_network handler) sample_state 1 sample_ca = (Inr c, w')"
proof -
  have "follow 40 fs ''/ca'' = Some ''/ca''" if "node_at fs ''/ca'' = Some (File m d s)" for fs m d s
    using that by (simp add: numeral_eq_Suc)
  moreover have "node_at [(''/ca'', n)] ''/ca'' = Some n" for n by (simp add: node_at_def)
  moreover have "ds_CACertPath sample_state = ''/ca''" by (simp add: sample_state_def)
  ultimately show ?thesis
    by (simp add: newDaemonHTTPClient_def sample_state_valid os_eval os_Lstat_def os_ReadFile_def sample_ca_def sample_network_def
        maxDaemonCACertificateBytes_def)
qed

lemma sample_urls:
  "url_Parse (EndpointURL sample_state @ ''/healthz'') \<noteq> None" "url_Parse (EndpointURL sample_state @ ProviderEnvironmentPath) \<noteq> None"
proof -
  have "mk_byte 52 = CHR ''4''" by code_simp
  then have "EndpointURL sample_state = ''https://127.0.0.1:4000''" by (simp add: EndpointURL_def sample_state_def show_int_def show_nat.simps digit_chars)
  then show "url_Parse (EndpointURL sample_state @ ''/healthz'') \<noteq> None" "url_Parse (EndpointURL sample_state @ ProviderEnvironmentPath) \<noteq> None"
    by (simp_all add: ProviderEnvironmentPath_def url_eval)
qed

theorem provider_secrets_guarded_witness:
  "400 \<le> hr_Status (fst (providerEnvironment_ServeHTTP None True (deliver sample_state (sync_request sample_state []))))"
proof -
  have "ParseMediaType ''application/json'' = Some ''application/json''" by (simp add: media_eval Let_def)
  then have r: "providerEnvironment_ServeHTTP None True (deliver sample_state (sync_request sample_state []))
      = (http_Error [] ''provider environment unavailable'' 503, None)"
    by (simp add: providerEnvironment_ServeHTTP_def deliver_def sync_request_def Let_def)
  show ?thesis using provider_secrets_guarded [OF r] by (simp only: r option.case fst_conv)
qed

theorem provider_secrets_synced_witness:
  "\<exists>d updated. encodeProviderEnvironment [(''KEY'', ''k'')] = Inr d
    \<and> snd (providerEnvironment_ServeHTTP (Some (Inr sample_config)) True (deliver sample_state (sync_request sample_state d))) = Some updated
    \<and> ProviderEnvironment_Getenv (ProviderEnvironment_Update updated (Some (NewProviderEnvironment None))) ''KEY'' = ''k''"
proof -
  let ?net = "sample_network (\<lambda>request. fst (providerEnvironment_ServeHTTP (Some (Inr sample_config)) True request))"
  obtain c w' where client: "newDaemonHTTPClient calm ?net sample_state 1 sample_ca = (Inr c, w')" using sample_client by blast
  have q: "json_quote ''KEY'' = ''\"KEY\"''" "json_quote ''k'' = ''\"k\"''" "json_quote ''values'' = ''\"values\"''"
    by (simp_all add: plain_quote plain_char_def html_unsafe_def)
  obtain d where d: "encodeProviderEnvironment [(''KEY'', ''k'')] = Inr d"
    by (simp add: encodeProviderEnvironment_def Let_def json_object_def q maxProviderEnvironmentBodyBytes_def)
  have url: "url_Parse (ct_URL (sync_request sample_state d)) \<noteq> None" using sample_urls(2) by (simp add: sync_request_def)
  have cfg: "Config_Validate sample_config = Inr ()" using sample_config_ok by (simp add: Config_Validate_iff)
  have utf8: "list_all (\<lambda>(name, v). validUTF8 name \<and> validUTF8 v) [(''KEY'', ''k'')]" by (simp add: ascii_utf8)
  have key: "(\<exists>m \<in> set (cf_Models sample_config). mc_APIKeyEnv m = ''KEY'')" "trimSpace ''k'' = ''k''" "\<not> hasControl ''k''"
    by (simp_all add: sample_config_def sample_model_def trimSpace_def trim_pieces_def go_eval)
  from provider_secrets_synced [OF client url sample_serves d _ _ cfg utf8] key show ?thesis using d by (auto split: if_splits)
qed

theorem probe_identifies_daemon_witness:
  "\<exists>w. fst (HTTPProbe_Check calm (sample_network (healthHandler (ds_InstanceID sample_state) ''v1'')) 1 True sample_state w) = Inr ()"
proof -
  let ?net = "sample_network (healthHandler (ds_InstanceID sample_state) ''v1'')" and ?q = "deliver sample_state \<lparr> ct_Method = ''GET'', ct_URL = [], ct_Headers = [], ct_Body = [] \<rparr>"
  obtain c w' where client: "newDaemonHTTPClient calm ?net sample_state 1 sample_ca = (Inr c, w')" using sample_client by blast
  have plain: "list_all plain_char (ds_InstanceID sample_state)" "list_all plain_char ''v1''"
    using sample_state_valid instance_id_plain by (auto simp: State_Validate_def Let_def plain_char_def html_unsafe_def split: if_splits)
  have len: "length (ds_InstanceID sample_state) = 32"
    by (simp add: sample_state_def hex_encode_def hex_digit_def replicate_numeral)
  have q: "json_quote ''status'' = ''\"status\"''" "json_quote ''ok'' = ''\"ok\"''" "json_quote ''instance_id'' = ''\"instance_id\"''"
      "json_quote ''daemon_version'' = ''\"daemon_version\"''"
    by (simp_all add: plain_quote plain_char_def html_unsafe_def)
  have "length (hr_Body (healthHandler (ds_InstanceID sample_state) ''v1'' ?q)) \<le> 8192"
    by (simp add: healthHandler_def deliver_def json_object_def q plain_quote [OF plain(1)] plain_quote [OF plain(2)] len)
  then show ?thesis
    using probe_identifies_daemon [OF client sample_urls(1) sample_serves plain_valid [OF plain(1)] plain_valid [OF plain(2)], of ?q]
    by (auto simp: deliver_def sample_state_def)
qed

end
