(* ===== verification/Daemon_Lock.thy ===== *)
theory Daemon_Lock
  imports Daemon_State
begin

text \<open>
  \<open>daemon/lock_unix.go\<close>, \<open>daemon/process_unix.go\<close> and \<open>AdoptInheritedLock\<close> of \<open>daemon/starter.go\<close>: the lock that
  keeps two daemons from running at once, and how it passes from the command that starts a daemon
  to the daemon. The kernel's part is what \<open>flock\<close> documents: a lock belongs to an open file
  description, which processes share by inheriting it, and ends when it is released through any of
  them or when the last of them closes it.
\<close>

section \<open>Open files and locks\<close>

text \<open>
  A description has the file it is open on, by its name, and the processes that hold it; a lock
  has the description that owns it. The system calls may fail as those on files do.
\<close>

record kernel =
  kn_os :: os
  kn_open :: "nat \<rightharpoonup> string \<times> int list"
  kn_owner :: "string \<rightharpoonup> nat"
  kn_next :: nat

type_synonym 'a lock_io = "kernel \<Rightarrow> 'a result \<times> kernel"

definition in_os :: "'a io \<Rightarrow> 'a lock_io" where
  "in_os m w = (case m (kn_os w) of (r, o') \<Rightarrow> (r, w\<lparr>kn_os := o'\<rparr>))"

definition lock_then :: "(goerror \<Rightarrow> goerror) \<Rightarrow> 'a lock_io \<Rightarrow> ('a \<Rightarrow> 'b lock_io) \<Rightarrow> 'b lock_io" where
  "lock_then wrap m k w = (case m w of (Inl e, w) \<Rightarrow> (Inl (wrap e), w) | (Inr x, w) \<Rightarrow> k x w)"

definition lock_fail :: "goerror \<Rightarrow> 'a lock_io" where
  "lock_fail e w = (Inl e, w)"

text \<open>Whether the next system call fails.\<close>

definition sys_fails :: "os_env \<Rightarrow> unit lock_io" where
  "sys_fails env = in_os (os_call env (\<lambda>fs. (Inr (), fs)))"

definition holders :: "nat \<Rightarrow> kernel \<Rightarrow> int list" where
  "holders i w = (case kn_open w i of None \<Rightarrow> [] | Some (_, ps) \<Rightarrow> ps)"

definition open_path :: "nat \<Rightarrow> kernel \<Rightarrow> string option" where
  "open_path i w = map_option fst (kn_open w i)"

definition release :: "nat \<Rightarrow> kernel \<Rightarrow> kernel" where
  "release i w = w\<lparr>kn_owner := (\<lambda>p. if kn_owner w p = Some i then None else kn_owner w p)\<rparr>"

text \<open>\<open>open(path, O_RDWR|O_CREAT|O_NOFOLLOW, 0600)\<close>\<close>

definition sys_open :: "os_env \<Rightarrow> int \<Rightarrow> string \<Rightarrow> nat lock_io" where
  "sys_open env pid path =
     lock_then id (in_os (os_call env (\<lambda>fs. case node_at fs path of
         None \<Rightarrow> if is_directory fs (filepath_Dir path) then (Inr (), put_node path (File 384 [] False) fs) else (Inl OS_NotExist, fs)
       | Some (File _ _ _) \<Rightarrow> (Inr (), fs)
       | Some (Symlink _) \<Rightarrow> (Inl (Errorf ''too many levels of symbolic links''), fs)
       | Some (Directory _) \<Rightarrow> (Inl (Errorf ''is a directory''), fs)
       | Some Special \<Rightarrow> (Inl (Errorf ''no such device or address''), fs)))) (\<lambda>_ w.
     (Inr (kn_next w), w\<lparr>kn_open := (kn_open w)(kn_next w \<mapsto> (path, [pid])), kn_next := Suc (kn_next w)\<rparr>))"

text \<open>A process that closes a description gives it up even when the call reports an error.\<close>

definition give_up :: "int \<Rightarrow> nat \<Rightarrow> kernel \<Rightarrow> kernel" where
  "give_up pid i w = (case kn_open w i of
     None \<Rightarrow> w
   | Some (path, ps) \<Rightarrow>
       if remove1 pid ps = [] then release i (w\<lparr>kn_open := (kn_open w)(i := None)\<rparr>)
       else w\<lparr>kn_open := (kn_open w)(i \<mapsto> (path, remove1 pid ps))\<rparr>)"

definition sys_close :: "os_env \<Rightarrow> int \<Rightarrow> nat \<Rightarrow> unit lock_io" where
  "sys_close env pid i w = (case sys_fails env w of (r, w) \<Rightarrow> (r, give_up pid i w))"

definition would_block :: goerror where
  "would_block = Errorf ''resource temporarily unavailable''"

definition sys_flock :: "os_env \<Rightarrow> nat \<Rightarrow> unit lock_io" where
  "sys_flock env i = lock_then id (sys_fails env) (\<lambda>_ w. case open_path i w of
     None \<Rightarrow> (Inl (Errorf ''bad file descriptor''), w)
   | Some path \<Rightarrow> (case kn_owner w path of
       None \<Rightarrow> (Inr (), w\<lparr>kn_owner := (kn_owner w)(path \<mapsto> i)\<rparr>)
     | Some j \<Rightarrow> if j = i then (Inr (), w) else (Inl would_block, w)))"

definition sys_funlock :: "os_env \<Rightarrow> nat \<Rightarrow> unit lock_io" where
  "sys_funlock env i = lock_then id (sys_fails env) (\<lambda>_ w. (Inr (), release i w))"

definition sys_fchmod :: "os_env \<Rightarrow> nat \<Rightarrow> unit lock_io" where
  "sys_fchmod env i w = (case open_path i w of
     None \<Rightarrow> (Inl (Errorf ''bad file descriptor''), w)
   | Some path \<Rightarrow> in_os (file_Chmod env path 384) w)"

text \<open>A started process inherits a description; one that ends gives all of its up.\<close>

definition sys_inherit :: "int \<Rightarrow> nat \<Rightarrow> kernel \<Rightarrow> kernel" where
  "sys_inherit child i w = (case kn_open w i of
     None \<Rightarrow> w | Some (path, ps) \<Rightarrow> w\<lparr>kn_open := (kn_open w)(i \<mapsto> (path, child # ps))\<rparr>)"

definition sys_exit :: "int \<Rightarrow> kernel \<Rightarrow> kernel" where
  "sys_exit pid w =
     (let opened = (\<lambda>i. case kn_open w i of None \<Rightarrow> None
         | Some (path, ps) \<Rightarrow> if filter (\<lambda>p. p \<noteq> pid) ps = [] then None else Some (path, filter (\<lambda>p. p \<noteq> pid) ps)) in
      w\<lparr>kn_open := opened,
        kn_owner := (\<lambda>p. case kn_owner w p of None \<Rightarrow> None | Some i \<Rightarrow> if opened i = None then None else Some i)\<rparr>)"

section \<open>The lock\<close>

text \<open>A lock is the description it holds, or nothing once it was closed.\<close>

type_synonym FileLock = "nat option"

definition lock_open :: "string \<Rightarrow> os_env \<Rightarrow> int \<Rightarrow> nat \<Rightarrow> FileLock lock_io" where
  "lock_open label env pid i w =
     (let close = (\<lambda>e w. (Inl e, snd (sys_close env pid i w))) in
      case sys_fchmod env i w of
        (Inl e, w) \<Rightarrow> close (Wrapf (label @ ''secure file permissions: '') e) w
      | (Inr _, w) \<Rightarrow> (case sys_flock env i w of
          (Inl e, w) \<Rightarrow> close (if error_is would_block e then Lock_Held else Wrapf (label @ ''flock: '') e) w
        | (Inr _, w) \<Rightarrow> (Inr (Some i), w)))"

definition TryAcquireLock :: "os_env \<Rightarrow> int \<Rightarrow> string \<Rightarrow> FileLock lock_io" where
  "TryAcquireLock env pid path =
     (let label = ''acquire daemon lock: ''; directory = filepath_Dir path; go = (\<lambda>_.
          lock_then (Wrapf (label @ ''open file: '')) (sys_open env pid path) (lock_open label env pid)) in
      if path = [] \<or> \<not> filepath_IsAbs path then lock_fail (Errorf (label @ ''path must be absolute''))
      else if directory = path_Clean path then lock_fail (Errorf (label @ ''path must name a file''))
      else lock_then (Wrapf (label @ ''create directory: '')) (in_os (os_MkdirAll env directory 448)) (\<lambda>_.
        lock_then (Wrapf (label @ ''secure directory permissions: '')) (in_os (os_Chmod env directory 448)) (\<lambda>_ w.
        case in_os (os_Lstat env path) w of
          (Inr (Symlink _), w) \<Rightarrow> (Inl (Errorf (label @ ''lock file must not be a symlink'')), w)
        | (Inr (File _ _ _), w) \<Rightarrow> go () w
        | (Inr _, w) \<Rightarrow> (Inl (Errorf (label @ ''lock file must be regular'')), w)
        | (Inl e, w) \<Rightarrow> if error_is OS_NotExist e then go () w else (Inl (Wrapf (label @ ''inspect file: '') e), w))))"

text \<open>\<open>AdoptLockFile\<close>, on a description or on nil; \<open>file_stat\<close> is \<open>file.Stat\<close>.\<close>

definition file_stat :: "os_env \<Rightarrow> nat \<Rightarrow> node lock_io" where
  "file_stat env i w = (case open_path i w of
     None \<Rightarrow> (Inl (Errorf ''bad file descriptor''), w)
   | Some path \<Rightarrow> in_os (os_Lstat env path) w)"

definition AdoptLockFile :: "os_env \<Rightarrow> int \<Rightarrow> nat option \<Rightarrow> FileLock lock_io" where
  "AdoptLockFile env pid file = (let label = ''adopt daemon lock: '' in case file of
     None \<Rightarrow> lock_fail (Errorf (label @ ''file is required''))
   | Some i \<Rightarrow> (\<lambda>w. case file_stat env i w of
       (Inl e, w) \<Rightarrow> (Inl (Wrapf (label @ ''inspect file: '') e), snd (sys_close env pid i w))
     | (Inr (File _ _ _), w) \<Rightarrow> lock_open label env pid i w
     | (Inr _, w) \<Rightarrow> (Inl (Errorf (label @ ''file must be regular'')), snd (sys_close env pid i w))))"

text \<open>\<open>strconv.ParseUint(s, 10, 31)\<close>\<close>

definition parse_descriptor :: "string \<Rightarrow> nat option" where
  "parse_descriptor s = (if s = [] \<or> \<not> list_all is_digit s \<or> 2147483648 \<le> digits_val 0 s then None else Some (digits_val 0 s))"

definition inheritedLockFDEnvironment :: string where
  "inheritedLockFDEnvironment = ''CURSOR_CLI_BYOK_LOCK_FD''"

text \<open>\<open>descriptors\<close> is the process's table: the description behind the number of a descriptor.\<close>

definition AdoptInheritedLock ::
  "os_env \<Rightarrow> int \<Rightarrow> (nat \<Rightarrow> nat option) \<Rightarrow> (string \<Rightarrow> string) option \<Rightarrow> string \<Rightarrow> FileLock lock_io" where
  "AdoptInheritedLock env pid descriptors getenv expectedPath =
     (let label = ''adopt inherited daemon lock: '' in case getenv of
        None \<Rightarrow> lock_fail (Errorf (label @ ''environment lookup is required''))
      | Some lookup \<Rightarrow>
          if \<not> filepath_IsAbs expectedPath then lock_fail (Errorf (label @ ''expected path must be absolute''))
          else (case parse_descriptor (lookup inheritedLockFDEnvironment) of
            None \<Rightarrow> lock_fail (Errorf (label @ ''lock descriptor is invalid''))
          | Some fd \<Rightarrow>
              if fd < 3 then lock_fail (Errorf (label @ ''lock descriptor is invalid''))
              else (case descriptors fd of
                None \<Rightarrow> lock_fail (Wrapf (label @ ''inspect descriptor: '') (Errorf ''bad file descriptor''))
              | Some i \<Rightarrow> (\<lambda>w. case file_stat env i w of
                  (Inl e, w) \<Rightarrow> (Inl (Wrapf (label @ ''inspect descriptor: '') e), snd (sys_close env pid i w))
                | (Inr _, w) \<Rightarrow> (case in_os (os_Stat env expectedPath) w of
                    (Inl e, w) \<Rightarrow> (Inl (Wrapf (label @ ''inspect expected path: '') e), snd (sys_close env pid i w))
                  | (Inr _, w) \<Rightarrow>
                      if open_path i w \<noteq> follow max_links (os_files (kn_os w)) expectedPath then
                        (Inl (Errorf (label @ ''descriptor does not match expected lock path'')), snd (sys_close env pid i w))
                      else AdoptLockFile env pid (Some i) w)))))"

definition join_errors :: "unit result \<Rightarrow> unit result \<Rightarrow> unit result" where
  "join_errors r r' = (case (r, r') of
     (Inr _, _) \<Rightarrow> r' | (_, Inr _) \<Rightarrow> r | (Inl e, Inl e') \<Rightarrow> Inl (Joined e e'))"

definition lock_Close :: "os_env \<Rightarrow> int \<Rightarrow> FileLock \<Rightarrow> kernel \<Rightarrow> unit result \<times> FileLock \<times> kernel" where
  "lock_Close env pid l w = (case l of
     None \<Rightarrow> (Inr (), None, w)
   | Some i \<Rightarrow> (case sys_funlock env i w of (unlockError, w) \<Rightarrow> (case sys_close env pid i w of
       (closeError, w) \<Rightarrow> (join_errors unlockError closeError, None, w))))"

definition lock_DropReference :: "os_env \<Rightarrow> int \<Rightarrow> FileLock \<Rightarrow> kernel \<Rightarrow> unit result \<times> FileLock \<times> kernel" where
  "lock_DropReference env pid l w = (case l of
     None \<Rightarrow> (Inr (), None, w)
   | Some i \<Rightarrow> (case sys_close env pid i w of (r, w) \<Rightarrow> (r, None, w)))"

text \<open>\<open>ProcessAlive\<close>; \<open>kill\<close> is the answer of \<open>kill(pid, 0)\<close>, where \<open>EPERM\<close> means that the process is there.\<close>

datatype kill_answer = Kill_OK | Kill_EPERM | Kill_Error

definition ProcessAlive :: "(int \<Rightarrow> kill_answer) \<Rightarrow> int \<Rightarrow> bool" where
  "ProcessAlive kill pid \<longleftrightarrow> 1 \<le> pid \<and> kill pid \<noteq> Kill_Error"

section \<open>What the operations do to locks\<close>

definition same_locks :: "kernel \<Rightarrow> kernel \<Rightarrow> bool" where
  "same_locks w w' \<longleftrightarrow> kn_open w' = kn_open w \<and> kn_owner w' = kn_owner w \<and> kn_next w' = kn_next w"

lemma same_locks_refl [simp]: "same_locks w w"
  by (simp add: same_locks_def)

lemma same_locks_trans: "same_locks w w' \<Longrightarrow> same_locks w' w'' \<Longrightarrow> same_locks w w''"
  by (simp add: same_locks_def)

lemma in_os_same: "in_os m w = (r, w') \<Longrightarrow> same_locks w w'"
  by (auto simp: in_os_def same_locks_def split: prod.splits)

lemma fchmod_same: "sys_fchmod env i w = (r, w') \<Longrightarrow> same_locks w w'"
  by (auto simp: sys_fchmod_def split: option.splits dest: in_os_same)

lemma stat_same: "file_stat env i w = (r, w') \<Longrightarrow> same_locks w w'"
  by (auto simp: file_stat_def split: option.splits dest: in_os_same)

text \<open>The effect on locks of giving a description up, whatever else happened to the files.\<close>

definition gives_up :: "int \<Rightarrow> nat \<Rightarrow> kernel \<Rightarrow> kernel \<Rightarrow> bool" where
  "gives_up pid i w w' \<longleftrightarrow> same_locks (give_up pid i w) w'"

lemma give_up_cong: "same_locks w v \<Longrightarrow> same_locks (give_up pid i w) (give_up pid i v)"
  by (auto simp: give_up_def release_def same_locks_def split: option.split)

lemma close_gives_up: "sys_close env pid i w = (r, w') \<Longrightarrow> gives_up pid i w w'"
  unfolding gives_up_def sys_close_def sys_fails_def
  by (auto split: prod.splits dest: in_os_same intro: give_up_cong)

lemma gives_up_from: "same_locks w v \<Longrightarrow> gives_up pid i v w' \<Longrightarrow> gives_up pid i w w'"
  unfolding gives_up_def using give_up_cong same_locks_trans by blast

lemma flock_cases:
  assumes "sys_flock env i w = (r, w')" "kn_open w i = Some (path, ps)"
  obtains (held) e where "r = Inl e" "same_locks w w'"
  | (taken) "r = Inr ()" "kn_owner w path = None \<or> kn_owner w path = Some i" "kn_open w' = kn_open w"
      "kn_owner w' = (kn_owner w)(path \<mapsto> i)" "kn_next w' = kn_next w"
proof -
  obtain r1 w1 where f: "sys_fails env w = (r1, w1)" by (cases "sys_fails env w")
  have same: "same_locks w w1" using f unfolding sys_fails_def by (rule in_os_same)
  then have path: "open_path i w1 = Some path" using assms(2) by (simp add: open_path_def same_locks_def)
  show ?thesis
  proof (cases r1)
    case (Inl e)
    then show ?thesis using assms f same by (intro held) (auto simp: sys_flock_def lock_then_def)
  next
    case (Inr u)
    show ?thesis
    proof (cases "kn_owner w path = None \<or> kn_owner w path = Some i")
      case True
      then show ?thesis using assms f same Inr path
        by (intro taken) (auto simp: sys_flock_def lock_then_def same_locks_def fun_upd_idem split: option.splits)
    next
      case False
      then show ?thesis using assms f same Inr path
        by (intro held) (auto simp: sys_flock_def lock_then_def same_locks_def split: option.splits)
    qed
  qed
qed

lemma lock_open_cases:
  assumes "lock_open label env pid i w = (r, w')" "kn_open w i = Some (path, ps)"
  obtains (failed) e where "r = Inl e" "gives_up pid i w w'"
  | (taken) "r = Inr (Some i)" "kn_owner w path = None \<or> kn_owner w path = Some i" "kn_open w' = kn_open w"
      "kn_owner w' = (kn_owner w)(path \<mapsto> i)" "kn_next w' = kn_next w"
proof -
  obtain r1 w1 where c: "sys_fchmod env i w = (r1, w1)" by (cases "sys_fchmod env i w")
  note same1 = fchmod_same [OF c]
  show ?thesis
  proof (cases r1)
    case (Inl e)
    obtain r3 w3 where cl: "sys_close env pid i w1 = (r3, w3)" by (cases "sys_close env pid i w1")
    show ?thesis using assms(1) c Inl cl gives_up_from [OF same1 close_gives_up [OF cl]]
      by (intro failed) (auto simp: lock_open_def Let_def)
  next
    case (Inr u)
    obtain r2 w2 where f: "sys_flock env i w1 = (r2, w2)" by (cases "sys_flock env i w1")
    have "kn_open w1 i = Some (path, ps)" using assms(2) same1 by (simp add: same_locks_def)
    from f this show ?thesis
    proof (cases rule: flock_cases)
      case (held e)
      obtain r3 w3 where cl: "sys_close env pid i w2 = (r3, w3)" by (cases "sys_close env pid i w2")
      show ?thesis using assms(1) c Inr f held cl gives_up_from [OF same_locks_trans [OF same1 held(2)] close_gives_up [OF cl]]
        by (intro failed) (auto simp: lock_open_def Let_def)
    next
      case taken': taken
      then show ?thesis using assms(1) c Inr f same1 by (intro taken) (auto simp: lock_open_def Let_def same_locks_def)
    qed
  qed
qed

text \<open>An owner is open on the file it owns, an open description has a holder, and new descriptions are new.\<close>

definition lock_inv :: "kernel \<Rightarrow> bool" where
  "lock_inv w \<longleftrightarrow> (\<forall>p i. kn_owner w p = Some i \<longrightarrow> kn_open w i \<noteq> None \<and> (\<forall>q ps. kn_open w i = Some (q, ps) \<longrightarrow> q = p))
     \<and> (\<forall>i p ps. kn_open w i = Some (p, ps) \<longrightarrow> ps \<noteq> [] \<and> i < kn_next w)"

lemma lock_inv_same: "lock_inv w \<Longrightarrow> same_locks w w' \<Longrightarrow> lock_inv w'"
  by (simp add: lock_inv_def same_locks_def)

lemma lock_inv_fresh: "lock_inv w \<Longrightarrow> kn_next w \<le> i \<Longrightarrow> kn_open w i = None \<and> kn_owner w p \<noteq> Some i"
  unfolding lock_inv_def by (metis leD not_None_eq prod.exhaust)

lemma open_cases:
  assumes "sys_open env pid path w = (r, w')"
  obtains (failed) e where "r = Inl e" "same_locks w w'"
  | (opened) "r = Inr (kn_next w)" "kn_open w' = (kn_open w)(kn_next w \<mapsto> (path, [pid]))" "kn_owner w' = kn_owner w" "kn_next w' = Suc (kn_next w)"
proof -
  let ?m = "in_os (os_call env (\<lambda>fs. case node_at fs path of
         None \<Rightarrow> if is_directory fs (filepath_Dir path) then (Inr (), put_node path (File 384 [] False) fs) else (Inl OS_NotExist, fs)
       | Some (File _ _ _) \<Rightarrow> (Inr (), fs)
       | Some (Symlink _) \<Rightarrow> (Inl (Errorf ''too many levels of symbolic links''), fs)
       | Some (Directory _) \<Rightarrow> (Inl (Errorf ''is a directory''), fs)
       | Some Special \<Rightarrow> (Inl (Errorf ''no such device or address''), fs)))"
  obtain r1 w1 where m: "?m w = (r1, w1)" by (cases "?m w")
  note same = in_os_same [OF m]
  show ?thesis
    using assms m same failed opened by (cases r1) (auto simp: sys_open_def lock_then_def same_locks_def)
qed

lemma acquire_open:
  assumes inv: "lock_inv w" and "lock_then wrap (sys_open env pid path) (lock_open label env pid) w = (r, w')"
  obtains (failed) e where "r = Inl e" "kn_open w' = kn_open w" "kn_owner w' = kn_owner w" "kn_next w \<le> kn_next w'"
  | (acquired) "r = Inr (Some (kn_next w))" "kn_owner w path = None" "kn_open w' = (kn_open w)(kn_next w \<mapsto> (path, [pid]))"
      "kn_owner w' = (kn_owner w)(path \<mapsto> kn_next w)" "kn_next w' = Suc (kn_next w)"
proof -
  obtain r1 w1 where o: "sys_open env pid path w = (r1, w1)" by (cases "sys_open env pid path w")
  note fresh = lock_inv_fresh [OF inv order_refl]
  from o show ?thesis
  proof (cases rule: open_cases)
    case (failed e)
    then show ?thesis using assms(2) o by (intro that(1)) (auto simp: lock_then_def same_locks_def)
  next
    case opened
    then have l: "lock_open label env pid (kn_next w) w1 = (r, w')" using assms(2) o by (simp add: lock_then_def)
    have "kn_open w1 (kn_next w) = Some (path, [pid])" using opened by simp
    from l this show ?thesis
    proof (cases rule: lock_open_cases)
      case (failed e)
      have "(kn_open w)(kn_next w := None) = kn_open w" using fresh by (simp add: fun_upd_idem)
      moreover have "(\<lambda>p. if kn_owner w p = Some (kn_next w) then None else kn_owner w p) = kn_owner w" using fresh by auto
      ultimately show ?thesis using failed opened fresh
        by (intro that(1)) (auto simp: gives_up_def give_up_def release_def same_locks_def)
    next
      case taken
      then show ?thesis using opened fresh by (intro that(2)) auto
    qed
  qed
qed

lemma acquire_cases:
  assumes inv: "lock_inv w" and t: "TryAcquireLock env pid path w = (r, w')"
  obtains (failed) e where "r = Inl e" "kn_open w' = kn_open w" "kn_owner w' = kn_owner w" "kn_next w \<le> kn_next w'"
  | (acquired) "r = Inr (Some (kn_next w))" "kn_owner w path = None" "kn_open w' = (kn_open w)(kn_next w \<mapsto> (path, [pid]))"
      "kn_owner w' = (kn_owner w)(path \<mapsto> kn_next w)" "kn_next w' = Suc (kn_next w)"
proof (cases "(path = [] \<or> \<not> filepath_IsAbs path) \<or> filepath_Dir path = path_Clean path")
  case True
  then show ?thesis using t that(1) by (auto simp: TryAcquireLock_def lock_fail_def Let_def split: if_splits)
next
  case False
  let ?d = "filepath_Dir path" and ?label = "''acquire daemon lock: ''"
  obtain r1 w1 where m1: "in_os (os_MkdirAll env ?d 448) w = (r1, w1)" by (cases "in_os (os_MkdirAll env ?d 448) w")
  obtain r2 w2 where m2: "in_os (os_Chmod env ?d 448) w1 = (r2, w2)" by (cases "in_os (os_Chmod env ?d 448) w1")
  obtain r3 w3 where m3: "in_os (os_Lstat env path) w2 = (r3, w3)" by (cases "in_os (os_Lstat env path) w2")
  note same1 = in_os_same [OF m1] and same2 = same_locks_trans [OF in_os_same [OF m1] in_os_same [OF m2]]
  note same3 = same_locks_trans [OF same2 in_os_same [OF m3]]
  let ?go = "lock_then (Wrapf (?label @ ''open file: '')) (sys_open env pid path) (lock_open ?label env pid) w3"
  have "(\<exists>e. r = Inl e) \<and> (same_locks w w') \<or> ?go = (r, w')"
  proof (cases r1)
    case (Inl e)
    then show ?thesis using t False m1 same1 by (auto simp: TryAcquireLock_def lock_then_def Let_def)
  next
    case r1: (Inr u)
    show ?thesis
    proof (cases r2)
      case (Inl e)
      then show ?thesis using t False m1 r1 m2 same2 by (auto simp: TryAcquireLock_def lock_then_def Let_def)
    next
      case r2: (Inr u)
      show ?thesis
      proof (cases r3)
        case (Inl e)
        then show ?thesis using t False m1 r1 m2 r2 m3 same3 by (auto simp: TryAcquireLock_def lock_then_def Let_def split: if_splits)
      next
        case r3: (Inr node)
        then show ?thesis using t False m1 r1 m2 r2 m3 same3
          by (cases node) (auto simp: TryAcquireLock_def lock_then_def Let_def)
      qed
    qed
  qed
  then show ?thesis
  proof (elim disjE conjE exE)
    fix e
    assume "r = Inl e" "same_locks w w'"
    then show ?thesis by (intro that(1)) (auto simp: same_locks_def)
  next
    assume go: "?go = (r, w')"
    from lock_inv_same [OF inv same3] go show ?thesis
      by (cases rule: acquire_open) (use same3 that in \<open>auto simp: same_locks_def\<close>)
  qed
qed

lemma adopt_file_cases:
  assumes "AdoptLockFile env pid (Some i) w = (r, w')" "kn_open w i = Some (path, ps)"
  obtains (failed) e where "r = Inl e" "gives_up pid i w w'"
  | (taken) "r = Inr (Some i)" "kn_owner w path = None \<or> kn_owner w path = Some i" "kn_open w' = kn_open w"
      "kn_owner w' = (kn_owner w)(path \<mapsto> i)" "kn_next w' = kn_next w"
proof -
  obtain r1 w1 where s: "file_stat env i w = (r1, w1)" by (cases "file_stat env i w")
  obtain r2 w2 where c: "sys_close env pid i w1 = (r2, w2)" by (cases "sys_close env pid i w1")
  note same = stat_same [OF s] and up = gives_up_from [OF stat_same [OF s] close_gives_up [OF c]]
  have "(\<exists>e. r = Inl e) \<and> gives_up pid i w w' \<or> lock_open ''adopt daemon lock: '' env pid i w1 = (r, w')"
  proof (cases r1)
    case (Inl e)
    then show ?thesis using assms(1) s c up by (auto simp: AdoptLockFile_def Let_def)
  next
    case (Inr n)
    then show ?thesis using assms(1) s c up by (cases n) (auto simp: AdoptLockFile_def Let_def)
  qed
  then show ?thesis
  proof (elim disjE conjE exE)
    fix e
    assume "r = Inl e" "gives_up pid i w w'"
    then show ?thesis by (rule failed)
  next
    assume l: "lock_open ''adopt daemon lock: '' env pid i w1 = (r, w')"
    have "kn_open w1 i = Some (path, ps)" using assms(2) same by (simp add: same_locks_def)
    from l this show ?thesis
      by (cases rule: lock_open_cases) (use same failed taken gives_up_from [OF same] in \<open>auto simp: same_locks_def\<close>)
  qed
qed

lemma adopt_inherited_cases:
  assumes "AdoptInheritedLock env pid descriptors getenv expectedPath w = (r, w')" "\<forall>fd i. descriptors fd = Some i \<longrightarrow> kn_open w i \<noteq> None"
  obtains (refused) e where "r = Inl e" "same_locks w w'"
  | (failed) fd i e where "descriptors fd = Some i" "r = Inl e" "gives_up pid i w w'"
  | (taken) lookup fd i path ps where "getenv = Some lookup" "parse_descriptor (lookup inheritedLockFDEnvironment) = Some fd" "3 \<le> fd"
      "descriptors fd = Some i" "r = Inr (Some i)" "kn_open w i = Some (path, ps)" "kn_owner w path = None \<or> kn_owner w path = Some i"
      "kn_open w' = kn_open w" "kn_owner w' = (kn_owner w)(path \<mapsto> i)" "kn_next w' = kn_next w"
proof (cases "\<exists>lookup fd i. getenv = Some lookup \<and> filepath_IsAbs expectedPath
    \<and> parse_descriptor (lookup inheritedLockFDEnvironment) = Some fd \<and> 3 \<le> fd \<and> descriptors fd = Some i")
  case False
  then have "(\<exists>e. r = Inl e) \<and> w' = w"
    using assms(1) unfolding AdoptInheritedLock_def Let_def lock_fail_def
    by (cases getenv) (auto split: if_splits option.splits simp: not_less)
  then show ?thesis using refused by auto
next
  case True
  then obtain lookup fd i where h: "getenv = Some lookup" "filepath_IsAbs expectedPath"
    "parse_descriptor (lookup inheritedLockFDEnvironment) = Some fd" "3 \<le> fd" "descriptors fd = Some i" by blast
  obtain path ps where o: "kn_open w i = Some (path, ps)" using assms(2) h(5) by fastforce
  obtain r1 w1 where s: "file_stat env i w = (r1, w1)" by (cases "file_stat env i w")
  obtain r2 w2 where e: "in_os (os_Stat env expectedPath) w1 = (r2, w2)" by (cases "in_os (os_Stat env expectedPath) w1")
  obtain c1 v1 where c1: "sys_close env pid i w1 = (c1, v1)" by (cases "sys_close env pid i w1")
  obtain c2 v2 where c2: "sys_close env pid i w2 = (c2, v2)" by (cases "sys_close env pid i w2")
  note same1 = stat_same [OF s] and same2 = same_locks_trans [OF stat_same [OF s] in_os_same [OF e]]
  have "(\<exists>e. r = Inl e) \<and> gives_up pid i w w' \<or> AdoptLockFile env pid (Some i) w2 = (r, w')"
  proof (cases r1)
    case (Inl x)
    then show ?thesis using assms(1) h s c1 gives_up_from [OF same1 close_gives_up [OF c1]] by (auto simp: AdoptInheritedLock_def Let_def)
  next
    case r1: (Inr n)
    show ?thesis
      using assms(1) h s r1 e c2 gives_up_from [OF same2 close_gives_up [OF c2]]
      by (cases r2) (auto simp: AdoptInheritedLock_def Let_def split: if_splits)
  qed
  then show ?thesis
  proof (elim disjE conjE exE)
    fix x
    assume "r = Inl x" "gives_up pid i w w'"
    then show ?thesis using h(5) failed by blast
  next
    assume a: "AdoptLockFile env pid (Some i) w2 = (r, w')"
    have "kn_open w2 i = Some (path, ps)" using o same2 by (simp add: same_locks_def)
    from a this show ?thesis
    proof (cases rule: adopt_file_cases)
      case (failed x)
      then show ?thesis using h(5) gives_up_from [OF same2] that(2) by blast
    next
      case taken
      then show ?thesis using h o same2 that(3) by (auto simp: same_locks_def)
    qed
  qed
qed

lemma close_cases:
  assumes "lock_Close env pid (Some i) w = (r, l, w')"
  shows "\<exists>v. (same_locks w v \<or> same_locks (release i w) v) \<and> gives_up pid i v w' \<and> (r = Inr () \<longrightarrow> same_locks (release i w) v)"
proof -
  obtain r1 w1 where f: "sys_fails env w = (r1, w1)" by (cases "sys_fails env w")
  have same: "same_locks w w1" using f unfolding sys_fails_def by (rule in_os_same)
  then have rel: "same_locks (release i w) (release i w1)" by (auto simp: same_locks_def release_def fun_eq_iff)
  obtain c1 v1 where c1: "sys_close env pid i w1 = (c1, v1)" by (cases "sys_close env pid i w1")
  obtain c2 v2 where c2: "sys_close env pid i (release i w1) = (c2, v2)" by (cases "sys_close env pid i (release i w1)")
  show ?thesis
  proof (cases r1)
    case (Inl e)
    then have "w' = v1" "r \<noteq> Inr ()"
      using assms f c1 by (auto simp: lock_Close_def sys_funlock_def lock_then_def join_errors_def split: sum.splits)
    then show ?thesis using same close_gives_up [OF c1] by blast
  next
    case (Inr u)
    then have "w' = v2" using assms f c2 by (auto simp: lock_Close_def sys_funlock_def lock_then_def)
    then show ?thesis using rel close_gives_up [OF c2] by blast
  qed
qed

section \<open>Processes beside each other\<close>

text \<open>
  One operation of one process. A process closes, passes on or adopts only what it has open;
  \<open>descriptors\<close> is its table.
\<close>

inductive lock_step :: "kernel \<Rightarrow> kernel \<Rightarrow> bool" where
  step_acquire: "TryAcquireLock env pid path w = (r, w') \<Longrightarrow> lock_step w w'"
| step_adopt: "AdoptInheritedLock env pid descriptors getenv path w = (r, w') \<Longrightarrow>
    \<forall>fd i. descriptors fd = Some i \<longrightarrow> pid \<in> set (holders i w) \<Longrightarrow> lock_step w w'"
| step_close: "pid \<in> set (holders i w) \<Longrightarrow> lock_Close env pid (Some i) w = (r, l, w') \<Longrightarrow> lock_step w w'"
| step_drop: "pid \<in> set (holders i w) \<Longrightarrow> lock_DropReference env pid (Some i) w = (r, l, w') \<Longrightarrow> lock_step w w'"
| step_start: "parent \<in> set (holders i w) \<Longrightarrow> lock_step w (sys_inherit child i w)"
| step_exit: "lock_step w (sys_exit pid w)"

lemma give_up_inv: "lock_inv w \<Longrightarrow> lock_inv (give_up pid i w)"
  unfolding lock_inv_def give_up_def release_def by (auto split: option.split if_splits)

lemma gives_up_inv: "lock_inv w \<Longrightarrow> gives_up pid i w w' \<Longrightarrow> lock_inv w'"
  unfolding gives_up_def by (rule lock_inv_same [OF give_up_inv])

lemma release_inv: "lock_inv w \<Longrightarrow> lock_inv (release i w)"
  by (auto simp: lock_inv_def release_def split: if_splits)

lemma taken_inv:
  assumes "lock_inv w" "kn_open w i = Some (path, ps)" "kn_open w' = kn_open w" "kn_owner w' = (kn_owner w)(path \<mapsto> i)" "kn_next w' = kn_next w"
  shows "lock_inv w'"
  using assms by (auto simp: lock_inv_def)

lemma close_inv: "lock_inv w \<Longrightarrow> lock_Close env pid (Some i) w = (r, l, w') \<Longrightarrow> lock_inv w'"
  using close_cases [of env pid i w r l w'] release_inv [of w i] lock_inv_same gives_up_inv by blast

lemma drop_gives_up: "lock_DropReference env pid (Some i) w = (r, l, w') \<Longrightarrow> gives_up pid i w w'"
  by (auto simp: lock_DropReference_def dest: close_gives_up split: prod.splits)

lemma exit_inv: "lock_inv w \<Longrightarrow> lock_inv (sys_exit pid w)"
  unfolding lock_inv_def sys_exit_def Let_def
  by (auto split: option.splits if_splits)

lemma acquire_inv:
  assumes inv: "lock_inv w" and t: "TryAcquireLock env pid path w = (r, w')"
  shows "lock_inv w'"
  using inv t
proof (cases rule: acquire_cases)
  case (failed e)
  then show ?thesis using inv unfolding lock_inv_def by (metis order_less_le_trans)
next
  case acquired
  then show ?thesis using inv unfolding lock_inv_def by (auto intro: less_SucI) (metis lock_inv_def lock_inv_fresh order_refl inv)
qed

lemma lock_step_inv: "lock_step w w' \<Longrightarrow> lock_inv w \<Longrightarrow> lock_inv w'"
proof (induction rule: lock_step.induct)
  case (step_adopt env pid descriptors getenv path w r w')
  have "pid \<in> set (holders i w) \<Longrightarrow> kn_open w i \<noteq> None" for i by (cases "kn_open w i") (auto simp: holders_def)
  then have "\<forall>fd i. descriptors fd = Some i \<longrightarrow> kn_open w i \<noteq> None" using step_adopt(2) by blast
  from step_adopt(1) this show ?case
    by (cases rule: adopt_inherited_cases) (use step_adopt(3) lock_inv_same gives_up_inv taken_inv in blast)+
next
  case (step_start parent i w child)
  then show ?case by (auto simp: lock_inv_def sys_inherit_def split: option.split)
qed (blast intro: acquire_inv close_inv drop_gives_up gives_up_inv exit_inv)+

definition locked_by :: "string \<Rightarrow> kernel \<Rightarrow> int set" where
  "locked_by path w = (case kn_owner w path of None \<Rightarrow> {} | Some i \<Rightarrow> set (holders i w))"

definition started :: "os \<Rightarrow> kernel" where
  "started files = \<lparr> kn_os = files, kn_open = Map.empty, kn_owner = Map.empty, kn_next = 0 \<rparr>"

lemma reachable_lock_inv: "lock_step\<^sup>*\<^sup>* (started files) w \<Longrightarrow> lock_inv w"
proof (induction rule: rtranclp_induct)
  case base
  show ?case by (simp add: lock_inv_def started_def)
next
  case (step y z)
  then show ?case by (blast intro: lock_step_inv)
qed

lemma locked_iff: "lock_inv w \<Longrightarrow> locked_by path w = {} \<longleftrightarrow> kn_owner w path = None"
proof (cases "kn_owner w path")
  case (Some i)
  assume "lock_inv w"
  then obtain q ps where "kn_open w i = Some (q, ps)" "ps \<noteq> []" using Some unfolding lock_inv_def by fastforce
  then show ?thesis using Some by (simp add: locked_by_def holders_def)
qed (simp add: locked_by_def)

section \<open>One daemon at a time\<close>

text \<open>C27: at most one process gets the lock. Whatever processes acquired, adopted, closed, dropped and inherited locks, started
  others or ended before, an attempt to acquire one succeeds only when no process holds it, and then the
  process that tried is its only holder; an attempt that fails, and one for another file, changes nobody's lock.\<close>

theorem lock_exclusive:
  assumes "lock_step\<^sup>*\<^sup>* (started files) w" and "TryAcquireLock env pid path w = (r, w')"
  shows "(case r of
      Inr l \<Rightarrow> l \<noteq> None \<and> locked_by path w = {} \<and> locked_by path w' = {pid} \<and> (\<forall>q. q \<noteq> path \<longrightarrow> locked_by q w' = locked_by q w)
    | Inl e \<Rightarrow> \<forall>q. locked_by q w' = locked_by q w)"
proof -
  note inv = reachable_lock_inv [OF assms(1)]
  from inv assms(2) show ?thesis
  proof (cases rule: acquire_cases)
    case (failed e)
    then have "holders i w' = holders i w" for i by (simp add: holders_def)
    then show ?thesis using failed by (simp add: locked_by_def split: option.split)
  next
    case acquired
    have "kn_owner w q \<noteq> Some (kn_next w)" for q using lock_inv_fresh [OF inv order_refl] by blast
    then have "locked_by q w' = locked_by q w" if "q \<noteq> path" for q
      using acquired that by (cases "kn_owner w q") (auto simp: locked_by_def holders_def)
    then show ?thesis using acquired by (simp add: locked_by_def holders_def)
  qed
qed

lemma gives_up_shared:
  assumes "gives_up pid i v w'" "kn_open v i = Some (path, ps)" "remove1 pid ps \<noteq> []"
  shows "kn_owner w' = kn_owner v" "kn_open w' = (kn_open v)(i \<mapsto> (path, remove1 pid ps))"
  using assms by (simp_all add: gives_up_def give_up_def same_locks_def)

text \<open>the lock passes from the command to the daemon without a gap. When the process that alone holds the lock starts
  the daemon, which inherits it, and drops its own reference, the daemon is the only holder, whatever
  the closing call reports; adopting it by the descriptor's number succeeds only with that very lock and keeps it held, and it is
  free once the daemon ends. Closing the lock in the parent, instead of dropping the reference, would free it under the daemon.\<close>

theorem lock_handed_over:
  assumes reach: "lock_step\<^sup>*\<^sup>* (started files) w" and lock: "kn_owner w path = Some i" "holders i w = [parent]" and other: "child \<noteq> parent"
    and drop: "lock_DropReference env parent (Some i) (sys_inherit child i w) = (r, l, w')"
  shows "locked_by path w' = {child} \<and> locked_by path (sys_exit child w') = {}
    \<and> (\<forall>env' getenv expected l' v. AdoptInheritedLock env' child [3 \<mapsto> i] getenv expected w' = (Inr l', v) \<longrightarrow>
          l' = Some i \<and> locked_by path v = {child})
    \<and> (\<forall>l' u. lock_Close env parent (Some i) (sys_inherit child i w) = (Inr (), l', u) \<longrightarrow> locked_by path u = {})"
proof -
  note inv = reachable_lock_inv [OF reach]
  have o: "kn_open w i = Some (path, [parent])" using inv lock unfolding lock_inv_def holders_def by (fastforce split: option.splits)
  let ?s = "sys_inherit child i w"
  have s: "kn_open ?s i = Some (path, [child, parent])" "kn_owner ?s = kn_owner w" using o by (simp_all add: sys_inherit_def)
  have rm: "remove1 parent [child, parent] = [child]" using other by simp
  have w': "kn_owner w' = kn_owner w" "kn_open w' i = Some (path, [child])"
    using gives_up_shared [OF drop_gives_up [OF drop] s(1)] rm s(2) by simp_all
  then have "locked_by path w' = {child}" using lock by (simp add: locked_by_def holders_def)
  moreover have "locked_by path (sys_exit child w') = {}" using w' lock by (simp add: locked_by_def sys_exit_def Let_def)
  moreover have "l' = Some i \<and> locked_by path v = {child}" if a: "AdoptInheritedLock env' child [3 \<mapsto> i] getenv expected w' = (Inr l', v)"
    for env' getenv expected l' v
  proof -
    have "\<forall>fd j. [3 \<mapsto> i] fd = Some j \<longrightarrow> kn_open w' j \<noteq> None" using w'(2) by (auto split: if_splits)
    from a this show ?thesis
      by (cases rule: adopt_inherited_cases) (use w' lock in \<open>auto simp: locked_by_def holders_def split: if_splits\<close>)
  qed
  moreover have "locked_by path u = {}" if c: "lock_Close env parent (Some i) ?s = (Inr (), l'', u)" for l'' u
  proof -
    from close_cases [OF c] obtain v where v: "same_locks (release i ?s) v" "gives_up parent i v u" by blast
    then have "kn_open v i = Some (path, [child, parent])" "kn_owner v path = None"
      using s lock by (simp_all add: same_locks_def release_def)
    from gives_up_shared [OF v(2) this(1)] rm this(2) show ?thesis by (simp add: locked_by_def)
  qed
  ultimately show ?thesis by blast
qed

section \<open>A concrete lock\<close>

lemma sample_lock_acquired: "\<exists>w. TryAcquireLock calm 1 ''/s/l'' (started sample_os) = (Inr (Some 0), w)"
proof -
  have "filepath_Dir ''/s/l'' = ''/s''" "path_Clean ''/s/l'' = ''/s/l''" "filepath_IsAbs ''/s/l''"
    by (simp_all add: filepath_IsAbs_def Let_def path_Clean_def filepath_Dir_def clean_step_def)
  moreover have "follow 40 fs ''/s'' = Some ''/s''" if "node_at fs ''/s'' = Some (Directory m)" for fs m
    using that by (simp add: numeral_eq_Suc)
  moreover have "node_at [(''/s'', n)] q = (if q = ''/s'' then Some n else None)" for n q by (simp add: node_at_def)
  ultimately show ?thesis
    by (simp add: TryAcquireLock_def Let_def lock_then_def in_os_def os_eval os_Lstat_def sys_open_def lock_open_def sys_fchmod_def open_path_def
        sys_flock_def sys_fails_def started_def sample_os_def)
qed

theorem lock_exclusive_witness:
  "\<exists>w. TryAcquireLock calm 1 ''/s/l'' (started sample_os) = (Inr (Some 0), w) \<and> locked_by ''/s/l'' w = {1}"
proof -
  obtain w where w: "TryAcquireLock calm 1 ''/s/l'' (started sample_os) = (Inr (Some 0), w)" using sample_lock_acquired by blast
  from lock_exclusive [OF rtranclp.rtrancl_refl w] show ?thesis using w by auto
qed

theorem lock_handed_over_witness:
  "\<exists>w. kn_owner w ''/s/l'' = Some 0 \<and> holders 0 w = [1]
    \<and> locked_by ''/s/l'' (snd (snd (lock_DropReference calm 1 (Some 0) (sys_inherit 2 0 w)))) = {2}"
proof -
  obtain w where w: "TryAcquireLock calm 1 ''/s/l'' (started sample_os) = (Inr (Some 0), w)" using sample_lock_acquired by blast
  have inv: "lock_inv (started sample_os)" by (rule reachable_lock_inv [OF rtranclp.rtrancl_refl])
  from inv w have o: "kn_owner w ''/s/l'' = Some 0" "holders 0 w = [1]"
    by (cases rule: acquire_cases; simp add: started_def holders_def)+
  obtain r l w' where d: "lock_DropReference calm 1 (Some 0) (sys_inherit 2 0 w) = (r, l, w')" by (metis prod.collapse)
  from lock_handed_over [OF r_into_rtranclp [where r = lock_step, OF step_acquire [OF w]] o _ d] show ?thesis using o d by auto
qed

end
