(* ===== verification/Idle_Monitor.thy ===== *)
theory Idle_Monitor
  imports Prelude
begin

text \<open>
  \<open>daemon/idle.go\<close>: the daemon ends itself when no request was served for a while. The monitor
  counts the requests that are open; one goroutine waits on it while requests begin and end beside it.
  Times are in nanoseconds.
\<close>

section \<open>The monitor\<close>

text \<open>\<open>im_wake\<close> is whether the channel, which has room for one, holds a signal.\<close>

record IdleMonitor =
  im_timeout :: int
  im_active :: int
  im_lastActivity :: int
  im_wake :: bool

definition DefaultIdleTimeout :: int where
  "DefaultIdleTimeout = 600000000000"

definition NewIdleMonitor :: "int \<Rightarrow> int \<Rightarrow> IdleMonitor result" where
  "NewIdleMonitor now timeout =
     (if timeout \<le> 0 then Inl (Errorf ''create idle monitor: positive timeout is required'')
      else Inr \<lparr> im_timeout = timeout, im_active = 0, im_lastActivity = now, im_wake = False \<rparr>)"

definition monitor_signal :: "IdleMonitor \<Rightarrow> IdleMonitor" where
  "monitor_signal m = m\<lparr>im_wake := True\<rparr>"

definition monitor_Begin :: "int \<Rightarrow> IdleMonitor \<Rightarrow> IdleMonitor" where
  "monitor_Begin now m = monitor_signal (m\<lparr>im_active := im_active m + 1, im_lastActivity := now\<rparr>)"

text \<open>What the function returned by \<open>Begin\<close> does when it is called for the first time.\<close>

definition end_activity :: "int \<Rightarrow> IdleMonitor \<Rightarrow> IdleMonitor" where
  "end_activity now m =
     monitor_signal (m\<lparr>im_active := (if 0 < im_active m then im_active m - 1 else im_active m), im_lastActivity := now\<rparr>)"

definition monitor_Touch :: "int \<Rightarrow> IdleMonitor \<Rightarrow> IdleMonitor" where
  "monitor_Touch now m = monitor_signal (m\<lparr>im_lastActivity := now\<rparr>)"

section \<open>Waiting\<close>

text \<open>
  The waiting goroutine is about to look at the monitor, blocked with the time its timer fires at, if
  it has one, or has returned.
\<close>

datatype waiter = Looking | Blocked "int option" | Returned "unit result"

definition wait_look :: "int \<Rightarrow> IdleMonitor \<Rightarrow> waiter" where
  "wait_look now m =
     (let remaining = im_timeout m - (now - im_lastActivity m) in
      if im_active m = 0 \<and> remaining \<le> 0 then Returned (Inr ())
      else if 0 < im_active m then Blocked None
      else Blocked (Some (now + remaining)))"

definition monitor_Wait :: "bool \<Rightarrow> waiter" where
  "monitor_Wait has_context = (if has_context then Looking else Returned (Inl (Errorf ''wait for idle timeout: context is required'')))"

text \<open>
  The monitor, the clock, the requests that began and have not ended, and the waiter. \<open>iw_times\<close> are
  the times of all activity.
\<close>

record idle_world =
  iw_now :: int
  iw_monitor :: IdleMonitor
  iw_open :: "nat set"
  iw_next :: nat
  iw_times :: "int list"
  iw_waiter :: waiter

text \<open>A request's function may be called again, by a defer and by hand, and then does nothing.\<close>

inductive idle_step :: "idle_world \<Rightarrow> idle_world \<Rightarrow> bool" where
  idle_time: "0 \<le> d \<Longrightarrow> idle_step w (w\<lparr>iw_now := iw_now w + d\<rparr>)"
| idle_begin: "idle_step w (w\<lparr>iw_monitor := monitor_Begin (iw_now w) (iw_monitor w), iw_open := insert (iw_next w) (iw_open w),
    iw_next := Suc (iw_next w), iw_times := iw_now w # iw_times w\<rparr>)"
| idle_end: "r \<in> iw_open w \<Longrightarrow> idle_step w (w\<lparr>iw_monitor := end_activity (iw_now w) (iw_monitor w), iw_open := iw_open w - {r},
    iw_times := iw_now w # iw_times w\<rparr>)"
| idle_end_again: "r \<notin> iw_open w \<Longrightarrow> idle_step w w"
| idle_touch: "idle_step w (w\<lparr>iw_monitor := monitor_Touch (iw_now w) (iw_monitor w), iw_times := iw_now w # iw_times w\<rparr>)"
| idle_look: "iw_waiter w = Looking \<Longrightarrow> idle_step w (w\<lparr>iw_waiter := wait_look (iw_now w) (iw_monitor w)\<rparr>)"
| idle_woken: "iw_waiter w = Blocked d \<Longrightarrow> im_wake (iw_monitor w) \<Longrightarrow>
    idle_step w (w\<lparr>iw_waiter := Looking, iw_monitor := (iw_monitor w)\<lparr>im_wake := False\<rparr>\<rparr>)"
| idle_timer: "iw_waiter w = Blocked (Some t) \<Longrightarrow> t \<le> iw_now w \<Longrightarrow> idle_step w (w\<lparr>iw_waiter := Looking\<rparr>)"
| idle_canceled: "iw_waiter w = Blocked d \<Longrightarrow> idle_step w (w\<lparr>iw_waiter := Returned (Inl e)\<rparr>)"

definition idle_start :: "int \<Rightarrow> IdleMonitor \<Rightarrow> idle_world" where
  "idle_start now m = \<lparr> iw_now = now, iw_monitor = m, iw_open = {}, iw_next = 0, iw_times = [now], iw_waiter = monitor_Wait True \<rparr>"

section \<open>Invariants\<close>

definition counts_open :: "idle_world \<Rightarrow> bool" where
  "counts_open w \<longleftrightarrow> finite (iw_open w) \<and> im_active (iw_monitor w) = int (card (iw_open w)) \<and> (\<forall>r \<in> iw_open w. r < iw_next w)"

definition knows_last :: "idle_world \<Rightarrow> bool" where
  "knows_last w \<longleftrightarrow> (\<forall>t \<in> set (iw_times w). t \<le> im_lastActivity (iw_monitor w)) \<and> im_lastActivity (iw_monitor w) \<le> iw_now w
     \<and> im_lastActivity (iw_monitor w) \<in> set (iw_times w)"

text \<open>A blocked waiter that is not about to be woken has seen the monitor as it is.\<close>

definition waits_well :: "idle_world \<Rightarrow> bool" where
  "waits_well w \<longleftrightarrow> (case iw_waiter w of
     Blocked None \<Rightarrow> im_wake (iw_monitor w) \<or> 0 < im_active (iw_monitor w)
   | Blocked (Some t) \<Rightarrow> im_wake (iw_monitor w) \<or> im_active (iw_monitor w) = 0 \<and> t = im_lastActivity (iw_monitor w) + im_timeout (iw_monitor w)
   | _ \<Rightarrow> True)"

lemmas monitor_defs = monitor_Begin_def end_activity_def monitor_Touch_def monitor_signal_def

lemma counts_open_step: "idle_step w w' \<Longrightarrow> counts_open w \<Longrightarrow> counts_open w'"
proof (induction rule: idle_step.induct)
  case (idle_begin w)
  then have "iw_next w \<notin> iw_open w" by (auto simp: counts_open_def)
  with idle_begin show ?case by (auto simp: counts_open_def monitor_defs less_SucI)
next
  case (idle_end r w)
  then have "0 < card (iw_open w)" by (auto simp: counts_open_def card_gt_0_iff)
  with idle_end show ?case by (auto simp: counts_open_def monitor_defs of_nat_diff)
qed (auto simp: counts_open_def monitor_defs)

lemma knows_last_step: "idle_step w w' \<Longrightarrow> knows_last w \<Longrightarrow> knows_last w'"
  by (induction rule: idle_step.induct) (fastforce simp: knows_last_def monitor_defs)+

lemma waits_well_step: "idle_step w w' \<Longrightarrow> counts_open w \<Longrightarrow> waits_well w \<Longrightarrow> waits_well w'"
  by (induction rule: idle_step.induct)
    (auto simp: waits_well_def monitor_defs wait_look_def counts_open_def Let_def split: waiter.splits option.splits)

lemma timeout_step: "idle_step w w' \<Longrightarrow> im_timeout (iw_monitor w') = im_timeout (iw_monitor w)"
  by (induction rule: idle_step.induct) (simp_all add: monitor_defs)

lemma idle_reachable:
  assumes "idle_step\<^sup>*\<^sup>* (idle_start now m) w" "NewIdleMonitor now timeout = Inr m"
  shows "counts_open w \<and> knows_last w \<and> waits_well w \<and> im_timeout (iw_monitor w) = timeout"
  using assms(1)
proof (induction rule: rtranclp_induct)
  case base
  show ?case using assms(2)
    by (auto simp: NewIdleMonitor_def idle_start_def counts_open_def knows_last_def waits_well_def monitor_Wait_def split: if_splits)
next
  case (step y z)
  then show ?case using counts_open_step knows_last_step waits_well_step timeout_step by metis
qed

text \<open>C29: the daemon never ends itself under a request. Whatever requests began, ended and touched the monitor beside the waiting
  goroutine, it finds the daemon idle only when no request is open and the last activity of any kind is at least the
  timeout ago; and while it is blocked it cannot miss that: it has a signal to wake up on, a request is
  still open, or its timer fires exactly the timeout after the last activity.\<close>

theorem idle_only_when_idle:
  assumes "idle_step\<^sup>*\<^sup>* (idle_start now m) w" and "NewIdleMonitor now timeout = Inr m"
  shows "(wait_look (iw_now w) (iw_monitor w) = Returned (Inr ()) \<longleftrightarrow> iw_open w = {} \<and> (\<forall>t \<in> set (iw_times w). t + timeout \<le> iw_now w))
    \<and> (\<forall>d. iw_waiter w = Blocked d \<longrightarrow> im_wake (iw_monitor w)
        \<or> (case d of None \<Rightarrow> iw_open w \<noteq> {} | Some t \<Rightarrow> iw_open w = {} \<and> t = Max (set (iw_times w)) + timeout))"
proof -
  note inv = idle_reachable [OF assms]
  have last: "im_lastActivity (iw_monitor w) = Max (set (iw_times w))"
    using inv unfolding knows_last_def by (intro Max_eqI [symmetric]) auto
  have none: "im_active (iw_monitor w) = 0 \<longleftrightarrow> iw_open w = {}" "0 < im_active (iw_monitor w) \<longleftrightarrow> iw_open w \<noteq> {}"
    using inv by (auto simp: counts_open_def card_gt_0_iff)
  have "im_timeout (iw_monitor w) - (iw_now w - im_lastActivity (iw_monitor w)) \<le> 0 \<longleftrightarrow> (\<forall>t \<in> set (iw_times w). t + timeout \<le> iw_now w)"
    using inv unfolding knows_last_def by fastforce
  then have "wait_look (iw_now w) (iw_monitor w) = Returned (Inr ()) \<longleftrightarrow> iw_open w = {} \<and> (\<forall>t \<in> set (iw_times w). t + timeout \<le> iw_now w)"
    using none(1) unfolding wait_look_def Let_def by simp
  moreover have "im_wake (iw_monitor w) \<or> (case d of None \<Rightarrow> iw_open w \<noteq> {} | Some t \<Rightarrow> iw_open w = {} \<and> t = Max (set (iw_times w)) + timeout)"
    if "iw_waiter w = Blocked d" for d
    using inv that last none unfolding waits_well_def by (auto split: option.splits)
  ultimately show ?thesis by blast
qed

text \<open>A request begins and ends, and the time passes.\<close>

theorem idle_only_when_idle_witness:
  "\<exists>m w. NewIdleMonitor 0 5 = Inr m \<and> idle_step\<^sup>*\<^sup>* (idle_start 0 m) w \<and> iw_times w = [0, 0, 0]
    \<and> wait_look (iw_now w) (iw_monitor w) = Returned (Inr ())"
proof -
  define m where "m = \<lparr> im_timeout = 5, im_active = 0, im_lastActivity = 0, im_wake = False \<rparr>"
  have m: "NewIdleMonitor 0 5 = Inr m" by (simp add: NewIdleMonitor_def m_def)
  define w1 where "w1 = (idle_start 0 m)\<lparr>iw_monitor := monitor_Begin 0 m, iw_open := {0}, iw_next := 1, iw_times := [0, 0]\<rparr>"
  define w2 where "w2 = w1\<lparr>iw_monitor := end_activity 0 (iw_monitor w1), iw_open := {}, iw_times := [0, 0, 0]\<rparr>"
  define w3 where "w3 = w2\<lparr>iw_now := 5\<rparr>"
  have "idle_step (idle_start 0 m) w1" using idle_begin [of "idle_start 0 m"] by (simp add: w1_def idle_start_def)
  moreover have "idle_step w1 w2" using idle_end [of 0 w1] by (simp add: w2_def) (simp add: w1_def idle_start_def)
  moreover have "idle_step w2 w3" using idle_time [of 5 w2] by (simp add: w3_def) (simp add: w2_def w1_def idle_start_def)
  ultimately have reach: "idle_step\<^sup>*\<^sup>* (idle_start 0 m) w3" by (blast intro: rtranclp.rtrancl_into_rtrancl)
  have "iw_open w3 = {}" "iw_times w3 = [0, 0, 0]" "iw_now w3 = 5" by (simp_all add: w3_def w2_def w1_def)
  then have "wait_look (iw_now w3) (iw_monitor w3) = Returned (Inr ())"
    using idle_only_when_idle [OF reach m, THEN conjunct1] by simp
  then show ?thesis using m reach \<open>iw_times w3 = _\<close> by blast
qed

end
