(* ===== verification/Effect_Log.thy ===== *)
theory Effect_Log
  imports Prelude
begin

text \<open>
  Programs that act on an environment which answers each call, and keep a list of what they did.
\<close>

type_synonym ('w, 'l) logged = "'w \<times> 'l list"

definition done_act :: "'l \<Rightarrow> ('w, 'l) logged \<Rightarrow> ('w, 'l) logged" where
  "done_act a st = (fst st, snd st @ [a])"

definition call :: "('w \<Rightarrow> 'a \<times> 'w) \<Rightarrow> ('w, 'l) logged \<Rightarrow> 'a \<times> ('w, 'l) logged" where
  "call f st = (case f (fst st) of (r, w) \<Rightarrow> (r, (w, snd st)))"

lemma snd_call [simp]: "snd (snd (call f st)) = snd st"
  by (simp add: call_def split: prod.split)

lemma call_log: "call f st = (r, st') \<Longrightarrow> snd st' = snd st"
  using snd_call [of f st] by simp

lemma call_eq: "f (fst st) = (r, w) \<Longrightarrow> call f st = (r, (w, snd st))"
  by (simp add: call_def)

lemma done_act_log [simp]: "snd (done_act a st) = snd st @ [a]" "fst (done_act a st) = fst st"
  by (simp_all add: done_act_def)

end
