(* ===== verification/Daemon_Service.thy ===== *)
theory Daemon_Service
  imports Daemon_Control Daemon_Lock Idle_Monitor Effect_Log Tool_Catalog Runner OpenAI_Request Compat
begin

text \<open>
  \<open>daemon/service.go\<close>: the daemon's life. It holds the lock, makes up its credentials, serves until it
  is idle, asked to stop or its server fails, publishes where it is, and always cleans up. The files,
  the certificates, the clock and the network answer as an environment; what the service did is kept
  as a list of actions.
\<close>

section \<open>Options\<close>

text \<open>The lock is \<open>None\<close> for nil; \<open>so_IdleTimeout\<close> is in nanoseconds.\<close>

record ServiceOptions =
  sp_Paths :: Paths
  sp_Version :: string
  sp_Lock :: "FileLock option"
  sp_ListenAddress :: string
  sp_IdleTimeout :: int
  sp_HasHandler :: bool

text \<open>The paths are looked at in the order in which the map gives them.\<close>

definition validateServiceOptions :: "((string \<times> string) list \<Rightarrow> (string \<times> string) list) \<Rightarrow> ServiceOptions \<Rightarrow> unit result" where
  "validateServiceOptions order options =
     (case find (\<lambda>(name, path). path = [] \<or> \<not> filepath_IsAbs path)
         (order [(''config file'', pa_ConfigFile (sp_Paths options)), (''data dir'', pa_DataDir (sp_Paths options)),
           (''state dir'', pa_StateDir (sp_Paths options))]) of
        Some (name, path) \<Rightarrow> Inl (Errorf (''run daemon service: '' @ name @ '' must be absolute''))
      | None \<Rightarrow>
          if sp_Version options = [] then Inl (Errorf ''run daemon service: version is required'')
          else if (case sp_Lock options of None \<Rightarrow> True | Some l \<Rightarrow> l = None) then
            Inl (Errorf ''run daemon service: owned lock is required'')
          else Inr ())"

section \<open>The runner\<close>

text \<open>
  The functions the runner is made with: a model is resolved in the configuration as it is then and
  with the secrets as they are then, and streamed by a client for its own endpoint.
\<close>

definition service_resolver :: "Config result \<Rightarrow> ProviderEnvironment option \<Rightarrow> string \<Rightarrow> ResolvedModel result" where
  "service_resolver loaded environment alias =
     try_then loaded (\<lambda>cfg. ResolveModel cfg alias (Some (ProviderEnvironment_Getenv environment)))"

definition service_client :: "ResolvedModel \<Rightarrow> openai_Client result" where
  "service_client model = NewClient \<lparr> oo_BaseURL = rm_BaseURL model, oo_Endpoint = rm_Endpoint model, oo_APIKey = rm_APIKey model,
     oo_Headers = rm_Headers model, oo_MaxEventBytes = 0 \<rparr>"

definition service_runner ::
  "(string \<Rightarrow> ResolvedModel result) \<Rightarrow> (openai_Client \<Rightarrow> 'w Streamer) \<Rightarrow> 'w Runner result" where
  "service_runner resolve stream =
     try_wrap (Wrapf ''run daemon service: create tool catalog: '')
       (Select [''Read'', ''Write'', ''Edit'', ''Delete'', ''List'', ''Glob'', ''Grep'', ''Shell'']) (\<lambda>toolCatalog.
     try_wrap (Wrapf ''run daemon service: create agent runner: '')
       (NewRunner (Some resolve) (Some (\<lambda>model. try_then (service_client model) (\<lambda>c. Inr (Some (stream c))))) toolCatalog) Inr)"

section \<open>Requests\<close>

text \<open>
  The handler behind the token check: the two control requests, and everything else. Its state is
  the application's, the secrets, and whether the service was asked to stop.
\<close>

record 's service_state =
  st_core :: 's
  st_secrets :: "ProviderEnvironment option"
  st_canceled :: bool

definition service_ServeHTTP ::
  "ConfigLoader \<Rightarrow> (http_request \<Rightarrow> 's \<Rightarrow> served \<times> 's) \<Rightarrow> http_request \<Rightarrow> 's service_state \<Rightarrow> served \<times> 's service_state" where
  "service_ServeHTTP load core request st =
     (if hq_Path request = ProviderEnvironmentPath then
        (case providerEnvironment_ServeHTTP load True request of (response, updated) \<Rightarrow>
          (respond response, (case updated of None \<Rightarrow> st
             | Some values \<Rightarrow> st\<lparr>st_secrets := ProviderEnvironment_Update values (st_secrets st)\<rparr>)))
      else if hq_Path request = ShutdownPath then
        (case shutdown_ServeHTTP True request of (response, shutdown) \<Rightarrow>
          (respond response, st\<lparr>st_canceled := st_canceled st \<or> shutdown\<rparr>))
      else (case core request (st_core st) of (served, s) \<Rightarrow> (served, st\<lparr>st_core := s\<rparr>)))"

section \<open>The life of the service\<close>

datatype service_end = Server_Stopped "unit result" | Idle_Returned "unit result" | Context_Ended goerror

text \<open>\<open>lv_Wait\<close> is what the \<open>select\<close> gets first, \<open>lv_Result\<close> the server's result after it was shut down.\<close>

record 'w service_env =
  lv_Config :: "'w \<Rightarrow> Config result \<times> 'w"
  lv_Certificates :: "'w \<Rightarrow> string result \<times> 'w"
  lv_Random :: "nat \<Rightarrow> 'w \<Rightarrow> bytes option \<times> 'w"
  lv_Bind :: "string \<Rightarrow> 'w \<Rightarrow> (string \<times> int) result"
  lv_Err :: "'w \<Rightarrow> goerror option"
  lv_Pid :: int
  lv_Now :: "'w \<Rightarrow> gotime \<times> 'w"
  lv_Save :: "State \<Rightarrow> 'w \<Rightarrow> unit result \<times> 'w"
  lv_Remove :: "'w \<Rightarrow> unit result \<times> 'w"
  lv_CloseLock :: "'w \<Rightarrow> unit result \<times> 'w"
  lv_Shutdown :: "'w \<Rightarrow> unit result \<times> 'w"
  lv_Wait :: "'w \<Rightarrow> service_end \<times> 'w"
  lv_Result :: "'w \<Rightarrow> unit result \<times> 'w"

datatype service_act =
    Serving server_Options string
  | Published State
  | Service_Canceled
  | Shut_Down
  | Cleared_State
  | Closed_Lock

type_synonym 'w serving = "('w, service_act) logged"

definition shutdownServiceServer :: "'w service_env \<Rightarrow> 'w serving \<Rightarrow> unit result \<times> 'w serving" where
  "shutdownServiceServer env st = (case call (lv_Shutdown env) (done_act Shut_Down st) of
     (Inl e, st) \<Rightarrow> (Inl (Wrapf ''run daemon service: shutdown server: '' e), st)
   | (Inr _, st) \<Rightarrow> (Inr (), st))"

text \<open>The \<open>select\<close> at the end.\<close>

definition serve_until :: "'w service_env \<Rightarrow> 'w serving \<Rightarrow> unit result \<times> 'w serving" where
  "serve_until env st = (case call (lv_Wait env) st of
     (Server_Stopped r, st) \<Rightarrow> ((case r of Inl e \<Rightarrow> Inl (Wrapf ''run daemon service: server stopped: '' e) | Inr _ \<Rightarrow> Inr ()), done_act Service_Canceled st)
   | (Idle_Returned r, st) \<Rightarrow>
       if (case r of Inl e \<Rightarrow> \<not> error_is Context_Canceled e | Inr _ \<Rightarrow> False) then
         ((case r of Inl e \<Rightarrow> Inl (Wrapf ''run daemon service: idle monitor: '' e) | Inr _ \<Rightarrow> Inr ()), st)
       else (case shutdownServiceServer env (done_act Service_Canceled st) of
           (Inl e, st) \<Rightarrow> (Inl e, st)
         | (Inr _, st) \<Rightarrow> call (lv_Result env) st)
   | (Context_Ended e, st) \<Rightarrow> (case shutdownServiceServer env (done_act Service_Canceled st) of
           (Inl x, st) \<Rightarrow> (Inl x, st)
         | (Inr _, st) \<Rightarrow> (case call (lv_Result env) st of
             (Inl x, st) \<Rightarrow> (Inl x, st)
           | (Inr _, st) \<Rightarrow> ((if error_is Context_Canceled e then Inr () else Inl e), st))))"

text \<open>From the address to the end, with the server's options.\<close>

definition run_server :: "'w service_env \<Rightarrow> string \<Rightarrow> server_Options \<Rightarrow> 'w serving \<Rightarrow> unit result \<times> 'w serving" where
  "run_server env caCertPath options st =
     (case server_Start (Some (lv_Err env (fst st))) options (\<lambda>address. lv_Bind env address (fst st)) of
         Inl e \<Rightarrow> (Inl (Wrapf ''run daemon service: '' e), st)
       | Inr url \<Rightarrow> let st = done_act (Serving options url) st in
           (case endpointPort url of
              Inl e \<Rightarrow> (Inl (Wrapf ''run daemon service: '' e), snd (shutdownServiceServer env st))
            | Inr port \<Rightarrow> (case call (lv_Now env) st of (now, st) \<Rightarrow>
                let state = \<lparr> ds_Version = CurrentStateVersion, ds_PID = lv_Pid env, ds_Port = port, ds_CACertPath = caCertPath,
                      ds_DaemonVersion = so_DaemonVersion options, ds_InstanceID = so_InstanceID options,
                      ds_AuthToken = so_AuthToken options, ds_StartedAt = now \<rparr> in
                (case call (lv_Save env state) st of
                   (Inl e, st) \<Rightarrow> (Inl (Wrapf ''run daemon service: publish state: '' e), snd (shutdownServiceServer env st))
                 | (Inr _, st) \<Rightarrow> serve_until env (done_act (Published state) st)))))"

definition run_configured ::
  "'w service_env \<Rightarrow> ServiceOptions \<Rightarrow> unit result \<Rightarrow> 'w serving \<Rightarrow> unit result \<times> 'w serving" where
  "run_configured env options runner st =
     (case call (lv_Config env) st of
        (Inl e, st) \<Rightarrow> (Inl (Wrapf ''run daemon service: '' e), st)
      | (Inr cfg, st) \<Rightarrow> (case call (lv_Certificates env) st of
          (Inl e, st) \<Rightarrow> (Inl (Wrapf ''run daemon service: '' e), st)
        | (Inr caCertPath, st) \<Rightarrow> (case call (lv_Random env 16) st of (random, st) \<Rightarrow> (case newInstanceID random of
            Inl e \<Rightarrow> (Inl (Wrapf ''run daemon service: create instance ID: '' e), st)
          | Inr instanceID \<Rightarrow> (case call (lv_Random env 32) st of (random, st) \<Rightarrow> (case newAuthToken random of
              Inl e \<Rightarrow> (Inl (Wrapf ''run daemon service: create auth token: '' e), st)
            | Inr authToken \<Rightarrow>
                (case NewIdleMonitor 0 (if sp_IdleTimeout options \<le> 0 then DefaultIdleTimeout else sp_IdleTimeout options) of
                   Inl e \<Rightarrow> (Inl (Wrapf ''run daemon service: '' e), st)
                 | Inr monitor \<Rightarrow>
                     (case (if sp_HasHandler options then Inr () else runner) of
                        Inl e \<Rightarrow> (Inl e, done_act Service_Canceled st)
                      | Inr _ \<Rightarrow>
                          (case run_server env caCertPath \<lparr> so_ListenAddress = sp_ListenAddress options, so_HasCertificate = True,
                              so_InstanceID = instanceID, so_AuthToken = authToken, so_DaemonVersion = sp_Version options \<rparr> st of
                             (r, st) \<Rightarrow> (r, done_act Service_Canceled st))))))))))"

definition join_three :: "unit result \<Rightarrow> unit result \<Rightarrow> unit result \<Rightarrow> unit result" where
  "join_three a b c = join_errors a (join_errors b c)"

text \<open>The function itself, with its two deferred functions.\<close>

definition RunService ::
  "'w service_env \<Rightarrow> ((string \<times> string) list \<Rightarrow> (string \<times> string) list) \<Rightarrow> bool \<Rightarrow> ServiceOptions \<Rightarrow> unit result
   \<Rightarrow> 'w serving \<Rightarrow> unit result \<times> 'w serving" where
  "RunService env order has_context options runner st =
     (if \<not> has_context then (Inl (Errorf ''run daemon service: context is required''), st)
      else (case validateServiceOptions order options of
        Inl e \<Rightarrow> (Inl e, st)
      | Inr _ \<Rightarrow> (case run_configured env options runner st of
          (runError, st) \<Rightarrow> (case call (lv_Remove env) (done_act Cleared_State st) of
            (removeError, st) \<Rightarrow> (case call (lv_CloseLock env) (done_act Closed_Lock st) of
              (lockError, st) \<Rightarrow> (join_three runError removeError lockError, st))))))"

section \<open>What the service does, in order\<close>

lemma shutdown_log: "shutdownServiceServer env st = (r, st') \<Longrightarrow> snd st' = snd st @ [Shut_Down]"
  by (auto simp: shutdownServiceServer_def dest!: call_log split: prod.splits sum.splits)

definition end_shape :: "service_act list \<Rightarrow> bool" where
  "end_shape l \<longleftrightarrow> l = [] \<or> l = [Service_Canceled] \<or> l = [Service_Canceled, Shut_Down]"

lemma until_log:
  assumes "serve_until env st = (r, st')"
  shows "\<exists>l. snd st' = snd st @ l \<and> end_shape l"
proof -
  obtain w st1 where w: "call (lv_Wait env) st = (w, st1)" by (cases "call (lv_Wait env) st")
  note log1 = call_log [OF w]
  obtain r2 st2 where s: "shutdownServiceServer env (done_act Service_Canceled st1) = (r2, st2)"
    by (cases "shutdownServiceServer env (done_act Service_Canceled st1)")
  have log2: "snd st2 = snd st @ [Service_Canceled, Shut_Down]" using shutdown_log [OF s] log1 by simp
  obtain r3 st3 where res: "call (lv_Result env) st2 = (r3, st3)" by (cases "call (lv_Result env) st2")
  have log3: "snd st3 = snd st2" by (rule call_log [OF res])
  have "st' = done_act Service_Canceled st1 \<or> st' = st1 \<or> st' = st2 \<or> st' = st3"
    using assms w s res unfolding serve_until_def
    by (cases w; cases r2; cases r3) (simp_all split: if_splits)
  then show ?thesis using log1 log2 log3 unfolding end_shape_def by (elim disjE) simp_all
qed

definition served_state :: "server_Options \<Rightarrow> string \<Rightarrow> State \<Rightarrow> bool" where
  "served_state o' url s \<longleftrightarrow> ds_InstanceID s = so_InstanceID o' \<and> ds_AuthToken s = so_AuthToken o'
     \<and> ds_DaemonVersion s = so_DaemonVersion o' \<and> endpointPort url = Inr (ds_Port s)"

definition server_shape :: "server_Options \<Rightarrow> string \<Rightarrow> service_act list \<Rightarrow> bool" where
  "server_shape o' url l \<longleftrightarrow> l = [Serving o' url, Shut_Down]
     \<or> (\<exists>s e. l = [Serving o' url, Published s] @ e \<and> end_shape e \<and> served_state o' url s)"

lemma server_log:
  assumes "run_server env ca options st = (r, st')"
  shows "(snd st' = snd st \<and> (\<exists>e. r = Inl e)) \<or> (\<exists>url l ctx listen. snd st' = snd st @ l \<and> server_shape options url l
    \<and> server_Start ctx options listen = Inr url
    \<and> (\<forall>s. Published s \<in> set l \<longrightarrow> ds_Version s = CurrentStateVersion \<and> ds_PID s = lv_Pid env \<and> ds_CACertPath s = ca
        \<and> (\<exists>w. ds_StartedAt s = fst (lv_Now env w))))"
proof (cases "server_Start (Some (lv_Err env (fst st))) options (\<lambda>address. lv_Bind env address (fst st))")
  case (Inl e)
  then show ?thesis using assms by (auto simp: run_server_def)
next
  case (Inr url)
  define st1 where "st1 = done_act (Serving options url) st"
  have log1: "snd st1 = snd st @ [Serving options url]" by (simp add: st1_def)
  show ?thesis
  proof (cases "endpointPort url")
    case (Inl e)
    obtain r2 st2 where s: "shutdownServiceServer env st1 = (r2, st2)" by (cases "shutdownServiceServer env st1")
    then have "st' = st2" using assms Inr Inl by (simp add: run_server_def st1_def Let_def)
    then show ?thesis using shutdown_log [OF s] log1 Inr
      by (intro disjI2 exI [of _ url] exI [of _ "[Serving options url, Shut_Down]"]) (auto simp: server_shape_def)
  next
    case port: (Inr port)
    obtain now st2 where n: "call (lv_Now env) st1 = (now, st2)" by (cases "call (lv_Now env) st1")
    have now: "now = fst (lv_Now env (fst st1))" using n by (simp add: call_def split: prod.splits)
    define s where "s = \<lparr> ds_Version = CurrentStateVersion, ds_PID = lv_Pid env, ds_Port = port, ds_CACertPath = ca,
                      ds_DaemonVersion = so_DaemonVersion options, ds_InstanceID = so_InstanceID options,
                      ds_AuthToken = so_AuthToken options, ds_StartedAt = now \<rparr>"
    obtain r3 st3 where sv: "call (lv_Save env s) st2 = (r3, st3)" by (cases "call (lv_Save env s) st2")
    have log3: "snd st3 = snd st @ [Serving options url]" using call_log [OF sv] call_log [OF n] log1 by simp
    show ?thesis
    proof (cases r3)
      case (Inl e)
      obtain r4 st4 where sd: "shutdownServiceServer env st3 = (r4, st4)" by (cases "shutdownServiceServer env st3")
      then have "st' = st4" using assms Inr port n sv Inl by (simp add: run_server_def st1_def s_def Let_def)
      then show ?thesis using shutdown_log [OF sd] log3 Inr
        by (intro disjI2 exI [of _ url] exI [of _ "[Serving options url, Shut_Down]"]) (auto simp: server_shape_def)
    next
      case r3: (Inr u)
      then have u: "serve_until env (done_act (Published s) st3) = (r, st')"
        using assms Inr port n sv by (simp add: run_server_def st1_def s_def Let_def)
      from until_log [OF this] obtain e where e: "snd st' = snd st @ [Serving options url, Published s] @ e" "end_shape e"
        using log3 by auto
      have "Published s' \<notin> set e" for s' using e(2) by (auto simp: end_shape_def)
      moreover have "served_state options url s" using port by (simp add: served_state_def s_def)
      ultimately show ?thesis using e Inr now
        by (intro disjI2 exI [of _ url] exI [of _ "[Serving options url, Published s] @ e"]) (auto simp: server_shape_def s_def)
    qed
  qed
qed

text \<open>What the surroundings of the service give: as many random bytes as were asked for, a process ID, a clock, absolute paths.\<close>

definition service_env_ok :: "'w service_env \<Rightarrow> bool" where
  "service_env_ok env \<longleftrightarrow> (\<forall>n w b. fst (lv_Random env n w) = Some b \<longrightarrow> length b = n) \<and> 1 \<le> lv_Pid env
     \<and> (\<forall>w. \<not> time_IsZero (fst (lv_Now env w))) \<and> (\<forall>w p. fst (lv_Certificates env w) = Inr p \<longrightarrow> filepath_IsAbs p)"

lemma endpointPort_range: "endpointPort url = Inr port \<Longrightarrow> 1 \<le> port \<and> port \<le> 65535"
  by (auto simp: endpointPort_def split: option.splits if_splits)

lemma published_valid:
  assumes "served_state o' url s" "server_Start ctx o' listen = Inr url" "validJWTShape (so_AuthToken o')"
    and "ds_Version s = CurrentStateVersion" "1 \<le> ds_PID s" "filepath_IsAbs (ds_CACertPath s)" "\<not> time_IsZero (ds_StartedAt s)"
  shows "State_Validate s = Inr ()"
proof -
  have start: "instanceIDPattern (so_InstanceID o')" "so_DaemonVersion o' \<noteq> []" "so_DaemonVersion o' = trimSpace (so_DaemonVersion o')"
    "\<not> hasControl (so_DaemonVersion o')"
    using assms(2) by (auto simp: server_Start_def split: option.splits if_splits)
  have "1 \<le> ds_Port s \<and> ds_Port s \<le> 65535" using assms(1) endpointPort_range by (auto simp: served_state_def)
  then show ?thesis using assms start by (simp add: State_Validate_def served_state_def Let_def)
qed

definition service_shape :: "service_act list \<Rightarrow> bool" where
  "service_shape l \<longleftrightarrow> l = [] \<or> l = [Service_Canceled] \<or> (\<exists>o' url l'. l = l' @ [Service_Canceled] \<and> server_shape o' url l'
     \<and> (\<forall>s. Published s \<in> set l' \<longrightarrow> State_Validate s = Inr ()))"

lemma configured_log:
  assumes ok: "service_env_ok env" and run: "run_configured env options runner st = (r, st')"
  shows "\<exists>l. snd st' = snd st @ l \<and> service_shape l"
proof -
  obtain r1 st1 where c1: "call (lv_Config env) st = (r1, st1)" by (cases "call (lv_Config env) st")
  obtain r2 st2 where c2: "call (lv_Certificates env) st1 = (r2, st2)" by (cases "call (lv_Certificates env) st1")
  obtain r3 st3 where c3: "call (lv_Random env 16) st2 = (r3, st3)" by (cases "call (lv_Random env 16) st2")
  obtain r4 st4 where c4: "call (lv_Random env 32) st3 = (r4, st4)" by (cases "call (lv_Random env 32) st3")
  note log = call_log [OF c1] call_log [OF c2] call_log [OF c3] call_log [OF c4]
  have rand: "r3 = Some b \<Longrightarrow> length b = 16" "r4 = Some b \<Longrightarrow> length b = 32" for b
    using ok c3 c4 by (auto simp: service_env_ok_def call_def split: prod.splits) (metis fst_conv)+
  have cert: "r2 = Inr ca \<Longrightarrow> filepath_IsAbs ca" for ca
    using ok c2 by (auto simp: service_env_ok_def call_def split: prod.splits) (metis fst_conv)
  define timeout where "timeout = (if sp_IdleTimeout options \<le> 0 then DefaultIdleTimeout else sp_IdleTimeout options)"
  have "\<not> timeout \<le> 0" by (simp add: timeout_def DefaultIdleTimeout_def)
  then obtain monitor where monitor: "NewIdleMonitor 0 timeout = Inr monitor" by (simp add: NewIdleMonitor_def)
  define so where "so = (\<lambda>i t. \<lparr> so_ListenAddress = sp_ListenAddress options, so_HasCertificate = True,
     so_InstanceID = i, so_AuthToken = t, so_DaemonVersion = sp_Version options \<rparr>)"
  consider (early) "snd st' = snd st" | (canceled) "snd st' = snd st @ [Service_Canceled]"
    | (served) ca i t st5 where "r2 = Inr ca" "newAuthToken r4 = Inr t" "run_server env ca (so i t) st4 = (r, st5)" "st' = done_act Service_Canceled st5"
  proof (cases "\<exists>cfg ca i t. r1 = Inr cfg \<and> r2 = Inr ca \<and> newInstanceID r3 = Inr i \<and> newAuthToken r4 = Inr t")
    case False
    have "st' \<in> {st1, st2, st3, st4}"
      using run False c1 c2 c3 c4 unfolding run_configured_def
      by (cases r1; cases r2; cases "newInstanceID r3"; cases "newAuthToken r4") simp_all
    then show ?thesis using that(1) log by auto
  next
    case True
    then obtain cfg ca i t where h: "r1 = Inr cfg" "r2 = Inr ca" "newInstanceID r3 = Inr i" "newAuthToken r4 = Inr t" by blast
    obtain r5 st5 where s: "run_server env ca (so i t) st4 = (r5, st5)" by (cases "run_server env ca (so i t) st4")
    define q where "q = (if sp_HasHandler options then Inr () else runner)"
    have "(r, st') = (case q of
        Inl e \<Rightarrow> (Inl e, done_act Service_Canceled st4) | Inr _ \<Rightarrow> (r5, done_act Service_Canceled st5))"
      using run h c1 c2 c3 c4 s monitor unfolding run_configured_def timeout_def [symmetric] q_def [symmetric]
      by (cases q) (auto simp: so_def)
    then have "st' = done_act Service_Canceled st4 \<or> r = r5 \<and> st' = done_act Service_Canceled st5" by (auto split: sum.splits)
    then show ?thesis
    proof (elim disjE conjE)
      assume "st' = done_act Service_Canceled st4"
      then show ?thesis using log by (intro that(2)) simp
    next
      assume "r = r5" "st' = done_act Service_Canceled st5"
      then show ?thesis using s h by (intro that(3) [OF h(2,4), of i st5]) simp_all
    qed
  qed
  then show ?thesis
  proof cases
    case early
    then show ?thesis by (intro exI [of _ "[]"]) (simp add: service_shape_def)
  next
    case canceled
    then show ?thesis by (intro exI [of _ "[Service_Canceled]"]) (simp add: service_shape_def)
  next
    case (served ca i t st5)
    have log4: "snd st4 = snd st" using log by simp
    from server_log [OF served(3)] show ?thesis
    proof (elim disjE conjE exE)
      assume "snd st5 = snd st4"
      then show ?thesis using served(4) log4 by (intro exI [of _ "[Service_Canceled]"]) (simp add: service_shape_def)
    next
      fix url l ctx listen
      assume l: "snd st5 = snd st4 @ l" "server_shape (so i t) url l" and start: "server_Start ctx (so i t) listen = Inr url"
        and fields: "\<forall>s. Published s \<in> set l \<longrightarrow> ds_Version s = CurrentStateVersion \<and> ds_PID s = lv_Pid env \<and> ds_CACertPath s = ca
          \<and> (\<exists>w. ds_StartedAt s = fst (lv_Now env w))"
      have token: "validJWTShape (so_AuthToken (so i t))"
        using served(2) rand(2) auth_token_ok(1) by (cases r4) (auto simp: so_def newAuthToken_def)
      have "State_Validate s = Inr ()" if "Published s \<in> set l" for s
      proof (rule published_valid [OF _ start token])
        have "Published s' \<notin> set e" if "end_shape e" for s' e using that by (auto simp: end_shape_def)
        then show "served_state (so i t) url s" using l(2) that unfolding server_shape_def by auto
      qed (use fields that ok cert [OF served(1)] in \<open>auto simp: service_env_ok_def\<close>)
      then have "service_shape (l @ [Service_Canceled])" using l(2) unfolding service_shape_def by blast
      then show ?thesis using served(4) l(1) log4 by (intro exI [of _ "l @ [Service_Canceled]"]) simp
    qed
  qed
qed

text \<open>C23: the service cleans up, and publishes only what it serves. Whatever the configuration, the certificates, the network,
  the state file and the requests do, a service with valid options ends by removing its state and closing
  its lock, in this order and once each, after the context its server was started with has ended; a state it
  published in between is valid, and carries the instance ID, the token and the version of the running server
  and the port of its address.\<close>

theorem service_cleans_up:
  assumes "service_env_ok env" and "validateServiceOptions order options = Inr ()"
    and "RunService env order True options runner (w, []) = (r, (w', log))"
  shows "\<exists>before. log = before @ [Cleared_State, Closed_Lock] \<and> Cleared_State \<notin> set before \<and> Closed_Lock \<notin> set before
    \<and> (\<forall>o' url. Serving o' url \<in> set before \<longrightarrow> last before = Service_Canceled)
    \<and> (\<forall>s. Published s \<in> set before \<longrightarrow> State_Validate s = Inr () \<and> (\<exists>o' url. Serving o' url \<in> set before
        \<and> ds_InstanceID s = so_InstanceID o' \<and> ds_AuthToken s = so_AuthToken o' \<and> ds_DaemonVersion s = so_DaemonVersion o'
        \<and> endpointPort url = Inr (ds_Port s)))"
proof -
  obtain r1 st1 where run: "run_configured env options runner (w, []) = (r1, st1)" by (cases "run_configured env options runner (w, [])")
  from configured_log [OF assms(1) run] obtain l where l: "snd st1 = l" "service_shape l" by auto
  obtain r2 st2 where rm: "call (lv_Remove env) (done_act Cleared_State st1) = (r2, st2)" by (cases "call (lv_Remove env) (done_act Cleared_State st1)")
  obtain r3 st3 where cl: "call (lv_CloseLock env) (done_act Closed_Lock st2) = (r3, st3)" by (cases "call (lv_CloseLock env) (done_act Closed_Lock st2)")
  have "st3 = (w', log)" using assms(2,3) run rm cl by (simp add: RunService_def)
  then have log: "log = l @ [Cleared_State, Closed_Lock]" using call_log [OF cl] call_log [OF rm] l(1) by simp
  have e: "Cleared_State \<notin> set e \<and> Closed_Lock \<notin> set e \<and> Serving o' url \<notin> set e \<and> Published s \<notin> set e" if "end_shape e" for e o' url s
    using that by (auto simp: end_shape_def)
  have sh: "Cleared_State \<notin> set l' \<and> Closed_Lock \<notin> set l' \<and> Serving o' url \<in> set l' \<and> (\<forall>s. Published s \<in> set l' \<longrightarrow> served_state o' url s)"
    if "server_shape o' url l'" for o' url l'
    using that e unfolding server_shape_def by auto
  from l(2) consider "l = []" | "l = [Service_Canceled]" | o' url l' where "l = l' @ [Service_Canceled]" "server_shape o' url l'"
      "\<forall>s. Published s \<in> set l' \<longrightarrow> State_Validate s = Inr ()"
    unfolding service_shape_def by blast
  then show ?thesis
  proof cases
    case (3 o' url l')
    then show ?thesis using log sh [OF 3(2)] unfolding served_state_def by (intro exI [of _ l]) auto
  qed (simp_all add: log)
qed

text \<open>C25: nobody without the token controls the daemon. Behind the server's token check, a request changes what the daemon
  knows or does only when it carries the exact token of the published state; the secrets of the providers
  are then changed only by a POST to the environment's path, and the service is stopped only by an empty POST to the
  shutdown path.\<close>

theorem control_requires_token:
  assumes "rootHandler instanceID daemonVersion token (service_ServeHTTP load core) authorization request st = (served, st')"
  shows "(st' = st \<or> authorization = ''Bearer '' @ token)
    \<and> (st_secrets st' \<noteq> st_secrets st \<longrightarrow> hq_Path request = ProviderEnvironmentPath \<and> hq_Method request = ''POST'')
    \<and> (st_canceled st' \<noteq> st_canceled st \<longrightarrow>
        hq_Path request = ShutdownPath \<and> hq_Method request = ''POST'' \<and> rd_data (hq_Body request) = [])"
proof (cases "st' = st")
  case False
  have auth: "authorization = ''Bearer '' @ token" and s: "service_ServeHTTP load core request st = (served, st')"
    using assms False unfolding rootHandler_def Let_def
    by (auto simp: list_all2_conv_all_nth nth_equalityI split: if_splits)
  have "st_secrets st' \<noteq> st_secrets st \<longrightarrow> hq_Path request = ProviderEnvironmentPath \<and> hq_Method request = ''POST''"
    using s by (auto simp: service_ServeHTTP_def providerEnvironment_ServeHTTP_def Let_def split: prod.splits option.splits if_splits)
  moreover have "st_canceled st' \<noteq> st_canceled st \<longrightarrow>
      hq_Path request = ShutdownPath \<and> hq_Method request = ''POST'' \<and> rd_data (hq_Body request) = []"
    using s by (auto simp: service_ServeHTTP_def shutdown_ServeHTTP_def split: prod.splits option.splits if_splits)
  ultimately show ?thesis using auth by blast
qed simp

section \<open>A concrete service\<close>

definition sample_service_env :: "unit service_env" where
  "sample_service_env = \<lparr> lv_Config = (\<lambda>w. (Inr sample_config, w)), lv_Certificates = (\<lambda>w. (Inl (Errorf ''no certificates''), w)),
     lv_Random = (\<lambda>n w. (Some (replicate n (CHR ''x'')), w)), lv_Bind = (\<lambda>_ _. Inr (''127.0.0.1'', 4000)), lv_Err = (\<lambda>_. None),
     lv_Pid = 77, lv_Now = (\<lambda>w. (ds_StartedAt sample_state, w)), lv_Save = (\<lambda>_ w. (Inr (), w)), lv_Remove = (\<lambda>w. (Inr (), w)),
     lv_CloseLock = (\<lambda>w. (Inr (), w)), lv_Shutdown = (\<lambda>w. (Inr (), w)), lv_Wait = (\<lambda>w. (Context_Ended Context_Canceled, w)),
     lv_Result = (\<lambda>w. (Inr (), w)) \<rparr>"

definition sample_service :: ServiceOptions where
  "sample_service = \<lparr> sp_Paths = \<lparr> pa_ConfigDir = ''/c'', pa_ConfigFile = ''/c/f'', pa_DataDir = ''/d'', pa_StateDir = ''/s'' \<rparr>,
     sp_Version = ''v1'', sp_Lock = Some (Some 0), sp_ListenAddress = [], sp_IdleTimeout = 0, sp_HasHandler = True \<rparr>"

theorem service_cleans_up_witness:
  "\<exists>before. snd (snd (RunService sample_service_env id True sample_service (Inr ()) ((), []))) = before @ [Cleared_State, Closed_Lock]"
proof -
  have ok: "service_env_ok sample_service_env"
    using sample_state_valid by (auto simp: service_env_ok_def sample_service_env_def State_Validate_def Let_def split: if_splits)
  have v: "validateServiceOptions id sample_service = Inr ()"
    by (simp add: validateServiceOptions_def sample_service_def filepath_IsAbs_def)
  obtain r w' log where run: "RunService sample_service_env id True sample_service (Inr ()) ((), []) = (r, (w', log))"
    by (metis prod.collapse)
  from service_cleans_up [OF ok v run] show ?thesis using run by auto
qed

theorem control_requires_token_witness:
  "st_canceled (snd (rootHandler ''i'' ''v'' ''t'' (service_ServeHTTP None (\<lambda>_ s. (respond http_NotFound, s))) ''Bearer u''
     \<lparr> hq_Method = ''POST'', hq_Path = ShutdownPath, hq_ContentType = [], hq_Body = \<lparr> rd_data = [], rd_err = IO_EOF \<rparr> \<rparr>
     \<lparr> st_core = (), st_secrets = None, st_canceled = False \<rparr>)) = False"
proof -
  obtain served st' where r: "rootHandler ''i'' ''v'' ''t'' (service_ServeHTTP None (\<lambda>_ s. (respond http_NotFound, s))) ''Bearer u''
     \<lparr> hq_Method = ''POST'', hq_Path = ShutdownPath, hq_ContentType = [], hq_Body = \<lparr> rd_data = [], rd_err = IO_EOF \<rparr> \<rparr>
     \<lparr> st_core = (), st_secrets = None, st_canceled = False \<rparr> = (served, st')" by (metis prod.collapse)
  from control_requires_token [OF r] show ?thesis by (auto simp: r)
qed

end
