(* ===== verification/Daemon_Manager.thy ===== *)
theory Daemon_Manager
  imports Daemon_State Go_Duration Effect_Log
begin

text \<open>
  \<open>daemon/manager.go\<close>: how a command gets at a running daemon. It uses one that is healthy and of
  its own version, asks one of another version to stop, and starts a new one under the lock. The
  other processes, the clock and the files are an environment that answers each call; what the
  manager did is kept as a list of actions.
\<close>

section \<open>The environment\<close>

record 'w manager_env =
  me_load :: "'w \<Rightarrow> State result \<times> 'w"
  me_remove :: "'w \<Rightarrow> unit result \<times> 'w"
  me_alive :: "int \<Rightarrow> 'w \<Rightarrow> bool \<times> 'w"
  me_check :: "State \<Rightarrow> 'w \<Rightarrow> unit result \<times> 'w"
  me_lock :: "'w \<Rightarrow> unit result \<times> 'w"
  me_close :: "'w \<Rightarrow> 'w"
  me_drop :: "'w \<Rightarrow> unit result \<times> 'w"
  me_start :: "'w \<Rightarrow> int option result \<times> 'w"
  me_stop :: "int \<Rightarrow> 'w \<Rightarrow> unit result \<times> 'w"
  me_detach :: "int \<Rightarrow> 'w \<Rightarrow> unit result \<times> 'w"
  me_shutdown :: "State \<Rightarrow> 'w \<Rightarrow> unit result \<times> 'w"
  me_wait :: "'w \<Rightarrow> unit result \<times> 'w"

datatype act =
    Healthy State
  | Asked_Shutdown State
  | Locked
  | Unlocked
  | Handed_Over
  | Cleared
  | Started int
  | Stopped int
  | Detached int

type_synonym 'w managed = "('w, act) logged"

section \<open>The manager\<close>

text \<open>Whether the interfaces and the function are there; durations are in nanoseconds.\<close>

record Manager =
  mg_StorePath :: string
  mg_LockPath :: string
  mg_HasProbe :: bool
  mg_HasStarter :: bool
  mg_ExpectedVersion :: string
  mg_HasShutdown :: bool
  mg_StartTimeout :: int
  mg_PollInterval :: int

definition manager_validate :: "Manager \<Rightarrow> unit result" where
  "manager_validate m =
     (let problem = (\<lambda>p. Inl (Errorf (''ensure daemon: '' @ p))) in
      if mg_StorePath m = [] then problem ''state store is required''
      else if mg_LockPath m = [] then problem ''lock path is required''
      else if \<not> mg_HasProbe m then problem ''health probe is required''
      else if \<not> mg_HasStarter m then problem ''starter is required''
      else if mg_ExpectedVersion m \<noteq> [] \<and> (mg_ExpectedVersion m \<noteq> trimSpace (mg_ExpectedVersion m) \<or> hasControl (mg_ExpectedVersion m)) then
        problem ''expected version is invalid''
      else if mg_ExpectedVersion m \<noteq> [] \<and> \<not> mg_HasShutdown m then problem ''version-aware shutdown is required''
      else if mg_StartTimeout m \<le> 0 then problem ''positive startup timeout is required''
      else if mg_PollInterval m \<le> 0 then problem ''positive poll interval is required''
      else Inr ())"

definition versionCompatible :: "Manager \<Rightarrow> State \<Rightarrow> bool" where
  "versionCompatible m s \<longleftrightarrow> mg_ExpectedVersion m = [] \<or> ds_DaemonVersion s = mg_ExpectedVersion m"

definition startupWaitError :: "Manager \<Rightarrow> goerror \<Rightarrow> goerror" where
  "startupWaitError m e =
     (if error_is Context_DeadlineExceeded e then Errorf (''ensure daemon: startup timed out after '' @ duration_text (mg_StartTimeout m))
      else Wrapf ''ensure daemon: startup canceled: '' e)"

definition healthyState :: "'w manager_env \<Rightarrow> 'w managed \<Rightarrow> State option \<times> 'w managed" where
  "healthyState env st = (case call (me_load env) st of
     (Inl e, st) \<Rightarrow> (None, st)
   | (Inr s, st) \<Rightarrow> (case call (me_alive env (ds_PID s)) st of
       (False, st) \<Rightarrow> (None, st)
     | (True, st) \<Rightarrow> (case call (me_check env s) st of
         (Inl e, st) \<Rightarrow> (None, st)
       | (Inr _, st) \<Rightarrow> (Some s, done_act (Healthy s) st))))"

text \<open>The first argument bounds the turns of a loop that only its deadline ends (\<open>ensure_returns\<close> below).\<close>

fun waitForChild :: "nat \<Rightarrow> Manager \<Rightarrow> 'w manager_env \<Rightarrow> int \<Rightarrow> 'w managed \<Rightarrow> State result \<times> 'w managed" where
  "waitForChild 0 m env pid st = (Inl Diverge, st)"
| "waitForChild (Suc n) m env pid st =
     (let (found, st) = healthyState env st; again = (case call (me_wait env) st of
          (Inl e, st) \<Rightarrow> (Inl (startupWaitError m e), st) | (Inr _, st) \<Rightarrow> waitForChild n m env pid st) in
      case found of
        Some s \<Rightarrow> if ds_PID s = pid \<and> versionCompatible m s then (Inr s, st) else again
      | None \<Rightarrow> again)"

definition stopChild :: "'w manager_env \<Rightarrow> int \<Rightarrow> 'w managed \<Rightarrow> unit result \<times> 'w managed" where
  "stopChild env pid st = call (me_stop env pid) (done_act (Stopped pid) st)"

definition with_stop_error :: "string \<Rightarrow> goerror \<Rightarrow> unit result \<Rightarrow> goerror" where
  "with_stop_error text' e r = (case r of Inl e' \<Rightarrow> Joined e (Wrapf text' e') | Inr _ \<Rightarrow> e)"

definition run_child :: "nat \<Rightarrow> Manager \<Rightarrow> 'w manager_env \<Rightarrow> int \<Rightarrow> 'w managed \<Rightarrow> (State result \<times> bool) \<times> 'w managed" where
  "run_child n m env pid st = (case waitForChild n m env pid (done_act (Started pid) st) of
     (Inl e, st) \<Rightarrow> (case stopChild env pid st of (r, st) \<Rightarrow> ((Inl (with_stop_error ''stop failed daemon: '' e r), True), st))
   | (Inr s, st) \<Rightarrow> (case call (me_drop env) st of
       (Inl e, st) \<Rightarrow> (case stopChild env pid st of (_, st) \<Rightarrow> ((Inl (Wrapf ''ensure daemon: transfer lock ownership: '' e), True), st))
     | (Inr _, st) \<Rightarrow> (case call (me_detach env pid) (done_act Handed_Over st) of
         (Inl e, st) \<Rightarrow> (case stopChild env pid st of (r, st) \<Rightarrow>
           ((Inl (with_stop_error ''stop undetached daemon: '' (Wrapf ''ensure daemon: detach background child: '' e) r), False), st))
       | (Inr _, st) \<Rightarrow> ((Inr s, False), done_act (Detached pid) st))))"

text \<open>Under the lock: the result, and whether the deferred function still has to close the lock.\<close>

definition start_locked :: "nat \<Rightarrow> Manager \<Rightarrow> 'w manager_env \<Rightarrow> 'w managed \<Rightarrow> (State result \<times> bool) \<times> 'w managed" where
  "start_locked n m env st = (case healthyState env st of
     (Some s, st) \<Rightarrow>
       ((if versionCompatible m s then Inr s
         else Inl (Errorf ''ensure daemon: incompatible daemon became healthy while startup lock was held''), True), st)
   | (None, st) \<Rightarrow> (case call (me_remove env) st of
       (Inl e, st) \<Rightarrow> ((Inl (Wrapf ''ensure daemon: clear stale state: '' e), True), st)
     | (Inr _, st) \<Rightarrow> (case call (me_start env) (done_act Cleared st) of
         (Inl e, st) \<Rightarrow> ((Inl (Wrapf ''ensure daemon: start: '' e), True), st)
       | (Inr None, st) \<Rightarrow> ((Inl (Errorf ''ensure daemon: starter returned an invalid child''), True), st)
       | (Inr (Some pid), st) \<Rightarrow>
           if pid < 1 then ((Inl (Errorf ''ensure daemon: starter returned an invalid child''), True), st)
           else run_child n m env pid st)))"

definition startUnderLock :: "nat \<Rightarrow> Manager \<Rightarrow> 'w manager_env \<Rightarrow> 'w managed \<Rightarrow> State result \<times> 'w managed" where
  "startUnderLock n m env st = (case start_locked n m env (done_act Locked st) of
     ((r, releaseWithUnlock), st) \<Rightarrow>
       (r, if releaseWithUnlock then done_act Unlocked (me_close env (fst st), snd st) else st))"

fun ensure_loop :: "nat \<Rightarrow> Manager \<Rightarrow> 'w manager_env \<Rightarrow> string \<Rightarrow> 'w managed \<Rightarrow> State result \<times> 'w managed" where
  "ensure_loop 0 m env requested st = (Inl Diverge, st)"
| "ensure_loop (Suc n) m env requested st = (case healthyState env st of
     (Some s, st) \<Rightarrow>
       if versionCompatible m s then (Inr s, st)
       else (case (if requested \<noteq> ds_InstanceID s then call (me_shutdown env s) (done_act (Asked_Shutdown s) st) else (Inr (), st)) of
           (Inl e, st) \<Rightarrow> (Inl (Wrapf ''ensure daemon: stop incompatible version: '' e), st)
         | (Inr _, st) \<Rightarrow> (case call (me_wait env) st of
             (Inl e, st) \<Rightarrow> (Inl (startupWaitError m e), st)
           | (Inr _, st) \<Rightarrow> ensure_loop n m env (ds_InstanceID s) st))
   | (None, st) \<Rightarrow> (case call (me_lock env) st of
       (Inr _, st) \<Rightarrow> startUnderLock n m env st
     | (Inl e, st) \<Rightarrow>
         if \<not> error_is Lock_Held e then (Inl (Wrapf ''ensure daemon: '' e), st)
         else (case call (me_wait env) st of
             (Inl e, st) \<Rightarrow> (Inl (startupWaitError m e), st)
           | (Inr _, st) \<Rightarrow> ensure_loop n m env requested st)))"

definition manager_Ensure :: "nat \<Rightarrow> Manager \<Rightarrow> bool \<Rightarrow> 'w manager_env \<Rightarrow> 'w managed \<Rightarrow> State result \<times> 'w managed" where
  "manager_Ensure n m has_context env st = (case manager_validate m of
     Inl e \<Rightarrow> (Inl e, st)
   | Inr _ \<Rightarrow> if \<not> has_context then (Inl (Errorf ''ensure daemon: context is required''), st) else ensure_loop n m env [] st)"

section \<open>What is done, in order\<close>

lemma healthy_log:
  "healthyState env st = (found, st') \<Longrightarrow> snd st' = snd st @ (case found of Some s \<Rightarrow> [Healthy s] | None \<Rightarrow> [])"
  by (auto simp: healthyState_def dest!: call_log split: prod.splits sum.splits bool.splits)

lemma wait_log:
  "waitForChild n m env pid st = (r, st') \<Longrightarrow> \<exists>hs. snd st' = snd st @ map Healthy hs
     \<and> (\<forall>s. r = Inr s \<longrightarrow> hs \<noteq> [] \<and> last hs = s \<and> ds_PID s = pid \<and> versionCompatible m s)"
proof (induction n arbitrary: st)
  case (Suc n)
  obtain found st1 where h: "healthyState env st = (found, st1)" by (cases "healthyState env st")
  note log = healthy_log [OF h]
  show ?case
  proof (cases "\<exists>s. found = Some s \<and> ds_PID s = pid \<and> versionCompatible m s")
    case True
    then obtain s where "found = Some s" "ds_PID s = pid" "versionCompatible m s" by auto
    then have "r = Inr s" "st' = st1" using Suc.prems h by simp_all
    then show ?thesis using log \<open>found = _\<close> \<open>ds_PID s = _\<close> \<open>versionCompatible m s\<close> by (intro exI [of _ "[s]"]) simp
  next
    case False
    then have again: "(case call (me_wait env) st1 of
          (Inl e, st) \<Rightarrow> (Inl (startupWaitError m e), st) | (Inr _, st) \<Rightarrow> waitForChild n m env pid st) = (r, st')"
      using Suc.prems h by (auto simp: Let_def split: option.splits if_splits)
    let ?h = "case found of Some s \<Rightarrow> [s] | None \<Rightarrow> []"
    have log: "snd st1 = snd st @ map Healthy ?h" using log by (simp split: option.splits)
    obtain w st2 where w: "call (me_wait env) st1 = (w, st2)" by (cases "call (me_wait env) st1")
    show ?thesis
    proof (cases w)
      case (Inl e)
      then show ?thesis using again w log call_log [OF w] by (intro exI [of _ ?h]) auto
    next
      case (Inr u)
      then obtain hs where "snd st' = snd st2 @ map Healthy hs"
          "\<forall>s. r = Inr s \<longrightarrow> hs \<noteq> [] \<and> last hs = s \<and> ds_PID s = pid \<and> versionCompatible m s"
        using Suc.IH [of st2] again w by auto
      then show ?thesis using log call_log [OF w] by (intro exI [of _ "?h @ hs"]) auto
    qed
  qed
qed (intro exI [of _ "[]"], auto)

text \<open>The outcomes of starting a daemon under the lock, with the actions of each.\<close>

definition child_shape :: "Manager \<Rightarrow> State result \<Rightarrow> bool \<Rightarrow> int \<Rightarrow> act list \<Rightarrow> bool" where
  "child_shape m r release pid log \<longleftrightarrow> (\<exists>hs.
     (\<exists>e. r = Inl e) \<and> (release \<and> log = Started pid # map Healthy hs @ [Stopped pid]
       \<or> \<not> release \<and> log = Started pid # map Healthy hs @ [Handed_Over, Stopped pid])
     \<or> (\<exists>s. r = Inr s \<and> hs \<noteq> [] \<and> last hs = s \<and> ds_PID s = pid \<and> versionCompatible m s \<and> \<not> release
         \<and> log = Started pid # map Healthy hs @ [Handed_Over, Detached pid]))"

lemma child_log:
  assumes "run_child n m env pid st = ((r, release), st')"
  shows "\<exists>log. snd st' = snd st @ log \<and> child_shape m r release pid log"
proof -
  obtain r1 st1 where w: "waitForChild n m env pid (done_act (Started pid) st) = (r1, st1)"
    by (cases "waitForChild n m env pid (done_act (Started pid) st)")
  from wait_log [OF w] obtain hs where hs: "snd st1 = snd st @ Started pid # map Healthy hs"
    "\<forall>s. r1 = Inr s \<longrightarrow> hs \<noteq> [] \<and> last hs = s \<and> ds_PID s = pid \<and> versionCompatible m s" by auto
  show ?thesis
  proof (cases r1)
    case (Inl e)
    then show ?thesis
      using assms w hs by (auto simp: run_child_def stopChild_def child_shape_def dest!: call_log split: prod.splits)
  next
    case (Inr s)
    obtain r2 st2 where d: "call (me_drop env) st1 = (r2, st2)" by (cases "call (me_drop env) st1")
    show ?thesis
    proof (cases r2)
      case (Inl e)
      then show ?thesis
        using assms w Inr hs call_log [OF d] d by (auto simp: run_child_def stopChild_def child_shape_def dest!: call_log split: prod.splits)
    next
      case (Inr u)
      obtain r3 st3 where t: "call (me_detach env pid) (done_act Handed_Over st2) = (r3, st3)"
        by (cases "call (me_detach env pid) (done_act Handed_Over st2)")
      have log3: "snd st3 = snd st @ Started pid # map Healthy hs @ [Handed_Over]" using call_log [OF t] call_log [OF d] hs(1) by simp
      show ?thesis
      proof (cases r3)
        case (Inl e)
        obtain r4 st4 where s4: "stopChild env pid st3 = (r4, st4)" by (cases "stopChild env pid st3")
        then have "snd st4 = snd st3 @ [Stopped pid]" by (auto simp: stopChild_def dest: call_log)
        moreover have "\<exists>e. r = Inl e" "\<not> release" "st' = st4"
          using assms w \<open>r1 = Inr s\<close> d Inr t Inl s4 by (auto simp: run_child_def)
        ultimately show ?thesis using log3 unfolding child_shape_def by auto
      next
        case (Inr v)
        then have "r = Inr s" "\<not> release" "st' = done_act (Detached pid) st3"
          using assms w \<open>r1 = Inr s\<close> d \<open>r2 = _\<close> t by (auto simp: run_child_def)
        then show ?thesis using log3 hs(2) \<open>r1 = Inr s\<close> unfolding child_shape_def by auto
      qed
    qed
  qed
qed

definition start_shape :: "Manager \<Rightarrow> State result \<Rightarrow> act list \<Rightarrow> bool" where
  "start_shape m r log \<longleftrightarrow>
     (\<exists>s. log = [Locked, Healthy s, Unlocked] \<and> (if versionCompatible m s then r = Inr s else \<exists>e. r = Inl e))
     \<or> (\<exists>e. r = Inl e) \<and> (log = [Locked, Unlocked] \<or> log = [Locked, Cleared, Unlocked])
     \<or> (\<exists>pid release child. child_shape m r release pid child \<and> log = [Locked, Cleared] @ child @ (if release then [Unlocked] else []))"

lemma start_log:
  assumes "startUnderLock n m env st = (r, st')"
  shows "\<exists>log. snd st' = snd st @ log \<and> start_shape m r log"
proof -
  obtain release st1 where l: "start_locked n m env (done_act Locked st) = ((r, release), st1)"
    and st': "snd st' = snd st1 @ (if release then [Unlocked] else [])"
    using assms by (auto simp: startUnderLock_def split: prod.splits)
  obtain found st2 where h: "healthyState env (done_act Locked st) = (found, st2)" by (cases "healthyState env (done_act Locked st)")
  note log2 = healthy_log [OF h]
  show ?thesis
  proof (cases found)
    case (Some s)
    then have "snd st1 = snd st @ [Locked, Healthy s]" "release" "if versionCompatible m s then r = Inr s else \<exists>e. r = Inl e"
      using l h log2 by (auto simp: start_locked_def)
    then show ?thesis using st' unfolding start_shape_def by auto
  next
    case None
    obtain r3 st3 where rm: "call (me_remove env) st2 = (r3, st3)" by (cases "call (me_remove env) st2")
    have log3: "snd st3 = snd st @ [Locked]" using call_log [OF rm] log2 None by simp
    show ?thesis
    proof (cases r3)
      case (Inl e)
      then show ?thesis using l h None rm log3 st' unfolding start_shape_def by (auto simp: start_locked_def)
    next
      case (Inr u)
      obtain r4 st4 where s: "call (me_start env) (done_act Cleared st3) = (r4, st4)" by (cases "call (me_start env) (done_act Cleared st3)")
      have log4: "snd st4 = snd st @ [Locked, Cleared]" using call_log [OF s] log3 by simp
      show ?thesis
      proof (cases "\<exists>pid. r4 = Inr (Some pid) \<and> 1 \<le> pid")
        case True
        then obtain pid where pid: "r4 = Inr (Some pid)" "1 \<le> pid" by auto
        then have "run_child n m env pid st4 = ((r, release), st1)" using l h None rm Inr s by (simp add: start_locked_def)
        from child_log [OF this] obtain child where "snd st1 = snd st4 @ child" "child_shape m r release pid child" by auto
        then have "start_shape m r ([Locked, Cleared] @ child @ (if release then [Unlocked] else []))" unfolding start_shape_def by blast
        moreover have "snd st' = snd st @ [Locked, Cleared] @ child @ (if release then [Unlocked] else [])"
          using log4 st' \<open>snd st1 = _\<close> by simp
        ultimately show ?thesis by blast
      next
        case False
        have "(\<exists>e. r = Inl e) \<and> release \<and> st1 = st4"
        proof (cases r4)
          case (Inl e)
          then show ?thesis using l h None rm \<open>r3 = _\<close> s by (auto simp: start_locked_def)
        next
          case (Inr c)
          then show ?thesis using False l h None rm \<open>r3 = _\<close> s by (cases c) (auto simp: start_locked_def not_le)
        qed
        then show ?thesis using log4 st' unfolding start_shape_def by auto
      qed
    qed
  qed
qed

text \<open>The turns before the last: incompatible daemons seen, the ones asked to stop, and the last one asked.\<close>

definition turns :: "Manager \<Rightarrow> string \<Rightarrow> act list \<Rightarrow> string \<Rightarrow> bool" where
  "turns m requested log requested' \<longleftrightarrow>
     (let asked = concat (map (\<lambda>a. case a of Asked_Shutdown s \<Rightarrow> [ds_InstanceID s] | _ \<Rightarrow> []) log) in
      (\<forall>a \<in> set log. \<exists>s. \<not> versionCompatible m s \<and> (a = Healthy s \<or> a = Asked_Shutdown s))
      \<and> distinct_adj (requested # asked) \<and> requested' = last (requested # asked))"

lemma turns_Nil: "turns m requested [] requested"
  by (simp add: turns_def)

lemma turns_seen:
  assumes "turns m (ds_InstanceID s) log requested'" "\<not> versionCompatible m s"
  shows "turns m requested ([Healthy s] @ (if requested \<noteq> ds_InstanceID s then [Asked_Shutdown s] else []) @ log) requested'"
  using assms by (auto simp: turns_def Let_def)

lemma turns_asked:
  "requested \<noteq> ds_InstanceID s \<Longrightarrow> \<not> versionCompatible m s \<Longrightarrow> turns m requested [Healthy s, Asked_Shutdown s] (ds_InstanceID s)"
  by (simp add: turns_def)

lemma loop_log:
  assumes "ensure_loop n m env requested st = (r, st')"
  shows "\<exists>seen requested' fin. snd st' = snd st @ seen @ fin \<and> turns m requested seen requested'
    \<and> (fin = [] \<and> (\<exists>e. r = Inl e) \<or> (\<exists>s. fin = [Healthy s] \<and> r = Inr s \<and> versionCompatible m s) \<or> start_shape m r fin)"
  using assms
proof (induction n arbitrary: requested st)
  case 0
  then show ?case using turns_Nil by fastforce
next
  case (Suc n)
  obtain found st1 where h: "healthyState env st = (found, st1)" by (cases "healthyState env st")
  note log1 = healthy_log [OF h]
  show ?case
  proof (cases found)
    case None
    obtain l st2 where lock: "call (me_lock env) st1 = (l, st2)" by (cases "call (me_lock env) st1")
    have log2: "snd st2 = snd st" using call_log [OF lock] log1 None by simp
    show ?thesis
    proof (cases l)
      case (Inr u)
      then have "startUnderLock n m env st2 = (r, st')" using Suc.prems h None lock by simp
      from start_log [OF this] obtain log where "snd st' = snd st2 @ log" "start_shape m r log" by blast
      then show ?thesis using log2 turns_Nil [of m requested] by (intro exI [of _ "[]"] exI [of _ requested] exI [of _ log]) simp
    next
      case (Inl e)
      obtain w st3 where wait: "call (me_wait env) st2 = (w, st3)" by (cases "call (me_wait env) st2")
      have log3: "snd st3 = snd st" using call_log [OF wait] log2 by simp
      show ?thesis
      proof (cases "error_is Lock_Held e \<and> (\<exists>u. w = Inr u)")
        case True
        then have "ensure_loop n m env requested st3 = (r, st')" using Suc.prems h None lock Inl wait by auto
        from Suc.IH [OF this] show ?thesis unfolding log3 .
      next
        case False
        then have "\<exists>e. r = Inl e" "snd st' = snd st" using Suc.prems h None lock Inl wait log2 log3 by (cases w; auto split: if_splits)+
        then show ?thesis using turns_Nil [of m requested] by (intro exI [of _ "[]"] exI [of _ requested]) simp
      qed
    qed
  next
    case (Some s)
    have log1: "snd st1 = snd st @ [Healthy s]" using log1 Some by simp
    show ?thesis
    proof (cases "versionCompatible m s")
      case True
      then have "r = Inr s" "st' = st1" using Suc.prems h Some by simp_all
      then show ?thesis using True log1 turns_Nil [of m requested] by (intro exI [of _ "[]"] exI [of _ requested] exI [of _ "[Healthy s]"]) simp
    next
      case False
      define asks where "asks = (if requested \<noteq> ds_InstanceID s then [Asked_Shutdown s] else [])"
      obtain a st2 where ask: "(if requested \<noteq> ds_InstanceID s then call (me_shutdown env s) (done_act (Asked_Shutdown s) st1) else (Inr (), st1)) = (a, st2)"
        by (cases "if requested \<noteq> ds_InstanceID s then call (me_shutdown env s) (done_act (Asked_Shutdown s) st1) else (Inr (), st1)")
      then have log2: "snd st2 = snd st @ [Healthy s] @ asks"
        using log1 by (auto simp: asks_def dest: call_log split: if_splits)
      obtain w st3 where wait: "call (me_wait env) st2 = (w, st3)" by (cases "call (me_wait env) st2")
      have log3: "snd st3 = snd st @ [Healthy s] @ asks" using call_log [OF wait] log2 by simp
      note step = Suc.prems [unfolded ensure_loop.simps h prod.case Some option.case if_not_P [OF False] ask]
      show ?thesis
      proof (cases "\<exists>u v. a = Inr u \<and> w = Inr v")
        case True
        then have "ensure_loop n m env (ds_InstanceID s) st3 = (r, st')" using step wait by auto
        from Suc.IH [OF this] obtain seen requested' fin where end':
          "snd st' = snd st3 @ seen @ fin" "turns m (ds_InstanceID s) seen requested'"
          "fin = [] \<and> (\<exists>e. r = Inl e) \<or> (\<exists>s. fin = [Healthy s] \<and> r = Inr s \<and> versionCompatible m s) \<or> start_shape m r fin" by blast
        have "turns m requested ([Healthy s] @ asks @ seen) requested'"
          using turns_seen [OF end'(2) False] unfolding asks_def .
        then show ?thesis using end'(1,3) log3
          by (intro exI [of _ "[Healthy s] @ asks @ seen"] exI [of _ requested'] exI [of _ fin]) simp
      next
        case stop: False
        then have "\<exists>e. r = Inl e" "snd st' = snd st @ [Healthy s] @ asks" using step wait log2 log3 by (cases a; cases w; auto)+
        moreover have "turns m requested ([Healthy s] @ asks) (ds_InstanceID s)"
          using turns_seen [OF turns_Nil False, of requested] unfolding asks_def by simp
        ultimately show ?thesis by (intro exI [of _ "[Healthy s] @ asks"] exI [of _ "ds_InstanceID s"] exI [of _ "[]"]) simp
      qed
    qed
  qed
qed

section \<open>What the manager promises\<close>

definition states_seen :: "act list \<Rightarrow> State list" where
  "states_seen log = concat (map (\<lambda>a. case a of Healthy s \<Rightarrow> [s] | _ \<Rightarrow> []) log)"

definition asked_to_stop :: "act list \<Rightarrow> string list" where
  "asked_to_stop log = concat (map (\<lambda>a. case a of Asked_Shutdown s \<Rightarrow> [ds_InstanceID s] | _ \<Rightarrow> []) log)"

definition started_child :: "bool \<Rightarrow> int \<Rightarrow> act list \<Rightarrow> bool" where
  "started_child ok pid log \<longleftrightarrow> (\<exists>before after. log = before @ [Locked, Cleared, Started pid] @ after
     \<and> (\<forall>a \<in> set before. \<exists>s. a = Healthy s \<or> a = Asked_Shutdown s)
     \<and> (if ok then \<exists>hs. after = map Healthy hs @ [Handed_Over, Detached pid]
        else \<exists>hs. after = map Healthy hs @ [Stopped pid, Unlocked] \<or> after = map Healthy hs @ [Handed_Over, Stopped pid]))"

lemma log_simps [simp]:
  "states_seen [] = []" "states_seen (a # l) = (case a of Healthy s \<Rightarrow> [s] | _ \<Rightarrow> []) @ states_seen l"
  "states_seen (l @ l') = states_seen l @ states_seen l'"
  "states_seen (map Healthy hs) = hs"
  "asked_to_stop [] = []" "asked_to_stop (a # l) = (case a of Asked_Shutdown s \<Rightarrow> [ds_InstanceID s] | _ \<Rightarrow> []) @ asked_to_stop l"
  "asked_to_stop (l @ l') = asked_to_stop l @ asked_to_stop l'"
  "asked_to_stop (map Healthy hs) = []"
  by (simp_all add: states_seen_def asked_to_stop_def comp_def)

text \<open>A log of a run, and what holds of every such log.\<close>

definition run_shape :: "Manager \<Rightarrow> State result \<Rightarrow> act list \<Rightarrow> bool" where
  "run_shape m r fin \<longleftrightarrow> fin = [] \<and> (\<exists>e. r = Inl e) \<or> (\<exists>s. fin = [Healthy s] \<and> r = Inr s \<and> versionCompatible m s) \<or> start_shape m r fin"

lemma run_shape_cases [consumes 1, case_names failed_early found found_locked failed_locked stopped stopped_late running]:
  assumes "run_shape m r fin"
    and "\<And>e. r = Inl e \<Longrightarrow> fin = [] \<Longrightarrow> P"
    and "\<And>s. r = Inr s \<Longrightarrow> fin = [Healthy s] \<Longrightarrow> versionCompatible m s \<Longrightarrow> P"
    and "\<And>s. fin = [Locked, Healthy s, Unlocked] \<Longrightarrow> (if versionCompatible m s then r = Inr s else \<exists>e. r = Inl e) \<Longrightarrow> P"
    and "\<And>e. r = Inl e \<Longrightarrow> fin = [Locked, Unlocked] \<or> fin = [Locked, Cleared, Unlocked] \<Longrightarrow> P"
    and "\<And>e pid hs. r = Inl e \<Longrightarrow> fin = [Locked, Cleared, Started pid] @ map Healthy hs @ [Stopped pid, Unlocked] \<Longrightarrow> P"
    and "\<And>e pid hs. r = Inl e \<Longrightarrow> fin = [Locked, Cleared, Started pid] @ map Healthy hs @ [Handed_Over, Stopped pid] \<Longrightarrow> P"
    and "\<And>s pid hs. r = Inr s \<Longrightarrow> hs \<noteq> [] \<Longrightarrow> last hs = s \<Longrightarrow> ds_PID s = pid \<Longrightarrow> versionCompatible m s
      \<Longrightarrow> fin = [Locked, Cleared, Started pid] @ map Healthy hs @ [Handed_Over, Detached pid] \<Longrightarrow> P"
  shows P
  using assms(1) unfolding run_shape_def start_shape_def child_shape_def
  by (elim disjE exE conjE) (auto intro: assms(2-))

lemma turns_log:
  "turns m requested log requested' \<Longrightarrow> distinct_adj (requested # asked_to_stop log)"
  "turns m requested log requested' \<Longrightarrow> a \<in> set log \<Longrightarrow> \<exists>s. a = Healthy s \<or> a = Asked_Shutdown s"
  by (auto simp: turns_def asked_to_stop_def Let_def)

lemma count_seen [simp]: "count_list (map Healthy hs) Locked = 0" "count_list (map Healthy hs) Unlocked = 0" "count_list (map Healthy hs) Handed_Over = 0"
  by (auto simp: count_list_0_iff)

lemma run_shape_found:
  "run_shape m r fin \<Longrightarrow> r = Inr s \<Longrightarrow> versionCompatible m s \<and> states_seen fin \<noteq> [] \<and> last (states_seen fin) = s"
  by (cases rule: run_shape_cases) (auto split: if_split_asm)

lemma run_shape_lock:
  "run_shape m r fin \<Longrightarrow> count_list fin Locked = count_list fin Unlocked + count_list fin Handed_Over \<and> count_list fin Locked \<le> 1"
  by (cases rule: run_shape_cases) (auto simp: count_list_append)

lemma run_shape_asked: "run_shape m r fin \<Longrightarrow> asked_to_stop fin = []"
  by (cases rule: run_shape_cases) auto

lemma run_shape_started:
  assumes "run_shape m r fin" "Started pid \<in> set fin"
  shows "\<exists>after. fin = [Locked, Cleared, Started pid] @ after
      \<and> (if \<exists>s. r = Inr s then \<exists>hs. after = map Healthy hs @ [Handed_Over, Detached pid]
         else \<exists>hs. after = map Healthy hs @ [Stopped pid, Unlocked] \<or> after = map Healthy hs @ [Handed_Over, Stopped pid])"
  using assms(1)
proof (cases rule: run_shape_cases)
  case (stopped e pid' hs)
  then have "pid' = pid" using assms(2) by auto
  then show ?thesis using stopped by auto
next
  case (stopped_late e pid' hs)
  then have "pid' = pid" using assms(2) by auto
  then show ?thesis using stopped_late by auto
next
  case (running s pid' hs)
  then have "pid' = pid" using assms(2) by auto
  then show ?thesis using running by auto
qed (use assms(2) in auto)

lemma ensure_run:
  assumes "manager_Ensure n m has_context env (w, []) = (r, (w', log))"
  shows "\<exists>seen requested fin. log = seen @ fin \<and> turns m [] seen requested \<and> run_shape m r fin"
proof (cases "manager_validate m = Inr () \<and> has_context")
  case True
  then have "ensure_loop n m env [] (w, []) = (r, (w', log))" using assms by (simp add: manager_Ensure_def)
  from loop_log [OF this] show ?thesis unfolding run_shape_def by auto
next
  case False
  then have "log = []" "\<exists>e. r = Inl e" using assms by (auto simp: manager_Ensure_def split: sum.splits if_splits)
  then show ?thesis using turns_Nil [of m "[]"] unfolding run_shape_def by blast
qed

lemma turns_states: "turns m requested log requested' \<Longrightarrow> s \<in> set (states_seen log) \<Longrightarrow> \<not> versionCompatible m s"
  by (auto simp: turns_def states_seen_def Let_def split: act.splits)

text \<open>C18: what \<open>Ensure\<close> does, in whatever order the other processes, the files and the clock
  answer. A state it returns is of the manager's version and is the last one its probe found healthy.
  The lock is taken at most once and on every path, errors included, it is closed or handed to the
  child; a child is only started under the lock, right after the stale state was cleared, and then it
  is detached when the call succeeds and stopped when it fails. No running daemon is asked to shut
  down twice in a row.\<close>

theorem ensure_safe:
  assumes "manager_Ensure n m has_context env (w, []) = (r, (w', log))"
  shows "(\<forall>s. r = Inr s \<longrightarrow> versionCompatible m s \<and> states_seen log \<noteq> [] \<and> last (states_seen log) = s)
    \<and> count_list log Locked = count_list log Unlocked + count_list log Handed_Over \<and> count_list log Locked \<le> 1
    \<and> (\<forall>pid. Started pid \<in> set log \<longrightarrow> started_child (\<exists>s. r = Inr s) pid log)
    \<and> distinct_adj (asked_to_stop log)"
proof -
  from ensure_run [OF assms] obtain seen requested fin where log: "log = seen @ fin"
    and seen: "turns m [] seen requested" and fin: "run_shape m r fin" by blast
  have none: "count_list seen a = 0" "a \<notin> set seen" if "a \<in> {Locked, Unlocked, Handed_Over} \<or> (\<exists>pid. a = Started pid)" for a
    using turns_log(2) [OF seen, of a] that by (auto simp: count_list_0_iff)
  have "started_child (\<exists>s. r = Inr s) pid log" if "Started pid \<in> set log" for pid
  proof -
    have "Started pid \<in> set fin" using that none(2) [of "Started pid"] log by auto
    from run_shape_started [OF fin this] obtain after where "fin = [Locked, Cleared, Started pid] @ after"
      "if \<exists>s. r = Inr s then \<exists>hs. after = map Healthy hs @ [Handed_Over, Detached pid]
        else \<exists>hs. after = map Healthy hs @ [Stopped pid, Unlocked] \<or> after = map Healthy hs @ [Handed_Over, Stopped pid]" by blast
    then show ?thesis
      using turns_log(2) [OF seen] unfolding started_child_def log by (intro exI [of _ seen] exI [of _ after]) (simp only: simp_thms, blast)
  qed
  moreover have "distinct_adj (asked_to_stop log)"
    using turns_log(1) [OF seen] run_shape_asked [OF fin] log by (cases "asked_to_stop seen") simp_all
  ultimately show ?thesis
    using run_shape_found [OF fin] run_shape_lock [OF fin] none log by auto
qed

section \<open>The manager returns\<close>

text \<open>What the deadline gives: \<open>left\<close> is the time left of the startup timeout. A wait that succeeds
  began before the deadline and took one poll interval, and no call gives time back.\<close>

definition waits_end :: "('w \<Rightarrow> int) \<Rightarrow> Manager \<Rightarrow> 'w manager_env \<Rightarrow> bool" where
  "waits_end left m env \<longleftrightarrow>
     (\<forall>w. (case me_wait env w of (Inl _, _) \<Rightarrow> True | (Inr _, w') \<Rightarrow> 0 < left w \<and> left w' \<le> left w - mg_PollInterval m)
       \<and> left (snd (me_load env w)) \<le> left w \<and> left (snd (me_remove env w)) \<le> left w \<and> left (snd (me_lock env w)) \<le> left w
       \<and> left (snd (me_start env w)) \<le> left w
       \<and> (\<forall>pid. left (snd (me_alive env pid w)) \<le> left w)
       \<and> (\<forall>s. left (snd (me_check env s w)) \<le> left w \<and> left (snd (me_shutdown env s w)) \<le> left w))"

lemma healthy_left:
  assumes "waits_end left m env"
  shows "left (fst (snd (healthyState env st))) \<le> left (fst st)"
proof -
  have le: "left (snd (me_load env w)) \<le> left w" "left (snd (me_alive env pid w)) \<le> left w" "left (snd (me_check env s w)) \<le> left w" for w pid s
    using assms unfolding waits_end_def by blast+
  obtain w log where st: "st = (w, log)" by (cases st)
  obtain r1 w1 where r1: "me_load env w = (r1, w1)" by (cases "me_load env w")
  show ?thesis
  proof (cases r1)
    case (Inl e)
    then show ?thesis using r1 le(1) [of w] by (simp add: healthyState_def call_def st)
  next
    case (Inr s)
    obtain r2 w2 where r2: "me_alive env (ds_PID s) w1 = (r2, w2)" by (cases "me_alive env (ds_PID s) w1")
    obtain r3 w3 where r3: "me_check env s w2 = (r3, w3)" by (cases "me_check env s w2")
    show ?thesis
      using Inr r1 r2 r3 le(1) [of w] le(2) [of "ds_PID s" w1] le(3) [of s w2]
      by (cases r2; cases r3) (simp_all add: healthyState_def call_def st)
  qed
qed

lemma wait_left:
  assumes "waits_end left m env" "me_wait env w = (Inr u, w')"
  shows "0 < left w" "left w' \<le> left w - mg_PollInterval m"
proof -
  have "case me_wait env w of (Inl _, _) \<Rightarrow> True | (Inr _, w') \<Rightarrow> 0 < left w \<and> left w' \<le> left w - mg_PollInterval m"
    using spec [OF assms(1) [unfolded waits_end_def], of w] by (elim conjE)
  then show "0 < left w" "left w' \<le> left w - mg_PollInterval m" using assms(2) by simp_all
qed

lemma wait_fuel:
  assumes e: "waits_end left m env" and poll: "0 < mg_PollInterval m"
  shows "nat (left (fst st)) < n \<Longrightarrow> nat (left (fst st)) < k \<Longrightarrow> waitForChild n m env pid st = waitForChild k m env pid st"
proof (induction n arbitrary: k st)
  case (Suc n)
  then obtain k' where k: "k = Suc k'" by (cases k) auto
  obtain found st1 where h: "healthyState env st = (found, st1)" by (cases "healthyState env st")
  have le1: "left (fst st1) \<le> left (fst st)" using healthy_left [OF e, of st] h by simp
  obtain r w where r: "me_wait env (fst st1) = (r, w)" by (cases "me_wait env (fst st1)")
  show ?case
  proof (cases r)
    case (Inl x)
    then show ?thesis using h call_eq [where f = "me_wait env", OF r] by (auto simp: k Let_def split: option.splits)
  next
    case (Inr u)
    then have "0 < left (fst st1)" "left w \<le> left (fst st1) - mg_PollInterval m"
      using wait_left [OF e] r by simp_all
    then have "nat (left w) < n" "nat (left w) < k'" using Suc.prems k le1 poll by simp_all
    then have "waitForChild n m env pid (w, snd st1) = waitForChild k' m env pid (w, snd st1)" by (intro Suc.IH) simp_all
    then show ?thesis using h call_eq [where f = "me_wait env", OF r] Inr by (auto simp: k Let_def split: option.splits)
  qed
qed simp

lemma locked_fuel:
  assumes e: "waits_end left m env" and poll: "0 < mg_PollInterval m" and n: "nat (left (fst st)) < n" "nat (left (fst st)) < k"
  shows "startUnderLock n m env st = startUnderLock k m env st"
proof -
  have le: "left (snd (me_remove env w)) \<le> left w" "left (snd (me_start env w)) \<le> left w" for w
    using e unfolding waits_end_def by blast+
  obtain found st1 where h: "healthyState env (done_act Locked st) = (found, st1)" by (cases "healthyState env (done_act Locked st)")
  have le1: "left (fst st1) \<le> left (fst st)" using healthy_left [OF e, of "done_act Locked st"] h by simp
  obtain r2 w2 where r2: "me_remove env (fst st1) = (r2, w2)" by (cases "me_remove env (fst st1)")
  obtain r3 w3 where r3: "me_start env w2 = (r3, w3)" by (cases "me_start env w2")
  have "nat (left w3) < n" "nat (left w3) < k" using n le1 le(1) [of "fst st1"] le(2) [of w2] r2 r3 by simp_all
  then have "waitForChild n m env pid (w3, log) = waitForChild k m env pid (w3, log)" for pid log
    by (intro wait_fuel [OF e poll]) simp_all
  then have "run_child n m env pid (w3, log) = run_child k m env pid (w3, log)" for pid log
    by (simp add: run_child_def done_act_def)
  then have "start_locked n m env (done_act Locked st) = start_locked k m env (done_act Locked st)"
    using h r2 r3 by (simp add: start_locked_def call_def done_act_def split: option.split sum.split)
  then show ?thesis by (simp add: startUnderLock_def)
qed

lemma loop_fuel:
  assumes e: "waits_end left m env" and poll: "0 < mg_PollInterval m"
  shows "nat (left (fst st)) + 1 < n \<Longrightarrow> nat (left (fst st)) + 1 < k \<Longrightarrow> ensure_loop n m env requested st = ensure_loop k m env requested st"
proof (induction n arbitrary: k requested st)
  case (Suc n)
  then obtain k' where k: "k = Suc k'" by (cases k) auto
  have le: "left (snd (me_lock env w)) \<le> left w" "left (snd (me_shutdown env s w)) \<le> left w" for w s
    using e unfolding waits_end_def by blast+
  have again: "(case call (me_wait env) st2 of (Inl e, st) \<Rightarrow> (Inl (startupWaitError m e), st) | (Inr _, st) \<Rightarrow> ensure_loop n m env requested st)
      = (case call (me_wait env) st2 of (Inl e, st) \<Rightarrow> (Inl (startupWaitError m e), st) | (Inr _, st) \<Rightarrow> ensure_loop k' m env requested st)"
    if "left (fst st2) \<le> left (fst st)" for st2 requested
  proof -
    obtain r w where r: "me_wait env (fst st2) = (r, w)" by (cases "me_wait env (fst st2)")
    show ?thesis
    proof (cases r)
      case (Inl x)
      then show ?thesis using call_eq [where f = "me_wait env", OF r] by simp
    next
      case (Inr u)
      then have "0 < left (fst st2)" "left w \<le> left (fst st2) - mg_PollInterval m" using wait_left [OF e] r by simp_all
      then have "nat (left w) + 1 < n" "nat (left w) + 1 < k'" using Suc.prems k that poll by simp_all
      then have "ensure_loop n m env requested (w, snd st2) = ensure_loop k' m env requested (w, snd st2)" by (intro Suc.IH) simp_all
      then show ?thesis using call_eq [where f = "me_wait env", OF r] Inr by simp
    qed
  qed
  obtain found st1 where h: "healthyState env st = (found, st1)" by (cases "healthyState env st")
  have le1: "left (fst st1) \<le> left (fst st)" using healthy_left [OF e, of st] h by simp
  show ?case
  proof (cases found)
    case None
    obtain r w where r: "me_lock env (fst st1) = (r, w)" by (cases "me_lock env (fst st1)")
    have le2: "left w \<le> left (fst st)" using le(1) [of "fst st1"] r le1 by simp
    have "startUnderLock n m env (w, snd st1) = startUnderLock k' m env (w, snd st1)"
      using locked_fuel [OF e poll, of "(w, snd st1)"] Suc.prems k le2 by simp
    then show ?thesis using h None call_eq [where f = "me_lock env", OF r] again [of "(w, snd st1)"] le2
      by (cases r) (simp_all add: k)
  next
    case (Some s)
    obtain r w where r: "me_shutdown env s (fst st1) = (r, w)" by (cases "me_shutdown env s (fst st1)")
    have le2: "left w \<le> left (fst st)" using le(2) [of s "fst st1"] r le1 by simp
    have r': "call (me_shutdown env s) (done_act (Asked_Shutdown s) st1) = (r, (w, snd st1 @ [Asked_Shutdown s]))"
      using call_eq [where f = "me_shutdown env s" and st = "done_act (Asked_Shutdown s) st1"] r by simp
    show ?thesis
      using h Some r' again [of "(w, snd st1 @ [Asked_Shutdown s])"] again [of st1] le1 le2
      by (cases r; cases "requested = ds_InstanceID s") (simp_all add: k)
  qed
qed simp

text \<open>C19: \<open>Ensure\<close> returns. With the startup timeout as its deadline, no daemon that stays
  incompatible, no lock that stays held and no child that never becomes healthy keeps it: past the
  number of turns the remaining time allows, more fuel changes neither the result nor the calls made.\<close>

theorem ensure_returns:
  assumes "waits_end left m env" "nat (left w) + 2 \<le> n" "nat (left w) + 2 \<le> k"
  shows "manager_Ensure n m has_context env (w, log) = manager_Ensure k m has_context env (w, log)"
proof (cases "manager_validate m")
  case (Inr u)
  then have "0 < mg_PollInterval m" by (auto simp: manager_validate_def Let_def split: if_splits)
  from loop_fuel [OF assms(1) this, of "(w, log)" n k] assms(2,3) Inr show ?thesis by (simp add: manager_Ensure_def)
qed (simp add: manager_Ensure_def)

section \<open>A concrete run\<close>

text \<open>The world is the time left and whether the daemon is up; it comes up during the first wait after its start.\<close>

definition sample_env :: "(int \<times> bool) manager_env" where
  "sample_env = \<lparr> me_load = (\<lambda>w. (if snd w then Inr sample_state else Inl OS_NotExist, w)), me_remove = (\<lambda>w. (Inr (), w)),
     me_alive = (\<lambda>pid w. (True, w)), me_check = (\<lambda>s w. (Inr (), w)), me_lock = (\<lambda>w. (Inr (), w)), me_close = (\<lambda>w. w),
     me_drop = (\<lambda>w. (Inr (), w)), me_start = (\<lambda>w. (Inr (Some 77), w)), me_stop = (\<lambda>pid w. (Inr (), w)),
     me_detach = (\<lambda>pid w. (Inr (), w)), me_shutdown = (\<lambda>s w. (Inr (), w)),
     me_wait = (\<lambda>w. if 0 < fst w then (Inr (), (fst w - 1, True)) else (Inl Context_DeadlineExceeded, w)) \<rparr>"

definition sample_manager :: Manager where
  "sample_manager = \<lparr> mg_StorePath = ''/s/d'', mg_LockPath = ''/s/l'', mg_HasProbe = True, mg_HasStarter = True,
     mg_ExpectedVersion = ''v1'', mg_HasShutdown = True, mg_StartTimeout = 3, mg_PollInterval = 1 \<rparr>"

lemma sample_run:
  "manager_Ensure (Suc (Suc (Suc n))) sample_manager True sample_env ((3, False), [])
    = (Inr sample_state, ((2, True), [Locked, Cleared, Started 77, Healthy sample_state, Handed_Over, Detached 77]))"
proof -
  have "manager_validate sample_manager = Inr ()"
    by (simp add: manager_validate_def sample_manager_def trimSpace_def trim_pieces_def go_eval)
  moreover have "ds_PID sample_state = 77" "versionCompatible sample_manager sample_state"
    by (simp_all add: sample_state_def versionCompatible_def sample_manager_def)
  ultimately show ?thesis
    by (simp add: manager_Ensure_def healthyState_def call_def done_act_def sample_env_def startUnderLock_def start_locked_def run_child_def)
qed

theorem ensure_safe_witness:
  "versionCompatible sample_manager sample_state
    \<and> count_list [Locked, Cleared, Started 77, Healthy sample_state, Handed_Over, Detached 77] Locked
      = count_list [Locked, Cleared, Started 77, Healthy sample_state, Handed_Over, Detached 77] Unlocked
        + count_list [Locked, Cleared, Started 77, Healthy sample_state, Handed_Over, Detached 77] Handed_Over
    \<and> started_child True 77 [Locked, Cleared, Started 77, Healthy sample_state, Handed_Over, Detached 77]"
  using ensure_safe [OF sample_run] by fastforce

theorem ensure_returns_witness:
  "manager_Ensure 5 sample_manager True sample_env ((3, False), []) = manager_Ensure 1000 sample_manager True sample_env ((3, False), [])"
proof (rule ensure_returns)
  show "waits_end fst sample_manager sample_env" by (simp add: waits_end_def sample_env_def sample_manager_def)
qed simp_all

end
