(* ===== verification/Command_Daemon.thy ===== *)
theory Command_Daemon
  imports Command_Config Daemon_Service Daemon_Manager
begin

text \<open>
  \<open>command/status.go\<close>, \<open>command/stop.go\<close> and \<open>command/serve.go\<close>: the commands that look at the daemon,
  stop it and are it. The daemon lives beside a command, so its files, its process and the clock
  answer as an environment; what the command did to them is kept as a list of actions.
\<close>

section \<open>A command and its surroundings\<close>

datatype cli_act =
    Found State
  | Passed State
  | Signaled int
  | Dead int
  | Gone
  | Lock_Taken
  | Owned State
  | State_Removed
  | Lock_Released
  | Service_Ran "service_act list"
  | Manager_Ran "act list"
  | Synced State environment
  | Launched LaunchSpec

record 'v cli =
  cl_console :: console
  cl_world :: 'v
  cl_log :: "cli_act list"

definition noted :: "cli_act \<Rightarrow> 'v cli \<Rightarrow> 'v cli" where
  "noted x st = st\<lparr>cl_log := cl_log st @ [x]\<rparr>"

definition outside :: "('v \<Rightarrow> 'a \<times> 'v) \<Rightarrow> 'v cli \<Rightarrow> 'a \<times> 'v cli" where
  "outside f st = (case f (cl_world st) of (r, v) \<Rightarrow> (r, st\<lparr>cl_world := v\<rparr>))"

definition cli_fail :: "goerror \<Rightarrow> 'v cli \<Rightarrow> int \<times> 'v cli" where
  "cli_fail e st = (case app_fail e (cl_console st) of (code, c) \<Rightarrow> (code, st\<lparr>cl_console := c\<rparr>))"

text \<open>Writes a text and exits with the code, or fails because the output could not be written.\<close>

definition say :: "app \<Rightarrow> string \<Rightarrow> string \<Rightarrow> int \<Rightarrow> 'v cli \<Rightarrow> int \<times> 'v cli" where
  "say a label s code st = (case write_out a s (cl_console st) of (ok, c) \<Rightarrow>
     let st = st\<lparr>cl_console := c\<rparr> in if ok then (code, st) else cli_fail (Errorf (label @ '': write output'')) st)"

definition text_lines :: "string list \<Rightarrow> string" where
  "text_lines ls = concat (map (\<lambda>l. l @ [CHR 0x0A]) ls)"

text \<open>The waiting of \<open>stop\<close>: what its \<open>select\<close> gets.\<close>

datatype stop_wait = Stop_Tick | Stop_Deadline | Stop_Canceled goerror

record 'v daemon_env =
  de_load :: "string \<Rightarrow> 'v \<Rightarrow> State result \<times> 'v"
  de_remove :: "string \<Rightarrow> 'v \<Rightarrow> unit result \<times> 'v"
  de_alive :: "int \<Rightarrow> 'v \<Rightarrow> bool \<times> 'v"
  de_check :: "State \<Rightarrow> 'v \<Rightarrow> unit result \<times> 'v"
  de_signal :: "int \<Rightarrow> 'v \<Rightarrow> unit result \<times> 'v"
  de_lock :: "string \<Rightarrow> 'v \<Rightarrow> unit result \<times> 'v"
  de_close :: "'v \<Rightarrow> unit result \<times> 'v"
  de_wait :: "'v \<Rightarrow> stop_wait \<times> 'v"

section \<open>status\<close>

definition writeStaleStatus :: "app \<Rightarrow> string \<Rightarrow> 'v cli \<Rightarrow> int \<times> 'v cli" where
  "writeStaleStatus a reason st = say a ''status'' (text_lines [''daemon: stale'', ''reason: '' @ reason]) errorExitCode st"

definition running_text :: "State \<Rightarrow> string" where
  "running_text s = text_lines [''daemon: running'', ''pid: '' @ show_int (ds_PID s), ''endpoint: '' @ EndpointURL s, ''version: '' @ ds_DaemonVersion s]"

definition runStatus :: "app \<Rightarrow> 'v daemon_env \<Rightarrow> string list \<Rightarrow> 'v cli \<Rightarrow> int \<times> 'v cli" where
  "runStatus a env args st =
     (if args \<noteq> [] then (usageExitCode, st)
      else (case paths_Resolve (Some (ap_Getenv a)) of
        Inl e \<Rightarrow> cli_fail (Wrapf ''status: '' e) st
      | Inr runtimePaths \<Rightarrow> (case outside (de_load env (StatePath runtimePaths)) st of
          (Inl e, st) \<Rightarrow>
            if error_is OS_NotExist e then say a ''status'' (text_lines [''daemon: stopped'']) 0 st
            else writeStaleStatus a ''state file is invalid'' st
        | (Inr state, st) \<Rightarrow> (case outside (de_alive env (ds_PID state)) (noted (Found state) st) of
            (False, st) \<Rightarrow> writeStaleStatus a ''process is not running'' st
          | (True, st) \<Rightarrow> (case outside (de_check env state) st of
              (Inl _, st) \<Rightarrow> writeStaleStatus a ''health check failed'' st
            | (Inr _, st) \<Rightarrow> say a ''status'' (running_text state) 0 (noted (Passed state) st))))))"

section \<open>stop\<close>

definition daemonStopTimeout :: int where "daemonStopTimeout = 5000000000"

definition same_daemon :: "State \<Rightarrow> State \<Rightarrow> bool" where
  "same_daemon s s' \<longleftrightarrow> ds_InstanceID s = ds_InstanceID s' \<and> ds_PID s = ds_PID s'"

text \<open>Under the lock; the deferred function closes it.\<close>

definition remove_owned :: "'v daemon_env \<Rightarrow> string \<Rightarrow> State \<Rightarrow> 'v cli \<Rightarrow> bool result \<times> 'v cli" where
  "remove_owned env path expected st = (case outside (de_load env path) st of
     (Inl e, st) \<Rightarrow> (if error_is OS_NotExist e then Inr False else Inl e, st)
   | (Inr current, st) \<Rightarrow>
       if \<not> same_daemon current expected then (Inr False, st)
       else (case outside (de_remove env path) (noted State_Removed (noted (Owned current) st)) of
           (Inl e, st) \<Rightarrow> (Inl e, st) | (Inr _, st) \<Rightarrow> (Inr True, st)))"

definition with_close_error :: "bool result \<Rightarrow> unit result \<Rightarrow> bool result" where
  "with_close_error r c = (case (r, c) of (_, Inr _) \<Rightarrow> r | (Inr _, Inl e) \<Rightarrow> Inl e | (Inl e, Inl e') \<Rightarrow> Inl (Joined e e'))"

definition removeDaemonStateIfOwned :: "'v daemon_env \<Rightarrow> string \<Rightarrow> string \<Rightarrow> State \<Rightarrow> 'v cli \<Rightarrow> bool result \<times> 'v cli" where
  "removeDaemonStateIfOwned env path lockPath expected st = (case outside (de_lock env lockPath) st of
     (Inl e, st) \<Rightarrow> (if error_is Lock_Held e then Inr False else Inl e, st)
   | (Inr _, st) \<Rightarrow> (case remove_owned env path expected (noted Lock_Taken st) of
       (r, st) \<Rightarrow> (case outside (de_close env) (noted Lock_Released st) of (c, st) \<Rightarrow> (with_close_error r c, st))))"

definition stopped :: "app \<Rightarrow> string \<Rightarrow> 'v cli \<Rightarrow> int \<times> 'v cli" where
  "stopped a message st = say a ''stop'' (text_lines [message]) 0 st"

text \<open>The loop after the signal; the first argument bounds its turns (\<open>stop_returns\<close>).\<close>

fun stop_loop :: "nat \<Rightarrow> app \<Rightarrow> 'v daemon_env \<Rightarrow> string \<Rightarrow> string \<Rightarrow> State \<Rightarrow> 'v cli \<Rightarrow> (int \<times> 'v cli) option" where
  "stop_loop 0 a env path lockPath state st = None"
| "stop_loop (Suc n) a env path lockPath state st = (case outside (de_load env path) st of
     (Inl e, st) \<Rightarrow>
       if error_is OS_NotExist e then Some (stopped a ''daemon stopped'' (noted Gone st))
       else Some (cli_fail (Errorf ''stop: daemon state became invalid while waiting for exit'') st)
   | (Inr currentState, st) \<Rightarrow>
       if \<not> same_daemon currentState state then Some (stopped a ''daemon stopped'' (noted Gone st))
       else (case outside (de_alive env (ds_PID state)) st of
           (False, st) \<Rightarrow> (case removeDaemonStateIfOwned env path lockPath state (noted (Dead (ds_PID state)) st) of
               (Inl e, st) \<Rightarrow> Some (cli_fail (Wrapf ''stop: remove state: '' e) st)
             | (Inr _, st) \<Rightarrow> Some (stopped a ''daemon stopped'' st))
         | (True, st) \<Rightarrow> (case outside (de_wait env) st of
             (Stop_Canceled e, st) \<Rightarrow> Some (cli_fail (Wrapf ''stop: '' e) st)
           | (Stop_Deadline, st) \<Rightarrow> Some (cli_fail (Errorf ''stop: timed out waiting for daemon to exit'') st)
           | (Stop_Tick, st) \<Rightarrow> stop_loop n a env path lockPath state st)))"

text \<open>From the state that was found.\<close>

definition stop_found :: "nat \<Rightarrow> app \<Rightarrow> 'v daemon_env \<Rightarrow> string \<Rightarrow> string \<Rightarrow> State \<Rightarrow> 'v cli \<Rightarrow> (int \<times> 'v cli) option" where
  "stop_found n a env path lockPath state st = (case outside (de_alive env (ds_PID state)) st of
     (False, st) \<Rightarrow> (case removeDaemonStateIfOwned env path lockPath state (noted (Dead (ds_PID state)) st) of
         (Inl e, st) \<Rightarrow> Some (cli_fail (Wrapf ''stop: '' e) st)
       | (Inr removed, st) \<Rightarrow> Some (stopped a (if removed then ''removed stale daemon state'' else ''daemon stopped'') st))
   | (True, st) \<Rightarrow> (case outside (de_check env state) st of
       (Inl _, st) \<Rightarrow> Some (cli_fail (Errorf ''stop: refusing to signal a process that failed the daemon health check'') st)
     | (Inr _, st) \<Rightarrow> (case outside (de_signal env (ds_PID state)) (noted (Signaled (ds_PID state)) (noted (Passed state) st)) of
         (Inl e, st) \<Rightarrow>
           if \<not> error_is Process_Done e then Some (cli_fail (Wrapf ''stop: signal daemon: '' e) st)
           else stop_loop n a env path lockPath state st
       | (Inr _, st) \<Rightarrow> stop_loop n a env path lockPath state st)))"

definition runStop :: "nat \<Rightarrow> app \<Rightarrow> 'v daemon_env \<Rightarrow> string list \<Rightarrow> 'v cli \<Rightarrow> (int \<times> 'v cli) option" where
  "runStop n a env args st =
     (if args \<noteq> [] then Some (usageExitCode, st)
      else (case paths_Resolve (Some (ap_Getenv a)) of
        Inl e \<Rightarrow> Some (cli_fail (Wrapf ''stop: '' e) st)
      | Inr runtimePaths \<Rightarrow> (case outside (de_load env (StatePath runtimePaths)) st of
          (Inl e, st) \<Rightarrow>
            if error_is OS_NotExist e then Some (stopped a ''daemon already stopped'' (noted Gone st))
            else Some (cli_fail (Errorf ''stop: daemon state is invalid'') st)
        | (Inr state, st) \<Rightarrow> stop_found n a env (StatePath runtimePaths) (LockPath runtimePaths) state (noted (Found state) st))))"

section \<open>serve\<close>

text \<open>\<open>sv_Adopt\<close> and \<open>sv_Acquire\<close> are \<open>AdoptInheritedLock\<close> and \<open>TryAcquireLock\<close> for this process.\<close>

record 'v serve_env =
  sv_Adopt :: "string \<Rightarrow> 'v \<Rightarrow> FileLock result \<times> 'v"
  sv_Acquire :: "string \<Rightarrow> 'v \<Rightarrow> FileLock result \<times> 'v"
  sv_Service :: "'v service_env"
  sv_Runner :: "unit result"

definition background_child :: "string list \<Rightarrow> bool option" where
  "background_child args = (if args = [] then Some False else if args = [''--background-child''] then Some True else None)"

definition runServe ::
  "app \<Rightarrow> string \<Rightarrow> ((string \<times> string) list \<Rightarrow> (string \<times> string) list) \<Rightarrow> 'v serve_env \<Rightarrow> string list \<Rightarrow> 'v cli \<Rightarrow> int \<times> 'v cli" where
  "runServe a version order env args st = (case background_child args of
     None \<Rightarrow> (usageExitCode, st)
   | Some backgroundChild \<Rightarrow> (case paths_Resolve (Some (ap_Getenv a)) of
       Inl e \<Rightarrow> cli_fail e st
     | Inr runtimePaths \<Rightarrow>
         (case outside ((if backgroundChild then sv_Adopt env else sv_Acquire env) (LockPath runtimePaths)) st of
            (Inl e, st) \<Rightarrow>
              cli_fail (if \<not> backgroundChild \<and> error_is Lock_Held e then Errorf ''serve: daemon is already running or starting''
                else Wrapf ''serve: acquire inherited daemon lock: '' e) st
          | (Inr lock, st) \<Rightarrow>
              (case RunService (sv_Service env) order True \<lparr> sp_Paths = runtimePaths, sp_Version = version, sp_Lock = Some lock,
                    sp_ListenAddress = [], sp_IdleTimeout = 0, sp_HasHandler = False \<rparr> (sv_Runner env) (cl_world st, []) of
                 (r, (v, log)) \<Rightarrow> let st = noted (Service_Ran log) (st\<lparr>cl_world := v\<rparr>) in
                   (case r of Inl e \<Rightarrow> cli_fail (Wrapf ''serve: '' e) st | Inr _ \<Rightarrow> (0, st))))))"

section \<open>What \<open>stop\<close> does\<close>

lemma outside_log: "outside f st = (r, st') \<Longrightarrow> cl_log st' = cl_log st"
  by (auto simp: outside_def split: prod.splits)

lemma noted_log [simp]: "cl_log (noted x st) = cl_log st @ [x]"
  by (simp add: noted_def)

lemma fail_log [simp]: "cl_log (snd (cli_fail e st)) = cl_log st" "fst (cli_fail e st) = 1"
  by (simp_all add: cli_fail_def app_fail_def errorExitCode_def)

lemma stopped_log [simp]: "cl_log (snd (stopped a message st)) = cl_log st"
  by (simp add: stopped_def say_def Let_def split: prod.split)

text \<open>Whether and how the lock was taken and the state removed, when that was for the daemon \<open>s\<close>.\<close>

definition removal :: "State \<Rightarrow> cli_act list \<Rightarrow> bool" where
  "removal s l \<longleftrightarrow> l = [] \<or> l = [Lock_Taken, Lock_Released] \<or> (\<exists>s'. same_daemon s' s \<and> l = [Lock_Taken, Owned s', State_Removed, Lock_Released])"

lemma removal_log:
  assumes "removeDaemonStateIfOwned env path lockPath s st = (r, st')"
  shows "\<exists>l. cl_log st' = cl_log st @ l \<and> removal s l"
proof -
  obtain r1 st1 where lock: "outside (de_lock env lockPath) st = (r1, st1)" by (cases "outside (de_lock env lockPath) st")
  note log1 = outside_log [OF lock]
  show ?thesis
  proof (cases r1)
    case (Inl e)
    then show ?thesis using assms lock log1 by (intro exI [of _ "[]"]) (simp add: removeDaemonStateIfOwned_def removal_def)
  next
    case (Inr u)
    obtain r2 st2 where rm: "remove_owned env path s (noted Lock_Taken st1) = (r2, st2)" by (cases "remove_owned env path s (noted Lock_Taken st1)")
    obtain c st3 where cl: "outside (de_close env) (noted Lock_Released st2) = (c, st3)" by (cases "outside (de_close env) (noted Lock_Released st2)")
    have log3: "cl_log st' = cl_log st2 @ [Lock_Released]" using assms lock Inr rm cl outside_log [OF cl] by (simp add: removeDaemonStateIfOwned_def)
    obtain r4 st4 where ld: "outside (de_load env path) (noted Lock_Taken st1) = (r4, st4)" by (cases "outside (de_load env path) (noted Lock_Taken st1)")
    note log4 = outside_log [OF ld]
    show ?thesis
    proof (cases "\<exists>current. r4 = Inr current \<and> same_daemon current s")
      case True
      then obtain current where c: "r4 = Inr current" "same_daemon current s" by auto
      obtain r5 st5 where d: "outside (de_remove env path) (noted State_Removed (noted (Owned current) st4)) = (r5, st5)"
        by (cases "outside (de_remove env path) (noted State_Removed (noted (Owned current) st4))")
      have "st2 = st5" using rm ld c d by (cases r5) (simp_all add: remove_owned_def)
      then have "cl_log st' = cl_log st @ [Lock_Taken, Owned current, State_Removed, Lock_Released]"
        using log1 log3 log4 outside_log [OF d] by simp
      then show ?thesis using c(2) unfolding removal_def by blast
    next
      case False
      then have "st2 = st4" using rm ld by (cases r4) (auto simp: remove_owned_def)
      then have "cl_log st' = cl_log st @ [Lock_Taken, Lock_Released]" using log1 log3 log4 by simp
      then show ?thesis unfolding removal_def by blast
    qed
  qed
qed

definition stop_end :: "State \<Rightarrow> int \<Rightarrow> cli_act list \<Rightarrow> bool" where
  "stop_end s code l \<longleftrightarrow> l = [] \<and> code = 1 \<or> l = [Gone] \<or> (\<exists>l'. l = Dead (ds_PID s) # l' \<and> removal s l')"

lemma stop_loop_log:
  assumes "stop_loop n a env path lockPath s st = Some (code, st')"
  shows "\<exists>l. cl_log st' = cl_log st @ l \<and> stop_end s code l"
  using assms
proof (induction n arbitrary: st)
  case (Suc n)
  have pair: "p = (code, st') \<Longrightarrow> code = fst p \<and> st' = snd p" for p by auto
  obtain r1 st1 where ld: "outside (de_load env path) st = (r1, st1)" by (cases "outside (de_load env path) st")
  note log1 = outside_log [OF ld]
  show ?case
  proof (cases "\<exists>current. r1 = Inr current \<and> same_daemon current s")
    case False
    then have "stopped a ''daemon stopped'' (noted Gone st1) = (code, st') \<or>
        cli_fail (Errorf ''stop: daemon state became invalid while waiting for exit'') st1 = (code, st')"
      using Suc.prems ld by (cases r1) (auto split: if_splits)
    then show ?thesis
    proof
      assume "stopped a ''daemon stopped'' (noted Gone st1) = (code, st')"
      from pair [OF this] show ?thesis using log1 by (intro exI [of _ "[Gone]"]) (simp add: stop_end_def)
    next
      assume "cli_fail (Errorf ''stop: daemon state became invalid while waiting for exit'') st1 = (code, st')"
      from pair [OF this] show ?thesis using log1 by (intro exI [of _ "[]"]) (simp add: stop_end_def)
    qed
  next
    case True
    then obtain current where c: "r1 = Inr current" "same_daemon current s" by auto
    obtain alive st2 where al: "outside (de_alive env (ds_PID s)) st1 = (alive, st2)" by (cases "outside (de_alive env (ds_PID s)) st1")
    note log2 = outside_log [OF al]
    show ?thesis
    proof (cases alive)
      case False
      obtain r3 st3 where rm: "removeDaemonStateIfOwned env path lockPath s (noted (Dead (ds_PID s)) st2) = (r3, st3)"
        by (cases "removeDaemonStateIfOwned env path lockPath s (noted (Dead (ds_PID s)) st2)")
      from removal_log [OF rm] obtain l where l: "cl_log st3 = cl_log st @ Dead (ds_PID s) # l" "removal s l" using log1 log2 by auto
      have "cli_fail (Wrapf ''stop: remove state: '' (projl r3)) st3 = (code, st') \<or> stopped a ''daemon stopped'' st3 = (code, st')"
        using Suc.prems ld c al False rm by (cases r3) auto
      then have "cl_log st' = cl_log st3" using pair by fastforce
      then show ?thesis using l unfolding stop_end_def by auto
    next
      case alive: True
      obtain w st3 where wt: "outside (de_wait env) st2 = (w, st3)" by (cases "outside (de_wait env) st2")
      note log3 = outside_log [OF wt]
      show ?thesis
      proof (cases w)
        case Stop_Tick
        then have "stop_loop n a env path lockPath s st3 = Some (code, st')" using Suc.prems ld c al alive wt by simp
        from Suc.IH [OF this] show ?thesis using log1 log2 log3 by simp
      next
        case Stop_Deadline
        then have "cli_fail (Errorf ''stop: timed out waiting for daemon to exit'') st3 = (code, st')" using Suc.prems ld c al alive wt by simp
        from pair [OF this] show ?thesis using log1 log2 log3 by (intro exI [of _ "[]"]) (simp add: stop_end_def)
      next
        case (Stop_Canceled e)
        then have "cli_fail (Wrapf ''stop: '' e) st3 = (code, st')" using Suc.prems ld c al alive wt by simp
        from pair [OF this] show ?thesis using log1 log2 log3 by (intro exI [of _ "[]"]) (simp add: stop_end_def)
      qed
    qed
  qed
qed simp

lemma stop_found_log:
  assumes "stop_found n a env path lockPath s st = Some (code, st')"
  shows "\<exists>before l. cl_log st' = cl_log st @ before @ l \<and> (before = [] \<or> before = [Passed s, Signaled (ds_PID s)]) \<and> stop_end s code l"
proof -
  have pair: "p = (code, st') \<Longrightarrow> code = fst p \<and> st' = snd p" for p by auto
  obtain alive st1 where al: "outside (de_alive env (ds_PID s)) st = (alive, st1)" by (cases "outside (de_alive env (ds_PID s)) st")
  note log1 = outside_log [OF al]
  show ?thesis
  proof (cases alive)
    case False
    obtain r2 st2 where rm: "removeDaemonStateIfOwned env path lockPath s (noted (Dead (ds_PID s)) st1) = (r2, st2)"
      by (cases "removeDaemonStateIfOwned env path lockPath s (noted (Dead (ds_PID s)) st1)")
    from removal_log [OF rm] obtain l where l: "cl_log st2 = cl_log st @ Dead (ds_PID s) # l" "removal s l" using log1 by auto
    have "cl_log st' = cl_log st2"
      using assms al False rm pair by (cases r2) (fastforce simp: stop_found_def)+
    then have "cl_log st' = cl_log st @ [] @ Dead (ds_PID s) # l" "stop_end s code (Dead (ds_PID s) # l)"
      using l by (auto simp: stop_end_def)
    then show ?thesis by blast
  next
    case True
    obtain r2 st2 where ck: "outside (de_check env s) st1 = (r2, st2)" by (cases "outside (de_check env s) st1")
    note log2 = outside_log [OF ck]
    show ?thesis
    proof (cases r2)
      case (Inl e)
      then have "cli_fail (Errorf ''stop: refusing to signal a process that failed the daemon health check'') st2 = (code, st')"
        using assms al True ck by (simp add: stop_found_def)
      from pair [OF this] show ?thesis using log1 log2 by (intro exI [of _ "[]"]) (simp add: stop_end_def)
    next
      case (Inr u)
      let ?st = "noted (Signaled (ds_PID s)) (noted (Passed s) st2)"
      obtain r3 st3 where sg: "outside (de_signal env (ds_PID s)) ?st = (r3, st3)" by (cases "outside (de_signal env (ds_PID s)) ?st")
      have log3: "cl_log st3 = cl_log st @ [Passed s, Signaled (ds_PID s)]" using outside_log [OF sg] log1 log2 by simp
      consider (loop) "stop_loop n a env path lockPath s st3 = Some (code, st')" | (failed) e where "cli_fail e st3 = (code, st')"
        using assms al True ck Inr sg by (cases r3) (auto simp: stop_found_def split: if_splits)
      then show ?thesis
      proof cases
        case loop
        from stop_loop_log [OF this] obtain l where "cl_log st' = cl_log st @ [Passed s, Signaled (ds_PID s)] @ l" "stop_end s code l"
          using log3 by auto
        then show ?thesis by blast
      next
        case (failed e)
        from pair [OF this] have "cl_log st' = cl_log st @ [Passed s, Signaled (ds_PID s)] @ []" "stop_end s code []"
          using log3 by (simp_all add: stop_end_def)
        then show ?thesis by blast
      qed
    qed
  qed
qed

lemma stop_run_log:
  assumes run: "runStop n a env args st = Some (code, st')" and start: "cl_log st = []"
  obtains (none) "cl_log st' = []" "code \<noteq> 0" | (gone) "cl_log st' = [Gone]"
    | (found) s before l where "cl_log st' = Found s # before @ l" "before = [] \<or> before = [Passed s, Signaled (ds_PID s)]" "stop_end s code l"
proof (cases "args = [] \<and> (\<exists>p. paths_Resolve (Some (ap_Getenv a)) = Inr p)")
  have pair: "p = (code, st') \<Longrightarrow> code = fst p \<and> st' = snd p" for p by auto
  {
    case False
    then have "(usageExitCode, st) = (code, st') \<or> (\<exists>e. cli_fail e st = (code, st'))"
      using run by (cases "paths_Resolve (Some (ap_Getenv a))") (auto simp: runStop_def split: if_splits)
    then have "cl_log st' = [] \<and> code \<noteq> 0" using start by (auto simp: usageExitCode_def dest!: pair)
    then show ?thesis using none by blast
  next
    case True
    then obtain p where p: "args = []" "paths_Resolve (Some (ap_Getenv a)) = Inr p" by auto
    obtain r1 st1 where ld: "outside (de_load env (StatePath p)) st = (r1, st1)" by (cases "outside (de_load env (StatePath p)) st")
    have log1: "cl_log st1 = []" using outside_log [OF ld] start by simp
    show ?thesis
    proof (cases r1)
      case (Inl e)
      then have "stopped a ''daemon already stopped'' (noted Gone st1) = (code, st')
          \<or> cli_fail (Errorf ''stop: daemon state is invalid'') st1 = (code, st')"
        using run p ld by (auto simp: runStop_def split: if_splits)
      then show ?thesis using log1 none gone by (auto dest!: pair)
    next
      case (Inr s)
      then have "stop_found n a env (StatePath p) (LockPath p) s (noted (Found s) st1) = Some (code, st')"
        using run p ld by (simp add: runStop_def)
      from stop_found_log [OF this] show ?thesis using log1 found by auto
    qed
  }
qed

text \<open>C21: \<open>stop\<close> ends nothing but the daemon it found. Whatever the other processes and the files do, it sends at most one signal, to the
  process of the state it loaded, and only right after the health check said that this process is that daemon; it removes the
  state file at most once, only after the process was seen dead, under the daemon lock, which it releases, and only when the
  file, read again under the lock, is still that of the same process and instance; and it exits with 0 only when the daemon
  was gone: no state, a state of another daemon, or a dead process.\<close>

theorem stop_safe:
  assumes run: "runStop n a env args st = Some (code, st')" and start: "cl_log st = []"
  shows "(\<forall>pid. Signaled pid \<in> set (cl_log st') \<longrightarrow>
        (\<exists>s l. cl_log st' = [Found s, Passed s, Signaled pid] @ l \<and> ds_PID s = pid \<and> (\<forall>pid'. Signaled pid' \<notin> set l)))
    \<and> (State_Removed \<in> set (cl_log st') \<longrightarrow>
        (\<exists>s s' l. cl_log st' = Found s # l @ [Dead (ds_PID s), Lock_Taken, Owned s', State_Removed, Lock_Released]
          \<and> same_daemon s' s \<and> State_Removed \<notin> set l))
    \<and> count_list (cl_log st') Lock_Taken = count_list (cl_log st') Lock_Released
    \<and> (code = 0 \<longrightarrow> Gone \<in> set (cl_log st') \<or> (\<exists>pid. Dead pid \<in> set (cl_log st')))"
  using run start
proof (cases rule: stop_run_log)
  case (found s before l)
  consider "l = []" "code = 1" | "l = [Gone]" | l' where "l = Dead (ds_PID s) # l'" "removal s l'" using found(3) by (auto simp: stop_end_def)
  then show ?thesis
  proof cases
    case 3
    then show ?thesis using found(1,2) unfolding removal_def by (elim disjE) auto
  qed (use found(1,2) in auto)
qed auto

section \<open>\<open>stop\<close> returns\<close>

text \<open>\<open>left\<close> is the time until \<open>select\<close> takes the deadline; a tick takes one period and no call gives time back.\<close>

definition tickPeriod :: int where "tickPeriod = 25000000"

definition ticks_end :: "('v \<Rightarrow> int) \<Rightarrow> 'v daemon_env \<Rightarrow> bool" where
  "ticks_end left env \<longleftrightarrow> (\<forall>v. (case de_wait env v of (Stop_Tick, v') \<Rightarrow> 0 < left v \<and> left v' \<le> left v - tickPeriod | _ \<Rightarrow> True)
     \<and> (\<forall>path. left (snd (de_load env path v)) \<le> left v) \<and> (\<forall>pid. left (snd (de_alive env pid v)) \<le> left v))"

lemma stop_loop_returns:
  assumes e: "ticks_end left env"
  shows "left (cl_world st) \<le> int n * tickPeriod \<Longrightarrow> \<exists>r. stop_loop (Suc n) a env path lockPath s st = Some r"
proof (induction n arbitrary: st)
  have pre: "\<exists>st2. left (cl_world st2) \<le> left (cl_world st)
      \<and> (stop_loop (Suc k) a env path lockPath s st = (case outside (de_wait env) st2 of
             (Stop_Canceled e, st) \<Rightarrow> Some (cli_fail (Wrapf ''stop: '' e) st)
           | (Stop_Deadline, st) \<Rightarrow> Some (cli_fail (Errorf ''stop: timed out waiting for daemon to exit'') st)
           | (Stop_Tick, st) \<Rightarrow> stop_loop k a env path lockPath s st)
        \<or> (\<exists>r. stop_loop (Suc k) a env path lockPath s st = Some r))" for k st
  proof -
    obtain r1 v1 where ld: "de_load env path (cl_world st) = (r1, v1)" by (cases "de_load env path (cl_world st)")
    obtain al v2 where al: "de_alive env (ds_PID s) v1 = (al, v2)" by (cases "de_alive env (ds_PID s) v1")
    have "\<forall>path v. left (snd (de_load env path v)) \<le> left v" "\<forall>pid v. left (snd (de_alive env pid v)) \<le> left v"
      using e unfolding ticks_end_def by blast+
    then have "left v1 \<le> left (cl_world st)" "left v2 \<le> left v1" using ld al by (metis snd_conv)+
    moreover obtain rm st3 where "removeDaemonStateIfOwned env path lockPath s (noted (Dead (ds_PID s)) (st\<lparr>cl_world := v2\<rparr>)) = (rm, st3)"
      by (cases "removeDaemonStateIfOwned env path lockPath s (noted (Dead (ds_PID s)) (st\<lparr>cl_world := v2\<rparr>))")
    ultimately show ?thesis using ld al
      by (intro exI [of _ "st\<lparr>cl_world := v2\<rparr>"], cases r1; cases rm; cases al) (auto simp: outside_def)
  qed
  have tick: "de_wait env v = (Stop_Tick, v') \<Longrightarrow> 0 < left v \<and> left v' \<le> left v - tickPeriod" for v v'
    using e unfolding ticks_end_def by (drule_tac spec [of _ v]) simp
  {
    case 0
    from pre [of st 0] obtain st2 where "left (cl_world st2) \<le> left (cl_world st)"
      "stop_loop 1 a env path lockPath s st = (case outside (de_wait env) st2 of
             (Stop_Canceled e, st) \<Rightarrow> Some (cli_fail (Wrapf ''stop: '' e) st)
           | (Stop_Deadline, st) \<Rightarrow> Some (cli_fail (Errorf ''stop: timed out waiting for daemon to exit'') st)
           | (Stop_Tick, st) \<Rightarrow> stop_loop 0 a env path lockPath s st) \<or> (\<exists>r. stop_loop 1 a env path lockPath s st = Some r)" by auto
    moreover obtain w v' where "de_wait env (cl_world st2) = (w, v')" by (cases "de_wait env (cl_world st2)")
    ultimately show ?case using 0 tick [of "cl_world st2" v'] by (cases w) (auto simp: outside_def)
  next
    case (Suc n)
    from pre [of st "Suc n"] obtain st2 where st2: "left (cl_world st2) \<le> left (cl_world st)"
      "stop_loop (Suc (Suc n)) a env path lockPath s st = (case outside (de_wait env) st2 of
             (Stop_Canceled e, st) \<Rightarrow> Some (cli_fail (Wrapf ''stop: '' e) st)
           | (Stop_Deadline, st) \<Rightarrow> Some (cli_fail (Errorf ''stop: timed out waiting for daemon to exit'') st)
           | (Stop_Tick, st) \<Rightarrow> stop_loop (Suc n) a env path lockPath s st) \<or> (\<exists>r. stop_loop (Suc (Suc n)) a env path lockPath s st = Some r)" by blast
    obtain w v' where w: "de_wait env (cl_world st2) = (w, v')" by (cases "de_wait env (cl_world st2)")
    show ?case
    proof (cases w)
      case Stop_Tick
      then have "left v' \<le> left (cl_world st2) - tickPeriod" using tick w by blast
      then have "left (cl_world (st2\<lparr>cl_world := v'\<rparr>)) \<le> int n * tickPeriod" using Suc.prems st2(1) by (simp add: algebra_simps)
      from Suc.IH [OF this] show ?thesis using st2(2) w Stop_Tick by (auto simp: outside_def simp del: stop_loop.simps)
    qed (use st2(2) w in \<open>auto simp: outside_def simp del: stop_loop.simps\<close>)
  }
qed

text \<open>C22: \<open>stop\<close> returns. However long the daemon takes to exit, 201 turns of the loop are enough: the wait is five seconds long and is
  looked at every 25 milliseconds.\<close>

theorem stop_returns:
  assumes "ticks_end left env" and "\<And>pid v. left (snd (de_signal env pid v)) \<le> daemonStopTimeout" and "201 \<le> n"
  shows "\<exists>code st'. runStop n a env args st = Some (code, st')"
proof -
  obtain k where n: "n = Suc k" "200 \<le> k" using assms(3) by (cases n) auto
  have loop: "\<exists>r. stop_loop n a env path lockPath s st = Some r" if "left (cl_world st) \<le> daemonStopTimeout" for path lockPath s st
    unfolding n(1)
  proof (rule stop_loop_returns [OF assms(1)])
    have "200 * tickPeriod \<le> int k * tickPeriod" using n(2) by (intro mult_right_mono) (simp_all add: tickPeriod_def)
    then show "left (cl_world st) \<le> int k * tickPeriod" using that by (simp add: tickPeriod_def daemonStopTimeout_def)
  qed
  have found: "\<exists>r. stop_found n a env path lockPath s st = Some r" for path lockPath s st
  proof -
    obtain alive st1 where al: "outside (de_alive env (ds_PID s)) st = (alive, st1)" by (cases "outside (de_alive env (ds_PID s)) st")
    obtain rm st3 where rm: "removeDaemonStateIfOwned env path lockPath s (noted (Dead (ds_PID s)) st1) = (rm, st3)"
      by (cases "removeDaemonStateIfOwned env path lockPath s (noted (Dead (ds_PID s)) st1)")
    obtain r2 st2 where ck: "outside (de_check env s) st1 = (r2, st2)" by (cases "outside (de_check env s) st1")
    obtain r4 v4 where sg: "de_signal env (ds_PID s) (cl_world st2) = (r4, v4)" by (cases "de_signal env (ds_PID s) (cl_world st2)")
    then have "left v4 \<le> daemonStopTimeout" using assms(2) by (metis snd_conv)
    then have "\<exists>r. stop_loop n a env path lockPath s (noted (Signaled (ds_PID s)) (noted (Passed s) st2)\<lparr>cl_world := v4\<rparr>) = Some r"
      by (intro loop) simp
    then obtain r where "stop_loop n a env path lockPath s (noted (Signaled (ds_PID s)) (noted (Passed s) st2)\<lparr>cl_world := v4\<rparr>) = Some r" by blast
    moreover have "outside (de_signal env (ds_PID s)) (noted (Signaled (ds_PID s)) (noted (Passed s) st2))
        = (r4, noted (Signaled (ds_PID s)) (noted (Passed s) st2)\<lparr>cl_world := v4\<rparr>)"
      using sg by (simp add: outside_def noted_def)
    ultimately show ?thesis using al rm ck by (cases alive; cases rm; cases r2; cases r4) (auto simp: stop_found_def)
  qed
  show ?thesis
    using found unfolding runStop_def by (auto split: sum.split prod.split)
qed

section \<open>Runs\<close>

text \<open>A daemon that removes its state when it is signaled, and one that does not end, with a clock.\<close>

definition obedient :: "bool daemon_env" where
  "obedient = \<lparr> de_load = \<lambda>_ gone. (if gone then Inl OS_NotExist else Inr sample_state, gone), de_remove = \<lambda>_ w. (Inr (), w),
     de_alive = \<lambda>_ w. (True, w), de_check = \<lambda>_ w. (Inr (), w), de_signal = \<lambda>_ _. (Inr (), True), de_lock = \<lambda>_ w. (Inr (), w),
     de_close = \<lambda>w. (Inr (), w), de_wait = \<lambda>w. (Stop_Deadline, w) \<rparr>"

definition stubborn :: "int daemon_env" where
  "stubborn = \<lparr> de_load = \<lambda>_ w. (Inr sample_state, w), de_remove = \<lambda>_ w. (Inr (), w),
     de_alive = \<lambda>_ w. (True, w), de_check = \<lambda>_ w. (Inr (), w), de_signal = \<lambda>_ _. (Inr (), daemonStopTimeout), de_lock = \<lambda>_ w. (Inr (), w),
     de_close = \<lambda>w. (Inr (), w), de_wait = \<lambda>w. if 0 < w then (Stop_Tick, w - tickPeriod) else (Stop_Deadline, w) \<rparr>"

definition sample_cli :: "'v \<Rightarrow> 'v cli" where
  "sample_cli v = \<lparr> cl_console = sample_console, cl_world = v, cl_log = [] \<rparr>"

theorem stop_safe_witness:
  "\<exists>st'. runStop 1 sample_app obedient [] (sample_cli False) = Some (0, st') \<and> cl_log st' = [Found sample_state, Passed sample_state, Signaled 77, Gone]
     \<and> (\<exists>s l. cl_log st' = [Found s, Passed s, Signaled 77] @ l \<and> ds_PID s = 77 \<and> (\<forall>pid'. Signaled pid' \<notin> set l))"
proof -
  obtain p where p: "paths_Resolve (Some sample_getenv) = Inr p" using sample_paths by auto
  have "ap_Getenv sample_app = sample_getenv" "ap_Writes sample_app n" "ds_PID sample_state = 77" for n
    by (simp_all add: sample_app_def sample_state_def)
  then obtain st' where st': "runStop 1 sample_app obedient [] (sample_cli False) = Some (0, st')"
      "cl_log st' = [Found sample_state, Passed sample_state, Signaled 77, Gone]"
    using p by (simp add: runStop_def stop_found_def obedient_def outside_def sample_cli_def noted_def stopped_def say_def write_out_def)
  then show ?thesis using stop_safe [OF st'(1)] by (simp add: sample_cli_def)
qed

theorem stop_returns_witness:
  "\<exists>code st'. runStop 201 sample_app stubborn [] (sample_cli 0) = Some (code, st')"
proof (rule stop_returns [of id])
  show "ticks_end id stubborn" by (simp add: ticks_end_def stubborn_def)
  show "id (snd (de_signal stubborn pid v)) \<le> daemonStopTimeout" for pid v by (simp add: stubborn_def)
qed simp

text \<open>\<open>status\<close> calls a daemon running, or there being none, only when that is what it saw.\<close>

lemma status_truthful:
  assumes "runStatus a env args st = (0, st')" and "cl_log st = []"
  shows "cl_log st' = [] \<or> (\<exists>s. cl_log st' = [Found s, Passed s])"
proof -
  have log: "cl_log (snd (say a label s code st)) = cl_log st" for label s code and st :: "'a cli"
    by (simp add: say_def Let_def split: prod.split)
  have stale: "fst (writeStaleStatus a reason st) \<noteq> 0" for reason and st :: "'a cli"
    by (simp add: writeStaleStatus_def say_def errorExitCode_def Let_def split: prod.split)
  have pair: "p = (0, st') \<Longrightarrow> fst p = 0 \<and> st' = snd p" for p :: "int \<times> 'a cli" by auto
  show ?thesis
  proof (cases "args = [] \<and> (\<exists>p. paths_Resolve (Some (ap_Getenv a)) = Inr p)")
    case True
    then obtain p where p: "args = []" "paths_Resolve (Some (ap_Getenv a)) = Inr p" by auto
    obtain r1 st1 where ld: "outside (de_load env (StatePath p)) st = (r1, st1)" by (cases "outside (de_load env (StatePath p)) st")
    note log1 = outside_log [OF ld]
    show ?thesis
    proof (cases r1)
      case (Inl e)
      then have "say a ''status'' (text_lines [''daemon: stopped'']) 0 st1 = (0, st') \<or> writeStaleStatus a ''state file is invalid'' st1 = (0, st')"
        using assms(1) p ld by (auto simp: runStatus_def split: if_splits)
      then show ?thesis using log1 assms(2) by (auto dest!: pair simp: log stale)
    next
      case (Inr s)
      obtain al st2 where al: "outside (de_alive env (ds_PID s)) (noted (Found s) st1) = (al, st2)"
        by (cases "outside (de_alive env (ds_PID s)) (noted (Found s) st1)")
      obtain r3 st3 where ck: "outside (de_check env s) st2 = (r3, st3)" by (cases "outside (de_check env s) st2")
      have "(\<exists>reason st. writeStaleStatus a reason st = (0, st')) \<or> say a ''status'' (running_text s) 0 (noted (Passed s) st3) = (0, st')"
        using assms(1) p ld Inr al ck by (cases al; cases r3) (auto simp: runStatus_def)
      then show ?thesis
        using log1 outside_log [OF al] outside_log [OF ck] assms(2) by (auto dest!: pair simp: log stale)
    qed
  next
    case False
    then have "(usageExitCode, st) = (0, st') \<or> (\<exists>e. cli_fail e st = (0, st'))"
      using assms(1) by (cases "paths_Resolve (Some (ap_Getenv a))") (auto simp: runStatus_def split: if_splits)
    then show ?thesis by (auto simp: usageExitCode_def dest!: pair)
  qed
qed

lemma status_log:
  assumes "runStatus a env args st = (code, st')" and "cl_log st = []"
  shows "\<forall>x\<in>set (cl_log st'). \<exists>s. x = Found s \<or> x = Passed s"
proof -
  have log: "cl_log (snd (say a label s code st)) = cl_log st" for label s code and st :: "'a cli"
    by (simp add: say_def Let_def split: prod.split)
  have pair: "p = (code, st') \<Longrightarrow> snd p = st'" for p :: "int \<times> 'a cli" by auto
  show ?thesis
  proof (cases "args = [] \<and> (\<exists>p. paths_Resolve (Some (ap_Getenv a)) = Inr p)")
    case True
    then obtain p where p: "args = []" "paths_Resolve (Some (ap_Getenv a)) = Inr p" by auto
    obtain r1 st1 where ld: "outside (de_load env (StatePath p)) st = (r1, st1)" by (cases "outside (de_load env (StatePath p)) st")
    note log1 = outside_log [OF ld]
    have said: "(\<exists>label s c. say a label s c st2 = (code, st')) \<Longrightarrow> cl_log st' = cl_log st2" for st2 by (auto dest!: pair simp: log)
    show ?thesis
    proof (cases r1)
      case (Inl e)
      then have "\<exists>label s c. say a label s c st1 = (code, st')"
        using assms(1) p ld by (auto simp: runStatus_def writeStaleStatus_def split: if_splits)
      then show ?thesis using log1 assms(2) said by simp
    next
      case (Inr s)
      obtain al st2 where al: "outside (de_alive env (ds_PID s)) (noted (Found s) st1) = (al, st2)"
        by (cases "outside (de_alive env (ds_PID s)) (noted (Found s) st1)")
      obtain r3 st3 where ck: "outside (de_check env s) st2 = (r3, st3)" by (cases "outside (de_check env s) st2")
      have "(\<exists>label s c. say a label s c st2 = (code, st')) \<or> (\<exists>label s c. say a label s c st3 = (code, st'))
          \<or> (\<exists>label t c. say a label t c (noted (Passed s) st3) = (code, st'))"
        using assms(1) p ld Inr al ck by (cases al; cases r3) (auto simp: runStatus_def writeStaleStatus_def)
      then have "cl_log st' \<in> {cl_log st2, cl_log st3, cl_log (noted (Passed s) st3)}" using said by blast
      then show ?thesis using log1 outside_log [OF al] outside_log [OF ck] assms(2) by auto
    qed
  next
    case False
    then have "(usageExitCode, st) = (code, st') \<or> (\<exists>e. cli_fail e st = (code, st'))"
      using assms(1) by (cases "paths_Resolve (Some (ap_Getenv a))") (auto simp: runStatus_def split: if_splits)
    then show ?thesis using assms(2) by (auto dest!: pair)
  qed
qed

text \<open>\<open>serve\<close> runs the service only with the lock it took or inherited, and exits with 0 only when the service ended well.\<close>

lemma serve_locked:
  assumes "runServe a version order env args st = (code, st')" and "cl_log st = []"
  shows "cl_log st' = [] \<and> code \<noteq> 0 \<or> (\<exists>p lock v log r.
      paths_Resolve (Some (ap_Getenv a)) = Inr p \<and> fst ((if args = [] then sv_Acquire env else sv_Adopt env) (LockPath p) (cl_world st)) = Inr lock
      \<and> RunService (sv_Service env) order True \<lparr> sp_Paths = p, sp_Version = version, sp_Lock = Some lock,
          sp_ListenAddress = [], sp_IdleTimeout = 0, sp_HasHandler = False \<rparr> (sv_Runner env) (v, []) = (r, (cl_world st', log))
      \<and> cl_log st' = [Service_Ran log] \<and> (code = 0 \<longleftrightarrow> r = Inr ()))"
proof -
  have pair: "p = (code, st') \<Longrightarrow> fst p = code \<and> snd p = st'" for p by auto
  show ?thesis
  proof (cases "\<exists>bg p. background_child args = Some bg \<and> paths_Resolve (Some (ap_Getenv a)) = Inr p")
    case True
    then obtain bg p where p: "background_child args = Some bg" "paths_Resolve (Some (ap_Getenv a)) = Inr p" by auto
    then have bg: "bg \<longleftrightarrow> args \<noteq> []" by (auto simp: background_child_def split: if_splits)
    obtain r1 v where lk: "(if bg then sv_Adopt env else sv_Acquire env) (LockPath p) (cl_world st) = (r1, v)"
      by (cases "(if bg then sv_Adopt env else sv_Acquire env) (LockPath p) (cl_world st)")
    show ?thesis
    proof (cases r1)
      case (Inl e)
      then have "\<exists>x. cli_fail x (st\<lparr>cl_world := v\<rparr>) = (code, st')"
        using assms(1) p lk by (auto simp: runServe_def outside_def split: if_splits)
      then show ?thesis using assms(2) by (auto dest!: pair)
    next
      case (Inr lock)
      let ?o = "\<lparr> sp_Paths = p, sp_Version = version, sp_Lock = Some lock, sp_ListenAddress = [], sp_IdleTimeout = 0, sp_HasHandler = False \<rparr>"
      obtain r v' log where run: "RunService (sv_Service env) order True ?o (sv_Runner env) (v, []) = (r, (v', log))"
        by (cases "RunService (sv_Service env) order True ?o (sv_Runner env) (v, [])") auto
      let ?st = "noted (Service_Ran log) (st\<lparr>cl_world := v\<rparr>\<lparr>cl_world := v'\<rparr>)"
      have "(case r of Inl e \<Rightarrow> cli_fail (Wrapf ''serve: '' e) ?st | Inr _ \<Rightarrow> (0, ?st)) = (code, st')"
        using assms(1) p lk Inr run by (auto simp: runServe_def outside_def Let_def split: if_splits)
      then have "cl_world st' = v'" "cl_log st' = [Service_Ran log]" "code = 0 \<longleftrightarrow> r = Inr ()"
        using assms(2) by (cases r; auto simp: noted_def cli_fail_def app_fail_def errorExitCode_def)+
      moreover have "fst ((if args = [] then sv_Acquire env else sv_Adopt env) (LockPath p) (cl_world st)) = Inr lock"
        using lk Inr bg by (auto split: if_splits)
      ultimately show ?thesis using p(2) run by blast
    qed
  next
    case False
    then have "(usageExitCode, st) = (code, st') \<or> (\<exists>e. cli_fail e st = (code, st'))"
      using assms(1) by (cases "background_child args"; cases "paths_Resolve (Some (ap_Getenv a))") (auto simp: runServe_def)
    then show ?thesis using assms(2) by (auto simp: usageExitCode_def dest!: pair)
  qed
qed

end
