(* ===== verification/Daemon_Starter.thy ===== *)
theory Daemon_Starter
  imports Daemon_Lock
begin

text \<open>
  \<open>daemon/starter.go\<close>: the background child a command starts, the environment it gets, and stopping
  or letting go of it. \<open>starter_unix.go\<close> starts it in a session of its own and kills that session's
  group.
\<close>

section \<open>The child's environment\<close>

definition validDaemonEnvironmentKey :: "string \<Rightarrow> bool" where
  "validDaemonEnvironmentKey v \<longleftrightarrow> v \<noteq> [] \<and> (hd v = CHR ''_'' \<or> is_alpha (hd v))
     \<and> list_all (\<lambda>c. c = CHR ''_'' \<or> is_alpha c \<or> is_digit c) (tl v)"

definition daemonEnvironmentReserved :: "string \<Rightarrow> bool" where
  "daemonEnvironmentReserved key \<longleftrightarrow> has_prefix ''CURSOR_CLI_BYOK_'' key \<or> has_prefix ''CURSOR_LOCAL_AGENT_'' key
     \<or> key \<in> {''CURSOR_AGENT_CLI_AUTHLESS_MODE'', ''CURSOR_AGENT_CLI_LOCAL_MODE'', ''CURSOR_API_BASE_URL'', ''CURSOR_API_ENDPOINT'',
         ''CURSOR_API_KEY'', ''CURSOR_AUTH_TOKEN'', ''CURSOR_ENABLE_AUTHLESS'', ''CURSOR_ENABLE_BEDROCK'', ''CURSOR_ENABLE_LOCAL_BEDROCK''}"

definition daemon_variables :: "string list \<Rightarrow> string list \<Rightarrow> environment" where
  "daemon_variables parent providerSecretKeys = env_set inheritedLockFDEnvironment ''3''
     (foldl (\<lambda>env entry. case parse_entry entry of
        None \<Rightarrow> env
      | Some (key, v) \<Rightarrow> if daemonEnvironmentReserved key \<and> key \<notin> set providerSecretKeys then env else env_set key v env) [] parent)"

definition daemonEnvironment :: "string list \<Rightarrow> string list \<Rightarrow> string list" where
  "daemonEnvironment parent providerSecretKeys = format_environment (daemon_variables parent providerSecretKeys)"

section \<open>Starting\<close>

record ExecStarter =
  es_Executable :: string
  es_ParentEnv :: "string list"
  es_ProviderSecretEnvKeys :: "string list"

text \<open>What is executed; the files follow the three standard ones, so the first has the number 3.\<close>

record exec_command =
  ec_Path :: string
  ec_Args :: "string list"
  ec_Env :: "string list"
  ec_ExtraFiles :: "nat list"
  ec_Setsid :: bool

text \<open>
  \<open>ctx\<close> is \<open>None\<close> when there is no context and otherwise its error; \<open>stat\<close> is \<open>lockFile.Stat\<close>.
\<close>

definition ExecStarter_command :: "ExecStarter \<Rightarrow> goerror option option \<Rightarrow> nat option \<Rightarrow> unit result \<Rightarrow> exec_command result" where
  "ExecStarter_command s ctx lockFile stat =
     (let problem = (\<lambda>p. Inl (Errorf (''start daemon: '' @ p))) in case ctx of
        None \<Rightarrow> problem ''context is required''
      | Some (Some e) \<Rightarrow> Inl (Wrapf ''start daemon: '' e)
      | Some None \<Rightarrow>
          if \<not> filepath_IsAbs (es_Executable s) then problem ''executable path must be absolute''
          else (case lockFile of
            None \<Rightarrow> problem ''inherited lock file is required''
          | Some i \<Rightarrow> (case stat of
              Inl e \<Rightarrow> Inl (Wrapf ''start daemon: inspect lock file: '' e)
            | Inr _ \<Rightarrow>
                if list_ex (\<lambda>key. \<not> validDaemonEnvironmentKey key \<or> key = inheritedLockFDEnvironment) (es_ProviderSecretEnvKeys s) then
                  problem ''provider secret environment name is invalid''
                else Inr \<lparr> ec_Path = es_Executable s, ec_Args = [''serve'', ''--background-child''],
                  ec_Env = daemonEnvironment (es_ParentEnv s) (es_ProviderSecretEnvKeys s), ec_ExtraFiles = [i], ec_Setsid = True \<rparr>)))"

text \<open>A child is its process until it was stopped or detached.\<close>

type_synonym execChild = "int option"

definition ExecStarter_Start ::
  "ExecStarter \<Rightarrow> goerror option option \<Rightarrow> nat option \<Rightarrow> unit result \<Rightarrow> (exec_command \<Rightarrow> int result) \<Rightarrow> execChild result" where
  "ExecStarter_Start s ctx lockFile stat execute =
     try_then (ExecStarter_command s ctx lockFile stat) (\<lambda>command.
     try_wrap (Wrapf ''start daemon: execute background child: '') (execute command) (\<lambda>pid. Inr (Some pid)))"

section \<open>Stopping\<close>

definition child_PID :: "execChild \<Rightarrow> int" where
  "child_PID c = (case c of None \<Rightarrow> 0 | Some pid \<Rightarrow> pid)"

text \<open>What the wait for the process gives: it ended (an \<open>exec.ExitError\<close> or nil), waiting failed, or the context ended first.\<close>

datatype wait_outcome = Wait_Exited | Wait_Failed goerror | Wait_Ended goerror

text \<open>The process group to kill, if any, is asked for by the first component of the result.\<close>

definition child_Stop ::
  "bool \<Rightarrow> (int \<Rightarrow> unit result) \<Rightarrow> wait_outcome \<Rightarrow> execChild \<Rightarrow> int option \<times> unit result \<times> execChild" where
  "child_Stop has_context kill outcome c =
     (if \<not> has_context then (None, Inl (Errorf ''stop daemon process: context is required''), c)
      else (case c of
        None \<Rightarrow> (None, Inr (), c)
      | Some pid \<Rightarrow>
          let killError = (case kill (- pid) of Inl e \<Rightarrow> if error_is Process_Done e then Inr () else Inl e | Inr _ \<Rightarrow> Inr ()) in
          (Some (- pid), (case outcome of
             Wait_Exited \<Rightarrow> killError
           | Wait_Failed e \<Rightarrow> join_errors killError (if error_is Process_Done e then Inr () else Inl e)
           | Wait_Ended e \<Rightarrow> join_errors killError (Inl e)), None)))"

definition child_Detach :: "execChild \<Rightarrow> unit result \<times> execChild" where
  "child_Detach c = (Inr (), None)"

section \<open>What the child sees\<close>

lemma daemon_variables_ok: "env_ok (daemon_variables parent keys)"
proof -
  have "env_ok env \<Longrightarrow> env_ok (foldl (\<lambda>env entry. case parse_entry entry of None \<Rightarrow> env
      | Some (key, v) \<Rightarrow> if daemonEnvironmentReserved key \<and> key \<notin> set keys then env else env_set key v env) env parent)" for env
    by (induction parent arbitrary: env) (auto split: option.split intro: env_set_ok dest: parse_entry_key)
  from this [of "[]"] show ?thesis
    unfolding daemon_variables_def by (intro env_set_ok) (simp_all add: env_ok_def inheritedLockFDEnvironment_def)
qed

lemma map_of_daemon_variables:
  "map_of (daemon_variables parent keys) k =
     (if k = inheritedLockFDEnvironment then Some ''3''
      else if daemonEnvironmentReserved k \<and> k \<notin> set keys then None else map_of (parseEnvironment parent) k)"
proof -
  let ?keep = "\<lambda>m. if daemonEnvironmentReserved k \<and> k \<notin> set keys then None else m"
  let ?f = "\<lambda>env entry. case parse_entry entry of None \<Rightarrow> env
      | Some (key, v) \<Rightarrow> if daemonEnvironmentReserved key \<and> key \<notin> set keys then env else env_set key v env"
  let ?g = "\<lambda>env entry. case parse_entry entry of None \<Rightarrow> env | Some (key, v) \<Rightarrow> env_set key v env"
  have fold: "map_of a k = ?keep (map_of b k) \<Longrightarrow> map_of (foldl ?f a parent) k = ?keep (map_of (foldl ?g b parent) k)" for a b
  proof (induction parent arbitrary: a b)
    case (Cons e parent)
    have "map_of (?f a e) k = ?keep (map_of (?g b e) k)"
      using Cons.prems by (cases "parse_entry e") (auto simp: map_of_set)
    from Cons.IH [OF this] show ?case by (simp only: foldl.simps)
  qed simp
  from fold [of "[]" "[]"] show ?thesis by (simp add: daemon_variables_def parseEnvironment_def map_of_set)
qed

text \<open>the daemon starts with exactly the environment it may have. Whatever the parent's environment and the names of the
  providers' secrets, a child is only executed under an absolute path and with the lock as its descriptor 3, every
  variable it gets appears once, \<open>CURSOR_CLI_BYOK_LOCK_FD\<close> is 3, no other variable that Cursor or this program reserves
  is passed unless a model names it as the place of its secret, and every other variable is passed as it was.\<close>

theorem daemon_environment_isolated:
  assumes "ExecStarter_command s ctx lockFile stat = Inr c"
  shows "filepath_IsAbs (ec_Path c) \<and> lockFile = Some (hd (ec_ExtraFiles c)) \<and> length (ec_ExtraFiles c) = 1
    \<and> (\<exists>env. ec_Env c = format_environment env \<and> distinct (map fst env) \<and> (\<forall>k. map_of env k =
        (if k = ''CURSOR_CLI_BYOK_LOCK_FD'' then Some ''3''
         else if daemonEnvironmentReserved k \<and> k \<notin> set (es_ProviderSecretEnvKeys s) then None
         else map_of (parseEnvironment (es_ParentEnv s)) k)))
    \<and> (\<forall>k \<in> set (es_ProviderSecretEnvKeys s). CHR ''='' \<notin> set k \<and> k \<noteq> ''CURSOR_CLI_BYOK_LOCK_FD'')"
proof -
  let ?env = "daemon_variables (es_ParentEnv s) (es_ProviderSecretEnvKeys s)"
  have c: "filepath_IsAbs (es_Executable s)" "\<exists>i. lockFile = Some i \<and> c = \<lparr> ec_Path = es_Executable s, ec_Args = [''serve'', ''--background-child''],
      ec_Env = format_environment ?env, ec_ExtraFiles = [i], ec_Setsid = True \<rparr>"
    and keys: "\<forall>k \<in> set (es_ProviderSecretEnvKeys s). validDaemonEnvironmentKey k \<and> k \<noteq> inheritedLockFDEnvironment"
    using assms by (auto simp: ExecStarter_command_def daemonEnvironment_def Let_def list_ex_iff split: option.splits sum.splits if_splits)
  have "CHR ''='' \<notin> set k" if "validDaemonEnvironmentKey k" for k
    using that validEnvironmentKey_eq [of k] by (simp add: validDaemonEnvironmentKey_def validEnvironmentKey_def)
  then have "\<forall>k \<in> set (es_ProviderSecretEnvKeys s). CHR ''='' \<notin> set k \<and> k \<noteq> ''CURSOR_CLI_BYOK_LOCK_FD''"
    using keys by (auto simp: inheritedLockFDEnvironment_def)
  moreover have "distinct (map fst ?env)" using daemon_variables_ok by (auto simp: env_ok_def)
  ultimately show ?thesis using c map_of_daemon_variables [of "es_ParentEnv s" "es_ProviderSecretEnvKeys s"]
    unfolding inheritedLockFDEnvironment_def by auto
qed

definition sample_starter :: ExecStarter where
  "sample_starter = \<lparr> es_Executable = ''/x'', es_ParentEnv = [''CURSOR_API_KEY=a'', ''KEY=k'', ''A=1''], es_ProviderSecretEnvKeys = [''KEY''] \<rparr>"

theorem daemon_environment_isolated_witness:
  "\<exists>env. format_environment env = daemonEnvironment [''CURSOR_API_KEY=a'', ''KEY=k'', ''A=1''] [''KEY''] \<and> map_of env ''CURSOR_API_KEY'' = None"
proof -
  have c: "ExecStarter_command sample_starter (Some None) (Some 0) (Inr ()) = Inr \<lparr> ec_Path = ''/x'', ec_Args = [''serve'', ''--background-child''],
      ec_Env = daemonEnvironment [''CURSOR_API_KEY=a'', ''KEY=k'', ''A=1''] [''KEY''], ec_ExtraFiles = [0], ec_Setsid = True \<rparr>"
    by (simp add: ExecStarter_command_def sample_starter_def filepath_IsAbs_def validDaemonEnvironmentKey_def is_alpha_def is_digit_def
        inheritedLockFDEnvironment_def Let_def)
  have "daemonEnvironmentReserved ''CURSOR_API_KEY''" by (simp add: daemonEnvironmentReserved_def)
  with daemon_environment_isolated [OF c] show ?thesis by (auto simp: sample_starter_def)
qed

text \<open>Stopping a child twice, or after it was detached, kills nothing.\<close>

lemma stop_once:
  "child_Stop True kill outcome c = (killed, r, c') \<Longrightarrow> c' = None \<and> (killed = None \<longleftrightarrow> c = None)"
  "child_Stop True kill outcome (snd (child_Detach c)) = (None, Inr (), None)"
  by (auto simp: child_Stop_def child_Detach_def Let_def split: option.splits)

end
