(* ===== verification/Cursor_Run.thy ===== *)
theory Cursor_Run
  imports Cursor_Launch
begin

text \<open>
  \<open>cursorcli.Run\<close> and \<open>exitcode_unix.go\<close>: the client runs as a child until it ends, and gets the
  signals the program gets. What the \<open>select\<close> sees is a list of events, in the order it sees them.
\<close>

text \<open>How the child ended: well, with an exit code, killed by a signal, otherwise, or waiting for it failed.\<close>

datatype run_end = End_OK | End_Exit int | End_Signal int | End_Odd | End_Failed goerror

text \<open>\<open>normalizedExitCode\<close>; \<open>ExitCode\<close> is -1 for a process that did not exit by itself.\<close>

definition normalizedExitCode :: "run_end \<Rightarrow> int" where
  "normalizedExitCode e = (case e of End_Exit code \<Rightarrow> if 0 \<le> code then code else 1 | End_Signal n \<Rightarrow> 128 + n | _ \<Rightarrow> 1)"

datatype run_event = Run_Ended run_end | Run_Signal "int option" | Run_Closed

text \<open>
  \<open>pending\<close> is whether the channel of signals is still open, \<open>deliver\<close> what sending a signal gives.
  \<open>None\<close> is a run that still waits; the result comes with the signals that were sent to the child,
  and whether it was killed.
\<close>

fun run_loop :: "goerror option \<Rightarrow> (int \<Rightarrow> unit result) \<Rightarrow> bool \<Rightarrow> int list \<Rightarrow> run_event list \<Rightarrow> (int result \<times> int list \<times> bool) option" where
  "run_loop ctxErr deliver pending sent [] = None"
| "run_loop ctxErr deliver pending sent (Run_Ended e # evs) = Some (
     (case e of
        End_OK \<Rightarrow> Inr 0
      | _ \<Rightarrow> (case ctxErr of
          Some c \<Rightarrow> Inl c
        | None \<Rightarrow> (case e of End_Failed err \<Rightarrow> Inl (Wrapf ''run cursor-agent: wait: '' err) | _ \<Rightarrow> Inr (normalizedExitCode e)))), sent, False)"
| "run_loop ctxErr deliver pending sent (Run_Closed # evs) = run_loop ctxErr deliver False sent evs"
| "run_loop ctxErr deliver pending sent (Run_Signal None # evs) = run_loop ctxErr deliver pending sent evs"
| "run_loop ctxErr deliver pending sent (Run_Signal (Some n) # evs) =
     (if \<not> pending then run_loop ctxErr deliver pending sent evs
      else (case deliver n of
        Inl e \<Rightarrow>
          if error_is Process_Done e then run_loop ctxErr deliver pending (sent @ [n]) evs
          else Some (Inl (Wrapf ''run cursor-agent: forward signal: '' e), sent @ [n], True)
      | Inr _ \<Rightarrow> run_loop ctxErr deliver pending (sent @ [n]) evs))"

definition cli_Run ::
  "bool \<Rightarrow> goerror option \<Rightarrow> (LaunchSpec \<Rightarrow> unit result) \<Rightarrow> (int \<Rightarrow> unit result) \<Rightarrow> LaunchSpec \<Rightarrow> bool \<Rightarrow> run_event list
   \<Rightarrow> (int result \<times> int list \<times> bool) option" where
  "cli_Run has_context ctxErr start deliver spec notify evs =
     (if \<not> has_context then Some (Inl (Errorf ''run cursor-agent: context is required''), [], False)
      else if \<not> filepath_IsAbs (lp_Path spec) then Some (Inl (Errorf ''run cursor-agent: executable path must be absolute''), [], False)
      else (case start spec of
        Inl e \<Rightarrow> Some (Inl (Wrapf ''run cursor-agent: start: '' e), [], False)
      | Inr _ \<Rightarrow> run_loop ctxErr deliver notify [] evs))"

section \<open>What the child gets\<close>

text \<open>The signals that came while the channel was open.\<close>

fun signals_of :: "bool \<Rightarrow> run_event list \<Rightarrow> int list" where
  "signals_of pending [] = []"
| "signals_of pending (Run_Signal (Some n) # evs) = (if pending then n # signals_of pending evs else signals_of pending evs)"
| "signals_of pending (Run_Closed # evs) = signals_of False evs"
| "signals_of pending (e # evs) = signals_of pending evs"

lemma run_loop_sent:
  assumes "\<And>n. deliver n = Inr () \<or> (\<exists>e. deliver n = Inl e \<and> error_is Process_Done e)" and "\<forall>e. Run_Ended e \<notin> set evs"
  shows "run_loop ctxErr deliver pending sent (evs @ Run_Ended fin # later) =
    run_loop ctxErr deliver pending (sent @ signals_of pending evs) [Run_Ended fin]"
  using assms(2)
proof (induction evs arbitrary: pending sent)
  case (Cons e evs)
  show ?case
  proof (cases e)
    case (Run_Signal s)
    then show ?thesis
    proof (cases s)
      case (Some n)
      then show ?thesis using Cons Run_Signal assms(1) [of n] by (cases "deliver n") auto
    qed (use Cons Run_Signal in simp)
  qed (use Cons in auto)
qed simp

text \<open>the client is controlled through the program as if it were run directly: while it runs it is sent every
  signal the program gets, each once and in the order they came, and when it ends the program's exit code is its own, or
  128 and the number of the signal that killed it.\<close>

theorem signals_forwarded:
  assumes "filepath_IsAbs (lp_Path spec)" and "start spec = Inr ()"
    and "\<And>n. deliver n = Inr () \<or> (\<exists>e. deliver n = Inl e \<and> error_is Process_Done e)"
    and "\<forall>e. Run_Ended e \<notin> set evs" and "\<And>e. fin \<noteq> End_Failed e"
  shows "cli_Run True None start deliver spec notify (evs @ Run_Ended fin # later) =
    Some (Inr (case fin of End_OK \<Rightarrow> 0 | End_Signal n \<Rightarrow> 128 + n | End_Exit code \<Rightarrow> if 0 \<le> code then code else 1 | _ \<Rightarrow> 1), signals_of notify evs, False)"
proof -
  have "cli_Run True None start deliver spec notify (evs @ Run_Ended fin # later) = run_loop None deliver notify ([] @ signals_of notify evs) [Run_Ended fin]"
    using assms(1,2) run_loop_sent [where deliver = deliver and ctxErr = None and pending = notify and sent = "[]" and fin = fin and later = later, OF assms(3,4)] by (simp add: cli_Run_def)
  then show ?thesis using assms(5) by (cases fin) (auto simp: normalizedExitCode_def)
qed

theorem signals_forwarded_witness:
  "cli_Run True None (\<lambda>_. Inr ()) (\<lambda>n. if n = 15 then Inl Process_Done else Inr ()) \<lparr> lp_Path = ''/c'', lp_Args = [], lp_Env = [] \<rparr> True
     [Run_Signal (Some 2), Run_Signal None, Run_Signal (Some 15), Run_Closed, Run_Signal (Some 1), Run_Ended (End_Signal 15), Run_Closed]
   = Some (Inr 143, [2, 15], False)"
  using signals_forwarded [of "\<lparr> lp_Path = ''/c'', lp_Args = [], lp_Env = [] \<rparr>" "\<lambda>_. Inr ()" "\<lambda>n. if n = 15 then Inl Process_Done else Inr ()"
    "[Run_Signal (Some 2), Run_Signal None, Run_Signal (Some 15), Run_Closed, Run_Signal (Some 1)]" "End_Signal 15" True "[Run_Closed]"]
  by (auto simp: filepath_IsAbs_def)

end
