(* ===== verification/Command_Agent.thy ===== *)
theory Command_Agent
  imports Command_Daemon Daemon_Starter Daemon_Control Cursor_Run
begin

text \<open>
  \<open>command/agent.go\<close>: what the program does when it is not given a command of its own. It resolves
  the model, gets a daemon, hands the model's secret to it and runs the official client against it.
\<close>

section \<open>Secrets\<close>

definition providerSecretEnvironmentKeys :: "Config \<Rightarrow> string list" where
  "providerSecretEnvironmentKeys cfg = foldl (\<lambda>keys m.
     if mc_APIKeyEnv m = [] \<or> mc_APIKeyEnv m \<in> set keys then keys else keys @ [mc_APIKeyEnv m]) [] (cf_Models cfg)"

definition selectedProviderEnvironmentValues :: "Config \<Rightarrow> string \<Rightarrow> string \<Rightarrow> environment" where
  "selectedProviderEnvironmentValues cfg selectedModel resolvedSecret =
     (case find (\<lambda>m. mc_Name m = selectedModel \<and> mc_APIKeyEnv m \<noteq> []) (cf_Models cfg) of
        Some m \<Rightarrow> [(mc_APIKeyEnv m, resolvedSecret)] | None \<Rightarrow> [])"

lemma secret_keys: "set (providerSecretEnvironmentKeys cfg) = {k. k \<noteq> [] \<and> k \<in> mc_APIKeyEnv ` set (cf_Models cfg)}"
proof -
  have "set (foldl (\<lambda>keys m. if mc_APIKeyEnv m = [] \<or> mc_APIKeyEnv m \<in> set keys then keys else keys @ [mc_APIKeyEnv m]) keys ms)
      = set keys \<union> {k. k \<noteq> [] \<and> k \<in> mc_APIKeyEnv ` set ms}" for keys and ms :: "Model list"
    by (induction ms arbitrary: keys) auto
  then show ?thesis by (simp add: providerSecretEnvironmentKeys_def)
qed

section \<open>The command\<close>

text \<open>
  \<open>ga_Manager\<close> is what the manager finds around it when it is given the paths and the starter;
  \<open>ga_Sync\<close> and \<open>ga_Client\<close> are \<open>SyncProviderEnvironment\<close> and \<open>cursorcli.Run\<close> with their time limits.
\<close>

record 'v agent_env =
  ga_Config :: "string \<Rightarrow> 'v \<Rightarrow> Config result \<times> 'v"
  ga_Stat :: "'v \<Rightarrow> string \<Rightarrow> (bool \<times> nat) option"
  ga_Run :: "'v \<Rightarrow> string \<Rightarrow> bytes result"
  ga_Executable :: "string result"
  ga_Environ :: "string list"
  ga_Manager :: "Paths \<Rightarrow> ExecStarter \<Rightarrow> 'v manager_env"
  ga_Sync :: "State \<Rightarrow> environment \<Rightarrow> 'v \<Rightarrow> unit result \<times> 'v"
  ga_Client :: "LaunchSpec \<Rightarrow> 'v \<Rightarrow> int result \<times> 'v"

definition agent_manager :: "string \<Rightarrow> Paths \<Rightarrow> Manager" where
  "agent_manager version p = \<lparr> mg_StorePath = StatePath p, mg_LockPath = LockPath p, mg_HasProbe = True, mg_HasStarter = True,
     mg_ExpectedVersion = version, mg_HasShutdown = True, mg_StartTimeout = 10000000000, mg_PollInterval = 50000000 \<rparr>"

text \<open>A warning is printed like an error, behind the program's name.\<close>

definition version_warning :: "'v agent_env \<Rightarrow> string \<Rightarrow> 'v cli \<Rightarrow> 'v cli" where
  "version_warning env cursorPath st =
     (let warn = (\<lambda>e. st\<lparr>cl_console := (cl_console st)\<lparr>cs_Stderr := cs_Stderr (cl_console st) @ [e]\<rparr>\<rparr>) in
      case ReadVersion (ga_Stat env (cl_world st)) (ga_Run env (cl_world st)) cursorPath of
        Inl e \<Rightarrow> warn (Wrapf ''warning: '' e)
      | Inr v \<Rightarrow> if \<not> IsVerifiedVersion v then warn (Errorf (''warning: cursor-agent version '' @ vn_Raw v @ '' is untested'')) else st)"

definition agent_options :: "'v agent_env \<Rightarrow> Config \<Rightarrow> string \<Rightarrow> string \<Rightarrow> string list \<Rightarrow> State \<Rightarrow> LaunchOptions" where
  "agent_options env cfg selectedModel cursorPath forwarded state =
     \<lparr> lo_CursorPath = cursorPath, lo_EndpointURL = EndpointURL state, lo_Model = selectedModel, lo_CACertPath = ds_CACertPath state,
       lo_AuthToken = ds_AuthToken state, lo_ParentEnv = ga_Environ env,
       lo_ProviderSecretEnvKeys = providerSecretEnvironmentKeys cfg, lo_UserArgs = forwarded \<rparr>"

text \<open>From the daemon on; the number bounds the turns of \<open>Ensure\<close>.\<close>

definition agent_launch ::
  "nat \<Rightarrow> string \<Rightarrow> 'v agent_env \<Rightarrow> Paths \<Rightarrow> Config \<Rightarrow> string \<Rightarrow> ResolvedModel \<Rightarrow> string \<Rightarrow> string \<Rightarrow> string list \<Rightarrow> 'v cli \<Rightarrow> int \<times> 'v cli" where
  "agent_launch n version env p cfg selectedModel model cursorPath executable forwarded st =
     (let starter = \<lparr> es_Executable = executable, es_ParentEnv = ga_Environ env, es_ProviderSecretEnvKeys = providerSecretEnvironmentKeys cfg \<rparr> in
      case manager_Ensure n (agent_manager version p) True (ga_Manager env p starter) (cl_world st, []) of
        (r, (v, acts)) \<Rightarrow> let st = noted (Manager_Ran acts) (st\<lparr>cl_world := v\<rparr>) in
          (case r of
             Inl e \<Rightarrow> cli_fail (Wrapf ''launch Cursor CLI: '' e) st
           | Inr state \<Rightarrow>
               let values = selectedProviderEnvironmentValues cfg selectedModel (rm_APIKey model) in
               (case outside (ga_Sync env state values) st of
                  (Inl e, st) \<Rightarrow> cli_fail (Wrapf ''launch Cursor CLI: '' e) st
                | (Inr _, st) \<Rightarrow> (case BuildLaunchSpec (agent_options env cfg selectedModel cursorPath forwarded state) of
                    Inl e \<Rightarrow> cli_fail e (noted (Synced state values) st)
                  | Inr spec \<Rightarrow> (case outside (ga_Client env spec) (noted (Launched spec) (noted (Synced state values) st)) of
                      (Inl e, st) \<Rightarrow> cli_fail e st
                    | (Inr exitCode, st) \<Rightarrow> (exitCode, st))))))"

definition runAgent :: "nat \<Rightarrow> app \<Rightarrow> string \<Rightarrow> 'v agent_env \<Rightarrow> string list \<Rightarrow> 'v cli \<Rightarrow> int \<times> 'v cli" where
  "runAgent n a version env args st =
     (case paths_Resolve (Some (ap_Getenv a)) of
        Inl e \<Rightarrow> cli_fail e st
      | Inr p \<Rightarrow>
     (case outside (ga_Config env (pa_ConfigFile p)) st of
        (Inl e, st) \<Rightarrow> cli_fail (if error_is OS_NotExist e then Errorf ''launch Cursor CLI: configuration not found; run cursor-cli-byok config init''
            else Wrapf ''launch Cursor CLI: '' e) st
      | (Inr cfg, st) \<Rightarrow>
     (case SplitModelArgument (cf_DefaultModel cfg) args of
        Inl e \<Rightarrow> cli_fail e st
      | Inr (selectedModel, forwarded) \<Rightarrow>
     (case ResolveModel cfg selectedModel (Some (ap_Getenv a)) of
        Inl e \<Rightarrow> cli_fail (Wrapf ''launch Cursor CLI: '' e) st
      | Inr model \<Rightarrow>
     (case cli_Find (ga_Stat env (cl_world st)) (Some (ap_Getenv a)) of
        Inl e \<Rightarrow> cli_fail e st
      | Inr cursorPath \<Rightarrow> let st = version_warning env cursorPath st in
     (case ga_Executable env of
        Inl e \<Rightarrow> cli_fail (Wrapf ''launch Cursor CLI: locate cursor-cli-byok executable: '' e) st
      | Inr executable \<Rightarrow> agent_launch n version env p cfg selectedModel model cursorPath executable forwarded st))))))"

section \<open>Nothing is launched before everything is ready\<close>

lemma warning_log [simp]: "cl_log (version_warning env path st) = cl_log st"
  by (simp add: version_warning_def Let_def split: sum.split)

text \<open>The daemon a launch uses, and what it was given.\<close>

definition ready_for ::
  "string \<Rightarrow> 'v agent_env \<Rightarrow> Config \<Rightarrow> string \<Rightarrow> ResolvedModel \<Rightarrow> string \<Rightarrow> string list \<Rightarrow> LaunchSpec \<Rightarrow> cli_act list \<Rightarrow> bool" where
  "ready_for version env cfg selectedModel model cursorPath forwarded spec log \<longleftrightarrow> (\<exists>acts state values.
     log = [Manager_Ran acts, Synced state values, Launched spec]
     \<and> states_seen acts \<noteq> [] \<and> last (states_seen acts) = state \<and> (version = [] \<or> ds_DaemonVersion state = version)
     \<and> values = selectedProviderEnvironmentValues cfg selectedModel (rm_APIKey model)
     \<and> BuildLaunchSpec (agent_options env cfg selectedModel cursorPath forwarded state) = Inr spec)"

lemma ensure_found:
  assumes "manager_Ensure n m True env (w, []) = (Inr s, (w', log))"
  shows "versionCompatible m s \<and> states_seen log \<noteq> [] \<and> last (states_seen log) = s"
proof -
  from ensure_run [OF assms] obtain seen requested fin where "log = seen @ fin" "run_shape m (Inr s) fin" by blast
  then show ?thesis using run_shape_found by fastforce
qed

lemma agent_launch_log:
  assumes "agent_launch n version env p cfg selectedModel model cursorPath executable forwarded st = (code, st')"
    and "cl_log st = []" and "Launched spec \<in> set (cl_log st')"
  shows "ready_for version env cfg selectedModel model cursorPath forwarded spec (cl_log st')"
proof -
  have pair: "p = (code, st') \<Longrightarrow> fst p = code \<and> snd p = st'" for p :: "int \<times> 'a cli" by auto
  let ?starter = "\<lparr> es_Executable = executable, es_ParentEnv = ga_Environ env, es_ProviderSecretEnvKeys = providerSecretEnvironmentKeys cfg \<rparr>"
  obtain r v acts where m: "manager_Ensure n (agent_manager version p) True (ga_Manager env p ?starter) (cl_world st, []) = (r, (v, acts))"
    by (cases "manager_Ensure n (agent_manager version p) True (ga_Manager env p ?starter) (cl_world st, [])") auto
  let ?st = "noted (Manager_Ran acts) (st\<lparr>cl_world := v\<rparr>)"
  have log: "cl_log ?st = [Manager_Ran acts]" using assms(2) by (simp add: noted_def)
  show ?thesis
  proof (cases r)
    case (Inl e)
    then have "cli_fail (Wrapf ''launch Cursor CLI: '' e) ?st = (code, st')" using assms(1) m by (simp add: agent_launch_def Let_def)
    then show ?thesis using assms(3) log by (auto dest!: pair)
  next
    case (Inr state)
    note state = ensure_found [OF m [unfolded Inr]]
    define vals where "vals = selectedProviderEnvironmentValues cfg selectedModel (rm_APIKey model)"
    obtain r2 st2 where s: "outside (ga_Sync env state vals) ?st = (r2, st2)" by (cases "outside (ga_Sync env state vals) ?st")
    note log2 = outside_log [OF s]
    show ?thesis
    proof (cases r2)
      case (Inl e)
      then have "cli_fail (Wrapf ''launch Cursor CLI: '' e) st2 = (code, st')"
        using assms(1) m Inr s unfolding vals_def by (simp add: agent_launch_def Let_def)
      then show ?thesis using assms(3) log log2 by (auto dest!: pair)
    next
      case r2: (Inr u)
      let ?build = "BuildLaunchSpec (agent_options env cfg selectedModel cursorPath forwarded state)"
      show ?thesis
      proof (cases ?build)
        case (Inl e)
        then have "cli_fail e (noted (Synced state vals) st2) = (code, st')"
          using assms(1) m Inr s r2 unfolding vals_def by (simp add: agent_launch_def Let_def)
        then show ?thesis using assms(3) log log2 by (auto dest!: pair)
      next
        case spec: (Inr spec')
        obtain r3 st3 where c: "outside (ga_Client env spec') (noted (Launched spec') (noted (Synced state vals) st2)) = (r3, st3)"
          by (cases "outside (ga_Client env spec') (noted (Launched spec') (noted (Synced state vals) st2))")
        have "\<exists>e. cli_fail e st3 = (code, st') \<or> st3 = st'"
          using assms(1) m Inr s r2 spec c unfolding vals_def by (cases r3) (auto simp: agent_launch_def Let_def)
        then have "cl_log st' = [Manager_Ran acts, Synced state vals, Launched spec']"
          using log log2 outside_log [OF c] by (auto dest!: pair)
        moreover from this have "spec' = spec" using assms(3) by auto
        moreover have "version = [] \<or> ds_DaemonVersion state = version" using state by (auto simp: versionCompatible_def agent_manager_def)
        ultimately show ?thesis using state spec unfolding ready_for_def vals_def by blast
      qed
    qed
  qed
qed

text \<open>What else the command may do, when it stops early.\<close>

lemma agent_log:
  assumes "runAgent n a version env args st = (code, st')" and "cl_log st = []"
  shows "\<forall>x\<in>set (cl_log st'). (\<exists>acts. x = Manager_Ran acts) \<or> (\<exists>s vals. x = Synced s vals) \<or> (\<exists>spec. x = Launched spec)"
proof -
  define ok where "ok = (\<lambda>l. \<forall>x\<in>set l. (\<exists>acts. x = Manager_Ran acts) \<or> (\<exists>s vals. x = Synced s vals) \<or> (\<exists>spec. x = Launched spec))"
  have fail: "ok (cl_log (snd (cli_fail e st)))" if "ok (cl_log st)" for e and st :: "'a cli" using that by simp
  have out: "ok (cl_log (snd (outside f st)))" if "ok (cl_log st)" for f :: "'a \<Rightarrow> 'b \<times> 'a" and st using that by (simp add: outside_def split: prod.split)
  have launch: "ok (cl_log (snd (agent_launch n version env p cfg selectedModel model cursorPath executable forwarded st)))"
    if "ok (cl_log st)" for p cfg selectedModel model cursorPath executable forwarded and st :: "'a cli"
    using that by (auto simp: agent_launch_def Let_def outside_def noted_def ok_def split: sum.split prod.split)
  have nil: "ok []" by (simp add: ok_def)
  have "ok (cl_log (snd (runAgent n a version env args st)))"
    using assms(2) nil by (auto simp: runAgent_def Let_def outside_def split: sum.split prod.split intro!: launch)
  then show ?thesis using assms(1) by (simp add: ok_def)
qed

text \<open>A selected model is the one of its name, and its secret is the one of its source.\<close>

lemma selected_values:
  assumes "SplitModelArgument (cf_DefaultModel cfg) args = Inr (selectedModel, forwarded)" and "ResolveModel cfg selectedModel (Some getenv) = Inr model"
  shows "\<exists>m\<in>set (cf_Models cfg). mc_Name m = selectedModel \<and> (\<forall>m'\<in>set (cf_Models cfg). mc_Name m' = selectedModel \<longrightarrow> m' = m)
    \<and> selectedProviderEnvironmentValues cfg selectedModel (rm_APIKey model)
      = (if mc_APIKeyEnv m = [] then [] else [(mc_APIKeyEnv m, getenv (mc_APIKeyEnv m))])
    \<and> (mc_APIKeyEnv m \<noteq> [] \<longrightarrow> getenv (mc_APIKeyEnv m) \<noteq> [])"
proof -
  have "selectedModel \<noteq> []" using assms(1) by (auto simp: SplitModelArgument_def split_error_def try_then_Inr_iff split: if_splits)
  then obtain m where m: "m \<in> set (cf_Models cfg)" "mc_Name m = selectedModel" "key_of m getenv \<noteq> []"
    and r: "model = resolved m (key_of m getenv)" and ok: "config_ok cfg"
    using assms(2) by (auto simp: ResolveModel_iff)
  have d: "distinct (map mc_Name (cf_Models cfg))" using ok by (simp add: config_ok_def)
  then have uniq: "\<forall>m'\<in>set (cf_Models cfg). mc_Name m' = selectedModel \<longrightarrow> m' = m"
    using m(1,2) by (auto simp: distinct_map dest: inj_onD)
  have vals: "selectedProviderEnvironmentValues cfg selectedModel (rm_APIKey model)
      = (if mc_APIKeyEnv m = [] then [] else [(mc_APIKeyEnv m, getenv (mc_APIKeyEnv m))])"
  proof (cases "find (\<lambda>m. mc_Name m = selectedModel \<and> mc_APIKeyEnv m \<noteq> []) (cf_Models cfg)")
    case None
    then have "mc_APIKeyEnv m = []" using m(1,2) by (auto simp: find_None_iff)
    then show ?thesis using None by (simp add: selectedProviderEnvironmentValues_def)
  next
    case (Some m')
    then have "m' \<in> set (cf_Models cfg)" "mc_Name m' = selectedModel" "mc_APIKeyEnv m' \<noteq> []" by (auto simp: find_Some_iff)
    then have "m' = m" and "mc_APIKeyEnv m \<noteq> []" using uniq by auto
    then show ?thesis using Some by (simp add: selectedProviderEnvironmentValues_def r resolved_def key_of_def)
  qed
  have key: "mc_APIKeyEnv m \<noteq> [] \<longrightarrow> getenv (mc_APIKeyEnv m) \<noteq> []" using m(3) by (simp add: key_of_def split: if_splits)
  show ?thesis by (rule bexI [OF _ m(1)]) (intro conjI m(2) uniq vals key)
qed

text \<open>C20: The client is never launched before everything is ready. Whatever happens to the daemon, the files and the network, when the
  official client was started the program had loaded the configuration and resolved the selected model \<open>m\<close>, the only one of its name;
  had a daemon that its probe found healthy as the last one it saw and that is of the program's own version; and had handed to that
  daemon, before it started the client, exactly the model's secret: the value its environment variable has, which is not empty,
  under that variable's name, and nothing for a model with an inline key. The client that was found is started against that daemon's
  address, certificate and token, with the user's remaining arguments, and the names of all secrets of the configuration are given to be
  taken out of its environment.\<close>

theorem agent_launches_ready:
  assumes run: "runAgent n a version env args st = (code, st')" and start: "cl_log st = []" and launched: "Launched spec \<in> set (cl_log st')"
  shows "\<exists>p cfg w selectedModel forwarded cursorPath acts state handed m keys.
      paths_Resolve (Some (ap_Getenv a)) = Inr p \<and> ga_Config env (pa_ConfigFile p) (cl_world st) = (Inr cfg, w)
    \<and> SplitModelArgument (cf_DefaultModel cfg) args = Inr (selectedModel, forwarded)
    \<and> cli_Find (ga_Stat env w) (Some (ap_Getenv a)) = Inr cursorPath
    \<and> cl_log st' = [Manager_Ran acts, Synced state handed, Launched spec]
    \<and> states_seen acts \<noteq> [] \<and> last (states_seen acts) = state \<and> (version = [] \<or> ds_DaemonVersion state = version)
    \<and> m \<in> set (cf_Models cfg) \<and> mc_Name m = selectedModel \<and> (\<forall>m'\<in>set (cf_Models cfg). mc_Name m' = selectedModel \<longrightarrow> m' = m)
    \<and> handed = (if mc_APIKeyEnv m = [] then [] else [(mc_APIKeyEnv m, ap_Getenv a (mc_APIKeyEnv m))])
    \<and> (mc_APIKeyEnv m \<noteq> [] \<longrightarrow> ap_Getenv a (mc_APIKeyEnv m) \<noteq> [])
    \<and> set keys = {k. k \<noteq> [] \<and> k \<in> mc_APIKeyEnv ` set (cf_Models cfg)}
    \<and> BuildLaunchSpec \<lparr> lo_CursorPath = cursorPath, lo_EndpointURL = EndpointURL state, lo_Model = selectedModel,
        lo_CACertPath = ds_CACertPath state, lo_AuthToken = ds_AuthToken state, lo_ParentEnv = ga_Environ env,
        lo_ProviderSecretEnvKeys = keys, lo_UserArgs = forwarded \<rparr> = Inr spec"
proof -
  have pair: "p = (code, st') \<Longrightarrow> fst p = code \<and> snd p = st'" for p :: "int \<times> 'a cli" by auto
  have no: "cli_fail e st0 \<noteq> (code, st')" if "cl_log st0 = []" for e and st0 :: "'a cli"
    using launched that by (auto dest!: pair)
  obtain p where p: "paths_Resolve (Some (ap_Getenv a)) = Inr p"
    using run no [OF start] by (cases "paths_Resolve (Some (ap_Getenv a))") (auto simp: runAgent_def)
  obtain r1 st1 where c: "outside (ga_Config env (pa_ConfigFile p)) st = (r1, st1)" by (cases "outside (ga_Config env (pa_ConfigFile p)) st")
  have log1: "cl_log st1 = []" using outside_log [OF c] start by simp
  obtain cfg where cfg: "r1 = Inr cfg" using run p c no [OF log1] by (cases r1) (auto simp: runAgent_def)
  obtain selectedModel forwarded where sel: "SplitModelArgument (cf_DefaultModel cfg) args = Inr (selectedModel, forwarded)"
    using run p c cfg no [OF log1] by (cases "SplitModelArgument (cf_DefaultModel cfg) args") (auto simp: runAgent_def)
  obtain model where model: "ResolveModel cfg selectedModel (Some (ap_Getenv a)) = Inr model"
    using run p c cfg sel no [OF log1] by (cases "ResolveModel cfg selectedModel (Some (ap_Getenv a))") (auto simp: runAgent_def)
  obtain cursorPath where path: "cli_Find (ga_Stat env (cl_world st1)) (Some (ap_Getenv a)) = Inr cursorPath"
    using run p c cfg sel model no [OF log1] by (cases "cli_Find (ga_Stat env (cl_world st1)) (Some (ap_Getenv a))") (auto simp: runAgent_def)
  have log2: "cl_log (version_warning env cursorPath st1) = []" using log1 by simp
  obtain executable where "ga_Executable env = Inr executable"
    using run p c cfg sel model path no [OF log2] by (cases "ga_Executable env") (auto simp: runAgent_def Let_def)
  then have "agent_launch n version env p cfg selectedModel model cursorPath executable forwarded (version_warning env cursorPath st1) = (code, st')"
    using run p c cfg sel model path by (simp add: runAgent_def Let_def)
  from agent_launch_log [OF this log2 launched]
  obtain acts state where ready: "cl_log st' = [Manager_Ran acts, Synced state (selectedProviderEnvironmentValues cfg selectedModel (rm_APIKey model)), Launched spec]"
    "states_seen acts \<noteq> []" "last (states_seen acts) = state" "version = [] \<or> ds_DaemonVersion state = version"
    "BuildLaunchSpec (agent_options env cfg selectedModel cursorPath forwarded state) = Inr spec"
    unfolding ready_for_def by blast
  obtain w where cfg': "ga_Config env (pa_ConfigFile p) (cl_world st) = (Inr cfg, w)" and w: "cl_world st1 = w"
    using c cfg by (auto simp: outside_def split: prod.splits)
  let ?given = "selectedProviderEnvironmentValues cfg selectedModel (rm_APIKey model)"
  obtain m where m: "m \<in> set (cf_Models cfg)" "mc_Name m = selectedModel" "\<forall>m'\<in>set (cf_Models cfg). mc_Name m' = selectedModel \<longrightarrow> m' = m"
    "?given = (if mc_APIKeyEnv m = [] then [] else [(mc_APIKeyEnv m, ap_Getenv a (mc_APIKeyEnv m))])"
    "mc_APIKeyEnv m \<noteq> [] \<longrightarrow> ap_Getenv a (mc_APIKeyEnv m) \<noteq> []"
    using selected_values [OF sel model] by blast
  show ?thesis
    by (rule exI [of _ p], rule exI [of _ cfg], rule exI [of _ w], rule exI [of _ selectedModel], rule exI [of _ forwarded],
        rule exI [of _ cursorPath], rule exI [of _ acts], rule exI [of _ state], rule exI [of _ ?given], rule exI [of _ m],
        rule exI [of _ "providerSecretEnvironmentKeys cfg"])
      (intro conjI p cfg' sel path [unfolded w] ready(1-4) m secret_keys ready(5) [unfolded agent_options_def])
qed

section \<open>A run\<close>

definition agent_getenv :: "string \<Rightarrow> string" where
  "agent_getenv name = (if name = ''HOME'' then ''/h'' else if name = ''KEY'' then ''k'' else [])"

definition sample_manager_env :: "unit manager_env" where
  "sample_manager_env = \<lparr> me_load = \<lambda>w. (Inr sample_state, w), me_remove = \<lambda>w. (Inr (), w), me_alive = \<lambda>_ w. (True, w), me_check = \<lambda>_ w. (Inr (), w),
     me_lock = \<lambda>w. (Inr (), w), me_close = id, me_drop = \<lambda>w. (Inr (), w), me_start = \<lambda>w. (Inr None, w), me_stop = \<lambda>_ w. (Inr (), w),
     me_detach = \<lambda>_ w. (Inr (), w), me_shutdown = \<lambda>_ w. (Inr (), w), me_wait = \<lambda>w. (Inr (), w) \<rparr>"

definition sample_agent :: "unit agent_env" where
  "sample_agent = \<lparr> ga_Config = \<lambda>_ w. (Inr sample_config, w), ga_Stat = \<lambda>_ _. Some (True, 73), ga_Run = \<lambda>_ _. Inl (Errorf ''exec''),
     ga_Executable = Inr ''/bin/byok'', ga_Environ = [''KEY=k''], ga_Manager = \<lambda>_ _. sample_manager_env,
     ga_Sync = \<lambda>_ _ w. (Inr (), w), ga_Client = \<lambda>_ w. (Inr 0, w) \<rparr>"

definition agent_app :: app where
  "agent_app = sample_app\<lparr>ap_Getenv := agent_getenv\<rparr>"

lemma sample_log: "cl_log (sample_cli w) = []"
  by (simp add: sample_cli_def)

lemma agent_ensures: "manager_Ensure 1 (agent_manager ''v1'' p) True sample_manager_env ((), []) = (Inr sample_state, ((), [Healthy sample_state]))"
proof -
  have "StatePath p \<noteq> [] \<and> LockPath p \<noteq> []"
    by (cases "pa_StateDir p") (simp_all add: StatePath_def LockPath_def filepath_Join_def path_Clean_def Let_def)
  then have "manager_validate (agent_manager ''v1'' p) = Inr ()"
    by (simp add: manager_validate_def agent_manager_def Let_def trimSpace_def trim_pieces_def go_eval)
  then show ?thesis
    by (simp add: manager_Ensure_def healthyState_def call_def sample_manager_env_def done_act_def versionCompatible_def agent_manager_def sample_state_def)
qed

lemma agent_builds:
  "\<exists>spec. BuildLaunchSpec (agent_options sample_agent sample_config ''m'' ''/h/.local/bin/cursor-agent'' [''-p''] sample_state) = Inr spec"
proof -
  have "mk_byte 52 = CHR ''4''" by code_simp
  then have "EndpointURL sample_state = ''https://127.0.0.1:4000''" by (simp add: EndpointURL_def sample_state_def show_int_def show_nat.simps digit_chars)
  moreover have "ds_AuthToken sample_state \<noteq> [] \<and> \<not> hasControl (ds_AuthToken sample_state)"
    using sample_state_valid by (auto simp: State_Validate_def validJWTShape_def Let_def split: if_splits)
  moreover have "ds_CACertPath sample_state = ''/ca''" by (simp add: sample_state_def)
  moreover have "providerSecretEnvironmentKeys sample_config = [''KEY'']"
    by (simp add: providerSecretEnvironmentKeys_def sample_config_def sample_model_def)
  ultimately show ?thesis
    by (simp add: BuildLaunchSpec_def agent_options_def sample_local_endpoint hasPadding_def trimSpace_def trim_pieces_def go_eval
        filepath_IsAbs_def rejectReservedArguments_def isReservedArgument_def has_prefix_def validEnvironmentKey_def is_alpha_def is_digit_def)
qed

theorem agent_launches_ready_witness:
  "\<exists>code st' spec. runAgent 1 agent_app ''v1'' sample_agent [''-p''] (sample_cli ()) = (code, st')
     \<and> cl_log st' = [Manager_Ran [Healthy sample_state], Synced sample_state [(''KEY'', ''k'')], Launched spec]
     \<and> lp_Path spec = ''/h/.local/bin/cursor-agent''"
proof -
  obtain spec where spec: "BuildLaunchSpec (agent_options sample_agent sample_config ''m'' ''/h/.local/bin/cursor-agent'' [''-p''] sample_state) = Inr spec"
    using agent_builds by blast
  have paths: "\<exists>p. paths_Resolve (Some agent_getenv) = Inr p"
    by (simp add: paths_Resolve_def xdgRoot_def agent_getenv_def Let_def filepath_IsAbs_def)
  then obtain p where p: "paths_Resolve (Some agent_getenv) = Inr p" by blast
  have split: "SplitModelArgument (cf_DefaultModel sample_config) [''-p''] = Inr (''m'', [''-p''])"
    by (simp add: SplitModelArgument_def sample_config_def strip_prefix_of_def go_eval)
  have model: "ResolveModel sample_config ''m'' (Some agent_getenv) = Inr (resolved sample_model ''k'')"
    by (simp add: ResolveModel_def sample_config_valid) (simp add: sample_config_def sample_model_def agent_getenv_def)
  have path: "cli_Find (\<lambda>_. Some (True, 73)) (Some agent_getenv) = Inr ''/h/.local/bin/cursor-agent''"
    by (simp add: cli_Find_def agent_getenv_def Let_def isExecutableFile_def filepath_IsAbs_def filepath_Join_def path_Clean_def clean_step_def)
  have vals: "selectedProviderEnvironmentValues sample_config ''m'' (rm_APIKey (resolved sample_model ''k'')) = [(''KEY'', ''k'')]"
    by (simp add: selectedProviderEnvironmentValues_def sample_config_def sample_model_def resolved_def)
  obtain code st' where run: "runAgent 1 agent_app ''v1'' sample_agent [''-p''] (sample_cli ()) = (code, st')"
      "cl_log st' = [Manager_Ran [Healthy sample_state], Synced sample_state [(''KEY'', ''k'')], Launched spec]"
    using p split model path spec vals agent_ensures [of p]
    by (simp add: runAgent_def agent_app_def sample_agent_def outside_def sample_cli_def agent_launch_def noted_def Let_def)
  then have "Launched spec \<in> set (cl_log st')" by simp
  from agent_launches_ready [OF run(1) sample_log this] obtain w selectedModel forwarded cursorPath keys state
    where "cli_Find (ga_Stat sample_agent w) (Some (ap_Getenv agent_app)) = Inr cursorPath"
    and built: "BuildLaunchSpec \<lparr> lo_CursorPath = cursorPath, lo_EndpointURL = EndpointURL state, lo_Model = selectedModel,
        lo_CACertPath = ds_CACertPath state, lo_AuthToken = ds_AuthToken state, lo_ParentEnv = ga_Environ sample_agent,
        lo_ProviderSecretEnvKeys = keys, lo_UserArgs = forwarded \<rparr> = Inr spec"
    by (elim exE conjE) (rule that)
  then have "cursorPath = ''/h/.local/bin/cursor-agent''" using path by (simp add: sample_agent_def agent_app_def)
  then have "lp_Path spec = ''/h/.local/bin/cursor-agent''" using launch_parts(5) [OF built] by simp
  then show ?thesis using run by auto
qed

end
