(* ===== verification/Command_Doctor.thy ===== *)
theory Command_Doctor
  imports Command_Daemon
begin

text \<open>
  \<open>command/doctor.go\<close>: the command that checks everything a run needs, line by line: the configuration,
  the official client, the provider and the daemon. The provider's network, the client and the files
  answer as an environment.
\<close>

section \<open>The provider\<close>

record probe_request =
  pr_Method :: string
  pr_URL :: string
  pr_Headers :: "(string \<times> string) list"
  pr_Body :: string

definition doctorProviderStatusOK :: "int \<Rightarrow> bool" where
  "doctorProviderStatusOK status \<longleftrightarrow> status = 400 \<or> status = 405 \<or> status = 422 \<or> 200 \<le> status \<and> status < 300"

definition validDoctorAPIKey :: "string \<Rightarrow> bool" where
  "validDoctorAPIKey v \<longleftrightarrow> v \<noteq> [] \<and> v = trimSpace v \<and> \<not> hasControl v"

definition applyProviderHeaders :: "(string \<times> string) list \<Rightarrow> (string \<times> string) list \<Rightarrow> (string \<times> string) list" where
  "applyProviderHeaders headers request = foldl (\<lambda>hs (name, v). header_Set name v hs) request headers"

definition trim_slash :: "string \<Rightarrow> string" where
  "trim_slash s = (case s of c # r \<Rightarrow> if c = CHR ''/'' then r else s | [] \<Rightarrow> [])"

text \<open>\<open>send\<close> is the client, which follows no redirects: the status of the answer.\<close>

definition probeProvider :: "(probe_request \<Rightarrow> 'v \<Rightarrow> int result \<times> 'v) \<Rightarrow> ResolvedModel \<Rightarrow> 'v \<Rightarrow> int result \<times> 'v" where
  "probeProvider send model v =
     (if ValidateProviderHeaders (rm_Headers model) \<noteq> Inr () then (Inl (Errorf ''validate provider probe headers''), v)
      else (case url_JoinPath (rm_BaseURL model) (trim_slash (rm_Endpoint model)) of
        None \<Rightarrow> (Inl (Errorf ''build provider probe URL''), v)
      | Some endpointURL \<Rightarrow>
          if url_Parse endpointURL = None then (Inl (Errorf ''create provider probe''), v)
          else
            (let headers = header_Set ''Authorization'' (''Bearer '' @ rm_APIKey model) (applyProviderHeaders (rm_Headers model) []) in
             case send \<lparr> pr_Method = ''HEAD'', pr_URL = endpointURL, pr_Headers = headers, pr_Body = [] \<rparr> v of
               (Inl e, v) \<Rightarrow> (Inl (Errorf ''provider probe failed''), v)
             | (Inr status, v) \<Rightarrow>
                 if status \<noteq> 404 then (Inr status, v)
                 else (case send \<lparr> pr_Method = ''POST'', pr_URL = endpointURL,
                        pr_Headers = header_Set ''Content-Type'' ''application/json'' headers, pr_Body = ''{}'' \<rparr> v of
                     (Inl e, v) \<Rightarrow> (Inl (Errorf ''provider fallback probe failed''), v)
                   | (Inr status, v) \<Rightarrow> (Inr status, v)))))"

section \<open>The checks\<close>

text \<open>\<open>dr_Stat\<close> and \<open>dr_Run\<close> are the files and the client's \<open>--version\<close> as they are at that moment.\<close>

record 'v doctor_env =
  dr_Config :: "string \<Rightarrow> 'v \<Rightarrow> Config result \<times> 'v"
  dr_Stat :: "'v \<Rightarrow> string \<Rightarrow> (bool \<times> nat) option"
  dr_Run :: "'v \<Rightarrow> string \<Rightarrow> bytes result"
  dr_Send :: "probe_request \<Rightarrow> 'v \<Rightarrow> int result \<times> 'v"
  dr_Daemon :: "'v daemon_env"

text \<open>Each check gives the line it writes and whether it passed; the first also the model when it is ready.\<close>

definition doctor_config :: "app \<Rightarrow> 'v doctor_env \<Rightarrow> Paths result \<Rightarrow> 'v cli \<Rightarrow> (string \<times> ResolvedModel option) \<times> 'v cli" where
  "doctor_config a env rp st = (case rp of
     Inl e \<Rightarrow> ((''config: fail (paths unavailable)'', None), st)
   | Inr runtimePaths \<Rightarrow> (case outside (dr_Config env (pa_ConfigFile runtimePaths)) st of
       (Inl e, st) \<Rightarrow> ((''config: fail (configuration is unavailable)'', None), st)
     | (Inr cfg, st) \<Rightarrow> (case ResolveModel cfg [] (Some (ap_Getenv a)) of
         Inl e \<Rightarrow> ((''config: fail (default model API key is unavailable)'', None), st)
       | Inr model \<Rightarrow>
           if \<not> validDoctorAPIKey (rm_APIKey model) then ((''config: fail (default model API key is unavailable)'', None), st)
           else ((''config: ok ('' @ rm_Name model @ '')'', Some model), st))))"

definition doctor_cursor :: "app \<Rightarrow> 'v doctor_env \<Rightarrow> 'v \<Rightarrow> string \<times> bool" where
  "doctor_cursor a env v =
     (let failed = (''cursor-agent: fail (official CLI is unavailable)'', False) in
      case cli_Find (dr_Stat env v) (Some (ap_Getenv a)) of
        Inl e \<Rightarrow> failed
      | Inr cursorPath \<Rightarrow> (case ReadVersion (dr_Stat env v) (dr_Run env v) cursorPath of
          Inl e \<Rightarrow> failed
        | Inr version \<Rightarrow>
            (if \<not> IsVerifiedVersion version then ''cursor-agent: warn (untested '' @ vn_Raw version @ '')''
             else ''cursor-agent: ok ('' @ vn_Raw version @ '')'', True)))"

definition doctor_provider :: "'v doctor_env \<Rightarrow> ResolvedModel option \<Rightarrow> 'v cli \<Rightarrow> (string \<times> bool) \<times> 'v cli" where
  "doctor_provider env ready st = (case ready of
     None \<Rightarrow> ((''provider: skipped (configuration unavailable)'', True), st)
   | Some model \<Rightarrow> (case outside (probeProvider (dr_Send env) model) st of
       (Inl e, st) \<Rightarrow> ((''provider: fail (request failed)'', False), st)
     | (Inr status, st) \<Rightarrow>
         if \<not> doctorProviderStatusOK status then ((''provider: fail (HTTP '' @ show_int status @ '')'', False), st)
         else ((''provider: ok (HTTP '' @ show_int status @ '')'', True), st)))"

definition doctor_daemon :: "'v daemon_env \<Rightarrow> Paths result \<Rightarrow> 'v cli \<Rightarrow> (string \<times> bool) \<times> 'v cli" where
  "doctor_daemon env rp st = (case rp of
     Inl e \<Rightarrow> ((''daemon: fail (state path unavailable)'', False), st)
   | Inr runtimePaths \<Rightarrow> (case outside (de_load env (StatePath runtimePaths)) st of
       (Inl e, st) \<Rightarrow>
         if error_is OS_NotExist e then ((''daemon: stopped'', True), st) else ((''daemon: fail (stale state)'', False), st)
     | (Inr state, st) \<Rightarrow> (case outside (de_alive env (ds_PID state)) (noted (Found state) st) of
         (False, st) \<Rightarrow> ((''daemon: fail (stale state)'', False), st)
       | (True, st) \<Rightarrow> (case outside (de_check env state) st of
           (Inl e, st) \<Rightarrow> ((''daemon: fail (health check failed)'', False), st)
         | (Inr _, st) \<Rightarrow> ((''daemon: ok (running)'', True), noted (Passed state) st)))))"

section \<open>The command\<close>

definition writeDoctorLine :: "app \<Rightarrow> string \<Rightarrow> 'v cli \<Rightarrow> ('v cli \<Rightarrow> int \<times> 'v cli) \<Rightarrow> int \<times> 'v cli" where
  "writeDoctorLine a line st k = (case write_out a (line @ [CHR 0x0A]) (cl_console st) of (ok, c) \<Rightarrow>
     if ok then k (st\<lparr>cl_console := c\<rparr>) else (errorExitCode, st\<lparr>cl_console := c\<rparr>))"

definition runDoctor :: "app \<Rightarrow> 'v doctor_env \<Rightarrow> string list \<Rightarrow> 'v cli \<Rightarrow> int \<times> 'v cli" where
  "runDoctor a env args st =
     (if args \<noteq> [] then (usageExitCode, st)
      else
       (let rp = paths_Resolve (Some (ap_Getenv a)) in
        case doctor_config a env rp st of ((line, ready), st) \<Rightarrow>
        writeDoctorLine a line st (\<lambda>st.
        case doctor_cursor a env (cl_world st) of (line, cursorReady) \<Rightarrow>
        writeDoctorLine a line st (\<lambda>st.
        case doctor_provider env ready st of ((line, providerReady), st) \<Rightarrow>
        writeDoctorLine a line st (\<lambda>st.
        case doctor_daemon (dr_Daemon env) rp st of ((line, daemonReady), st) \<Rightarrow>
        writeDoctorLine a line st (\<lambda>st.
          let allHealthy = (ready \<noteq> None \<and> cursorReady \<and> providerReady \<and> daemonReady) in
          writeDoctorLine a (if allHealthy then ''doctor: ok'' else ''doctor: failed'') st (\<lambda>st.
            (if allHealthy then 0 else errorExitCode, st))))))))"

section \<open>What the report says\<close>

text \<open>
  The four checks in terms of the answers of the environment: what was found, the line that says so, and
  whether the check passed. The worlds before and after a check are \<open>w\<close> and \<open>w'\<close>.
\<close>

definition usable_key :: "string \<Rightarrow> bool" where
  "usable_key key \<longleftrightarrow> key \<noteq> [] \<and> trimSpace key = key \<and> \<not> hasControl key"

definition config_found :: "app \<Rightarrow> 'v doctor_env \<Rightarrow> 'v \<Rightarrow> ResolvedModel option \<Rightarrow> string \<Rightarrow> 'v \<Rightarrow> bool" where
  "config_found a env w ready line w' \<longleftrightarrow>
     (\<exists>p cfg model. paths_Resolve (Some (ap_Getenv a)) = Inr p \<and> dr_Config env (pa_ConfigFile p) w = (Inr cfg, w')
        \<and> ResolveModel cfg [] (Some (ap_Getenv a)) = Inr model \<and> usable_key (rm_APIKey model) \<and> ready = Some model
        \<and> line = ''config: ok ('' @ rm_Name model @ '')'')
     \<or> ready = None \<and>
        ((\<exists>e. paths_Resolve (Some (ap_Getenv a)) = Inl e) \<and> w' = w \<and> line = ''config: fail (paths unavailable)''
       \<or> (\<exists>p e. paths_Resolve (Some (ap_Getenv a)) = Inr p \<and> dr_Config env (pa_ConfigFile p) w = (Inl e, w')
            \<and> line = ''config: fail (configuration is unavailable)'')
       \<or> (\<exists>p cfg. paths_Resolve (Some (ap_Getenv a)) = Inr p \<and> dr_Config env (pa_ConfigFile p) w = (Inr cfg, w')
            \<and> (\<forall>model. ResolveModel cfg [] (Some (ap_Getenv a)) = Inr model \<longrightarrow> \<not> usable_key (rm_APIKey model))
            \<and> line = ''config: fail (default model API key is unavailable)''))"

definition cursor_found :: "app \<Rightarrow> 'v doctor_env \<Rightarrow> 'v \<Rightarrow> string \<Rightarrow> bool \<Rightarrow> bool" where
  "cursor_found a env w line ok \<longleftrightarrow>
     (\<exists>path v. ok \<and> cli_Find (dr_Stat env w) (Some (ap_Getenv a)) = Inr path \<and> ReadVersion (dr_Stat env w) (dr_Run env w) path = Inr v
        \<and> officialVersionPattern (vn_Raw v) \<noteq> None
        \<and> line = (if vn_Raw v \<in> {''2026.07.08-0c04a8a'', ''2026.07.09-a3815c0''} then ''cursor-agent: ok ('' @ vn_Raw v @ '')''
            else ''cursor-agent: warn (untested '' @ vn_Raw v @ '')''))
     \<or> \<not> ok \<and> line = ''cursor-agent: fail (official CLI is unavailable)''
        \<and> (\<forall>path v. cli_Find (dr_Stat env w) (Some (ap_Getenv a)) = Inr path \<longrightarrow> ReadVersion (dr_Stat env w) (dr_Run env w) path \<noteq> Inr v)"

text \<open>The status that counts: of a \<open>HEAD\<close> with the model's key, or of a \<open>POST\<close> when that is not found.\<close>

definition provider_answers :: "(probe_request \<Rightarrow> 'v \<Rightarrow> int result \<times> 'v) \<Rightarrow> ResolvedModel \<Rightarrow> 'v \<Rightarrow> int \<Rightarrow> 'v \<Rightarrow> bool" where
  "provider_answers send model w status w' \<longleftrightarrow> (\<exists>url. url_JoinPath (rm_BaseURL model) (trim_slash (rm_Endpoint model)) = Some url
     \<and> url_Parse url \<noteq> None \<and> headers_ok (rm_Headers model)
     \<and> (let headers = header_Set ''Authorization'' (''Bearer '' @ rm_APIKey model) (applyProviderHeaders (rm_Headers model) []);
            probe = \<lparr> pr_Method = ''HEAD'', pr_URL = url, pr_Headers = headers, pr_Body = [] \<rparr>;
            fallback = \<lparr> pr_Method = ''POST'', pr_URL = url, pr_Headers = header_Set ''Content-Type'' ''application/json'' headers, pr_Body = ''{}'' \<rparr> in
        send probe w = (Inr status, w') \<and> status \<noteq> 404 \<or> (\<exists>v. send probe w = (Inr 404, v) \<and> send fallback v = (Inr status, w'))))"

definition provider_found :: "'v doctor_env \<Rightarrow> ResolvedModel option \<Rightarrow> 'v \<Rightarrow> string \<Rightarrow> bool \<Rightarrow> 'v \<Rightarrow> bool" where
  "provider_found env ready w line ok w' \<longleftrightarrow> (case ready of
     None \<Rightarrow> \<not> ok \<and> w' = w \<and> line = ''provider: skipped (configuration unavailable)''
   | Some model \<Rightarrow>
       (\<exists>status. provider_answers (dr_Send env) model w status w' \<and> (ok \<longleftrightarrow> status \<in> {400, 405, 422} \<or> 200 \<le> status \<and> status \<le> 299)
          \<and> line = (if ok then ''provider: ok (HTTP '' else ''provider: fail (HTTP '') @ show_int status @ '')'')
       \<or> \<not> ok \<and> (\<forall>status v. \<not> provider_answers (dr_Send env) model w status v) \<and> line = ''provider: fail (request failed)'')"

definition daemon_found :: "app \<Rightarrow> 'v daemon_env \<Rightarrow> 'v \<Rightarrow> string \<Rightarrow> bool \<Rightarrow> bool" where
  "daemon_found a env w line ok \<longleftrightarrow>
     (\<exists>e. paths_Resolve (Some (ap_Getenv a)) = Inl e) \<and> \<not> ok \<and> line = ''daemon: fail (state path unavailable)''
     \<or> (\<exists>p. paths_Resolve (Some (ap_Getenv a)) = Inr p \<and>
       ((\<exists>e v. de_load env (StatePath p) w = (Inl e, v) \<and> (ok \<longleftrightarrow> error_is OS_NotExist e)
           \<and> line = (if ok then ''daemon: stopped'' else ''daemon: fail (stale state)''))
       \<or> (\<exists>s v. de_load env (StatePath p) w = (Inr s, v) \<and> \<not> fst (de_alive env (ds_PID s) v) \<and> \<not> ok \<and> line = ''daemon: fail (stale state)'')
       \<or> (\<exists>s v v' r. de_load env (StatePath p) w = (Inr s, v) \<and> de_alive env (ds_PID s) v = (True, v') \<and> fst (de_check env s v') = r
           \<and> (ok \<longleftrightarrow> r = Inr ()) \<and> line = (if ok then ''daemon: ok (running)'' else ''daemon: fail (health check failed)''))))"

lemma doctor_config_found:
  assumes "doctor_config a env (paths_Resolve (Some (ap_Getenv a))) st = ((line, ready), st')"
  shows "config_found a env (cl_world st) ready line (cl_world st') \<and> cl_console st' = cl_console st"
proof (cases "paths_Resolve (Some (ap_Getenv a))")
  case (Inl e)
  then show ?thesis using assms by (auto simp: doctor_config_def config_found_def)
next
  case (Inr p)
  obtain r w where c: "dr_Config env (pa_ConfigFile p) (cl_world st) = (r, w)" by (cases "dr_Config env (pa_ConfigFile p) (cl_world st)")
  show ?thesis
  proof (cases r)
    case x: (Inl e)
    then show ?thesis using assms Inr c by (simp add: doctor_config_def outside_def config_found_def) auto
  next
    case x: (Inr cfg)
    have key: "validDoctorAPIKey k \<longleftrightarrow> usable_key k" for k by (auto simp: validDoctorAPIKey_def usable_key_def)
    show ?thesis
      using assms Inr c x
      by (cases "ResolveModel cfg [] (Some (ap_Getenv a))") (auto simp: doctor_config_def outside_def config_found_def key split: if_splits)
  qed
qed

lemma ParseVersion_pattern: "ParseVersion raw = Inr v \<Longrightarrow> officialVersionPattern (vn_Raw v) \<noteq> None"
  by (cases "officialVersionPattern raw") (auto simp: ParseVersion_def Let_def split: if_splits)

lemma ReadVersion_pattern: "ReadVersion stat run path = Inr v \<Longrightarrow> officialVersionPattern (vn_Raw v) \<noteq> None"
  by (auto simp: ReadVersion_def try_wrap_Inr_iff simp del: not_None_eq dest: ParseVersion_pattern split: if_splits)

lemma doctor_cursor_found: "doctor_cursor a env w = (line, ok) \<Longrightarrow> cursor_found a env w line ok"
proof -
  assume l: "doctor_cursor a env w = (line, ok)"
  show ?thesis
  proof (cases "\<exists>path v. cli_Find (dr_Stat env w) (Some (ap_Getenv a)) = Inr path \<and> ReadVersion (dr_Stat env w) (dr_Run env w) path = Inr v")
    case True
    then obtain path v where v: "cli_Find (dr_Stat env w) (Some (ap_Getenv a)) = Inr path"
      "ReadVersion (dr_Stat env w) (dr_Run env w) path = Inr v" by blast
    have "ok" "line = (if IsVerifiedVersion v then ''cursor-agent: ok ('' @ vn_Raw v @ '')'' else ''cursor-agent: warn (untested '' @ vn_Raw v @ '')'')"
      using l v by (auto simp: doctor_cursor_def Let_def)
    then show ?thesis using v ReadVersion_pattern [OF v(2)] unfolding cursor_found_def IsVerifiedVersion_def verifiedVersions_def list.set by blast
  next
    case False
    then have "line = ''cursor-agent: fail (official CLI is unavailable)''" "\<not> ok"
      using l by (auto simp: doctor_cursor_def Let_def split: sum.splits)
    then show ?thesis using False unfolding cursor_found_def by blast
  qed
qed

lemma probeProvider_answers:
  "probeProvider send model w = (r, w') \<Longrightarrow> (\<exists>status. r = Inr status \<and> provider_answers send model w status w')
    \<or> (\<exists>e. r = Inl e) \<and> (\<forall>status v. \<not> provider_answers send model w status v)"
  by (auto simp: probeProvider_def provider_answers_def Let_def ValidateProviderHeaders_iff split: if_splits option.splits prod.splits sum.splits)

lemma doctor_provider_found:
  assumes "doctor_provider env ready st = ((line, ok), st')"
  shows "provider_found env ready (cl_world st) line (ready \<noteq> None \<and> ok) (cl_world st') \<and> cl_console st' = cl_console st"
proof (cases ready)
  case None
  then show ?thesis using assms by (auto simp: doctor_provider_def provider_found_def)
next
  case (Some model)
  obtain r v where p: "probeProvider (dr_Send env) model (cl_world st) = (r, v)" by (cases "probeProvider (dr_Send env) model (cl_world st)")
  note answers = probeProvider_answers [OF p]
  show ?thesis
  proof (cases r)
    case (Inl e)
    then show ?thesis using assms Some p answers by (auto simp: doctor_provider_def provider_found_def outside_def)
  next
    case (Inr status)
    have out: "line = (if ok then ''provider: ok (HTTP '' else ''provider: fail (HTTP '') @ show_int status @ '')''"
      "ok \<longleftrightarrow> doctorProviderStatusOK status" "st' = st\<lparr>cl_world := v\<rparr>"
      using assms Some p Inr unfolding doctor_provider_def outside_def by (auto split: if_split_asm)
    have ok: "ok \<longleftrightarrow> status \<in> {400, 405, 422} \<or> 200 \<le> status \<and> status \<le> 299"
      using out(2) by (auto simp: doctorProviderStatusOK_def)
    have "provider_answers (dr_Send env) model (cl_world st) status v" using answers Inr by blast
    then have "provider_found env (Some model) (cl_world st) line ok v" using ok out(1) unfolding provider_found_def option.case by blast
    then show ?thesis using Some out(3) by simp
  qed
qed

lemma doctor_daemon_found:
  assumes "doctor_daemon env (paths_Resolve (Some (ap_Getenv a))) st = ((line, ok), st')"
  shows "daemon_found a env (cl_world st) line ok \<and> cl_console st' = cl_console st"
proof (cases "paths_Resolve (Some (ap_Getenv a))")
  case (Inl e)
  then show ?thesis using assms by (auto simp: doctor_daemon_def daemon_found_def)
next
  case (Inr p)
  obtain r1 v1 where ld: "de_load env (StatePath p) (cl_world st) = (r1, v1)" by (cases "de_load env (StatePath p) (cl_world st)")
  show ?thesis
  proof (cases r1)
    case (Inl e)
    then show ?thesis using assms Inr ld by (auto simp: doctor_daemon_def daemon_found_def outside_def split: if_splits)
  next
    case s: (Inr s)
    obtain al v2 where al: "de_alive env (ds_PID s) v1 = (al, v2)" by (cases "de_alive env (ds_PID s) v1")
    obtain r3 v3 where ck: "de_check env s v2 = (r3, v3)" by (cases "de_check env s v2")
    show ?thesis using assms Inr ld s al ck
      by (cases al; cases r3) (auto simp: doctor_daemon_def daemon_found_def outside_def noted_def)
  qed
qed

lemma writeDoctorLine_ok:
  assumes "\<And>n. ap_Writes a n"
  shows "writeDoctorLine a line st k = k (st\<lparr>cl_console := (cl_console st)\<lparr>cs_Stdout := cs_Stdout (cl_console st) @ [line @ [CHR 0x0A]],
     cs_writes := Suc (cs_writes (cl_console st))\<rparr>\<rparr>)"
  using assms by (simp add: writeDoctorLine_def write_out_def)

text \<open>C33: The report of \<open>doctor\<close> is its verdict on what it found. When the output can be written there are five lines, one for
  each check and the last for all; each of the four lines says what the check found, as the definitions above spell it out from the
  answers of the environment, one check after the other: the configuration loads and its default model has a key that is not empty,
  not padded and without control characters (the line then has the model's name and nothing else of it); the official client was found and
  answers with a version of its format; the provider answered a request with the model's key with 400, 405, 422 or a status from 200 to
  299; and the daemon has no state file, or its process lives and passes the health check. The command exits with 0, and
  the last line says ok, exactly when all four checks passed.\<close>

theorem doctor_verdict:
  assumes run: "runDoctor a env [] st = (code, st')" and writes: "\<And>n. ap_Writes a n"
  shows "\<exists>l1 l2 l3 l4 ready ok2 ok3 ok4 w1 w2.
      cs_Stdout (cl_console st') = cs_Stdout (cl_console st) @ map (\<lambda>l. l @ [CHR 0x0A])
        [l1, l2, l3, l4, if code = 0 then ''doctor: ok'' else ''doctor: failed'']
    \<and> config_found a env (cl_world st) ready l1 w1 \<and> cursor_found a env w1 l2 ok2
    \<and> provider_found env ready w1 l3 ok3 w2 \<and> daemon_found a (dr_Daemon env) w2 l4 ok4
    \<and> code = (if ready \<noteq> None \<and> ok2 \<and> ok3 \<and> ok4 then 0 else 1)"
proof -
  let ?rp = "paths_Resolve (Some (ap_Getenv a))"
  let ?put = "\<lambda>l st. st\<lparr>cl_console := (cl_console st)\<lparr>cs_Stdout := cs_Stdout (cl_console st) @ [l @ [CHR 0x0A]],
     cs_writes := Suc (cs_writes (cl_console st))\<rparr>\<rparr>"
  note put = writeDoctorLine_ok [OF writes]
  obtain l1 ready st1 where c: "doctor_config a env ?rp st = ((l1, ready), st1)" by (cases "doctor_config a env ?rp st") auto
  obtain l2 ok2 where u: "doctor_cursor a env (cl_world (?put l1 st1)) = (l2, ok2)" by (cases "doctor_cursor a env (cl_world (?put l1 st1))")
  obtain l3 ok3 st3 where p: "doctor_provider env ready (?put l2 (?put l1 st1)) = ((l3, ok3), st3)"
    by (cases "doctor_provider env ready (?put l2 (?put l1 st1))") auto
  obtain l4 ok4 st4 where d: "doctor_daemon (dr_Daemon env) ?rp (?put l3 st3) = ((l4, ok4), st4)"
    by (cases "doctor_daemon (dr_Daemon env) ?rp (?put l3 st3)") auto
  define ok where "ok \<longleftrightarrow> ready \<noteq> None \<and> ok2 \<and> ok3 \<and> ok4"
  have end': "code = (if ok then 0 else 1)" "st' = ?put (if ok then ''doctor: ok'' else ''doctor: failed'') (?put l4 st4)"
    using run c u p d unfolding runDoctor_def ok_def by (simp_all add: put Let_def errorExitCode_def split: if_split_asm)
  note c' = doctor_config_found [OF c] and u' = doctor_cursor_found [OF u] and p' = doctor_provider_found [OF p] and d' = doctor_daemon_found [OF d]
  have "cs_Stdout (cl_console st') = cs_Stdout (cl_console st) @ map (\<lambda>l. l @ [CHR 0x0A]) [l1, l2, l3, l4, if code = 0 then ''doctor: ok'' else ''doctor: failed'']"
    using end' c' p' d' by simp
  moreover have "cursor_found a env (cl_world st1) l2 ok2" "provider_found env ready (cl_world st1) l3 (ready \<noteq> None \<and> ok3) (cl_world st3)"
    "daemon_found a (dr_Daemon env) (cl_world st3) l4 ok4" using u' p' d' by simp_all
  moreover have "code = (if ready \<noteq> None \<and> ok2 \<and> (ready \<noteq> None \<and> ok3) \<and> ok4 then 0 else 1)" using end'(1) by (simp add: ok_def)
  ultimately show ?thesis using c' by blast
qed

section \<open>A run\<close>

definition sample_doctor :: "bool doctor_env" where
  "sample_doctor = \<lparr> dr_Config = \<lambda>_ w. (Inl OS_NotExist, w), dr_Stat = \<lambda>_ _. None, dr_Run = \<lambda>_ _. Inr [],
     dr_Send = \<lambda>_ w. (Inr 405, w), dr_Daemon = obedient \<rparr>"

theorem doctor_verdict_witness:
  "\<exists>code st'. runDoctor sample_app sample_doctor [] (sample_cli True) = (code, st') \<and> code = 1
     \<and> last (cs_Stdout (cl_console st')) = ''doctor: failed'' @ [CHR 0x0A]"
proof -
  obtain code st' where r: "runDoctor sample_app sample_doctor [] (sample_cli True) = (code, st')"
    by (cases "runDoctor sample_app sample_doctor [] (sample_cli True)")
  have w: "ap_Writes sample_app n" for n by (simp add: sample_app_def)
  obtain p where "paths_Resolve (Some sample_getenv) = Inr p" using sample_paths by auto
  then have "code = 1"
    using r by (simp add: runDoctor_def doctor_config_def doctor_provider_def sample_doctor_def outside_def sample_app_def sample_cli_def
      writeDoctorLine_def write_out_def Let_def doctor_daemon_def obedient_def errorExitCode_def split: prod.splits)
  then show ?thesis using r doctor_verdict [OF r w] by (auto simp: last_append)
qed

end
