(* ===== verification/Command_Root.thy ===== *)
theory Command_Root
  imports Command_Agent Command_Doctor
begin

text \<open>
  \<open>command/root.go\<close>: which command the first argument names. Everything that is not a command of the
  program is meant for the official client.
\<close>

record 'v app_env =
  ae_Daemon :: "'v daemon_env"
  ae_Serve :: "'v serve_env"
  ae_Doctor :: "'v doctor_env"
  ae_Agent :: "'v agent_env"
  ae_Version :: string
  ae_Order :: "(string \<times> string) list \<Rightarrow> (string \<times> string) list"

definition on_console :: "(console \<Rightarrow> int \<times> console) \<Rightarrow> 'v cli \<Rightarrow> int \<times> 'v cli" where
  "on_console f st = (case f (cl_console st) of (code, c) \<Rightarrow> (code, st\<lparr>cl_console := c\<rparr>))"

definition runVersion :: "app \<Rightarrow> string \<Rightarrow> string list \<Rightarrow> console \<Rightarrow> int \<times> console" where
  "runVersion a version args c =
     (if length args \<noteq> 1 then (usageExitCode, c)
      else finish a (''cursor-cli-byok '' @ version) c)"

text \<open>The number bounds the turns of \<open>stop\<close> and of \<open>Ensure\<close>.\<close>

definition app_Run :: "nat \<Rightarrow> app \<Rightarrow> 'v app_env \<Rightarrow> string list \<Rightarrow> 'v cli \<Rightarrow> (int \<times> 'v cli) option" where
  "app_Run n a env args st =
     (let verb = (case args of [] \<Rightarrow> [] | v # _ \<Rightarrow> v) in
      if verb = ''config'' then Some (on_console (runConfig a (tl args)) st)
      else if verb = ''serve'' then Some (runServe a (ae_Version env) (ae_Order env) (ae_Serve env) (tl args) st)
      else if verb = ''status'' then Some (runStatus a (ae_Daemon env) (tl args) st)
      else if verb = ''stop'' then runStop n a (ae_Daemon env) (tl args) st
      else if verb = ''doctor'' then Some (runDoctor a (ae_Doctor env) (tl args) st)
      else if verb = ''--version'' \<or> verb = ''-v'' then Some (on_console (runVersion a (ae_Version env) args) st)
      else Some (runAgent n a (ae_Version env) (ae_Agent env) args st))"

section \<open>The program as a whole\<close>

text \<open>Only the command that is meant to do something to the daemon or the client does it.\<close>

lemma console_log [simp]: "cl_log (snd (on_console f st)) = cl_log st"
  by (simp add: on_console_def split: prod.split)

lemma doctor_log:
  assumes "runDoctor a env args st = (code, st')" and "cl_log st = []"
  shows "\<forall>x\<in>set (cl_log st'). \<exists>s. x = Found s \<or> x = Passed s"
proof -
  have cfg: "doctor_config a env rp st = ((l, r), st') \<Longrightarrow> cl_log st' = cl_log st" for rp l r and st st' :: "'a cli"
    by (auto simp: doctor_config_def dest: outside_log split: sum.splits prod.splits if_splits)
  have prov: "doctor_provider env m st = (r, st') \<Longrightarrow> cl_log st' = cl_log st" for m r and st st' :: "'a cli"
    by (auto simp: doctor_provider_def dest: outside_log split: sum.splits prod.splits if_splits option.splits)
  have dm: "doctor_daemon e rp st = (r, st') \<Longrightarrow> \<exists>l. cl_log st' = cl_log st @ l \<and> (\<forall>x\<in>set l. \<exists>s. x = Found s \<or> x = Passed s)"
    for e rp r and st st' :: "'a cli"
  proof (cases rp)
    case (Inr p)
    assume d: "doctor_daemon e rp st = (r, st')"
    obtain r1 st1 where ld: "outside (de_load e (StatePath p)) st = (r1, st1)" by (cases "outside (de_load e (StatePath p)) st")
    show ?thesis
    proof (cases r1)
      case (Inl x)
      then have "cl_log st' = cl_log st" using d Inr ld outside_log [OF ld] by (auto simp: doctor_daemon_def split: if_splits)
      then show ?thesis by simp
    next
      case s: (Inr s)
      obtain al st2 where al: "outside (de_alive e (ds_PID s)) (noted (Found s) st1) = (al, st2)"
        by (cases "outside (de_alive e (ds_PID s)) (noted (Found s) st1)")
      obtain r3 st3 where ck: "outside (de_check e s) st2 = (r3, st3)" by (cases "outside (de_check e s) st2")
      have "st' = st2 \<or> st' = st3 \<or> st' = noted (Passed s) st3"
        using d Inr ld s al ck by (cases al; cases r3) (auto simp: doctor_daemon_def)
      then show ?thesis using outside_log [OF ld] outside_log [OF al] outside_log [OF ck] by auto
    qed
  qed (auto simp: doctor_daemon_def)
  have put: "writeDoctorLine a l st k = (code, st') \<Longrightarrow> (\<exists>c. st' = st\<lparr>cl_console := c\<rparr>) \<or> (\<exists>c. k (st\<lparr>cl_console := c\<rparr>) = (code, st'))"
    for l k code and st st' :: "'a cli"
    by (auto simp: writeDoctorLine_def split: prod.splits if_splits)
  obtain l1 ready st1 where c: "doctor_config a env (paths_Resolve (Some (ap_Getenv a))) st = ((l1, ready), st1)"
    by (cases "doctor_config a env (paths_Resolve (Some (ap_Getenv a))) st") auto
  have log1: "cl_log st1 = []" using cfg [OF c] assms(2) by simp
  show ?thesis
  proof (cases "args = []")
    case True
    from assms(1) True c have "writeDoctorLine a l1 st1 (\<lambda>st.
        case doctor_cursor a env (cl_world st) of (line, cursorReady) \<Rightarrow>
        writeDoctorLine a line st (\<lambda>st.
        case doctor_provider env ready st of ((line, providerReady), st) \<Rightarrow>
        writeDoctorLine a line st (\<lambda>st.
        case doctor_daemon (dr_Daemon env) (paths_Resolve (Some (ap_Getenv a))) st of ((line, daemonReady), st) \<Rightarrow>
        writeDoctorLine a line st (\<lambda>st.
          let allHealthy = (ready \<noteq> None \<and> cursorReady \<and> providerReady \<and> daemonReady) in
          writeDoctorLine a (if allHealthy then ''doctor: ok'' else ''doctor: failed'') st (\<lambda>st.
            (if allHealthy then 0 else errorExitCode, st)))))) = (code, st')"
      by (simp add: runDoctor_def Let_def)
    then show ?thesis using log1
      by (auto simp: Let_def dest!: put prov dm split: prod.splits)
  next
    case False
    then show ?thesis using assms by (simp add: runDoctor_def)
  qed
qed

text \<open>
  Which command line makes which entries of the log. A state is removed under the lock and a pid is signalled by the command itself
  only for \<open>stop\<close>; only \<open>serve\<close> runs the service; and only a command line that is not a command of the program runs the daemon
  manager and starts the official client, with the arguments unchanged. What the manager did is the list of acts in its own entry: it
  may take the lock, remove a stale state, and start a child and stop it, under the conditions of \<open>ensure_safe\<close>; and
  \<open>cursorcli.Run\<close> forwards the program's signals to the client it started, which is not an entry of its own.
\<close>

theorem commands_keep_apart:
  assumes run: "app_Run n a env args st = Some (code, st')" and start: "cl_log st = []" and act: "x \<in> set (cl_log st')"
  shows "(x = State_Removed \<or> x = Lock_Taken \<or> (\<exists>pid. x = Signaled pid) \<longrightarrow> args \<noteq> [] \<and> hd args = ''stop'')
    \<and> ((\<exists>l. x = Service_Ran l) \<longrightarrow> args \<noteq> [] \<and> hd args = ''serve'')
    \<and> ((\<exists>spec. x = Launched spec) \<or> (\<exists>acts. x = Manager_Ran acts) \<longrightarrow> (args = [] \<or> hd args \<notin> {''config'', ''serve'', ''status'', ''stop'', ''doctor'', ''--version'', ''-v''})
        \<and> runAgent n a (ae_Version env) (ae_Agent env) args st = (code, st'))"
proof -
  have pair: "p = (code, st') \<Longrightarrow> snd p = st'" for p :: "int \<times> 'a cli" by auto
  consider (quiet) f where "on_console f st = (code, st')"
    | (serve) rest where "args = ''serve'' # rest" "runServe a (ae_Version env) (ae_Order env) (ae_Serve env) rest st = (code, st')"
    | (status) rest where "runStatus a (ae_Daemon env) rest st = (code, st')"
    | (stop) rest where "args = ''stop'' # rest" "runStop n a (ae_Daemon env) rest st = Some (code, st')"
    | (doctor) rest where "runDoctor a (ae_Doctor env) rest st = (code, st')"
    | (agent) "args = [] \<or> hd args \<notin> {''config'', ''serve'', ''status'', ''stop'', ''doctor'', ''--version'', ''-v''}"
        "runAgent n a (ae_Version env) (ae_Agent env) args st = (code, st')"
    using run by (cases args) (auto simp: app_Run_def Let_def split: if_splits)
  then show ?thesis
  proof cases
    case (quiet f)
    then show ?thesis using start act by (auto dest!: pair)
  next
    case (serve rest)
    from serve_locked [OF serve(2) start] show ?thesis using act serve(1) by auto
  next
    case (status rest)
    from status_log [OF status start] act show ?thesis by auto
  next
    case (stop rest)
    have "(\<forall>l. x \<noteq> Service_Ran l) \<and> (\<forall>spec. x \<noteq> Launched spec) \<and> (\<forall>acts. x \<noteq> Manager_Ran acts)"
      using stop(2) start
    proof (cases rule: stop_run_log)
      case (found s before l)
      then show ?thesis using act by (auto simp: stop_end_def removal_def)
    qed (use act in auto)
    then show ?thesis using stop(1) by simp
  next
    case (doctor rest)
    from doctor_log [OF doctor start] act show ?thesis by auto
  next
    case agent
    from agent_log [OF agent(2) start] act show ?thesis using agent by auto
  qed
qed

definition sample_env :: "bool serve_env \<Rightarrow> bool agent_env \<Rightarrow> bool app_env" where
  "sample_env serve agent = \<lparr> ae_Daemon = obedient, ae_Serve = serve, ae_Doctor = sample_doctor, ae_Agent = agent, ae_Version = ''v1'', ae_Order = id \<rparr>"

theorem commands_keep_apart_witness:
  "\<forall>serve agent. \<exists>st'. app_Run 1 sample_app (sample_env serve agent) [''stop''] (sample_cli False) = Some (0, st') \<and> Signaled 77 \<in> set (cl_log st')
     \<and> (\<forall>l. Service_Ran l \<notin> set (cl_log st'))"
proof (intro allI)
  fix serve agent
  obtain p where p: "paths_Resolve (Some sample_getenv) = Inr p" using sample_paths by auto
  have "ap_Getenv sample_app = sample_getenv" "ap_Writes sample_app n" "ds_PID sample_state = 77" for n
    by (simp_all add: sample_app_def sample_state_def)
  then obtain st' where st': "app_Run 1 sample_app (sample_env serve agent) [''stop''] (sample_cli False) = Some (0, st')" "Signaled 77 \<in> set (cl_log st')"
    using p by (simp add: app_Run_def Let_def sample_env_def runStop_def stop_found_def obedient_def outside_def sample_cli_def noted_def stopped_def say_def write_out_def)
  have "Service_Ran l \<notin> set (cl_log st')" for l
    using commands_keep_apart [OF st'(1), of "Service_Ran l"] by (auto simp: sample_cli_def)
  then show "\<exists>st'. app_Run 1 sample_app (sample_env serve agent) [''stop''] (sample_cli False) = Some (0, st') \<and> Signaled 77 \<in> set (cl_log st')
     \<and> (\<forall>l. Service_Ran l \<notin> set (cl_log st'))" using st' by blast
qed

end
