(* ===== verification/Cert_Manager.thy ===== *)
theory Cert_Manager
  imports Atomic_Write Go_Time
begin

text \<open>
  \<open>certs/manager.go\<close>: the certificate authority and the server certificate of the daemon. Material that
  is there and valid is used again, anything else is replaced, and what is used was validated. The
  cryptography (\<open>crypto/x509\<close>, \<open>crypto/tls\<close>, \<open>encoding/pem\<close>, the random source) is a parameter.
\<close>

section \<open>Times\<close>

definition time_nanos :: "gotime \<Rightarrow> int" where
  "time_nanos t = 1000000000 * time_seconds t + int (tm_Nano t)"

text \<open>\<open>AddDate\<close> of years, for a time in UTC: a leap day becomes the first of March.\<close>

definition add_years :: "nat \<Rightarrow> gotime \<Rightarrow> gotime" where
  "add_years k t = (let y = tm_Year t + k in
     if tm_Month t = 2 \<and> tm_Day t = 29 \<and> \<not> leap_year y then t\<lparr>tm_Year := y, tm_Month := 3, tm_Day := 1\<rparr>
     else t\<lparr>tm_Year := y\<rparr>)"

definition minimumRemainingValidity :: int where
  "minimumRemainingValidity = 86400000000000"

section \<open>Cryptography\<close>

text \<open>What the program looks at of a parsed certificate; times are instants in nanoseconds.\<close>

record certificate =
  ce_IsCA :: bool
  ce_NotBefore :: int
  ce_NotAfter :: int
  ce_PublicKey :: bytes

datatype private_key = ECDSA_Key bytes | Other_Key

record cert_template =
  ct_Serial :: nat
  ct_CommonName :: string
  ct_Organization :: "string list"
  ct_NotBefore :: int
  ct_NotAfter :: int
  ct_KeyUsage :: "string set"
  ct_ExtKeyUsage :: "string list"
  ct_BasicConstraintsValid :: bool
  ct_IsCA :: bool
  ct_MaxPathLen :: int
  ct_DNSNames :: "string list"
  ct_IPAddresses :: "string list"

text \<open>
  A public key is known by what \<open>PublicKey\<close> of its certificate or its private key gives;
  \<open>cr_PKIX\<close> is its encoding, \<open>cr_Key\<close> and \<open>cr_Int\<close> are the keys and the numbers that are drawn,
  the first and the second time.
\<close>

record crypto =
  cr_Decode :: "bytes \<Rightarrow> (string \<times> bytes) option"
  cr_Encode :: "string \<Rightarrow> bytes \<Rightarrow> bytes"
  cr_Parse :: "bytes \<Rightarrow> certificate result"
  cr_ParseKey :: "bytes \<Rightarrow> private_key result"
  cr_Public :: "bytes \<Rightarrow> bytes"
  cr_PKIX :: "bytes \<Rightarrow> bytes result"
  cr_KeyPair :: "bytes \<Rightarrow> bytes \<Rightarrow> bytes list result"
  cr_Verify :: "certificate \<Rightarrow> certificate \<Rightarrow> string \<Rightarrow> int \<Rightarrow> unit result"
  cr_Key :: "nat \<Rightarrow> bytes result"
  cr_Int :: "nat \<Rightarrow> nat result"
  cr_Create :: "cert_template \<Rightarrow> cert_template \<Rightarrow> bytes \<Rightarrow> bytes \<Rightarrow> bytes result"
  cr_MarshalKey :: "bytes \<Rightarrow> bytes result"

section \<open>The manager\<close>

record Bundle =
  bu_CACertPath :: string
  bu_CAKeyPath :: string
  bu_ServerCertPath :: string
  bu_ServerKeyPath :: string

text \<open>The certificate of the server: its chain and its parsed leaf.\<close>

record tls_certificate =
  tc_Chain :: "bytes list"
  tc_Leaf :: certificate

definition publicKeysEqual :: "crypto \<Rightarrow> bytes \<Rightarrow> bytes \<Rightarrow> bool" where
  "publicKeysEqual cr left right \<longleftrightarrow> (case (cr_PKIX cr left, cr_PKIX cr right) of (Inr l, Inr r) \<Rightarrow> l = r | _ \<Rightarrow> False)"

definition randomSerial :: "crypto \<Rightarrow> nat \<Rightarrow> nat result" where
  "randomSerial cr i = try_then (cr_Int cr i) (\<lambda>serial. Inr (if serial = 0 then 1 else serial))"

definition readFirstCertificate :: "os_env \<Rightarrow> crypto \<Rightarrow> string \<Rightarrow> certificate io" where
  "readFirstCertificate env cr path = io_then id (os_ReadFile env path) (\<lambda>data. case cr_Decode cr data of
     None \<Rightarrow> io_fail (Errorf ''certificate PEM is invalid'')
   | Some (kind, der) \<Rightarrow>
       if kind \<noteq> ''CERTIFICATE'' then io_fail (Errorf ''certificate PEM is invalid'') else io_lift (cr_Parse cr der))"

definition readECDSAKey :: "os_env \<Rightarrow> crypto \<Rightarrow> string \<Rightarrow> bytes io" where
  "readECDSAKey env cr path = io_then id (os_ReadFile env path) (\<lambda>data. case cr_Decode cr data of
     None \<Rightarrow> io_fail (Errorf ''private key PEM is invalid'')
   | Some (kind, der) \<Rightarrow>
       if kind \<noteq> ''PRIVATE KEY'' then io_fail (Errorf ''private key PEM is invalid'')
       else io_then id (io_lift (cr_ParseKey cr der)) (\<lambda>key. case key of
         ECDSA_Key k \<Rightarrow> io_return k | Other_Key \<Rightarrow> io_fail (Errorf ''private key is not ECDSA'')))"

text \<open>The files with their permissions, in the order in which they are looked at and written.\<close>

definition material_modes :: "Bundle \<Rightarrow> (string \<times> nat) list" where
  "material_modes b = [(bu_CACertPath b, 420), (bu_CAKeyPath b, 384), (bu_ServerCertPath b, 420), (bu_ServerKeyPath b, 384)]"

fun check_files :: "os_env \<Rightarrow> (string \<times> nat) list \<Rightarrow> unit io" where
  "check_files env [] = io_return ()"
| "check_files env ((path, mode) # files) =
     io_then id (os_Lstat env path) (\<lambda>info. case info of
       File _ _ _ \<Rightarrow> io_then id (os_Chmod env path mode) (\<lambda>_. check_files env files)
     | _ \<Rightarrow> io_fail (Errorf ''certificate material must be regular files''))"

definition hostnames :: "string list" where
  "hostnames = [''localhost'', ''127.0.0.1'', ''::1'']"

text \<open>The checks on the authority and on the leaf; \<open>Sub\<close> saturates, which a comparison with a day does not see.\<close>

definition check_ca :: "certificate \<Rightarrow> int \<Rightarrow> unit result" where
  "check_ca ca now = (if \<not> ce_IsCA ca \<or> now < ce_NotBefore ca \<or> ce_NotAfter ca - now < minimumRemainingValidity then
      Inl (Errorf ''CA certificate is invalid or expiring'') else Inr ())"

fun verify_names :: "crypto \<Rightarrow> certificate \<Rightarrow> certificate \<Rightarrow> int \<Rightarrow> string list \<Rightarrow> unit result" where
  "verify_names cr leaf ca now [] = Inr ()"
| "verify_names cr leaf ca now (hostname # names) = try_then (cr_Verify cr leaf ca hostname now) (\<lambda>_. verify_names cr leaf ca now names)"

definition check_leaf :: "crypto \<Rightarrow> certificate \<Rightarrow> bytes list \<Rightarrow> int \<Rightarrow> tls_certificate result" where
  "check_leaf cr ca chain now = (case chain of
     [] \<Rightarrow> Inl (Errorf ''server certificate chain is empty'')
   | der # rest \<Rightarrow>
       try_then (cr_Parse cr der) (\<lambda>leaf.
       try_then (verify_names cr leaf ca now hostnames) (\<lambda>_.
         if ce_NotAfter leaf - now < minimumRemainingValidity then Inl (Errorf ''server certificate is expiring'')
         else Inr \<lparr> tc_Chain = chain, tc_Leaf = leaf \<rparr>)))"

text \<open>The authority, with its key; then the server's certificate, as \<open>tls.LoadX509KeyPair\<close> reads it.\<close>

definition load_ca :: "os_env \<Rightarrow> crypto \<Rightarrow> Bundle \<Rightarrow> int \<Rightarrow> certificate io" where
  "load_ca env cr b now =
     io_then id (readFirstCertificate env cr (bu_CACertPath b)) (\<lambda>caCert.
     io_then id (io_lift (check_ca caCert now)) (\<lambda>_.
     io_then id (readECDSAKey env cr (bu_CAKeyPath b)) (\<lambda>caKey.
     io_lift (if \<not> publicKeysEqual cr (ce_PublicKey caCert) (cr_Public cr caKey) then Inl (Errorf ''CA certificate and key do not match'')
       else Inr caCert))))"

definition load_server :: "os_env \<Rightarrow> crypto \<Rightarrow> Bundle \<Rightarrow> int \<Rightarrow> certificate \<Rightarrow> tls_certificate io" where
  "load_server env cr b now caCert =
     io_then id (os_ReadFile env (bu_ServerCertPath b)) (\<lambda>certPEM.
     io_then id (os_ReadFile env (bu_ServerKeyPath b)) (\<lambda>keyPEM.
     io_lift (try_then (cr_KeyPair cr certPEM keyPEM) (\<lambda>chain. check_leaf cr caCert chain now))))"

definition loadAndValidate :: "os_env \<Rightarrow> crypto \<Rightarrow> Bundle \<Rightarrow> gotime \<Rightarrow> tls_certificate io" where
  "loadAndValidate env cr b now =
     io_then id (check_files env (material_modes b)) (\<lambda>_.
     io_then id (load_ca env cr b (time_nanos now)) (load_server env cr b (time_nanos now)))"

definition ca_template :: "nat \<Rightarrow> gotime \<Rightarrow> cert_template" where
  "ca_template serial now = \<lparr> ct_Serial = serial, ct_CommonName = ''cursor-cli-byok local CA'', ct_Organization = [''cursor-cli-byok''],
     ct_NotBefore = time_nanos now - 300000000000, ct_NotAfter = time_nanos (add_years 10 now),
     ct_KeyUsage = {''CertSign'', ''CRLSign'', ''DigitalSignature''}, ct_ExtKeyUsage = [], ct_BasicConstraintsValid = True, ct_IsCA = True,
     ct_MaxPathLen = 0, ct_DNSNames = [], ct_IPAddresses = [] \<rparr>"

definition server_template :: "nat \<Rightarrow> gotime \<Rightarrow> cert_template" where
  "server_template serial now = \<lparr> ct_Serial = serial, ct_CommonName = ''localhost'', ct_Organization = [''cursor-cli-byok''],
     ct_NotBefore = time_nanos now - 300000000000, ct_NotAfter = time_nanos (add_years 1 now),
     ct_KeyUsage = {''DigitalSignature''}, ct_ExtKeyUsage = [''ServerAuth''], ct_BasicConstraintsValid = False, ct_IsCA = False,
     ct_MaxPathLen = 0, ct_DNSNames = [''localhost''], ct_IPAddresses = [''127.0.0.1'', ''::1''] \<rparr>"

definition ensure_label :: "string \<Rightarrow> goerror \<Rightarrow> goerror" where
  "ensure_label s = Wrapf (''ensure certificates: '' @ s)"

text \<open>The material to write: the four files.\<close>

definition new_material :: "crypto \<Rightarrow> Bundle \<Rightarrow> gotime \<Rightarrow> (string \<times> bytes \<times> nat) list result" where
  "new_material cr b now =
     try_wrap (ensure_label ''generate CA key: '') (cr_Key cr 0) (\<lambda>caKey.
     try_wrap (ensure_label ''generate CA serial: '') (randomSerial cr 0) (\<lambda>caSerial.
     try_wrap (ensure_label ''create CA certificate: '')
       (cr_Create cr (ca_template caSerial now) (ca_template caSerial now) (cr_Public cr caKey) caKey) (\<lambda>caDER.
     try_wrap (ensure_label ''generate server key: '') (cr_Key cr 1) (\<lambda>serverKey.
     try_wrap (ensure_label ''generate server serial: '') (randomSerial cr 1) (\<lambda>serverSerial.
     try_wrap (ensure_label ''create server certificate: '')
       (cr_Create cr (server_template serverSerial now) (ca_template caSerial now) (cr_Public cr serverKey) caKey) (\<lambda>serverDER.
     try_wrap (ensure_label ''encode CA key: '') (cr_MarshalKey cr caKey) (\<lambda>caKeyDER.
     try_wrap (ensure_label ''encode server key: '') (cr_MarshalKey cr serverKey) (\<lambda>serverKeyDER.
       Inr [(bu_CACertPath b, cr_Encode cr ''CERTIFICATE'' caDER, 420),
         (bu_CAKeyPath b, cr_Encode cr ''PRIVATE KEY'' caKeyDER, 384),
         (bu_ServerCertPath b, cr_Encode cr ''CERTIFICATE'' serverDER @ cr_Encode cr ''CERTIFICATE'' caDER, 420),
         (bu_ServerKeyPath b, cr_Encode cr ''PRIVATE KEY'' serverKeyDER, 384)]))))))))"

definition writeAtomic :: "os_env \<Rightarrow> string \<Rightarrow> bytes \<Rightarrow> nat \<Rightarrow> unit io" where
  "writeAtomic env path data mode = replace_file env ensure_label ''secure temporary file: '' path data mode
     (io_then (ensure_label ''secure file permissions: '') (os_Chmod env path mode) io_return)"

fun write_material :: "os_env \<Rightarrow> (string \<times> bytes \<times> nat) list \<Rightarrow> unit io" where
  "write_material env [] = io_return ()"
| "write_material env ((path, data, mode) # files) = io_then id (writeAtomic env path data mode) (\<lambda>_. write_material env files)"

definition cert_generate :: "os_env \<Rightarrow> crypto \<Rightarrow> Bundle \<Rightarrow> gotime \<Rightarrow> unit io" where
  "cert_generate env cr b now =
     io_then id (io_lift (new_material cr b now)) (\<lambda>material.
     io_then id (write_material env material) (\<lambda>_. sync_directory env ''ensure certificates: '' (filepath_Dir (bu_CACertPath b))))"

definition bundle_of :: "string \<Rightarrow> Bundle" where
  "bundle_of directory = \<lparr> bu_CACertPath = filepath_Join [directory, ''ca.pem''], bu_CAKeyPath = filepath_Join [directory, ''ca-key.pem''],
     bu_ServerCertPath = filepath_Join [directory, ''server.pem''], bu_ServerKeyPath = filepath_Join [directory, ''server-key.pem''] \<rparr>"

definition certs_Ensure :: "os_env \<Rightarrow> crypto \<Rightarrow> string \<Rightarrow> gotime \<Rightarrow> (Bundle \<times> tls_certificate) io" where
  "certs_Ensure env cr directory now =
     (if directory = [] \<or> \<not> filepath_IsAbs directory then io_fail (Errorf ''ensure certificates: directory must be absolute'')
      else
        io_then (ensure_label ''create directory: '') (os_MkdirAll env directory 448) (\<lambda>_.
        io_then (ensure_label ''secure directory permissions: '') (os_Chmod env directory 448) (\<lambda>_ w.
        case loadAndValidate env cr (bundle_of directory) now w of
          (Inr c, w) \<Rightarrow> (Inr (bundle_of directory, c), w)
        | (Inl _, w) \<Rightarrow>
            io_then id (cert_generate env cr (bundle_of directory) now) (\<lambda>_.
            io_then (ensure_label ''validate generated material: '') (loadAndValidate env cr (bundle_of directory) now) (\<lambda>c.
            io_return (bundle_of directory, c))) w)))"

section \<open>What was validated\<close>

text \<open>The four files' contents are material for \<open>c\<close> that is valid at \<open>now\<close>.\<close>

definition valid_material :: "crypto \<Rightarrow> int \<Rightarrow> bytes \<Rightarrow> bytes \<Rightarrow> bytes \<Rightarrow> bytes \<Rightarrow> tls_certificate \<Rightarrow> bool" where
  "valid_material cr now caPEM caKeyPEM certPEM keyPEM c \<longleftrightarrow> (\<exists>caDER ca keyDER k.
     cr_Decode cr caPEM = Some (''CERTIFICATE'', caDER) \<and> cr_Parse cr caDER = Inr ca
     \<and> ce_IsCA ca \<and> ce_NotBefore ca \<le> now \<and> now + minimumRemainingValidity \<le> ce_NotAfter ca
     \<and> cr_Decode cr caKeyPEM = Some (''PRIVATE KEY'', keyDER) \<and> cr_ParseKey cr keyDER = Inr (ECDSA_Key k)
     \<and> publicKeysEqual cr (ce_PublicKey ca) (cr_Public cr k)
     \<and> cr_KeyPair cr certPEM keyPEM = Inr (tc_Chain c) \<and> tc_Chain c \<noteq> [] \<and> cr_Parse cr (hd (tc_Chain c)) = Inr (tc_Leaf c)
     \<and> (\<forall>h\<in>{''localhost'', ''127.0.0.1'', ''::1''}. cr_Verify cr (tc_Leaf c) ca h now = Inr ())
     \<and> now + minimumRemainingValidity \<le> ce_NotAfter (tc_Leaf c))"

lemma verify_names_iff: "verify_names cr leaf ca now names = Inr () \<longleftrightarrow> (\<forall>h\<in>set names. cr_Verify cr leaf ca h now = Inr ())"
  by (induction names) (simp_all add: try_then_Inr_iff)

lemma check_leaf_iff:
  "check_leaf cr ca chain now = Inr c \<longleftrightarrow> tc_Chain c = chain \<and> chain \<noteq> [] \<and> cr_Parse cr (hd chain) = Inr (tc_Leaf c)
     \<and> (\<forall>h\<in>{''localhost'', ''127.0.0.1'', ''::1''}. cr_Verify cr (tc_Leaf c) ca h now = Inr ())
     \<and> now + minimumRemainingValidity \<le> ce_NotAfter (tc_Leaf c)"
proof (cases chain)
  case (Cons der rest)
  show ?thesis
  proof (cases "cr_Parse cr der")
    case (Inr leaf)
    then show ?thesis using Cons verify_names_iff [of cr leaf ca now hostnames]
      by (cases c) (auto simp: check_leaf_def try_then_Inr_iff hostnames_def)
  qed (simp add: Cons check_leaf_def)
qed (auto simp: check_leaf_def)

lemma io_then_success: "io_then wrap m k w = (Inr x, w') \<Longrightarrow> \<exists>y v. m w = (Inr y, v) \<and> k y v = (Inr x, w')"
  by (auto simp: io_then_def split: prod.splits sum.splits)

lemma io_lift_success: "io_lift r w = (Inr x, w') \<longleftrightarrow> r = Inr x \<and> w' = w"
  by (cases r) (auto simp: io_lift_def io_fail_def io_return_def)

lemma quiet_certs_lift [intro]: "quiet_io (io_lift r)"
  by (cases r) (auto simp: io_lift_def)

lemma quiet_check_files [intro]: "quiet_io (check_files env files)"
proof (induction files)
  case (Cons f files)
  obtain path mode where pair: "f = (path, mode)" by (cases f)
  have "quiet_io (case info of File _ _ _ \<Rightarrow> io_then id (os_Chmod env path mode) (\<lambda>_. check_files env files)
     | _ \<Rightarrow> io_fail (Errorf ''certificate material must be regular files''))" for info
    using Cons by (cases info) auto
  then show ?case by (simp add: pair quiet_then quiet_reads)
qed auto

lemma quiet_first [intro]: "quiet_io (readFirstCertificate env cr path)"
  unfolding readFirstCertificate_def by (intro quiet_then quiet_reads) (auto split: option.split)

lemma quiet_key [intro]: "quiet_io (readECDSAKey env cr path)"
proof -
  have "quiet_io (case key of ECDSA_Key k \<Rightarrow> io_return k | Other_Key \<Rightarrow> io_fail (Errorf ''private key is not ECDSA''))" for key
    by (cases key) auto
  then show ?thesis unfolding readECDSAKey_def by (intro quiet_then quiet_reads) (auto split: option.split)
qed

lemma quiet_load_ca [intro]: "quiet_io (load_ca env cr b now)"
  unfolding load_ca_def by (intro quiet_then quiet_first quiet_key quiet_certs_lift)

lemma quiet_loadAndValidate: "quiet_io (loadAndValidate env cr b now)"
  unfolding loadAndValidate_def load_server_def by (intro quiet_then quiet_check_files quiet_load_ca quiet_reads quiet_certs_lift)

lemma quiet_same: "quiet_io m \<Longrightarrow> m w = (r, w') \<Longrightarrow> content q (os_files w') = content q (os_files w)"
  unfolding quiet_io_def quiet_from_def same_content_def by (metis snd_conv)

text \<open>What is read of a regular file is its content; only regular files pass the first loop.\<close>

lemma read_is:
  assumes "content path (os_files w) = Some (d, s)" and "os_ReadFile env path w = (Inr d', w')"
  shows "d' = d"
  using triple_success [OF read_triple [of path d s env] assms] .

lemma check_files_regular:
  "check_files env files w = (Inr (), w') \<Longrightarrow> (path, mode) \<in> set files \<Longrightarrow> content path (os_files w) \<noteq> None"
proof (induction files arbitrary: w)
  case (Cons f files)
  obtain p m where f: "f = (p, m)" by (cases f)
  from Cons.prems(1) obtain info w1 where l: "os_Lstat env p w = (Inr info, w1)"
    "(case info of File _ _ _ \<Rightarrow> io_then id (os_Chmod env p m) (\<lambda>_. check_files env files)
     | _ \<Rightarrow> io_fail (Errorf ''certificate material must be regular files'')) w1 = (Inr (), w')"
    by (auto simp: f dest: io_then_success)
  then have reg: "is_file info" by (cases info) (simp_all add: io_fail_def)
  have here: "content p (os_files w) \<noteq> None"
    using triple_success [OF lstat_triple [of p "content p (os_files w)" env] refl l(1)] reg by blast
  from l(2) reg obtain u w2 where c: "os_Chmod env p m w1 = (Inr u, w2)" "check_files env files w2 = (Inr (), w')"
    by (cases info) (auto dest: io_then_success)
  show ?case
  proof (cases "path = p")
    case False
    then have "(path, mode) \<in> set files" using Cons.prems(2) f by simp
    from Cons.IH [OF c(2) this] show ?thesis using quiet_same [OF quiet_chmod c(1)] quiet_same [OF quiet_reads(1) l(1)] by metis
  qed (use here in simp)
qed simp

lemma first_certificate:
  assumes "readFirstCertificate env cr path w = (Inr ca, w')" and "content path (os_files w) = Some (d, s)"
  shows "\<exists>der. cr_Decode cr d = Some (''CERTIFICATE'', der) \<and> cr_Parse cr der = Inr ca"
proof -
  from assms(1) obtain d' w1 where r: "os_ReadFile env path w = (Inr d', w1)" unfolding readFirstCertificate_def by (blast dest: io_then_success)
  then have "d' = d" using read_is [OF assms(2)] by simp
  then show ?thesis
    using assms(1) r by (auto simp: readFirstCertificate_def io_then_def io_fail_def io_lift_success split: option.splits if_splits)
qed

lemma ecdsa_key:
  assumes "readECDSAKey env cr path w = (Inr k, w')" and "content path (os_files w) = Some (d, s)"
  shows "\<exists>der. cr_Decode cr d = Some (''PRIVATE KEY'', der) \<and> cr_ParseKey cr der = Inr (ECDSA_Key k)"
proof -
  from assms(1) obtain d' w1 where r: "os_ReadFile env path w = (Inr d', w1)" unfolding readECDSAKey_def by (blast dest: io_then_success)
  then have "d' = d" using read_is [OF assms(2)] by simp
  then obtain der where d: "cr_Decode cr d = Some (''PRIVATE KEY'', der)"
      "io_then id (io_lift (cr_ParseKey cr der)) (\<lambda>key. case key of
         ECDSA_Key k \<Rightarrow> io_return k | Other_Key \<Rightarrow> io_fail (Errorf ''private key is not ECDSA'')) w1 = (Inr k, w')"
    using assms(1) r by (auto simp: readECDSAKey_def io_then_def [of id "os_ReadFile env path"] io_fail_def split: option.splits if_splits)
  from io_then_success [OF d(2)] obtain key where key: "cr_ParseKey cr der = Inr key"
      "(case key of ECDSA_Key k \<Rightarrow> io_return k | Other_Key \<Rightarrow> io_fail (Errorf ''private key is not ECDSA'')) w1 = (Inr k, w')"
    by (auto simp: io_lift_success)
  then have "key = ECDSA_Key k" by (cases key) (simp_all add: io_return_def io_fail_def)
  then show ?thesis using d(1) key(1) by blast
qed

lemma load_ca_valid:
  assumes "load_ca env cr b now w = (Inr ca, w')"
    and "content (bu_CACertPath b) (os_files w) = Some (caPEM, s1)" "content (bu_CAKeyPath b) (os_files w) = Some (keyPEM, s2)"
  shows "\<exists>caDER keyDER k. cr_Decode cr caPEM = Some (''CERTIFICATE'', caDER) \<and> cr_Parse cr caDER = Inr ca
    \<and> check_ca ca now = Inr () \<and> cr_Decode cr keyPEM = Some (''PRIVATE KEY'', keyDER) \<and> cr_ParseKey cr keyDER = Inr (ECDSA_Key k)
    \<and> publicKeysEqual cr (ce_PublicKey ca) (cr_Public cr k)"
proof -
  from assms(1) obtain ca' w1 k w2 where r: "readFirstCertificate env cr (bu_CACertPath b) w = (Inr ca', w1)" "check_ca ca' now = Inr ()"
    "readECDSAKey env cr (bu_CAKeyPath b) w1 = (Inr k, w2)" "publicKeysEqual cr (ce_PublicKey ca') (cr_Public cr k)" "ca' = ca"
    unfolding load_ca_def by (auto simp: io_lift_success dest!: io_then_success split: if_splits)
  have "content (bu_CAKeyPath b) (os_files w1) = Some (keyPEM, s2)" using quiet_same [OF quiet_first r(1)] assms(3) by simp
  from first_certificate [OF r(1) assms(2)] ecdsa_key [OF r(3) this] r(2,4,5) show ?thesis by blast
qed

lemma load_server_valid:
  assumes "load_server env cr b now ca w = (Inr c, w')"
    and "content (bu_ServerCertPath b) (os_files w) = Some (certPEM, s1)" "content (bu_ServerKeyPath b) (os_files w) = Some (keyPEM, s2)"
  shows "\<exists>chain. cr_KeyPair cr certPEM keyPEM = Inr chain \<and> check_leaf cr ca chain now = Inr c"
proof -
  from assms(1) obtain certPEM' w1 keyPEM' w2 where r: "os_ReadFile env (bu_ServerCertPath b) w = (Inr certPEM', w1)"
    "os_ReadFile env (bu_ServerKeyPath b) w1 = (Inr keyPEM', w2)"
    "try_then (cr_KeyPair cr certPEM' keyPEM') (\<lambda>chain. check_leaf cr ca chain now) = Inr c"
    unfolding load_server_def by (auto simp: io_lift_success dest!: io_then_success)
  have "content (bu_ServerKeyPath b) (os_files w1) = Some (keyPEM, s2)" using quiet_same [OF quiet_reads(3) r(1)] assms(3) by simp
  from read_is [OF assms(2) r(1)] read_is [OF this r(2)] r(3) show ?thesis by (auto simp: try_then_Inr_iff)
qed

lemma load_valid:
  assumes "loadAndValidate env cr b now w = (Inr c, w')"
  shows "\<exists>caPEM caKeyPEM certPEM keyPEM s1 s2 s3 s4.
      content (bu_CACertPath b) (os_files w) = Some (caPEM, s1) \<and> content (bu_CAKeyPath b) (os_files w) = Some (caKeyPEM, s2)
    \<and> content (bu_ServerCertPath b) (os_files w) = Some (certPEM, s3) \<and> content (bu_ServerKeyPath b) (os_files w) = Some (keyPEM, s4)
    \<and> valid_material cr (time_nanos now) caPEM caKeyPEM certPEM keyPEM c"
proof -
  from assms obtain w1 ca w2 where r: "check_files env (material_modes b) w = (Inr (), w1)" "load_ca env cr b (time_nanos now) w1 = (Inr ca, w2)"
    "load_server env cr b (time_nanos now) ca w2 = (Inr c, w')"
    unfolding loadAndValidate_def by (auto dest!: io_then_success)
  have "content (bu_CACertPath b) (os_files w) \<noteq> None" "content (bu_CAKeyPath b) (os_files w) \<noteq> None"
    "content (bu_ServerCertPath b) (os_files w) \<noteq> None" "content (bu_ServerKeyPath b) (os_files w) \<noteq> None"
    using check_files_regular [OF r(1)] by (auto simp: material_modes_def)
  then obtain caPEM caKeyPEM certPEM keyPEM s1 s2 s3 s4 where files: "content (bu_CACertPath b) (os_files w) = Some (caPEM, s1)"
    "content (bu_CAKeyPath b) (os_files w) = Some (caKeyPEM, s2)" "content (bu_ServerCertPath b) (os_files w) = Some (certPEM, s3)"
    "content (bu_ServerKeyPath b) (os_files w) = Some (keyPEM, s4)" by auto
  note same = quiet_same [OF quiet_check_files r(1)] quiet_same [OF quiet_load_ca r(2)]
  obtain caDER keyDER k where ca: "cr_Decode cr caPEM = Some (''CERTIFICATE'', caDER)" "cr_Parse cr caDER = Inr ca"
    "check_ca ca (time_nanos now) = Inr ()" "cr_Decode cr caKeyPEM = Some (''PRIVATE KEY'', keyDER)" "cr_ParseKey cr keyDER = Inr (ECDSA_Key k)"
    "publicKeysEqual cr (ce_PublicKey ca) (cr_Public cr k)"
    using load_ca_valid [OF r(2)] files same by metis
  obtain chain where chain: "cr_KeyPair cr certPEM keyPEM = Inr chain" "check_leaf cr ca chain (time_nanos now) = Inr c"
    using load_server_valid [OF r(3)] files same by metis
  have "ce_IsCA ca" "ce_NotBefore ca \<le> time_nanos now" "time_nanos now + minimumRemainingValidity \<le> ce_NotAfter ca"
    using ca(3) by (auto simp: check_ca_def split: if_splits)
  then have "valid_material cr (time_nanos now) caPEM caKeyPEM certPEM keyPEM c"
    unfolding valid_material_def using ca chain check_leaf_iff [of cr ca chain "time_nanos now" c]
    by (intro exI [of _ caDER] exI [of _ ca] exI [of _ keyDER] exI [of _ k]) simp
  then show ?thesis using files by blast
qed

lemma ensure_paths:
  assumes "certs_Ensure env cr directory now w = (Inr (b, c), w')"
  shows "b = bundle_of directory" and "\<exists>v. loadAndValidate env cr b now v = (Inr c, w')"
proof -
  from assms have "directory \<noteq> [] \<and> filepath_IsAbs directory" by (auto simp: certs_Ensure_def io_fail_def split: if_splits)
  with assms obtain w1 u w2 where r: "(case loadAndValidate env cr (bundle_of directory) now w2 of
          (Inr c, w) \<Rightarrow> (Inr (bundle_of directory, c), w)
        | (Inl _, w) \<Rightarrow>
            io_then id (cert_generate env cr (bundle_of directory) now) (\<lambda>_.
            io_then (ensure_label ''validate generated material: '') (loadAndValidate env cr (bundle_of directory) now) (\<lambda>c.
            io_return (bundle_of directory, c))) w) = (Inr (b, c), w')"
    unfolding certs_Ensure_def by (auto dest!: io_then_success)
  obtain r1 w3 where l: "loadAndValidate env cr (bundle_of directory) now w2 = (r1, w3)" by (cases "loadAndValidate env cr (bundle_of directory) now w2")
  have "b = bundle_of directory \<and> (\<exists>v. loadAndValidate env cr b now v = (Inr c, w'))"
  proof (cases r1)
    case (Inr c1)
    then show ?thesis using r l by auto
  next
    case (Inl e)
    then have "io_then id (cert_generate env cr (bundle_of directory) now) (\<lambda>_.
            io_then (ensure_label ''validate generated material: '') (loadAndValidate env cr (bundle_of directory) now) (\<lambda>c.
            io_return (bundle_of directory, c))) w3 = (Inr (b, c), w')" using r l by simp
    then show ?thesis by (auto simp: io_return_def dest!: io_then_success)
  qed
  then show "b = bundle_of directory" and "\<exists>v. loadAndValidate env cr b now v = (Inr c, w')" by blast+
qed

text \<open>C26: Certificates are never used without having been validated. Whatever was in the directory, whichever calls failed and whatever the
  last run left behind, when \<open>Ensure\<close> succeeds the four files are there, regular, with contents that belong together: an authority
  that is one, valid now and for a day more, with its own private key, and a server certificate whose key fits and which that
  authority vouches for, under all three names the daemon is reached by, for a day more.\<close>

theorem certs_validated:
  assumes "certs_Ensure env cr directory now w = (Inr (b, c), w')"
  shows "b = bundle_of directory \<and> (\<exists>caPEM caKeyPEM certPEM keyPEM s1 s2 s3 s4.
      content (bu_CACertPath b) (os_files w') = Some (caPEM, s1) \<and> content (bu_CAKeyPath b) (os_files w') = Some (caKeyPEM, s2)
    \<and> content (bu_ServerCertPath b) (os_files w') = Some (certPEM, s3) \<and> content (bu_ServerKeyPath b) (os_files w') = Some (keyPEM, s4)
    \<and> valid_material cr (time_nanos now) caPEM caKeyPEM certPEM keyPEM c)"
proof -
  obtain v where v: "loadAndValidate env cr b now v = (Inr c, w')" using ensure_paths(2) [OF assms] by blast
  from load_valid [OF v] show ?thesis
    using ensure_paths(1) [OF assms] quiet_same [OF quiet_loadAndValidate v] by simp
qed

section \<open>Valid material is used again\<close>

lemma content_file: "content p fs = Some (d, s) \<longleftrightarrow> (\<exists>m. node_at fs p = Some (File m d s))"
  unfolding content_def by (cases "node_at fs p") (auto elim!: node_content.elims)

lemma calm_call: "(\<And>n. oe_fails env n = None) \<Longrightarrow> os_call env f w = (fst (f (os_files w)), os_step (fst (f (os_files w))) (snd (f (os_files w))) w)"
  by (simp add: os_call_def split: prod.split)

lemma calm_lstat:
  "(\<And>n. oe_fails env n = None) \<Longrightarrow> content p (os_files w) = Some (d, s) \<Longrightarrow> \<exists>m w'. os_Lstat env p w = (Inr (File m d s), w')"
  by (auto simp: os_Lstat_def calm_call content_file)

lemma calm_chmod:
  "(\<And>n. oe_fails env n = None) \<Longrightarrow> content p (os_files w) = Some (d, s) \<Longrightarrow> \<exists>w'. os_Chmod env p m w = (Inr (), w')"
  by (auto simp: os_Chmod_def calm_call content_file on_path_def follow_file)

lemma calm_read:
  "(\<And>n. oe_fails env n = None) \<Longrightarrow> content p (os_files w) = Some (d, s) \<Longrightarrow> \<exists>w'. os_ReadFile env p w = (Inr d, w')"
  by (auto simp: os_ReadFile_def calm_call content_file on_path_def follow_file)

lemma io_then_step: "m w = (Inr x, v) \<Longrightarrow> io_then wrap m k w = k x v"
  by (simp add: io_then_def)

lemma calm_check_files:
  assumes calm: "\<And>n. oe_fails env n = None"
  shows "\<forall>(p, m)\<in>set files. content p (os_files w) \<noteq> None \<Longrightarrow> \<exists>w'. check_files env files w = (Inr (), w')"
proof (induction files arbitrary: w)
  case (Cons f files)
  obtain p m where f: "f = (p, m)" by (cases f)
  then obtain d s where p: "content p (os_files w) = Some (d, s)" using Cons.prems by auto
  obtain m' w1 where l: "os_Lstat env p w = (Inr (File m' d s), w1)" using calm_lstat [OF calm p] by blast
  note same1 = quiet_same [OF quiet_reads(1) l]
  obtain w2 where c: "os_Chmod env p m w1 = (Inr (), w2)" using calm_chmod [OF calm] same1 p by metis
  have "\<forall>(p, m)\<in>set files. content p (os_files w2) \<noteq> None" using Cons.prems same1 quiet_same [OF quiet_chmod c] by auto
  from Cons.IH [OF this] show ?case by (simp add: f io_then_def l c)
qed (simp add: io_return_def)

lemma calm_directory:
  assumes "\<And>n. oe_fails env n = None" and "is_directory (os_files w) p"
  shows "\<exists>w'. os_Chmod env p m w = (Inr (), w')"
  using assms by (auto simp: os_Chmod_def calm_call is_directory_def on_path_def split: option.splits)

lemma calm_first_certificate:
  assumes calm: "\<And>n. oe_fails env n = None" and "content path (os_files w) = Some (d, s)"
    and "cr_Decode cr d = Some (''CERTIFICATE'', der)" "cr_Parse cr der = Inr ca"
  shows "\<exists>w'. readFirstCertificate env cr path w = (Inr ca, w')"
proof -
  obtain w1 where "os_ReadFile env path w = (Inr d, w1)" using calm_read [OF assms(1,2)] by blast
  then show ?thesis using assms(3,4) by (simp add: readFirstCertificate_def io_then_def io_lift_def io_return_def)
qed

lemma calm_ecdsa_key:
  assumes calm: "\<And>n. oe_fails env n = None" and "content path (os_files w) = Some (d, s)"
    and "cr_Decode cr d = Some (''PRIVATE KEY'', der)" "cr_ParseKey cr der = Inr (ECDSA_Key k)"
  shows "\<exists>w'. readECDSAKey env cr path w = (Inr k, w')"
proof -
  obtain w1 where "os_ReadFile env path w = (Inr d, w1)" using calm_read [OF assms(1,2)] by blast
  then show ?thesis using assms(3,4) by (simp add: readECDSAKey_def io_then_def io_lift_def io_return_def)
qed

lemma load_complete:
  assumes calm: "\<And>n. oe_fails env n = None"
    and files: "content (bu_CACertPath b) (os_files w) = Some (caPEM, s1)" "content (bu_CAKeyPath b) (os_files w) = Some (caKeyPEM, s2)"
      "content (bu_ServerCertPath b) (os_files w) = Some (certPEM, s3)" "content (bu_ServerKeyPath b) (os_files w) = Some (keyPEM, s4)"
    and valid: "valid_material cr (time_nanos now) caPEM caKeyPEM certPEM keyPEM c"
  shows "\<exists>w'. loadAndValidate env cr b now w = (Inr c, w')"
proof -
  obtain caDER ca keyDER k where ca: "cr_Decode cr caPEM = Some (''CERTIFICATE'', caDER)" "cr_Parse cr caDER = Inr ca"
      "check_ca ca (time_nanos now) = Inr ()"
      "cr_Decode cr caKeyPEM = Some (''PRIVATE KEY'', keyDER)" "cr_ParseKey cr keyDER = Inr (ECDSA_Key k)"
      "publicKeysEqual cr (ce_PublicKey ca) (cr_Public cr k)"
    and leaf: "cr_KeyPair cr certPEM keyPEM = Inr (tc_Chain c)" "check_leaf cr ca (tc_Chain c) (time_nanos now) = Inr c"
    using valid by (auto simp: valid_material_def check_leaf_iff check_ca_def)
  obtain w1 where w1: "check_files env (material_modes b) w = (Inr (), w1)"
    using calm_check_files [OF calm, of "material_modes b" w] files by (auto simp: material_modes_def)
  note same1 = quiet_same [OF quiet_check_files w1]
  obtain w2 where w2: "readFirstCertificate env cr (bu_CACertPath b) w1 = (Inr ca, w2)"
    using calm_first_certificate [OF calm _ ca(1,2)] files same1 by metis
  note same2 = quiet_same [OF quiet_first w2]
  obtain w3 where w3: "readECDSAKey env cr (bu_CAKeyPath b) w2 = (Inr k, w3)"
    using calm_ecdsa_key [OF calm _ ca(4,5)] files same1 same2 by metis
  note same3 = quiet_same [OF quiet_key w3]
  obtain w4 where w4: "os_ReadFile env (bu_ServerCertPath b) w3 = (Inr certPEM, w4)"
    using calm_read [OF calm] files same1 same2 same3 by metis
  obtain w5 where w5: "os_ReadFile env (bu_ServerKeyPath b) w4 = (Inr keyPEM, w5)"
    using calm_read [OF calm] files same1 same2 same3 quiet_same [OF quiet_reads(3) w4] by metis
  have "load_ca env cr b (time_nanos now) w1 = (Inr ca, w3)"
    using w2 w3 ca by (simp add: load_ca_def io_then_def io_lift_def io_return_def)
  moreover have "load_server env cr b (time_nanos now) ca w3 = (Inr c, w5)"
    using w4 w5 leaf by (simp add: load_server_def io_then_def io_lift_def io_return_def)
  ultimately show ?thesis using w1 by (simp add: loadAndValidate_def io_then_def)
qed

text \<open>With no call failing, valid material is what \<open>Ensure\<close> returns, and the files keep their contents.\<close>

theorem certs_reused:
  assumes calm: "\<And>n. oe_fails env n = None" and dir: "directory \<noteq> []" "filepath_IsAbs directory" "is_directory (os_files w) directory"
    and files: "content (bu_CACertPath (bundle_of directory)) (os_files w) = Some (caPEM, s1)"
      "content (bu_CAKeyPath (bundle_of directory)) (os_files w) = Some (caKeyPEM, s2)"
      "content (bu_ServerCertPath (bundle_of directory)) (os_files w) = Some (certPEM, s3)"
      "content (bu_ServerKeyPath (bundle_of directory)) (os_files w) = Some (keyPEM, s4)"
    and valid: "valid_material cr (time_nanos now) caPEM caKeyPEM certPEM keyPEM c"
  shows "\<exists>w'. certs_Ensure env cr directory now w = (Inr (bundle_of directory, c), w') \<and> (\<forall>q. content q (os_files w') = content q (os_files w))"
proof -
  have mk: "os_MkdirAll env directory 448 w = (Inr (), w)" using dir(3) by (simp add: os_MkdirAll_def)
  obtain w1 where w1: "os_Chmod env directory 448 w = (Inr (), w1)" using calm_directory [OF calm dir(3)] by blast
  note same = quiet_same [OF quiet_chmod w1]
  obtain w2 where w2: "loadAndValidate env cr (bundle_of directory) now w1 = (Inr c, w2)"
    using load_complete [OF calm _ _ _ _ valid] files same by metis
  have "certs_Ensure env cr directory now w = (Inr (bundle_of directory, c), w2)"
    using dir(1,2) mk w1 w2 by (simp add: certs_Ensure_def io_then_def)
  then show ?thesis using same quiet_same [OF quiet_loadAndValidate w2] by simp
qed

section \<open>An example\<close>

text \<open>An authority \<open>C\<close> with the key \<open>K\<close>, a server certificate \<open>L\<close> with the key \<open>M\<close>; a PEM block is its type's first letter and its content.\<close>

definition sample_crypto :: crypto where
  "sample_crypto = \<lparr> cr_Decode = \<lambda>d. (if take 1 d = ''c'' then Some (''CERTIFICATE'', drop 1 d)
       else if take 1 d = ''k'' then Some (''PRIVATE KEY'', drop 1 d) else None),
     cr_Encode = \<lambda>kind d. (if kind = ''CERTIFICATE'' then ''c'' else ''k'') @ d,
     cr_Parse = \<lambda>d. (if d = ''C'' then Inr \<lparr> ce_IsCA = True, ce_NotBefore = 0, ce_NotAfter = 10 ^ 20, ce_PublicKey = ''K'' \<rparr>
       else if d = ''L'' then Inr \<lparr> ce_IsCA = False, ce_NotBefore = 0, ce_NotAfter = 10 ^ 20, ce_PublicKey = ''M'' \<rparr>
       else Inl (Errorf ''malformed'')),
     cr_ParseKey = \<lambda>d. Inr (ECDSA_Key d), cr_Public = id, cr_PKIX = Inr,
     cr_KeyPair = \<lambda>cert key. (if cert = ''cL'' \<and> key = ''kM'' then Inr [''L''] else Inl (Errorf ''no match'')),
     cr_Verify = \<lambda>leaf ca h now. (if ce_PublicKey ca = ''K'' \<and> ce_PublicKey leaf = ''M'' then Inr () else Inl (Errorf ''unknown authority'')),
     cr_Key = \<lambda>i. Inr (if i = 0 then ''K'' else ''M''), cr_Int = \<lambda>i. Inr i,
     cr_Create = \<lambda>t p pub key. Inr (if ct_IsCA t then ''C'' else ''L''), cr_MarshalKey = Inr \<rparr>"

definition sample_certs_os :: os where
  "sample_certs_os = sample_os\<lparr>os_files := [(''/s'', Directory 448), (''/s/ca.pem'', File 420 ''cC'' True), (''/s/ca-key.pem'', File 384 ''kK'' True),
     (''/s/server.pem'', File 420 ''cL'' True), (''/s/server-key.pem'', File 384 ''kM'' True)]\<rparr>"

definition sample_leaf :: tls_certificate where
  "sample_leaf = \<lparr> tc_Chain = [''L''], tc_Leaf = \<lparr> ce_IsCA = False, ce_NotBefore = 0, ce_NotAfter = 10 ^ 20, ce_PublicKey = ''M'' \<rparr> \<rparr>"

lemma sample_bundle:
  "bundle_of ''/s'' = \<lparr> bu_CACertPath = ''/s/ca.pem'', bu_CAKeyPath = ''/s/ca-key.pem'', bu_ServerCertPath = ''/s/server.pem'', bu_ServerKeyPath = ''/s/server-key.pem'' \<rparr>"
  by (simp add: bundle_of_def filepath_Join_def path_Clean_def Let_def clean_step_def)

lemma directory_at: "node_at fs p = Some (Directory m) \<Longrightarrow> is_directory fs p"
  by (simp add: is_directory_def max_links_def numeral_eq_Suc)

lemma sample_ensured:
  assumes "0 \<le> time_nanos now" "time_nanos now \<le> 9 * 10 ^ 19"
  shows "\<exists>w'. certs_Ensure calm sample_crypto ''/s'' now sample_certs_os = (Inr (bundle_of ''/s'', sample_leaf), w')"
proof -
  have "valid_material sample_crypto (time_nanos now) ''cC'' ''kK'' ''cL'' ''kM'' sample_leaf"
    using assms by (simp add: valid_material_def sample_crypto_def sample_leaf_def publicKeysEqual_def minimumRemainingValidity_def)
  note valid = this
  have dir: "is_directory (os_files sample_certs_os) ''/s''"
    by (rule directory_at [where m = 448]) (simp add: sample_certs_os_def node_at_def)
  have files: "content (bu_CACertPath (bundle_of ''/s'')) (os_files sample_certs_os) = Some (''cC'', True)"
      "content (bu_CAKeyPath (bundle_of ''/s'')) (os_files sample_certs_os) = Some (''kK'', True)"
      "content (bu_ServerCertPath (bundle_of ''/s'')) (os_files sample_certs_os) = Some (''cL'', True)"
      "content (bu_ServerKeyPath (bundle_of ''/s'')) (os_files sample_certs_os) = Some (''kM'', True)"
    by (simp_all add: sample_bundle sample_certs_os_def content_def node_at_def)
  have "''/s'' \<noteq> []" "filepath_IsAbs ''/s''" by (simp_all add: filepath_IsAbs_def)
  from certs_reused [OF calm_fails this dir files valid] show ?thesis by blast
qed

definition sample_now :: gotime where
  "sample_now = \<lparr> tm_Year = 2026, tm_Month = 7, tm_Day = 9, tm_Hour = 12, tm_Minute = 30, tm_Second = 1, tm_Nano = 500, tm_Offset = 0 \<rparr>"

theorem certs_validated_witness:
  "\<exists>w'. certs_Ensure calm sample_crypto ''/s'' sample_now sample_certs_os = (Inr (bundle_of ''/s'', sample_leaf), w')
     \<and> (\<exists>caPEM s. content ''/s/ca.pem'' (os_files w') = Some (caPEM, s))"
proof -
  have "0 \<le> time_nanos sample_now \<and> time_nanos sample_now \<le> 9 * 10 ^ 19"
    by (simp add: sample_now_def time_nanos_def time_seconds_def days_before_def days_in_month_def Let_def upt_rec)
  then obtain w' where w': "certs_Ensure calm sample_crypto ''/s'' sample_now sample_certs_os = (Inr (bundle_of ''/s'', sample_leaf), w')"
    using sample_ensured by blast
  from certs_validated [OF w'] w' show ?thesis by (auto simp: sample_bundle)
qed

end
