(* ===== verification/Spec2Isabelle.thy ===== *)
theory Spec2Isabelle
  imports Connect_Frame Tool_Bridge Tool_Catalog OpenAI_Stream Server_Life Command_Root Cert_Manager
begin

text \<open>
  A verification development for \<open>cursor-cli-byok\<close> (Go, under \<open>src/\<close>): a wrapper that runs the official Cursor CLI against
  the user's own OpenAI-compatible provider. File names below are relative to \<open>src/internal\<close>.

  \<^bold>\<open>The program.\<close> The command a user calls loads the configuration, finds or starts a daemon, hands the provider's secret to
  it and runs the client with its endpoint pointed at the daemon. The daemon is a local HTTPS server. It answers the small
  procedures the client calls besides the agent itself, and it serves the agent: a request arrives as a protobuf message, on its
  own (\<open>BidiAppend\<close>, answered by \<open>RunSSE\<close>) or as a stream of frames (\<open>Run\<close>); it becomes a run of a session; the
  runner asks the provider, pass by pass, executes the tool calls of the model by sending them to the client and waiting for the
  answers, and keeps the finished turns in the conversation. The session turns what happens into frames, and the stream sends
  them. An idle daemon ends itself.

  \<^bold>\<open>Conventions.\<close> Go strings and byte slices are \<open>string\<close> (bytes); a struct is a record, a result with an error is
  \<open>goerror + 'a\<close>; \<open>int32\<close>, \<open>uint32\<close> and \<open>uint64\<close> of the protocol are words. A map is the list of its entries
  where iteration order can matter. A pointer that two places share is an address in a store or a position in a list. Operations
  under a mutex are functions on the state; what happens between them is a step relation, and the properties are invariants of the
  reachable states. What the program shares with other processes, the clock and the network answers as an environment, and what
  it did to them is kept as a list of actions.

  \<^bold>\<open>The Go library.\<close> \<open>Prelude\<close> has the vocabulary; \<open>Go_Strings\<close>, \<open>Go_Json\<close>, \<open>Go_Float\<close>, \<open>Go_Url\<close>,
  \<open>Go_Path\<close>, \<open>Go_Time\<close>, \<open>Go_Duration\<close>, \<open>Go_Sha256\<close>, \<open>Go_Http\<close>, \<open>Go_Flag\<close> and
  \<open>Json_Text\<close> write out what is used of the packages they are named after. \<open>Go_Os\<close> is the file system: any call may fail,
  a file knows whether its data is on the disk, every state between two calls is kept. \<open>Effect_Log\<close> is for programs that act
  on an environment. Third-party code is a parameter: \<open>protowire\<close> is a record of functions with its documented laws in the
  locale \<open>protowire_spec\<close> (\<open>Protowire_Interface\<close>, with a concrete wire format as interpretation), \<open>yaml.v3\<close> and the
  cryptography of \<open>crypto/x509\<close>, \<open>crypto/tls\<close> and \<open>encoding/pem\<close> are records.

  \<^bold>\<open>Protocol\<close> (\<open>protocol/\<close>). \<open>Connect_Frame\<close>: frames (\<open>connect.go\<close>). \<open>Wire_Codec\<close>: fields
  (\<open>wire.go\<close>, \<open>agent.go\<close>); decoding is total. \<open>Proto_Value\<close>: structured values with their limits, both directions
  (\<open>mcp.go\<close>, \<open>tool_mcp.go\<close>). \<open>Client_Message\<close>: what the client sends. \<open>Tool_Common\<close>, \<open>Tool_Read\<close>,
  \<open>Tool_Write\<close>, \<open>Tool_Edit\<close>, \<open>Tool_Files\<close>, \<open>Tool_Shell\<close>, \<open>Tool_MCP\<close> and \<open>Tool_Bridge\<close>:
  every tool's arguments, dispatch, result and display; an answer belongs to its request, results are bounded, a complete result
  can always be shown. What the session needs of a tool is the interface \<open>tool_codec\<close>, which all seven interpret.
  \<open>Model_Catalog\<close>: the model and account answers.

  \<^bold>\<open>Provider\<close> (\<open>provider/\<close>, \<open>tools/\<close>). \<open>Provider\<close> and \<open>Tool_Catalog\<close>: messages, requests, events and
  the built-in tools, with their validation. \<open>Sse\<close>, \<open>OpenAI_Request\<close> and \<open>OpenAI_Stream\<close>: the client; what a
  stream delivers is a function of its lines, and success means that the terminal event was seen.

  \<^bold>\<open>Agent\<close> (\<open>agent/\<close>). \<open>Bounded_Registry\<close>: the scan and the loop by which both registries of the program drop
  what may go, as the interfaces \<open>oldest_scan\<close> and \<open>bounded_registry\<close>. \<open>Conversation\<close>: the registry of conversations between concurrent runs; one in use is never
  evicted. \<open>Runner\<close>: a run either appends its whole turn or nothing, and keeps the history valid for the next request.

  \<^bold>\<open>Server\<close> (\<open>server/\<close>). \<open>Session\<close>, \<open>Session_Steps\<close>, \<open>Session_Stream\<close>: the session's operations, their
  interleavings and the stream beside them; a call is answered at most once, events are sent once and in order, no wake-up is lost.
  \<open>Agent_Registry\<close>: the handler's sessions. \<open>Agent_Handler\<close>: the three procedures and the execution of a run.
  \<open>Compat\<close>: the unary endpoints, the token check and what the server insists on. \<open>Server_Life\<close>: the server ends with its
  context, and says how.

  \<^bold>\<open>Configuration and files\<close> (\<open>config/\<close>, \<open>paths/\<close>, \<open>certs/\<close>). \<open>Config_Types\<close>,
  \<open>Config_Validate\<close>: validation and model resolution. \<open>Atomic_Write\<close>: how any file is replaced, with the interface
  \<open>atomic_store\<close> and, where what is saved reads back, \<open>faithful_store\<close>; \<open>Config_Store\<close> and \<open>Daemon_State\<close> are its
  two interpretations. \<open>Cert_Manager\<close>: no certificate is used that was not validated.

  \<^bold>\<open>Daemon\<close> (\<open>daemon/\<close>). \<open>Daemon_State\<close>: its state and credentials. \<open>Daemon_Lock\<close>: one daemon at a time,
  over a model of \<open>flock\<close>. \<open>Daemon_Manager\<close>: finding, replacing and starting it. \<open>Daemon_Starter\<close>: the child.
  \<open>Daemon_Control\<close>: both ends of the health probe, the hand-over of secrets and the shutdown request. \<open>Idle_Monitor\<close>:
  the idle timer as a step relation. \<open>Daemon_Service\<close>: the daemon's life, with its clean-up on every path.

  \<^bold>\<open>Commands\<close> (\<open>command/\<close>, \<open>cursorcli/\<close>). \<open>Command_Config\<close>: the configuration commands refine a relation
  on configurations that says what each keeps and what it changes (\<open>config_effect\<close>), for a \<open>yaml.v3\<close> that reads a valid configuration back
  up to the order of its header maps. \<open>Command_Daemon\<close>: \<open>status\<close>, \<open>stop\<close>, \<open>serve\<close>. \<open>Command_Doctor\<close>: what the report says of the answers it got. \<open>Cursor_Launch\<close> and
  \<open>Cursor_Run\<close>: the client's arguments, environment, version and run. \<open>Command_Agent\<close>: the launch; \<open>Command_Root\<close>: the
  dispatcher.

  \<^bold>\<open>Bounds and fuel.\<close> Decoders recurse on what is left of their input; where the recursion is bounded by a number, a lemma says
  that the length of the input is enough (\<open>json_fuel\<close>, \<open>json_value_fuel\<close>). The two loops that only the clock ends carry
  a number of turns: for \<open>Ensure\<close>, two more than its deadline allows are enough, and further ones change nothing (\<open>ensure_returns\<close>);
  201 turns are enough for \<open>stop\<close>, five seconds of 25 milliseconds (\<open>stop_returns\<close>). A symbolic link is followed 40 times.

  \<^bold>\<open>Simplifications.\<close> \<open>applyDetachedToolResult\<close> is one step, where the code looks at the sessions under the mutex of each. A
  provider error keeps its kind and text, not the error it wraps, and the root of an error does not look into joined ones, which the
  runner does not make. A value that is copied only to keep a caller from changing it (\<open>cloneTool\<close>, \<open>cloneProviderHeaders\<close>) is
  itself, because values are not changed in place. In the log of the launch the acts of the daemon manager, its lock, the removal of a stale
  state and its child, are the list in one entry, \<open>Manager_Ran\<close>; they are the subject of \<open>ensure_safe\<close>. A stop of the machine keeps of a
  file what was synced; the sync of a directory is a call that may fail, without an effect of its own. The handlers of the daemon are met behind
  the token check by the properties of \<open>Daemon_Service\<close>, and without it by those of \<open>Daemon_Control\<close>.

  \<^bold>\<open>Not modelled.\<close> Listening, TLS, HTTP transport and the timeouts of the HTTP server, the cryptography and YAML are parameters
  or left to the system. \<open>waitForDirectInputClose\<close> only waits. \<open>withDefaults\<close> and
  \<open>signalProcess\<close> of \<open>command/root.go\<close>, \<open>cmd\<close> and \<open>buildinfo\<close> are glue. The stubs for other platforms
  (\<open>*_unsupported.go\<close>, \<open>exitcode_windows.go\<close>) are not built on Unix. The programs of the end-to-end test are left out. Memory limits and the Go scheduler are not modelled:
  a step relation allows every interleaving.
\<close>

end
